(* ===== verification/Prelude.thy ===== *)
theory Prelude
  imports Main
begin

text \<open>
  What every component of the development shares: the values a Python program
  passes around (\<open>val\<close>, the union of JSON and the runtime types the code
  stores in its dictionaries), the exceptions it raises (\<open>exn\<close>, the hierarchy
  of \<open>tandem/domain/errors.py\<close> and the built-in classes the code raises), the
  string operations of the standard library that the code calls, and the table
  operations (\<open>SELECT\<close>, conditional \<open>UPDATE\<close>) that the ledger is made of.
  A Python string is a list of characters, the characters being the code points
  below 256.
\<close>

named_theorems table_simps \<open>facts about row updates and selections\<close>
named_theorems result_simps \<open>facts about results that may be exceptions\<close>

section \<open>Exceptions\<close>

datatype exn =
    TandemError string
  | SchemaValidationError string
  | PolicyViolationError string
  | EntityBindingMismatchError string
  | AmountMismatchError string
  | UncertainEffectError string
  | PrecheckError string
  | PostcheckError string
  | PageDriftError string
  | SessionExpiredError string
  | ComplianceInterstitialError string
  | LeaseConflictError string
  | LedgerIntegrityError string
  | ValueError string
  | TypeError string
  | KeyError string
  | RuntimeError string
  | OverflowError string
  | DecimalOverflow string
  | OtherException string

text \<open>The text \<open>str(exc)\<close> of an exception.\<close>

fun exn_text :: "exn \<Rightarrow> string" where
  "exn_text (TandemError m) = m"
| "exn_text (SchemaValidationError m) = m"
| "exn_text (PolicyViolationError m) = m"
| "exn_text (EntityBindingMismatchError m) = m"
| "exn_text (AmountMismatchError m) = m"
| "exn_text (UncertainEffectError m) = m"
| "exn_text (PrecheckError m) = m"
| "exn_text (PostcheckError m) = m"
| "exn_text (PageDriftError m) = m"
| "exn_text (SessionExpiredError m) = m"
| "exn_text (ComplianceInterstitialError m) = m"
| "exn_text (LeaseConflictError m) = m"
| "exn_text (LedgerIntegrityError m) = m"
| "exn_text (ValueError m) = m"
| "exn_text (TypeError m) = m"
| "exn_text (KeyError m) = m"
| "exn_text (RuntimeError m) = m"
| "exn_text (OverflowError m) = m"
| "exn_text (DecimalOverflow m) = m"
| "exn_text (OtherException m) = m"

text \<open>Which exceptions an \<open>except ValueError\<close> clause catches.\<close>

fun is_ValueError :: "exn \<Rightarrow> bool" where
  "is_ValueError (ValueError m) = True"
| "is_ValueError _ = False"

fun is_LeaseConflict :: "exn \<Rightarrow> bool" where
  "is_LeaseConflict (LeaseConflictError m) = True"
| "is_LeaseConflict _ = False"

type_synonym 'a res = "exn + 'a"

definition rbind :: "'a res \<Rightarrow> ('a \<Rightarrow> 'b res) \<Rightarrow> 'b res" where
  "rbind r f = (case r of Inl e \<Rightarrow> Inl e | Inr x \<Rightarrow> f x)"

lemma rbind_Inl [simp]: "rbind (Inl e) f = Inl e"
  by (simp add: rbind_def)

lemma rbind_Inr [simp]: "rbind (Inr x) f = f x"
  by (simp add: rbind_def)

lemma rbind_eq_Inr [result_simps]:
  "rbind r f = Inr y \<longleftrightarrow> (\<exists>x. r = Inr x \<and> f x = Inr y)"
  by (cases r) simp_all

lemma rbind_eq_Inl [result_simps]:
  "rbind r f = Inl e \<longleftrightarrow> r = Inl e \<or> (\<exists>x. r = Inr x \<and> f x = Inl e)"
  by (cases r) simp_all

fun guard_all :: "('a \<Rightarrow> unit res) \<Rightarrow> 'a list \<Rightarrow> unit res" where
  "guard_all f [] = Inr ()"
| "guard_all f (x # xs) = rbind (f x) (\<lambda>_. guard_all f xs)"

lemma guard_all_ok: "guard_all f xs = Inr () \<longleftrightarrow> (\<forall>x \<in> set xs. f x = Inr ())"
  by (induction xs) (auto simp: rbind_eq_Inr)

section \<open>Strings\<close>

text \<open>An f-string: its literal and interpolated parts, in order.\<close>

definition fstr :: "string list \<Rightarrow> string" where
  "fstr parts = concat parts"

definition is_space :: "char \<Rightarrow> bool" where
  "is_space c = (let n = (of_char c :: nat) in
     (9 \<le> n \<and> n \<le> 13) \<or> (28 \<le> n \<and> n \<le> 32) \<or> n = 133 \<or> n = 160)"

definition lstrip :: "string \<Rightarrow> string" where
  "lstrip s = dropWhile is_space s"

definition strip :: "string \<Rightarrow> string" where
  "strip s = rev (dropWhile is_space (rev (dropWhile is_space s)))"

fun starts_with :: "string \<Rightarrow> string \<Rightarrow> bool" where
  "starts_with [] s = True"
| "starts_with (p # ps) [] = False"
| "starts_with (p # ps) (c # cs) = (p = c \<and> starts_with ps cs)"

definition ends_with :: "string \<Rightarrow> string \<Rightarrow> bool" where
  "ends_with suffix s = starts_with (rev suffix) (rev s)"

text \<open>Python's \<open>needle in haystack\<close>.\<close>

fun contains :: "string \<Rightarrow> string \<Rightarrow> bool" where
  "contains needle [] = (needle = [])"
| "contains needle (c # cs) = (starts_with needle (c # cs) \<or> contains needle cs)"

text \<open>\<open>str.replace\<close>: leftmost, non-overlapping occurrences.\<close>

function replace_all :: "string \<Rightarrow> string \<Rightarrow> string \<Rightarrow> string" where
  "replace_all old new s =
     (if old = [] \<or> s = [] then s
      else if starts_with old s then new @ replace_all old new (drop (length old) s)
      else hd s # replace_all old new (tl s))"
  by pat_completeness auto
termination
  by (relation "measure (\<lambda>(old, new, s). length s)") auto

declare replace_all.simps [simp del]

definition ascii_upper :: "char \<Rightarrow> char" where
  "ascii_upper c = (let n = (of_char c :: nat) in
     if 97 \<le> n \<and> n \<le> 122 then char_of (n - 32) else c)"

definition upper :: "string \<Rightarrow> string" where
  "upper s = map ascii_upper s"

definition ascii_lower :: "char \<Rightarrow> char" where
  "ascii_lower c = (let n = (of_char c :: nat) in
     if 65 \<le> n \<and> n \<le> 90 then char_of (n + 32) else c)"

definition lower :: "string \<Rightarrow> string" where
  "lower s = map ascii_lower s"

definition is_alpha_char :: "char \<Rightarrow> bool" where
  "is_alpha_char c = (let n = (of_char c :: nat) in
     (65 \<le> n \<and> n \<le> 90) \<or> (97 \<le> n \<and> n \<le> 122))"

text \<open>\<open>str.isalpha\<close> on ASCII text.\<close>

definition is_alpha :: "string \<Rightarrow> bool" where
  "is_alpha s = (s \<noteq> [] \<and> list_all is_alpha_char s)"

fun intercalate :: "string \<Rightarrow> string list \<Rightarrow> string" where
  "intercalate sep [] = []"
| "intercalate sep [x] = x"
| "intercalate sep (x # y # ys) = x @ sep @ intercalate sep (y # ys)"

definition digit_char :: "nat \<Rightarrow> char" where
  "digit_char d = char_of (48 + d)"

fun str_nat :: "nat \<Rightarrow> string" where
  "str_nat n = (if n < 10 then [digit_char n] else str_nat (n div 10) @ [digit_char (n mod 10)])"

declare str_nat.simps [simp del]

definition str_int :: "int \<Rightarrow> string" where
  "str_int i = (if i < 0 then CHR ''-'' # str_nat (nat (- i)) else str_nat (nat i))"

definition digit_value :: "char \<Rightarrow> nat option" where
  "digit_value c = (let n = (of_char c :: nat) in if 48 \<le> n \<and> n \<le> 57 then Some (n - 48) else None)"

definition is_digit :: "char \<Rightarrow> bool" where
  "is_digit c = (let n = (of_char c :: nat) in 48 \<le> n \<and> n \<le> 57)"

text \<open>The value of a run of decimal digits, most significant first.\<close>

definition digits_value :: "string \<Rightarrow> nat" where
  "digits_value s = foldl (\<lambda>a c. 10 * a + (of_char c - 48)) 0 s"

lemma starts_with_append [simp]: "starts_with p (p @ s)"
  by (induction p) auto

lemma starts_with_iff: "starts_with p s \<longleftrightarrow> (\<exists>t. s = p @ t)"
  by (induction p s rule: starts_with.induct) auto

lemma contains_iff: "contains n s \<longleftrightarrow> (\<exists>a b. s = a @ n @ b)"
proof (induction n s rule: contains.induct)
  case (1 needle)
  then show ?case by auto
next
  case (2 needle c cs)
  show ?case
  proof
    assume "contains needle (c # cs)"
    then have "starts_with needle (c # cs) \<or> contains needle cs" by simp
    then show "\<exists>a b. c # cs = a @ needle @ b"
    proof
      assume "starts_with needle (c # cs)"
      then obtain t where "c # cs = [] @ needle @ t" by (auto simp: starts_with_iff)
      then show ?thesis by blast
    next
      assume "contains needle cs"
      then obtain a b where "cs = a @ needle @ b" using 2 by blast
      then have "c # cs = (c # a) @ needle @ b" by simp
      then show ?thesis by blast
    qed
  next
    assume "\<exists>a b. c # cs = a @ needle @ b"
    then obtain a b where ab: "c # cs = a @ needle @ b" by blast
    show "contains needle (c # cs)"
    proof (cases a)
      case Nil
      with ab have "starts_with needle (c # cs)" by (auto simp: starts_with_iff)
      then show ?thesis by simp
    next
      case (Cons x xs)
      with ab have "cs = xs @ needle @ b" by simp
      then have "contains needle cs" using 2 by blast
      then show ?thesis by simp
    qed
  qed
qed

lemma digit_char_literals [simp]:
  "digit_char 0 = CHR ''0''" "digit_char (Suc 0) = CHR ''1''" "digit_char 1 = CHR ''1''" "digit_char 2 = CHR ''2''"
  "digit_char 3 = CHR ''3''" "digit_char 4 = CHR ''4''" "digit_char 5 = CHR ''5''"
  "digit_char 6 = CHR ''6''" "digit_char 7 = CHR ''7''" "digit_char 8 = CHR ''8''"
  "digit_char 9 = CHR ''9''"
  by code_simp+

lemma of_char_digit [simp]: "d < 10 \<Longrightarrow> (of_char (digit_char d) :: nat) = 48 + d"
  by (simp add: digit_char_def)

lemma is_digit_digit_char [simp]: "d < 10 \<Longrightarrow> is_digit (digit_char d)"
  by (simp add: is_digit_def)

lemma digits_value_Nil [simp]: "digits_value [] = 0"
  by (simp add: digits_value_def)

lemma digits_value_snoc [simp]: "digits_value (s @ [c]) = 10 * digits_value s + (of_char c - 48)"
  by (simp add: digits_value_def)

lemma str_nat_digits: "list_all is_digit (str_nat n)"
proof (induction n rule: str_nat.induct)
  case (1 n)
  then show ?case
    by (cases "n < 10") (simp_all add: str_nat.simps [of n])
qed

lemma str_nat_nonempty [simp]: "str_nat n \<noteq> []"
  by (subst str_nat.simps) simp

lemma digits_value_str_nat [simp]: "digits_value (str_nat n) = n"
proof (induction n rule: str_nat.induct)
  case (1 n)
  show ?case
  proof (cases "n < 10")
    case True
    then have "digits_value ([] @ [digit_char n]) = n"
      unfolding digits_value_snoc by simp
    with True show ?thesis by (simp add: str_nat.simps [of n])
  next
    case False
    with 1 show ?thesis by (simp add: str_nat.simps [of n])
  qed
qed

lemma str_nat_inj: "str_nat a = str_nat b \<longleftrightarrow> a = b"
  by (metis digits_value_str_nat)

section \<open>Tables\<close>

text \<open>
  A table is the list of its rows in insertion order. \<open>update_where\<close> is a
  conditional \<open>UPDATE\<close>, \<open>rowcount\<close> the number of rows its condition selects,
  \<open>select_first\<close> a \<open>SELECT\<close> read with \<open>scalar\<close>.
\<close>

definition update_where :: "('r \<Rightarrow> bool) \<Rightarrow> ('r \<Rightarrow> 'r) \<Rightarrow> 'r list \<Rightarrow> 'r list" where
  "update_where P f rows = map (\<lambda>r. if P r then f r else r) rows"

definition rowcount :: "('r \<Rightarrow> bool) \<Rightarrow> 'r list \<Rightarrow> nat" where
  "rowcount P rows = length (filter P rows)"

definition select_first :: "('r \<Rightarrow> bool) \<Rightarrow> 'r list \<Rightarrow> 'r option" where
  "select_first P rows = find P rows"

text \<open>The row id SQLite gives the next row of a table with an integer primary key.\<close>

definition next_id :: "nat list \<Rightarrow> nat" where
  "next_id ids = Suc (fold max ids 0)"

lemma update_where_Nil [table_simps, simp]: "update_where P f [] = []"
  by (simp add: update_where_def)

lemma update_where_append [table_simps, simp]:
  "update_where P f (xs @ ys) = update_where P f xs @ update_where P f ys"
  by (simp add: update_where_def)

lemma length_update_where [table_simps, simp]: "length (update_where P f xs) = length xs"
  by (simp add: update_where_def)

lemma update_where_none [table_simps]:
  "(\<And>r. r \<in> set rows \<Longrightarrow> \<not> P r) \<Longrightarrow> update_where P f rows = rows"
  by (induction rows) (auto simp: update_where_def)

lemma map_update_where_same [table_simps]:
  "(\<And>r. r \<in> set rows \<Longrightarrow> P r \<Longrightarrow> g (f r) = g r) \<Longrightarrow> map g (update_where P f rows) = map g rows"
  by (induction rows) (auto simp: update_where_def)

lemma set_update_where: "set (update_where P f rows) = f ` {r \<in> set rows. P r} \<union> {r \<in> set rows. \<not> P r}"
  by (auto simp: update_where_def)

lemma filter_update_where_same:
  "(\<And>r. r \<in> set rows \<Longrightarrow> P r \<Longrightarrow> Q (f r) = Q r) \<Longrightarrow>
   filter Q (update_where P f rows) = update_where P f (filter Q rows)"
  by (induction rows) (auto simp: update_where_def)

lemma filter_update_where_other:
  "(\<And>r. r \<in> set rows \<Longrightarrow> P r \<Longrightarrow> \<not> Q r \<and> \<not> Q (f r)) \<Longrightarrow>
   filter Q (update_where P f rows) = filter Q rows"
  by (induction rows) (auto simp: update_where_def)

lemma select_first_Some:
  "select_first P rows = Some r \<Longrightarrow> r \<in> set rows \<and> P r"
  by (auto simp: select_first_def find_Some_iff)

lemma select_first_None: "select_first P rows = None \<longleftrightarrow> (\<forall>r \<in> set rows. \<not> P r)"
  by (auto simp: select_first_def find_None_iff)

lemma select_first_append:
  "select_first P (xs @ ys) = (case select_first P xs of None \<Rightarrow> select_first P ys | Some r \<Rightarrow> Some r)"
  by (induction xs) (auto simp: select_first_def)

lemma select_first_append_Some [simp]:
  "select_first P xs = Some r \<Longrightarrow> select_first P (xs @ ys) = Some r"
  by (simp add: select_first_append)

lemma select_first_Cons [simp]:
  "select_first P (x # xs) = (if P x then Some x else select_first P xs)"
  by (simp add: select_first_def)

lemma select_first_Nil [simp]: "select_first P [] = None"
  by (simp add: select_first_def)

text \<open>A unique column: two rows with the same key are the same row.\<close>

definition unique_on :: "('r \<Rightarrow> 'k) \<Rightarrow> 'r list \<Rightarrow> bool" where
  "unique_on key rows = distinct (map key rows)"

lemma unique_on_update_where:
  "(\<And>r. r \<in> set rows \<Longrightarrow> P r \<Longrightarrow> key (f r) = key r) \<Longrightarrow> unique_on key rows \<Longrightarrow>
   unique_on key (update_where P f rows)"
  by (simp add: unique_on_def map_update_where_same)

lemma unique_on_snoc:
  "unique_on key rows \<Longrightarrow> (\<And>r. r \<in> set rows \<Longrightarrow> key r \<noteq> key x) \<Longrightarrow> unique_on key (rows @ [x])"
  by (fastforce simp: unique_on_def)

lemma unique_on_eq:
  "unique_on key rows \<Longrightarrow> r \<in> set rows \<Longrightarrow> s \<in> set rows \<Longrightarrow> key r = key s \<Longrightarrow> r = s"
  by (auto simp: unique_on_def distinct_map inj_on_def)

lemma select_first_unique:
  "unique_on key rows \<Longrightarrow> r \<in> set rows \<Longrightarrow> key r = k \<Longrightarrow>
   select_first (\<lambda>r. key r = k) rows = Some r"
  by (induction rows) (auto simp: unique_on_def image_iff)

lemma select_first_update_where_key:
  "(\<And>r. key (f r) = key r) \<Longrightarrow>
   select_first (\<lambda>r. key r = k) (update_where P f rows) =
   map_option (\<lambda>r. if P r then f r else r) (select_first (\<lambda>r. key r = k) rows)"
  by (induction rows) (auto simp: update_where_def)

lemma rowcount_pos: "rowcount P rows \<noteq> 0 \<longleftrightarrow> (\<exists>r \<in> set rows. P r)"
  by (auto simp: rowcount_def filter_empty_conv)

lemma rowcount_unique:
  "unique_on key rows \<Longrightarrow> rowcount (\<lambda>r. key r = k \<and> Q r) rows \<le> 1"
proof (induction rows)
  case Nil
  then show ?case by (simp add: rowcount_def)
next
  case (Cons x xs)
  then have ih: "rowcount (\<lambda>r. key r = k \<and> Q r) xs \<le> 1" and
    x: "\<forall>r \<in> set xs. key r \<noteq> key x" by (simp_all add: unique_on_def image_iff) metis
  show ?case
  proof (cases "key x = k")
    case True
    with x have "filter (\<lambda>r. key r = k \<and> Q r) xs = []" by (auto simp: filter_empty_conv)
    then show ?thesis by (simp add: rowcount_def)
  next
    case False
    with ih show ?thesis by (simp add: rowcount_def)
  qed
qed

text \<open>With a unique key, an \<open>UPDATE\<close> on that key changes one row exactly when its row satisfies the condition.\<close>

lemma rowcount_unique_1:
  assumes u: "unique_on key rows"
  shows "rowcount (\<lambda>r. key r = k \<and> Q r) rows = 1 \<longleftrightarrow>
    (\<exists>r. select_first (\<lambda>r. key r = k) rows = Some r \<and> Q r)"
proof
  assume "rowcount (\<lambda>r. key r = k \<and> Q r) rows = 1"
  then obtain r where r: "r \<in> set rows" "key r = k" "Q r"
    using rowcount_pos [of "\<lambda>r. key r = k \<and> Q r" rows] by auto
  then show "\<exists>r. select_first (\<lambda>r. key r = k) rows = Some r \<and> Q r"
    using select_first_unique [OF u r(1,2)] by blast
next
  assume "\<exists>r. select_first (\<lambda>r. key r = k) rows = Some r \<and> Q r"
  then obtain r where "select_first (\<lambda>r. key r = k) rows = Some r" "Q r" by blast
  then have "\<exists>r \<in> set rows. key r = k \<and> Q r"
    using select_first_Some [of "\<lambda>r. key r = k" rows r] by blast
  then have "rowcount (\<lambda>r. key r = k \<and> Q r) rows \<noteq> 0" by (simp only: rowcount_pos)
  with rowcount_unique [OF u, of k Q] show "rowcount (\<lambda>r. key r = k \<and> Q r) rows = 1" by linarith
qed

end
