(* ===== verification/Calendar.thy ===== *)
theory Calendar
  imports Prelude
begin

text \<open>
  The part of Python's \<open>datetime\<close> module the program uses: proleptic Gregorian
  dates as ordinals (day 1 is 0001-01-01), the weekday with Monday = 0, and
  timestamps as a wall-clock reading in microseconds with an optional offset from
  UTC.  A timestamp without an offset is naive; \<open>instant\<close> is the reading on the
  UTC clock.  Absolute times that the code only ever takes from
  \<open>datetime.now(timezone.utc)\<close> are integers on that clock.
\<close>

section \<open>Dates\<close>

definition is_leap :: "int \<Rightarrow> bool" where
  "is_leap y \<longleftrightarrow> y mod 4 = 0 \<and> (y mod 100 \<noteq> 0 \<or> y mod 400 = 0)"

definition days_before_year :: "int \<Rightarrow> int" where
  "days_before_year y = (y - 1) * 365 + (y - 1) div 4 - (y - 1) div 100 + (y - 1) div 400"

definition month_table :: "int list" where
  "month_table = [0, 31, 59, 90, 120, 151, 181, 212, 243, 273, 304, 334]"

definition days_before_month :: "int \<Rightarrow> int \<Rightarrow> int" where
  "days_before_month y m =
     (if 1 \<le> m \<and> m \<le> 12 then month_table ! nat (m - 1) else 0) + (if 2 < m \<and> is_leap y then 1 else 0)"

definition date_ord :: "int \<Rightarrow> int \<Rightarrow> int \<Rightarrow> int" where
  "date_ord y m d = days_before_year y + days_before_month y m + d"

definition year_of :: "int \<Rightarrow> int" where
  "year_of n =
     (let a = (n - 1) div 146097; r = (n - 1) mod 146097;
          b = r div 36524; r2 = r mod 36524;
          c = r2 div 1461; r3 = r2 mod 1461;
          d = r3 div 365
      in 400 * a + 100 * b + 4 * c + d + 1 - (if d = 4 \<or> b = 4 then 1 else 0))"

definition day_of_year :: "int \<Rightarrow> int" where
  "day_of_year n = n - days_before_year (year_of n) - 1"

definition month_of :: "int \<Rightarrow> int" where
  "month_of n = last (filter (\<lambda>m. days_before_month (year_of n) m \<le> day_of_year n) [1, 2, 3, 4, 5, 6, 7, 8, 9, 10, 11, 12])"

definition day_of_month :: "int \<Rightarrow> int" where
  "day_of_month n = day_of_year n - days_before_month (year_of n) (month_of n) + 1"

definition weekday :: "int \<Rightarrow> int" where
  "weekday n = (n + 6) mod 7"

text \<open>\<open>date.min\<close> and \<open>date.max\<close>; arithmetic beyond them raises \<open>OverflowError\<close>.\<close>

definition min_ord :: int where "min_ord = 1"
definition max_ord :: int where "max_ord = 3652059"

lemma weekday_range: "0 \<le> weekday n \<and> weekday n < 7"
  by (simp add: weekday_def)

lemma weekday_shift: "weekday (n + 7) = weekday n"
  by (simp add: weekday_def algebra_simps) presburger

lemma div_pred:
  fixes y k :: int
  assumes k: "0 < k"
  shows "y div k = (y - 1) div k + (if y mod k = 0 then 1 else 0)"
proof (cases "y mod k = 0")
  case True
  have "(y - 1) div k = y div k - 1"
    using int_div_pos_eq [of "y - 1" k "y div k - 1" "k - 1"] k True div_mult_mod_eq [of y k]
    by (simp add: algebra_simps)
  with True show ?thesis by simp
next
  case False
  have "0 \<le> y mod k - 1" "y mod k - 1 < k"
    using False pos_mod_sign [OF k, of y] pos_mod_bound [OF k, of y] by linarith+
  moreover have "y - 1 = k * (y div k) + (y mod k - 1)" by simp
  ultimately have "(y - 1) div k = y div k" by (intro int_div_pos_eq)
  with False show ?thesis by simp
qed

lemma days_before_year_next:
  "days_before_year (y + 1) = days_before_year y + (if is_leap y then 366 else 365)"
proof -
  have d4: "y div 4 = (y - 1) div 4 + (if y mod 4 = 0 then 1 else 0)"
    by (rule div_pred) simp
  have d100: "y div 100 = (y - 1) div 100 + (if y mod 100 = 0 then 1 else 0)"
    by (rule div_pred) simp
  have d400: "y div 400 = (y - 1) div 400 + (if y mod 400 = 0 then 1 else 0)"
    by (rule div_pred) simp
  have m400: "y mod 400 = 0 \<Longrightarrow> y mod 100 = 0" using mod_mod_cancel [of 100 400 y] by simp
  have m100: "y mod 100 = 0 \<Longrightarrow> y mod 4 = 0" using mod_mod_cancel [of 4 100 y] by simp
  have e: "days_before_year (y + 1) = y * 365 + y div 4 - y div 100 + y div 400"
    by (simp add: days_before_year_def)
  define A B C where "A = (y - 1) div 4" and "B = (y - 1) div 100" and "C = (y - 1) div 400"
  have y: "days_before_year y = (y - 1) * 365 + A - B + C"
    by (simp add: days_before_year_def A_def B_def C_def)
  show ?thesis
    unfolding e y is_leap_def d4 d100 d400 A_def [symmetric] B_def [symmetric] C_def [symmetric]
    using m400 m100 by (cases "y mod 4 = 0"; cases "y mod 100 = 0"; cases "y mod 400 = 0") simp_all
qed

lemma days_before_year_blocks:
  assumes "0 \<le> b" "b \<le> 3" "0 \<le> c" "c \<le> 24" "0 \<le> d" "d \<le> 3"
  shows "days_before_year (400 * a + 100 * b + 4 * c + d + 1) = 146097 * a + 36524 * b + 1461 * c + 365 * d"
proof -
  have 1: "(400 * a + 100 * b + 4 * c + d) div 4 = 100 * a + 25 * b + c"
    using assms by (intro int_div_pos_eq [where r = "d"]) simp_all
  have 2: "(400 * a + 100 * b + 4 * c + d) div 100 = 4 * a + b"
    using assms by (intro int_div_pos_eq [where r = "4 * c + d"]) simp_all
  have 3: "(400 * a + 100 * b + 4 * c + d) div 400 = a"
    using assms by (intro int_div_pos_eq [where r = "100 * b + 4 * c + d"]) simp_all
  show ?thesis by (simp add: days_before_year_def 1 2 3)
qed

lemma year_of_bounds: "days_before_year (year_of n) < n \<and> n \<le> days_before_year (year_of n + 1)"
proof -
  define a where "a = (n - 1) div 146097"
  define r where "r = (n - 1) mod 146097"
  define b where "b = r div 36524"
  define r2 where "r2 = r mod 36524"
  define c where "c = r2 div 1461"
  define r3 where "r3 = r2 mod 1461"
  define d where "d = r3 div 365"
  have n: "n = 146097 * a + r + 1" by (simp add: a_def r_def)
  have r: "0 \<le> r" "r < 146097" "r = 36524 * b + r2" by (simp_all add: r_def b_def r2_def)
  have r2: "0 \<le> r2" "r2 < 36524" "r2 = 1461 * c + r3" by (simp_all add: r2_def c_def r3_def)
  have r3: "0 \<le> r3" "r3 < 1461" by (simp_all add: r3_def)
  have r4: "365 * d \<le> r3" "r3 < 365 * d + 365"
    unfolding d_def by presburger+
  have b: "0 \<le> b" "b \<le> 4" "b = 4 \<longrightarrow> r2 = 0" using r r2 by linarith+
  have c: "0 \<le> c" "c \<le> 24" "c = 24 \<longrightarrow> r3 < 1460" using r2 r3 by linarith+
  have d: "0 \<le> d" "d \<le> 4" "d = 4 \<longrightarrow> r3 = 1460" using r3 r4 by linarith+
  have y: "year_of n = 400 * a + 100 * b + 4 * c + d + 1 - (if d = 4 \<or> b = 4 then 1 else 0)"
    by (simp add: year_of_def Let_def a_def b_def c_def d_def r_def r2_def r3_def)
  show ?thesis
  proof (cases "b = 4")
    case True
    with b c r2 r3 r4 have "r2 = 0" "c = 0" "d = 0" by linarith+
    with True y have y': "year_of n = 400 * a + 100 * 3 + 4 * 24 + 3 + 1" by simp
    have "days_before_year (400 * a + 100 * 3 + 4 * 24 + 3 + 1) = 146097 * a + 36524 * 3 + 1461 * 24 + 365 * 3"
      by (rule days_before_year_blocks) simp_all
    moreover have "days_before_year (400 * (a + 1) + 100 * 0 + 4 * 0 + 0 + 1) = 146097 * (a + 1) + 36524 * 0 + 1461 * 0 + 365 * 0"
      by (rule days_before_year_blocks) simp_all
    moreover have "n = 146097 * a + 146096 + 1" using True n r \<open>r2 = 0\<close> by simp
    ultimately show ?thesis unfolding y' by (simp add: algebra_simps)
  next
    case nb: False
    with b have b3: "b \<le> 3" by simp
    show ?thesis
    proof (cases "d = 4")
      case True
      with d c have c23: "c \<le> 23" by linarith
      from True y have y': "year_of n = 400 * a + 100 * b + 4 * c + 3 + 1" by simp
      have "days_before_year (400 * a + 100 * b + 4 * c + 3 + 1) = 146097 * a + 36524 * b + 1461 * c + 365 * 3"
        using b b3 c by (intro days_before_year_blocks) simp_all
      moreover have "days_before_year (400 * a + 100 * b + 4 * (c + 1) + 0 + 1) = 146097 * a + 36524 * b + 1461 * (c + 1) + 365 * 0"
        using b b3 c c23 by (intro days_before_year_blocks) simp_all
      moreover have "n = 146097 * a + 36524 * b + 1461 * c + 1460 + 1" using True d n r r2 by simp
      ultimately show ?thesis unfolding y' by (simp add: algebra_simps)
    next
      case False
      with d have d3: "d \<le> 3" by simp
      from False nb y have y': "year_of n = 400 * a + 100 * b + 4 * c + d + 1" by simp
      have e: "days_before_year (400 * a + 100 * b + 4 * c + d + 1) = 146097 * a + 36524 * b + 1461 * c + 365 * d"
        using b b3 c d d3 by (intro days_before_year_blocks) simp_all
      have "n = 146097 * a + 36524 * b + 1461 * c + r3 + 1" using n r r2 by simp
      then show ?thesis using r4 e days_before_year_next [of "year_of n"] y' by auto
    qed
  qed
qed

lemma days_before_year_mono: "x \<le> y \<Longrightarrow> days_before_year x \<le> days_before_year y"
proof (induction "nat (y - x)" arbitrary: y)
  case 0
  then show ?case by simp
next
  case (Suc k)
  then have "k = nat (y - 1 - x)" "x \<le> y - 1" by linarith+
  then have "days_before_year x \<le> days_before_year (y - 1)" by (rule Suc.hyps(1))
  then show ?case using days_before_year_next [of "y - 1"] by (auto split: if_splits)
qed

lemma year_of_unique:
  assumes "days_before_year y < n" "n \<le> days_before_year (y + 1)"
  shows "year_of n = y"
proof (rule ccontr)
  assume "year_of n \<noteq> y"
  then consider "year_of n + 1 \<le> y" | "y + 1 \<le> year_of n" by linarith
  then show False
    using year_of_bounds [of n] assms
      days_before_year_mono [of "year_of n + 1" y] days_before_year_mono [of "y + 1" "year_of n"]
    by cases linarith+
qed

text \<open>Days less than a year apart lie in at most two calendar years.\<close>

lemma year_of_window:
  assumes "n \<le> m" "m \<le> n + 365"
  shows "year_of m = year_of n \<or> year_of m = year_of n + 1"
proof (cases "m \<le> days_before_year (year_of n + 1)")
  case True
  then show ?thesis using assms year_of_bounds [of n] year_of_unique [of "year_of n" m] by auto
next
  case False
  have "days_before_year (year_of n + 2) \<ge> days_before_year (year_of n + 1) + 365"
    using days_before_year_next [of "year_of n + 1"] by (simp add: algebra_simps)
  then have "year_of m = year_of n + 1"
    using False assms year_of_bounds [of n] by (intro year_of_unique) (simp_all add: algebra_simps)
  then show ?thesis by simp
qed

section \<open>Timestamps\<close>

definition second_us :: int where "second_us = 1000000"
definition day_us :: int where "day_us = 86400000000"

datatype datetime = DT (wall: int) (offset: "int option")

text \<open>\<open>timezone.utc\<close>, \<open>replace(tzinfo=timezone.utc)\<close> and the position on the UTC clock.\<close>

definition utc :: "int \<Rightarrow> datetime" where
  "utc i = DT i (Some 0)"

definition assume_utc :: "datetime \<Rightarrow> datetime" where
  "assume_utc t = (case offset t of None \<Rightarrow> DT (wall t) (Some 0) | Some _ \<Rightarrow> t)"

definition instant :: "datetime \<Rightarrow> int" where
  "instant t = (case offset t of None \<Rightarrow> wall t | Some off \<Rightarrow> wall t - off)"

definition date_of :: "datetime \<Rightarrow> int" where
  "date_of t = wall t div day_us"

text \<open>
  An institution's time zone (the \<open>tzdata\<close> database, not part of the program): the
  offset to add to a UTC reading, and the offset in force at a local reading.
\<close>

record zone =
  from_utc :: "int \<Rightarrow> int"
  at_wall :: "int \<Rightarrow> int"

definition astimezone :: "zone \<Rightarrow> datetime \<Rightarrow> datetime" where
  "astimezone z t = (let i = instant t; off = from_utc z i in DT (i + off) (Some off))"

definition local_time :: "zone \<Rightarrow> int \<Rightarrow> datetime" where
  "local_time z w = DT w (Some (at_wall z w))"

definition pad :: "nat \<Rightarrow> int \<Rightarrow> string" where
  "pad k i = (let s = str_int i in replicate (k - length s) (CHR ''0'') @ s)"

definition iso_offset :: "int \<Rightarrow> string" where
  "iso_offset off =
     (let s = \<bar>off\<bar> div second_us; h = s div 3600; m = s mod 3600 div 60; sec = s mod 60
      in (if off < 0 then ''-'' else ''+'') @ pad 2 h @ '':'' @ pad 2 m @
         (if sec = 0 then [] else '':'' @ pad 2 sec))"

text \<open>\<open>datetime.isoformat()\<close>.\<close>

definition isoformat :: "datetime \<Rightarrow> string" where
  "isoformat t =
     (let n = date_of t; us = wall t mod day_us; s = us div second_us; f = us mod second_us
      in pad 4 (year_of n) @ ''-'' @ pad 2 (month_of n) @ ''-'' @ pad 2 (day_of_month n) @ ''T'' @
         pad 2 (s div 3600) @ '':'' @ pad 2 (s mod 3600 div 60) @ '':'' @ pad 2 (s mod 60) @
         (if f = 0 then [] else ''.'' @ pad 6 f) @
         (case offset t of None \<Rightarrow> [] | Some off \<Rightarrow> iso_offset off))"

lemma instant_utc [simp]: "instant (utc i) = i"
  by (simp add: instant_def utc_def)

lemma instant_assume_utc [simp]: "instant (assume_utc t) = instant t"
  by (simp add: instant_def assume_utc_def split: option.splits)

lemma assume_utc_aware [simp]: "offset t = Some off \<Longrightarrow> assume_utc t = t"
  by (simp add: assume_utc_def)

lemma instant_astimezone [simp]: "instant (astimezone z t) = instant t"
  by (simp add: instant_def astimezone_def Let_def)

text \<open>\<open>strftime("%Y-%m-%d %H:%M:%S UTC")\<close>: the wall clock, whatever its offset.\<close>

definition utc_label :: "datetime \<Rightarrow> string" where
  "utc_label t =
     (let n = date_of t; s = wall t mod day_us div second_us
      in pad 4 (year_of n) @ ''-'' @ pad 2 (month_of n) @ ''-'' @ pad 2 (day_of_month n) @ '' '' @
         pad 2 (s div 3600) @ '':'' @ pad 2 (s mod 3600 div 60) @ '':'' @ pad 2 (s mod 60) @ '' UTC'')"

end
