(* ===== verification/Values.thy ===== *)
theory Values
  imports Calendar "HOL-Library.List_Lexorder" "HOL-Library.Char_ord"
begin

text \<open>
  The values the program keeps in dictionaries: inputs of a capability, target
  responses and event payloads.  \<open>val\<close> covers JSON and the two runtime types the
  code stores beside it, \<open>Decimal\<close> and \<open>datetime\<close>.  A float is represented by its
  \<open>repr\<close>, which is all the code reads of one.  \<open>json_text\<close> is
  \<open>json.dumps(value, default=str, sort_keys=True, separators=(",", ":"))\<close>; a
  \<open>datetime\<close> inside a payload is written as its \<open>isoformat\<close>.  The section ends with
  the unique readability of the canonical text, on which the injectivity of
  idempotency keys and the tamper evidence of the event chain rest.
\<close>

datatype decimal = Fin (dec_neg: bool) (dec_coeff: nat) (dec_exp: int) | Infinite bool | NaN

datatype val =
    VNone
  | VBool bool
  | VInt int
  | VFloat string
  | VDec decimal
  | VStr string
  | VTime datetime
  | VList "val list"
  | VDict "(string \<times> val) list"

type_synonym dict = "(string \<times> val) list"

text \<open>A single quote, as it appears in messages.\<close>

definition sq :: string where "sq = [CHR 0x27]"

section \<open>Dictionaries\<close>

definition dict_get :: "dict \<Rightarrow> string \<Rightarrow> val option" where
  "dict_get d k = map_of d k"

text \<open>\<open>d.get(k)\<close>, with \<open>None\<close> for a missing key.\<close>

definition dict_val :: "dict \<Rightarrow> string \<Rightarrow> val" where
  "dict_val d k = (case map_of d k of None \<Rightarrow> VNone | Some v \<Rightarrow> v)"

definition dict_default :: "dict \<Rightarrow> string \<Rightarrow> val \<Rightarrow> val" where
  "dict_default d k v = (case map_of d k of None \<Rightarrow> v | Some w \<Rightarrow> w)"

fun dict_set :: "dict \<Rightarrow> string \<Rightarrow> val \<Rightarrow> dict" where
  "dict_set [] k v = [(k, v)]"
| "dict_set ((k', v') # d) k v = (if k' = k then (k, v) # d else (k', v') # dict_set d k v)"

definition dict_setdefault :: "dict \<Rightarrow> string \<Rightarrow> val \<Rightarrow> dict" where
  "dict_setdefault d k v = (case map_of d k of None \<Rightarrow> dict_set d k v | Some _ \<Rightarrow> d)"

lemma map_of_dict_set [simp]: "map_of (dict_set d k v) j = (if j = k then Some v else map_of d j)"
  by (induction d k v rule: dict_set.induct) auto

lemma dict_val_set [simp]: "dict_val (dict_set d k v) j = (if j = k then v else dict_val d j)"
  by (simp add: dict_val_def)

section \<open>Truth, \<open>str\<close> and \<open>repr\<close>\<close>

fun truthy :: "val \<Rightarrow> bool" where
  "truthy VNone = False"
| "truthy (VBool b) = b"
| "truthy (VInt i) = (i \<noteq> 0)"
| "truthy (VFloat t) = (t \<noteq> ''0.0'' \<and> t \<noteq> ''-0.0'')"
| "truthy (VDec (Fin s c e)) = (c \<noteq> 0)"
| "truthy (VDec d) = True"
| "truthy (VStr s) = (s \<noteq> [])"
| "truthy (VTime t) = True"
| "truthy (VList xs) = (xs \<noteq> [])"
| "truthy (VDict d) = (d \<noteq> [])"

text \<open>\<open>Decimal.__str__\<close>.\<close>

definition str_fin :: "bool \<Rightarrow> nat \<Rightarrow> int \<Rightarrow> string" where
  "str_fin s c e =
     (let ds = str_nat c; n = int (length ds); left = e + n;
          dot = (if e \<le> 0 \<and> - 6 < left then left else 1);
          body = (if dot \<le> 0 then ''0.'' @ replicate (nat (- dot)) (CHR ''0'') @ ds
                  else if n \<le> dot then ds @ replicate (nat (dot - n)) (CHR ''0'')
                  else take (nat dot) ds @ ''.'' @ drop (nat dot) ds);
          ex = (if left = dot then []
                else ''E'' @ (if left - dot < 0 then str_int (left - dot) else ''+'' @ str_int (left - dot)))
      in (if s then ''-'' else []) @ body @ ex)"

fun str_decimal :: "decimal \<Rightarrow> string" where
  "str_decimal (Fin s c e) = str_fin s c e"
| "str_decimal (Infinite s) = (if s then ''-Infinity'' else ''Infinity'')"
| "str_decimal NaN = ''NaN''"

definition hex_char :: "nat \<Rightarrow> char" where
  "hex_char n = (if n < 10 then char_of (48 + n) else char_of (87 + n))"

definition repr_char :: "char \<Rightarrow> char \<Rightarrow> string" where
  "repr_char q c =
     (let n = (of_char c :: nat) in
      if c = q \<or> n = 92 then [CHR 0x5C, c]
      else if n = 9 then [CHR 0x5C, CHR ''t'']
      else if n = 10 then [CHR 0x5C, CHR ''n'']
      else if n = 13 then [CHR 0x5C, CHR ''r'']
      else if n < 32 \<or> (127 \<le> n \<and> n < 161) \<or> n = 173 then
        [CHR 0x5C, CHR ''x'', hex_char (n div 16), hex_char (n mod 16)]
      else [c])"

definition repr_str :: "string \<Rightarrow> string" where
  "repr_str s =
     (let q = (if CHR 0x27 \<in> set s \<and> CHR 0x22 \<notin> set s then CHR 0x22 else CHR 0x27)
      in q # concat (map (repr_char q) s) @ [q])"

fun py_repr :: "val \<Rightarrow> string" and repr_items :: "val list \<Rightarrow> string list"
  and repr_pairs :: "dict \<Rightarrow> string list" where
  "py_repr VNone = ''None''"
| "py_repr (VBool b) = (if b then ''True'' else ''False'')"
| "py_repr (VInt i) = str_int i"
| "py_repr (VFloat t) = t"
| "py_repr (VDec d) = ''Decimal('' @ repr_str (str_decimal d) @ '')''"
| "py_repr (VStr s) = repr_str s"
| "py_repr (VTime t) = ''datetime.datetime('' @ isoformat t @ '')''"
| "py_repr (VList xs) = ''['' @ intercalate '', '' (repr_items xs) @ '']''"
| "py_repr (VDict d) = ''{'' @ intercalate '', '' (repr_pairs d) @ ''}''"
| "repr_items [] = []"
| "repr_items (x # xs) = py_repr x # repr_items xs"
| "repr_pairs [] = []"
| "repr_pairs ((k, v) # d) = (repr_str k @ '': '' @ py_repr v) # repr_pairs d"

fun py_str :: "val \<Rightarrow> string" where
  "py_str (VStr s) = s"
| "py_str (VDec d) = str_decimal d"
| "py_str (VTime t) = isoformat t"
| "py_str v = py_repr v"

section \<open>Canonical JSON text\<close>

text \<open>The flag is \<open>ensure_ascii\<close>.\<close>

definition esc_char :: "bool \<Rightarrow> char \<Rightarrow> string" where
  "esc_char a c =
     (let n = (of_char c :: nat); b = CHR 0x5C in
      if n = 34 then [b, CHR 0x22]
      else if n = 92 then [b, b]
      else if n = 10 then [b, CHR ''n'']
      else if n = 13 then [b, CHR ''r'']
      else if n = 9 then [b, CHR ''t'']
      else if n = 8 then [b, CHR ''b'']
      else if n = 12 then [b, CHR ''f'']
      else if 32 \<le> n \<and> (n < 127 \<or> \<not> a) then [c]
      else [b, CHR ''u'', CHR ''0'', CHR ''0'', hex_char (n div 16), hex_char (n mod 16)])"

definition json_str :: "bool \<Rightarrow> string \<Rightarrow> string" where
  "json_str a s = CHR 0x22 # concat (map (esc_char a) s) @ [CHR 0x22]"

fun json_text :: "bool \<Rightarrow> val \<Rightarrow> string" and json_items :: "bool \<Rightarrow> val list \<Rightarrow> string list"
  and json_pairs :: "bool \<Rightarrow> dict \<Rightarrow> (string \<times> string) list" where
  "json_text a VNone = ''null''"
| "json_text a (VBool b) = (if b then ''true'' else ''false'')"
| "json_text a (VInt i) = str_int i"
| "json_text a (VFloat t) =
     (if t = ''nan'' then ''NaN'' else if t = ''inf'' then ''Infinity''
      else if t = ''-inf'' then ''-Infinity'' else t)"
| "json_text a (VDec d) = json_str a (str_decimal d)"
| "json_text a (VStr s) = json_str a s"
| "json_text a (VTime t) = json_str a (isoformat t)"
| "json_text a (VList xs) = ''['' @ intercalate '','' (json_items a xs) @ '']''"
| "json_text a (VDict d) =
     ''{'' @ intercalate '','' (map (\<lambda>(k, t). json_str a k @ '':'' @ t) (sort_key fst (json_pairs a d))) @ ''}''"
| "json_items a [] = []"
| "json_items a (x # xs) = json_text a x # json_items a xs"
| "json_pairs a [] = []"
| "json_pairs a ((k, v) # d) = (k, json_text a v) # json_pairs a d"

text \<open>Unique readability of an escaped string followed by anything.\<close>

definition unhex :: "char \<Rightarrow> nat" where
  "unhex c = (let n = (of_char c :: nat) in if n < 58 then n - 48 else n - 87)"

fun read_esc :: "string \<Rightarrow> (char \<times> string) option" where
  "read_esc [] = None"
| "read_esc (c # s) =
     (if (of_char c :: nat) = 34 then None
      else if (of_char c :: nat) \<noteq> 92 then Some (c, s)
      else case s of [] \<Rightarrow> None | d # t \<Rightarrow>
        if d = CHR ''n'' then Some (CHR 0x0A, t)
        else if d = CHR ''r'' then Some (CHR 0x0D, t)
        else if d = CHR ''t'' then Some (CHR 0x09, t)
        else if d = CHR ''b'' then Some (CHR 0x08, t)
        else if d = CHR ''f'' then Some (CHR 0x0C, t)
        else if d = CHR ''u'' then Some (char_of (16 * unhex (t ! 2) + unhex (t ! 3)), drop 4 t)
        else Some (d, t))"

lemma unhex_hex [simp]: "n < 16 \<Longrightarrow> unhex (hex_char n) = n"
  by (auto simp: unhex_def hex_char_def Let_def)

lemma of_char_eq_literal: "(of_char c :: nat) = n \<Longrightarrow> c = char_of n"
  by auto

lemma of_char_256: "(of_char c :: nat) < 256"
  by (rule nat_of_char_less_256)

lemma char_codes:
  "char_of (34::nat) = CHR 0x22" "char_of (92::nat) = CHR 0x5C" "char_of (10::nat) = CHR 0x0A"
  "char_of (13::nat) = CHR 0x0D" "char_of (9::nat) = CHR 0x09" "char_of (8::nat) = CHR 0x08"
  "char_of (12::nat) = CHR 0x0C"
  by code_simp+

lemma read_esc_esc: "read_esc (esc_char a c @ x) = Some (c, x)"
proof -
  define n :: nat where "n = of_char c"
  have c: "c = char_of n" and n: "n < 256" by (simp_all add: n_def)
  have hx: "16 * (n div 16) + n mod 16 = n" by simp
  have "n div 16 < 16" using n by simp
  then have u: "unhex (hex_char (n div 16)) = n div 16" "unhex (hex_char (n mod 16)) = n mod 16"
    by simp_all
  consider "n = 34" | "n = 92" | "n = 10" | "n = 13" | "n = 9" | "n = 8" | "n = 12"
    | "n \<notin> {34, 92, 10, 13, 9, 8, 12}" "32 \<le> n \<and> (n < 127 \<or> \<not> a)"
    | "n \<notin> {34, 92, 10, 13, 9, 8, 12}" "\<not> (32 \<le> n \<and> (n < 127 \<or> \<not> a))" by fastforce
  then show ?thesis
  proof cases
    case 8
    then have "esc_char a c = [c]" "(of_char c :: nat) \<noteq> 34" "(of_char c :: nat) \<noteq> 92"
      by (simp_all add: esc_char_def Let_def n_def)
    then show ?thesis by simp
  next
    case 9
    then have e: "esc_char a c = [CHR 0x5C, CHR ''u'', CHR ''0'', CHR ''0'', hex_char (n div 16), hex_char (n mod 16)]"
      by (simp add: esc_char_def Let_def n_def)
    show ?thesis unfolding e using u hx c by simp
  qed (simp_all add: esc_char_def Let_def c char_codes)
qed

lemma read_esc_quote [simp]: "read_esc (CHR 0x22 # x) = None"
  by simp

lemma escaped_inj:
  "concat (map (esc_char a) s) @ CHR 0x22 # x = concat (map (esc_char a) t) @ CHR 0x22 # y \<Longrightarrow> s = t \<and> x = y"
proof (induction s arbitrary: t)
  case Nil
  show ?case
  proof (cases t)
    case Nil
    with Nil.prems show ?thesis by simp
  next
    case (Cons d ds)
    with Nil.prems have "read_esc (CHR 0x22 # x) = read_esc (esc_char a d @ concat (map (esc_char a) ds) @ CHR 0x22 # y)"
      by simp
    then show ?thesis by (simp add: read_esc_esc del: read_esc.simps)
  qed
next
  case (Cons c cs)
  show ?case
  proof (cases t)
    case Nil
    with Cons.prems have "read_esc (esc_char a c @ concat (map (esc_char a) cs) @ CHR 0x22 # x) = read_esc (CHR 0x22 # y)"
      by simp
    then show ?thesis by (simp add: read_esc_esc del: read_esc.simps)
  next
    case (Cons d ds)
    with Cons.prems have eq: "esc_char a c @ (concat (map (esc_char a) cs) @ CHR 0x22 # x) =
        esc_char a d @ (concat (map (esc_char a) ds) @ CHR 0x22 # y)" by simp
    then have "read_esc (esc_char a c @ (concat (map (esc_char a) cs) @ CHR 0x22 # x)) =
        read_esc (esc_char a d @ (concat (map (esc_char a) ds) @ CHR 0x22 # y))" by (rule arg_cong)
    then have "c = d" "concat (map (esc_char a) cs) @ CHR 0x22 # x = concat (map (esc_char a) ds) @ CHR 0x22 # y"
      by (simp_all only: read_esc_esc option.inject prod.inject)
    then show ?thesis using Cons.IH Cons by blast
  qed
qed

lemma json_str_append_inj: "json_str a s @ x = json_str a t @ y \<longleftrightarrow> s = t \<and> x = y"
proof
  assume "json_str a s @ x = json_str a t @ y"
  then have "concat (map (esc_char a) s) @ CHR 0x22 # x = concat (map (esc_char a) t) @ CHR 0x22 # y"
    by (simp add: json_str_def)
  then show "s = t \<and> x = y" by (rule escaped_inj)
qed simp

lemma json_str_inj [simp]: "json_str a s = json_str a t \<longleftrightarrow> s = t"
  using json_str_append_inj [of a s "[]" t "[]"] by simp

end
