(* ===== verification/Money.thy ===== *)
theory Money
  imports Values
begin

text \<open>
  \<open>tandem/domain/money.py\<close>: canonical monetary parsing.  A parsed amount is a
  \<open>Decimal\<close> with exponent -2, represented by its sign and its coefficient
  (\<open>money\<close>, a number of cents; the sign of a zero is kept, as \<open>Decimal\<close> keeps it).
  \<open>parse_decimal\<close> is the \<open>Decimal(str)\<close> constructor, \<open>abs_exceeds_max\<close> the
  comparison \<open>abs(amount) > MAX_MONEY\<close> with the rounding to 28 digits and the
  \<open>Overflow\<close> trap of the default decimal context, \<open>quantize_cents\<close> the
  \<open>quantize(CENT, ROUND_HALF_EVEN)\<close>.
\<close>

section \<open>The decimal module\<close>

fun parse_sign :: "string \<Rightarrow> bool \<times> string" where
  "parse_sign [] = (False, [])"
| "parse_sign (c # s) =
     (if c = CHR ''-'' then (True, s) else if c = CHR ''+'' then (False, s) else (False, c # s))"

definition parse_exponent :: "string \<Rightarrow> int option" where
  "parse_exponent s =
     (case s of [] \<Rightarrow> Some 0
      | c # r \<Rightarrow>
         if c = CHR ''e'' \<or> c = CHR ''E'' then
           (let (neg, ds) = parse_sign r in
            if ds \<noteq> [] \<and> list_all is_digit ds
            then Some (if neg then - int (digits_value ds) else int (digits_value ds)) else None)
         else None)"

definition dec_max_adjusted :: int where "dec_max_adjusted = 999999999999999999"
definition dec_min_exp :: int where "dec_min_exp = - 1999999999999999997"
definition context_emax :: int where "context_emax = 999999"
definition context_prec :: nat where "context_prec = 28"

definition make_decimal :: "bool \<Rightarrow> nat \<Rightarrow> int \<Rightarrow> decimal option" where
  "make_decimal neg c e =
     (if dec_max_adjusted < e + int (length (str_nat c)) - 1 \<or> e < dec_min_exp then None
      else Some (Fin neg c e))"

definition parse_fraction :: "string \<Rightarrow> string \<times> string" where
  "parse_fraction r =
     (case r of [] \<Rightarrow> ([], [])
      | c # s \<Rightarrow> if c = CHR ''.'' then (takeWhile is_digit s, dropWhile is_digit s) else ([], r))"

definition parse_finite :: "bool \<Rightarrow> string \<Rightarrow> decimal option" where
  "parse_finite neg u =
     (let ip = takeWhile is_digit u; (fp, rest) = parse_fraction (dropWhile is_digit u) in
      if ip @ fp = [] then None
      else case parse_exponent rest of None \<Rightarrow> None
           | Some e \<Rightarrow> make_decimal neg (digits_value (ip @ fp)) (e - int (length fp)))"

definition parse_decimal :: "string \<Rightarrow> decimal option" where
  "parse_decimal s =
     (let (neg, u) = parse_sign (filter (\<lambda>c. c \<noteq> CHR ''_'') (strip s)); lu = lower u in
      if lu = ''inf'' \<or> lu = ''infinity'' then Some (Infinite neg)
      else if starts_with ''nan'' lu \<and> list_all is_digit (drop 3 lu)
           \<or> starts_with ''snan'' lu \<and> list_all is_digit (drop 4 lu) then Some NaN
      else parse_finite neg u)"

definition half_even :: "nat \<Rightarrow> nat \<Rightarrow> nat" where
  "half_even c p =
     (let q = c div p; r = c mod p in
      if 2 * r < p \<or> (2 * r = p \<and> even q) then q else Suc q)"

text \<open>\<open>abs\<close> rounds to the 28 digits of the default context.\<close>

definition round_context :: "nat \<Rightarrow> int \<Rightarrow> nat \<times> int" where
  "round_context c e =
     (let n = length (str_nat c) in
      if n \<le> context_prec then (c, e)
      else (half_even c (10 ^ (n - context_prec)), e + int (n - context_prec)))"

definition max_money_cents :: nat where "max_money_cents = 999999999999999999"

definition exceeds_cents :: "nat \<Rightarrow> int \<Rightarrow> nat \<Rightarrow> bool" where
  "exceeds_cents c e m =
     (if - 2 \<le> e then m < c * 10 ^ nat (e + 2) else m * 10 ^ nat (- 2 - e) < c)"

definition abs_exceeds_max :: "nat \<Rightarrow> int \<Rightarrow> bool res" where
  "abs_exceeds_max c e =
     (if c = 0 then Inr False
      else let (c', e') = round_context c e in
        if context_emax < e' + int (length (str_nat c')) - 1
        then Inl (DecimalOverflow ''[<class 'decimal.Overflow'>]'')
        else Inr (exceeds_cents c' e' max_money_cents))"

definition quantize_cents :: "nat \<Rightarrow> int \<Rightarrow> nat" where
  "quantize_cents c e = (if - 2 \<le> e then c * 10 ^ nat (e + 2) else half_even c (10 ^ nat (- 2 - e)))"

section \<open>\<open>parse_money\<close> and \<open>format_money\<close>\<close>

datatype money = Money (m_neg: bool) (m_cents: nat)

definition money_val :: "money \<Rightarrow> val" where
  "money_val m = VDec (Fin (m_neg m) (m_cents m) (- 2))"

text \<open>The signed number of cents; \<open>Decimal\<close> comparison is comparison of these.\<close>

definition cents :: "money \<Rightarrow> int" where
  "cents m = (if m_neg m then - int (m_cents m) else int (m_cents m))"

definition money_eq :: "money \<Rightarrow> money \<Rightarrow> bool" where
  "money_eq a b = (cents a = cents b)"

definition parse_amount :: "val \<Rightarrow> decimal res" where
  "parse_amount v =
     (case v of VDec d \<Rightarrow> Inr d
      | _ \<Rightarrow> (case parse_decimal (strip (py_str v)) of
               None \<Rightarrow> Inl (ValueError (fstr [''Invalid monetary amount: '', py_repr v]))
             | Some d \<Rightarrow> Inr d))"

definition settle_amount :: "decimal \<Rightarrow> money res" where
  "settle_amount d =
     (case d of
        Fin s c e \<Rightarrow>
          rbind (abs_exceeds_max c e) (\<lambda>over.
            if over then Inl (ValueError (fstr [''Monetary amount exceeds supported range: '', str_decimal d]))
            else Inr (Money s (quantize_cents c e)))
      | _ \<Rightarrow> Inl (ValueError ''Monetary amount must be finite''))"

definition parse_money :: "val \<Rightarrow> money res" where
  "parse_money v =
     (case v of
        VBool b \<Rightarrow> Inl (ValueError ''Boolean values are not valid monetary amounts'')
      | VFloat t \<Rightarrow>
          (if t = ''nan'' \<or> t = ''inf'' \<or> t = ''-inf''
           then Inl (ValueError ''Monetary amount must be finite'')
           else rbind (parse_amount (VStr t)) settle_amount)
      | _ \<Rightarrow> rbind (parse_amount v) settle_amount)"

definition two_digits :: "nat \<Rightarrow> string" where
  "two_digits n = [digit_char (n div 10 mod 10), digit_char (n mod 10)]"

definition money_text :: "money \<Rightarrow> string" where
  "money_text m = (if m_neg m then ''-'' else []) @ str_nat (m_cents m div 100) @ ''.'' @ two_digits (m_cents m)"

definition format_money :: "val \<Rightarrow> string res" where
  "format_money v = rbind (parse_money v) (\<lambda>m. Inr (money_text m))"

section \<open>Facts\<close>

lemma half_even_bound:
  assumes "0 < p" shows "2 * half_even c p * p \<le> 2 * c + p \<and> 2 * c \<le> 2 * half_even c p * p + p"
proof -
  have c: "c = c div p * p + c mod p" by simp
  have r: "c mod p < p" using assms by simp
  show ?thesis
  proof (cases "2 * (c mod p) < p \<or> (2 * (c mod p) = p \<and> even (c div p))")
    case True
    then have "half_even c p = c div p" by (simp add: half_even_def Let_def)
    moreover have "2 * (c mod p) \<le> p" using True by auto
    ultimately show ?thesis using c by (metis (no_types, lifting) add_le_cancel_left add_mult_distrib2 le_add1 mult.assoc trans_le_add1)
  next
    case False
    then have h: "half_even c p = Suc (c div p)" by (auto simp: half_even_def Let_def)
    have p: "p \<le> 2 * (c mod p)" using False by auto
    have up: "\<And>q t. p \<le> 2 * t \<Longrightarrow> 2 * (Suc q * p) \<le> 2 * (q * p + t) + p"
      by (simp add: algebra_simps)
    have down: "\<And>q t. t < p \<Longrightarrow> 2 * (q * p + t) \<le> 2 * (Suc q * p) + p"
      by (simp add: algebra_simps)
    show ?thesis using up [OF p, of "c div p"] down [OF r, of "c div p"] h c by (simp add: mult.assoc)
  qed
qed

lemma half_even_exact [simp]: "0 < p \<Longrightarrow> half_even (q * p) p = q"
  by (simp add: half_even_def)

lemma half_even_1 [simp]: "half_even c (Suc 0) = c"
  by (simp add: half_even_def)

lemma half_even_le:
  assumes "0 < p" "2 * c < (2 * m + 1) * p" shows "half_even c p \<le> m"
proof (rule ccontr)
  assume "\<not> half_even c p \<le> m"
  then have "Suc m \<le> half_even c p" by simp
  then have "Suc m * p \<le> half_even c p * p" by (rule mult_le_mono1)
  then have "2 * (Suc m * p) \<le> 2 * (half_even c p * p)" by simp
  also have "\<dots> \<le> 2 * c + p" using half_even_bound [OF assms(1), of c] by (simp add: mult.assoc)
  finally show False using assms(2) by (simp add: algebra_simps)
qed

lemma length_str_nat_lower: "c \<noteq> 0 \<Longrightarrow> 10 ^ (length (str_nat c) - 1) \<le> c"
proof (induction c rule: str_nat.induct)
  case (1 n)
  show ?case
  proof (cases "n < 10")
    case True
    then show ?thesis using 1 by (simp add: str_nat.simps [of n])
  next
    case False
    then have ih: "10 ^ (length (str_nat (n div 10)) - 1) \<le> n div 10" using 1 by simp
    have "length (str_nat (n div 10)) \<noteq> 0" by simp
    then obtain k where k: "length (str_nat (n div 10)) = Suc k" by (cases "length (str_nat (n div 10))") auto
    have "10 * 10 ^ k \<le> 10 * (n div 10)" using ih k by simp
    also have "\<dots> \<le> n" by simp
    finally show ?thesis using False k by (simp add: str_nat.simps [of n])
  qed
qed

lemma length_str_nat_upper: "c < 10 ^ length (str_nat c)"
proof (induction c rule: str_nat.induct)
  case (1 n)
  show ?case
  proof (cases "n < 10")
    case True
    then show ?thesis by (simp add: str_nat.simps [of n])
  next
    case False
    then have "n div 10 < 10 ^ length (str_nat (n div 10))" using 1 by simp
    then have "n < 10 * 10 ^ length (str_nat (n div 10))" by (simp add: less_mult_imp_div_less div_less_iff_less_mult mult.commute)
    then show ?thesis using False by (simp add: str_nat.simps [of n])
  qed
qed

lemma length_str_nat_le:
  assumes "c < 10 ^ k" "0 < k" shows "length (str_nat c) \<le> k"
proof (cases "c = 0")
  case True
  then show ?thesis using assms by (simp add: str_nat.simps [of 0])
next
  case False
  show ?thesis
  proof (rule ccontr)
    assume "\<not> length (str_nat c) \<le> k"
    then have "k \<le> length (str_nat c) - 1" by simp
    then have "(10::nat) ^ k \<le> 10 ^ (length (str_nat c) - 1)" by (rule power_increasing) simp
    then show False using length_str_nat_lower [OF False] assms(1) by linarith
  qed
qed

section \<open>Reading back what was written\<close>

definition plain_char :: "char \<Rightarrow> bool" where
  "plain_char c \<longleftrightarrow> is_digit c \<or> c = CHR ''.'' \<or> c = CHR ''-''"

lemma plain_not_space: "plain_char c \<Longrightarrow> \<not> is_space c"
  by (auto simp: plain_char_def is_digit_def is_space_def Let_def)

lemma plain_lower: "plain_char c \<Longrightarrow> ascii_lower c = c"
  by (auto simp: plain_char_def is_digit_def ascii_lower_def Let_def)

lemma strip_plain: "list_all plain_char s \<Longrightarrow> strip s = s"
proof -
  assume p: "list_all plain_char s"
  have "\<And>t. list_all plain_char t \<Longrightarrow> dropWhile is_space t = t"
    by (simp add: dropWhile_eq_self_iff list_all_iff plain_not_space)
  from this [OF p] this [of "rev s"] p show ?thesis by (simp add: strip_def)
qed

lemma lower_plain: "list_all plain_char s \<Longrightarrow> lower s = s"
  by (simp add: lower_def list_all_iff map_idI plain_lower)

lemma is_digit_not_underscore: "plain_char c \<Longrightarrow> c \<noteq> CHR ''_''"
  by (auto simp: plain_char_def is_digit_def)

lemma filter_plain: "list_all plain_char s \<Longrightarrow> filter (\<lambda>c. c \<noteq> CHR ''_'') s = s"
  by (auto simp: list_all_iff is_digit_not_underscore intro: filter_True)

lemma money_text_plain: "list_all plain_char (money_text m)"
  using str_nat_digits [of "m_cents m div 100"]
  by (auto simp: money_text_def two_digits_def list_all_iff plain_char_def)

lemma digits_value_two: "digits_value (str_nat (c div 100) @ two_digits c) = c"
proof -
  have "str_nat (c div 100) @ two_digits c =
      (str_nat (c div 100) @ [digit_char (c div 10 mod 10)]) @ [digit_char (c mod 10)]"
    by (simp add: two_digits_def)
  then have "digits_value (str_nat (c div 100) @ two_digits c) = 10 * (10 * (c div 100) + c div 10 mod 10) + c mod 10"
    by (simp only: digits_value_snoc digits_value_str_nat of_char_digit) simp
  also have "\<dots> = 10 * (10 * (c div 10 div 10) + c div 10 mod 10) + c mod 10"
    by (simp add: div_mult2_eq [symmetric])
  also have "\<dots> = c" by (simp only: mult_div_mod_eq)
  finally show ?thesis .
qed

lemma parse_sign_digits: "s \<noteq> [] \<Longrightarrow> is_digit (hd s) \<Longrightarrow> parse_sign s = (False, s)"
  by (cases s) (auto simp: is_digit_def)

lemma hd_str_nat: "is_digit (hd (str_nat n))"
  using str_nat_digits [of n] str_nat_nonempty [of n] by (cases "str_nat n") auto

lemma takeWhile_digits:
  "list_all is_digit ds \<Longrightarrow> \<not> is_digit c \<Longrightarrow>
   takeWhile is_digit (ds @ c # r) = ds \<and> dropWhile is_digit (ds @ c # r) = c # r"
  by (induction ds) auto

lemma parse_finite_text:
  assumes "c < 10 ^ 20"
  shows "parse_finite neg (str_nat (c div 100) @ ''.'' @ two_digits c) = Some (Fin neg c (- 2))"
proof -
  have tw: "takeWhile is_digit (str_nat (c div 100) @ CHR ''.'' # two_digits c) = str_nat (c div 100)"
      "dropWhile is_digit (str_nat (c div 100) @ CHR ''.'' # two_digits c) = CHR ''.'' # two_digits c"
    using takeWhile_digits [OF str_nat_digits, of "CHR ''.''"] by (simp_all add: is_digit_def)
  have td: "takeWhile is_digit (two_digits c) = two_digits c" "dropWhile is_digit (two_digits c) = []"
    by (simp_all add: two_digits_def)
  have "length (str_nat c) \<le> 20"
    using assms by (intro length_str_nat_le) simp_all
  then show ?thesis
    using digits_value_two [of c]
    by (simp add: parse_finite_def tw parse_fraction_def td parse_exponent_def make_decimal_def
        dec_max_adjusted_def dec_min_exp_def) (simp add: two_digits_def)
qed

lemma not_word:
  assumes "s \<noteq> []" "is_digit (hd s)"
  shows "s \<noteq> ''inf''" "s \<noteq> ''infinity''" "\<not> starts_with ''nan'' s" "\<not> starts_with ''snan'' s"
  using assms by (cases s; auto simp: is_digit_def)+

lemma parse_decimal_text:
  assumes "m_cents m < 10 ^ 20"
  shows "parse_decimal (money_text m) = Some (Fin (m_neg m) (m_cents m) (- 2))"
proof -
  let ?u = "str_nat (m_cents m div 100) @ ''.'' @ two_digits (m_cents m)"
  have u: "?u \<noteq> []" "is_digit (hd ?u)" using hd_str_nat [of "m_cents m div 100"] by simp_all
  have pu: "list_all plain_char ?u"
    using money_text_plain [of m] by (simp add: money_text_def split: if_splits)
  have ps: "parse_sign (filter (\<lambda>c. c \<noteq> CHR ''_'') (strip (money_text m))) = (m_neg m, ?u)"
    using parse_sign_digits [OF u] money_text_plain [of m]
    by (simp add: strip_plain filter_plain del: append_Cons) (simp add: money_text_def)
  show ?thesis
    unfolding parse_decimal_def ps using not_word [OF u] lower_plain [OF pu] parse_finite_text [OF assms]
    by (simp del: append_Cons)
qed

lemma settle_small:
  assumes "c \<le> max_money_cents" shows "settle_amount (Fin s c (- 2)) = Inr (Money s c)"
proof -
  have l: "length (str_nat c) \<le> 18"
    using assms by (intro length_str_nat_le) (simp_all add: max_money_cents_def)
  then have "abs_exceeds_max c (- 2) = Inr False"
    using assms by (simp add: abs_exceeds_max_def round_context_def context_prec_def context_emax_def exceeds_cents_def Let_def)
  then show ?thesis by (simp add: settle_amount_def quantize_cents_def)
qed

lemma parse_money_val: "m_cents m \<le> max_money_cents \<Longrightarrow> parse_money (money_val m) = Inr m"
  by (cases m) (simp add: parse_money_def money_val_def parse_amount_def settle_small)

text \<open>A text that was written for an amount is read as that amount, or is out of range.\<close>

lemma read_money_text:
  assumes "m_cents b < 10 ^ 20" and "parse_money (VStr (money_text b)) = Inr a" shows "a = b"
  using assms by (cases b) (auto simp: parse_money_def parse_amount_def strip_plain money_text_plain parse_decimal_text
      settle_amount_def quantize_cents_def rbind_eq_Inr split: if_splits)

text \<open>\<open>str(amount)\<close>, which the simulators store, is the text that \<open>format_money\<close> writes.\<close>

lemma str_nat_split: "100 \<le> c \<Longrightarrow> str_nat c = str_nat (c div 100) @ two_digits c"
  by (subst str_nat.simps, subst str_nat.simps) (simp add: two_digits_def div_mult2_eq [symmetric])

lemma py_str_money [simp]: "py_str (money_val m) = money_text m"
proof -
  let ?c = "m_cents m"
  have len: "length (two_digits ?c) = 2" by (simp add: two_digits_def)
  consider "?c < 10" | "10 \<le> ?c" "?c < 100" | "100 \<le> ?c" by linarith
  then show ?thesis
  proof cases
    case 1
    then have "str_nat ?c = [digit_char ?c]" "str_nat (?c div 100) = [digit_char 0]" by (subst str_nat.simps, simp)+
    with 1 show ?thesis by (simp add: money_val_def money_text_def str_fin_def two_digits_def Let_def)
  next
    case 2
    then have "str_nat (?c div 10) = [digit_char (?c div 10)]" "str_nat (?c div 100) = [digit_char 0]" by (subst str_nat.simps, simp)+
    moreover from 2 have "str_nat ?c = str_nat (?c div 10) @ [digit_char (?c mod 10)]" by (subst str_nat.simps) simp
    ultimately have "str_nat ?c = two_digits ?c" "str_nat (?c div 100) = [digit_char 0]" using 2 by (simp_all add: two_digits_def)
    with 2 show ?thesis by (simp add: money_val_def money_text_def str_fin_def len Let_def)
  next
    case 3
    then show ?thesis
      by (simp add: money_val_def money_text_def str_fin_def str_nat_split [OF 3] len Let_def del: str_nat.simps)
  qed
qed

lemma parse_money_money_text: "m_cents m \<le> max_money_cents \<Longrightarrow> parse_money (VStr (money_text m)) = Inr m"
  by (cases m) (simp add: parse_money_def parse_amount_def strip_plain money_text_plain parse_decimal_text max_money_cents_def settle_small)

lemma quantize_le:
  assumes "exceeds_cents c e max_money_cents = False" shows "quantize_cents c e \<le> max_money_cents"
proof (cases "- 2 \<le> e")
  case True
  then show ?thesis using assms by (simp add: exceeds_cents_def quantize_cents_def)
next
  case False
  then have "c \<le> max_money_cents * 10 ^ nat (- 2 - e)" using assms by (simp add: exceeds_cents_def)
  moreover have "(2 * max_money_cents + 1) * 10 ^ nat (- 2 - e) =
      2 * (max_money_cents * 10 ^ nat (- 2 - e)) + 10 ^ nat (- 2 - e)"
    by (simp add: add_mult_distrib)
  moreover have "(0::nat) < 10 ^ nat (- 2 - e)" by simp
  ultimately have "2 * c < (2 * max_money_cents + 1) * 10 ^ nat (- 2 - e)" by linarith
  then show ?thesis using False by (simp add: quantize_cents_def half_even_le)
qed

lemma settle_amount_bound:
  assumes "settle_amount (Fin s c e) = Inr m"
  shows "m_cents m \<le> max_money_cents"
proof (cases "c = 0")
  case True
  then show ?thesis using assms
    by (auto simp: settle_amount_def abs_exceeds_max_def quantize_cents_def half_even_def)
next
  case c0: False
  obtain c' e' where ce: "round_context c e = (c', e')" by fastforce
  have ex: "\<not> exceeds_cents c' e' max_money_cents" and m: "m_cents m = quantize_cents c e"
    using assms c0 ce
    by (auto simp: settle_amount_def abs_exceeds_max_def rbind_eq_Inr Let_def split: if_splits)
  show ?thesis
  proof (cases "length (str_nat c) \<le> context_prec")
    case True
    then have "c' = c" "e' = e" using ce by (simp_all add: round_context_def Let_def)
    then show ?thesis using quantize_le ex m by simp
  next
    case False
    define k where "k = length (str_nat c) - context_prec"
    have k: "0 < k" using False by (simp add: k_def)
    have ce': "c' = half_even c (10 ^ k)" "e' = e + int k"
      using ce False by (simp_all add: round_context_def Let_def k_def)
    have len: "length (str_nat c) - 1 = k + 27" using False by (simp add: k_def context_prec_def)
    have low: "10 ^ 27 * 10 ^ k \<le> c"
      using length_str_nat_lower [OF c0] unfolding len by (simp add: power_add mult.commute)
    have b: "2 * c \<le> 2 * (c' * 10 ^ k) + 10 ^ k"
      using half_even_bound [of "10 ^ k" c] ce' by (simp add: mult.assoc)
    have big: "10 ^ 27 \<le> c'"
    proof (rule ccontr)
      assume "\<not> 10 ^ 27 \<le> c'"
      then have "Suc c' \<le> 10 ^ 27" by simp
      then have "Suc c' * 10 ^ k \<le> 10 ^ 27 * 10 ^ k" by (rule mult_le_mono1)
      then have "Suc c' * 10 ^ k \<le> c" using low by (rule order_trans)
      then have "2 * (c' * 10 ^ k) + 2 * 10 ^ k \<le> 2 * c" by (simp add: add_mult_distrib)
      moreover have "(0::nat) < 10 ^ k" by simp
      ultimately show False using b by linarith
    qed
    have en: "e' < - 2"
    proof (rule ccontr)
      assume "\<not> e' < - 2"
      then have "c' * 10 ^ nat (e' + 2) \<le> max_money_cents" using ex by (simp add: exceeds_cents_def)
      moreover have "c' * 1 \<le> c' * 10 ^ nat (e' + 2)" by (rule mult_le_mono2) simp
      ultimately have "c' \<le> max_money_cents" by linarith
      then show False using big by (simp add: max_money_cents_def)
    qed
    then have c'b: "c' \<le> max_money_cents * 10 ^ nat (- 2 - e')" using ex by (simp add: exceeds_cents_def)
    have pe: "nat (- 2 - e) = nat (- 2 - e') + k" using en ce' by simp
    have "c' * 10 ^ k \<le> max_money_cents * 10 ^ nat (- 2 - e)"
      using mult_le_mono1 [OF c'b, of "10 ^ k"] by (simp add: pe power_add mult.assoc)
    moreover have "(10::nat) ^ k < 10 ^ nat (- 2 - e)"
      unfolding pe using en by (intro power_strict_increasing) simp_all
    moreover have "(2 * max_money_cents + 1) * 10 ^ nat (- 2 - e) =
        2 * (max_money_cents * 10 ^ nat (- 2 - e)) + 10 ^ nat (- 2 - e)"
      by (simp add: add_mult_distrib)
    ultimately have "2 * c < (2 * max_money_cents + 1) * 10 ^ nat (- 2 - e)"
      using b by linarith
    then show ?thesis using m en ce' k by (simp add: quantize_cents_def half_even_le)
  qed
qed

lemma parse_money_cases:
  "parse_money v = Inr m \<Longrightarrow> \<exists>s c e. settle_amount (Fin s c e) = Inr m"
proof -
  assume "parse_money v = Inr m"
  then obtain d where "settle_amount d = Inr m"
    by (auto simp: parse_money_def rbind_eq_Inr split: val.splits if_splits)
  then show ?thesis by (cases d) (auto simp: settle_amount_def)
qed

lemma parse_money_le: "parse_money v = Inr m \<Longrightarrow> m_cents m \<le> max_money_cents"
  using parse_money_cases settle_amount_bound by blast

lemma parse_money_stable [simp]: "parse_money v = Inr m \<Longrightarrow> parse_money (money_val m) = Inr m"
  by (simp add: parse_money_val parse_money_le)

section \<open>Properties\<close>

text \<open>
  C40: Every amount in the supported range survives being written and read: parsing
  the two-digit text of an amount gives the amount back, formatting it again gives
  the same text, and an amount that is already a cent-quantized \<open>Decimal\<close> is left
  unchanged.
\<close>

theorem money_roundtrip:
  assumes "m_cents m \<le> max_money_cents"
  shows "parse_money (VStr (money_text m)) = Inr m
    \<and> format_money (VStr (money_text m)) = Inr (money_text m)
    \<and> parse_money (money_val m) = Inr m"
  using assms by (simp add: format_money_def parse_money_money_text parse_money_val)

theorem money_roundtrip_witness:
  "parse_money (VStr (money_text (Money True 34005))) = Inr (Money True 34005)"
  using money_roundtrip [of "Money True 34005"] by (simp add: max_money_cents_def)

text \<open>
  A decimal that \<open>parse_money\<close> accepts becomes the nearest number of cents: an
  amount with at most two fractional digits is kept exactly, any other moves by at
  most half a cent, the sign is kept, and the result never exceeds the supported
  maximum even when rounding moves it up.
\<close>

theorem parse_money_nearest:
  assumes "parse_money (VDec (Fin s c e)) = Inr m"
  shows "m_neg m = s \<and> m_cents m \<le> max_money_cents
    \<and> (if - 2 \<le> e then m_cents m = c * 10 ^ nat (e + 2)
       else 2 * m_cents m * 10 ^ nat (- 2 - e) \<le> 2 * c + 10 ^ nat (- 2 - e)
         \<and> 2 * c \<le> 2 * m_cents m * 10 ^ nat (- 2 - e) + 10 ^ nat (- 2 - e))"
proof -
  have sa: "settle_amount (Fin s c e) = Inr m" using assms by (simp add: parse_money_def parse_amount_def)
  then have "m = Money s (quantize_cents c e)"
    by (auto simp: settle_amount_def rbind_eq_Inr split: if_splits)
  then show ?thesis
    using settle_amount_bound [OF sa] half_even_bound [of "10 ^ nat (- 2 - e)" c]
    by (simp add: quantize_cents_def)
qed

theorem parse_money_nearest_witness:
  "parse_money (VDec (Fin False 12345 (- 3))) = Inr (Money False 1234) \<and> m_cents (Money False 1234) \<le> max_money_cents"
proof -
  have "parse_money (VDec (Fin False 12345 (- 3))) = Inr (Money False 1234)"
    by (simp add: parse_money_def parse_amount_def settle_amount_def abs_exceeds_max_def round_context_def
        context_prec_def context_emax_def exceeds_cents_def max_money_cents_def quantize_cents_def
        half_even_def Let_def str_nat.simps)
  then show ?thesis using parse_money_nearest [of False 12345 "- 3" "Money False 1234"] by simp
qed

text \<open>
  \<open>parse_money\<close> does not turn every unusable amount into a \<open>ValueError\<close>: the text
  \<open>1e1000000\<close> is a finite \<open>Decimal\<close>, so it passes the guarded constructor and the
  finiteness check, and taking its absolute value traps \<open>decimal.Overflow\<close>, which is
  not a \<open>ValueError\<close> and escapes the callers' \<open>except (ValueError, TypeError)\<close>.
\<close>

theorem parse_money_overflow_escapes:
  "\<exists>x. parse_money (VStr ''1e1000000'') = Inl x \<and> \<not> is_ValueError x"
proof -
  have "parse_decimal (strip ''1e1000000'') = Some (Fin False 1 1000000)"
    by (simp add: parse_decimal_def strip_def is_space_def lower_def ascii_lower_def parse_finite_def
        parse_fraction_def parse_exponent_def make_decimal_def dec_max_adjusted_def dec_min_exp_def
        digits_value_def is_digit_def str_nat.simps)
  moreover have "abs_exceeds_max 1 1000000 = Inl (DecimalOverflow ''[<class 'decimal.Overflow'>]'')"
    by (simp add: abs_exceeds_max_def round_context_def context_prec_def context_emax_def str_nat.simps Let_def)
  ultimately have "parse_money (VStr ''1e1000000'') = Inl (DecimalOverflow ''[<class 'decimal.Overflow'>]'')"
    by (simp add: parse_money_def parse_amount_def settle_amount_def)
  then show ?thesis by simp
qed

end
