(* ===== verification/Outcomes.thy ===== *)
theory Outcomes
  imports Money
begin

text \<open>
  \<open>tandem/domain/outcomes.py\<close> and \<open>tandem/domain/result_contract.py\<close>: the outcome
  taxonomy, the result record of every execution and its caller-facing projection.
\<close>

datatype outcome_category =
  SUCCESS | BUSINESS_OUTCOME | RECOVERABLE_FAILURE | HARD_FAILURE | CAT_UNCERTAIN_EFFECT | CAT_NEEDS_HUMAN

datatype execution_phase = BEFORE_SUBMIT | SUBMIT_INITIATED | SUBMIT_CONFIRMED | AFTER_SUBMIT_UNKNOWN

datatype outcome_code =
    COMPLETED | CONFIRMED_APPLIED | NOT_APPLIED | CONFIRMED_NOT_APPLIED
  | MEMBER_NOT_FOUND | ALREADY_APPLIED | ALREADY_CLAIMED | DUPLICATE_DISPUTE
  | TRANSACTION_NOT_FOUND | POLICY_DENIED
  | SESSION_EXPIRED | PAGE_DRIFT | NETWORK_TIMEOUT | TEMPORARY_UNAVAILABLE
  | ENTITY_BINDING_MISMATCH | AMOUNT_MISMATCH | PRECHECK_UNAVAILABLE | PRECHECK_AMBIGUOUS
  | PRECHECK_INVALID_RESPONSE | POSTCHECK_UNCERTAIN | POSTCHECK_UNAVAILABLE | POSTCHECK_AMBIGUOUS
  | POSTCHECK_INVALID_RESPONSE | POLICY_VIOLATION | TARGET_LEDGER_DIVERGENCE
  | TARGET_RECONCILIATION_UNAVAILABLE | LEASE_FENCED
  | POSSIBLY_APPLIED | UNCERTAIN_EFFECT
  | COMPLIANCE_INTERSTITIAL | HUMAN_INTERVENTION_REQUIRED

fun category_value :: "outcome_category \<Rightarrow> string" where
  "category_value SUCCESS = ''SUCCESS''"
| "category_value BUSINESS_OUTCOME = ''BUSINESS_OUTCOME''"
| "category_value RECOVERABLE_FAILURE = ''RECOVERABLE_FAILURE''"
| "category_value HARD_FAILURE = ''HARD_FAILURE''"
| "category_value CAT_UNCERTAIN_EFFECT = ''UNCERTAIN_EFFECT''"
| "category_value CAT_NEEDS_HUMAN = ''NEEDS_HUMAN''"

fun code_value :: "outcome_code \<Rightarrow> string" where
  "code_value COMPLETED = ''COMPLETED''"
| "code_value CONFIRMED_APPLIED = ''CONFIRMED_APPLIED''"
| "code_value NOT_APPLIED = ''NOT_APPLIED''"
| "code_value CONFIRMED_NOT_APPLIED = ''CONFIRMED_NOT_APPLIED''"
| "code_value MEMBER_NOT_FOUND = ''MEMBER_NOT_FOUND''"
| "code_value ALREADY_APPLIED = ''ALREADY_APPLIED''"
| "code_value ALREADY_CLAIMED = ''ALREADY_CLAIMED''"
| "code_value DUPLICATE_DISPUTE = ''DUPLICATE_DISPUTE''"
| "code_value TRANSACTION_NOT_FOUND = ''TRANSACTION_NOT_FOUND''"
| "code_value POLICY_DENIED = ''POLICY_DENIED''"
| "code_value SESSION_EXPIRED = ''SESSION_EXPIRED''"
| "code_value PAGE_DRIFT = ''PAGE_DRIFT''"
| "code_value NETWORK_TIMEOUT = ''NETWORK_TIMEOUT''"
| "code_value TEMPORARY_UNAVAILABLE = ''TEMPORARY_UNAVAILABLE''"
| "code_value ENTITY_BINDING_MISMATCH = ''ENTITY_BINDING_MISMATCH''"
| "code_value AMOUNT_MISMATCH = ''AMOUNT_MISMATCH''"
| "code_value PRECHECK_UNAVAILABLE = ''PRECHECK_UNAVAILABLE''"
| "code_value PRECHECK_AMBIGUOUS = ''PRECHECK_AMBIGUOUS''"
| "code_value PRECHECK_INVALID_RESPONSE = ''PRECHECK_INVALID_RESPONSE''"
| "code_value POSTCHECK_UNCERTAIN = ''POSTCHECK_UNCERTAIN''"
| "code_value POSTCHECK_UNAVAILABLE = ''POSTCHECK_UNAVAILABLE''"
| "code_value POSTCHECK_AMBIGUOUS = ''POSTCHECK_AMBIGUOUS''"
| "code_value POSTCHECK_INVALID_RESPONSE = ''POSTCHECK_INVALID_RESPONSE''"
| "code_value POLICY_VIOLATION = ''POLICY_VIOLATION''"
| "code_value TARGET_LEDGER_DIVERGENCE = ''TARGET_LEDGER_DIVERGENCE''"
| "code_value TARGET_RECONCILIATION_UNAVAILABLE = ''TARGET_RECONCILIATION_UNAVAILABLE''"
| "code_value LEASE_FENCED = ''LEASE_FENCED''"
| "code_value POSSIBLY_APPLIED = ''POSSIBLY_APPLIED''"
| "code_value UNCERTAIN_EFFECT = ''UNCERTAIN_EFFECT''"
| "code_value COMPLIANCE_INTERSTITIAL = ''COMPLIANCE_INTERSTITIAL''"
| "code_value HUMAN_INTERVENTION_REQUIRED = ''HUMAN_INTERVENTION_REQUIRED''"

record execution_outcome =
  o_category :: outcome_category
  o_code :: outcome_code
  o_message :: string
  o_details :: dict
  o_money_moved :: bool
  o_audit_ref :: "string option"
  o_phase :: execution_phase
  o_outputs :: dict
  o_failed_step :: "string option"
  o_expected :: "string option"
  o_observed :: "string option"
  o_evidence :: "string option"

text \<open>The constructor with the defaults of the optional fields.\<close>

definition outcome :: "outcome_category \<Rightarrow> outcome_code \<Rightarrow> string \<Rightarrow> execution_outcome" where
  "outcome cat co msg =
     \<lparr>o_category = cat, o_code = co, o_message = msg, o_details = [], o_money_moved = False,
      o_audit_ref = None, o_phase = BEFORE_SUBMIT, o_outputs = [], o_failed_step = None,
      o_expected = None, o_observed = None, o_evidence = None\<rparr>"

lemma outcome_sel [simp]:
  "o_category (outcome c k m) = c" "o_code (outcome c k m) = k" "o_message (outcome c k m) = m"
  "o_details (outcome c k m) = []" "o_money_moved (outcome c k m) = False"
  "o_audit_ref (outcome c k m) = None" "o_phase (outcome c k m) = BEFORE_SUBMIT"
  "o_outputs (outcome c k m) = []" "o_failed_step (outcome c k m) = None"
  "o_expected (outcome c k m) = None" "o_observed (outcome c k m) = None" "o_evidence (outcome c k m) = None"
  by (simp_all add: outcome_def)

definition is_success :: "execution_outcome \<Rightarrow> bool" where
  "is_success oc = (o_category oc = SUCCESS)"

definition is_business_terminal :: "execution_outcome \<Rightarrow> bool" where
  "is_business_terminal oc = (o_category oc = BUSINESS_OUTCOME)"

definition is_retryable :: "execution_outcome \<Rightarrow> bool" where
  "is_retryable oc = (o_category oc = RECOVERABLE_FAILURE)"

definition requires_human :: "execution_outcome \<Rightarrow> bool" where
  "requires_human oc = (o_category oc \<in> {CAT_NEEDS_HUMAN, HARD_FAILURE, CAT_UNCERTAIN_EFFECT})"

section \<open>The caller-facing result\<close>

record failure =
  f_classification :: string
  f_code :: string
  f_step :: "string option"
  f_expected :: string
  f_observed :: string
  f_evidence :: "string option"
  f_requires_human :: bool

datatype result = Success dict | BusinessOutcome string dict | Failure failure

text \<open>Python's \<open>x or y\<close> on an optional string.\<close>

definition or_str :: "string option \<Rightarrow> string \<Rightarrow> string" where
  "or_str x d = (case x of None \<Rightarrow> d | Some s \<Rightarrow> if s = [] then d else s)"

definition to_result :: "execution_outcome \<Rightarrow> result" where
  "to_result oc =
     (if is_success oc then Success (o_outputs oc)
      else if is_business_terminal oc then BusinessOutcome (code_value (o_code oc)) (o_details oc)
      else Failure \<lparr>f_classification = category_value (o_category oc), f_code = code_value (o_code oc),
             f_step = o_failed_step oc, f_expected = or_str (o_expected oc) ''Declared capability checkpoint'',
             f_observed = or_str (o_observed oc) (o_message oc), f_evidence = o_evidence oc,
             f_requires_human = requires_human oc\<rparr>)"

lemma category_value_inj: "category_value a = category_value b \<longleftrightarrow> a = b"
  by (cases a; cases b) simp_all

text \<open>
  The caller-facing result never hides a failure: a \<open>Success\<close> comes from a
  successful outcome only, and every outcome that is uncertain, failed hard or parked
  for a human reaches the caller as a \<open>Failure\<close> that names its category and asks for
  a human; the only failures that do not are the recoverable ones, and those are
  exactly the outcomes the code calls retryable.
\<close>

theorem to_result_faithful:
  "((\<exists>d. to_result oc = Success d) \<longleftrightarrow> is_success oc)
   \<and> ((\<exists>f. to_result oc = Failure f \<and> f_requires_human f) \<longleftrightarrow> requires_human oc)
   \<and> ((\<exists>f. to_result oc = Failure f \<and> \<not> f_requires_human f) \<longleftrightarrow> is_retryable oc)"
  by (cases "o_category oc"; simp add: to_result_def is_success_def is_business_terminal_def
      is_retryable_def requires_human_def)

end
