(* ===== verification/Capability.thy ===== *)
theory Capability
  imports Outcomes
begin

text \<open>
  \<open>tandem/domain/effects.py\<close> and \<open>tandem/domain/capability.py\<close>: the typed effect
  contract, the versioned capability artifact, the validators that pydantic runs on
  construction, and the loader that checks the artifact digest.  Pydantic's parsing
  of a mapping into the typed fields and the SHA-256 digest are parameters.
\<close>

section \<open>Effect contracts\<close>

datatype effect_class = READ | STAGE | COMMIT

fun effect_class_value :: "effect_class \<Rightarrow> string" where
  "effect_class_value READ = ''READ''"
| "effect_class_value STAGE = ''STAGE''"
| "effect_class_value COMMIT = ''COMMIT''"

datatype claim_status = CLAIMED | APPLYING | APPLIED | UNCERTAIN | FAILED_RETRYABLE | FAILED_PERMANENT

fun claim_status_value :: "claim_status \<Rightarrow> string" where
  "claim_status_value CLAIMED = ''CLAIMED''"
| "claim_status_value APPLYING = ''APPLYING''"
| "claim_status_value APPLIED = ''APPLIED''"
| "claim_status_value UNCERTAIN = ''UNCERTAIN''"
| "claim_status_value FAILED_RETRYABLE = ''FAILED_RETRYABLE''"
| "claim_status_value FAILED_PERMANENT = ''FAILED_PERMANENT''"

lemma claim_status_value_inj [simp]: "claim_status_value a = claim_status_value b \<longleftrightarrow> a = b"
  by (cases a; cases b) simp_all

record precheck_spec =
  pre_capability :: string
  pre_params :: dict
  pre_if_found :: string

record postcheck_spec =
  post_capability :: string
  post_params :: dict
  post_expected_status :: string

record reconciliation_spec =
  rec_strategy :: string
  rec_max_inquiry_attempts :: int

record identity_spec =
  is_institution_id :: string
  is_procedure_id :: string
  is_case_id :: string
  is_capability_id :: string
  is_member_id :: string
  is_account_id :: string
  is_amount :: string
  is_currency :: string
  is_business_reference :: string

record bounds_spec =
  b_max_amount :: money
  b_currency :: string

text \<open>\<open>max_amount: Money = Field(ge=Decimal("0.01"))\<close>.\<close>

definition validate_bounds :: "bounds_spec \<Rightarrow> unit res" where
  "validate_bounds b =
     (if cents (b_max_amount b) < 1 then Inl (ValueError ''Input should be greater than or equal to 0.01'') else Inr ())"

record effect_spec =
  ef_class :: effect_class
  ef_identity :: "identity_spec option"
  ef_idempotency_key :: "string option"
  ef_precheck :: "precheck_spec option"
  ef_postcheck :: "postcheck_spec option"
  ef_reconciliation :: "reconciliation_spec option"
  ef_compensation :: "string option"
  ef_bounds :: "bounds_spec option"

text \<open>A string field is falsy when it is absent or empty.\<close>

definition opt_truthy :: "string option \<Rightarrow> bool" where
  "opt_truthy x = (case x of None \<Rightarrow> False | Some s \<Rightarrow> s \<noteq> [])"

definition missing_metadata :: "effect_spec \<Rightarrow> string list" where
  "missing_metadata e =
     (if \<not> opt_truthy (ef_idempotency_key e) then [''idempotency_key''] else []) @
     (if ef_identity e = None then [''identity''] else []) @
     (if ef_precheck e = None then [''precheck''] else []) @
     (if ef_postcheck e = None then [''postcheck''] else []) @
     (if ef_reconciliation e = None then [''reconciliation''] else []) @
     (if ef_bounds e = None then [''bounds''] else [])"

definition validate_commit_safety_contract :: "effect_spec \<Rightarrow> unit res" where
  "validate_commit_safety_contract e =
     (if ef_class e = COMMIT \<and> missing_metadata e \<noteq> []
      then Inl (ValueError (fstr [''COMMIT capability rejected: missing mandatory safety metadata: '',
             intercalate '', '' (missing_metadata e),
             ''. All COMMIT operations require identity, precheck, postcheck, reconciliation, bounds, and idempotency key.'']))
      else Inr ())"

section \<open>Capability artifacts\<close>

datatype step_action = NAVIGATE | CLICK | FILL | ASSERT_CONTAINER | SUBMIT | HTTP_POST

fun step_action_value :: "step_action \<Rightarrow> string" where
  "step_action_value NAVIGATE = ''NAVIGATE''"
| "step_action_value CLICK = ''CLICK''"
| "step_action_value FILL = ''FILL''"
| "step_action_value ASSERT_CONTAINER = ''ASSERT_CONTAINER''"
| "step_action_value SUBMIT = ''SUBMIT''"
| "step_action_value HTTP_POST = ''HTTP_POST''"

record step_definition =
  st_id :: string
  st_action :: step_action
  st_target :: string
  st_candidates :: "string list"
  st_input_template :: "string option"
  st_expected_text :: "string option"
  st_frame_selector :: "string option"
  st_guard_ref :: "string option"

record scoped_guard_spec =
  g_id :: string
  g_container_selector :: string
  g_member_template :: string
  g_account_template :: string
  g_amount_template :: string
  g_currency_template :: string
  g_case_template :: string
  g_institution_template :: string

record artifact_derivation =
  dv_discovery_derived :: "string list"
  dv_policy_profile :: string
  dv_policy_derived :: "string list"
  dv_compiler_derived :: "string list"

record capability =
  cap_id :: string
  cap_version :: string
  cap_schema_version :: int
  cap_created_at :: string
  cap_name :: string
  cap_description :: string
  cap_system :: string
  cap_effect :: effect_spec
  cap_input_schema :: dict
  cap_output_schema :: dict
  cap_guard :: "scoped_guard_spec option"
  cap_steps :: "step_definition list"
  cap_source_run :: "string option"
  cap_derivation :: "artifact_derivation option"
  cap_surfaces :: "string list"
  cap_hash :: "string option"

definition is_actuation :: "step_definition \<Rightarrow> bool" where
  "is_actuation s = (st_action s = SUBMIT \<or> st_action s = HTTP_POST)"

definition validate_capability_safety :: "capability \<Rightarrow> unit res" where
  "validate_capability_safety c =
     (if cap_schema_version c \<noteq> 1
      then Inl (ValueError (fstr [''Unsupported capability schema version '', str_int (cap_schema_version c), ''; expected 1'']))
      else if ef_class (cap_effect c) = COMMIT then
        (case cap_guard c of
           None \<Rightarrow> Inl (ValueError (fstr [''Capability '', sq, cap_id c, sq, '' has COMMIT effect but lacks a scoped_guard. '',
                     ''All COMMIT operations require container-scoped identity verification.'']))
         | Some g \<Rightarrow>
             if cap_steps c = [] then Inl (ValueError (fstr [''COMMIT capability '', sq, cap_id c, sq, '' must contain executable steps'']))
             else let actuations = filter is_actuation (cap_steps c) in
               if actuations = []
               then Inl (ValueError (fstr [''COMMIT capability '', sq, cap_id c, sq, '' must declare a SUBMIT or HTTP_POST actuation'']))
               else guard_all (\<lambda>s. if st_guard_ref s \<noteq> Some (g_id g)
                      then Inl (ValueError (fstr [''COMMIT actuation '', sq, st_id s, sq, '' must reference guard '', sq, g_id g, sq])) 
                      else Inr ()) actuations)
      else Inr ())"

text \<open>Constructing a definition runs the nested validators before the outer one.\<close>

definition validate_guard_spec :: "scoped_guard_spec \<Rightarrow> unit res" where
  "validate_guard_spec g =
     (if g_id g = [] then Inl (ValueError ''String should have at least 1 character'') else Inr ())"

definition validate_capability :: "capability \<Rightarrow> capability res" where
  "validate_capability c =
     rbind (case ef_bounds (cap_effect c) of None \<Rightarrow> Inr () | Some b \<Rightarrow> validate_bounds b) (\<lambda>_.
     rbind (validate_commit_safety_contract (cap_effect c)) (\<lambda>_.
     rbind (case cap_guard c of None \<Rightarrow> Inr () | Some g \<Rightarrow> validate_guard_spec g) (\<lambda>_.
     rbind (validate_capability_safety c) (\<lambda>_. Inr c))))"

section \<open>Artifact digest and loader\<close>

definition opt_val :: "('a \<Rightarrow> val) \<Rightarrow> 'a option \<Rightarrow> val" where
  "opt_val f x = (case x of None \<Rightarrow> VNone | Some a \<Rightarrow> f a)"

definition strs_val :: "string list \<Rightarrow> val" where
  "strs_val xs = VList (map VStr xs)"

definition dump_effect :: "effect_spec \<Rightarrow> val" where
  "dump_effect e = VDict
     [(''class'', VStr (effect_class_value (ef_class e))),
      (''identity'', opt_val (\<lambda>i. VDict
         [(''institution_id'', VStr (is_institution_id i)), (''procedure_id'', VStr (is_procedure_id i)),
          (''case_id'', VStr (is_case_id i)), (''capability_id'', VStr (is_capability_id i)),
          (''member_id'', VStr (is_member_id i)), (''account_id'', VStr (is_account_id i)),
          (''amount'', VStr (is_amount i)), (''currency'', VStr (is_currency i)),
          (''business_reference'', VStr (is_business_reference i))]) (ef_identity e)),
      (''idempotency_key'', opt_val VStr (ef_idempotency_key e)),
      (''precheck'', opt_val (\<lambda>p. VDict [(''capability'', VStr (pre_capability p)),
         (''params'', VDict (pre_params p)), (''if_found'', VStr (pre_if_found p))]) (ef_precheck e)),
      (''postcheck'', opt_val (\<lambda>p. VDict [(''capability'', VStr (post_capability p)),
         (''params'', VDict (post_params p)), (''expected_status'', VStr (post_expected_status p))]) (ef_postcheck e)),
      (''reconciliation'', opt_val (\<lambda>r. VDict [(''strategy'', VStr (rec_strategy r)),
         (''max_inquiry_attempts'', VInt (rec_max_inquiry_attempts r))]) (ef_reconciliation e)),
      (''compensation'', opt_val VStr (ef_compensation e)),
      (''bounds'', opt_val (\<lambda>b. VDict [(''max_amount'', VStr (money_text (b_max_amount b))),
         (''currency'', VStr (b_currency b))]) (ef_bounds e))]"

definition dump_step :: "step_definition \<Rightarrow> val" where
  "dump_step s = VDict
     [(''step_id'', VStr (st_id s)), (''action'', VStr (step_action_value (st_action s))),
      (''semantic_target'', VStr (st_target s)), (''locator_candidates'', strs_val (st_candidates s)),
      (''input_value_template'', opt_val VStr (st_input_template s)),
      (''expected_text'', opt_val VStr (st_expected_text s)),
      (''frame_selector'', opt_val VStr (st_frame_selector s)),
      (''guard_ref'', opt_val VStr (st_guard_ref s))]"

definition dump_guard :: "scoped_guard_spec \<Rightarrow> val" where
  "dump_guard g = VDict
     [(''guard_id'', VStr (g_id g)), (''container_selector'', VStr (g_container_selector g)),
      (''expected_member_template'', VStr (g_member_template g)),
      (''expected_account_template'', VStr (g_account_template g)),
      (''expected_amount_template'', VStr (g_amount_template g)),
      (''expected_currency_template'', VStr (g_currency_template g)),
      (''expected_case_template'', VStr (g_case_template g)),
      (''expected_institution_template'', VStr (g_institution_template g))]"

definition dump_derivation :: "artifact_derivation \<Rightarrow> val" where
  "dump_derivation d = VDict
     [(''discovery_derived'', strs_val (dv_discovery_derived d)), (''policy_profile'', VStr (dv_policy_profile d)),
      (''policy_derived'', strs_val (dv_policy_derived d)), (''compiler_derived'', strs_val (dv_compiler_derived d))]"

text \<open>\<open>model_dump(by_alias=True, mode="json", exclude={"artifact_hash"})\<close>, without an absent \<open>derivation\<close>.\<close>

definition capability_payload :: "capability \<Rightarrow> dict" where
  "capability_payload c =
     [(''id'', VStr (cap_id c)), (''version'', VStr (cap_version c)),
      (''schema_version'', VInt (cap_schema_version c)), (''created_at'', VStr (cap_created_at c)),
      (''name'', VStr (cap_name c)), (''description'', VStr (cap_description c)),
      (''system'', VStr (cap_system c)), (''effect'', dump_effect (cap_effect c)),
      (''input_schema'', VDict (cap_input_schema c)), (''output_schema'', VDict (cap_output_schema c)),
      (''scoped_guard'', opt_val dump_guard (cap_guard c)),
      (''steps'', VList (map dump_step (cap_steps c))),
      (''source_discovery_run_id'', opt_val VStr (cap_source_run c))] @
     (case cap_derivation c of None \<Rightarrow> [] | Some d \<Rightarrow> [(''derivation'', dump_derivation d)]) @
     [(''supported_surfaces'', strs_val (cap_surfaces c))]"

definition canonical_artifact_text :: "dict \<Rightarrow> string" where
  "canonical_artifact_text d = json_text False (VDict (filter (\<lambda>(k, v). k \<noteq> ''artifact_hash'') d))"

definition compute_artifact_digest :: "(string \<Rightarrow> string) \<Rightarrow> dict \<Rightarrow> string" where
  "compute_artifact_digest sha d = sha (canonical_artifact_text d)"

definition compute_hash :: "(string \<Rightarrow> string) \<Rightarrow> capability \<Rightarrow> string" where
  "compute_hash sha c = compute_artifact_digest sha (capability_payload c)"

definition surface_home :: "string \<Rightarrow> string" where
  "surface_home system = ''surface://'' @ system @ ''/home''"

definition load_capability :: "(string \<Rightarrow> string) \<Rightarrow> (dict \<Rightarrow> capability res) \<Rightarrow> val \<Rightarrow> capability res" where
  "load_capability sha parse_fields data =
     (case data of
        VDict d \<Rightarrow>
          (case dict_val d ''artifact_hash'' of
             VStr declared \<Rightarrow>
               if length declared \<noteq> 64
               then Inl (ValueError ''Capability artifact integrity digest is missing or invalid'')
               else rbind (parse_fields d) (\<lambda>fields. rbind (validate_capability fields) (\<lambda>cap.
                 if declared \<noteq> compute_hash sha cap
                 then Inl (ValueError ''Capability artifact integrity verification failed: digest mismatch'')
                 else if cap_surfaces cap = [] \<or> cap_system cap \<notin> set (cap_surfaces cap)
                 then Inl (ValueError (fstr [''Capability surface '', sq, cap_system cap, sq, '' is not present in supported_surfaces'']))
                 else rbind (guard_all (\<lambda>s.
                        if st_action s = NAVIGATE \<and> st_target s \<noteq> surface_home (cap_system cap)
                        then Inl (ValueError (fstr [''Navigation target is not an allowlisted logical surface: expected '', sq,
                               surface_home (cap_system cap), sq])) 
                        else Inr ()) (cap_steps cap)) (\<lambda>_. Inr cap)))
           | _ \<Rightarrow> Inl (ValueError ''Capability artifact integrity digest is missing or invalid''))
      | _ \<Rightarrow> Inl (ValueError ''Capability artifact must be a YAML mapping''))"

section \<open>What validation guarantees\<close>

text \<open>The contract a validated capability satisfies; the engine relies on it.\<close>

definition safe_capability :: "capability \<Rightarrow> bool" where
  "safe_capability c \<longleftrightarrow> cap_schema_version c = 1 \<and>
     (ef_class (cap_effect c) = COMMIT \<longrightarrow>
        opt_truthy (ef_idempotency_key (cap_effect c)) \<and> ef_identity (cap_effect c) \<noteq> None \<and>
        ef_precheck (cap_effect c) \<noteq> None \<and> ef_postcheck (cap_effect c) \<noteq> None \<and>
        ef_reconciliation (cap_effect c) \<noteq> None \<and>
        (\<exists>b. ef_bounds (cap_effect c) = Some b \<and> 0 < cents (b_max_amount b)) \<and>
        (\<exists>g. cap_guard c = Some g \<and> g_id g \<noteq> [] \<and>
           (\<exists>s \<in> set (cap_steps c). is_actuation s) \<and>
           (\<forall>s \<in> set (cap_steps c). is_actuation s \<longrightarrow> st_guard_ref s = Some (g_id g))))"

lemma missing_metadata_Nil:
  "missing_metadata e = [] \<longleftrightarrow> opt_truthy (ef_idempotency_key e) \<and> ef_identity e \<noteq> None \<and>
     ef_precheck e \<noteq> None \<and> ef_postcheck e \<noteq> None \<and> ef_reconciliation e \<noteq> None \<and> ef_bounds e \<noteq> None"
  by (auto simp: missing_metadata_def)

lemma validate_safety_actuations:
  assumes "validate_capability_safety c = Inr ()" "ef_class (cap_effect c) = COMMIT"
  shows "cap_schema_version c = 1 \<and> (\<exists>g. cap_guard c = Some g \<and> (\<exists>s \<in> set (cap_steps c). is_actuation s) \<and>
           (\<forall>s \<in> set (cap_steps c). is_actuation s \<longrightarrow> st_guard_ref s = Some (g_id g)))"
  using assms
  by (auto simp: validate_capability_safety_def Let_def guard_all_ok filter_empty_conv
      split: if_splits option.splits)

lemma validate_capability_safe:
  assumes "validate_capability c = Inr d" shows "d = c \<and> safe_capability c"
proof -
  have v: "d = c" "validate_commit_safety_contract (cap_effect c) = Inr ()" "validate_capability_safety c = Inr ()"
    "(case ef_bounds (cap_effect c) of None \<Rightarrow> Inr () | Some b \<Rightarrow> validate_bounds b) = Inr ()"
    "(case cap_guard c of None \<Rightarrow> Inr () | Some g \<Rightarrow> validate_guard_spec g) = Inr ()"
    using assms by (auto simp: validate_capability_def rbind_eq_Inr)
  have s: "cap_schema_version c = 1"
    using v(3) by (simp add: validate_capability_safety_def split: if_splits)
  show ?thesis
  proof (cases "ef_class (cap_effect c) = COMMIT")
    case True
    then have m: "missing_metadata (cap_effect c) = []"
      using v(2) by (simp add: validate_commit_safety_contract_def split: if_splits)
    then obtain b where b: "ef_bounds (cap_effect c) = Some b" by (auto simp: missing_metadata_Nil)
    with v(4) have "0 < cents (b_max_amount b)" by (simp add: validate_bounds_def split: if_splits)
    moreover obtain g where g: "cap_guard c = Some g" using validate_safety_actuations [OF v(3) True] by blast
    moreover have "g_id g \<noteq> []" using v(5) g by (simp add: validate_guard_spec_def split: if_splits)
    ultimately show ?thesis
      using validate_safety_actuations [OF v(3) True] m b v(1) by (simp add: safe_capability_def missing_metadata_Nil)
  next
    case False
    then show ?thesis using s v(1) by (simp add: safe_capability_def)
  qed
qed

text \<open>The artifact \<open>capabilities/processor/file_chargeback.yaml\<close>, used by the witnesses.\<close>

definition identity_template :: "string \<Rightarrow> identity_spec" where
  "identity_template cap =
     \<lparr>is_institution_id = ''{{input.institution_id}}'', is_procedure_id = ''reg_e_dispute'',
      is_case_id = ''{{input.case_id}}'', is_capability_id = cap,
      is_member_id = ''{{input.member_id}}'', is_account_id = ''{{input.account_id}}'',
      is_amount = ''{{input.amount}}'', is_currency = ''{{input.currency}}'',
      is_business_reference = ''{{input.case_id}}''\<rparr>"

definition chargeback_effect :: effect_spec where
  "chargeback_effect =
     \<lparr>ef_class = COMMIT, ef_identity = Some (identity_template ''processor.file_chargeback''),
      ef_idempotency_key = Some ''regE:{{input.case_id}}:chargeback'',
      ef_precheck = Some \<lparr>pre_capability = ''processor.find_chargeback_by_case'',
        pre_params = [(''case_id'', VStr ''{{input.case_id}}'')], pre_if_found = ''ALREADY_APPLIED''\<rparr>,
      ef_postcheck = Some \<lparr>post_capability = ''processor.find_chargeback_by_case'',
        post_params = [(''case_id'', VStr ''{{input.case_id}}'')], post_expected_status = ''FILED''\<rparr>,
      ef_reconciliation = Some \<lparr>rec_strategy = ''POSTCHECK_OR_UNCERTAIN'', rec_max_inquiry_attempts = 2\<rparr>,
      ef_compensation = None,
      ef_bounds = Some \<lparr>b_max_amount = Money False 50000, b_currency = ''USD''\<rparr>\<rparr>"

definition chargeback_guard :: scoped_guard_spec where
  "chargeback_guard =
     \<lparr>g_id = ''processor_request_identity'', g_container_selector = ''request-payload'',
      g_member_template = ''{{input.member_id}}'', g_account_template = ''{{input.account_id}}'',
      g_amount_template = ''{{input.amount}}'', g_currency_template = ''{{input.currency}}'',
      g_case_template = ''{{input.case_id}}'', g_institution_template = ''{{input.institution_id}}''\<rparr>"

definition chargeback_step :: step_definition where
  "chargeback_step =
     \<lparr>st_id = ''submit_chargeback_request'', st_action = HTTP_POST, st_target = ''processor-chargeback-route'',
      st_candidates = [], st_input_template = None, st_expected_text = None, st_frame_selector = None,
      st_guard_ref = Some ''processor_request_identity''\<rparr>"

definition chargeback_capability :: capability where
  "chargeback_capability =
     \<lparr>cap_id = ''processor.file_chargeback'', cap_version = ''1.0.0'', cap_schema_version = 1,
      cap_created_at = ''2026-09-12T00:00:00+00:00'', cap_name = ''File Card Chargeback'',
      cap_description = ''Submit a card-network chargeback'', cap_system = ''processor'',
      cap_effect = chargeback_effect, cap_input_schema = [], cap_output_schema = [],
      cap_guard = Some chargeback_guard, cap_steps = [chargeback_step], cap_source_run = None,
      cap_derivation = None, cap_surfaces = [''processor''], cap_hash = None\<rparr>"

lemma chargeback_capability_valid [simp]: "validate_capability chargeback_capability = Inr chargeback_capability"
  by (simp add: validate_capability_def chargeback_capability_def chargeback_effect_def chargeback_guard_def
      chargeback_step_def validate_bounds_def cents_def validate_commit_safety_contract_def missing_metadata_def
      opt_truthy_def validate_guard_spec_def validate_capability_safety_def is_actuation_def)

section \<open>Properties\<close>

text \<open>
  A capability that moves something irreversible cannot be constructed without its
  safety contract: every COMMIT definition that validation accepts has an idempotency
  key, an identity template, a precheck, a postcheck, a reconciliation rule and a
  positive monetary bound, has at least one actuation step, and each of its SUBMIT and
  HTTP_POST steps names the definition's own scoped guard.
\<close>

theorem validated_commit_is_guarded:
  assumes "validate_capability c = Inr d" and "ef_class (cap_effect c) = COMMIT"
  shows "d = c
    \<and> opt_truthy (ef_idempotency_key (cap_effect c)) \<and> ef_identity (cap_effect c) \<noteq> None
    \<and> ef_precheck (cap_effect c) \<noteq> None \<and> ef_postcheck (cap_effect c) \<noteq> None
    \<and> ef_reconciliation (cap_effect c) \<noteq> None
    \<and> (\<exists>b. ef_bounds (cap_effect c) = Some b \<and> 0 < cents (b_max_amount b))
    \<and> (\<exists>g. cap_guard c = Some g \<and> (\<exists>s \<in> set (cap_steps c). is_actuation s)
         \<and> (\<forall>s \<in> set (cap_steps c). is_actuation s \<longrightarrow> st_guard_ref s = Some (g_id g)))"
  using validate_capability_safe [OF assms(1)] assms(2) by (auto simp: safe_capability_def)

theorem validated_commit_is_guarded_witness:
  "ef_precheck (cap_effect chargeback_capability) \<noteq> None \<and> cap_guard chargeback_capability \<noteq> None"
  using validated_commit_is_guarded [of chargeback_capability chargeback_capability]
  by (simp add: chargeback_capability_def chargeback_effect_def)

text \<open>
  The loader returns an artifact only if its declared digest is the digest of
  everything else in it, it passes validation, its system is one of its supported
  surfaces, and every NAVIGATE step goes to that system's logical home; in every other
  case it raises.
\<close>

theorem load_capability_verified:
  assumes "load_capability sha parse_fields data = Inr cap"
  shows "(\<exists>d. data = VDict d \<and> dict_val d ''artifact_hash'' = VStr (compute_hash sha cap) \<and> parse_fields d = Inr cap)
    \<and> length (compute_hash sha cap) = 64
    \<and> safe_capability cap
    \<and> cap_system cap \<in> set (cap_surfaces cap)
    \<and> (\<forall>s \<in> set (cap_steps cap). st_action s = NAVIGATE \<longrightarrow> st_target s = surface_home (cap_system cap))"
proof -
  obtain d where d: "data = VDict d" using assms by (auto simp: load_capability_def split: val.splits)
  obtain h where h: "dict_val d ''artifact_hash'' = VStr h" using assms d by (auto simp: load_capability_def split: val.splits)
  have r: "length h = 64" "parse_fields d = Inr cap" "validate_capability cap = Inr cap" "h = compute_hash sha cap"
    "cap_system cap \<in> set (cap_surfaces cap)"
    "\<forall>s \<in> set (cap_steps cap). st_action s = NAVIGATE \<longrightarrow> st_target s = surface_home (cap_system cap)"
    using assms validate_capability_safe
    by (auto simp: load_capability_def d h rbind_eq_Inr guard_all_ok split: if_splits)
  then show ?thesis using validate_capability_safe [OF r(3)] d h by auto
qed

theorem load_capability_verified_witness:
  "safe_capability chargeback_capability \<and> cap_system chargeback_capability \<in> set (cap_surfaces chargeback_capability)"
proof -
  let ?h = "replicate 64 (CHR ''0'')"
  have "load_capability (\<lambda>_. ?h) (\<lambda>_. Inr chargeback_capability) (VDict [(''artifact_hash'', VStr ?h)])
      = Inr chargeback_capability"
    by (simp add: load_capability_def dict_val_def compute_hash_def compute_artifact_digest_def)
      (simp add: chargeback_capability_def chargeback_step_def)
  then show ?thesis by (auto dest: load_capability_verified)
qed

end
