(* ===== verification/Identity.thy ===== *)
theory Identity
  imports Capability "HOL-Library.Sublist"
begin

text \<open>
  \<open>tandem/domain/identity.py\<close>: the immutable identity of one external effect, its
  template rendering and field validators, and its idempotency key, the SHA-256 of
  the canonical JSON of the identity.  The digest is the parameter \<open>sha\<close>; that the
  canonical text determines the identity is proved, so distinct identities can only
  share a key through a collision of the digest.
\<close>

section \<open>Templates\<close>

definition input_placeholder :: "string \<Rightarrow> string" where
  "input_placeholder k = ''{{input.'' @ k @ ''}}''"

fun render_inputs :: "string \<Rightarrow> dict \<Rightarrow> string" where
  "render_inputs t [] = t"
| "render_inputs t ((k, v) # d) = render_inputs (replace_all (input_placeholder k) (py_str v) t) d"

definition render_identity :: "string \<Rightarrow> dict \<Rightarrow> string res" where
  "render_identity template inputs =
     (let rendered = render_inputs template inputs in
      if contains ''{{'' rendered \<or> contains ''}}'' rendered
      then Inl (ValueError (fstr [''Unresolved effect identity template: '', template]))
      else Inr (strip rendered))"

section \<open>Effect identities\<close>

record effect_identity =
  id_institution_id :: string
  id_procedure_id :: string
  id_case_id :: string
  id_capability_id :: string
  id_member_id :: string
  id_account_id :: string
  id_amount :: money
  id_currency :: string
  id_business_reference :: string

definition require_identity_value :: "string \<Rightarrow> string res" where
  "require_identity_value v =
     (let n = strip v in
      if n = [] then Inl (ValueError ''Effect identity values must not be empty'') else Inr n)"

text \<open>The length bound of the field is checked before the validator runs.\<close>

definition normalize_currency :: "string \<Rightarrow> string res" where
  "normalize_currency v =
     (if length v \<noteq> 3 then Inl (ValueError ''String should have 3 characters'')
      else let n = upper (strip v) in
        if n \<noteq> strip v \<or> \<not> is_alpha n
        then Inl (ValueError ''Currency must be a three-letter uppercase code'') else Inr n)"

definition make_identity ::
  "string \<Rightarrow> string \<Rightarrow> string \<Rightarrow> string \<Rightarrow> string \<Rightarrow> string \<Rightarrow> val \<Rightarrow> string \<Rightarrow> string \<Rightarrow> effect_identity res" where
  "make_identity inst proc cid cap mem acc amt cur ref =
     rbind (require_identity_value inst) (\<lambda>inst'.
     rbind (require_identity_value proc) (\<lambda>proc'.
     rbind (require_identity_value cid) (\<lambda>cid'.
     rbind (require_identity_value cap) (\<lambda>cap'.
     rbind (require_identity_value mem) (\<lambda>mem'.
     rbind (require_identity_value acc) (\<lambda>acc'.
     rbind (parse_money amt) (\<lambda>amt'.
     rbind (normalize_currency cur) (\<lambda>cur'.
     rbind (require_identity_value ref) (\<lambda>ref'.
       Inr \<lparr>id_institution_id = inst', id_procedure_id = proc', id_case_id = cid',
            id_capability_id = cap', id_member_id = mem', id_account_id = acc',
            id_amount = amt', id_currency = cur', id_business_reference = ref'\<rparr>)))))))))"

definition canonical_fields :: "effect_identity \<Rightarrow> (string \<times> string) list" where
  "canonical_fields i =
     [(''account_id'', id_account_id i), (''amount'', money_text (id_amount i)),
      (''business_reference'', id_business_reference i), (''capability_id'', id_capability_id i),
      (''case_id'', id_case_id i), (''currency'', id_currency i),
      (''institution_id'', id_institution_id i), (''member_id'', id_member_id i),
      (''procedure_id'', id_procedure_id i)]"

definition canonical_identity_text :: "effect_identity \<Rightarrow> string" where
  "canonical_identity_text i = json_text True (VDict (map (\<lambda>(k, v). (k, VStr v)) (canonical_fields i)))"

definition idempotency_key :: "(string \<Rightarrow> string) \<Rightarrow> effect_identity \<Rightarrow> string" where
  "idempotency_key sha i = sha (canonical_identity_text i)"

text \<open>\<open>Decimal(text)\<close>: an unparsable text raises \<open>InvalidOperation\<close>, not a \<open>ValueError\<close>.\<close>

definition decimal_of_text :: "string \<Rightarrow> decimal res" where
  "decimal_of_text s =
     (case parse_decimal s of
        None \<Rightarrow> Inl (OtherException ''[<class 'decimal.ConversionSyntax'>]'')
      | Some d \<Rightarrow> Inr d)"

definition identity_from_capability :: "capability \<Rightarrow> dict \<Rightarrow> effect_identity res" where
  "identity_from_capability c inputs =
     (case ef_identity (cap_effect c) of
        None \<Rightarrow> Inl (ValueError (fstr [''COMMIT capability '', sq, cap_id c, sq, '' has no effect identity'']))
      | Some spec \<Rightarrow>
          rbind (render_identity (is_institution_id spec) inputs) (\<lambda>inst.
          rbind (render_identity (is_procedure_id spec) inputs) (\<lambda>proc.
          rbind (render_identity (is_case_id spec) inputs) (\<lambda>cid.
          rbind (render_identity (is_capability_id spec) inputs) (\<lambda>cap.
          rbind (render_identity (is_member_id spec) inputs) (\<lambda>mem.
          rbind (render_identity (is_account_id spec) inputs) (\<lambda>acc.
          rbind (render_identity (is_amount spec) inputs) (\<lambda>amt.
          rbind (decimal_of_text amt) (\<lambda>d.
          rbind (render_identity (is_currency spec) inputs) (\<lambda>cur.
          rbind (render_identity (is_business_reference spec) inputs) (\<lambda>ref.
            make_identity inst proc cid cap mem acc (VDec d) cur ref)))))))))))"

section \<open>Facts\<close>

text \<open>The canonical text, with its keys already in order.\<close>

definition quoted_pairs :: "(string \<times> string) list \<Rightarrow> string list" where
  "quoted_pairs ps = map (\<lambda>(k, v). json_str True k @ '':'' @ json_str True v) ps"

lemma json_pairs_strings:
  "json_pairs True (map (\<lambda>(k, v). (k, VStr v)) ps) = map (\<lambda>(k, v). (k, json_str True v)) ps"
  by (induction ps) auto

lemma canonical_text_eq:
  "canonical_identity_text i = ''{'' @ intercalate '','' (quoted_pairs (canonical_fields i)) @ ''}''"
proof -
  have "sorted (map fst (json_pairs True (map (\<lambda>(k, v). (k, VStr v)) (canonical_fields i))))"
    unfolding json_pairs_strings canonical_fields_def by (simp add: less_char_def less_eq_char_def Cons_le_Cons)
  then have "sort_key fst (json_pairs True (map (\<lambda>(k, v). (k, VStr v)) (canonical_fields i)))
      = json_pairs True (map (\<lambda>(k, v). (k, VStr v)) (canonical_fields i))"
    by (rule sort_key_id_if_sorted)
  moreover have "map (\<lambda>(k, t). json_str True k @ '':'' @ t) (map (\<lambda>(k, v). (k, json_str True v)) (canonical_fields i))
      = quoted_pairs (canonical_fields i)"
    by (simp add: quoted_pairs_def split_def comp_def)
  ultimately show ?thesis
    unfolding canonical_identity_text_def json_text.simps by (simp only: json_pairs_strings)
qed

lemma intercalate_quoted_inj:
  "map fst ps = map fst qs \<Longrightarrow>
   intercalate '','' (quoted_pairs ps) @ ''}'' = intercalate '','' (quoted_pairs qs) @ ''}'' \<Longrightarrow> ps = qs"
proof (induction ps arbitrary: qs)
  case Nil
  then show ?case by simp
next
  case (Cons p ps)
  then obtain q qs' where qs: "qs = q # qs'" and f: "fst p = fst q" "map fst ps = map fst qs'"
    by (cases qs) auto
  obtain k v where p: "p = (k, v)" by (cases p)
  obtain w where q: "q = (k, w)" using f p by (cases q) auto
  define rest :: "(string \<times> string) list \<Rightarrow> string" where
    "rest xs = (if xs = [] then ''}'' else '','' @ intercalate '','' (quoted_pairs xs) @ ''}'')" for xs
  have unfold: "\<And>u xs. intercalate '','' (quoted_pairs ((k, u) # xs)) @ ''}'' =
      json_str True k @ '':'' @ json_str True u @ rest xs"
    by (case_tac xs) (simp_all add: quoted_pairs_def rest_def)
  from Cons.prems(2) have "json_str True v @ rest ps = json_str True w @ rest qs'"
    unfolding qs p q unfold by simp
  then have vw: "v = w" "rest ps = rest qs'" using json_str_append_inj by blast+
  have len: "ps = [] \<longleftrightarrow> qs' = []" using f(2) by (metis map_is_Nil_conv)
  have "ps = qs'"
  proof (cases "ps = []")
    case True
    then show ?thesis using len by simp
  next
    case False
    then show ?thesis using Cons.IH [OF f(2)] vw(2) len by (simp add: rest_def)
  qed
  then show ?case using qs p q vw by simp
qed

lemma money_text_inj: "money_text a = money_text b \<longleftrightarrow> a = b"
proof
  assume eq: "money_text a = money_text b"
  have hd: "\<And>m. hd (money_text m) = CHR ''-'' \<longleftrightarrow> m_neg m"
  proof -
    fix m
    have "hd (str_nat (m_cents m div 100)) \<noteq> CHR ''-''"
      using hd_str_nat [of "m_cents m div 100"] by (auto simp: is_digit_def)
    then show "hd (money_text m) = CHR ''-'' \<longleftrightarrow> m_neg m" by (simp add: money_text_def)
  qed
  then have n: "m_neg a = m_neg b" using eq by metis
  then have "str_nat (m_cents a div 100) @ ''.'' @ two_digits (m_cents a)
      = str_nat (m_cents b div 100) @ ''.'' @ two_digits (m_cents b)"
    using eq by (simp add: money_text_def split: if_splits)
  then have "length (str_nat (m_cents a div 100)) = length (str_nat (m_cents b div 100))
     \<and> str_nat (m_cents a div 100) @ ''.'' @ two_digits (m_cents a)
      = str_nat (m_cents b div 100) @ ''.'' @ two_digits (m_cents b)"
    by (auto dest: arg_cong [where f = length] simp: two_digits_def)
  then have "str_nat (m_cents a div 100) @ two_digits (m_cents a) = str_nat (m_cents b div 100) @ two_digits (m_cents b)"
    by (metis append_eq_append_conv list.inject append_Cons append_Nil)
  then have "m_cents a = m_cents b" by (metis digits_value_two)
  with n show "a = b" by (simp add: money.expand)
qed simp

lemma canonical_text_inj: "canonical_identity_text i = canonical_identity_text j \<longleftrightarrow> i = j"
proof
  assume "canonical_identity_text i = canonical_identity_text j"
  then have "canonical_fields i = canonical_fields j"
    unfolding canonical_text_eq by (intro intercalate_quoted_inj) (simp_all add: canonical_fields_def)
  then show "i = j" by (cases i; cases j) (simp add: canonical_fields_def money_text_inj)
qed simp

lemma require_identity_value_ok: "require_identity_value v = Inr n \<Longrightarrow> n = strip v \<and> n \<noteq> []"
  by (simp add: require_identity_value_def Let_def split: if_splits)

lemma strip_infix: "\<exists>a b. s = a @ strip s @ b"
proof -
  let ?t = "dropWhile is_space s"
  have "s = takeWhile is_space s @ ?t" by simp
  moreover have "rev ?t = takeWhile is_space (rev ?t) @ dropWhile is_space (rev ?t)" by simp
  then have "?t = strip s @ rev (takeWhile is_space (rev ?t))"
    unfolding strip_def by (metis rev_append rev_rev_ident)
  ultimately show ?thesis by metis
qed

lemma dropWhile_hd: "dropWhile P s = [] \<or> \<not> P (hd (dropWhile P s))"
  by (induction s) auto

lemma strip_ends: "strip s = [] \<or> (\<not> is_space (hd (strip s)) \<and> \<not> is_space (last (strip s)))"
proof (cases "strip s = []")
  case False
  let ?t = "dropWhile is_space s"
  let ?r = "dropWhile is_space (rev ?t)"
  have r: "?r \<noteq> []" using False by (simp add: strip_def)
  have l: "\<not> is_space (last (strip s))"
    using dropWhile_hd [of is_space "rev ?t"] r by (auto simp: strip_def last_rev)
  have "suffix ?r (rev ?t)" by (metis suffix_dropWhile)
  then obtain x where "rev ?t = x @ ?r" by (auto simp: suffix_def)
  then have "?t = rev ?r @ rev x" by (metis rev_append rev_rev_ident)
  then have t: "?t = strip s @ rev x" by (simp only: strip_def)
  have "hd ?t = hd (strip s)" "?t \<noteq> []" unfolding t using False by simp_all
  then have "\<not> is_space (hd (strip s))" using dropWhile_hd [of is_space s] by metis
  with l show ?thesis by simp
qed simp

lemma dropWhile_not_hd: "s \<noteq> [] \<Longrightarrow> \<not> P (hd s) \<Longrightarrow> dropWhile P s = s"
  by (cases s) auto

lemma strip_idem [simp]: "strip (strip s) = strip s"
proof (cases "strip s = []")
  case True
  show ?thesis unfolding True by (simp add: strip_def)
next
  case False
  then have e: "\<not> is_space (hd (strip s))" "\<not> is_space (last (strip s))" using strip_ends by blast+
  have "dropWhile is_space (strip s) = strip s" using False e by (simp add: dropWhile_not_hd)
  moreover have "dropWhile is_space (rev (strip s)) = rev (strip s)"
    using False e by (intro dropWhile_not_hd) (simp_all add: hd_rev)
  ultimately show ?thesis unfolding strip_def [of "strip s"] by simp
qed

lemma contains_strip: "contains n (strip s) \<Longrightarrow> contains n s"
proof -
  assume "contains n (strip s)"
  then obtain a b where ab: "strip s = a @ n @ b" by (auto simp: contains_iff)
  obtain c d where "s = c @ strip s @ d" using strip_infix by blast
  then have "s = (c @ a) @ n @ (b @ d)" using ab by simp
  then show ?thesis unfolding contains_iff by blast
qed

lemma render_identity_ok:
  "render_identity t inputs = Inr r \<Longrightarrow> strip r = r \<and> \<not> contains ''{{'' r \<and> \<not> contains ''}}'' r"
  by (auto simp: render_identity_def Let_def contains_strip split: if_splits)

lemma normalize_currency_ok:
  "normalize_currency v = Inr n \<Longrightarrow> n = strip v \<and> length v = 3 \<and> upper n = n \<and> is_alpha n"
  by (auto simp: normalize_currency_def Let_def split: if_splits)

lemma make_identity_ok:
  assumes "make_identity inst proc cid cap mem acc amt cur ref = Inr i"
  shows "id_institution_id i = strip inst" "id_procedure_id i = strip proc" "id_case_id i = strip cid"
    "id_capability_id i = strip cap" "id_member_id i = strip mem" "id_account_id i = strip acc"
    "parse_money amt = Inr (id_amount i)" "id_currency i = strip cur" "id_business_reference i = strip ref"
    "strip inst \<noteq> []" "strip proc \<noteq> []" "strip cid \<noteq> []" "strip cap \<noteq> []" "strip mem \<noteq> []"
    "strip acc \<noteq> []" "strip ref \<noteq> []" "length cur = 3" "upper (strip cur) = strip cur" "is_alpha (strip cur)"
  using assms
  by (auto simp: make_identity_def rbind_eq_Inr dest!: require_identity_value_ok normalize_currency_ok)

section \<open>Properties\<close>

text \<open>
  Two effects share an idempotency key only if they are the same effect: as long as
  the digest does not collide on their two canonical texts, the keys are equal exactly
  when institution, procedure, case, capability, member, account, amount, currency and
  business reference are all equal.
\<close>

theorem idempotency_key_injective:
  assumes "inj_on sha {canonical_identity_text i, canonical_identity_text j}"
  shows "idempotency_key sha i = idempotency_key sha j \<longleftrightarrow> i = j"
  using assms canonical_text_inj [of i j] unfolding idempotency_key_def by (auto simp: inj_on_def)

definition sample_identity :: effect_identity where
  "sample_identity =
     \<lparr>id_institution_id = ''alpha'', id_procedure_id = ''reg_e_dispute'', id_case_id = ''D-8842'',
      id_capability_id = ''processor.file_chargeback'', id_member_id = ''8830142'',
      id_account_id = ''CHK-8830142-01'', id_amount = Money False 34000, id_currency = ''USD'',
      id_business_reference = ''D-8842''\<rparr>"

theorem idempotency_key_injective_witness:
  "idempotency_key (\<lambda>t. t) sample_identity \<noteq> idempotency_key (\<lambda>t. t) (sample_identity\<lparr>id_member_id := ''8830124''\<rparr>)"
  using idempotency_key_injective [of "\<lambda>t. t" sample_identity "sample_identity\<lparr>id_member_id := ''8830124''\<rparr>"]
  by (simp add: sample_identity_def)

lemma identity_complete:
  assumes "identity_from_capability c inputs = Inr i"
  shows "(\<forall>f \<in> {id_institution_id i, id_procedure_id i, id_case_id i, id_capability_id i,
                id_member_id i, id_account_id i, id_business_reference i, id_currency i}.
            f \<noteq> [] \<and> strip f = f \<and> \<not> contains ''{{'' f \<and> \<not> contains ''}}'' f)
    \<and> length (id_currency i) = 3 \<and> upper (id_currency i) = id_currency i
    \<and> m_cents (id_amount i) \<le> max_money_cents"
proof -
  obtain spec where spec: "ef_identity (cap_effect c) = Some spec"
    using assms by (auto simp: identity_from_capability_def split: option.splits)
  obtain inst proc cid cap mem acc amt d cur ref where
    r: "render_identity (is_institution_id spec) inputs = Inr inst"
       "render_identity (is_procedure_id spec) inputs = Inr proc"
       "render_identity (is_case_id spec) inputs = Inr cid"
       "render_identity (is_capability_id spec) inputs = Inr cap"
       "render_identity (is_member_id spec) inputs = Inr mem"
       "render_identity (is_account_id spec) inputs = Inr acc"
       "render_identity (is_currency spec) inputs = Inr cur"
       "render_identity (is_business_reference spec) inputs = Inr ref"
    and m: "make_identity inst proc cid cap mem acc (VDec d) cur ref = Inr i"
    using assms by (auto simp: identity_from_capability_def spec rbind_eq_Inr)
  note ok = make_identity_ok [OF m]
  have "m_cents (id_amount i) \<le> max_money_cents" using ok(7) by (rule parse_money_le)
  then show ?thesis
    using ok r [THEN render_identity_ok] by auto
qed

text \<open>
  An identity built from a capability's templates is complete: no field is blank,
  none still contains an unresolved placeholder, the amount is within the supported
  range and the currency is three upper-case letters.
\<close>

theorem rendered_identity_complete:
  assumes "identity_from_capability c inputs = Inr i"
  shows "(\<forall>f \<in> {id_institution_id i, id_procedure_id i, id_case_id i, id_capability_id i,
                id_member_id i, id_account_id i, id_business_reference i, id_currency i}.
            f \<noteq> [] \<and> strip f = f \<and> \<not> contains ''{{'' f \<and> \<not> contains ''}}'' f)
    \<and> length (id_currency i) = 3 \<and> upper (id_currency i) = id_currency i
    \<and> m_cents (id_amount i) \<le> max_money_cents"
  by (rule identity_complete [OF assms])

definition sample_inputs :: dict where
  "sample_inputs =
     [(''institution_id'', VStr ''alpha''), (''member_id'', VStr ''8830142''),
      (''account_id'', VStr ''CHK-8830142-01''), (''case_id'', VStr ''D-8842''),
      (''amount'', money_val (Money False 34000)), (''currency'', VStr ''USD'')]"

text \<open>Simplification rules that evaluate rendering and parsing on concrete inputs.\<close>

lemmas render_eval = render_identity_def input_placeholder_def replace_all.simps strip_def is_space_def
  money_val_def str_fin_def str_nat.simps Let_def

lemmas parse_eval = parse_decimal_def strip_def is_space_def lower_def ascii_lower_def parse_finite_def
  parse_fraction_def parse_exponent_def make_decimal_def dec_max_adjusted_def dec_min_exp_def
  digits_value_def is_digit_def str_nat.simps

lemma sample_renders:
  "render_identity ''{{input.institution_id}}'' sample_inputs = Inr ''alpha''"
  "render_identity ''reg_e_dispute'' sample_inputs = Inr ''reg_e_dispute''"
  "render_identity ''processor.file_chargeback'' sample_inputs = Inr ''processor.file_chargeback''"
  "render_identity ''{{input.case_id}}'' sample_inputs = Inr ''D-8842''"
  "render_identity ''{{input.member_id}}'' sample_inputs = Inr ''8830142''"
  "render_identity ''{{input.account_id}}'' sample_inputs = Inr ''CHK-8830142-01''"
  "render_identity ''{{input.amount}}'' sample_inputs = Inr ''340.00''"
  "render_identity ''{{input.currency}}'' sample_inputs = Inr ''USD''"
  by (simp_all add: render_eval sample_inputs_def)

lemma sample_identity_built:
  "identity_from_capability chargeback_capability sample_inputs = Inr sample_identity"
proof -
  have "parse_decimal ''340.00'' = Some (Fin False 34000 (- 2))" by (simp add: parse_eval)
  moreover have "parse_money (VDec (Fin False 34000 (- 2))) = Inr (Money False 34000)"
    using parse_money_val [of "Money False 34000"] by (simp add: money_val_def max_money_cents_def)
  ultimately show ?thesis
    by (simp add: identity_from_capability_def chargeback_capability_def chargeback_effect_def
        identity_template_def sample_renders decimal_of_text_def make_identity_def require_identity_value_def
        strip_def is_space_def normalize_currency_def upper_def ascii_upper_def is_alpha_def is_alpha_char_def
        sample_identity_def)
qed

theorem rendered_identity_complete_witness:
  "id_member_id sample_identity \<noteq> [] \<and> length (id_currency sample_identity) = 3"
  using rendered_identity_complete [OF sample_identity_built] by blast

text \<open>
  The currency validator checks the length of the raw text and returns the stripped
  one, so constructing an identity directly with the currency \<open>" US"\<close> succeeds and
  yields the two-letter code \<open>US\<close>, which the validator's own message rules out.
\<close>

theorem currency_may_lose_a_letter:
  "map_sum id id_currency (make_identity ''alpha'' ''p'' ''c'' ''k'' ''m'' ''a'' (money_val (Money False 100)) '' US'' ''c'')
     = Inr ''US''"
  using parse_money_val [of "Money False 100"]
  by (simp add: make_identity_def require_identity_value_def strip_def is_space_def normalize_currency_def
      upper_def ascii_upper_def is_alpha_def is_alpha_char_def max_money_cents_def)

end
