(* ===== verification/Policy.thy ===== *)
theory Policy
  imports Identity
begin

text \<open>
  \<open>tandem/config.py\<close>, \<open>tandem/policy/\<close> and \<open>tandem/surfaces/routing.py\<close>: the service
  addresses, the monetary policy that precedes every COMMIT, the admission of browser
  destinations and controls, and the counter of model calls.  What the browser reports
  about a control is the record \<open>control_info\<close>.
\<close>

section \<open>Configuration\<close>

record settings =
  tandem_host :: string
  core_bank_port :: nat
  core_bank_2_port :: nat
  processor_port :: nat
  documents_port :: nat
  tandem_admin_token :: string

definition service_url :: "settings \<Rightarrow> nat \<Rightarrow> string" where
  "service_url cfg port = fstr [''http://'', tandem_host cfg, '':'', str_nat port]"

definition core_bank_url :: "settings \<Rightarrow> string" where
  "core_bank_url cfg = service_url cfg (core_bank_port cfg)"

definition core_bank_2_url :: "settings \<Rightarrow> string" where
  "core_bank_2_url cfg = service_url cfg (core_bank_2_port cfg)"

definition processor_url :: "settings \<Rightarrow> string" where
  "processor_url cfg = service_url cfg (processor_port cfg)"

definition documents_url :: "settings \<Rightarrow> string" where
  "documents_url cfg = service_url cfg (documents_port cfg)"

definition default_settings :: settings where
  "default_settings =
     \<lparr>tandem_host = ''127.0.0.1'', core_bank_port = 8001, core_bank_2_port = 8002,
      processor_port = 8003, documents_port = 8004,
      tandem_admin_token = ''tandem-local-dev-admin-token-change-me''\<rparr>"

section \<open>Monetary policy\<close>

definition max_automated_credit :: money where "max_automated_credit = Money False 50000"

definition policy_bound :: "capability \<Rightarrow> money" where
  "policy_bound c = (case ef_bounds (cap_effect c) of Some b \<Rightarrow> b_max_amount b | None \<Rightarrow> max_automated_credit)"

fun catches_value_or_type :: "exn \<Rightarrow> bool" where
  "catches_value_or_type (ValueError m) = True"
| "catches_value_or_type (TypeError m) = True"
| "catches_value_or_type _ = False"

definition check_amount :: "capability \<Rightarrow> dict \<Rightarrow> unit res" where
  "check_amount c inputs =
     (case dict_get inputs ''amount'' of
        None \<Rightarrow> Inr ()
      | Some v \<Rightarrow>
          (case parse_money v of
             Inl x \<Rightarrow> (if catches_value_or_type x
                       then Inl (PolicyViolationError (fstr [''Invalid monetary amount format: '', py_str v]))
                       else Inl x)
           | Inr amt \<Rightarrow>
               if cents (policy_bound c) < cents amt
               then Inl (PolicyViolationError (fstr [''Policy denied: Requested amount $'', money_text amt,
                      '' exceeds maximum automated limit of $'', money_text (policy_bound c),
                      ''. Requires manual executive authorization.'']))
               else if cents amt \<le> 0
               then Inl (PolicyViolationError (fstr [''Policy denied: Amount must be positive, got $'', money_text amt]))
               else Inr ()))"

definition check_currency :: "dict \<Rightarrow> unit res" where
  "check_currency inputs =
     (let currency = dict_default inputs ''currency'' (VStr ''USD'') in
      case currency of
        VList xs \<Rightarrow> Inl (TypeError ''unhashable type: list'')
      | VDict d \<Rightarrow> Inl (TypeError ''unhashable type: dict'')
      | _ \<Rightarrow> if currency = VStr ''USD'' then Inr ()
             else Inl (PolicyViolationError (fstr [''Policy denied: Currency '', sq, py_str currency, sq,
                    '' is not supported. Permitted: {'', sq, ''USD'', sq, ''}''])))"

definition check_guard_present :: "capability \<Rightarrow> unit res" where
  "check_guard_present c =
     (case cap_guard c of
        None \<Rightarrow> Inl (PolicyViolationError (fstr [''Policy denied: Capability '', sq, cap_id c, sq,
                  '' has COMMIT effect but declares no scoped guard.'']))
      | Some g \<Rightarrow> Inr ())"

definition validate_policy :: "capability \<Rightarrow> dict \<Rightarrow> unit res" where
  "validate_policy c inputs =
     (if ef_class (cap_effect c) = COMMIT then
        rbind (check_amount c inputs) (\<lambda>_.
        rbind (check_currency inputs) (\<lambda>_. check_guard_present c))
      else Inr ())"

text \<open>\<open>None\<close> is "policy passed"; only a policy violation becomes an outcome.\<close>

definition policy_evaluate :: "capability \<Rightarrow> dict \<Rightarrow> execution_outcome option res" where
  "policy_evaluate c inputs =
     (case validate_policy c inputs of
        Inr _ \<Rightarrow> Inr None
      | Inl (PolicyViolationError m) \<Rightarrow>
          Inr (Some ((outcome BUSINESS_OUTCOME POLICY_DENIED m)
            \<lparr>o_details := [(''inputs'', VDict inputs), (''capability_id'', VStr (cap_id c))]\<rparr>))
      | Inl x \<Rightarrow> Inl x)"

section \<open>Browser destinations\<close>

text \<open>\<open>urllib.parse.urlsplit\<close>: scheme, network location and path of a URL.\<close>

definition scheme_char :: "char \<Rightarrow> bool" where
  "scheme_char c \<longleftrightarrow> is_alpha_char c \<or> is_digit c \<or> c = CHR ''+'' \<or> c = CHR ''-'' \<or> c = CHR ''.''"

record split_url =
  su_scheme :: string
  su_netloc :: string
  su_path :: string

definition urlsplit :: "string \<Rightarrow> split_url" where
  "urlsplit url =
     (let u = filter (\<lambda>c. (of_char c :: nat) \<notin> {9, 10, 13}) (dropWhile (\<lambda>c. (of_char c :: nat) \<le> 32) url);
          pre = takeWhile (\<lambda>c. c \<noteq> CHR '':'') u;
          has_scheme = (length pre < length u \<and> pre \<noteq> [] \<and> is_alpha_char (hd pre) \<and> list_all scheme_char pre);
          scheme = (if has_scheme then lower pre else []);
          rest = (if has_scheme then drop (Suc (length pre)) u else u);
          has_netloc = starts_with ''//'' rest;
          netloc = (if has_netloc then takeWhile (\<lambda>c. c \<notin> {CHR ''/'', CHR ''?'', CHR ''#''}) (drop 2 rest) else []);
          tail = (if has_netloc then drop (2 + length netloc) rest else rest)
      in \<lparr>su_scheme = scheme, su_netloc = netloc, su_path = takeWhile (\<lambda>c. c \<notin> {CHR ''?'', CHR ''#''}) tail\<rparr>)"

definition read_routes :: "string list" where
  "read_routes = [''/'', ''/workspace/search'', ''/workspace/memos'', ''/workspace/credit/entry'']"

definition post_routes :: "string list" where
  "post_routes = [''/workspace/credit/confirm'', ''/workspace/credit/commit'']"

definition allowed_routes :: "string \<Rightarrow> bool \<Rightarrow> string list" where
  "allowed_routes meth human =
     (if meth = ''GET'' then read_routes else post_routes) @
     (if human \<and> meth = ''POST'' then [''/workspace/credit/clear_compliance''] else [])"

definition authorize_url :: "settings \<Rightarrow> string \<Rightarrow> string \<Rightarrow> bool \<Rightarrow> unit res" where
  "authorize_url cfg url meth human =
     (let parsed = urlsplit url;
          allowed = [su_netloc (urlsplit (core_bank_url cfg)), su_netloc (urlsplit (core_bank_2_url cfg))];
          path = (if su_path parsed = [] then ''/'' else su_path parsed)
      in if su_scheme parsed \<noteq> ''http'' \<or> su_netloc parsed \<notin> set allowed \<or> path \<notin> set (allowed_routes meth human)
         then Inl (PolicyViolationError ''Browser destination or method is not allowlisted'')
         else Inr ())"

record control_info =
  ci_href :: "string option"
  ci_action :: "string option"
  ci_method :: "string option"
  ci_submit :: bool

definition method_of :: "control_info \<Rightarrow> string" where
  "method_of info = (case ci_method info of None \<Rightarrow> [] | Some m \<Rightarrow> m)"

definition authorize_control :: "settings \<Rightarrow> control_info \<Rightarrow> string \<Rightarrow> bool \<Rightarrow> unit res" where
  "authorize_control cfg info action human =
     (if action = ''FILL'' then
        (case ci_action info of
           Some a \<Rightarrow> if a \<noteq> [] then authorize_url cfg a (method_of info) human else Inr ()
         | None \<Rightarrow> Inr ())
      else if opt_truthy (ci_href info) then authorize_url cfg (the (ci_href info)) ''GET'' False
      else if ci_submit info \<and> opt_truthy (ci_action info) then
        rbind (authorize_url cfg (the (ci_action info)) (method_of info) human) (\<lambda>_.
          if ends_with ''/commit'' (su_path (urlsplit (the (ci_action info)))) \<and> action \<noteq> ''SUBMIT''
          then Inl (PolicyViolationError ''A commit control must use guarded SUBMIT, never CLICK'')
          else Inr ())
      else Inl (PolicyViolationError ''Control has no declared allowlisted navigation or form action''))"

text \<open>The request filter installed on the browser context: abort or let through.\<close>

definition navigation_allowed :: "settings \<Rightarrow> bool \<Rightarrow> string \<Rightarrow> string \<Rightarrow> bool" where
  "navigation_allowed cfg is_navigation url meth =
     (if is_navigation then authorize_url cfg url meth True = Inr () else True)"

section \<open>Routing and telemetry\<close>

definition normalize_institution_id :: "val \<Rightarrow> string" where
  "normalize_institution_id institution =
     (let v = lower (if truthy institution then py_str institution else ''alpha'') in
      if v = ''core_bank_alpha'' then ''alpha'' else if v = ''core_bank_beta'' then ''beta'' else v)"

definition core_bank_url_for :: "settings \<Rightarrow> val \<Rightarrow> string res" where
  "core_bank_url_for cfg institution =
     (let n = normalize_institution_id institution in
      if n = ''alpha'' then Inr (core_bank_url cfg)
      else if n = ''beta'' then Inr (core_bank_2_url cfg)
      else Inl (ValueError (fstr [''Unsupported core-bank institution '', sq, n, sq])))"

record llm_tracker =
  llm_count :: nat
  llm_calls :: "(string \<times> string \<times> string) list"

definition record_call :: "string \<Rightarrow> string \<Rightarrow> string \<Rightarrow> llm_tracker \<Rightarrow> llm_tracker" where
  "record_call model prompt_snippet provider t =
     t\<lparr>llm_count := Suc (llm_count t), llm_calls := llm_calls t @ [(provider, model, take 100 prompt_snippet)]\<rparr>"

definition reset_calls :: "llm_tracker \<Rightarrow> llm_tracker" where
  "reset_calls t = t\<lparr>llm_count := 0, llm_calls := []\<rparr>"

section \<open>Properties\<close>

text \<open>
  The policy engine lets a COMMIT through exactly when the inputs, if they name an
  amount, name one that parses, is positive and does not exceed the capability's bound,
  the currency is USD (or absent) and the capability has a scoped guard.  Anything that
  is not a COMMIT passes.
\<close>

theorem policy_accepts_iff:
  "policy_evaluate c inputs = Inr None \<longleftrightarrow>
     (ef_class (cap_effect c) = COMMIT \<longrightarrow>
        (\<forall>v. dict_get inputs ''amount'' = Some v \<longrightarrow>
           (\<exists>m. parse_money v = Inr m \<and> 0 < cents m \<and> cents m \<le> cents (policy_bound c))) \<and>
        dict_default inputs ''currency'' (VStr ''USD'') = VStr ''USD'' \<and> cap_guard c \<noteq> None)"
proof -
  have e: "policy_evaluate c inputs = Inr None \<longleftrightarrow> validate_policy c inputs = Inr ()"
    by (auto simp: policy_evaluate_def split: sum.splits exn.splits)
  have a: "check_amount c inputs = Inr () \<longleftrightarrow> (\<forall>v. dict_get inputs ''amount'' = Some v \<longrightarrow>
           (\<exists>m. parse_money v = Inr m \<and> 0 < cents m \<and> cents m \<le> cents (policy_bound c)))"
    by (auto simp: check_amount_def split: option.splits sum.splits if_splits)
  have b: "check_currency inputs = Inr () \<longleftrightarrow> dict_default inputs ''currency'' (VStr ''USD'') = VStr ''USD''"
    by (auto simp: check_currency_def Let_def split: val.splits)
  have g: "check_guard_present c = Inr () \<longleftrightarrow> cap_guard c \<noteq> None"
    by (auto simp: check_guard_present_def split: option.splits)
  show ?thesis unfolding e by (simp add: validate_policy_def rbind_eq_Inr a b g)
qed

theorem policy_accepts_iff_witness:
  "policy_evaluate chargeback_capability sample_inputs = Inr None"
proof -
  have "dict_get sample_inputs ''amount'' = Some (money_val (Money False 34000))"
    by (simp add: dict_get_def sample_inputs_def)
  moreover have "dict_default sample_inputs ''currency'' (VStr ''USD'') = VStr ''USD''"
    by (simp add: dict_default_def sample_inputs_def)
  moreover have "parse_money (money_val (Money False 34000)) = Inr (Money False 34000)"
    by (rule parse_money_val) (simp add: max_money_cents_def)
  ultimately show ?thesis
    unfolding policy_accepts_iff
    by (simp add: cents_def policy_bound_def chargeback_capability_def chargeback_effect_def)
qed

lemma authorize_url_iff:
  "authorize_url cfg url meth human = Inr () \<longleftrightarrow>
     su_scheme (urlsplit url) = ''http'' \<and>
     su_netloc (urlsplit url) \<in> {su_netloc (urlsplit (core_bank_url cfg)), su_netloc (urlsplit (core_bank_2_url cfg))} \<and>
     (if su_path (urlsplit url) = [] then ''/'' else su_path (urlsplit url)) \<in> set (allowed_routes meth human)"
  unfolding authorize_url_def Let_def by (simp split: if_split)

lemma automated_routes: "allowed_routes meth False = (if meth = ''GET'' then read_routes else post_routes)"
  by (simp add: allowed_routes_def)

lemma compliance_not_automated:
  "''/workspace/credit/clear_compliance'' \<notin> set (if meth = ''GET'' then read_routes else post_routes)"
  "''/workspace/credit/commit'' \<notin> set read_routes"
  by (simp_all add: read_routes_def post_routes_def)

lemma commit_route_ends: "ends_with ''/commit'' ''/workspace/credit/commit''"
  by (simp add: ends_with_def)

lemma admitted_destination:
  assumes "authorize_url cfg url meth False = Inr ()"
  shows "su_scheme (urlsplit url) = ''http''
    \<and> su_netloc (urlsplit url) \<in> {su_netloc (urlsplit (core_bank_url cfg)), su_netloc (urlsplit (core_bank_2_url cfg))}
    \<and> (if su_path (urlsplit url) = [] then ''/'' else su_path (urlsplit url)) \<in>
         set (if meth = ''GET'' then read_routes else post_routes)
    \<and> su_path (urlsplit url) \<noteq> ''/workspace/credit/clear_compliance''"
proof -
  have "su_path (urlsplit url) \<noteq> ''/workspace/credit/clear_compliance''"
  proof
    assume p: "su_path (urlsplit url) = ''/workspace/credit/clear_compliance''"
    have "''/workspace/credit/clear_compliance'' \<in> set (if meth = ''GET'' then read_routes else post_routes)"
      using assms unfolding authorize_url_iff automated_routes p by simp
    then show False using compliance_not_automated(1) by blast
  qed
  then show ?thesis using assms unfolding authorize_url_iff automated_routes by blast
qed

text \<open>
  A control that automation may activate leads to one of the two configured core
  banks over http and to an allow-listed route for its method; automation is never
  admitted to the compliance sign-off, and a control that commits is admitted to a
  SUBMIT action only.
\<close>

theorem automated_control_admission:
  assumes "authorize_control cfg info action False = Inr ()" and "action \<noteq> ''FILL''"
  shows "\<exists>url meth. (ci_href info = Some url \<and> meth = ''GET'' \<or> ci_action info = Some url \<and> meth = method_of info)
    \<and> su_scheme (urlsplit url) = ''http''
    \<and> su_netloc (urlsplit url) \<in> {su_netloc (urlsplit (core_bank_url cfg)), su_netloc (urlsplit (core_bank_2_url cfg))}
    \<and> (if su_path (urlsplit url) = [] then ''/'' else su_path (urlsplit url)) \<in>
         set (if meth = ''GET'' then read_routes else post_routes)
    \<and> su_path (urlsplit url) \<noteq> ''/workspace/credit/clear_compliance''
    \<and> (su_path (urlsplit url) = ''/workspace/credit/commit'' \<longrightarrow> action = ''SUBMIT'')"
proof (cases "opt_truthy (ci_href info)")
  case True
  then obtain url where u: "ci_href info = Some url" by (auto simp: opt_truthy_def split: option.splits)
  have "authorize_url cfg url ''GET'' False = Inr ()" using assms True u by (simp add: authorize_control_def)
  note d = admitted_destination [OF this]
  have "su_path (urlsplit url) \<noteq> ''/workspace/credit/commit''"
  proof
    assume "su_path (urlsplit url) = ''/workspace/credit/commit''"
    then have "''/workspace/credit/commit'' \<in> set read_routes" using d by simp
    then show False using compliance_not_automated(2) by blast
  qed
  then show ?thesis using u d by blast
next
  case False
  have t: "ci_submit info \<and> opt_truthy (ci_action info)"
    using assms False by (auto simp: authorize_control_def split: if_splits)
  then obtain url where u: "ci_action info = Some url" by (auto simp: opt_truthy_def split: option.splits)
  have a: "authorize_url cfg url (method_of info) False = Inr ()"
    and c: "ends_with ''/commit'' (su_path (urlsplit url)) \<longrightarrow> action = ''SUBMIT''"
    using assms False t u by (auto simp: authorize_control_def rbind_eq_Inr split: if_splits)
  have "su_path (urlsplit url) = ''/workspace/credit/commit'' \<longrightarrow> action = ''SUBMIT''"
    using c commit_route_ends by metis
  then show ?thesis using u admitted_destination [OF a] by blast
qed

theorem automated_control_admission_witness:
  "authorize_control default_settings \<lparr>ci_href = None, ci_action = Some ''http://127.0.0.1:8001/workspace/credit/commit'',
     ci_method = Some ''POST'', ci_submit = True\<rparr> ''SUBMIT'' False = Inr ()
   \<and> (\<exists>url. su_path (urlsplit url) \<noteq> ''/workspace/credit/clear_compliance'')"
proof -
  let ?i = "\<lparr>ci_href = None, ci_action = Some ''http://127.0.0.1:8001/workspace/credit/commit'',
     ci_method = Some ''POST'', ci_submit = True\<rparr>"
  have "authorize_control default_settings ?i ''SUBMIT'' False = Inr ()"
    by (simp add: authorize_control_def opt_truthy_def authorize_url_def urlsplit_def is_alpha_char_def scheme_char_def
        lower_def ascii_lower_def method_of_def allowed_routes_def post_routes_def core_bank_url_def core_bank_2_url_def
        service_url_def default_settings_def fstr_def str_nat.simps Let_def)
  then show ?thesis using automated_control_admission [of default_settings ?i "''SUBMIT''"] by auto
qed

end
