(* ===== verification/Deadlines.thy ===== *)
theory Deadlines
  imports Calendar
begin

text \<open>
  \<open>tandem/workflow/deadlines.py\<close>: federal holidays with their in-lieu-of observance,
  business-day arithmetic in the institution's time zone, the statutory deadlines of
  12 CFR 1005.11 and their evaluation against a clock.  The time zone is a parameter.
  The business-day loop of the source ends either with the requested day or with the
  \<open>OverflowError\<close> of a date beyond 9999-12-31; both are results of the model, and its
  termination is proved from the distance to that date.
\<close>

section \<open>Federal holidays\<close>

definition nth_weekday_of_month :: "int \<Rightarrow> int \<Rightarrow> int \<Rightarrow> int \<Rightarrow> int" where
  "nth_weekday_of_month year month wd occurrence =
     (let first = date_ord year month 1; off = (wd - weekday first) mod 7
      in first + off + 7 * (occurrence - 1))"

definition last_weekday_of_month :: "int \<Rightarrow> int \<Rightarrow> int \<Rightarrow> int" where
  "last_weekday_of_month year month wd =
     (let next_month = (if month = 12 then date_ord (year + 1) 1 1 else date_ord year (month + 1) 1);
          last_day = next_month - 1; off = (weekday last_day - wd) mod 7
      in last_day - off)"

definition observed :: "int \<Rightarrow> int" where
  "observed holiday =
     (if weekday holiday = 5 then holiday - 1
      else if weekday holiday = 6 then holiday + 1 else holiday)"

definition fixed_holidays :: "int \<Rightarrow> int list" where
  "fixed_holidays year =
     [date_ord year 1 1, date_ord year 6 19, date_ord year 7 4, date_ord year 11 11, date_ord year 12 25]"

definition floating_holidays :: "int \<Rightarrow> int list" where
  "floating_holidays year =
     [nth_weekday_of_month year 1 0 3, nth_weekday_of_month year 2 0 3, last_weekday_of_month year 5 0,
      nth_weekday_of_month year 9 0 1, nth_weekday_of_month year 10 0 2, nth_weekday_of_month year 11 3 4]"

definition federal_holidays :: "int \<Rightarrow> int list" where
  "federal_holidays year = map observed (fixed_holidays year) @ floating_holidays year"

section \<open>Business days\<close>

definition is_business_day :: "int \<Rightarrow> bool" where
  "is_business_day day \<longleftrightarrow> weekday day < 5 \<and> day \<notin> set (federal_holidays (year_of day))"

function business_loop :: "int \<Rightarrow> int \<Rightarrow> int \<Rightarrow> int res" where
  "business_loop cursor added business_days =
     (if added < business_days then
        (if max_ord \<le> cursor then Inl (OverflowError ''date value out of range'')
         else business_loop (cursor + 1) (if is_business_day (cursor + 1) then added + 1 else added) business_days)
      else Inr cursor)"
  by pat_completeness auto
termination
  by (relation "measure (\<lambda>(cursor, added, n). nat (max_ord - cursor))") auto

declare business_loop.simps [simp del]

record rule_set =
  rs_zone :: zone
  rs_cutoff_hour :: int

text \<open>
  \<open>astimezone\<close> goes through UTC, and each of its two additions is checked: a reading before
  0001-01-01 or after 9999-12-31 raises.  (A moment that already carries the rule set's own
  zone object is handed back; the readings agree, since such a moment came from here.)
\<close>

definition in_calendar :: "int \<Rightarrow> bool" where
  "in_calendar w \<longleftrightarrow> min_ord \<le> w div day_us \<and> w div day_us \<le> max_ord"

definition localize :: "rule_set \<Rightarrow> datetime \<Rightarrow> datetime res" where
  "localize rs moment =
     (let t = assume_utc moment; l = astimezone (rs_zone rs) t in
      if in_calendar (instant t) \<and> in_calendar (wall l) then Inr l
      else Inl (OverflowError ''date value out of range''))"

definition add_business_days :: "rule_set \<Rightarrow> datetime \<Rightarrow> int \<Rightarrow> datetime res" where
  "add_business_days rs start business_days =
     rbind (localize rs start) (\<lambda>local.
     rbind (business_loop (date_of local) 0 business_days) (\<lambda>cursor.
       if 0 \<le> rs_cutoff_hour rs \<and> rs_cutoff_hour rs < 24
       then Inr (local_time (rs_zone rs) (cursor * day_us + rs_cutoff_hour rs * 3600 * second_us))
       else Inl (ValueError ''hour must be in 0..23'')))"

definition add_days :: "rule_set \<Rightarrow> datetime \<Rightarrow> int \<Rightarrow> datetime res" where
  "add_days rs t n =
     (if max_ord < date_of t + n then Inl (OverflowError ''date value out of range'')
      else Inr (local_time (rs_zone rs) (wall t + n * day_us)))"

text \<open>\<open>now\<close> is the reading of the rule set's clock.\<close>

definition calculate :: "rule_set \<Rightarrow> int \<Rightarrow> datetime option \<Rightarrow> bool \<Rightarrow> (string \<times> datetime) list res" where
  "calculate rs now opened_at extended_case =
     rbind (localize rs (case opened_at of Some t \<Rightarrow> t | None \<Rightarrow> utc now)) (\<lambda>base.
      rbind (add_business_days rs base 2) (\<lambda>notice.
      if extended_case then
        rbind (add_business_days rs base 20) (\<lambda>inv.
        rbind (add_days rs base 90) (\<lambda>final.
          Inr [(''NOTICE_2_DAY'', notice), (''INVESTIGATION_20_DAY'', inv), (''FINAL_RESOLUTION_90_DAY'', final)]))
      else
        rbind (add_business_days rs base 10) (\<lambda>inv.
        rbind (add_days rs base 45) (\<lambda>final.
          Inr [(''NOTICE_2_DAY'', notice), (''INVESTIGATION_10_DAY'', inv), (''FINAL_RESOLUTION_45_DAY'', final)]))))"

definition deadline_status :: "datetime \<Rightarrow> datetime \<Rightarrow> string" where
  "deadline_status reference due =
     (if instant (assume_utc due) \<le> instant (assume_utc reference) then ''OVERDUE'' else ''PENDING'')"

definition evaluate_deadlines :: "(string \<times> datetime) list \<Rightarrow> datetime \<Rightarrow> (string \<times> string) list" where
  "evaluate_deadlines deadlines now = map (\<lambda>(t, due). (t, deadline_status now due)) deadlines"

section \<open>Facts\<close>

definition business_days_between :: "int \<Rightarrow> int \<Rightarrow> nat" where
  "business_days_between a b = card {d. a < d \<and> d \<le> b \<and> is_business_day d}"

lemma business_days_step:
  assumes "a \<le> b"
  shows "business_days_between a (b + 1) = business_days_between a b + (if is_business_day (b + 1) then 1 else 0)"
proof -
  have fin: "finite {d. a < d \<and> d \<le> b \<and> is_business_day d}"
    by (rule finite_subset [of _ "{a..b}"]) auto
  have "{d. a < d \<and> d \<le> b + 1 \<and> is_business_day d} =
     (if is_business_day (b + 1) then insert (b + 1) {d. a < d \<and> d \<le> b \<and> is_business_day d}
      else {d. a < d \<and> d \<le> b \<and> is_business_day d})"
    using assms by (auto simp: order_le_less)
  then show ?thesis using fin by (simp add: business_days_between_def)
qed

lemma business_days_between_same: "business_days_between a a = 0"
proof -
  have "{d. a < d \<and> d \<le> a \<and> is_business_day d} = {}" by auto
  then show ?thesis unfolding business_days_between_def by (simp only: card.empty)
qed

lemma business_loop_spec:
  assumes "business_loop c k n = Inr r" and "start \<le> c" and "int (business_days_between start c) = k"
    and "k \<le> n" and "c = start \<or> (k < n) \<or> is_business_day c"
  shows "c \<le> r \<and> r \<le> max c max_ord \<and> int (business_days_between start r) = n \<and> (r = start \<or> is_business_day r)"
  using assms
proof (induction c k n rule: business_loop.induct)
  case (1 c k n)
  show ?case
  proof (cases "k < n")
    case True
    then have lt: "c < max_ord" and
      r: "business_loop (c + 1) (if is_business_day (c + 1) then k + 1 else k) n = Inr r"
      using "1.prems"(1) by (auto simp: business_loop.simps [of c] split: if_splits)
    have b: "int (business_days_between start (c + 1)) = (if is_business_day (c + 1) then k + 1 else k)"
      using business_days_step [OF "1.prems"(2)] "1.prems"(3) by simp
    have "c + 1 \<le> r \<and> r \<le> max (c + 1) max_ord \<and> int (business_days_between start r) = n \<and> (r = start \<or> is_business_day r)"
      using "1.IH" [OF True _ r _ b] True lt "1.prems"(2) by auto
    then show ?thesis using lt by auto
  next
    case False
    then show ?thesis using "1.prems" by (auto simp: business_loop.simps [of c])
  qed
qed

lemma length_federal_holidays: "length (federal_holidays y) = 11"
  by (simp add: federal_holidays_def fixed_holidays_def floating_holidays_def)

text \<open>Forty consecutive days hold more weekdays than two years have holidays.\<close>

lemma weekdays_in_window: "card {d. a < d \<and> d \<le> a + 40 \<and> weekday d < 5} \<ge> 25"
proof -
  define m where "m = a + 1 + (7 - weekday (a + 1)) mod 7"
  have wm: "weekday m = 0"
    unfolding m_def weekday_def by presburger
  have am: "a < m" "m \<le> a + 7" unfolding m_def by simp_all
  have sub: "(\<lambda>(k, j). m + 7 * k + j) ` ({0..4} \<times> {0..4}) \<subseteq> {d. a < d \<and> d \<le> a + 40 \<and> weekday d < 5}"
  proof
    fix d assume "d \<in> (\<lambda>(k, j). m + 7 * k + j) ` ({0..4} \<times> {0..4})"
    then obtain k j where kj: "0 \<le> k" "k \<le> 4" "0 \<le> j" "j \<le> 4" "d = m + 7 * k + j" by auto
    have "weekday d = j" using wm kj unfolding weekday_def by presburger
    then show "d \<in> {d. a < d \<and> d \<le> a + 40 \<and> weekday d < 5}" using kj am by simp
  qed
  have "inj_on (\<lambda>(k, j). m + 7 * k + j) ({0..4} \<times> {0..4})"
    by (auto simp: inj_on_def; presburger)
  then have "card ((\<lambda>(k, j). m + 7 * k + j) ` ({0..4} \<times> {0..4})) = 25"
    by (simp add: card_image)
  moreover have "finite {d. a < d \<and> d \<le> a + 40 \<and> weekday d < 5}"
    by (rule finite_subset [of _ "{a..a + 40}"]) auto
  ultimately show ?thesis using card_mono [OF _ sub] by simp
qed

lemma business_day_soon: "\<exists>d. a < d \<and> d \<le> a + 40 \<and> is_business_day d"
proof (rule ccontr)
  assume none: "\<not> ?thesis"
  let ?H = "set (federal_holidays (year_of (a + 1))) \<union> set (federal_holidays (year_of (a + 1) + 1))"
  have "{d. a < d \<and> d \<le> a + 40 \<and> weekday d < 5} \<subseteq> ?H"
  proof
    fix d assume d: "d \<in> {d. a < d \<and> d \<le> a + 40 \<and> weekday d < 5}"
    then have "d \<in> set (federal_holidays (year_of d))" using none by (auto simp: is_business_day_def)
    moreover have "year_of d = year_of (a + 1) \<or> year_of d = year_of (a + 1) + 1"
      using d by (intro year_of_window) simp_all
    ultimately show "d \<in> ?H" by auto
  qed
  then have "card {d. a < d \<and> d \<le> a + 40 \<and> weekday d < 5} \<le> card ?H" by (rule card_mono [rotated]) simp
  also have "\<dots> \<le> card (set (federal_holidays (year_of (a + 1)))) + card (set (federal_holidays (year_of (a + 1) + 1)))"
    by (rule card_Un_le)
  also have "\<dots> \<le> 11 + 11"
    using card_length [of "federal_holidays (year_of (a + 1))"] card_length [of "federal_holidays (year_of (a + 1) + 1)"]
    by (simp add: length_federal_holidays)
  finally show False using weekdays_in_window [of a] by simp
qed

lemma business_loop_skip:
  assumes "c < d" "d \<le> max_ord" "k < n" "is_business_day d" "\<forall>x. c < x \<and> x < d \<longrightarrow> \<not> is_business_day x"
  shows "business_loop c k n = business_loop d (k + 1) n"
  using assms
proof (induction "nat (d - c)" arbitrary: c)
  case 0
  then show ?case by simp
next
  case (Suc m)
  have u: "business_loop c k n = business_loop (c + 1) (if is_business_day (c + 1) then k + 1 else k) n"
    using Suc.prems by (simp add: business_loop.simps [of c])
  show ?case
  proof (cases "c + 1 = d")
    case True
    then show ?thesis using u Suc.prems by simp
  next
    case False
    then have "\<not> is_business_day (c + 1)" using Suc.prems by auto
    moreover have "business_loop (c + 1) k n = business_loop d (k + 1) n"
      using Suc.hyps(2) Suc.prems False by (intro Suc.hyps(1)) auto
    ultimately show ?thesis using u by simp
  qed
qed

lemma least_business_day:
  "\<exists>d. c < d \<and> d \<le> c + 40 \<and> is_business_day d \<and> (\<forall>x. c < x \<and> x < d \<longrightarrow> \<not> is_business_day x)"
proof -
  obtain e where e: "c < e" "e \<le> c + 40" "is_business_day e" using business_day_soon by blast
  define P where "P i \<longleftrightarrow> is_business_day (c + 1 + int i)" for i :: nat
  define l where "l = (LEAST i. P i)"
  have "P (nat (e - c - 1))" using e by (simp add: P_def)
  then have l: "P l" "l \<le> nat (e - c - 1)" unfolding l_def by (rule LeastI, rule Least_le)
  have none: "\<not> is_business_day x" if x: "c < x" "x < c + 1 + int l" for x
  proof -
    have "nat (x - c - 1) < l" using x by linarith
    then have "\<not> P (nat (x - c - 1))" unfolding l_def by (rule not_less_Least)
    then show ?thesis using x by (simp add: P_def)
  qed
  have "c < c + 1 + int l" "c + 1 + int l \<le> c + 40" using l(2) e by linarith+
  moreover have "is_business_day (c + 1 + int l)" using l(1) by (simp add: P_def)
  ultimately show ?thesis using none by blast
qed

lemma business_loop_returns:
  assumes "k \<le> n" "c + 40 * (n - k) \<le> max_ord"
  shows "\<exists>r. business_loop c k n = Inr r \<and> r \<le> c + 40 * (n - k)"
  using assms
proof (induction "nat (n - k)" arbitrary: c k)
  case 0
  then show ?case by (simp add: business_loop.simps)
next
  case (Suc m)
  then have kn: "k < n" by linarith
  obtain d where d: "c < d" "d \<le> c + 40" "is_business_day d" "\<forall>x. c < x \<and> x < d \<longrightarrow> \<not> is_business_day x"
    using least_business_day by blast
  have "40 * 1 \<le> 40 * (n - k)" using kn by (intro mult_left_mono) simp_all
  then have "d \<le> max_ord" using d(2) Suc.prems(2) by linarith
  then have e: "business_loop c k n = business_loop d (k + 1) n" using d kn by (intro business_loop_skip) auto
  have "\<exists>r. business_loop d (k + 1) n = Inr r \<and> r \<le> d + 40 * (n - (k + 1))"
    using Suc.hyps(2) Suc.prems(2) kn d(2) by (intro Suc.hyps(1)) (simp_all add: right_diff_distrib)
  then show ?case using e d(2) by (auto simp: right_diff_distrib)
qed

lemma date_of_local:
  assumes "0 \<le> rs_cutoff_hour rs" "rs_cutoff_hour rs < 24"
  shows "date_of (local_time z (cursor * day_us + rs_cutoff_hour rs * 3600 * second_us)) = cursor"
proof -
  have "0 \<le> rs_cutoff_hour rs * 3600 * second_us" "rs_cutoff_hour rs * 3600 * second_us < day_us"
    using assms by (simp_all add: second_us_def day_us_def)
  then show ?thesis
    by (simp add: date_of_def local_time_def int_div_pos_eq [of _ day_us cursor "rs_cutoff_hour rs * 3600 * second_us"])
qed

lemma add_business_days_Inr:
  assumes "add_business_days rs start n = Inr due"
  obtains local c where "localize rs start = Inr local" "business_loop (date_of local) 0 n = Inr c"
    "0 \<le> rs_cutoff_hour rs" "rs_cutoff_hour rs < 24"
    "due = local_time (rs_zone rs) (c * day_us + rs_cutoff_hour rs * 3600 * second_us)"
  using assms by (auto simp: add_business_days_def rbind_eq_Inr split: if_splits)

text \<open>A zone shifts a reading by less than a day, so the local date is at most one day off.\<close>

lemma localize_returns:
  assumes "\<bar>from_utc (rs_zone rs) (instant start)\<bar> < day_us"
    and "min_ord < instant start div day_us" "instant start div day_us < max_ord"
  obtains local where "localize rs start = Inr local"
    "date_of local \<le> instant start div day_us + 1" "instant start div day_us - 1 \<le> date_of local"
proof -
  let ?i = "instant start" and ?o = "from_utc (rs_zone rs) (instant start)"
  have "?i + ?o < ?i + day_us" "?i - day_us < ?i + ?o" using assms(1) by linarith+
  then have b: "(?i + ?o) div day_us \<le> ?i div day_us + 1" "?i div day_us - 1 \<le> (?i + ?o) div day_us"
    unfolding day_us_def by linarith+
  have l: "localize rs start = Inr (astimezone (rs_zone rs) (assume_utc start))"
    using assms(2,3) b by (simp add: localize_def in_calendar_def astimezone_def Let_def)
  show thesis
    using b by (intro that [OF l]) (simp_all add: astimezone_def date_of_def Let_def)
qed

section \<open>Properties\<close>

text \<open>
  C37: The day that \<open>add_business_days\<close> returns is the right one, by the program's own
  \<open>is_business_day\<close>: exactly the requested number of business days lie after the (local)
  start date up to and including it; it is itself a business day when at least one day was
  requested and the start date when none was; and it is stamped at the cutoff hour.
\<close>

theorem add_business_days_correct:
  assumes "add_business_days rs start n = Inr due" "0 \<le> n"
  shows "\<exists>local. localize rs start = Inr local
    \<and> int (business_days_between (date_of local) (date_of due)) = n
    \<and> (if n = 0 then date_of due = date_of local else is_business_day (date_of due))
    \<and> date_of local \<le> date_of due
    \<and> wall due = date_of due * day_us + rs_cutoff_hour rs * 3600 * second_us"
proof -
  obtain local c where loc: "localize rs start = Inr local" and c: "business_loop (date_of local) 0 n = Inr c"
    and h: "0 \<le> rs_cutoff_hour rs" "rs_cutoff_hour rs < 24"
    and due: "due = local_time (rs_zone rs) (c * day_us + rs_cutoff_hour rs * 3600 * second_us)"
    using add_business_days_Inr [OF assms(1)] by metis
  let ?s = "date_of local"
  have z: "int (business_days_between ?s ?s) = 0" by (simp add: business_days_between_same)
  have d: "date_of due = c" using due date_of_local [OF h] by simp
  have w: "wall due = c * day_us + rs_cutoff_hour rs * 3600 * second_us"
    using due by (simp add: local_time_def)
  have s: "?s \<le> c \<and> int (business_days_between ?s c) = n \<and> (c = ?s \<or> is_business_day c)"
    using business_loop_spec [OF c order_refl z assms(2)] by simp
  have "n = 0 \<Longrightarrow> c = ?s" using c by (simp add: business_loop.simps)
  moreover have "n \<noteq> 0 \<Longrightarrow> is_business_day c" using s z by auto
  ultimately show ?thesis using loc d w s by auto
qed

definition fixed_zone :: "int \<Rightarrow> zone" where
  "fixed_zone off = \<lparr>from_utc = (\<lambda>_. off), at_wall = (\<lambda>_. off)\<rparr>"

definition sample_rules :: rule_set where
  "sample_rules = \<lparr>rs_zone = fixed_zone (- 5 * 3600 * second_us), rs_cutoff_hour = 17\<rparr>"

lemmas calendar_eval = date_ord_def days_before_year_def days_before_month_def month_table_def is_leap_def
  year_of_def weekday_def nth_weekday_of_month_def last_weekday_of_month_def observed_def fixed_holidays_def
  floating_holidays_def federal_holidays_def is_business_day_def Let_def

text \<open>Noon UTC on Thursday 24 December 2026: the second business day after it is Tuesday the 29th.\<close>

definition sample_start :: datetime where
  "sample_start = utc (date_ord 2026 12 24 * day_us + 12 * 3600 * second_us)"

lemma sample_cutoff [simp]: "rs_cutoff_hour sample_rules = 17"
  by (simp add: sample_rules_def)

lemma sample_ord: "date_ord 2026 12 24 = 739974" by (simp add: calendar_eval)

text \<open>Noon UTC is seven in the morning five hours west of Greenwich.\<close>

definition sample_local :: datetime where
  "sample_local = DT (739974 * day_us + 7 * 3600 * second_us) (Some (- 5 * 3600 * second_us))"

lemma sample_localized [simp]: "localize sample_rules sample_start = Inr sample_local"
  by (simp add: localize_def sample_start_def utc_def sample_ord sample_rules_def fixed_zone_def in_calendar_def
      astimezone_def instant_def sample_local_def day_us_def second_us_def min_ord_def max_ord_def)

lemma sample_local_again [simp]: "localize sample_rules sample_local = Inr sample_local"
  by (simp add: localize_def sample_rules_def fixed_zone_def in_calendar_def
      astimezone_def instant_def sample_local_def day_us_def second_us_def min_ord_def max_ord_def)

lemma sample_local_date [simp]: "date_of sample_local = 739974"
  by (simp add: sample_local_def date_of_def day_us_def second_us_def)

lemma sample_due: "map_sum id date_of (add_business_days sample_rules sample_start 2) = Inr 739979"
proof -
  have "business_loop 739974 0 2 = Inr 739979"
    by (simp add: business_loop.simps max_ord_def calendar_eval)
  then show ?thesis
    using date_of_local [of sample_rules "rs_zone sample_rules" 739979]
    by (simp add: add_business_days_def)
qed

theorem add_business_days_correct_witness:
  "business_days_between 739974 739979 = 2 \<and> is_business_day 739979"
proof -
  obtain due where due: "add_business_days sample_rules sample_start 2 = Inr due" "date_of due = 739979"
    using sample_due by (cases "add_business_days sample_rules sample_start 2") auto
  then show ?thesis
    using add_business_days_correct [OF due(1)] by simp
qed

text \<open>
  C38: A computation away from the ends of the calendar always returns: when the moment's UTC
  date is neither the calendar's first day nor within forty days per requested business day of
  its last one, the loop ends within that distance and no addition raises.
\<close>

theorem add_business_days_returns:
  assumes "0 \<le> n" "\<bar>from_utc (rs_zone rs) (instant start)\<bar> < day_us"
    and "min_ord < instant start div day_us" "instant start div day_us + 1 + 40 * n \<le> max_ord"
    and "0 \<le> rs_cutoff_hour rs" "rs_cutoff_hour rs < 24"
  shows "\<exists>due. add_business_days rs start n = Inr due
    \<and> date_of due \<le> instant start div day_us + 1 + 40 * n"
proof -
  obtain local where loc: "localize rs start = Inr local" "date_of local \<le> instant start div day_us + 1"
    using assms by (elim localize_returns) linarith+
  then show ?thesis
    using business_loop_returns [of 0 n "date_of local"] assms date_of_local [of rs]
    by (auto simp: add_business_days_def)
qed

theorem add_business_days_returns_witness:
  "\<exists>due. add_business_days sample_rules sample_start 10 = Inr due"
  using add_business_days_returns [of 10 sample_rules sample_start]
  by (auto simp: max_ord_def min_ord_def sample_start_def sample_ord sample_rules_def fixed_zone_def
      utc_def instant_def day_us_def second_us_def)

text \<open>
  At the ends the conversion raises: midnight UTC of the first day has no local reading west
  of Greenwich.
\<close>

lemma first_day_raises:
  "add_business_days sample_rules (utc (min_ord * day_us)) n = Inl (OverflowError ''date value out of range'')"
  by (simp add: add_business_days_def localize_def sample_rules_def fixed_zone_def utc_def astimezone_def
      instant_def in_calendar_def min_ord_def max_ord_def day_us_def second_us_def)

text \<open>Every holiday of a year is observed before its last day.\<close>

lemma holidays_before_year_end:
  assumes "d \<in> set (federal_holidays y)"
  shows "d < date_ord y 12 31"
proof -
  have m: "0 \<le> k mod 7" "k mod 7 < 7" for k :: int by simp_all
  have obs: "observed h \<le> h + 1" for h by (simp add: observed_def)
  have ords: "date_ord y 1 1 + 1 < date_ord y 12 31" "date_ord y 6 19 + 1 < date_ord y 12 31" "date_ord y 7 4 + 1 < date_ord y 12 31"
    "date_ord y 11 11 + 1 < date_ord y 12 31" "date_ord y 12 25 + 1 < date_ord y 12 31" "date_ord y 1 1 + 20 < date_ord y 12 31"
    "date_ord y 2 1 + 20 < date_ord y 12 31" "date_ord y 6 1 < date_ord y 12 31" "date_ord y 9 1 + 6 < date_ord y 12 31"
    "date_ord y 10 1 + 13 < date_ord y 12 31" "date_ord y 11 1 + 27 < date_ord y 12 31"
    by (simp_all add: date_ord_def days_before_month_def month_table_def)
  have nth: "nth_weekday_of_month y mo wd n \<le> date_ord y mo 1 + 6 + 7 * (n - 1)" for mo wd n
    using m(2) [of "wd - weekday (date_ord y mo 1)"] by (simp add: nth_weekday_of_month_def Let_def)
  have last: "last_weekday_of_month y 5 0 < date_ord y 6 1"
    using m(1) [of "weekday (date_ord y 6 1 - 1) - 0"] by (simp add: last_weekday_of_month_def Let_def)
  consider h where "h \<in> set (fixed_holidays y)" "d = observed h" | "d \<in> set (floating_holidays y)"
    using assms by (auto simp: federal_holidays_def)
  then show ?thesis
  proof cases
    case (1 h)
    then have "h + 1 < date_ord y 12 31" using ords(1-5) by (auto simp: fixed_holidays_def)
    then show ?thesis using obs [of h] 1 by simp
  next
    case 2
    then show ?thesis
      using nth [of 1 0 3] nth [of 2 0 3] last nth [of 9 0 1] nth [of 10 0 2] nth [of 11 3 4] ords(6-)
      by (auto simp: floating_holidays_def)
  qed
qed

text \<open>
  C39: The holiday calendar is looked up by the year of the day alone.  Whenever New Year's Day
  falls on a Saturday, the Friday before it, on which \<open>federal_holidays\<close> of the new year
  says it is observed, counts as a business day (so 2021-12-31 did).
\<close>

theorem saturday_new_year_missed:
  assumes "weekday (date_ord (y + 1) 1 1) = 5"
  shows "date_ord y 12 31 \<in> set (federal_holidays (y + 1)) \<and> is_business_day (date_ord y 12 31)"
proof -
  have next_day: "date_ord (y + 1) 1 1 = date_ord y 12 31 + 1"
    using days_before_year_next [of y] by (simp add: date_ord_def days_before_month_def month_table_def)
  then have friday: "weekday (date_ord y 12 31) = 4"
    using assms unfolding weekday_def by presburger
  have year: "year_of (date_ord y 12 31) = y"
    using days_before_year_next [of y]
    by (intro year_of_unique) (simp_all add: date_ord_def days_before_month_def month_table_def)
  have "observed (date_ord (y + 1) 1 1) = date_ord y 12 31"
    using assms next_day by (simp add: observed_def)
  then have "date_ord y 12 31 \<in> set (federal_holidays (y + 1))"
    by (auto simp: federal_holidays_def fixed_holidays_def)
  moreover have "date_ord y 12 31 \<notin> set (federal_holidays y)" using holidays_before_year_end by blast
  ultimately show ?thesis using friday year by (simp add: is_business_day_def)
qed

theorem saturday_new_year_missed_witness: "is_business_day (date_ord 2021 12 31)"
  using saturday_new_year_missed [of 2021] by (simp add: calendar_eval)

end
