(* ===== verification/StateMachine.thy ===== *)
theory StateMachine
  imports Values
begin

text \<open>
  \<open>tandem/workflow/state_machine.py\<close>: the states of a Regulation E dispute, the table
  of permitted transitions, and the step relation it describes.
\<close>

datatype reg_e_state =
    RECEIVED | MEMBER_VERIFIED | TRANSACTION_VERIFIED | DUPLICATE_CHECKED | CHARGEBACK_FILED
  | PROVISIONAL_CREDIT_POSTED | NOTICE_PENDING | NOTICE_SENT | WAITING_RESOLUTION | RESOLVED
  | NEEDS_HUMAN | ST_UNCERTAIN_EFFECT | FAILED

fun state_value :: "reg_e_state \<Rightarrow> string" where
  "state_value RECEIVED = ''RECEIVED''"
| "state_value MEMBER_VERIFIED = ''MEMBER_VERIFIED''"
| "state_value TRANSACTION_VERIFIED = ''TRANSACTION_VERIFIED''"
| "state_value DUPLICATE_CHECKED = ''DUPLICATE_CHECKED''"
| "state_value CHARGEBACK_FILED = ''CHARGEBACK_FILED''"
| "state_value PROVISIONAL_CREDIT_POSTED = ''PROVISIONAL_CREDIT_POSTED''"
| "state_value NOTICE_PENDING = ''NOTICE_PENDING''"
| "state_value NOTICE_SENT = ''NOTICE_SENT''"
| "state_value WAITING_RESOLUTION = ''WAITING_RESOLUTION''"
| "state_value RESOLVED = ''RESOLVED''"
| "state_value NEEDS_HUMAN = ''NEEDS_HUMAN''"
| "state_value ST_UNCERTAIN_EFFECT = ''UNCERTAIN_EFFECT''"
| "state_value FAILED = ''FAILED''"

definition all_states :: "reg_e_state list" where
  "all_states = [RECEIVED, MEMBER_VERIFIED, TRANSACTION_VERIFIED, DUPLICATE_CHECKED, CHARGEBACK_FILED,
     PROVISIONAL_CREDIT_POSTED, NOTICE_PENDING, NOTICE_SENT, WAITING_RESOLUTION, RESOLVED,
     NEEDS_HUMAN, ST_UNCERTAIN_EFFECT, FAILED]"

text \<open>\<open>RegEState(text)\<close> raises \<open>ValueError\<close> on any other text.\<close>

definition state_of_value :: "string \<Rightarrow> reg_e_state res" where
  "state_of_value s =
     (case find (\<lambda>st. state_value st = s) all_states of
        Some st \<Rightarrow> Inr st
      | None \<Rightarrow> Inl (ValueError (fstr [repr_str s, '' is not a valid RegEState''])))"

fun valid_transitions :: "reg_e_state \<Rightarrow> reg_e_state list" where
  "valid_transitions RECEIVED = [MEMBER_VERIFIED, FAILED, NEEDS_HUMAN]"
| "valid_transitions MEMBER_VERIFIED = [TRANSACTION_VERIFIED, FAILED, NEEDS_HUMAN]"
| "valid_transitions TRANSACTION_VERIFIED = [DUPLICATE_CHECKED, FAILED, NEEDS_HUMAN]"
| "valid_transitions DUPLICATE_CHECKED = [CHARGEBACK_FILED, PROVISIONAL_CREDIT_POSTED, RESOLVED, NEEDS_HUMAN, FAILED]"
| "valid_transitions CHARGEBACK_FILED = [PROVISIONAL_CREDIT_POSTED, NEEDS_HUMAN, ST_UNCERTAIN_EFFECT, FAILED]"
| "valid_transitions PROVISIONAL_CREDIT_POSTED = [NOTICE_PENDING, NOTICE_SENT, NEEDS_HUMAN, ST_UNCERTAIN_EFFECT, FAILED]"
| "valid_transitions NOTICE_PENDING = [NOTICE_SENT, NEEDS_HUMAN, FAILED]"
| "valid_transitions NOTICE_SENT = [WAITING_RESOLUTION, RESOLVED]"
| "valid_transitions WAITING_RESOLUTION = [RESOLVED, NEEDS_HUMAN]"
| "valid_transitions NEEDS_HUMAN = [MEMBER_VERIFIED, TRANSACTION_VERIFIED, DUPLICATE_CHECKED, CHARGEBACK_FILED,
     PROVISIONAL_CREDIT_POSTED, NOTICE_PENDING, NOTICE_SENT, WAITING_RESOLUTION, RESOLVED, FAILED]"
| "valid_transitions ST_UNCERTAIN_EFFECT = [NEEDS_HUMAN, RESOLVED, FAILED]"
| "valid_transitions RESOLVED = []"
| "valid_transitions FAILED = []"

definition can_transition :: "reg_e_state \<Rightarrow> reg_e_state \<Rightarrow> bool" where
  "can_transition current target = (current = target \<or> target \<in> set (valid_transitions current))"

section \<open>The step relation and its runs\<close>

inductive case_step :: "reg_e_state \<Rightarrow> reg_e_state \<Rightarrow> bool" where
  move: "target \<in> set (valid_transitions current) \<Longrightarrow> case_step current target"

inductive_simps case_step_simps: "case_step s t"
inductive_cases from_resolved: "case_step RESOLVED t"
inductive_cases from_failed: "case_step FAILED t"

text \<open>\<open>case_path s visited t\<close>: a run from \<open>s\<close> to \<open>t\<close> that passes through \<open>visited\<close>.\<close>

inductive case_path :: "reg_e_state \<Rightarrow> reg_e_state list \<Rightarrow> reg_e_state \<Rightarrow> bool" where
  stay: "case_path s [s] s"
| step: "case_path s vs t \<Longrightarrow> case_step t u \<Longrightarrow> case_path s (vs @ [u]) u"

lemma state_value_inj [simp]: "state_value a = state_value b \<longleftrightarrow> a = b"
  by (cases a; cases b) simp_all

lemma state_of_value_value [simp]: "state_of_value (state_value s) = Inr s"
  by (cases s) (simp_all add: state_of_value_def all_states_def)

lemma state_of_value_Inr: "state_of_value v = Inr s \<longleftrightarrow> v = state_value s"
proof
  assume "state_of_value v = Inr s"
  then have "find (\<lambda>st. state_value st = v) all_states = Some s"
    by (simp add: state_of_value_def split: option.splits)
  then show "v = state_value s" by (auto simp: find_Some_iff)
qed simp

lemma can_transition_iff: "can_transition s t \<longleftrightarrow> s = t \<or> case_step s t"
  by (auto simp: can_transition_def case_step_simps)

lemma path_last: "case_path s vs t \<Longrightarrow> t \<in> set vs \<and> s \<in> set vs"
  by (induction rule: case_path.induct) auto

text \<open>What a run from \<open>RECEIVED\<close> must have passed through, state by state.\<close>

fun prerequisites :: "reg_e_state \<Rightarrow> reg_e_state list" where
  "prerequisites RECEIVED = []"
| "prerequisites NEEDS_HUMAN = []"
| "prerequisites FAILED = []"
| "prerequisites MEMBER_VERIFIED = []"
| "prerequisites TRANSACTION_VERIFIED = [MEMBER_VERIFIED]"
| "prerequisites DUPLICATE_CHECKED = [MEMBER_VERIFIED, TRANSACTION_VERIFIED]"
| "prerequisites RESOLVED = [MEMBER_VERIFIED, TRANSACTION_VERIFIED, DUPLICATE_CHECKED]"
| "prerequisites ST_UNCERTAIN_EFFECT = [MEMBER_VERIFIED, TRANSACTION_VERIFIED, DUPLICATE_CHECKED]"
| "prerequisites CHARGEBACK_FILED = [MEMBER_VERIFIED, TRANSACTION_VERIFIED, DUPLICATE_CHECKED]"
| "prerequisites PROVISIONAL_CREDIT_POSTED = [MEMBER_VERIFIED, TRANSACTION_VERIFIED, DUPLICATE_CHECKED]"
| "prerequisites NOTICE_PENDING = [MEMBER_VERIFIED, TRANSACTION_VERIFIED, DUPLICATE_CHECKED, PROVISIONAL_CREDIT_POSTED]"
| "prerequisites NOTICE_SENT = [MEMBER_VERIFIED, TRANSACTION_VERIFIED, DUPLICATE_CHECKED, PROVISIONAL_CREDIT_POSTED]"
| "prerequisites WAITING_RESOLUTION = [MEMBER_VERIFIED, TRANSACTION_VERIFIED, DUPLICATE_CHECKED, PROVISIONAL_CREDIT_POSTED, NOTICE_SENT]"

lemma step_prerequisites:
  "u \<in> set (valid_transitions t) \<Longrightarrow> t \<noteq> NEEDS_HUMAN \<Longrightarrow> set (prerequisites u) \<subseteq> insert t (set (prerequisites t))"
  by (cases t) auto

lemma path_prerequisites:
  "case_path s vs t \<Longrightarrow> s = RECEIVED \<Longrightarrow> NEEDS_HUMAN \<in> set vs \<or> set (prerequisites t) \<subseteq> set vs"
proof (induction rule: case_path.induct)
  case (stay s)
  then show ?case by simp
next
  case (step s vs t u)
  show ?case
  proof (cases "NEEDS_HUMAN \<in> set vs")
    case False
    then have "t \<noteq> NEEDS_HUMAN" "set (prerequisites t) \<subseteq> set vs" "t \<in> set vs"
      using step path_last by auto
    moreover have "u \<in> set (valid_transitions t)" using step.hyps(2) by (simp add: case_step_simps)
    ultimately have "set (prerequisites u) \<subseteq> set vs" using step_prerequisites by blast
    then show ?thesis by auto
  qed simp
qed

section \<open>Properties\<close>

text \<open>
  \<open>RESOLVED\<close> and \<open>FAILED\<close> are the only terminal states of the transition table: a
  run that is in one of them stays there, every other state has a successor, and
  \<open>can_transition\<close> agrees with the step relation except that it also accepts staying.
\<close>

theorem terminal_states:
  "(case_step s t \<longrightarrow> s \<noteq> RESOLVED \<and> s \<noteq> FAILED)
   \<and> ((\<exists>u. case_step s u) \<longleftrightarrow> s \<noteq> RESOLVED \<and> s \<noteq> FAILED)
   \<and> (can_transition s t \<longleftrightarrow> s = t \<or> case_step s t)"
  by (cases s) (auto simp: case_step_simps can_transition_iff)

theorem terminal_states_witness: "\<exists>u. case_step NEEDS_HUMAN u"
  using terminal_states [of NEEDS_HUMAN] by simp

text \<open>
  In every run of the state machine from \<open>RECEIVED\<close> that no human touched, the
  milestones come in order: the case cannot be waiting for resolution unless the notice
  was sent, cannot reach a notice state unless provisional credit was posted, and
  cannot post credit, file a chargeback or be resolved before member, transaction and
  duplicate checks.
\<close>

theorem milestones_in_order:
  assumes "case_path RECEIVED vs t" "NEEDS_HUMAN \<notin> set vs"
  shows "set (prerequisites t) \<subseteq> set vs
    \<and> (t = WAITING_RESOLUTION \<longrightarrow> NOTICE_SENT \<in> set vs)
    \<and> (t \<in> {NOTICE_PENDING, NOTICE_SENT, WAITING_RESOLUTION} \<longrightarrow> PROVISIONAL_CREDIT_POSTED \<in> set vs)
    \<and> (t \<in> {CHARGEBACK_FILED, PROVISIONAL_CREDIT_POSTED, RESOLVED} \<longrightarrow> DUPLICATE_CHECKED \<in> set vs)"
  using path_prerequisites [OF assms(1)] assms(2) by auto

theorem milestones_in_order_witness:
  "DUPLICATE_CHECKED \<in> set [RECEIVED, MEMBER_VERIFIED, TRANSACTION_VERIFIED, DUPLICATE_CHECKED, CHARGEBACK_FILED]"
proof -
  have 0: "case_path RECEIVED [RECEIVED] RECEIVED" by (rule stay)
  have 1: "case_path RECEIVED [RECEIVED, MEMBER_VERIFIED] MEMBER_VERIFIED"
    using case_path.step [OF 0, of MEMBER_VERIFIED] by (simp add: case_step_simps)
  have 2: "case_path RECEIVED [RECEIVED, MEMBER_VERIFIED, TRANSACTION_VERIFIED] TRANSACTION_VERIFIED"
    using case_path.step [OF 1, of TRANSACTION_VERIFIED] by (simp add: case_step_simps)
  have 3: "case_path RECEIVED [RECEIVED, MEMBER_VERIFIED, TRANSACTION_VERIFIED, DUPLICATE_CHECKED] DUPLICATE_CHECKED"
    using case_path.step [OF 2, of DUPLICATE_CHECKED] by (simp add: case_step_simps)
  have "case_path RECEIVED [RECEIVED, MEMBER_VERIFIED, TRANSACTION_VERIFIED, DUPLICATE_CHECKED, CHARGEBACK_FILED] CHARGEBACK_FILED"
    using case_path.step [OF 3, of CHARGEBACK_FILED] by (simp add: case_step_simps)
  then show ?thesis using milestones_in_order [of "[RECEIVED, MEMBER_VERIFIED, TRANSACTION_VERIFIED, DUPLICATE_CHECKED, CHARGEBACK_FILED]" CHARGEBACK_FILED] by simp
qed

end
