(* ===== verification/Programs.thy ===== *)
theory Programs
  imports Prelude
begin

text \<open>
  Programs with state, exceptions and process death.  A method that reads and
  writes a state of type \<open>'s\<close> is a function from the state to its result and the
  new state; the result is a value, a raised exception, or the death of the
  process (\<open>os._exit\<close>), which no handler catches and after which nothing runs.
  \<open>keeps\<close> and \<open>triple\<close> are the two judgements the component proofs use, with one
  rule for every way of composing programs.
\<close>

datatype 'a run = Ret 'a | Raise exn | Died

type_synonym ('s, 'a) prog = "'s \<Rightarrow> 'a run \<times> 's"

named_theorems keeps_rules \<open>rules for preserved invariants\<close>
named_theorems prog_simps \<open>unfolding of the program combinators\<close>

definition ret :: "'a \<Rightarrow> ('s, 'a) prog" where
  "ret x = (\<lambda>s. (Ret x, s))"

definition fail :: "exn \<Rightarrow> ('s, 'a) prog" where
  "fail e = (\<lambda>s. (Raise e, s))"

definition die :: "('s, 'a) prog" where
  "die = (\<lambda>s. (Died, s))"

definition bnd :: "('s, 'a) prog \<Rightarrow> ('a \<Rightarrow> ('s, 'b) prog) \<Rightarrow> ('s, 'b) prog" where
  "bnd p f = (\<lambda>s. case p s of
     (Ret x, t) \<Rightarrow> f x t
   | (Raise e, t) \<Rightarrow> (Raise e, t)
   | (Died, t) \<Rightarrow> (Died, t))"

definition andthen :: "('s, 'a) prog \<Rightarrow> ('s, 'b) prog \<Rightarrow> ('s, 'b) prog" where
  "andthen p q = bnd p (\<lambda>_. q)"

definition gets :: "('s \<Rightarrow> 'a) \<Rightarrow> ('s, 'a) prog" where
  "gets f = (\<lambda>s. (Ret (f s), s))"

definition change :: "('s \<Rightarrow> 's) \<Rightarrow> ('s, unit) prog" where
  "change f = (\<lambda>s. (Ret (), f s))"

text \<open>A computation that may raise and does not touch the state.\<close>

definition of_res :: "'a res \<Rightarrow> ('s, 'a) prog" where
  "of_res r = (\<lambda>s. (case r of Inl e \<Rightarrow> Raise e | Inr x \<Rightarrow> Ret x, s))"

definition unless_raise :: "bool \<Rightarrow> exn \<Rightarrow> ('s, unit) prog" where
  "unless_raise b e = (if b then ret () else fail e)"

text \<open>\<open>try: p except Exception as e: h e\<close>, for the exceptions the handler accepts.\<close>

definition catch :: "(exn \<Rightarrow> bool) \<Rightarrow> ('s, 'a) prog \<Rightarrow> (exn \<Rightarrow> ('s, 'a) prog) \<Rightarrow> ('s, 'a) prog" where
  "catch ok p h = (\<lambda>s. case p s of
     (Ret x, t) \<Rightarrow> (Ret x, t)
   | (Raise e, t) \<Rightarrow> if ok e then h e t else (Raise e, t)
   | (Died, t) \<Rightarrow> (Died, t))"

fun for_each :: "('x \<Rightarrow> ('s, unit) prog) \<Rightarrow> 'x list \<Rightarrow> ('s, unit) prog" where
  "for_each f [] = ret ()"
| "for_each f (x # xs) = andthen (f x) (for_each f xs)"

text \<open>A loop whose body may return from the enclosing method.\<close>

fun for_return :: "('x \<Rightarrow> ('s, 'a option) prog) \<Rightarrow> 'x list \<Rightarrow> ('s, 'a option) prog" where
  "for_return f [] = ret None"
| "for_return f (x # xs) = bnd (f x) (\<lambda>r. case r of Some a \<Rightarrow> ret (Some a) | None \<Rightarrow> for_return f xs)"

text \<open>Run a program on a component of the state.\<close>

definition on_part :: "('t \<Rightarrow> 's) \<Rightarrow> ('s \<Rightarrow> 't \<Rightarrow> 't) \<Rightarrow> ('s, 'a) prog \<Rightarrow> ('t, 'a) prog" where
  "on_part get put p = (\<lambda>t. case p (get t) of (r, s) \<Rightarrow> (r, put s t))"

section \<open>Running programs\<close>

lemma ret_run [prog_simps, simp]: "ret x s = (Ret x, s)"
  by (simp add: ret_def)

lemma fail_run [prog_simps, simp]: "fail e s = (Raise e, s)"
  by (simp add: fail_def)

lemma die_run [prog_simps, simp]: "die s = (Died, s)"
  by (simp add: die_def)

lemma gets_run [prog_simps, simp]: "gets f s = (Ret (f s), s)"
  by (simp add: gets_def)

lemma change_run [prog_simps, simp]: "change f s = (Ret (), f s)"
  by (simp add: change_def)

lemma of_res_run [prog_simps, simp]:
  "of_res (Inl e) s = (Raise e, s)" "of_res (Inr x) s = (Ret x, s)"
  by (simp_all add: of_res_def)

lemma bnd_run [prog_simps]:
  "p s = (Ret x, t) \<Longrightarrow> bnd p f s = f x t"
  "p s = (Raise e, t) \<Longrightarrow> bnd p f s = (Raise e, t)"
  "p s = (Died, t) \<Longrightarrow> bnd p f s = (Died, t)"
  by (simp_all add: bnd_def)

lemma andthen_run [prog_simps]:
  "p s = (Ret x, t) \<Longrightarrow> andthen p q s = q t"
  "p s = (Raise e, t) \<Longrightarrow> andthen p q s = (Raise e, t)"
  "p s = (Died, t) \<Longrightarrow> andthen p q s = (Died, t)"
  by (simp_all add: andthen_def bnd_def)

lemma bnd_ret [simp]: "bnd (ret x) f = f x"
  by (rule ext) (simp add: bnd_def)

lemma bnd_gets [simp]: "bnd (gets g) f s = f (g s) s"
  by (simp add: bnd_def)

lemma bnd_change [simp]: "bnd (change g) f s = f () (g s)"
  by (simp add: bnd_def)

lemma bnd_fail [simp]: "bnd (fail e) f = fail e"
  by (rule ext) (simp add: bnd_def)

lemma bnd_of_res [simp]:
  "bnd (of_res (Inl e)) f = fail e" "bnd (of_res (Inr x)) f = f x"
  by (rule ext, simp add: bnd_def)+

lemma andthen_simps [simp]:
  "andthen (change g) q s = q (g s)" "andthen (ret x) q = q" "andthen (fail e) q = fail e"
  by (simp add: andthen_def) (simp_all add: andthen_def)

lemma bnd_eq_Ret:
  "bnd p f s = (Ret y, u) \<longleftrightarrow> (\<exists>x t. p s = (Ret x, t) \<and> f x t = (Ret y, u))"
  by (cases "p s"; cases "fst (p s)") (auto simp: bnd_def)

lemma andthen_eq_Ret:
  "andthen p q s = (Ret y, u) \<longleftrightarrow> (\<exists>x t. p s = (Ret x, t) \<and> q t = (Ret y, u))"
  by (simp add: andthen_def bnd_eq_Ret)

lemma of_res_eq_Ret [simp]: "of_res r s = (Ret x, t) \<longleftrightarrow> r = Inr x \<and> t = s"
  by (auto simp: of_res_def split: sum.splits)

lemma unless_raise_eq_Ret [simp]: "unless_raise b e s = (Ret x, t) \<longleftrightarrow> b \<and> t = s"
  by (simp add: unless_raise_def) (metis)

section \<open>Preserved invariants\<close>

definition keeps :: "('s \<Rightarrow> bool) \<Rightarrow> ('s, 'a) prog \<Rightarrow> bool" where
  "keeps I p \<longleftrightarrow> (\<forall>s. I s \<longrightarrow> I (snd (p s)))"

lemma keepsI: "(\<And>s. I s \<Longrightarrow> I (snd (p s))) \<Longrightarrow> keeps I p"
  by (simp add: keeps_def)

lemma keepsD: "keeps I p \<Longrightarrow> I s \<Longrightarrow> I (snd (p s))"
  by (simp add: keeps_def)

lemma keepsD_run: "keeps I p \<Longrightarrow> I s \<Longrightarrow> p s = (r, t) \<Longrightarrow> I t"
  by (metis keepsD snd_conv)

lemma keeps_pure [keeps_rules]:
  "keeps I (ret x)" "keeps I (fail e)" "keeps I die" "keeps I (gets f)" "keeps I (of_res r)"
  "keeps I (unless_raise b e)"
  by (simp_all add: keeps_def of_res_def unless_raise_def)

lemma keeps_change: "(\<And>s. I s \<Longrightarrow> I (f s)) \<Longrightarrow> keeps I (change f)"
  by (simp add: keeps_def)

lemma keeps_bnd [keeps_rules]: "keeps I p \<Longrightarrow> (\<And>x. keeps I (f x)) \<Longrightarrow> keeps I (bnd p f)"
  by (auto simp: keeps_def bnd_def split: prod.splits run.splits)

lemma keeps_andthen [keeps_rules]: "keeps I p \<Longrightarrow> keeps I q \<Longrightarrow> keeps I (andthen p q)"
  by (simp add: andthen_def keeps_bnd)

lemma keeps_catch [keeps_rules]: "keeps I p \<Longrightarrow> (\<And>e. keeps I (h e)) \<Longrightarrow> keeps I (catch ok p h)"
  by (auto simp: keeps_def catch_def split: prod.splits run.splits)

lemma keeps_if [keeps_rules]: "(b \<Longrightarrow> keeps I p) \<Longrightarrow> (\<not> b \<Longrightarrow> keeps I q) \<Longrightarrow> keeps I (if b then p else q)"
  by simp

lemma keeps_option [keeps_rules]:
  "(x = None \<Longrightarrow> keeps I p) \<Longrightarrow> (\<And>y. x = Some y \<Longrightarrow> keeps I (f y)) \<Longrightarrow>
   keeps I (case x of None \<Rightarrow> p | Some y \<Rightarrow> f y)"
  by (cases x) simp_all

lemma keeps_for_each [keeps_rules]: "(\<And>x. keeps I (f x)) \<Longrightarrow> keeps I (for_each f xs)"
  by (induction xs) (auto intro: keeps_rules)

lemma keeps_for_return [keeps_rules]: "(\<And>x. keeps I (f x)) \<Longrightarrow> keeps I (for_return f xs)"
  by (induction xs) (auto intro!: keeps_rules)

lemma keeps_on_part:
  "(\<And>s t. I t \<Longrightarrow> J (get t)) \<Longrightarrow> (\<And>s t. I t \<Longrightarrow> J s \<Longrightarrow> I (put s t)) \<Longrightarrow> keeps J p \<Longrightarrow>
   keeps I (on_part get put p)"
  by (auto simp: keeps_def on_part_def split: prod.splits) (metis snd_conv)

section \<open>Triples\<close>

text \<open>Every run from a state satisfying \<open>P\<close> ends in a result and state satisfying \<open>Q\<close>.\<close>

definition triple :: "('s \<Rightarrow> bool) \<Rightarrow> ('s, 'a) prog \<Rightarrow> ('a run \<Rightarrow> 's \<Rightarrow> bool) \<Rightarrow> bool" where
  "triple P p Q \<longleftrightarrow> (\<forall>s. P s \<longrightarrow> (case p s of (r, t) \<Rightarrow> Q r t))"

lemma tripleI: "(\<And>s r t. P s \<Longrightarrow> p s = (r, t) \<Longrightarrow> Q r t) \<Longrightarrow> triple P p Q"
  by (auto simp: triple_def split: prod.splits)

lemma tripleD: "triple P p Q \<Longrightarrow> P s \<Longrightarrow> p s = (r, t) \<Longrightarrow> Q r t"
  by (fastforce simp: triple_def)

lemma triple_bnd:
  assumes "triple P p R" and "\<And>x. triple (R (Ret x)) (f x) Q"
    and "\<And>e t. R (Raise e) t \<Longrightarrow> Q (Raise e) t" and "\<And>t. R Died t \<Longrightarrow> Q Died t"
  shows "triple P (bnd p f) Q"
  using assms by (fastforce simp: triple_def bnd_def split: prod.splits run.splits)

lemma triple_weaken:
  "triple P' p Q' \<Longrightarrow> (\<And>s. P s \<Longrightarrow> P' s) \<Longrightarrow> (\<And>r t. Q' r t \<Longrightarrow> Q r t) \<Longrightarrow> triple P p Q"
  by (fastforce simp: triple_def)

lemma triple_conj:
  "triple P p Q \<Longrightarrow> triple P p R \<Longrightarrow> triple P p (\<lambda>r t. Q r t \<and> R r t)"
  by (fastforce simp: triple_def)

lemma keeps_triple: "keeps I p \<longleftrightarrow> triple I p (\<lambda>_. I)"
  by (auto simp: keeps_def triple_def split: prod.splits) (metis prod.collapse)

lemma keeps_both: "keeps I p \<Longrightarrow> keeps J p \<Longrightarrow> keeps (\<lambda>x. I x \<and> J x) p"
  by (simp add: keeps_def)

text \<open>A loop that returns early, or else establishes \<open>P\<close> of every element.\<close>

lemma triple_for_return:
  assumes "\<And>x. x \<in> set xs \<Longrightarrow> triple I (f x) (\<lambda>r t. I t \<and> (r = Ret None \<longrightarrow> P x t))" and "\<And>x y. keeps (P x) (f y)"
  shows "triple I (for_return f xs) (\<lambda>r t. I t \<and> (r = Ret None \<longrightarrow> (\<forall>x \<in> set xs. P x t)))"
proof -
  have "triple (\<lambda>s. I s \<and> (\<forall>x \<in> D. P x s)) (for_return f xs) (\<lambda>r t. I t \<and> (r = Ret None \<longrightarrow> (\<forall>x \<in> D \<union> set xs. P x t)))" for D
    using assms(1)
  proof (induction xs arbitrary: D)
    case (Cons y ys)
    have kept: "\<forall>x \<in> D. P x t" if "\<forall>x \<in> D. P x s" "f y s = (r, t)" for s r t
      using that keepsD_run [OF assms(2)] by blast
    have first: "triple (\<lambda>s. I s \<and> (\<forall>x \<in> D. P x s)) (f y) (\<lambda>r t. I t \<and> (r = Ret None \<longrightarrow> (\<forall>x \<in> insert y D. P x t)))"
    proof (rule tripleI)
      fix s r t assume s: "I s \<and> (\<forall>x \<in> D. P x s)" and run: "f y s = (r, t)"
      have "I t \<and> (r = Ret None \<longrightarrow> P y t)" using tripleD [OF Cons.prems [of y] _ run] s by simp
      then show "I t \<and> (r = Ret None \<longrightarrow> (\<forall>x \<in> insert y D. P x t))" using kept [OF _ run] s by simp
    qed
    have rest: "triple (\<lambda>s. I s \<and> (\<forall>x \<in> insert y D. P x s)) (for_return f ys)
        (\<lambda>r t. I t \<and> (r = Ret None \<longrightarrow> (\<forall>x \<in> insert y D \<union> set ys. P x t)))" using Cons.prems by (intro Cons.IH) simp
    show ?case
      unfolding for_return.simps
    proof (rule triple_bnd [OF first])
      show "triple (\<lambda>t. I t \<and> (Ret found = Ret None \<longrightarrow> (\<forall>x \<in> insert y D. P x t)))
          (case found of None \<Rightarrow> for_return f ys | Some a \<Rightarrow> ret (Some a))
          (\<lambda>r t. I t \<and> (r = Ret None \<longrightarrow> (\<forall>x \<in> D \<union> set (y # ys). P x t)))" for found
        using rest by (cases found) (simp_all add: triple_def)
    qed simp_all
  qed (simp add: triple_def)
  from this [of "{}"] show ?thesis by simp
qed

end
