(* ===== verification/Ledger.thy ===== *)
theory Ledger
  imports Programs Money Capability Identity Deadlines StateMachine
begin

text \<open>
  The durable ledger: its tables (\<open>tandem/ledger/models.py\<close>), the hash chain of
  procedure events (\<open>tandem/ledger/events.py\<close>) and the case and event operations of
  \<open>LedgerRepository\<close> (\<open>tandem/ledger/repository.py\<close>).  A row is a record, a table
  the list of its rows, a repository method a program on the tables.  The clock,
  \<open>uuid4\<close> and SHA-256 are arguments (\<open>ambient\<close>): the \<open>n\<close>-th reading of the clock is
  \<open>amb_now n\<close> (microseconds, UTC) and the \<open>n\<close>-th uuid \<open>amb_uuid n\<close>; the number of
  readings so far is part of the state.  The payload column keeps the object whose
  canonical text the code stores; \<open>json.loads\<close> is the inverse of that text.
  The section ends with the chain invariant and the proof that a verified stream
  cannot be altered below its head without exhibiting a hash collision.
\<close>

section \<open>Rows\<close>

record case_row =
  c_case_id :: string
  c_member_id :: string
  c_procedure_name :: string
  c_amount :: money
  c_currency :: string
  c_status :: string
  c_money_moved :: bool
  c_opened_at :: int
  c_updated_at :: int

record event_row =
  ev_id :: nat
  ev_event_id :: string
  ev_case_id :: string
  ev_sequence :: nat
  ev_event_type :: string
  ev_step_name :: string
  ev_actor :: string
  ev_payload :: "dict option"
  ev_timestamp :: int
  ev_created_at :: string
  ev_previous_event_hash :: string
  ev_event_hash :: string

record head_row =
  hd_case_id :: string
  hd_last_sequence :: nat
  hd_last_event_hash :: string

record execution_row =
  ex_id :: nat
  ex_case_id :: string
  ex_capability_id :: string
  ex_capability_version :: string
  ex_effect_class :: string
  ex_idempotency_key :: "string option"
  ex_status :: string
  ex_expected_entity :: "string option"
  ex_observed_entity :: "string option"
  ex_expected_amount :: "money option"
  ex_observed_amount :: "money option"
  ex_failure_category :: "string option"
  ex_audit_ref :: "string option"
  ex_money_moved :: bool
  ex_actor :: string
  ex_browser_session_id :: "string option"
  ex_started_at :: int
  ex_completed_at :: "int option"

record intent_row =
  in_id :: nat
  in_case_id :: string
  in_idempotency_key :: string
  in_capability_id :: string
  in_status :: string
  in_created_at :: int

record claim_row =
  cl_id :: nat
  cl_idempotency_key :: string
  cl_institution_id :: string
  cl_procedure_id :: string
  cl_case_id :: string
  cl_capability_id :: string
  cl_member_id :: string
  cl_account_id :: string
  cl_amount :: money
  cl_currency :: string
  cl_business_reference :: string
  cl_status :: string
  cl_owner_id :: string
  cl_fencing_token :: nat
  cl_claimed_at :: int
  cl_heartbeat_at :: int
  cl_expires_at :: int
  cl_updated_at :: int

record deadline_row =
  dl_id :: nat
  dl_case_id :: string
  dl_deadline_type :: string
  dl_due_at :: datetime
  dl_status :: string
  dl_resolved_at :: "int option"

record obligation_row =
  ob_id :: nat
  ob_case_id :: string
  ob_obligation_type :: string
  ob_due_at :: datetime
  ob_status :: string
  ob_created_at :: int
  ob_activated_at :: "int option"
  ob_satisfied_at :: "int option"

record lease_row =
  ls_case_id :: string
  ls_resource_id :: string
  ls_owner_type :: string
  ls_owner_id :: string
  ls_fencing_token :: nat
  ls_version :: nat
  ls_acquired_at :: int
  ls_heartbeat_at :: int
  ls_expires_at :: int
  ls_released_at :: "int option"

record session_row =
  se_session_id :: string
  se_case_id :: string
  se_status :: string
  se_current_url :: string
  se_created_at :: int
  se_updated_at :: int
  se_closed_at :: "int option"

record handoff_row =
  ho_id :: nat
  ho_case_id :: string
  ho_reason :: string
  ho_operator_id :: string
  ho_action_taken :: string
  ho_started_at :: int
  ho_completed_at :: "int option"

record db =
  tick :: nat
  t_cases :: "case_row list"
  t_events :: "event_row list"
  t_heads :: "head_row list"
  t_executions :: "execution_row list"
  t_intents :: "intent_row list"
  t_claims :: "claim_row list"
  t_deadlines :: "deadline_row list"
  t_obligations :: "obligation_row list"
  t_leases :: "lease_row list"
  t_sessions :: "session_row list"
  t_handoffs :: "handoff_row list"

definition empty_db :: db where
  "empty_db = \<lparr>tick = 0, t_cases = [], t_events = [], t_heads = [], t_executions = [], t_intents = [],
     t_claims = [], t_deadlines = [], t_obligations = [], t_leases = [], t_sessions = [], t_handoffs = []\<rparr>"

record ambient =
  amb_now :: "nat \<Rightarrow> int"
  amb_uuid :: "nat \<Rightarrow> string"
  amb_sha :: "string \<Rightarrow> string"

text \<open>\<open>datetime.now(timezone.utc)\<close> and \<open>str(uuid4())\<close>.\<close>

definition utc_now :: "ambient \<Rightarrow> (db, int) prog" where
  "utc_now a = (\<lambda>d. (Ret (amb_now a (tick d)), d\<lparr>tick := Suc (tick d)\<rparr>))"

definition new_uuid :: "ambient \<Rightarrow> (db, string) prog" where
  "new_uuid a = (\<lambda>d. (Ret (amb_uuid a (tick d)), d\<lparr>tick := Suc (tick d)\<rparr>))"

text \<open>\<open>now or datetime.now(timezone.utc)\<close>.\<close>

definition time_or_now :: "ambient \<Rightarrow> int option \<Rightarrow> (db, int) prog" where
  "time_or_now a t = (case t of Some i \<Rightarrow> ret i | None \<Rightarrow> utc_now a)"

section \<open>Event hashes\<close>

definition genesis_hash :: string where
  "genesis_hash = replicate 64 (CHR ''0'')"

record chain_verification =
  cv_valid :: bool
  cv_broken_sequence :: "nat option"
  cv_message :: string

definition canonical_payload :: "dict option \<Rightarrow> string option" where
  "canonical_payload payload = map_option (\<lambda>d. json_text True (VDict d)) payload"

definition event_envelope ::
  "string \<Rightarrow> string \<Rightarrow> nat \<Rightarrow> string \<Rightarrow> string \<Rightarrow> string \<Rightarrow> string option \<Rightarrow> string \<Rightarrow> string \<Rightarrow> dict" where
  "event_envelope event_id case_id sequence event_type step_name actor payload created_at previous_event_hash =
     [(''actor'', VStr actor),
      (''case_id'', VStr case_id),
      (''created_at'', VStr created_at),
      (''event_id'', VStr event_id),
      (''event_type'', VStr event_type),
      (''payload'', case payload of None \<Rightarrow> VNone | Some t \<Rightarrow> VStr t),
      (''previous_event_hash'', VStr previous_event_hash),
      (''sequence'', VInt (int sequence)),
      (''step_name'', VStr step_name)]"

definition compute_event_hash ::
  "(string \<Rightarrow> string) \<Rightarrow> string \<Rightarrow> string \<Rightarrow> nat \<Rightarrow> string \<Rightarrow> string \<Rightarrow> string \<Rightarrow> string option \<Rightarrow> string \<Rightarrow> string \<Rightarrow> string" where
  "compute_event_hash sha event_id case_id sequence event_type step_name actor payload created_at previous_event_hash =
     sha (json_text True (VDict (event_envelope event_id case_id sequence event_type step_name actor payload
       created_at previous_event_hash)))"

section \<open>Cases and events\<close>

definition get_case :: "string \<Rightarrow> db \<Rightarrow> case_row option" where
  "get_case cid d = select_first (\<lambda>c. c_case_id c = cid) (t_cases d)"

definition list_cases :: "db \<Rightarrow> case_row list" where
  "list_cases d = sort_key (\<lambda>c. - c_opened_at c) (t_cases d)"

text \<open>A foreign key to \<open>procedure_cases\<close>, checked when the row is flushed.\<close>

definition integrity_error :: exn where
  "integrity_error = OtherException ''FOREIGN KEY constraint failed''"

definition require_case_row :: "string \<Rightarrow> (db, unit) prog" where
  "require_case_row cid = bnd (gets (get_case cid)) (\<lambda>c. unless_raise (c \<noteq> None) integrity_error)"

definition get_head :: "string \<Rightarrow> db \<Rightarrow> head_row option" where
  "get_head cid d = select_first (\<lambda>h. hd_case_id h = cid) (t_heads d)"

definition ensure_head :: "string \<Rightarrow> db \<Rightarrow> db" where
  "ensure_head cid d = (if get_head cid d = None
     then d\<lparr>t_heads := t_heads d @ [\<lparr>hd_case_id = cid, hd_last_sequence = 0, hd_last_event_hash = genesis_hash\<rparr>]\<rparr>
     else d)"

definition append_event :: "event_row \<Rightarrow> db \<Rightarrow> db" where
  "append_event e d = d\<lparr>t_events := t_events d @ [e],
     t_heads := update_where (\<lambda>h. hd_case_id h = ev_case_id e)
       (\<lambda>h. h\<lparr>hd_last_sequence := ev_sequence e, hd_last_event_hash := ev_event_hash e\<rparr>) (t_heads d)\<rparr>"

definition record_event ::
  "ambient \<Rightarrow> string \<Rightarrow> string \<Rightarrow> string \<Rightarrow> string \<Rightarrow> dict option \<Rightarrow> (db, event_row) prog" where
  "record_event a case_id event_type step_name actor payload =
     andthen (change (ensure_head case_id)) (
     bnd (gets (get_head case_id)) (\<lambda>h. case h of
       None \<Rightarrow> fail (RuntimeError (fstr [''Event stream head for '', case_id, '' was not created'']))
     | Some head \<Rightarrow>
         bnd (new_uuid a) (\<lambda>event_id.
         bnd (utc_now a) (\<lambda>timestamp.
         bnd (gets (\<lambda>d. next_id (map ev_id (t_events d)))) (\<lambda>rid.
           let event = \<lparr>ev_id = rid, ev_event_id = event_id, ev_case_id = case_id,
                 ev_sequence = hd_last_sequence head + 1, ev_event_type = event_type,
                 ev_step_name = step_name, ev_actor = actor, ev_payload = payload,
                 ev_timestamp = timestamp, ev_created_at = isoformat (utc timestamp),
                 ev_previous_event_hash = hd_last_event_hash head,
                 ev_event_hash = compute_event_hash (amb_sha a) event_id case_id (hd_last_sequence head + 1)
                   event_type step_name actor (canonical_payload payload) (isoformat (utc timestamp))
                   (hd_last_event_hash head)\<rparr>
           in andthen (require_case_row case_id) (andthen (change (append_event event)) (ret event)))))))"

definition create_or_get_case ::
  "ambient \<Rightarrow> string \<Rightarrow> string \<Rightarrow> val \<Rightarrow> string \<Rightarrow> string \<Rightarrow> (db, case_row) prog" where
  "create_or_get_case a case_id member_id amount currency procedure_name =
     bnd (utc_now a) (\<lambda>now.
     bnd (of_res (parse_money amount)) (\<lambda>money.
     bnd (gets (\<lambda>d. get_case case_id d = None)) (\<lambda>inserted.
     andthen (change (\<lambda>d. if inserted
        then d\<lparr>t_cases := t_cases d @ [\<lparr>c_case_id = case_id, c_member_id = member_id,
               c_procedure_name = procedure_name, c_amount = money, c_currency = currency,
               c_status = ''RECEIVED'', c_money_moved = False, c_opened_at = now, c_updated_at = now\<rparr>]\<rparr>
        else d)) (
     bnd (gets (get_case case_id)) (\<lambda>found. case found of
       None \<Rightarrow> fail (RuntimeError (fstr [''Case '', case_id, '' could not be created or read'']))
     | Some c \<Rightarrow>
         if inserted
         then andthen (record_event a case_id ''CASE_CREATED'' ''orchestrator'' ''AUTOMATION'' (Some
                [(''member_id'', VStr member_id), (''amount'', VStr (money_text money)),
                 (''currency'', VStr currency), (''procedure_name'', VStr procedure_name),
                 (''status'', VStr ''RECEIVED''), (''money_moved'', VBool False),
                 (''opened_at'', VTime (utc now)), (''updated_at'', VTime (utc now))])) (ret c)
         else ret c)))))"

definition set_case :: "string \<Rightarrow> (case_row \<Rightarrow> case_row) \<Rightarrow> db \<Rightarrow> db" where
  "set_case cid f d = d\<lparr>t_cases := update_where (\<lambda>c. c_case_id c = cid) f (t_cases d)\<rparr>"

definition update_case_status :: "ambient \<Rightarrow> string \<Rightarrow> string \<Rightarrow> bool option \<Rightarrow> (db, case_row) prog" where
  "update_case_status a case_id status money_moved =
     bnd (gets (get_case case_id)) (\<lambda>found. case found of
       None \<Rightarrow> fail (ValueError (fstr [''Case '', case_id, '' not found'']))
     | Some c \<Rightarrow>
         bnd (utc_now a) (\<lambda>now.
           let moved = (case money_moved of None \<Rightarrow> c_money_moved c | Some m \<Rightarrow> c_money_moved c \<or> m);
               c' = c\<lparr>c_status := status, c_money_moved := moved, c_updated_at := now\<rparr>
           in andthen (change (set_case case_id (\<lambda>_. c'))) (
              andthen (record_event a case_id ''CASE_STATUS_UPDATED'' ''orchestrator'' ''AUTOMATION'' (Some
                [(''status'', VStr status), (''money_moved'', VBool moved),
                 (''updated_at'', VTime (utc now))])) (ret c'))))"

definition get_events_for_case :: "string \<Rightarrow> db \<Rightarrow> event_row list" where
  "get_events_for_case cid d = sort_key ev_sequence (filter (\<lambda>e. ev_case_id e = cid) (t_events d))"

definition row_hash :: "(string \<Rightarrow> string) \<Rightarrow> event_row \<Rightarrow> string" where
  "row_hash sha e = compute_event_hash sha (ev_event_id e) (ev_case_id e) (ev_sequence e) (ev_event_type e)
     (ev_step_name e) (ev_actor e) (canonical_payload (ev_payload e)) (ev_created_at e) (ev_previous_event_hash e)"

fun verify_events :: "(string \<Rightarrow> string) \<Rightarrow> string \<Rightarrow> nat \<Rightarrow> event_row list \<Rightarrow> chain_verification" where
  "verify_events sha previous_hash expected_sequence [] =
     \<lparr>cv_valid = True, cv_broken_sequence = None, cv_message = []\<rparr>"
| "verify_events sha previous_hash expected_sequence (e # es) =
     (if ev_sequence e \<noteq> expected_sequence \<or> ev_previous_event_hash e \<noteq> previous_hash
      then \<lparr>cv_valid = False, cv_broken_sequence = Some expected_sequence,
            cv_message = ''Event sequence or previous hash is discontinuous''\<rparr>
      else if row_hash sha e \<noteq> ev_event_hash e
      then \<lparr>cv_valid = False, cv_broken_sequence = Some (ev_sequence e),
            cv_message = ''Event digest does not match its immutable content''\<rparr>
      else verify_events sha (ev_event_hash e) (expected_sequence + 1) es)"

definition verify_event_chain :: "(string \<Rightarrow> string) \<Rightarrow> string \<Rightarrow> db \<Rightarrow> chain_verification" where
  "verify_event_chain sha cid d = verify_events sha genesis_hash 1 (get_events_for_case cid d)"

section \<open>What an append does\<close>

definition next_event ::
  "ambient \<Rightarrow> string \<Rightarrow> string \<Rightarrow> string \<Rightarrow> string \<Rightarrow> dict option \<Rightarrow> db \<Rightarrow> event_row" where
  "next_event a cid ty st ac p d =
     (let head = the (get_head cid (ensure_head cid d)); eid = amb_uuid a (tick d);
          ts = amb_now a (Suc (tick d)); iso = isoformat (utc ts)
      in \<lparr>ev_id = next_id (map ev_id (t_events d)), ev_event_id = eid, ev_case_id = cid,
          ev_sequence = hd_last_sequence head + 1, ev_event_type = ty, ev_step_name = st,
          ev_actor = ac, ev_payload = p, ev_timestamp = ts, ev_created_at = iso,
          ev_previous_event_hash = hd_last_event_hash head,
          ev_event_hash = compute_event_hash (amb_sha a) eid cid (hd_last_sequence head + 1) ty st ac
            (canonical_payload p) iso (hd_last_event_hash head)\<rparr>)"

definition with_event ::
  "ambient \<Rightarrow> string \<Rightarrow> string \<Rightarrow> string \<Rightarrow> string \<Rightarrow> dict option \<Rightarrow> db \<Rightarrow> db" where
  "with_event a cid ty st ac p d =
     append_event (next_event a cid ty st ac p d) ((ensure_head cid d)\<lparr>tick := tick d + 2\<rparr>)"

lemma ensure_head_other [simp]:
  "tick (ensure_head cid d) = tick d" "t_cases (ensure_head cid d) = t_cases d"
  "t_events (ensure_head cid d) = t_events d" "t_executions (ensure_head cid d) = t_executions d"
  "t_intents (ensure_head cid d) = t_intents d" "t_claims (ensure_head cid d) = t_claims d"
  "t_deadlines (ensure_head cid d) = t_deadlines d" "t_obligations (ensure_head cid d) = t_obligations d"
  "t_leases (ensure_head cid d) = t_leases d" "t_sessions (ensure_head cid d) = t_sessions d"
  "t_handoffs (ensure_head cid d) = t_handoffs d" "get_case x (ensure_head cid d) = get_case x d"
  by (simp_all add: ensure_head_def get_case_def)

lemma append_event_other [simp]:
  "tick (append_event e d) = tick d" "t_cases (append_event e d) = t_cases d"
  "t_events (append_event e d) = t_events d @ [e]" "t_executions (append_event e d) = t_executions d"
  "t_intents (append_event e d) = t_intents d" "t_claims (append_event e d) = t_claims d"
  "t_deadlines (append_event e d) = t_deadlines d" "t_obligations (append_event e d) = t_obligations d"
  "t_leases (append_event e d) = t_leases d" "t_sessions (append_event e d) = t_sessions d"
  "t_handoffs (append_event e d) = t_handoffs d" "get_case x (append_event e d) = get_case x d"
  by (simp_all add: append_event_def get_case_def)

lemma with_event_other [simp]:
  "tick (with_event a cid ty st ac p d) = tick d + 2" "t_cases (with_event a cid ty st ac p d) = t_cases d"
  "t_events (with_event a cid ty st ac p d) = t_events d @ [next_event a cid ty st ac p d]"
  "t_executions (with_event a cid ty st ac p d) = t_executions d"
  "t_intents (with_event a cid ty st ac p d) = t_intents d" "t_claims (with_event a cid ty st ac p d) = t_claims d"
  "t_deadlines (with_event a cid ty st ac p d) = t_deadlines d"
  "t_obligations (with_event a cid ty st ac p d) = t_obligations d"
  "t_leases (with_event a cid ty st ac p d) = t_leases d" "t_sessions (with_event a cid ty st ac p d) = t_sessions d"
  "t_handoffs (with_event a cid ty st ac p d) = t_handoffs d"
  by (simp_all add: with_event_def)

lemma get_case_with_event [simp]: "get_case x (with_event a cid ty st ac p d) = get_case x d"
  by (simp add: get_case_def)

lemma next_event_sel [simp]:
  "ev_case_id (next_event a cid ty st ac p d) = cid" "ev_event_type (next_event a cid ty st ac p d) = ty"
  "ev_step_name (next_event a cid ty st ac p d) = st" "ev_actor (next_event a cid ty st ac p d) = ac"
  "ev_payload (next_event a cid ty st ac p d) = p"
  by (simp_all add: next_event_def Let_def)

lemma get_head_ensure: "\<exists>h. get_head cid (ensure_head cid d) = Some h"
  by (auto simp: ensure_head_def get_head_def select_first_append split: option.splits)

lemma record_event_run:
  "record_event a cid ty st ac p d =
     (if get_case cid d = None
      then (Raise integrity_error, (ensure_head cid d)\<lparr>tick := tick d + 2\<rparr>)
      else (Ret (next_event a cid ty st ac p d), with_event a cid ty st ac p d))"
proof -
  obtain h where "get_head cid (ensure_head cid d) = Some h" using get_head_ensure by blast
  then show ?thesis
    by (simp add: record_event_def next_event_def with_event_def require_case_row_def andthen_def bnd_def
        new_uuid_def utc_now_def unless_raise_def get_case_def Let_def append_event_def)
qed

lemma record_event_ok [simp]:
  "get_case cid d = Some c \<Longrightarrow>
   record_event a cid ty st ac p d = (Ret (next_event a cid ty st ac p d), with_event a cid ty st ac p d)"
  by (simp add: record_event_run)

section \<open>The chain invariant\<close>

definition case_events :: "string \<Rightarrow> db \<Rightarrow> event_row list" where
  "case_events cid d = filter (\<lambda>e. ev_case_id e = cid) (t_events d)"

fun last_hash :: "event_row list \<Rightarrow> string" where
  "last_hash es = (if es = [] then genesis_hash else ev_event_hash (last es))"

declare last_hash.simps [simp del]

definition head_matches :: "string \<Rightarrow> db \<Rightarrow> bool" where
  "head_matches cid d = (case get_head cid d of
      None \<Rightarrow> case_events cid d = []
    | Some h \<Rightarrow> hd_last_sequence h = length (case_events cid d) \<and>
        hd_last_event_hash h = last_hash (case_events cid d))"

definition chain_inv :: "(string \<Rightarrow> string) \<Rightarrow> db \<Rightarrow> bool" where
  "chain_inv sha d = (unique_on hd_case_id (t_heads d) \<and>
     (\<forall>cid. cv_valid (verify_events sha genesis_hash 1 (case_events cid d)) \<and> head_matches cid d))"

lemma verify_events_snoc:
  "cv_valid (verify_events sha p n (es @ [e])) \<longleftrightarrow>
     cv_valid (verify_events sha p n es) \<and> ev_sequence e = n + length es \<and>
     ev_previous_event_hash e = (if es = [] then p else ev_event_hash (last es)) \<and>
     row_hash sha e = ev_event_hash e"
  by (induction es arbitrary: p n) auto

lemma verify_events_sequences:
  "cv_valid (verify_events sha p n es) \<Longrightarrow> map ev_sequence es = [n..<n + length es]"
proof (induction es arbitrary: p n)
  case (Cons e es)
  from Cons.prems have "ev_sequence e = n" "cv_valid (verify_events sha (ev_event_hash e) (Suc n) es)"
    by (auto split: if_splits)
  moreover from this(2) have "map ev_sequence es = [Suc n..<Suc n + length es]" by (rule Cons.IH)
  moreover have "[n..<n + length (e # es)] = n # [Suc n..<Suc n + length es]"
    using upt_conv_Cons [of n "n + length (e # es)"] by simp
  ultimately show ?case by (simp del: upt_Suc)
qed simp

lemma sorted_case_events:
  "cv_valid (verify_events sha p n (case_events cid d)) \<Longrightarrow> get_events_for_case cid d = case_events cid d"
  using verify_events_sequences [of sha p n "case_events cid d"]
  by (simp add: get_events_for_case_def case_events_def sort_key_id_if_sorted)

lemma chain_inv_verified: "chain_inv sha d \<Longrightarrow> cv_valid (verify_event_chain sha cid d)"
  unfolding chain_inv_def verify_event_chain_def by (metis sorted_case_events)

lemma chain_inv_cong:
  "t_events d' = t_events d \<Longrightarrow> t_heads d' = t_heads d \<Longrightarrow> chain_inv sha d' = chain_inv sha d"
  by (simp add: chain_inv_def head_matches_def case_events_def get_head_def cong: option.case_cong)

lemma chain_inv_tables [simp]:
  "chain_inv sha (d\<lparr>tick := n\<rparr>) = chain_inv sha d"
  "chain_inv sha (d\<lparr>t_cases := cs\<rparr>) = chain_inv sha d"
  "chain_inv sha (d\<lparr>t_executions := xs\<rparr>) = chain_inv sha d"
  "chain_inv sha (d\<lparr>t_intents := is\<rparr>) = chain_inv sha d"
  "chain_inv sha (d\<lparr>t_claims := cls\<rparr>) = chain_inv sha d"
  "chain_inv sha (d\<lparr>t_deadlines := ds\<rparr>) = chain_inv sha d"
  "chain_inv sha (d\<lparr>t_obligations := os\<rparr>) = chain_inv sha d"
  "chain_inv sha (d\<lparr>t_leases := ls\<rparr>) = chain_inv sha d"
  "chain_inv sha (d\<lparr>t_sessions := ss\<rparr>) = chain_inv sha d"
  "chain_inv sha (d\<lparr>t_handoffs := hs\<rparr>) = chain_inv sha d"
  by (rule chain_inv_cong; simp)+

lemma chain_inv_ensure_head: "chain_inv sha d \<Longrightarrow> chain_inv sha (ensure_head cid d)"
proof (cases "get_head cid d")
  case None
  assume inv: "chain_inv sha d"
  let ?h = "\<lparr>hd_case_id = cid, hd_last_sequence = 0, hd_last_event_hash = genesis_hash\<rparr>"
  from None have new: "\<forall>h \<in> set (t_heads d). hd_case_id h \<noteq> cid"
    by (simp add: get_head_def select_first_None)
  have d: "ensure_head cid d = d\<lparr>t_heads := t_heads d @ [?h]\<rparr>" using None by (simp add: ensure_head_def)
  have "unique_on hd_case_id (t_heads d @ [?h])"
    using inv new by (intro unique_on_snoc) (simp_all add: chain_inv_def)
  moreover have "head_matches x (ensure_head cid d)" for x
  proof -
    have m: "head_matches x d" using inv by (simp add: chain_inv_def)
    have same: "case_events x (ensure_head cid d) = case_events x d" by (simp add: case_events_def)
    show ?thesis
    proof (cases "x = cid")
      case True
      with m None have "case_events cid d = []" by (simp add: head_matches_def)
      moreover have "get_head cid (ensure_head cid d) = Some ?h"
        using None unfolding d by (simp add: get_head_def select_first_append)
      ultimately show ?thesis using True same by (simp add: head_matches_def last_hash.simps)
    next
      case False
      then have "get_head x (ensure_head cid d) = get_head x d"
        unfolding d by (simp add: get_head_def select_first_append split: option.splits)
      then show ?thesis using m same unfolding head_matches_def by (simp only:)
    qed
  qed
  moreover have "case_events x (ensure_head cid d) = case_events x d" for x by (simp add: case_events_def)
  ultimately show ?thesis using inv d by (simp add: chain_inv_def)
qed (simp add: ensure_head_def)

lemma case_events_append: "case_events x (append_event e d) = case_events x d @ (if ev_case_id e = x then [e] else [])"
  by (simp add: case_events_def)

lemma get_head_append:
  "get_head x (append_event e d) = (if x = ev_case_id e
     then map_option (\<lambda>h. h\<lparr>hd_last_sequence := ev_sequence e, hd_last_event_hash := ev_event_hash e\<rparr>) (get_head x d)
     else get_head x d)"
  unfolding get_head_def append_event_def
  by (simp add: select_first_update_where_key)
    (auto simp: map_option_case dest!: select_first_Some split: option.splits)

lemma chain_inv_with_event:
  assumes inv: "chain_inv (amb_sha a) d"
  shows "chain_inv (amb_sha a) (with_event a cid ty st ac p d)"
proof -
  let ?sha = "amb_sha a" and ?d = "(ensure_head cid d)\<lparr>tick := tick d + 2\<rparr>" and ?e = "next_event a cid ty st ac p d"
  obtain h where h: "get_head cid (ensure_head cid d) = Some h" using get_head_ensure by blast
  then have hd: "get_head cid ?d = Some h" by (simp add: get_head_def)
  have inv': "chain_inv ?sha ?d" using chain_inv_ensure_head [OF inv] chain_inv_cong by simp
  then have len: "hd_last_sequence h = length (case_events cid ?d)" "hd_last_event_hash h = last_hash (case_events cid ?d)"
  proof -
    have "head_matches cid ?d" using inv' unfolding chain_inv_def by blast
    then show "hd_last_sequence h = length (case_events cid ?d)" "hd_last_event_hash h = last_hash (case_events cid ?d)"
      unfolding head_matches_def hd by simp_all
  qed
  have e: "ev_sequence ?e = 1 + length (case_events cid ?d)" "ev_previous_event_hash ?e = last_hash (case_events cid ?d)"
    "row_hash ?sha ?e = ev_event_hash ?e"
    using h len by (simp_all add: next_event_def Let_def row_hash_def)
  have "unique_on hd_case_id (t_heads (append_event ?e ?d))"
    using inv' by (simp add: append_event_def chain_inv_def unique_on_update_where)
  moreover have "cv_valid (verify_events ?sha genesis_hash 1 (case_events x (append_event ?e ?d)))" for x
  proof (cases "x = cid")
    case True
    have "cv_valid (verify_events ?sha genesis_hash 1 (case_events cid ?d))" using inv' unfolding chain_inv_def by blast
    moreover have "case_events cid (append_event ?e ?d) = case_events cid ?d @ [?e]" by (simp add: case_events_append)
    ultimately show ?thesis using e True by (simp only: verify_events_snoc last_hash.simps simp_thms)
  next
    case False
    then show ?thesis using inv' by (simp add: case_events_append chain_inv_def)
  qed
  moreover have "head_matches x (append_event ?e ?d)" for x
  proof -
    have m: "head_matches x ?d" using inv' by (simp add: chain_inv_def)
    show ?thesis
    proof (cases "x = cid")
      case True
      then show ?thesis using hd e(1) by (simp add: head_matches_def get_head_append case_events_append last_hash.simps)
    next
      case False
      then have "get_head x (append_event ?e ?d) = get_head x ?d" "case_events x (append_event ?e ?d) = case_events x ?d"
        by (simp_all add: get_head_append case_events_append)
      then show ?thesis using m unfolding head_matches_def by (simp only:)
    qed
  qed
  ultimately show ?thesis unfolding chain_inv_def with_event_def by blast
qed

lemma keeps_record_event [keeps_rules]: "keeps (chain_inv (amb_sha a)) (record_event a cid ty st ac p)"
  by (rule keepsI)
    (simp add: record_event_run chain_inv_with_event chain_inv_ensure_head)

lemma keeps_chain_change [keeps_rules]:
  "(\<And>d. t_events (f d) = t_events d) \<Longrightarrow> (\<And>d. t_heads (f d) = t_heads d) \<Longrightarrow>
   keeps (chain_inv sha) (change f)"
  by (rule keeps_change) (metis chain_inv_cong)

lemma keeps_clock [keeps_rules]:
  "keeps (chain_inv sha) (utc_now a)" "keeps (chain_inv sha) (new_uuid a)" "keeps (chain_inv sha) (time_or_now a t)"
  by (auto simp: keeps_def utc_now_def new_uuid_def time_or_now_def split: option.splits)

lemma keeps_create_case [keeps_rules]:
  "keeps (chain_inv (amb_sha a)) (create_or_get_case a cid mid amt cur proc)"
  unfolding create_or_get_case_def by (intro keeps_rules) simp_all

lemma keeps_update_case [keeps_rules]:
  "keeps (chain_inv (amb_sha a)) (update_case_status a cid st mm)"
  unfolding update_case_status_def Let_def by (intro keeps_rules) (simp_all add: set_case_def)

section \<open>Tamper evidence\<close>

definition opt_json :: "string option \<Rightarrow> string" where
  "opt_json p = (case p of None \<Rightarrow> ''null'' | Some t \<Rightarrow> json_str True t)"

lemma opt_json_append_inj: "opt_json p @ x = opt_json q @ y \<longleftrightarrow> p = q \<and> x = y"
  by (cases p; cases q) (auto simp: opt_json_def json_str_append_inj, auto simp: json_str_def)

lemma str_nat_append_inj:
  "str_nat m @ CHR '','' # x = str_nat n @ CHR '','' # y \<longleftrightarrow> m = n \<and> x = y"
proof
  assume eq: "str_nat m @ CHR '','' # x = str_nat n @ CHR '','' # y"
  have t: "takeWhile is_digit (str_nat k @ CHR '','' # z) = str_nat k" for k z
    using str_nat_digits [of k] by (simp add: list_all_iff takeWhile_append is_digit_def)
  from eq have "str_nat m = str_nat n" by (metis t)
  with eq show "m = n \<and> x = y" by (simp add: str_nat_inj)
qed simp

lemma envelope_text:
  "json_text True (VDict (event_envelope eid cid n ty st ac p cr prev)) =
     ''{'' @ json_str True ''actor'' @ '':'' @ json_str True ac @ '','' @
     json_str True ''case_id'' @ '':'' @ json_str True cid @ '','' @
     json_str True ''created_at'' @ '':'' @ json_str True cr @ '','' @
     json_str True ''event_id'' @ '':'' @ json_str True eid @ '','' @
     json_str True ''event_type'' @ '':'' @ json_str True ty @ '','' @
     json_str True ''payload'' @ '':'' @ opt_json p @ '','' @
     json_str True ''previous_event_hash'' @ '':'' @ json_str True prev @ '','' @
     json_str True ''sequence'' @ '':'' @ str_nat n @ '','' @
     json_str True ''step_name'' @ '':'' @ json_str True st @ ''}''"
proof -
  let ?ps = "[(''actor'', json_str True ac), (''case_id'', json_str True cid), (''created_at'', json_str True cr),
      (''event_id'', json_str True eid), (''event_type'', json_str True ty), (''payload'', opt_json p),
      (''previous_event_hash'', json_str True prev), (''sequence'', str_nat n), (''step_name'', json_str True st)]"
  have ps: "json_pairs True (event_envelope eid cid n ty st ac p cr prev) = ?ps"
    by (cases p) (simp_all add: event_envelope_def opt_json_def str_int_def)
  have "sorted (map fst ?ps)" by (simp add: less_char_def less_eq_char_def Cons_le_Cons)
  then have "sort_key fst ?ps = ?ps" by (rule sort_key_id_if_sorted)
  then show ?thesis unfolding json_text.simps ps by simp
qed

lemma envelope_inj:
  "json_text True (VDict (event_envelope eid cid n ty st ac p cr prev)) =
   json_text True (VDict (event_envelope eid' cid' n' ty' st' ac' p' cr' prev')) \<Longrightarrow>
   eid = eid' \<and> cid = cid' \<and> n = n' \<and> ty = ty' \<and> st = st' \<and> ac = ac' \<and> p = p' \<and> cr = cr' \<and> prev = prev'"
  unfolding envelope_text
  by (simp add: json_str_append_inj opt_json_append_inj str_nat_append_inj)

text \<open>What an event says, as it is stored: every hashed column.\<close>

definition event_content ::
  "event_row \<Rightarrow> string \<times> string \<times> nat \<times> string \<times> string \<times> string \<times> string option \<times> string \<times> string" where
  "event_content e = (ev_event_id e, ev_case_id e, ev_sequence e, ev_event_type e, ev_step_name e, ev_actor e,
     canonical_payload (ev_payload e), ev_created_at e, ev_previous_event_hash e)"

definition collision :: "(string \<Rightarrow> string) \<Rightarrow> bool" where
  "collision sha \<longleftrightarrow> (\<exists>x y. x \<noteq> y \<and> sha x = sha y)"

lemma row_hash_content:
  "row_hash sha e = row_hash sha f \<Longrightarrow> event_content e = event_content f \<or> collision sha"
  unfolding row_hash_def compute_event_hash_def collision_def event_content_def
  using envelope_inj by (metis (no_types, lifting) prod.inject)

lemma verified_tail_hash:
  "cv_valid (verify_events sha p n es) \<Longrightarrow> es \<noteq> [] \<Longrightarrow> ev_event_hash (last es) = row_hash sha (last es)"
  by (induction es arbitrary: p n) (auto split: if_splits)

text \<open>Two verified streams with the same head agree on every stored column, or there is a collision.\<close>

lemma streams_agree:
  "cv_valid (verify_events sha p n xs) \<Longrightarrow> cv_valid (verify_events sha p n ys) \<Longrightarrow>
   length xs = length ys \<Longrightarrow> xs \<noteq> [] \<Longrightarrow> ev_event_hash (last xs) = ev_event_hash (last ys) \<Longrightarrow> \<not> collision sha \<Longrightarrow>
   map event_content xs = map event_content ys"
proof (induction xs arbitrary: ys rule: rev_induct)
  case (snoc x xs)
  then obtain ys' y where ys: "ys = ys' @ [y]" by (metis append_is_Nil_conv length_0_conv rev_exhaust)
  have vx: "cv_valid (verify_events sha p n xs)" "row_hash sha x = ev_event_hash x"
      "ev_previous_event_hash x = (if xs = [] then p else ev_event_hash (last xs))"
    and vy: "cv_valid (verify_events sha p n ys')" "row_hash sha y = ev_event_hash y"
      "ev_previous_event_hash y = (if ys' = [] then p else ev_event_hash (last ys'))"
    using snoc.prems ys by (simp_all add: verify_events_snoc)
  have "row_hash sha x = row_hash sha y" using snoc.prems(5) ys vx vy by simp
  then have c: "event_content x = event_content y" using row_hash_content snoc.prems(6) by blast
  have len: "length xs = length ys'" using snoc.prems(3) ys by simp
  have "map event_content xs = map event_content ys'"
  proof (cases "xs = []")
    case True
    then show ?thesis using len by simp
  next
    case False
    then have "ys' \<noteq> []" using len by auto
    then have "ev_event_hash (last xs) = ev_event_hash (last ys')"
      using c False vx(3) vy(3) by (simp add: event_content_def)
    then show ?thesis using snoc.IH vx(1) vy(1) len False snoc.prems(6) by blast
  qed
  then show ?case using c ys by simp
qed simp

text \<open>
  C19: the event stream of a case is tamper evident.  If the stored stream still
  verifies and its length and last hash are those recorded by an earlier state of
  the ledger, then every hashed column of every event of the case is what it was,
  unless two different texts with the same SHA-256 digest exist.
\<close>

theorem verified_stream_unaltered:
  assumes "cv_valid (verify_event_chain (amb_sha a) cid d)"
    and "cv_valid (verify_event_chain (amb_sha a) cid d')"
    and "length (get_events_for_case cid d') = length (get_events_for_case cid d)"
    and "last_hash (get_events_for_case cid d') = last_hash (get_events_for_case cid d)"
  shows "map event_content (get_events_for_case cid d') = map event_content (get_events_for_case cid d)
    \<or> collision (amb_sha a)"
proof (cases "get_events_for_case cid d' = []")
  case False
  then have "get_events_for_case cid d \<noteq> []" using assms(3) by auto
  then show ?thesis
    using streams_agree [OF assms(2,1) [unfolded verify_event_chain_def] assms(3) False] assms(4) False
    by (auto simp: last_hash.simps)
qed (use assms(3) in auto)

text \<open>A concrete ambient and a ledger with one opened case.\<close>

definition sample_ambient :: ambient where
  "sample_ambient = \<lparr>amb_now = (\<lambda>n. int n * second_us), amb_uuid = str_nat, amb_sha = (\<lambda>s. s)\<rparr>"

definition sample_case_row :: case_row where
  "sample_case_row = \<lparr>c_case_id = ''C-1'', c_member_id = ''M-1'', c_procedure_name = ''reg_e_dispute'',
     c_amount = Money False 5000, c_currency = ''USD'', c_status = ''RECEIVED'', c_money_moved = False,
     c_opened_at = 0, c_updated_at = 0\<rparr>"

definition sample_db :: db where
  "sample_db = with_event sample_ambient ''C-1'' ''CASE_CREATED'' ''orchestrator'' ''AUTOMATION'' (Some
     [(''member_id'', VStr ''M-1''), (''amount'', VStr (money_text (Money False 5000))),
      (''currency'', VStr ''USD''), (''procedure_name'', VStr ''reg_e_dispute''),
      (''status'', VStr ''RECEIVED''), (''money_moved'', VBool False),
      (''opened_at'', VTime (utc 0)), (''updated_at'', VTime (utc 0))])
     (empty_db\<lparr>tick := 1, t_cases := [sample_case_row]\<rparr>)"

lemma sample_db_created:
  "create_or_get_case sample_ambient ''C-1'' ''M-1'' (money_val (Money False 5000)) ''USD'' ''reg_e_dispute'' empty_db
     = (Ret sample_case_row, sample_db)"
proof -
  have "parse_money (money_val (Money False 5000)) = Inr (Money False 5000)"
    by (rule parse_money_val) (simp add: max_money_cents_def)
  then show ?thesis
    by (simp add: create_or_get_case_def utc_now_def bnd_def andthen_def empty_db_def get_case_def sample_db_def
        sample_case_row_def sample_ambient_def)
qed

lemma chain_inv_empty: "chain_inv sha empty_db"
  by (simp add: chain_inv_def empty_db_def unique_on_def case_events_def head_matches_def get_head_def)

lemma chain_inv_sample: "chain_inv (amb_sha sample_ambient) sample_db"
  using keepsD_run [OF keeps_create_case chain_inv_empty sample_db_created] .

lemma sample_events: "get_events_for_case ''C-1'' sample_db = t_events sample_db" "length (t_events sample_db) = 1"
  by (simp_all add: get_events_for_case_def sample_db_def empty_db_def)

text \<open>The timestamp column is not hashed (\<open>created_at\<close> is), so it can change.\<close>

definition restamp :: "db \<Rightarrow> db" where
  "restamp d = d\<lparr>t_events := map (\<lambda>e. e\<lparr>ev_timestamp := 7\<rparr>) (t_events d)\<rparr>"

lemma verify_restamped:
  "verify_events sha p n (map (\<lambda>e. e\<lparr>ev_timestamp := 7\<rparr>) es) = verify_events sha p n es"
  by (induction es arbitrary: p n) (auto simp: row_hash_def)

theorem verified_stream_unaltered_witness:
  "map event_content (get_events_for_case ''C-1'' (restamp sample_db))
     = map event_content (get_events_for_case ''C-1'' sample_db) \<or> collision (amb_sha sample_ambient)"
proof (rule verified_stream_unaltered)
  have e: "get_events_for_case ''C-1'' (restamp sample_db)
      = map (\<lambda>e. e\<lparr>ev_timestamp := 7\<rparr>) (get_events_for_case ''C-1'' sample_db)"
    by (simp add: get_events_for_case_def sample_db_def restamp_def empty_db_def)
  show v: "cv_valid (verify_event_chain (amb_sha sample_ambient) ''C-1'' sample_db)"
    by (rule chain_inv_verified [OF chain_inv_sample])
  then show "cv_valid (verify_event_chain (amb_sha sample_ambient) ''C-1'' (restamp sample_db))"
    unfolding verify_event_chain_def e verify_restamped .
  show "last_hash (get_events_for_case ''C-1'' (restamp sample_db)) = last_hash (get_events_for_case ''C-1'' sample_db)"
    unfolding e by (simp add: last_hash.simps last_map)
  show "length (get_events_for_case ''C-1'' (restamp sample_db)) = length (get_events_for_case ''C-1'' sample_db)"
    unfolding e by simp
qed

end
