(* ===== verification/Fencing.thy ===== *)
theory Fencing
  imports Prelude
begin

text \<open>
  The contract of a fenced resource: a reservation that one owner holds under a
  fencing token, as the effect claims and the case leases of the ledger do.
  \<open>token\<close> is the token of the current reservation (0 when there was never one),
  \<open>owner\<close> its owner, \<open>valid o n\<close> whether the resource accepts owner \<open>o\<close> with token
  \<open>n\<close> now.  From the three laws of one step follow, for every run, that a token
  never returns, that one token has one owner, and that a superseded owner is never
  accepted again.  \<open>admission\<close> adds when a reservation may pass to the next token.
\<close>

section \<open>Conditional updates of a row with a unique key\<close>

lemma guarded_update_hit:
  assumes u: "unique_on key rows" and r: "select_first (\<lambda>r. key r = k) rows = Some r" and q: "Q r"
  shows "rowcount (\<lambda>r. key r = k \<and> Q r) rows = 1"
    and "update_where (\<lambda>r. key r = k \<and> Q r) f rows = update_where (\<lambda>r. key r = k) (\<lambda>_. f r) rows"
proof -
  show "rowcount (\<lambda>r. key r = k \<and> Q r) rows = 1"
    using rowcount_unique_1 [OF u, of k Q] r q by blast
  have "x = r" if "x \<in> set rows" "key x = k" for x
    using select_first_unique [OF u that] r by simp
  then show "update_where (\<lambda>r. key r = k \<and> Q r) f rows = update_where (\<lambda>r. key r = k) (\<lambda>_. f r) rows"
    unfolding update_where_def by (intro map_cong) (use q in auto)
qed

lemma guarded_update_miss:
  assumes u: "unique_on key rows" and miss: "\<And>r. select_first (\<lambda>r. key r = k) rows = Some r \<Longrightarrow> \<not> Q r"
  shows "rowcount (\<lambda>r. key r = k \<and> Q r) rows = 0"
    and "update_where (\<lambda>r. key r = k \<and> Q r) f rows = rows"
proof -
  have none: "\<not> (key x = k \<and> Q x)" if "x \<in> set rows" for x
    using select_first_unique [OF u that, of k] miss by blast
  then show "rowcount (\<lambda>r. key r = k \<and> Q r) rows = 0" by (simp add: rowcount_def filter_empty_conv)
  show "update_where (\<lambda>r. key r = k \<and> Q r) f rows = rows" using none by (rule update_where_none)
qed

lemma select_first_replaced:
  "key s = k \<Longrightarrow> select_first (\<lambda>r. key r = x) (update_where (\<lambda>r. key r = k) (\<lambda>_. s) rows) =
     (if x = k then map_option (\<lambda>_. s) (select_first (\<lambda>r. key r = x) rows) else select_first (\<lambda>r. key r = x) rows)"
  by (induction rows) (auto simp: update_where_def)

lemma unique_on_replaced:
  "key s = k \<Longrightarrow> unique_on key rows \<Longrightarrow> unique_on key (update_where (\<lambda>r. key r = k) (\<lambda>_. s) rows)"
  by (rule unique_on_update_where) simp_all

section \<open>The contract\<close>

locale fenced_resource =
  fixes step :: "'s \<Rightarrow> 's \<Rightarrow> bool"
    and token :: "'s \<Rightarrow> nat"
    and owner :: "'s \<Rightarrow> 'o option"
    and valid :: "'o \<Rightarrow> nat \<Rightarrow> 's \<Rightarrow> bool"
  assumes token_mono: "step s t \<Longrightarrow> token s \<le> token t"
    and same_token_same_owner: "step s t \<Longrightarrow> token t = token s \<Longrightarrow> 0 < token s \<Longrightarrow> owner t = owner s"
    and valid_current: "valid ow n s \<Longrightarrow> owner s = Some ow \<and> token s = n \<and> 0 < n"
begin

lemma run_token_mono: "step\<^sup>*\<^sup>* s t \<Longrightarrow> token s \<le> token t"
  by (induction rule: rtranclp_induct) (auto dest: token_mono intro: order_trans)

lemma run_same_owner:
  "step\<^sup>*\<^sup>* s t \<Longrightarrow> token t = token s \<Longrightarrow> 0 < token s \<Longrightarrow> owner t = owner s"
proof (induction rule: rtranclp_induct)
  case (step t u)
  then have "token s \<le> token t" "token t \<le> token u" using run_token_mono token_mono by blast+
  with step have "token t = token s" "token u = token t" by auto
  with step show ?case using same_token_same_owner by metis
qed simp

lemma one_owner_per_token:
  assumes "valid o1 n s" "step\<^sup>*\<^sup>* s t" "valid o2 n t"
  shows "o1 = o2"
  using assms run_same_owner [of s t] valid_current by (metis option.inject)

lemma stale_token_refused:
  assumes "n < token s" "step\<^sup>*\<^sup>* s t"
  shows "\<not> valid ow n t"
  using assms run_token_mono [of s t] valid_current by (metis leD)

lemma superseded_owner_refused:
  assumes "valid o1 n s" "step\<^sup>*\<^sup>* s t" "valid o2 m t" "o1 \<noteq> o2" "step\<^sup>*\<^sup>* t u"
  shows "n < m \<and> \<not> valid o1 n u"
proof -
  have "n \<le> m" using assms(1-3) valid_current run_token_mono by metis
  moreover have "n \<noteq> m" using one_owner_per_token assms(1-4) by blast
  ultimately show ?thesis using stale_token_refused assms(3,5) valid_current by (metis le_neq_implies_less)
qed

end

locale admission = fenced_resource +
  fixes released :: "'s \<Rightarrow> bool"
  assumes grows_when_released: "step s t \<Longrightarrow> token s < token t \<Longrightarrow> token s = 0 \<or> released s"
begin

text \<open>As long as the reservation is not released, nobody else is admitted.\<close>

lemma unreleased_stays:
  "(\<lambda>s t. step s t \<and> \<not> released s)\<^sup>*\<^sup>* s t \<Longrightarrow> 0 < token s \<Longrightarrow> token t = token s \<and> owner t = owner s"
proof (induction rule: rtranclp_induct)
  case (step t u)
  then have t: "token t = token s" "owner t = owner s" by blast+
  have "token u = token t"
    using step.hyps(2) step.prems t token_mono [of t u] grows_when_released [of t u] by (metis le_neq_implies_less less_irrefl)
  then show ?case using step.hyps(2) step.prems t same_token_same_owner by metis
qed simp

lemma sole_admission:
  assumes "valid o1 n s" "(\<lambda>s t. step s t \<and> \<not> released s)\<^sup>*\<^sup>* s t" "valid o2 m t"
  shows "o2 = o1 \<and> m = n"
  using assms unreleased_stays [of s t] valid_current by (metis option.inject)

end

end
