(* ===== verification/Claims.thy ===== *)
theory Claims
  imports Ledger Fencing
begin

text \<open>
  Executions, effect intents and atomic effect claims of \<open>LedgerRepository\<close>
  (\<open>tandem/ledger/repository.py\<close>).  A claim row is the durable reservation of one
  external effect: the unique idempotency key admits one row, and the pair of owner
  and fencing token decides every later change of it.  The locale \<open>fenced_resource\<close>
  states what a client of a fenced reservation relies on; it is interpreted on the
  claim operations here and on the lease operations in \<open>Leases\<close>.
\<close>

section \<open>Executions\<close>

definition opt_money :: "val option \<Rightarrow> money option res" where
  "opt_money v = (case v of None \<Rightarrow> Inr None | Some x \<Rightarrow> map_sum id Some (parse_money x))"

definition opt_str_val :: "string option \<Rightarrow> val" where
  "opt_str_val s = (case s of None \<Rightarrow> VNone | Some t \<Rightarrow> VStr t)"

definition opt_money_val :: "money option \<Rightarrow> val" where
  "opt_money_val m = (case m of None \<Rightarrow> VNone | Some x \<Rightarrow> VStr (money_text x))"

definition start_execution ::
  "ambient \<Rightarrow> string \<Rightarrow> string \<Rightarrow> string \<Rightarrow> string \<Rightarrow> string option \<Rightarrow> string option \<Rightarrow> val option \<Rightarrow> string \<Rightarrow>
   string option \<Rightarrow> (db, execution_row) prog" where
  "start_execution a case_id capability_id capability_version effect_class key expected_entity
     expected_amount actor browser_session_id =
     bnd (of_res (opt_money expected_amount)) (\<lambda>amount.
     bnd (utc_now a) (\<lambda>now.
     bnd (gets (\<lambda>d. next_id (map ex_id (t_executions d)))) (\<lambda>rid.
       let r = \<lparr>ex_id = rid, ex_case_id = case_id, ex_capability_id = capability_id,
             ex_capability_version = capability_version, ex_effect_class = effect_class,
             ex_idempotency_key = key, ex_status = ''RUNNING'',
             ex_expected_entity = expected_entity, ex_observed_entity = None, ex_expected_amount = amount,
             ex_observed_amount = None, ex_failure_category = None, ex_audit_ref = None,
             ex_money_moved = False, ex_actor = actor, ex_browser_session_id = browser_session_id,
             ex_started_at = now, ex_completed_at = None\<rparr>
       in andthen (require_case_row case_id) (
          andthen (change (\<lambda>d. d\<lparr>t_executions := t_executions d @ [r]\<rparr>)) (
          andthen (record_event a case_id ''CAPABILITY_EXECUTION_STARTED'' capability_id actor (Some
             [(''execution_id'', VInt (int rid)), (''capability_id'', VStr capability_id),
              (''capability_version'', VStr capability_version), (''effect_class'', VStr effect_class),
              (''idempotency_key'', opt_str_val key), (''status'', VStr ''RUNNING''),
              (''expected_entity'', opt_str_val expected_entity), (''expected_amount'', opt_money_val amount),
              (''actor'', VStr actor), (''browser_session_id'', opt_str_val browser_session_id),
              (''started_at'', VTime (utc now))])) (ret r))))))"

definition get_execution :: "nat \<Rightarrow> db \<Rightarrow> execution_row option" where
  "get_execution rid d = select_first (\<lambda>r. ex_id r = rid) (t_executions d)"

definition set_execution :: "nat \<Rightarrow> (execution_row \<Rightarrow> execution_row) \<Rightarrow> db \<Rightarrow> db" where
  "set_execution rid f d = d\<lparr>t_executions := update_where (\<lambda>r. ex_id r = rid) f (t_executions d)\<rparr>"

text \<open>
  The row's attributes are assigned one by one, so a refused amount leaves the first
  two of them assigned.
\<close>

definition complete_execution ::
  "ambient \<Rightarrow> nat \<Rightarrow> string \<Rightarrow> string option \<Rightarrow> val option \<Rightarrow> string option \<Rightarrow> string option \<Rightarrow> bool \<Rightarrow>
   (db, execution_row) prog" where
  "complete_execution a execution_id status observed_entity observed_amount failure_category audit_ref money_moved =
     bnd (gets (get_execution execution_id)) (\<lambda>found. case found of
       None \<Rightarrow> fail (ValueError (fstr [''Execution record '', str_nat execution_id, '' not found'']))
     | Some r \<Rightarrow>
         andthen (change (set_execution execution_id
            (\<lambda>r. r\<lparr>ex_status := status, ex_observed_entity := observed_entity\<rparr>))) (
         bnd (of_res (opt_money observed_amount)) (\<lambda>amount.
         bnd (utc_now a) (\<lambda>now.
           let r' = r\<lparr>ex_status := status, ex_observed_entity := observed_entity,
                 ex_observed_amount := amount, ex_failure_category := failure_category,
                 ex_audit_ref := audit_ref, ex_money_moved := money_moved, ex_completed_at := Some now\<rparr>
           in andthen (change (set_execution execution_id (\<lambda>_. r'))) (
              andthen (record_event a (ex_case_id r) ''CAPABILITY_EXECUTION_COMPLETED'' (ex_capability_id r)
                (ex_actor r) (Some
                [(''execution_id'', VInt (int execution_id)), (''status'', VStr status),
                 (''observed_entity'', opt_str_val observed_entity), (''observed_amount'', opt_money_val amount),
                 (''failure_category'', opt_str_val failure_category), (''audit_ref'', opt_str_val audit_ref),
                 (''money_moved'', VBool money_moved), (''completed_at'', VTime (utc now))])) (ret r'))))))"

definition get_executions_for_case :: "string \<Rightarrow> db \<Rightarrow> execution_row list" where
  "get_executions_for_case cid d = sort_key ex_id (filter (\<lambda>r. ex_case_id r = cid) (t_executions d))"

section \<open>Effect intents\<close>

definition find_intent :: "string \<Rightarrow> db \<Rightarrow> intent_row option" where
  "find_intent key d = select_first (\<lambda>r. in_idempotency_key r = key) (t_intents d)"

definition stage_intent :: "ambient \<Rightarrow> string \<Rightarrow> string \<Rightarrow> string \<Rightarrow> (db, intent_row) prog" where
  "stage_intent a case_id key capability_id =
     bnd (gets (find_intent key)) (\<lambda>found. case found of
       Some r \<Rightarrow> ret r
     | None \<Rightarrow>
         bnd (utc_now a) (\<lambda>now.
         bnd (gets (\<lambda>d. next_id (map in_id (t_intents d)))) (\<lambda>rid.
           let r = \<lparr>in_id = rid, in_case_id = case_id, in_idempotency_key = key,
                 in_capability_id = capability_id, in_status = ''STAGED'', in_created_at = now\<rparr>
           in andthen (change (\<lambda>d. d\<lparr>t_intents := t_intents d @ [r]\<rparr>)) (
              andthen (record_event a case_id ''INTENT_STAGED'' capability_id ''AUTOMATION'' (Some
                [(''idempotency_key'', VStr key), (''capability_id'', VStr capability_id),
                 (''intent_status'', VStr ''STAGED''), (''created_at'', VTime (utc now))])) (ret r)))))"

definition mark_intent_committed :: "ambient \<Rightarrow> string \<Rightarrow> (db, unit) prog" where
  "mark_intent_committed a key =
     bnd (gets (find_intent key)) (\<lambda>found. case found of
       None \<Rightarrow> ret ()
     | Some r \<Rightarrow>
         if in_status r = ''COMMITTED'' then ret ()
         else andthen (change (\<lambda>d. d\<lparr>t_intents := update_where (\<lambda>r. in_idempotency_key r = key)
                (\<lambda>r. r\<lparr>in_status := ''COMMITTED''\<rparr>) (t_intents d)\<rparr>)) (
              andthen (record_event a (in_case_id r) ''INTENT_COMMITTED'' (in_capability_id r) ''AUTOMATION''
                (Some [(''idempotency_key'', VStr key)])) (ret ())))"

section \<open>Effect claims\<close>

record effect_claim =
  ec_acquired :: bool
  ec_status :: string
  ec_fencing_token :: nat
  ec_owner_id :: string

definition existing_claim_outcome :: "string \<Rightarrow> string" where
  "existing_claim_outcome status =
     (if status = claim_status_value APPLIED then code_value ALREADY_APPLIED else code_value ALREADY_CLAIMED)"

definition get_effect_claim :: "string \<Rightarrow> db \<Rightarrow> claim_row option" where
  "get_effect_claim key d = select_first (\<lambda>r. cl_idempotency_key r = key) (t_claims d)"

definition get_effect_claims_for_case :: "string \<Rightarrow> db \<Rightarrow> claim_row list" where
  "get_effect_claims_for_case cid d = sort_key cl_id (filter (\<lambda>r. cl_case_id r = cid) (t_claims d))"

definition new_claim :: "string \<Rightarrow> effect_identity \<Rightarrow> string \<Rightarrow> int \<Rightarrow> int \<Rightarrow> nat \<Rightarrow> claim_row" where
  "new_claim key i owner_id claim_time ttl rid =
     \<lparr>cl_id = rid, cl_idempotency_key = key, cl_institution_id = id_institution_id i,
      cl_procedure_id = id_procedure_id i, cl_case_id = id_case_id i, cl_capability_id = id_capability_id i,
      cl_member_id = id_member_id i, cl_account_id = id_account_id i, cl_amount = id_amount i,
      cl_currency = id_currency i, cl_business_reference = id_business_reference i,
      cl_status = claim_status_value CLAIMED, cl_owner_id = owner_id, cl_fencing_token = 1,
      cl_claimed_at = claim_time, cl_heartbeat_at = claim_time, cl_expires_at = claim_time + ttl,
      cl_updated_at = claim_time\<rparr>"

text \<open>\<open>INSERT ... ON CONFLICT DO NOTHING\<close>: the flag is whether a row was inserted.\<close>

definition insert_claim :: "claim_row \<Rightarrow> db \<Rightarrow> bool \<times> db" where
  "insert_claim r d = (if get_effect_claim (cl_idempotency_key r) d = None
     then (True, d\<lparr>t_claims := t_claims d @ [r]\<rparr>) else (False, d))"

text \<open>A conditional \<open>UPDATE\<close>: the flag is whether exactly one row was updated.\<close>

definition update_claims :: "(claim_row \<Rightarrow> bool) \<Rightarrow> (claim_row \<Rightarrow> claim_row) \<Rightarrow> (db, bool) prog" where
  "update_claims P f = (\<lambda>d. (Ret (rowcount P (t_claims d) = 1), d\<lparr>t_claims := update_where P f (t_claims d)\<rparr>))"

definition claim_payload :: "claim_row \<Rightarrow> dict" where
  "claim_payload r =
     [(''idempotency_key'', VStr (cl_idempotency_key r)), (''owner_id'', VStr (cl_owner_id r)),
      (''fencing_token'', VInt (int (cl_fencing_token r))), (''institution_id'', VStr (cl_institution_id r)),
      (''procedure_id'', VStr (cl_procedure_id r)), (''case_id'', VStr (cl_case_id r)),
      (''capability_id'', VStr (cl_capability_id r)), (''member_id'', VStr (cl_member_id r)),
      (''account_id'', VStr (cl_account_id r)), (''amount'', VStr (money_text (cl_amount r))),
      (''currency'', VStr (cl_currency r)), (''business_reference'', VStr (cl_business_reference r)),
      (''status'', VStr (cl_status r)), (''claimed_at'', VTime (utc (cl_claimed_at r))),
      (''heartbeat_at'', VTime (utc (cl_heartbeat_at r))), (''expires_at'', VTime (utc (cl_expires_at r))),
      (''updated_at'', VTime (utc (cl_updated_at r)))]"

definition reclaim :: "string \<Rightarrow> claim_row \<Rightarrow> string \<Rightarrow> int \<Rightarrow> int \<Rightarrow> (db, bool) prog" where
  "reclaim key record owner_id claim_time ttl =
     update_claims
       (\<lambda>r. cl_idempotency_key r = key \<and> cl_status r = claim_status_value FAILED_RETRYABLE \<and>
          cl_fencing_token r = cl_fencing_token record)
       (\<lambda>r. r\<lparr>cl_status := claim_status_value CLAIMED, cl_owner_id := owner_id,
          cl_fencing_token := cl_fencing_token record + 1, cl_claimed_at := claim_time,
          cl_heartbeat_at := claim_time, cl_expires_at := claim_time + ttl, cl_updated_at := claim_time\<rparr>)"

definition claim_effect ::
  "ambient \<Rightarrow> effect_identity \<Rightarrow> string \<Rightarrow> int option \<Rightarrow> int \<Rightarrow> (db, effect_claim) prog" where
  "claim_effect a identity owner_id now ttl =
     (let key = idempotency_key (amb_sha a) identity in
     bnd (time_or_now a now) (\<lambda>claim_time.
     bnd (gets (\<lambda>d. next_id (map cl_id (t_claims d)))) (\<lambda>rid.
     bnd (\<lambda>d. case insert_claim (new_claim key identity owner_id claim_time ttl rid) d of (b, d') \<Rightarrow> (Ret b, d'))
       (\<lambda>inserted.
     bnd (gets (get_effect_claim key)) (\<lambda>found. case found of
       None \<Rightarrow> fail (RuntimeError ''Effect claim insert completed without a readable claim'')
     | Some record \<Rightarrow>
         bnd (if \<not> inserted \<and> cl_status record = claim_status_value FAILED_RETRYABLE
              then reclaim key record owner_id claim_time ttl else ret inserted) (\<lambda>acquired.
         bnd (gets (\<lambda>d. if acquired then the (get_effect_claim key d) else record)) (\<lambda>record.
         bnd (gets (\<lambda>d. acquired \<and> get_case (id_case_id identity) d \<noteq> None)) (\<lambda>audited.
         andthen (if audited
           then andthen (record_event a (id_case_id identity) ''EFFECT_CLAIMED'' (id_capability_id identity)
                  ''AUTOMATION'' (Some (claim_payload record))) (ret ())
           else ret ())
         (ret \<lparr>ec_acquired = acquired,
               ec_status = (if acquired then cl_status record else existing_claim_outcome (cl_status record)),
               ec_fencing_token = cl_fencing_token record, ec_owner_id = cl_owner_id record\<rparr>)))))))))"

definition transition_effect_claim ::
  "ambient \<Rightarrow> string \<Rightarrow> string \<Rightarrow> nat \<Rightarrow> claim_status list \<Rightarrow> claim_status \<Rightarrow> int option \<Rightarrow> (db, bool) prog" where
  "transition_effect_claim a key owner_id fencing_token from_statuses to_status now =
     bnd (time_or_now a now) (\<lambda>transition_time.
     bnd (update_claims
        (\<lambda>r. cl_idempotency_key r = key \<and> cl_owner_id r = owner_id \<and> cl_fencing_token r = fencing_token \<and>
           cl_status r \<in> set (map claim_status_value from_statuses))
        (\<lambda>r. r\<lparr>cl_status := claim_status_value to_status, cl_updated_at := transition_time,
           cl_heartbeat_at := transition_time\<rparr>)) (\<lambda>transitioned.
       if transitioned
       then bnd (gets (get_effect_claim key)) (\<lambda>found. case found of
              None \<Rightarrow> fail (RuntimeError ''Transitioned effect claim could not be read'')
            | Some record \<Rightarrow>
                andthen (record_event a (cl_case_id record) ''EFFECT_CLAIM_TRANSITIONED'' (cl_capability_id record)
                  ''AUTOMATION'' (Some
                  [(''idempotency_key'', VStr key), (''status'', VStr (cl_status record)),
                   (''owner_id'', VStr (cl_owner_id record)),
                   (''fencing_token'', VInt (int (cl_fencing_token record))),
                   (''heartbeat_at'', VTime (utc (cl_heartbeat_at record))),
                   (''updated_at'', VTime (utc (cl_updated_at record)))])) (ret True))
       else ret False))"

definition validate_effect_token :: "string \<Rightarrow> string \<Rightarrow> nat \<Rightarrow> db \<Rightarrow> bool" where
  "validate_effect_token key owner_id fencing_token d =
     (case get_effect_claim key d of
        None \<Rightarrow> False
      | Some r \<Rightarrow> cl_owner_id r = owner_id \<and> cl_fencing_token r = fencing_token \<and>
          cl_status r \<in> {claim_status_value CLAIMED, claim_status_value APPLYING})"

section \<open>The event chain is kept\<close>

lemma keeps_update_claims [keeps_rules]: "keeps (chain_inv sha) (update_claims P f)"
  by (rule keepsI) (simp add: update_claims_def)

lemma keeps_insert_claim [keeps_rules]:
  "keeps (chain_inv sha) (\<lambda>d. case insert_claim r d of (b, d') \<Rightarrow> (Ret b, d'))"
  by (rule keepsI) (simp add: insert_claim_def)

lemma keeps_executions [keeps_rules]:
  "keeps (chain_inv (amb_sha a)) (start_execution a c k v ec key ee ea ac bs)"
  "keeps (chain_inv (amb_sha a)) (complete_execution a n s oe oa fc ar mm)"
  unfolding start_execution_def complete_execution_def Let_def require_case_row_def
  by (intro keeps_rules; simp add: set_execution_def)+

lemma keeps_intents [keeps_rules]:
  "keeps (chain_inv (amb_sha a)) (stage_intent a c key k)"
  "keeps (chain_inv (amb_sha a)) (mark_intent_committed a key)"
  unfolding stage_intent_def mark_intent_committed_def Let_def
  by (intro keeps_rules; simp)+

lemma keeps_claims [keeps_rules]:
  "keeps (chain_inv (amb_sha a)) (claim_effect a i ow now ttl)"
  "keeps (chain_inv (amb_sha a)) (transition_effect_claim a key ow tok fs ts now)"
  unfolding claim_effect_def transition_effect_claim_def reclaim_def Let_def
  by (intro keeps_rules; simp)+

section \<open>What the claim operations do\<close>

definition claims_unique :: "db \<Rightarrow> bool" where
  "claims_unique d = unique_on cl_idempotency_key (t_claims d)"

lemma time_or_now_run:
  "\<exists>t n. time_or_now a now d = (Ret t, d\<lparr>tick := n\<rparr>) \<and> (now = Some t \<or> now = None \<and> t = amb_now a (tick d))"
proof (cases now)
  case None
  then show ?thesis by (auto simp: time_or_now_def utc_now_def)
next
  case (Some t)
  then have "time_or_now a now d = (Ret t, d\<lparr>tick := tick d\<rparr>)" by (simp add: time_or_now_def)
  then show ?thesis using Some by blast
qed

lemma get_effect_claim_tables [simp]:
  "get_effect_claim k (d\<lparr>tick := n\<rparr>) = get_effect_claim k d"
  "get_effect_claim k (with_event a c ty st ac p d) = get_effect_claim k d"
  "get_effect_claim k (d\<lparr>t_claims := rows\<rparr>) = select_first (\<lambda>r. cl_idempotency_key r = k) rows"
  by (simp_all add: get_effect_claim_def)

lemma new_claim_sel [simp]:
  "cl_idempotency_key (new_claim k i ow t ttl rid) = k" "cl_status (new_claim k i ow t ttl rid) = claim_status_value CLAIMED"
  "cl_fencing_token (new_claim k i ow t ttl rid) = 1" "cl_owner_id (new_claim k i ow t ttl rid) = ow"
  "cl_case_id (new_claim k i ow t ttl rid) = id_case_id i"
  by (simp_all add: new_claim_def)

definition reclaimed :: "claim_row \<Rightarrow> string \<Rightarrow> int \<Rightarrow> int \<Rightarrow> claim_row" where
  "reclaimed r owner_id claim_time ttl =
     r\<lparr>cl_status := claim_status_value CLAIMED, cl_owner_id := owner_id, cl_fencing_token := cl_fencing_token r + 1,
       cl_claimed_at := claim_time, cl_heartbeat_at := claim_time, cl_expires_at := claim_time + ttl,
       cl_updated_at := claim_time\<rparr>"

lemma reclaimed_sel [simp]:
  "cl_idempotency_key (reclaimed r ow t ttl) = cl_idempotency_key r" "cl_owner_id (reclaimed r ow t ttl) = ow"
  "cl_fencing_token (reclaimed r ow t ttl) = cl_fencing_token r + 1"
  "cl_status (reclaimed r ow t ttl) = claim_status_value CLAIMED" "cl_case_id (reclaimed r ow t ttl) = cl_case_id r"
  by (simp_all add: reclaimed_def)

lemma get_effect_claim_SomeD: "get_effect_claim k d = Some r \<Longrightarrow> r \<in> set (t_claims d) \<and> cl_idempotency_key r = k"
  unfolding get_effect_claim_def by (drule select_first_Some) simp

lemma claim_key_eq:
  "claims_unique d \<Longrightarrow> r \<in> set (t_claims d) \<Longrightarrow> get_effect_claim (cl_idempotency_key r) d = Some r"
  unfolding claims_unique_def get_effect_claim_def by (rule select_first_unique) simp_all

text \<open>With a unique key, a guarded update of the key's row rewrites exactly that row.\<close>

lemma update_claims_hit:
  assumes u: "claims_unique d" and r: "get_effect_claim k d = Some r" and q: "Q r"
  shows "update_claims (\<lambda>r. cl_idempotency_key r = k \<and> Q r) f d
    = (Ret True, d\<lparr>t_claims := update_where (\<lambda>r. cl_idempotency_key r = k) (\<lambda>_. f r) (t_claims d)\<rparr>)"
  using guarded_update_hit [of cl_idempotency_key "t_claims d" k r Q] assms
  by (simp add: update_claims_def claims_unique_def get_effect_claim_def)

lemma update_claims_miss:
  assumes u: "claims_unique d" and miss: "\<And>r. get_effect_claim k d = Some r \<Longrightarrow> \<not> Q r"
  shows "update_claims (\<lambda>r. cl_idempotency_key r = k \<and> Q r) f d = (Ret False, d)"
  using guarded_update_miss [of cl_idempotency_key "t_claims d" k Q] assms
  by (simp add: update_claims_def claims_unique_def get_effect_claim_def)

lemma claim_effect_cases:
  assumes u: "claims_unique d" and run: "claim_effect a i ow now ttl d = (res, d')"
  defines "key \<equiv> idempotency_key (amb_sha a) i"
  obtains
    (fresh) t rid where "get_effect_claim key d = None" "t_claims d' = t_claims d @ [new_claim key i ow t ttl rid]"
      "res = Ret \<lparr>ec_acquired = True, ec_status = claim_status_value CLAIMED, ec_fencing_token = 1, ec_owner_id = ow\<rparr>"
  | (retried) r t where "get_effect_claim key d = Some r" "cl_status r = claim_status_value FAILED_RETRYABLE"
      "t_claims d' = update_where (\<lambda>r. cl_idempotency_key r = key) (\<lambda>_. reclaimed r ow t ttl) (t_claims d)"
      "res = Ret \<lparr>ec_acquired = True, ec_status = claim_status_value CLAIMED,
        ec_fencing_token = cl_fencing_token r + 1, ec_owner_id = ow\<rparr>"
  | (rejected) r where "get_effect_claim key d = Some r" "cl_status r \<noteq> claim_status_value FAILED_RETRYABLE"
      "t_claims d' = t_claims d" "t_events d' = t_events d"
      "res = Ret \<lparr>ec_acquired = False, ec_status = existing_claim_outcome (cl_status r),
        ec_fencing_token = cl_fencing_token r, ec_owner_id = cl_owner_id r\<rparr>"
proof -
  obtain t n where t: "time_or_now a now d = (Ret t, d\<lparr>tick := n\<rparr>)" using time_or_now_run by blast
  define rid where "rid = next_id (map cl_id (t_claims d))"
  let ?d1 = "d\<lparr>tick := n\<rparr>"
  note run = run [unfolded claim_effect_def Let_def, folded key_def, unfolded bnd_run(1) [of "time_or_now a now", OF t] bnd_gets]
  show thesis
  proof (cases "get_effect_claim key d")
    case None
    let ?r = "new_claim key i ow t ttl rid"
    have ins: "insert_claim ?r ?d1 = (True, ?d1\<lparr>t_claims := t_claims d @ [?r]\<rparr>)"
      using None by (simp add: insert_claim_def)
    have got: "select_first (\<lambda>r. cl_idempotency_key r = key) (t_claims d @ [?r]) = Some ?r"
      using None by (simp add: get_effect_claim_def select_first_append)
    have "res = Ret \<lparr>ec_acquired = True, ec_status = claim_status_value CLAIMED, ec_fencing_token = 1, ec_owner_id = ow\<rparr>
       \<and> t_claims d' = t_claims d @ [?r]"
      using run ins got
      by (auto simp: rid_def [symmetric] bnd_def andthen_def
          record_event_run split: if_splits)
    then show thesis using fresh None by blast
  next
    case (Some r)
    then have rk: "cl_idempotency_key r = key" using get_effect_claim_SomeD by blast
    let ?n = "new_claim key i ow t ttl rid"
    have ins: "insert_claim ?n ?d1 = (False, ?d1)"
      using Some by (simp add: insert_claim_def)
    show thesis
    proof (cases "cl_status r = claim_status_value FAILED_RETRYABLE")
      case True
      let ?rows = "update_where (\<lambda>r. cl_idempotency_key r = key) (\<lambda>_. reclaimed r ow t ttl) (t_claims d)"
      have u1: "claims_unique ?d1" using u by (simp add: claims_unique_def)
      have rec: "reclaim key r ow t ttl ?d1 = (Ret True, ?d1\<lparr>t_claims := ?rows\<rparr>)"
        unfolding reclaim_def reclaimed_def using update_claims_hit [OF u1, of key r] Some True by simp
      have got: "select_first (\<lambda>r. cl_idempotency_key r = key) ?rows = Some (reclaimed r ow t ttl)"
        using Some rk by (simp add: select_first_replaced get_effect_claim_def)
      have "res = Ret \<lparr>ec_acquired = True, ec_status = claim_status_value CLAIMED,
          ec_fencing_token = cl_fencing_token r + 1, ec_owner_id = ow\<rparr> \<and> t_claims d' = ?rows"
        using run ins got Some True
        by (auto simp: rid_def [symmetric] bnd_def andthen_def rec
            record_event_run split: if_splits)
      then show thesis using retried Some True by metis
    next
      case False
      have "res = Ret \<lparr>ec_acquired = False, ec_status = existing_claim_outcome (cl_status r),
          ec_fencing_token = cl_fencing_token r, ec_owner_id = cl_owner_id r\<rparr> \<and> d' = ?d1"
        using run ins Some False
        by (auto simp: rid_def [symmetric] bnd_def andthen_def)
      then show thesis using rejected Some False by simp
    qed
  qed
qed

definition moved_claim :: "claim_status \<Rightarrow> int \<Rightarrow> claim_row \<Rightarrow> claim_row" where
  "moved_claim to_status t r =
     r\<lparr>cl_status := claim_status_value to_status, cl_updated_at := t, cl_heartbeat_at := t\<rparr>"

lemma moved_claim_sel [simp]:
  "cl_idempotency_key (moved_claim s t r) = cl_idempotency_key r" "cl_owner_id (moved_claim s t r) = cl_owner_id r"
  "cl_fencing_token (moved_claim s t r) = cl_fencing_token r" "cl_status (moved_claim s t r) = claim_status_value s"
  "cl_case_id (moved_claim s t r) = cl_case_id r"
  by (simp_all add: moved_claim_def)

definition may_move :: "string \<Rightarrow> nat \<Rightarrow> claim_status list \<Rightarrow> claim_row \<Rightarrow> bool" where
  "may_move owner_id token from_statuses r \<longleftrightarrow>
     cl_owner_id r = owner_id \<and> cl_fencing_token r = token \<and>
     cl_status r \<in> set (map claim_status_value from_statuses)"

lemma transition_cases:
  assumes u: "claims_unique d" and run: "transition_effect_claim a key ow tok froms to now d = (res, d')"
  obtains
    (moved) r t where "get_effect_claim key d = Some r" "may_move ow tok froms r"
      "t_claims d' = update_where (\<lambda>r. cl_idempotency_key r = key) (\<lambda>_. moved_claim to t r) (t_claims d)"
      "t_cases d' = t_cases d"
      "res = (if get_case (cl_case_id r) d = None then Raise integrity_error else Ret True)"
  | (refused) "\<And>r. get_effect_claim key d = Some r \<Longrightarrow> \<not> may_move ow tok froms r"
      "t_claims d' = t_claims d" "t_events d' = t_events d" "t_cases d' = t_cases d" "res = Ret False"
proof -
  obtain t n where t: "time_or_now a now d = (Ret t, d\<lparr>tick := n\<rparr>)" using time_or_now_run by blast
  let ?d1 = "d\<lparr>tick := n\<rparr>"
  have u1: "claims_unique ?d1" using u by (simp add: claims_unique_def)
  note run = run [unfolded transition_effect_claim_def, unfolded bnd_run(1) [of "time_or_now a now", OF t],
      folded moved_claim_def may_move_def]
  show thesis
  proof (cases "\<exists>r. get_effect_claim key d = Some r \<and> may_move ow tok froms r")
    case True
    then obtain r where r: "get_effect_claim key d = Some r" "may_move ow tok froms r" by blast
    then have rk: "cl_idempotency_key r = key" using get_effect_claim_SomeD by blast
    let ?rows = "update_where (\<lambda>r. cl_idempotency_key r = key) (\<lambda>_. moved_claim to t r) (t_claims d)"
    have up: "update_claims (\<lambda>r. cl_idempotency_key r = key \<and> may_move ow tok froms r) (moved_claim to t) ?d1
        = (Ret True, ?d1\<lparr>t_claims := ?rows\<rparr>)"
      using update_claims_hit [OF u1, of key r "may_move ow tok froms"] r by simp
    have got: "select_first (\<lambda>r. cl_idempotency_key r = key) ?rows = Some (moved_claim to t r)"
      using r rk by (simp add: select_first_replaced get_effect_claim_def)
    have eq: "(\<lambda>r. r\<lparr>cl_status := claim_status_value to, cl_updated_at := t, cl_heartbeat_at := t\<rparr>) = moved_claim to t"
      by (rule ext) (simp add: moved_claim_def)
    have "res = (if get_case (cl_case_id r) d = None then Raise integrity_error else Ret True) \<and> t_claims d' = ?rows \<and> t_cases d' = t_cases d"
      using run [unfolded eq] got r
      by (auto simp: bnd_def andthen_def up record_event_run get_case_def split: if_splits)
    then show thesis using moved r by metis
  next
    case False
    then have miss: "\<And>r. get_effect_claim key d = Some r \<Longrightarrow> \<not> may_move ow tok froms r" by blast
    then have "update_claims (\<lambda>r. cl_idempotency_key r = key \<and> may_move ow tok froms r) f ?d1 = (Ret False, ?d1)" for f
      by (intro update_claims_miss [OF u1]) simp
    then have "res = Ret False \<and> d' = ?d1" using run by (simp add: bnd_def)
    then show thesis using refused miss by simp
  qed
qed

section \<open>Steps of the claim table\<close>

text \<open>
  The claim table changes only by an admission, a transition, or not at all; the
  last rule covers every operation on the other tables and commits of other sessions.
\<close>

inductive claim_step :: "ambient \<Rightarrow> db \<Rightarrow> db \<Rightarrow> bool" for a where
  admit: "claim_effect a i ow now ttl d = (res, d') \<Longrightarrow> claim_step a d d'"
| move: "transition_effect_claim a key ow tok froms to now d = (res, d') \<Longrightarrow> claim_step a d d'"
| elsewhere: "t_claims d' = t_claims d \<Longrightarrow> claim_step a d d'"

inductive_cases claim_stepE: "claim_step a d d'"

definition claim_token :: "string \<Rightarrow> db \<Rightarrow> nat" where
  "claim_token key d = (case get_effect_claim key d of None \<Rightarrow> 0 | Some r \<Rightarrow> cl_fencing_token r)"

definition claim_owner :: "string \<Rightarrow> db \<Rightarrow> string option" where
  "claim_owner key d = map_option cl_owner_id (get_effect_claim key d)"

text \<open>The unique column and the range of the token column.\<close>

definition claims_ok :: "db \<Rightarrow> bool" where
  "claims_ok d \<longleftrightarrow> claims_unique d \<and> (\<forall>r \<in> set (t_claims d). 0 < cl_fencing_token r)"

text \<open>
  How one step changes the row of one key: it stays, appears with token 1, keeps
  owner and token while its status moves, or is retried by a new owner under the
  next token, which needs the status \<open>FAILED_RETRYABLE\<close>.
\<close>

definition row_moves :: "claim_row option \<Rightarrow> claim_row option \<Rightarrow> bool" where
  "row_moves before after \<longleftrightarrow> after = before
     \<or> (before = None \<and> (\<exists>r. after = Some r \<and> cl_fencing_token r = 1 \<and> cl_status r = claim_status_value CLAIMED))
     \<or> (\<exists>r s. before = Some r \<and> after = Some s \<and> cl_owner_id s = cl_owner_id r \<and> cl_fencing_token s = cl_fencing_token r)
     \<or> (\<exists>r s. before = Some r \<and> after = Some s \<and> cl_status r = claim_status_value FAILED_RETRYABLE \<and>
          cl_status s = claim_status_value CLAIMED \<and> cl_fencing_token s = cl_fencing_token r + 1)"

lemma claims_ok_update:
  assumes "claims_ok d" "cl_idempotency_key s = key" "0 < cl_fencing_token s"
    and "t_claims d' = update_where (\<lambda>r. cl_idempotency_key r = key) (\<lambda>_. s) (t_claims d)"
  shows "claims_ok d'"
  using assms by (auto simp: claims_ok_def claims_unique_def set_update_where intro: unique_on_update_where)

lemma claim_step_row:
  assumes ok: "claims_ok d" and step: "claim_step a d d'"
  shows "claims_ok d' \<and> row_moves (get_effect_claim k d) (get_effect_claim k d')"
  using step
proof cases
  case (admit i ow now ttl res)
  have u: "claims_unique d" using ok by (simp add: claims_ok_def)
  let ?key = "idempotency_key (amb_sha a) i"
  show ?thesis
  proof (rule claim_effect_cases [OF u admit])
    fix t rid
    assume *: "get_effect_claim ?key d = None" "t_claims d' = t_claims d @ [new_claim ?key i ow t ttl rid]"
    then have "claims_ok d'"
      using ok by (auto simp: claims_ok_def claims_unique_def get_effect_claim_def select_first_None intro!: unique_on_snoc)
    moreover have "get_effect_claim k d' = (if k = ?key then Some (new_claim ?key i ow t ttl rid) else get_effect_claim k d)"
      using * by (auto simp: get_effect_claim_def select_first_append split: option.splits)
    ultimately show ?thesis using * by (simp add: row_moves_def)
  next
    fix r t
    assume *: "get_effect_claim ?key d = Some r" "cl_status r = claim_status_value FAILED_RETRYABLE"
      "t_claims d' = update_where (\<lambda>r. cl_idempotency_key r = ?key) (\<lambda>_. reclaimed r ow t ttl) (t_claims d)"
    have rk: "cl_idempotency_key r = ?key" using get_effect_claim_SomeD [OF *(1)] by simp
    then have "claims_ok d'" by (intro claims_ok_update [OF ok _ _ *(3)]) simp_all
    moreover have "get_effect_claim k d' = (if k = ?key then Some (reclaimed r ow t ttl) else get_effect_claim k d)"
      using *(1,3) rk by (simp add: get_effect_claim_def select_first_replaced)
    ultimately show ?thesis using * by (simp add: row_moves_def)
  next
    assume "t_claims d' = t_claims d"
    then show ?thesis using ok by (simp add: claims_ok_def claims_unique_def get_effect_claim_def row_moves_def)
  qed
next
  case (move key ow tok froms to now res)
  have u: "claims_unique d" using ok by (simp add: claims_ok_def)
  show ?thesis
  proof (rule transition_cases [OF u move])
    fix r t
    assume *: "get_effect_claim key d = Some r"
      "t_claims d' = update_where (\<lambda>r. cl_idempotency_key r = key) (\<lambda>_. moved_claim to t r) (t_claims d)"
    have rk: "cl_idempotency_key r = key" "r \<in> set (t_claims d)" using get_effect_claim_SomeD [OF *(1)] by simp_all
    then have "0 < cl_fencing_token r" using ok by (simp add: claims_ok_def)
    then have "claims_ok d'" using rk by (intro claims_ok_update [OF ok _ _ *(2)]) simp_all
    moreover have "get_effect_claim k d' = (if k = key then Some (moved_claim to t r) else get_effect_claim k d)"
      using * rk by (simp add: get_effect_claim_def select_first_replaced)
    ultimately show ?thesis using * by (simp add: row_moves_def)
  next
    assume "t_claims d' = t_claims d"
    then show ?thesis using ok by (simp add: claims_ok_def claims_unique_def get_effect_claim_def row_moves_def)
  qed
next
  case elsewhere
  then show ?thesis using ok by (simp add: claims_ok_def claims_unique_def get_effect_claim_def row_moves_def)
qed

section \<open>Claims are fenced\<close>

definition guarded_claim_step :: "ambient \<Rightarrow> db \<Rightarrow> db \<Rightarrow> bool" where
  "guarded_claim_step a d d' \<longleftrightarrow> claims_ok d \<and> claim_step a d d'"

definition claim_retryable :: "string \<Rightarrow> db \<Rightarrow> bool" where
  "claim_retryable key d = (\<exists>r. get_effect_claim key d = Some r \<and> cl_status r = claim_status_value FAILED_RETRYABLE)"

lemma claim_token_pos: "claims_ok d \<Longrightarrow> get_effect_claim key d = Some r \<Longrightarrow> 0 < cl_fencing_token r"
  using get_effect_claim_SomeD by (auto simp: claims_ok_def)

interpretation claim_fence: admission "\<lambda>d d'. claims_ok d' \<and> guarded_claim_step a d d'" "claim_token key"
  "claim_owner key" "\<lambda>ow n d. claims_ok d \<and> validate_effect_token key ow n d" "claim_retryable key"
  for a key
proof unfold_locales
  fix s t
  assume st: "claims_ok t \<and> guarded_claim_step a s t"
  then have row: "row_moves (get_effect_claim key s) (get_effect_claim key t)" and ok: "claims_ok s"
    using claim_step_row unfolding guarded_claim_step_def by blast+
  show "claim_token key s \<le> claim_token key t"
    using row by (auto simp: row_moves_def claim_token_def)
  show "claim_token key t = claim_token key s \<Longrightarrow> 0 < claim_token key s \<Longrightarrow> claim_owner key t = claim_owner key s"
    using row by (auto simp: row_moves_def claim_token_def claim_owner_def)
  show "claim_token key s < claim_token key t \<Longrightarrow> claim_token key s = 0 \<or> claim_retryable key s"
    using row by (auto simp: row_moves_def claim_token_def claim_retryable_def)
next
  fix ow n s
  assume "claims_ok s \<and> validate_effect_token key ow n s"
  then show "claim_owner key s = Some ow \<and> claim_token key s = n \<and> 0 < n"
    using claim_token_pos by (auto simp: validate_effect_token_def claim_owner_def claim_token_def split: option.splits)
qed

lemma claims_ok_run: "(claim_step a)\<^sup>*\<^sup>* d d' \<Longrightarrow> claims_ok d \<Longrightarrow> claims_ok d'"
  by (induction rule: rtranclp_induct) (use claim_step_row in blast)+

lemma claim_run_guarded:
  "(claim_step a)\<^sup>*\<^sup>* d d' \<Longrightarrow> claims_ok d \<Longrightarrow> (\<lambda>d d'. claims_ok d' \<and> guarded_claim_step a d d')\<^sup>*\<^sup>* d d'"
proof (induction rule: rtranclp_induct)
  case (step y z)
  have y: "claims_ok y" using claims_ok_run [OF step.hyps(1) step.prems] .
  then have "claims_ok z \<and> guarded_claim_step a y z"
    using claim_step_row [OF y step.hyps(2)] step.hyps(2) by (simp add: guarded_claim_step_def)
  then show ?case using step.IH [OF step.prems] by (rule rtranclp.rtrancl_into_rtrancl [rotated])
qed simp

lemma claim_run_unreleased:
  "(\<lambda>d d'. claim_step a d d' \<and> \<not> claim_retryable key d)\<^sup>*\<^sup>* d d' \<Longrightarrow> claims_ok d \<Longrightarrow>
   claims_ok d' \<and> (\<lambda>d d'. (claims_ok d' \<and> guarded_claim_step a d d') \<and> \<not> claim_retryable key d)\<^sup>*\<^sup>* d d'"
proof (induction rule: rtranclp_induct)
  case (step y z)
  then have y: "claims_ok y" and r: "(\<lambda>d d'. (claims_ok d' \<and> guarded_claim_step a d d') \<and> \<not> claim_retryable key d)\<^sup>*\<^sup>* d y"
    and st: "claim_step a y z" "\<not> claim_retryable key y" by auto
  have z: "claims_ok z" using claim_step_row [OF y st(1)] by blast
  then show ?case using rtranclp.rtrancl_into_rtrancl [OF r] st y by (simp add: guarded_claim_step_def)
qed simp

text \<open>
  an effect is admitted exactly when it has no claim yet or its claim failed
  retryably.  The first admission creates the claim under token 1, a retry passes it
  to the new owner under the next token; in every other state the attempt is refused,
  the answer says whether the effect is applied or only claimed, and neither the
  claims nor the events change.
\<close>

theorem claim_effect_admits_iff:
  assumes "claims_ok d" and "claim_effect a i ow now ttl d = (res, d')"
  shows "case get_effect_claim (idempotency_key (amb_sha a) i) d of
      None \<Rightarrow> res = Ret \<lparr>ec_acquired = True, ec_status = claim_status_value CLAIMED, ec_fencing_token = 1, ec_owner_id = ow\<rparr> \<and>
        claim_owner (idempotency_key (amb_sha a) i) d' = Some ow \<and> claim_token (idempotency_key (amb_sha a) i) d' = 1
    | Some r \<Rightarrow>
        if cl_status r = claim_status_value FAILED_RETRYABLE
        then res = Ret \<lparr>ec_acquired = True, ec_status = claim_status_value CLAIMED,
               ec_fencing_token = cl_fencing_token r + 1, ec_owner_id = ow\<rparr> \<and>
             claim_owner (idempotency_key (amb_sha a) i) d' = Some ow \<and>
             claim_token (idempotency_key (amb_sha a) i) d' = cl_fencing_token r + 1
        else res = Ret \<lparr>ec_acquired = False,
               ec_status = (if cl_status r = claim_status_value APPLIED then code_value ALREADY_APPLIED
                            else code_value ALREADY_CLAIMED),
               ec_fencing_token = cl_fencing_token r, ec_owner_id = cl_owner_id r\<rparr> \<and>
             t_claims d' = t_claims d \<and> t_events d' = t_events d"
proof -
  let ?key = "idempotency_key (amb_sha a) i"
  have u: "claims_unique d" using assms(1) by (simp add: claims_ok_def)
  show ?thesis
  proof (rule claim_effect_cases [OF u assms(2)])
    fix t rid
    assume *: "get_effect_claim ?key d = None" "t_claims d' = t_claims d @ [new_claim ?key i ow t ttl rid]"
    then have "get_effect_claim ?key d' = Some (new_claim ?key i ow t ttl rid)"
      by (simp add: get_effect_claim_def select_first_append)
    moreover assume "res = Ret \<lparr>ec_acquired = True, ec_status = claim_status_value CLAIMED, ec_fencing_token = 1, ec_owner_id = ow\<rparr>"
    ultimately show ?thesis using * by (simp add: claim_owner_def claim_token_def)
  next
    fix r t
    assume *: "get_effect_claim ?key d = Some r" "cl_status r = claim_status_value FAILED_RETRYABLE"
      "t_claims d' = update_where (\<lambda>r. cl_idempotency_key r = ?key) (\<lambda>_. reclaimed r ow t ttl) (t_claims d)"
      "res = Ret \<lparr>ec_acquired = True, ec_status = claim_status_value CLAIMED,
        ec_fencing_token = cl_fencing_token r + 1, ec_owner_id = ow\<rparr>"
    then have "get_effect_claim ?key d' = Some (reclaimed r ow t ttl)"
      using get_effect_claim_SomeD [OF *(1)] by (simp add: get_effect_claim_def select_first_replaced)
    then show ?thesis using * by (simp add: claim_owner_def claim_token_def)
  qed (simp add: existing_claim_outcome_def)
qed

text \<open>
  a claim transition goes through exactly for the current owner, under the
  current token, from a status the caller lists; it then changes that claim's
  status and times and no other claim, and otherwise it changes no claim and no event.
\<close>

theorem claim_transition_iff:
  assumes "claims_ok d" and "transition_effect_claim a key ow tok froms to now d = (res, d')"
    and "get_effect_claim key d = Some r" and "get_case (cl_case_id r) d \<noteq> None"
  shows "(res = Ret True \<longleftrightarrow> cl_owner_id r = ow \<and> cl_fencing_token r = tok \<and>
            cl_status r \<in> claim_status_value ` set froms)
    \<and> (res = Ret True \<longrightarrow> (\<exists>t. get_effect_claim key d' = Some (moved_claim to t r)))
    \<and> (res \<noteq> Ret True \<longrightarrow> res = Ret False \<and> t_claims d' = t_claims d \<and> t_events d' = t_events d)
    \<and> (\<forall>k. k \<noteq> key \<longrightarrow> get_effect_claim k d' = get_effect_claim k d)"
proof -
  have u: "claims_unique d" using assms(1) by (simp add: claims_ok_def)
  show ?thesis
  proof (rule transition_cases [OF u assms(2)])
    fix s t
    assume *: "get_effect_claim key d = Some s" "may_move ow tok froms s"
      "t_claims d' = update_where (\<lambda>r. cl_idempotency_key r = key) (\<lambda>_. moved_claim to t s) (t_claims d)"
      "res = (if get_case (cl_case_id s) d = None then Raise integrity_error else Ret True)"
    then have r: "s = r" "cl_idempotency_key r = key" using assms(3) get_effect_claim_SomeD by auto
    then have "get_effect_claim k d' = (if k = key then Some (moved_claim to t r) else get_effect_claim k d)" for k
      using * by (simp add: get_effect_claim_def select_first_replaced)
    then show ?thesis using * r assms(4) by (auto simp: may_move_def)
  next
    assume "\<And>r. get_effect_claim key d = Some r \<Longrightarrow> \<not> may_move ow tok froms r" "t_claims d' = t_claims d"
      "t_events d' = t_events d" "res = Ret False"
    then show ?thesis using assms(3) by (auto simp: may_move_def get_effect_claim_def)
  qed
qed

text \<open>
  C17: once another worker holds the claim of an effect, the worker that held it
  before carries a smaller fencing token, and neither its token check nor any
  transition it attempts is accepted in any later state.
\<close>

theorem superseded_worker_is_fenced:
  assumes "claims_ok d" and "validate_effect_token key w1 n d"
    and "(claim_step a)\<^sup>*\<^sup>* d e" and "validate_effect_token key w2 m e" and "w1 \<noteq> w2"
    and "(claim_step a)\<^sup>*\<^sup>* e f"
  shows "n < m \<and> \<not> validate_effect_token key w1 n f \<and>
    (\<forall>froms to now res g. transition_effect_claim a key w1 n froms to now f = (res, g) \<longrightarrow>
       res = Ret False \<and> t_claims g = t_claims f)"
proof -
  have e: "claims_ok e" using claims_ok_run [OF assms(3,1)] .
  have f: "claims_ok f" using claims_ok_run [OF assms(6) e] .
  have nm: "n < m" and nv: "\<not> (claims_ok f \<and> validate_effect_token key w1 n f)"
    using claim_fence.superseded_owner_refused [OF conjI [OF assms(1,2)] claim_run_guarded [OF assms(3,1)]
        conjI [OF e assms(4)] assms(5) claim_run_guarded [OF assms(6) e]] by simp_all
  have "claim_token key e = m"
    using assms(4) by (auto simp: claim_token_def validate_effect_token_def split: option.splits)
  then have "m \<le> claim_token key f"
    using claim_fence.run_token_mono [OF claim_run_guarded [OF assms(6) e]] by blast
  with nm have tok: "get_effect_claim key f = Some r \<Longrightarrow> cl_fencing_token r \<noteq> n" for r
    by (auto simp: claim_token_def)
  have "res = Ret False \<and> t_claims g = t_claims f"
    if run: "transition_effect_claim a key w1 n froms to now f = (res, g)" for froms to now res g
  proof -
    have u: "claims_unique f" using f by (simp add: claims_ok_def)
    show ?thesis by (rule transition_cases [OF u run]) (use tok in \<open>auto simp: may_move_def\<close>)
  qed
  with nm nv f show ?thesis by blast
qed

text \<open>
  no second worker is admitted to an effect while its claim has not failed
  retryably: along any run in which the claim never has that status, the worker
  that holds it is the only one whose token is accepted.
\<close>

theorem one_worker_per_effect:
  assumes "claims_ok d" and "validate_effect_token key w1 n d"
    and "(\<lambda>d d'. claim_step a d d' \<and> \<not> claim_retryable key d)\<^sup>*\<^sup>* d e"
    and "validate_effect_token key w2 m e"
  shows "w2 = w1 \<and> m = n"
  using claim_fence.sole_admission [OF conjI [OF assms(1,2)] conjunct2 [OF claim_run_unreleased [OF assms(3,1)]]
      conjI [OF conjunct1 [OF claim_run_unreleased [OF assms(3,1)]] assms(4)]] .

section \<open>A concrete run\<close>

text \<open>Worker \<open>W1\<close> holds a claim, lets it fail retryably, and \<open>W2\<close> is admitted.\<close>

definition sample_key :: string where
  "sample_key = idempotency_key (amb_sha sample_ambient) sample_identity"

definition claimed_db :: db where
  "claimed_db = sample_db\<lparr>t_cases := [sample_case_row\<lparr>c_case_id := id_case_id sample_identity\<rparr>],
     t_claims := [new_claim sample_key sample_identity ''W1'' 0 300 1]\<rparr>"

definition released_db :: db where
  "released_db = snd (transition_effect_claim sample_ambient sample_key ''W1'' 1 [CLAIMED] FAILED_RETRYABLE (Some 0) claimed_db)"

definition retaken_db :: db where
  "retaken_db = snd (claim_effect sample_ambient sample_identity ''W2'' (Some 0) 300 released_db)"

lemma claimed_ok: "claims_ok claimed_db" "claims_ok sample_db"
  by (simp_all add: claims_ok_def claims_unique_def unique_on_def claimed_db_def sample_db_def empty_db_def)

lemma claimed_row: "get_effect_claim sample_key claimed_db = Some (new_claim sample_key sample_identity ''W1'' 0 300 1)"
  by (simp add: claimed_db_def get_effect_claim_def)

lemma claimed_case: "get_case (id_case_id sample_identity) claimed_db \<noteq> None"
  by (simp add: claimed_db_def get_case_def)

lemma released_row:
  "\<exists>t. get_effect_claim sample_key released_db =
     Some (moved_claim FAILED_RETRYABLE t (new_claim sample_key sample_identity ''W1'' 0 300 1))"
proof (rule transition_cases)
  show "claims_unique claimed_db" using claimed_ok by (simp add: claims_ok_def)
  show "transition_effect_claim sample_ambient sample_key ''W1'' 1 [CLAIMED] FAILED_RETRYABLE (Some 0) claimed_db
    = (fst (transition_effect_claim sample_ambient sample_key ''W1'' 1 [CLAIMED] FAILED_RETRYABLE (Some 0) claimed_db),
       snd (transition_effect_claim sample_ambient sample_key ''W1'' 1 [CLAIMED] FAILED_RETRYABLE (Some 0) claimed_db))"
    by simp
  fix r t
  assume "get_effect_claim sample_key claimed_db = Some r"
    "t_claims (snd (transition_effect_claim sample_ambient sample_key ''W1'' 1 [CLAIMED] FAILED_RETRYABLE (Some 0) claimed_db))
      = update_where (\<lambda>r. cl_idempotency_key r = sample_key) (\<lambda>_. moved_claim FAILED_RETRYABLE t r) (t_claims claimed_db)"
  then show ?thesis using claimed_row by (auto simp: released_db_def get_effect_claim_def select_first_replaced)
next
  assume "\<And>r. get_effect_claim sample_key claimed_db = Some r \<Longrightarrow> \<not> may_move ''W1'' 1 [CLAIMED] r"
  then show ?thesis using claimed_row by (fastforce simp: may_move_def)
qed

lemma released_step: "claim_step sample_ambient claimed_db released_db"
  unfolding released_db_def by (rule claim_step.move [OF prod.collapse [symmetric]])

lemma released_ok: "claims_ok released_db"
  using claim_step_row [OF claimed_ok(1) released_step] by blast

lemma retaken_step: "claim_step sample_ambient released_db retaken_db"
  unfolding retaken_db_def by (rule claim_step.admit [OF prod.collapse [symmetric]])

lemma retaken_row: "\<exists>r. get_effect_claim sample_key retaken_db = Some r \<and> cl_owner_id r = ''W2'' \<and>
    cl_fencing_token r = 2 \<and> cl_status r = claim_status_value CLAIMED"
proof -
  obtain t where r: "get_effect_claim sample_key released_db =
      Some (moved_claim FAILED_RETRYABLE t (new_claim sample_key sample_identity ''W1'' 0 300 1))"
    using released_row by blast
  have u: "claims_unique released_db" using released_ok by (simp add: claims_ok_def)
  show ?thesis
  proof (rule claim_effect_cases [OF u])
    show "claim_effect sample_ambient sample_identity ''W2'' (Some 0) 300 released_db
      = (fst (claim_effect sample_ambient sample_identity ''W2'' (Some 0) 300 released_db),
         snd (claim_effect sample_ambient sample_identity ''W2'' (Some 0) 300 released_db))" by simp
    fix s t'
    assume *: "get_effect_claim (idempotency_key (amb_sha sample_ambient) sample_identity) released_db = Some s"
      "t_claims (snd (claim_effect sample_ambient sample_identity ''W2'' (Some 0) 300 released_db)) =
        update_where (\<lambda>r. cl_idempotency_key r = idempotency_key (amb_sha sample_ambient) sample_identity)
          (\<lambda>_. reclaimed s ''W2'' t' 300) (t_claims released_db)"
    then have s: "s = moved_claim FAILED_RETRYABLE t (new_claim sample_key sample_identity ''W1'' 0 300 1)"
      using r by (simp add: sample_key_def)
    then have "get_effect_claim sample_key retaken_db = Some (reclaimed s ''W2'' t' 300)"
      using r * by (simp add: retaken_db_def sample_key_def [symmetric] get_effect_claim_def select_first_replaced)
    then show ?thesis using s by simp
  qed (use r in \<open>auto simp: sample_key_def\<close>)
qed

theorem claim_effect_admits_iff_witness:
  "fst (claim_effect sample_ambient sample_identity ''W2'' (Some 0) 300 claimed_db)
    = Ret \<lparr>ec_acquired = False, ec_status = code_value ALREADY_CLAIMED, ec_fencing_token = 1, ec_owner_id = ''W1''\<rparr>"
  using claim_effect_admits_iff [OF claimed_ok(1) prod.collapse [symmetric], of sample_ambient sample_identity "''W2''" "Some 0" 300]
    claimed_row by (simp add: sample_key_def [symmetric])

theorem claim_transition_iff_witness:
  "fst (transition_effect_claim sample_ambient sample_key ''W1'' 1 [CLAIMED] APPLYING (Some 0) claimed_db) = Ret True \<and>
   fst (transition_effect_claim sample_ambient sample_key ''W1'' 2 [CLAIMED] APPLYING (Some 0) claimed_db) = Ret False"
  using claim_transition_iff [OF claimed_ok(1) prod.collapse [symmetric] claimed_row, of sample_ambient "''W1''" 1 "[CLAIMED]" APPLYING "Some 0"]
    claim_transition_iff [OF claimed_ok(1) prod.collapse [symmetric] claimed_row, of sample_ambient "''W1''" 2 "[CLAIMED]" APPLYING "Some 0"]
    claimed_case by simp

theorem superseded_worker_is_fenced_witness:
  "(1::nat) < 2 \<and> \<not> validate_effect_token sample_key ''W1'' 1 retaken_db"
proof -
  have "validate_effect_token sample_key ''W1'' 1 claimed_db" using claimed_row by (simp add: validate_effect_token_def)
  moreover have "(claim_step sample_ambient)\<^sup>*\<^sup>* claimed_db retaken_db"
    using released_step retaken_step by (meson converse_rtranclp_into_rtranclp rtranclp.rtrancl_refl)
  moreover have "validate_effect_token sample_key ''W2'' 2 retaken_db"
    using retaken_row by (auto simp: validate_effect_token_def)
  ultimately show ?thesis
    using superseded_worker_is_fenced [OF claimed_ok(1), of sample_key "''W1''" 1 sample_ambient retaken_db "''W2''" 2 retaken_db]
    by simp
qed

theorem one_worker_per_effect_witness:
  "\<not> validate_effect_token sample_key ''W2'' 2
     (snd (claim_effect sample_ambient sample_identity ''W2'' (Some 0) 300 claimed_db))"
proof
  let ?e = "snd (claim_effect sample_ambient sample_identity ''W2'' (Some 0) 300 claimed_db)"
  assume v: "validate_effect_token sample_key ''W2'' 2 ?e"
  have "claim_step sample_ambient claimed_db ?e" by (rule claim_step.admit [OF prod.collapse [symmetric]])
  then have "(\<lambda>d d'. claim_step sample_ambient d d' \<and> \<not> claim_retryable sample_key d)\<^sup>*\<^sup>* claimed_db ?e"
    using claimed_row by (intro r_into_rtranclp) (simp add: claim_retryable_def)
  moreover have "validate_effect_token sample_key ''W1'' 1 claimed_db" using claimed_row by (simp add: validate_effect_token_def)
  ultimately show False using one_worker_per_effect [OF claimed_ok(1) _ _ v] by fastforce
qed

end
