(* ===== verification/Obligations.thy ===== *)
theory Obligations
  imports Ledger
begin

text \<open>
  Deadlines and regulatory obligations of \<open>LedgerRepository\<close>
  (\<open>tandem/ledger/repository.py\<close>): creation, resolution and the overdue evaluation of
  deadlines, and the life cycle \<open>PLANNED\<close>, \<open>ACTIVE\<close>, \<open>SATISFIED\<close> of obligations.  A due
  date keeps its offset from UTC while the session holds the object; \<open>reload\<close> is
  what a later session reads from SQLite, whose \<open>DateTime\<close> columns store the wall
  clock only.
\<close>

section \<open>Deadlines\<close>

definition find_deadline :: "(deadline_row \<Rightarrow> bool) \<Rightarrow> string \<Rightarrow> string \<Rightarrow> db \<Rightarrow> deadline_row option" where
  "find_deadline P cid ty d =
     select_first (\<lambda>r. dl_case_id r = cid \<and> dl_deadline_type r = ty \<and> P r) (t_deadlines d)"

definition set_deadline :: "nat \<Rightarrow> (deadline_row \<Rightarrow> deadline_row) \<Rightarrow> db \<Rightarrow> db" where
  "set_deadline rid f d = d\<lparr>t_deadlines := update_where (\<lambda>r. dl_id r = rid) f (t_deadlines d)\<rparr>"

definition create_deadline :: "ambient \<Rightarrow> string \<Rightarrow> string \<Rightarrow> datetime \<Rightarrow> (db, deadline_row) prog" where
  "create_deadline a case_id deadline_type due_at =
     bnd (gets (find_deadline (\<lambda>_. True) case_id deadline_type)) (\<lambda>existing. case existing of
       Some r \<Rightarrow> ret r
     | None \<Rightarrow>
         bnd (gets (\<lambda>d. next_id (map dl_id (t_deadlines d)))) (\<lambda>rid.
           let r = \<lparr>dl_id = rid, dl_case_id = case_id, dl_deadline_type = deadline_type, dl_due_at = due_at,
                 dl_status = ''PENDING'', dl_resolved_at = None\<rparr>
           in andthen (require_case_row case_id) (
              andthen (change (\<lambda>d. d\<lparr>t_deadlines := t_deadlines d @ [r]\<rparr>)) (
              andthen (record_event a case_id ''DEADLINE_CREATED'' ''orchestrator'' ''AUTOMATION'' (Some
                [(''deadline_type'', VStr deadline_type), (''due_at'', VTime due_at),
                 (''status'', VStr ''PENDING'')])) (ret r)))))"

definition resolve_deadline :: "ambient \<Rightarrow> string \<Rightarrow> string \<Rightarrow> (db, deadline_row option) prog" where
  "resolve_deadline a case_id deadline_type =
     bnd (gets (find_deadline (\<lambda>r. dl_status r \<in> {''PENDING'', ''OVERDUE''}) case_id deadline_type)) (\<lambda>found.
     case found of
       None \<Rightarrow> ret None
     | Some r \<Rightarrow>
         bnd (utc_now a) (\<lambda>now.
           let r' = r\<lparr>dl_status := ''MET'', dl_resolved_at := Some now\<rparr>
           in andthen (change (set_deadline (dl_id r) (\<lambda>_. r'))) (
              andthen (record_event a case_id ''DEADLINE_RESOLVED'' ''orchestrator'' ''AUTOMATION'' (Some
                [(''deadline_type'', VStr deadline_type), (''status'', VStr ''MET''),
                 (''resolved_at'', VTime (utc now))])) (ret (Some r')))))"

definition get_deadlines_for_case :: "string \<Rightarrow> db \<Rightarrow> deadline_row list" where
  "get_deadlines_for_case cid d = filter (\<lambda>r. dl_case_id r = cid) (t_deadlines d)"

definition reference_time :: "ambient \<Rightarrow> datetime option \<Rightarrow> (db, datetime) prog" where
  "reference_time a now = (case now of Some t \<Rightarrow> ret t | None \<Rightarrow> bnd (utc_now a) (\<lambda>i. ret (utc i)))"

text \<open>The statuses computed from the dictionary of due dates, later entries of a type winning.\<close>

definition overdue_rows :: "datetime \<Rightarrow> deadline_row list \<Rightarrow> deadline_row list" where
  "overdue_rows reference pending =
     (let due = fold (\<lambda>r m. m(dl_deadline_type r \<mapsto> dl_due_at r)) pending Map.empty
      in filter (\<lambda>r. case due (dl_deadline_type r) of
           None \<Rightarrow> False
         | Some t \<Rightarrow> map_of (evaluate_deadlines [(dl_deadline_type r, t)] reference) (dl_deadline_type r)
             = Some ''OVERDUE'') pending)"

definition mark_overdue_deadlines :: "ambient \<Rightarrow> string \<Rightarrow> datetime option \<Rightarrow> (db, deadline_row list) prog" where
  "mark_overdue_deadlines a case_id now =
     bnd (reference_time a now) (\<lambda>reference.
     bnd (gets (\<lambda>d. filter (\<lambda>r. dl_case_id r = case_id \<and> dl_status r = ''PENDING'') (t_deadlines d))) (\<lambda>pending.
       if pending = [] then ret []
       else let overdue = overdue_rows reference pending
            in andthen (change (\<lambda>d. d\<lparr>t_deadlines := update_where (\<lambda>r. dl_id r \<in> set (map dl_id overdue))
                 (\<lambda>r. r\<lparr>dl_status := ''OVERDUE''\<rparr>) (t_deadlines d)\<rparr>)) (
               andthen (for_each (\<lambda>r. andthen (record_event a case_id ''DEADLINE_OVERDUE'' ''orchestrator'' ''AUTOMATION''
                 (Some [(''deadline_type'', VStr (dl_deadline_type r)), (''due_at'', VTime (dl_due_at r))])) (ret ())) overdue)
               (ret (map (\<lambda>r. r\<lparr>dl_status := ''OVERDUE''\<rparr>) overdue)))))"

section \<open>Obligations\<close>

definition find_obligation :: "string \<Rightarrow> string \<Rightarrow> db \<Rightarrow> obligation_row option" where
  "find_obligation cid ty d =
     select_first (\<lambda>r. ob_case_id r = cid \<and> ob_obligation_type r = ty) (t_obligations d)"

definition set_obligation :: "nat \<Rightarrow> (obligation_row \<Rightarrow> obligation_row) \<Rightarrow> db \<Rightarrow> db" where
  "set_obligation rid f d = d\<lparr>t_obligations := update_where (\<lambda>r. ob_id r = rid) f (t_obligations d)\<rparr>"

definition create_obligation :: "ambient \<Rightarrow> string \<Rightarrow> string \<Rightarrow> datetime \<Rightarrow> (db, obligation_row) prog" where
  "create_obligation a case_id obligation_type due_at =
     bnd (gets (find_obligation case_id obligation_type)) (\<lambda>existing. case existing of
       Some r \<Rightarrow> ret r
     | None \<Rightarrow>
         bnd (utc_now a) (\<lambda>now.
         bnd (gets (\<lambda>d. next_id (map ob_id (t_obligations d)))) (\<lambda>rid.
           let r = \<lparr>ob_id = rid, ob_case_id = case_id, ob_obligation_type = obligation_type, ob_due_at = due_at,
                 ob_status = ''PLANNED'', ob_created_at = now, ob_activated_at = None, ob_satisfied_at = None\<rparr>
           in andthen (require_case_row case_id) (
              andthen (change (\<lambda>d. d\<lparr>t_obligations := t_obligations d @ [r]\<rparr>)) (
              andthen (record_event a case_id ''OBLIGATION_CREATED'' ''orchestrator'' ''AUTOMATION'' (Some
                [(''obligation_type'', VStr obligation_type), (''due_at'', VTime due_at),
                 (''status'', VStr ''PLANNED''), (''created_at'', VTime (utc now))])) (ret r))))))"

definition get_obligations_for_case :: "string \<Rightarrow> db \<Rightarrow> obligation_row list" where
  "get_obligations_for_case cid d = sort_key ob_id (filter (\<lambda>r. ob_case_id r = cid) (t_obligations d))"

definition get_obligation :: "string \<Rightarrow> string \<Rightarrow> (db, obligation_row) prog" where
  "get_obligation case_id obligation_type =
     bnd (gets (find_obligation case_id obligation_type)) (\<lambda>found. case found of
       None \<Rightarrow> fail (ValueError (fstr [''Missing obligation '', obligation_type, '' for case '', case_id]))
     | Some r \<Rightarrow> ret r)"

definition activate_obligation :: "ambient \<Rightarrow> string \<Rightarrow> string \<Rightarrow> (db, obligation_row) prog" where
  "activate_obligation a case_id obligation_type =
     bnd (get_obligation case_id obligation_type) (\<lambda>r.
       if ob_status r = ''PLANNED''
       then bnd (utc_now a) (\<lambda>now.
              let r' = r\<lparr>ob_status := ''ACTIVE'', ob_activated_at := Some now\<rparr>
              in andthen (change (set_obligation (ob_id r) (\<lambda>_. r'))) (
                 andthen (record_event a case_id ''OBLIGATION_ACTIVATED'' ''orchestrator'' ''AUTOMATION'' (Some
                   [(''obligation_type'', VStr obligation_type), (''status'', VStr ''ACTIVE''),
                    (''activated_at'', VTime (utc now))])) (ret r')))
       else ret r)"

definition satisfy_obligation :: "ambient \<Rightarrow> string \<Rightarrow> string \<Rightarrow> (db, obligation_row) prog" where
  "satisfy_obligation a case_id obligation_type =
     bnd (get_obligation case_id obligation_type) (\<lambda>r.
       if ob_status r = ''SATISFIED'' then ret r
       else bnd (utc_now a) (\<lambda>now.
              let r' = r\<lparr>ob_status := ''SATISFIED'', ob_satisfied_at := Some now\<rparr>
              in andthen (change (set_obligation (ob_id r) (\<lambda>_. r'))) (
                 andthen (record_event a case_id ''OBLIGATION_SATISFIED'' ''orchestrator'' ''AUTOMATION'' (Some
                   [(''obligation_type'', VStr obligation_type), (''status'', VStr ''SATISFIED''),
                    (''satisfied_at'', VTime (utc now))])) (ret r'))))"

text \<open>What a new session reads: the offset of a stored due date is gone.\<close>

definition stored :: "datetime \<Rightarrow> datetime" where
  "stored t = DT (wall t) None"

definition reload :: "db \<Rightarrow> db" where
  "reload d = d\<lparr>t_deadlines := map (\<lambda>r. r\<lparr>dl_due_at := stored (dl_due_at r)\<rparr>) (t_deadlines d),
     t_obligations := map (\<lambda>r. r\<lparr>ob_due_at := stored (ob_due_at r)\<rparr>) (t_obligations d)\<rparr>"

section \<open>The event chain is kept\<close>

lemma keeps_reference_time [keeps_rules]: "keeps (chain_inv sha) (reference_time a now)"
  unfolding reference_time_def by (intro keeps_rules)

lemma keeps_deadlines [keeps_rules]:
  "keeps (chain_inv (amb_sha a)) (create_deadline a c ty due)"
  "keeps (chain_inv (amb_sha a)) (resolve_deadline a c ty)"
  "keeps (chain_inv (amb_sha a)) (mark_overdue_deadlines a c now)"
  unfolding create_deadline_def resolve_deadline_def mark_overdue_deadlines_def Let_def require_case_row_def
  by (intro keeps_rules; simp add: set_deadline_def)+

lemma keeps_obligations [keeps_rules]:
  "keeps (chain_inv (amb_sha a)) (create_obligation a c ty due)"
  "keeps (chain_inv (amb_sha a)) (activate_obligation a c ty)"
  "keeps (chain_inv (amb_sha a)) (satisfy_obligation a c ty)"
  unfolding create_obligation_def activate_obligation_def satisfy_obligation_def get_obligation_def Let_def
    require_case_row_def
  by (intro keeps_rules; simp add: set_obligation_def)+

section \<open>Life cycles\<close>

definition deadline_rank :: "string \<Rightarrow> nat" where
  "deadline_rank s = (if s = ''PENDING'' then 0 else if s = ''OVERDUE'' then 1 else 2)"

definition obligation_rank :: "string \<Rightarrow> nat" where
  "obligation_rank s = (if s = ''PLANNED'' then 0 else if s = ''ACTIVE'' then 1 else 2)"

text \<open>A later version of a row: the same commitment, no earlier in its life.\<close>

definition deadline_evolves :: "deadline_row \<Rightarrow> deadline_row \<Rightarrow> bool" where
  "deadline_evolves r s \<longleftrightarrow> dl_id s = dl_id r \<and> dl_case_id s = dl_case_id r \<and> dl_deadline_type s = dl_deadline_type r \<and>
     dl_due_at s = dl_due_at r \<and> deadline_rank (dl_status r) \<le> deadline_rank (dl_status s) \<and>
     (dl_status r = ''MET'' \<longrightarrow> s = r)"

definition obligation_evolves :: "obligation_row \<Rightarrow> obligation_row \<Rightarrow> bool" where
  "obligation_evolves r s \<longleftrightarrow> ob_id s = ob_id r \<and> ob_case_id s = ob_case_id r \<and>
     ob_obligation_type s = ob_obligation_type r \<and> ob_due_at s = ob_due_at r \<and> ob_created_at s = ob_created_at r \<and>
     obligation_rank (ob_status r) \<le> obligation_rank (ob_status s) \<and> (ob_status r = ''SATISFIED'' \<longrightarrow> s = r)"

definition grown :: "('r \<Rightarrow> 'r \<Rightarrow> bool) \<Rightarrow> 'r list \<Rightarrow> 'r list \<Rightarrow> bool" where
  "grown R rows rows' \<longleftrightarrow> (\<exists>old new. rows' = old @ new \<and> list_all2 R rows old)"

lemma grown_refl: "(\<And>r. R r r) \<Longrightarrow> grown R rows rows"
  unfolding grown_def by (rule exI [of _ rows]) (simp add: list_all2_refl)

lemma grown_snoc: "(\<And>r. R r r) \<Longrightarrow> grown R rows (rows @ [r])"
  unfolding grown_def by (rule exI [of _ rows]) (simp add: list_all2_refl)

lemma grown_update:
  "(\<And>r. r \<in> set rows \<Longrightarrow> P r \<Longrightarrow> R r (f r)) \<Longrightarrow> (\<And>r. R r r) \<Longrightarrow> grown R rows (update_where P f rows)"
  unfolding grown_def
  by (rule exI [of _ "update_where P f rows"], rule exI [of _ "[]"])
    (auto simp: update_where_def list_all2_map2 intro: list.rel_refl_strong)

lemma grown_trans:
  assumes "\<And>r s t. R r s \<Longrightarrow> R s t \<Longrightarrow> R r t" "grown R a b" "grown R b c"
  shows "grown R a c"
proof -
  obtain o1 n1 where 1: "b = o1 @ n1" "list_all2 R a o1" using assms(2) by (auto simp: grown_def)
  obtain o2 n2 where 2: "c = o2 @ n2" "list_all2 R (o1 @ n1) o2" using assms(3) 1 by (auto simp: grown_def)
  then obtain x y where xy: "o2 = x @ y" "list_all2 R o1 x" "list_all2 R n1 y" by (auto simp: list_all2_append1)
  have "list_all2 R a x" using list_all2_trans [of R R R a o1 x] assms(1) 1(2) xy(2) by blast
  then show ?thesis using 2 xy unfolding grown_def by (metis append_assoc)
qed

lemma grown_row: "grown R rows rows' \<Longrightarrow> r \<in> set rows \<Longrightarrow> \<exists>s \<in> set rows'. R r s"
  by (auto simp: grown_def list_all2_conv_all_nth in_set_conv_nth [of r])

lemma evolves_refl [simp]: "deadline_evolves r r" "obligation_evolves q q"
  by (simp_all add: deadline_evolves_def obligation_evolves_def)

lemma evolves_trans:
  "deadline_evolves r s \<Longrightarrow> deadline_evolves s t \<Longrightarrow> deadline_evolves r t"
  "obligation_evolves q u \<Longrightarrow> obligation_evolves u v \<Longrightarrow> obligation_evolves q v"
  by (auto simp: deadline_evolves_def obligation_evolves_def)

definition agenda_ok :: "db \<Rightarrow> bool" where
  "agenda_ok d \<longleftrightarrow> unique_on dl_id (t_deadlines d) \<and> unique_on (\<lambda>r. (dl_case_id r, dl_deadline_type r)) (t_deadlines d) \<and>
     unique_on ob_id (t_obligations d) \<and> unique_on (\<lambda>r. (ob_case_id r, ob_obligation_type r)) (t_obligations d)"

text \<open>Appending an event leaves every other table alone.\<close>

lemma record_event_frame:
  "keeps (\<lambda>d. P (t_cases d) (t_executions d) (t_intents d) (t_claims d) (t_deadlines d) (t_obligations d) (t_leases d)
     (t_sessions d) (t_handoffs d)) (record_event a c ty st ac p)"
  by (rule keepsI) (simp add: record_event_run)

lemma record_event_deadlines [keeps_rules]: "keeps (\<lambda>d. P (t_cases d) (t_deadlines d) (t_obligations d)) (record_event a c ty st ac p)"
  by (rule keepsI) (simp add: record_event_run)

lemma next_id_fresh: "rid \<in> set ids \<Longrightarrow> rid < next_id ids"
proof -
  have mono: "n \<le> fold max ids n" for n and ids :: "nat list"
    by (induction ids arbitrary: n) (auto intro: order_trans [OF max.cobounded2])
  have "rid \<in> set ids \<Longrightarrow> rid \<le> fold max ids n" for n and ids :: "nat list"
    by (induction ids arbitrary: n) (auto intro: order_trans [OF _ mono])
  then show "rid \<in> set ids \<Longrightarrow> rid < next_id ids" by (simp add: next_id_def less_Suc_eq_le)
qed

text \<open>What each operation does to the rows: it appends one, rewrites one, or changes nothing.\<close>

inductive agenda_change :: "db \<Rightarrow> db \<Rightarrow> bool" where
  same: "t_deadlines e = t_deadlines d \<Longrightarrow> t_obligations e = t_obligations d \<Longrightarrow> agenda_change d e"
| new_deadline: "find_deadline (\<lambda>_. True) (dl_case_id r) (dl_deadline_type r) d = None \<Longrightarrow>
    dl_id r = next_id (map dl_id (t_deadlines d)) \<Longrightarrow> t_deadlines e = t_deadlines d @ [r] \<Longrightarrow>
    t_obligations e = t_obligations d \<Longrightarrow> agenda_change d e"
| new_obligation: "find_obligation (ob_case_id r) (ob_obligation_type r) d = None \<Longrightarrow>
    ob_id r = next_id (map ob_id (t_obligations d)) \<Longrightarrow> t_obligations e = t_obligations d @ [r] \<Longrightarrow>
    t_deadlines e = t_deadlines d \<Longrightarrow> agenda_change d e"
| deadline: "(\<And>r. r \<in> set (t_deadlines d) \<Longrightarrow> P r \<Longrightarrow> deadline_evolves r (f r)) \<Longrightarrow>
    t_deadlines e = update_where P f (t_deadlines d) \<Longrightarrow> t_obligations e = t_obligations d \<Longrightarrow> agenda_change d e"
| obligation: "(\<And>r. r \<in> set (t_obligations d) \<Longrightarrow> P r \<Longrightarrow> obligation_evolves r (f r)) \<Longrightarrow>
    t_obligations e = update_where P f (t_obligations d) \<Longrightarrow> t_deadlines e = t_deadlines d \<Longrightarrow> agenda_change d e"

lemma agenda_change_grown:
  "agenda_change d e \<Longrightarrow> grown deadline_evolves (t_deadlines d) (t_deadlines e) \<and>
     grown obligation_evolves (t_obligations d) (t_obligations e)"
  by (induction rule: agenda_change.induct) (auto intro: grown_refl grown_snoc grown_update)

lemma agenda_change_ok: "agenda_change d e \<Longrightarrow> agenda_ok d \<Longrightarrow> agenda_ok e"
proof (induction rule: agenda_change.induct)
  case (new_deadline r d e)
  have "dl_id s \<noteq> dl_id r" if "s \<in> set (t_deadlines d)" for s
    using next_id_fresh [of "dl_id s" "map dl_id (t_deadlines d)"] that new_deadline(2) by auto
  then have "unique_on dl_id (t_deadlines d @ [r])"
    using new_deadline.prems by (intro unique_on_snoc) (simp_all add: agenda_ok_def)
  moreover have "unique_on (\<lambda>r. (dl_case_id r, dl_deadline_type r)) (t_deadlines d @ [r])"
    using new_deadline by (intro unique_on_snoc) (auto simp: agenda_ok_def find_deadline_def select_first_None)
  ultimately show ?case using new_deadline by (simp add: agenda_ok_def)
next
  case (new_obligation r d e)
  have "ob_id s \<noteq> ob_id r" if "s \<in> set (t_obligations d)" for s
    using next_id_fresh [of "ob_id s" "map ob_id (t_obligations d)"] that new_obligation(2) by auto
  then have "unique_on ob_id (t_obligations d @ [r])"
    using new_obligation.prems by (intro unique_on_snoc) (simp_all add: agenda_ok_def)
  moreover have "unique_on (\<lambda>r. (ob_case_id r, ob_obligation_type r)) (t_obligations d @ [r])"
    using new_obligation by (intro unique_on_snoc) (auto simp: agenda_ok_def find_obligation_def select_first_None)
  ultimately show ?case using new_obligation by (simp add: agenda_ok_def)
qed (auto simp: agenda_ok_def deadline_evolves_def obligation_evolves_def intro!: unique_on_update_where)

lemma deadline_by_id:
  "agenda_ok d \<Longrightarrow> r \<in> set (t_deadlines d) \<Longrightarrow> s \<in> set (t_deadlines d) \<Longrightarrow> dl_id s = dl_id r \<Longrightarrow> s = r"
  unfolding agenda_ok_def using unique_on_eq [of dl_id] by blast

lemma obligation_by_id:
  "agenda_ok d \<Longrightarrow> r \<in> set (t_obligations d) \<Longrightarrow> s \<in> set (t_obligations d) \<Longrightarrow> ob_id s = ob_id r \<Longrightarrow> s = r"
  unfolding agenda_ok_def using unique_on_eq [of ob_id] by blast

lemma find_deadline_D:
  "find_deadline P c ty d = Some r \<Longrightarrow> r \<in> set (t_deadlines d) \<and> dl_case_id r = c \<and> dl_deadline_type r = ty \<and> P r"
  unfolding find_deadline_def by (drule select_first_Some) simp

lemma find_obligation_D:
  "find_obligation c ty d = Some r \<Longrightarrow> r \<in> set (t_obligations d) \<and> ob_case_id r = c \<and> ob_obligation_type r = ty"
  unfolding find_obligation_def by (drule select_first_Some) simp

lemma create_deadline_change: "agenda_change d (snd (create_deadline a c ty due d))"
proof (cases "find_deadline (\<lambda>_. True) c ty d")
  case None
  let ?r = "\<lparr>dl_id = next_id (map dl_id (t_deadlines d)), dl_case_id = c, dl_deadline_type = ty, dl_due_at = due,
      dl_status = ''PENDING'', dl_resolved_at = None\<rparr>"
  show ?thesis
  proof (cases "get_case c d")
    case None
    then show ?thesis
      using \<open>find_deadline (\<lambda>_. True) c ty d = None\<close>
      by (intro agenda_change.same)
        (simp_all add: create_deadline_def bnd_def andthen_def require_case_row_def unless_raise_def Let_def)
  next
    case (Some x)
    then show ?thesis
      using \<open>find_deadline (\<lambda>_. True) c ty d = None\<close>
      by (intro agenda_change.new_deadline [of ?r])
        (simp_all add: create_deadline_def bnd_def andthen_def require_case_row_def unless_raise_def Let_def
          record_event_run get_case_def)
  qed
next
  case (Some r)
  then show ?thesis by (intro agenda_change.same) (simp_all add: create_deadline_def)
qed

lemma resolve_deadline_change:
  assumes ok: "agenda_ok d"
  shows "agenda_change d (snd (resolve_deadline a c ty d))"
proof (cases "find_deadline (\<lambda>r. dl_status r \<in> {''PENDING'', ''OVERDUE''}) c ty d")
  case None
  then show ?thesis by (intro agenda_change.same) (simp_all add: resolve_deadline_def)
next
  case (Some r)
  let ?s = "r\<lparr>dl_status := ''MET'', dl_resolved_at := Some (amb_now a (tick d))\<rparr>"
  have r: "r \<in> set (t_deadlines d)" "dl_status r \<in> {''PENDING'', ''OVERDUE''}" using find_deadline_D [OF Some] by auto
  have "deadline_evolves x ?s" if "x \<in> set (t_deadlines d)" "dl_id x = dl_id r" for x
    using deadline_by_id [OF ok r(1) that] r(2) by (auto simp: deadline_evolves_def deadline_rank_def)
  then show ?thesis
    using Some by (intro agenda_change.deadline [of d "\<lambda>x. dl_id x = dl_id r" "\<lambda>_. ?s"])
      (simp_all add: resolve_deadline_def bnd_def andthen_def utc_now_def set_deadline_def record_event_run Let_def)
qed

lemma create_obligation_change: "agenda_change d (snd (create_obligation a c ty due d))"
proof (cases "find_obligation c ty d")
  case None
  let ?r = "\<lparr>ob_id = next_id (map ob_id (t_obligations d)), ob_case_id = c, ob_obligation_type = ty, ob_due_at = due,
      ob_status = ''PLANNED'', ob_created_at = amb_now a (tick d), ob_activated_at = None, ob_satisfied_at = None\<rparr>"
  show ?thesis
  proof (cases "get_case c d")
    case None
    then show ?thesis
      using \<open>find_obligation c ty d = None\<close>
      by (intro agenda_change.same)
        (simp_all add: create_obligation_def bnd_def andthen_def require_case_row_def unless_raise_def Let_def utc_now_def get_case_def)
  next
    case (Some x)
    then show ?thesis
      using \<open>find_obligation c ty d = None\<close>
      by (intro agenda_change.new_obligation [of ?r])
        (simp_all add: create_obligation_def bnd_def andthen_def require_case_row_def unless_raise_def Let_def utc_now_def
          record_event_run get_case_def)
  qed
next
  case (Some r)
  then show ?thesis by (intro agenda_change.same) (simp_all add: create_obligation_def)
qed

lemma set_obligation_change:
  assumes ok: "agenda_ok d" and r: "r \<in> set (t_obligations d)" and ev: "obligation_evolves r s"
    and e: "t_obligations e = update_where (\<lambda>x. ob_id x = ob_id r) (\<lambda>_. s) (t_obligations d)" "t_deadlines e = t_deadlines d"
  shows "agenda_change d e"
proof -
  have "obligation_evolves x s" if "x \<in> set (t_obligations d)" "ob_id x = ob_id r" for x
    using obligation_by_id [OF ok r that] ev by simp
  then show ?thesis using e by (intro agenda_change.obligation [of d "\<lambda>x. ob_id x = ob_id r" "\<lambda>_. s"]) simp_all
qed

lemma activate_obligation_change:
  assumes ok: "agenda_ok d"
  shows "agenda_change d (snd (activate_obligation a c ty d))"
proof (cases "find_obligation c ty d")
  case None
  then show ?thesis by (intro agenda_change.same) (simp_all add: activate_obligation_def get_obligation_def bnd_def)
next
  case (Some r)
  show ?thesis
  proof (cases "ob_status r = ''PLANNED''")
    case True
    then show ?thesis
      using Some find_obligation_D [OF Some]
      by (intro set_obligation_change [OF ok, of r "r\<lparr>ob_status := ''ACTIVE'', ob_activated_at := Some (amb_now a (tick d))\<rparr>"])
        (simp_all add: activate_obligation_def get_obligation_def bnd_def andthen_def utc_now_def set_obligation_def
          record_event_run Let_def obligation_evolves_def obligation_rank_def)
  next
    case False
    then show ?thesis using Some by (intro agenda_change.same) (simp_all add: activate_obligation_def get_obligation_def bnd_def)
  qed
qed

lemma satisfy_obligation_change:
  assumes ok: "agenda_ok d"
  shows "agenda_change d (snd (satisfy_obligation a c ty d))"
proof (cases "find_obligation c ty d")
  case None
  then show ?thesis by (intro agenda_change.same) (simp_all add: satisfy_obligation_def get_obligation_def bnd_def)
next
  case (Some r)
  show ?thesis
  proof (cases "ob_status r = ''SATISFIED''")
    case True
    then show ?thesis using Some by (intro agenda_change.same) (simp_all add: satisfy_obligation_def get_obligation_def bnd_def)
  next
    case False
    then show ?thesis
      using Some find_obligation_D [OF Some]
      by (intro set_obligation_change [OF ok, of r "r\<lparr>ob_status := ''SATISFIED'', ob_satisfied_at := Some (amb_now a (tick d))\<rparr>"])
        (simp_all add: satisfy_obligation_def get_obligation_def bnd_def andthen_def utc_now_def set_obligation_def
          record_event_run Let_def obligation_evolves_def obligation_rank_def)
  qed
qed

section \<open>The overdue evaluation\<close>

definition lapsed :: "datetime \<Rightarrow> deadline_row \<Rightarrow> bool" where
  "lapsed reference r \<longleftrightarrow> instant (assume_utc (dl_due_at r)) \<le> instant (assume_utc reference)"

lemma due_map:
  "distinct (map dl_deadline_type rows) \<Longrightarrow> r \<in> set rows \<Longrightarrow>
   fold (\<lambda>r m. m(dl_deadline_type r \<mapsto> dl_due_at r)) rows m (dl_deadline_type r) = Some (dl_due_at r)"
proof (induction rows arbitrary: m)
  case (Cons x rows)
  have keep: "dl_deadline_type x \<notin> dl_deadline_type ` set ys \<Longrightarrow>
      fold (\<lambda>r m. m(dl_deadline_type r \<mapsto> dl_due_at r)) ys m (dl_deadline_type x) = m (dl_deadline_type x)" for ys m
    by (induction ys arbitrary: m) auto
  show ?case
  proof (cases "r = x")
    case True
    have "fold (\<lambda>r m. m(dl_deadline_type r \<mapsto> dl_due_at r)) rows (m(dl_deadline_type x \<mapsto> dl_due_at x)) (dl_deadline_type x)
        = (m(dl_deadline_type x \<mapsto> dl_due_at x)) (dl_deadline_type x)"
      by (rule keep) (use Cons.prems in simp)
    then show ?thesis unfolding True fold_simps by (simp only: fun_upd_same)
  next
    case False
    then show ?thesis using Cons by simp
  qed
qed simp

lemma overdue_rows_lapsed:
  "distinct (map dl_deadline_type rows) \<Longrightarrow> overdue_rows reference rows = filter (lapsed reference) rows"
  unfolding overdue_rows_def Let_def
  by (rule filter_cong) (simp_all add: due_map evaluate_deadlines_def deadline_status_def lapsed_def)

lemma pending_types_distinct:
  assumes "agenda_ok d"
  shows "distinct (map dl_deadline_type (filter (\<lambda>r. dl_case_id r = c \<and> Q r) (t_deadlines d)))"
proof -
  have "distinct (map (\<lambda>r. (dl_case_id r, dl_deadline_type r)) (t_deadlines d))"
    using assms by (simp add: agenda_ok_def unique_on_def)
  then show ?thesis by (induction "t_deadlines d" arbitrary: d) (auto simp: agenda_ok_def unique_on_def image_iff distinct_map inj_on_def)
qed

lemma events_loop:
  "get_case c d \<noteq> None \<Longrightarrow>
   \<exists>e. for_each (\<lambda>r. andthen (record_event a c ty st ac (p r)) (ret ())) rows d = (Ret (), e) \<and>
     t_deadlines e = t_deadlines d \<and> t_obligations e = t_obligations d \<and> t_cases e = t_cases d \<and>
     map ev_event_type (t_events e) = map ev_event_type (t_events d) @ replicate (length rows) ty"
proof (induction rows arbitrary: d)
  case (Cons r rows)
  obtain x where x: "get_case c d = Some x" using Cons.prems by auto
  have "get_case c (with_event a c ty st ac (p r) d) \<noteq> None" using x by simp
  from Cons.IH [OF this] show ?case
    using x by (auto simp: andthen_def bnd_def replicate_app_Cons_same)
qed simp

definition mark_row :: "string \<Rightarrow> datetime \<Rightarrow> deadline_row \<Rightarrow> deadline_row" where
  "mark_row c reference r =
     (if dl_case_id r = c \<and> dl_status r = ''PENDING'' \<and> lapsed reference r then r\<lparr>dl_status := ''OVERDUE''\<rparr> else r)"

lemma mark_overdue_run:
  assumes ok: "agenda_ok d" and c: "get_case c d \<noteq> None"
  shows "\<exists>e n. mark_overdue_deadlines a c (Some reference) d = (Ret (map (mark_row c reference)
      (filter (\<lambda>r. dl_case_id r = c \<and> dl_status r = ''PENDING'' \<and> lapsed reference r) (t_deadlines d))), e) \<and>
     t_deadlines e = map (mark_row c reference) (t_deadlines d) \<and> t_obligations e = t_obligations d \<and>
     map ev_event_type (t_events e) = map ev_event_type (t_events d) @ replicate (length
       (filter (\<lambda>r. dl_case_id r = c \<and> dl_status r = ''PENDING'' \<and> lapsed reference r) (t_deadlines d))) ''DEADLINE_OVERDUE''"
proof -
  let ?pending = "filter (\<lambda>r. dl_case_id r = c \<and> dl_status r = ''PENDING'') (t_deadlines d)"
  let ?late = "filter (\<lambda>r. dl_case_id r = c \<and> dl_status r = ''PENDING'' \<and> lapsed reference r) (t_deadlines d)"
  have late: "overdue_rows reference ?pending = ?late"
    unfolding overdue_rows_lapsed [OF pending_types_distinct [OF ok, of c "\<lambda>r. dl_status r = ''PENDING''"]] filter_filter
    by (rule filter_cong) auto
  have marked: "map (\<lambda>r. r\<lparr>dl_status := ''OVERDUE''\<rparr>) ?late = map (mark_row c reference) ?late"
    by (simp add: mark_row_def)
  have upd: "update_where (\<lambda>r. dl_id r \<in> set (map dl_id ?late)) (\<lambda>r. r\<lparr>dl_status := ''OVERDUE''\<rparr>) (t_deadlines d)
      = map (mark_row c reference) (t_deadlines d)"
    unfolding update_where_def
  proof (rule map_cong [OF refl])
    fix r assume r: "r \<in> set (t_deadlines d)"
    then have "dl_id r \<in> set (map dl_id ?late) \<longleftrightarrow> dl_case_id r = c \<and> dl_status r = ''PENDING'' \<and> lapsed reference r"
      using deadline_by_id [OF ok] by (auto simp: image_iff)
    then show "(if dl_id r \<in> set (map dl_id ?late) then r\<lparr>dl_status := ''OVERDUE''\<rparr> else r) = mark_row c reference r"
      by (simp add: mark_row_def)
  qed
  show ?thesis
  proof (cases "?pending = []")
    case True
    then have "?late = []" by (auto simp: filter_empty_conv)
    moreover have "map (mark_row c reference) (t_deadlines d) = t_deadlines d"
      using True by (intro map_idI) (auto simp: filter_empty_conv mark_row_def)
    ultimately have "?late = []" "map (mark_row c reference) (t_deadlines d) = t_deadlines d" by blast+
    then show ?thesis using True
      by (simp add: mark_overdue_deadlines_def reference_time_def bnd_def)
  next
    case False
    let ?d1 = "d\<lparr>t_deadlines := map (mark_row c reference) (t_deadlines d)\<rparr>"
    have c1: "get_case c ?d1 \<noteq> None" using c by (simp add: get_case_def)
    obtain e where e: "for_each (\<lambda>r. andthen (record_event a c ''DEADLINE_OVERDUE'' ''orchestrator'' ''AUTOMATION''
        (Some [(''deadline_type'', VStr (dl_deadline_type r)), (''due_at'', VTime (dl_due_at r))])) (ret ())) ?late ?d1 = (Ret (), e)"
      "t_deadlines e = t_deadlines ?d1" "t_obligations e = t_obligations ?d1"
      "map ev_event_type (t_events e) = map ev_event_type (t_events ?d1) @ replicate (length ?late) ''DEADLINE_OVERDUE''"
      using events_loop [OF c1] by metis
    have "mark_overdue_deadlines a c (Some reference) d = (Ret (map (mark_row c reference) ?late), e)"
      unfolding mark_overdue_deadlines_def reference_time_def option.case bnd_ret bnd_gets Let_def if_not_P [OF False]
        late andthen_simps(1) upd marked
      by (rule trans [OF andthen_run(1)]) (rule e(1), simp)
    then show ?thesis using e by auto
  qed
qed

lemma record_event_agenda [keeps_rules]:
  "keeps (\<lambda>d. t_deadlines d = X \<and> t_obligations d = Y) (record_event a c ty st ac p)"
  by (rule keepsI) (simp add: record_event_run)

lemma mark_overdue_change:
  assumes ok: "agenda_ok d"
  shows "agenda_change d (snd (mark_overdue_deadlines a c now d))"
proof -
  obtain t d0 where ref: "reference_time a now d = (Ret t, d0)" and d0: "t_deadlines d0 = t_deadlines d" "t_obligations d0 = t_obligations d"
    by (cases now) (simp_all add: reference_time_def bnd_def utc_now_def)
  let ?pending = "filter (\<lambda>r. dl_case_id r = c \<and> dl_status r = ''PENDING'') (t_deadlines d)"
  let ?ids = "set (map dl_id (overdue_rows t ?pending))"
  let ?rows = "update_where (\<lambda>r. dl_id r \<in> ?ids) (\<lambda>r. r\<lparr>dl_status := ''OVERDUE''\<rparr>) (t_deadlines d)"
  let ?loop = "andthen (for_each (\<lambda>r. andthen (record_event a c ''DEADLINE_OVERDUE'' ''orchestrator'' ''AUTOMATION''
      (Some [(''deadline_type'', VStr (dl_deadline_type r)), (''due_at'', VTime (dl_due_at r))])) (ret ())) (overdue_rows t ?pending))
      (ret (map (\<lambda>r. r\<lparr>dl_status := ''OVERDUE''\<rparr>) (overdue_rows t ?pending)))"
  show ?thesis
  proof (cases "?pending = []")
    case True
    then show ?thesis using d0
      by (intro agenda_change.same) (simp_all add: mark_overdue_deadlines_def bnd_def ref)
  next
    case False
    have loop: "keeps (\<lambda>x. t_deadlines x = ?rows \<and> t_obligations x = t_obligations d) ?loop"
      by (intro keeps_rules)
    have "snd (mark_overdue_deadlines a c now d) = snd (?loop (d0\<lparr>t_deadlines := ?rows\<rparr>))"
      unfolding mark_overdue_deadlines_def bnd_run(1) [of "reference_time a now", OF ref] bnd_gets d0 Let_def if_not_P [OF False]
        andthen_simps(1) ..
    then have e: "t_deadlines (snd (mark_overdue_deadlines a c now d)) = ?rows"
      "t_obligations (snd (mark_overdue_deadlines a c now d)) = t_obligations d"
      using keepsD [OF loop, of "d0\<lparr>t_deadlines := ?rows\<rparr>"] d0 by simp_all
    have sub: "set (overdue_rows t ?pending) \<subseteq> set ?pending" by (auto simp: overdue_rows_def Let_def)
    have "deadline_evolves r (r\<lparr>dl_status := ''OVERDUE''\<rparr>)"
      if rin: "r \<in> set (t_deadlines d)" and idin: "dl_id r \<in> ?ids" for r
    proof -
      obtain q where "q \<in> set ?pending" "dl_id q = dl_id r" using idin sub by auto
      then have "q = r" "dl_status q = ''PENDING''" using deadline_by_id [OF ok rin, of q] by auto
      then show ?thesis by (simp add: deadline_evolves_def deadline_rank_def)
    qed
    then show ?thesis using e by (rule agenda_change.deadline)
  qed
qed

section \<open>Runs\<close>

inductive agenda_step :: "ambient \<Rightarrow> db \<Rightarrow> db \<Rightarrow> bool" for a where
  create_deadline: "agenda_step a d (snd (create_deadline a c ty due d))"
| resolve_deadline: "agenda_step a d (snd (resolve_deadline a c ty d))"
| mark_overdue: "agenda_step a d (snd (mark_overdue_deadlines a c now d))"
| create_obligation: "agenda_step a d (snd (create_obligation a c ty due d))"
| activate: "agenda_step a d (snd (activate_obligation a c ty d))"
| satisfy: "agenda_step a d (snd (satisfy_obligation a c ty d))"
| elsewhere: "t_deadlines e = t_deadlines d \<Longrightarrow> t_obligations e = t_obligations d \<Longrightarrow> agenda_step a d e"

lemma agenda_step_change: "agenda_step a d e \<Longrightarrow> agenda_ok d \<Longrightarrow> agenda_change d e"
  by (induction rule: agenda_step.induct)
    (auto intro: create_deadline_change resolve_deadline_change mark_overdue_change create_obligation_change
      activate_obligation_change satisfy_obligation_change agenda_change.same)

lemma agenda_run:
  "(agenda_step a)\<^sup>*\<^sup>* d e \<Longrightarrow> agenda_ok d \<Longrightarrow> agenda_ok e \<and>
     grown deadline_evolves (t_deadlines d) (t_deadlines e) \<and> grown obligation_evolves (t_obligations d) (t_obligations e)"
proof (induction rule: rtranclp_induct)
  case base
  then show ?case by (simp add: grown_refl)
next
  case (step e f)
  then have e: "agenda_ok e" and ch: "agenda_change e f" using agenda_step_change by blast+
  show ?case
    using step.IH [OF step.prems] agenda_change_ok [OF ch e] agenda_change_grown [OF ch]
      grown_trans [of deadline_evolves] grown_trans [of obligation_evolves] evolves_trans by blast
qed

text \<open>
  every regulatory commitment survives.  Along any run of the deadline and
  obligation operations, a case never has two deadlines or two obligations of one
  type; a deadline keeps its due date and never returns from \<open>OVERDUE\<close> to \<open>PENDING\<close>
  nor changes after it is \<open>MET\<close>; an obligation keeps its due date, never goes back from
  \<open>ACTIVE\<close> to \<open>PLANNED\<close>, and never changes after it is \<open>SATISFIED\<close>.
\<close>

theorem commitments_survive:
  assumes "agenda_ok d" and "(agenda_step a)\<^sup>*\<^sup>* d e"
  shows "agenda_ok e \<and>
    (\<forall>r \<in> set (t_deadlines d). \<exists>s \<in> set (t_deadlines e). deadline_evolves r s) \<and>
    (\<forall>r \<in> set (t_obligations d). \<exists>s \<in> set (t_obligations e). obligation_evolves r s)"
proof -
  have *: "agenda_ok e" "grown deadline_evolves (t_deadlines d) (t_deadlines e)"
    "grown obligation_evolves (t_obligations d) (t_obligations e)"
    using agenda_run [OF assms(2,1)] by simp_all
  then show ?thesis using grown_row [OF *(2)] grown_row [OF *(3)] by blast
qed

text \<open>
  the overdue evaluation of a case marks exactly its pending deadlines that
  have lapsed at the reference time, a deadline due at that very time included; it
  returns them, records one event for each, and leaves every other deadline alone.
\<close>

theorem mark_overdue_exact:
  assumes "agenda_ok d" and "get_case c d \<noteq> None"
    and "mark_overdue_deadlines a c (Some reference) d = (res, e)"
  defines "late \<equiv> filter (\<lambda>r. dl_case_id r = c \<and> dl_status r = ''PENDING'' \<and>
      instant (assume_utc (dl_due_at r)) \<le> instant (assume_utc reference)) (t_deadlines d)"
  shows "res = Ret (map (\<lambda>r. r\<lparr>dl_status := ''OVERDUE''\<rparr>) late) \<and>
    t_deadlines e = map (\<lambda>r. if r \<in> set late then r\<lparr>dl_status := ''OVERDUE''\<rparr> else r) (t_deadlines d) \<and>
    map ev_event_type (t_events e) = map ev_event_type (t_events d) @ replicate (length late) ''DEADLINE_OVERDUE''"
proof -
  have l: "filter (\<lambda>r. dl_case_id r = c \<and> dl_status r = ''PENDING'' \<and> lapsed reference r) (t_deadlines d) = late"
    by (simp add: late_def lapsed_def)
  have "map (mark_row c reference) late = map (\<lambda>r. r\<lparr>dl_status := ''OVERDUE''\<rparr>) late"
    unfolding late_def by (rule map_cong) (simp_all add: mark_row_def lapsed_def)
  moreover have "map (mark_row c reference) (t_deadlines d)
      = map (\<lambda>r. if r \<in> set late then r\<lparr>dl_status := ''OVERDUE''\<rparr> else r) (t_deadlines d)"
    unfolding late_def by (rule map_cong) (simp_all add: mark_row_def lapsed_def)
  ultimately show ?thesis using mark_overdue_run [OF assms(1,2), of a reference] assms(3) unfolding l by auto
qed

text \<open>
  a deadline that a later session reads back is evaluated too early.  A due date
  with a negative offset from UTC, as every New York due date has, is stored without
  its offset; in the hours between its wall-clock reading taken as UTC and the true
  due time, the case as first written is on time and the same case reloaded is marked
  overdue.
\<close>

theorem reloaded_deadline_early:
  assumes "agenda_ok d" and "get_case c d \<noteq> None" and "r \<in> set (t_deadlines d)"
    and "dl_case_id r = c" and "dl_status r = ''PENDING''" and "dl_due_at r = DT w (Some off)"
    and "w \<le> x" and "x < w - off"
  shows "r \<in> set (t_deadlines (snd (mark_overdue_deadlines a c (Some (utc x)) d))) \<and>
    r\<lparr>dl_due_at := DT w None, dl_status := ''OVERDUE''\<rparr>
      \<in> set (t_deadlines (snd (mark_overdue_deadlines a c (Some (utc x)) (reload d))))"
proof -
  let ?s = "r\<lparr>dl_due_at := DT w None\<rparr>"
  have ok: "agenda_ok (reload d)"
    using assms(1) by (simp add: agenda_ok_def reload_def unique_on_def comp_def)
  have c: "get_case c (reload d) \<noteq> None" using assms(2) by (simp add: get_case_def reload_def)
  have s: "?s \<in> set (t_deadlines (reload d))"
    using assms(3,6) by (force simp: reload_def stored_def)
  have "mark_row c (utc x) r = r"
    using assms(6,8) by (simp add: mark_row_def lapsed_def assume_utc_def instant_def utc_def)
  moreover have "mark_row c (utc x) ?s = r\<lparr>dl_due_at := DT w None, dl_status := ''OVERDUE''\<rparr>"
    using assms by (simp add: mark_row_def lapsed_def assume_utc_def instant_def utc_def)
  moreover have "t_deadlines (snd (mark_overdue_deadlines a c (Some (utc x)) d)) = map (mark_row c (utc x)) (t_deadlines d)"
    using mark_overdue_run [OF assms(1,2), of a "utc x"] by auto
  moreover have "t_deadlines (snd (mark_overdue_deadlines a c (Some (utc x)) (reload d)))
      = map (mark_row c (utc x)) (t_deadlines (reload d))"
    using mark_overdue_run [OF ok c, of a "utc x"] by auto
  moreover have "mark_row c (utc x) r \<in> mark_row c (utc x) ` set (t_deadlines d)" by (rule imageI [OF assms(3)])
  moreover have "mark_row c (utc x) ?s \<in> mark_row c (utc x) ` set (t_deadlines (reload d))" by (rule imageI [OF s])
  ultimately show ?thesis by (simp only: list.set_map simp_thms)
qed

section \<open>A concrete case\<close>

definition sample_deadline :: deadline_row where
  "sample_deadline = \<lparr>dl_id = 1, dl_case_id = ''C-1'', dl_deadline_type = ''NOTICE_2_DAY'',
     dl_due_at = DT (17 * 3600 * second_us) (Some (- 4 * 3600 * second_us)), dl_status = ''PENDING'', dl_resolved_at = None\<rparr>"

definition agenda_db :: db where
  "agenda_db = sample_db\<lparr>t_deadlines := [sample_deadline]\<rparr>"

lemma agenda_db_ok: "agenda_ok agenda_db" "get_case ''C-1'' agenda_db \<noteq> None"
  by (simp_all add: agenda_ok_def unique_on_def agenda_db_def sample_db_def empty_db_def get_case_def sample_case_row_def)

theorem commitments_survive_witness:
  "\<exists>s \<in> set (t_deadlines (snd (resolve_deadline sample_ambient ''C-1'' ''NOTICE_2_DAY'' agenda_db))).
     deadline_evolves sample_deadline s"
proof -
  have "(agenda_step sample_ambient)\<^sup>*\<^sup>* agenda_db (snd (resolve_deadline sample_ambient ''C-1'' ''NOTICE_2_DAY'' agenda_db))"
    by (intro r_into_rtranclp agenda_step.resolve_deadline)
  from commitments_survive [OF agenda_db_ok(1) this] show ?thesis by (simp add: agenda_db_def)
qed

theorem mark_overdue_exact_witness:
  "t_deadlines (snd (mark_overdue_deadlines sample_ambient ''C-1'' (Some (utc (21 * 3600 * second_us))) agenda_db))
     = [sample_deadline\<lparr>dl_status := ''OVERDUE''\<rparr>]"
  using mark_overdue_exact [OF agenda_db_ok prod.collapse [symmetric], of sample_ambient "utc (21 * 3600 * second_us)"]
  by (simp add: agenda_db_def sample_deadline_def assume_utc_def instant_def utc_def second_us_def)

theorem reloaded_deadline_early_witness:
  "sample_deadline \<in> set (t_deadlines (snd (mark_overdue_deadlines sample_ambient ''C-1'' (Some (utc (18 * 3600 * second_us))) agenda_db))) \<and>
   sample_deadline\<lparr>dl_due_at := DT (17 * 3600 * second_us) None, dl_status := ''OVERDUE''\<rparr>
     \<in> set (t_deadlines (snd (mark_overdue_deadlines sample_ambient ''C-1'' (Some (utc (18 * 3600 * second_us))) (reload agenda_db))))"
  by (rule reloaded_deadline_early [OF agenda_db_ok, of _ _ "- 4 * 3600 * second_us"])
    (auto simp: agenda_db_def sample_deadline_def second_us_def)

end
