(* ===== verification/Leases.thy ===== *)
theory Leases
  imports Ledger Fencing
begin

text \<open>
  Control leases, browser sessions and operator handoffs of \<open>LedgerRepository\<close>
  (\<open>tandem/ledger/repository.py\<close>).  A lease is the single-owner permission to act on a
  case; it expires, is renewed by a heartbeat, released, and taken over under the
  next fencing token.  The lease operations interpret the contract of \<open>Fencing\<close>,
  with the end of a period as the moment up to which expiry is considered.
\<close>

section \<open>Leases\<close>

definition five_minutes :: int where
  "five_minutes = 5 * 60 * second_us"

definition get_lease :: "string \<Rightarrow> db \<Rightarrow> lease_row option" where
  "get_lease cid d = select_first (\<lambda>r. ls_case_id r = cid) (t_leases d)"

definition lease_is_active :: "lease_row \<Rightarrow> int \<Rightarrow> bool" where
  "lease_is_active r now \<longleftrightarrow> ls_released_at r = None \<and> now < ls_expires_at r"

definition update_leases :: "(lease_row \<Rightarrow> bool) \<Rightarrow> (lease_row \<Rightarrow> lease_row) \<Rightarrow> (db, bool) prog" where
  "update_leases P f = (\<lambda>d. (Ret (rowcount P (t_leases d) = 1), d\<lparr>t_leases := update_where P f (t_leases d)\<rparr>))"

definition assertion_error :: exn where
  "assertion_error = OtherException []"

definition read_lease :: "string \<Rightarrow> (db, lease_row) prog" where
  "read_lease cid = bnd (gets (get_lease cid)) (\<lambda>l. case l of None \<Rightarrow> fail assertion_error | Some r \<Rightarrow> ret r)"

definition heartbeat_lease ::
  "ambient \<Rightarrow> string \<Rightarrow> string \<Rightarrow> nat \<Rightarrow> int option \<Rightarrow> int \<Rightarrow> (db, lease_row) prog" where
  "heartbeat_lease a case_id owner_id fencing_token now ttl =
     bnd (time_or_now a now) (\<lambda>heartbeat_at.
     bnd (update_leases
        (\<lambda>r. ls_case_id r = case_id \<and> ls_owner_id r = owner_id \<and> ls_fencing_token r = fencing_token \<and>
           ls_released_at r = None \<and> heartbeat_at < ls_expires_at r)
        (\<lambda>r. r\<lparr>ls_heartbeat_at := heartbeat_at, ls_expires_at := heartbeat_at + ttl, ls_version := ls_version r + 1\<rparr>))
     (\<lambda>updated.
       if updated then read_lease case_id
       else fail (LeaseConflictError (fstr [''Lease token '', str_nat fencing_token, '' for '', case_id,
              '' is stale or expired'']))))"

definition normalized_owner_type :: "string \<Rightarrow> string option \<Rightarrow> string" where
  "normalized_owner_type owner owner_type = (case owner_type of
      Some (c # cs) \<Rightarrow> c # cs
    | _ \<Rightarrow> if starts_with ''AUTOMATION'' owner then ''AUTOMATION'' else ''HUMAN'')"

definition lease_resource :: "string \<Rightarrow> string option \<Rightarrow> string" where
  "lease_resource case_id resource_id = (case resource_id of Some (c # cs) \<Rightarrow> c # cs | _ \<Rightarrow> case_id)"

definition new_lease :: "string \<Rightarrow> string \<Rightarrow> string \<Rightarrow> string \<Rightarrow> nat \<Rightarrow> nat \<Rightarrow> int \<Rightarrow> int \<Rightarrow> lease_row" where
  "new_lease case_id resource owner_type owner token version acquired_at expires_at =
     \<lparr>ls_case_id = case_id, ls_resource_id = resource, ls_owner_type = owner_type, ls_owner_id = owner,
      ls_fencing_token = token, ls_version = version, ls_acquired_at = acquired_at,
      ls_heartbeat_at = acquired_at, ls_expires_at = expires_at, ls_released_at = None\<rparr>"

definition lease_acquired_event ::
  "ambient \<Rightarrow> string \<Rightarrow> string \<Rightarrow> string \<Rightarrow> nat \<Rightarrow> string \<Rightarrow> int \<Rightarrow> (db, event_row) prog" where
  "lease_acquired_event a case_id owner_type owner token resource expires_at =
     record_event a case_id ''CONTROL_LEASE_ACQUIRED'' ''ownership'' owner_type (Some
       [(''owner_type'', VStr owner_type), (''owner_id'', VStr owner), (''fencing_token'', VInt (int token)),
        (''resource_id'', VStr resource), (''expires_at'', VTime (utc expires_at))])"

definition take_over_lease ::
  "ambient \<Rightarrow> string \<Rightarrow> string \<Rightarrow> string \<Rightarrow> string \<Rightarrow> lease_row \<Rightarrow> int \<Rightarrow> int \<Rightarrow> (db, lease_row) prog" where
  "take_over_lease a case_id resource owner_type owner lease acquired_at expires_at =
     bnd (update_leases
        (\<lambda>r. ls_case_id r = case_id \<and> ls_version r = ls_version lease \<and>
           (ls_released_at r \<noteq> None \<or> ls_expires_at r \<le> acquired_at))
        (\<lambda>_. new_lease case_id resource owner_type owner (ls_fencing_token lease + 1) (ls_version lease + 1)
           acquired_at expires_at)) (\<lambda>taken.
       if taken
       then andthen (lease_acquired_event a case_id owner_type owner (ls_fencing_token lease + 1) resource expires_at)
              (read_lease case_id)
       else fail (LeaseConflictError (fstr [''Resource '', case_id, '' lease changed during acquisition''])))"

definition acquire_lease ::
  "ambient \<Rightarrow> string \<Rightarrow> string \<Rightarrow> string option \<Rightarrow> int option \<Rightarrow> int \<Rightarrow> string option \<Rightarrow> (db, lease_row) prog" where
  "acquire_lease a case_id owner owner_type now ttl resource_id =
     bnd (time_or_now a now) (\<lambda>acquired_at.
       let expires_at = acquired_at + ttl; kind = normalized_owner_type owner owner_type;
           resource = lease_resource case_id resource_id
       in andthen (unless_raise (kind \<in> {''AUTOMATION'', ''HUMAN''}) (ValueError ''owner_type must be AUTOMATION or HUMAN'')) (
          andthen (unless_raise (0 < ttl) (ValueError ''Lease TTL must be positive'')) (
          bnd (gets (get_lease case_id)) (\<lambda>held. case held of
            None \<Rightarrow>
              andthen (change (\<lambda>d. d\<lparr>t_leases := t_leases d @
                 [new_lease case_id resource kind owner 1 1 acquired_at expires_at]\<rparr>)) (
              andthen (lease_acquired_event a case_id kind owner 1 resource expires_at) (read_lease case_id))
          | Some lease \<Rightarrow>
              if lease_is_active lease acquired_at
              then if ls_owner_id lease \<noteq> owner \<or> ls_owner_type lease \<noteq> kind
                   then fail (LeaseConflictError (fstr [''Resource '', case_id, '' lease is held by '', ls_owner_type lease,
                          '' owner '', sq, ls_owner_id lease, sq, '' until '', isoformat (utc (ls_expires_at lease))]))
                   else heartbeat_lease a case_id owner (ls_fencing_token lease) (Some acquired_at) ttl
              else take_over_lease a case_id resource kind owner lease acquired_at expires_at))))"

text \<open>The answer at a given time; the method reads the clock when it gets none.\<close>

definition lease_token_valid :: "string \<Rightarrow> string \<Rightarrow> nat \<Rightarrow> int \<Rightarrow> db \<Rightarrow> bool" where
  "lease_token_valid case_id owner_id fencing_token checked_at d = (case get_lease case_id d of
      None \<Rightarrow> False
    | Some r \<Rightarrow> ls_owner_id r = owner_id \<and> ls_fencing_token r = fencing_token \<and> lease_is_active r checked_at)"

definition validate_lease_token :: "ambient \<Rightarrow> string \<Rightarrow> string \<Rightarrow> nat \<Rightarrow> int option \<Rightarrow> (db, bool) prog" where
  "validate_lease_token a case_id owner_id fencing_token now =
     bnd (time_or_now a now) (\<lambda>checked_at. gets (lease_token_valid case_id owner_id fencing_token checked_at))"

definition release_lease ::
  "ambient \<Rightarrow> string \<Rightarrow> string option \<Rightarrow> nat option \<Rightarrow> int option \<Rightarrow> (db, lease_row option) prog" where
  "release_lease a case_id owner_id fencing_token now =
     bnd (time_or_now a now) (\<lambda>released_at.
     bnd (gets (get_lease case_id)) (\<lambda>held. case held of
       None \<Rightarrow> ret None
     | Some lease \<Rightarrow>
         bnd (update_leases
           (\<lambda>r. ls_case_id r = case_id \<and> ls_released_at r = None \<and>
              (case owner_id of None \<Rightarrow> True | Some ow \<Rightarrow> ls_owner_id r = ow) \<and>
              (case fencing_token of None \<Rightarrow> True | Some t \<Rightarrow> ls_fencing_token r = t))
           (\<lambda>r. r\<lparr>ls_released_at := Some released_at, ls_expires_at := released_at, ls_heartbeat_at := released_at,
              ls_version := ls_version r + 1\<rparr>)) (\<lambda>released.
           if \<not> released \<and> (owner_id \<noteq> None \<or> fencing_token \<noteq> None)
           then fail (LeaseConflictError (fstr [''Lease for '', case_id, '' changed before release'']))
           else andthen (if released
                  then andthen (record_event a case_id ''CONTROL_LEASE_RELEASED'' ''ownership'' (ls_owner_type lease) (Some
                     [(''owner_type'', VStr (ls_owner_type lease)), (''owner_id'', VStr (ls_owner_id lease)),
                      (''fencing_token'', VInt (int (ls_fencing_token lease))),
                      (''released_at'', VTime (utc released_at))])) (ret ())
                  else ret ())
                (gets (get_lease case_id)))))"

section \<open>Browser sessions and handoffs\<close>

definition get_browser_session :: "string \<Rightarrow> db \<Rightarrow> session_row option" where
  "get_browser_session sid d = select_first (\<lambda>r. se_session_id r = sid) (t_sessions d)"

definition register_browser_session :: "ambient \<Rightarrow> string \<Rightarrow> string \<Rightarrow> string \<Rightarrow> (db, session_row) prog" where
  "register_browser_session a case_id session_id current_url =
     bnd (utc_now a) (\<lambda>now.
     bnd (gets (get_browser_session session_id)) (\<lambda>existing.
       let r = \<lparr>se_session_id = session_id, se_case_id = case_id, se_status = ''ACTIVE'', se_current_url = current_url,
             se_created_at = now, se_updated_at = now, se_closed_at = None\<rparr>
       in andthen (unless_raise (existing = None) (OtherException ''UNIQUE constraint failed: browser_sessions.session_id'')) (
          andthen (change (\<lambda>d. d\<lparr>t_sessions := t_sessions d @ [r]\<rparr>)) (
          andthen (record_event a case_id ''BROWSER_SESSION_OPENED'' ''browser_session'' ''AUTOMATION'' (Some
            [(''session_id'', VStr session_id), (''status'', VStr ''ACTIVE''), (''current_url'', VStr current_url),
             (''created_at'', VTime (utc now))])) (ret r)))))"

definition update_browser_session :: "ambient \<Rightarrow> string \<Rightarrow> string \<Rightarrow> string \<Rightarrow> (db, session_row) prog" where
  "update_browser_session a session_id current_url status =
     bnd (gets (get_browser_session session_id)) (\<lambda>found. case found of
       None \<Rightarrow> fail (ValueError (fstr [''Unknown browser session '', sq, session_id, sq]))
     | Some r \<Rightarrow>
         bnd (utc_now a) (\<lambda>now.
           let r' = r\<lparr>se_current_url := current_url, se_status := status, se_updated_at := now,
                 se_closed_at := (if status = ''CLOSED'' then Some now else se_closed_at r)\<rparr>
           in andthen (change (\<lambda>d. d\<lparr>t_sessions := update_where (\<lambda>r. se_session_id r = session_id) (\<lambda>_. r') (t_sessions d)\<rparr>))
              (ret r')))"

definition record_handoff :: "ambient \<Rightarrow> string \<Rightarrow> string \<Rightarrow> string \<Rightarrow> string \<Rightarrow> (db, handoff_row) prog" where
  "record_handoff a case_id reason operator_id action_taken =
     bnd (utc_now a) (\<lambda>started_at.
     bnd (utc_now a) (\<lambda>completed_at.
     bnd (gets (\<lambda>d. next_id (map ho_id (t_handoffs d)))) (\<lambda>rid.
       let r = \<lparr>ho_id = rid, ho_case_id = case_id, ho_reason = reason, ho_operator_id = operator_id,
             ho_action_taken = action_taken, ho_started_at = started_at, ho_completed_at = Some completed_at\<rparr>
       in andthen (change (\<lambda>d. d\<lparr>t_handoffs := t_handoffs d @ [r]\<rparr>)) (ret r))))"

section \<open>The event chain is kept\<close>

lemma keeps_update_leases [keeps_rules]: "keeps (chain_inv sha) (update_leases P f)"
  by (rule keepsI) (simp add: update_leases_def)

lemma keeps_heartbeat [keeps_rules]:
  "keeps (chain_inv sha) (read_lease c)"
  "keeps (chain_inv sha) (heartbeat_lease a c ow tok now ttl)"
  unfolding heartbeat_lease_def read_lease_def by (intro keeps_rules)+

lemma keeps_leases [keeps_rules]:
  "keeps (chain_inv (amb_sha a)) (acquire_lease a c ow ty now ttl res)"
  "keeps (chain_inv (amb_sha a)) (validate_lease_token a c ow tok now)"
  "keeps (chain_inv (amb_sha a)) (release_lease a c owo toko now)"
  unfolding acquire_lease_def validate_lease_token_def release_lease_def take_over_lease_def
    lease_acquired_event_def Let_def
  by (intro keeps_rules; simp)+

lemma keeps_sessions [keeps_rules]:
  "keeps (chain_inv (amb_sha a)) (register_browser_session a c sid url)"
  "keeps (chain_inv (amb_sha a)) (update_browser_session a sid url st)"
  "keeps (chain_inv (amb_sha a)) (record_handoff a c reason op act)"
  unfolding register_browser_session_def update_browser_session_def record_handoff_def Let_def
  by (intro keeps_rules; simp)+

section \<open>What the lease operations do\<close>

definition leases_unique :: "db \<Rightarrow> bool" where
  "leases_unique d = unique_on ls_case_id (t_leases d)"

lemma get_lease_tables [simp]:
  "get_lease k (d\<lparr>tick := n\<rparr>) = get_lease k d"
  "get_lease k (with_event a c ty st ac p d) = get_lease k d"
  "get_lease k (ensure_head c d) = get_lease k d"
  "get_lease k (d\<lparr>t_leases := rows\<rparr>) = select_first (\<lambda>r. ls_case_id r = k) rows"
  by (simp_all add: get_lease_def)

lemma get_lease_SomeD: "get_lease k d = Some r \<Longrightarrow> r \<in> set (t_leases d) \<and> ls_case_id r = k"
  unfolding get_lease_def by (drule select_first_Some) simp

lemma update_leases_hit:
  assumes "leases_unique d" "get_lease k d = Some r" "Q r"
  shows "update_leases (\<lambda>r. ls_case_id r = k \<and> Q r) f d
    = (Ret True, d\<lparr>t_leases := update_where (\<lambda>r. ls_case_id r = k) (\<lambda>_. f r) (t_leases d)\<rparr>)"
  using guarded_update_hit [of ls_case_id "t_leases d" k r Q] assms
  by (simp add: update_leases_def leases_unique_def get_lease_def)

lemma update_leases_miss:
  assumes "leases_unique d" "\<And>r. get_lease k d = Some r \<Longrightarrow> \<not> Q r"
  shows "update_leases (\<lambda>r. ls_case_id r = k \<and> Q r) f d = (Ret False, d)"
  using guarded_update_miss [of ls_case_id "t_leases d" k Q] assms
  by (simp add: update_leases_def leases_unique_def get_lease_def)

definition put_lease :: "lease_row \<Rightarrow> db \<Rightarrow> db" where
  "put_lease r d = d\<lparr>t_leases := update_where (\<lambda>x. ls_case_id x = ls_case_id r) (\<lambda>_. r) (t_leases d)\<rparr>"

lemma get_put_lease:
  "get_lease k d = Some r \<Longrightarrow> ls_case_id s = k \<Longrightarrow> get_lease x (put_lease s d) = (if x = k then Some s else get_lease x d)"
  by (simp add: put_lease_def select_first_replaced get_lease_def)

lemma put_lease_other [simp]:
  "tick (put_lease r d) = tick d" "t_cases (put_lease r d) = t_cases d" "t_events (put_lease r d) = t_events d"
  "get_case c (put_lease r d) = get_case c d"
  by (simp_all add: put_lease_def get_case_def)

definition renewed :: "lease_row \<Rightarrow> int \<Rightarrow> int \<Rightarrow> lease_row" where
  "renewed r t ttl = r\<lparr>ls_heartbeat_at := t, ls_expires_at := t + ttl, ls_version := ls_version r + 1\<rparr>"

lemma renewed_sel [simp]:
  "ls_case_id (renewed r t ttl) = ls_case_id r" "ls_owner_id (renewed r t ttl) = ls_owner_id r"
  "ls_owner_type (renewed r t ttl) = ls_owner_type r" "ls_fencing_token (renewed r t ttl) = ls_fencing_token r"
  "ls_released_at (renewed r t ttl) = ls_released_at r" "ls_expires_at (renewed r t ttl) = t + ttl"
  by (simp_all add: renewed_def)

lemma new_lease_sel [simp]:
  "ls_case_id (new_lease c res ty ow tok v t e) = c" "ls_owner_id (new_lease c res ty ow tok v t e) = ow"
  "ls_fencing_token (new_lease c res ty ow tok v t e) = tok" "ls_released_at (new_lease c res ty ow tok v t e) = None"
  "ls_expires_at (new_lease c res ty ow tok v t e) = e" "ls_owner_type (new_lease c res ty ow tok v t e) = ty"
  by (simp_all add: new_lease_def)

definition heartbeat_ok :: "string \<Rightarrow> nat \<Rightarrow> int \<Rightarrow> lease_row \<Rightarrow> bool" where
  "heartbeat_ok ow tok t r \<longleftrightarrow> ls_owner_id r = ow \<and> ls_fencing_token r = tok \<and> lease_is_active r t"

lemma heartbeat_run:
  assumes u: "leases_unique d"
  shows "heartbeat_lease a c ow tok (Some t) ttl d =
    (case get_lease c d of
       Some r \<Rightarrow> if heartbeat_ok ow tok t r then (Ret (renewed r t ttl), put_lease (renewed r t ttl) d)
         else (Raise (LeaseConflictError (fstr [''Lease token '', str_nat tok, '' for '', c, '' is stale or expired''])), d)
     | None \<Rightarrow> (Raise (LeaseConflictError (fstr [''Lease token '', str_nat tok, '' for '', c, '' is stale or expired''])), d))"
proof -
  have P: "(\<lambda>r. ls_case_id r = c \<and> ls_owner_id r = ow \<and> ls_fencing_token r = tok \<and> ls_released_at r = None \<and> t < ls_expires_at r)
      = (\<lambda>r. ls_case_id r = c \<and> heartbeat_ok ow tok t r)"
    by (auto simp: heartbeat_ok_def lease_is_active_def)
  show ?thesis
  proof (cases "\<exists>r. get_lease c d = Some r \<and> heartbeat_ok ow tok t r")
    case True
    then obtain r where r: "get_lease c d = Some r" "heartbeat_ok ow tok t r" by blast
    have rk: "ls_case_id r = c" using get_lease_SomeD [OF r(1)] by simp
    have "update_leases (\<lambda>r. ls_case_id r = c \<and> heartbeat_ok ow tok t r) (\<lambda>r. renewed r t ttl) d
        = (Ret True, put_lease (renewed r t ttl) d)"
      using update_leases_hit [OF u r(1), of "heartbeat_ok ow tok t"] r(2) rk by (simp add: put_lease_def)
    then show ?thesis using r get_put_lease [OF r(1), of "renewed r t ttl"] rk
      unfolding heartbeat_lease_def time_or_now_def option.case bnd_ret P renewed_def [symmetric]
      by (simp add: bnd_def read_lease_def)
  next
    case False
    then have "update_leases (\<lambda>r. ls_case_id r = c \<and> heartbeat_ok ow tok t r) f d = (Ret False, d)" for f
      by (intro update_leases_miss [OF u]) blast
    then show ?thesis using False
      by (auto simp: heartbeat_lease_def time_or_now_def P bnd_def split: option.splits)
  qed
qed

lemma take_over_run:
  assumes u: "leases_unique d" and r: "get_lease c d = Some r" and free: "\<not> lease_is_active r t"
  shows "take_over_lease a c rs ty ow r t e d =
    (let s = new_lease c rs ty ow (ls_fencing_token r + 1) (ls_version r + 1) t e
     in if get_case c d = None
        then (Raise integrity_error, snd (lease_acquired_event a c ty ow (ls_fencing_token r + 1) rs e (put_lease s d)))
        else (Ret s, snd (lease_acquired_event a c ty ow (ls_fencing_token r + 1) rs e (put_lease s d))))"
proof -
  let ?s = "new_lease c rs ty ow (ls_fencing_token r + 1) (ls_version r + 1) t e"
  have "update_leases (\<lambda>x. ls_case_id x = c \<and> (ls_version x = ls_version r \<and> (ls_released_at x \<noteq> None \<or> ls_expires_at x \<le> t)))
      (\<lambda>_. ?s) d = (Ret True, put_lease ?s d)"
    using update_leases_hit [OF u r, of "\<lambda>x. ls_version x = ls_version r \<and> (ls_released_at x \<noteq> None \<or> ls_expires_at x \<le> t)"] free
    by (auto simp: put_lease_def lease_is_active_def)
  then show ?thesis
    using get_put_lease [OF r, of ?s]
    by (simp add: take_over_lease_def bnd_def andthen_def lease_acquired_event_def record_event_run read_lease_def Let_def)
qed

definition effective_time :: "ambient \<Rightarrow> int option \<Rightarrow> db \<Rightarrow> int" where
  "effective_time a now d = (case now of Some t \<Rightarrow> t | None \<Rightarrow> amb_now a (tick d))"

definition clocked :: "int option \<Rightarrow> db \<Rightarrow> db" where
  "clocked now d = (case now of Some t \<Rightarrow> d | None \<Rightarrow> d\<lparr>tick := Suc (tick d)\<rparr>)"

lemma clocked_same [simp]:
  "t_leases (clocked now d) = t_leases d" "get_lease c (clocked now d) = get_lease c d"
  "get_case c (clocked now d) = get_case c d" "t_events (clocked now d) = t_events d"
  by (cases now; simp add: clocked_def get_case_def)+

lemma at_effective_time:
  "acquire_lease a c ow ty now ttl rs d = acquire_lease a c ow ty (Some (effective_time a now d)) ttl rs (clocked now d)"
  "heartbeat_lease a c ow tok now ttl d = heartbeat_lease a c ow tok (Some (effective_time a now d)) ttl (clocked now d)"
  "release_lease a c owo toko now d = release_lease a c owo toko (Some (effective_time a now d)) (clocked now d)"
  by (cases now; simp add: acquire_lease_def heartbeat_lease_def release_lease_def time_or_now_def utc_now_def bnd_def
      effective_time_def clocked_def)+

lemma audited_lease [simp]:
  "t_leases (snd (lease_acquired_event a c ty ow tok rs e d)) = t_leases d"
  "fst (lease_acquired_event a c ty ow tok rs e d) =
     (if get_case c d = None then Raise integrity_error
      else Ret (next_event a c ''CONTROL_LEASE_ACQUIRED'' ''ownership'' ty (Some
       [(''owner_type'', VStr ty), (''owner_id'', VStr ow), (''fencing_token'', VInt (int tok)),
        (''resource_id'', VStr rs), (''expires_at'', VTime (utc e))]) d))"
  by (simp_all add: lease_acquired_event_def record_event_run)

definition valid_request :: "string \<Rightarrow> string option \<Rightarrow> int \<Rightarrow> bool" where
  "valid_request ow ty ttl \<longleftrightarrow> normalized_owner_type ow ty \<in> {''AUTOMATION'', ''HUMAN''} \<and> 0 < ttl"

text \<open>Every way an acquisition can end, with the lease table it leaves.\<close>

lemma acquire_cases:
  assumes u: "leases_unique d" and run: "acquire_lease a c ow ty (Some t) ttl rs d = (res, e)"
  obtains
    (invalid) m where "\<not> valid_request ow ty ttl" "res = Raise (ValueError m)" "e = d"
  | (fresh) "valid_request ow ty ttl" "get_lease c d = None"
      "t_leases e = t_leases d @ [new_lease c (lease_resource c rs) (normalized_owner_type ow ty) ow 1 1 t (t + ttl)]"
      "res = (if get_case c d = None then Raise integrity_error else
        Ret (new_lease c (lease_resource c rs) (normalized_owner_type ow ty) ow 1 1 t (t + ttl)))"
  | (renewal) r where "valid_request ow ty ttl" "get_lease c d = Some r" "lease_is_active r t" "ls_owner_id r = ow"
      "ls_owner_type r = normalized_owner_type ow ty" "res = Ret (renewed r t ttl)" "e = put_lease (renewed r t ttl) d"
  | (conflict) r m where "valid_request ow ty ttl" "get_lease c d = Some r" "lease_is_active r t"
      "ls_owner_id r \<noteq> ow \<or> ls_owner_type r \<noteq> normalized_owner_type ow ty" "res = Raise (LeaseConflictError m)" "e = d"
  | (takeover) r where "valid_request ow ty ttl" "get_lease c d = Some r" "\<not> lease_is_active r t"
      "t_leases e = t_leases (put_lease (new_lease c (lease_resource c rs) (normalized_owner_type ow ty) ow
         (ls_fencing_token r + 1) (ls_version r + 1) t (t + ttl)) d)"
      "res = (if get_case c d = None then Raise integrity_error else
        Ret (new_lease c (lease_resource c rs) (normalized_owner_type ow ty) ow
         (ls_fencing_token r + 1) (ls_version r + 1) t (t + ttl)))"
proof (cases "valid_request ow ty ttl")
  case False
  then show thesis using run invalid
    by (auto simp: acquire_lease_def time_or_now_def valid_request_def Let_def andthen_def bnd_def unless_raise_def
        split: if_splits)
next
  case True
  let ?ty = "normalized_owner_type ow ty" and ?rs = "lease_resource c rs"
  from True have run: "(case get_lease c d of
            None \<Rightarrow>
              andthen (change (\<lambda>d. d\<lparr>t_leases := t_leases d @ [new_lease c ?rs ?ty ow 1 1 t (t + ttl)]\<rparr>)) (
              andthen (lease_acquired_event a c ?ty ow 1 ?rs (t + ttl)) (read_lease c))
          | Some lease \<Rightarrow>
              if lease_is_active lease t
              then if ls_owner_id lease \<noteq> ow \<or> ls_owner_type lease \<noteq> ?ty
                   then fail (LeaseConflictError (fstr [''Resource '', c, '' lease is held by '', ls_owner_type lease,
                          '' owner '', sq, ls_owner_id lease, sq, '' until '', isoformat (utc (ls_expires_at lease))]))
                   else heartbeat_lease a c ow (ls_fencing_token lease) (Some t) ttl
              else take_over_lease a c ?rs ?ty ow lease t (t + ttl)) d = (res, e)"
    using run True unfolding valid_request_def acquire_lease_def time_or_now_def option.case bnd_ret Let_def unless_raise_def
    by (simp only: if_True andthen_simps bnd_gets simp_thms)
  show thesis
  proof (cases "get_lease c d")
    case None
    have "select_first (\<lambda>r. ls_case_id r = c) (t_leases d @ [new_lease c ?rs ?ty ow 1 1 t (t + ttl)])
        = Some (new_lease c ?rs ?ty ow 1 1 t (t + ttl))"
      using None by (simp add: get_lease_def select_first_append)
    then show thesis using run fresh True None
      by (auto simp: lease_acquired_event_def record_event_run andthen_def bnd_def read_lease_def get_case_def split: if_splits)
  next
    case (Some r)
    show thesis
    proof (cases "lease_is_active r t")
      case False
      then have "take_over_lease a c ?rs ?ty ow r t (t + ttl) d = (res, e)" using run Some by simp
      then show thesis
        using take_over_run [OF u Some False, of a ?rs ?ty ow "t + ttl"] True Some False
        by (intro takeover) (auto simp: Let_def split: if_splits)
    next
      case act: True
      show thesis
      proof (cases "ls_owner_id r \<noteq> ow \<or> ls_owner_type r \<noteq> ?ty")
        case True
        then have "\<exists>m. res = Raise (LeaseConflictError m) \<and> e = d" using run Some act by auto
        then show thesis using conflict \<open>valid_request ow ty ttl\<close> Some act True by blast
      next
        case False
        then show thesis using run \<open>valid_request ow ty ttl\<close> Some act
            heartbeat_run [OF u, of a c ow "ls_fencing_token r" t ttl]
          by (intro renewal) (auto simp: heartbeat_ok_def)
      qed
    qed
  qed
qed

definition release_matches :: "string option \<Rightarrow> nat option \<Rightarrow> lease_row \<Rightarrow> bool" where
  "release_matches owo toko r \<longleftrightarrow> ls_released_at r = None \<and> (case owo of None \<Rightarrow> True | Some ow \<Rightarrow> ls_owner_id r = ow) \<and>
     (case toko of None \<Rightarrow> True | Some t \<Rightarrow> ls_fencing_token r = t)"

definition released_row :: "lease_row \<Rightarrow> int \<Rightarrow> lease_row" where
  "released_row r t = r\<lparr>ls_released_at := Some t, ls_expires_at := t, ls_heartbeat_at := t, ls_version := ls_version r + 1\<rparr>"

lemma released_row_sel [simp]:
  "ls_case_id (released_row r t) = ls_case_id r" "ls_owner_id (released_row r t) = ls_owner_id r"
  "ls_fencing_token (released_row r t) = ls_fencing_token r" "ls_released_at (released_row r t) = Some t"
  by (simp_all add: released_row_def)

lemma release_cases:
  assumes u: "leases_unique d" and run: "release_lease a c owo toko (Some t) d = (res, e)"
  obtains
    (nothing) "t_leases e = t_leases d"
      "get_lease c d = None \<or> (\<exists>r. get_lease c d = Some r \<and> \<not> release_matches owo toko r)"
      "res = (if get_lease c d \<noteq> None \<and> (owo \<noteq> None \<or> toko \<noteq> None)
        then Raise (LeaseConflictError (fstr [''Lease for '', c, '' changed before release''])) else Ret (get_lease c d))"
  | (released) r where "get_lease c d = Some r" "release_matches owo toko r" "t_leases e = t_leases (put_lease (released_row r t) d)"
      "res = (if get_case c d = None then Raise integrity_error else Ret (Some (released_row r t)))"
proof (cases "get_lease c d")
  case None
  then have "res = Ret None" "e = d" using run by (simp_all add: release_lease_def time_or_now_def)
  note facts = this
  show thesis by (rule nothing) (use facts None in simp_all)
next
  case (Some r)
  have rk: "ls_case_id r = c" using get_lease_SomeD [OF Some] by simp
  note run = run [unfolded release_lease_def time_or_now_def option.case bnd_ret bnd_gets Some,
      folded release_matches_def released_row_def]
  show thesis
  proof (cases "release_matches owo toko r")
    case True
    have "update_leases (\<lambda>x. ls_case_id x = c \<and> release_matches owo toko x) (\<lambda>x. released_row x t) d
        = (Ret True, put_lease (released_row r t) d)"
      using update_leases_hit [OF u Some, of "release_matches owo toko"] True rk by (simp add: put_lease_def)
    then show thesis using run released Some True get_put_lease [OF Some, of "released_row r t"] rk
      by (auto simp: bnd_def andthen_def record_event_run split: if_splits)
  next
    case False
    then have "update_leases (\<lambda>x. ls_case_id x = c \<and> release_matches owo toko x) (\<lambda>x. released_row x t) d = (Ret False, d)"
      using Some by (intro update_leases_miss [OF u]) simp
    then have "e = d \<and> res = (if owo \<noteq> None \<or> toko \<noteq> None
        then Raise (LeaseConflictError (fstr [''Lease for '', c, '' changed before release''])) else Ret (Some r))"
      using run Some by (auto simp: bnd_def andthen_def split: if_splits)
    then show thesis by - (rule nothing, use Some False in auto)
  qed
qed

section \<open>Steps of the lease table\<close>

text \<open>One operation on the lease table that takes place no later than \<open>T\<close>.\<close>

inductive lease_step :: "ambient \<Rightarrow> int \<Rightarrow> db \<Rightarrow> db \<Rightarrow> bool" for a T where
  acquire: "acquire_lease a c ow ty now ttl rs d = (res, e) \<Longrightarrow> effective_time a now d \<le> T \<Longrightarrow> lease_step a T d e"
| heartbeat: "heartbeat_lease a c ow tok now ttl d = (res, e) \<Longrightarrow> effective_time a now d \<le> T \<Longrightarrow> lease_step a T d e"
| release: "release_lease a c owo toko now d = (res, e) \<Longrightarrow> effective_time a now d \<le> T \<Longrightarrow> lease_step a T d e"
| elsewhere: "t_leases e = t_leases d \<Longrightarrow> lease_step a T d e"

definition leases_ok :: "db \<Rightarrow> bool" where
  "leases_ok d \<longleftrightarrow> leases_unique d \<and> (\<forall>r \<in> set (t_leases d). 0 < ls_fencing_token r)"

definition lease_moves :: "int \<Rightarrow> lease_row option \<Rightarrow> lease_row option \<Rightarrow> bool" where
  "lease_moves T before after \<longleftrightarrow> after = before
     \<or> (before = None \<and> (\<exists>r. after = Some r \<and> ls_fencing_token r = 1))
     \<or> (\<exists>r s. before = Some r \<and> after = Some s \<and> ls_owner_id s = ls_owner_id r \<and> ls_fencing_token s = ls_fencing_token r)
     \<or> (\<exists>r s. before = Some r \<and> after = Some s \<and> ls_fencing_token s = ls_fencing_token r + 1 \<and>
          (ls_released_at r \<noteq> None \<or> ls_expires_at r \<le> T))"

lemma leases_ok_put:
  assumes "leases_ok d" "0 < ls_fencing_token s" "t_leases e = t_leases (put_lease s d)"
  shows "leases_ok e"
  using assms by (auto simp: leases_ok_def leases_unique_def put_lease_def set_update_where intro: unique_on_replaced)

lemma get_lease_cong: "t_leases e = t_leases d \<Longrightarrow> get_lease k e = get_lease k d"
  by (simp add: get_lease_def)

lemma leases_ok_cong: "t_leases e = t_leases d \<Longrightarrow> leases_ok e = leases_ok d"
  by (simp add: leases_ok_def leases_unique_def)

lemma lease_step_row:
  assumes ok: "leases_ok d" and step: "lease_step a T d e"
  shows "leases_ok e \<and> lease_moves T (get_lease k d) (get_lease k e)"
  using step
proof cases
  case (acquire c ow ty now ttl rs res)
  let ?t = "effective_time a now d" and ?d = "clocked now d"
  have u: "leases_unique ?d" using ok by (simp add: leases_ok_def leases_unique_def)
  show ?thesis
  proof (rule acquire_cases [OF u acquire(1) [unfolded at_effective_time(1) [of a c ow ty now]]])
    fix m assume "e = ?d"
    then show ?thesis using ok leases_ok_cong [of ?d d] by (simp add: lease_moves_def)
  next
    let ?n = "new_lease c (lease_resource c rs) (normalized_owner_type ow ty) ow 1 1 ?t (?t + ttl)"
    assume *: "get_lease c ?d = None" "t_leases e = t_leases ?d @ [?n]"
    then have "leases_ok e"
      using ok by (auto simp: leases_ok_def leases_unique_def get_lease_def select_first_None intro!: unique_on_snoc)
    moreover have "get_lease k e = (if k = c then Some ?n else get_lease k d)"
      using * by (auto simp: get_lease_def select_first_append split: option.splits)
    ultimately show ?thesis using * by (simp add: lease_moves_def)
  next
    fix r :: lease_row assume *: "get_lease c ?d = Some r" "e = put_lease (renewed r ?t ttl) ?d"
    have rk: "ls_case_id r = c" "0 < ls_fencing_token r"
      using get_lease_SomeD [OF *(1)] ok by (auto simp: leases_ok_def)
    have "leases_ok e" by (rule leases_ok_put [of ?d]) (use * rk ok leases_ok_cong [of ?d d] in simp_all)
    moreover have "get_lease k e = (if k = c then Some (renewed r ?t ttl) else get_lease k d)"
      using get_put_lease [OF *(1), of "renewed r ?t ttl" k] *(2) rk by simp
    ultimately show ?thesis using *(1) by (simp add: lease_moves_def)
  next
    fix r :: lease_row and m assume "e = ?d"
    then show ?thesis using ok leases_ok_cong [of ?d d] by (simp add: lease_moves_def)
  next
    fix r :: lease_row
    let ?n = "new_lease c (lease_resource c rs) (normalized_owner_type ow ty) ow (ls_fencing_token r + 1)
        (ls_version r + 1) ?t (?t + ttl)"
    assume *: "get_lease c ?d = Some r" "\<not> lease_is_active r ?t" "t_leases e = t_leases (put_lease ?n ?d)"
    have "leases_ok e" by (rule leases_ok_put [of ?d]) (use * ok leases_ok_cong [of ?d d] in simp_all)
    moreover have "get_lease k e = (if k = c then Some ?n else get_lease k d)"
      using get_put_lease [OF *(1), of ?n k] get_lease_cong [OF *(3), of k] by simp
    ultimately show ?thesis using * acquire(2) by (auto simp: lease_moves_def lease_is_active_def)
  qed
next
  case (heartbeat c ow tok now ttl res)
  let ?t = "effective_time a now d" and ?d = "clocked now d"
  have u: "leases_unique ?d" using ok by (simp add: leases_ok_def leases_unique_def)
  show ?thesis
  proof (cases "\<exists>r. get_lease c ?d = Some r \<and> heartbeat_ok ow tok ?t r")
    case True
    then obtain r where r: "get_lease c ?d = Some r" "heartbeat_ok ow tok ?t r" by blast
    then have e: "e = put_lease (renewed r ?t ttl) ?d"
      using heartbeat(1) heartbeat_run [OF u] unfolding at_effective_time(2) [of a c ow tok now] by simp
    have rk: "ls_case_id r = c" "0 < ls_fencing_token r"
      using get_lease_SomeD [OF r(1)] ok by (auto simp: leases_ok_def)
    have "leases_ok e" by (rule leases_ok_put [of ?d]) (use e rk ok leases_ok_cong [of ?d d] in simp_all)
    moreover have "get_lease k e = (if k = c then Some (renewed r ?t ttl) else get_lease k d)"
      using get_put_lease [OF r(1), of "renewed r ?t ttl" k] e rk by simp
    ultimately show ?thesis using r by (simp add: lease_moves_def)
  next
    case False
    then have "e = ?d"
      using heartbeat(1) heartbeat_run [OF u] unfolding at_effective_time(2) [of a c ow tok now]
      by (auto split: option.splits)
    then show ?thesis using ok leases_ok_cong [of ?d d] by (simp add: lease_moves_def)
  qed
next
  case (release c owo toko now res)
  let ?t = "effective_time a now d" and ?d = "clocked now d"
  have u: "leases_unique ?d" using ok by (simp add: leases_ok_def leases_unique_def)
  show ?thesis
  proof (rule release_cases [OF u release(1) [unfolded at_effective_time(3) [of a c owo toko now]]])
    assume "t_leases e = t_leases ?d"
    then show ?thesis using ok leases_ok_cong [of e d] get_lease_cong [of e d] by (simp add: lease_moves_def)
  next
    fix r :: lease_row assume *: "get_lease c ?d = Some r" "t_leases e = t_leases (put_lease (released_row r ?t) ?d)"
    have rk: "ls_case_id r = c" "0 < ls_fencing_token r"
      using get_lease_SomeD [OF *(1)] ok by (auto simp: leases_ok_def)
    have "leases_ok e" by (rule leases_ok_put [of ?d]) (use * rk ok leases_ok_cong [of ?d d] in simp_all)
    moreover have "get_lease k e = (if k = c then Some (released_row r ?t) else get_lease k d)"
      using get_put_lease [OF *(1), of "released_row r ?t" k] get_lease_cong [OF *(2), of k] rk by simp
    ultimately show ?thesis using * by (simp add: lease_moves_def)
  qed
next
  case elsewhere
  then show ?thesis using ok leases_ok_cong [of e d] get_lease_cong [of e d] by (simp add: lease_moves_def)
qed

section \<open>Leases are fenced\<close>

definition lease_token :: "string \<Rightarrow> db \<Rightarrow> nat" where
  "lease_token c d = (case get_lease c d of None \<Rightarrow> 0 | Some r \<Rightarrow> ls_fencing_token r)"

definition lease_owner :: "string \<Rightarrow> db \<Rightarrow> string option" where
  "lease_owner c d = map_option ls_owner_id (get_lease c d)"

text \<open>Released, or expired by time \<open>T\<close>.\<close>

definition lease_free :: "string \<Rightarrow> int \<Rightarrow> db \<Rightarrow> bool" where
  "lease_free c T d = (\<exists>r. get_lease c d = Some r \<and> (ls_released_at r \<noteq> None \<or> ls_expires_at r \<le> T))"

interpretation lease_fence: admission "\<lambda>d e. leases_ok d \<and> leases_ok e \<and> lease_step a T d e" "lease_token c"
  "lease_owner c" "\<lambda>ow n d. leases_ok d \<and> (\<exists>t. lease_token_valid c ow n t d)" "lease_free c T"
  for a T c
proof unfold_locales
  fix s t
  assume st: "leases_ok s \<and> leases_ok t \<and> lease_step a T s t"
  then have row: "lease_moves T (get_lease c s) (get_lease c t)" using lease_step_row by blast
  show "lease_token c s \<le> lease_token c t"
    using row by (auto simp: lease_moves_def lease_token_def)
  show "lease_token c t = lease_token c s \<Longrightarrow> 0 < lease_token c s \<Longrightarrow> lease_owner c t = lease_owner c s"
    using row by (auto simp: lease_moves_def lease_token_def lease_owner_def)
  show "lease_token c s < lease_token c t \<Longrightarrow> lease_token c s = 0 \<or> lease_free c T s"
    using row by (auto simp: lease_moves_def lease_token_def lease_free_def)
next
  fix ow n s
  assume "leases_ok s \<and> (\<exists>t. lease_token_valid c ow n t s)"
  then show "lease_owner c s = Some ow \<and> lease_token c s = n \<and> 0 < n"
    using get_lease_SomeD [of c s]
    by (auto simp: lease_token_valid_def lease_owner_def lease_token_def leases_ok_def split: option.splits)
qed

lemma leases_ok_run: "(lease_step a T)\<^sup>*\<^sup>* d e \<Longrightarrow> leases_ok d \<Longrightarrow> leases_ok e"
  by (induction rule: rtranclp_induct) (use lease_step_row in blast)+

lemma lease_run_guarded:
  "(lease_step a T)\<^sup>*\<^sup>* d e \<Longrightarrow> leases_ok d \<Longrightarrow> (\<lambda>d e. leases_ok d \<and> leases_ok e \<and> lease_step a T d e)\<^sup>*\<^sup>* d e"
proof (induction rule: rtranclp_induct)
  case (step y z)
  have y: "leases_ok y" using leases_ok_run [OF step.hyps(1) step.prems] .
  then have "leases_ok y \<and> leases_ok z \<and> lease_step a T y z"
    using lease_step_row [OF y step.hyps(2)] step.hyps(2) by blast
  then show ?case using step.IH [OF step.prems] by (rule rtranclp.rtrancl_into_rtrancl [rotated])
qed simp

lemma lease_run_unfree:
  "(\<lambda>d e. lease_step a T d e \<and> \<not> lease_free c T d)\<^sup>*\<^sup>* d e \<Longrightarrow> leases_ok d \<Longrightarrow>
   leases_ok e \<and> (\<lambda>d e. (leases_ok d \<and> leases_ok e \<and> lease_step a T d e) \<and> \<not> lease_free c T d)\<^sup>*\<^sup>* d e"
proof (induction rule: rtranclp_induct)
  case (step y z)
  then have y: "leases_ok y" and r: "(\<lambda>d e. (leases_ok d \<and> leases_ok e \<and> lease_step a T d e) \<and> \<not> lease_free c T d)\<^sup>*\<^sup>* d y"
    and st: "lease_step a T y z" "\<not> lease_free c T y" by auto
  have z: "leases_ok z" using lease_step_row [OF y st(1)] by blast
  then show ?case using rtranclp.rtrancl_into_rtrancl [OF r] st y by simp
qed simp

text \<open>
  what \<open>acquire_lease\<close> does in every situation of an existing case.  A free case
  is leased under token 1; the active holder renews its own lease and keeps its
  token; an active lease of anyone else is never overwritten, the attempt raises and
  changes nothing; a released or expired lease passes to the caller under the next
  token.
\<close>

theorem acquire_lease_outcome:
  assumes "leases_ok d" and "get_case c d \<noteq> None" and "valid_request ow ty ttl"
    and "acquire_lease a c ow ty (Some t) ttl rs d = (res, e)"
  shows "case get_lease c d of
      None \<Rightarrow> \<exists>l. res = Ret l \<and> get_lease c e = Some l \<and> ls_owner_id l = ow \<and> ls_fencing_token l = 1 \<and> ls_expires_at l = t + ttl
    | Some r \<Rightarrow>
        if lease_is_active r t
        then if ls_owner_id r = ow \<and> ls_owner_type r = normalized_owner_type ow ty
             then \<exists>l. res = Ret l \<and> get_lease c e = Some l \<and> ls_owner_id l = ow \<and>
                    ls_fencing_token l = ls_fencing_token r \<and> ls_expires_at l = t + ttl
             else (\<exists>m. res = Raise (LeaseConflictError m)) \<and> e = d
        else \<exists>l. res = Ret l \<and> get_lease c e = Some l \<and> ls_owner_id l = ow \<and>
               ls_fencing_token l = ls_fencing_token r + 1 \<and> ls_expires_at l = t + ttl"
proof -
  have u: "leases_unique d" using assms(1) by (simp add: leases_ok_def)
  show ?thesis
  proof (rule acquire_cases [OF u assms(4)])
    assume *: "get_lease c d = None" "t_leases e = t_leases d @
        [new_lease c (lease_resource c rs) (normalized_owner_type ow ty) ow 1 1 t (t + ttl)]"
    then have "get_lease c e = Some (new_lease c (lease_resource c rs) (normalized_owner_type ow ty) ow 1 1 t (t + ttl))"
      by (simp add: get_lease_def select_first_append)
    moreover assume "res = (if get_case c d = None then Raise integrity_error else
        Ret (new_lease c (lease_resource c rs) (normalized_owner_type ow ty) ow 1 1 t (t + ttl)))"
    ultimately show ?thesis using * assms(2) by simp
  next
    fix r :: lease_row
    assume *: "get_lease c d = Some r" "lease_is_active r t" "ls_owner_id r = ow"
      "ls_owner_type r = normalized_owner_type ow ty" "res = Ret (renewed r t ttl)" "e = put_lease (renewed r t ttl) d"
    then show ?thesis using get_put_lease [OF *(1), of "renewed r t ttl" c] get_lease_SomeD [OF *(1)] by simp
  next
    fix r :: lease_row
    let ?n = "new_lease c (lease_resource c rs) (normalized_owner_type ow ty) ow (ls_fencing_token r + 1) (ls_version r + 1) t (t + ttl)"
    assume *: "get_lease c d = Some r" "\<not> lease_is_active r t" "t_leases e = t_leases (put_lease ?n d)"
      "res = (if get_case c d = None then Raise integrity_error else Ret ?n)"
    then show ?thesis using get_put_lease [OF *(1), of ?n c] get_lease_cong [OF *(3), of c] assms(2) by simp
  qed (use assms(3) in auto)
qed

text \<open>
  a worker that lost its lease stays fenced.  After another owner's token has
  been accepted for the case, the former owner's smaller token is not accepted at
  any later time, its heartbeat raises, and releasing with it raises.
\<close>

theorem stale_lease_is_fenced:
  assumes "leases_ok d" and "lease_token_valid c o1 n t1 d" and "(lease_step a T)\<^sup>*\<^sup>* d e"
    and "lease_token_valid c o2 m t2 e" and "o1 \<noteq> o2" and "(lease_step a T)\<^sup>*\<^sup>* e f"
  shows "n < m \<and> \<not> lease_token_valid c o1 n t f
    \<and> (\<exists>msg. fst (heartbeat_lease a c o1 n (Some t) ttl f) = Raise (LeaseConflictError msg))
    \<and> (\<exists>msg. fst (release_lease a c (Some o1) (Some n) (Some t) f) = Raise (LeaseConflictError msg))"
proof -
  have e: "leases_ok e" using leases_ok_run [OF assms(3,1)] .
  have f: "leases_ok f" using leases_ok_run [OF assms(6) e] .
  have u: "leases_unique f" using f by (simp add: leases_ok_def)
  have v1: "leases_ok d \<and> (\<exists>t. lease_token_valid c o1 n t d)" and v2: "leases_ok e \<and> (\<exists>t. lease_token_valid c o2 m t e)"
    using assms e by blast+
  have nm: "n < m" and nv: "\<not> (leases_ok f \<and> (\<exists>t. lease_token_valid c o1 n t f))"
    using lease_fence.superseded_owner_refused [OF v1 lease_run_guarded [OF assms(3,1)] v2 assms(5)
        lease_run_guarded [OF assms(6) e]] by simp_all
  have "lease_token c e = m"
    using assms(4) by (auto simp: lease_token_def lease_token_valid_def split: option.splits)
  then have "m \<le> lease_token c f"
    using lease_fence.run_token_mono [OF lease_run_guarded [OF assms(6) e]] by blast
  with nm obtain r where r: "get_lease c f = Some r" "n < ls_fencing_token r"
    by (auto simp: lease_token_def split: option.splits)
  have "fst (heartbeat_lease a c o1 n (Some t) ttl f)
      = Raise (LeaseConflictError (fstr [''Lease token '', str_nat n, '' for '', c, '' is stale or expired'']))"
    using r heartbeat_run [OF u, of a c o1 n t ttl] by (simp add: heartbeat_ok_def)
  moreover have "fst (release_lease a c (Some o1) (Some n) (Some t) f)
      = Raise (LeaseConflictError (fstr [''Lease for '', c, '' changed before release'']))"
    by (rule release_cases [OF u prod.collapse [symmetric], of a c "Some o1" "Some n" t])
      (use r in \<open>auto simp: release_matches_def\<close>)
  ultimately show ?thesis using nm nv f by blast
qed

text \<open>
  C18: mutual exclusion by lease.  During a period that ends at \<open>T\<close>, as long as the
  lease of a case is neither released nor due to expire by \<open>T\<close>, nobody but its holder
  has an accepted token, however the operations of all workers interleave.
\<close>

theorem lease_mutual_exclusion:
  assumes "leases_ok d" and "lease_token_valid c o1 n t1 d"
    and "(\<lambda>d e. lease_step a T d e \<and> \<not> lease_free c T d)\<^sup>*\<^sup>* d e"
    and "lease_token_valid c o2 m t2 e"
  shows "o2 = o1 \<and> m = n"
proof -
  have e: "leases_ok e \<and> (\<lambda>d e. (leases_ok d \<and> leases_ok e \<and> lease_step a T d e) \<and> \<not> lease_free c T d)\<^sup>*\<^sup>* d e"
    using lease_run_unfree [OF assms(3,1)] .
  have v1: "leases_ok d \<and> (\<exists>t. lease_token_valid c o1 n t d)" and v2: "leases_ok e \<and> (\<exists>t. lease_token_valid c o2 m t e)"
    using assms e by blast+
  show ?thesis by (rule lease_fence.sole_admission [OF v1 conjunct2 [OF e] v2])
qed

section \<open>A concrete run\<close>

definition leased_db :: db where
  "leased_db = sample_db\<lparr>t_leases := [new_lease ''C-1'' ''C-1'' ''AUTOMATION'' ''W1'' 1 1 0 300]\<rparr>"

definition taken_db :: db where
  "taken_db = snd (acquire_lease sample_ambient ''C-1'' ''W2'' (Some ''AUTOMATION'') (Some 400) 300 None leased_db)"

lemma leased_ok: "leases_ok leased_db" "get_case ''C-1'' leased_db \<noteq> None"
  "get_lease ''C-1'' leased_db = Some (new_lease ''C-1'' ''C-1'' ''AUTOMATION'' ''W1'' 1 1 0 300)"
  by (simp_all add: leases_ok_def leases_unique_def unique_on_def leased_db_def sample_db_def get_case_def
      sample_case_row_def get_lease_def empty_db_def)

lemma taken_row: "\<exists>r. get_lease ''C-1'' taken_db = Some r \<and> ls_owner_id r = ''W2'' \<and> ls_fencing_token r = 2 \<and>
    ls_released_at r = None \<and> ls_expires_at r = 700"
proof -
  have u: "leases_unique leased_db" using leased_ok by (simp add: leases_ok_def)
  let ?n = "new_lease ''C-1'' ''C-1'' ''AUTOMATION'' ''W2'' 2 2 400 700"
  have run: "acquire_lease sample_ambient ''C-1'' ''W2'' (Some ''AUTOMATION'') (Some 400) 300 None leased_db
    = (fst (acquire_lease sample_ambient ''C-1'' ''W2'' (Some ''AUTOMATION'') (Some 400) 300 None leased_db), taken_db)"
    by (simp add: taken_db_def)
  have "t_leases taken_db = t_leases (put_lease ?n leased_db)"
    by (rule acquire_cases [OF u run])
      (use leased_ok in \<open>auto simp: taken_db_def valid_request_def normalized_owner_type_def lease_resource_def
         lease_is_active_def new_lease_def numeral_2_eq_2\<close>)
  then have "get_lease ''C-1'' taken_db = Some ?n"
    using get_put_lease [OF leased_ok(3), of ?n "''C-1''"] get_lease_cong [of taken_db "put_lease ?n leased_db" "''C-1''"] by simp
  then show ?thesis by simp
qed

theorem acquire_lease_outcome_witness:
  "(\<exists>m. fst (acquire_lease sample_ambient ''C-1'' ''W2'' (Some ''AUTOMATION'') (Some 100) 300 None leased_db)
     = Raise (LeaseConflictError m)) \<and>
   (\<exists>l. fst (acquire_lease sample_ambient ''C-1'' ''W2'' (Some ''AUTOMATION'') (Some 400) 300 None leased_db)
     = Ret l \<and> ls_fencing_token l = 2)"
proof -
  have v: "valid_request ''W2'' (Some ''AUTOMATION'') 300" by (simp add: valid_request_def normalized_owner_type_def)
  show ?thesis
    using acquire_lease_outcome [OF leased_ok(1,2) v prod.collapse [symmetric], of sample_ambient 100 None]
      acquire_lease_outcome [OF leased_ok(1,2) v prod.collapse [symmetric], of sample_ambient 400 None] leased_ok(3)
    by (auto simp: lease_is_active_def)
qed

theorem stale_lease_is_fenced_witness:
  "\<exists>msg. fst (heartbeat_lease sample_ambient ''C-1'' ''W1'' 1 (Some 500) 300 taken_db) = Raise (LeaseConflictError msg)"
proof -
  have "lease_token_valid ''C-1'' ''W1'' 1 0 leased_db"
    using leased_ok(3) by (simp add: lease_token_valid_def lease_is_active_def)
  moreover have "(lease_step sample_ambient 400)\<^sup>*\<^sup>* leased_db taken_db"
    unfolding taken_db_def
    by (intro r_into_rtranclp lease_step.acquire [OF prod.collapse [symmetric]]) (simp add: effective_time_def)
  moreover have "lease_token_valid ''C-1'' ''W2'' 2 400 taken_db"
    using taken_row by (auto simp: lease_token_valid_def lease_is_active_def)
  ultimately show ?thesis
    using stale_lease_is_fenced [OF leased_ok(1), of "''C-1''" "''W1''" 1 0 sample_ambient 400 taken_db "''W2''" 2 400 taken_db 500 300]
    by simp
qed

theorem lease_mutual_exclusion_witness:
  "\<not> lease_token_valid ''C-1'' ''W2'' 2 100
     (snd (acquire_lease sample_ambient ''C-1'' ''W2'' (Some ''AUTOMATION'') (Some 100) 300 None leased_db))"
proof
  let ?e = "snd (acquire_lease sample_ambient ''C-1'' ''W2'' (Some ''AUTOMATION'') (Some 100) 300 None leased_db)"
  assume v: "lease_token_valid ''C-1'' ''W2'' 2 100 ?e"
  have "lease_step sample_ambient 200 leased_db ?e"
    by (rule lease_step.acquire [OF prod.collapse [symmetric]]) (simp add: effective_time_def)
  then have "(\<lambda>d e. lease_step sample_ambient 200 d e \<and> \<not> lease_free ''C-1'' 200 d)\<^sup>*\<^sup>* leased_db ?e"
    using leased_ok(3) by (intro r_into_rtranclp) (simp add: lease_free_def)
  moreover have "lease_token_valid ''C-1'' ''W1'' 1 0 leased_db"
    using leased_ok(3) by (simp add: lease_token_valid_def lease_is_active_def)
  ultimately show False using lease_mutual_exclusion [OF leased_ok(1) _ _ v] by fastforce
qed

end
