(* ===== verification/Rebuild.thy ===== *)
theory Rebuild
  imports Claims Obligations Leases
begin

text \<open>
  Rebuilding the mutable tables of a case from its immutable events
  (\<open>tandem/ledger/rebuild.py\<close>).  \<open>apply_event\<close> is one turn of the replay loop on the
  dictionaries the code fills, \<open>rebuild_case\<close> the whole operation and
  \<open>snapshot_projections\<close> the business view that its callers compare.  A payload keeps
  timestamps as values, so \<open>fromisoformat\<close> of a written timestamp is that value.  The
  facts show that every operation of the repository that returns keeps the tables equal
  to the replay of the events, with one exception, the overdue marking.
\<close>

section \<open>Reading payloads\<close>

definition field :: "dict \<Rightarrow> string \<Rightarrow> val res" where
  "field d k = (case map_of d k of None \<Rightarrow> Inl (KeyError k) | Some v \<Rightarrow> Inr v)"

definition str_field :: "dict \<Rightarrow> string \<Rightarrow> string res" where
  "str_field d k = map_sum id py_str (field d k)"

definition bool_field :: "dict \<Rightarrow> string \<Rightarrow> bool res" where
  "bool_field d k = map_sum id truthy (field d k)"

definition money_field :: "dict \<Rightarrow> string \<Rightarrow> money res" where
  "money_field d k = rbind (field d k) parse_money"

fun to_datetime :: "val \<Rightarrow> datetime res" where
  "to_datetime (VTime t) = Inr (assume_utc t)"
| "to_datetime v = Inl (ValueError (fstr [''Invalid isoformat string: '', py_repr v]))"

definition due_field :: "dict \<Rightarrow> string \<Rightarrow> datetime res" where
  "due_field d k = rbind (field d k) to_datetime"

definition time_field :: "dict \<Rightarrow> string \<Rightarrow> int res" where
  "time_field d k = map_sum id instant (due_field d k)"

fun to_int :: "val \<Rightarrow> int res" where
  "to_int (VInt i) = Inr i"
| "to_int (VBool b) = Inr (if b then 1 else 0)"
| "to_int v = Inl (ValueError (fstr [''invalid literal for int() with base 10: '', py_repr v]))"

definition nat_field :: "dict \<Rightarrow> string \<Rightarrow> nat res" where
  "nat_field d k = map_sum id nat (rbind (field d k) to_int)"

definition optional_str :: "val \<Rightarrow> string option" where
  "optional_str v = (if v = VNone then None else Some (py_str v))"

definition optional_money :: "val \<Rightarrow> money option res" where
  "optional_money v = (if v = VNone then Inr None else map_sum id Some (parse_money v))"

definition payload_dict :: "dict option \<Rightarrow> dict" where
  "payload_dict p = (case p of None \<Rightarrow> [] | Some d \<Rightarrow> d)"

section \<open>The replay loop\<close>

record projection =
  pj_case :: case_row
  pj_executions :: "(nat \<times> execution_row) list"
  pj_intents :: "(string \<times> intent_row) list"
  pj_claims :: "(string \<times> claim_row) list"
  pj_deadlines :: "(string \<times> deadline_row) list"
  pj_obligations :: "(string \<times> obligation_row) list"

text \<open>The dictionaries, newest entry first, so that the first entry of a key is the current one.\<close>

fun amend :: "'k \<Rightarrow> ('r \<Rightarrow> 'r) \<Rightarrow> ('k \<times> 'r) list \<Rightarrow> ('k \<times> 'r) list" where
  "amend k f [] = []"
| "amend k f ((j, r) # rows) = (if j = k then (j, f r) # rows else (j, r) # amend k f rows)"

definition require_key :: "'k \<Rightarrow> ('k \<times> 'r) list \<Rightarrow> string list \<Rightarrow> unit res" where
  "require_key k rows msg = (if map_of rows k = None then Inl (LedgerIntegrityError (fstr msg)) else Inr ())"

definition apply_case_created :: "dict \<Rightarrow> projection \<Rightarrow> projection res" where
  "apply_case_created d p =
     rbind (str_field d ''member_id'') (\<lambda>member.
     rbind (money_field d ''amount'') (\<lambda>amount.
     rbind (str_field d ''currency'') (\<lambda>currency.
     rbind (str_field d ''procedure_name'') (\<lambda>procedure.
     rbind (str_field d ''status'') (\<lambda>status.
     rbind (bool_field d ''money_moved'') (\<lambda>moved.
     rbind (time_field d ''opened_at'') (\<lambda>opened.
     rbind (time_field d ''updated_at'') (\<lambda>updated.
       Inr (p\<lparr>pj_case := (pj_case p)\<lparr>c_member_id := member, c_amount := amount, c_currency := currency,
         c_procedure_name := procedure, c_status := status, c_money_moved := moved, c_opened_at := opened,
         c_updated_at := updated\<rparr>\<rparr>)))))))))"

definition apply_case_updated :: "dict \<Rightarrow> projection \<Rightarrow> projection res" where
  "apply_case_updated d p =
     rbind (str_field d ''status'') (\<lambda>status.
     rbind (bool_field d ''money_moved'') (\<lambda>moved.
     rbind (time_field d ''updated_at'') (\<lambda>updated.
       Inr (p\<lparr>pj_case := (pj_case p)\<lparr>c_status := status, c_money_moved := moved, c_updated_at := updated\<rparr>\<rparr>))))"

definition apply_execution_started :: "string \<Rightarrow> dict \<Rightarrow> projection \<Rightarrow> projection res" where
  "apply_execution_started cid d p =
     rbind (nat_field d ''execution_id'') (\<lambda>source.
     rbind (str_field d ''capability_id'') (\<lambda>capability.
     rbind (str_field d ''capability_version'') (\<lambda>version.
     rbind (str_field d ''effect_class'') (\<lambda>effect.
     rbind (str_field d ''status'') (\<lambda>status.
     rbind (optional_money (dict_val d ''expected_amount'')) (\<lambda>amount.
     rbind (str_field d ''actor'') (\<lambda>actor.
     rbind (time_field d ''started_at'') (\<lambda>started.
       Inr (p\<lparr>pj_executions := (source, \<lparr>ex_id = 0, ex_case_id = cid, ex_capability_id = capability,
         ex_capability_version = version, ex_effect_class = effect,
         ex_idempotency_key = optional_str (dict_val d ''idempotency_key''), ex_status = status,
         ex_expected_entity = optional_str (dict_val d ''expected_entity''), ex_observed_entity = None,
         ex_expected_amount = amount, ex_observed_amount = None, ex_failure_category = None, ex_audit_ref = None,
         ex_money_moved = False, ex_actor = actor,
         ex_browser_session_id = optional_str (dict_val d ''browser_session_id''), ex_started_at = started,
         ex_completed_at = None\<rparr>) # pj_executions p\<rparr>)))))))))"

definition apply_execution_completed :: "dict \<Rightarrow> projection \<Rightarrow> projection res" where
  "apply_execution_completed d p =
     rbind (nat_field d ''execution_id'') (\<lambda>source.
     rbind (require_key source (pj_executions p)
        [''Execution completion '', str_nat source, '' has no start event'']) (\<lambda>_.
     rbind (str_field d ''status'') (\<lambda>status.
     rbind (optional_money (dict_val d ''observed_amount'')) (\<lambda>amount.
     rbind (bool_field d ''money_moved'') (\<lambda>moved.
     rbind (time_field d ''completed_at'') (\<lambda>completed.
       Inr (p\<lparr>pj_executions := amend source (\<lambda>r. r\<lparr>ex_status := status,
         ex_observed_entity := optional_str (dict_val d ''observed_entity''), ex_observed_amount := amount,
         ex_failure_category := optional_str (dict_val d ''failure_category''),
         ex_audit_ref := optional_str (dict_val d ''audit_ref''), ex_money_moved := moved,
         ex_completed_at := Some completed\<rparr>) (pj_executions p)\<rparr>)))))))"

definition apply_intent_staged :: "string \<Rightarrow> dict \<Rightarrow> projection \<Rightarrow> projection res" where
  "apply_intent_staged cid d p =
     rbind (str_field d ''idempotency_key'') (\<lambda>key.
     rbind (str_field d ''capability_id'') (\<lambda>capability.
     rbind (str_field d ''intent_status'') (\<lambda>status.
     rbind (time_field d ''created_at'') (\<lambda>created.
       Inr (p\<lparr>pj_intents := (key, \<lparr>in_id = 0, in_case_id = cid, in_idempotency_key = key,
         in_capability_id = capability, in_status = status, in_created_at = created\<rparr>) # pj_intents p\<rparr>)))))"

definition apply_intent_committed :: "dict \<Rightarrow> projection \<Rightarrow> projection res" where
  "apply_intent_committed d p =
     rbind (str_field d ''idempotency_key'') (\<lambda>key.
     rbind (require_key key (pj_intents p) [''Committed intent '', key, '' has no staged event'']) (\<lambda>_.
       Inr (p\<lparr>pj_intents := amend key (\<lambda>r. r\<lparr>in_status := ''COMMITTED''\<rparr>) (pj_intents p)\<rparr>)))"

definition apply_effect_claimed :: "string \<Rightarrow> dict \<Rightarrow> projection \<Rightarrow> projection res" where
  "apply_effect_claimed cid d p =
     rbind (str_field d ''idempotency_key'') (\<lambda>key.
     rbind (str_field d ''institution_id'') (\<lambda>institution.
     rbind (str_field d ''procedure_id'') (\<lambda>procedure.
     rbind (str_field d ''capability_id'') (\<lambda>capability.
     rbind (str_field d ''member_id'') (\<lambda>member.
     rbind (str_field d ''account_id'') (\<lambda>account.
     rbind (money_field d ''amount'') (\<lambda>amount.
     rbind (str_field d ''currency'') (\<lambda>currency.
     rbind (str_field d ''business_reference'') (\<lambda>reference.
     rbind (str_field d ''status'') (\<lambda>status.
     rbind (str_field d ''owner_id'') (\<lambda>owner.
     rbind (nat_field d ''fencing_token'') (\<lambda>token.
     rbind (time_field d ''claimed_at'') (\<lambda>claimed.
     rbind (time_field d ''heartbeat_at'') (\<lambda>heartbeat.
     rbind (time_field d ''expires_at'') (\<lambda>expires.
     rbind (time_field d ''updated_at'') (\<lambda>updated.
       let row = \<lparr>cl_id = 0, cl_idempotency_key = key, cl_institution_id = institution, cl_procedure_id = procedure,
             cl_case_id = cid, cl_capability_id = capability, cl_member_id = member, cl_account_id = account,
             cl_amount = amount, cl_currency = currency, cl_business_reference = reference, cl_status = status,
             cl_owner_id = owner, cl_fencing_token = token, cl_claimed_at = claimed, cl_heartbeat_at = heartbeat,
             cl_expires_at = expires, cl_updated_at = updated\<rparr>
       in Inr (p\<lparr>pj_claims := (if map_of (pj_claims p) key = None then (key, row) # pj_claims p
            else amend key (\<lambda>_. row) (pj_claims p))\<rparr>)))))))))))))))))"

definition apply_claim_moved :: "dict \<Rightarrow> projection \<Rightarrow> projection res" where
  "apply_claim_moved d p =
     rbind (str_field d ''idempotency_key'') (\<lambda>key.
     rbind (require_key key (pj_claims p) [''Transitioned claim '', key, '' has no claim event'']) (\<lambda>_.
     rbind (str_field d ''status'') (\<lambda>status.
     rbind (str_field d ''owner_id'') (\<lambda>owner.
     rbind (nat_field d ''fencing_token'') (\<lambda>token.
     rbind (time_field d ''heartbeat_at'') (\<lambda>heartbeat.
     rbind (time_field d ''updated_at'') (\<lambda>updated.
       Inr (p\<lparr>pj_claims := amend key (\<lambda>r. r\<lparr>cl_status := status, cl_owner_id := owner, cl_fencing_token := token,
         cl_heartbeat_at := heartbeat, cl_updated_at := updated\<rparr>) (pj_claims p)\<rparr>))))))))"

definition apply_deadline_created :: "string \<Rightarrow> dict \<Rightarrow> projection \<Rightarrow> projection res" where
  "apply_deadline_created cid d p =
     rbind (str_field d ''deadline_type'') (\<lambda>ty.
     rbind (due_field d ''due_at'') (\<lambda>due.
     rbind (str_field d ''status'') (\<lambda>status.
       Inr (p\<lparr>pj_deadlines := (ty, \<lparr>dl_id = 0, dl_case_id = cid, dl_deadline_type = ty, dl_due_at = due,
         dl_status = status, dl_resolved_at = None\<rparr>) # pj_deadlines p\<rparr>))))"

definition apply_deadline_resolved :: "dict \<Rightarrow> projection \<Rightarrow> projection res" where
  "apply_deadline_resolved d p =
     rbind (str_field d ''deadline_type'') (\<lambda>ty.
     rbind (require_key ty (pj_deadlines p) [''Resolved deadline '', ty, '' has no creation event'']) (\<lambda>_.
     rbind (str_field d ''status'') (\<lambda>status.
     rbind (time_field d ''resolved_at'') (\<lambda>resolved.
       Inr (p\<lparr>pj_deadlines := amend ty (\<lambda>r. r\<lparr>dl_status := status, dl_resolved_at := Some resolved\<rparr>)
         (pj_deadlines p)\<rparr>)))))"

definition apply_obligation_created :: "string \<Rightarrow> dict \<Rightarrow> projection \<Rightarrow> projection res" where
  "apply_obligation_created cid d p =
     rbind (str_field d ''obligation_type'') (\<lambda>ty.
     rbind (due_field d ''due_at'') (\<lambda>due.
     rbind (str_field d ''status'') (\<lambda>status.
     rbind (time_field d ''created_at'') (\<lambda>created.
       Inr (p\<lparr>pj_obligations := (ty, \<lparr>ob_id = 0, ob_case_id = cid, ob_obligation_type = ty, ob_due_at = due,
         ob_status = status, ob_created_at = created, ob_activated_at = None, ob_satisfied_at = None\<rparr>)
         # pj_obligations p\<rparr>)))))"

definition apply_obligation_moved :: "string \<Rightarrow> string \<Rightarrow> (int \<Rightarrow> obligation_row \<Rightarrow> obligation_row) \<Rightarrow> dict \<Rightarrow> projection \<Rightarrow> projection res" where
  "apply_obligation_moved verb column stamp d p =
     rbind (str_field d ''obligation_type'') (\<lambda>ty.
     rbind (require_key ty (pj_obligations p) [verb, '' obligation '', ty, '' has no creation event'']) (\<lambda>_.
     rbind (str_field d ''status'') (\<lambda>status.
     rbind (time_field d column) (\<lambda>t.
       Inr (p\<lparr>pj_obligations := amend ty (\<lambda>r. stamp t (r\<lparr>ob_status := status\<rparr>)) (pj_obligations p)\<rparr>)))))"

definition apply_event :: "string \<Rightarrow> projection \<Rightarrow> event_row \<Rightarrow> projection res" where
  "apply_event cid p e =
     (let d = payload_dict (ev_payload e); ty = ev_event_type e in
      if ty = ''CASE_CREATED'' then apply_case_created d p
      else if ty = ''CASE_STATUS_UPDATED'' then apply_case_updated d p
      else if ty = ''MONEY_MOVED'' then Inr (p\<lparr>pj_case := (pj_case p)\<lparr>c_money_moved := True\<rparr>\<rparr>)
      else if ty = ''CAPABILITY_EXECUTION_STARTED'' then apply_execution_started cid d p
      else if ty = ''CAPABILITY_EXECUTION_COMPLETED'' then apply_execution_completed d p
      else if ty = ''INTENT_STAGED'' then apply_intent_staged cid d p
      else if ty = ''INTENT_COMMITTED'' then apply_intent_committed d p
      else if ty = ''EFFECT_CLAIMED'' then apply_effect_claimed cid d p
      else if ty = ''EFFECT_CLAIM_TRANSITIONED'' then apply_claim_moved d p
      else if ty = ''DEADLINE_CREATED'' then apply_deadline_created cid d p
      else if ty = ''DEADLINE_RESOLVED'' then apply_deadline_resolved d p
      else if ty = ''OBLIGATION_CREATED'' then apply_obligation_created cid d p
      else if ty = ''OBLIGATION_ACTIVATED''
        then apply_obligation_moved ''Activated'' ''activated_at'' (\<lambda>t r. r\<lparr>ob_activated_at := Some t\<rparr>) d p
      else if ty = ''OBLIGATION_SATISFIED''
        then apply_obligation_moved ''Satisfied'' ''satisfied_at'' (\<lambda>t r. r\<lparr>ob_satisfied_at := Some t\<rparr>) d p
      else Inr p)"

fun apply_events :: "string \<Rightarrow> projection \<Rightarrow> event_row list \<Rightarrow> projection res" where
  "apply_events cid p [] = Inr p"
| "apply_events cid p (e # es) = rbind (apply_event cid p e) (\<lambda>q. apply_events cid q es)"

definition empty_projection :: "case_row \<Rightarrow> projection" where
  "empty_projection c = \<lparr>pj_case = c, pj_executions = [], pj_intents = [], pj_claims = [], pj_deadlines = [], pj_obligations = []\<rparr>"

section \<open>Rebuilding a case\<close>

text \<open>The rows added to a table get the next row ids when the session flushes.\<close>

fun numbered :: "(nat \<Rightarrow> 'r \<Rightarrow> 'r) \<Rightarrow> nat \<Rightarrow> 'r list \<Rightarrow> 'r list" where
  "numbered set_id n [] = []"
| "numbered set_id n (r # rows) = set_id n r # numbered set_id (Suc n) rows"

definition flushed :: "('r \<Rightarrow> nat) \<Rightarrow> (nat \<Rightarrow> 'r \<Rightarrow> 'r) \<Rightarrow> ('r \<Rightarrow> bool) \<Rightarrow> ('k \<times> 'r) list \<Rightarrow> 'r list \<Rightarrow> 'r list" where
  "flushed get_id set_id mine added rows =
     (let kept = filter (\<lambda>r. \<not> mine r) rows
      in kept @ numbered set_id (next_id (map get_id kept)) (map snd (rev added)))"

definition store_projection :: "string \<Rightarrow> projection \<Rightarrow> db \<Rightarrow> db" where
  "store_projection cid p d = d\<lparr>
     t_cases := update_where (\<lambda>c. c_case_id c = cid) (\<lambda>_. pj_case p) (t_cases d),
     t_executions := flushed ex_id (\<lambda>n r. r\<lparr>ex_id := n\<rparr>) (\<lambda>r. ex_case_id r = cid) (pj_executions p) (t_executions d),
     t_intents := flushed in_id (\<lambda>n r. r\<lparr>in_id := n\<rparr>) (\<lambda>r. in_case_id r = cid) (pj_intents p) (t_intents d),
     t_claims := flushed cl_id (\<lambda>n r. r\<lparr>cl_id := n\<rparr>) (\<lambda>r. cl_case_id r = cid) (pj_claims p) (t_claims d),
     t_deadlines := flushed dl_id (\<lambda>n r. r\<lparr>dl_id := n\<rparr>) (\<lambda>r. dl_case_id r = cid) (pj_deadlines p) (t_deadlines d),
     t_obligations := flushed ob_id (\<lambda>n r. r\<lparr>ob_id := n\<rparr>) (\<lambda>r. ob_case_id r = cid) (pj_obligations p) (t_obligations d)\<rparr>"

definition delete_projections :: "string \<Rightarrow> db \<Rightarrow> db" where
  "delete_projections cid d = d\<lparr>
     t_executions := filter (\<lambda>r. ex_case_id r \<noteq> cid) (t_executions d),
     t_intents := filter (\<lambda>r. in_case_id r \<noteq> cid) (t_intents d),
     t_claims := filter (\<lambda>r. cl_case_id r \<noteq> cid) (t_claims d),
     t_deadlines := filter (\<lambda>r. dl_case_id r \<noteq> cid) (t_deadlines d),
     t_obligations := filter (\<lambda>r. ob_case_id r \<noteq> cid) (t_obligations d)\<rparr>"

text \<open>
  The new records stay pending until the final flush, so a replay that fails leaves the
  deletions only, for its caller to roll back.
\<close>

definition rebuild_case :: "ambient \<Rightarrow> string \<Rightarrow> (db, unit) prog" where
  "rebuild_case a cid =
     bnd (gets (verify_event_chain (amb_sha a) cid)) (\<lambda>v.
     if \<not> cv_valid v
     then fail (LedgerIntegrityError (fstr [''Cannot rebuild '', cid, '': event chain failed at sequence '',
            (case cv_broken_sequence v of None \<Rightarrow> ''None'' | Some n \<Rightarrow> str_nat n), '': '', cv_message v]))
     else bnd (gets (get_events_for_case cid)) (\<lambda>events.
       if events = [] \<or> ev_event_type (hd events) \<noteq> ''CASE_CREATED''
       then fail (LedgerIntegrityError (fstr [''Cannot rebuild '', cid, '': CASE_CREATED event is missing'']))
       else andthen (change (delete_projections cid)) (
         bnd (gets (get_case cid)) (\<lambda>found. case found of
           None \<Rightarrow> fail (LedgerIntegrityError (fstr [''Cannot rebuild '', cid, '': protected case anchor is missing'']))
         | Some c \<Rightarrow>
             bnd (of_res (apply_events cid (empty_projection c) events)) (\<lambda>p.
             change (store_projection cid p))))))"

lemma delete_projections_case [simp]: "get_case c (delete_projections cid d) = get_case c d"
  by (simp add: get_case_def delete_projections_def)

lemma store_deleted [simp]: "store_projection cid p (delete_projections cid d) = store_projection cid p d"
  by (simp add: store_projection_def delete_projections_def flushed_def Let_def)

section \<open>The business snapshot\<close>

definition time_text :: "int \<Rightarrow> val" where
  "time_text t = VStr (isoformat (utc t))"

definition datetime_text :: "datetime \<Rightarrow> val" where
  "datetime_text t = VStr (isoformat (utc (instant (assume_utc t))))"

definition opt_time_text :: "int option \<Rightarrow> val" where
  "opt_time_text t = (case t of None \<Rightarrow> VNone | Some i \<Rightarrow> time_text i)"

definition snapshot_execution :: "execution_row \<Rightarrow> val" where
  "snapshot_execution r = VDict
     [(''capability_id'', VStr (ex_capability_id r)), (''capability_version'', VStr (ex_capability_version r)),
      (''effect_class'', VStr (ex_effect_class r)), (''idempotency_key'', opt_str_val (ex_idempotency_key r)),
      (''status'', VStr (ex_status r)), (''expected_entity'', opt_str_val (ex_expected_entity r)),
      (''observed_entity'', opt_str_val (ex_observed_entity r)),
      (''expected_amount'', opt_money_val (ex_expected_amount r)),
      (''observed_amount'', opt_money_val (ex_observed_amount r)),
      (''failure_category'', opt_str_val (ex_failure_category r)), (''audit_ref'', opt_str_val (ex_audit_ref r)),
      (''money_moved'', VBool (ex_money_moved r)), (''actor'', VStr (ex_actor r)),
      (''browser_session_id'', opt_str_val (ex_browser_session_id r)), (''started_at'', time_text (ex_started_at r)),
      (''completed_at'', opt_time_text (ex_completed_at r))]"

definition snapshot_intent :: "intent_row \<Rightarrow> val" where
  "snapshot_intent r = VDict
     [(''idempotency_key'', VStr (in_idempotency_key r)), (''capability_id'', VStr (in_capability_id r)),
      (''intent_status'', VStr (in_status r)), (''created_at'', time_text (in_created_at r))]"

definition snapshot_claim :: "claim_row \<Rightarrow> val" where
  "snapshot_claim r = VDict
     [(''idempotency_key'', VStr (cl_idempotency_key r)), (''institution_id'', VStr (cl_institution_id r)),
      (''procedure_id'', VStr (cl_procedure_id r)), (''capability_id'', VStr (cl_capability_id r)),
      (''member_id'', VStr (cl_member_id r)), (''account_id'', VStr (cl_account_id r)),
      (''amount'', VStr (money_text (cl_amount r))), (''currency'', VStr (cl_currency r)),
      (''business_reference'', VStr (cl_business_reference r)), (''status'', VStr (cl_status r)),
      (''owner_id'', VStr (cl_owner_id r)), (''fencing_token'', VInt (int (cl_fencing_token r))),
      (''claimed_at'', time_text (cl_claimed_at r)), (''heartbeat_at'', time_text (cl_heartbeat_at r)),
      (''expires_at'', time_text (cl_expires_at r)), (''updated_at'', time_text (cl_updated_at r))]"

definition snapshot_deadline :: "deadline_row \<Rightarrow> val" where
  "snapshot_deadline r = VDict
     [(''deadline_type'', VStr (dl_deadline_type r)), (''due_at'', datetime_text (dl_due_at r)),
      (''status'', VStr (dl_status r)), (''resolved_at'', opt_time_text (dl_resolved_at r))]"

definition snapshot_obligation :: "obligation_row \<Rightarrow> val" where
  "snapshot_obligation r = VDict
     [(''obligation_type'', VStr (ob_obligation_type r)), (''due_at'', datetime_text (ob_due_at r)),
      (''status'', VStr (ob_status r)), (''created_at'', time_text (ob_created_at r)),
      (''activated_at'', opt_time_text (ob_activated_at r)), (''satisfied_at'', opt_time_text (ob_satisfied_at r))]"

definition snapshot_case :: "case_row \<Rightarrow> val" where
  "snapshot_case c = VDict
     [(''case_id'', VStr (c_case_id c)), (''member_id'', VStr (c_member_id c)),
      (''procedure_name'', VStr (c_procedure_name c)), (''amount'', VStr (money_text (c_amount c))),
      (''currency'', VStr (c_currency c)), (''status'', VStr (c_status c)),
      (''money_moved'', VBool (c_money_moved c))]"

definition snapshot_projections :: "string \<Rightarrow> db \<Rightarrow> val res" where
  "snapshot_projections cid d = (case get_case cid d of
      None \<Rightarrow> Inl (ValueError (fstr [''Case '', cid, '' does not exist'']))
    | Some c \<Rightarrow> Inr (VDict
        [(''case'', snapshot_case c),
         (''executions'', VList (map snapshot_execution (sort_key ex_id (filter (\<lambda>r. ex_case_id r = cid) (t_executions d))))),
         (''intents'', VList (map snapshot_intent (sort_key in_id (filter (\<lambda>r. in_case_id r = cid) (t_intents d))))),
         (''claims'', VList (map snapshot_claim (sort_key cl_id (filter (\<lambda>r. cl_case_id r = cid) (t_claims d))))),
         (''deadlines'', VList (map snapshot_deadline (sort_key dl_id (filter (\<lambda>r. dl_case_id r = cid) (t_deadlines d))))),
         (''obligations'', VList (map snapshot_obligation (sort_key ob_id (filter (\<lambda>r. ob_case_id r = cid) (t_obligations d)))))]))"

section \<open>Tables in step with their events\<close>

lemma apply_events_snoc:
  "apply_events cid p (es @ [e]) = rbind (apply_events cid p es) (\<lambda>q. apply_event cid q e)"
proof (induction es arbitrary: p)
  case Nil
  then show ?case by (cases "apply_event cid p e") simp_all
next
  case (Cons x es)
  then show ?case by (cases "apply_event cid p x") simp_all
qed

text \<open>The dictionary the replay holds for the rows of a table, newest first.\<close>

definition keyed :: "('r \<Rightarrow> 'k) \<Rightarrow> ('r \<Rightarrow> 'r) \<Rightarrow> 'r list \<Rightarrow> ('k \<times> 'r) list" where
  "keyed key norm rows = rev (map (\<lambda>r. (key r, norm r)) rows)"

lemma keyed_snoc: "keyed key norm (rows @ [r]) = (key r, norm r) # keyed key norm rows"
  by (simp add: keyed_def)

lemma keyed_key: "map_of (keyed key norm rows) k = None \<longleftrightarrow> k \<notin> key ` set rows"
  by (simp add: keyed_def map_of_eq_None_iff image_image)

lemma amend_append: "k \<notin> fst ` set xs \<Longrightarrow> amend k f (xs @ ys) = xs @ amend k f ys"
  by (induction k f xs rule: amend.induct) auto

lemma amend_snoc_other: "j \<noteq> k \<Longrightarrow> amend k f (xs @ [(j, r)]) = amend k f xs @ [(j, r)]"
  by (induction k f xs rule: amend.induct) auto

lemma amend_none: "k \<notin> fst ` set xs \<Longrightarrow> amend k f xs = xs"
  by (induction k f xs rule: amend.induct) auto

lemma amend_keyed:
  assumes "distinct (map key rows)" and "\<And>r. r \<in> set rows \<Longrightarrow> P r \<longleftrightarrow> key r = k"
    and "\<And>r. r \<in> set rows \<Longrightarrow> key r = k \<Longrightarrow> key (F r) = k \<and> norm (F r) = f (norm r)"
  shows "amend k f (keyed key norm rows) = keyed key norm (update_where P F rows)"
  using assms
proof (induction rows)
  case (Cons r rows)
  have ih: "amend k f (keyed key norm rows) = keyed key norm (update_where P F rows)" using Cons by simp
  have step: "keyed key norm (r # rows) = keyed key norm rows @ [(key r, norm r)]" by (simp add: keyed_def)
  show ?case
  proof (cases "key r = k")
    case True
    then have no: "k \<notin> key ` set rows" using Cons.prems(1) by auto
    then have "k \<notin> fst ` set (keyed key norm rows)" by (auto simp: keyed_def)
    then have "amend k f (keyed key norm (r # rows)) = keyed key norm rows @ [(k, f (norm r))]"
      using True by (simp add: step amend_append)
    moreover have "update_where P F rows = rows"
      using no Cons.prems(2) by (intro update_where_none) (auto simp: image_iff)
    ultimately show ?thesis using Cons.prems(2) [of r] Cons.prems(3) [of r] True
      by (simp add: keyed_def update_where_def)
  next
    case False
    have "amend k f (keyed key norm (r # rows)) = amend k f (keyed key norm rows) @ [(key r, norm r)]"
      unfolding step using False by (rule amend_snoc_other)
    then show ?thesis using ih False Cons.prems(2) [of r] by (simp add: keyed_def update_where_def)
  qed
qed (simp add: keyed_def)

definition norm_execution :: "execution_row \<Rightarrow> execution_row" where "norm_execution r = r\<lparr>ex_id := 0\<rparr>"
definition norm_intent :: "intent_row \<Rightarrow> intent_row" where "norm_intent r = r\<lparr>in_id := 0\<rparr>"
definition norm_claim :: "claim_row \<Rightarrow> claim_row" where "norm_claim r = r\<lparr>cl_id := 0\<rparr>"
definition norm_deadline :: "deadline_row \<Rightarrow> deadline_row" where
  "norm_deadline r = r\<lparr>dl_id := 0, dl_due_at := assume_utc (dl_due_at r)\<rparr>"
definition norm_obligation :: "obligation_row \<Rightarrow> obligation_row" where
  "norm_obligation r = r\<lparr>ob_id := 0, ob_due_at := assume_utc (ob_due_at r)\<rparr>"

lemmas norms = norm_execution_def norm_intent_def norm_claim_def norm_deadline_def norm_obligation_def

definition in_step :: "string \<Rightarrow> db \<Rightarrow> projection \<Rightarrow> bool" where
  "in_step cid d p \<longleftrightarrow> get_case cid d = Some (pj_case p) \<and>
     pj_executions p = keyed ex_id norm_execution (filter (\<lambda>r. ex_case_id r = cid) (t_executions d)) \<and>
     pj_intents p = keyed in_idempotency_key norm_intent (filter (\<lambda>r. in_case_id r = cid) (t_intents d)) \<and>
     pj_claims p = keyed cl_idempotency_key norm_claim (filter (\<lambda>r. cl_case_id r = cid) (t_claims d)) \<and>
     pj_deadlines p = keyed dl_deadline_type norm_deadline (filter (\<lambda>r. dl_case_id r = cid) (t_deadlines d)) \<and>
     pj_obligations p = keyed ob_obligation_type norm_obligation (filter (\<lambda>r. ob_case_id r = cid) (t_obligations d))"

definition replayed :: "string \<Rightarrow> db \<Rightarrow> bool" where
  "replayed cid d \<longleftrightarrow> case_events cid d \<noteq> [] \<and> ev_event_type (hd (case_events cid d)) = ''CASE_CREATED'' \<and>
     (\<forall>c. c_case_id c = cid \<longrightarrow> (\<exists>p. apply_events cid (empty_projection c) (case_events cid d) = Inr p \<and> in_step cid d p))"

text \<open>No row belongs to a case that does not exist, and the columns that are keys are unique.\<close>

definition rows_ok :: "db \<Rightarrow> bool" where
  "rows_ok d \<longleftrightarrow> unique_on c_case_id (t_cases d) \<and> unique_on ex_id (t_executions d) \<and>
     unique_on in_idempotency_key (t_intents d) \<and> claims_ok d \<and> agenda_ok d \<and>
     (\<forall>e \<in> set (t_events d). get_case (ev_case_id e) d \<noteq> None) \<and>
     (\<forall>r \<in> set (t_executions d). get_case (ex_case_id r) d \<noteq> None) \<and>
     (\<forall>r \<in> set (t_intents d). get_case (in_case_id r) d \<noteq> None) \<and>
     (\<forall>r \<in> set (t_claims d). get_case (cl_case_id r) d \<noteq> None \<and> m_cents (cl_amount r) \<le> max_money_cents) \<and>
     (\<forall>r \<in> set (t_deadlines d). get_case (dl_case_id r) d \<noteq> None) \<and>
     (\<forall>r \<in> set (t_obligations d). get_case (ob_case_id r) d \<noteq> None)"

definition replay_inv :: "(string \<Rightarrow> string) \<Rightarrow> db \<Rightarrow> bool" where
  "replay_inv sha d \<longleftrightarrow> chain_inv sha d \<and> rows_ok d \<and> (\<forall>cid. get_case cid d \<noteq> None \<longrightarrow> replayed cid d)"

definition same_for :: "string \<Rightarrow> db \<Rightarrow> db \<Rightarrow> bool" where
  "same_for x d e \<longleftrightarrow> get_case x e = get_case x d \<and>
     filter (\<lambda>r. ex_case_id r = x) (t_executions e) = filter (\<lambda>r. ex_case_id r = x) (t_executions d) \<and>
     filter (\<lambda>r. in_case_id r = x) (t_intents e) = filter (\<lambda>r. in_case_id r = x) (t_intents d) \<and>
     filter (\<lambda>r. cl_case_id r = x) (t_claims e) = filter (\<lambda>r. cl_case_id r = x) (t_claims d) \<and>
     filter (\<lambda>r. dl_case_id r = x) (t_deadlines e) = filter (\<lambda>r. dl_case_id r = x) (t_deadlines d) \<and>
     filter (\<lambda>r. ob_case_id r = x) (t_obligations e) = filter (\<lambda>r. ob_case_id r = x) (t_obligations d)"

lemma in_step_same: "same_for x d e \<Longrightarrow> in_step x e p = in_step x d p"
  by (simp add: same_for_def in_step_def)

lemma replayed_same:
  "same_for x d e \<Longrightarrow> case_events x e = case_events x d \<Longrightarrow> replayed x e = replayed x d"
  by (simp add: replayed_def in_step_same)

lemma replay_quiet:
  assumes inv: "replay_inv sha d" and ev: "t_events e = t_events d" "t_heads e = t_heads d"
    and same: "\<And>x. same_for x d e" and rows: "rows_ok e"
  shows "replay_inv sha e"
proof -
  have "case_events x e = case_events x d" for x using ev by (simp add: case_events_def)
  moreover have "get_case x e = get_case x d" for x using same by (simp add: same_for_def)
  ultimately show ?thesis
    using inv rows same chain_inv_cong [OF ev] by (auto simp: replay_inv_def replayed_same [of _ d e])
qed

text \<open>An operation keeps the tables in step if its event replays to its change of the tables.\<close>

lemma replay_step:
  assumes inv: "replay_inv sha d" and c: "get_case cid d \<noteq> None" and chain: "chain_inv sha e" and rows: "rows_ok e"
    and ev: "t_events e = t_events d @ [x]" "ev_case_id x = cid"
    and same: "\<And>y. y \<noteq> cid \<Longrightarrow> same_for y d e"
    and event: "\<And>p. in_step cid d p \<Longrightarrow> \<exists>q. apply_event cid p x = Inr q \<and> in_step cid e q"
  shows "replay_inv sha e"
proof -
  have "replayed y e" if y: "get_case y e \<noteq> None" for y
  proof (cases "y = cid")
    case True
    have r: "replayed cid d" using inv c by (simp add: replay_inv_def)
    have ce: "case_events cid e = case_events cid d @ [x]" using ev by (simp add: case_events_def)
    have "\<exists>q. apply_events cid (empty_projection k) (case_events cid e) = Inr q \<and> in_step cid e q" if k: "c_case_id k = cid" for k
    proof -
      obtain p where p: "apply_events cid (empty_projection k) (case_events cid d) = Inr p" "in_step cid d p"
        using r k unfolding replayed_def by blast
      show ?thesis using event [OF p(2)] p(1) by (simp add: ce apply_events_snoc)
    qed
    moreover have "case_events cid e \<noteq> []" "ev_event_type (hd (case_events cid e)) = ''CASE_CREATED''"
      using r by (simp_all add: ce replayed_def)
    ultimately show ?thesis using True by (simp add: replayed_def)
  next
    case False
    then have "case_events y e = case_events y d" using ev by (simp add: case_events_def)
    moreover have "get_case y d \<noteq> None" using y same [OF False] by (simp add: same_for_def)
    ultimately show ?thesis using inv replayed_same [OF same [OF False]] by (simp add: replay_inv_def)
  qed
  then show ?thesis using chain rows by (simp add: replay_inv_def)
qed

lemma get_case_tables [simp]:
  "get_case x (d\<lparr>tick := n\<rparr>) = get_case x d" "get_case x (d\<lparr>t_executions := es\<rparr>) = get_case x d"
  "get_case x (d\<lparr>t_intents := is\<rparr>) = get_case x d" "get_case x (d\<lparr>t_claims := cs\<rparr>) = get_case x d"
  "get_case x (d\<lparr>t_deadlines := ds\<rparr>) = get_case x d" "get_case x (d\<lparr>t_obligations := os\<rparr>) = get_case x d"
  "get_case x (d\<lparr>t_leases := ls\<rparr>) = get_case x d" "get_case x (d\<lparr>t_sessions := ss\<rparr>) = get_case x d"
  by (simp_all add: get_case_def)

lemma claims_ok_tables:
  "t_claims e = t_claims d \<Longrightarrow> claims_ok e = claims_ok d"
  by (simp add: claims_ok_def claims_unique_def)

lemma agenda_ok_tables:
  "t_deadlines e = t_deadlines d \<Longrightarrow> t_obligations e = t_obligations d \<Longrightarrow> agenda_ok e = agenda_ok d"
  by (simp add: agenda_ok_def)

text \<open>Fields of the payloads that the operations write.\<close>

lemma field_simps [simp]:
  "map_of d k = Some (VStr s) \<Longrightarrow> str_field d k = Inr s"
  "map_of d k = Some (VBool b) \<Longrightarrow> bool_field d k = Inr b"
  "map_of d k = Some (VBool False) \<Longrightarrow> bool_field d k = Inr False"
  "map_of d k = Some (VTime (utc t)) \<Longrightarrow> time_field d k = Inr t"
  "map_of d k = Some (VTime u) \<Longrightarrow> due_field d k = Inr (assume_utc u)"
  "map_of d k = Some (VInt (int n)) \<Longrightarrow> nat_field d k = Inr n"
  by (simp_all add: str_field_def bool_field_def time_field_def due_field_def nat_field_def field_def)

lemma money_field_text [simp]:
  "map_of d k = Some (VStr (money_text m)) \<Longrightarrow> m_cents m \<le> max_money_cents \<Longrightarrow> money_field d k = Inr m"
  by (simp add: money_field_def field_def parse_money_money_text)

lemma optional_fields [simp]:
  "optional_str (opt_str_val s) = s"
  "(\<And>m. x = Some m \<Longrightarrow> m_cents m \<le> max_money_cents) \<Longrightarrow> optional_money (opt_money_val x) = Inr x"
  by (cases s; simp add: optional_str_def opt_str_val_def)
    (cases x; simp add: optional_money_def opt_money_val_def parse_money_money_text)

lemma opt_money_bound: "opt_money v = Inr (Some m) \<Longrightarrow> m_cents m \<le> max_money_cents"
  by (auto simp: opt_money_def split: option.splits sum.splits dest: parse_money_le simp: map_sum_def)

lemma assume_utc_idem [simp]: "assume_utc (assume_utc t) = assume_utc t"
  by (simp add: assume_utc_def split: option.splits)

lemma same_for_refl [simp]: "same_for x d d"
  by (simp add: same_for_def)

lemma same_for_with_event [simp]: "same_for x d (with_event a c ty st ac p m) = same_for x d m"
  by (simp add: same_for_def)

lemma in_step_with_event [simp]: "in_step x (with_event a c ty st ac p m) q = in_step x m q"
  by (simp add: in_step_def)

lemma rows_ok_with_event: "rows_ok m \<Longrightarrow> get_case c m \<noteq> None \<Longrightarrow> rows_ok (with_event a c ty st ac p m)"
  using claims_ok_tables [of "with_event a c ty st ac p m" m] agenda_ok_tables [of "with_event a c ty st ac p m" m]
  by (simp add: rows_ok_def)

definition replays_as :: "string \<Rightarrow> string \<Rightarrow> dict \<Rightarrow> db \<Rightarrow> db \<Rightarrow> bool" where
  "replays_as cid ty pl d m \<longleftrightarrow> (\<forall>p. in_step cid d p \<longrightarrow>
     (\<exists>q. (\<forall>x. ev_event_type x = ty \<longrightarrow> ev_payload x = Some pl \<longrightarrow> apply_event cid p x = Inr q) \<and> in_step cid m q))"

lemma replay_audited:
  assumes inv: "replay_inv (amb_sha a) d" and c: "get_case cid d \<noteq> None" "get_case cid m \<noteq> None"
    and quiet: "t_events m = t_events d" "t_heads m = t_heads d"
    and rows: "rows_ok m" and same: "\<And>y. y \<noteq> cid \<Longrightarrow> same_for y d m"
    and event: "replays_as cid ty pl d m"
  shows "replay_inv (amb_sha a) (with_event a cid ty st ac (Some pl) m)"
proof (rule replay_step [OF inv c(1)])
  let ?x = "next_event a cid ty st ac (Some pl) m"
  have "chain_inv (amb_sha a) m" using inv chain_inv_cong [OF quiet] by (simp add: replay_inv_def)
  then show "chain_inv (amb_sha a) (with_event a cid ty st ac (Some pl) m)" by (rule chain_inv_with_event)
  show "rows_ok (with_event a cid ty st ac (Some pl) m)" using rows c(2) by (rule rows_ok_with_event)
  show "t_events (with_event a cid ty st ac (Some pl) m) = t_events d @ [?x]" using quiet by simp
  show "ev_case_id ?x = cid" by simp
  show "same_for y d (with_event a cid ty st ac (Some pl) m)" if "y \<noteq> cid" for y using same [OF that] by simp
  show "\<exists>q. apply_event cid p ?x = Inr q \<and> in_step cid (with_event a cid ty st ac (Some pl) m) q" if "in_step cid d p" for p
    using event that unfolding replays_as_def in_step_with_event by (metis next_event_sel(2,5))
qed

text \<open>Events the replay does not know, and \<open>MONEY_MOVED\<close> on a case whose money has moved.\<close>

definition silent_type :: "string \<Rightarrow> bool" where
  "silent_type ty \<longleftrightarrow> ty \<notin> {''CASE_CREATED'', ''CASE_STATUS_UPDATED'', ''MONEY_MOVED'', ''CAPABILITY_EXECUTION_STARTED'',
     ''CAPABILITY_EXECUTION_COMPLETED'', ''INTENT_STAGED'', ''INTENT_COMMITTED'', ''EFFECT_CLAIMED'',
     ''EFFECT_CLAIM_TRANSITIONED'', ''DEADLINE_CREATED'', ''DEADLINE_RESOLVED'', ''OBLIGATION_CREATED'',
     ''OBLIGATION_ACTIVATED'', ''OBLIGATION_SATISFIED''}"

lemma apply_silent: "silent_type (ev_event_type x) \<Longrightarrow> apply_event cid p x = Inr p"
  by (simp add: silent_type_def apply_event_def Let_def)

lemma replay_silent:
  assumes inv: "replay_inv (amb_sha a) d" and c: "get_case cid d = Some c"
    and quiet: "t_events m = t_events d" "t_heads m = t_heads d" "\<And>y. same_for y d m" "rows_ok m"
    and ty: "silent_type ty \<or> ty = ''MONEY_MOVED'' \<and> c_money_moved c"
  shows "replay_inv (amb_sha a) (with_event a cid ty st ac pl m)"
proof (rule replay_step [OF inv])
  let ?x = "next_event a cid ty st ac pl m"
  have m: "get_case cid m \<noteq> None" using quiet(3) [of cid] c by (simp add: same_for_def)
  have "chain_inv (amb_sha a) m" using inv chain_inv_cong [OF quiet(1,2)] by (simp add: replay_inv_def)
  then show "chain_inv (amb_sha a) (with_event a cid ty st ac pl m)" by (rule chain_inv_with_event)
  show "rows_ok (with_event a cid ty st ac pl m)" using quiet(4) m by (rule rows_ok_with_event)
  show "t_events (with_event a cid ty st ac pl m) = t_events d @ [?x]" using quiet by simp
  show "ev_case_id ?x = cid" by simp
  show "get_case cid d \<noteq> None" using c by simp
  show "same_for y d (with_event a cid ty st ac pl m)" for y using quiet(3) by simp
  show "\<exists>q. apply_event cid p ?x = Inr q \<and> in_step cid (with_event a cid ty st ac pl m) q" if p: "in_step cid d p" for p
  proof -
    have "in_step cid m p" using in_step_same [OF quiet(3)] p by blast
    moreover have "apply_event cid p ?x = Inr p"
    proof (cases "silent_type ty")
      case True
      then show ?thesis by (intro apply_silent) simp
    next
      case False
      moreover have "pj_case p = c" using p c by (simp add: in_step_def)
      ultimately show ?thesis using ty by (simp add: apply_event_def Let_def)
    qed
    ultimately show ?thesis by auto
  qed
qed

end
