(* ===== verification/RebuildSteps.thy ===== *)
theory RebuildSteps
  imports Rebuild
begin

text \<open>
  Every operation of the repository that returns leaves the tables equal to the replay
  of the events.  One lemma per operation, then the step relation that closes over all
  of them, and the theorem that rebuilding a case changes no row of its business view.
\<close>

section \<open>The operations, one by one\<close>

lemma replay_record_event:
  assumes "replay_inv (amb_sha a) d" "record_event a cid ty st ac pl d = (Ret r, e)"
    and "silent_type ty \<or> ty = ''MONEY_MOVED'' \<and> (\<forall>c. get_case cid d = Some c \<longrightarrow> c_money_moved c)"
  shows "replay_inv (amb_sha a) e"
proof -
  obtain c where c: "get_case cid d = Some c" and e: "e = with_event a cid ty st ac pl d"
    using assms(2) by (auto simp: record_event_run split: if_splits)
  show ?thesis unfolding e
    by (rule replay_silent [OF assms(1) c]) (use assms c in \<open>auto simp: replay_inv_def\<close>)
qed

lemma replay_create_case:
  assumes inv: "replay_inv (amb_sha a) d" and run: "create_or_get_case a cid mid amt cur proc d = (Ret r, e)"
  shows "replay_inv (amb_sha a) e"
proof (cases "get_case cid d")
  case (Some c)
  then have "e = d\<lparr>tick := Suc (tick d)\<rparr>"
    using run by (cases "parse_money amt") (auto simp: create_or_get_case_def bnd_def andthen_def utc_now_def)
  then show ?thesis
    using inv by (intro replay_quiet [OF inv]) (simp_all add: replay_inv_def rows_ok_def same_for_def
      claims_ok_tables [of "d\<lparr>tick := Suc (tick d)\<rparr>" d] agenda_ok_tables [of "d\<lparr>tick := Suc (tick d)\<rparr>" d])
next
  case None
  obtain m where m: "parse_money amt = Inr m"
    using run by (cases "parse_money amt") (auto simp: create_or_get_case_def bnd_def andthen_def utc_now_def)
  define now where "now = amb_now a (tick d)"
  define c where "c = \<lparr>c_case_id = cid, c_member_id = mid, c_procedure_name = proc, c_amount = m, c_currency = cur,
     c_status = ''RECEIVED'', c_money_moved = False, c_opened_at = now, c_updated_at = now\<rparr>"
  define d1 where "d1 = d\<lparr>tick := Suc (tick d), t_cases := t_cases d @ [c]\<rparr>"
  define pl where "pl = [(''member_id'', VStr mid), (''amount'', VStr (money_text m)), (''currency'', VStr cur),
     (''procedure_name'', VStr proc), (''status'', VStr ''RECEIVED''), (''money_moved'', VBool False),
     (''opened_at'', VTime (utc now)), (''updated_at'', VTime (utc now))]"
  let ?x = "next_event a cid ''CASE_CREATED'' ''orchestrator'' ''AUTOMATION'' (Some pl) d1"
  have c1: "get_case cid d1 = Some c" using None by (simp add: d1_def get_case_def select_first_append c_def)
  have e: "e = with_event a cid ''CASE_CREATED'' ''orchestrator'' ''AUTOMATION'' (Some pl) d1"
    using run m c1 None unfolding pl_def
    by (auto simp: create_or_get_case_def bnd_def andthen_def utc_now_def now_def [symmetric] c_def [symmetric] d1_def)
  have gc: "get_case y d1 = (if y = cid then Some c else get_case y d)" for y
    using c1 by (auto simp: d1_def get_case_def select_first_append c_def split: option.splits)
  have rows: "rows_ok d" using inv by (simp add: replay_inv_def)
  have rows1: "rows_ok d1"
  proof -
    have "unique_on c_case_id (t_cases d1)"
      using rows None unfolding d1_def rows_ok_def
      by (auto simp: get_case_def select_first_None c_def intro!: unique_on_snoc)
    then show ?thesis
      using rows gc claims_ok_tables [of d1 d] agenda_ok_tables [of d1 d] by (simp add: rows_ok_def) (simp add: d1_def)
  qed
  have chain: "chain_inv (amb_sha a) e"
    unfolding e by (rule chain_inv_with_event) (use inv in \<open>simp add: d1_def replay_inv_def\<close>)
  have none: "filter (\<lambda>x. ev_case_id x = cid) (t_events d) = []"
    "filter (\<lambda>r. ex_case_id r = cid) (t_executions d) = []" "filter (\<lambda>r. in_case_id r = cid) (t_intents d) = []"
    "filter (\<lambda>r. cl_case_id r = cid) (t_claims d) = []" "filter (\<lambda>r. dl_case_id r = cid) (t_deadlines d) = []"
    "filter (\<lambda>r. ob_case_id r = cid) (t_obligations d) = []"
    using rows None by (auto simp: rows_ok_def filter_empty_conv)
  have "replayed y e" if y: "get_case y e \<noteq> None" for y
  proof (cases "y = cid")
    case True
    have ce: "case_events cid e = [?x]" using none by (simp add: e case_events_def d1_def)
    have "apply_events cid (empty_projection k) [?x] = Inr (empty_projection c)" if "c_case_id k = cid" for k
    proof -
      have "m_cents m \<le> max_money_cents" using m by (rule parse_money_le)
      then have "apply_case_created pl (empty_projection k) = Inr (empty_projection c)"
        using that by (cases k) (simp add: apply_case_created_def pl_def empty_projection_def c_def)
      then show ?thesis by (simp add: apply_event_def payload_dict_def)
    qed
    moreover have "in_step cid e (empty_projection c)"
      using none c1 unfolding e in_step_with_event by (simp add: in_step_def empty_projection_def d1_def keyed_def)
    ultimately show ?thesis using True by (auto simp: replayed_def ce)
  next
    case False
    then have "same_for y d e" using gc by (simp add: e same_for_def) (simp add: d1_def)
    moreover have "case_events y e = case_events y d" using False by (simp add: e case_events_def d1_def)
    moreover have "get_case y d \<noteq> None" using y gc False by (simp add: e)
    ultimately show ?thesis using inv replayed_same by (auto simp: replay_inv_def)
  qed
  then show ?thesis using chain rows1 c1 by (simp add: replay_inv_def e rows_ok_with_event)
qed

lemma rows_ok_set:
  "rows_ok (d\<lparr>tick := n\<rparr>) = rows_ok d"
  "rows_ok d \<Longrightarrow> unique_on ex_id es \<Longrightarrow> (\<And>r. r \<in> set es \<Longrightarrow> get_case (ex_case_id r) d \<noteq> None) \<Longrightarrow>
   rows_ok (d\<lparr>t_executions := es\<rparr>)"
  "rows_ok d \<Longrightarrow> unique_on in_idempotency_key is \<Longrightarrow> (\<And>r. r \<in> set is \<Longrightarrow> get_case (in_case_id r) d \<noteq> None) \<Longrightarrow>
   rows_ok (d\<lparr>t_intents := is\<rparr>)"
  "rows_ok d \<Longrightarrow> claims_ok (d\<lparr>t_claims := cs\<rparr>) \<Longrightarrow>
   (\<And>r. r \<in> set cs \<Longrightarrow> get_case (cl_case_id r) d \<noteq> None \<and> m_cents (cl_amount r) \<le> max_money_cents) \<Longrightarrow>
   rows_ok (d\<lparr>t_claims := cs\<rparr>)"
  "rows_ok d \<Longrightarrow> agenda_ok (d\<lparr>t_deadlines := ds\<rparr>) \<Longrightarrow>
   (\<And>r. r \<in> set ds \<Longrightarrow> get_case (dl_case_id r) d \<noteq> None) \<Longrightarrow> rows_ok (d\<lparr>t_deadlines := ds\<rparr>)"
  "rows_ok d \<Longrightarrow> agenda_ok (d\<lparr>t_obligations := os\<rparr>) \<Longrightarrow>
   (\<And>r. r \<in> set os \<Longrightarrow> get_case (ob_case_id r) d \<noteq> None) \<Longrightarrow> rows_ok (d\<lparr>t_obligations := os\<rparr>)"
  by (simp_all add: rows_ok_def claims_ok_def claims_unique_def agenda_ok_def)

lemma replay_tick [simp]: "replay_inv sha (d\<lparr>tick := n\<rparr>) = replay_inv sha d"
  by (simp add: replay_inv_def rows_ok_set replayed_def in_step_def case_events_def)

lemma in_step_tick [simp]: "in_step c (d\<lparr>tick := n\<rparr>) p = in_step c d p"
  by (simp add: in_step_def)

lemma update_update:
  "(\<And>r. P (g r) = P r) \<Longrightarrow> update_where P (\<lambda>_. s) (update_where P g rows) = update_where P (\<lambda>_. s) rows"
  by (simp add: update_where_def)

lemma update_same_elsewhere:
  "(\<And>r. r \<in> set rows \<Longrightarrow> P r \<Longrightarrow> \<not> Q r) \<Longrightarrow> \<not> Q s \<Longrightarrow> filter Q (update_where P (\<lambda>_. s) rows) = filter Q rows"
  by (rule filter_update_where_other) simp

text \<open>Replacing the row \<open>r\<close> of a table, seen from the dictionary of its case.\<close>

lemma keyed_replace:
  assumes "r \<in> set rows" "Q r" "Q s" "distinct (map key (filter Q rows))" "key s = key r"
    and "\<And>x. x \<in> set rows \<Longrightarrow> P x \<longleftrightarrow> x = r" and "norm s = f (norm r)"
  shows "amend (key r) f (keyed key norm (filter Q rows)) = keyed key norm (filter Q (update_where P (\<lambda>_. s) rows))"
proof -
  have fil: "filter Q (update_where P (\<lambda>_. s) rows) = update_where P (\<lambda>_. s) (filter Q rows)"
    by (rule filter_update_where_same) (use assms in auto)
  have uniq: "x = r" if "x \<in> set (filter Q rows)" "key x = key r" for x
    using assms(1,2,4) that by (auto simp: distinct_map inj_on_def)
  show ?thesis unfolding fil
    by (rule amend_keyed) (use assms uniq in auto)
qed

lemma keyed_has: "r \<in> set rows \<Longrightarrow> Q r \<Longrightarrow> map_of (keyed key norm (filter Q rows)) (key r) \<noteq> None"
  by (simp only: keyed_key) simp

lemma replay_update_case:
  assumes inv: "replay_inv (amb_sha a) d" and run: "update_case_status a cid status mm d = (Ret r, e)"
  shows "replay_inv (amb_sha a) e"
proof -
  obtain c where c: "get_case cid d = Some c"
    using run by (cases "get_case cid d") (auto simp: update_case_status_def)
  define now where "now = amb_now a (tick d)"
  define moved where "moved = (case mm of None \<Rightarrow> c_money_moved c | Some m \<Rightarrow> c_money_moved c \<or> m)"
  define c' where "c' = c\<lparr>c_status := status, c_money_moved := moved, c_updated_at := now\<rparr>"
  define m where "m = set_case cid (\<lambda>_. c') (d\<lparr>tick := Suc (tick d)\<rparr>)"
  define pl where "pl = [(''status'', VStr status), (''money_moved'', VBool moved), (''updated_at'', VTime (utc now))]"
  have cid: "c_case_id c = cid" using c by (auto simp: get_case_def dest: select_first_Some)
  have gm: "get_case y m = (if y = cid then Some c' else get_case y d)" for y
    using c cid select_first_replaced [of c_case_id c' cid y "t_cases d"]
    by (simp add: m_def set_case_def get_case_def c'_def)
  have e: "e = with_event a cid ''CASE_STATUS_UPDATED'' ''orchestrator'' ''AUTOMATION'' (Some pl) m"
    using run c gm [of cid]
    by (auto simp: update_case_status_def bnd_def andthen_def utc_now_def Let_def now_def [symmetric] moved_def [symmetric]
        c'_def [symmetric] pl_def m_def set_case_def record_event_run split: if_splits)
  have rows: "rows_ok d" using inv by (simp add: replay_inv_def)
  have "unique_on c_case_id (t_cases m)"
    using rows by (simp add: m_def set_case_def rows_ok_def c'_def cid unique_on_replaced)
  then have rows_m: "rows_ok m"
    using rows gm claims_ok_tables [of m d] agenda_ok_tables [of m d]
    by (simp add: rows_ok_def) (simp add: m_def set_case_def)
  have "replays_as cid ''CASE_STATUS_UPDATED'' pl d m"
    unfolding replays_as_def
  proof (intro allI impI)
    fix p assume p: "in_step cid d p"
    then have "pj_case p = c" using c by (simp add: in_step_def)
    then have "apply_case_updated pl p = Inr (p\<lparr>pj_case := c'\<rparr>)"
      using field_simps(1,3) by (cases moved) (simp_all add: apply_case_updated_def pl_def c'_def bool_field_def field_def)
    moreover have "in_step cid m (p\<lparr>pj_case := c'\<rparr>)"
      using p gm [of cid] by (simp add: in_step_def) (simp add: m_def set_case_def)
    ultimately show "\<exists>q. (\<forall>x. ev_event_type x = ''CASE_STATUS_UPDATED'' \<longrightarrow> ev_payload x = Some pl \<longrightarrow> apply_event cid p x = Inr q)
        \<and> in_step cid m q"
      by (auto simp: apply_event_def payload_dict_def)
  qed
  then show ?thesis unfolding e
    using c gm [of cid] rows_m
    by (intro replay_audited [OF inv])
      (auto simp: same_for_def gm, simp_all add: m_def set_case_def)
qed

lemma replay_start_execution:
  assumes inv: "replay_inv (amb_sha a) d" and run: "start_execution a cid cap ver ec key ee ea ac bs d = (Ret r, e)"
  shows "replay_inv (amb_sha a) e"
proof -
  obtain amount where am: "opt_money ea = Inr amount"
    using run by (cases "opt_money ea") (auto simp: start_execution_def)
  define now where "now = amb_now a (tick d)"
  define rid where "rid = next_id (map ex_id (t_executions d))"
  define row where "row = \<lparr>ex_id = rid, ex_case_id = cid, ex_capability_id = cap, ex_capability_version = ver,
     ex_effect_class = ec, ex_idempotency_key = key, ex_status = ''RUNNING'', ex_expected_entity = ee,
     ex_observed_entity = None, ex_expected_amount = amount, ex_observed_amount = None, ex_failure_category = None,
     ex_audit_ref = None, ex_money_moved = False, ex_actor = ac, ex_browser_session_id = bs, ex_started_at = now,
     ex_completed_at = None\<rparr>"
  define pl where "pl = [(''execution_id'', VInt (int rid)), (''capability_id'', VStr cap),
     (''capability_version'', VStr ver), (''effect_class'', VStr ec),
     (''idempotency_key'', opt_str_val key), (''status'', VStr ''RUNNING''),
     (''expected_entity'', opt_str_val ee), (''expected_amount'', opt_money_val amount),
     (''actor'', VStr ac), (''browser_session_id'', opt_str_val bs), (''started_at'', VTime (utc now))]"
  define m where "m = d\<lparr>tick := Suc (tick d), t_executions := t_executions d @ [row]\<rparr>"
  have c: "get_case cid d \<noteq> None" and e: "e = with_event a cid ''CAPABILITY_EXECUTION_STARTED'' cap ac (Some pl) m"
    using run am unfolding start_execution_def Let_def
    by (auto simp: bnd_def andthen_def utc_now_def require_case_row_def unless_raise_def now_def rid_def
        row_def pl_def m_def record_event_run split: if_splits)
  have rows: "rows_ok d" using inv by (simp add: replay_inv_def)
  have "ex_id x \<noteq> rid" if "x \<in> set (t_executions d)" for x
    using next_id_fresh [of "ex_id x" "map ex_id (t_executions d)"] that by (auto simp: rid_def)
  then have "unique_on ex_id (t_executions d @ [row])"
    using rows by (intro unique_on_snoc) (simp_all add: rows_ok_def row_def)
  moreover have "get_case (ex_case_id x) d \<noteq> None" if "x \<in> set (t_executions d @ [row])" for x
    using that rows c by (auto simp: rows_ok_def row_def)
  ultimately have rows_m: "rows_ok m"
    unfolding m_def by - (rule rows_ok_set(2), simp_all only: rows_ok_set(1) get_case_tables rows simp_thms)
  have bound: "m_cents x \<le> max_money_cents" if "amount = Some x" for x using opt_money_bound am that by blast
  have "replays_as cid ''CAPABILITY_EXECUTION_STARTED'' pl d m"
    unfolding replays_as_def
  proof (intro allI impI)
    fix p assume p: "in_step cid d p"
    have "apply_execution_started cid pl p = Inr (p\<lparr>pj_executions := (rid, norm_execution row) # pj_executions p\<rparr>)"
      using bound by (simp add: apply_execution_started_def pl_def dict_val_def row_def norm_execution_def)
    moreover have "in_step cid m (p\<lparr>pj_executions := (rid, norm_execution row) # pj_executions p\<rparr>)"
      using p by (simp add: in_step_def m_def) (simp add: row_def keyed_snoc)
    ultimately show "\<exists>q. (\<forall>x. ev_event_type x = ''CAPABILITY_EXECUTION_STARTED'' \<longrightarrow> ev_payload x = Some pl \<longrightarrow>
        apply_event cid p x = Inr q) \<and> in_step cid m q"
      by (auto simp: apply_event_def payload_dict_def)
  qed
  then show ?thesis unfolding e
    using c rows_m by (intro replay_audited [OF inv]) (simp_all add: m_def same_for_def row_def)
qed

lemma replay_complete_execution:
  assumes inv: "replay_inv (amb_sha a) d" and run: "complete_execution a rid status oe oa fc ar mm d = (Ret r, e)"
  shows "replay_inv (amb_sha a) e"
proof -
  obtain x where x: "get_execution rid d = Some x"
    using run by (cases "get_execution rid d") (auto simp: complete_execution_def)
  obtain amount where am: "opt_money oa = Inr amount"
    using run x by (cases "opt_money oa") (auto simp: complete_execution_def andthen_def bnd_def)
  define now where "now = amb_now a (tick d)"
  define s where "s = x\<lparr>ex_status := status, ex_observed_entity := oe, ex_observed_amount := amount,
     ex_failure_category := fc, ex_audit_ref := ar, ex_money_moved := mm, ex_completed_at := Some now\<rparr>"
  define pl where "pl = [(''execution_id'', VInt (int rid)), (''status'', VStr status),
     (''observed_entity'', opt_str_val oe), (''observed_amount'', opt_money_val amount),
     (''failure_category'', opt_str_val fc), (''audit_ref'', opt_str_val ar),
     (''money_moved'', VBool mm), (''completed_at'', VTime (utc now))]"
  define cid where "cid = ex_case_id x"
  define m where "m = d\<lparr>tick := Suc (tick d), t_executions := update_where (\<lambda>r. ex_id r = rid) (\<lambda>_. s) (t_executions d)\<rparr>"
  have xin: "x \<in> set (t_executions d)" "ex_id x = rid" using x by (auto simp: get_execution_def dest: select_first_Some)
  have rows: "rows_ok d" using inv by (simp add: replay_inv_def)
  have uid: "y = x" if "y \<in> set (t_executions d)" "ex_id y = rid" for y
    using rows xin that unique_on_eq [of ex_id] by (auto simp: rows_ok_def)
  have sel: "ex_id y = rid \<longleftrightarrow> y = x" if "y \<in> set (t_executions d)" for y using uid [OF that] xin(2) by blast
  have c: "get_case cid d \<noteq> None" using rows xin by (simp add: rows_ok_def cid_def)
  have e: "e = with_event a cid ''CAPABILITY_EXECUTION_COMPLETED'' (ex_capability_id x) (ex_actor x) (Some pl) m"
    using run x am c unfolding complete_execution_def Let_def
    by (auto simp: bnd_def andthen_def utc_now_def set_execution_def update_update now_def s_def cid_def
        pl_def m_def record_event_run split: if_splits)
  have "unique_on ex_id (update_where (\<lambda>r. ex_id r = rid) (\<lambda>_. s) (t_executions d))"
    using rows xin by (intro unique_on_replaced) (simp_all add: rows_ok_def s_def)
  moreover have "get_case (ex_case_id y) d \<noteq> None"
    if "y \<in> set (update_where (\<lambda>r. ex_id r = rid) (\<lambda>_. s) (t_executions d))" for y
    using that rows xin c by (auto simp: set_update_where rows_ok_def s_def cid_def)
  ultimately have rows_m: "rows_ok m"
    unfolding m_def by - (rule rows_ok_set(2), simp_all only: rows_ok_set(1) get_case_tables rows simp_thms)
  have bound: "m_cents y \<le> max_money_cents" if "amount = Some y" for y using opt_money_bound am that by blast
  let ?Q = "\<lambda>r. ex_case_id r = cid"
  have dist: "distinct (map ex_id (filter ?Q (t_executions d)))"
    using rows by (auto simp: rows_ok_def unique_on_def distinct_map intro: inj_on_subset)
  have "replays_as cid ''CAPABILITY_EXECUTION_COMPLETED'' pl d m"
    unfolding replays_as_def
  proof (intro allI impI)
    fix p assume p: "in_step cid d p"
    let ?f = "\<lambda>r. r\<lparr>ex_status := status, ex_observed_entity := oe, ex_observed_amount := amount,
      ex_failure_category := fc, ex_audit_ref := ar, ex_money_moved := mm, ex_completed_at := Some now\<rparr>"
    let ?q = "p\<lparr>pj_executions := amend rid ?f (pj_executions p)\<rparr>"
    have px: "pj_executions p = keyed ex_id norm_execution (filter ?Q (t_executions d))" using p by (simp add: in_step_def)
    have "map_of (pj_executions p) rid \<noteq> None"
      unfolding px using keyed_has [OF xin(1), of ?Q ex_id norm_execution] xin(2) by (simp add: cid_def)
    then have "apply_execution_completed pl p = Inr ?q"
      using bound by (cases mm) (simp_all add: apply_execution_completed_def pl_def dict_val_def require_key_def
        bool_field_def field_def)
    moreover have "amend rid ?f (pj_executions p)
        = keyed ex_id norm_execution (filter ?Q (update_where (\<lambda>r. ex_id r = rid) (\<lambda>_. s) (t_executions d)))"
      unfolding px
      using keyed_replace [of x "t_executions d" ?Q s ex_id "\<lambda>r. ex_id r = rid" norm_execution ?f, OF xin(1) _ _ dist _ sel]
      by (simp add: cid_def s_def norm_execution_def xin(2))
    then have "in_step cid m ?q" using p by (simp add: in_step_def m_def)
    ultimately show "\<exists>q. (\<forall>x. ev_event_type x = ''CAPABILITY_EXECUTION_COMPLETED'' \<longrightarrow> ev_payload x = Some pl \<longrightarrow>
        apply_event cid p x = Inr q) \<and> in_step cid m q"
      by (auto simp: apply_event_def payload_dict_def)
  qed
  moreover have "same_for y d m" if "y \<noteq> cid" for y
  proof -
    have "filter (\<lambda>r. ex_case_id r = y) (update_where (\<lambda>r. ex_id r = rid) (\<lambda>_. s) (t_executions d))
        = filter (\<lambda>r. ex_case_id r = y) (t_executions d)"
      using that uid by (intro update_same_elsewhere) (auto simp: cid_def s_def)
    then show ?thesis by (simp add: same_for_def m_def)
  qed
  ultimately show ?thesis unfolding e
    using c rows_m by (intro replay_audited [OF inv]) (simp_all add: m_def)
qed

lemma replay_stage_intent:
  assumes inv: "replay_inv (amb_sha a) d" and run: "stage_intent a cid key cap d = (Ret r, e)"
  shows "replay_inv (amb_sha a) e"
proof (cases "find_intent key d")
  case (Some x)
  then have "e = d" using run by (simp add: stage_intent_def)
  then show ?thesis using inv by simp
next
  case None
  define now where "now = amb_now a (tick d)"
  define rid where "rid = next_id (map in_id (t_intents d))"
  define row where "row = \<lparr>in_id = rid, in_case_id = cid, in_idempotency_key = key, in_capability_id = cap,
     in_status = ''STAGED'', in_created_at = now\<rparr>"
  define pl where "pl = [(''idempotency_key'', VStr key), (''capability_id'', VStr cap),
     (''intent_status'', VStr ''STAGED''), (''created_at'', VTime (utc now))]"
  define m where "m = d\<lparr>tick := Suc (tick d), t_intents := t_intents d @ [row]\<rparr>"
  have c: "get_case cid d \<noteq> None" and e: "e = with_event a cid ''INTENT_STAGED'' cap ''AUTOMATION'' (Some pl) m"
    using run None unfolding stage_intent_def Let_def
    by (auto simp: bnd_def andthen_def utc_now_def now_def rid_def row_def pl_def m_def record_event_run split: if_splits)
  have rows: "rows_ok d" using inv by (simp add: replay_inv_def)
  have "unique_on in_idempotency_key (t_intents d @ [row])"
    using rows None by (intro unique_on_snoc) (auto simp: rows_ok_def row_def find_intent_def select_first_None)
  moreover have "get_case (in_case_id x) d \<noteq> None" if "x \<in> set (t_intents d @ [row])" for x
    using that rows c by (auto simp: rows_ok_def row_def)
  ultimately have rows_m: "rows_ok m"
    unfolding m_def by - (rule rows_ok_set(3), simp_all only: rows_ok_set(1) get_case_tables rows simp_thms)
  have "replays_as cid ''INTENT_STAGED'' pl d m"
    unfolding replays_as_def
  proof (intro allI impI)
    fix p assume p: "in_step cid d p"
    let ?q = "p\<lparr>pj_intents := (key, norm_intent row) # pj_intents p\<rparr>"
    have "apply_intent_staged cid pl p = Inr ?q"
      by (simp add: apply_intent_staged_def pl_def row_def norm_intent_def)
    moreover have "in_step cid m ?q"
      using p by (simp add: in_step_def m_def) (simp add: row_def keyed_snoc)
    ultimately show "\<exists>q. (\<forall>x. ev_event_type x = ''INTENT_STAGED'' \<longrightarrow> ev_payload x = Some pl \<longrightarrow>
        apply_event cid p x = Inr q) \<and> in_step cid m q"
      by (auto simp: apply_event_def payload_dict_def)
  qed
  then show ?thesis unfolding e
    using c rows_m by (intro replay_audited [OF inv]) (simp_all add: m_def same_for_def row_def)
qed

lemma replay_mark_intent:
  assumes inv: "replay_inv (amb_sha a) d" and run: "mark_intent_committed a key d = (Ret r, e)"
  shows "replay_inv (amb_sha a) e"
proof (cases "\<exists>x. find_intent key d = Some x \<and> in_status x \<noteq> ''COMMITTED''")
  case False
  then have "e = d" using run by (auto simp: mark_intent_committed_def split: option.splits if_splits)
  then show ?thesis using inv by simp
next
  case True
  then obtain x where x: "find_intent key d = Some x" "in_status x \<noteq> ''COMMITTED''" by blast
  define cid where "cid = in_case_id x"
  define s where "s = x\<lparr>in_status := ''COMMITTED''\<rparr>"
  define pl where "pl = [(''idempotency_key'', VStr key)]"
  define m where "m = d\<lparr>t_intents := update_where (\<lambda>r. in_idempotency_key r = key) (\<lambda>_. s) (t_intents d)\<rparr>"
  have xin: "x \<in> set (t_intents d)" "in_idempotency_key x = key"
    using x by (auto simp: find_intent_def dest: select_first_Some)
  have rows: "rows_ok d" using inv by (simp add: replay_inv_def)
  have uid: "y = x" if "y \<in> set (t_intents d)" "in_idempotency_key y = key" for y
    using rows xin that unique_on_eq [of in_idempotency_key] by (auto simp: rows_ok_def)
  have sel: "in_idempotency_key y = key \<longleftrightarrow> y = x" if "y \<in> set (t_intents d)" for y using uid [OF that] xin(2) by blast
  have upd: "update_where (\<lambda>r. in_idempotency_key r = key) (\<lambda>r. r\<lparr>in_status := ''COMMITTED''\<rparr>) (t_intents d)
      = update_where (\<lambda>r. in_idempotency_key r = key) (\<lambda>_. s) (t_intents d)"
    unfolding update_where_def by (rule map_cong) (use uid in \<open>auto simp: s_def\<close>)
  have c: "get_case cid d \<noteq> None" using rows xin by (simp add: rows_ok_def cid_def)
  have e: "e = with_event a cid ''INTENT_COMMITTED'' (in_capability_id x) ''AUTOMATION'' (Some pl) m"
    using run x c unfolding mark_intent_committed_def
    by (auto simp: bnd_def andthen_def upd cid_def pl_def m_def record_event_run split: if_splits)
  have "unique_on in_idempotency_key (update_where (\<lambda>r. in_idempotency_key r = key) (\<lambda>_. s) (t_intents d))"
    using rows xin by (intro unique_on_replaced) (simp_all add: rows_ok_def s_def)
  moreover have "get_case (in_case_id y) d \<noteq> None"
    if "y \<in> set (update_where (\<lambda>r. in_idempotency_key r = key) (\<lambda>_. s) (t_intents d))" for y
    using that rows xin c by (auto simp: set_update_where rows_ok_def s_def cid_def)
  ultimately have rows_m: "rows_ok m"
    unfolding m_def by - (rule rows_ok_set(3), simp_all only: get_case_tables rows simp_thms)
  let ?Q = "\<lambda>r. in_case_id r = cid"
  have dist: "distinct (map in_idempotency_key (filter ?Q (t_intents d)))"
    using rows by (auto simp: rows_ok_def unique_on_def distinct_map intro: inj_on_subset)
  have "replays_as cid ''INTENT_COMMITTED'' pl d m"
    unfolding replays_as_def
  proof (intro allI impI)
    fix p assume p: "in_step cid d p"
    let ?f = "\<lambda>r. r\<lparr>in_status := ''COMMITTED''\<rparr>"
    let ?q = "p\<lparr>pj_intents := amend key ?f (pj_intents p)\<rparr>"
    have px: "pj_intents p = keyed in_idempotency_key norm_intent (filter ?Q (t_intents d))" using p by (simp add: in_step_def)
    have "map_of (pj_intents p) key \<noteq> None"
      unfolding px using keyed_has [OF xin(1), of ?Q in_idempotency_key norm_intent] xin(2) by (simp add: cid_def)
    then have "apply_intent_committed pl p = Inr ?q"
      by (simp add: apply_intent_committed_def pl_def require_key_def)
    moreover have "amend key ?f (pj_intents p)
        = keyed in_idempotency_key norm_intent (filter ?Q (update_where (\<lambda>r. in_idempotency_key r = key) (\<lambda>_. s) (t_intents d)))"
      unfolding px
      using keyed_replace [of x "t_intents d" ?Q s in_idempotency_key "\<lambda>r. in_idempotency_key r = key" norm_intent ?f,
          OF xin(1) _ _ dist _ sel]
      by (simp add: cid_def s_def norm_intent_def xin(2))
    then have "in_step cid m ?q" using p by (simp add: in_step_def m_def)
    ultimately show "\<exists>q. (\<forall>x. ev_event_type x = ''INTENT_COMMITTED'' \<longrightarrow> ev_payload x = Some pl \<longrightarrow>
        apply_event cid p x = Inr q) \<and> in_step cid m q"
      by (auto simp: apply_event_def payload_dict_def)
  qed
  moreover have "same_for y d m" if "y \<noteq> cid" for y
  proof -
    have "filter (\<lambda>r. in_case_id r = y) (update_where (\<lambda>r. in_idempotency_key r = key) (\<lambda>_. s) (t_intents d))
        = filter (\<lambda>r. in_case_id r = y) (t_intents d)"
      using that uid by (intro update_same_elsewhere) (auto simp: cid_def s_def)
    then show ?thesis by (simp add: same_for_def m_def)
  qed
  ultimately show ?thesis unfolding e
    using c rows_m by (intro replay_audited [OF inv]) (simp_all add: m_def)
qed

text \<open>The state a returning claim operation leaves, with its event.\<close>

lemma claim_effect_state:
  assumes ok: "claims_ok d" and run: "claim_effect a i ow now ttl d = (Ret r, e)" and c: "get_case (id_case_id i) d \<noteq> None"
  defines "key \<equiv> idempotency_key (amb_sha a) i"
  obtains
    (fresh) t n rid where "get_effect_claim key d = None" "rid = next_id (map cl_id (t_claims d))"
      "e = with_event a (id_case_id i) ''EFFECT_CLAIMED'' (id_capability_id i) ''AUTOMATION''
         (Some (claim_payload (new_claim key i ow t ttl rid))) (d\<lparr>tick := n, t_claims := t_claims d @ [new_claim key i ow t ttl rid]\<rparr>)"
  | (retried) x t n where "get_effect_claim key d = Some x"
      "e = with_event a (id_case_id i) ''EFFECT_CLAIMED'' (id_capability_id i) ''AUTOMATION''
         (Some (claim_payload (reclaimed x ow t ttl))) (d\<lparr>tick := n, t_claims :=
           update_where (\<lambda>r. cl_idempotency_key r = key) (\<lambda>_. reclaimed x ow t ttl) (t_claims d)\<rparr>)"
  | (rejected) n where "e = d\<lparr>tick := n\<rparr>"
proof -
  obtain t n where t: "time_or_now a now d = (Ret t, d\<lparr>tick := n\<rparr>)" using time_or_now_run by blast
  define rid where "rid = next_id (map cl_id (t_claims d))"
  let ?d1 = "d\<lparr>tick := n\<rparr>"
  note run = run [unfolded claim_effect_def Let_def, folded key_def, unfolded bnd_run(1) [of "time_or_now a now", OF t] bnd_gets]
  obtain y where y: "get_case (id_case_id i) d = Some y" using c by auto
  show thesis
  proof (cases "get_effect_claim key d")
    case None
    let ?r = "new_claim key i ow t ttl rid"
    have ins: "insert_claim ?r ?d1 = (True, ?d1\<lparr>t_claims := t_claims d @ [?r]\<rparr>)"
      using None by (simp add: insert_claim_def)
    have got: "select_first (\<lambda>r. cl_idempotency_key r = key) (t_claims d @ [?r]) = Some ?r"
      using None by (simp add: get_effect_claim_def select_first_append)
    have "e = with_event a (id_case_id i) ''EFFECT_CLAIMED'' (id_capability_id i) ''AUTOMATION''
         (Some (claim_payload ?r)) (?d1\<lparr>t_claims := t_claims d @ [?r]\<rparr>)"
      using run ins got y by (auto simp: rid_def [symmetric] bnd_def andthen_def record_event_run)
    then show thesis using fresh None rid_def by blast
  next
    case (Some x)
    have xk: "cl_idempotency_key x = key" using get_effect_claim_SomeD [OF Some] by simp
    have ins: "insert_claim (new_claim key i ow t ttl rid) ?d1 = (False, ?d1)"
      using Some by (simp add: insert_claim_def)
    show thesis
    proof (cases "cl_status x = claim_status_value FAILED_RETRYABLE")
      case True
      let ?rows = "update_where (\<lambda>r. cl_idempotency_key r = key) (\<lambda>_. reclaimed x ow t ttl) (t_claims d)"
      have u1: "claims_unique ?d1" using ok by (simp add: claims_ok_def claims_unique_def)
      have rec: "reclaim key x ow t ttl ?d1 = (Ret True, ?d1\<lparr>t_claims := ?rows\<rparr>)"
        unfolding reclaim_def reclaimed_def using update_claims_hit [OF u1, of key x] Some True by simp
      have got: "select_first (\<lambda>r. cl_idempotency_key r = key) ?rows = Some (reclaimed x ow t ttl)"
        using Some xk by (simp add: select_first_replaced get_effect_claim_def)
      have "e = with_event a (id_case_id i) ''EFFECT_CLAIMED'' (id_capability_id i) ''AUTOMATION''
         (Some (claim_payload (reclaimed x ow t ttl))) (?d1\<lparr>t_claims := ?rows\<rparr>)"
        using run ins got Some True y by (auto simp: rid_def [symmetric] bnd_def andthen_def rec record_event_run)
      then show thesis using retried Some by blast
    next
      case False
      have "e = ?d1"
        using run ins Some False by (auto simp: rid_def [symmetric] bnd_def andthen_def)
      then show thesis using rejected by blast
    qed
  qed
qed

lemma transition_state:
  assumes ok: "claims_ok d" and run: "transition_effect_claim a key ow tok froms to now d = (Ret r, e)"
  obtains
    (moved) x t n where "get_effect_claim key d = Some x" "get_case (cl_case_id x) d \<noteq> None"
      "e = with_event a (cl_case_id x) ''EFFECT_CLAIM_TRANSITIONED'' (cl_capability_id x) ''AUTOMATION'' (Some
         [(''idempotency_key'', VStr key), (''status'', VStr (claim_status_value to)),
          (''owner_id'', VStr (cl_owner_id x)), (''fencing_token'', VInt (int (cl_fencing_token x))),
          (''heartbeat_at'', VTime (utc t)), (''updated_at'', VTime (utc t))])
        (d\<lparr>tick := n, t_claims := update_where (\<lambda>r. cl_idempotency_key r = key) (\<lambda>_. moved_claim to t x) (t_claims d)\<rparr>)"
  | (refused) n where "e = d\<lparr>tick := n\<rparr>"
proof -
  obtain t n where t: "time_or_now a now d = (Ret t, d\<lparr>tick := n\<rparr>)" using time_or_now_run by blast
  let ?d1 = "d\<lparr>tick := n\<rparr>"
  have u1: "claims_unique ?d1" using ok by (simp add: claims_ok_def claims_unique_def)
  note run = run [unfolded transition_effect_claim_def, unfolded bnd_run(1) [of "time_or_now a now", OF t],
      folded moved_claim_def may_move_def]
  show thesis
  proof (cases "\<exists>x. get_effect_claim key d = Some x \<and> may_move ow tok froms x")
    case True
    then obtain x where x: "get_effect_claim key d = Some x" "may_move ow tok froms x" by blast
    then have xk: "cl_idempotency_key x = key" using get_effect_claim_SomeD by blast
    let ?rows = "update_where (\<lambda>r. cl_idempotency_key r = key) (\<lambda>_. moved_claim to t x) (t_claims d)"
    have eq: "(\<lambda>r. r\<lparr>cl_status := claim_status_value to, cl_updated_at := t, cl_heartbeat_at := t\<rparr>) = moved_claim to t"
      by (rule ext) (simp add: moved_claim_def)
    have up: "update_claims (\<lambda>r. cl_idempotency_key r = key \<and> may_move ow tok froms r) (moved_claim to t) ?d1
        = (Ret True, ?d1\<lparr>t_claims := ?rows\<rparr>)"
      using update_claims_hit [OF u1, of key x "may_move ow tok froms"] x by simp
    have got: "select_first (\<lambda>r. cl_idempotency_key r = key) ?rows = Some (moved_claim to t x)"
      using x xk by (simp add: select_first_replaced get_effect_claim_def)
    have times: "cl_heartbeat_at (moved_claim to t x) = t" "cl_updated_at (moved_claim to t x) = t"
      "cl_capability_id (moved_claim to t x) = cl_capability_id x" by (simp_all add: moved_claim_def)
    obtain y where "get_case (cl_case_id x) d = Some y"
      using run [unfolded eq] got by (cases "get_case (cl_case_id x) d") (auto simp: bnd_def andthen_def up record_event_run)
    then show thesis using run [unfolded eq] got x times
      by (intro moved [of x t n]) (auto simp: bnd_def andthen_def up record_event_run)
  next
    case False
    then have "update_claims (\<lambda>r. cl_idempotency_key r = key \<and> may_move ow tok froms r) f ?d1 = (Ret False, ?d1)" for f
      by (intro update_claims_miss [OF u1]) auto
    then have "e = ?d1" using run by (simp add: bnd_def)
    then show thesis by (rule refused)
  qed
qed

lemma claim_payload_applies:
  assumes "m_cents (cl_amount r) \<le> max_money_cents" and "cl_case_id r = cid"
  shows "apply_effect_claimed cid (claim_payload r) p = Inr (p\<lparr>pj_claims :=
     (if map_of (pj_claims p) (cl_idempotency_key r) = None then (cl_idempotency_key r, norm_claim r) # pj_claims p
      else amend (cl_idempotency_key r) (\<lambda>_. norm_claim r) (pj_claims p))\<rparr>)"
proof -
  have "norm_claim r = \<lparr>cl_id = 0, cl_idempotency_key = cl_idempotency_key r, cl_institution_id = cl_institution_id r,
      cl_procedure_id = cl_procedure_id r, cl_case_id = cid, cl_capability_id = cl_capability_id r,
      cl_member_id = cl_member_id r, cl_account_id = cl_account_id r, cl_amount = cl_amount r, cl_currency = cl_currency r,
      cl_business_reference = cl_business_reference r, cl_status = cl_status r, cl_owner_id = cl_owner_id r,
      cl_fencing_token = cl_fencing_token r, cl_claimed_at = cl_claimed_at r, cl_heartbeat_at = cl_heartbeat_at r,
      cl_expires_at = cl_expires_at r, cl_updated_at = cl_updated_at r\<rparr>"
    using assms(2) by (cases r) (simp add: norm_claim_def)
  then show ?thesis using assms(1) by (simp add: apply_effect_claimed_def claim_payload_def Let_def)
qed

lemma rows_claims_ok: "rows_ok d \<Longrightarrow> claims_ok d"
  by (simp add: rows_ok_def)

lemma claim_sel:
  "claims_ok d \<Longrightarrow> get_effect_claim k d = Some x \<Longrightarrow> y \<in> set (t_claims d) \<Longrightarrow> (cl_idempotency_key y = k) = (y = x)"
  using claim_key_eq [of d y] get_effect_claim_SomeD [of k d x] unfolding claims_ok_def by (metis option.inject)

lemma claims_distinct:
  "claims_ok d \<Longrightarrow> distinct (map cl_idempotency_key (filter Q (t_claims d)))"
  by (auto simp: claims_ok_def claims_unique_def unique_on_def distinct_map intro: inj_on_subset)

text \<open>Rewriting the claim of a key, with the event that says so.\<close>

lemma replay_claim_rewrite:
  assumes inv: "replay_inv (amb_sha a) d" and x: "get_effect_claim key d = Some x" and cid: "cl_case_id x = cid"
    and s: "cl_idempotency_key s = key" "cl_case_id s = cid" "0 < cl_fencing_token s" "cl_amount s = cl_amount x"
    and event: "\<And>p. map_of (pj_claims p) key \<noteq> None \<Longrightarrow>
      \<exists>f. f (norm_claim x) = norm_claim s \<and> (\<forall>e. ev_event_type e = ty \<longrightarrow> ev_payload e = Some pl \<longrightarrow>
        apply_event cid p e = Inr (p\<lparr>pj_claims := amend key f (pj_claims p)\<rparr>))"
  shows "replay_inv (amb_sha a) (with_event a cid ty st ac (Some pl)
     (d\<lparr>tick := n, t_claims := update_where (\<lambda>r. cl_idempotency_key r = key) (\<lambda>_. s) (t_claims d)\<rparr>))"
proof -
  let ?rows = "update_where (\<lambda>r. cl_idempotency_key r = key) (\<lambda>_. s) (t_claims d)"
  let ?m = "d\<lparr>tick := n, t_claims := ?rows\<rparr>"
  let ?Q = "\<lambda>r. cl_case_id r = cid"
  have rows: "rows_ok d" using inv by (simp add: replay_inv_def)
  note ok = rows_claims_ok [OF rows]
  have xin: "x \<in> set (t_claims d)" "cl_idempotency_key x = key" using get_effect_claim_SomeD [OF x] by simp_all
  have c: "get_case cid d \<noteq> None" "m_cents (cl_amount x) \<le> max_money_cents"
    using rows xin cid by (auto simp: rows_ok_def)
  have "claims_ok (d\<lparr>tick := n, t_claims := ?rows\<rparr>)" by (rule claims_ok_update [OF ok s(1,3)]) simp
  moreover have "get_case (cl_case_id y) d \<noteq> None \<and> m_cents (cl_amount y) \<le> max_money_cents" if "y \<in> set ?rows" for y
    using that rows c s by (auto simp: set_update_where rows_ok_def)
  ultimately have rows_m: "rows_ok ?m"
    by - (rule rows_ok_set(4), simp_all only: rows_ok_set(1) get_case_tables rows simp_thms)
  have "replays_as cid ty pl d ?m"
    unfolding replays_as_def
  proof (intro allI impI)
    fix p assume p: "in_step cid d p"
    then have px: "pj_claims p = keyed cl_idempotency_key norm_claim (filter ?Q (t_claims d))" by (simp add: in_step_def)
    have "map_of (pj_claims p) key \<noteq> None"
      unfolding px using keyed_has [OF xin(1), of ?Q cl_idempotency_key norm_claim] xin(2) cid by simp
    then obtain f where f: "f (norm_claim x) = norm_claim s" "\<And>e. ev_event_type e = ty \<Longrightarrow> ev_payload e = Some pl \<Longrightarrow>
        apply_event cid p e = Inr (p\<lparr>pj_claims := amend key f (pj_claims p)\<rparr>)"
      using event by blast
    have "amend key f (pj_claims p) = keyed cl_idempotency_key norm_claim (filter ?Q ?rows)"
      unfolding px
      using keyed_replace [of x "t_claims d" ?Q s cl_idempotency_key "\<lambda>r. cl_idempotency_key r = key" norm_claim f,
          OF xin(1) _ _ claims_distinct [OF ok] _ claim_sel [OF ok x]] xin(2) cid s f(1)
      by simp
    then have "in_step cid ?m (p\<lparr>pj_claims := amend key f (pj_claims p)\<rparr>)" using p by (simp add: in_step_def)
    then show "\<exists>q. (\<forall>e. ev_event_type e = ty \<longrightarrow> ev_payload e = Some pl \<longrightarrow> apply_event cid p e = Inr q) \<and> in_step cid ?m q"
      using f(2) by blast
  qed
  moreover have "same_for y d ?m" if "y \<noteq> cid" for y
  proof -
    have "filter (\<lambda>r. cl_case_id r = y) ?rows = filter (\<lambda>r. cl_case_id r = y) (t_claims d)"
      using that claim_sel [OF ok x] cid s by (intro update_same_elsewhere) auto
    then show ?thesis by (simp add: same_for_def)
  qed
  ultimately show ?thesis
    using c rows_m by (intro replay_audited [OF inv]) simp_all
qed

lemma replay_claim_effect:
  assumes inv: "replay_inv (amb_sha a) d" and run: "claim_effect a i ow now ttl d = (Ret r, e)"
    and c: "get_case (id_case_id i) d \<noteq> None" and amount: "m_cents (id_amount i) \<le> max_money_cents"
    and same: "\<And>x. get_effect_claim (idempotency_key (amb_sha a) i) d = Some x \<Longrightarrow> cl_case_id x = id_case_id i"
  shows "replay_inv (amb_sha a) e"
proof -
  have rows: "rows_ok d" using inv by (simp add: replay_inv_def)
  note ok = rows_claims_ok [OF rows]
  let ?key = "idempotency_key (amb_sha a) i"
  show ?thesis
  proof (rule claim_effect_state [OF ok run c])
    fix t n rid
    let ?r = "new_claim ?key i ow t ttl rid"
    let ?m = "d\<lparr>tick := n, t_claims := t_claims d @ [?r]\<rparr>"
    assume none: "get_effect_claim ?key d = None" and "rid = next_id (map cl_id (t_claims d))"
      and e: "e = with_event a (id_case_id i) ''EFFECT_CLAIMED'' (id_capability_id i) ''AUTOMATION'' (Some (claim_payload ?r)) ?m"
    have am: "cl_amount ?r = id_amount i" by (simp add: new_claim_def)
    have new: "cl_idempotency_key y \<noteq> ?key" if "y \<in> set (t_claims d)" for y
      using none that by (simp add: get_effect_claim_def select_first_None)
    have "claims_ok ?m"
      using ok new by (auto simp: claims_ok_def claims_unique_def intro!: unique_on_snoc)
    moreover have "get_case (cl_case_id y) d \<noteq> None \<and> m_cents (cl_amount y) \<le> max_money_cents"
      if "y \<in> set (t_claims d @ [?r])" for y
      using that rows c amount am by (auto simp: rows_ok_def)
    ultimately have rows_m: "rows_ok ?m"
      by - (rule rows_ok_set(4), simp_all only: rows_ok_set(1) get_case_tables rows simp_thms)
    have "replays_as (id_case_id i) ''EFFECT_CLAIMED'' (claim_payload ?r) d ?m"
      unfolding replays_as_def
    proof (intro allI impI)
      fix p assume p: "in_step (id_case_id i) d p"
      have px: "pj_claims p = keyed cl_idempotency_key norm_claim (filter (\<lambda>r. cl_case_id r = id_case_id i) (t_claims d))"
        using p by (simp add: in_step_def)
      have "map_of (pj_claims p) ?key = None"
        unfolding px keyed_key by (fastforce dest: new)
      then have "apply_effect_claimed (id_case_id i) (claim_payload ?r) p = Inr (p\<lparr>pj_claims := (?key, norm_claim ?r) # pj_claims p\<rparr>)"
        using claim_payload_applies [of ?r "id_case_id i" p] am amount by simp
      moreover have "in_step (id_case_id i) ?m (p\<lparr>pj_claims := (?key, norm_claim ?r) # pj_claims p\<rparr>)"
        using p by (simp add: in_step_def keyed_snoc)
      ultimately show "\<exists>q. (\<forall>x. ev_event_type x = ''EFFECT_CLAIMED'' \<longrightarrow> ev_payload x = Some (claim_payload ?r) \<longrightarrow>
          apply_event (id_case_id i) p x = Inr q) \<and> in_step (id_case_id i) ?m q"
        by (auto simp: apply_event_def payload_dict_def)
    qed
    then show ?thesis unfolding e
      using c rows_m by (intro replay_audited [OF inv]) (simp_all add: same_for_def)
  next
    fix x :: claim_row and t n
    assume x: "get_effect_claim ?key d = Some x"
      and e: "e = with_event a (id_case_id i) ''EFFECT_CLAIMED'' (id_capability_id i) ''AUTOMATION''
         (Some (claim_payload (reclaimed x ow t ttl))) (d\<lparr>tick := n, t_claims :=
           update_where (\<lambda>r. cl_idempotency_key r = ?key) (\<lambda>_. reclaimed x ow t ttl) (t_claims d)\<rparr>)"
    have xk: "cl_idempotency_key x = ?key" "x \<in> set (t_claims d)" using get_effect_claim_SomeD [OF x] by simp_all
    have am: "cl_amount (reclaimed x ow t ttl) = cl_amount x" "m_cents (cl_amount x) \<le> max_money_cents"
      using rows xk by (auto simp: reclaimed_def rows_ok_def)
    show ?thesis unfolding e
    proof (rule replay_claim_rewrite [OF inv x same [OF x]])
      fix p :: projection assume "map_of (pj_claims p) ?key \<noteq> None"
      then have "apply_event (id_case_id i) p ev = Inr (p\<lparr>pj_claims := amend ?key (\<lambda>_. norm_claim (reclaimed x ow t ttl)) (pj_claims p)\<rparr>)"
        if "ev_event_type ev = ''EFFECT_CLAIMED''" "ev_payload ev = Some (claim_payload (reclaimed x ow t ttl))" for ev
        using that claim_payload_applies [of "reclaimed x ow t ttl" "id_case_id i" p] am same [OF x] xk
        by (auto simp: apply_event_def payload_dict_def)
      then show "\<exists>f. f (norm_claim x) = norm_claim (reclaimed x ow t ttl) \<and> (\<forall>e. ev_event_type e = ''EFFECT_CLAIMED'' \<longrightarrow>
          ev_payload e = Some (claim_payload (reclaimed x ow t ttl)) \<longrightarrow>
          apply_event (id_case_id i) p e = Inr (p\<lparr>pj_claims := amend ?key f (pj_claims p)\<rparr>))"
        by (intro exI [of _ "\<lambda>_. norm_claim (reclaimed x ow t ttl)"]) simp
    qed (use xk same [OF x] am in simp_all)
  next
    fix n assume "e = d\<lparr>tick := n\<rparr>"
    then show ?thesis using inv by simp
  qed
qed

lemma replay_transition:
  assumes inv: "replay_inv (amb_sha a) d" and run: "transition_effect_claim a key ow tok froms to now d = (Ret r, e)"
  shows "replay_inv (amb_sha a) e"
proof -
  have rows: "rows_ok d" using inv by (simp add: replay_inv_def)
  note ok = rows_claims_ok [OF rows]
  show ?thesis
  proof (rule transition_state [OF ok run])
    fix x :: claim_row and t n
    let ?pl = "[(''idempotency_key'', VStr key), (''status'', VStr (claim_status_value to)),
          (''owner_id'', VStr (cl_owner_id x)), (''fencing_token'', VInt (int (cl_fencing_token x))),
          (''heartbeat_at'', VTime (utc t)), (''updated_at'', VTime (utc t))]"
    assume x: "get_effect_claim key d = Some x" and e: "e = with_event a (cl_case_id x) ''EFFECT_CLAIM_TRANSITIONED'' (cl_capability_id x) ''AUTOMATION'' (Some ?pl)
        (d\<lparr>tick := n, t_claims := update_where (\<lambda>r. cl_idempotency_key r = key) (\<lambda>_. moved_claim to t x) (t_claims d)\<rparr>)"
    have xk: "cl_idempotency_key x = key" "x \<in> set (t_claims d)" using get_effect_claim_SomeD [OF x] by simp_all
    have pos: "0 < cl_fencing_token x" using ok xk by (simp add: claims_ok_def)
    let ?f = "\<lambda>r. r\<lparr>cl_status := claim_status_value to, cl_owner_id := cl_owner_id x, cl_fencing_token := cl_fencing_token x,
        cl_heartbeat_at := t, cl_updated_at := t\<rparr>"
    show ?thesis unfolding e
    proof (rule replay_claim_rewrite [OF inv x refl])
      fix p :: projection assume "map_of (pj_claims p) key \<noteq> None"
      then have "apply_event (cl_case_id x) p ev = Inr (p\<lparr>pj_claims := amend key ?f (pj_claims p)\<rparr>)"
        if "ev_event_type ev = ''EFFECT_CLAIM_TRANSITIONED''" "ev_payload ev = Some ?pl" for ev
        using that by (simp add: apply_event_def payload_dict_def apply_claim_moved_def require_key_def)
      moreover have "?f (norm_claim x) = norm_claim (moved_claim to t x)"
        by (simp add: norm_claim_def moved_claim_def)
      ultimately show "\<exists>f. f (norm_claim x) = norm_claim (moved_claim to t x) \<and> (\<forall>e. ev_event_type e = ''EFFECT_CLAIM_TRANSITIONED'' \<longrightarrow>
          ev_payload e = Some ?pl \<longrightarrow> apply_event (cl_case_id x) p e = Inr (p\<lparr>pj_claims := amend key f (pj_claims p)\<rparr>))"
        by (intro exI [of _ ?f]) simp
    qed (use xk pos in \<open>simp_all add: moved_claim_def\<close>)
  next
    fix n assume "e = d\<lparr>tick := n\<rparr>"
    then show ?thesis using inv by simp
  qed
qed

text \<open>Deadlines and obligations: the dictionaries are keyed by type, the rows by identifier.\<close>

lemma deadline_types_distinct:
  "agenda_ok d \<Longrightarrow> distinct (map dl_deadline_type (filter (\<lambda>r. dl_case_id r = c) (t_deadlines d)))"
  using pending_types_distinct [of d c "\<lambda>_. True"] by simp

lemma obligation_types_distinct:
  "agenda_ok d \<Longrightarrow> distinct (map ob_obligation_type (filter (\<lambda>r. ob_case_id r = c) (t_obligations d)))"
  unfolding agenda_ok_def unique_on_def
  by (induction "t_obligations d" arbitrary: d) (auto simp: distinct_map inj_on_def)

lemma replay_create_deadline:
  assumes inv: "replay_inv (amb_sha a) d" and run: "create_deadline a cid ty due d = (Ret r, e)"
  shows "replay_inv (amb_sha a) e"
proof (cases "find_deadline (\<lambda>_. True) cid ty d")
  case (Some x)
  then have "e = d" using run by (simp add: create_deadline_def)
  then show ?thesis using inv by simp
next
  case None
  define row where "row = \<lparr>dl_id = next_id (map dl_id (t_deadlines d)), dl_case_id = cid, dl_deadline_type = ty,
     dl_due_at = due, dl_status = ''PENDING'', dl_resolved_at = None\<rparr>"
  define pl where "pl = [(''deadline_type'', VStr ty), (''due_at'', VTime due), (''status'', VStr ''PENDING'')]"
  define m where "m = d\<lparr>t_deadlines := t_deadlines d @ [row]\<rparr>"
  have c: "get_case cid d \<noteq> None" and e: "e = with_event a cid ''DEADLINE_CREATED'' ''orchestrator'' ''AUTOMATION'' (Some pl) m"
    using run None unfolding create_deadline_def Let_def
    by (auto simp: bnd_def andthen_def require_case_row_def unless_raise_def row_def pl_def m_def record_event_run split: if_splits)
  have rows: "rows_ok d" using inv by (simp add: replay_inv_def)
  have "agenda_ok e"
    using agenda_change_ok [OF create_deadline_change [of d a cid ty due]] rows run by (simp add: rows_ok_def)
  then have "agenda_ok m" using agenda_ok_tables [of e m] by (simp add: e)
  moreover have "get_case (dl_case_id x) d \<noteq> None" if "x \<in> set (t_deadlines d @ [row])" for x
    using that rows c by (auto simp: rows_ok_def row_def)
  ultimately have rows_m: "rows_ok m"
    unfolding m_def by - (rule rows_ok_set(5) [OF rows], simp_all)
  have "replays_as cid ''DEADLINE_CREATED'' pl d m"
    unfolding replays_as_def
  proof (intro allI impI)
    fix p assume p: "in_step cid d p"
    let ?q = "p\<lparr>pj_deadlines := (ty, norm_deadline row) # pj_deadlines p\<rparr>"
    have "apply_deadline_created cid pl p = Inr ?q"
      by (simp add: apply_deadline_created_def pl_def row_def norm_deadline_def)
    moreover have "in_step cid m ?q"
      using p by (simp add: in_step_def m_def) (simp add: row_def keyed_snoc)
    ultimately show "\<exists>q. (\<forall>x. ev_event_type x = ''DEADLINE_CREATED'' \<longrightarrow> ev_payload x = Some pl \<longrightarrow>
        apply_event cid p x = Inr q) \<and> in_step cid m q"
      by (auto simp: apply_event_def payload_dict_def)
  qed
  then show ?thesis unfolding e
    using c rows_m by (intro replay_audited [OF inv]) (simp_all add: m_def same_for_def row_def)
qed

lemma replay_resolve_deadline:
  assumes inv: "replay_inv (amb_sha a) d" and run: "resolve_deadline a cid ty d = (Ret r, e)"
  shows "replay_inv (amb_sha a) e"
proof (cases "find_deadline (\<lambda>r. dl_status r \<in> {''PENDING'', ''OVERDUE''}) cid ty d")
  case None
  then have "e = d" using run by (simp add: resolve_deadline_def)
  then show ?thesis using inv by simp
next
  case (Some x)
  define now where "now = amb_now a (tick d)"
  define s where "s = x\<lparr>dl_status := ''MET'', dl_resolved_at := Some now\<rparr>"
  define pl where "pl = [(''deadline_type'', VStr ty), (''status'', VStr ''MET''), (''resolved_at'', VTime (utc now))]"
  let ?rows = "update_where (\<lambda>y. dl_id y = dl_id x) (\<lambda>_. s) (t_deadlines d)"
  define m where "m = d\<lparr>tick := Suc (tick d), t_deadlines := ?rows\<rparr>"
  let ?Q = "\<lambda>y. dl_case_id y = cid"
  have x: "x \<in> set (t_deadlines d)" "dl_case_id x = cid" "dl_deadline_type x = ty" using find_deadline_D [OF Some] by auto
  have rows: "rows_ok d" using inv by (simp add: replay_inv_def)
  have ok: "agenda_ok d" using rows by (simp add: rows_ok_def)
  have sel: "dl_id y = dl_id x \<longleftrightarrow> y = x" if "y \<in> set (t_deadlines d)" for y using deadline_by_id [OF ok x(1) that] by blast
  have c: "get_case cid d \<noteq> None" using rows x by (auto simp: rows_ok_def)
  have e: "e = with_event a cid ''DEADLINE_RESOLVED'' ''orchestrator'' ''AUTOMATION'' (Some pl) m"
    using run Some c unfolding resolve_deadline_def Let_def
    by (auto simp: bnd_def andthen_def utc_now_def set_deadline_def now_def s_def pl_def m_def record_event_run split: if_splits)
  have "agenda_ok e"
    using agenda_change_ok [OF resolve_deadline_change [OF ok, of a cid ty]] ok run by simp
  then have "agenda_ok m" using agenda_ok_tables [of e m] by (simp add: e)
  moreover have "get_case (dl_case_id y) d \<noteq> None" if "y \<in> set ?rows" for y
    using that rows c x by (auto simp: set_update_where rows_ok_def s_def)
  ultimately have rows_m: "rows_ok m"
    unfolding m_def by - (rule rows_ok_set(5), simp_all only: rows_ok_set(1) get_case_tables rows simp_thms)
  have "replays_as cid ''DEADLINE_RESOLVED'' pl d m"
    unfolding replays_as_def
  proof (intro allI impI)
    fix p assume p: "in_step cid d p"
    let ?f = "\<lambda>y. y\<lparr>dl_status := ''MET'', dl_resolved_at := Some now\<rparr>"
    let ?q = "p\<lparr>pj_deadlines := amend ty ?f (pj_deadlines p)\<rparr>"
    have px: "pj_deadlines p = keyed dl_deadline_type norm_deadline (filter ?Q (t_deadlines d))" using p by (simp add: in_step_def)
    have "map_of (pj_deadlines p) ty \<noteq> None"
      unfolding px using keyed_has [OF x(1), of ?Q dl_deadline_type norm_deadline] x by simp
    then have "apply_deadline_resolved pl p = Inr ?q"
      by (auto simp: apply_deadline_resolved_def pl_def require_key_def)
    moreover have "amend ty ?f (pj_deadlines p) = keyed dl_deadline_type norm_deadline (filter ?Q ?rows)"
      unfolding px
      using keyed_replace [of x "t_deadlines d" ?Q s dl_deadline_type "\<lambda>y. dl_id y = dl_id x" norm_deadline ?f,
          OF x(1) _ _ deadline_types_distinct [OF ok] _ sel]
      by (simp add: s_def norm_deadline_def x)
    then have "in_step cid m ?q" using p by (simp add: in_step_def m_def)
    ultimately show "\<exists>q. (\<forall>y. ev_event_type y = ''DEADLINE_RESOLVED'' \<longrightarrow> ev_payload y = Some pl \<longrightarrow>
        apply_event cid p y = Inr q) \<and> in_step cid m q"
      by (auto simp: apply_event_def payload_dict_def)
  qed
  moreover have "same_for y d m" if "y \<noteq> cid" for y
  proof -
    have "filter (\<lambda>r. dl_case_id r = y) ?rows = filter (\<lambda>r. dl_case_id r = y) (t_deadlines d)"
      using that sel x by (intro update_same_elsewhere) (auto simp: s_def)
    then show ?thesis by (simp add: same_for_def m_def)
  qed
  ultimately show ?thesis unfolding e
    using c rows_m by (intro replay_audited [OF inv]) (simp_all add: m_def)
qed

lemma replay_create_obligation:
  assumes inv: "replay_inv (amb_sha a) d" and run: "create_obligation a cid ty due d = (Ret r, e)"
  shows "replay_inv (amb_sha a) e"
proof (cases "find_obligation cid ty d")
  case (Some x)
  then have "e = d" using run by (simp add: create_obligation_def)
  then show ?thesis using inv by simp
next
  case None
  define now where "now = amb_now a (tick d)"
  define row where "row = \<lparr>ob_id = next_id (map ob_id (t_obligations d)), ob_case_id = cid, ob_obligation_type = ty,
     ob_due_at = due, ob_status = ''PLANNED'', ob_created_at = now, ob_activated_at = None, ob_satisfied_at = None\<rparr>"
  define pl where "pl = [(''obligation_type'', VStr ty), (''due_at'', VTime due), (''status'', VStr ''PLANNED''),
     (''created_at'', VTime (utc now))]"
  define m where "m = d\<lparr>tick := Suc (tick d), t_obligations := t_obligations d @ [row]\<rparr>"
  have c: "get_case cid d \<noteq> None" and e: "e = with_event a cid ''OBLIGATION_CREATED'' ''orchestrator'' ''AUTOMATION'' (Some pl) m"
    using run None unfolding create_obligation_def Let_def
    by (auto simp: bnd_def andthen_def utc_now_def require_case_row_def unless_raise_def row_def pl_def m_def now_def
        record_event_run split: if_splits)
  have rows: "rows_ok d" using inv by (simp add: replay_inv_def)
  have "agenda_ok e"
    using agenda_change_ok [OF create_obligation_change [of d a cid ty due]] rows run by (simp add: rows_ok_def)
  then have "agenda_ok m" using agenda_ok_tables [of e m] by (simp add: e)
  moreover have "get_case (ob_case_id x) d \<noteq> None" if "x \<in> set (t_obligations d @ [row])" for x
    using that rows c by (auto simp: rows_ok_def row_def)
  ultimately have rows_m: "rows_ok m"
    unfolding m_def by - (rule rows_ok_set(6), simp_all only: rows_ok_set(1) get_case_tables rows simp_thms)
  have "replays_as cid ''OBLIGATION_CREATED'' pl d m"
    unfolding replays_as_def
  proof (intro allI impI)
    fix p assume p: "in_step cid d p"
    let ?q = "p\<lparr>pj_obligations := (ty, norm_obligation row) # pj_obligations p\<rparr>"
    have "apply_obligation_created cid pl p = Inr ?q"
      by (simp add: apply_obligation_created_def pl_def row_def norm_obligation_def)
    moreover have "in_step cid m ?q"
      using p by (simp add: in_step_def m_def) (simp add: row_def keyed_snoc)
    ultimately show "\<exists>q. (\<forall>x. ev_event_type x = ''OBLIGATION_CREATED'' \<longrightarrow> ev_payload x = Some pl \<longrightarrow>
        apply_event cid p x = Inr q) \<and> in_step cid m q"
      by (auto simp: apply_event_def payload_dict_def)
  qed
  then show ?thesis unfolding e
    using c rows_m by (intro replay_audited [OF inv]) (simp_all add: m_def same_for_def row_def)
qed

lemma replay_obligation_rewrite:
  assumes inv: "replay_inv (amb_sha a) d" and x: "find_obligation cid ty d = Some x" and ev: "obligation_evolves x s"
    and norm: "f (norm_obligation x) = norm_obligation s"
    and event: "\<And>p e. map_of (pj_obligations p) ty \<noteq> None \<Longrightarrow> ev_event_type e = et \<Longrightarrow> ev_payload e = Some pl \<Longrightarrow>
        apply_event cid p e = Inr (p\<lparr>pj_obligations := amend ty f (pj_obligations p)\<rparr>)"
  shows "replay_inv (amb_sha a) (with_event a cid et st ac (Some pl)
     (d\<lparr>tick := n, t_obligations := update_where (\<lambda>y. ob_id y = ob_id x) (\<lambda>_. s) (t_obligations d)\<rparr>))"
proof -
  let ?rows = "update_where (\<lambda>y. ob_id y = ob_id x) (\<lambda>_. s) (t_obligations d)"
  let ?m = "d\<lparr>tick := n, t_obligations := ?rows\<rparr>"
  let ?Q = "\<lambda>y. ob_case_id y = cid"
  have xin: "x \<in> set (t_obligations d)" "ob_case_id x = cid" "ob_obligation_type x = ty" using find_obligation_D [OF x] by auto
  have s: "ob_case_id s = cid" "ob_obligation_type s = ty" using ev xin by (simp_all add: obligation_evolves_def)
  have rows: "rows_ok d" using inv by (simp add: replay_inv_def)
  have ok: "agenda_ok d" using rows by (simp add: rows_ok_def)
  have sel: "ob_id y = ob_id x \<longleftrightarrow> y = x" if "y \<in> set (t_obligations d)" for y using obligation_by_id [OF ok xin(1) that] by blast
  have c: "get_case cid d \<noteq> None" using rows xin by (auto simp: rows_ok_def)
  have "agenda_ok ?m"
    by (rule agenda_change_ok [OF set_obligation_change [OF ok xin(1) ev] ok]) simp_all
  moreover have "get_case (ob_case_id y) d \<noteq> None" if "y \<in> set ?rows" for y
    using that rows c s by (auto simp: set_update_where rows_ok_def)
  ultimately have rows_m: "rows_ok ?m"
    by - (rule rows_ok_set(6), simp_all only: rows_ok_set(1) get_case_tables rows simp_thms)
  have "replays_as cid et pl d ?m"
    unfolding replays_as_def
  proof (intro allI impI)
    fix p assume p: "in_step cid d p"
    then have px: "pj_obligations p = keyed ob_obligation_type norm_obligation (filter ?Q (t_obligations d))" by (simp add: in_step_def)
    have has: "map_of (pj_obligations p) ty \<noteq> None"
      unfolding px using keyed_has [OF xin(1), of ?Q ob_obligation_type norm_obligation] xin by simp
    have "amend ty f (pj_obligations p) = keyed ob_obligation_type norm_obligation (filter ?Q ?rows)"
      unfolding px
      using keyed_replace [of x "t_obligations d" ?Q s ob_obligation_type "\<lambda>y. ob_id y = ob_id x" norm_obligation f,
          OF xin(1) _ _ obligation_types_distinct [OF ok] _ sel] xin s norm
      by simp
    then have "in_step cid ?m (p\<lparr>pj_obligations := amend ty f (pj_obligations p)\<rparr>)" using p by (simp add: in_step_def)
    then show "\<exists>q. (\<forall>e. ev_event_type e = et \<longrightarrow> ev_payload e = Some pl \<longrightarrow> apply_event cid p e = Inr q) \<and> in_step cid ?m q"
      using event [OF has] by blast
  qed
  moreover have "same_for y d ?m" if "y \<noteq> cid" for y
  proof -
    have "filter (\<lambda>r. ob_case_id r = y) ?rows = filter (\<lambda>r. ob_case_id r = y) (t_obligations d)"
      using that sel xin s by (intro update_same_elsewhere) auto
    then show ?thesis by (simp add: same_for_def)
  qed
  ultimately show ?thesis
    using c rows_m by (intro replay_audited [OF inv]) simp_all
qed

lemma replay_activate_obligation:
  assumes inv: "replay_inv (amb_sha a) d" and run: "activate_obligation a cid ty d = (Ret r, e)"
  shows "replay_inv (amb_sha a) e"
proof (cases "\<exists>x. find_obligation cid ty d = Some x \<and> ob_status x = ''PLANNED''")
  case False
  then have "e = d"
    using run by (auto simp: activate_obligation_def get_obligation_def bnd_def split: option.splits if_splits)
  then show ?thesis using inv by simp
next
  case True
  then obtain x where x: "find_obligation cid ty d = Some x" "ob_status x = ''PLANNED''" by blast
  let ?s = "x\<lparr>ob_status := ''ACTIVE'', ob_activated_at := Some (amb_now a (tick d))\<rparr>"
  have c: "get_case cid d \<noteq> None" using inv find_obligation_D [OF x(1)] by (auto simp: replay_inv_def rows_ok_def)
  have e: "e = with_event a cid ''OBLIGATION_ACTIVATED'' ''orchestrator'' ''AUTOMATION'' (Some
      [(''obligation_type'', VStr ty), (''status'', VStr ''ACTIVE''), (''activated_at'', VTime (utc (amb_now a (tick d))))])
      (d\<lparr>tick := Suc (tick d), t_obligations := update_where (\<lambda>y. ob_id y = ob_id x) (\<lambda>_. ?s) (t_obligations d)\<rparr>)"
    using run x c unfolding activate_obligation_def get_obligation_def Let_def
    by (auto simp: bnd_def andthen_def utc_now_def set_obligation_def record_event_run split: if_splits)
  show ?thesis unfolding e
    by (rule replay_obligation_rewrite [OF inv x(1), of _ "\<lambda>r. r\<lparr>ob_status := ''ACTIVE'', ob_activated_at := Some (amb_now a (tick d))\<rparr>"])
      (use x in \<open>auto simp: obligation_evolves_def obligation_rank_def norm_obligation_def apply_event_def payload_dict_def
        apply_obligation_moved_def require_key_def\<close>)
qed

lemma replay_satisfy_obligation:
  assumes inv: "replay_inv (amb_sha a) d" and run: "satisfy_obligation a cid ty d = (Ret r, e)"
  shows "replay_inv (amb_sha a) e"
proof (cases "\<exists>x. find_obligation cid ty d = Some x \<and> ob_status x \<noteq> ''SATISFIED''")
  case False
  then have "e = d"
    using run by (auto simp: satisfy_obligation_def get_obligation_def bnd_def split: option.splits if_splits)
  then show ?thesis using inv by simp
next
  case True
  then obtain x where x: "find_obligation cid ty d = Some x" "ob_status x \<noteq> ''SATISFIED''" by blast
  let ?s = "x\<lparr>ob_status := ''SATISFIED'', ob_satisfied_at := Some (amb_now a (tick d))\<rparr>"
  have c: "get_case cid d \<noteq> None" using inv find_obligation_D [OF x(1)] by (auto simp: replay_inv_def rows_ok_def)
  have e: "e = with_event a cid ''OBLIGATION_SATISFIED'' ''orchestrator'' ''AUTOMATION'' (Some
      [(''obligation_type'', VStr ty), (''status'', VStr ''SATISFIED''), (''satisfied_at'', VTime (utc (amb_now a (tick d))))])
      (d\<lparr>tick := Suc (tick d), t_obligations := update_where (\<lambda>y. ob_id y = ob_id x) (\<lambda>_. ?s) (t_obligations d)\<rparr>)"
    using run x c unfolding satisfy_obligation_def get_obligation_def Let_def
    by (auto simp: bnd_def andthen_def utc_now_def set_obligation_def record_event_run split: if_splits)
  show ?thesis unfolding e
    by (rule replay_obligation_rewrite [OF inv x(1), of _ "\<lambda>r. r\<lparr>ob_status := ''SATISFIED'', ob_satisfied_at := Some (amb_now a (tick d))\<rparr>"])
      (use x in \<open>auto simp: obligation_evolves_def obligation_rank_def norm_obligation_def apply_event_def payload_dict_def
        apply_obligation_moved_def require_key_def\<close>)
qed

text \<open>Leases, sessions and handoffs: their events replay to nothing.\<close>

lemma replay_other_tables [simp]:
  "replay_inv sha (d\<lparr>t_leases := ls\<rparr>) = replay_inv sha d"
  "replay_inv sha (d\<lparr>t_sessions := ss\<rparr>) = replay_inv sha d"
  "replay_inv sha (d\<lparr>t_handoffs := hs\<rparr>) = replay_inv sha d"
  by (simp_all add: replay_inv_def rows_ok_def claims_ok_def claims_unique_def agenda_ok_def replayed_def in_step_def
      case_events_def get_case_def)

lemma replay_ensure_head:
  assumes "replay_inv sha d"
  shows "replay_inv sha (ensure_head c d)"
proof -
  have g: "get_case x (ensure_head c d) = get_case x d" for x
    by (simp add: get_case_def ensure_head_def)
  have "replayed x (ensure_head c d) = replayed x d" for x
    by (rule replayed_same) (simp_all add: same_for_def g, simp_all add: ensure_head_def case_events_def)
  moreover have "rows_ok (ensure_head c d) = rows_ok d"
    using claims_ok_tables [of "ensure_head c d" d] agenda_ok_tables [of "ensure_head c d" d]
    by (simp add: rows_ok_def g)
  ultimately show ?thesis using assms g by (simp add: replay_inv_def chain_inv_ensure_head)
qed

lemma keeps_silent [keeps_rules]:
  "silent_type ty \<Longrightarrow> keeps (replay_inv (amb_sha a)) (record_event a c ty st ac p)"
proof (rule keepsI)
  fix d assume ty: "silent_type ty" and inv: "replay_inv (amb_sha a) d"
  show "replay_inv (amb_sha a) (snd (record_event a c ty st ac p d))"
  proof (cases "get_case c d")
    case None
    then show ?thesis using replay_ensure_head [OF inv, of c] by (simp add: record_event_run)
  next
    case (Some x)
    then show ?thesis using replay_record_event [OF inv, of c ty st ac p] ty by (simp add: record_event_run)
  qed
qed

lemma keeps_replay_clock [keeps_rules]:
  "keeps (replay_inv sha) (utc_now a)" "keeps (replay_inv sha) (time_or_now a now)"
  "keeps (replay_inv sha) (update_leases P f)"
  by (cases now; simp add: keeps_def utc_now_def time_or_now_def update_leases_def)+

lemma keeps_replay_leases [keeps_rules]:
  "keeps (replay_inv (amb_sha a)) (acquire_lease a c ow ty now ttl res)"
  "keeps (replay_inv (amb_sha a)) (heartbeat_lease a c ow tok now ttl)"
  "keeps (replay_inv (amb_sha a)) (validate_lease_token a c ow tok now)"
  "keeps (replay_inv (amb_sha a)) (release_lease a c owo toko now)"
  "keeps (replay_inv (amb_sha a)) (register_browser_session a c sid url)"
  "keeps (replay_inv (amb_sha a)) (update_browser_session a sid url sta)"
  "keeps (replay_inv (amb_sha a)) (record_handoff a c reason op act)"
  unfolding acquire_lease_def validate_lease_token_def release_lease_def take_over_lease_def heartbeat_lease_def read_lease_def
    lease_acquired_event_def register_browser_session_def update_browser_session_def record_handoff_def Let_def
  by (intro keeps_rules keeps_change; simp add: silent_type_def)+

lemma replay_evaluate:
  assumes inv: "replay_inv (amb_sha a) d" and run: "mark_overdue_deadlines a c now d = (Ret [], e)"
  shows "replay_inv (amb_sha a) e"
proof -
  obtain t d0 where t: "reference_time a now d = (Ret t, d0)" "replay_inv (amb_sha a) d0"
    using inv by (cases now) (auto simp: reference_time_def bnd_def utc_now_def)
  have "e = d0"
    using run t(1) by (cases "d0") (auto simp: mark_overdue_deadlines_def bnd_def andthen_def Let_def update_where_def split: if_splits prod.splits run.splits)
  then show ?thesis using t by simp
qed

end
