(* ===== verification/Reconstruction.thy ===== *)
theory Reconstruction
  imports RebuildSteps
begin

text \<open>
  The ledger runs that \<open>rebuild_case\<close> reproduces, and what it does outside of them.
  \<open>ledger_run\<close> closes the empty database under the repository operations that return, each
  with the side conditions stated there; on every database it reaches, rebuilding a case
  succeeds and changes nothing that \<open>snapshot_projections\<close> shows.
\<close>

section \<open>Row ids grow\<close>

definition ascending :: "('r \<Rightarrow> nat) \<Rightarrow> 'r list \<Rightarrow> bool" where
  "ascending key rows \<longleftrightarrow> sorted (map key rows)"

lemma ascending_snoc: "ascending key rows \<Longrightarrow> key r = next_id (map key rows) \<Longrightarrow> ascending key (rows @ [r])"
  using next_id_fresh by (auto simp: ascending_def sorted_append intro: less_imp_le)

lemma ascending_update:
  "ascending key rows \<Longrightarrow> (\<And>r. r \<in> set rows \<Longrightarrow> P r \<Longrightarrow> key (f r) = key r) \<Longrightarrow> ascending key (update_where P f rows)"
proof -
  assume a: "ascending key rows" and f: "\<And>r. r \<in> set rows \<Longrightarrow> P r \<Longrightarrow> key (f r) = key r"
  have "map key (update_where P f rows) = map key rows"
    unfolding update_where_def map_map by (rule map_cong) (simp_all add: f)
  with a show ?thesis by (simp add: ascending_def)
qed

lemma ascending_filter: "ascending key rows \<Longrightarrow> sort_key key (filter P rows) = filter P rows"
  by (intro sort_key_id_if_sorted) (induction rows; auto simp: ascending_def)

definition ids_ok :: "db \<Rightarrow> bool" where
  "ids_ok d \<longleftrightarrow> ascending ex_id (t_executions d) \<and> ascending in_id (t_intents d) \<and> ascending cl_id (t_claims d) \<and>
     ascending dl_id (t_deadlines d) \<and> ascending ob_id (t_obligations d)"

lemma ids_ok_cong:
  "t_executions e = t_executions d \<Longrightarrow> t_intents e = t_intents d \<Longrightarrow> t_claims e = t_claims d \<Longrightarrow>
   t_deadlines e = t_deadlines d \<Longrightarrow> t_obligations e = t_obligations d \<Longrightarrow> ids_ok e = ids_ok d"
  by (simp add: ids_ok_def)

lemma ids_ok_simps [simp]:
  "ids_ok (with_event a c ty st ac p d) = ids_ok d" "ids_ok (ensure_head c d) = ids_ok d"
  "ids_ok (d\<lparr>tick := n\<rparr>) = ids_ok d" "ids_ok (d\<lparr>t_leases := ls\<rparr>) = ids_ok d" "ids_ok (d\<lparr>t_cases := cs\<rparr>) = ids_ok d"
  "ids_ok (d\<lparr>t_sessions := ss\<rparr>) = ids_ok d" "ids_ok (d\<lparr>t_handoffs := hs\<rparr>) = ids_ok d"
  by (rule ids_ok_cong; simp add: ensure_head_def)+

lemma keeps_ids_event [keeps_rules]: "keeps ids_ok (record_event a c ty st ac p)"
  by (rule keepsI) (simp add: record_event_run)

lemma keeps_ids_clock [keeps_rules]:
  "keeps ids_ok (utc_now a)" "keeps ids_ok (time_or_now a now)" "keeps ids_ok (update_leases P f)"
  by (cases now; simp add: keeps_def utc_now_def time_or_now_def update_leases_def)+

lemma keeps_ids_leases [keeps_rules]:
  "keeps ids_ok (create_or_get_case a c m am cur proc)"
  "keeps ids_ok (update_case_status a c s mm)"
  "keeps ids_ok (acquire_lease a c ow ty now ttl res)"
  "keeps ids_ok (heartbeat_lease a c ow tok now ttl)"
  "keeps ids_ok (validate_lease_token a c ow tok now)"
  "keeps ids_ok (release_lease a c owo toko now)"
  "keeps ids_ok (register_browser_session a c sid url)"
  "keeps ids_ok (update_browser_session a sid url sta)"
  "keeps ids_ok (record_handoff a c reason op act)"
  unfolding acquire_lease_def validate_lease_token_def release_lease_def take_over_lease_def heartbeat_lease_def read_lease_def
    lease_acquired_event_def register_browser_session_def update_browser_session_def record_handoff_def Let_def
    create_or_get_case_def update_case_status_def
  by (intro keeps_rules keeps_change; simp add: set_case_def)+

lemma ids_executions:
  assumes "ids_ok d"
  shows "start_execution a c cap ver ec key ee ea ac bs d = (Ret x, e) \<Longrightarrow> ids_ok e"
    and "complete_execution a rid status oe oa fc ar mm d = (Ret y, e) \<Longrightarrow> ids_ok e"
    and "stage_intent a c k cap d = (Ret z, e) \<Longrightarrow> ids_ok e"
    and "mark_intent_committed a k d = (Ret u, e) \<Longrightarrow> ids_ok e"
proof -
  note basics = bnd_def andthen_def utc_now_def Let_def record_event_run require_case_row_def unless_raise_def
  show "ids_ok e" if "start_execution a c cap ver ec key ee ea ac bs d = (Ret x, e)"
    using that assms
    by (cases "opt_money ea") (auto simp: start_execution_def basics ids_ok_def intro!: ascending_snoc split: if_splits)
  show "ids_ok e" if run: "stage_intent a c k cap d = (Ret z, e)"
    using run assms
    by (cases "find_intent k d") (auto simp: stage_intent_def basics ids_ok_def intro!: ascending_snoc split: if_splits)
  show "ids_ok e" if run: "complete_execution a rid status oe oa fc ar mm d = (Ret y, e)"
  proof (cases "get_execution rid d")
    case None
    then show ?thesis using run by (simp add: complete_execution_def bnd_def)
  next
    case (Some r)
    have "ex_id r = rid" using Some by (auto simp: get_execution_def dest: select_first_Some)
    then show ?thesis using run assms Some
      by (cases "opt_money oa") (auto simp: complete_execution_def set_execution_def basics ids_ok_def update_update
          intro!: ascending_update split: if_splits)
  qed
  show "ids_ok e" if run: "mark_intent_committed a k d = (Ret u, e)"
    using run assms
    by (cases "find_intent k d") (auto simp: mark_intent_committed_def basics ids_ok_def
          intro!: ascending_update split: if_splits)
qed

lemma ids_agenda:
  assumes "agenda_change d e" "ids_ok d" "t_executions e = t_executions d" "t_intents e = t_intents d" "t_claims e = t_claims d"
  shows "ids_ok e"
  using assms
  by (induction rule: agenda_change.induct)
    (auto simp: ids_ok_def deadline_evolves_def obligation_evolves_def intro!: ascending_snoc ascending_update)

lemma other_rows_agenda:
  fixes X :: "execution_row list" and Y :: "intent_row list" and Z :: "claim_row list"
  defines "I \<equiv> \<lambda>d. t_executions d = X \<and> t_intents d = Y \<and> t_claims d = Z"
  shows "keeps I (create_deadline a c ty due)" "keeps I (resolve_deadline a c ty)"
    "keeps I (create_obligation a c ty due)" "keeps I (activate_obligation a c ty)" "keeps I (satisfy_obligation a c ty)"
proof -
  have ev: "keeps I (record_event a c ty st ac p)" for c ty st ac p
    unfolding I_def by (rule keepsI) (simp add: record_event_run)
  have clock: "keeps I (utc_now a)" by (simp add: I_def keeps_def utc_now_def)
  show "keeps I (create_deadline a c ty due)" "keeps I (resolve_deadline a c ty)"
    "keeps I (create_obligation a c ty due)" "keeps I (activate_obligation a c ty)" "keeps I (satisfy_obligation a c ty)"
    unfolding create_deadline_def resolve_deadline_def create_obligation_def activate_obligation_def satisfy_obligation_def
      get_obligation_def require_case_row_def Let_def
    by (intro keeps_rules keeps_change ev clock; simp add: I_def set_deadline_def set_obligation_def)+
qed

lemma ids_commitments:
  assumes ids: "ids_ok d" and ok: "agenda_ok d"
  shows "create_deadline a c ty due d = (Ret r, e) \<Longrightarrow> ids_ok e"
    and "resolve_deadline a c ty d = (Ret s, e) \<Longrightarrow> ids_ok e"
    and "create_obligation a c ty due d = (Ret x, e) \<Longrightarrow> ids_ok e"
    and "activate_obligation a c ty d = (Ret y, e) \<Longrightarrow> ids_ok e"
    and "satisfy_obligation a c ty d = (Ret z, e) \<Longrightarrow> ids_ok e"
proof -
  note others = other_rows_agenda [of "t_executions d" "t_intents d" "t_claims d" a c ty, THEN keepsD, of d, simplified]
  show "create_deadline a c ty due d = (Ret r, e) \<Longrightarrow> ids_ok e"
    using ids_agenda [OF create_deadline_change ids, of a c ty due] others(1) [of due] by simp
  show "resolve_deadline a c ty d = (Ret s, e) \<Longrightarrow> ids_ok e"
    using ids_agenda [OF resolve_deadline_change [OF ok] ids, of a c ty] others(2) by simp
  show "create_obligation a c ty due d = (Ret x, e) \<Longrightarrow> ids_ok e"
    using ids_agenda [OF create_obligation_change ids, of a c ty due] others(3) [of due] by simp
  show "activate_obligation a c ty d = (Ret y, e) \<Longrightarrow> ids_ok e"
    using ids_agenda [OF activate_obligation_change [OF ok] ids, of a c ty] others(4) by simp
  show "satisfy_obligation a c ty d = (Ret z, e) \<Longrightarrow> ids_ok e"
    using ids_agenda [OF satisfy_obligation_change [OF ok] ids, of a c ty] others(5) by simp
qed

lemma ids_evaluate:
  assumes "ids_ok d" "mark_overdue_deadlines a c now d = (Ret [], e)"
  shows "ids_ok e"
proof -
  obtain t d0 where t: "reference_time a now d = (Ret t, d0)" "ids_ok d0"
    using assms(1) by (cases now) (auto simp: reference_time_def bnd_def utc_now_def)
  have "e = d0"
    using assms(2) t(1) by (cases d0) (auto simp: mark_overdue_deadlines_def bnd_def andthen_def Let_def update_where_def
        split: if_splits prod.splits run.splits)
  then show ?thesis using t by simp
qed

lemma ids_claim_rewrite:
  assumes "ids_ok d" "claims_ok d" "get_effect_claim key d = Some x" "cl_id s = cl_id x"
  shows "ids_ok (d\<lparr>tick := n, t_claims := update_where (\<lambda>r. cl_idempotency_key r = key) (\<lambda>_. s) (t_claims d)\<rparr>)"
proof -
  have "ascending cl_id (update_where (\<lambda>r. cl_idempotency_key r = key) (\<lambda>_. s) (t_claims d))"
    using assms(1,4) claim_sel [OF assms(2,3)] by (intro ascending_update) (auto simp: ids_ok_def)
  then show ?thesis using assms(1) by (simp add: ids_ok_def)
qed

lemma ids_claims:
  assumes ids: "ids_ok d" and ok: "claims_ok d"
  shows "claim_effect a i ow now ttl d = (Ret r, e) \<Longrightarrow> get_case (id_case_id i) d \<noteq> None \<Longrightarrow> ids_ok e"
    and "transition_effect_claim a key ow tok froms to now d = (Ret b, e) \<Longrightarrow> ids_ok e"
proof -
  show "ids_ok e" if run: "claim_effect a i ow now ttl d = (Ret r, e)" and c: "get_case (id_case_id i) d \<noteq> None"
  proof (rule claim_effect_state [OF ok run c])
    fix t n rid
    assume "rid = next_id (map cl_id (t_claims d))"
      and e: "e = with_event a (id_case_id i) ''EFFECT_CLAIMED'' (id_capability_id i) ''AUTOMATION''
        (Some (claim_payload (new_claim (idempotency_key (amb_sha a) i) i ow t ttl rid)))
        (d\<lparr>tick := n, t_claims := t_claims d @ [new_claim (idempotency_key (amb_sha a) i) i ow t ttl rid]\<rparr>)"
    then show ?thesis using ids
      by (simp add: ids_ok_def) (rule ascending_snoc, simp_all add: new_claim_def)
  next
    fix x :: claim_row and t n
    assume x: "get_effect_claim (idempotency_key (amb_sha a) i) d = Some x"
      and e: "e = with_event a (id_case_id i) ''EFFECT_CLAIMED'' (id_capability_id i) ''AUTOMATION''
        (Some (claim_payload (reclaimed x ow t ttl))) (d\<lparr>tick := n, t_claims :=
          update_where (\<lambda>r. cl_idempotency_key r = idempotency_key (amb_sha a) i) (\<lambda>_. reclaimed x ow t ttl) (t_claims d)\<rparr>)"
    show ?thesis unfolding e ids_ok_simps(1) by (rule ids_claim_rewrite [OF ids ok x]) (simp add: reclaimed_def)
  qed (use ids in simp)
  show "ids_ok e" if run: "transition_effect_claim a key ow tok froms to now d = (Ret b, e)"
  proof (rule transition_state [OF ok run])
    fix x :: claim_row and t n
    assume x: "get_effect_claim key d = Some x"
      and e: "e = with_event a (cl_case_id x) ''EFFECT_CLAIM_TRANSITIONED'' (cl_capability_id x) ''AUTOMATION'' (Some
          [(''idempotency_key'', VStr key), (''status'', VStr (claim_status_value to)),
          (''owner_id'', VStr (cl_owner_id x)), (''fencing_token'', VInt (int (cl_fencing_token x))),
          (''heartbeat_at'', VTime (utc t)), (''updated_at'', VTime (utc t))])
        (d\<lparr>tick := n, t_claims := update_where (\<lambda>r. cl_idempotency_key r = key) (\<lambda>_. moved_claim to t x) (t_claims d)\<rparr>)"
    show ?thesis unfolding e ids_ok_simps(1) by (rule ids_claim_rewrite [OF ids ok x]) (simp add: moved_claim_def)
  qed (use ids in simp)
qed

section \<open>Ledger runs\<close>

text \<open>
  The side conditions: an event of the application's own is of a type the replay ignores, or
  \<open>MONEY_MOVED\<close> on a case that has moved money; a claim is for an existing case and an amount
  in range, and its key belongs to that case (the repository also takes a claim for a case
  that has no row yet, without an event for it; the engine never makes one); an overdue
  evaluation finds nothing.
\<close>

inductive ledger_run :: "ambient \<Rightarrow> db \<Rightarrow> bool" for a where
  empty: "ledger_run a empty_db"
| recorded: "ledger_run a d \<Longrightarrow> record_event a c ty st ac pl d = (Ret ev, e) \<Longrightarrow>
    silent_type ty \<or> ty = ''MONEY_MOVED'' \<and> (\<forall>k. get_case c d = Some k \<longrightarrow> c_money_moved k) \<Longrightarrow> ledger_run a e"
| opened: "ledger_run a d \<Longrightarrow> create_or_get_case a c m am cur proc d = (Ret k, e) \<Longrightarrow> ledger_run a e"
| updated: "ledger_run a d \<Longrightarrow> update_case_status a c s mm d = (Ret k, e) \<Longrightarrow> ledger_run a e"
| started: "ledger_run a d \<Longrightarrow> start_execution a c cap ver ec key ee ea ac bs d = (Ret x, e) \<Longrightarrow> ledger_run a e"
| completed: "ledger_run a d \<Longrightarrow> complete_execution a rid s oe oa fc ar mm d = (Ret x, e) \<Longrightarrow> ledger_run a e"
| staged: "ledger_run a d \<Longrightarrow> stage_intent a c key cap d = (Ret i, e) \<Longrightarrow> ledger_run a e"
| marked: "ledger_run a d \<Longrightarrow> mark_intent_committed a key d = (Ret u, e) \<Longrightarrow> ledger_run a e"
| claimed: "ledger_run a d \<Longrightarrow> claim_effect a i ow now ttl d = (Ret cl, e) \<Longrightarrow> get_case (id_case_id i) d \<noteq> None \<Longrightarrow>
    m_cents (id_amount i) \<le> max_money_cents \<Longrightarrow>
    (\<And>x. get_effect_claim (idempotency_key (amb_sha a) i) d = Some x \<Longrightarrow> cl_case_id x = id_case_id i) \<Longrightarrow> ledger_run a e"
| moved: "ledger_run a d \<Longrightarrow> transition_effect_claim a key ow tok froms to now d = (Ret b, e) \<Longrightarrow> ledger_run a e"
| deadline: "ledger_run a d \<Longrightarrow> create_deadline a c ty due d = (Ret dl, e) \<Longrightarrow> ledger_run a e"
| resolved: "ledger_run a d \<Longrightarrow> resolve_deadline a c ty d = (Ret dlo, e) \<Longrightarrow> ledger_run a e"
| evaluated: "ledger_run a d \<Longrightarrow> mark_overdue_deadlines a c reference d = (Ret [], e) \<Longrightarrow> ledger_run a e"
| obligation: "ledger_run a d \<Longrightarrow> create_obligation a c ty due d = (Ret ob, e) \<Longrightarrow> ledger_run a e"
| activated: "ledger_run a d \<Longrightarrow> activate_obligation a c ty d = (Ret ob, e) \<Longrightarrow> ledger_run a e"
| satisfied: "ledger_run a d \<Longrightarrow> satisfy_obligation a c ty d = (Ret ob, e) \<Longrightarrow> ledger_run a e"
| acquired: "ledger_run a d \<Longrightarrow> acquire_lease a c ow oty now ttl res d = (Ret ls, e) \<Longrightarrow> ledger_run a e"
| renewed: "ledger_run a d \<Longrightarrow> heartbeat_lease a c ow tok now ttl d = (Ret ls, e) \<Longrightarrow> ledger_run a e"
| checked: "ledger_run a d \<Longrightarrow> validate_lease_token a c ow tok now d = (Ret b, e) \<Longrightarrow> ledger_run a e"
| released: "ledger_run a d \<Longrightarrow> release_lease a c owo toko now d = (Ret lso, e) \<Longrightarrow> ledger_run a e"
| browsing: "ledger_run a d \<Longrightarrow> register_browser_session a c sid url d = (Ret se, e) \<Longrightarrow> ledger_run a e"
| navigated: "ledger_run a d \<Longrightarrow> update_browser_session a sid url sta d = (Ret se, e) \<Longrightarrow> ledger_run a e"
| handed_off: "ledger_run a d \<Longrightarrow> record_handoff a c reason op act d = (Ret ho, e) \<Longrightarrow> ledger_run a e"

lemma empty_db_inv: "replay_inv sha empty_db" "ids_ok empty_db"
  by (simp_all add: replay_inv_def rows_ok_def claims_ok_def claims_unique_def agenda_ok_def unique_on_def empty_db_def
      chain_inv_def head_matches_def case_events_def get_head_def get_case_def ids_ok_def ascending_def)

lemma replay_inv_agenda: "replay_inv sha d \<Longrightarrow> agenda_ok d"
  by (simp add: replay_inv_def rows_ok_def)

lemmas replay_operations = replay_record_event replay_create_case replay_update_case replay_start_execution
  replay_complete_execution replay_stage_intent replay_mark_intent replay_create_deadline replay_resolve_deadline
  replay_evaluate replay_create_obligation replay_activate_obligation replay_satisfy_obligation
  keeps_replay_leases [THEN keepsD_run]

lemmas ids_operations = keeps_ids_event [THEN keepsD_run] keeps_ids_leases [THEN keepsD_run] ids_executions ids_evaluate
  ids_commitments [OF _ replay_inv_agenda]

lemma ledger_run_inv: "ledger_run a d \<Longrightarrow> replay_inv (amb_sha a) d \<and> ids_ok d"
proof (induction rule: ledger_run.induct)
  case (claimed d i ow now ttl cl e)
  then show ?case using replay_claim_effect [of a d i ow now ttl cl e] ids_claims(1) [of d a i ow now ttl cl e]
    by (simp add: replay_inv_def rows_ok_def)
next
  case (moved d key ow tok froms to now b e)
  then show ?case
    using replay_transition [of a d key ow tok froms to now b e] ids_claims(2) [of d a key ow tok froms to now b e]
    by (simp add: replay_inv_def rows_ok_def)
qed (use empty_db_inv in \<open>auto dest: replay_operations ids_operations\<close>)

section \<open>Storing a replay\<close>

lemma numbered_ids: "(\<And>n r. key (f n r) = n) \<Longrightarrow> sorted (map key (numbered f n rows))"
proof -
  assume f: "\<And>n r. key (f n r) = n"
  have "map key (numbered f n rows) = [n..<n + length rows]"
    by (induction rows arbitrary: n) (simp_all add: f upt_conv_Cons del: upt_Suc)
  then show ?thesis by simp
qed

lemma numbered_all: "(\<And>n r. r \<in> set rows \<Longrightarrow> P (f n r)) \<Longrightarrow> \<forall>r \<in> set (numbered f n rows). P r"
  by (induction f n rows rule: numbered.induct) auto

lemma keyed_rows: "map snd (rev (keyed key norm rows)) = map norm rows"
  by (simp add: keyed_def rev_map [symmetric])

text \<open>The flushed rows of the case show what its rows showed, and other rows are not touched.\<close>

lemma flushed_view:
  assumes asc: "ascending key rows"
    and set_id: "\<And>n r. key (set_id n r) = n" "\<And>n r. mine (set_id n (norm r)) = mine r" "\<And>n r. view (set_id n (norm r)) = view r"
  shows "map view (sort_key key (filter mine (flushed key set_id mine (keyed k norm (filter mine rows)) base)))
    = map view (sort_key key (filter mine rows))"
proof -
  let ?new = "numbered set_id (next_id (map key (filter (\<lambda>r. \<not> mine r) base))) (map norm (filter mine rows))"
  have "\<forall>r \<in> set ?new. mine r" by (rule numbered_all) (auto simp: set_id)
  then have new: "filter mine ?new = ?new" by (simp only: filter_id_conv)
  have old: "filter mine (filter (\<lambda>r. \<not> mine r) base) = []" by (simp add: filter_empty_conv)
  have "flushed key set_id mine (keyed k norm (filter mine rows)) base = filter (\<lambda>r. \<not> mine r) base @ ?new"
    by (simp only: flushed_def Let_def keyed_rows)
  then have "filter mine (flushed key set_id mine (keyed k norm (filter mine rows)) base) = ?new"
    by (simp only: filter_append old new append_Nil)
  moreover have "sort_key key ?new = ?new" by (rule sort_key_id_if_sorted) (rule numbered_ids, simp add: set_id)
  moreover have "map view ?new = map view (filter mine rows)"
  proof -
    have "map view (numbered set_id n (map norm xs)) = map view xs" for n xs
      by (induction xs arbitrary: n) (simp_all add: set_id)
    then show ?thesis .
  qed
  ultimately show ?thesis using ascending_filter [OF asc, of mine] by (simp only:)
qed

lemma flushed_others:
  assumes "\<And>n r. mine (set_id n (norm r)) = mine r" and "\<And>r. Q r \<Longrightarrow> \<not> mine r"
  shows "filter Q (flushed key set_id mine (keyed k norm (filter mine rows)) rows) = filter Q rows"
proof -
  let ?new = "numbered set_id (next_id (map key (filter (\<lambda>r. \<not> mine r) rows))) (map norm (filter mine rows))"
  have "\<forall>r \<in> set ?new. \<not> Q r" by (rule numbered_all) (use assms in auto)
  moreover have "filter Q (filter (\<lambda>r. \<not> mine r) rows) = filter Q rows"
    unfolding filter_filter by (rule filter_cong) (use assms in auto)
  ultimately show ?thesis by (simp add: flushed_def Let_def keyed_rows filter_empty_conv)
qed

lemma snapshot_norms:
  "snapshot_execution ((norm_execution r)\<lparr>ex_id := n\<rparr>) = snapshot_execution r"
  "snapshot_intent ((norm_intent i)\<lparr>in_id := n\<rparr>) = snapshot_intent i"
  "snapshot_claim ((norm_claim c)\<lparr>cl_id := n\<rparr>) = snapshot_claim c"
  "snapshot_deadline ((norm_deadline dl)\<lparr>dl_id := n\<rparr>) = snapshot_deadline dl"
  "snapshot_obligation ((norm_obligation ob)\<lparr>ob_id := n\<rparr>) = snapshot_obligation ob"
  by (simp_all add: norms snapshot_execution_def snapshot_intent_def snapshot_claim_def snapshot_deadline_def
      snapshot_obligation_def datetime_text_def)

text \<open>The rows of a case, without what a rebuild may renumber.\<close>

definition untouched :: "string \<Rightarrow> db \<Rightarrow> db \<Rightarrow> bool" where
  "untouched cid d e \<longleftrightarrow> (\<forall>y. y \<noteq> cid \<longrightarrow> same_for y d e) \<and> t_events e = t_events d \<and> t_heads e = t_heads d \<and>
     t_leases e = t_leases d \<and> t_sessions e = t_sessions d \<and> t_handoffs e = t_handoffs d \<and> tick e = tick d"

lemma store_projection_view:
  assumes inv: "replay_inv sha d" and ids: "ids_ok d" and c: "get_case cid d = Some c" and p: "in_step cid d p"
    and base: "t_cases b = t_cases d"
  shows "snapshot_projections cid (store_projection cid p b) = snapshot_projections cid d"
    and "b = d \<Longrightarrow> untouched cid d (store_projection cid p b)"
proof -
  let ?e = "store_projection cid p b"
  have px: "pj_case p = c"
    "pj_executions p = keyed ex_id norm_execution (filter (\<lambda>r. ex_case_id r = cid) (t_executions d))"
    "pj_intents p = keyed in_idempotency_key norm_intent (filter (\<lambda>r. in_case_id r = cid) (t_intents d))"
    "pj_claims p = keyed cl_idempotency_key norm_claim (filter (\<lambda>r. cl_case_id r = cid) (t_claims d))"
    "pj_deadlines p = keyed dl_deadline_type norm_deadline (filter (\<lambda>r. dl_case_id r = cid) (t_deadlines d))"
    "pj_obligations p = keyed ob_obligation_type norm_obligation (filter (\<lambda>r. ob_case_id r = cid) (t_obligations d))"
    using p c by (auto simp: in_step_def)
  have ci: "c_case_id c = cid" "c \<in> set (t_cases d)" using c by (auto simp: get_case_def dest: select_first_Some)
  have "x = c" if "x \<in> set (t_cases d)" "c_case_id x = cid" for x
    using inv that ci unique_on_eq [of c_case_id] by (auto simp: replay_inv_def rows_ok_def)
  then have cases: "t_cases ?e = t_cases d"
    by (auto simp: store_projection_def px base update_where_def intro!: map_idI)
  then have g: "get_case y ?e = get_case y d" for y by (simp add: get_case_def)
  have asc: "ascending ex_id (t_executions d)" "ascending in_id (t_intents d)" "ascending cl_id (t_claims d)"
     "ascending dl_id (t_deadlines d)" "ascending ob_id (t_obligations d)"
    using ids by (auto simp: ids_ok_def)
  have tables:
    "t_executions ?e = flushed ex_id (\<lambda>n r. r\<lparr>ex_id := n\<rparr>) (\<lambda>r. ex_case_id r = cid)
       (keyed ex_id norm_execution (filter (\<lambda>r. ex_case_id r = cid) (t_executions d))) (t_executions b)"
    "t_intents ?e = flushed in_id (\<lambda>n r. r\<lparr>in_id := n\<rparr>) (\<lambda>r. in_case_id r = cid)
       (keyed in_idempotency_key norm_intent (filter (\<lambda>r. in_case_id r = cid) (t_intents d))) (t_intents b)"
    "t_claims ?e = flushed cl_id (\<lambda>n r. r\<lparr>cl_id := n\<rparr>) (\<lambda>r. cl_case_id r = cid)
       (keyed cl_idempotency_key norm_claim (filter (\<lambda>r. cl_case_id r = cid) (t_claims d))) (t_claims b)"
    "t_deadlines ?e = flushed dl_id (\<lambda>n r. r\<lparr>dl_id := n\<rparr>) (\<lambda>r. dl_case_id r = cid)
       (keyed dl_deadline_type norm_deadline (filter (\<lambda>r. dl_case_id r = cid) (t_deadlines d))) (t_deadlines b)"
    "t_obligations ?e = flushed ob_id (\<lambda>n r. r\<lparr>ob_id := n\<rparr>) (\<lambda>r. ob_case_id r = cid)
       (keyed ob_obligation_type norm_obligation (filter (\<lambda>r. ob_case_id r = cid) (t_obligations d))) (t_obligations b)"
    by (simp_all add: store_projection_def px)
  have "map snapshot_execution (sort_key ex_id (filter (\<lambda>r. ex_case_id r = cid) (t_executions ?e)))
      = map snapshot_execution (sort_key ex_id (filter (\<lambda>r. ex_case_id r = cid) (t_executions d))) \<and>
    map snapshot_intent (sort_key in_id (filter (\<lambda>r. in_case_id r = cid) (t_intents ?e)))
      = map snapshot_intent (sort_key in_id (filter (\<lambda>r. in_case_id r = cid) (t_intents d))) \<and>
    map snapshot_claim (sort_key cl_id (filter (\<lambda>r. cl_case_id r = cid) (t_claims ?e)))
      = map snapshot_claim (sort_key cl_id (filter (\<lambda>r. cl_case_id r = cid) (t_claims d))) \<and>
    map snapshot_deadline (sort_key dl_id (filter (\<lambda>r. dl_case_id r = cid) (t_deadlines ?e)))
      = map snapshot_deadline (sort_key dl_id (filter (\<lambda>r. dl_case_id r = cid) (t_deadlines d))) \<and>
    map snapshot_obligation (sort_key ob_id (filter (\<lambda>r. ob_case_id r = cid) (t_obligations ?e)))
      = map snapshot_obligation (sort_key ob_id (filter (\<lambda>r. ob_case_id r = cid) (t_obligations d)))"
    unfolding tables
    by (intro conjI; rule flushed_view; simp add: asc snapshot_norms; simp add: norms)
  then show "snapshot_projections cid ?e = snapshot_projections cid d"
    unfolding snapshot_projections_def g by (simp only:)
  assume b: "b = d"
  have "same_for y d ?e" if "y \<noteq> cid" for y
    unfolding same_for_def g tables unfolding b
    by (intro conjI flushed_others refl) (use that in \<open>auto simp: norms\<close>)
  then show "untouched cid d ?e" by (simp add: untouched_def b) (simp add: store_projection_def)
qed

lemma rebuild_run:
  assumes "chain_inv (amb_sha a) d" "replayed cid d" "get_case cid d = Some c"
    "apply_events cid (empty_projection c) (case_events cid d) = Inr p"
  shows "rebuild_case a cid d = (Ret (), store_projection cid p d)"
proof -
  have "cv_valid (verify_event_chain (amb_sha a) cid d)" using assms(1) by (rule chain_inv_verified)
  moreover have "get_events_for_case cid d = case_events cid d"
    using assms(1) sorted_case_events unfolding chain_inv_def by blast
  ultimately show ?thesis using assms by (simp add: rebuild_case_def replayed_def of_res_def bnd_def andthen_def)
qed

text \<open>What an overdue evaluation does not change: the cases, the chain and the replay.\<close>

lemma overdue_replay:
  assumes "chain_inv (amb_sha a) d" "replayed cid d" and run: "mark_overdue_deadlines a cid now d = (r, e)"
  shows "chain_inv (amb_sha a) e" "t_cases e = t_cases d" "case_events cid e \<noteq> []"
    "hd (case_events cid e) = hd (case_events cid d)"
    "apply_events cid p (case_events cid e) = apply_events cid p (case_events cid d)"
proof -
  define I where "I x \<longleftrightarrow> t_cases x = t_cases d \<and> case_events cid x \<noteq> [] \<and> hd (case_events cid x) = hd (case_events cid d) \<and>
    (\<forall>p. apply_events cid p (case_events cid x) = apply_events cid p (case_events cid d))" for x
  have ev: "keeps I (record_event a cid ''DEADLINE_OVERDUE'' st ac pl)" for st ac pl
  proof (rule keepsI)
    fix x assume I: "I x"
    have silent: "apply_event cid q (next_event a cid ''DEADLINE_OVERDUE'' st ac pl x) = Inr q" for q
      by (rule apply_silent) (simp add: silent_type_def)
    have one: "rbind y Inr = y" for y :: "projection res" by (cases y) simp_all
    show "I (snd (record_event a cid ''DEADLINE_OVERDUE'' st ac pl x))"
    proof (cases "get_case cid x")
      case None
      then show ?thesis using I by (simp add: record_event_run I_def case_events_def)
    next
      case (Some k)
      have "case_events cid (with_event a cid ''DEADLINE_OVERDUE'' st ac pl x)
          = case_events cid x @ [next_event a cid ''DEADLINE_OVERDUE'' st ac pl x]"
        by (simp add: case_events_def)
      then show ?thesis using I Some by (simp add: I_def apply_events_snoc silent one)
    qed
  qed
  have "keeps I (mark_overdue_deadlines a cid now)"
    unfolding mark_overdue_deadlines_def reference_time_def Let_def
    by (intro keeps_rules keeps_change ev; simp add: I_def case_events_def keeps_def utc_now_def)+
  moreover have "I d" using assms(2) by (simp add: I_def replayed_def)
  ultimately have "I e" using run by (rule keepsD_run)
  then show "t_cases e = t_cases d" "case_events cid e \<noteq> []" "hd (case_events cid e) = hd (case_events cid d)"
    "apply_events cid p (case_events cid e) = apply_events cid p (case_events cid d)"
    by (simp_all add: I_def)
  show "chain_inv (amb_sha a) e" using keepsD_run [OF keeps_deadlines(3) assms(1) run] .
qed

lemma mark_row_case: "dl_case_id (mark_row c reference r) = dl_case_id r"
  by (simp add: mark_row_def)

section \<open>Properties\<close>

text \<open>
  C36: On every database of a \<open>ledger_run\<close>, rebuilding an existing case returns, leaves its
  business snapshot as it was, and touches no event, no lease, no session and no row of
  another case.  A \<open>ledger_run\<close> starts empty and takes steps of the repository's operations
  that return; of the operations it leaves out these uses: recording by hand an event of a
  type that the replay reads (\<open>MONEY_MOVED\<close> on a case that has moved money is admitted),
  claiming an effect for a case that does not exist, with an amount out of range or under a
  key that another case holds, and an evaluation that marks a deadline overdue.
\<close>

theorem rebuild_restores:
  assumes run: "ledger_run a d" and c: "get_case cid d \<noteq> None"
  shows "\<exists>e. rebuild_case a cid d = (Ret (), e) \<and> snapshot_projections cid e = snapshot_projections cid d \<and>
     untouched cid d e"
proof -
  note inv = ledger_run_inv [OF run, THEN conjunct1] and ids = ledger_run_inv [OF run, THEN conjunct2]
  obtain k where k: "get_case cid d = Some k" using c by blast
  then have "c_case_id k = cid" by (auto simp: get_case_def dest: select_first_Some)
  moreover have r: "replayed cid d" "chain_inv (amb_sha a) d" using inv c by (simp_all add: replay_inv_def)
  ultimately obtain p where p: "apply_events cid (empty_projection k) (case_events cid d) = Inr p" "in_step cid d p"
    unfolding replayed_def by blast
  have "rebuild_case a cid d = (Ret (), store_projection cid p d)" by (rule rebuild_run [OF r(2,1) k p(1)])
  moreover note store_projection_view [OF inv ids k p(2) refl]
  ultimately show ?thesis by blast
qed

text \<open>
  The replay knows no \<open>DEADLINE_OVERDUE\<close>: rebuilding a case after an evaluation that
  marked deadlines restores the snapshot from before the evaluation, so the marks are lost.
\<close>

theorem rebuild_forgets_overdue:
  assumes run: "ledger_run a d" and c: "get_case cid d \<noteq> None"
    and marked: "mark_overdue_deadlines a cid (Some reference) d = (Ret late, e)" "late \<noteq> []"
  shows "\<exists>f. rebuild_case a cid e = (Ret (), f) \<and> snapshot_projections cid f = snapshot_projections cid d \<and>
     snapshot_projections cid e \<noteq> snapshot_projections cid d"
proof -
  note inv = ledger_run_inv [OF run, THEN conjunct1] and ids = ledger_run_inv [OF run, THEN conjunct2]
  obtain k where k: "get_case cid d = Some k" using c by blast
  then have kc: "c_case_id k = cid" by (auto simp: get_case_def dest: select_first_Some)
  have r: "replayed cid d" "chain_inv (amb_sha a) d" using inv c by (simp_all add: replay_inv_def)
  obtain p where p: "apply_events cid (empty_projection k) (case_events cid d) = Inr p" "in_step cid d p"
    using r(1) kc unfolding replayed_def by blast
  note frame = overdue_replay [OF r(2,1) marked(1)]
  have ke: "get_case cid e = Some k" using k frame(2) by (simp add: get_case_def)
  have "cv_valid (verify_event_chain (amb_sha a) cid e)" using frame(1) by (rule chain_inv_verified)
  moreover have "get_events_for_case cid e = case_events cid e"
    using frame(1) sorted_case_events unfolding chain_inv_def by blast
  ultimately have "rebuild_case a cid e = (Ret (), store_projection cid p e)"
    using frame r(1) ke p(1) by (simp add: rebuild_case_def replayed_def of_res_def bnd_def andthen_def)
  moreover have "snapshot_projections cid (store_projection cid p e) = snapshot_projections cid d"
    by (rule store_projection_view(1) [OF inv ids k p(2) frame(2)])
  moreover have "snapshot_projections cid e \<noteq> snapshot_projections cid d"
  proof
    let ?L = "filter (\<lambda>r. dl_case_id r = cid) (t_deadlines d)"
    assume same: "snapshot_projections cid e = snapshot_projections cid d"
    obtain rows: "t_deadlines e = map (mark_row cid reference) (t_deadlines d)"
      and late: "late = map (mark_row cid reference)
        (filter (\<lambda>r. dl_case_id r = cid \<and> dl_status r = ''PENDING'' \<and> lapsed reference r) (t_deadlines d))"
      using mark_overdue_run [OF replay_inv_agenda [OF inv] c, of a reference] marked(1) by auto
    have asc: "ascending dl_id (t_deadlines d)" using ids by (simp add: ids_ok_def)
    then have "ascending dl_id (t_deadlines e)"
      unfolding rows ascending_def map_map by (simp add: o_def mark_row_def if_distrib [of dl_id] cong: if_cong)
    then have "map snapshot_deadline (filter (\<lambda>r. dl_case_id r = cid) (t_deadlines e)) = map snapshot_deadline ?L"
      using same asc k ke by (simp add: snapshot_projections_def ascending_filter)
    moreover have "filter (\<lambda>r. dl_case_id r = cid) (t_deadlines e) = map (mark_row cid reference) ?L"
      unfolding rows filter_map by (simp add: o_def mark_row_case)
    ultimately have all: "snapshot_deadline (mark_row cid reference x) = snapshot_deadline x" if "x \<in> set ?L" for x
      using that by (simp add: map_eq_conv)
    obtain x where "x \<in> set ?L" "dl_status x = ''PENDING''" "lapsed reference x"
      using marked(2) late by (auto simp: filter_empty_conv)
    then show False using all [of x] by (simp add: snapshot_deadline_def mark_row_def)
  qed
  ultimately show ?thesis by blast
qed

section \<open>The state a restarted process reconstructs\<close>

text \<open>\<open>CaseStateSnapshot\<close> and \<open>LedgerService.reconstruct_case_state\<close> (\<open>tandem/ledger/service.py\<close>).\<close>

record execution_summary =
  completed_capabilities :: "string list"
  successful_executions :: "execution_row list"
  summary_money_moved :: bool
  latest_memo_ref :: "string option"
  processor_ref :: "string option"
  summary_requires_human :: bool

record case_snapshot = execution_summary +
  snapshot_case_id :: string
  snapshot_member_id :: string
  snapshot_amount :: money
  snapshot_status :: string
  pending_deadlines :: "deadline_row list"
  lease_holder :: "string option"
  case_requires_human :: bool
  events_count :: nat

definition successful_statuses :: "string list" where
  "successful_statuses = [''SUCCESS'', ''COMPLETED'', ''CONFIRMED_APPLIED'', ''ALREADY_APPLIED'']"

definition human_statuses :: "string list" where
  "human_statuses = [''HARD_FAILURE'', ''UNCERTAIN_EFFECT'']"

definition note_audit_ref :: "string option \<Rightarrow> execution_summary \<Rightarrow> execution_summary" where
  "note_audit_ref ref s = (case ref of None \<Rightarrow> s | Some r \<Rightarrow>
     if r = [] then s
     else if contains ''MC-'' r then s\<lparr>latest_memo_ref := Some r\<rparr>
     else if contains ''VISA-DISP-'' r \<or> contains ''CB-'' r then s\<lparr>processor_ref := Some r\<rparr> else s)"

definition add_execution :: "execution_row \<Rightarrow> execution_summary \<Rightarrow> execution_summary" where
  "add_execution r s =
     (if ex_status r \<in> set successful_statuses
      then note_audit_ref (ex_audit_ref r) (s\<lparr>completed_capabilities := completed_capabilities s @ [ex_capability_id r],
          successful_executions := successful_executions s @ [r],
          summary_money_moved := summary_money_moved s \<or> ex_money_moved r\<rparr>)
      else if ex_status r \<in> set human_statuses then s\<lparr>summary_requires_human := True\<rparr> else s)"

definition summarize_executions :: "bool \<Rightarrow> execution_row list \<Rightarrow> execution_summary" where
  "summarize_executions moved rows = fold add_execution rows
     \<lparr>completed_capabilities = [], successful_executions = [], summary_money_moved = moved, latest_memo_ref = None,
      processor_ref = None, summary_requires_human = False\<rparr>"

definition reconstruct_case_state :: "ambient \<Rightarrow> string \<Rightarrow> (db, case_snapshot) prog" where
  "reconstruct_case_state a case_id =
     bnd (gets (get_case case_id)) (\<lambda>found. case found of
       None \<Rightarrow> fail (ValueError (fstr [''Cannot reconstruct state: Case '', sq, case_id, sq, '' does not exist in ledger'']))
     | Some c \<Rightarrow>
         bnd (gets (get_executions_for_case case_id)) (\<lambda>executions.
         bnd (mark_overdue_deadlines a case_id None) (\<lambda>_.
         bnd (gets (get_deadlines_for_case case_id)) (\<lambda>deadlines.
         bnd (gets (get_lease case_id)) (\<lambda>lease.
         bnd (gets (get_events_for_case case_id)) (\<lambda>events.
           let s = summarize_executions (c_money_moved c) executions
           in ret (execution_summary.extend s
             \<lparr>snapshot_case_id = c_case_id c, snapshot_member_id = c_member_id c, snapshot_amount = c_amount c,
              snapshot_status = c_status c, pending_deadlines = filter (\<lambda>r. dl_status r \<noteq> ''MET'') deadlines,
              lease_holder = (case lease of Some l \<Rightarrow> if ls_released_at l = None then Some (ls_owner_id l) else None | None \<Rightarrow> None),
              case_requires_human = (summary_requires_human s \<or> c_status c \<in> {''NEEDS_HUMAN'', ''UNCERTAIN_EFFECT''}),
              events_count = length events\<rparr>)))))))"

lemma add_execution_sel:
  "completed_capabilities (add_execution r s) = completed_capabilities s @
     map ex_capability_id (filter (\<lambda>r. ex_status r \<in> set successful_statuses) [r])"
  "successful_executions (add_execution r s) = successful_executions s @
     filter (\<lambda>r. ex_status r \<in> set successful_statuses) [r]"
  "summary_money_moved (add_execution r s) = (summary_money_moved s \<or> ex_status r \<in> set successful_statuses \<and> ex_money_moved r)"
  "summary_requires_human (add_execution r s) = (summary_requires_human s \<or> ex_status r \<in> set human_statuses)"
  by (auto simp: add_execution_def note_audit_ref_def successful_statuses_def human_statuses_def split: option.splits)

lemma fold_add_execution:
  "completed_capabilities (fold add_execution rows s) = completed_capabilities s @
     map ex_capability_id (filter (\<lambda>r. ex_status r \<in> set successful_statuses) rows)"
  "successful_executions (fold add_execution rows s) = successful_executions s @
     filter (\<lambda>r. ex_status r \<in> set successful_statuses) rows"
  "summary_money_moved (fold add_execution rows s) \<longleftrightarrow> summary_money_moved s \<or>
     (\<exists>r \<in> set rows. ex_status r \<in> set successful_statuses \<and> ex_money_moved r)"
  "summary_requires_human (fold add_execution rows s) \<longleftrightarrow> summary_requires_human s \<or>
     (\<exists>r \<in> set rows. ex_status r \<in> set human_statuses)"
  by (induction rows arbitrary: s) (auto simp: add_execution_sel)

lemma summary_facts:
  "completed_capabilities (summarize_executions m rows) =
     map ex_capability_id (filter (\<lambda>r. ex_status r \<in> set successful_statuses) rows)"
  "summary_money_moved (summarize_executions m rows) \<longleftrightarrow> m \<or>
     (\<exists>r \<in> set rows. ex_status r \<in> set successful_statuses \<and> ex_money_moved r)"
  "summary_requires_human (summarize_executions m rows) \<longleftrightarrow> (\<exists>r \<in> set rows. ex_status r \<in> set human_statuses)"
  by (simp_all add: summarize_executions_def fold_add_execution)

lemma mark_overdue_now:
  "mark_overdue_deadlines a c None d = mark_overdue_deadlines a c (Some (utc (amb_now a (tick d)))) (d\<lparr>tick := Suc (tick d)\<rparr>)"
  by (simp add: mark_overdue_deadlines_def reference_time_def utc_now_def bnd_def)

text \<open>
  Reconstruction returns for every existing case.  It reports money as moved if the
  case or a successful execution says so, asks for a human if an execution ended in a hard
  failure or an uncertain effect or the case stands there, and lists every deadline that
  is not met, a lapsed one as overdue.
\<close>

theorem reconstruct_case_state_exact:
  fixes a :: ambient
  assumes ok: "agenda_ok d" and c: "get_case cid d = Some c"
  defines "now \<equiv> utc (amb_now a (tick d))" and "rows \<equiv> get_executions_for_case cid d"
  shows "\<exists>s e. reconstruct_case_state a cid d = (Ret s, e) \<and> snapshot_status s = c_status c \<and>
     completed_capabilities s = map ex_capability_id (filter (\<lambda>r. ex_status r \<in> set successful_statuses) rows) \<and>
     (summary_money_moved s \<longleftrightarrow> c_money_moved c \<or> (\<exists>r \<in> set rows. ex_status r \<in> set successful_statuses \<and> ex_money_moved r)) \<and>
     (case_requires_human s \<longleftrightarrow> c_status c \<in> {''NEEDS_HUMAN'', ''UNCERTAIN_EFFECT''} \<or> (\<exists>r \<in> set rows. ex_status r \<in> set human_statuses)) \<and>
     pending_deadlines s = map (mark_row cid now) (filter (\<lambda>r. dl_case_id r = cid \<and> dl_status r \<noteq> ''MET'') (t_deadlines d)) \<and>
     t_deadlines e = map (mark_row cid now) (t_deadlines d)"
proof -
  let ?d = "d\<lparr>tick := Suc (tick d)\<rparr>"
  have "agenda_ok ?d" "get_case cid ?d \<noteq> None" using ok c by (simp_all add: agenda_ok_def)
  from mark_overdue_run [OF this, of a now] obtain late e
    where run: "mark_overdue_deadlines a cid None d = (Ret late, e)" and rows': "t_deadlines e = map (mark_row cid now) (t_deadlines d)"
    unfolding mark_overdue_now now_def by auto
  have met: "dl_status (mark_row cid now r) \<noteq> ''MET'' \<longleftrightarrow> dl_status r \<noteq> ''MET''" for r by (simp add: mark_row_def)
  have "filter (\<lambda>r. dl_status r \<noteq> ''MET'') (get_deadlines_for_case cid e)
      = map (mark_row cid now) (filter (\<lambda>r. dl_case_id r = cid \<and> dl_status r \<noteq> ''MET'') (t_deadlines d))"
    by (simp add: get_deadlines_for_case_def rows' filter_map o_def mark_row_case met conj_commute)
  moreover obtain s where s: "reconstruct_case_state a cid d = (Ret s, e)"
    "s = execution_summary.extend (summarize_executions (c_money_moved c) rows) (case_snapshot.fields (c_case_id c) (c_member_id c)
       (c_amount c) (c_status c) (filter (\<lambda>r. dl_status r \<noteq> ''MET'') (get_deadlines_for_case cid e))
       (case get_lease cid e of Some l \<Rightarrow> if ls_released_at l = None then Some (ls_owner_id l) else None | None \<Rightarrow> None)
       (summary_requires_human (summarize_executions (c_money_moved c) rows) \<or> c_status c \<in> {''NEEDS_HUMAN'', ''UNCERTAIN_EFFECT''})
       (length (get_events_for_case cid e)))"
    using c by (simp add: reconstruct_case_state_def bnd_run(1) [of "mark_overdue_deadlines a cid None", OF run] Let_def
        rows_def case_snapshot.fields_def)
  ultimately show ?thesis
    using rows' by (intro exI [of _ s] exI [of _ e] conjI s(1))
      (simp_all add: s(2) execution_summary.extend_def case_snapshot.fields_def summary_facts disj_commute)
qed

section \<open>Concrete ledgers\<close>

definition due_db :: db where
  "due_db = snd (create_deadline sample_ambient ''C-1'' ''PROVISIONAL_CREDIT'' (utc (20 * second_us)) sample_db)"

lemma due_db_created: "\<exists>r. create_deadline sample_ambient ''C-1'' ''PROVISIONAL_CREDIT'' (utc (20 * second_us)) sample_db = (Ret r, due_db)"
proof -
  have "find_deadline (\<lambda>_. True) ''C-1'' ''PROVISIONAL_CREDIT'' sample_db = None"
    by (simp add: find_deadline_def sample_db_def empty_db_def)
  moreover have "get_case ''C-1'' sample_db \<noteq> None" by (simp add: sample_db_def get_case_def sample_case_row_def)
  ultimately show ?thesis
    by (auto simp: due_db_def create_deadline_def bnd_def andthen_def require_case_row_def unless_raise_def Let_def
        record_event_run get_case_def)
qed

lemma due_db_run: "ledger_run sample_ambient due_db" "get_case ''C-1'' due_db = Some sample_case_row" "agenda_ok due_db"
proof -
  have 1: "ledger_run sample_ambient sample_db" by (rule ledger_run.opened [OF ledger_run.empty sample_db_created])
  obtain r where "create_deadline sample_ambient ''C-1'' ''PROVISIONAL_CREDIT'' (utc (20 * second_us)) sample_db = (Ret r, due_db)"
    using due_db_created by blast
  with 1 show run: "ledger_run sample_ambient due_db" by (rule ledger_run.deadline)
  then show "agenda_ok due_db" using ledger_run_inv replay_inv_agenda by blast
  have "find_deadline (\<lambda>_. True) ''C-1'' ''PROVISIONAL_CREDIT'' sample_db = None"
    by (simp add: find_deadline_def sample_db_def empty_db_def)
  moreover have "get_case ''C-1'' sample_db = Some sample_case_row" by (simp add: sample_db_def get_case_def sample_case_row_def)
  ultimately show "get_case ''C-1'' due_db = Some sample_case_row"
    by (simp add: due_db_def create_deadline_def bnd_def andthen_def require_case_row_def unless_raise_def Let_def
        record_event_run)
qed

theorem rebuild_restores_witness:
  "\<exists>e. rebuild_case sample_ambient ''C-1'' due_db = (Ret (), e) \<and>
     snapshot_projections ''C-1'' e = snapshot_projections ''C-1'' due_db \<and> untouched ''C-1'' due_db e"
  by (rule rebuild_restores) (simp_all add: due_db_run)

theorem reconstruct_case_state_exact_witness:
  "\<exists>s e. reconstruct_case_state sample_ambient ''C-1'' due_db = (Ret s, e) \<and> snapshot_status s = ''RECEIVED'' \<and> \<not> case_requires_human s"
proof -
  have "t_executions due_db = []"
    by (simp add: due_db_def create_deadline_def sample_db_def bnd_def andthen_def require_case_row_def unless_raise_def Let_def
        record_event_run find_deadline_def empty_db_def get_case_def)
  then have none: "get_executions_for_case ''C-1'' due_db = []" by (simp add: get_executions_for_case_def)
  have "c_status sample_case_row = ''RECEIVED''" by (simp add: sample_case_row_def)
  with reconstruct_case_state_exact [OF due_db_run(3,2), of sample_ambient] show ?thesis
    unfolding none by fastforce
qed

theorem rebuild_forgets_overdue_witness:
  "\<exists>f. rebuild_case sample_ambient ''C-1'' (snd (mark_overdue_deadlines sample_ambient ''C-1'' (Some (utc (30 * second_us))) due_db)) = (Ret (), f) \<and>
     snapshot_projections ''C-1'' f = snapshot_projections ''C-1'' due_db"
proof -
  let ?r = "\<lparr>dl_id = 1, dl_case_id = ''C-1'', dl_deadline_type = ''PROVISIONAL_CREDIT'', dl_due_at = utc (20 * second_us),
    dl_status = ''PENDING'', dl_resolved_at = None\<rparr> :: deadline_row"
  have rows: "t_deadlines due_db = [?r]"
    by (simp add: due_db_def create_deadline_def sample_db_def bnd_def andthen_def require_case_row_def unless_raise_def Let_def
        record_event_run find_deadline_def empty_db_def next_id_def get_case_def sample_case_row_def)
  have "lapsed (utc (30 * second_us)) ?r" by (simp add: lapsed_def assume_utc_def utc_def instant_def second_us_def)
  then obtain e where e: "mark_overdue_deadlines sample_ambient ''C-1'' (Some (utc (30 * second_us))) due_db
      = (Ret [mark_row ''C-1'' (utc (30 * second_us)) ?r], e)"
    using mark_overdue_run [OF due_db_run(3), of "''C-1''" sample_ambient "utc (30 * second_us)"] rows due_db_run(2) by auto
  show ?thesis using rebuild_forgets_overdue [OF due_db_run(1) _ e] due_db_run(2) e by auto
qed

end
