(* ===== verification/Inquiry.thy ===== *)
theory Inquiry
  imports Programs Policy Identity
begin

text \<open>
  Read-only inquiries at the target systems: \<open>tandem/replay/precheck.py\<close>,
  \<open>tandem/replay/postcheck.py\<close> and \<open>tandem/replay/reconciliation.py\<close>.  The network is a
  parameter: a record of the calls of \<open>httpx\<close> (and of \<open>time.sleep\<close>) on a state \<open>'w\<close> of
  the outside world that every call may change, so that answers may differ from call to
  call.  The theorems say what an outcome of these functions is evidence of.
\<close>

section \<open>The outside world\<close>

text \<open>\<open>httpx\<close> raises transport errors, which the code names, or others.  A response has a
  status and a body that is JSON or not (then with the text of the exception).\<close>

datatype http_error = Transport string | HttpOther string

fun http_error_text :: "http_error \<Rightarrow> string" where
  "http_error_text (Transport m) = m"
| "http_error_text (HttpOther m) = m"

record response =
  status_code :: nat
  body_json :: "string + val"

record 'w target =
  http_get :: "string \<Rightarrow> 'w \<Rightarrow> (http_error + response) \<times> 'w"
  http_post :: "string \<Rightarrow> (string \<times> string) list \<Rightarrow> string \<Rightarrow> 'w \<Rightarrow> (http_error + response) \<times> 'w"
  sleep :: "'w \<Rightarrow> 'w"

definition get_url :: "'w target \<Rightarrow> string \<Rightarrow> ('w, http_error + response) prog" where
  "get_url tg url = (\<lambda>w. case http_get tg url w of (r, v) \<Rightarrow> (Ret r, v))"

definition post_form :: "'w target \<Rightarrow> string \<Rightarrow> (string \<times> string) list \<Rightarrow> string \<Rightarrow> ('w, http_error + response) prog" where
  "post_form tg url payload token = (\<lambda>w. case http_post tg url payload token w of (r, v) \<Rightarrow> (Ret r, v))"

lemma get_url_eq [simp]: "get_url tg url w = (r, v) \<longleftrightarrow> (\<exists>answer. http_get tg url w = (answer, v) \<and> r = Ret answer)"
  by (auto simp: get_url_def split: prod.splits)

lemma post_form_eq [simp]: "post_form tg url d t w = (r, v) \<longleftrightarrow> (\<exists>answer. http_post tg url d t w = (answer, v) \<and> r = Ret answer)"
  by (auto simp: post_form_def split: prod.splits)

section \<open>Comparing a response with the effect identity\<close>

text \<open>\<open>x or y or z\<close> on values: the first that is true, or the last.\<close>

fun first_true :: "val list \<Rightarrow> val" where
  "first_true [] = VNone"
| "first_true [v] = v"
| "first_true (v # u # vs) = (if truthy v then v else first_true (u # vs))"

definition input_text :: "dict \<Rightarrow> string \<Rightarrow> string" where
  "input_text inputs k = py_str (dict_default inputs k (VStr []))"

definition expected_identity :: "capability \<Rightarrow> dict \<Rightarrow> (string \<times> string) list" where
  "expected_identity c inputs =
     [(''institution_id'', input_text inputs ''institution_id''), (''procedure_id'', ''reg_e_dispute''),
      (''capability_id'', cap_id c), (''case_id'', input_text inputs ''case_id''),
      (''member_id'', input_text inputs ''member_id''), (''account_id'', input_text inputs ''account_id''),
      (''currency'', input_text inputs ''currency''), (''business_reference'', input_text inputs ''case_id'')]"

fun field_mismatch :: "string \<Rightarrow> dict \<Rightarrow> (string \<times> string) list \<Rightarrow> string" where
  "field_mismatch who data [] = []"
| "field_mismatch who data ((k, v) # rest) =
     (if v = [] \<or> input_text data k \<noteq> v
      then fstr [who, '' identity mismatch for '', k, '': expected '', repr_str v, '', observed '', py_repr (dict_val data k)]
      else field_mismatch who data rest)"

definition amount_mismatch :: "string \<Rightarrow> dict \<Rightarrow> dict \<Rightarrow> string res" where
  "amount_mismatch who inputs data =
     (case dict_get inputs ''amount'' of
        None \<Rightarrow> Inr []
      | Some v \<Rightarrow>
          (case rbind (parse_money (dict_val data ''amount'')) (\<lambda>seen. map_sum id (\<lambda>due. cents seen = cents due) (parse_money v)) of
             Inr True \<Rightarrow> Inr []
           | Inr False \<Rightarrow> Inr (who @ '' amount does not match the immutable effect identity'')
           | Inl e \<Rightarrow> if is_ValueError e then Inr (fstr [who, '' amount is invalid: '', exn_text e]) else Inl e))"

definition identity_mismatch :: "string \<Rightarrow> capability \<Rightarrow> dict \<Rightarrow> dict \<Rightarrow> string res" where
  "identity_mismatch who c inputs data =
     (let m = field_mismatch who data (expected_identity c inputs)
      in if m \<noteq> [] then Inr m else amount_mismatch who inputs data)"

definition postcheck_mismatch :: "capability \<Rightarrow> dict \<Rightarrow> dict \<Rightarrow> string res" where
  [simp]: "postcheck_mismatch = identity_mismatch ''Postcheck''"

text \<open>The adapter for a capability: where to ask, whether its effect moves money, and the
  field of the answer that holds the target's reference.\<close>

definition target_route :: "settings \<Rightarrow> capability \<Rightarrow> dict \<Rightarrow> (string \<times> bool \<times> string) option res" where
  "target_route cfg c inputs =
     (let case_text = py_str (dict_val inputs ''case_id'') in
      if cap_system c = ''core_bank'' \<or> contains ''provisional_credit'' (cap_id c)
      then rbind (core_bank_url_for cfg (dict_val inputs ''institution_id'')) (\<lambda>base.
             Inr (Some (fstr [base, ''/api/credits/'', case_text], True, ''memo_code'')))
      else if cap_system c = ''processor'' \<or> contains ''chargeback'' (cap_id c)
      then Inr (Some (fstr [processor_url cfg, ''/api/chargebacks/'', case_text], False, ''network_ref''))
      else if cap_system c = ''documents'' \<or> contains ''notice'' (cap_id c)
      then Inr (Some (fstr [documents_url cfg, ''/api/notices/'', case_text], False, ''notice_id''))
      else Inr None)"

section \<open>Precheck\<close>

definition precheck_result :: "outcome_code \<Rightarrow> string \<Rightarrow> execution_outcome" where
  "precheck_result co msg = outcome SUCCESS co msg"

definition precheck_failure :: "outcome_code \<Rightarrow> string \<Rightarrow> dict \<Rightarrow> execution_outcome" where
  "precheck_failure co msg details = (outcome HARD_FAILURE co msg)\<lparr>o_details := details\<rparr>"

text \<open>What the answer of the target means.\<close>

definition read_precheck :: "capability \<Rightarrow> dict \<Rightarrow> http_error + response \<Rightarrow> execution_outcome res" where
  "read_precheck c inputs answer = (case answer of
      Inl (Transport m) \<Rightarrow> Inr (precheck_failure PRECHECK_UNAVAILABLE (''Precheck unavailable: '' @ m) [])
    | Inl (HttpOther m) \<Rightarrow> Inr (precheck_failure PRECHECK_UNAVAILABLE (''Precheck failed: '' @ m) [])
    | Inr r \<Rightarrow>
        if status_code r = 404 then Inr (precheck_result NOT_APPLIED ''Target positively confirmed effect absence'')
        else if status_code r \<noteq> 200
        then Inr (precheck_failure PRECHECK_UNAVAILABLE (fstr [''Precheck target returned HTTP '', str_nat (status_code r)]) [])
        else (case body_json r of
            Inl m \<Rightarrow> Inr (precheck_failure PRECHECK_INVALID_RESPONSE (''Precheck returned malformed JSON: '' @ m) [])
          | Inr (VDict data) \<Rightarrow>
              rbind (identity_mismatch ''Precheck'' c inputs data) (\<lambda>mismatch.
              if mismatch \<noteq> [] then Inr (precheck_failure PRECHECK_AMBIGUOUS mismatch data)
              else let ref = first_true [dict_val data ''memo_code'', dict_val data ''network_ref'', dict_val data ''notice_id'']
                in if \<not> truthy ref \<or> \<not> truthy (dict_val data ''status'')
                   then Inr (precheck_failure PRECHECK_INVALID_RESPONSE
                          ''Precheck response lacks status or immutable target reference'' data)
                   else Inr ((outcome BUSINESS_OUTCOME ALREADY_APPLIED (fstr
                          [''Precheck confirmed the complete effect identity already exists ('', py_str ref, '')'']))
                          \<lparr>o_details := data, o_audit_ref := Some (py_str ref)\<rparr>))
          | Inr _ \<Rightarrow> Inr (precheck_failure PRECHECK_INVALID_RESPONSE ''Precheck response is not an object'' [])))"

definition execute_precheck :: "'w target \<Rightarrow> settings \<Rightarrow> capability \<Rightarrow> dict \<Rightarrow> ('w, execution_outcome) prog" where
  "execute_precheck tg cfg c inputs =
     (if ef_class (cap_effect c) \<noteq> COMMIT
      then ret (precheck_result NOT_APPLIED ''READ/STAGE capability has no COMMIT precheck'')
      else if ef_precheck (cap_effect c) = None
      then ret (precheck_failure PRECHECK_INVALID_RESPONSE
             (fstr [''COMMIT capability '', sq, cap_id c, sq, '' has no precheck specification'']) [])
      else if \<not> truthy (dict_val inputs ''case_id'')
      then ret (precheck_failure PRECHECK_INVALID_RESPONSE ''Precheck requires case_id'' [])
      else bnd (of_res (target_route cfg c inputs)) (\<lambda>route. case route of
          None \<Rightarrow> ret (precheck_failure PRECHECK_INVALID_RESPONSE
             (fstr [''No precheck adapter is registered for system '', sq, cap_system c, sq]) [])
        | Some (url, _, _) \<Rightarrow> bnd (get_url tg url) (\<lambda>answer. of_res (read_precheck c inputs answer))))"

section \<open>Postcheck\<close>

definition uncertain :: "outcome_code \<Rightarrow> string \<Rightarrow> dict \<Rightarrow> execution_outcome" where
  "uncertain co msg details = (outcome CAT_UNCERTAIN_EFFECT co msg)\<lparr>o_details := details\<rparr>"

definition read_postcheck :: "capability \<Rightarrow> dict \<Rightarrow> bool \<Rightarrow> string \<Rightarrow> http_error + response \<Rightarrow> execution_outcome res" where
  "read_postcheck c inputs moves_money reference_field answer = (case answer of
      Inl (Transport m) \<Rightarrow> Inr (uncertain POSTCHECK_UNAVAILABLE (''Postcheck unavailable: '' @ m) [])
    | Inl (HttpOther m) \<Rightarrow> Inr (uncertain POSTCHECK_UNAVAILABLE (''Postcheck failed: '' @ m) [])
    | Inr r \<Rightarrow>
        if status_code r = 404
        then Inr (outcome BUSINESS_OUTCOME CONFIRMED_NOT_APPLIED ''Target positively confirmed that the effect is absent'')
        else if status_code r \<noteq> 200
        then Inr (uncertain POSTCHECK_UNAVAILABLE (fstr [''Postcheck target returned HTTP '', str_nat (status_code r)]) [])
        else (case body_json r of
            Inl m \<Rightarrow> Inr (uncertain POSTCHECK_INVALID_RESPONSE (''Postcheck returned malformed JSON: '' @ m) [])
          | Inr (VDict data) \<Rightarrow>
              rbind (postcheck_mismatch c inputs data) (\<lambda>mismatch.
              if mismatch \<noteq> [] then Inr (uncertain POSTCHECK_AMBIGUOUS mismatch data)
              else let ref = dict_val data reference_field
                in if \<not> truthy ref \<or> \<not> truthy (dict_val data ''status'')
                   then Inr (uncertain POSTCHECK_INVALID_RESPONSE
                          ''Postcheck response lacks status or immutable target reference'' data)
                   else Inr ((outcome SUCCESS COMPLETED (fstr
                          [''Postcheck confirmed the complete external effect ('', py_str ref, '')'']))
                          \<lparr>o_details := data, o_money_moved := moves_money, o_audit_ref := Some (py_str ref)\<rparr>))
          | Inr _ \<Rightarrow> Inr (uncertain POSTCHECK_INVALID_RESPONSE ''Postcheck response is not an object'' [])))"

definition execute_postcheck :: "'w target \<Rightarrow> settings \<Rightarrow> capability \<Rightarrow> dict \<Rightarrow> ('w, execution_outcome) prog" where
  "execute_postcheck tg cfg c inputs =
     (if \<not> truthy (dict_val inputs ''case_id'')
      then ret (uncertain POSTCHECK_INVALID_RESPONSE ''Postcheck requires case_id'' [])
      else bnd (of_res (target_route cfg c inputs)) (\<lambda>route. case route of
          None \<Rightarrow> ret (uncertain POSTCHECK_INVALID_RESPONSE
             (fstr [''No postcheck adapter is registered for system '', sq, cap_system c, sq]) [])
        | Some (url, moves_money, reference_field) \<Rightarrow>
            bnd (get_url tg url) (\<lambda>answer. of_res (read_postcheck c inputs moves_money reference_field answer))))"

section \<open>Reconciliation\<close>

definition max_attempts :: "capability \<Rightarrow> nat" where
  "max_attempts c = (case ef_reconciliation (cap_effect c) of None \<Rightarrow> 1 | Some s \<Rightarrow> nat (max 1 (rec_max_inquiry_attempts s)))"

text \<open>The loop: \<open>left\<close> is what remains of \<open>max_attempts\<close>, \<open>attempts\<close> what was made.\<close>

fun inquire_again :: "'w target \<Rightarrow> settings \<Rightarrow> capability \<Rightarrow> dict \<Rightarrow> nat \<Rightarrow> nat \<Rightarrow> execution_outcome \<Rightarrow> ('w, execution_outcome \<times> nat) prog" where
  "inquire_again tg cfg c inputs 0 attempts r = ret (r, attempts)"
| "inquire_again tg cfg c inputs (Suc left) attempts r =
     (if o_code r = POSTCHECK_UNAVAILABLE
      then andthen (change (sleep tg)) (
           bnd (execute_postcheck tg cfg c inputs) (\<lambda>r'. inquire_again tg cfg c inputs left (Suc attempts) r'))
      else ret (r, attempts))"

definition settle_inquiry :: "capability \<Rightarrow> dict \<Rightarrow> string \<Rightarrow> execution_outcome \<times> nat \<Rightarrow> execution_outcome" where
  "settle_inquiry c inputs error_message = (\<lambda>(r, attempts).
     if is_success r
     then (outcome SUCCESS CONFIRMED_APPLIED (fstr [''Reconciliation successful: Postcheck confirmed effect occurred despite '',
            ''interrupted connection. (Ref: '', (case o_audit_ref r of None \<Rightarrow> ''None'' | Some s \<Rightarrow> s), '')'']))
          \<lparr>o_details := [(''reconciled'', VBool True), (''postcheck_details'', VDict (o_details r)),
             (''original_error'', VStr error_message), (''inquiry_attempts'', VInt (int attempts))],
           o_money_moved := o_money_moved r, o_audit_ref := o_audit_ref r, o_phase := SUBMIT_CONFIRMED\<rparr>
     else if o_code r = CONFIRMED_NOT_APPLIED
     then r\<lparr>o_details := dict_set (dict_set (dict_set (o_details r) ''safe_to_retry'' (VBool True))
              ''original_error'' (VStr error_message)) ''inquiry_attempts'' (VInt (int attempts)),
            o_phase := AFTER_SUBMIT_UNKNOWN\<rparr>
     else (outcome CAT_UNCERTAIN_EFFECT UNCERTAIN_EFFECT (fstr [''CRITICAL SAFETY EXCEPTION: COMMIT operation '', sq, cap_id c, sq,
             '' encountered an interruption: '', sq, error_message, sq, ''. Postcheck could not confirm state after '',
             str_nat attempts, '' inquiry attempt(s). Automatic retry is strictly forbidden (of the mutation itself) to prevent '',
             ''duplicate money movement. Case requires manual human investigation.'']))
          \<lparr>o_details := [(''capability_id'', VStr (cap_id c)), (''inputs'', VDict inputs),
             (''original_error'', VStr error_message), (''postcheck_code'', VStr (code_value (o_code r))),
             (''inquiry_attempts'', VInt (int attempts))], o_phase := AFTER_SUBMIT_UNKNOWN\<rparr>)"

definition reconcile_commit_execution ::
  "'w target \<Rightarrow> settings \<Rightarrow> capability \<Rightarrow> dict \<Rightarrow> string \<Rightarrow> ('w, execution_outcome) prog" where
  "reconcile_commit_execution tg cfg c inputs error_message =
     bnd (execute_postcheck tg cfg c inputs) (\<lambda>r.
     bnd (inquire_again tg cfg c inputs (max_attempts c - 1) 1 r) (\<lambda>res.
     ret (settle_inquiry c inputs error_message res)))"

section \<open>What an answer proves\<close>

definition amount_agrees :: "dict \<Rightarrow> dict \<Rightarrow> bool" where
  "amount_agrees inputs data \<longleftrightarrow> (case dict_get inputs ''amount'' of None \<Rightarrow> True
     | Some v \<Rightarrow> (\<exists>seen due. parse_money (dict_val data ''amount'') = Inr seen \<and> parse_money v = Inr due \<and> cents seen = cents due))"

text \<open>The answer names the whole effect identity, its amount, a status and a reference.\<close>

definition confirms :: "capability \<Rightarrow> dict \<Rightarrow> http_error + response \<Rightarrow> bool" where
  "confirms c inputs answer \<longleftrightarrow> (\<exists>r data. answer = Inr r \<and> status_code r = 200 \<and> body_json r = Inr (VDict data) \<and>
     (\<forall>(k, v) \<in> set (expected_identity c inputs). v \<noteq> [] \<and> input_text data k = v) \<and> amount_agrees inputs data \<and>
     truthy (dict_val data ''status''))"

definition denies :: "http_error + response \<Rightarrow> bool" where
  "denies answer \<longleftrightarrow> (\<exists>r. answer = Inr r \<and> status_code r = 404)"

lemma field_mismatch_none:
  "field_mismatch who data kvs = [] \<Longrightarrow> \<forall>(k, v) \<in> set kvs. v \<noteq> [] \<and> input_text data k = v"
proof (induction who data kvs rule: field_mismatch.induct)
  case (2 who data k v rest)
  have "fstr [who, '' identity mismatch for '', k, '': expected '', repr_str v, '', observed '', py_repr (dict_val data k)] \<noteq> []"
    by (simp add: fstr_def)
  then show ?case using 2 by (auto split: if_splits)
qed simp

lemma identity_mismatch_none:
  assumes "identity_mismatch who c inputs data = Inr []"
  shows "(\<forall>(k, v) \<in> set (expected_identity c inputs). v \<noteq> [] \<and> input_text data k = v) \<and> amount_agrees inputs data"
proof -
  have fields: "field_mismatch who data (expected_identity c inputs) = []" and amount: "amount_mismatch who inputs data = Inr []"
    using assms by (auto simp: identity_mismatch_def Let_def split: if_splits)
  have "amount_agrees inputs data"
  proof (cases "dict_get inputs ''amount''")
    case (Some v)
    then show ?thesis using amount
      by (cases "parse_money (dict_val data ''amount'')"; cases "parse_money v")
        (auto simp: amount_mismatch_def amount_agrees_def fstr_def split: bool.splits if_splits)
  qed (simp add: amount_agrees_def)
  then show ?thesis using field_mismatch_none [OF fields] by blast
qed

lemma read_precheck_evidence:
  assumes "read_precheck c inputs answer = Inr r"
  shows "o_code r = NOT_APPLIED \<longleftrightarrow> denies answer" and "o_code r = ALREADY_APPLIED \<Longrightarrow> confirms c inputs answer"
    and "o_category r = HARD_FAILURE \<or> o_code r \<in> {NOT_APPLIED, ALREADY_APPLIED}" and "\<not> o_money_moved r"
proof -
  note split = http_error.splits sum.splits if_splits val.splits
  show "o_code r = NOT_APPLIED \<longleftrightarrow> denies answer"
    "o_category r = HARD_FAILURE \<or> o_code r \<in> {NOT_APPLIED, ALREADY_APPLIED}" "\<not> o_money_moved r"
    using assms by (auto simp: read_precheck_def precheck_failure_def precheck_result_def denies_def rbind_eq_Inr Let_def split: split)
  assume "o_code r = ALREADY_APPLIED"
  then obtain x data where x: "answer = Inr x" "status_code x = 200" "body_json x = Inr (VDict data)"
    "identity_mismatch ''Precheck'' c inputs data = Inr []" "truthy (dict_val data ''status'')"
    using assms by (auto simp: read_precheck_def precheck_failure_def precheck_result_def rbind_eq_Inr Let_def split: split)
  then show "confirms c inputs answer" using identity_mismatch_none [OF x(4)] unfolding confirms_def by blast
qed

lemma read_postcheck_evidence:
  assumes "read_postcheck c inputs mm ref answer = Inr r"
  shows "is_success r \<Longrightarrow> confirms c inputs answer \<and> o_money_moved r = mm \<and> o_audit_ref r \<noteq> None"
    and "o_code r = CONFIRMED_NOT_APPLIED \<longleftrightarrow> denies answer"
    and "is_success r \<or> o_code r = CONFIRMED_NOT_APPLIED \<or> o_category r = CAT_UNCERTAIN_EFFECT"
    and "\<not> is_success r \<Longrightarrow> \<not> o_money_moved r"
proof -
  note split = http_error.splits sum.splits if_splits val.splits
  show "o_code r = CONFIRMED_NOT_APPLIED \<longleftrightarrow> denies answer"
    "is_success r \<or> o_code r = CONFIRMED_NOT_APPLIED \<or> o_category r = CAT_UNCERTAIN_EFFECT"
    "\<not> is_success r \<Longrightarrow> \<not> o_money_moved r"
    using assms by (auto simp: read_postcheck_def uncertain_def is_success_def denies_def rbind_eq_Inr Let_def split: split)
  assume "is_success r"
  then obtain x data where x: "answer = Inr x" "status_code x = 200" "body_json x = Inr (VDict data)"
    "identity_mismatch ''Postcheck'' c inputs data = Inr []" "truthy (dict_val data ''status'')" "o_money_moved r = mm" "o_audit_ref r \<noteq> None"
    using assms by (auto simp: read_postcheck_def uncertain_def is_success_def rbind_eq_Inr Let_def split: split)
  then show "confirms c inputs answer \<and> o_money_moved r = mm \<and> o_audit_ref r \<noteq> None"
    using identity_mismatch_none [OF x(4)] unfolding confirms_def by blast
qed

text \<open>An inquiry that reaches the target asks one question.\<close>

lemma execute_precheck_run:
  assumes "execute_precheck tg cfg c inputs w = (Ret r, v)" and "ef_class (cap_effect c) = COMMIT"
  obtains (local) "v = w" "o_category r = HARD_FAILURE" "o_code r = PRECHECK_INVALID_RESPONSE"
  | (asked) url mm ref answer where "target_route cfg c inputs = Inr (Some (url, mm, ref))" "http_get tg url w = (answer, v)"
      "read_precheck c inputs answer = Inr r"
  using assms
  by (auto simp: execute_precheck_def bnd_eq_Ret precheck_failure_def split: if_splits option.splits prod.splits)

lemma execute_postcheck_run:
  assumes "execute_postcheck tg cfg c inputs w = (Ret r, v)"
  obtains (local) "v = w" "o_category r = CAT_UNCERTAIN_EFFECT" "o_code r = POSTCHECK_INVALID_RESPONSE" "\<not> o_money_moved r"
  | (asked) url mm ref answer where "target_route cfg c inputs = Inr (Some (url, mm, ref))" "http_get tg url w = (answer, v)"
      "read_postcheck c inputs mm ref answer = Inr r"
  using assms
  by (auto simp: execute_postcheck_def bnd_eq_Ret uncertain_def split: if_splits option.splits prod.splits)

text \<open>
  A precheck of a COMMIT authorises the effect (\<open>NOT_APPLIED\<close>) only if the target
  answered 404 to the inquiry, and reports it as already applied only if the target
  returned the complete identity of the effect with its amount; everything else is a
  hard failure, and no precheck claims that money moved.
\<close>

theorem precheck_needs_evidence:
  assumes "execute_precheck tg cfg c inputs w = (Ret r, v)" and "ef_class (cap_effect c) = COMMIT"
  shows "(o_code r = NOT_APPLIED \<longrightarrow> (\<exists>url answer. http_get tg url w = (answer, v) \<and> denies answer)) \<and>
     (o_code r = ALREADY_APPLIED \<longrightarrow> (\<exists>url answer. http_get tg url w = (answer, v) \<and> confirms c inputs answer)) \<and>
     (o_category r = HARD_FAILURE \<or> o_code r \<in> {NOT_APPLIED, ALREADY_APPLIED}) \<and> \<not> o_money_moved r"
  using assms
proof (cases rule: execute_precheck_run)
  case local
  then show ?thesis using assms
    by (auto simp: execute_precheck_def precheck_failure_def bnd_eq_Ret split: if_splits option.splits prod.splits
        dest: read_precheck_evidence)
next
  case (asked url mm ref answer)
  then show ?thesis using read_precheck_evidence [OF asked(3)] by blast
qed

lemma postcheck_evidence:
  assumes "execute_postcheck tg cfg c inputs w = (Ret r, v)"
  shows "(is_success r \<longrightarrow> (\<exists>url mm ref answer. target_route cfg c inputs = Inr (Some (url, mm, ref)) \<and>
        http_get tg url w = (answer, v) \<and> confirms c inputs answer \<and> o_money_moved r = mm)) \<and>
     (o_code r = CONFIRMED_NOT_APPLIED \<longrightarrow> (\<exists>url answer. http_get tg url w = (answer, v) \<and> denies answer)) \<and>
     (is_success r \<or> o_code r = CONFIRMED_NOT_APPLIED \<or> o_category r = CAT_UNCERTAIN_EFFECT) \<and>
     (o_money_moved r \<longrightarrow> is_success r)"
  using assms
proof (cases rule: execute_postcheck_run)
  case local
  then show ?thesis by (simp add: is_success_def)
next
  case (asked url mm ref answer)
  then show ?thesis using read_postcheck_evidence [OF asked(3)] by blast
qed

text \<open>
  A postcheck succeeds only if the target returned the complete identity of the
  effect, reports absence exactly when the target answered 404, and is uncertain in every
  other case; money is reported as moved only with a success at the core bank.
\<close>

theorem postcheck_needs_evidence:
  assumes "execute_postcheck tg cfg c inputs w = (Ret r, v)"
  shows "(is_success r \<longrightarrow> (\<exists>url mm ref answer. target_route cfg c inputs = Inr (Some (url, mm, ref)) \<and>
        http_get tg url w = (answer, v) \<and> confirms c inputs answer \<and> o_money_moved r = mm)) \<and>
     (o_code r = CONFIRMED_NOT_APPLIED \<longrightarrow> (\<exists>url answer. http_get tg url w = (answer, v) \<and> denies answer)) \<and>
     (is_success r \<or> o_code r = CONFIRMED_NOT_APPLIED \<or> o_category r = CAT_UNCERTAIN_EFFECT) \<and>
     (o_money_moved r \<longrightarrow> is_success r)"
  by (rule postcheck_evidence [OF assms])

section \<open>Reconciliation asks, and only asks\<close>

text \<open>A target that records what it is asked.\<close>

datatype request = Get string | Post string "(string \<times> string) list" | Sleep

fun is_get :: "request \<Rightarrow> bool" where
  "is_get (Get u) = True"
| "is_get _ = False"

fun is_post :: "request \<Rightarrow> bool" where
  "is_post (Post u d) = True"
| "is_post _ = False"

definition traced :: "'w target \<Rightarrow> ('w \<times> request list) target" where
  "traced tg =
     \<lparr>http_get = (\<lambda>url (w, log). case http_get tg url w of (r, v) \<Rightarrow> (r, (v, log @ [Get url]))),
      http_post = (\<lambda>url d token (w, log). case http_post tg url d token w of (r, v) \<Rightarrow> (r, (v, log @ [Post url d]))),
      sleep = (\<lambda>(w, log). (sleep tg w, log @ [Sleep]))\<rparr>"

lemma traced_eq [simp]:
  "http_get (traced tg) url (w, log) = (r, u) \<longleftrightarrow> (\<exists>v. http_get tg url w = (r, v) \<and> u = (v, log @ [Get url]))"
  "http_post (traced tg) url d t (w, log) = (r, u) \<longleftrightarrow> (\<exists>v. http_post tg url d t w = (r, v) \<and> u = (v, log @ [Post url d]))"
  "sleep (traced tg) (w, log) = (sleep tg w, log @ [Sleep])"
  by (auto simp: traced_def split: prod.splits)

text \<open>\<open>asks n log log'\<close>: \<open>log'\<close> extends \<open>log\<close> by at most \<open>n\<close> inquiries, and no post.\<close>

definition asks :: "nat \<Rightarrow> request list \<Rightarrow> request list \<Rightarrow> bool" where
  "asks n log log' \<longleftrightarrow> (\<exists>new. log' = log @ new \<and> list_all (\<lambda>q. \<not> is_post q) new \<and> length (filter is_get new) \<le> n)"

lemma asks_refl [simp]: "asks n log log"
  by (simp add: asks_def)

lemma asks_sleep [simp]: "asks n log (log @ [Sleep])"
  by (simp add: asks_def)

lemma asks_get [simp]: "asks (Suc n) log (log @ [Get url])"
  by (simp add: asks_def)

lemma asks_trans: "asks m a b \<Longrightarrow> asks n b c \<Longrightarrow> asks (m + n) a c"
  by (force simp: asks_def)

lemma asks_mono: "asks m a b \<Longrightarrow> m \<le> n \<Longrightarrow> asks n a b"
  by (force simp: asks_def)

lemma precheck_asks:
  "execute_precheck (traced tg) cfg c inputs (w, log) = (r, (v, log')) \<Longrightarrow> asks 1 log log'"
  by (auto simp: execute_precheck_def bnd_def of_res_def split: if_splits prod.splits option.splits sum.splits run.splits)

lemma postcheck_asks:
  "execute_postcheck (traced tg) cfg c inputs (w, log) = (r, (v, log')) \<Longrightarrow> asks 1 log log'"
  by (auto simp: execute_postcheck_def bnd_def of_res_def split: if_splits prod.splits option.splits sum.splits run.splits)

lemma inquire_again_asks:
  "inquire_again (traced tg) cfg c inputs n k r (w, log) = (x, (v, log')) \<Longrightarrow> asks n log log'"
proof (induction n arbitrary: k r w log)
  case (Suc n)
  show ?case
  proof (cases "o_code r = POSTCHECK_UNAVAILABLE")
    case True
    obtain y u log1 where y: "execute_postcheck (traced tg) cfg c inputs (sleep tg w, log @ [Sleep]) = (y, (u, log1))"
      by (cases "execute_postcheck (traced tg) cfg c inputs (sleep tg w, log @ [Sleep])") auto
    have one: "asks 1 log log1" using asks_trans [of 0 log "log @ [Sleep]" 1 log1] postcheck_asks [OF y] by simp
    show ?thesis
    proof (cases y)
      case (Ret r')
      then have "inquire_again (traced tg) cfg c inputs n (Suc k) r' (u, log1) = (x, (v, log'))"
        using Suc.prems True y by (simp add: bnd_def)
      from asks_trans [OF one Suc.IH [OF this]] show ?thesis by simp
    qed (use Suc.prems True y one asks_mono [of 1 log log1 "Suc n"] in \<open>simp_all add: bnd_def\<close>)
  qed (use Suc.prems in simp)
qed simp

text \<open>
  Reconciliation never repeats the mutation: whatever happens, it posts nothing and
  makes at most \<open>max_inquiry_attempts\<close> read-only inquiries (one if none is configured).
\<close>

theorem reconciliation_only_asks:
  "\<exists>v log'. snd (reconcile_commit_execution (traced tg) cfg c inputs msg (w, log)) = (v, log') \<and> asks (max_attempts c) log log'"
proof -
  obtain y u log1 where y: "execute_postcheck (traced tg) cfg c inputs (w, log) = (y, (u, log1))"
    by (cases "execute_postcheck (traced tg) cfg c inputs (w, log)") auto
  have one: "asks 1 log log1" using postcheck_asks [OF y] .
  have pos: "1 \<le> max_attempts c" by (auto simp: max_attempts_def le_nat_iff split: option.splits)
  show ?thesis
  proof (cases y)
    case (Ret r)
    obtain x v log2 where x: "inquire_again (traced tg) cfg c inputs (max_attempts c - 1) 1 r (u, log1) = (x, (v, log2))"
      by (cases "inquire_again (traced tg) cfg c inputs (max_attempts c - 1) 1 r (u, log1)") auto
    have "asks (max_attempts c) log log2" using asks_trans [OF one inquire_again_asks [OF x]] pos by simp
    then show ?thesis using y Ret x by (cases x) (simp_all add: reconcile_commit_execution_def bnd_def)
  qed (use y one pos asks_mono [of 1 log log1 "max_attempts c"] in \<open>simp_all add: reconcile_commit_execution_def bnd_def\<close>)
qed

lemma inquire_again_last:
  assumes "inquire_again tg cfg c inputs n k r w = (Ret (r', m), v)"
  shows "(r' = r \<and> v = w) \<or> (\<exists>u. execute_postcheck tg cfg c inputs u = (Ret r', v))"
  using assms
proof (induction n arbitrary: k r w)
  case (Suc n)
  show ?case
  proof (cases "o_code r = POSTCHECK_UNAVAILABLE")
    case True
    then obtain s u where s: "execute_postcheck tg cfg c inputs (sleep tg w) = (Ret s, u)"
      "inquire_again tg cfg c inputs n (Suc k) s u = (Ret (r', m), v)"
      using Suc.prems by (auto simp: bnd_eq_Ret)
    show ?thesis using Suc.IH [OF s(2)] s(1) by blast
  qed (use Suc.prems in simp)
qed simp

lemma reconcile_evidence:
  assumes "reconcile_commit_execution tg cfg c inputs msg w = (Ret r, v)"
  shows "(is_success r \<and> o_code r = CONFIRMED_APPLIED \<and> (\<exists>url u answer. http_get tg url u = (answer, v) \<and> confirms c inputs answer)) \<or>
     (o_code r = CONFIRMED_NOT_APPLIED \<and> \<not> is_success r \<and> \<not> o_money_moved r \<and> (\<exists>url u answer. http_get tg url u = (answer, v) \<and> denies answer)) \<or>
     (o_category r = CAT_UNCERTAIN_EFFECT \<and> o_code r = UNCERTAIN_EFFECT \<and> \<not> o_money_moved r)"
proof -
  obtain p u m q where p: "execute_postcheck tg cfg c inputs w = (Ret p, u)"
    "inquire_again tg cfg c inputs (max_attempts c - 1) 1 p u = (Ret (q, m), v)" and r: "r = settle_inquiry c inputs msg (q, m)"
    using assms by (auto simp: reconcile_commit_execution_def bnd_eq_Ret)
  obtain u' where q: "execute_postcheck tg cfg c inputs u' = (Ret q, v)" using inquire_again_last [OF p(2)] p(1) by blast
  note evidence = postcheck_evidence [OF q]
  show ?thesis
  proof (cases "is_success q")
    case True
    then have "is_success r" "o_code r = CONFIRMED_APPLIED" by (simp_all add: r settle_inquiry_def is_success_def)
    then show ?thesis using evidence True by blast
  next
    case False
    show ?thesis
    proof (cases "o_code q = CONFIRMED_NOT_APPLIED")
      case True
      then have "o_code r = CONFIRMED_NOT_APPLIED" "o_money_moved r = o_money_moved q" "\<not> is_success r"
        using False by (simp_all add: r settle_inquiry_def is_success_def)
      then show ?thesis using evidence True False by blast
    qed (use False in \<open>simp add: r settle_inquiry_def\<close>)
  qed
qed

text \<open>
  Reconciliation ends in one of three ways: applied, on the evidence of the complete
  identity in the target's last answer; not applied, on the evidence of a 404; or an
  uncertain effect, which claims no money moved.
\<close>

theorem reconciliation_verdict:
  assumes "reconcile_commit_execution tg cfg c inputs msg w = (Ret r, v)"
  shows "(is_success r \<and> o_code r = CONFIRMED_APPLIED \<and> (\<exists>url u answer. http_get tg url u = (answer, v) \<and> confirms c inputs answer)) \<or>
     (o_code r = CONFIRMED_NOT_APPLIED \<and> \<not> is_success r \<and> \<not> o_money_moved r \<and> (\<exists>url u answer. http_get tg url u = (answer, v) \<and> denies answer)) \<or>
     (o_category r = CAT_UNCERTAIN_EFFECT \<and> o_code r = UNCERTAIN_EFFECT \<and> \<not> o_money_moved r)"
  by (rule reconcile_evidence [OF assms])

section \<open>A concrete target\<close>

text \<open>A processor that has filed the chargeback or not, and files it when asked.\<close>

definition sample_record :: dict where
  "sample_record =
     [(''institution_id'', VStr ''alpha''), (''procedure_id'', VStr ''reg_e_dispute''),
      (''capability_id'', VStr ''processor.file_chargeback''), (''case_id'', VStr ''D-8842''),
      (''member_id'', VStr ''8830142''), (''account_id'', VStr ''CHK-8830142-01''), (''currency'', VStr ''USD''),
      (''business_reference'', VStr ''D-8842''), (''amount'', VStr (money_text (Money False 34000))),
      (''status'', VStr ''FILED''), (''network_ref'', VStr ''VISA-DISP-1'')]"

definition sample_answer :: "bool \<Rightarrow> http_error + response" where
  "sample_answer filed = Inr (if filed then \<lparr>status_code = 200, body_json = Inr (VDict sample_record)\<rparr>
     else \<lparr>status_code = 404, body_json = Inl ''no JSON''\<rparr>)"

definition sample_target :: "bool target" where
  "sample_target = \<lparr>http_get = (\<lambda>url filed. (sample_answer filed, filed)),
     http_post = (\<lambda>url d token filed. (sample_answer True, True)), sleep = (\<lambda>filed. filed)\<rparr>"

lemma sample_target_get [simp]: "http_get sample_target url filed = (sample_answer filed, filed)"
  by (simp add: sample_target_def)

lemma sample_url: "processor_url default_settings = ''http://127.0.0.1:8003''"
  by (simp add: processor_url_def service_url_def default_settings_def fstr_def str_nat.simps)

lemma sample_route: "target_route default_settings chargeback_capability sample_inputs
    = Inr (Some (''http://127.0.0.1:8003/api/chargebacks/D-8842'', False, ''network_ref''))"
  by (simp add: target_route_def chargeback_capability_def sample_inputs_def sample_url fstr_def dict_val_def)

lemma sample_identity_matches: "identity_mismatch who chargeback_capability sample_inputs sample_record = Inr []"
proof -
  have "parse_money (VStr (money_text (Money False 34000))) = Inr (Money False 34000)"
    "parse_money (money_val (Money False 34000)) = Inr (Money False 34000)"
    by (rule parse_money_money_text parse_money_val, simp add: max_money_cents_def)+
  then show ?thesis
    by (simp add: identity_mismatch_def expected_identity_def input_text_def sample_inputs_def sample_record_def
        chargeback_capability_def dict_default_def amount_mismatch_def dict_get_def dict_val_def)
qed

lemma sample_commit: "ef_class (cap_effect chargeback_capability) = COMMIT" "ef_precheck (cap_effect chargeback_capability) \<noteq> None"
  "truthy (dict_val sample_inputs ''case_id'')"
  by (simp_all add: chargeback_capability_def chargeback_effect_def sample_inputs_def dict_val_def)

lemma sample_precheck:
  "execute_precheck sample_target default_settings chargeback_capability sample_inputs False
    = (Ret (precheck_result NOT_APPLIED ''Target positively confirmed effect absence''), False)"
  using sample_commit by (auto simp: execute_precheck_def sample_route bnd_def read_precheck_def sample_answer_def get_url_def)

lemma sample_postcheck:
  "\<exists>r. execute_postcheck sample_target default_settings chargeback_capability sample_inputs True = (Ret r, True) \<and> is_success r \<and>
     o_code r = COMPLETED"
proof -
  have "truthy (dict_val sample_record ''network_ref'')" "truthy (dict_val sample_record ''status'')"
    by (simp_all add: sample_record_def dict_val_def)
  then show ?thesis using sample_commit
    by (simp add: execute_postcheck_def sample_route bnd_def read_postcheck_def sample_answer_def get_url_def
        sample_identity_matches is_success_def Let_def)
qed

theorem precheck_needs_evidence_witness:
  "\<exists>url answer. http_get sample_target url False = (answer, False) \<and> denies answer"
  using precheck_needs_evidence [OF sample_precheck sample_commit(1)] by (simp add: precheck_result_def)

theorem postcheck_needs_evidence_witness:
  "\<exists>url answer. http_get sample_target url True = (answer, True) \<and> confirms chargeback_capability sample_inputs answer"
proof -
  obtain r where r: "execute_postcheck sample_target default_settings chargeback_capability sample_inputs True = (Ret r, True)"
    "is_success r" using sample_postcheck by blast
  show ?thesis using postcheck_needs_evidence [OF r(1)] r(2) by blast
qed

theorem reconciliation_verdict_witness:
  "\<exists>r. reconcile_commit_execution sample_target default_settings chargeback_capability sample_inputs ''lost'' True = (Ret r, True) \<and>
     o_category r \<noteq> HARD_FAILURE"
proof -
  obtain p where p: "execute_postcheck sample_target default_settings chargeback_capability sample_inputs True = (Ret p, True)"
    "is_success p" "o_code p = COMPLETED" using sample_postcheck by blast
  have stop: "inquire_again tg cfg c i n k p w = (Ret (p, k), w)" for tg :: "'w target" and cfg c i n k w
    using p(3) by (cases n) simp_all
  let ?r = "settle_inquiry chargeback_capability sample_inputs ''lost'' (p, 1)"
  have r: "reconcile_commit_execution sample_target default_settings chargeback_capability sample_inputs ''lost'' True = (Ret ?r, True)"
    using p(1) by (simp add: reconcile_commit_execution_def bnd_def stop)
  show ?thesis using reconciliation_verdict [OF r] r p(2) by (auto simp: is_success_def denies_def sample_answer_def)
qed

end
