(* ===== verification/Surface.thy ===== *)
theory Surface
  imports Inquiry Ledger
begin

text \<open>
  The browser surface of \<open>tandem/surfaces/\<close> (base.py, playwright_surface.py, overlays.py),
  the control-scoped guard of \<open>tandem/replay/guards.py\<close> and the crash injection.
  Playwright is a parameter: a record of the calls the code makes on a page, each of
  which may raise and may change the outside world.  A locator stands for the elements it
  matches; every call except \<open>count\<close> acts on the first.
\<close>

section \<open>The system\<close>

text \<open>
  The ledger as the session sees it and as it was last committed, the outside world, and
  the attributes of the executor: the execution phase, the current step, the drift events
  of its surface and the count of language model calls.
\<close>

record 'w system =
  sy_db :: db
  sy_saved :: db
  sy_world :: 'w
  sy_phase :: execution_phase
  sy_step :: "string option"
  sy_drift :: "string list"
  sy_llm_calls :: nat

definition on_db :: "(db, 'a) prog \<Rightarrow> ('w system, 'a) prog" where
  "on_db = on_part sy_db (\<lambda>d s. s\<lparr>sy_db := d\<rparr>)"

definition on_world :: "('w, 'a) prog \<Rightarrow> ('w system, 'a) prog" where
  "on_world = on_part sy_world (\<lambda>w s. s\<lparr>sy_world := w\<rparr>)"

definition commit :: "('w system, unit) prog" where
  "commit = change (\<lambda>s. s\<lparr>sy_saved := sy_db s\<rparr>)"

text \<open>\<open>tandem/replay/crash_injection.py\<close>: the environment names a point and perhaps a capability.\<close>

record crash_plan =
  crash_point :: "string option"
  crash_capability :: "string option"

definition maybe_crash :: "crash_plan \<Rightarrow> string \<Rightarrow> string option \<Rightarrow> ('s, unit) prog" where
  "maybe_crash plan point capability_id =
     (if crash_point plan \<noteq> Some point then ret ()
      else case crash_capability plan of
          Some scope \<Rightarrow> if scope \<noteq> [] \<and> capability_id \<noteq> None \<and> Some scope \<noteq> capability_id then ret () else die
        | None \<Rightarrow> die)"

section \<open>Playwright\<close>

datatype view = Page | Frame string | Inquiry_Page

type_synonym locator = "view \<times> string list"

record submission =
  sub_values :: "(string \<times> string list) list"
  sub_action :: string
  sub_method :: string

type_synonym ('w, 'a) call = "'w \<Rightarrow> 'a res \<times> 'w"

record 'w browser =
  br_count :: "locator \<Rightarrow> ('w, nat) call"
  br_wait_visible :: "locator \<Rightarrow> nat \<Rightarrow> ('w, unit) call"
  br_is_visible :: "locator \<Rightarrow> nat \<Rightarrow> ('w, bool) call"
  br_inner_text :: "locator \<Rightarrow> ('w, string) call"
  br_text_content :: "locator \<Rightarrow> ('w, string option) call"
  br_tag_name :: "locator \<Rightarrow> ('w, string) call"
  br_is_enabled :: "locator \<Rightarrow> ('w, bool) call"
  br_control_info :: "locator \<Rightarrow> ('w, control_info) call"
  br_submission :: "locator \<Rightarrow> ('w, submission option) call"
  br_click :: "locator \<Rightarrow> ('w, unit) call"
  br_fill :: "locator \<Rightarrow> string \<Rightarrow> ('w, unit) call"
  br_goto :: "view \<Rightarrow> string \<Rightarrow> ('w, unit) call"
  br_wait_idle :: "('w, unit) call"
  br_content :: "('w, string) call"
  br_frames :: "('w, view list) call"
  br_route_navigation :: "('w, unit) call"
  br_open_inquiry :: "('w, unit) call"
  br_close_inquiry :: "('w, unit) call"

definition ask :: "('w, 'a) call \<Rightarrow> ('w system, 'a) prog" where
  "ask f = on_world (\<lambda>w. case f w of (Inl e, v) \<Rightarrow> (Raise e, v) | (Inr x, v) \<Rightarrow> (Ret x, v))"

text \<open>\<open>try: p except Exception: pass\<close>, with the value that stands when \<open>p\<close> failed.\<close>

definition attempt :: "('s, 'a) prog \<Rightarrow> 'a \<Rightarrow> ('s, 'a) prog" where
  "attempt p x = catch (\<lambda>_. True) p (\<lambda>_. ret x)"

fun is_policy_violation :: "exn \<Rightarrow> bool" where
  "is_policy_violation (PolicyViolationError m) = True"
| "is_policy_violation _ = False"

section \<open>Overlays\<close>

record overlay =
  ov_institution_id :: string
  ov_name :: string
  ov_selectors :: "(string \<times> string list) list"
  ov_containers :: "(string \<times> string) list"

definition get_candidates :: "overlay \<Rightarrow> string \<Rightarrow> string list \<Rightarrow> string list" where
  "get_candidates ov semantic_target defaults =
     (case map_of (ov_selectors ov) semantic_target of Some xs \<Rightarrow> xs | None \<Rightarrow> defaults)"

definition active_candidates :: "overlay option \<Rightarrow> string \<Rightarrow> string list \<Rightarrow> string list" where
  "active_candidates ov semantic_target candidates =
     (case ov of None \<Rightarrow> candidates | Some o' \<Rightarrow> get_candidates o' semantic_target candidates)"

definition alpha_overlay :: overlay where
  "alpha_overlay = \<lparr>ov_institution_id = ''alpha'', ov_name = ''Symitar/Keystone Platform (Primary)'',
     ov_selectors = [], ov_containers = []\<rparr>"

definition beta_overlay :: overlay where
  "beta_overlay = \<lparr>ov_institution_id = ''beta'', ov_name = ''Symitar Legacy Platform (Older Skin / Second Institution)'',
     ov_selectors =
       [(''Member Search Input'', [''#legacy_search_box'', ''input[name='' @ sq @ ''q'' @ sq @ '']'']),
        (''Search Button'', [''.legacy-search-action'']),
        (''Post Provisional Credit Link'', [''.btn-action-legacy'', ''a.action-credit-btn'', ''text=Select & Adjust'']),
        (''Proceed to Confirmation'', [''.legacy-review-action'']),
        (''Final external credit actuation'',
          [''.btn-commit-legacy'', ''.btn-commit-final'', ''button[type='' @ sq @ ''submit'' @ sq @ '']''])],
     ov_containers = [(''#credit_action_container, .confirm-panel'', ''.legacy-confirm-box''),
        (''#commit_scope_container'', ''.legacy-confirm-box'')]\<rparr>"

definition overlays :: "(string \<times> overlay) list" where
  "overlays = [(''core_bank_alpha'', alpha_overlay), (''core_bank_beta'', beta_overlay),
     (''alpha'', alpha_overlay), (''beta'', beta_overlay)]"

definition get_overlay :: "(string \<times> overlay) list \<Rightarrow> string \<Rightarrow> overlay option" where
  "get_overlay table institution_id = map_of table institution_id"

definition register_overlay :: "overlay \<Rightarrow> (string \<times> overlay) list \<Rightarrow> (string \<times> overlay) list" where
  "register_overlay ov table = (ov_institution_id ov, ov) # filter (\<lambda>(k, _). k \<noteq> ov_institution_id ov) table"

section \<open>The Playwright surface\<close>

definition get_context :: "'w browser \<Rightarrow> string option \<Rightarrow> ('w system, view) prog" where
  "get_context br frame_selector = (case frame_selector of
      None \<Rightarrow> ret Page
    | Some sel \<Rightarrow>
        if sel = [] then ret Page
        else attempt (bnd (ask (br_count br (Page, [sel]))) (\<lambda>n. ret (if 0 < n then Frame sel else Page))) Page)"

definition locate_timeout :: "nat \<Rightarrow> nat" where
  "locate_timeout idx = (if idx = 0 then 5000 else 2000)"

definition note_drift :: "string \<Rightarrow> string list \<Rightarrow> nat \<Rightarrow> string \<Rightarrow> ('w system, unit) prog" where
  "note_drift semantic_target candidates idx selector =
     (if 0 < idx
      then change (\<lambda>s. s\<lparr>sy_drift := sy_drift s @ [fstr [''Drift detected for '', sq, semantic_target, sq,
             '': primary candidate '', sq, candidates ! 0, sq, '' failed; matched fallback candidate '', sq, selector, sq,
             '' (rank '', str_nat (idx + 1), '')'']]\<rparr>)
      else ret ())"

definition try_candidate :: "'w browser \<Rightarrow> view \<Rightarrow> string \<Rightarrow> string list \<Rightarrow> nat \<Rightarrow> string \<Rightarrow> ('w system, locator option) prog" where
  "try_candidate br ctx semantic_target candidates idx selector =
     catch (\<lambda>e. \<not> is_policy_violation e)
      (andthen (ask (br_wait_visible br (ctx, [selector]) (locate_timeout idx))) (
       bnd (ask (br_count br (ctx, [selector]))) (\<lambda>n.
       andthen (if 1 < n
          then bnd (ask (br_count br (ctx, [selector]))) (\<lambda>m.
             fail (PolicyViolationError (fstr [''Ambiguous control for '', sq, semantic_target, sq, '': '', str_nat m, '' matches''])))
          else ret ()) (
       bnd (ask (br_is_visible br (ctx, [selector]) (locate_timeout idx))) (\<lambda>visible.
       if visible then andthen (note_drift semantic_target candidates idx selector) (ret (Some (ctx, [selector])))
       else ret None)))))
      (\<lambda>_. ret None)"

fun find_locator :: "'w browser \<Rightarrow> view \<Rightarrow> string \<Rightarrow> string list \<Rightarrow> nat \<Rightarrow> string list \<Rightarrow> ('w system, locator) prog" where
  "find_locator br ctx semantic_target candidates idx [] =
     fail (PageDriftError (fstr [''Surface failed to resolve control for '', sq, semantic_target, sq, ''. '',
        ''Tried candidates: '', py_repr (VList (map VStr candidates))]))"
| "find_locator br ctx semantic_target candidates idx (selector # rest) =
     bnd (try_candidate br ctx semantic_target candidates idx selector) (\<lambda>found. case found of
       Some loc \<Rightarrow> ret loc
     | None \<Rightarrow> find_locator br ctx semantic_target candidates (Suc idx) rest)"

definition find_best_locator :: "'w browser \<Rightarrow> view \<Rightarrow> string list \<Rightarrow> string \<Rightarrow> ('w system, locator) prog" where
  "find_best_locator br ctx candidates semantic_target = find_locator br ctx semantic_target candidates 0 candidates"

definition navigate :: "'w browser \<Rightarrow> string \<Rightarrow> ('w system, unit) prog" where
  "navigate br url = ask (br_goto br Page url)"

record observed_control =
  oc_name :: string
  oc_selector :: string
  oc_tag :: string
  oc_text :: string
  oc_enabled :: bool

definition resolve_and_click ::
  "'w browser \<Rightarrow> overlay option \<Rightarrow> string \<Rightarrow> string list \<Rightarrow> string option \<Rightarrow> ('w system, unit) prog \<Rightarrow> ('w system, observed_control) prog" where
  "resolve_and_click br ov semantic_target candidates frame_selector before_click =
     bnd (get_context br frame_selector) (\<lambda>ctx.
     bnd (find_best_locator br ctx (active_candidates ov semantic_target candidates) semantic_target) (\<lambda>loc.
     bnd (ask (br_text_content br loc)) (\<lambda>text.
     bnd (ask (br_tag_name br loc)) (\<lambda>tag.
     bnd (ask (br_is_enabled br loc)) (\<lambda>enabled.
     andthen before_click (
     andthen (ask (br_click br loc)) (
     andthen (attempt (ask (br_wait_idle br)) ())
     (ret \<lparr>oc_name = semantic_target, oc_selector = last (snd loc), oc_tag = (if tag = [] then ''element'' else tag),
        oc_text = strip (case text of None \<Rightarrow> [] | Some t \<Rightarrow> t), oc_enabled = enabled\<rparr>))))))))"

definition resolve_and_fill ::
  "'w browser \<Rightarrow> overlay option \<Rightarrow> string \<Rightarrow> string list \<Rightarrow> string \<Rightarrow> string option \<Rightarrow> ('w system, observed_control) prog" where
  "resolve_and_fill br ov semantic_target candidates value frame_selector =
     bnd (get_context br frame_selector) (\<lambda>ctx.
     bnd (find_best_locator br ctx (active_candidates ov semantic_target candidates) semantic_target) (\<lambda>loc.
     andthen (ask (br_fill br loc value)) (
     bnd (ask (br_is_enabled br loc)) (\<lambda>enabled.
     ret \<lparr>oc_name = semantic_target, oc_selector = last (snd loc), oc_tag = ''input'', oc_text = value, oc_enabled = enabled\<rparr>))))"

section \<open>Observing the form that a control submits\<close>

record observed_record =
  or_selector :: string
  or_institution_id :: "string option"
  or_member_id :: "string option"
  or_account_id :: "string option"
  or_amount :: "money option"
  or_currency :: "string option"
  or_case_id :: "string option"
  or_values :: "(string \<times> string list) list"
  or_action :: "string option"
  or_method :: "string option"
  or_raw_text :: string

definition submitted :: "(string \<times> string list) list \<Rightarrow> string \<Rightarrow> string list" where
  "submitted values name = (case map_of values name of None \<Rightarrow> [] | Some vs \<Rightarrow> vs)"

definition one :: "(string \<times> string list) list \<Rightarrow> string \<Rightarrow> string option" where
  "one values name = (case submitted values name of [v] \<Rightarrow> Some (strip v) | _ \<Rightarrow> None)"

definition observed_money :: "string option \<Rightarrow> money option res" where
  "observed_money text = (case text of
      None \<Rightarrow> Inr None
    | Some t \<Rightarrow> (case parse_money (VStr t) of
          Inr m \<Rightarrow> Inr (Some m)
        | Inl e \<Rightarrow> if is_ValueError e then Inr None else Inl e))"

definition record_of_submission :: "string \<Rightarrow> string \<Rightarrow> submission option \<Rightarrow> observed_record res" where
  "record_of_submission selector raw_text submission =
     (let values = (case submission of None \<Rightarrow> [] | Some s \<Rightarrow> sub_values s) in
      rbind (observed_money (one values ''amount'')) (\<lambda>amount.
      Inr \<lparr>or_selector = selector, or_institution_id = one values ''institution_id'', or_member_id = one values ''member_id'',
           or_account_id = one values ''account_id'', or_amount = amount, or_currency = one values ''currency'',
           or_case_id = one values ''case_id'', or_values = values, or_action = map_option sub_action submission,
           or_method = map_option sub_method submission, or_raw_text = raw_text\<rparr>))"

text \<open>The control among the candidates: the first that matches one visible element.\<close>

fun find_control :: "'w browser \<Rightarrow> view \<Rightarrow> string \<Rightarrow> string list \<Rightarrow> ('w system, locator option) prog" where
  "find_control br ctx container [] = ret None"
| "find_control br ctx container (candidate # rest) =
     bnd (ask (br_count br (ctx, [container, candidate]))) (\<lambda>n.
     bnd (if n = 1 then ask (br_is_visible br (ctx, [container, candidate]) 0) else ret False) (\<lambda>visible.
     if visible then ret (Some (ctx, [container, candidate])) else find_control br ctx container rest))"

definition default_submit_controls :: "string list" where
  "default_submit_controls = [''button[type='' @ sq @ ''submit'' @ sq @ '']'', ''input[type='' @ sq @ ''submit'' @ sq @ '']'']"

definition container_selector :: "overlay option \<Rightarrow> string \<Rightarrow> string" where
  "container_selector ov selector = (case ov of
      None \<Rightarrow> selector
    | Some v \<Rightarrow> (case map_of (ov_containers v) selector of None \<Rightarrow> selector | Some s \<Rightarrow> s))"

definition observe_container ::
  "'w browser \<Rightarrow> overlay option \<Rightarrow> string \<Rightarrow> string option \<Rightarrow> string list option \<Rightarrow> string \<Rightarrow> ('w system, observed_record) prog" where
  "observe_container br ov selector frame_selector control_candidates semantic_target =
     bnd (get_context br frame_selector) (\<lambda>ctx.
     let active = container_selector ov selector;
         candidates = (case control_candidates of Some (x # xs) \<Rightarrow> x # xs | _ \<Rightarrow> default_submit_controls)
     in bnd (ask (br_count br (ctx, [active]))) (\<lambda>n.
        andthen (unless_raise (n \<le> 1) (PolicyViolationError ''Ambiguous commit container'')) (
        andthen (catch (\<lambda>_. True) (ask (br_wait_visible br (ctx, [active]) 5000))
           (\<lambda>_. fail (PageDriftError (fstr [''Container element '', sq, active, sq, '' not visible on surface''])))) (
        bnd (ask (br_inner_text br (ctx, [active]))) (\<lambda>raw_text.
        bnd (find_control br ctx active (active_candidates ov semantic_target candidates)) (\<lambda>control.
        bnd (case control of None \<Rightarrow> ret None | Some loc \<Rightarrow> ask (br_submission br loc)) (\<lambda>submission.
        of_res (record_of_submission active raw_text submission))))))))"

section \<open>The control-scoped guard\<close>

text \<open>\<open>render_template\<close> replaces every input under both spellings of its placeholder.\<close>

fun render_pairs :: "string \<Rightarrow> dict \<Rightarrow> string" where
  "render_pairs template [] = template"
| "render_pairs template ((k, v) # inputs) =
     render_pairs (replace_all (''{{'' @ k @ ''}}'') (py_str v) (replace_all (input_placeholder k) (py_str v) template)) inputs"

definition render_template :: "string \<Rightarrow> dict \<Rightarrow> string" where
  "render_template template inputs = render_pairs template inputs"

definition guard_label :: "string \<Rightarrow> string" where
  "guard_label name = (if name = ''member_id'' then ''member'' else name)"

definition require_submitted :: "dict \<Rightarrow> observed_record \<Rightarrow> string \<Rightarrow> string option \<Rightarrow> string \<Rightarrow> unit res" where
  "require_submitted inputs seen name shown template =
     (let expected = strip (render_template template inputs) in
      if length (submitted (or_values seen) name) \<noteq> 1 \<or> \<not> opt_truthy shown
      then Inl (EntityBindingMismatchError (fstr
             [''Control-scoped guard failed closed: submitted '', name, '' evidence is missing or ambiguous'']))
      else if strip (the shown) \<noteq> expected
      then Inl (EntityBindingMismatchError (fstr [''Control-scoped guard failed: expected '', guard_label name, '' '', sq, expected, sq,
             '' but observed '', sq, the shown, sq, '' in the submitted '', name, '' control'']))
      else Inr ())"

definition require_amount :: "dict \<Rightarrow> observed_record \<Rightarrow> string \<Rightarrow> unit res" where
  "require_amount inputs seen template =
     rbind (parse_money (VStr (strip (render_template template inputs)))) (\<lambda>expected.
       if length (submitted (or_values seen) ''amount'') \<noteq> 1 \<or> or_amount seen = None
       then Inl (AmountMismatchError
              ''Control-scoped guard failed closed: submitted amount evidence is missing, ambiguous, or invalid'')
       else if cents (the (or_amount seen)) \<noteq> cents expected
       then Inl (AmountMismatchError (fstr [''Control-scoped guard failed: expected amount '', money_text expected,
              '', but observed submitted amount '', money_text (the (or_amount seen))]))
       else Inr ())"

text \<open>The comparisons of the guard on what the surface observed.\<close>

definition check_submission :: "scoped_guard_spec \<Rightarrow> dict \<Rightarrow> observed_record \<Rightarrow> unit res" where
  "check_submission g inputs seen =
     rbind (require_submitted inputs seen ''case_id'' (or_case_id seen) (g_case_template g)) (\<lambda>_.
     rbind (require_submitted inputs seen ''member_id'' (or_member_id seen) (g_member_template g)) (\<lambda>_.
     rbind (require_amount inputs seen (g_amount_template g)) (\<lambda>_.
     rbind (require_submitted inputs seen ''account_id'' (or_account_id seen) (g_account_template g)) (\<lambda>_.
     rbind (require_submitted inputs seen ''currency'' (or_currency seen) (g_currency_template g)) (\<lambda>_.
     require_submitted inputs seen ''institution_id'' (or_institution_id seen) (g_institution_template g))))))"

definition verify_control_scoped_guard ::
  "'w browser \<Rightarrow> overlay option \<Rightarrow> capability \<Rightarrow> dict \<Rightarrow> string option \<Rightarrow> string list option \<Rightarrow> string \<Rightarrow> ('w system, unit) prog" where
  "verify_control_scoped_guard br ov c inputs frame_selector control_candidates semantic_target =
     (case cap_guard c of
        None \<Rightarrow> ret ()
      | Some g \<Rightarrow>
          bnd (observe_container br ov (g_container_selector g) frame_selector control_candidates semantic_target) (\<lambda>seen.
          of_res (check_submission g inputs seen)))"

text \<open>What a passed guard says: the form submits exactly the values the templates render to.\<close>

definition submits :: "dict \<Rightarrow> (string \<times> string list) list \<Rightarrow> string \<Rightarrow> string \<Rightarrow> bool" where
  "submits inputs values name template \<longleftrightarrow>
     (\<exists>v. submitted values name = [v] \<and> strip (strip v) = strip (render_template template inputs) \<and> strip v \<noteq> [])"

lemma require_submitted_ok:
  assumes "require_submitted inputs seen name (one (or_values seen) name) template = Inr ()"
  shows "submits inputs (or_values seen) name template"
proof -
  obtain v where v: "submitted (or_values seen) name = [v]"
    using assms by (cases "submitted (or_values seen) name" rule: remdups_adj.cases)
      (auto simp: require_submitted_def Let_def split: if_splits)
  then show ?thesis using assms
    by (auto simp: require_submitted_def submits_def Let_def one_def opt_truthy_def split: if_splits)
qed

lemma passed_guard_reads_form:
  assumes "record_of_submission sel raw (Some form) = Inr seen" and "check_submission g inputs seen = Inr ()"
  shows "submits inputs (sub_values form) ''case_id'' (g_case_template g) \<and>
     submits inputs (sub_values form) ''member_id'' (g_member_template g) \<and>
     submits inputs (sub_values form) ''account_id'' (g_account_template g) \<and>
     submits inputs (sub_values form) ''currency'' (g_currency_template g) \<and>
     submits inputs (sub_values form) ''institution_id'' (g_institution_template g) \<and>
     (\<exists>v seen_amount due. submitted (sub_values form) ''amount'' = [v] \<and> parse_money (VStr (strip v)) = Inr seen_amount \<and>
        parse_money (VStr (strip (render_template (g_amount_template g) inputs))) = Inr due \<and> cents seen_amount = cents due)"
proof -
  have vals: "or_values seen = sub_values form" "or_case_id seen = one (sub_values form) ''case_id''"
    "or_member_id seen = one (sub_values form) ''member_id''" "or_account_id seen = one (sub_values form) ''account_id''"
    "or_currency seen = one (sub_values form) ''currency''" "or_institution_id seen = one (sub_values form) ''institution_id''"
    and money: "observed_money (one (sub_values form) ''amount'') = Inr (or_amount seen)"
    using assms(1) by (auto simp: record_of_submission_def Let_def rbind_eq_Inr)
  have req: "require_submitted inputs seen ''case_id'' (one (or_values seen) ''case_id'') (g_case_template g) = Inr ()"
    "require_submitted inputs seen ''member_id'' (one (or_values seen) ''member_id'') (g_member_template g) = Inr ()"
    "require_submitted inputs seen ''account_id'' (one (or_values seen) ''account_id'') (g_account_template g) = Inr ()"
    "require_submitted inputs seen ''currency'' (one (or_values seen) ''currency'') (g_currency_template g) = Inr ()"
    "require_submitted inputs seen ''institution_id'' (one (or_values seen) ''institution_id'') (g_institution_template g) = Inr ()"
    and amount: "require_amount inputs seen (g_amount_template g) = Inr ()"
    using assms(2) vals by (auto simp: check_submission_def rbind_eq_Inr)
  have "\<exists>v seen_amount due. submitted (sub_values form) ''amount'' = [v] \<and> parse_money (VStr (strip v)) = Inr seen_amount \<and>
        parse_money (VStr (strip (render_template (g_amount_template g) inputs))) = Inr due \<and> cents seen_amount = cents due"
  proof -
    obtain due m where due: "parse_money (VStr (strip (render_template (g_amount_template g) inputs))) = Inr due"
      "length (submitted (sub_values form) ''amount'') = 1" "or_amount seen = Some m" "cents m = cents due"
      using amount vals by (auto simp: require_amount_def rbind_eq_Inr split: if_splits)
    then obtain v where v: "submitted (sub_values form) ''amount'' = [v]" by (auto simp: length_Suc_conv)
    then have "parse_money (VStr (strip v)) = Inr m"
      using money due(3) by (auto simp: one_def observed_money_def split: sum.splits if_splits)
    then show ?thesis using v due by blast
  qed
  then show ?thesis using req [THEN require_submitted_ok] unfolding vals by blast
qed

text \<open>What a call on the page answered, at some moment.\<close>

definition answered_by :: "('w, 'a) call \<Rightarrow> 'a \<Rightarrow> bool" where
  "answered_by f v \<longleftrightarrow> (\<exists>w w'. f w = (Inr v, w'))"

lemma ask_answered: "ask f s = (Ret v, s') \<Longrightarrow> answered_by f v"
  by (auto simp: answered_by_def ask_def on_world_def on_part_def split: prod.splits sum.splits)

text \<open>A control of the guard: a single visible match of a selector inside the container.\<close>

definition single_control :: "'w browser \<Rightarrow> string \<Rightarrow> locator \<Rightarrow> bool" where
  "single_control br container loc \<longleftrightarrow>
     (\<exists>ctx candidate. loc = (ctx, [container, candidate])) \<and> answered_by (br_count br loc) 1 \<and> answered_by (br_is_visible br loc 0) True"

lemma found_control:
  assumes "find_control br ctx container candidates s = (Ret (Some loc), t)"
  shows "single_control br container loc"
  using assms
proof (induction candidates arbitrary: s)
  case (Cons candidate rest)
  let ?loc = "(ctx, [container, candidate])"
  obtain n visible u1 u2 where n: "ask (br_count br ?loc) s = (Ret n, u1)"
    and v: "(if n = 1 then ask (br_is_visible br ?loc 0) else ret False) u1 = (Ret visible, u2)"
    and r: "(if visible then ret (Some ?loc) else find_control br ctx container rest) u2 = (Ret (Some loc), t)"
    using Cons.prems by (auto simp: bnd_eq_Ret)
  show ?case
  proof (cases visible)
    case True
    then have "n = 1" "ask (br_is_visible br ?loc 0) u1 = (Ret True, u2)" "loc = ?loc"
      using v r by (auto split: if_splits)
    then show ?thesis using ask_answered [OF n] by (auto simp: single_control_def dest: ask_answered)
  next
    case False
    then show ?thesis using r by (intro Cons.IH) simp
  qed
qed simp

lemma observed_form:
  assumes "observe_container br ov sel fs cands target s = (Ret seen, t)"
  obtains raw form where "record_of_submission (container_selector ov sel) raw form = Inr seen"
    "form \<noteq> None \<longrightarrow> (\<exists>loc. single_control br (container_selector ov sel) loc \<and> answered_by (br_submission br loc) form)"
proof -
  obtain ctx cs raw control form u1 u2 u3 u4
    where c: "find_control br ctx (container_selector ov sel) cs u1 = (Ret control, u2)"
      and f: "(case control of None \<Rightarrow> ret None | Some loc \<Rightarrow> ask (br_submission br loc)) u3 = (Ret form, u4)"
      and r: "record_of_submission (container_selector ov sel) raw form = Inr seen"
    using assms by (auto simp: observe_container_def Let_def bnd_eq_Ret andthen_eq_Ret)
  have "form \<noteq> None \<longrightarrow> (\<exists>loc. single_control br (container_selector ov sel) loc \<and> answered_by (br_submission br loc) form)"
    using c f by (auto split: option.splits dest: ask_answered found_control)
  then show thesis using that r by blast
qed

lemma passed_guard_has_form:
  assumes "record_of_submission sel raw form = Inr seen" "check_submission g inputs seen = Inr ()"
  shows "\<exists>f. form = Some f"
proof (cases form)
  case None
  then have "or_values seen = []" using assms(1) by (auto simp: record_of_submission_def Let_def rbind_eq_Inr)
  then show ?thesis using assms(2) by (simp add: check_submission_def require_submitted_def submitted_def Let_def)
qed simp

text \<open>
  C21: The guard fails closed.  Whatever the page answers, when the guard of a capability
  that has one returns, a single visible control inside the guard's container was found, it
  has a form, and that form submits exactly one value for case, member, account, currency,
  institution and amount, each equal up to surrounding blanks to what its template renders to
  from the inputs; the amount differs by no cent.
\<close>

theorem guard_binds_submission:
  assumes "verify_control_scoped_guard br ov c inputs fs cands target x = (Ret (), y)" and "cap_guard c = Some g"
  shows "\<exists>loc form. single_control br (container_selector ov (g_container_selector g)) loc \<and>
     answered_by (br_submission br loc) (Some form) \<and>
     submits inputs (sub_values form) ''case_id'' (g_case_template g) \<and>
     submits inputs (sub_values form) ''member_id'' (g_member_template g) \<and>
     submits inputs (sub_values form) ''account_id'' (g_account_template g) \<and>
     submits inputs (sub_values form) ''currency'' (g_currency_template g) \<and>
     submits inputs (sub_values form) ''institution_id'' (g_institution_template g) \<and>
     (\<exists>v seen_amount due. submitted (sub_values form) ''amount'' = [v] \<and> parse_money (VStr (strip v)) = Inr seen_amount \<and>
        parse_money (VStr (strip (render_template (g_amount_template g) inputs))) = Inr due \<and> cents seen_amount = cents due)"
proof -
  obtain seen t where "observe_container br ov (g_container_selector g) fs cands target x = (Ret seen, t)"
    and c: "check_submission g inputs seen = Inr ()"
    using assms by (auto simp: verify_control_scoped_guard_def bnd_eq_Ret)
  then obtain raw form where r: "record_of_submission (container_selector ov (g_container_selector g)) raw form = Inr seen"
    and l: "form \<noteq> None \<longrightarrow> (\<exists>loc. single_control br (container_selector ov (g_container_selector g)) loc \<and>
       answered_by (br_submission br loc) form)"
    by (elim observed_form)
  obtain f where f: "form = Some f" using passed_guard_has_form [OF r c] by blast
  show ?thesis using passed_guard_reads_form [OF r [unfolded f] c] l unfolding f by blast
qed

definition sample_form :: submission where
  "sample_form = \<lparr>sub_values = [(''case_id'', [''D-8842'']), (''member_id'', [''8830142'']),
       (''amount'', [money_text (Money False 34000)]), (''account_id'', [''CHK-8830142-01'']), (''currency'', [''USD '']),
       (''institution_id'', [''alpha''])],
     sub_action = ''/workspace/credit/commit'', sub_method = ''POST''\<rparr>"

definition sample_guard :: scoped_guard_spec where
  "sample_guard = chargeback_guard\<lparr>g_amount_template := ''340.00'', g_case_template := ''{{case_id}}''\<rparr>"

definition guard_inputs :: dict where
  "guard_inputs = [(''institution_id'', VStr ''alpha''), (''member_id'', VStr ''8830142''),
      (''account_id'', VStr ''CHK-8830142-01''), (''case_id'', VStr ''D-8842''), (''currency'', VStr ''USD'')]"

lemma sample_money_texts:
  "parse_money (VStr ''340.00'') = Inr (Money False 34000)" "money_text (Money False 34000) = ''340.00''"
proof -
  show m: "money_text (Money False 34000) = ''340.00''" by (simp add: render_eval money_text_def two_digits_def)
  have "parse_money (VStr (money_text (Money False 34000))) = Inr (Money False 34000)"
    by (rule parse_money_money_text) (simp add: max_money_cents_def)
  then show "parse_money (VStr ''340.00'') = Inr (Money False 34000)" unfolding m .
qed

text \<open>A page whose only form is the sample form.\<close>

definition form_browser :: "unit browser" where
  "form_browser =
     \<lparr>br_count = (\<lambda>l w. (Inr 1, w)), br_wait_visible = (\<lambda>l t w. (Inr (), w)), br_is_visible = (\<lambda>l t w. (Inr True, w)),
      br_inner_text = (\<lambda>l w. (Inr [], w)), br_text_content = (\<lambda>l w. (Inr None, w)), br_tag_name = (\<lambda>l w. (Inr ''button'', w)),
      br_is_enabled = (\<lambda>l w. (Inr True, w)),
      br_control_info = (\<lambda>l w. (Inr \<lparr>ci_href = None, ci_action = None, ci_method = None, ci_submit = True\<rparr>, w)),
      br_submission = (\<lambda>l w. (Inr (Some sample_form), w)), br_click = (\<lambda>l w. (Inr (), w)), br_fill = (\<lambda>l t w. (Inr (), w)),
      br_goto = (\<lambda>v url w. (Inr (), w)), br_wait_idle = (\<lambda>w. (Inr (), w)), br_content = (\<lambda>w. (Inr [], w)),
      br_frames = (\<lambda>w. (Inr [Page], w)), br_route_navigation = (\<lambda>w. (Inr (), w)), br_open_inquiry = (\<lambda>w. (Inr (), w)),
      br_close_inquiry = (\<lambda>w. (Inr (), w))\<rparr>"

definition form_system :: "unit system" where
  "form_system = \<lparr>sy_db = empty_db, sy_saved = empty_db, sy_world = (), sy_phase = BEFORE_SUBMIT, sy_step = None,
     sy_drift = [], sy_llm_calls = 0\<rparr>"

definition form_capability :: capability where
  "form_capability = chargeback_capability\<lparr>cap_guard := Some sample_guard\<rparr>"

lemma ask_pure [simp]: "ask (Pair (Inr v)) s = (Ret v, s)"
  by (simp add: ask_def on_world_def on_part_def)

lemma form_observed:
  "record_of_submission sel [] (Some sample_form) = Inr \<lparr>or_selector = sel, or_institution_id = Some ''alpha'',
     or_member_id = Some ''8830142'', or_account_id = Some ''CHK-8830142-01'', or_amount = Some (Money False 34000),
     or_currency = Some ''USD'', or_case_id = Some ''D-8842'', or_values = sub_values sample_form,
     or_action = Some ''/workspace/credit/commit'', or_method = Some ''POST'', or_raw_text = []\<rparr>"
  by (simp add: record_of_submission_def sample_form_def submitted_def one_def strip_def lstrip_def is_space_def observed_money_def
      sample_money_texts)

lemma form_passes:
  "verify_control_scoped_guard form_browser None form_capability guard_inputs None None ''Commit'' form_system = (Ret (), form_system)"
proof -
  let ?seen = "\<lparr>or_selector = g_container_selector sample_guard, or_institution_id = Some ''alpha'', or_member_id = Some ''8830142'',
     or_account_id = Some ''CHK-8830142-01'', or_amount = Some (Money False 34000), or_currency = Some ''USD'',
     or_case_id = Some ''D-8842'', or_values = sub_values sample_form, or_action = Some ''/workspace/credit/commit'',
     or_method = Some ''POST'', or_raw_text = []\<rparr>"
  have "observe_container form_browser None sel None None target form_system = (Ret (?seen\<lparr>or_selector := sel\<rparr>), form_system)" for sel target
    by (simp add: observe_container_def get_context_def form_browser_def default_submit_controls_def active_candidates_def
        container_selector_def form_observed bnd_def andthen_def catch_def ret_def unless_raise_def)
  moreover have "check_submission sample_guard guard_inputs ?seen = Inr ()"
    by (simp add: check_submission_def require_submitted_def require_amount_def sample_guard_def chargeback_guard_def
        guard_inputs_def render_template_def input_placeholder_def replace_all.simps strip_def lstrip_def is_space_def
        opt_truthy_def submitted_def sample_form_def sample_money_texts cents_def Let_def)
  ultimately show ?thesis
    by (simp add: verify_control_scoped_guard_def form_capability_def bnd_def)
qed

theorem guard_binds_submission_witness:
  "\<exists>loc form. answered_by (br_submission form_browser loc) (Some form) \<and>
     submits guard_inputs (sub_values form) ''case_id'' ''{{case_id}}''"
proof -
  have "cap_guard form_capability = Some sample_guard" "g_case_template sample_guard = ''{{case_id}}''"
    by (simp_all add: form_capability_def sample_guard_def)
  then show ?thesis
    using guard_binds_submission [OF form_passes, of sample_guard] by metis
qed

end
