(* ===== verification/Executor.thy ===== *)
theory Executor
  imports Surface
begin

text \<open>
  The deterministic replay of a capability in the browser
  (\<open>tandem/replay/executor.py\<close>) and the memo inquiry through the user interface
  (\<open>tandem/replay/ui_inquiry.py\<close>).  \<open>execute_body\<close> is the \<open>try\<close> block of
  \<open>DeterministicExecutor.execute\<close>, \<open>failed_outcome\<close> its \<open>except\<close> clauses.
\<close>

record 'w env =
  en_target :: "'w target"
  en_browser :: "'w browser"
  en_settings :: settings
  en_crash :: crash_plan
  en_overlay :: "overlay option"
  en_ui_checks :: bool

section \<open>Inquiry through the user interface\<close>

text \<open>The name of the class of an exception; that of other exceptions is not modelled.\<close>

fun exn_class :: "exn \<Rightarrow> string" where
  "exn_class (PolicyViolationError m) = ''PolicyViolationError''"
| "exn_class (ValueError m) = ''ValueError''"
| "exn_class (KeyError m) = ''KeyError''"
| "exn_class (TypeError m) = ''TypeError''"
| "exn_class (DecimalOverflow m) = ''Overflow''"
| "exn_class e = ''Exception''"

definition require_input :: "dict \<Rightarrow> string \<Rightarrow> val res" where
  "require_input inputs k = (case dict_get inputs k of None \<Rightarrow> Inl (KeyError k) | Some v \<Rightarrow> Inr v)"

definition memo_field :: "'w browser \<Rightarrow> string \<Rightarrow> ('w system, string) prog" where
  "memo_field br cls = bnd (ask (br_inner_text br (Inquiry_Page, [''.memo-found-record'', cls]))) (\<lambda>t. ret (strip t))"

definition found_class :: "string \<Rightarrow> string" where
  "found_class name = ''.found-'' @ map (\<lambda>ch. if ch = CHR ''_'' then CHR ''-'' else ch) name"

fun check_memo_fields :: "'w browser \<Rightarrow> dict \<Rightarrow> string list \<Rightarrow> ('w system, unit) prog" where
  "check_memo_fields br inputs [] = ret ()"
| "check_memo_fields br inputs (name # names) =
     bnd (memo_field br (found_class name)) (\<lambda>seen.
     bnd (of_res (require_input inputs name)) (\<lambda>v.
     andthen (unless_raise (seen = py_str v) (ValueError (''UI inquiry mismatch: '' @ name)))
       (check_memo_fields br inputs names)))"

definition plain_amount :: "string \<Rightarrow> string" where
  "plain_amount t = strip (replace_all '','' [] (replace_all ''USD'' [] (replace_all ''$'' [] t)))"

definition inquire_body :: "'w browser \<Rightarrow> settings \<Rightarrow> dict \<Rightarrow> bool \<Rightarrow> ('w system, execution_outcome) prog" where
  "inquire_body br cfg inputs before =
     bnd (of_res (core_bank_url_for cfg (dict_val inputs ''institution_id''))) (\<lambda>base.
     let url = base @ ''/workspace/memos'' in
     andthen (of_res (authorize_url cfg url ''GET'' False)) (
     andthen (ask (br_goto br Inquiry_Page url)) (
     bnd (of_res (require_input inputs ''case_id'')) (\<lambda>cid.
     andthen (ask (br_fill br (Inquiry_Page, [''input[name=\"case_id\"]'']) (py_str cid))) (
     andthen (ask (br_click br (Inquiry_Page, [''role=button[name=Search Core Memos]'']))) (
     andthen (ask (br_wait_visible br (Inquiry_Page, [''.memo-found-record, .memo-not-found'']) 5000)) (
     bnd (ask (br_count br (Inquiry_Page, [''.memo-not-found'']))) (\<lambda>absent.
     if absent = 1
     then ret (outcome (if before then SUCCESS else BUSINESS_OUTCOME) (if before then NOT_APPLIED else CONFIRMED_NOT_APPLIED)
            ''UI inquiry confirmed effect absence'')
     else
       bnd (ask (br_count br (Inquiry_Page, [''.memo-found-record'']))) (\<lambda>n.
       andthen (unless_raise (n = 1) (ValueError ''Ambiguous memo inquiry result'')) (
       andthen (check_memo_fields br inputs [''case_id'', ''member_id'', ''account_id'', ''institution_id'', ''currency'']) (
       bnd (ask (br_inner_text br (Inquiry_Page, [''.memo-found-record'', ''.found-amount'']))) (\<lambda>amount.
       bnd (of_res (parse_money (VStr (plain_amount amount)))) (\<lambda>seen.
       bnd (of_res (rbind (require_input inputs ''amount'') parse_money)) (\<lambda>due.
       andthen (unless_raise (cents seen = cents due) (ValueError ''UI inquiry amount mismatch'')) (
       bnd (memo_field br ''.found-memo-code'') (\<lambda>memo.
       bnd (if memo = [] then ret False else bnd (memo_field br ''.found-status'') (\<lambda>st. ret (st = ''POSTED''))) (\<lambda>posted.
       andthen (unless_raise posted (ValueError ''UI inquiry lacks posted receipt'')) (
       ret ((outcome (if before then BUSINESS_OUTCOME else SUCCESS) (if before then ALREADY_APPLIED else COMPLETED)
              ''UI inquiry verified the posted credit identity'')
            \<lparr>o_audit_ref := Some memo, o_money_moved := \<not> before, o_details := [(''verification'', VStr ''UI_ONLY'')]\<rparr>)))))))))))))))))))"

definition inquire_credit :: "'w browser \<Rightarrow> settings \<Rightarrow> dict \<Rightarrow> bool \<Rightarrow> ('w system, execution_outcome) prog" where
  "inquire_credit br cfg inputs before =
     andthen (ask (br_open_inquiry br)) (
     bnd (catch (\<lambda>_. True) (inquire_body br cfg inputs before) (\<lambda>e. ret (outcome
        (if before then HARD_FAILURE else CAT_UNCERTAIN_EFFECT) (if before then PRECHECK_UNAVAILABLE else POSTCHECK_UNCERTAIN)
        (''UI inquiry could not establish effect state: '' @ exn_class e)))) (\<lambda>r.
     andthen (ask (br_close_inquiry br)) (ret r)))"

section \<open>One step\<close>

definition workspace_frame :: string where
  "workspace_frame = ''#core_workspace_frame''"

definition step_frame :: "step_definition \<Rightarrow> string" where
  "step_frame s = or_str (st_frame_selector s) workspace_frame"

fun any_frame_shows :: "'w browser \<Rightarrow> string \<Rightarrow> view list \<Rightarrow> ('w system, bool) prog" where
  "any_frame_shows br text [] = ret False"
| "any_frame_shows br text (v # vs) =
     bnd (ask (br_inner_text br (v, [''body'']))) (\<lambda>t. if contains text t then ret True else any_frame_shows br text vs)"

fun is_interstitial :: "exn \<Rightarrow> bool" where
  "is_interstitial (ComplianceInterstitialError m) = True"
| "is_interstitial _ = False"

definition check_interstitial :: "'w browser \<Rightarrow> ('w system, unit) prog" where
  "check_interstitial br =
     catch (\<lambda>e. \<not> is_interstitial e)
       (bnd (get_context br (Some workspace_frame)) (\<lambda>ctx.
        bnd (ask (br_count br (ctx, [''#compliance_interstitial_panel'']))) (\<lambda>n.
        bnd (if 0 < n then ret True
             else bnd (ask (br_content br)) (\<lambda>t. ret (contains ''COMPLIANCE INTERSTITIAL REVIEW REQUIRED'' t))) (\<lambda>shown.
        unless_raise (\<not> shown) (ComplianceInterstitialError
          ''Compliance review interstitial encountered; manual operator sign-off required'')))))
       (\<lambda>_. ret ())"

definition admit_control :: "'w env \<Rightarrow> capability \<Rightarrow> step_definition \<Rightarrow> ('w system, unit) prog" where
  "admit_control en c s =
     (if cap_system c = ''core_bank'' \<and> st_action s \<in> {FILL, CLICK, SUBMIT}
      then bnd (get_context (en_browser en) (Some (step_frame s))) (\<lambda>ctx.
           bnd (find_best_locator (en_browser en) ctx (active_candidates (en_overlay en) (st_target s) (st_candidates s)) (st_target s)) (\<lambda>loc.
           bnd (ask (br_control_info (en_browser en) loc)) (\<lambda>info.
           of_res (authorize_control (en_settings en) info (step_action_value (st_action s)) False))))
      else ret ())"

definition check_guard :: "'w env \<Rightarrow> capability \<Rightarrow> dict \<Rightarrow> step_definition \<Rightarrow> ('w system, unit) prog" where
  "check_guard en c inputs s =
     (if st_action s \<in> {ASSERT_CONTAINER, SUBMIT}
      then andthen (verify_control_scoped_guard (en_browser en) (en_overlay en) c inputs (Some (step_frame s))
             (if st_action s = SUBMIT then Some (st_candidates s) else None) (st_target s))
           (if st_action s = SUBMIT then maybe_crash (en_crash en) ''E_AFTER_GUARD'' (Some (cap_id c)) else ret ())
      else ret ())"

definition surface_route :: "settings \<Rightarrow> capability \<Rightarrow> dict \<Rightarrow> string \<Rightarrow> string res" where
  "surface_route cfg c inputs url =
     (if \<not> starts_with ''surface://'' url then Inr url
      else if url \<noteq> fstr [''surface://'', cap_system c, ''/home'']
      then Inl (ValueError (''Unsupported logical surface route: '' @ url))
      else rbind (core_bank_url_for cfg (dict_val inputs ''institution_id'')) (\<lambda>core_bank.
        case map_of [(''core_bank'', core_bank), (''processor'', processor_url cfg), (''documents'', documents_url cfg)] (cap_system c) of
          None \<Rightarrow> Inl (ValueError (fstr [''No runtime route configured for surface '', sq, cap_system c, sq]))
        | Some u \<Rightarrow> Inr u))"

definition mark_submit_initiated :: "'w env \<Rightarrow> capability \<Rightarrow> ('w system, unit) prog" where
  "mark_submit_initiated en c =
     andthen (change (\<lambda>x. x\<lparr>sy_phase := SUBMIT_INITIATED\<rparr>)) (maybe_crash (en_crash en) ''F_BEFORE_SUBMIT'' (Some (cap_id c)))"

definition perform_step :: "'w env \<Rightarrow> capability \<Rightarrow> dict \<Rightarrow> step_definition \<Rightarrow> ('w system, unit) prog" where
  "perform_step en c inputs s = (case st_action s of
      NAVIGATE \<Rightarrow>
        bnd (of_res (surface_route (en_settings en) c inputs (render_template (st_target s) inputs))) (\<lambda>url.
        andthen (if cap_system c = ''core_bank'' then of_res (authorize_url (en_settings en) url ''GET'' False) else ret ()) (
        navigate (en_browser en) url))
    | FILL \<Rightarrow>
        andthen (resolve_and_fill (en_browser en) (en_overlay en) (st_target s) (st_candidates s)
          (if opt_truthy (st_input_template s) then render_template (the (st_input_template s)) inputs else [])
          (Some (step_frame s))) (ret ())
    | CLICK \<Rightarrow>
        andthen (resolve_and_click (en_browser en) (en_overlay en) (st_target s) (st_candidates s) (Some (step_frame s)) (ret ())) (ret ())
    | SUBMIT \<Rightarrow>
        andthen (resolve_and_click (en_browser en) (en_overlay en) (st_target s) (st_candidates s) (Some (step_frame s))
          (mark_submit_initiated en c)) (
        andthen (change (\<lambda>x. x\<lparr>sy_phase := SUBMIT_CONFIRMED\<rparr>)) (
        maybe_crash (en_crash en) ''G_AFTER_TARGET_ACCEPTS'' (Some (cap_id c))))
    | _ \<Rightarrow> ret ())"

definition member_not_found :: "dict \<Rightarrow> execution_outcome" where
  "member_not_found inputs = (outcome BUSINESS_OUTCOME MEMBER_NOT_FOUND ''Member search returned no matching record'')
     \<lparr>o_details := [(''member_id'', dict_val inputs ''member_id'')]\<rparr>"

definition replay_step ::
  "'w env \<Rightarrow> ('w system, bool) prog option \<Rightarrow> capability \<Rightarrow> dict \<Rightarrow> step_definition \<Rightarrow> ('w system, execution_outcome option) prog" where
  "replay_step en lease_validator c inputs s =
     andthen (change (\<lambda>x. x\<lparr>sy_step := Some (st_id s)\<rparr>)) (
     bnd (case lease_validator of None \<Rightarrow> ret True | Some check \<Rightarrow> check) (\<lambda>valid.
     andthen (unless_raise valid (LeaseConflictError ''Browser action rejected because the ownership fencing token is stale'')) (
     bnd (ask (br_frames (en_browser en))) (\<lambda>frames.
     bnd (any_frame_shows (en_browser en) ''No records found matching search criteria.'' frames) (\<lambda>missing.
     if missing then ret (Some (member_not_found inputs))
     else
       andthen (check_interstitial (en_browser en)) (
       andthen (admit_control en c s) (
       andthen (check_guard en c inputs s) (
       andthen (perform_step en c inputs s) (ret None)))))))))"

section \<open>The receipt and the outputs\<close>

definition read_memo :: "'w browser \<Rightarrow> view \<Rightarrow> ('w system, string option) prog" where
  "read_memo br ctx =
     (let loc = (ctx, [''#receipt_memo_code, .result-memo-code'']) in
      attempt (bnd (ask (br_is_visible br loc 2000)) (\<lambda>visible.
        if visible then bnd (ask (br_text_content br loc)) (\<lambda>t. case t of
            None \<Rightarrow> fail (OtherException ''NoneType has no attribute strip'')
          | Some s \<Rightarrow> ret (Some (strip s)))
        else ret None)) None)"

definition read_money_moved :: "'w browser \<Rightarrow> view \<Rightarrow> ('w system, bool) prog" where
  "read_money_moved br ctx =
     (let loc = (ctx, [''#receipt_money_moved'']) in
      attempt (bnd (ask (br_is_visible br loc 1000)) (\<lambda>visible.
        if visible then bnd (ask (br_text_content br loc)) (\<lambda>t.
          ret (contains ''MONEY_MOVED=TRUE'' (case t of None \<Rightarrow> [] | Some s \<Rightarrow> s)))
        else ret False)) False)"

text \<open>The entries of a schema field that the code expects to be an object or a list.\<close>

fun items_of :: "val \<Rightarrow> dict res" where
  "items_of (VDict d) = Inr d"
| "items_of v = Inl (TypeError ''object has no attribute items'')"

fun elements_of :: "val \<Rightarrow> val list res" where
  "elements_of (VList xs) = Inr xs"
| "elements_of v = Inl (TypeError ''object is not iterable'')"

fun selector_of :: "val \<Rightarrow> string res" where
  "selector_of (VStr s) = Inr s"
| "selector_of v = Inl (TypeError ''selector is not a string'')"

definition read_output :: "'w browser \<Rightarrow> view \<Rightarrow> dict \<Rightarrow> ('w system, val option) prog" where
  "read_output br ctx spec =
     (case dict_get spec ''x-selector'' of
        None \<Rightarrow> ret None
      | Some sel \<Rightarrow>
          bnd (of_res (selector_of sel)) (\<lambda>selector.
          bnd (ask (br_inner_text br (ctx, [selector]))) (\<lambda>t.
          ret (Some (case dict_get spec ''x-equals'' of None \<Rightarrow> VStr (strip t) | Some v \<Rightarrow> VBool (VStr (strip t) = v))))))"

fun collect_outputs :: "'w browser \<Rightarrow> view \<Rightarrow> dict \<Rightarrow> dict \<Rightarrow> ('w system, dict) prog" where
  "collect_outputs br ctx [] outputs = ret outputs"
| "collect_outputs br ctx ((name, spec) # props) outputs =
     bnd (of_res (items_of spec)) (\<lambda>fields.
     bnd (read_output br ctx fields) (\<lambda>found.
     collect_outputs br ctx props (case found of None \<Rightarrow> outputs | Some v \<Rightarrow> dict_set outputs name v)))"

definition require_outputs :: "dict \<Rightarrow> val list \<Rightarrow> unit res" where
  "require_outputs outputs = guard_all (\<lambda>required.
     if dict_val outputs (py_str required) = VNone then Inl (ValueError (''Required output missing: '' @ py_str required)) else Inr ())"

definition confirm_target :: "'w env \<Rightarrow> capability \<Rightarrow> dict \<Rightarrow> ('w system, execution_outcome) prog" where
  "confirm_target en c inputs =
     andthen (maybe_crash (en_crash en) ''H_BEFORE_POSTCHECK'' (Some (cap_id c))) (
     bnd (if en_ui_checks en then inquire_credit (en_browser en) (en_settings en) inputs False
          else on_world (execute_postcheck (en_target en) (en_settings en) c inputs)) (\<lambda>postcheck.
     andthen (maybe_crash (en_crash en) ''I_AFTER_POSTCHECK'' (Some (cap_id c))) (ret postcheck)))"

definition replay_success :: "capability \<Rightarrow> dict \<Rightarrow> string option \<Rightarrow> bool \<Rightarrow> string list \<Rightarrow> execution_phase \<Rightarrow> execution_outcome" where
  "replay_success c outputs memo moved drift phase =
     (outcome SUCCESS COMPLETED (fstr [''Capability '', sq, cap_id c, sq, '' replayed successfully with 0 LLM calls'']))
       \<lparr>o_outputs := outputs, o_details := [(''memo_code'', opt_val VStr memo), (''money_moved'', VBool moved),
          (''drift_events'', strs_val drift)], o_money_moved := moved, o_audit_ref := memo, o_phase := phase\<rparr>"

definition finish_replay :: "'w env \<Rightarrow> capability \<Rightarrow> dict \<Rightarrow> nat \<Rightarrow> ('w system, execution_outcome) prog" where
  "finish_replay en c inputs llm_count_before =
     bnd (gets (\<lambda>x. sy_llm_calls x - llm_count_before)) (\<lambda>calls.
     andthen (unless_raise (calls = 0) (RuntimeError (fstr [''CRITICAL SAFETY VIOLATION: Replay engine invoked '', str_nat calls,
        '' LLM calls! Replay must be 100% deterministic.'']))) (
     bnd (get_context (en_browser en) (Some workspace_frame)) (\<lambda>ctx.
     bnd (read_memo (en_browser en) ctx) (\<lambda>memo.
     bnd (read_money_moved (en_browser en) ctx) (\<lambda>moved.
     bnd (if ef_class (cap_effect c) = COMMIT then bnd (confirm_target en c inputs) (\<lambda>p. ret (Some p)) else ret None) (\<lambda>postcheck.
     let unconfirmed = (case postcheck of None \<Rightarrow> False | Some p \<Rightarrow> \<not> is_success p) in
     if unconfirmed then ret ((the postcheck)\<lparr>o_phase := AFTER_SUBMIT_UNKNOWN\<rparr>)
     else
       let memo_code = (case postcheck of None \<Rightarrow> memo | Some p \<Rightarrow> o_audit_ref p);
           money_moved = (case postcheck of None \<Rightarrow> moved | Some p \<Rightarrow> o_money_moved p)
       in bnd (of_res (items_of (dict_default (cap_output_schema c) ''properties'' (VDict [])))) (\<lambda>props.
          bnd (collect_outputs (en_browser en) ctx props
             [(''receipt_reference'', opt_val VStr memo_code), (''money_moved'', VBool money_moved)]) (\<lambda>outputs.
          bnd (of_res (elements_of (dict_default (cap_output_schema c) ''required'' (VList [])))) (\<lambda>required.
          andthen (of_res (require_outputs outputs required)) (
          bnd (gets sy_drift) (\<lambda>drift.
          bnd (gets sy_phase) (\<lambda>phase.
          ret (replay_success c outputs memo_code money_moved drift phase)))))))))))))"

section \<open>The replay and its exceptions\<close>

definition supported_action :: "step_action \<Rightarrow> bool" where
  "supported_action a \<longleftrightarrow> a \<in> {NAVIGATE, FILL, CLICK, SUBMIT, ASSERT_CONTAINER}"

definition admit_replay :: "'w env \<Rightarrow> capability \<Rightarrow> dict \<Rightarrow> ('w system, execution_outcome option) prog" where
  "admit_replay en c inputs =
     andthen (case filter (\<lambda>s. \<not> supported_action (st_action s)) (cap_steps c) of
         [] \<Rightarrow> ret ()
       | s # _ \<Rightarrow> fail (PolicyViolationError (fstr [''Unsupported browser action '', step_action_value (st_action s), '' at '', st_id s]))) (
     andthen (if cap_system c = ''core_bank'' then ask (br_route_navigation (en_browser en)) else ret ()) (
     bnd (of_res (policy_evaluate c inputs)) (\<lambda>denied. case denied of
         Some r \<Rightarrow> ret (Some r)
       | None \<Rightarrow>
           bnd (if en_ui_checks en \<and> ef_class (cap_effect c) = COMMIT
                then bnd (inquire_credit (en_browser en) (en_settings en) inputs True) (\<lambda>r.
                     ret (if o_code r \<noteq> NOT_APPLIED then Some r else None))
                else ret None) (\<lambda>refused. case refused of
             Some r \<Rightarrow> ret (Some r)
           | None \<Rightarrow>
               bnd (ask (br_content (en_browser en))) (\<lambda>t.
               andthen (unless_raise (\<not> contains ''SESSION EXPIRED'' t) (SessionExpiredError ''Target system session has timed out''))
                 (ret None))))))"

definition execute_body ::
  "'w env \<Rightarrow> ('w system, bool) prog option \<Rightarrow> capability \<Rightarrow> dict \<Rightarrow> nat \<Rightarrow> ('w system, execution_outcome) prog" where
  "execute_body en lease_validator c inputs llm_count_before =
     bnd (admit_replay en c inputs) (\<lambda>refused. case refused of
       Some r \<Rightarrow> ret r
     | None \<Rightarrow>
         bnd (for_return (replay_step en lease_validator c inputs) (cap_steps c)) (\<lambda>early. case early of
           Some r \<Rightarrow> ret r
         | None \<Rightarrow> finish_replay en c inputs llm_count_before))"

definition failed_at :: "'w system \<Rightarrow> outcome_category \<Rightarrow> outcome_code \<Rightarrow> exn \<Rightarrow> dict \<Rightarrow> execution_outcome" where
  "failed_at x cat co e details = (outcome cat co (exn_text e))\<lparr>o_details := details, o_failed_step := sy_step x,
     o_expected := Some ''Unique allowlisted control and matching declared inputs'', o_observed := Some (exn_text e),
     o_phase := sy_phase x\<rparr>"

fun failed_outcome :: "capability \<Rightarrow> dict \<Rightarrow> 'w system \<Rightarrow> exn \<Rightarrow> execution_outcome" where
  "failed_outcome c inputs x (PolicyViolationError m) = failed_at x HARD_FAILURE POLICY_VIOLATION (PolicyViolationError m) []"
| "failed_outcome c inputs x (EntityBindingMismatchError m) =
     failed_at x HARD_FAILURE ENTITY_BINDING_MISMATCH (EntityBindingMismatchError m) [(''inputs'', VDict inputs)]"
| "failed_outcome c inputs x (AmountMismatchError m) =
     failed_at x HARD_FAILURE AMOUNT_MISMATCH (AmountMismatchError m) [(''inputs'', VDict inputs)]"
| "failed_outcome c inputs x (PageDriftError m) =
     failed_at x RECOVERABLE_FAILURE PAGE_DRIFT (PageDriftError m) [(''drift_events'', strs_val (sy_drift x))]"
| "failed_outcome c inputs x (ComplianceInterstitialError m) =
     failed_at x CAT_NEEDS_HUMAN COMPLIANCE_INTERSTITIAL (ComplianceInterstitialError m)
       [(''interstitial_type'', VStr ''REG_E_COMPLIANCE_REVIEW'')]"
| "failed_outcome c inputs x (SessionExpiredError m) = failed_at x RECOVERABLE_FAILURE SESSION_EXPIRED (SessionExpiredError m) []"
| "failed_outcome c inputs x (LeaseConflictError m) = failed_at x CAT_NEEDS_HUMAN LEASE_FENCED (LeaseConflictError m) []"
| "failed_outcome c inputs x e =
     (if ef_class (cap_effect c) = COMMIT \<and> sy_phase x \<in> {SUBMIT_INITIATED, SUBMIT_CONFIRMED}
      then (outcome CAT_UNCERTAIN_EFFECT POSSIBLY_APPLIED (''Browser failed after irreversible submit began: '' @ exn_text e))
             \<lparr>o_details := [(''original_error'', VStr (exn_text e))], o_phase := AFTER_SUBMIT_UNKNOWN\<rparr>
      else outcome RECOVERABLE_FAILURE NETWORK_TIMEOUT (''Replay failed before irreversible submit: '' @ exn_text e))"

definition execute ::
  "'w env \<Rightarrow> ('w system, bool) prog option \<Rightarrow> capability \<Rightarrow> dict \<Rightarrow> ('w system, execution_outcome) prog" where
  "execute en lease_validator c inputs =
     bnd (gets sy_llm_calls) (\<lambda>llm_count_before.
     andthen (change (\<lambda>x. x\<lparr>sy_step := None, sy_phase := BEFORE_SUBMIT\<rparr>)) (
     catch (\<lambda>_. True) (execute_body en lease_validator c inputs llm_count_before)
       (\<lambda>e. gets (\<lambda>x. failed_outcome c inputs x e))))"

end
