(* ===== verification/PageInvariant.thy ===== *)
theory PageInvariant
  imports Executor
begin

text \<open>
  The interface between the replay and a property that every use of the page preserves.
  A client names an invariant and shows it for the single calls; the replay, the guard
  and the inquiries then preserve it.  Three contracts: the page may be observed and
  filled, the target may be asked as well, and the page may be clicked as well.
\<close>

lemma keeps_Pair [keeps_rules]: "keeps I (Pair r)"
  by (simp add: keeps_def)

lemma keeps_attempt [keeps_rules]: "keeps I p \<Longrightarrow> keeps I (attempt p x)"
  unfolding attempt_def by (intro keeps_rules)

lemma keeps_maybe_crash [keeps_rules]: "keeps I (maybe_crash plan point cap)"
  unfolding maybe_crash_def by (intro keeps_rules)

lemma on_world_bnd: "on_world (bnd p f) = bnd (on_world p) (\<lambda>x. on_world (f x))"
  by (rule ext) (auto simp: on_world_def on_part_def bnd_def split: prod.splits run.splits)

lemma on_world_pure:
  "on_world (ret x) = ret x" "on_world (fail e) = fail e" "on_world die = die" "on_world (of_res r) = of_res r"
  by (rule ext, simp add: on_world_def on_part_def of_res_def)+

lemma on_world_andthen: "on_world (andthen p q) = andthen (on_world p) (on_world q)"
  by (simp add: andthen_def on_world_bnd)

lemma on_world_if: "on_world (if b then p else q) = (if b then on_world p else on_world q)"
  by simp

lemma on_world_crash: "on_world (maybe_crash plan point c) = maybe_crash plan point c"
  by (simp add: maybe_crash_def on_world_pure split: option.split)

lemmas on_world_rules = on_world_bnd on_world_pure on_world_andthen on_world_if on_world_crash

section \<open>Observing the page\<close>

locale page_invariant =
  fixes I :: "'w system \<Rightarrow> bool" and br :: "'w browser"
  assumes observing: "keeps I (ask (br_count br l))" "keeps I (ask (br_wait_visible br l t))"
      "keeps I (ask (br_is_visible br l t))" "keeps I (ask (br_inner_text br l))" "keeps I (ask (br_text_content br l))"
      "keeps I (ask (br_tag_name br l))" "keeps I (ask (br_is_enabled br l))" "keeps I (ask (br_control_info br l))"
      "keeps I (ask (br_submission br l))" "keeps I (ask (br_fill br l s))" "keeps I (ask (br_goto br v s))"
      "keeps I (ask (br_wait_idle br))" "keeps I (ask (br_content br))" "keeps I (ask (br_frames br))"
      "keeps I (ask (br_route_navigation br))" "keeps I (ask (br_open_inquiry br))" "keeps I (ask (br_close_inquiry br))"
    and inquiry_click: "keeps I (ask (br_click br (Inquiry_Page, sel)))"
    and drift: "I x \<Longrightarrow> I (x\<lparr>sy_drift := ds\<rparr>)"
    and step: "I x \<Longrightarrow> I (x\<lparr>sy_step := st\<rparr>)"
begin

lemmas calls [keeps_rules] = observing inquiry_click

lemma keeps_get_context [keeps_rules]: "keeps I (get_context br f)"
  unfolding get_context_def by (intro keeps_rules)

lemma keeps_note_drift [keeps_rules]: "keeps I (note_drift t cs i s)"
  unfolding note_drift_def by (intro keeps_rules keeps_change drift)

lemma keeps_try_candidate [keeps_rules]: "keeps I (try_candidate br ctx t cs i s)"
  unfolding try_candidate_def by (intro keeps_rules)

lemma keeps_find_locator [keeps_rules]: "keeps I (find_locator br ctx t cs i ss)"
  by (induction ss arbitrary: i) (auto intro!: keeps_rules)

lemma keeps_find_best [keeps_rules]: "keeps I (find_best_locator br ctx cs t)"
  unfolding find_best_locator_def by (intro keeps_rules)

lemma keeps_fill [keeps_rules]: "keeps I (resolve_and_fill br ov t cs v f)"
  unfolding resolve_and_fill_def by (intro keeps_rules)

lemma keeps_navigate [keeps_rules]: "keeps I (navigate br url)"
  unfolding navigate_def by (intro keeps_rules)

lemma keeps_find_control [keeps_rules]: "keeps I (find_control br ctx cont cs)"
  by (induction cs) (auto intro!: keeps_rules)

lemma keeps_observe [keeps_rules]: "keeps I (observe_container br ov s f cs t)"
  unfolding observe_container_def Let_def by (intro keeps_rules)

lemma keeps_guard [keeps_rules]: "keeps I (verify_control_scoped_guard br ov c inputs f cs t)"
  unfolding verify_control_scoped_guard_def by (intro keeps_rules)

lemma keeps_frames [keeps_rules]: "keeps I (any_frame_shows br t vs)"
  by (induction vs) (auto intro!: keeps_rules)

lemma keeps_interstitial [keeps_rules]: "keeps I (check_interstitial br)"
  unfolding check_interstitial_def by (intro keeps_rules)

lemma keeps_memo_field [keeps_rules]: "keeps I (memo_field br s)"
  unfolding memo_field_def by (intro keeps_rules)

lemma keeps_memo_fields [keeps_rules]: "keeps I (check_memo_fields br inputs names)"
  by (induction names) (auto intro!: keeps_rules)

lemma keeps_inquire [keeps_rules]: "keeps I (inquire_credit br cfg inputs before)"
  unfolding inquire_credit_def inquire_body_def Let_def by (intro keeps_rules)

lemma keeps_receipt [keeps_rules]:
  "keeps I (read_memo br ctx)" "keeps I (read_money_moved br ctx)" "keeps I (read_output br ctx spec)"
  unfolding read_memo_def read_money_moved_def read_output_def Let_def by (intro keeps_rules)+

lemma keeps_outputs [keeps_rules]: "keeps I (collect_outputs br ctx props out)"
  by (induction props arbitrary: out) (auto intro!: keeps_rules)

end

section \<open>Asking the target as well\<close>

locale asking_invariant = page_invariant I "en_browser en" for I :: "'w system \<Rightarrow> bool" and en :: "'w env" +
  assumes asking: "keeps I (on_world (get_url (en_target en) url))"
begin

lemma keeps_precheck [keeps_rules]: "keeps I (on_world (execute_precheck (en_target en) cfg c inputs))"
  unfolding execute_precheck_def on_world_rules
  by (intro keeps_rules; simp add: on_world_rules split: option.split; intro conjI allI impI keeps_rules asking)

lemma keeps_postcheck [keeps_rules]: "keeps I (on_world (execute_postcheck (en_target en) cfg c inputs))"
  unfolding execute_postcheck_def on_world_rules
  by (intro keeps_rules; simp add: on_world_rules split: option.split; intro conjI allI impI keeps_rules asking)

lemma keeps_check_guard [keeps_rules]: "keeps I (check_guard en c inputs s)"
  unfolding check_guard_def by (intro keeps_rules)

lemma keeps_admit_control [keeps_rules]: "keeps I (admit_control en c s)"
  unfolding admit_control_def by (intro keeps_rules)

lemma keeps_admit_replay [keeps_rules]: "keeps I (admit_replay en c inputs)"
  unfolding admit_replay_def
  by (intro keeps_rules; cases "filter (\<lambda>s. \<not> supported_action (st_action s)) (cap_steps c)"; simp; intro keeps_rules)

lemma keeps_confirm [keeps_rules]: "keeps I (confirm_target en c inputs)"
  unfolding confirm_target_def by (intro keeps_rules)

lemma keeps_finish [keeps_rules]: "keeps I (finish_replay en c inputs k)"
  unfolding finish_replay_def Let_def by (intro keeps_rules)

end

section \<open>Acting on the page as well\<close>

locale acting_invariant = asking_invariant +
  assumes clicking: "keeps I (ask (br_click (en_browser en) loc))"
    and phase: "I x \<Longrightarrow> I (x\<lparr>sy_phase := p\<rparr>)"
begin

lemma keeps_click [keeps_rules]:
  "keeps I before \<Longrightarrow> keeps I (resolve_and_click (en_browser en) ov t cs f before)"
  unfolding resolve_and_click_def by (intro keeps_rules clicking)

lemma keeps_mark [keeps_rules]: "keeps I (mark_submit_initiated en c)"
  unfolding mark_submit_initiated_def by (intro keeps_rules keeps_change phase)

lemma keeps_perform [keeps_rules]: "keeps I (perform_step en c inputs s)"
  unfolding perform_step_def by (cases "st_action s"; simp only: step_action.simps; intro keeps_rules keeps_change phase)

lemma keeps_replay_step:
  assumes "\<And>check. lv = Some check \<Longrightarrow> keeps I check"
  shows "keeps I (replay_step en lv c inputs s)"
  unfolding replay_step_def by (intro keeps_rules keeps_change step assms)

lemma keeps_execute:
  assumes lv: "\<And>check. lv = Some check \<Longrightarrow> keeps I check"
  shows "keeps I (execute en lv c inputs)"
  unfolding execute_def execute_body_def
  by (intro keeps_rules keeps_change keeps_replay_step lv) (auto intro: phase step dest: phase step)

end

end
