(* ===== verification/Submits.thy ===== *)
theory Submits
  imports PageInvariant
begin

text \<open>
  What the execution phase of a replay says about the page.  A watched environment
  counts what acts on the target, the clicks outside of the inquiry page and the posts; the invariant \<open>quiet n\<close> bounds them
  until the phase says that a submit began.  Its consequence is the fact on which the
  settlement of a claim rests: an outcome with that phase has submitted nothing.
\<close>

section \<open>A watched environment\<close>

definition lifted :: "('w, 'a) call \<Rightarrow> ('w \<times> nat, 'a) call" where
  "lifted f = (\<lambda>(w, n). case f w of (r, v) \<Rightarrow> (r, (v, n)))"

definition watched_target :: "'w target \<Rightarrow> ('w \<times> nat) target" where
  "watched_target tg =
     \<lparr>http_get = (\<lambda>url (w, n). case http_get tg url w of (r, v) \<Rightarrow> (r, (v, n))),
      http_post = (\<lambda>url d token (w, n). case http_post tg url d token w of (r, v) \<Rightarrow> (r, (v, Suc n))),
      sleep = (\<lambda>(w, n). (sleep tg w, n))\<rparr>"

definition watched_click :: "'w browser \<Rightarrow> locator \<Rightarrow> ('w \<times> nat, unit) call" where
  "watched_click br loc = (\<lambda>(w, n). case br_click br loc w of (r, v) \<Rightarrow> (r, (v, if fst loc = Inquiry_Page then n else Suc n)))"

definition watched_browser :: "'w browser \<Rightarrow> ('w \<times> nat) browser" where
  "watched_browser br =
     \<lparr>br_count = (\<lambda>l. lifted (br_count br l)), br_wait_visible = (\<lambda>l t. lifted (br_wait_visible br l t)),
      br_is_visible = (\<lambda>l t. lifted (br_is_visible br l t)), br_inner_text = (\<lambda>l. lifted (br_inner_text br l)),
      br_text_content = (\<lambda>l. lifted (br_text_content br l)), br_tag_name = (\<lambda>l. lifted (br_tag_name br l)),
      br_is_enabled = (\<lambda>l. lifted (br_is_enabled br l)), br_control_info = (\<lambda>l. lifted (br_control_info br l)),
      br_submission = (\<lambda>l. lifted (br_submission br l)), br_click = watched_click br,
      br_fill = (\<lambda>l t. lifted (br_fill br l t)), br_goto = (\<lambda>v url. lifted (br_goto br v url)),
      br_wait_idle = lifted (br_wait_idle br), br_content = lifted (br_content br), br_frames = lifted (br_frames br),
      br_route_navigation = lifted (br_route_navigation br), br_open_inquiry = lifted (br_open_inquiry br),
      br_close_inquiry = lifted (br_close_inquiry br)\<rparr>"

definition watched :: "'w env \<Rightarrow> ('w \<times> nat) env" where
  "watched en = \<lparr>en_target = watched_target (en_target en), en_browser = watched_browser (en_browser en),
     en_settings = en_settings en, en_crash = en_crash en, en_overlay = en_overlay en, en_ui_checks = en_ui_checks en\<rparr>"

abbreviation acts :: "('w \<times> nat) system \<Rightarrow> nat" where
  "acts x \<equiv> snd (sy_world x)"

section \<open>The invariant\<close>

text \<open>An invariant that looks only at the phase and the actions.\<close>

definition seen_by :: "(execution_phase \<Rightarrow> nat \<Rightarrow> bool) \<Rightarrow> ('w \<times> nat) system \<Rightarrow> bool" where
  "seen_by I x \<longleftrightarrow> I (sy_phase x) (acts x)"

lemma seen_by_simps [simp]:
  "seen_by I (x\<lparr>sy_db := d\<rparr>) = seen_by I x" "seen_by I (x\<lparr>sy_saved := d\<rparr>) = seen_by I x"
  "seen_by I (x\<lparr>sy_step := s\<rparr>) = seen_by I x" "seen_by I (x\<lparr>sy_drift := ds\<rparr>) = seen_by I x"
  by (simp_all add: seen_by_def)

lemma keeps_lifted [keeps_rules]: "keeps (seen_by I) (ask (lifted f))"
  by (rule keepsI) (auto simp: ask_def on_world_def on_part_def lifted_def seen_by_def split: prod.splits sum.splits)

lemma keeps_inquiry_click [keeps_rules]: "keeps (seen_by I) (ask (watched_click br (Inquiry_Page, sel)))"
  by (rule keepsI) (auto simp: ask_def on_world_def on_part_def watched_click_def seen_by_def split: prod.splits sum.splits)

lemma watched_calls [simp]:
  "br_count (watched_browser br) l = lifted (br_count br l)"
  "br_wait_visible (watched_browser br) l t = lifted (br_wait_visible br l t)"
  "br_is_visible (watched_browser br) l t = lifted (br_is_visible br l t)"
  "br_inner_text (watched_browser br) l = lifted (br_inner_text br l)"
  "br_text_content (watched_browser br) l = lifted (br_text_content br l)"
  "br_tag_name (watched_browser br) l = lifted (br_tag_name br l)"
  "br_is_enabled (watched_browser br) l = lifted (br_is_enabled br l)"
  "br_control_info (watched_browser br) l = lifted (br_control_info br l)"
  "br_submission (watched_browser br) l = lifted (br_submission br l)"
  "br_click (watched_browser br) l = watched_click br l"
  "br_fill (watched_browser br) l s = lifted (br_fill br l s)"
  "br_goto (watched_browser br) v url = lifted (br_goto br v url)"
  "br_wait_idle (watched_browser br) = lifted (br_wait_idle br)"
  "br_content (watched_browser br) = lifted (br_content br)"
  "br_frames (watched_browser br) = lifted (br_frames br)"
  "br_route_navigation (watched_browser br) = lifted (br_route_navigation br)"
  "br_open_inquiry (watched_browser br) = lifted (br_open_inquiry br)"
  "br_close_inquiry (watched_browser br) = lifted (br_close_inquiry br)"
  by (simp_all add: watched_browser_def)

lemma watched_env [simp]:
  "en_browser (watched en) = watched_browser (en_browser en)" "en_target (watched en) = watched_target (en_target en)"
  "en_settings (watched en) = en_settings en" "en_crash (watched en) = en_crash en" "en_overlay (watched en) = en_overlay en"
  "en_ui_checks (watched en) = en_ui_checks en"
  by (simp_all add: watched_def)

interpretation watched_page: page_invariant "seen_by I" "watched_browser br"
  by unfold_locales (simp_all add: keeps_lifted keeps_inquiry_click)

interpretation watched_replay: asking_invariant "seen_by I" "watched en"
proof unfold_locales
  show "keeps (seen_by I) (on_world (get_url (en_target (watched en)) url))" for url
    by (rule keepsI) (auto simp: on_world_def on_part_def seen_by_def get_url_def watched_target_def split: prod.splits)
qed (simp_all add: keeps_lifted keeps_inquiry_click)

section \<open>Clicks and submits\<close>

definition quiet :: "nat \<Rightarrow> ('w \<times> nat) system \<Rightarrow> bool" where
  "quiet n = seen_by (\<lambda>phase k. phase \<notin> {SUBMIT_INITIATED, SUBMIT_CONFIRMED} \<longrightarrow> k \<le> n)"

definition submitting :: "('w \<times> nat) system \<Rightarrow> bool" where
  "submitting = seen_by (\<lambda>phase k. phase \<in> {SUBMIT_INITIATED, SUBMIT_CONFIRMED})"

lemma submitting_quiet: "submitting x \<Longrightarrow> quiet n x"
  by (auto simp: submitting_def quiet_def seen_by_def)

lemma quiet_mono: "quiet m x \<Longrightarrow> m \<le> n \<Longrightarrow> quiet n x"
  by (auto simp: quiet_def seen_by_def)

lemma keeps_submitting_click: "keeps submitting (ask (watched_click br loc))"
  by (rule keepsI) (auto simp: submitting_def ask_def on_world_def on_part_def watched_click_def seen_by_def split: prod.splits sum.splits)

lemma quiet_click: "triple (quiet n) (ask (watched_click br loc)) (\<lambda>_. quiet (Suc n))"
  by (rule tripleI) (auto simp: quiet_def ask_def on_world_def on_part_def watched_click_def seen_by_def split: prod.splits sum.splits if_splits)

lemma triple_keeps: "keeps I p \<Longrightarrow> triple I p (\<lambda>_. I)"
  by (simp add: keeps_triple)

lemma triple_after:
  assumes "keeps I p" "\<And>x. triple I (f x) Q" "\<And>r s. I s \<Longrightarrow> Q r s"
  shows "triple I (bnd p f) Q"
  by (rule triple_bnd [OF triple_keeps [OF assms(1)] assms(2)]) (use assms(3) in simp_all)

lemma triple_ret: "(\<And>s. I s \<Longrightarrow> Q (Ret x) s) \<Longrightarrow> triple I (ret x) Q"
  by (simp add: triple_def)

lemma triple_andthen:
  assumes "triple P p (\<lambda>_. R)" "triple R q Q" "\<And>r s. R s \<Longrightarrow> Q r s"
  shows "triple P (andthen p q) Q"
  unfolding andthen_def by (rule triple_bnd [OF assms(1,2)]) (use assms(3) in simp_all)

lemma seen_by_quiet [keeps_rules]: "keeps (seen_by (\<lambda>phase k. phase \<notin> {SUBMIT_INITIATED, SUBMIT_CONFIRMED} \<longrightarrow> k \<le> n)) p \<Longrightarrow> keeps (quiet n) p"
  by (simp add: quiet_def)

lemma click_once: "triple (quiet n) (resolve_and_click (watched_browser br) ov t cs f (ret ())) (\<lambda>_. quiet (Suc n))"
proof -
  have tail: "keeps (quiet (Suc n)) (andthen (attempt (ask (br_wait_idle (watched_browser br))) ()) (ret x))" for x :: observed_control
    unfolding watched_calls by (intro keeps_rules)
  have up: "quiet n s \<Longrightarrow> quiet (Suc n) s" for s :: "('w \<times> nat) system" by (erule quiet_mono) simp
  show ?thesis
    unfolding resolve_and_click_def andthen_simps(2) watched_calls
    by (intro triple_after triple_andthen [OF quiet_click] tail [THEN triple_keeps, unfolded watched_calls];
        (assumption | erule up | intro seen_by_quiet keeps_rules))
qed

lemma submit_marks: "keeps (quiet n) (resolve_and_click (watched_browser br) ov t cs f (mark_submit_initiated en c))"
proof -
  have marked: "triple (quiet n) (mark_submit_initiated en c) (\<lambda>_. submitting)"
    by (rule tripleI) (auto simp: mark_submit_initiated_def andthen_def bnd_def maybe_crash_def submitting_def seen_by_def
        split: if_splits option.splits)
  have tail: "keeps submitting (andthen (ask (watched_click br loc)) (andthen (attempt (ask (lifted (br_wait_idle br))) ()) (ret x)))"
    for loc and x :: observed_control
    by (intro keeps_andthen keeps_submitting_click; unfold submitting_def; intro keeps_rules)
  have last: "keeps (quiet n) (andthen (mark_submit_initiated en c) (andthen (ask (watched_click br loc))
      (andthen (attempt (ask (lifted (br_wait_idle br))) ()) (ret x))))" for loc and x :: observed_control
    unfolding keeps_triple
    by (rule triple_andthen [OF marked triple_weaken [OF triple_keeps [OF tail]]]) (simp_all add: submitting_quiet)
  show ?thesis
    unfolding resolve_and_click_def watched_calls
    by (intro keeps_bnd last) (intro seen_by_quiet keeps_rules)+
qed

fun clicks_of :: "step_definition list \<Rightarrow> nat" where
  "clicks_of [] = 0"
| "clicks_of (s # ss) = (if st_action s = CLICK then Suc (clicks_of ss) else clicks_of ss)"

lemma perform_quiet:
  "triple (quiet n) (perform_step (watched en) c inputs s) (\<lambda>_. quiet (n + clicks_of [s]))"
proof (cases "st_action s = CLICK")
  case True
  then show ?thesis
    unfolding perform_step_def watched_env
    by simp (rule triple_andthen [OF click_once triple_keeps]; simp add: keeps_Pair keeps_pure)
next
  case False
  have confirm: "keeps (quiet n) (change (\<lambda>x. x\<lparr>sy_phase := SUBMIT_CONFIRMED\<rparr>))"
    by (rule keeps_change) (simp add: quiet_def seen_by_def)
  have "keeps (quiet n) (perform_step (watched en) c inputs s)"
    using False unfolding perform_step_def watched_env
    by (cases "st_action s"; simp only: step_action.simps)
      (intro keeps_andthen keeps_bnd submit_marks confirm keeps_maybe_crash keeps_pure keeps_if;
        (intro seen_by_quiet keeps_rules)?)+
  then show ?thesis using False by (simp add: triple_keeps)
qed

lemma finish_phase:
  "finish_replay en c inputs k x = (Ret r, y) \<Longrightarrow> o_phase r = sy_phase y \<or> o_phase r = AFTER_SUBMIT_UNKNOWN"
  by (auto simp: finish_replay_def bnd_eq_Ret andthen_eq_Ret Let_def replay_success_def gets_def split: if_splits)

lemma replay_step_early:
  "replay_step en lv c inputs s x = (Ret (Some r), y) \<Longrightarrow> r = member_not_found inputs"
  by (auto simp: replay_step_def bnd_eq_Ret andthen_eq_Ret split: if_splits option.splits)

lemma replay_early:
  "for_return (replay_step en lv c inputs) ss x = (Ret (Some r), y) \<Longrightarrow> r = member_not_found inputs"
proof (induction ss arbitrary: x)
  case (Cons s ss)
  then show ?case by (auto simp: bnd_eq_Ret split: option.splits dest: replay_step_early)
qed simp

lemma replay_step_quiet:
  assumes lv: "\<And>check m. lv = Some check \<Longrightarrow> keeps (quiet m) check"
  shows "triple (quiet n) (replay_step (watched en) lv c inputs s) (\<lambda>_. quiet (n + clicks_of [s]))"
proof -
  have up: "quiet n x \<Longrightarrow> quiet (n + clicks_of [s]) x" for x :: "('w \<times> nat) system" by (erule quiet_mono) simp
  have step: "keeps (quiet n) (change (\<lambda>x. x\<lparr>sy_step := Some (st_id s)\<rparr>))"
    by (intro seen_by_quiet keeps_change) simp
  have check: "keeps (quiet n) (case lv of None \<Rightarrow> ret True | Some check \<Rightarrow> check)"
    using lv by (cases lv) (simp_all add: keeps_pure keeps_Pair)
  have last: "triple (quiet n) (andthen (perform_step (watched en) c inputs s) (ret (None :: execution_outcome option)))
      (\<lambda>_. quiet (n + clicks_of [s]))"
    by (rule triple_andthen [OF perform_quiet triple_keeps]) (simp_all only: keeps_pure)
  have early: "triple (quiet n) (ret r) (\<lambda>_. quiet (n + clicks_of [s]))" for r :: "execution_outcome option"
    by (rule triple_ret) (erule up)
  have branch: "triple (quiet n) (if b then ret (Some (member_not_found inputs)) else p) (\<lambda>_. quiet (n + clicks_of [s]))"
    if "triple (quiet n) p (\<lambda>_. quiet (n + clicks_of [s]))" for b p
    using that early by (cases b) (simp_all only: if_True if_False)
  note after = triple_after [where Q = "\<lambda>_. quiet (n + clicks_of [s])" and I = "quiet n"]
  note after' = after [where f = "\<lambda>_. q" for q, folded andthen_def]
  show ?thesis
    unfolding replay_step_def watched_env watched_calls
    by (intro after after' branch last step check up; (assumption | intro seen_by_quiet keeps_rules))
qed

lemma loop_quiet:
  assumes lv: "\<And>check m. lv = Some check \<Longrightarrow> keeps (quiet m) check"
  shows "triple (quiet n) (for_return (replay_step (watched en) lv c inputs) ss) (\<lambda>_. quiet (n + clicks_of ss))"
proof (induction ss arbitrary: n)
  case Nil
  show ?case by (rule tripleI) simp
next
  case (Cons s ss)
  have sum: "n + clicks_of (s # ss) = (n + clicks_of [s]) + clicks_of ss" by simp
  have up: "quiet (n + clicks_of [s]) x \<Longrightarrow> quiet (n + clicks_of (s # ss)) x" for x :: "('w \<times> nat) system"
    unfolding sum by (erule quiet_mono) simp
  have branch: "triple (quiet (n + clicks_of [s])) (case r of Some a \<Rightarrow> ret (Some a) | None \<Rightarrow> for_return (replay_step (watched en) lv c inputs) ss)
      (\<lambda>_. quiet (n + clicks_of (s # ss)))" for r
  proof (cases r)
    case None
    then show ?thesis using Cons.IH [of "n + clicks_of [s]"] unfolding sum by (simp only: option.case)
  next
    case (Some a)
    show ?thesis unfolding Some option.case by (rule triple_ret) (erule up)
  qed
  show ?case
    unfolding for_return.simps by (rule triple_bnd [OF replay_step_quiet [OF lv] branch]) (assumption | erule up)+
qed

section \<open>The phase of an outcome\<close>

text \<open>Runs from a state with \<open>n\<close> clicks before any submit, and what their result may say.\<close>

definition honest :: "nat \<Rightarrow> execution_outcome run \<Rightarrow> ('w \<times> nat) system \<Rightarrow> bool" where
  "honest n r y \<longleftrightarrow> quiet n y \<and> (\<forall>oc. r = Ret oc \<longrightarrow> o_phase oc = BEFORE_SUBMIT \<longrightarrow> o_code oc \<noteq> MEMBER_NOT_FOUND \<longrightarrow> acts y \<le> n)"

definition fresh :: "nat \<Rightarrow> ('w \<times> nat) system \<Rightarrow> bool" where
  "fresh n = seen_by (\<lambda>phase k. phase = BEFORE_SUBMIT \<and> k \<le> n)"

lemma fresh_quiet: "fresh n x \<Longrightarrow> quiet n x"
  by (auto simp: fresh_def quiet_def seen_by_def)

lemma body_honest:
  assumes lv: "\<And>check m. lv = Some check \<Longrightarrow> keeps (quiet m) check"
  shows "triple (fresh n) (execute_body (watched en) lv c inputs k) (honest (n + clicks_of (cap_steps c)))"
proof -
  let ?N = "n + clicks_of (cap_steps c)"
  have admit: "keeps (fresh n) (admit_replay (watched en) c inputs)"
    unfolding fresh_def by (rule watched_replay.keeps_admit_replay)
  have refused: "triple (fresh n) (ret r) (honest ?N)" for r
    by (rule triple_ret) (auto simp: honest_def fresh_def quiet_def seen_by_def)
  have finish: "triple (quiet ?N) (finish_replay (watched en) c inputs k) (honest ?N)"
  proof (rule tripleI)
    fix x r y assume x: "quiet ?N x" and run: "finish_replay (watched en) c inputs k x = (r, y)"
    have "keeps (quiet ?N) (finish_replay (watched en) c inputs k)" by (rule seen_by_quiet [OF watched_replay.keeps_finish])
    then have y: "quiet ?N y" using x run by (rule keepsD_run)
    moreover have "acts y \<le> ?N" if "r = Ret oc" "o_phase oc = BEFORE_SUBMIT" for oc
      using finish_phase [OF run [unfolded that(1)]] that(2) y by (auto simp: quiet_def seen_by_def)
    ultimately show "honest ?N r y" by (simp add: honest_def)
  qed
  have replay: "triple (fresh n) (bnd (for_return (replay_step (watched en) lv c inputs) (cap_steps c)) (\<lambda>early. case early of
      Some r \<Rightarrow> ret r | None \<Rightarrow> finish_replay (watched en) c inputs k)) (honest ?N)"
  proof (rule tripleI)
    fix x r y
    assume x: "fresh n x" and run: "bnd (for_return (replay_step (watched en) lv c inputs) (cap_steps c)) (\<lambda>early. case early of
      Some r \<Rightarrow> ret r | None \<Rightarrow> finish_replay (watched en) c inputs k) x = (r, y)"
    obtain e z where e: "for_return (replay_step (watched en) lv c inputs) (cap_steps c) x = (e, z)" by force
    have z: "quiet ?N z" using tripleD [OF loop_quiet [OF lv] fresh_quiet [OF x] e] .
    show "honest ?N r y"
    proof (cases e)
      case (Ret early)
      show ?thesis
      proof (cases early)
        case None
        then show ?thesis using tripleD [OF finish z] run e Ret by (simp add: bnd_def)
      next
        case (Some a)
        then show ?thesis using run e Ret z replay_early [of "watched en" lv c inputs "cap_steps c" x a z]
          by (auto simp: bnd_def honest_def member_not_found_def)
      qed
    qed (use run e z in \<open>auto simp: bnd_def honest_def\<close>)
  qed
  have "triple (fresh n) (case a of Some r \<Rightarrow> ret r | None \<Rightarrow> bnd (for_return (replay_step (watched en) lv c inputs) (cap_steps c))
      (\<lambda>early. case early of Some r \<Rightarrow> ret r | None \<Rightarrow> finish_replay (watched en) c inputs k)) (honest ?N)" for a
    using refused replay by (cases a) (simp_all only: option.case)
  moreover have "honest ?N (Raise e) t" "honest ?N Died t" if "fresh n t" for e t
    using quiet_mono [OF fresh_quiet [OF that], of ?N] by (simp_all add: honest_def)
  ultimately show ?thesis
    unfolding execute_body_def by (rule triple_bnd [OF triple_keeps [OF admit]])
qed

lemma failed_phase:
  assumes "ef_class (cap_effect c) = COMMIT"
  shows "o_phase (failed_outcome c inputs x e) = BEFORE_SUBMIT \<Longrightarrow> sy_phase x \<notin> {SUBMIT_INITIATED, SUBMIT_CONFIRMED}"
  using assms by (cases "sy_phase x"; cases e) (simp_all add: failed_at_def)

lemma replay_phase_honest:
  assumes run: "execute (watched en) lv c inputs x = (Ret oc, y)" and commit: "ef_class (cap_effect c) = COMMIT"
    and phase: "o_phase oc = BEFORE_SUBMIT" and code: "o_code oc \<noteq> MEMBER_NOT_FOUND"
    and lv: "\<And>check m. lv = Some check \<Longrightarrow> keeps (quiet m) check"
  shows "acts y \<le> acts x + clicks_of (cap_steps c)"
proof -
  let ?x = "x\<lparr>sy_step := None, sy_phase := BEFORE_SUBMIT\<rparr>" and ?N = "acts x + clicks_of (cap_steps c)"
  obtain r z where body: "execute_body (watched en) lv c inputs (sy_llm_calls x) ?x = (r, z)" by force
  have "fresh (acts x) ?x" by (simp add: fresh_def seen_by_def)
  from tripleD [OF body_honest [OF lv] this body] have h: "honest ?N r z" .
  have r: "catch (\<lambda>_. True) (execute_body (watched en) lv c inputs (sy_llm_calls x)) (\<lambda>e. gets (\<lambda>x. failed_outcome c inputs x e)) ?x
      = (Ret oc, y)" using run by (simp add: execute_def)
  show ?thesis
  proof (cases r)
    case (Ret a)
    then show ?thesis using h r body phase code by (auto simp: catch_def honest_def)
  next
    case (Raise e)
    then have "oc = failed_outcome c inputs z e" "y = z" using r body by (auto simp: catch_def gets_def)
    then show ?thesis using failed_phase [OF commit, of inputs z e] phase h by (simp add: honest_def quiet_def seen_by_def)
  next
    case Died
    then show ?thesis using r body by (simp add: catch_def)
  qed
qed

text \<open>
  C20: An outcome of the browser replay of a COMMIT that carries the phase
  \<open>BEFORE_SUBMIT\<close> has submitted nothing: the page got at most one click for each CLICK
  step and none for a SUBMIT step.  The exception is the early return on an empty member
  search, whose outcome always carries that phase.
\<close>

theorem before_submit_means_no_submit:
  assumes run: "execute (watched en) lv c inputs x = (Ret oc, y)" and commit: "ef_class (cap_effect c) = COMMIT"
    and phase: "o_phase oc = BEFORE_SUBMIT" and code: "o_code oc \<noteq> MEMBER_NOT_FOUND"
    and lv: "\<And>check m. lv = Some check \<Longrightarrow> keeps (quiet m) check"
  shows "acts y \<le> acts x + clicks_of (cap_steps c)"
  by (rule replay_phase_honest [OF assms])


section \<open>A concrete page\<close>

text \<open>A page that shows nothing but the given text.\<close>

definition sample_browser :: "string \<Rightarrow> 'w browser" where
  "sample_browser text =
     \<lparr>br_count = (\<lambda>l w. (Inr 0, w)), br_wait_visible = (\<lambda>l t w. (Inr (), w)), br_is_visible = (\<lambda>l t w. (Inr True, w)),
      br_inner_text = (\<lambda>l w. (Inr text, w)), br_text_content = (\<lambda>l w. (Inr (Some text), w)), br_tag_name = (\<lambda>l w. (Inr ''button'', w)),
      br_is_enabled = (\<lambda>l w. (Inr True, w)),
      br_control_info = (\<lambda>l w. (Inr \<lparr>ci_href = None, ci_action = None, ci_method = None, ci_submit = False\<rparr>, w)),
      br_submission = (\<lambda>l w. (Inr None, w)), br_click = (\<lambda>l w. (Inr (), w)), br_fill = (\<lambda>l t w. (Inr (), w)),
      br_goto = (\<lambda>v url w. (Inr (), w)), br_wait_idle = (\<lambda>w. (Inr (), w)), br_content = (\<lambda>w. (Inr text, w)),
      br_frames = (\<lambda>w. (Inr [Page], w)), br_route_navigation = (\<lambda>w. (Inr (), w)), br_open_inquiry = (\<lambda>w. (Inr (), w)),
      br_close_inquiry = (\<lambda>w. (Inr (), w))\<rparr>"

definition sample_env :: "string \<Rightarrow> bool env" where
  "sample_env text = \<lparr>en_target = sample_target, en_browser = sample_browser text, en_settings = default_settings,
     en_crash = \<lparr>crash_point = None, crash_capability = None\<rparr>, en_overlay = None, en_ui_checks = False\<rparr>"

definition sample_system :: "'w \<Rightarrow> 'w system" where
  "sample_system w = \<lparr>sy_db = sample_db, sy_saved = sample_db, sy_world = w, sy_phase = BEFORE_SUBMIT, sy_step = None,
     sy_drift = [], sy_llm_calls = 0\<rparr>"

definition submit_capability :: capability where
  "submit_capability = chargeback_capability\<lparr>cap_steps := [chargeback_step\<lparr>st_action := SUBMIT\<rparr>]\<rparr>"

lemma submit_capability_facts:
  "policy_evaluate submit_capability sample_inputs = Inr None" "ef_class (cap_effect submit_capability) = COMMIT"
  "cap_system submit_capability = ''processor''" "clicks_of (cap_steps submit_capability) = 0"
  "filter (\<lambda>s. \<not> supported_action (st_action s)) (cap_steps submit_capability) = []"
proof -
  have "dict_get sample_inputs ''amount'' = Some (money_val (Money False 34000))"
    by (simp add: dict_get_def sample_inputs_def)
  moreover have "dict_default sample_inputs ''currency'' (VStr ''USD'') = VStr ''USD''"
    by (simp add: dict_default_def sample_inputs_def)
  moreover have "parse_money (money_val (Money False 34000)) = Inr (Money False 34000)"
    by (rule parse_money_val) (simp add: max_money_cents_def)
  ultimately show "policy_evaluate submit_capability sample_inputs = Inr None"
    by (simp add: policy_evaluate_def validate_policy_def check_amount_def check_currency_def check_guard_present_def
        submit_capability_def chargeback_capability_def chargeback_effect_def cents_def policy_bound_def Let_def)
  show "ef_class (cap_effect submit_capability) = COMMIT" "cap_system submit_capability = ''processor''"
    "clicks_of (cap_steps submit_capability) = 0"
    "filter (\<lambda>s. \<not> supported_action (st_action s)) (cap_steps submit_capability) = []"
    by (simp_all add: submit_capability_def chargeback_capability_def chargeback_effect_def chargeback_step_def supported_action_def)
qed

lemma expired_run:
  fixes x :: "(bool \<times> nat) system"
  defines "x \<equiv> sample_system (False, 0)"
  shows "execute (watched (sample_env ''SESSION EXPIRED'')) lv submit_capability sample_inputs x
      = (Ret (failed_outcome submit_capability sample_inputs x (SessionExpiredError ''Target system session has timed out'')), x)"
proof -
  have page: "ask (lifted (br_content (sample_browser ''SESSION EXPIRED''))) x = (Ret ''SESSION EXPIRED'', x)"
    by (simp add: ask_def on_world_def on_part_def lifted_def sample_browser_def sample_system_def x_def)
  have "admit_replay (watched (sample_env ''SESSION EXPIRED'')) submit_capability sample_inputs x
      = (Raise (SessionExpiredError ''Target system session has timed out''), x)"
    by (simp add: admit_replay_def submit_capability_facts sample_env_def bnd_run(1) [of "ask (lifted (br_content (sample_browser ''SESSION EXPIRED'')))", OF page] unless_raise_def)
  moreover have "x\<lparr>sy_step := None, sy_phase := BEFORE_SUBMIT\<rparr> = x" by (simp add: x_def sample_system_def)
  ultimately show ?thesis by (simp add: execute_def execute_body_def catch_def bnd_def)
qed

theorem before_submit_means_no_submit_witness:
  "\<exists>oc y. execute (watched (sample_env ''SESSION EXPIRED'')) None submit_capability sample_inputs (sample_system (False, 0)) = (Ret oc, y) \<and>
     o_code oc = SESSION_EXPIRED \<and> acts y \<le> 0"
  using before_submit_means_no_submit [OF expired_run [of None] submit_capability_facts(2)] expired_run [of None]
  by (simp add: failed_at_def submit_capability_facts(4) sample_system_def)

end
