(* ===== verification/HttpCommit.thy ===== *)
theory HttpCommit
  imports Surface
begin

text \<open>
  The HTTP actuation of \<open>tandem/replay/http_executor.py\<close>: the request built from the
  effect identity, the guard on the payload handed to the transport, the single post and
  the reading of its answer.  The network is the target of \<open>Inquiry\<close>.
\<close>

section \<open>The request and its guard\<close>

definition identity_fields :: "string list" where
  "identity_fields = [''institution_id'', ''procedure_id'', ''capability_id'', ''case_id'', ''member_id'', ''account_id'',
     ''currency'', ''business_reference'']"

definition require_payload_field :: "(string \<times> string) list \<Rightarrow> effect_identity \<Rightarrow> string \<Rightarrow> unit res" where
  "require_payload_field payload identity name =
     (let submitted = map_of payload name; expected = the (map_of (canonical_fields identity) name) in
      if \<not> opt_truthy submitted
      then Inl (EntityBindingMismatchError (fstr [''Request-identity guard failed closed: submitted '', name, '' evidence is missing'']))
      else if the submitted \<noteq> expected
      then Inl (EntityBindingMismatchError (fstr [''Request-identity guard failed: expected '', name, '' '', sq, expected, sq,
             '' but the request would submit '', sq, the submitted, sq]))
      else Inr ())"

definition require_payload_amount :: "(string \<times> string) list \<Rightarrow> effect_identity \<Rightarrow> unit res" where
  "require_payload_amount payload identity =
     (let submitted = map_of payload ''amount'' in
      if \<not> opt_truthy submitted
      then Inl (AmountMismatchError ''Request-identity guard failed closed: submitted amount evidence is missing'')
      else (case parse_money (VStr (the submitted)) of
          Inl e \<Rightarrow> Inl (if is_ValueError e
            then AmountMismatchError (fstr [''Request-identity guard failed: submitted amount is invalid ('', exn_text e, '')''])
            else e)
        | Inr parsed \<Rightarrow>
            if cents parsed \<noteq> cents (id_amount identity)
            then Inl (AmountMismatchError (fstr [''Request-identity guard failed: expected amount '', money_text (id_amount identity),
                   '', but the request would submit '', money_text parsed]))
            else Inr ()))"

definition verify_request_identity_guard :: "(string \<times> string) list \<Rightarrow> effect_identity \<Rightarrow> unit res" where
  "verify_request_identity_guard payload identity =
     rbind (guard_all (require_payload_field payload identity) identity_fields) (\<lambda>_. require_payload_amount payload identity)"

definition needed_input :: "dict \<Rightarrow> string \<Rightarrow> string res" where
  "needed_input inputs k = (case dict_get inputs k of None \<Rightarrow> Inl (KeyError (repr_str k)) | Some v \<Rightarrow> Inr (py_str v))"

definition build_request :: "settings \<Rightarrow> capability \<Rightarrow> dict \<Rightarrow> effect_identity \<Rightarrow> (string \<times> (string \<times> string) list) res" where
  "build_request cfg c inputs identity =
     (if cap_system c = ''processor''
      then rbind (needed_input inputs ''card_last4'') (\<lambda>card.
        Inr (processor_url cfg @ ''/chargeback/file'', canonical_fields identity @ [(''card_last4'', card),
          (''dispute_reason'', py_str (dict_default inputs ''dispute_reason'' (VStr ''Unauthorized Transaction'')))]))
      else if cap_system c = ''documents''
      then rbind (needed_input inputs ''notice_type'') (\<lambda>kind.
        rbind (needed_input inputs ''deadline_due_at'') (\<lambda>due.
        Inr (documents_url cfg @ ''/notices/send'', canonical_fields identity @ [(''notice_type'', kind), (''deadline_due_at'', due)])))
      else Inl (ValueError (fstr [''No deterministic HTTP adapter for system '', sq, cap_system c, sq])))"

section \<open>The commit\<close>

definition possibly_applied :: "string \<Rightarrow> execution_outcome" where
  "possibly_applied msg = (outcome CAT_UNCERTAIN_EFFECT POSSIBLY_APPLIED msg)\<lparr>o_phase := AFTER_SUBMIT_UNKNOWN\<rparr>"

definition hard_failure :: "outcome_code \<Rightarrow> string \<Rightarrow> execution_outcome" where
  "hard_failure co msg = outcome HARD_FAILURE co msg"

text \<open>What is done with the answer to the post.\<close>

definition read_commit_answer ::
  "'w target \<Rightarrow> settings \<Rightarrow> crash_plan \<Rightarrow> capability \<Rightarrow> dict \<Rightarrow> http_error + response \<Rightarrow> ('w, execution_outcome) prog" where
  "read_commit_answer tg cfg plan c inputs answer = (case answer of
      Inl e \<Rightarrow> ret (possibly_applied (''HTTP COMMIT transport failed: '' @ http_error_text e))
    | Inr r \<Rightarrow>
        if status_code r = 401
        then ret (outcome RECOVERABLE_FAILURE SESSION_EXPIRED (fstr [''External session expired before '', cap_id c, '' was accepted'']))
        else if 400 \<le> status_code r
        then ret (possibly_applied (fstr [''HTTP COMMIT returned '', str_nat (status_code r), '' after request dispatch'']))
        else
          andthen (maybe_crash plan ''G_AFTER_TARGET_ACCEPTS'' (Some (cap_id c))) (
          andthen (maybe_crash plan ''H_BEFORE_POSTCHECK'' (Some (cap_id c))) (
          bnd (execute_postcheck tg cfg c inputs) (\<lambda>postcheck.
          andthen (maybe_crash plan ''I_AFTER_POSTCHECK'' (Some (cap_id c)))
            (ret (postcheck\<lparr>o_phase := if is_success postcheck then SUBMIT_CONFIRMED else AFTER_SUBMIT_UNKNOWN\<rparr>))))))"

definition dispatch_commit ::
  "'w target \<Rightarrow> settings \<Rightarrow> crash_plan \<Rightarrow> capability \<Rightarrow> dict \<Rightarrow> string \<Rightarrow> (string \<times> string) list \<Rightarrow> ('w, execution_outcome) prog" where
  "dispatch_commit tg cfg plan c inputs url payload =
     andthen (maybe_crash plan ''E_AFTER_GUARD'' (Some (cap_id c))) (
     andthen (maybe_crash plan ''F_BEFORE_SUBMIT'' (Some (cap_id c))) (
     bnd (post_form tg url payload (tandem_admin_token cfg)) (read_commit_answer tg cfg plan c inputs)))"

fun is_request_error :: "exn \<Rightarrow> bool" where
  "is_request_error (KeyError k) = True"
| "is_request_error (ValueError m) = True"
| "is_request_error _ = False"

fun refused_request :: "exn \<Rightarrow> execution_outcome res" where
  "refused_request (EntityBindingMismatchError m) = Inr (hard_failure ENTITY_BINDING_MISMATCH m)"
| "refused_request (AmountMismatchError m) = Inr (hard_failure AMOUNT_MISMATCH m)"
| "refused_request e = Inl e"

definition guarded_actuation :: "capability \<Rightarrow> bool" where
  "guarded_actuation c \<longleftrightarrow> (case (filter (\<lambda>s. st_action s = HTTP_POST) (cap_steps c), cap_guard c) of
     ([s], Some g) \<Rightarrow> st_guard_ref s = Some (g_id g) | _ \<Rightarrow> False)"

definition execute_http_commit ::
  "'w target \<Rightarrow> settings \<Rightarrow> crash_plan \<Rightarrow> capability \<Rightarrow> dict \<Rightarrow> ('w, execution_outcome) prog" where
  "execute_http_commit tg cfg plan c inputs =
     (if \<not> guarded_actuation c
      then ret (hard_failure POLICY_VIOLATION ''HTTP COMMIT lacks one structurally guarded actuation'')
      else
        bnd (of_res (identity_from_capability c inputs)) (\<lambda>identity.
        case build_request cfg c inputs identity of
          Inl e \<Rightarrow> if is_request_error e
            then ret (hard_failure POLICY_VIOLATION (''HTTP COMMIT request invalid: '' @ exn_text e)) else fail e
        | Inr (url, payload) \<Rightarrow>
            (case verify_request_identity_guard payload identity of
               Inl e \<Rightarrow> of_res (refused_request e)
             | Inr _ \<Rightarrow> dispatch_commit tg cfg plan c inputs url payload)))"

section \<open>The guard on the payload\<close>

lemma canonical_distinct: "distinct (map fst (canonical_fields i))"
  by (simp add: canonical_fields_def)

lemma build_request_ok:
  assumes "build_request cfg c inputs i = Inr (url, payload)"
  shows "(\<exists>extra. payload = canonical_fields i @ extra) \<and>
     url = (if cap_system c = ''processor'' then processor_url cfg @ ''/chargeback/file'' else documents_url cfg @ ''/notices/send'')"
  using assms by (auto simp: build_request_def rbind_eq_Inr split: if_splits)

lemma payload_binds:
  assumes "build_request cfg c inputs i = Inr (url, payload)"
  shows "\<forall>(k, v) \<in> set (canonical_fields i). map_of payload k = Some v"
proof -
  obtain extra where "payload = canonical_fields i @ extra" using build_request_ok [OF assms] by blast
  then show ?thesis using canonical_distinct [of i] by (auto simp: map_add_Some_iff)
qed

lemma built_request_passes:
  assumes "identity_from_capability c inputs = Inr i" and "build_request cfg c inputs i = Inr (url, payload)"
  shows "verify_request_identity_guard payload i = Inr ()"
proof -
  note whole = identity_complete [OF assms(1)]
  have amount: "money_text (id_amount i) \<noteq> []" by (simp add: money_text_def)
  have field: "require_payload_field payload i name = Inr ()" if "name \<in> set identity_fields" for name
  proof -
    have "name \<in> fst ` set (canonical_fields i)"
      using that by (auto simp: identity_fields_def canonical_fields_def)
    then obtain v where v: "(name, v) \<in> set (canonical_fields i)" by auto
    have "v \<noteq> []" using v whole amount by (auto simp: canonical_fields_def)
    moreover have "map_of payload name = Some v" "map_of (canonical_fields i) name = Some v"
      using v payload_binds [OF assms(2)] canonical_distinct by auto
    ultimately show ?thesis by (simp add: require_payload_field_def opt_truthy_def)
  qed
  have "parse_money (VStr (money_text (id_amount i))) = Inr (id_amount i)"
    using whole by (simp add: parse_money_money_text)
  moreover have "map_of payload ''amount'' = Some (money_text (id_amount i))"
    using payload_binds [OF assms(2)] by (simp add: canonical_fields_def)
  ultimately have "require_payload_amount payload i = Inr ()"
    using amount by (simp add: require_payload_amount_def opt_truthy_def)
  then show ?thesis
    using field by (simp add: verify_request_identity_guard_def guard_all_ok [THEN iffD2])
qed

text \<open>
  The guard never refuses a request that the adapter built: the payload copies the
  canonical identity, so a refusal would mean that the construction itself was changed.
\<close>

theorem request_guard_passes:
  assumes "identity_from_capability c inputs = Inr i" and "build_request cfg c inputs i = Inr (url, payload)"
  shows "verify_request_identity_guard payload i = Inr ()"
  by (rule built_request_passes [OF assms])

section \<open>At most one post\<close>

lemma maybe_crash_cases: "maybe_crash plan point c s = (Ret (), s) \<or> maybe_crash plan point c s = (Died, s)"
  by (auto simp: maybe_crash_def split: option.splits)

lemma crash_then_cases:
  "andthen (maybe_crash plan point c) p s = p s \<or> andthen (maybe_crash plan point c) p s = (Died, s)"
  using maybe_crash_cases [of plan point c s] by (auto simp: andthen_def bnd_def)

lemma crash_twice_cases:
  "andthen (maybe_crash plan p c) (andthen (maybe_crash plan q c) f) s = f s \<or>
   andthen (maybe_crash plan p c) (andthen (maybe_crash plan q c) f) s = (Died, s)"
  using crash_then_cases [of plan p c "andthen (maybe_crash plan q c) f" s] crash_then_cases [of plan q c f s] by auto

lemma answer_asks:
  assumes "read_commit_answer (traced tg) cfg plan c inputs answer (w, log) = (r, (v, log'))"
  shows "asks 1 log log' \<and> ((\<exists>oc. r = Ret oc \<and> o_phase oc = BEFORE_SUBMIT) \<longrightarrow>
     log' = log \<and> (\<exists>resp. answer = Inr resp \<and> status_code resp = 401))"
proof -
  define check where "check = bnd (execute_postcheck (traced tg) cfg c inputs) (\<lambda>postcheck.
          andthen (maybe_crash plan ''I_AFTER_POSTCHECK'' (Some (cap_id c)))
            (ret (postcheck\<lparr>o_phase := if is_success postcheck then SUBMIT_CONFIRMED else AFTER_SUBMIT_UNKNOWN\<rparr>)))"
  have check: "asks 1 log log' \<and> (\<forall>oc. r = Ret oc \<longrightarrow> o_phase oc \<noteq> BEFORE_SUBMIT)"
    if "check (w, log) = (r, (v, log'))" for r v log'
  proof -
    obtain x u log1 where x: "execute_postcheck (traced tg) cfg c inputs (w, log) = (x, (u, log1))"
      by (cases "execute_postcheck (traced tg) cfg c inputs (w, log)") auto
    show ?thesis
    proof (cases x)
      case (Ret p)
      then show ?thesis
        using that x postcheck_asks [OF x] crash_then_cases [of plan "''I_AFTER_POSTCHECK''" "Some (cap_id c)"
          "ret (p\<lparr>o_phase := if is_success p then SUBMIT_CONFIRMED else AFTER_SUBMIT_UNKNOWN\<rparr>)" "(u, log1)"]
        by (auto simp: check_def bnd_def split: if_splits)
    qed (use that x postcheck_asks [OF x] in \<open>auto simp: check_def bnd_def\<close>)
  qed
  show ?thesis
  proof (cases "\<exists>resp. answer = Inr resp \<and> status_code resp < 400")
    case True
    then obtain resp where resp: "answer = Inr resp" "status_code resp < 400" by blast
    then have "read_commit_answer (traced tg) cfg plan c inputs answer =
        andthen (maybe_crash plan ''G_AFTER_TARGET_ACCEPTS'' (Some (cap_id c))) (
        andthen (maybe_crash plan ''H_BEFORE_POSTCHECK'' (Some (cap_id c))) check)"
      by (simp add: read_commit_answer_def check_def)
    then have "(r, (v, log')) = check (w, log) \<or> (r, (v, log')) = (Died, (w, log))"
      using assms crash_twice_cases [of plan "''G_AFTER_TARGET_ACCEPTS''" "Some (cap_id c)" "''H_BEFORE_POSTCHECK''" check "(w, log)"]
      by auto
    then show ?thesis using check [of r v log'] by auto
  next
    case False
    show ?thesis
    proof (cases answer)
      case (Inr resp)
      then have "400 \<le> status_code resp" using False by simp
      then have "read_commit_answer (traced tg) cfg plan c inputs answer =
          ret (if status_code resp = 401
            then outcome RECOVERABLE_FAILURE SESSION_EXPIRED (fstr [''External session expired before '', cap_id c, '' was accepted''])
            else possibly_applied (fstr [''HTTP COMMIT returned '', str_nat (status_code resp), '' after request dispatch'']))"
        by (simp add: Inr read_commit_answer_def)
      then show ?thesis using assms Inr by (cases "status_code resp = 401") (auto simp: possibly_applied_def)
    next
      case (Inl e)
      then show ?thesis using assms by (auto simp: read_commit_answer_def possibly_applied_def)
    qed
  qed
qed

lemma dispatch_log:
  assumes "dispatch_commit (traced tg) cfg plan c inputs url payload (w, log) = (r, (v, log'))"
  shows "(log' = log \<and> r = Died) \<or> (\<exists>rest. log' = log @ Post url payload # rest \<and> asks 1 [] rest \<and>
     ((\<exists>oc. r = Ret oc \<and> o_phase oc = BEFORE_SUBMIT) \<longrightarrow> rest = [] \<and>
       (\<exists>resp u. http_post tg url payload (tandem_admin_token cfg) w = (Inr resp, u) \<and> status_code resp = 401)))"
proof -
  obtain answer u where post: "http_post tg url payload (tandem_admin_token cfg) w = (answer, u)" by force
  let ?read = "read_commit_answer (traced tg) cfg plan c inputs"
  have "bnd (post_form (traced tg) url payload (tandem_admin_token cfg)) ?read (w, log) = ?read answer (u, log @ [Post url payload])"
    by (rule bnd_run(1)) (simp add: post)
  then have "dispatch_commit (traced tg) cfg plan c inputs url payload (w, log) = ?read answer (u, log @ [Post url payload])
      \<or> dispatch_commit (traced tg) cfg plan c inputs url payload (w, log) = (Died, (w, log))"
    unfolding dispatch_commit_def using crash_twice_cases by metis
  then show ?thesis
  proof
    assume "dispatch_commit (traced tg) cfg plan c inputs url payload (w, log) = ?read answer (u, log @ [Post url payload])"
    then have run: "?read answer (u, log @ [Post url payload]) = (r, (v, log'))" using assms by simp
    then show ?thesis using answer_asks [OF run] post by (fastforce simp: asks_def)
  qed (use assms in auto)
qed

lemma commit_cases:
  "(\<exists>i url payload. identity_from_capability c inputs = Inr i \<and> build_request cfg c inputs i = Inr (url, payload) \<and>
      execute_http_commit tg cfg plan c inputs = dispatch_commit tg cfg plan c inputs url payload) \<or>
   (\<exists>e. execute_http_commit tg cfg plan c inputs = fail e) \<or>
   (\<exists>m. execute_http_commit tg cfg plan c inputs = ret (hard_failure POLICY_VIOLATION m))"
proof (cases "guarded_actuation c")
  case True
  show ?thesis
  proof (cases "identity_from_capability c inputs")
    case (Inr i)
    show ?thesis
    proof (cases "build_request cfg c inputs i")
      case (Inr req)
      obtain url payload where req: "req = (url, payload)" by force
      show ?thesis
        using True \<open>identity_from_capability c inputs = Inr i\<close> Inr req built_request_passes [of c inputs i cfg url payload]
        by (auto simp: execute_http_commit_def)
    qed (use True Inr in \<open>auto simp: execute_http_commit_def\<close>)
  qed (use True in \<open>auto simp: execute_http_commit_def\<close>)
qed (auto simp: execute_http_commit_def)

text \<open>
  C16: One run of the HTTP actuation posts at most once, to the route of the capability's
  system, with a payload that carries every field of the effect identity of the inputs;
  afterwards it makes at most one read-only inquiry.
\<close>

theorem commit_posts_once:
  assumes "execute_http_commit (traced tg) cfg plan c inputs (w, log) = (r, (v, log'))"
  shows "log' = log \<or> (\<exists>i url payload rest. log' = log @ Post url payload # rest \<and> asks 1 [] rest \<and>
     identity_from_capability c inputs = Inr i \<and> (\<forall>(k, v) \<in> set (canonical_fields i). map_of payload k = Some v) \<and>
     url = (if cap_system c = ''processor'' then processor_url cfg @ ''/chargeback/file'' else documents_url cfg @ ''/notices/send''))"
  using commit_cases [of c inputs cfg "traced tg" plan]
proof (elim disjE exE conjE)
  fix i url payload
  assume i: "identity_from_capability c inputs = Inr i" "build_request cfg c inputs i = Inr (url, payload)"
    and run: "execute_http_commit (traced tg) cfg plan c inputs = dispatch_commit (traced tg) cfg plan c inputs url payload"
  show ?thesis
    using dispatch_log [OF assms [unfolded run]] i payload_binds [OF i(2)] build_request_ok [OF i(2)] by blast
qed (use assms in simp_all)

text \<open>An outcome with the phase \<open>BEFORE_SUBMIT\<close> is honest: nothing was posted, or the
  target itself refused the one post with status 401.
\<close>

lemma commit_log_honest:
  assumes "execute_http_commit (traced tg) cfg plan c inputs (w, log) = (Ret oc, (v, log'))" and "o_phase oc = BEFORE_SUBMIT"
  shows "log' = log \<or> (\<exists>url payload resp u. log' = log @ [Post url payload] \<and>
     http_post tg url payload (tandem_admin_token cfg) w = (Inr resp, u) \<and> status_code resp = 401)"
  using commit_cases [of c inputs cfg "traced tg" plan]
proof (elim disjE exE conjE)
  fix i url payload
  assume run: "execute_http_commit (traced tg) cfg plan c inputs = dispatch_commit (traced tg) cfg plan c inputs url payload"
  show ?thesis using dispatch_log [OF assms(1) [unfolded run]] assms(2) by blast
qed (use assms in simp_all)

text \<open>What an outcome says: the target confirmed, or nothing is known, or nothing was submitted.\<close>

lemma answer_outcome:
  assumes "read_commit_answer tg cfg plan c inputs answer w = (Ret oc, v)"
  shows "o_phase oc = AFTER_SUBMIT_UNKNOWN \<or> (o_phase oc = BEFORE_SUBMIT \<and> \<not> is_success oc) \<or>
     (is_success oc \<and> o_phase oc = SUBMIT_CONFIRMED \<and> (\<exists>url u answer. http_get tg url u = (answer, v) \<and> confirms c inputs answer))"
proof (cases answer)
  case (Inr resp)
  show ?thesis
  proof (cases "400 \<le> status_code resp")
    case False
    then obtain p u where "execute_postcheck tg cfg c inputs u = (Ret p, v)"
      "oc = p\<lparr>o_phase := if is_success p then SUBMIT_CONFIRMED else AFTER_SUBMIT_UNKNOWN\<rparr>"
      using assms Inr by (auto simp: read_commit_answer_def bnd_eq_Ret andthen_eq_Ret maybe_crash_def split: if_splits option.splits)
    then obtain p u where p: "execute_postcheck tg cfg c inputs u = (Ret p, v)"
      and oc: "oc = p\<lparr>o_phase := if is_success p then SUBMIT_CONFIRMED else AFTER_SUBMIT_UNKNOWN\<rparr>" by blast
    show ?thesis
    proof (cases "is_success p")
      case True
      then have "is_success oc" "o_phase oc = SUBMIT_CONFIRMED" by (simp_all add: oc is_success_def)
      then show ?thesis using postcheck_evidence [OF p] True by blast
    qed (simp add: oc)
  qed (use assms Inr in \<open>auto simp: read_commit_answer_def possibly_applied_def is_success_def split: if_splits\<close>)
qed (use assms in \<open>auto simp: read_commit_answer_def possibly_applied_def\<close>)

lemma commit_outcome:
  assumes "execute_http_commit tg cfg plan c inputs w = (Ret oc, v)"
  shows "o_phase oc = AFTER_SUBMIT_UNKNOWN \<or> (o_phase oc = BEFORE_SUBMIT \<and> \<not> is_success oc) \<or>
     (is_success oc \<and> o_phase oc = SUBMIT_CONFIRMED \<and> (\<exists>url u answer. http_get tg url u = (answer, v) \<and> confirms c inputs answer))"
  using commit_cases [of c inputs cfg tg plan]
proof (elim disjE exE conjE)
  fix i url payload
  assume "execute_http_commit tg cfg plan c inputs = dispatch_commit tg cfg plan c inputs url payload"
  then obtain answer u where "read_commit_answer tg cfg plan c inputs answer u = (Ret oc, v)"
    using assms by (auto simp: dispatch_commit_def bnd_eq_Ret andthen_eq_Ret)
  then show ?thesis by (rule answer_outcome)
qed (use assms in \<open>auto simp: hard_failure_def is_success_def\<close>)

section \<open>A concrete chargeback\<close>

definition filing_inputs :: dict where
  "filing_inputs = sample_inputs @ [(''card_last4'', VStr ''4242'')]"

text \<open>Further inputs do not disturb an identity that the templates already determine.\<close>

lemma replace_absent: "\<not> contains old s \<Longrightarrow> replace_all old new s = s"
proof (induction old new s rule: replace_all.induct)
  case (1 old new s)
  show ?case
  proof (cases "old = [] \<or> s = []")
    case False
    then obtain x xs where s: "s = x # xs" by (cases s) auto
    then have "\<not> starts_with old s" "\<not> contains old xs" using 1(3) by auto
    then show ?thesis using 1(2) False s by (subst replace_all.simps) simp
  qed (subst replace_all.simps, auto)
qed

lemma contains_prefix: "contains (a @ b) s \<Longrightarrow> contains a s"
  by (fastforce simp: contains_iff)

lemma render_resolved: "\<not> contains ''{{'' s \<Longrightarrow> render_inputs s extra = s"
proof (induction extra arbitrary: s)
  case (Cons kv extra)
  have "\<not> contains (input_placeholder k) s" for k
    using Cons.prems contains_prefix [of "''{{''" "''input.'' @ k @ ''}}''" s] by (auto simp: input_placeholder_def)
  then show ?case using Cons by (cases kv) (simp add: replace_absent)
qed simp

lemma render_append: "render_inputs s (d @ extra) = render_inputs (render_inputs s d) extra"
  by (induction s d rule: render_inputs.induct) simp_all

lemma render_identity_extends: "render_identity s d = Inr v \<Longrightarrow> render_identity s (d @ extra) = Inr v"
  by (auto simp: render_identity_def Let_def render_append render_resolved split: if_splits)

lemma identity_extends:
  assumes "identity_from_capability c d = Inr i"
  shows "identity_from_capability c (d @ extra) = Inr i"
proof -
  obtain spec where spec: "ef_identity (cap_effect c) = Some spec"
    using assms by (auto simp: identity_from_capability_def split: option.splits)
  obtain inst proc cid cap mem acc amt n cur ref where
    r: "render_identity (is_institution_id spec) d = Inr inst" "render_identity (is_procedure_id spec) d = Inr proc"
       "render_identity (is_case_id spec) d = Inr cid" "render_identity (is_capability_id spec) d = Inr cap"
       "render_identity (is_member_id spec) d = Inr mem" "render_identity (is_account_id spec) d = Inr acc"
       "render_identity (is_amount spec) d = Inr amt" "render_identity (is_currency spec) d = Inr cur"
       "render_identity (is_business_reference spec) d = Inr ref"
    and m: "decimal_of_text amt = Inr n" "make_identity inst proc cid cap mem acc (VDec n) cur ref = Inr i"
    using assms by (auto simp: identity_from_capability_def spec rbind_eq_Inr)
  show ?thesis
    using r [THEN render_identity_extends [where extra = extra]] m by (simp add: identity_from_capability_def spec)
qed

lemma filing_identity: "identity_from_capability chargeback_capability filing_inputs = Inr sample_identity"
  unfolding filing_inputs_def by (rule identity_extends [OF sample_identity_built])

lemma filing_request: "build_request default_settings chargeback_capability filing_inputs sample_identity
    = Inr (''http://127.0.0.1:8003/chargeback/file'', canonical_fields sample_identity @
        [(''card_last4'', ''4242''), (''dispute_reason'', ''Unauthorized Transaction'')])"
  by (simp add: build_request_def chargeback_capability_def needed_input_def filing_inputs_def sample_inputs_def
      dict_get_def dict_default_def sample_url)

theorem request_guard_passes_witness:
  "verify_request_identity_guard (canonical_fields sample_identity @
     [(''card_last4'', ''4242''), (''dispute_reason'', ''Unauthorized Transaction'')]) sample_identity = Inr ()"
  by (rule request_guard_passes [OF filing_identity filing_request])

text \<open>A run that dies right after the target accepted.\<close>

definition crash_after_accept :: crash_plan where
  "crash_after_accept = \<lparr>crash_point = Some ''G_AFTER_TARGET_ACCEPTS'', crash_capability = None\<rparr>"

lemma filing_guarded: "guarded_actuation chargeback_capability"
  by (simp add: guarded_actuation_def chargeback_capability_def chargeback_step_def chargeback_guard_def)

lemma filing_run: "execute_http_commit tg default_settings plan chargeback_capability filing_inputs =
   dispatch_commit tg default_settings plan chargeback_capability filing_inputs ''http://127.0.0.1:8003/chargeback/file''
     (canonical_fields sample_identity @ [(''card_last4'', ''4242''), (''dispute_reason'', ''Unauthorized Transaction'')])"
  by (simp add: execute_http_commit_def filing_guarded filing_identity filing_request
      built_request_passes [OF filing_identity filing_request])

lemma crash_after_accept_points [simp]:
  "maybe_crash crash_after_accept ''E_AFTER_GUARD'' c = ret ()" "maybe_crash crash_after_accept ''F_BEFORE_SUBMIT'' c = ret ()"
  "maybe_crash crash_after_accept ''G_AFTER_TARGET_ACCEPTS'' c = die"
  by (simp_all add: maybe_crash_def crash_after_accept_def)

lemma traced_post: "post_form (traced tg) url d t (w, log) = (case http_post tg url d t w of (r, v) \<Rightarrow> (Ret r, (v, log @ [Post url d])))"
  by (simp add: post_form_def traced_def split: prod.splits)

theorem commit_posts_once_witness:
  "\<exists>log'. execute_http_commit (traced sample_target) default_settings crash_after_accept chargeback_capability filing_inputs (False, [])
      = (Died, (True, log')) \<and> length (filter is_post log') = 1"
proof -
  have "\<exists>log'. execute_http_commit (traced sample_target) default_settings crash_after_accept chargeback_capability
      filing_inputs (False, []) = (Died, (True, log')) \<and> log' \<noteq> []"
    by (simp add: filing_run dispatch_commit_def bnd_def traced_post sample_target_def read_commit_answer_def sample_answer_def
        andthen_def)
  then obtain log' where run: "execute_http_commit (traced sample_target) default_settings crash_after_accept chargeback_capability
      filing_inputs (False, []) = (Died, (True, log'))" and len: "log' \<noteq> []" by blast
  from commit_posts_once [OF run] len obtain url payload rest where "log' = Post url payload # rest" "asks 1 [] rest" by auto
  moreover from this have "filter is_post rest = []" by (simp add: asks_def list_all_iff)
  ultimately show ?thesis using run by simp
qed

end
