(* ===== verification/Engine.thy ===== *)
theory Engine
  imports Submits HttpCommit Claims Leases
begin

text \<open>
  The effect engine of \<open>tandem/replay/engine.py\<close>: the admission of an effect (identity,
  policy, durable claim, precheck, lease), its actuation through the browser or HTTP, the
  reconciliation of what may have happened, and the fenced settlement.  A step that may
  return from the method early yields \<open>Inl\<close> of the outcome.
\<close>

section \<open>Settlement of a claim\<close>

definition settle_claim_status :: "execution_outcome \<Rightarrow> claim_status" where
  "settle_claim_status oc =
     (if is_success oc then APPLIED
      else if o_category oc = CAT_UNCERTAIN_EFFECT then UNCERTAIN
      else if o_code oc = CONFIRMED_NOT_APPLIED then FAILED_RETRYABLE
      else if o_phase oc \<noteq> BEFORE_SUBMIT then UNCERTAIN
      else if o_category oc \<in> {RECOVERABLE_FAILURE, CAT_NEEDS_HUMAN} then FAILED_RETRYABLE
      else FAILED_PERMANENT)"

section \<open>The engine\<close>

record 'w engine =
  eg_env :: "'w env"
  eg_ambient :: ambient
  eg_owner :: string
  eg_session :: "string option"

definition eg_crash :: "'w engine \<Rightarrow> string \<Rightarrow> capability \<Rightarrow> ('w system, unit) prog" where
  "eg_crash eg point c = maybe_crash (en_crash (eg_env eg)) point (Some (cap_id c))"

definition eg_event :: "'w engine \<Rightarrow> capability \<Rightarrow> string \<Rightarrow> string \<Rightarrow> dict \<Rightarrow> ('w system, unit) prog" where
  "eg_event eg c case_id event_type payload =
     andthen (on_db (record_event (eg_ambient eg) case_id event_type (cap_id c) ''AUTOMATION'' (Some payload))) (ret ())"

definition precheck :: "'w engine \<Rightarrow> capability \<Rightarrow> dict \<Rightarrow> ('w system, execution_outcome) prog" where
  "precheck eg c inputs = on_world (execute_precheck (en_target (eg_env eg)) (en_settings (eg_env eg)) c inputs)"

definition reconcile :: "'w engine \<Rightarrow> capability \<Rightarrow> dict \<Rightarrow> string \<Rightarrow> ('w system, execution_outcome) prog" where
  "reconcile eg c inputs msg =
     on_world (reconcile_commit_execution (en_target (eg_env eg)) (en_settings (eg_env eg)) c inputs msg)"

definition move_claim ::
  "'w engine \<Rightarrow> string \<Rightarrow> effect_claim \<Rightarrow> claim_status \<Rightarrow> claim_status \<Rightarrow> ('w system, bool) prog" where
  "move_claim eg key claim from to =
     on_db (transition_effect_claim (eg_ambient eg) key (eg_owner eg) (ec_fencing_token claim) [from] to None)"

section \<open>Inputs and identity\<close>

definition prepare_inputs :: "'w engine \<Rightarrow> capability \<Rightarrow> dict \<Rightarrow> money \<Rightarrow> dict" where
  "prepare_inputs eg c inputs amount =
     dict_setdefault
       (dict_setdefault (dict_set inputs ''amount'' (money_val amount)) ''institution_id''
          (VStr (case en_overlay (eg_env eg) of None \<Rightarrow> ''alpha'' | Some v \<Rightarrow> ov_institution_id v)))
       ''currency'' (VStr (case ef_bounds (cap_effect c) of None \<Rightarrow> ''USD'' | Some b \<Rightarrow> b_currency b))"

text \<open>The answer of the core bank about a member; the text of a refused status is the library's.\<close>

definition read_member :: "string \<Rightarrow> http_error + response \<Rightarrow> string res" where
  "read_member member_id answer = (case answer of
      Inl e \<Rightarrow> Inl (OtherException (http_error_text e))
    | Inr r \<Rightarrow>
        if status_code r < 200 \<or> 300 \<le> status_code r then Inl (OtherException ''HTTP status error'')
        else (case body_json r of
            Inl m \<Rightarrow> Inl (ValueError m)
          | Inr (VDict data) \<Rightarrow>
              if py_str (dict_default data ''member_id'' (VStr [])) \<noteq> member_id
              then Inl (ValueError ''member identity response mismatch'')
              else (case dict_get data ''account_id'' of
                  None \<Rightarrow> Inl (KeyError (repr_str ''account_id'')) | Some v \<Rightarrow> Inr (py_str v))
          | Inr _ \<Rightarrow> Inl (OtherException ''object has no attribute get'')))"

definition member_account :: "'w target \<Rightarrow> settings \<Rightarrow> dict \<Rightarrow> string \<Rightarrow> ('w, string) prog" where
  "member_account tg cfg inputs member_id =
     bnd (of_res (core_bank_url_for cfg (dict_val inputs ''institution_id''))) (\<lambda>base.
     bnd (get_url tg (fstr [base, ''/api/member/'', member_id])) (\<lambda>answer. of_res (read_member member_id answer)))"

definition complete_inputs :: "'w engine \<Rightarrow> capability \<Rightarrow> dict \<Rightarrow> string \<Rightarrow> ('w system, execution_outcome + dict) prog" where
  "complete_inputs eg c inputs member_id =
     (if ef_class (cap_effect c) = COMMIT \<and> \<not> truthy (dict_val inputs ''account_id'')
      then if cap_system c \<noteq> ''core_bank''
        then ret (Inl (outcome HARD_FAILURE ENTITY_BINDING_MISMATCH ''Complete effect identity requires account_id before COMMIT''))
        else catch (\<lambda>_. True)
          (bnd (on_world (member_account (en_target (eg_env eg)) (en_settings (eg_env eg)) inputs member_id)) (\<lambda>account.
             ret (Inr (dict_set inputs ''account_id'' (VStr account)))))
          (\<lambda>e. ret (Inl (outcome HARD_FAILURE PRECHECK_UNAVAILABLE
             (''Unable to establish complete effect identity: '' @ exn_text e))))
      else ret (Inr inputs))"

definition effect_key :: "'w engine \<Rightarrow> capability \<Rightarrow> dict \<Rightarrow> effect_identity option \<Rightarrow> string option" where
  "effect_key eg c inputs identity =
     (let key = map_option (idempotency_key (amb_sha (eg_ambient eg))) identity in
      if \<not> opt_truthy key \<and> opt_truthy (ef_idempotency_key (cap_effect c))
      then Some (render_template (the (ef_idempotency_key (cap_effect c))) inputs) else key)"

section \<open>Admission\<close>

definition all_codes :: "outcome_code list" where
  "all_codes = [COMPLETED, CONFIRMED_APPLIED, NOT_APPLIED, CONFIRMED_NOT_APPLIED, MEMBER_NOT_FOUND, ALREADY_APPLIED,
     ALREADY_CLAIMED, DUPLICATE_DISPUTE, TRANSACTION_NOT_FOUND, POLICY_DENIED, SESSION_EXPIRED, PAGE_DRIFT,
     NETWORK_TIMEOUT, TEMPORARY_UNAVAILABLE, ENTITY_BINDING_MISMATCH, AMOUNT_MISMATCH, PRECHECK_UNAVAILABLE,
     PRECHECK_AMBIGUOUS, PRECHECK_INVALID_RESPONSE, POSTCHECK_UNCERTAIN, POSTCHECK_UNAVAILABLE, POSTCHECK_AMBIGUOUS,
     POSTCHECK_INVALID_RESPONSE, POLICY_VIOLATION, TARGET_LEDGER_DIVERGENCE, TARGET_RECONCILIATION_UNAVAILABLE,
     LEASE_FENCED, POSSIBLY_APPLIED, UNCERTAIN_EFFECT, COMPLIANCE_INTERSTITIAL, HUMAN_INTERVENTION_REQUIRED]"

text \<open>\<open>OutcomeCode(value)\<close>.\<close>

definition outcome_code_of :: "string \<Rightarrow> outcome_code res" where
  "outcome_code_of s = (case find (\<lambda>co. code_value co = s) all_codes of
      None \<Rightarrow> Inl (ValueError (fstr [repr_str s, '' is not a valid OutcomeCode''])) | Some co \<Rightarrow> Inr co)"

definition rejected_outcome :: "capability \<Rightarrow> outcome_code \<Rightarrow> string \<Rightarrow> effect_claim \<Rightarrow> execution_outcome" where
  "rejected_outcome c co key claim =
     (outcome BUSINESS_OUTCOME co (fstr [''Effect admission rejected for '', sq, cap_id c, sq, '': '', ec_status claim, ''. '',
        ''This worker did not reach the external mutation.'']))
       \<lparr>o_details := [(''idempotency_key'', VStr key), (''fencing_token'', VInt (int (ec_fencing_token claim)))]\<rparr>"

definition admit_effect ::
  "'w engine \<Rightarrow> capability \<Rightarrow> dict \<Rightarrow> string \<Rightarrow> effect_identity \<Rightarrow> string \<Rightarrow> ('w system, execution_outcome + effect_claim) prog" where
  "admit_effect eg c inputs case_id identity key =
     bnd (on_db (claim_effect (eg_ambient eg) identity (eg_owner eg) None five_minutes)) (\<lambda>claim.
     andthen (if ec_acquired claim then ret ()
       else eg_event eg c case_id ''EFFECT_CLAIM_REJECTED''
         [(''idempotency_key'', VStr key), (''owner_id'', VStr (ec_owner_id claim)),
          (''fencing_token'', VInt (int (ec_fencing_token claim))), (''status'', VStr (ec_status claim))]) (
     andthen commit (
     andthen (eg_crash eg ''C_AFTER_CLAIM'' c) (
     if ec_acquired claim then ret (Inr claim)
     else
       bnd (of_res (outcome_code_of (ec_status claim))) (\<lambda>co.
       bnd (if co = ALREADY_APPLIED then bnd (precheck eg c inputs) (\<lambda>r. ret (Some r)) else ret None) (\<lambda>confirmed.
       ret (Inl (case confirmed of
            Some r \<Rightarrow> if o_code r = ALREADY_APPLIED then r else rejected_outcome c co key claim
          | None \<Rightarrow> rejected_outcome c co key claim))))))))"

text \<open>The precheck under the claim: \<open>Some\<close> outcome ends the execution.\<close>

definition record_already_applied ::
  "'w engine \<Rightarrow> capability \<Rightarrow> string \<Rightarrow> string \<Rightarrow> effect_claim \<Rightarrow> execution_outcome \<Rightarrow> ('w system, unit) prog" where
  "record_already_applied eg c case_id key claim p =
     andthen (eg_event eg c case_id ''PRECHECK_ALREADY_APPLIED''
        [(''memo'', opt_val VStr (o_audit_ref p)), (''message'', VStr (o_message p))]) (
     bnd (on_db (start_execution (eg_ambient eg) case_id (cap_id c) (cap_version c) (effect_class_value (ef_class (cap_effect c)))
        (Some key) None None ''AUTOMATION'' None)) (\<lambda>row.
     andthen (on_db (complete_execution (eg_ambient eg) (ex_id row) (code_value ALREADY_APPLIED) None None None
        (o_audit_ref p) False)) (
     andthen (if key \<noteq> [] then andthen (move_claim eg key claim CLAIMED APPLIED) (ret ()) else ret ())
       commit)))"

definition record_precheck_halt ::
  "'w engine \<Rightarrow> capability \<Rightarrow> string \<Rightarrow> string \<Rightarrow> effect_claim \<Rightarrow> execution_outcome \<Rightarrow> ('w system, unit) prog" where
  "record_precheck_halt eg c case_id key claim p =
     andthen (if key \<noteq> [] then andthen (move_claim eg key claim CLAIMED FAILED_RETRYABLE) (ret ()) else ret ()) (
     andthen (eg_event eg c case_id ''PRECHECK_HALTED''
        [(''code'', VStr (code_value (o_code p))), (''message'', VStr (o_message p))])
       commit)"

definition stage_effect :: "'w engine \<Rightarrow> capability \<Rightarrow> string \<Rightarrow> string \<Rightarrow> ('w system, unit) prog" where
  "stage_effect eg c case_id key =
     andthen (eg_crash eg ''D_AFTER_PRECHECK'' c) (
     andthen (on_db (stage_intent (eg_ambient eg) case_id key (cap_id c))) (
     andthen (eg_event eg c case_id ''EFFECT_INTENT_STAGED'' [(''idempotency_key'', VStr key)])
       commit))"

definition precheck_effect ::
  "'w engine \<Rightarrow> capability \<Rightarrow> dict \<Rightarrow> string \<Rightarrow> string \<Rightarrow> effect_claim \<Rightarrow> ('w system, execution_outcome option) prog" where
  "precheck_effect eg c inputs case_id key claim =
     bnd (precheck eg c inputs) (\<lambda>p.
     if o_code p = ALREADY_APPLIED then andthen (record_already_applied eg c case_id key claim p) (ret (Some p))
     else if o_code p \<noteq> NOT_APPLIED then andthen (record_precheck_halt eg c case_id key claim p) (ret (Some p))
     else andthen (stage_effect eg c case_id key) (ret None))"

section \<open>Actuation\<close>

text \<open>\<open>if claim and idempotency_key\<close>: the claim under which the engine works, with its key.\<close>

type_synonym held_claim = "(string \<times> effect_claim) option"

definition held :: "string option \<Rightarrow> effect_claim option \<Rightarrow> held_claim" where
  "held key claim = (case (key, claim) of (Some k, Some cl) \<Rightarrow> if k \<noteq> [] then Some (k, cl) else None | _ \<Rightarrow> None)"

definition enter_applying ::
  "'w engine \<Rightarrow> capability \<Rightarrow> string \<Rightarrow> string \<Rightarrow> money \<Rightarrow> string option \<Rightarrow> held_claim \<Rightarrow> ('w system, nat \<times> nat) prog" where
  "enter_applying eg c case_id member_id amount key hc =
     bnd (on_db (acquire_lease (eg_ambient eg) case_id (eg_owner eg) (Some ''AUTOMATION'') None five_minutes None)) (\<lambda>lease.
     andthen (case hc of None \<Rightarrow> ret ()
       | Some (k, claim) \<Rightarrow> bnd (move_claim eg k claim CLAIMED APPLYING) (\<lambda>transitioned.
           unless_raise transitioned (RuntimeError ''Effect claim fencing token became stale before APPLYING''))) (
     bnd (on_db (start_execution (eg_ambient eg) case_id (cap_id c) (cap_version c) (effect_class_value (ef_class (cap_effect c)))
        key (Some member_id) (Some (money_val amount)) ''AUTOMATION'' (eg_session eg))) (\<lambda>row.
     andthen commit (ret (ls_fencing_token lease, ex_id row)))))"

definition maintain_action_lease :: "'w engine \<Rightarrow> string \<Rightarrow> nat \<Rightarrow> ('w system, bool) prog" where
  "maintain_action_lease eg case_id token =
     andthen (on_db (heartbeat_lease (eg_ambient eg) case_id (eg_owner eg) token None five_minutes)) (andthen commit (ret True))"

definition uses_http :: "capability \<Rightarrow> bool" where
  "uses_http c = list_ex (\<lambda>s. st_action s = HTTP_POST) (cap_steps c)"

definition run_actuation :: "'w engine \<Rightarrow> capability \<Rightarrow> dict \<Rightarrow> string \<Rightarrow> nat \<Rightarrow> ('w system, execution_outcome) prog" where
  "run_actuation eg c inputs case_id token =
     (if uses_http c
      then andthen (maintain_action_lease eg case_id token) (on_world (execute_http_commit (en_target (eg_env eg))
             (en_settings (eg_env eg)) (en_crash (eg_env eg)) c inputs))
      else execute ((eg_env eg)\<lparr>en_ui_checks := False\<rparr>) (Some (maintain_action_lease eg case_id token)) c inputs)"

definition actuate :: "'w engine \<Rightarrow> capability \<Rightarrow> dict \<Rightarrow> string \<Rightarrow> nat \<Rightarrow> ('w system, execution_outcome) prog" where
  "actuate eg c inputs case_id token =
     catch (\<lambda>_. True)
       (bnd (run_actuation eg c inputs case_id token) (\<lambda>oc.
          if ef_class (cap_effect c) = COMMIT \<and> (o_code oc = POSSIBLY_APPLIED \<or> o_phase oc = AFTER_SUBMIT_UNKNOWN)
          then reconcile eg c inputs (o_message oc) else ret oc))
       (\<lambda>e. if ef_class (cap_effect c) = COMMIT then reconcile eg c inputs (exn_text e)
          else ret (outcome RECOVERABLE_FAILURE NETWORK_TIMEOUT (''Browser execution failed: '' @ exn_text e)))"

section \<open>Settlement\<close>

definition report_outcome :: "'w engine \<Rightarrow> capability \<Rightarrow> string \<Rightarrow> money \<Rightarrow> execution_outcome \<Rightarrow> ('w system, unit) prog" where
  "report_outcome eg c case_id amount oc =
     (let set_status = (\<lambda>status moved. on_db (update_case_status (eg_ambient eg) case_id status moved)) in
     andthen (if o_money_moved oc
       then andthen (set_status ''PROVISIONAL_CREDIT_POSTED'' (Some True))
              (eg_event eg c case_id ''MONEY_MOVED'' [(''amount'', money_val amount), (''ref'', opt_val VStr (o_audit_ref oc))])
       else ret ()) (
     andthen (if o_code oc = CONFIRMED_APPLIED
       then eg_event eg c case_id ''EFFECT_RECONCILED'' [(''audit_ref'', opt_val VStr (o_audit_ref oc))] else ret ()) (
     if o_category oc = CAT_UNCERTAIN_EFFECT
     then andthen (set_status ''UNCERTAIN_EFFECT'' None)
            (eg_event eg c case_id ''UNCERTAIN_EFFECT_ESCALATION'' [(''message'', VStr (o_message oc))])
     else if o_category oc = CAT_NEEDS_HUMAN
     then andthen (set_status ''NEEDS_HUMAN'' None)
            (eg_event eg c case_id ''HUMAN_HANDOFF_REQUIRED''
               [(''code'', VStr (code_value (o_code oc))), (''message'', VStr (o_message oc))])
     else if o_category oc = HARD_FAILURE
     then andthen (set_status ''FAILED'' None)
            (eg_event eg c case_id ''HARD_FAILURE'' [(''code'', VStr (code_value (o_code oc))), (''message'', VStr (o_message oc))])
     else ret ())))"

definition settle_claim :: "'w engine \<Rightarrow> held_claim \<Rightarrow> execution_outcome \<Rightarrow> ('w system, unit) prog" where
  "settle_claim eg hc oc = (case hc of
      None \<Rightarrow> ret ()
    | Some (key, claim) \<Rightarrow>
        bnd (move_claim eg key claim APPLYING (settle_claim_status oc)) (\<lambda>transitioned.
        andthen (unless_raise transitioned (RuntimeError ''Effect claim fencing token became stale before settlement'')) (
        if is_success oc then on_db (mark_intent_committed (eg_ambient eg) key) else ret ())))"

text \<open>The member recorded as observed is the one of the inputs.\<close>

definition observed_member :: "dict \<Rightarrow> string option" where
  "observed_member inputs = (case dict_val inputs ''member_id'' of VNone \<Rightarrow> None | v \<Rightarrow> Some (py_str v))"

definition settle ::
  "'w engine \<Rightarrow> capability \<Rightarrow> dict \<Rightarrow> string \<Rightarrow> money \<Rightarrow> held_claim \<Rightarrow> nat \<Rightarrow> nat \<Rightarrow> execution_outcome \<Rightarrow> ('w system, unit) prog" where
  "settle eg c inputs case_id amount hc token execution_id oc =
     andthen (eg_crash eg ''J_BEFORE_FINAL_LEDGER_EVENT'' c) (
     andthen (on_db (complete_execution (eg_ambient eg) execution_id (code_value (o_code oc)) (observed_member inputs)
        (if o_money_moved oc then Some (money_val amount) else None)
        (if is_success oc then None else Some (category_value (o_category oc))) (o_audit_ref oc) (o_money_moved oc))) (
     andthen (report_outcome eg c case_id amount oc) (
     andthen (settle_claim eg hc oc) (
     andthen (on_db (release_lease (eg_ambient eg) case_id (Some (eg_owner eg)) (Some token) None))
       commit))))"

definition apply_effect ::
  "'w engine \<Rightarrow> capability \<Rightarrow> dict \<Rightarrow> string \<Rightarrow> string \<Rightarrow> money \<Rightarrow> string option \<Rightarrow> held_claim \<Rightarrow> ('w system, execution_outcome) prog" where
  "apply_effect eg c inputs case_id member_id amount key hc =
     bnd (enter_applying eg c case_id member_id amount key hc) (\<lambda>(token, execution_id).
     bnd (actuate eg c inputs case_id token) (\<lambda>oc.
     andthen (settle eg c inputs case_id amount hc token execution_id oc) (ret oc)))"

section \<open>The whole method\<close>

text \<open>Policy, claim and precheck; \<open>Inr\<close> is the claim to work under.\<close>

definition admit_commit ::
  "'w engine \<Rightarrow> capability \<Rightarrow> dict \<Rightarrow> string \<Rightarrow> effect_identity option \<Rightarrow> string option \<Rightarrow> ('w system, execution_outcome + effect_claim option) prog" where
  "admit_commit eg c inputs case_id identity key =
     (if ef_class (cap_effect c) = COMMIT
      then (case (identity, key) of
          (Some i, Some k) \<Rightarrow>
            bnd (admit_effect eg c inputs case_id i k) (\<lambda>admitted. case admitted of
              Inl oc \<Rightarrow> ret (Inl oc)
            | Inr claim \<Rightarrow> bnd (precheck_effect eg c inputs case_id k claim) (\<lambda>refused. case refused of
                Some p \<Rightarrow> ret (Inl p)
              | None \<Rightarrow> ret (Inr (Some claim))))
        | _ \<Rightarrow> fail (RuntimeError ''COMMIT execution reached admission without an effect identity''))
      else ret (Inr None))"

definition execute_admitted ::
  "'w engine \<Rightarrow> capability \<Rightarrow> dict \<Rightarrow> string \<Rightarrow> string \<Rightarrow> money \<Rightarrow> effect_identity option \<Rightarrow> ('w system, execution_outcome) prog" where
  "execute_admitted eg c inputs case_id member_id amount identity =
     andthen (on_db (create_or_get_case (eg_ambient eg) case_id member_id (money_val amount)
        (py_str (dict_default inputs ''currency'' (VStr ''USD''))) ''reg_e_dispute'')) (
     bnd (of_res (policy_evaluate c inputs)) (\<lambda>denied. case denied of
         Some oc \<Rightarrow> andthen (eg_event eg c case_id ''POLICY_DENIED'' [(''message'', VStr (o_message oc))]) (ret oc)
       | None \<Rightarrow>
           bnd (admit_commit eg c inputs case_id identity (effect_key eg c inputs identity)) (\<lambda>admitted. case admitted of
             Inl oc \<Rightarrow> ret oc
           | Inr claim \<Rightarrow> apply_effect eg c inputs case_id member_id amount (effect_key eg c inputs identity)
               (held (effect_key eg c inputs identity) claim))))"

definition execute_capability :: "'w engine \<Rightarrow> capability \<Rightarrow> dict \<Rightarrow> ('w system, execution_outcome) prog" where
  "execute_capability eg c inputs =
     (let case_id = py_str (dict_default inputs ''case_id'' (VStr ''UNKNOWN_CASE''));
          member_id = py_str (dict_default inputs ''member_id'' (VStr ''UNKNOWN_MEMBER'')) in
     bnd (of_res (parse_money (dict_default inputs ''amount'' (VStr ''0.00'')))) (\<lambda>amount.
     bnd (complete_inputs eg c (prepare_inputs eg c inputs amount) member_id) (\<lambda>completed. case completed of
         Inl oc \<Rightarrow> ret oc
       | Inr inputs' \<Rightarrow>
           bnd (of_res (if ef_class (cap_effect c) = COMMIT then map_sum id Some (identity_from_capability c inputs') else Inr None))
             (execute_admitted eg c inputs' case_id member_id amount))))"

end
