(* ===== verification/Effects.thy ===== *)
theory Effects
  imports Engine StateMachine
begin

text \<open>
  What an execution of the effect engine guarantees: it keeps the event chain of the
  durable ledger verifiable on every path, acts on a target only under a durable claim of
  this worker that says \<open>APPLYING\<close> until it is settled, never acts under a claim of
  another, and settles a claim only as far as the target's answers allow.
\<close>

section \<open>Invariants of the ledger\<close>

text \<open>A property of the ledger, as the session sees it and as it was last committed.\<close>

definition ledger_inv :: "(db \<Rightarrow> bool) \<Rightarrow> 'w system \<Rightarrow> bool" where
  "ledger_inv J x \<longleftrightarrow> J (sy_db x) \<and> J (sy_saved x)"

lemma keeps_on_world [keeps_rules]: "keeps (ledger_inv J) (on_world p)"
  by (rule keepsI) (auto simp: on_world_def on_part_def ledger_inv_def split: prod.splits)

lemma keeps_ask [keeps_rules]: "keeps (ledger_inv J) (ask f)"
  unfolding ask_def by (rule keeps_on_world)

lemma keeps_on_db [keeps_rules]: "keeps J p \<Longrightarrow> keeps (ledger_inv J) (on_db p)"
proof (rule keepsI)
  fix x assume "keeps J p" and x: "ledger_inv J x"
  obtain r d where run: "p (sy_db x) = (r, d)" by force
  have "J d" using keepsD_run [OF \<open>keeps J p\<close> _ run] x by (simp add: ledger_inv_def)
  then show "ledger_inv J (snd (on_db p x))" using run x by (simp add: on_db_def on_part_def ledger_inv_def)
qed

lemma keeps_commit [keeps_rules]: "keeps (ledger_inv J) commit"
  unfolding commit_def by (rule keeps_change) (simp add: ledger_inv_def)

interpretation ledger: acting_invariant "ledger_inv J" en
  by unfold_locales (simp_all add: keeps_ask keeps_on_world ledger_inv_def)

lemma keeps_replay [keeps_rules]:
  "keeps (ledger_inv J) check \<Longrightarrow> keeps (ledger_inv J) (execute en (Some check) c inputs)"
  by (rule ledger.keeps_execute) simp

lemma keeps_eg_crash [keeps_rules]: "keeps I (eg_crash eg point c)"
  unfolding eg_crash_def by (rule keeps_maybe_crash)

lemma keeps_checks [keeps_rules]:
  "keeps (ledger_inv J) (precheck eg c inputs)" "keeps (ledger_inv J) (reconcile eg c inputs msg)"
  "keeps (ledger_inv J) (complete_inputs eg c inputs member_id)"
  unfolding precheck_def reconcile_def complete_inputs_def by (intro keeps_rules)+

lemma keeps_case_sum [keeps_rules]:
  "(\<And>a. keeps I (f a)) \<Longrightarrow> (\<And>b. keeps I (g b)) \<Longrightarrow> keeps I (case r of Inl a \<Rightarrow> f a | Inr b \<Rightarrow> g b)"
  by (cases r) simp_all

lemma keeps_case_pair [keeps_rules]: "(\<And>a b. keeps I (f a b)) \<Longrightarrow> keeps I (case r of (a, b) \<Rightarrow> f a b)"
  by (cases r) simp

section \<open>The interface of the repository\<close>

text \<open>
  What a client of the repository relies on: a property \<open>J\<close> of the ledger that every
  operation the engine calls keeps; the status of a case is only ever set to one of the
  state machine and that of an execution to an outcome code or \<open>SUCCESS\<close>.  The engine then keeps it on every path, in the session and in what is
  durable, whatever the target and the browser do.
\<close>

definition known_status :: "string \<Rightarrow> bool" where
  "known_status s \<longleftrightarrow> s \<in> range state_value"

lemma known_statuses [keeps_rules]:
  "known_status (state_value s)" "known_status ''PROVISIONAL_CREDIT_POSTED''" "known_status ''UNCERTAIN_EFFECT''"
  "known_status ''NEEDS_HUMAN''" "known_status ''FAILED''"
  using range_eqI [of _ state_value PROVISIONAL_CREDIT_POSTED] range_eqI [of _ state_value ST_UNCERTAIN_EFFECT]
    range_eqI [of _ state_value NEEDS_HUMAN] range_eqI [of _ state_value FAILED]
  by (simp_all add: known_status_def)

definition known_execution :: "string \<Rightarrow> bool" where
  "known_execution s \<longleftrightarrow> s = ''SUCCESS'' \<or> s \<in> range code_value"

lemma known_executions [keeps_rules]:
  "known_execution (code_value c)" "known_execution ''SUCCESS''" "known_execution ''COMPLETED''"
  using range_eqI [of _ code_value COMPLETED] by (simp_all add: known_execution_def)

locale ledger_property =
  fixes J :: "db \<Rightarrow> bool" and a :: ambient
  assumes events: "keeps J (record_event a cid ty st ac p)"
    and cases: "keeps J (create_or_get_case a cid mid v cur proc)" 
      "known_status status \<Longrightarrow> keeps J (update_case_status a cid status moved)"
    and executions: "keeps J (start_execution a cid c ver ec ko ee ea ac bs)" "known_execution ending \<Longrightarrow> keeps J (complete_execution a n ending oe oa fc ar mm)"
    and intents: "keeps J (stage_intent a cid key k)" "keeps J (mark_intent_committed a key)"
    and claims: "keeps J (claim_effect a i ow now ttl)" "keeps J (transition_effect_claim a key ow tok froms to now)"
    and leases: "keeps J (acquire_lease a cid ow oty now ttl res)" "keeps J (heartbeat_lease a cid ow tok now ttl)"
      "keeps J (release_lease a cid owo toko now)"
begin

lemmas operations [keeps_rules] = events cases executions intents claims leases

lemma keeps_execution [keeps_rules]:
  assumes "eg_ambient eg = a"
  shows "keeps (ledger_inv J) (execute_capability eg c inputs)"
  unfolding execute_capability_def execute_admitted_def admit_commit_def admit_effect_def precheck_effect_def
    record_already_applied_def record_precheck_halt_def stage_effect_def apply_effect_def enter_applying_def actuate_def
    run_actuation_def maintain_action_lease_def settle_def report_outcome_def settle_claim_def eg_event_def move_claim_def Let_def assms
  by (intro keeps_rules)

end

section \<open>The chain of events\<close>

interpretation chain: ledger_property "chain_inv (amb_sha a)" a
  by unfold_locales (intro keeps_rules)+

text \<open>
  Whatever an execution of a capability does, and however it ends (an outcome, an
  exception or the death of the process at any boundary), the event chain of every case
  stays verifiable, in the session and in what is durable.
\<close>

theorem execution_keeps_chain:
  assumes "ledger_inv (chain_inv (amb_sha (eg_ambient eg))) x" and "execute_capability eg c inputs x = (r, y)"
  shows "cv_valid (verify_event_chain (amb_sha (eg_ambient eg)) case_id (sy_db y)) \<and>
     cv_valid (verify_event_chain (amb_sha (eg_ambient eg)) case_id (sy_saved y))"
  using keepsD_run [OF chain.keeps_execution [OF refl] assms] by (simp add: ledger_inv_def chain_inv_verified)

section \<open>The claims table\<close>

text \<open>A property of the claims alone; every operation on other tables keeps it.\<close>

definition claims_only :: "(claim_row list \<Rightarrow> bool) \<Rightarrow> db \<Rightarrow> bool" where
  "claims_only Q d \<longleftrightarrow> Q (t_claims d)"

lemma claims_only_simps [simp]:
  "claims_only Q (d\<lparr>t_cases := a\<rparr>) = claims_only Q d" "claims_only Q (d\<lparr>t_executions := b\<rparr>) = claims_only Q d"
  "claims_only Q (d\<lparr>t_intents := i\<rparr>) = claims_only Q d" "claims_only Q (d\<lparr>t_leases := l\<rparr>) = claims_only Q d"
  "claims_only Q (d\<lparr>tick := n\<rparr>) = claims_only Q d"
  by (simp_all add: claims_only_def)

lemma keeps_claims_basic [keeps_rules]:
  "keeps (claims_only Q) (record_event a cid ty st ac p)" "keeps (claims_only Q) (utc_now a)"
  "keeps (claims_only Q) (time_or_now a t)" "keeps (claims_only Q) (update_leases P f)"
  "keeps (claims_only Q) (require_case_row cid)" "keeps (claims_only Q) (read_lease cid)"
  by (cases t; auto simp: keeps_def claims_only_def record_event_run utc_now_def time_or_now_def update_leases_def
      require_case_row_def read_lease_def unless_raise_def split: option.splits)+

lemma keeps_claims_case [keeps_rules]:
  "keeps (claims_only Q) (create_or_get_case a cid mid amt cur proc)" "keeps (claims_only Q) (update_case_status a cid st mm)"
  unfolding create_or_get_case_def update_case_status_def Let_def set_case_def
  by (intro keeps_rules keeps_change; simp)+

lemma keeps_claims_executions [keeps_rules]:
  "keeps (claims_only Q) (start_execution a c k v ec key ee ea ac bs)"
  "keeps (claims_only Q) (complete_execution a n s oe oa fc ar mm)"
  "keeps (claims_only Q) (stage_intent a c k2 k)" "keeps (claims_only Q) (mark_intent_committed a k2)"
  unfolding start_execution_def complete_execution_def stage_intent_def mark_intent_committed_def Let_def set_execution_def
  by (intro keeps_rules keeps_change; simp)+

lemma keeps_claims_leases [keeps_rules]:
  "keeps (claims_only Q) (heartbeat_lease a c ow tok now ttl)"
  "keeps (claims_only Q) (acquire_lease a c ow ty now ttl res)" "keeps (claims_only Q) (release_lease a c owo toko now)"
  unfolding heartbeat_lease_def acquire_lease_def release_lease_def take_over_lease_def lease_acquired_event_def Let_def
  by (intro keeps_rules keeps_change; simp)+

lemma claims_ok_only: "claims_ok = claims_only (\<lambda>rows. unique_on cl_idempotency_key rows \<and> (\<forall>r \<in> set rows. 0 < cl_fencing_token r))"
  by (rule ext) (simp add: claims_ok_def claims_only_def claims_unique_def)

lemmas claims_frame = keeps_claims_basic keeps_claims_case keeps_claims_executions keeps_claims_leases

lemmas keeps_claims_ok [keeps_rules] = claims_frame
  [where Q = "\<lambda>rows. unique_on cl_idempotency_key rows \<and> (\<forall>r \<in> set rows. 0 < cl_fencing_token r)", folded claims_ok_only]

lemma keeps_ok_claims [keeps_rules]:
  "keeps claims_ok (claim_effect a i ow now ttl)" "keeps claims_ok (transition_effect_claim a key ow tok froms to now)"
  by (rule keepsI; rule claims_ok_run [where a = a, OF r_into_rtranclp]; auto intro: claim_step.intros surjective_pairing)+

section \<open>The claim of an execution\<close>

definition claim_is :: "string \<Rightarrow> string \<Rightarrow> nat \<Rightarrow> claim_status \<Rightarrow> db \<Rightarrow> bool" where
  "claim_is key ow tok st = claims_only (\<lambda>rows. unique_on cl_idempotency_key rows \<and> (\<exists>r. select_first (\<lambda>r. cl_idempotency_key r = key) rows = Some r
     \<and> cl_owner_id r = ow \<and> cl_fencing_token r = tok \<and> cl_status r = claim_status_value st))"

lemma claim_is_row: "claim_is key ow tok st d \<longleftrightarrow> claims_unique d \<and> (\<exists>r. get_effect_claim key d = Some r \<and>
     cl_owner_id r = ow \<and> cl_fencing_token r = tok \<and> cl_status r = claim_status_value st)"
  by (simp add: claim_is_def claims_only_def claims_unique_def get_effect_claim_def)

lemma keeps_claim_is [keeps_rules]: "(\<And>Q. keeps (claims_only Q) p) \<Longrightarrow> keeps (claim_is key ow tok st) p"
  by (simp add: claim_is_def)

lemma transition_result:
  assumes "claims_unique d" "transition_effect_claim a key ow tok froms to now d = (Ret True, d')"
  shows "claim_is key ow tok to d'"
  using assms(1,2)
proof (cases rule: transition_cases)
  case (moved r t)
  have k: "cl_idempotency_key r = key" using moved(1) by (simp add: get_effect_claim_SomeD)
  have "claims_unique d'"
    using assms(1) k moved(3) by (simp add: claims_unique_def unique_on_replaced)
  moreover have "get_effect_claim key d' = Some (moved_claim to t r)"
    using moved(1,3) k by (simp add: get_effect_claim_def select_first_replaced)
  ultimately show ?thesis using moved(2) by (simp add: claim_is_row may_move_def)
qed simp

lemma move_result:
  assumes "claims_unique (sy_db x)" "move_claim eg key cl from to x = (Ret True, y)"
  shows "claim_is key (eg_owner eg) (ec_fencing_token cl) to (sy_db y) \<and> sy_saved y = sy_saved x"
  using assms by (auto simp: move_claim_def on_db_def on_part_def split: prod.splits dest: transition_result)

section \<open>Actions need a durable claim\<close>

text \<open>The engine on a watched environment, and the invariant that nothing has acted yet.\<close>

definition watched_engine :: "'w engine \<Rightarrow> ('w \<times> nat) engine" where
  "watched_engine eg = \<lparr>eg_env = watched (eg_env eg), eg_ambient = eg_ambient eg, eg_owner = eg_owner eg, eg_session = eg_session eg\<rparr>"

lemma watched_engine_sel [simp]:
  "eg_env (watched_engine eg) = watched (eg_env eg)" "eg_ambient (watched_engine eg) = eg_ambient eg"
  "eg_owner (watched_engine eg) = eg_owner eg" "eg_session (watched_engine eg) = eg_session eg"
  by (simp_all add: watched_engine_def)

definition still :: "nat \<Rightarrow> ('w \<times> nat) system \<Rightarrow> bool" where
  "still n x \<longleftrightarrow> seen_by (\<lambda>_ k. k = n) x \<and> ledger_inv claims_ok x"

lemma keeps_still [keeps_rules]:
  "keeps (seen_by (\<lambda>_ k. k = n)) p \<Longrightarrow> keeps (ledger_inv claims_ok) p \<Longrightarrow> keeps (still n) p"
  by (auto simp: keeps_def still_def)

lemma keeps_seen_db [keeps_rules]: "keeps (seen_by I) (on_db p)" "keeps (seen_by I) commit"
  by (auto simp: keeps_def on_db_def on_part_def seen_by_def commit_def split: prod.splits)

lemma keeps_seen_checks [keeps_rules]:
  "keeps (seen_by I) (precheck (watched_engine eg) c inputs)"
  "keeps (seen_by I) (complete_inputs (watched_engine eg) c inputs member_id)"
  unfolding precheck_def complete_inputs_def member_account_def watched_engine_sel on_world_rules
  by (intro keeps_rules watched_replay.asking)+

text \<open>What runs before anything has acted can be skipped when something has.\<close>

lemma still_bnd:
  assumes "keeps (still n) p" "still n x" "bnd p f x = (r, y)" "acts y \<noteq> n"
  obtains v z where "p x = (Ret v, z)" "still n z" "f v z = (r, y)"
proof -
  obtain s z where run: "p x = (s, z)" by force
  have z: "still n z" using keepsD_run [OF assms(1,2) run] .
  then have "z \<noteq> y" using assms(4) by (auto simp: still_def seen_by_def)
  then show thesis using that run z assms(3) by (cases s) (auto simp: bnd_def)
qed

lemma still_andthen:
  assumes "keeps (still n) p" "still n x" "andthen p q x = (r, y)" "acts y \<noteq> n"
  obtains z where "still n z" "q z = (r, y)"
  using still_bnd [OF assms(1,2) assms(3) [unfolded andthen_def] assms(4)] by blast

lemma keeps_still_enter: "keeps (still n) (enter_applying (watched_engine eg) c cid mid amt key hc)"
  unfolding enter_applying_def move_claim_def by (intro keeps_rules)

lemma keeps_still_admit: "keeps (still n) (admit_commit (watched_engine eg) c inputs cid i key)"
  unfolding admit_commit_def admit_effect_def precheck_effect_def record_already_applied_def record_precheck_halt_def
    stage_effect_def eg_event_def move_claim_def
  by (intro keeps_rules)

lemma on_db_run:
  assumes "keeps J p" "J (sy_db x)" "on_db p x = (r, y)"
  shows "J (sy_db y) \<and> sy_saved y = sy_saved x"
  using assms keepsD_run [OF assms(1,2)] by (auto simp: on_db_def on_part_def split: prod.splits)

lemma applying_entered:
  assumes "claims_ok (sy_db x)" "enter_applying eg c cid mid amt key (Some (k, cl)) x = (Ret (token, eid), y)"
  shows "ledger_inv (claim_is k (eg_owner eg) (ec_fencing_token cl) APPLYING) y"
proof -
  let ?J = "claim_is k (eg_owner eg) (ec_fencing_token cl) APPLYING"
  obtain lease x1 x2 row x3 where
    l: "on_db (acquire_lease (eg_ambient eg) cid (eg_owner eg) (Some ''AUTOMATION'') None five_minutes None) x = (Ret lease, x1)"
    and m: "move_claim eg k cl CLAIMED APPLYING x1 = (Ret True, x2)"
    and s: "on_db (start_execution (eg_ambient eg) cid (cap_id c) (cap_version c) (effect_class_value (ef_class (cap_effect c)))
        key (Some mid) (Some (money_val amt)) ''AUTOMATION'' (eg_session eg)) x2 = (Ret row, x3)"
    and y: "y = x3\<lparr>sy_saved := sy_db x3\<rparr>"
    using assms(2) by (auto simp: enter_applying_def bnd_eq_Ret andthen_eq_Ret commit_def)
  have "claims_ok (sy_db x1)" using on_db_run [where J = claims_ok, OF _ assms(1) l] by (simp add: keeps_claims_ok)
  then have "?J (sy_db x2)" using move_result [OF _ m] by (simp add: claims_ok_def)
  moreover have "keeps ?J (start_execution (eg_ambient eg) cid (cap_id c) (cap_version c) (effect_class_value (ef_class (cap_effect c)))
        key (Some mid) (Some (money_val amt)) ''AUTOMATION'' (eg_session eg))" by (intro keeps_rules)
  ultimately have "?J (sy_db x3)" using on_db_run [where J = ?J, OF _ _ s] by blast
  then show ?thesis by (simp add: y ledger_inv_def)
qed

lemma keeps_actuate: "keeps (ledger_inv (claims_only Q)) (actuate eg c inputs cid token)"
  unfolding actuate_def run_actuation_def maintain_action_lease_def by (intro keeps_rules)

text \<open>The settlement: until its last commit the durable claim says \<open>APPLYING\<close>.\<close>

definition split_inv :: "(db \<Rightarrow> bool) \<Rightarrow> (db \<Rightarrow> bool) \<Rightarrow> 'w system \<Rightarrow> bool" where
  "split_inv J K x \<longleftrightarrow> J (sy_db x) \<and> K (sy_saved x)"

lemma keeps_split_on_db [keeps_rules]: "keeps J p \<Longrightarrow> keeps (split_inv J K) (on_db p)"
  by (rule keepsI) (metis on_db_run prod.collapse split_inv_def)

lemma settle_claim_result:
  assumes "split_inv (claim_is k (eg_owner eg) (ec_fencing_token cl) APPLYING) K x"
    and "settle_claim eg (Some (k, cl)) oc x = (r, y)"
  shows "K (sy_saved y) \<and> (\<forall>v. r = Ret v \<longrightarrow>
     split_inv (claim_is k (eg_owner eg) (ec_fencing_token cl) (settle_claim_status oc)) K y)"
proof -
  let ?s = "settle_claim_status oc"
  have "keeps (split_inv (\<lambda>_. True) K) (settle_claim eg (Some (k, cl)) oc)"
    unfolding settle_claim_def move_claim_def by (intro keeps_rules; simp add: keeps_def)
  then have saved: "K (sy_saved y)"
    using assms keepsD_run [of "split_inv (\<lambda>_. True) K" "settle_claim eg (Some (k, cl)) oc" x r y] by (simp add: split_inv_def)
  have "claim_is k (eg_owner eg) (ec_fencing_token cl) ?s (sy_db y)" if ret: "r = Ret v" for v
  proof -
    obtain z where m: "move_claim eg k cl APPLYING ?s x = (Ret True, z)"
      and z: "(if is_success oc then on_db (mark_intent_committed (eg_ambient eg) k) else ret ()) z = (Ret v, y)"
      using assms(2) ret by (auto simp: settle_claim_def bnd_eq_Ret andthen_eq_Ret)
    have moved: "claim_is k (eg_owner eg) (ec_fencing_token cl) ?s (sy_db z)"
      using move_result [OF _ m] assms(1) by (simp add: split_inv_def claim_is_row)
    have "keeps (claim_is k (eg_owner eg) (ec_fencing_token cl) ?s) (mark_intent_committed (eg_ambient eg) k)"
      by (intro keeps_rules)
    then show ?thesis using z moved on_db_run [where J = "claim_is k (eg_owner eg) (ec_fencing_token cl) ?s"]
      by (cases "is_success oc") auto
  qed
  then show ?thesis using saved by (simp add: split_inv_def)
qed

lemma settle_result:
  fixes eg :: "'w engine"
  assumes "ledger_inv (claim_is k (eg_owner eg) (ec_fencing_token cl) APPLYING) x"
    and "settle eg c inputs cid amt (Some (k, cl)) token eid oc x = (r, y)"
  shows "claim_is k (eg_owner eg) (ec_fencing_token cl) (case r of Ret _ \<Rightarrow> settle_claim_status oc | _ \<Rightarrow> APPLYING) (sy_saved y)"
proof -
  let ?A = "claim_is k (eg_owner eg) (ec_fencing_token cl) APPLYING" and ?S = "claim_is k (eg_owner eg) (ec_fencing_token cl) (settle_claim_status oc)"
  let ?Q = "\<lambda>(r :: unit run) (y :: 'w system). claim_is k (eg_owner eg) (ec_fencing_token cl) (case r of Ret _ \<Rightarrow> settle_claim_status oc | _ \<Rightarrow> APPLYING) (sy_saved y)"
  have last: "triple (split_inv ?S ?A) (andthen (on_db (release_lease a cid (Some ow) (Some token) None)) commit) ?Q" for a ow
    unfolding andthen_def
    by (rule triple_bnd [OF triple_keeps [where I = "split_inv ?S ?A"]])
      (intro keeps_rules, auto simp: triple_def commit_def split_inv_def)
  have claim: "triple (split_inv ?A ?A) (settle_claim eg (Some (k, cl)) oc)
      (\<lambda>r y. case r of Ret _ \<Rightarrow> split_inv ?S ?A y | _ \<Rightarrow> ?A (sy_saved y))"
    using settle_claim_result by (intro tripleI) (fastforce split: run.splits)
  have tail: "triple (split_inv ?A ?A) (andthen (settle_claim eg (Some (k, cl)) oc)
      (andthen (on_db (release_lease a cid (Some ow) (Some token) None)) commit)) ?Q" for a ow
    unfolding andthen_def [of "settle_claim eg (Some (k, cl)) oc"]
    by (rule triple_bnd [OF claim]) (simp_all add: last)
  have step: "triple (split_inv ?A ?A) (andthen p q) ?Q" if "keeps (split_inv ?A ?A) p" "triple (split_inv ?A ?A) q ?Q"
    for p :: "('w system, 'a) prog" and q
    unfolding andthen_def by (rule triple_bnd [OF triple_keeps [OF that(1)]]) (simp_all add: that(2) split_inv_def)
  have "triple (split_inv ?A ?A) (settle eg c inputs cid amt (Some (k, cl)) token eid oc) ?Q"
    unfolding settle_def report_outcome_def eg_event_def Let_def by (intro step tail; intro keeps_rules)
  from tripleD [OF this _ assms(2)] assms(1) show ?thesis by (simp add: ledger_inv_def split_inv_def)
qed

text \<open>The inputs the engine completes; it never changes one that identifies the case or the member.\<close>

definition completes :: "dict \<Rightarrow> dict \<Rightarrow> bool" where
  "completes inputs inputs' \<longleftrightarrow>
     (\<forall>k. k \<notin> {''amount'', ''institution_id'', ''currency'', ''account_id''} \<longrightarrow> dict_get inputs' k = dict_get inputs k)"

lemma prepared_completes: "completes inputs (prepare_inputs eg c inputs amt)"
  by (simp add: completes_def prepare_inputs_def dict_setdefault_def dict_get_def split: option.splits)

lemma catch_eq_Ret:
  "catch ok p h s = (Ret v, t) \<longleftrightarrow> p s = (Ret v, t) \<or> (\<exists>e u. p s = (Raise e, u) \<and> ok e \<and> h e u = (Ret v, t))"
  by (cases "p s"; cases "fst (p s)") (auto simp: catch_def)

lemma completed_inputs:
  assumes "complete_inputs eg c inputs member_id x = (Ret (Inr inputs'), y)"
  shows "inputs' = inputs \<or> (\<exists>account. inputs' = dict_set inputs ''account_id'' (VStr account))"
  using assms by (cases "cap_system c = ''core_bank''") (auto simp: complete_inputs_def catch_eq_Ret bnd_eq_Ret split: if_splits)

lemma completes_set: "completes orig inputs \<Longrightarrow> completes orig (dict_set inputs ''account_id'' v)"
  by (simp add: completes_def dict_get_def)

lemma effect_key_commit:
  "amb_sha (eg_ambient eg) (canonical_identity_text i) \<noteq> [] \<Longrightarrow>
   effect_key eg c inputs (Some i) = Some (idempotency_key (amb_sha (eg_ambient eg)) i)"
  by (simp add: effect_key_def opt_truthy_def idempotency_key_def)

lemma apply_effect_acts:
  assumes "still n x" "apply_effect (watched_engine eg) c inputs cid mid amt key (Some (k, cl)) x = (r, y)" "acts y \<noteq> n"
  shows "claim_is k (eg_owner eg) (ec_fencing_token cl) (case r of Ret oc \<Rightarrow> settle_claim_status oc | _ \<Rightarrow> APPLYING) (sy_saved y)"
proof -
  let ?eg = "watched_engine eg" and ?J = "claim_is k (eg_owner eg) (ec_fencing_token cl) APPLYING"
  obtain ids x1 where e: "enter_applying ?eg c cid mid amt key (Some (k, cl)) x = (Ret ids, x1)"
    and rest: "(case ids of (token, eid) \<Rightarrow> bnd (actuate ?eg c inputs cid token) (\<lambda>oc.
        andthen (settle ?eg c inputs cid amt (Some (k, cl)) token eid oc) (ret oc))) x1 = (r, y)"
    using still_bnd [OF keeps_still_enter assms(1) assms(2) [unfolded apply_effect_def] assms(3)] by blast
  obtain token eid where ids: "ids = (token, eid)" by force
  have "claims_ok (sy_db x)" using assms(1) by (simp add: still_def ledger_inv_def)
  from applying_entered [OF this e [unfolded ids]] have x1: "ledger_inv ?J x1" by simp
  obtain ra x2 where a: "actuate ?eg c inputs cid token x1 = (ra, x2)" by force
  have x2: "ledger_inv ?J x2"
    using keepsD_run [of "ledger_inv ?J" "actuate ?eg c inputs cid token" x1 ra x2] x1 a by (simp add: claim_is_def keeps_actuate)
  show ?thesis
  proof (cases ra)
    case (Ret oc)
    obtain rs x3 where s: "settle ?eg c inputs cid amt (Some (k, cl)) token eid oc x2 = (rs, x3)" by force
    have "claim_is k (eg_owner eg) (ec_fencing_token cl) (case rs of Ret _ \<Rightarrow> settle_claim_status oc | _ \<Rightarrow> APPLYING) (sy_saved x3)"
      using settle_result [of k ?eg cl, OF _ s] x2 by simp
    then show ?thesis using rest ids a Ret s by (cases rs) (auto simp: bnd_def andthen_def)
  qed (use rest ids a x2 in \<open>auto simp: bnd_def ledger_inv_def\<close>)
qed

lemma admit_commit_claim:
  assumes "admit_commit eg c inputs cid (Some i) (Some k) x = (Ret (Inr hc), y)" "ef_class (cap_effect c) = COMMIT"
  obtains claim z where "hc = Some claim" "admit_effect eg c inputs cid i k x = (Ret (Inr claim), z)"
proof -
  obtain a z where "admit_effect eg c inputs cid i k x = (Ret a, z)" "(case a of Inl oc \<Rightarrow> ret (Inl oc)
      | Inr claim \<Rightarrow> bnd (precheck_effect eg c inputs cid k claim) (\<lambda>refused. case refused of
                Some p \<Rightarrow> ret (Inl p) | None \<Rightarrow> ret (Inr (Some claim)))) z = (Ret (Inr hc), y)"
    using assms by (auto simp: admit_commit_def bnd_eq_Ret)
  then show thesis using that by (cases a) (auto simp: bnd_eq_Ret split: option.splits)
qed

lemma admitted_acts:
  fixes eg :: "'w engine" and x :: "('w \<times> nat) system"
  defines "key \<equiv> \<lambda>i. idempotency_key (amb_sha (eg_ambient eg)) i"
  assumes run: "execute_admitted (watched_engine eg) c inputs cid mid amt (Some i) x = (r, y)" and x: "still n x"
    and commit: "ef_class (cap_effect c) = COMMIT" and sha: "\<And>t. amb_sha (eg_ambient eg) t \<noteq> []" and acted: "acts y \<noteq> n"
  shows "\<exists>tok. claim_is (key i) (eg_owner eg) tok (case r of Ret oc \<Rightarrow> settle_claim_status oc | _ \<Rightarrow> APPLYING) (sy_saved y)"
proof -
  let ?eg = "watched_engine eg"
  have key: "effect_key ?eg c inputs (Some i) = Some (key i)" "key i \<noteq> []"
    using effect_key_commit [of ?eg i] sha by (simp_all add: idempotency_key_def key_def)
  define rest where "rest = (\<lambda>denied. case denied of
         Some oc \<Rightarrow> andthen (eg_event ?eg c cid ''POLICY_DENIED'' [(''message'', VStr (o_message oc))]) (ret oc)
       | None \<Rightarrow> bnd (admit_commit ?eg c inputs cid (Some i) (Some (key i))) (\<lambda>admitted. case admitted of
             Inl oc \<Rightarrow> ret oc
           | Inr claim \<Rightarrow> apply_effect ?eg c inputs cid mid amt (Some (key i)) (held (Some (key i)) claim)))"
  have create: "keeps (still n) (on_db (create_or_get_case a cid mid v cur proc))" for a v cur proc
    by (intro keeps_rules)
  obtain z where z: "still n z" "bnd (of_res (policy_evaluate c inputs)) rest z = (r, y)"
    by (rule still_andthen [OF create x run [unfolded execute_admitted_def key(1), folded rest_def] acted])
  have quiet: "\<not> still n y" using acted by (simp add: still_def seen_by_def)
  have denied: "keeps (still n) (rest (Some oc))" for oc
    unfolding rest_def eg_event_def by simp (intro keeps_rules)
  have "policy_evaluate c inputs = Inr None"
  proof (cases "policy_evaluate c inputs")
    case (Inr d)
    then show ?thesis using z quiet keepsD_run [OF denied z(1)] by (cases d) auto
  qed (use z quiet in auto)
  then have "bnd (admit_commit ?eg c inputs cid (Some i) (Some (key i))) (\<lambda>admitted. case admitted of
             Inl oc \<Rightarrow> ret oc
           | Inr claim \<Rightarrow> apply_effect ?eg c inputs cid mid amt (Some (key i)) (held (Some (key i)) claim)) z = (r, y)"
    using z(2) by (simp add: rest_def)
  then obtain ad u where ad: "admit_commit ?eg c inputs cid (Some i) (Some (key i)) z = (Ret ad, u)" and u: "still n u"
    and run: "(case ad of Inl oc \<Rightarrow> ret oc
      | Inr claim \<Rightarrow> apply_effect ?eg c inputs cid mid amt (Some (key i)) (held (Some (key i)) claim)) u = (r, y)"
    by (rule still_bnd [OF keeps_still_admit z(1) _ acted])
  obtain hc where hc: "ad = Inr hc" using run u quiet by (cases ad) auto
  then obtain claim where "ad = Inr (Some claim)" using admit_commit_claim [OF _ commit] ad by metis
  then have "apply_effect ?eg c inputs cid mid amt (Some (key i)) (Some (key i, claim)) u = (r, y)"
    using run key(2) by (simp add: held_def)
  from apply_effect_acts [OF u this acted] show ?thesis by blast
qed

text \<open>
  C2: A COMMIT execution acts on a target (by a click or a post) only under a claim of
  its effect that is durable and this worker's own.  If the process dies or an exception
  escapes after the action, what is stored says \<open>APPLYING\<close>; if an outcome is
  returned, it is the settlement of that outcome.
\<close>

theorem acts_under_durable_claim:
  assumes "execute_capability (watched_engine eg) c inputs x = (r, y)" and "ef_class (cap_effect c) = COMMIT"
    and "ledger_inv claims_ok x" and "\<And>t. amb_sha (eg_ambient eg) t \<noteq> []" and "acts y \<noteq> acts x"
  shows "\<exists>inputs' i tok. completes inputs inputs' \<and> identity_from_capability c inputs' = Inr i \<and>
     claim_is (idempotency_key (amb_sha (eg_ambient eg)) i) (eg_owner eg) tok
       (case r of Ret oc \<Rightarrow> settle_claim_status oc | _ \<Rightarrow> APPLYING) (sy_saved y)"
proof -
  let ?eg = "watched_engine eg" and ?n = "acts x" and ?amount = "parse_money (dict_default inputs ''amount'' (VStr ''0.00''))"
  have x: "still ?n x" and quiet: "\<not> still ?n y" using assms(3,5) by (simp_all add: still_def seen_by_def)
  obtain amt where amt: "?amount = Inr amt"
    using assms(1) x quiet by (cases ?amount) (auto simp: execute_capability_def)
  note run = assms(1) [unfolded execute_capability_def Let_def amt bnd_of_res]
  have complete: "keeps (still ?n) (complete_inputs ?eg c (prepare_inputs ?eg c inputs amt) mid)" for mid by (intro keeps_rules)
  obtain co z where co: "complete_inputs ?eg c (prepare_inputs ?eg c inputs amt)
        (py_str (dict_default inputs ''member_id'' (VStr ''UNKNOWN_MEMBER''))) x = (Ret co, z)" and z: "still ?n z"
    and rest: "(case co of Inl oc \<Rightarrow> ret oc
      | Inr inputs' \<Rightarrow> bnd (of_res (if ef_class (cap_effect c) = COMMIT then map_sum id Some (identity_from_capability c inputs') else Inr None))
          (execute_admitted ?eg c inputs' (py_str (dict_default inputs ''case_id'' (VStr ''UNKNOWN_CASE'')))
             (py_str (dict_default inputs ''member_id'' (VStr ''UNKNOWN_MEMBER''))) amt)) z = (r, y)"
    by (rule still_bnd [OF complete x run assms(5)])
  obtain inputs' where inp: "co = Inr inputs'" using rest z quiet by (cases co) auto
  obtain i where i: "identity_from_capability c inputs' = Inr i"
    using rest inp assms(2) z quiet by (cases "identity_from_capability c inputs'") auto
  have "completes inputs inputs'"
    using completed_inputs [OF co [unfolded inp]] prepared_completes completes_set by metis
  then show ?thesis using admitted_acts [OF _ z assms(2,4,5)] rest inp i assms(2) by auto
qed

section \<open>The claim of another worker\<close>

definition frozen :: "nat \<Rightarrow> claim_row list \<Rightarrow> ('w \<times> nat) system \<Rightarrow> bool" where
  "frozen n rows x \<longleftrightarrow> seen_by (\<lambda>_ k. k = n) x \<and> split_inv (claims_only (\<lambda>rs. rs = rows)) (\<lambda>_. True) x"

lemma frozen_iff: "frozen n rows x \<longleftrightarrow> acts x = n \<and> t_claims (sy_db x) = rows"
  by (simp add: frozen_def seen_by_def split_inv_def claims_only_def)

lemma keeps_frozen [keeps_rules]:
  "keeps (seen_by (\<lambda>_ k. k = n)) p \<Longrightarrow> keeps (split_inv (claims_only (\<lambda>rs. rs = rows)) (\<lambda>_. True)) p \<Longrightarrow> keeps (frozen n rows) p"
  by (auto simp: keeps_def frozen_def)

lemma keeps_split_world [keeps_rules]: "keeps (split_inv J K) (on_world p)"
  by (rule keepsI) (auto simp: on_world_def on_part_def split_inv_def split: prod.splits)

lemma keeps_split_commit [keeps_rules]: "keeps (split_inv J (\<lambda>_. True)) commit"
  unfolding commit_def by (rule keeps_change) (simp add: split_inv_def)

lemma keeps_split_precheck [keeps_rules]: "keeps (split_inv J K) (precheck eg c inputs)"
  unfolding precheck_def by (rule keeps_split_world)

lemma admit_foreign:
  assumes row: "select_first (\<lambda>r. cl_idempotency_key r = idempotency_key (amb_sha (eg_ambient eg)) i) rows = Some row"
    "cl_status row \<noteq> claim_status_value FAILED_RETRYABLE" and unique: "unique_on cl_idempotency_key rows"
  shows "triple (frozen n rows) (admit_effect (watched_engine eg) c inputs cid i key)
     (\<lambda>r y. frozen n rows y \<and> (\<forall>claim. r \<noteq> Ret (Inr claim)))"
proof -
  have claim: "triple (frozen n rows) (on_db (claim_effect (eg_ambient eg) i (eg_owner eg) None five_minutes))
      (\<lambda>r y. frozen n rows y \<and> (\<forall>cl. r = Ret cl \<longrightarrow> \<not> ec_acquired cl))"
  proof (rule tripleI)
    fix x r y assume x: "frozen n rows x" and run: "on_db (claim_effect (eg_ambient eg) i (eg_owner eg) None five_minutes) x = (r, y)"
    obtain d where d: "claim_effect (eg_ambient eg) i (eg_owner eg) None five_minutes (sy_db x) = (r, d)" "y = x\<lparr>sy_db := d\<rparr>"
      using run by (auto simp: on_db_def on_part_def split: prod.splits)
    have u: "claims_unique (sy_db x)" and got: "get_effect_claim (idempotency_key (amb_sha (eg_ambient eg)) i) (sy_db x) = Some row"
      using x row(1) unique by (simp_all add: frozen_iff claims_unique_def get_effect_claim_def)
    show "frozen n rows y \<and> (\<forall>cl. r = Ret cl \<longrightarrow> \<not> ec_acquired cl)"
      using u d(1) by (cases rule: claim_effect_cases) (use got row(2) x d(2) in \<open>auto simp: frozen_iff\<close>)
  qed
  have rest: "triple (\<lambda>y. frozen n rows y \<and> (\<forall>cl'. Ret cl = Ret cl' \<longrightarrow> \<not> ec_acquired cl'))
      (andthen (if ec_acquired cl then ret () else eg_event (watched_engine eg) c cid ty p) (
       andthen commit (
       andthen (eg_crash (watched_engine eg) pt c) (
       if ec_acquired cl then ret (Inr cl)
       else bnd (of_res (outcome_code_of (ec_status cl))) (\<lambda>co.
         bnd (if co = ALREADY_APPLIED then bnd (precheck (watched_engine eg) c inputs) (\<lambda>r. ret (Some r)) else ret None) (\<lambda>confirmed.
         ret (Inl (f co confirmed))))))))
      (\<lambda>r y. frozen n rows y \<and> (\<forall>claim. r \<noteq> Ret (Inr claim)))"
    for cl :: effect_claim and ty p pt and f :: "outcome_code \<Rightarrow> execution_outcome option \<Rightarrow> execution_outcome"
  proof (cases "ec_acquired cl")
    case False
    let ?p = "andthen (if ec_acquired cl then ret () else eg_event (watched_engine eg) c cid ty p) (
       andthen commit (
       andthen (eg_crash (watched_engine eg) pt c) (
       if ec_acquired cl then ret (Inr cl)
       else bnd (of_res (outcome_code_of (ec_status cl))) (\<lambda>co.
         bnd (if co = ALREADY_APPLIED then bnd (precheck (watched_engine eg) c inputs) (\<lambda>r. ret (Some r)) else ret None) (\<lambda>confirmed.
         ret (Inl (f co confirmed)))))))"
    have kept: "keeps (frozen n rows) ?p" unfolding eg_event_def by (intro keeps_rules)
    have never: "?p x \<noteq> (Ret (Inr claim), y)" for x y and claim :: effect_claim
      using False by (auto simp: bnd_eq_Ret andthen_eq_Ret)
    show ?thesis by (rule tripleI) (use keepsD_run [OF kept] never in blast)
  qed (simp add: triple_def)
  show ?thesis
    unfolding admit_effect_def watched_engine_sel by (rule triple_bnd [OF claim rest]) simp_all
qed

text \<open>
  C3: While the claim of an effect is held by any worker, or settled other than as
  retryable, another execution of the effect never acts on a target and never changes a
  claim, however it ends.
\<close>

theorem foreign_claim_never_acts:
  fixes x :: "('w \<times> nat) system"
  assumes run: "execute_capability (watched_engine eg) c inputs x = (r, y)" and commit: "ef_class (cap_effect c) = COMMIT"
    and amt: "parse_money (dict_default inputs ''amount'' (VStr ''0.00'')) = Inr amt"
    and account: "truthy (dict_val (prepare_inputs (watched_engine eg) c inputs amt) ''account_id'')"
    and i: "identity_from_capability c (prepare_inputs (watched_engine eg) c inputs amt) = Inr i"
    and row: "get_effect_claim (idempotency_key (amb_sha (eg_ambient eg)) i) (sy_db x) = Some row"
    and status: "cl_status row \<noteq> claim_status_value FAILED_RETRYABLE" and unique: "claims_unique (sy_db x)"
  shows "acts y = acts x \<and> t_claims (sy_db y) = t_claims (sy_db x)"
proof -
  let ?eg = "watched_engine eg" and ?F = "frozen (acts x) (t_claims (sy_db x))"
  have admit: "triple ?F (admit_commit ?eg c inputs' cid (Some i) key) (\<lambda>r y. ?F y \<and> (\<forall>hc. r \<noteq> Ret (Inr hc)))" for inputs' cid key
  proof (cases key)
    case (Some k)
    have "triple (\<lambda>y. ?F y \<and> (\<forall>claim. Ret a \<noteq> (Ret (Inr claim) :: (execution_outcome + effect_claim) run)))
       (case a of Inl oc \<Rightarrow> ret (Inl oc) | Inr claim \<Rightarrow> g claim) (\<lambda>r y. ?F y \<and> (\<forall>hc. r \<noteq> Ret (Inr hc)))"
      for a and g :: "effect_claim \<Rightarrow> (('w \<times> nat) system, execution_outcome + effect_claim option) prog"
      by (cases a) (simp_all add: triple_def)
    then show ?thesis
      using Some commit row status unique unfolding admit_commit_def
      by (simp add: get_effect_claim_def claims_unique_def) (rule triple_bnd [OF admit_foreign]; simp)
  qed (use commit in \<open>simp add: admit_commit_def triple_def\<close>)
  have "triple ?F (execute_admitted ?eg c inputs' cid mid amt (Some i)) (\<lambda>_. ?F)" for inputs' cid mid
  proof -
    have rest: "triple ?F (bnd (admit_commit ?eg c inputs' cid (Some i) key) (\<lambda>admitted. case admitted of
        Inl oc \<Rightarrow> ret oc | Inr claim \<Rightarrow> g claim)) (\<lambda>_. ?F)"
      for key and g :: "effect_claim option \<Rightarrow> (('w \<times> nat) system, execution_outcome) prog"
      by (rule triple_bnd [OF admit]) (auto simp: triple_def split: sum.splits)
    have denied: "triple ?F (case d of Some oc \<Rightarrow> andthen (eg_event ?eg c cid ty (p oc)) (ret oc) | None \<Rightarrow> q) (\<lambda>_. ?F)"
      if "triple ?F q (\<lambda>_. ?F)" for d :: "execution_outcome option" and ty p q
    proof (cases d)
      case (Some oc)
      have "keeps ?F (andthen (eg_event ?eg c cid ty (p oc)) (ret oc))" unfolding eg_event_def by (intro keeps_rules)
      then show ?thesis using Some by (simp add: triple_keeps)
    qed (use that in simp)
    have policy: "triple ?F (bnd (of_res (policy_evaluate c inputs')) f) (\<lambda>_. ?F)" if "\<And>d. triple ?F (f d) (\<lambda>_. ?F)"
      for f :: "execution_outcome option \<Rightarrow> (('w \<times> nat) system, execution_outcome) prog"
      by (rule triple_bnd [OF triple_keeps [OF keeps_pure(5)] that]) simp_all
    have create: "keeps ?F (on_db (create_or_get_case a cid mid v cur proc))" for a v cur proc by (intro keeps_rules)
    show ?thesis
      unfolding execute_admitted_def
      by (rule triple_andthen [OF triple_keeps [OF create]]) (intro policy denied rest, assumption)
  qed
  note all = this
  have F: "?F y" if run': "execute_admitted ?eg c inputs' cid mid amt (Some i) x = (r, y)" for inputs' cid mid
    by (rule tripleD [OF all _ run']) (simp add: frozen_iff)
  have "?F y" by (rule F) (use run account i commit in \<open>simp add: execute_capability_def amt complete_inputs_def\<close>)
  then show ?thesis by (simp add: frozen_iff)
qed

section \<open>Settlement needs evidence\<close>

lemma watched_ui_checks: "(watched en)\<lparr>en_ui_checks := b\<rparr> = watched (en\<lparr>en_ui_checks := b\<rparr>)"
  by (simp add: watched_def)

lemma on_world_Ret: "on_world p x = (Ret r, y) \<longleftrightarrow> (\<exists>w. p (sy_world x) = (Ret r, w) \<and> y = x\<lparr>sy_world := w\<rparr>)"
  by (auto simp: on_world_def on_part_def split: prod.splits)

text \<open>An outcome of the actuation is that of the run, or that of a reconciliation.\<close>

lemma actuate_cases:
  assumes "actuate eg c inputs cid token x = (Ret oc, y)" and "ef_class (cap_effect c) = COMMIT"
  obtains (direct) "run_actuation eg c inputs cid token x = (Ret oc, y)" "o_code oc \<noteq> POSSIBLY_APPLIED" "o_phase oc \<noteq> AFTER_SUBMIT_UNKNOWN"
  | (reconciled) msg z where "reconcile eg c inputs msg z = (Ret oc, y)"
  using assms by (auto simp: actuate_def catch_eq_Ret bnd_eq_Ret split: if_splits)

lemma reconciled_claim:
  assumes "reconcile eg c inputs msg z = (Ret oc, y)"
  shows "settle_claim_status oc = UNCERTAIN \<or>
     (settle_claim_status oc = APPLIED \<and> (\<exists>url u answer. http_get (en_target (eg_env eg)) url u = (answer, sy_world y) \<and> confirms c inputs answer)) \<or>
     (settle_claim_status oc = FAILED_RETRYABLE \<and> (\<exists>url u answer. http_get (en_target (eg_env eg)) url u = (answer, sy_world y) \<and> denies answer))"
proof -
  from assms obtain w where "reconcile_commit_execution (en_target (eg_env eg)) (en_settings (eg_env eg)) c inputs msg (sy_world z) = (Ret oc, w)"
    "sy_world y = w" by (auto simp: reconcile_def on_world_Ret)
  from reconcile_evidence [OF this(1)] this(2) show ?thesis
    by (elim disjE conjE) (auto simp: settle_claim_status_def is_success_def)
qed

text \<open>
  C4: The settlement of an HTTP actuation says no more than the target did.  A claim is
  settled \<open>APPLIED\<close> only when the target's last answer confirmed the complete
  identity; it is opened for a retry, or closed as failed, only when nothing was posted,
  when the one post was refused with 401, or when the target's last answer was a 404.
\<close>

theorem http_settlement_needs_evidence:
  assumes run: "actuate eg c inputs cid token x = (Ret oc, y)" and commit: "ef_class (cap_effect c) = COMMIT" and http: "uses_http c"
    and tg: "en_target (eg_env eg) = traced tg" and x: "sy_world x = (w, log)"
  shows "settle_claim_status oc = UNCERTAIN \<or>
     (settle_claim_status oc = APPLIED \<and> (\<exists>url u answer. http_get (traced tg) url u = (answer, sy_world y) \<and> confirms c inputs answer)) \<or>
     (settle_claim_status oc \<noteq> APPLIED \<and>
       (snd (sy_world y) = log \<or>
        (\<exists>url payload resp v. snd (sy_world y) = log @ [Post url payload] \<and>
           http_post tg url payload (tandem_admin_token (en_settings (eg_env eg))) w = (Inr resp, v) \<and> status_code resp = 401) \<or>
        (\<exists>url u answer. http_get (traced tg) url u = (answer, sy_world y) \<and> denies answer)))"
  using run commit
proof (cases rule: actuate_cases)
  case (reconciled msg z)
  then show ?thesis using reconciled_claim [OF reconciled] tg by auto
next
  case direct
  obtain z where z: "maintain_action_lease eg cid token x = (Ret True, z)" "on_world (execute_http_commit (traced tg)
      (en_settings (eg_env eg)) (en_crash (eg_env eg)) c inputs) z = (Ret oc, y)"
    using direct(1) http tg by (auto simp: run_actuation_def andthen_eq_Ret maintain_action_lease_def)
  have "sy_world z = (w, log)"
    using z(1) x by (auto simp: maintain_action_lease_def andthen_eq_Ret commit_def on_db_def on_part_def split: prod.splits)
  then obtain v log' where e: "execute_http_commit (traced tg) (en_settings (eg_env eg)) (en_crash (eg_env eg)) c inputs (w, log)
      = (Ret oc, (v, log'))" and y: "sy_world y = (v, log')"
    using z(2) by (auto simp: on_world_Ret)
  from commit_outcome [OF e] direct(3) consider (absent) "o_phase oc = BEFORE_SUBMIT" "\<not> is_success oc"
    | (applied) "is_success oc" "\<exists>url u answer. http_get (traced tg) url u = (answer, (v, log')) \<and> confirms c inputs answer" by blast
  then show ?thesis
  proof cases
    case absent
    have "settle_claim_status oc \<noteq> APPLIED" using absent(2) by (simp add: settle_claim_status_def)
    then show ?thesis using commit_log_honest [OF e absent(1)] y by auto
  qed (use y in \<open>simp add: settle_claim_status_def\<close>)
qed

text \<open>The codes of a browser outcome that matter to its settlement.\<close>

lemma failed_code: "o_code (failed_outcome c inputs x e) \<notin> {CONFIRMED_NOT_APPLIED, MEMBER_NOT_FOUND}"
  by (cases e) (simp_all add: failed_at_def)

lemma finish_code:
  "finish_replay en c inputs k x = (Ret oc, y) \<Longrightarrow> o_phase oc = AFTER_SUBMIT_UNKNOWN \<or> o_code oc = COMPLETED"
  by (auto simp: finish_replay_def bnd_eq_Ret andthen_eq_Ret Let_def replay_success_def split: if_splits)

lemma admit_code:
  assumes "admit_replay en c inputs x = (Ret (Some oc), y)" "\<not> en_ui_checks en"
  shows "o_code oc = POLICY_DENIED"
proof -
  have "policy_evaluate c inputs = Inr (Some oc)"
    using assms by (auto simp: admit_replay_def bnd_eq_Ret andthen_eq_Ret split: option.splits if_splits)
  then show ?thesis by (auto simp: policy_evaluate_def split: sum.splits exn.splits)
qed

lemma execute_code:
  assumes "execute en lv c inputs x = (Ret oc, y)" "\<not> en_ui_checks en"
  shows "o_phase oc = AFTER_SUBMIT_UNKNOWN \<or> oc = member_not_found inputs \<or> o_code oc \<notin> {CONFIRMED_NOT_APPLIED, MEMBER_NOT_FOUND}"
proof -
  have "(\<exists>k u. execute_body en lv c inputs k u = (Ret oc, y)) \<or> (\<exists>e. oc = failed_outcome c inputs y e)"
    using assms(1) by (auto simp: execute_def catch_eq_Ret)
  moreover have ?thesis if body: "execute_body en lv c inputs k u = (Ret oc, y)" for k u
  proof -
    obtain a z where a: "admit_replay en c inputs u = (Ret a, z)" and rest: "(case a of Some r \<Rightarrow> ret r | None \<Rightarrow>
         bnd (for_return (replay_step en lv c inputs) (cap_steps c)) (\<lambda>early. case early of
           Some r \<Rightarrow> ret r | None \<Rightarrow> finish_replay en c inputs k)) z = (Ret oc, y)"
      using body unfolding execute_body_def bnd_eq_Ret by blast
    show ?thesis
    proof (cases a)
      case None
      then obtain early v where early: "for_return (replay_step en lv c inputs) (cap_steps c) z = (Ret early, v)"
        and rest: "(case early of Some r \<Rightarrow> ret r | None \<Rightarrow> finish_replay en c inputs k) v = (Ret oc, y)"
        using rest by (auto simp: bnd_eq_Ret)
      show ?thesis
      proof (cases early)
        case None
        then show ?thesis using rest finish_code by fastforce
      next
        case (Some r)
        then show ?thesis using rest replay_early early by fastforce
      qed
    next
      case (Some r)
      then show ?thesis using rest admit_code [OF _ assms(2)] a by fastforce
    qed
  qed
  ultimately show ?thesis using failed_code by blast
qed

text \<open>
  The browser actuation of a COMMIT leaves the claim open for a retry only if no
  submit step acted on the page, or the target's last answer was a 404.
\<close>

theorem browser_retry_is_safe:
  assumes run: "actuate (watched_engine eg) c inputs cid token x = (Ret oc, y)" and commit: "ef_class (cap_effect c) = COMMIT"
    and browser: "\<not> uses_http c" and retry: "settle_claim_status oc = FAILED_RETRYABLE"
  shows "acts y \<le> acts x + clicks_of (cap_steps c) \<or>
     (\<exists>url u answer. http_get (watched_target (en_target (eg_env eg))) url u = (answer, sy_world y) \<and> denies answer)"
  using run commit
proof (cases rule: actuate_cases)
  case (reconciled msg z)
  then show ?thesis using reconciled_claim [OF reconciled] retry by auto
next
  case direct

  have lease: "keeps (quiet m) (maintain_action_lease (watched_engine eg) cid token)" for m
    unfolding maintain_action_lease_def by (intro seen_by_quiet keeps_rules)
  have run: "execute (watched ((eg_env eg)\<lparr>en_ui_checks := False\<rparr>)) (Some (maintain_action_lease (watched_engine eg) cid token)) c inputs x = (Ret oc, y)"
    using direct(1) browser by (simp add: run_actuation_def watched_ui_checks)
  have "oc \<noteq> member_not_found inputs" using retry by (auto simp: settle_claim_status_def member_not_found_def is_success_def)
  then have code: "o_code oc \<notin> {CONFIRMED_NOT_APPLIED, MEMBER_NOT_FOUND}" using execute_code [OF run] direct(3) by simp
  then have "o_phase oc = BEFORE_SUBMIT" using retry by (auto simp: settle_claim_status_def split: if_splits)
  then have "acts y \<le> acts x + clicks_of (cap_steps c)"
    using code lease by (intro replay_phase_honest [OF run commit]) auto
  then show ?thesis by blast
qed

end
