(* ===== verification/EffectSamples.thy ===== *)
theory EffectSamples
  imports Effects
begin

text \<open>
  Concrete executions at which the theorems of \<open>Effects\<close> apply: a chargeback filed by a
  worker that dies right after the target accepted it, a second worker that finds the
  claim, a fenced worker that reconciles, and a browser session that has expired.
\<close>

section \<open>A worker that dies after the target accepted\<close>

definition steady_ambient :: ambient where
  "steady_ambient = \<lparr>amb_now = (\<lambda>_. 0), amb_uuid = (\<lambda>_. ''u''), amb_sha = (\<lambda>_. ''key'')\<rparr>"

definition filing_engine :: "bool engine" where
  "filing_engine = \<lparr>eg_env = \<lparr>en_target = sample_target, en_browser = sample_browser [], en_settings = default_settings,
     en_crash = crash_after_accept, en_overlay = None, en_ui_checks = False\<rparr>, eg_ambient = steady_ambient,
     eg_owner = ''AUTOMATION:1:w'', eg_session = None\<rparr>"

lemma steady_sel [simp]: "amb_now steady_ambient n = 0" "amb_sha steady_ambient t = ''key''"
  by (simp_all add: steady_ambient_def)

lemma filing_engine_sel [simp]: "eg_ambient filing_engine = steady_ambient" "eg_owner filing_engine = ''AUTOMATION:1:w''"
  "eg_session filing_engine = None" "en_target (eg_env filing_engine) = sample_target"
  "en_settings (eg_env filing_engine) = default_settings" "en_crash (eg_env filing_engine) = crash_after_accept"
  "en_overlay (eg_env filing_engine) = None"
  by (simp_all add: filing_engine_def)

text \<open>The case has been opened; the claims and leases are those given.\<close>

definition filing_row :: case_row where
  "filing_row = sample_case_row\<lparr>c_case_id := ''D-8842''\<rparr>"

definition filing_tables :: "claim_row list \<Rightarrow> lease_row list \<Rightarrow> db \<Rightarrow> bool" where
  "filing_tables C L d \<longleftrightarrow> t_cases d = [filing_row] \<and> t_claims d = C \<and> t_leases d = L"

lemma filing_case: "filing_tables C L d \<Longrightarrow> get_case ''D-8842'' d = Some filing_row"
  by (simp add: filing_tables_def get_case_def filing_row_def)

lemma filing_event: "filing_tables C L d \<Longrightarrow> \<exists>e d'. record_event a ''D-8842'' ty st ac p d = (Ret e, d') \<and> filing_tables C L d'"
  by (simp add: record_event_run filing_case) (simp add: filing_tables_def)

lemma filing_create: "filing_tables C L d \<Longrightarrow> \<exists>r d'. create_or_get_case a ''D-8842'' mid (money_val (Money False 34000)) cur proc d
    = (Ret r, d') \<and> filing_tables C L d'"
  using parse_money_val [of "Money False 34000"]
  by (simp add: create_or_get_case_def utc_now_def bnd_def filing_case max_money_cents_def get_case_def filing_tables_def filing_row_def
      select_first_Cons)

lemma filing_claim:
  assumes "filing_tables [] L d"
  shows "\<exists>d' r. claim_effect steady_ambient sample_identity ow None ttl d
     = (Ret \<lparr>ec_acquired = True, ec_status = ''CLAIMED'', ec_fencing_token = 1, ec_owner_id = ow\<rparr>, d') \<and>
     filing_tables [r] L d' \<and> may_move ow 1 [CLAIMED] r \<and> cl_case_id r = ''D-8842'' \<and> cl_idempotency_key r = ''key''"
proof -
  have "get_effect_claim k d = None" for k using assms by (simp add: filing_tables_def get_effect_claim_def)
  then show ?thesis
    using assms by (auto simp: claim_effect_def time_or_now_def utc_now_def bnd_def idempotency_key_def insert_claim_def
        get_effect_claim_def filing_tables_def get_case_def filing_row_def select_first_Cons new_claim_def sample_identity_def
        andthen_def record_event_run may_move_def Let_def)
qed

lemma filing_move:
  assumes "filing_tables [r] L d" "may_move ow tok [from] r" "cl_case_id r = ''D-8842''" "cl_idempotency_key r = key"
  shows "\<exists>d' r'. transition_effect_claim a key ow tok [from] to None d = (Ret True, d') \<and> filing_tables [r'] L d'"
proof -
  have u: "claims_unique d" using assms by (simp add: filing_tables_def claims_unique_def unique_on_def)
  have got: "get_effect_claim key d = Some r"
    using assms by (simp add: filing_tables_def get_effect_claim_def select_first_Cons)
  obtain res d' where run: "transition_effect_claim a key ow tok [from] to None d = (res, d')" by force
  have "keeps (\<lambda>d. t_leases d = L) (transition_effect_claim a key ow tok [from] to None)"
    unfolding transition_effect_claim_def
    by (intro keeps_rules; simp add: keeps_def time_or_now_def utc_now_def update_claims_def record_event_run)
  from keepsD_run [OF this _ run] assms(1) have l: "t_leases d' = L" by (simp add: filing_tables_def)
  from u run show ?thesis
  proof (cases rule: transition_cases)
    case (moved r' t)
    then show ?thesis using run l got assms filing_case [OF assms(1)]
      by (auto simp: filing_tables_def update_where_def)
  qed (use got assms in auto)
qed

lemma filing_lease:
  assumes "filing_tables C [] d"
  shows "\<exists>l d'. acquire_lease steady_ambient ''D-8842'' ow (Some ''AUTOMATION'') None five_minutes None d = (Ret l, d') \<and>
     filing_tables C [l] d' \<and> ls_fencing_token l = 1 \<and> heartbeat_ok ow 1 0 l \<and> ls_case_id l = ''D-8842''"
  using assms
  by (auto simp: acquire_lease_def time_or_now_def utc_now_def bnd_def andthen_def unless_raise_def normalized_owner_type_def
      get_lease_def filing_tables_def lease_acquired_event_def record_event_run get_case_def filing_row_def select_first_Cons
      read_lease_def heartbeat_ok_def lease_is_active_def new_lease_def five_minutes_def second_us_def lease_resource_def Let_def)

lemma filing_heartbeat:
  assumes "filing_tables C [l] d" "heartbeat_ok ow 1 0 l" "ls_case_id l = ''D-8842''"
  shows "\<exists>l' d'. heartbeat_lease steady_ambient ''D-8842'' ow 1 None five_minutes d = (Ret l', d')"
proof -
  have u: "leases_unique (d\<lparr>tick := Suc (tick d)\<rparr>)" and got: "get_lease ''D-8842'' (d\<lparr>tick := Suc (tick d)\<rparr>) = Some l"
    using assms by (simp_all add: filing_tables_def leases_unique_def unique_on_def get_lease_def select_first_Cons)
  have "heartbeat_lease steady_ambient ''D-8842'' ow 1 None five_minutes d
      = heartbeat_lease steady_ambient ''D-8842'' ow 1 (Some 0) five_minutes (d\<lparr>tick := Suc (tick d)\<rparr>)"
    by (simp add: heartbeat_lease_def time_or_now_def utc_now_def bnd_def)
  then show ?thesis using heartbeat_run [OF u] got assms(2) by simp
qed

lemma filing_start:
  assumes "filing_tables C L d"
  shows "\<exists>r d'. start_execution a ''D-8842'' k v ec key ee (Some (money_val (Money False 34000))) ac bs d = (Ret r, d') \<and> filing_tables C L d'"
  using assms parse_money_val [of "Money False 34000"]
  by (auto simp: start_execution_def opt_money_def bnd_def utc_now_def andthen_def require_case_row_def filing_case unless_raise_def
      max_money_cents_def record_event_run filing_tables_def get_case_def filing_row_def select_first_Cons Let_def)

lemma filing_intent:
  assumes "filing_tables C L d"
  shows "\<exists>r d'. stage_intent a ''D-8842'' key k d = (Ret r, d') \<and> filing_tables C L d'"
  using assms
  by (auto simp: stage_intent_def bnd_def utc_now_def andthen_def record_event_run filing_tables_def get_case_def filing_row_def
      select_first_Cons Let_def split: option.split)

text \<open>The stages of the execution, on a system whose target has nothing on file.\<close>

definition filing_at :: "claim_row list \<Rightarrow> lease_row list \<Rightarrow> (bool \<times> nat) system \<Rightarrow> bool" where
  "filing_at C L x \<longleftrightarrow> filing_tables C L (sy_db x) \<and> sy_world x = (False, 0)"

lemma filing_at_simps [simp]: "filing_at C L (x\<lparr>sy_saved := d\<rparr>) = filing_at C L x"
  by (simp add: filing_at_def)

lemma filing_db:
  assumes "filing_at C L x" "\<exists>v d'. p (sy_db x) = (Ret v, d') \<and> filing_tables C' L' d'"
  obtains v y where "on_db p x = (Ret v, y)" "filing_at C' L' y"
  using assms by (auto simp: on_db_def on_part_def filing_at_def)

lemma crash_points [simp]:
  "eg_crash (watched_engine filing_engine) ''C_AFTER_CLAIM'' c = ret ()"
  "eg_crash (watched_engine filing_engine) ''D_AFTER_PRECHECK'' c = ret ()"
  by (simp_all add: eg_crash_def maybe_crash_def crash_after_accept_def)

lemma filing_inputs_sel:
  "dict_val filing_inputs ''case_id'' = VStr ''D-8842''" "dict_default filing_inputs ''case_id'' v = VStr ''D-8842''"
  "dict_val filing_inputs ''account_id'' = VStr ''CHK-8830142-01''" "dict_default filing_inputs ''amount'' v = money_val (Money False 34000)"
  "dict_get filing_inputs ''amount'' = Some (money_val (Money False 34000))" "dict_default filing_inputs ''currency'' v = VStr ''USD''"
  by (simp_all add: filing_inputs_def sample_inputs_def dict_val_def dict_default_def dict_get_def)

lemma filing_prepared: "prepare_inputs eg chargeback_capability filing_inputs (Money False 34000) = filing_inputs"
  by (simp add: prepare_inputs_def filing_inputs_def sample_inputs_def dict_setdefault_def)

lemma filing_commit: "ef_class (cap_effect chargeback_capability) = COMMIT" "ef_precheck (cap_effect chargeback_capability) \<noteq> None"
  "uses_http chargeback_capability"
  by (simp_all add: chargeback_capability_def chargeback_effect_def chargeback_step_def uses_http_def)

lemma filing_parsed: "parse_money (money_val (Money False 34000)) = Inr (Money False 34000)"
  by (rule parse_money_val) (simp add: max_money_cents_def)

lemma filing_policy: "policy_evaluate chargeback_capability filing_inputs = Inr None"
  by (simp add: policy_evaluate_def validate_policy_def filing_commit check_amount_def filing_inputs_sel filing_parsed check_currency_def
      check_guard_present_def policy_bound_def)
    (simp add: chargeback_capability_def chargeback_effect_def cents_def)

lemma filing_route: "target_route default_settings chargeback_capability filing_inputs
    = Inr (Some (''http://127.0.0.1:8003/api/chargebacks/D-8842'', False, ''network_ref''))"
  by (simp add: target_route_def chargeback_capability_def filing_inputs_sel sample_url fstr_def)

lemma watched_get: "get_url (watched_target tg) url (w, n) = (case http_get tg url w of (r, v) \<Rightarrow> (Ret r, (v, n)))"
  by (simp add: get_url_def watched_target_def split: prod.splits)

lemma watched_post: "post_form (watched_target tg) url d t (w, n) = (case http_post tg url d t w of (r, v) \<Rightarrow> (Ret r, (v, Suc n)))"
  by (simp add: post_form_def watched_target_def split: prod.splits)

lemma filing_precheck:
  assumes "filing_at C L x"
  shows "precheck (watched_engine filing_engine) chargeback_capability filing_inputs x
     = (Ret (precheck_result NOT_APPLIED ''Target positively confirmed effect absence''), x)"
proof -
  have w: "sy_world x = (False, 0)" using assms by (simp add: filing_at_def)
  obtain ps where "ef_precheck (cap_effect chargeback_capability) = Some ps" using filing_commit by blast
  then show ?thesis
    by (simp add: precheck_def on_world_def on_part_def execute_precheck_def filing_commit filing_inputs_sel filing_route bnd_def
        watched_get read_precheck_def sample_answer_def w)
qed

lemma filing_admitted:
  assumes "filing_at [] [] x"
  shows "\<exists>cl r y. admit_commit (watched_engine filing_engine) chargeback_capability filing_inputs ''D-8842'' (Some sample_identity) (Some ''key'') x
     = (Ret (Inr (Some cl)), y) \<and> filing_at [r] [] y \<and> ec_fencing_token cl = 1 \<and> may_move ''AUTOMATION:1:w'' 1 [CLAIMED] r \<and>
     cl_case_id r = ''D-8842'' \<and> cl_idempotency_key r = ''key''"
proof -
  let ?cl = "\<lparr>ec_acquired = True, ec_status = ''CLAIMED'', ec_fencing_token = 1, ec_owner_id = ''AUTOMATION:1:w''\<rparr>"
  obtain d r where d: "claim_effect steady_ambient sample_identity ''AUTOMATION:1:w'' None five_minutes (sy_db x) = (Ret ?cl, d)"
    "filing_tables [r] [] d" and r: "may_move ''AUTOMATION:1:w'' 1 [CLAIMED] r" "cl_case_id r = ''D-8842''" "cl_idempotency_key r = ''key''"
    using filing_claim [of "[]" "sy_db x"] assms by (fastforce simp: filing_at_def)
  let ?x1 = "x\<lparr>sy_db := d, sy_saved := d\<rparr>"
  have a: "admit_effect (watched_engine filing_engine) chargeback_capability filing_inputs ''D-8842'' sample_identity ''key'' x = (Ret (Inr ?cl), ?x1)"
    by (simp add: admit_effect_def bnd_def andthen_def on_db_def on_part_def d commit_def)
  have x1: "filing_at [r] [] ?x1" using d assms by (simp add: filing_at_def)
  obtain i x2 where i: "on_db (stage_intent steady_ambient ''D-8842'' ''key'' (cap_id chargeback_capability)) ?x1 = (Ret i, x2)" and x2: "filing_at [r] [] x2"
    using filing_db [OF x1, of "stage_intent steady_ambient ''D-8842'' ''key'' (cap_id chargeback_capability)" "[r]" "[]"]
      filing_intent x1 by (metis filing_at_def)
  obtain e x3 where e: "on_db (record_event steady_ambient ''D-8842'' ''EFFECT_INTENT_STAGED'' (cap_id chargeback_capability) ''AUTOMATION''
      (Some [(''idempotency_key'', VStr ''key'')])) x2 = (Ret e, x3)" and x3: "filing_at [r] [] x3"
    using filing_db [OF x2, of "record_event steady_ambient ''D-8842'' ''EFFECT_INTENT_STAGED'' (cap_id chargeback_capability) ''AUTOMATION''
      (Some [(''idempotency_key'', VStr ''key'')])" "[r]" "[]"] filing_event x2 by (metis filing_at_def)
  have "precheck_effect (watched_engine filing_engine) chargeback_capability filing_inputs ''D-8842'' ''key'' ?cl ?x1 = (Ret None, x3\<lparr>sy_saved := sy_db x3\<rparr>)"
    by (simp add: precheck_effect_def filing_precheck [OF x1] precheck_result_def stage_effect_def eg_event_def
        andthen_def bnd_def i e commit_def)
  then have "admit_commit (watched_engine filing_engine) chargeback_capability filing_inputs ''D-8842'' (Some sample_identity) (Some ''key'') x
      = (Ret (Inr (Some ?cl)), x3\<lparr>sy_saved := sy_db x3\<rparr>)"
    by (simp add: admit_commit_def filing_commit bnd_def a)
  then show ?thesis using x3 r by fastforce
qed

lemma filing_applied:
  assumes x: "filing_at [r] [] x" and r: "may_move ''AUTOMATION:1:w'' 1 [CLAIMED] r" "cl_case_id r = ''D-8842''" "cl_idempotency_key r = ''key''"
    and cl: "ec_fencing_token cl = 1"
  shows "\<exists>y. apply_effect (watched_engine filing_engine) chargeback_capability filing_inputs ''D-8842'' mid (Money False 34000) (Some ''key'')
     (Some (''key'', cl)) x = (Died, y) \<and> acts y = 1"
proof -
  let ?eg = "watched_engine filing_engine" and ?ow = "''AUTOMATION:1:w''"
  obtain l d1 where d1: "acquire_lease steady_ambient ''D-8842'' ?ow (Some ''AUTOMATION'') None five_minutes None (sy_db x) = (Ret l, d1)"
    "filing_tables [r] [l] d1" and l: "ls_fencing_token l = 1" "heartbeat_ok ?ow 1 0 l" "ls_case_id l = ''D-8842''"
    using filing_lease x by (metis filing_at_def)
  obtain d2 r' where d2: "transition_effect_claim steady_ambient ''key'' ?ow 1 [CLAIMED] APPLYING None d1 = (Ret True, d2)" "filing_tables [r'] [l] d2"
    using filing_move [OF d1(2) r] by blast
  obtain row d3 where d3: "start_execution steady_ambient ''D-8842'' (cap_id chargeback_capability) (cap_version chargeback_capability)
      ''COMMIT'' (Some ''key'') (Some mid) (Some (money_val (Money False 34000))) ''AUTOMATION'' None d2 = (Ret row, d3)" "filing_tables [r'] [l] d3"
    using filing_start [OF d2(2)] by blast
  obtain l' d4 where d4: "heartbeat_lease steady_ambient ''D-8842'' ?ow 1 None five_minutes d3 = (Ret l', d4)"
    using filing_heartbeat [OF d3(2) l(2,3)] by blast
  let ?x1 = "x\<lparr>sy_db := d3, sy_saved := d3\<rparr>" and ?x2 = "x\<lparr>sy_db := d4, sy_saved := d4, sy_world := (True, 1)\<rparr>"
  have enter: "enter_applying ?eg chargeback_capability ''D-8842'' mid (Money False 34000) (Some ''key'') (Some (''key'', cl)) x
      = (Ret (1, ex_id row), ?x1)"
    by (simp add: enter_applying_def on_db_def on_part_def bnd_def andthen_def move_claim_def cl d1 d2 d3 l(1) commit_def filing_commit
        unless_raise_def del: One_nat_def)
  have w: "sy_world x = (False, 0)" using x by (simp add: filing_at_def)
  have "run_actuation ?eg chargeback_capability filing_inputs ''D-8842'' 1 ?x1 = (Died, ?x2)"
    by (simp add: run_actuation_def filing_commit maintain_action_lease_def on_db_def on_part_def bnd_def andthen_def d4 commit_def
        on_world_def filing_run dispatch_commit_def watched_post w sample_target_def read_commit_answer_def sample_answer_def
        del: One_nat_def)
  then have "actuate ?eg chargeback_capability filing_inputs ''D-8842'' 1 ?x1 = (Died, ?x2)"
    by (simp add: actuate_def catch_def bnd_def)
  then have "apply_effect ?eg chargeback_capability filing_inputs ''D-8842'' mid (Money False 34000) (Some ''key'') (Some (''key'', cl)) x = (Died, ?x2)"
    using enter by (simp add: apply_effect_def bnd_def)
  then show ?thesis by simp
qed

definition filing_system :: "(bool \<times> nat) system" where
  "filing_system = sample_system (False, 0)\<lparr>sy_db := empty_db\<lparr>t_cases := [filing_row]\<rparr>, sy_saved := empty_db\<lparr>t_cases := [filing_row]\<rparr>\<rparr>"

lemma filing_executed:
  "\<exists>y. execute_capability (watched_engine filing_engine) chargeback_capability filing_inputs filing_system = (Died, y) \<and> acts y = 1"
proof -
  let ?eg = "watched_engine filing_engine"
  have x: "filing_at [] [] filing_system"
    by (simp add: filing_at_def filing_tables_def filing_system_def sample_system_def empty_db_def)
  let ?mid = "''8830142''"
  have mid: "dict_default filing_inputs ''member_id'' v = VStr ?mid" for v
    by (simp add: filing_inputs_def sample_inputs_def dict_default_def)
  obtain row x1 where c: "on_db (create_or_get_case steady_ambient ''D-8842'' ?mid (money_val (Money False 34000)) ''USD'' ''reg_e_dispute'') filing_system
      = (Ret row, x1)" and x1: "filing_at [] [] x1"
    using filing_db [OF x, of "create_or_get_case steady_ambient ''D-8842'' ?mid (money_val (Money False 34000)) ''USD'' ''reg_e_dispute''" "[]" "[]"]
      filing_create x by (metis filing_at_def)
  have key: "effect_key ?eg chargeback_capability filing_inputs (Some sample_identity) = Some ''key''"
    by (simp add: effect_key_def opt_truthy_def idempotency_key_def)
  obtain cl r y where ad: "admit_commit ?eg chargeback_capability filing_inputs ''D-8842'' (Some sample_identity) (Some ''key'') x1
      = (Ret (Inr (Some cl)), y)" and y: "filing_at [r] [] y" "ec_fencing_token cl = 1" "may_move ''AUTOMATION:1:w'' 1 [CLAIMED] r"
        "cl_case_id r = ''D-8842''" "cl_idempotency_key r = ''key''"
    using filing_admitted [OF x1] by blast
  obtain z where z: "apply_effect ?eg chargeback_capability filing_inputs ''D-8842'' ?mid (Money False 34000) (Some ''key'') (Some (''key'', cl)) y
      = (Died, z)" "acts z = 1" using filing_applied [OF y(1,3,4,5,2)] by blast
  have "execute_admitted ?eg chargeback_capability filing_inputs ''D-8842'' ?mid (Money False 34000) (Some sample_identity) filing_system = (Died, z)"
    by (simp add: execute_admitted_def filing_inputs_sel andthen_def bnd_def c filing_policy key ad held_def z)
  then have "execute_capability ?eg chargeback_capability filing_inputs filing_system = (Died, z)"
    by (simp add: execute_capability_def filing_inputs_sel mid filing_parsed filing_prepared complete_inputs_def filing_commit filing_identity)
  then show ?thesis using z(2) by blast
qed


section \<open>Instances of the theorems\<close>

theorem acts_under_durable_claim_witness:
  "\<exists>y inputs' i tok. execute_capability (watched_engine filing_engine) chargeback_capability filing_inputs filing_system = (Died, y) \<and>
     completes filing_inputs inputs' \<and> identity_from_capability chargeback_capability inputs' = Inr i \<and>
     claim_is (idempotency_key (amb_sha steady_ambient) i) ''AUTOMATION:1:w'' tok APPLYING (sy_saved y)"
proof -
  obtain y where run: "execute_capability (watched_engine filing_engine) chargeback_capability filing_inputs filing_system = (Died, y)"
    and acts: "acts y = 1" using filing_executed by blast
  have "ledger_inv claims_ok filing_system" "acts filing_system = 0"
    by (simp_all add: ledger_inv_def filing_system_def claims_ok_def claims_unique_def unique_on_def empty_db_def sample_system_def)
  then show ?thesis using acts_under_durable_claim [OF run filing_commit(1)] acts run by auto
qed

theorem execution_keeps_chain_witness:
  "\<exists>r y. execute_capability (watched_engine filing_engine) chargeback_capability filing_inputs filing_system = (r, y) \<and>
     cv_valid (verify_event_chain (amb_sha steady_ambient) ''D-8842'' (sy_db y)) \<and>
     cv_valid (verify_event_chain (amb_sha steady_ambient) ''D-8842'' (sy_saved y))"
proof -
  obtain y where run: "execute_capability (watched_engine filing_engine) chargeback_capability filing_inputs filing_system = (Died, y)"
    using filing_executed by blast
  have "chain_inv (amb_sha steady_ambient) (empty_db\<lparr>t_cases := [filing_row]\<rparr>)"
    using chain_inv_empty by simp
  then have "ledger_inv (chain_inv (amb_sha (eg_ambient (watched_engine filing_engine)))) filing_system"
    by (simp add: ledger_inv_def filing_system_def)
  from execution_keeps_chain [OF this run] run show ?thesis by auto
qed

text \<open>The claim that the dead worker left behind stops the next one.\<close>

definition abandoned_system :: "(bool \<times> nat) system" where
  "abandoned_system = filing_system\<lparr>sy_db := empty_db\<lparr>t_cases := [filing_row],
     t_claims := [(new_claim ''key'' sample_identity ''AUTOMATION:7:v'' 0 five_minutes 1)\<lparr>cl_status := ''APPLYING''\<rparr>]\<rparr>\<rparr>"

theorem foreign_claim_never_acts_witness:
  "acts (snd (execute_capability (watched_engine filing_engine) chargeback_capability filing_inputs abandoned_system)) = 0"
proof -
  obtain r y where run: "execute_capability (watched_engine filing_engine) chargeback_capability filing_inputs abandoned_system = (r, y)" by force
  have amt: "parse_money (dict_default filing_inputs ''amount'' (VStr ''0.00'')) = Inr (Money False 34000)"
    by (simp add: filing_inputs_sel filing_parsed)
  have row: "get_effect_claim (idempotency_key (amb_sha (eg_ambient filing_engine)) sample_identity) (sy_db abandoned_system)
      = Some ((new_claim ''key'' sample_identity ''AUTOMATION:7:v'' 0 five_minutes 1)\<lparr>cl_status := ''APPLYING''\<rparr>)"
    by (simp add: abandoned_system_def get_effect_claim_def idempotency_key_def new_claim_def select_first_Cons)
  have "claims_unique (sy_db abandoned_system)" by (simp add: abandoned_system_def claims_unique_def unique_on_def)
  from foreign_claim_never_acts [OF run filing_commit(1) amt _ _ row _ this] run show ?thesis
    by (simp add: filing_prepared filing_inputs_sel filing_identity) (simp add: abandoned_system_def filing_system_def sample_system_def)
qed

text \<open>A worker without a lease is stopped at the heartbeat and asks the target, which reports absence.\<close>

definition fenced_engine :: "(bool \<times> request list) engine" where
  "fenced_engine = \<lparr>eg_env = \<lparr>en_target = traced sample_target, en_browser = sample_browser [], en_settings = default_settings,
     en_crash = crash_after_accept, en_overlay = None, en_ui_checks = False\<rparr>, eg_ambient = steady_ambient,
     eg_owner = ''AUTOMATION:1:w'', eg_session = None\<rparr>"

lemma traced_get: "get_url (traced tg) url (w, log) = (case http_get tg url w of (r, v) \<Rightarrow> (Ret r, (v, log @ [Get url])))"
  by (simp add: get_url_def traced_def split: prod.splits)

lemma fenced_reconciled:
  "\<exists>oc y. actuate fenced_engine chargeback_capability filing_inputs ''D-8842'' 1 (sample_system (False, [])) = (Ret oc, y) \<and>
     o_code oc = CONFIRMED_NOT_APPLIED \<and> settle_claim_status oc = FAILED_RETRYABLE"
proof -
  let ?x = "sample_system (False, []) :: (bool \<times> request list) system"
  have none: "t_leases (sy_db ?x) = []" by (simp add: sample_system_def sample_db_def empty_db_def)
  have "\<exists>e z. maintain_action_lease fenced_engine ''D-8842'' 1 ?x = (Raise e, z) \<and> sy_world z = (False, [])"
    using none by (simp add: maintain_action_lease_def fenced_engine_def on_db_def on_part_def heartbeat_lease_def time_or_now_def utc_now_def
        bnd_def andthen_def update_leases_def rowcount_def sample_system_def)
  then obtain e z where z: "maintain_action_lease fenced_engine ''D-8842'' 1 ?x = (Raise e, z)" "sy_world z = (False, [])" by blast
  have "\<exists>p v. execute_postcheck (traced sample_target) default_settings chargeback_capability filing_inputs (False, []) = (Ret p, v) \<and>
      o_code p = CONFIRMED_NOT_APPLIED \<and> o_category p = BUSINESS_OUTCOME"
    using filing_commit by (auto simp: execute_postcheck_def filing_inputs_sel filing_route bnd_def read_postcheck_def sample_answer_def
        is_success_def traced_get)
  then obtain p v where p: "execute_postcheck (traced sample_target) default_settings chargeback_capability filing_inputs (False, []) = (Ret p, v)"
    "o_code p = CONFIRMED_NOT_APPLIED" "o_category p = BUSINESS_OUTCOME" by blast
  have stop: "inquire_again tg cfg c i n k p w = (Ret (p, k), w)" for tg :: "'w target" and cfg c i n k w
    using p(2) by (cases n) simp_all
  let ?oc = "settle_inquiry chargeback_capability filing_inputs (exn_text e) (p, 1)"
  have "reconcile fenced_engine chargeback_capability filing_inputs (exn_text e) z = (Ret ?oc, z\<lparr>sy_world := v\<rparr>)"
    using z(2) p(1) by (simp add: reconcile_def on_world_def on_part_def reconcile_commit_execution_def fenced_engine_def bnd_def stop)
  then have "actuate fenced_engine chargeback_capability filing_inputs ''D-8842'' 1 ?x = (Ret ?oc, z\<lparr>sy_world := v\<rparr>)"
    using z(1) filing_commit by (simp add: actuate_def run_actuation_def catch_def bnd_def andthen_def)
  then show ?thesis using p by (auto simp: settle_inquiry_def settle_claim_status_def is_success_def)
qed

theorem http_settlement_needs_evidence_witness:
  "\<exists>oc y. actuate fenced_engine chargeback_capability filing_inputs ''D-8842'' 1 (sample_system (False, [])) = (Ret oc, y) \<and>
     (snd (sy_world y) = [] \<or> (\<exists>url payload. snd (sy_world y) = [Post url payload]) \<or>
       (\<exists>url u answer. http_get (traced sample_target) url u = (answer, sy_world y) \<and> denies answer))"
proof -
  obtain oc y where run: "actuate fenced_engine chargeback_capability filing_inputs ''D-8842'' 1 (sample_system (False, [])) = (Ret oc, y)"
    and st: "settle_claim_status oc = FAILED_RETRYABLE" using fenced_reconciled by blast
  have "en_target (eg_env fenced_engine) = traced sample_target" "sy_world (sample_system (False, []) :: (bool \<times> request list) system) = (False, [])"
    by (simp_all add: fenced_engine_def sample_system_def)
  from http_settlement_needs_evidence [OF run filing_commit(1,3) this] run st show ?thesis by fastforce
qed

definition expired_engine :: "bool engine" where
  "expired_engine = filing_engine\<lparr>eg_env := sample_env ''SESSION EXPIRED''\<rparr>"

theorem browser_retry_is_safe_witness:
  "\<exists>oc y. actuate (watched_engine expired_engine) submit_capability sample_inputs ''D-8842'' 1 (sample_system (False, 0)) = (Ret oc, y) \<and>
     settle_claim_status oc = FAILED_RETRYABLE \<and>
     (acts y \<le> 0 \<or> (\<exists>url u answer. http_get (watched_target sample_target) url u = (answer, sy_world y) \<and> denies answer))"
proof -
  let ?x = "sample_system (False, 0) :: (bool \<times> nat) system"
  let ?oc = "failed_outcome submit_capability sample_inputs ?x (SessionExpiredError ''Target system session has timed out'')"
  have post: "\<not> uses_http submit_capability" by (simp add: uses_http_def submit_capability_def chargeback_step_def)
  have env: "(watched (sample_env ''SESSION EXPIRED''))\<lparr>en_ui_checks := False\<rparr> = watched (sample_env ''SESSION EXPIRED'')"
    by (simp add: watched_ui_checks sample_env_def)
  have oc: "o_code ?oc = SESSION_EXPIRED" "o_phase ?oc = BEFORE_SUBMIT" "settle_claim_status ?oc = FAILED_RETRYABLE"
    by (simp_all add: failed_at_def sample_system_def settle_claim_status_def is_success_def)
  have run: "actuate (watched_engine expired_engine) submit_capability sample_inputs ''D-8842'' 1 ?x = (Ret ?oc, ?x)"
    using oc(1,2) by (simp add: actuate_def run_actuation_def post expired_engine_def env expired_run catch_def bnd_def)
  from browser_retry_is_safe [OF run submit_capability_facts(2) post oc(3)] run oc(3) show ?thesis
    by (auto simp: submit_capability_facts(4) sample_system_def expired_engine_def sample_env_def)
qed

end
