(* ===== verification/Recovery.thy ===== *)
theory Recovery
  imports Effects
begin

text \<open>
  What a resumed workflow does before any new work: the recovery of claims whose worker
  died (\<open>tandem/replay/crash_recovery.py\<close>) and the comparison of applied claims with the
  records of their targets (\<open>tandem/replay/target_reconciliation.py\<close>).  The process table
  and the reading of capability files are parameters; that they do not change during one
  recovery is an assumption of the model.  \<open>audited\<close> is a target that keeps a record of
  every exchange, so that a theorem can name the answer a decision rests on.
\<close>

section \<open>The owner of a claim\<close>

text \<open>\<open>int(text)\<close>: blanks around, a sign, digits with single underscores between them.\<close>

definition parse_int :: "string \<Rightarrow> int option" where
  "parse_int text =
     (let s = strip text;
          neg = (s \<noteq> [] \<and> hd s = CHR ''-'');
          body = (if s \<noteq> [] \<and> (hd s = CHR ''-'' \<or> hd s = CHR ''+'') then tl s else s);
          digits = filter is_digit body in
      if body \<noteq> [] \<and> list_all (\<lambda>c. is_digit c \<or> c = CHR ''_'') body \<and> hd body \<noteq> CHR ''_'' \<and>
         last body \<noteq> CHR ''_'' \<and> \<not> contains ''__'' body \<and> length digits \<le> 4300
      then Some (if neg then - int (digits_value digits) else int (digits_value digits)) else None)"

text \<open>The text before the first colon and, where there is a colon, the text after it.\<close>

definition split_colon :: "string \<Rightarrow> string \<times> string option" where
  "split_colon s = (takeWhile (\<lambda>c. c \<noteq> CHR '':'') s,
     case dropWhile (\<lambda>c. c \<noteq> CHR '':'') s of [] \<Rightarrow> None | _ # rest \<Rightarrow> Some rest)"

datatype windows_process = No_Handle | No_Exit_Code | Exit_Code nat

record processes =
  ps_own_pid :: int
  ps_windows :: bool
  ps_query :: "int \<Rightarrow> windows_process"
  ps_signalled :: "int \<Rightarrow> bool"

definition still_active :: nat where "still_active = 259"

text \<open>\<open>os.kill(pid, 0)\<close> converts the pid to a C \<open>int\<close> first; any refusal is an \<open>OSError\<close>.\<close>

definition process_is_dead :: "processes \<Rightarrow> int \<Rightarrow> bool res" where
  "process_is_dead ps pid =
     (if ps_windows ps
      then Inr (case ps_query ps pid of No_Handle \<Rightarrow> True | No_Exit_Code \<Rightarrow> False | Exit_Code n \<Rightarrow> n \<noteq> still_active)
      else if pid < - (2 ^ 31) \<or> 2 ^ 31 \<le> pid then Inl (OverflowError ''pid out of range'')
      else Inr (\<not> ps_signalled ps pid))"

definition local_owner_is_dead :: "processes \<Rightarrow> string \<Rightarrow> bool res" where
  "local_owner_is_dead ps owner_id = (case split_colon owner_id of
      (kind, None) \<Rightarrow> Inr False
    | (kind, Some rest) \<Rightarrow>
        if kind \<noteq> ''AUTOMATION'' then Inr False
        else (case parse_int (fst (split_colon rest)) of
            None \<Rightarrow> Inr False
          | Some pid \<Rightarrow> if pid = ps_own_pid ps then Inr False else process_is_dead ps pid))"

section \<open>Recovering abandoned claims\<close>

text \<open>Reading and parsing a YAML file, and the schema of its fields, are the libraries'.\<close>

record artifacts =
  af_read :: "string \<Rightarrow> val res"
  af_fields :: "dict \<Rightarrow> capability res"

record 'w recovery =
  rc_target :: "'w target"
  rc_settings :: settings
  rc_ambient :: ambient
  rc_processes :: processes
  rc_artifacts :: artifacts

definition load_capability_from_yaml :: "(string \<Rightarrow> string) \<Rightarrow> artifacts \<Rightarrow> string \<Rightarrow> capability res" where
  "load_capability_from_yaml sha af path = rbind (af_read af path) (load_capability sha (af_fields af))"

definition capability_files :: "(string \<times> string) list" where
  "capability_files =
     [(''core.post_provisional_credit'', ''capabilities/core/post_provisional_credit.yaml''),
      (''processor.file_chargeback'', ''capabilities/processor/file_chargeback.yaml''),
      (''docs.send_notice'', ''capabilities/documents/send_notice.yaml'')]"

definition needs_human :: "outcome_code \<Rightarrow> string \<Rightarrow> execution_outcome" where
  "needs_human co msg = outcome CAT_NEEDS_HUMAN co msg"

definition recovery_inputs :: "claim_row \<Rightarrow> dict" where
  "recovery_inputs r =
     [(''institution_id'', VStr (cl_institution_id r)), (''member_id'', VStr (cl_member_id r)),
      (''account_id'', VStr (cl_account_id r)), (''case_id'', VStr (cl_case_id r)),
      (''amount'', money_val (cl_amount r)), (''currency'', VStr (cl_currency r))]"

definition in_flight :: "claim_row \<Rightarrow> bool" where
  "in_flight r \<longleftrightarrow> cl_status r \<in> {claim_status_value CLAIMED, claim_status_value APPLYING}"

definition recovery_move :: "'w recovery \<Rightarrow> claim_row \<Rightarrow> claim_status \<Rightarrow> ('w system, bool) prog" where
  "recovery_move rc r to =
     on_db (transition_effect_claim (rc_ambient rc) (cl_idempotency_key r) (cl_owner_id r) (cl_fencing_token r)
       [CLAIMED, APPLYING] to None)"

definition moves_money :: "claim_row \<Rightarrow> bool" where
  "moves_money r \<longleftrightarrow> cl_capability_id r = ''core.post_provisional_credit''"

text \<open>The bookkeeping the dead worker did not get to.\<close>

definition settle_recovered :: "'w recovery \<Rightarrow> string \<Rightarrow> claim_row \<Rightarrow> execution_outcome \<Rightarrow> ('w system, unit) prog" where
  "settle_recovered rc case_id r target =
     (let a = rc_ambient rc in
     bnd (gets (\<lambda>x. list_ex (\<lambda>e. ex_capability_id e = cl_capability_id r \<and>
         ex_status e \<in> {''SUCCESS'', ''COMPLETED'', ''ALREADY_APPLIED''}) (get_executions_for_case case_id (sy_db x)))) (\<lambda>recorded.
     andthen (if recorded then ret ()
       else bnd (on_db (start_execution a case_id (cl_capability_id r) ''1.0.0'' ''COMMIT'' (Some (cl_idempotency_key r))
              (Some (cl_member_id r)) (Some (money_val (cl_amount r))) ''AUTOMATION'' None)) (\<lambda>row.
            andthen (on_db (complete_execution a (ex_id row) ''COMPLETED'' (Some (cl_member_id r)) (Some (money_val (cl_amount r)))
              None (o_audit_ref target) (moves_money r))) (ret ()))) (
     andthen (on_db (stage_intent a case_id (cl_idempotency_key r) (cl_capability_id r))) (
     andthen (on_db (mark_intent_committed a (cl_idempotency_key r))) (
     andthen (if moves_money r
       then andthen (on_db (update_case_status a case_id ''PROVISIONAL_CREDIT_POSTED'' (Some True))) (ret ()) else ret ()) (
     andthen (on_db (record_event a case_id ''CRASH_RECOVERY_CONFIRMED_APPLIED'' (cl_capability_id r) ''AUTOMATION''
       (Some [(''audit_ref'', opt_val VStr (o_audit_ref target))]))) (ret ())))))))"

definition changed_concurrently :: execution_outcome where
  "changed_concurrently = needs_human TARGET_RECONCILIATION_UNAVAILABLE ''Claim changed concurrently during crash recovery''"

text \<open>What the answer of the target decides; \<open>Some\<close> outcome stops the recovery.\<close>

definition act_on_inquiry ::
  "'w recovery \<Rightarrow> string \<Rightarrow> claim_row \<Rightarrow> execution_outcome \<Rightarrow> ('w system, execution_outcome option) prog" where
  "act_on_inquiry rc case_id r target =
     (if o_code target = ALREADY_APPLIED
      then bnd (recovery_move rc r APPLIED) (\<lambda>moved.
        if \<not> moved then ret (Some changed_concurrently)
        else andthen (settle_recovered rc case_id r target) (ret None))
      else if o_code target = NOT_APPLIED
      then bnd (recovery_move rc r FAILED_RETRYABLE) (\<lambda>moved.
        if \<not> moved then ret (Some changed_concurrently)
        else andthen (on_db (record_event (rc_ambient rc) case_id ''CRASH_RECOVERY_CONFIRMED_ABSENT'' (cl_capability_id r)
               ''AUTOMATION'' (Some [(''safe_to_retry'', VBool True)]))) (ret None))
      else ret (Some (needs_human TARGET_RECONCILIATION_UNAVAILABLE
        (''Crash recovery inquiry was inconclusive: '' @ code_value (o_code target)))))"

definition recover_claim :: "'w recovery \<Rightarrow> string \<Rightarrow> claim_row \<Rightarrow> ('w system, execution_outcome option) prog" where
  "recover_claim rc case_id r =
     (if \<not> in_flight r then ret None
      else bnd (of_res (local_owner_is_dead (rc_processes rc) (cl_owner_id r))) (\<lambda>dead.
        if \<not> dead
        then ret (Some (needs_human ALREADY_CLAIMED
          (''Effect claim is still owned by live or unverifiable worker '' @ cl_owner_id r)))
        else (case map_of capability_files (cl_capability_id r) of
            None \<Rightarrow> ret (Some (needs_human TARGET_RECONCILIATION_UNAVAILABLE (''No recovery adapter for '' @ cl_capability_id r)))
          | Some path \<Rightarrow>
              bnd (of_res (load_capability_from_yaml (amb_sha (rc_ambient rc)) (rc_artifacts rc) path)) (\<lambda>c.
              bnd (on_world (execute_precheck (rc_target rc) (rc_settings rc) c (recovery_inputs r)))
                (act_on_inquiry rc case_id r)))))"

definition release_dead_lease :: "'w recovery \<Rightarrow> string \<Rightarrow> ('w system, unit) prog" where
  "release_dead_lease rc case_id =
     bnd (gets (\<lambda>x. get_lease case_id (sy_db x))) (\<lambda>held. case held of
       None \<Rightarrow> ret ()
     | Some lease \<Rightarrow>
         if ls_released_at lease \<noteq> None then ret ()
         else bnd (of_res (local_owner_is_dead (rc_processes rc) (ls_owner_id lease))) (\<lambda>dead.
           if dead then andthen (on_db (release_lease (rc_ambient rc) case_id (Some (ls_owner_id lease))
                  (Some (ls_fencing_token lease)) None)) (ret ())
           else ret ()))"

definition recover_dead_effect_claims :: "'w recovery \<Rightarrow> string \<Rightarrow> ('w system, execution_outcome option) prog" where
  "recover_dead_effect_claims rc case_id =
     andthen (release_dead_lease rc case_id) (
     bnd (gets (\<lambda>x. get_effect_claims_for_case case_id (sy_db x))) (for_return (recover_claim rc case_id)))"

text \<open>\<open>recover_dead_core_claims\<close> ignores its two further arguments.\<close>

definition recover_dead_core_claims ::
  "'w recovery \<Rightarrow> string \<Rightarrow> string \<Rightarrow> val \<Rightarrow> ('w system, execution_outcome option) prog" where
  "recover_dead_core_claims rc case_id member_id amount = recover_dead_effect_claims rc case_id"

section \<open>Applied claims and their targets\<close>

definition divergence :: "claim_row \<Rightarrow> string \<Rightarrow> dict \<Rightarrow> execution_outcome" where
  "divergence r reason details =
     (outcome CAT_NEEDS_HUMAN TARGET_LEDGER_DIVERGENCE
        (fstr [''Applied effect '', cl_idempotency_key r, '' diverges from target: '', reason]))\<lparr>o_details := details\<rparr>"

definition unavailable :: "claim_row \<Rightarrow> string \<Rightarrow> execution_outcome" where
  "unavailable r reason =
     outcome CAT_NEEDS_HUMAN TARGET_RECONCILIATION_UNAVAILABLE
       (fstr [''Could not reconcile applied effect '', cl_idempotency_key r, '': '', reason])"

text \<open>The address, the status and the field of the reference; every address is built for every claim.\<close>

definition claim_adapters :: "settings \<Rightarrow> claim_row \<Rightarrow> (string \<times> string \<times> string \<times> string) list res" where
  "claim_adapters cfg r = rbind (core_bank_url_for cfg (VStr (cl_institution_id r))) (\<lambda>base. Inr
     [(''core.post_provisional_credit'', fstr [base, ''/api/credits/'', cl_business_reference r], ''POSTED'', ''memo_code''),
      (''processor.file_chargeback'', fstr [processor_url cfg, ''/api/chargebacks/'', cl_business_reference r], ''FILED'', ''network_ref''),
      (''docs.send_notice'', fstr [documents_url cfg, ''/api/notices/'', cl_business_reference r], ''SENT'', ''notice_id'')])"

definition expected_fields :: "claim_row \<Rightarrow> string \<Rightarrow> (string \<times> string) list" where
  "expected_fields r expected_status =
     [(''institution_id'', cl_institution_id r), (''procedure_id'', cl_procedure_id r), (''capability_id'', cl_capability_id r),
      (''case_id'', cl_case_id r), (''member_id'', cl_member_id r), (''account_id'', cl_account_id r),
      (''currency'', cl_currency r), (''business_reference'', cl_business_reference r), (''status'', expected_status)]"

text \<open>\<open>value == 1\<close> holds for the integer, for \<open>True\<close> and for the float.\<close>

definition equals_one :: "val \<Rightarrow> bool" where
  "equals_one v \<longleftrightarrow> v \<in> {VInt 1, VBool True, VFloat ''1.0''}"

definition field_mismatches :: "claim_row \<Rightarrow> string \<Rightarrow> dict \<Rightarrow> string list" where
  "field_mismatches r expected_status data =
     map (\<lambda>(field, value). fstr [field, '': expected '', repr_str value, '', observed '', py_repr (dict_val data field)])
       (filter (\<lambda>(field, value). dict_val data field \<noteq> VStr value) (expected_fields r expected_status)) @
     (if equals_one (dict_val data ''effect_count'') then []
      else [fstr [''effect_count: expected 1, observed '', py_repr (dict_val data ''effect_count'')]])"

definition amount_mismatches :: "claim_row \<Rightarrow> dict \<Rightarrow> string list res" where
  "amount_mismatches r data =
     (case rbind (parse_money (dict_val data ''amount'')) (\<lambda>seen. rbind (parse_money (money_val (cl_amount r))) (\<lambda>due. Inr (money_eq seen due))) of
        Inr True \<Rightarrow> Inr []
      | Inr False \<Rightarrow> Inr [fstr [''amount: expected '', py_repr (money_val (cl_amount r)), '', observed '', py_repr (dict_val data ''amount'')]]
      | Inl e \<Rightarrow> if is_ValueError e then Inr [''amount is invalid: '' @ exn_text e] else Inl e)"

text \<open>The audit references of the ledger for this capability; a list or an object cannot be looked up in a set.\<close>

definition audit_refs :: "claim_row \<Rightarrow> db \<Rightarrow> string list" where
  "audit_refs r d = remdups (map (\<lambda>e. the (ex_audit_ref e)) (filter (\<lambda>e. ex_capability_id e = cl_capability_id r \<and>
     opt_truthy (ex_audit_ref e)) (get_executions_for_case (cl_case_id r) d)))"

definition reference_matches :: "string list \<Rightarrow> val \<Rightarrow> bool res" where
  "reference_matches refs reference =
     (if length refs \<noteq> 1 then Inr False
      else case reference of
          VList _ \<Rightarrow> Inl (TypeError ''unhashable type: list'')
        | VDict _ \<Rightarrow> Inl (TypeError ''unhashable type: dict'')
        | _ \<Rightarrow> Inr (reference \<in> VStr ` set refs))"

definition compare_record ::
  "claim_row \<Rightarrow> string \<Rightarrow> string \<Rightarrow> dict \<Rightarrow> db \<Rightarrow> execution_outcome option res" where
  "compare_record r expected_status reference_field data d =
     rbind (amount_mismatches r data) (\<lambda>amounts.
     rbind (reference_matches (audit_refs r d) (dict_val data reference_field)) (\<lambda>matches.
       let mismatches = field_mismatches r expected_status data @ amounts @
             (if matches then [] else [fstr [''target reference '', py_repr (dict_val data reference_field),
                '' does not match one ledger audit reference'']])
       in Inr (if mismatches = [] then None else Some (divergence r (intercalate ''; '' mismatches) data))))"

definition read_reconciliation ::
  "claim_row \<Rightarrow> string \<Rightarrow> string \<Rightarrow> http_error + response \<Rightarrow> db \<Rightarrow> execution_outcome option res" where
  "read_reconciliation r expected_status reference_field answer d = (case answer of
      Inl (Transport m) \<Rightarrow> Inr (Some (unavailable r (''Target inquiry failed: '' @ m)))
    | Inl (HttpOther m) \<Rightarrow> Inr (Some (unavailable r (''Target inquiry failed unexpectedly: '' @ m)))
    | Inr resp \<Rightarrow>
        if status_code resp = 404
        then Inr (Some (divergence r ''ledger is APPLIED but the target positively reports absence'' []))
        else if status_code resp \<noteq> 200
        then Inr (Some (unavailable r (''Target inquiry returned HTTP '' @ str_nat (status_code resp))))
        else (case body_json resp of
            Inl m \<Rightarrow> Inr (Some (unavailable r (''Target inquiry returned malformed JSON: '' @ m)))
          | Inr (VDict data) \<Rightarrow> compare_record r expected_status reference_field data d
          | Inr _ \<Rightarrow> Inr (Some (unavailable r ''Target inquiry response is not an object''))))"

definition reconcile_claim :: "'w recovery \<Rightarrow> claim_row \<Rightarrow> ('w system, execution_outcome option) prog" where
  "reconcile_claim rc r =
     bnd (of_res (claim_adapters (rc_settings rc) r)) (\<lambda>adapters. case map_of adapters (cl_capability_id r) of
       None \<Rightarrow> ret (Some (unavailable r (''No target reconciliation adapter for applied capability '' @ cl_capability_id r)))
     | Some (url, expected_status, reference_field) \<Rightarrow>
         bnd (on_world (get_url (rc_target rc) url)) (\<lambda>answer.
         bnd (gets sy_db) (\<lambda>d. of_res (read_reconciliation r expected_status reference_field answer d))))"

definition reconcile_applied_effects :: "'w recovery \<Rightarrow> string \<Rightarrow> ('w system, execution_outcome option) prog" where
  "reconcile_applied_effects rc case_id =
     bnd (gets (\<lambda>x. get_effect_claims_for_case case_id (sy_db x))) (for_return (\<lambda>r.
       if cl_status r \<noteq> claim_status_value APPLIED then ret None else reconcile_claim rc r))"

section \<open>A target that keeps a record\<close>

datatype exchange = Asked string "http_error + response" | Told string | Paused

definition audited :: "'w target \<Rightarrow> ('w \<times> exchange list) target" where
  "audited tg =
     \<lparr>http_get = (\<lambda>url (w, log). case http_get tg url w of (r, v) \<Rightarrow> (r, (v, log @ [Asked url r]))),
      http_post = (\<lambda>url d t (w, log). case http_post tg url d t w of (r, v) \<Rightarrow> (r, (v, log @ [Told url]))),
      sleep = (\<lambda>(w, log). (sleep tg w, log @ [Paused]))\<rparr>"

fun is_answer :: "exchange \<Rightarrow> bool" where
  "is_answer (Asked url r) = True"
| "is_answer _ = False"

lemma audited_get: "http_get (audited tg) url (w, log) = (answer, y) \<longleftrightarrow> (\<exists>v. http_get tg url w = (answer, v) \<and> y = (v, log @ [Asked url answer]))"
  by (auto simp: audited_def split: prod.splits)

text \<open>An inquiry adds at most the answer it rests on.\<close>

definition asked :: "(http_error + response) list \<Rightarrow> exchange list \<Rightarrow> exchange list \<Rightarrow> bool" where
  "asked answers log log' \<longleftrightarrow> (\<exists>new. log' = log @ new \<and> list_all is_answer new \<and> (\<forall>a \<in> set answers. \<exists>url. Asked url a \<in> set new))"

lemma asked_refl [simp]: "asked [] log log"
  by (simp add: asked_def)

lemma asked_trans: "asked as a b \<Longrightarrow> asked bs b c \<Longrightarrow> asked (as @ bs) a c"
  unfolding asked_def by (elim exE conjE) (rule exI, rule conjI, simp, auto)

lemma precheck_audited:
  assumes "execute_precheck (audited tg) cfg c inputs (w, log) = (r, (v, log'))"
  shows "asked [] log log' \<and>
     (\<forall>oc. r = Ret oc \<and> o_code oc = ALREADY_APPLIED \<longrightarrow>
        (\<exists>url mm ref a. target_route cfg c inputs = Inr (Some (url, mm, ref)) \<and> log' = log @ [Asked url a] \<and> confirms c inputs a)) \<and>
     (\<forall>oc. r = Ret oc \<and> o_code oc = NOT_APPLIED \<and> ef_class (cap_effect c) = COMMIT \<longrightarrow>
        (\<exists>url mm ref a. target_route cfg c inputs = Inr (Some (url, mm, ref)) \<and> log' = log @ [Asked url a] \<and> denies a))"
proof -
  have quiet: ?thesis if "log' = log" "\<And>oc. r = Ret oc \<Longrightarrow> o_code oc = NOT_APPLIED \<and> ef_class (cap_effect c) \<noteq> COMMIT \<or> o_code oc = PRECHECK_INVALID_RESPONSE"
    using that by auto
  note defs = execute_precheck_def precheck_result_def precheck_failure_def
  show ?thesis
  proof (cases "ef_class (cap_effect c) \<noteq> COMMIT \<or> ef_precheck (cap_effect c) = None \<or> \<not> truthy (dict_val inputs ''case_id'') \<or>
      (\<exists>e. target_route cfg c inputs = Inl e) \<or> target_route cfg c inputs = Inr None")
    case True
    then show ?thesis by (intro quiet) (use assms in \<open>auto simp: defs split: if_splits\<close>)
  next
    case False
    then obtain url mm ref where route: "target_route cfg c inputs = Inr (Some (url, mm, ref))"
      by (cases "target_route cfg c inputs") auto
    obtain answer u where get: "http_get tg url w = (answer, u)" by force
    have run: "r = (case read_precheck c inputs answer of Inl e \<Rightarrow> Raise e | Inr oc \<Rightarrow> Ret oc)" "log' = log @ [Asked url answer]"
      using assms False route get by (auto simp: execute_precheck_def bnd_def get_url_def audited_def of_res_def)
    have log: "asked [] log log'" using run(2) by (auto simp: asked_def)
    show ?thesis using run log route read_precheck_evidence [of c inputs answer] by (auto split: sum.splits)
  qed
qed


section \<open>What a recovery may do to a claim\<close>

definition abandoned :: "'w recovery \<Rightarrow> string \<Rightarrow> claim_row \<Rightarrow> bool" where
  "abandoned rc case_id r \<longleftrightarrow> in_flight r \<and> cl_case_id r = case_id \<and>
     local_owner_is_dead (rc_processes rc) (cl_owner_id r) = Inr True"

text \<open>
  An answer among the new exchanges that supports the status given to a claim: the inquiry
  went to the route of the claim's own effect, its system, institution and case.
\<close>

definition supports :: "'w recovery \<Rightarrow> claim_row \<Rightarrow> claim_status \<Rightarrow> exchange list \<Rightarrow> bool" where
  "supports rc r to new \<longleftrightarrow> (\<exists>path c url mm ref a. map_of capability_files (cl_capability_id r) = Some path \<and>
     load_capability_from_yaml (amb_sha (rc_ambient rc)) (rc_artifacts rc) path = Inr c \<and>
     target_route (rc_settings rc) c (recovery_inputs r) = Inr (Some (url, mm, ref)) \<and> Asked url a \<in> set new \<and>
     (to = APPLIED \<and> confirms c (recovery_inputs r) a \<or> to = FAILED_RETRYABLE \<and> denies a))"

definition recovered :: "'w recovery \<Rightarrow> string \<Rightarrow> exchange list \<Rightarrow> claim_row \<Rightarrow> claim_row \<Rightarrow> bool" where
  "recovered rc case_id new r s \<longleftrightarrow> s = r \<or>
     (abandoned rc case_id r \<and> (\<exists>to t. s = moved_claim to t r \<and> supports rc r to new))"

lemma supports_more: "supports rc r to new \<Longrightarrow> set new \<subseteq> set new' \<Longrightarrow> supports rc r to new'"
  unfolding supports_def by blast

lemma recovered_more: "recovered rc cid new r s \<Longrightarrow> set new \<subseteq> set new' \<Longrightarrow> recovered rc cid new' r s"
  unfolding recovered_def using supports_more by blast

lemma recovered_key: "recovered rc cid new r s \<Longrightarrow> cl_idempotency_key s = cl_idempotency_key r"
  by (auto simp: recovered_def)

lemma recovered_in_flight: "recovered rc cid new r s \<Longrightarrow> in_flight s \<Longrightarrow> s = r"
  by (auto simp: recovered_def in_flight_def supports_def)

definition recovering :: "'w recovery \<Rightarrow> string \<Rightarrow> exchange list \<Rightarrow> claim_row list \<Rightarrow> ('v \<times> exchange list) system \<Rightarrow> bool" where
  "recovering rc cid log rows x \<longleftrightarrow> (\<exists>new. snd (sy_world x) = log @ new \<and> list_all is_answer new \<and>
     list_all2 (recovered rc cid new) rows (t_claims (sy_db x)))"

lemma recovering_start: "snd (sy_world x) = log \<Longrightarrow> recovering rc cid log (t_claims (sy_db x)) x"
  unfolding recovering_def by (rule exI [of _ "[]"]) (simp add: list_all2_refl recovered_def)

lemma recovering_keys:
  assumes "recovering rc cid log rows x" "unique_on cl_idempotency_key rows"
  shows "claims_unique (sy_db x)"
proof -
  obtain new where all: "list_all2 (recovered rc cid new) rows (t_claims (sy_db x))" using assms(1) by (auto simp: recovering_def)
  have "map cl_idempotency_key (t_claims (sy_db x)) = map cl_idempotency_key rows"
    using all by (induction rule: list_all2_induct) (simp_all add: recovered_key)
  then show ?thesis using assms(2) by (simp add: claims_unique_def unique_on_def)
qed

lemma keeps_recovering_db [keeps_rules]: "(\<And>Q. keeps (claims_only Q) p) \<Longrightarrow> keeps (recovering rc cid log rows) (on_db p)"
proof (rule keepsI)
  fix x :: "('v \<times> exchange list) system" assume p: "\<And>Q. keeps (claims_only Q) p" and x: "recovering rc cid log rows x"
  obtain r d where run: "p (sy_db x) = (r, d)" by force
  have "claims_only (\<lambda>cs. cs = t_claims (sy_db x)) d"
    using keepsD_run [OF p [of "\<lambda>cs. cs = t_claims (sy_db x)"] _ run] by (simp add: claims_only_def)
  then show "recovering rc cid log rows (snd (on_db p x))"
    using x run by (simp add: on_db_def on_part_def recovering_def claims_only_def)
qed

lemma keeps_settle_recovered: "keeps (recovering rc cid log rows) (settle_recovered rc case_id r target)"
  unfolding settle_recovered_def Let_def by (intro keeps_rules)

lemma keeps_release_dead: "keeps (recovering rc cid log rows) (release_dead_lease rc case_id)"
  unfolding release_dead_lease_def by (intro keeps_rules)

text \<open>Moving the claim under inspection, on the strength of an answer already received.\<close>

lemma recovery_move_keeps:
  assumes x: "recovering rc cid log rows x" and u: "unique_on cl_idempotency_key rows" and r: "r \<in> set rows" "abandoned rc cid r"
    and evidence: "\<And>new. snd (sy_world x) = log @ new \<Longrightarrow> supports rc r to new"
    and run: "recovery_move rc r to x = (res, y)"
  shows "recovering rc cid log rows y \<and> (\<forall>b. res = Ret b \<and> b \<longrightarrow>
     (\<forall>s \<in> set (t_claims (sy_db y)). cl_idempotency_key s = cl_idempotency_key r \<longrightarrow> \<not> in_flight s))"
proof -
  obtain new where new: "snd (sy_world x) = log @ new" "list_all is_answer new" "list_all2 (recovered rc cid new) rows (t_claims (sy_db x))"
    using x by (auto simp: recovering_def)
  obtain d where d: "transition_effect_claim (rc_ambient rc) (cl_idempotency_key r) (cl_owner_id r) (cl_fencing_token r)
       [CLAIMED, APPLYING] to None (sy_db x) = (res, d)" and y: "y = x\<lparr>sy_db := d\<rparr>"
    using run by (auto simp: recovery_move_def on_db_def on_part_def split: prod.splits)
  from recovering_keys [OF x u] d show ?thesis
  proof (cases rule: transition_cases)
    case (moved s t)
    have s: "s \<in> set (t_claims (sy_db x))" "cl_idempotency_key s = cl_idempotency_key r"
      using get_effect_claim_SomeD [OF moved(1)] by simp_all
    then obtain i where i: "i < length rows" "t_claims (sy_db x) ! i = s" "recovered rc cid new (rows ! i) s"
      using new(3) by (metis in_set_conv_nth list_all2_conv_all_nth)
    have "rows ! i = r" using unique_on_eq [OF u, of "rows ! i" r] i r s recovered_key [OF i(3)] by simp
    moreover have "in_flight s" using moved(2) by (auto simp: may_move_def in_flight_def)
    ultimately have sr: "s = r" using recovered_in_flight i(3) by blast
    have row: "recovered rc cid new r (moved_claim to t r)"
      using r(2) evidence [OF new(1)] by (auto simp: recovered_def)
    have "list_all2 (recovered rc cid new) rows (t_claims d)"
      unfolding moved(3) sr update_where_def
    proof (rule list_all2_all_nthI)
      fix j assume j: "j < length rows"
      have *: "recovered rc cid new (rows ! j) (t_claims (sy_db x) ! j)" using new(3) j by (simp add: list_all2_conv_all_nth)
      have len: "length rows = length (t_claims (sy_db x))" using new(3) by (rule list_all2_lengthD)
      show "recovered rc cid new (rows ! j) (map (\<lambda>q. if cl_idempotency_key q = cl_idempotency_key r then moved_claim to t r else q)
          (t_claims (sy_db x)) ! j)"
        using * row j len unique_on_eq [OF u, of "rows ! j" r] r(1) recovered_key [OF *] by auto
    qed (use new(3) in \<open>simp add: list_all2_lengthD\<close>)
    moreover have "\<not> in_flight q" if "q \<in> set (t_claims d)" "cl_idempotency_key q = cl_idempotency_key r" for q
    proof -
      have "supports rc r to new" using evidence [OF new(1)] .
      then have "\<not> in_flight (moved_claim to t r)" by (auto simp: supports_def in_flight_def)
      then show ?thesis using that moved(3) sr by (auto simp: set_update_where)
    qed
    ultimately show ?thesis using new(1,2) by (auto simp: recovering_def y)
  next
    case refused
    then show ?thesis using x by (simp add: y recovering_def)
  qed
qed


definition settled :: "string \<Rightarrow> 'w system \<Rightarrow> bool" where
  "settled k = split_inv (claims_only (\<lambda>rows. \<forall>s \<in> set rows. cl_idempotency_key s = k \<longrightarrow> \<not> in_flight s)) (\<lambda>_. True)"

lemma settled_iff: "settled k x \<longleftrightarrow> (\<forall>s \<in> set (t_claims (sy_db x)). cl_idempotency_key s = k \<longrightarrow> \<not> in_flight s)"
  by (simp add: settled_def split_inv_def claims_only_def)

lemma keeps_settled_move:
  assumes "to \<notin> {CLAIMED, APPLYING}"
  shows "keeps (settled k) (recovery_move rc r to)"
proof -
  have "claim_status_value to \<notin> {claim_status_value CLAIMED, claim_status_value APPLYING}" using assms by (cases to) simp_all
  then have "keeps (claims_only (\<lambda>rows. \<forall>s \<in> set rows. cl_idempotency_key s = k \<longrightarrow> \<not> in_flight s))
      (update_claims P (\<lambda>s. s\<lparr>cl_status := claim_status_value to, cl_updated_at := t, cl_heartbeat_at := t\<rparr>))" for P t
    by (auto simp: keeps_def claims_only_def update_claims_def set_update_where in_flight_def)
  then show ?thesis
    unfolding settled_def recovery_move_def transition_effect_claim_def by (intro keeps_rules)
qed

lemma keeps_settled_claim: "keeps (settled k) (recover_claim rc case_id r)"
proof -
  have settle: "keeps (settled k) (settle_recovered rc case_id r target)" for target
    unfolding settled_def settle_recovered_def Let_def by (intro keeps_rules)
  have event: "keeps (settled k) (on_db (record_event a case_id ty st ac p))" for a ty st ac p
    unfolding settled_def by (intro keeps_rules)
  have ask: "keeps (settled k) (on_world p)" for p :: "('w, execution_outcome) prog"
    unfolding settled_def by (rule keeps_split_world)
  show ?thesis
    unfolding recover_claim_def act_on_inquiry_def by (intro keeps_rules keeps_settled_move settle event ask) simp_all
qed

text \<open>The hypothesis on the artifact files: the three capabilities with an adapter are COMMIT.\<close>

definition commit_artifacts :: "'w recovery \<Rightarrow> bool" where
  "commit_artifacts rc \<longleftrightarrow> (\<forall>(k, path) \<in> set capability_files. \<forall>c.
     load_capability_from_yaml (amb_sha (rc_ambient rc)) (rc_artifacts rc) path = Inr c \<longrightarrow> ef_class (cap_effect c) = COMMIT)"

lemma claim_settled:
  assumes x: "recovering rc cid log rows x" and u: "unique_on cl_idempotency_key rows" and r: "r \<in> set rows" "\<not> in_flight r"
  shows "settled (cl_idempotency_key r) x"
  unfolding settled_iff
proof (intro ballI impI notI)
  fix s assume s: "s \<in> set (t_claims (sy_db x))" "cl_idempotency_key s = cl_idempotency_key r" "in_flight s"
  obtain new where "list_all2 (recovered rc cid new) rows (t_claims (sy_db x))" using x by (auto simp: recovering_def)
  then obtain q where q: "q \<in> set rows" "recovered rc cid new q s" using s(1) by (metis in_set_conv_nth list_all2_conv_all_nth)
  then have "s = q" using recovered_in_flight s(3) by blast
  then show False using unique_on_eq [OF u q(1) r(1)] s r(2) by simp
qed

lemma inquiry_keeps:
  assumes tg: "rc_target rc = audited tg" and commit: "ef_class (cap_effect c) = COMMIT"
    and artifact: "map_of capability_files (cl_capability_id r) = Some path"
      "load_capability_from_yaml (amb_sha (rc_ambient rc)) (rc_artifacts rc) path = Inr c"
  shows "triple (recovering rc cid log rows) (on_world (execute_precheck (rc_target rc) (rc_settings rc) c (recovery_inputs r)))
    (\<lambda>res y. recovering rc cid log rows y \<and> (\<forall>oc to. res = Ret oc \<and>
       (o_code oc = ALREADY_APPLIED \<and> to = APPLIED \<or> o_code oc = NOT_APPLIED \<and> to = FAILED_RETRYABLE) \<longrightarrow>
       (\<forall>new. snd (sy_world y) = log @ new \<longrightarrow> supports rc r to new)))"
proof (rule tripleI)
  fix x :: "('a \<times> exchange list) system" and res y
  assume x: "recovering rc cid log rows x"
    and run: "on_world (execute_precheck (rc_target rc) (rc_settings rc) c (recovery_inputs r)) x = (res, y)"
  obtain w l where w: "sy_world x = (w, l)" by force
  obtain v l' where v: "execute_precheck (audited tg) (rc_settings rc) c (recovery_inputs r) (w, l) = (res, (v, l'))"
    "y = x\<lparr>sy_world := (v, l')\<rparr>"
    using run w tg by (auto simp: on_world_def on_part_def split: prod.splits)
  note e = precheck_audited [OF v(1)]
  obtain new where new: "l = log @ new" "list_all is_answer new" "list_all2 (recovered rc cid new) rows (t_claims (sy_db x))"
    using x w by (auto simp: recovering_def)
  obtain more where more: "l' = l @ more" "list_all is_answer more" using e by (auto simp: asked_def)
  have "list_all2 (recovered rc cid (new @ more)) rows (t_claims (sy_db x))"
    using new(3) by (rule list_all2_mono) (auto intro: recovered_more)
  then have "recovering rc cid log rows y" using new more by (auto simp: recovering_def v(2) intro!: exI [of _ "new @ more"])
  moreover have "supports rc r to all"
    if ret: "res = Ret oc" and code: "o_code oc = ALREADY_APPLIED \<and> to = APPLIED \<or> o_code oc = NOT_APPLIED \<and> to = FAILED_RETRYABLE"
      and all: "snd (sy_world y) = log @ all" for oc to all
  proof -
    have all_new: "all = new @ more" using all v(2) more(1) new(1) by simp
    obtain url mm ref a where "target_route (rc_settings rc) c (recovery_inputs r) = Inr (Some (url, mm, ref))" "l' = l @ [Asked url a]"
      "to = APPLIED \<and> confirms c (recovery_inputs r) a \<or> to = FAILED_RETRYABLE \<and> denies a"
      using e ret code commit by metis
    moreover from this(2) have "Asked url a \<in> set all" using more(1) all_new by simp
    ultimately show ?thesis using artifact by (auto simp: supports_def)
  qed
  ultimately show "recovering rc cid log rows y \<and> (\<forall>oc to. res = Ret oc \<and>
       (o_code oc = ALREADY_APPLIED \<and> to = APPLIED \<or> o_code oc = NOT_APPLIED \<and> to = FAILED_RETRYABLE) \<longrightarrow>
       (\<forall>new. snd (sy_world y) = log @ new \<longrightarrow> supports rc r to new))" by blast
qed


text \<open>One round of the loop keeps the account and, unless it stops the recovery, settles its claim.\<close>

definition round_done :: "'w recovery \<Rightarrow> string \<Rightarrow> exchange list \<Rightarrow> claim_row list \<Rightarrow> claim_row \<Rightarrow>
    execution_outcome option run \<Rightarrow> ('v \<times> exchange list) system \<Rightarrow> bool" where
  "round_done rc cid log rows r res y \<longleftrightarrow> recovering rc cid log rows y \<and> (res = Ret None \<longrightarrow> settled (cl_idempotency_key r) y)"

lemma move_round:
  assumes u: "unique_on cl_idempotency_key rows" and r: "r \<in> set rows" "abandoned rc cid r"
    and p: "keeps (recovering rc cid log rows) p" "keeps (settled (cl_idempotency_key r)) p"
  shows "triple (\<lambda>x. recovering rc cid log rows x \<and> (\<forall>new. snd (sy_world x) = log @ new \<longrightarrow> supports rc r to new))
    (bnd (recovery_move rc r to) (\<lambda>moved. if \<not> moved then ret (Some changed_concurrently) else andthen p (ret None)))
    (round_done rc cid log rows r)"
proof (rule triple_bnd)
  show "triple (\<lambda>x. recovering rc cid log rows x \<and> (\<forall>new. snd (sy_world x) = log @ new \<longrightarrow> supports rc r to new))
      (recovery_move rc r to) (\<lambda>res y. recovering rc cid log rows y \<and> (res = Ret True \<longrightarrow> settled (cl_idempotency_key r) y))"
    by (rule tripleI) (use recovery_move_keeps [OF _ u r, where to = to] in \<open>fastforce simp: settled_iff\<close>)
  have "keeps (\<lambda>x. recovering rc cid log rows x \<and> settled (cl_idempotency_key r) x) (andthen p (ret (None :: execution_outcome option)))"
    using p by (intro keeps_rules keeps_both)
  then have stop: "triple (\<lambda>x. recovering rc cid log rows x \<and> settled (cl_idempotency_key r) x)
      (andthen p (ret (None :: execution_outcome option))) (round_done rc cid log rows r)"
    unfolding keeps_triple by (rule triple_weaken) (simp_all add: round_done_def)
  show "triple (\<lambda>y. recovering rc cid log rows y \<and> (Ret moved = Ret True \<longrightarrow> settled (cl_idempotency_key r) y))
      (if \<not> moved then ret (Some changed_concurrently) else andthen p (ret None)) (round_done rc cid log rows r)" for moved
    using stop by (cases moved) (simp_all add: round_done_def triple_def)
qed (simp_all add: round_done_def)

lemma act_round:
  assumes u: "unique_on cl_idempotency_key rows" and r: "r \<in> set rows" "abandoned rc cid r"
  shows "triple (\<lambda>x. recovering rc cid log rows x \<and> (\<forall>to. o_code oc = ALREADY_APPLIED \<and> to = APPLIED \<or>
       o_code oc = NOT_APPLIED \<and> to = FAILED_RETRYABLE \<longrightarrow> (\<forall>new. snd (sy_world x) = log @ new \<longrightarrow> supports rc r to new)))
    (act_on_inquiry rc cid r oc) (round_done rc cid log rows r)"
proof -
  let ?I = "recovering rc cid log rows" and ?K = "settled (cl_idempotency_key r)"
  have settle: "keeps ?I (settle_recovered rc cid r oc)" "keeps ?K (settle_recovered rc cid r oc)"
    by (rule keeps_settle_recovered) (unfold settled_def settle_recovered_def Let_def, intro keeps_rules)
  have event: "keeps ?I (on_db (record_event a cid ty st ac p))" "keeps ?K (on_db (record_event a cid ty st ac p))" for a ty st ac p
    unfolding settled_def by (intro keeps_rules)+
  consider "o_code oc = ALREADY_APPLIED" | "o_code oc = NOT_APPLIED" | "o_code oc \<notin> {ALREADY_APPLIED, NOT_APPLIED}" by blast
  then show ?thesis
  proof cases
    case 1
    show ?thesis unfolding act_on_inquiry_def
      by (rule triple_weaken [where P' = "\<lambda>x. ?I x \<and> (\<forall>new. snd (sy_world x) = log @ new \<longrightarrow> supports rc r APPLIED new)"])
        (use 1 move_round [OF u r settle, where to = APPLIED] in simp_all)
  next
    case 2
    show ?thesis unfolding act_on_inquiry_def
      by (rule triple_weaken [where P' = "\<lambda>x. ?I x \<and> (\<forall>new. snd (sy_world x) = log @ new \<longrightarrow> supports rc r FAILED_RETRYABLE new)"])
        (use 2 move_round [OF u r event, where to = FAILED_RETRYABLE] in simp_all)
  qed (simp add: act_on_inquiry_def triple_def round_done_def)
qed

lemma round_triple:
  assumes tg: "rc_target rc = audited tg" and commit: "commit_artifacts rc"
    and u: "unique_on cl_idempotency_key rows" and r: "r \<in> set rows" "cl_case_id r = cid"
  shows "triple (recovering rc cid log rows) (recover_claim rc cid r) (round_done rc cid log rows r)"
proof (cases "in_flight r \<and> local_owner_is_dead (rc_processes rc) (cl_owner_id r) = Inr True")
  case True
  then have ab: "abandoned rc cid r" using r(2) by (simp add: abandoned_def)
  show ?thesis
  proof (cases "map_of capability_files (cl_capability_id r)")
    case (Some path)
    show ?thesis
    proof (cases "load_capability_from_yaml (amb_sha (rc_ambient rc)) (rc_artifacts rc) path")
      case (Inr c)
      have c: "ef_class (cap_effect c) = COMMIT" using commit map_of_SomeD [OF Some] Inr by (auto simp: commit_artifacts_def)
      have "triple (recovering rc cid log rows) (bnd (on_world (execute_precheck (rc_target rc) (rc_settings rc) c (recovery_inputs r)))
          (act_on_inquiry rc cid r)) (round_done rc cid log rows r)"
        by (rule triple_bnd [OF inquiry_keeps [OF tg c Some Inr] triple_weaken [OF act_round [OF u r(1) ab]]])
          (auto simp: round_done_def)
      then show ?thesis using True Some Inr by (simp add: recover_claim_def)
    qed (use True Some in \<open>simp add: recover_claim_def triple_def round_done_def\<close>)
  qed (use True in \<open>simp add: recover_claim_def triple_def round_done_def\<close>)
next
  case False
  show ?thesis
  proof (cases "in_flight r")
    case True
    then show ?thesis using False
      by (cases "local_owner_is_dead (rc_processes rc) (cl_owner_id r)") (auto simp: recover_claim_def triple_def round_done_def)
  next
    case False
    then show ?thesis by (simp add: recover_claim_def triple_def round_done_def claim_settled [of rc cid log rows, OF _ u r(1)])
  qed
qed

lemma loop_triple:
  assumes tg: "rc_target rc = audited tg" and commit: "commit_artifacts rc" and u: "unique_on cl_idempotency_key rows"
    and rs: "set rs \<subseteq> set rows" "\<forall>r \<in> set rs. cl_case_id r = cid"
  shows "triple (recovering rc cid log rows) (for_return (recover_claim rc cid) rs)
    (\<lambda>res y. recovering rc cid log rows y \<and> (res = Ret None \<longrightarrow> (\<forall>r \<in> set rs. settled (cl_idempotency_key r) y)))"
proof (rule triple_for_return [where P = "\<lambda>r. settled (cl_idempotency_key r)"])
  fix r assume "r \<in> set rs"
  then have "r \<in> set rows" "cl_case_id r = cid" using rs by auto
  then show "triple (recovering rc cid log rows) (recover_claim rc cid r)
      (\<lambda>res y. recovering rc cid log rows y \<and> (res = Ret None \<longrightarrow> settled (cl_idempotency_key r) y))"
    using round_triple [OF tg commit u] by (simp add: round_done_def [abs_def])
qed (rule keeps_settled_claim)

lemma recovery_run:
  assumes run: "recover_dead_effect_claims rc cid x = (res, y)" and tg: "rc_target rc = audited tg"
    and commit: "commit_artifacts rc" and u: "claims_unique (sy_db x)"
  shows "recovering rc cid (snd (sy_world x)) (t_claims (sy_db x)) y \<and>
     (res = Ret None \<longrightarrow> (\<forall>r \<in> set (t_claims (sy_db x)). cl_case_id r = cid \<longrightarrow> settled (cl_idempotency_key r) y))"
proof -
  let ?rows = "t_claims (sy_db x)" and ?log = "snd (sy_world x)"
  let ?S = "\<lambda>z. recovering rc cid ?log ?rows z \<and> split_inv (claims_only (\<lambda>cs. cs = ?rows)) (\<lambda>_. True) z"
  have "keeps (split_inv (claims_only Q) (\<lambda>_. True)) (release_dead_lease rc cid)" for Q :: "claim_row list \<Rightarrow> bool"
    unfolding release_dead_lease_def by (intro keeps_rules)
  then have lease: "keeps ?S (release_dead_lease rc cid)" by (intro keeps_both keeps_release_dead)
  have loop: "triple ?S (bnd (gets (\<lambda>z. get_effect_claims_for_case cid (sy_db z))) (for_return (recover_claim rc cid)))
      (\<lambda>res y. recovering rc cid ?log ?rows y \<and> (res = Ret None \<longrightarrow>
        (\<forall>r \<in> set ?rows. cl_case_id r = cid \<longrightarrow> settled (cl_idempotency_key r) y)))"
  proof (rule tripleI)
    fix z r t assume z: "?S z" and run: "bnd (gets (\<lambda>z. get_effect_claims_for_case cid (sy_db z))) (for_return (recover_claim rc cid)) z = (r, t)"
    let ?rs = "get_effect_claims_for_case cid (sy_db z)"
    have rs: "set ?rs = {r \<in> set ?rows. cl_case_id r = cid}"
      using z by (auto simp: get_effect_claims_for_case_def split_inv_def claims_only_def)
    then have "triple (recovering rc cid ?log ?rows) (for_return (recover_claim rc cid) ?rs)
      (\<lambda>res y. recovering rc cid ?log ?rows y \<and> (res = Ret None \<longrightarrow> (\<forall>r \<in> set ?rs. settled (cl_idempotency_key r) y)))"
      using u by (intro loop_triple [OF tg commit]) (auto simp: claims_unique_def)
    from tripleD [OF this, of z r t] show "recovering rc cid ?log ?rows t \<and> (r = Ret None \<longrightarrow>
        (\<forall>r \<in> set ?rows. cl_case_id r = cid \<longrightarrow> settled (cl_idempotency_key r) t))"
      using z run rs by simp
  qed
  have "triple ?S (recover_dead_effect_claims rc cid) (\<lambda>res y. recovering rc cid ?log ?rows y \<and> (res = Ret None \<longrightarrow>
        (\<forall>r \<in> set ?rows. cl_case_id r = cid \<longrightarrow> settled (cl_idempotency_key r) y)))"
    unfolding recover_dead_effect_claims_def andthen_def by (rule triple_bnd [OF triple_keeps [OF lease] loop]) simp_all
  from tripleD [OF this _ run] show ?thesis by (simp add: recovering_start split_inv_def claims_only_def)
qed

text \<open>
  C5: Recovery changes a claim only if the program's test takes its worker for dead and the
  target, asked during this recovery at the route of this claim's effect, answered: to
  \<open>APPLIED\<close> on an answer with the complete identity of the effect, to \<open>FAILED_RETRYABLE\<close> on a
  404.  Every other claim, those of workers the test finds alive included, stays as it was,
  and nothing is sent to the target but inquiries.  (The test takes a process that may not
  be signalled for dead; that is a finding.)
\<close>

theorem recovery_needs_evidence:
  assumes "recover_dead_effect_claims rc cid x = (res, y)" and "rc_target rc = audited tg"
    and "commit_artifacts rc" and "claims_unique (sy_db x)"
  shows "\<exists>new. snd (sy_world y) = snd (sy_world x) @ new \<and> list_all is_answer new \<and>
     list_all2 (recovered rc cid new) (t_claims (sy_db x)) (t_claims (sy_db y))"
  using recovery_run [OF assms] by (simp add: recovering_def)

text \<open>
  C6: A recovery that lets the workflow go on has settled every claim of the case: none
  is \<open>CLAIMED\<close> or \<open>APPLYING\<close> any more.
\<close>

theorem recovery_settles_all:
  assumes "recover_dead_effect_claims rc cid x = (Ret None, y)" and "rc_target rc = audited tg"
    and "commit_artifacts rc" and "claims_unique (sy_db x)"
  shows "\<forall>s \<in> set (t_claims (sy_db y)). cl_case_id s = cid \<longrightarrow> \<not> in_flight s"
proof (intro ballI impI notI)
  fix s assume s: "s \<in> set (t_claims (sy_db y))" "cl_case_id s = cid" "in_flight s"
  obtain new where "list_all2 (recovered rc cid new) (t_claims (sy_db x)) (t_claims (sy_db y))"
    using recovery_run [OF assms] by (auto simp: recovering_def)
  then obtain r where r: "r \<in> set (t_claims (sy_db x))" "recovered rc cid new r s"
    using s(1) by (metis in_set_conv_nth list_all2_conv_all_nth)
  then have "s = r" using recovered_in_flight s(3) by blast
  then show False using recovery_run [OF assms] r(1) s by (auto simp: settled_iff)
qed


section \<open>What the comparison with the targets establishes\<close>

text \<open>The target's record is that of the claim, and carries the one reference of the ledger.\<close>

definition record_agrees :: "claim_row \<Rightarrow> string \<Rightarrow> string \<Rightarrow> db \<Rightarrow> http_error + response \<Rightarrow> bool" where
  "record_agrees r expected_status reference_field d answer \<longleftrightarrow> (\<exists>resp data ref. answer = Inr resp \<and> status_code resp = 200 \<and>
     body_json resp = Inr (VDict data) \<and> (\<forall>(k, v) \<in> set (expected_fields r expected_status). dict_val data k = VStr v) \<and>
     equals_one (dict_val data ''effect_count'') \<and>
     (\<exists>seen due. parse_money (dict_val data ''amount'') = Inr seen \<and> parse_money (money_val (cl_amount r)) = Inr due \<and> cents seen = cents due) \<and>
     audit_refs r d = [ref] \<and> dict_val data reference_field = VStr ref)"

lemma field_mismatches_none:
  "field_mismatches r st data = [] \<longleftrightarrow> (\<forall>(k, v) \<in> set (expected_fields r st). dict_val data k = VStr v) \<and>
     equals_one (dict_val data ''effect_count'')"
  by (auto simp: field_mismatches_def filter_empty_conv)

lemma amount_mismatches_none:
  "amount_mismatches r data = Inr [] \<longleftrightarrow>
     (\<exists>seen due. parse_money (dict_val data ''amount'') = Inr seen \<and> parse_money (money_val (cl_amount r)) = Inr due \<and> cents seen = cents due)"
  by (cases "parse_money (dict_val data ''amount'')"; cases "parse_money (money_val (cl_amount r))")
    (auto simp: amount_mismatches_def money_eq_def split: bool.splits)

lemma reference_matches_True:
  "reference_matches refs v = Inr True \<longleftrightarrow> (\<exists>ref. refs = [ref] \<and> v = VStr ref)"
  by (cases v; cases refs) (auto simp: reference_matches_def)

lemma read_reconciliation_none:
  "read_reconciliation r st field answer d = Inr None \<longleftrightarrow> record_agrees r st field d answer"
proof
  assume "read_reconciliation r st field answer d = Inr None"
  then obtain resp data where a: "answer = Inr resp" "status_code resp = 200" "body_json resp = Inr (VDict data)"
    "compare_record r st field data d = Inr None"
    by (auto simp: read_reconciliation_def split: sum.splits http_error.splits val.splits if_splits)
  then have "field_mismatches r st data = []" "amount_mismatches r data = Inr []"
    "reference_matches (audit_refs r d) (dict_val data field) = Inr True"
    by (auto simp: compare_record_def rbind_eq_Inr Let_def split: if_splits)
  then show "record_agrees r st field d answer"
    using a by (auto simp: record_agrees_def field_mismatches_none amount_mismatches_none reference_matches_True)
next
  assume "record_agrees r st field d answer"
  then obtain resp data ref where a: "answer = Inr resp" "status_code resp = 200" "body_json resp = Inr (VDict data)"
    and "field_mismatches r st data = []" "amount_mismatches r data = Inr []"
      "reference_matches (audit_refs r d) (dict_val data field) = Inr True"
    unfolding record_agrees_def field_mismatches_none amount_mismatches_none reference_matches_True by blast
  then show "read_reconciliation r st field answer d = Inr None"
    by (simp add: read_reconciliation_def compare_record_def)
qed

text \<open>The ledger is not touched, and the new exchanges hold an answer that agrees with each claim.\<close>

definition compared :: "'w recovery \<Rightarrow> db \<Rightarrow> claim_row \<Rightarrow> exchange list \<Rightarrow> bool" where
  "compared rc d r new \<longleftrightarrow> (\<exists>adapters url st field a. claim_adapters (rc_settings rc) r = Inr adapters \<and>
     map_of adapters (cl_capability_id r) = Some (url, st, field) \<and> Asked url a \<in> set new \<and> record_agrees r st field d a)"

definition watching :: "db \<Rightarrow> exchange list \<Rightarrow> ('v \<times> exchange list) system \<Rightarrow> bool" where
  "watching d log x \<longleftrightarrow> sy_db x = d \<and> (\<exists>new. snd (sy_world x) = log @ new \<and> list_all is_answer new)"

definition seen_agreeing :: "'w recovery \<Rightarrow> db \<Rightarrow> exchange list \<Rightarrow> claim_row \<Rightarrow> ('v \<times> exchange list) system \<Rightarrow> bool" where
  "seen_agreeing rc d log r x \<longleftrightarrow> (\<exists>new. snd (sy_world x) = log @ new \<and> compared rc d r new)"

lemma compared_more: "compared rc d r new \<Longrightarrow> set new \<subseteq> set new' \<Longrightarrow> compared rc d r new'"
  unfolding compared_def by blast

lemma inquiry_triple:
  assumes "rc_target rc = audited tg" "watching d log x" "reconcile_claim rc r x = (res, y)"
  shows "watching d log y \<and> (\<exists>more. snd (sy_world y) = snd (sy_world x) @ more) \<and> (res = Ret None \<longrightarrow> seen_agreeing rc d log r y)"
proof (cases "claim_adapters (rc_settings rc) r")
  case (Inr adapters)
  show ?thesis
  proof (cases "map_of adapters (cl_capability_id r)")
    case (Some adapter)
    obtain url st field where adapter: "adapter = (url, st, field)" by (cases adapter) auto
    obtain w l where w: "sy_world x = (w, l)" by force
    obtain answer v where get: "http_get tg url w = (answer, v)" by force
    have y: "y = x\<lparr>sy_world := (v, l @ [Asked url answer])\<rparr>" "res = fst (of_res (read_reconciliation r st field answer d) d)"
      using assms(1-3) Inr Some adapter w get
      by (auto simp: reconcile_claim_def watching_def on_world_def on_part_def bnd_def get_url_def audited_def of_res_def split: sum.splits)
    have "seen_agreeing rc d log r y" if "res = Ret None"
    proof -
      have "record_agrees r st field d answer"
        using that y(2) by (simp add: of_res_def read_reconciliation_none [symmetric] split: sum.splits)
      moreover obtain new where "snd (sy_world y) = log @ new @ [Asked url answer]" using assms(2) w by (auto simp: watching_def y(1))
      moreover have "Asked url answer \<in> set (new @ [Asked url answer])" by simp
      ultimately show ?thesis using Inr Some adapter unfolding seen_agreeing_def compared_def by blast
    qed
    then show ?thesis using assms(2) w by (auto simp: watching_def y(1))
  qed (use assms(2,3) Inr in \<open>auto simp: reconcile_claim_def\<close>)
qed (use assms(2,3) in \<open>auto simp: reconcile_claim_def\<close>)


text \<open>
  C7: When the comparison lets the workflow go on, every applied claim of the case was
  asked for at its target during this comparison, and the answer agrees with the claim in
  every field, counts one effect and carries the only audit reference of the ledger for
  it.  The comparison changes nothing in the ledger and only asks.
\<close>

theorem applied_claims_agree:
  fixes x :: "('w \<times> exchange list) system"
  assumes run: "reconcile_applied_effects rc cid x = (res, y)" and tg: "rc_target rc = audited tg"
  shows "sy_db y = sy_db x \<and> (\<exists>new. snd (sy_world y) = snd (sy_world x) @ new \<and> list_all is_answer new \<and>
     (res = Ret None \<longrightarrow> (\<forall>r \<in> set (t_claims (sy_db x)). cl_case_id r = cid \<and> cl_status r = claim_status_value APPLIED \<longrightarrow>
       compared rc (sy_db x) r new)))"
proof -
  let ?d = "sy_db x" and ?log = "snd (sy_world x)" and ?rs = "get_effect_claims_for_case cid (sy_db x)"
  let ?f = "\<lambda>r. if cl_status r \<noteq> claim_status_value APPLIED then ret None else reconcile_claim rc r"
  let ?P = "\<lambda>r z. cl_status r = claim_status_value APPLIED \<longrightarrow> seen_agreeing rc ?d ?log r z"
  have grow: "\<exists>more. snd (sy_world t) = snd (sy_world s) @ more" if "?f q s = (r, t)" for q s r t
  proof (cases "cl_status q = claim_status_value APPLIED")
    case True
    then have "reconcile_claim rc q s = (r, t)" using that by simp
    then show ?thesis by (auto simp: reconcile_claim_def tg bnd_def on_world_def on_part_def get_url_def audited_def of_res_def
        split: sum.splits option.splits prod.splits)
  qed (use that in simp)
  have "triple (watching ?d ?log) (for_return ?f ?rs) (\<lambda>r z. watching ?d ?log z \<and> (r = Ret None \<longrightarrow> (\<forall>q \<in> set ?rs. ?P q z)))"
  proof (rule triple_for_return)
    show "triple (watching ?d ?log) (?f r) (\<lambda>q z. watching ?d ?log z \<and> (q = Ret None \<longrightarrow> ?P r z))" for r
      by (rule tripleI) (use inquiry_triple [OF tg] in \<open>auto split: if_splits\<close>)
    show "keeps (?P r) (?f q)" for r q
    proof (rule keepsI)
      fix s :: "('w \<times> exchange list) system" assume s: "?P r s"
      obtain res t where run: "?f q s = (res, t)" by force
      from grow [OF this] s compared_more show "?P r (snd (?f q s))"
        unfolding run seen_agreeing_def by fastforce
    qed
  qed
  from tripleD [OF this, of x res y] run have "watching ?d ?log y \<and> (res = Ret None \<longrightarrow> (\<forall>q \<in> set ?rs. ?P q y))"
    by (simp add: reconcile_applied_effects_def watching_def)
  then show ?thesis by (auto simp: watching_def seen_agreeing_def get_effect_claims_for_case_def)
qed

end
