(* ===== verification/RecoverySamples.thy ===== *)
theory RecoverySamples
  imports Recovery EffectSamples
begin

text \<open>
  Concrete recoveries: the claim that a dead worker left \<open>APPLYING\<close> is released when the
  target has nothing on file, and an applied claim is compared with the record of the
  target.
\<close>

definition sample_digest :: string where "sample_digest = replicate 64 (CHR ''0'')"

definition recovery_ambient :: ambient where
  "recovery_ambient = \<lparr>amb_now = (\<lambda>_. 0), amb_uuid = (\<lambda>_. ''u''), amb_sha = (\<lambda>_. sample_digest)\<rparr>"

definition sample_processes :: processes where
  "sample_processes = \<lparr>ps_own_pid = 1, ps_windows = False, ps_query = (\<lambda>_. No_Handle), ps_signalled = (\<lambda>_. False)\<rparr>"

definition sample_recovery :: "(bool \<times> exchange list) recovery" where
  "sample_recovery = \<lparr>rc_target = audited sample_target, rc_settings = default_settings, rc_ambient = recovery_ambient,
     rc_processes = sample_processes, rc_artifacts = \<lparr>af_read = (\<lambda>_. Inr (VDict [(''artifact_hash'', VStr sample_digest)])),
       af_fields = (\<lambda>_. Inr chargeback_capability)\<rparr>\<rparr>"

lemma sample_recovery_sel [simp]: "rc_target sample_recovery = audited sample_target" "rc_settings sample_recovery = default_settings"
  "rc_ambient sample_recovery = recovery_ambient" "rc_processes sample_recovery = sample_processes"
  by (simp_all add: sample_recovery_def)

lemma sample_artifact:
  "load_capability_from_yaml (amb_sha recovery_ambient) (rc_artifacts sample_recovery) path = Inr chargeback_capability"
  by (simp add: load_capability_from_yaml_def sample_recovery_def recovery_ambient_def load_capability_def dict_val_def compute_hash_def
      compute_artifact_digest_def) (simp add: sample_digest_def chargeback_capability_def chargeback_step_def)

lemma sample_commit_artifacts: "commit_artifacts sample_recovery"
  unfolding commit_artifacts_def sample_recovery_sel sample_artifact by (simp add: filing_commit)

definition dead_claim :: claim_row where
  "dead_claim = (new_claim ''key'' sample_identity ''AUTOMATION:7:v'' 0 five_minutes 1)\<lparr>cl_status := ''APPLYING''\<rparr>"

lemma dead_claim_sel [simp]: "cl_idempotency_key dead_claim = ''key''" "cl_owner_id dead_claim = ''AUTOMATION:7:v''"
  "cl_fencing_token dead_claim = 1" "cl_status dead_claim = ''APPLYING''" "cl_case_id dead_claim = ''D-8842''"
  "cl_capability_id dead_claim = ''processor.file_chargeback''"
  by (simp_all add: dead_claim_def new_claim_def sample_identity_def)

lemma dead_owner: "local_owner_is_dead sample_processes ''AUTOMATION:7:v'' = Inr True"
  by code_simp

definition crashed_system :: "(bool \<times> exchange list) system" where
  "crashed_system = (sample_system (False, []))\<lparr>sy_db := empty_db\<lparr>t_cases := [filing_row], t_claims := [dead_claim]\<rparr>\<rparr>"

lemma crashed_system_sel [simp]: "t_claims (sy_db crashed_system) = [dead_claim]" "t_cases (sy_db crashed_system) = [filing_row]"
  "t_leases (sy_db crashed_system) = []" "sy_world crashed_system = (False, [])"
  by (simp_all add: crashed_system_def sample_system_def empty_db_def)

lemma crashed_unique: "claims_unique (sy_db crashed_system)"
  by (simp add: claims_unique_def unique_on_def)

lemma dead_precheck:
  "execute_precheck (audited sample_target) default_settings chargeback_capability (recovery_inputs dead_claim) (False, [])
     = (Ret (precheck_result NOT_APPLIED ''Target positively confirmed effect absence''),
        (False, [Asked ''http://127.0.0.1:8003/api/chargebacks/D-8842'' (sample_answer False)]))"
proof -
  have "target_route default_settings chargeback_capability (recovery_inputs dead_claim)
      = Inr (Some (''http://127.0.0.1:8003/api/chargebacks/D-8842'', False, ''network_ref''))"
    by (simp add: target_route_def chargeback_capability_def recovery_inputs_def dict_val_def sample_url fstr_def)
  moreover have "truthy (dict_val (recovery_inputs dead_claim) ''case_id'')" by (simp add: recovery_inputs_def dict_val_def)
  ultimately show ?thesis
    using filing_commit by (auto simp: execute_precheck_def bnd_def get_url_def audited_def read_precheck_def sample_answer_def)
qed

lemma crashed_recovery: "\<exists>y. recover_dead_effect_claims sample_recovery ''D-8842'' crashed_system = (Ret None, y)"
proof -
  let ?x = "crashed_system\<lparr>sy_world := (False, [Asked ''http://127.0.0.1:8003/api/chargebacks/D-8842'' (sample_answer False)])\<rparr>"
  obtain res d where run: "transition_effect_claim recovery_ambient ''key'' ''AUTOMATION:7:v'' 1 [CLAIMED, APPLYING] FAILED_RETRYABLE None
      (sy_db crashed_system) = (res, d)" by force
  have got: "get_effect_claim ''key'' (sy_db crashed_system) = Some dead_claim" by (simp add: get_effect_claim_def select_first_Cons)
  have "res = Ret True \<and> get_case ''D-8842'' d \<noteq> None"
    using crashed_unique run
    by (cases rule: transition_cases) (use got in \<open>auto simp: may_move_def get_case_def select_first_Cons filing_row_def\<close>)
  then have move: "recovery_move sample_recovery dead_claim FAILED_RETRYABLE ?x = (Ret True, ?x\<lparr>sy_db := d\<rparr>)"
    and "\<exists>e d'. record_event recovery_ambient ''D-8842'' ''CRASH_RECOVERY_CONFIRMED_ABSENT'' ''processor.file_chargeback'' ''AUTOMATION''
      (Some [(''safe_to_retry'', VBool True)]) d = (Ret e, d')"
    using run by (simp_all add: recovery_move_def on_db_def on_part_def record_event_run del: One_nat_def)
  then obtain e d' where event: "record_event recovery_ambient ''D-8842'' ''CRASH_RECOVERY_CONFIRMED_ABSENT'' ''processor.file_chargeback'' ''AUTOMATION''
      (Some [(''safe_to_retry'', VBool True)]) d = (Ret e, d')" by blast
  have "act_on_inquiry sample_recovery ''D-8842'' dead_claim (precheck_result NOT_APPLIED ''Target positively confirmed effect absence'') ?x
      = (Ret None, ?x\<lparr>sy_db := d'\<rparr>)"
    by (simp add: act_on_inquiry_def precheck_result_def bnd_def move andthen_def on_db_def on_part_def event)
  then have "recover_claim sample_recovery ''D-8842'' dead_claim crashed_system = (Ret None, ?x\<lparr>sy_db := d'\<rparr>)"
    by (simp add: recover_claim_def in_flight_def dead_owner capability_files_def sample_artifact bnd_def on_world_def on_part_def dead_precheck)
  moreover have "get_effect_claims_for_case ''D-8842'' (sy_db crashed_system) = [dead_claim]" by (simp add: get_effect_claims_for_case_def)
  ultimately show ?thesis
    by (simp add: recover_dead_effect_claims_def release_dead_lease_def get_lease_def andthen_def bnd_def)
qed

theorem recovery_needs_evidence_witness:
  "\<exists>y new. recover_dead_effect_claims sample_recovery ''D-8842'' crashed_system = (Ret None, y) \<and> snd (sy_world y) = new \<and>
     list_all2 (recovered sample_recovery ''D-8842'' new) [dead_claim] (t_claims (sy_db y))"
proof -
  obtain y where run: "recover_dead_effect_claims sample_recovery ''D-8842'' crashed_system = (Ret None, y)" using crashed_recovery by blast
  from recovery_needs_evidence [OF run sample_recovery_sel(1) sample_commit_artifacts crashed_unique] run show ?thesis by auto
qed

theorem recovery_settles_all_witness:
  "\<exists>y. recover_dead_effect_claims sample_recovery ''D-8842'' crashed_system = (Ret None, y) \<and>
     (\<forall>s \<in> set (t_claims (sy_db y)). cl_case_id s = ''D-8842'' \<longrightarrow> \<not> in_flight s)"
proof -
  obtain y where run: "recover_dead_effect_claims sample_recovery ''D-8842'' crashed_system = (Ret None, y)" using crashed_recovery by blast
  from recovery_settles_all [OF run sample_recovery_sel(1) sample_commit_artifacts crashed_unique] run show ?thesis by blast
qed

text \<open>A claim that is applied here and unknown to the target.\<close>

definition diverged_system :: "(bool \<times> exchange list) system" where
  "diverged_system = crashed_system\<lparr>sy_db := empty_db\<lparr>t_claims := [dead_claim\<lparr>cl_status := ''APPLIED''\<rparr>]\<rparr>\<rparr>"

theorem applied_claims_agree_witness:
  "\<exists>res y. reconcile_applied_effects sample_recovery ''D-8842'' diverged_system = (res, y) \<and> sy_db y = sy_db diverged_system"
proof -
  obtain res y where run: "reconcile_applied_effects sample_recovery ''D-8842'' diverged_system = (res, y)" by force
  from applied_claims_agree [OF this sample_recovery_sel(1)] run show ?thesis by blast
qed

end
