(* ===== verification/Workflow.thy ===== *)
theory Workflow
  imports Recovery Reconstruction
begin

text \<open>
  The orchestration of a dispute (\<open>tandem/workflow/reg_e.py\<close>): opening or resuming a case,
  the read steps, the three commits in order, and the projections derived from them.  A
  step that may return from \<open>run_case\<close> yields \<open>Some\<close> of its result.  Every effect runs in
  a new effect engine, whose owner is the process and a fresh uuid.
\<close>

record 'w workflow =
  wf_env :: "'w env"
  wf_ambient :: ambient
  wf_rules :: rule_set
  wf_processes :: processes
  wf_artifacts :: artifacts
  wf_page :: bool
  wf_kill_after_credit :: bool
  wf_session :: "string option"

definition wf_recovery :: "'w workflow \<Rightarrow> 'w recovery" where
  "wf_recovery wk = \<lparr>rc_target = en_target (wf_env wk), rc_settings = en_settings (wf_env wk), rc_ambient = wf_ambient wk,
     rc_processes = wf_processes wk, rc_artifacts = wf_artifacts wk\<rparr>"

section \<open>States\<close>

definition happy_path :: "reg_e_state list" where
  "happy_path = [RECEIVED, MEMBER_VERIFIED, TRANSACTION_VERIFIED, DUPLICATE_CHECKED, CHARGEBACK_FILED,
     PROVISIONAL_CREDIT_POSTED, NOTICE_PENDING, NOTICE_SENT, WAITING_RESOLUTION]"

text \<open>\<open>list.index\<close> for a state of the path.\<close>

definition milestone_index :: "reg_e_state \<Rightarrow> nat" where
  "milestone_index s = length (takeWhile (\<lambda>t. t \<noteq> s) happy_path)"

definition current_state :: "string \<Rightarrow> db \<Rightarrow> reg_e_state res" where
  "current_state case_id d = (case get_case case_id d of None \<Rightarrow> Inr RECEIVED | Some c \<Rightarrow> state_of_value (c_status c))"

definition transition :: "'w workflow \<Rightarrow> string \<Rightarrow> reg_e_state \<Rightarrow> bool option \<Rightarrow> ('w system, unit) prog" where
  "transition wk case_id new_state money_moved =
     bnd (gets (\<lambda>x. current_state case_id (sy_db x))) (\<lambda>state. bnd (of_res state) (\<lambda>current.
     if current = new_state
     then if money_moved = Some True
       then andthen (on_db (update_case_status (wf_ambient wk) case_id (state_value new_state) (Some True))) commit
       else ret ()
     else andthen (unless_raise (can_transition current new_state) (ValueError (fstr [''Illegal state transition from RegEState.'',
              state_value current, '' to RegEState.'', state_value new_state]))) (
       andthen (on_db (update_case_status (wf_ambient wk) case_id (state_value new_state) money_moved)) (
       andthen (on_db (record_event (wf_ambient wk) case_id ''STATE_TRANSITION'' ''orchestrator'' ''AUTOMATION''
         (Some [(''from'', VStr (state_value current)), (''to'', VStr (state_value new_state))])))
         commit))))"

definition ensure_reached :: "'w workflow \<Rightarrow> string \<Rightarrow> reg_e_state \<Rightarrow> bool option \<Rightarrow> ('w system, unit) prog" where
  "ensure_reached wk case_id milestone money_moved =
     bnd (gets (\<lambda>x. current_state case_id (sy_db x))) (\<lambda>state. bnd (of_res state) (\<lambda>current.
     if current \<in> set happy_path \<and> milestone_index milestone \<le> milestone_index current then ret ()
     else if can_transition current milestone then transition wk case_id milestone money_moved else ret ()))"

definition effect_failure :: "'w workflow \<Rightarrow> string \<Rightarrow> execution_outcome \<Rightarrow> ('w system, dict option) prog" where
  "effect_failure wk case_id oc =
     (if is_success oc \<or> o_code oc = ALREADY_APPLIED then ret None
      else let state = (if o_category oc = CAT_UNCERTAIN_EFFECT then ST_UNCERTAIN_EFFECT
                 else if o_category oc = HARD_FAILURE then FAILED else NEEDS_HUMAN)
        in andthen (transition wk case_id state None)
             (ret (Some [(''status'', VStr (state_value state)), (''code'', VStr (code_value (o_code oc))),
                (''message'', VStr (o_message oc))])))"

section \<open>Opening and resuming a case\<close>

text \<open>A failed recovery or comparison parks the case for an operator.\<close>

definition park_case :: "'w workflow \<Rightarrow> string \<Rightarrow> string \<Rightarrow> string \<Rightarrow> dict \<Rightarrow> execution_outcome \<Rightarrow> ('w system, dict option) prog" where
  "park_case wk case_id event_type step_name payload oc =
     andthen (on_db (update_case_status (wf_ambient wk) case_id (state_value NEEDS_HUMAN) None)) (
     andthen (on_db (record_event (wf_ambient wk) case_id event_type step_name ''AUTOMATION'' (Some payload))) (
     andthen commit
       (ret (Some [(''status'', VStr ''NEEDS_HUMAN''), (''code'', VStr (code_value (o_code oc))), (''message'', VStr (o_message oc))]))))"

definition create_statutory_deadlines :: "'w workflow \<Rightarrow> string \<Rightarrow> (string \<times> datetime) list \<Rightarrow> ('w system, unit) prog" where
  "create_statutory_deadlines wk case_id due =
     andthen (on_db (create_deadline (wf_ambient wk) case_id ''INVESTIGATION_10_DAY'' (the (map_of due ''INVESTIGATION_10_DAY'')))) (
     andthen (on_db (create_deadline (wf_ambient wk) case_id ''FINAL_RESOLUTION_45_DAY'' (the (map_of due ''FINAL_RESOLUTION_45_DAY''))))
       commit)"

definition statutory :: "'w workflow \<Rightarrow> datetime \<Rightarrow> ((string \<times> datetime) list \<times> datetime) res" where
  "statutory wk clock = rbind (calculate (wf_rules wk) 0 (Some clock) False) (\<lambda>due.
     rbind (add_business_days (wf_rules wk) clock 2) (\<lambda>notice. Inr (due, notice)))"

definition resume_case :: "'w workflow \<Rightarrow> string \<Rightarrow> datetime \<Rightarrow> ('w system, dict option) prog" where
  "resume_case wk case_id clock =
     bnd (recover_dead_effect_claims (wf_recovery wk) case_id) (\<lambda>recovery_failure. case recovery_failure of
       Some oc \<Rightarrow> park_case wk case_id ''CRASH_RECOVERY_REQUIRES_HUMAN'' ''resume.crash_recovery''
         [(''message'', VStr (o_message oc))] oc
     | None \<Rightarrow> andthen commit (
         bnd (reconcile_applied_effects (wf_recovery wk) case_id) (\<lambda>reconciliation_failure. case reconciliation_failure of
           Some oc \<Rightarrow> park_case wk case_id (code_value (o_code oc)) ''resume.target_reconciliation''
             [(''message'', VStr (o_message oc)), (''details'', VDict (o_details oc))] oc
         | None \<Rightarrow>
             bnd (of_res (statutory wk clock)) (\<lambda>(due, notice).
             andthen (on_db (create_obligation (wf_ambient wk) case_id ''NOTICE_2_DAY'' notice)) (
             andthen (create_statutory_deadlines wk case_id due) (ret None))))))"

definition open_case :: "'w workflow \<Rightarrow> string \<Rightarrow> string \<Rightarrow> money \<Rightarrow> datetime \<Rightarrow> ('w system, unit) prog" where
  "open_case wk case_id member_id amount clock =
     andthen (on_db (create_or_get_case (wf_ambient wk) case_id member_id (money_val amount) ''USD'' ''reg_e_dispute'')) (
     andthen (maybe_crash (en_crash (wf_env wk)) ''A_BEFORE_OBLIGATION'' None) (
     bnd (of_res (statutory wk clock)) (\<lambda>(due, notice).
     andthen (on_db (create_obligation (wf_ambient wk) case_id ''NOTICE_2_DAY'' notice)) (
     andthen commit (
     andthen (maybe_crash (en_crash (wf_env wk)) ''B_AFTER_OBLIGATION'' None)
       (create_statutory_deadlines wk case_id due))))))"

definition begin_case :: "'w workflow \<Rightarrow> string \<Rightarrow> string \<Rightarrow> money \<Rightarrow> datetime \<Rightarrow> ('w system, dict option) prog" where
  "begin_case wk case_id member_id amount clock =
     bnd (gets (\<lambda>x. get_case case_id (sy_db x) \<noteq> None)) (\<lambda>existing.
     if existing then resume_case wk case_id clock else andthen (open_case wk case_id member_id amount clock) (ret None))"

section \<open>The read steps\<close>

definition fetch :: "'w target \<Rightarrow> string \<Rightarrow> ('w, response) prog" where
  "fetch tg url = bnd (get_url tg url) (\<lambda>answer. of_res (case answer of
      Inl e \<Rightarrow> Inl (OtherException (http_error_text e)) | Inr r \<Rightarrow> Inr r))"

definition fetch_member :: "'w workflow \<Rightarrow> string \<Rightarrow> ('w system, response) prog" where
  "fetch_member wk member_id =
     on_world (fetch (en_target (wf_env wk)) (fstr [core_bank_url (en_settings (wf_env wk)), ''/api/member/'', member_id]))"

definition record_read ::
  "'w workflow \<Rightarrow> string \<Rightarrow> string \<Rightarrow> string option \<Rightarrow> val option \<Rightarrow> reg_e_state \<Rightarrow> ('w system, unit) prog" where
  "record_read wk case_id capability_id entity amount state =
     bnd (on_db (start_execution (wf_ambient wk) case_id capability_id ''1.0.0'' ''READ'' None entity None ''AUTOMATION'' None)) (\<lambda>row.
     andthen (on_db (complete_execution (wf_ambient wk) (ex_id row) ''SUCCESS'' entity amount None None False))
       (transition wk case_id state None))"

definition verify_member :: "'w workflow \<Rightarrow> string \<Rightarrow> string \<Rightarrow> ('w system, dict option) prog" where
  "verify_member wk case_id member_id =
     bnd (fetch_member wk member_id) (\<lambda>resp.
     if status_code resp \<noteq> 200
     then andthen (transition wk case_id FAILED None)
       (ret (Some [(''status'', VStr ''FAILED''), (''error'', VStr (fstr [''Member '', member_id, '' not found'']))]))
     else andthen (record_read wk case_id ''core.verify_member'' (Some member_id) None MEMBER_VERIFIED) (ret None))"

definition account_of :: "response \<Rightarrow> string res" where
  "account_of r = (case body_json r of
      Inl m \<Rightarrow> Inl (ValueError m)
    | Inr (VDict data) \<Rightarrow> (case dict_get data ''account_id'' of
          None \<Rightarrow> Inl (KeyError (repr_str ''account_id'')) | Some v \<Rightarrow> Inr (py_str v))
    | Inr _ \<Rightarrow> Inl (TypeError ''the member response is not an object''))"

definition bind_account :: "'w workflow \<Rightarrow> string \<Rightarrow> string \<Rightarrow> ('w system, dict + string) prog" where
  "bind_account wk case_id member_id =
     bnd (fetch_member wk member_id) (\<lambda>resp.
     if status_code resp \<noteq> 200
     then andthen (transition wk case_id NEEDS_HUMAN None)
       (ret (Inl [(''status'', VStr ''NEEDS_HUMAN''), (''error'', VStr ''Unable to bind member account identity'')]))
     else bnd (of_res (account_of resp)) (\<lambda>account. ret (Inr account)))"

definition common_inputs :: "string \<Rightarrow> string \<Rightarrow> string \<Rightarrow> money \<Rightarrow> dict" where
  "common_inputs case_id member_id account_id amount =
     [(''institution_id'', VStr ''alpha''), (''member_id'', VStr member_id), (''account_id'', VStr account_id),
      (''case_id'', VStr case_id), (''amount'', money_val amount), (''currency'', VStr ''USD'')]"

section \<open>The commits\<close>

text \<open>\<open>f"AUTOMATION:{os.getpid()}:{uuid4().hex}"\<close>.\<close>

definition engine_owner :: "processes \<Rightarrow> string \<Rightarrow> string" where
  "engine_owner ps uuid = fstr [''AUTOMATION:'', str_int (ps_own_pid ps), '':'', filter (\<lambda>c. c \<noteq> CHR ''-'') uuid]"

definition run_engine :: "'w workflow \<Rightarrow> capability \<Rightarrow> dict \<Rightarrow> ('w system, execution_outcome) prog" where
  "run_engine wk c inputs =
     bnd (on_db (new_uuid (wf_ambient wk))) (\<lambda>uuid.
       execute_capability \<lparr>eg_env = (wf_env wk)\<lparr>en_overlay := None\<rparr>, eg_ambient = wf_ambient wk,
         eg_owner = engine_owner (wf_processes wk) uuid, eg_session = wf_session wk\<rparr> c inputs)"

definition load_file :: "'w workflow \<Rightarrow> string \<Rightarrow> ('w system, capability) prog" where
  "load_file wk path = of_res (load_capability_from_yaml (amb_sha (wf_ambient wk)) (wf_artifacts wk) path)"

definition file_chargeback :: "'w workflow \<Rightarrow> string \<Rightarrow> dict \<Rightarrow> string \<Rightarrow> ('w system, dict option) prog" where
  "file_chargeback wk case_id inputs card_last4 =
     andthen (unless_raise (wf_page wk) (RuntimeError ''Execution page required for effect orchestration'')) (
     bnd (load_file wk ''capabilities/processor/file_chargeback.yaml'') (\<lambda>c.
     bnd (run_engine wk c (inputs @ [(''card_last4'', VStr card_last4),
            (''dispute_reason'', VStr ''10.4 - Fraud / Unauthorized Transaction'')]))
       (effect_failure wk case_id)))"

definition post_credit :: "'w workflow \<Rightarrow> string \<Rightarrow> dict \<Rightarrow> ('w system, dict option) prog" where
  "post_credit wk case_id inputs =
     bnd (gets (\<lambda>x. list_ex (\<lambda>r. ob_obligation_type r = ''NOTICE_2_DAY'') (get_obligations_for_case case_id (sy_db x)))) (\<lambda>obliged.
     andthen (unless_raise obliged (RuntimeError ''NOTICE_2_DAY obligation must exist before provisional credit'')) (
     bnd (load_file wk ''capabilities/core/post_provisional_credit.yaml'') (\<lambda>c.
     andthen (unless_raise (wf_page wk) (RuntimeError ''Playwright page required for core.post_provisional_credit replay'')) (
     bnd (run_engine wk c inputs) (\<lambda>oc.
     if o_code oc = POLICY_DENIED
     then andthen (transition wk case_id NEEDS_HUMAN None)
       (ret (Some [(''status'', VStr ''POLICY_DENIED''), (''message'', VStr (o_message oc))]))
     else effect_failure wk case_id oc)))))"

definition send_notice :: "'w workflow \<Rightarrow> string \<Rightarrow> dict \<Rightarrow> datetime \<Rightarrow> ('w system, dict option) prog" where
  "send_notice wk case_id inputs clock =
     andthen (maybe_crash (en_crash (wf_env wk)) ''K_BEFORE_NOTICE'' None) (
     andthen (ensure_reached wk case_id NOTICE_PENDING None) (
     bnd (of_res (add_business_days (wf_rules wk) clock 2)) (\<lambda>due.
     andthen (unless_raise (wf_page wk) (RuntimeError ''Execution page required for effect orchestration'')) (
     bnd (load_file wk ''capabilities/documents/send_notice.yaml'') (\<lambda>c.
     bnd (run_engine wk c (inputs @ [(''notice_type'', VStr ''REG_E_PROVISIONAL_CREDIT_DISCLOSURE''),
            (''deadline_due_at'', VStr (utc_label due))]))
       (effect_failure wk case_id))))))"

text \<open>The projections of the credit, and the simulated death of the process after it.\<close>

definition settle_credit :: "'w workflow \<Rightarrow> string \<Rightarrow> ('w system, unit) prog" where
  "settle_credit wk case_id =
     bnd (on_db (activate_obligation (wf_ambient wk) case_id ''NOTICE_2_DAY'')) (\<lambda>obligation.
     andthen (on_db (create_deadline (wf_ambient wk) case_id ''NOTICE_2_DAY'' (ob_due_at obligation))) (
     andthen (ensure_reached wk case_id PROVISIONAL_CREDIT_POSTED (Some True))
       commit))"

definition kill_after_credit :: "'w workflow \<Rightarrow> string \<Rightarrow> ('w system, unit) prog" where
  "kill_after_credit wk case_id =
     (if wf_kill_after_credit wk
      then andthen (on_db (record_event (wf_ambient wk) case_id ''PROCESS_KILLED'' ''core.post_provisional_credit'' ''AUTOMATION''
             (Some [(''message'', VStr ''Intentional crash injection after money movement'')]))) (
           andthen commit
             (fail (RuntimeError (''PROCESS_KILL_AFTER=core.post_provisional_credit triggered! '' @
                ''Simulating process crash. Money has moved. Notice has not been sent.''))))
      else ret ())"

definition settle_notice :: "'w workflow \<Rightarrow> string \<Rightarrow> ('w system, unit) prog" where
  "settle_notice wk case_id =
     andthen (on_db (resolve_deadline (wf_ambient wk) case_id ''NOTICE_2_DAY'')) (
     andthen (on_db (satisfy_obligation (wf_ambient wk) case_id ''NOTICE_2_DAY'')) (
     andthen (ensure_reached wk case_id NOTICE_SENT None) (
     andthen (ensure_reached wk case_id WAITING_RESOLUTION None)
       commit)))"

section \<open>The whole case\<close>

text \<open>\<open>if capability_id not in completed_capabilities: ...\<close>, where the step may return.\<close>

definition step_unless :: "bool \<Rightarrow> ('w system, dict option) prog \<Rightarrow> ('w system, dict) prog \<Rightarrow> ('w system, dict) prog" where
  "step_unless completed step rest =
     bnd (if completed then ret None else step) (\<lambda>early. case early of Some result \<Rightarrow> ret result | None \<Rightarrow> rest)"

definition finish_case :: "'w workflow \<Rightarrow> string \<Rightarrow> ('w system, dict) prog" where
  "finish_case wk case_id =
     andthen (settle_notice wk case_id) (
     bnd (on_db (reconstruct_case_state (wf_ambient wk) case_id)) (\<lambda>s.
     ret [(''status'', VStr ''SUCCESS''), (''state'', VStr (snapshot_status s)), (''money_moved'', VBool (summary_money_moved s)),
          (''latest_memo_ref'', opt_val VStr (latest_memo_ref s)),
          (''pending_deadlines_count'', VInt (int (length (pending_deadlines s))))]))"

definition run_commits :: "'w workflow \<Rightarrow> string \<Rightarrow> dict \<Rightarrow> string \<Rightarrow> datetime \<Rightarrow> string list \<Rightarrow> ('w system, dict) prog" where
  "run_commits wk case_id inputs card_last4 clock completed =
     step_unless (''processor.file_chargeback'' \<in> set completed) (file_chargeback wk case_id inputs card_last4) (
     andthen (ensure_reached wk case_id CHARGEBACK_FILED None) (
     step_unless (''core.post_provisional_credit'' \<in> set completed) (post_credit wk case_id inputs) (
     andthen (settle_credit wk case_id) (
     andthen (if ''core.post_provisional_credit'' \<in> set completed then ret () else kill_after_credit wk case_id) (
     step_unless (''docs.send_notice'' \<in> set completed) (send_notice wk case_id inputs clock)
       (finish_case wk case_id))))))"

definition run_steps ::
  "'w workflow \<Rightarrow> string \<Rightarrow> string \<Rightarrow> money \<Rightarrow> string \<Rightarrow> datetime \<Rightarrow> string list \<Rightarrow> ('w system, dict) prog" where
  "run_steps wk case_id member_id amount card_last4 clock completed =
     step_unless (''core.verify_member'' \<in> set completed) (verify_member wk case_id member_id) (
     bnd (bind_account wk case_id member_id) (\<lambda>bound. case bound of
       Inl result \<Rightarrow> ret result
     | Inr account_id \<Rightarrow>
         andthen (if ''core.locate_transaction'' \<in> set completed then ret ()
           else record_read wk case_id ''core.locate_transaction'' None (Some (money_val amount)) TRANSACTION_VERIFIED) (
         andthen (if ''core.check_duplicate_dispute'' \<in> set completed then ret ()
           else record_read wk case_id ''core.check_duplicate_dispute'' None None DUPLICATE_CHECKED)
         (run_commits wk case_id (common_inputs case_id member_id account_id amount) card_last4 clock completed))))"

definition run_case ::
  "'w workflow \<Rightarrow> string \<Rightarrow> string \<Rightarrow> val \<Rightarrow> string \<Rightarrow> datetime option \<Rightarrow> ('w system, dict) prog" where
  "run_case wk case_id member_id amount card_last4 injected_clock =
     bnd (on_db (reference_time (wf_ambient wk) injected_clock)) (\<lambda>clock.
     bnd (of_res (parse_money amount)) (\<lambda>amount.
     step_unless False (begin_case wk case_id member_id amount clock) (
     bnd (on_db (reconstruct_case_state (wf_ambient wk) case_id)) (\<lambda>snapshot.
       run_steps wk case_id member_id amount card_last4 clock (completed_capabilities snapshot)))))"

end
