(* ===== verification/Disputes.thy ===== *)
theory Disputes
  imports Workflow
begin

text \<open>
  What the orchestration of a dispute (\<open>tandem/workflow/reg_e.py\<close>) guarantees: it keeps
  every property of the ledger that the operations of the repository keep, acts on a
  target only when the obligation to notify the member is durable, moves the case along
  the state machine, and reports success only for a case whose obligation is settled.
\<close>

section \<open>Properties of the ledger that a dispute keeps\<close>

text \<open>
  The operations of the repository that the workflow calls beside those of the engine;
  what all of them keep, every run of a dispute keeps, in the session and in what is
  durable, however it ends.
\<close>

locale workflow_property = ledger_property J a for J :: "db \<Rightarrow> bool" and a :: ambient +
  assumes deadlines: "keeps J (create_deadline a cid ty due)" "keeps J (resolve_deadline a cid ty)"
      "keeps J (mark_overdue_deadlines a cid now)"
    and obligations: "keeps J (create_obligation a cid ty due)" "keeps J (activate_obligation a cid ty)"
      "keeps J (satisfy_obligation a cid ty)"
    and clock: "keeps J (utc_now a)" "keeps J (new_uuid a)"
begin

lemmas further_operations [keeps_rules] = deadlines obligations clock

lemma keeps_reference_clock [keeps_rules]: "keeps J (reference_time a now)"
  unfolding reference_time_def by (intro keeps_rules)

lemma keeps_reconstruct [keeps_rules]: "keeps J (reconstruct_case_state a cid)"
  unfolding reconstruct_case_state_def Let_def by (intro keeps_rules)

lemma keeps_recovery:
  "rc_ambient rc = a \<Longrightarrow> keeps (ledger_inv J) (recover_dead_effect_claims rc cid)"
  "keeps (ledger_inv J) (reconcile_applied_effects rc cid)"
  unfolding recover_dead_effect_claims_def release_dead_lease_def recover_claim_def act_on_inquiry_def settle_recovered_def
    recovery_move_def reconcile_applied_effects_def reconcile_claim_def Let_def
  by (simp_all only:) (intro keeps_rules)+

lemma keeps_transition [keeps_rules]:
  assumes "wf_ambient wk = a"
  shows "keeps (ledger_inv J) (transition wk cid s m)" "keeps (ledger_inv J) (ensure_reached wk cid s m)"
proof -
  show t: "keeps (ledger_inv J) (transition wk cid s m)" for s m
    unfolding transition_def assms by (intro keeps_rules)
  show "keeps (ledger_inv J) (ensure_reached wk cid s m)"
    unfolding ensure_reached_def by (intro keeps_rules t)
qed

lemma keeps_engine [keeps_rules]:
  assumes "wf_ambient wk = a"
  shows "keeps (ledger_inv J) (run_engine wk c inputs)"
  unfolding run_engine_def assms by (intro keeps_rules) simp

lemma keeps_case_parts:
  assumes "wf_ambient wk = a"
  shows "keeps (ledger_inv J) (park_case wk cid ty st p oc)" "keeps (ledger_inv J) (create_statutory_deadlines wk cid due)"
    "keeps (ledger_inv J) (open_case wk cid mid amt t)" "keeps (ledger_inv J) (record_read wk cid c entity v s)"
    "keeps (ledger_inv J) (effect_failure wk cid oc)" "keeps (ledger_inv J) (settle_credit wk cid)"
    "keeps (ledger_inv J) (kill_after_credit wk cid)" "keeps (ledger_inv J) (settle_notice wk cid)"
  unfolding park_case_def create_statutory_deadlines_def open_case_def record_read_def effect_failure_def settle_credit_def
    kill_after_credit_def settle_notice_def Let_def assms
  by (intro keeps_rules assms)+

lemma keeps_begin:
  assumes "wf_ambient wk = a"
  shows "keeps (ledger_inv J) (begin_case wk cid mid amt t)"
  unfolding begin_case_def resume_case_def assms
  by (intro keeps_rules keeps_recovery keeps_case_parts assms) (simp add: wf_recovery_def assms)

lemma keeps_steps:
  assumes "wf_ambient wk = a"
  shows "keeps (ledger_inv J) (verify_member wk cid mid)" "keeps (ledger_inv J) (bind_account wk cid mid)"
    "keeps (ledger_inv J) (file_chargeback wk cid inputs c4)" "keeps (ledger_inv J) (post_credit wk cid inputs)"
    "keeps (ledger_inv J) (send_notice wk cid inputs t)" "keeps (ledger_inv J) (finish_case wk cid)"
  unfolding verify_member_def bind_account_def file_chargeback_def post_credit_def send_notice_def finish_case_def
    fetch_member_def load_file_def assms
  by (intro keeps_rules keeps_case_parts assms)+

lemma keeps_step_unless [keeps_rules]:
  "keeps I step \<Longrightarrow> keeps I rest \<Longrightarrow> keeps I (step_unless completed step rest)"
  unfolding step_unless_def by (intro keeps_rules)

lemma keeps_commits:
  "wf_ambient wk = a \<Longrightarrow> keeps (ledger_inv J) (run_commits wk cid inputs c4 t completed)"
  unfolding run_commits_def by (intro keeps_rules keeps_case_parts keeps_steps)

lemma keeps_run_steps:
  "wf_ambient wk = a \<Longrightarrow> keeps (ledger_inv J) (run_steps wk cid mid amt c4 t completed)"
  unfolding run_steps_def by (intro keeps_rules keeps_case_parts keeps_steps keeps_commits)

lemma keeps_run_case:
  assumes "wf_ambient wk = a"
  shows "keeps (ledger_inv J) (run_case wk cid mid v c4 t)"
  unfolding run_case_def assms by (intro keeps_rules keeps_begin keeps_run_steps assms)

end

section \<open>The chain of events\<close>

interpretation case_chain: workflow_property "chain_inv (amb_sha a)" a
  by unfold_locales (intro keeps_rules)+

section \<open>The tables of the desk\<close>

text \<open>A property of the cases, deadlines and obligations; every operation on other tables keeps it.\<close>

definition desk_only :: "(case_row list \<Rightarrow> deadline_row list \<Rightarrow> obligation_row list \<Rightarrow> bool) \<Rightarrow> db \<Rightarrow> bool" where
  "desk_only Q d \<longleftrightarrow> Q (t_cases d) (t_deadlines d) (t_obligations d)"

lemma desk_only_simps [simp]:
  "desk_only Q (d\<lparr>t_claims := c\<rparr>) = desk_only Q d" "desk_only Q (d\<lparr>t_executions := b\<rparr>) = desk_only Q d"
  "desk_only Q (d\<lparr>t_intents := i\<rparr>) = desk_only Q d" "desk_only Q (d\<lparr>t_leases := l\<rparr>) = desk_only Q d"
  "desk_only Q (d\<lparr>tick := n\<rparr>) = desk_only Q d"
  by (simp_all add: desk_only_def)

lemma keeps_desk_basic [keeps_rules]:
  "keeps (desk_only Q) (record_event a cid ty st ac p)" "keeps (desk_only Q) (utc_now a)" "keeps (desk_only Q) (new_uuid a)"
  "keeps (desk_only Q) (time_or_now a t)" "keeps (desk_only Q) (update_leases P f)" "keeps (desk_only Q) (update_claims R g)"
  "keeps (desk_only Q) (require_case_row cid)" "keeps (desk_only Q) (read_lease cid)"
  by (cases t; auto simp: keeps_def desk_only_def record_event_run utc_now_def new_uuid_def time_or_now_def update_leases_def
      update_claims_def require_case_row_def read_lease_def unless_raise_def split: option.splits)+

lemma keeps_desk_claims [keeps_rules]:
  "keeps (desk_only Q) (claim_effect a i ow now ttl)" "keeps (desk_only Q) (transition_effect_claim a key ow tok froms to now)"
proof -
  have "keeps (desk_only Q) (\<lambda>d. case insert_claim r d of (b, d') \<Rightarrow> (Ret b, d'))" for r
    by (simp add: keeps_def insert_claim_def)
  then show "keeps (desk_only Q) (claim_effect a i ow now ttl)"
    unfolding claim_effect_def reclaim_def Let_def by (intro keeps_rules)
  show "keeps (desk_only Q) (transition_effect_claim a key ow tok froms to now)"
    unfolding transition_effect_claim_def by (intro keeps_rules)
qed

lemma keeps_desk_executions [keeps_rules]:
  "keeps (desk_only Q) (start_execution a c ko v ec key ee ea ac bs)" "keeps (desk_only Q) (complete_execution a n s oe oa fc ar mm)"
  "keeps (desk_only Q) (stage_intent a c k2 k)" "keeps (desk_only Q) (mark_intent_committed a k2)"
  unfolding start_execution_def complete_execution_def stage_intent_def mark_intent_committed_def Let_def set_execution_def
  by (intro keeps_rules keeps_change; simp)+

lemma keeps_desk_leases [keeps_rules]:
  "keeps (desk_only Q) (heartbeat_lease a c ow tok now ttl)"
  "keeps (desk_only Q) (acquire_lease a c ow ty now ttl res)" "keeps (desk_only Q) (release_lease a c owo toko now)"
  unfolding heartbeat_lease_def acquire_lease_def release_lease_def take_over_lease_def lease_acquired_event_def Let_def
  by (intro keeps_rules keeps_change; simp)+

text \<open>What remains to be shown of a property of these tables: that their own operations keep it.\<close>

section \<open>Commitments\<close>

lemma keeps_desk_case [keeps_rules]:
  "keeps (desk_only (\<lambda>_. Q)) (create_or_get_case a cid mid amt cur proc)" "keeps (desk_only (\<lambda>_. Q)) (update_case_status a cid st mm)"
  unfolding create_or_get_case_def update_case_status_def Let_def set_case_def
  by (intro keeps_rules keeps_change; simp add: desk_only_def)+

lemma agenda_operations:
  "agenda_ok d \<Longrightarrow> agenda_change d (snd (create_deadline a c ty due d))"
  "agenda_ok d \<Longrightarrow> agenda_change d (snd (resolve_deadline a c ty d))"
  "agenda_ok d \<Longrightarrow> agenda_change d (snd (mark_overdue_deadlines a c now d))"
  "agenda_ok d \<Longrightarrow> agenda_change d (snd (create_obligation a c ty due d))"
  "agenda_ok d \<Longrightarrow> agenda_change d (snd (activate_obligation a c ty d))"
  "agenda_ok d \<Longrightarrow> agenda_change d (snd (satisfy_obligation a c ty d))"
  by (rule create_deadline_change resolve_deadline_change mark_overdue_change create_obligation_change
    activate_obligation_change satisfy_obligation_change; assumption)+

lemma keeps_agenda:
  assumes "\<And>d. P d \<Longrightarrow> agenda_ok d" and "\<And>d e. P d \<Longrightarrow> agenda_change d e \<Longrightarrow> P e"
  shows "keeps P (create_deadline a c ty due)" "keeps P (resolve_deadline a c ty)" "keeps P (mark_overdue_deadlines a c now)"
    "keeps P (create_obligation a c ty due)" "keeps P (activate_obligation a c ty)" "keeps P (satisfy_obligation a c ty)"
  by (rule keepsI, rule assms(2), assumption, rule agenda_operations, rule assms(1), assumption)+

definition agenda_rows :: "deadline_row list \<Rightarrow> obligation_row list \<Rightarrow> bool" where
  "agenda_rows dl ob \<longleftrightarrow> unique_on dl_id dl \<and> unique_on (\<lambda>r. (dl_case_id r, dl_deadline_type r)) dl \<and>
     unique_on ob_id ob \<and> unique_on (\<lambda>r. (ob_case_id r, ob_obligation_type r)) ob"

lemma agenda_ok_rows: "agenda_ok d \<longleftrightarrow> agenda_rows (t_deadlines d) (t_obligations d)"
  by (simp add: agenda_ok_def agenda_rows_def)

text \<open>What became of the deadlines and obligations of an earlier ledger.\<close>

definition honours :: "db \<Rightarrow> db \<Rightarrow> bool" where
  "honours d = desk_only (\<lambda>_ dl ob. agenda_rows dl ob \<and>
     grown deadline_evolves (t_deadlines d) dl \<and> grown obligation_evolves (t_obligations d) ob)"

lemma honours_iff: "honours d e \<longleftrightarrow> agenda_ok e \<and> grown deadline_evolves (t_deadlines d) (t_deadlines e) \<and>
     grown obligation_evolves (t_obligations d) (t_obligations e)"
  by (simp add: honours_def desk_only_def agenda_ok_rows)

lemma grown_evolves:
  "grown deadline_evolves a b \<Longrightarrow> grown deadline_evolves b c \<Longrightarrow> grown deadline_evolves a c"
  "grown obligation_evolves p q \<Longrightarrow> grown obligation_evolves q r \<Longrightarrow> grown obligation_evolves p r"
  by (rule grown_trans [where R = deadline_evolves], erule (1) evolves_trans, assumption+)
    (rule grown_trans [where R = obligation_evolves], erule (1) evolves_trans, assumption+)

lemma honours_change: "honours d e \<Longrightarrow> agenda_change e f \<Longrightarrow> honours d f"
  unfolding honours_iff by (blast dest: agenda_change_ok agenda_change_grown intro: grown_evolves)

lemma honours_frame: "(\<And>Q. keeps (desk_only (\<lambda>_. Q)) p) \<Longrightarrow> keeps (honours d) p"
  by (simp add: honours_def)

lemma honours_ok: "honours d e \<Longrightarrow> agenda_ok e"
  by (simp add: honours_iff)

interpretation commitments: workflow_property "honours d" a
  by unfold_locales (rule keeps_agenda [OF honours_ok honours_change], assumption+ | rule honours_frame; intro keeps_rules)+

text \<open>
  C9: A dispute honours its commitments: however a run of the workflow ends, every
  deadline and every obligation that was durable before is durable after, for the same
  due date and no earlier in its life cycle, and none has been duplicated.
\<close>

theorem dispute_honours_commitments:
  assumes "agenda_ok (sy_saved x)" and "sy_db x = sy_saved x" and "run_case wk case_id member_id amount c4 clock x = (r, y)"
  shows "agenda_ok (sy_saved y) \<and>
     (\<forall>dl \<in> set (t_deadlines (sy_saved x)). \<exists>dl' \<in> set (t_deadlines (sy_saved y)). deadline_evolves dl dl') \<and>
     (\<forall>ob \<in> set (t_obligations (sy_saved x)). \<exists>ob' \<in> set (t_obligations (sy_saved y)). obligation_evolves ob ob')"
proof -
  have "ledger_inv (honours (sy_saved x)) x" using assms(1,2) by (simp add: ledger_inv_def honours_iff grown_refl)
  then have "honours (sy_saved x) (sy_saved y)"
    using keepsD_run [OF commitments.keeps_run_case [OF refl] _ assms(3)] by (simp add: ledger_inv_def)
  then show ?thesis by (auto simp: honours_iff dest: grown_row)
qed

text \<open>
  However a run of the workflow ends (a result, an exception or the death of the
  process at any boundary), the event chain of every case stays verifiable, in the
  session and in what is durable.
\<close>

theorem dispute_keeps_chain:
  assumes "ledger_inv (chain_inv (amb_sha (wf_ambient wk))) x" and "run_case wk case_id member_id amount c4 clock x = (r, y)"
  shows "cv_valid (verify_event_chain (amb_sha (wf_ambient wk)) any_case (sy_db y)) \<and>
     cv_valid (verify_event_chain (amb_sha (wf_ambient wk)) any_case (sy_saved y))"
  using keepsD_run [OF case_chain.keeps_run_case [OF refl] assms] by (simp add: ledger_inv_def chain_inv_verified)

section \<open>The obligation comes first\<close>

interpretation agenda: workflow_property agenda_ok a
proof -
  have frame: "keeps agenda_ok p" if "\<And>Q. keeps (desk_only (\<lambda>_. Q)) p" for p :: "(db, 'r) prog"
    using that [of agenda_rows] by (simp add: keeps_def desk_only_def agenda_ok_rows)
  show "workflow_property agenda_ok a"
    by unfold_locales (rule keeps_agenda [OF _ agenda_change_ok], assumption+ | rule frame; intro keeps_rules)+
qed

definition noticed :: "string \<Rightarrow> db \<Rightarrow> bool" where
  "noticed cid = desk_only (\<lambda>_ dl ob. agenda_rows dl ob \<and> (\<exists>r \<in> set ob. ob_case_id r = cid \<and> ob_obligation_type r = ''NOTICE_2_DAY''))"

lemma noticed_iff: "noticed cid d \<longleftrightarrow> agenda_ok d \<and> (\<exists>r \<in> set (t_obligations d). ob_case_id r = cid \<and> ob_obligation_type r = ''NOTICE_2_DAY'')"
  by (simp add: noticed_def desk_only_def agenda_ok_rows)

lemma noticed_ok: "noticed cid d \<Longrightarrow> agenda_ok d"
  by (simp add: noticed_iff)

lemma noticed_change: "noticed cid d \<Longrightarrow> agenda_change d e \<Longrightarrow> noticed cid e"
  unfolding noticed_iff using agenda_change_ok agenda_change_grown grown_row [of obligation_evolves]
  by (metis obligation_evolves_def)

lemma noticed_frame: "(\<And>Q. keeps (desk_only (\<lambda>_. Q)) p) \<Longrightarrow> keeps (noticed cid) p"
  by (simp add: noticed_def)

interpretation noticed: workflow_property "noticed cid" a
  by unfold_locales (rule keeps_agenda [OF noticed_ok noticed_change], assumption+ | rule noticed_frame; intro keeps_rules)+

lemma create_obligation_noticed:
  assumes "agenda_ok d" and "create_obligation a cid ''NOTICE_2_DAY'' due d = (Ret r, e)"
  shows "noticed cid e"
proof -
  have e: "agenda_ok e" using agenda_operations(4) [OF assms(1), of a cid "''NOTICE_2_DAY''" due] assms agenda_change_ok by auto
  show ?thesis
  proof (cases "find_obligation cid ''NOTICE_2_DAY'' d")
    case None
    then show ?thesis
      using e assms(2) by (auto simp: create_obligation_def bnd_eq_Ret andthen_eq_Ret require_case_row_def Let_def noticed_iff)
  next
    case (Some r)
    then show ?thesis using assms find_obligation_D [OF Some] by (auto simp: create_obligation_def noticed_iff)
  qed
qed

text \<open>What \<open>keeps\<close> says of a program that returned.\<close>

lemma kept_db: "keeps J p \<Longrightarrow> J (sy_db x) \<Longrightarrow> on_db p x = (r, y) \<Longrightarrow> J (sy_db y)"
  using on_db_run by blast

lemma committed: "commit x = (r, y) \<Longrightarrow> J (sy_db x) \<Longrightarrow> ledger_inv J y"
  by (auto simp: commit_def ledger_inv_def)

lemma statutory_noticed:
  assumes "noticed cid (sy_db x)" and "create_statutory_deadlines wk cid due x = (Ret u, y)"
  shows "ledger_inv (noticed cid) y"
proof -
  obtain v1 z1 v2 z2 where "on_db (create_deadline (wf_ambient wk) cid ''INVESTIGATION_10_DAY'' (the (map_of due ''INVESTIGATION_10_DAY''))) x = (Ret v1, z1)"
    "on_db (create_deadline (wf_ambient wk) cid ''FINAL_RESOLUTION_45_DAY'' (the (map_of due ''FINAL_RESOLUTION_45_DAY''))) z1 = (Ret v2, z2)"
    "commit z2 = (Ret u, y)"
    using assms(2) by (auto simp: create_statutory_deadlines_def andthen_eq_Ret)
  then have "noticed cid (sy_db z2)"
    using kept_db [OF noticed.deadlines(1)] assms(1) by blast
  then show ?thesis using committed [OF \<open>commit z2 = (Ret u, y)\<close>] by blast
qed

lemma on_db_Ret: "on_db p x = (Ret v, y) \<longleftrightarrow> (\<exists>d. p (sy_db x) = (Ret v, d) \<and> y = x\<lparr>sy_db := d\<rparr>)"
  by (auto simp: on_db_def on_part_def split: prod.splits)

lemma open_case_noticed:
  assumes "agenda_ok (sy_db x)" and "open_case wk cid mid amt t x = (Ret u, y)"
  shows "ledger_inv (noticed cid) y"
proof -
  let ?a = "wf_ambient wk"
  obtain c z1 z2 z2' notice due o1 z3 z4 z5 where
    create: "on_db (create_or_get_case ?a cid mid (money_val amt) ''USD'' ''reg_e_dispute'') x = (Ret c, z1)"
    and crash: "maybe_crash (en_crash (wf_env wk)) ''A_BEFORE_OBLIGATION'' None z1 = (Ret z2', z2)"
    and oblige: "on_db (create_obligation ?a cid ''NOTICE_2_DAY'' notice) z2 = (Ret o1, z3)"
    and save: "commit z3 = (Ret (), z4)" and crash': "maybe_crash (en_crash (wf_env wk)) ''B_AFTER_OBLIGATION'' None z4 = (Ret (), z5)"
    and rest: "create_statutory_deadlines wk cid due z5 = (Ret u, y)"
    using assms(2) by (auto simp: open_case_def andthen_eq_Ret bnd_eq_Ret)
  have same: "z2 = z1" "z5 = z4" using crash crash' by (auto simp: maybe_crash_def split: if_splits option.splits)
  have "keeps (honours (sy_db x)) (create_or_get_case ?a cid mid (money_val amt) ''USD'' ''reg_e_dispute'')"
    by (rule honours_frame) (intro keeps_rules)
  then have "honours (sy_db x) (sy_db z1)"
    using kept_db [OF _ _ create, of "honours (sy_db x)"] assms(1) by (simp add: honours_iff grown_refl)
  then have "noticed cid (sy_db z3)"
    using oblige same create_obligation_noticed [OF honours_ok] by (fastforce simp: on_db_Ret)
  then have "ledger_inv (noticed cid) z4" using committed [OF save] by blast
  then show ?thesis using statutory_noticed [OF _ rest] same by (simp add: ledger_inv_def)
qed

lemma resume_case_noticed:
  assumes "ledger_inv agenda_ok x" and "resume_case wk cid t x = (Ret None, y)"
  shows "ledger_inv (noticed cid) y"
proof -
  obtain z0 z1 z2 notice due o1 z3 u where
    recover: "recover_dead_effect_claims (wf_recovery wk) cid x = (Ret None, z0)" and save: "commit z0 = (Ret (), z1)"
    and compare: "reconcile_applied_effects (wf_recovery wk) cid z1 = (Ret None, z2)"
    and oblige: "on_db (create_obligation (wf_ambient wk) cid ''NOTICE_2_DAY'' notice) z2 = (Ret o1, z3)"
    and rest: "create_statutory_deadlines wk cid due z3 = (Ret u, y)"
    using assms(2)
    by (auto simp: resume_case_def park_case_def andthen_eq_Ret bnd_eq_Ret commit_def split: option.splits)
  have "ledger_inv agenda_ok z0"
    by (rule keepsD_run [OF agenda.keeps_recovery(1) assms(1) recover]) (simp add: wf_recovery_def)
  then have "ledger_inv agenda_ok z1" using committed [OF save, of agenda_ok] by (simp add: ledger_inv_def)
  then have "ledger_inv agenda_ok z2" by (rule keepsD_run [OF agenda.keeps_recovery(2) _ compare])
  then have "agenda_ok (sy_db z2)" by (simp add: ledger_inv_def)
  then have "noticed cid (sy_db z3)" using oblige create_obligation_noticed by (fastforce simp: on_db_Ret)
  then show ?thesis by (rule statutory_noticed [OF _ rest])
qed

lemma begin_case_noticed:
  assumes "ledger_inv agenda_ok x" and "begin_case wk cid mid amt t x = (Ret None, y)"
  shows "ledger_inv (noticed cid) y"
proof (cases "get_case cid (sy_db x) \<noteq> None")
  case True
  then show ?thesis using resume_case_noticed [OF assms(1)] assms(2) by (simp add: begin_case_def)
next
  case False
  then obtain u where "open_case wk cid mid amt t x = (Ret u, y)"
    using assms(2) by (auto simp: begin_case_def andthen_eq_Ret)
  then show ?thesis by (rule open_case_noticed [rotated]) (use assms(1) in \<open>simp add: ledger_inv_def\<close>)
qed

text \<open>The workflow on an environment that counts what acts on a target.\<close>

definition watched_workflow :: "'w workflow \<Rightarrow> ('w \<times> nat) workflow" where
  "watched_workflow wk = \<lparr>wf_env = watched (wf_env wk), wf_ambient = wf_ambient wk, wf_rules = wf_rules wk,
     wf_processes = wf_processes wk, wf_artifacts = wf_artifacts wk, wf_page = wf_page wk,
     wf_kill_after_credit = wf_kill_after_credit wk, wf_session = wf_session wk\<rparr>"

lemma watched_workflow_sel [simp]:
  "wf_env (watched_workflow wk) = watched (wf_env wk)" "wf_ambient (watched_workflow wk) = wf_ambient wk"
  "wf_rules (watched_workflow wk) = wf_rules wk" "wf_processes (watched_workflow wk) = wf_processes wk"
  "wf_artifacts (watched_workflow wk) = wf_artifacts wk" "wf_page (watched_workflow wk) = wf_page wk"
  by (simp_all add: watched_workflow_def)

lemma watched_recovery: "rc_target (wf_recovery (watched_workflow wk)) = watched_target (en_target (wf_env wk))"
  by (simp add: wf_recovery_def)

lemma watched_asking:
  fixes tg :: "'w target"
  shows "keeps (seen_by I) (on_world (get_url (watched_target tg) url))"
    "keeps (seen_by I) (on_world (execute_precheck (watched_target tg) cfg c inputs))"
proof -
  obtain en :: "'w env" where en: "en_target en = tg" by (rule that [of "env.make tg undefined undefined undefined undefined undefined"]) (simp add: env.defs)
  show "keeps (seen_by I) (on_world (get_url (watched_target tg) url))"
    using watched_replay.asking [of I en url] by (simp add: en)
  show "keeps (seen_by I) (on_world (execute_precheck (watched_target tg) cfg c inputs))"
    using watched_replay.keeps_precheck [of I en cfg c inputs] by (simp add: en)
qed

text \<open>Recovery and comparison only ask.\<close>

lemma seen_recovery:
  assumes "rc_target rc = watched_target tg"
  shows "keeps (seen_by I) (recover_dead_effect_claims rc cid)" "keeps (seen_by I) (reconcile_applied_effects rc cid)"
  unfolding recover_dead_effect_claims_def release_dead_lease_def recover_claim_def act_on_inquiry_def settle_recovered_def
    recovery_move_def reconcile_applied_effects_def reconcile_claim_def Let_def assms
  by (intro keeps_rules watched_asking)+

lemma seen_begin: "keeps (seen_by I) (begin_case (watched_workflow wk) cid mid amt t)"
  unfolding begin_case_def resume_case_def park_case_def open_case_def create_statutory_deadlines_def Let_def
  by (intro keeps_rules seen_recovery [OF watched_recovery])

text \<open>
  C1: No target is acted upon before the obligation to notify the member is durable.  If a
  run of the workflow acted on any target (a post, or a click of the automation), then
  however it ended the durable ledger holds the \<open>NOTICE_2_DAY\<close> obligation of the
  case; a run that failed or died before that obligation was committed acted on nothing.
\<close>

theorem obligation_before_action:
  fixes x :: "('w \<times> nat) system"
  assumes "ledger_inv agenda_ok x" and run: "run_case (watched_workflow wk) case_id member_id amount c4 clock x = (r, y)"
  shows "acts y = acts x \<or> (\<exists>ob. find_obligation case_id ''NOTICE_2_DAY'' (sy_saved y) = Some ob)"
proof -
  let ?wk = "watched_workflow wk"
  let ?I = "\<lambda>z :: ('w \<times> nat) system. seen_by (\<lambda>_ k. k = acts x) z \<and> ledger_inv agenda_ok z"
  let ?Q = "\<lambda>(r :: dict run) z. acts z = acts x \<or> ledger_inv (noticed case_id) z"
  have first: "triple ?I (begin_case ?wk case_id member_id amt t)
      (\<lambda>r z. acts z = acts x \<and> (r = Ret None \<longrightarrow> ledger_inv (noticed case_id) z))" for amt t
  proof (rule tripleI)
    fix u r z assume u: "?I u" and run: "begin_case ?wk case_id member_id amt t u = (r, z)"
    have "seen_by (\<lambda>_ k. k = acts x) z" using keepsD_run [OF seen_begin _ run] u by blast
    then show "acts z = acts x \<and> (r = Ret None \<longrightarrow> ledger_inv (noticed case_id) z)"
      using begin_case_noticed u run by (auto simp: seen_by_def)
  qed
  have rest: "triple (ledger_inv (noticed case_id)) (bnd (on_db (reconstruct_case_state (wf_ambient ?wk) case_id)) (\<lambda>snapshot.
       run_steps ?wk case_id member_id amt c4 t (completed_capabilities snapshot))) ?Q" for amt t
  proof -
    have "keeps (ledger_inv (noticed case_id)) (bnd (on_db (reconstruct_case_state (wf_ambient ?wk) case_id)) (\<lambda>snapshot.
       run_steps ?wk case_id member_id amt c4 t (completed_capabilities snapshot)))"
      by (intro keeps_rules noticed.keeps_reconstruct noticed.keeps_run_steps [OF refl])
    then show ?thesis by (rule triple_weaken [OF triple_keeps]) simp_all
  qed
  have cont: "triple (\<lambda>z. acts z = acts x \<and> (Ret early = Ret None \<longrightarrow> ledger_inv (noticed case_id) z))
      (case early of Some result \<Rightarrow> ret result | None \<Rightarrow> q) ?Q" if "triple (ledger_inv (noticed case_id)) q ?Q" for early q
    using that by (cases early) (auto simp: triple_def)
  have "triple ?I (run_case ?wk case_id member_id amount c4 clock) ?Q"
    unfolding run_case_def step_unless_def if_False
    by (rule triple_bnd [OF triple_keeps [where I = ?I]], intro keeps_both keeps_rules agenda.keeps_reference_clock;
        (rule triple_bnd [OF triple_keeps [where I = ?I]], intro keeps_both keeps_rules;
         (rule triple_bnd [OF first cont [OF rest]])?)?)
      (auto simp: seen_by_def)
  from tripleD [OF this _ run] assms(1) consider "acts y = acts x" | "ledger_inv (noticed case_id) y" by (auto simp: seen_by_def)
  then show ?thesis
  proof cases
    case 2
    then have "find_obligation case_id ''NOTICE_2_DAY'' (sy_saved y) \<noteq> None"
      by (auto simp: ledger_inv_def noticed_iff find_obligation_def select_first_None)
    then show ?thesis by blast
  qed simp
qed

section \<open>Success\<close>

definition succeeded :: "dict \<Rightarrow> bool" where
  "succeeded res \<longleftrightarrow> dict_get res ''status'' = Some (VStr ''SUCCESS'')"

text \<open>The obligation and the deadline of the notice are settled.\<close>

definition notice_settled :: "string \<Rightarrow> db \<Rightarrow> bool" where
  "notice_settled cid d \<longleftrightarrow>
     (\<exists>ob. find_obligation cid ''NOTICE_2_DAY'' d = Some ob \<and> ob_status ob = ''SATISFIED'') \<and>
     find_deadline (\<lambda>r. dl_status r \<in> {''PENDING'', ''OVERDUE''}) cid ''NOTICE_2_DAY'' d = None"

text \<open>A step that reports success never returns early.\<close>

definition no_early_success :: "('w system, dict option) prog \<Rightarrow> bool" where
  "no_early_success p \<longleftrightarrow> (\<forall>x res y. p x = (Ret (Some res), y) \<longrightarrow> \<not> succeeded res)"

lemma effect_failure_parks: "effect_failure wk cid oc x = (Ret (Some res), y) \<Longrightarrow> \<not> succeeded res"
  by (auto simp: effect_failure_def andthen_eq_Ret Let_def succeeded_def dict_get_def split: if_splits)

lemma no_early_begin: "no_early_success (begin_case wk cid mid amt t)"
  by (auto simp: no_early_success_def begin_case_def resume_case_def park_case_def andthen_eq_Ret bnd_eq_Ret succeeded_def
      dict_get_def split: if_splits option.splits prod.splits)

lemma no_early_steps:
  "no_early_success (verify_member wk cid mid)" "no_early_success (file_chargeback wk cid inputs c4)"
  "no_early_success (post_credit wk cid inputs)" "no_early_success (send_notice wk cid inputs t)"
  by (auto simp: no_early_success_def verify_member_def file_chargeback_def post_credit_def send_notice_def andthen_eq_Ret bnd_eq_Ret
      succeeded_def dict_get_def dest!: effect_failure_parks split: if_splits)

lemma bind_account_parks: "bind_account wk cid mid x = (Ret (Inl res), y) \<Longrightarrow> \<not> succeeded res"
  by (auto simp: bind_account_def andthen_eq_Ret bnd_eq_Ret succeeded_def dict_get_def split: if_splits)

text \<open>Reasoning about a result that reports success, along the steps.\<close>

definition on_success :: "('w system \<Rightarrow> bool) \<Rightarrow> dict run \<Rightarrow> 'w system \<Rightarrow> bool" where
  "on_success S r y \<longleftrightarrow> (\<forall>res. r = Ret res \<and> succeeded res \<longrightarrow> S y)"

lemma on_success_simps [simp]:
  "on_success S (Raise e) y" "on_success S Died y" "on_success S (Ret res) y \<longleftrightarrow> (succeeded res \<longrightarrow> S y)"
  by (simp_all add: on_success_def)

lemma success_bnd:
  "keeps I p \<Longrightarrow> (\<And>v. triple I (f v) (on_success S)) \<Longrightarrow> triple I (bnd p f) (on_success S)"
  "keeps I p \<Longrightarrow> triple I q (on_success S) \<Longrightarrow> triple I (andthen p q) (on_success S)"
  unfolding andthen_def by (rule triple_bnd [OF triple_keeps]; simp)+

lemma success_step:
  assumes "keeps I step" "no_early_success step" "triple I rest (on_success S)"
  shows "triple I (step_unless completed step rest) (on_success S)"
proof (rule tripleI)
  fix x r y assume x: "I x" and run: "step_unless completed step rest x = (r, y)"
  let ?p = "if completed then ret None else step"
  obtain u z where p: "?p x = (u, z)" by force
  have "keeps I ?p" using assms(1) by (simp add: keeps_pure)
  from keepsD_run [of I ?p x u z, OF this x p] have "I z" .
  have "\<not> succeeded res" if "u = Ret (Some res)" for res
    using p that assms(2) by (auto simp: no_early_success_def split: if_splits)
  then show "on_success S r y"
    using run p tripleD [OF assms(3) \<open>I z\<close>] by (cases u) (auto simp: step_unless_def bnd_def split: option.splits)
qed

lemma resolve_deadline_closes:
  assumes "agenda_ok d" and "resolve_deadline a cid ty d = (Ret r, e)"
  shows "find_deadline (\<lambda>r. dl_status r \<in> {''PENDING'', ''OVERDUE''}) cid ty e = None"
proof (cases "find_deadline (\<lambda>r. dl_status r \<in> {''PENDING'', ''OVERDUE''}) cid ty d")
  case None
  then show ?thesis using assms(2) by (simp add: resolve_deadline_def)
next
  case (Some row)
  note row = find_deadline_D [OF Some]
  have alone: "s = row" if "s \<in> set (t_deadlines d)" "dl_case_id s = cid" "dl_deadline_type s = ty" for s
    using assms(1) row that unique_on_eq [of "\<lambda>r. (dl_case_id r, dl_deadline_type r)" "t_deadlines d" s row]
    by (simp add: agenda_ok_def)
  have "\<exists>row'. r = Some row' \<and> dl_status row' = ''MET'' \<and> t_deadlines e = update_where (\<lambda>r. dl_id r = dl_id row) (\<lambda>_. row') (t_deadlines d)"
    using assms(2) Some
    by (auto simp: resolve_deadline_def bnd_eq_Ret andthen_eq_Ret Let_def set_deadline_def record_event_run utc_now_def split: if_splits)
  then show ?thesis using alone by (auto simp: find_deadline_def select_first_None update_where_def)
qed

lemma satisfy_obligation_satisfied:
  assumes "agenda_ok d" and "satisfy_obligation a cid ty d = (Ret ob, e)"
  shows "find_obligation cid ty e = Some ob \<and> ob_status ob = ''SATISFIED''"
proof -
  obtain row where row: "find_obligation cid ty d = Some row"
    using assms(2) by (auto simp: satisfy_obligation_def get_obligation_def bnd_eq_Ret split: option.splits)
  show ?thesis
  proof (cases "ob_status row = ''SATISFIED''")
    case True
    then show ?thesis using assms(2) row by (auto simp: satisfy_obligation_def get_obligation_def bnd_eq_Ret)
  next
    case False
    have "ob_status ob = ''SATISFIED'' \<and> ob_case_id ob = ob_case_id row \<and> ob_obligation_type ob = ob_obligation_type row \<and>
        t_obligations e = update_where (\<lambda>r. ob_id r = ob_id row) (\<lambda>_. ob) (t_obligations d)"
      using assms(2) row False
      by (auto simp: satisfy_obligation_def get_obligation_def bnd_eq_Ret andthen_eq_Ret Let_def set_obligation_def record_event_run
          utc_now_def split: if_splits)
    then have ob: "ob_status ob = ''SATISFIED''" "ob_case_id ob = cid" "ob_obligation_type ob = ty" "ob \<in> set (t_obligations e)"
      using find_obligation_D [OF row] by (auto simp: update_where_def)
    have "agenda_ok e" using agenda_operations(6) [OF assms(1), of a cid ty] assms agenda_change_ok by auto
    then have "s = ob" if "s \<in> set (t_obligations e)" "ob_case_id s = cid" "ob_obligation_type s = ty" for s
      using ob that unique_on_eq [of "\<lambda>r. (ob_case_id r, ob_obligation_type r)" "t_obligations e" s ob] by (simp add: agenda_ok_def)
    moreover obtain s where "find_obligation cid ty e = Some s"
      using ob by (cases "find_obligation cid ty e") (auto simp: find_obligation_def select_first_None)
    ultimately show ?thesis using find_obligation_D [of cid ty e s] ob(1) by simp
  qed
qed

text \<open>A property of the session, whatever is durable.\<close>

abbreviation in_session :: "(db \<Rightarrow> bool) \<Rightarrow> 'w system \<Rightarrow> bool" where
  "in_session J \<equiv> split_inv J (\<lambda>_. True)"

lemma keeps_session_commit [keeps_rules]: "keeps (in_session J) commit"
  by (simp add: keeps_def commit_def split_inv_def)

lemma keeps_session_case:
  "keeps (in_session (desk_only (\<lambda>_. Q))) (transition wk cid s m)" "keeps (in_session (desk_only (\<lambda>_. Q))) (ensure_reached wk cid s m)"
  unfolding ensure_reached_def transition_def by (intro keeps_rules)+

lemma notice_settled_desk: "notice_settled cid = desk_only (\<lambda>_ dl ob.
     (\<exists>r. select_first (\<lambda>r. ob_case_id r = cid \<and> ob_obligation_type r = ''NOTICE_2_DAY'') ob = Some r \<and> ob_status r = ''SATISFIED'') \<and>
     select_first (\<lambda>r. dl_case_id r = cid \<and> dl_deadline_type r = ''NOTICE_2_DAY'' \<and> dl_status r \<in> {''PENDING'', ''OVERDUE''}) dl = None)"
  by (rule ext) (simp add: notice_settled_def desk_only_def find_obligation_def find_deadline_def)

lemma settle_notice_settles:
  assumes "agenda_ok (sy_db x)" and "settle_notice wk cid x = (Ret u, y)"
  shows "notice_settled cid (sy_saved y)"
proof -
  let ?a = "wf_ambient wk" and ?S = "in_session (notice_settled cid)"
  obtain v1 z1 v2 z2 z3 z4 where
    met: "on_db (resolve_deadline ?a cid ''NOTICE_2_DAY'') x = (Ret v1, z1)"
    and satisfied: "on_db (satisfy_obligation ?a cid ''NOTICE_2_DAY'') z1 = (Ret v2, z2)"
    and sent: "ensure_reached wk cid NOTICE_SENT None z2 = (Ret (), z3)"
    and waiting: "ensure_reached wk cid WAITING_RESOLUTION None z3 = (Ret (), z4)" and save: "commit z4 = (Ret u, y)"
    using assms(2) by (auto simp: settle_notice_def andthen_eq_Ret)
  have z1: "agenda_ok (sy_db z1)" by (rule kept_db [OF agenda.deadlines(2) assms(1) met])
  have closed: "find_deadline (\<lambda>r. dl_status r \<in> {''PENDING'', ''OVERDUE''}) cid ''NOTICE_2_DAY'' (sy_db z1) = None"
    using met resolve_deadline_closes [OF assms(1)] by (auto simp: on_db_Ret)
  have "t_deadlines (sy_db z2) = t_deadlines (sy_db z1)"
    using satisfied by (auto simp: on_db_Ret satisfy_obligation_def get_obligation_def bnd_eq_Ret andthen_eq_Ret Let_def
        set_obligation_def record_event_run utc_now_def split: if_splits option.splits)
  then have "notice_settled cid (sy_db z2)"
    using closed satisfied satisfy_obligation_satisfied [OF z1] by (auto simp: on_db_Ret notice_settled_def find_deadline_def)
  then have "?S z2" by (simp add: split_inv_def)
  moreover have kept: "keeps ?S (ensure_reached wk cid s m)" for s m
    unfolding notice_settled_desk by (rule keeps_session_case)
  ultimately have "?S z3" using keepsD_run [OF kept _ sent] by blast
  then have "?S z4" by (rule keepsD_run [OF kept _ waiting])
  then show ?thesis using committed [OF save, of "notice_settled cid"] by (simp add: split_inv_def ledger_inv_def)
qed

text \<open>
  C8: A run of the workflow reports success only for a case whose notice is settled: the
  durable ledger then holds its \<open>NOTICE_2_DAY\<close> obligation as \<open>SATISFIED\<close> and no open deadline
  of that type.
\<close>

theorem success_means_settled:
  fixes x :: "'w system"
  assumes "ledger_inv agenda_ok x" and run: "run_case wk case_id member_id amount c4 clock x = (Ret res, y)"
    and success: "dict_get res ''status'' = Some (VStr ''SUCCESS'')"
  shows "notice_settled case_id (sy_saved y)"
proof -
  let ?I = "ledger_inv agenda_ok :: 'w system \<Rightarrow> bool" and ?Q = "on_success (\<lambda>y :: 'w system. notice_settled case_id (sy_saved y))"
  have finish: "triple ?I (finish_case wk case_id) ?Q"
  proof (rule tripleI)
    fix u r z assume u: "?I u" and run: "finish_case wk case_id u = (r, z)"
    obtain s v where s: "settle_notice wk case_id u = (s, v)" by force
    have "sy_saved z = sy_saved v" if "s = Ret t" for t
      using run s that
      by (auto simp: finish_case_def andthen_def bnd_def on_db_def on_part_def ret_def split: prod.splits run.splits)
    then show "?Q r z"
      using run s u settle_notice_settles [of u wk case_id] by (cases s) (auto simp: finish_case_def andthen_def bnd_def ledger_inv_def on_success_def)
  qed
  have commits: "triple ?I (run_commits wk case_id inputs c4 t completed) ?Q" for inputs t completed
    unfolding run_commits_def
    by (intro success_step success_bnd no_early_steps agenda.keeps_case_parts [OF refl] agenda.keeps_steps [OF refl]
        agenda.keeps_transition [OF refl] keeps_rules finish)
  have account: "triple ?I (bind_account wk case_id member_id) (\<lambda>r z. ?I z \<and> (\<forall>result. r = Ret (Inl result) \<longrightarrow> \<not> succeeded result))"
    by (rule tripleI) (use keepsD_run [OF agenda.keeps_steps(2) [OF refl]] bind_account_parks in blast)
  have bound: "triple (\<lambda>z. ?I z \<and> (\<forall>result. Ret b = Ret (Inl result) \<longrightarrow> \<not> succeeded result))
      (case b of Inl result \<Rightarrow> ret result | Inr account \<Rightarrow> f account) ?Q"
    if "\<And>account. triple ?I (f account) ?Q" for b and f :: "string \<Rightarrow> ('w system, dict) prog"
    using that by (cases b) (auto simp: triple_def)
  have steps: "triple ?I (run_steps wk case_id member_id amt c4 t completed) ?Q" for amt t completed
    unfolding run_steps_def
    by (intro success_step no_early_steps agenda.keeps_steps [OF refl] triple_bnd [OF account bound] success_bnd
        agenda.keeps_case_parts [OF refl] keeps_rules commits) simp_all
  have "triple ?I (run_case wk case_id member_id amount c4 clock) ?Q"
    unfolding run_case_def
    by (intro success_step success_bnd no_early_begin agenda.keeps_begin [OF refl] agenda.keeps_reconstruct agenda.keeps_reference_clock keeps_rules steps)
  from tripleD [OF this assms(1) run] success show ?thesis by (simp add: succeeded_def)
qed

section \<open>The state of the case\<close>

lemma get_case_updated:
  "c_case_id c' = cid \<Longrightarrow> get_case cid (set_case cid (\<lambda>_. c') d) = map_option (\<lambda>_. c') (get_case cid d)"
proof -
  have "c_case_id c' = cid \<Longrightarrow> select_first (\<lambda>c. c_case_id c = cid) (update_where (\<lambda>c. c_case_id c = cid) (\<lambda>_. c') rows) =
     map_option (\<lambda>_. c') (select_first (\<lambda>c. c_case_id c = cid) rows)" for rows
    by (induction rows) (auto simp: update_where_def)
  then show "c_case_id c' = cid \<Longrightarrow> get_case cid (set_case cid (\<lambda>_. c') d) = map_option (\<lambda>_. c') (get_case cid d)"
    by (simp add: get_case_def set_case_def)
qed

lemma update_case_status_run:
  assumes "get_case cid d = Some c"
  obtains row e where "update_case_status a cid st moved d = (Ret row, e)" "get_case cid e = Some row" "c_status row = st"
    "c_money_moved row \<longleftrightarrow> c_money_moved c \<or> moved = Some True"
proof -
  have "c_case_id c = cid" using assms by (auto simp: get_case_def dest: select_first_Some)
  then have "\<exists>row e. update_case_status a cid st moved d = (Ret row, e) \<and> get_case cid e = Some row \<and> c_status row = st \<and>
      (c_money_moved row \<longleftrightarrow> c_money_moved c \<or> moved = Some True)"
    using assms get_case_updated
    by (simp add: update_case_status_def bnd_def andthen_def utc_now_def Let_def record_event_run get_case_updated
        split: option.split)
  then show thesis using that by blast
qed
text \<open>A legal transition: what the case becomes, and that it is committed.\<close>

definition moved_to :: "string \<Rightarrow> case_row \<Rightarrow> reg_e_state \<Rightarrow> bool option \<Rightarrow> 'w system \<Rightarrow> 'w system \<Rightarrow> bool" where
  "moved_to cid c s moved x y \<longleftrightarrow> sy_saved y = sy_db y \<and> sy_world y = sy_world x \<and>
     (\<exists>row. get_case cid (sy_db y) = Some row \<and> c_status row = state_value s \<and>
        (c_money_moved row \<longleftrightarrow> c_money_moved c \<or> moved = Some True))"

lemma transition_run:
  assumes "get_case cid (sy_db x) = Some c" "c_status c = state_value s" "s \<noteq> m" "can_transition s m"
  shows "\<exists>y. transition wk cid m moved x = (Ret (), y) \<and> moved_to cid c m moved x y"
proof -
  obtain row e where u: "update_case_status (wf_ambient wk) cid (state_value m) moved (sy_db x) = (Ret row, e)"
    "get_case cid e = Some row" "c_status row = state_value m" "c_money_moved row \<longleftrightarrow> c_money_moved c \<or> moved = Some True"
    using update_case_status_run [OF assms(1)] by metis
  then show ?thesis
    using assms
    by (simp add: transition_def bnd_def andthen_def current_state_def unless_raise_def on_db_def on_part_def record_event_run
        commit_def moved_to_def)
qed

text \<open>
  \<open>_ensure_reached\<close> only moves a case forward.  On a case in any state of the state
  machine it always returns, and either the case was at or past the milestone, or parked
  in a state from which it cannot be reached, and nothing has changed; or the state
  machine allows the step and the case is durably at the milestone, with its money flag
  raised if the step says so.
\<close>

theorem ensure_reached_exact:
  assumes "get_case case_id (sy_db x) = Some c" and "c_status c = state_value s" and "m \<in> set happy_path"
  shows "\<exists>y. ensure_reached wk case_id m moved x = (Ret (), y) \<and>
     (if s \<in> set happy_path \<and> milestone_index m \<le> milestone_index s \<or> \<not> can_transition s m then y = x
      else case_step s m \<and> moved_to case_id c m moved x y)"
proof -
  have here: "gets (\<lambda>x. current_state case_id (sy_db x)) x = (Ret (Inr s), x)" using assms by (simp add: current_state_def)
  show ?thesis
  proof (cases "s \<in> set happy_path \<and> milestone_index m \<le> milestone_index s \<or> \<not> can_transition s m")
    case True
    then show ?thesis using here by (auto simp: ensure_reached_def current_state_def assms)
  next
    case False
    then have "s \<noteq> m" using assms(3) by auto
    then show ?thesis
      using False transition_run [OF assms(1,2) \<open>s \<noteq> m\<close>, of wk moved] assms
      by (auto simp: ensure_reached_def current_state_def can_transition_iff)
  qed
qed

section \<open>A well-formed ledger\<close>

text \<open>Every status is one the code knows, and the keys of the tables identify their rows.\<close>

definition desk_rows :: "case_row list \<Rightarrow> deadline_row list \<Rightarrow> obligation_row list \<Rightarrow> bool" where
  "desk_rows cs dl ob \<longleftrightarrow> unique_on c_case_id cs \<and> (\<forall>c \<in> set cs. known_status (c_status c)) \<and>
     (\<forall>r \<in> set dl. dl_status r \<in> {''PENDING'', ''OVERDUE'', ''MET''}) \<and>
     (\<forall>r \<in> set ob. ob_status r \<in> {''PLANNED'', ''ACTIVE'', ''SATISFIED''})"

definition claim_rows :: "claim_row list \<Rightarrow> bool" where
  "claim_rows rows \<longleftrightarrow> (\<forall>r \<in> set rows. cl_status r \<in> range claim_status_value)"

definition known_session :: "string \<Rightarrow> bool" where
  "known_session s \<longleftrightarrow> s \<in> {''ACTIVE'', ''CLOSED''}"

lemma known_sessions [keeps_rules]: "known_session ''ACTIVE''" "known_session ''CLOSED''"
  by (simp_all add: known_session_def)

definition work_rows :: "execution_row list \<Rightarrow> intent_row list \<Rightarrow> session_row list \<Rightarrow> bool" where
  "work_rows ex i se \<longleftrightarrow>
     unique_on ex_id ex \<and> (\<forall>r \<in> set ex. ex_status r = ''RUNNING'' \<or> known_execution (ex_status r)) \<and>
     unique_on in_idempotency_key i \<and> (\<forall>r \<in> set i. in_status r \<in> {''STAGED'', ''COMMITTED''}) \<and>
     unique_on se_session_id se \<and> (\<forall>r \<in> set se. known_session (se_status r))"

definition lease_rows :: "lease_row list \<Rightarrow> bool" where
  "lease_rows ls \<longleftrightarrow> unique_on ls_case_id ls \<and> (\<forall>r \<in> set ls. 0 < ls_fencing_token r)"

definition well_formed :: "db \<Rightarrow> bool" where
  "well_formed d \<longleftrightarrow> desk_rows (t_cases d) (t_deadlines d) (t_obligations d) \<and> agenda_ok d \<and> claim_rows (t_claims d) \<and> claims_ok d \<and>
     work_rows (t_executions d) (t_intents d) (t_sessions d) \<and> lease_rows (t_leases d)"

text \<open>A property of executions, intents, sessions and leases; every operation on other tables keeps it.\<close>

definition control_only ::
  "(execution_row list \<Rightarrow> intent_row list \<Rightarrow> session_row list \<Rightarrow> lease_row list \<Rightarrow> bool) \<Rightarrow> db \<Rightarrow> bool" where
  "control_only Q d \<longleftrightarrow> Q (t_executions d) (t_intents d) (t_sessions d) (t_leases d)"

abbreviation work_ok :: "db \<Rightarrow> bool" where
  "work_ok \<equiv> control_only (\<lambda>ex i se _. work_rows ex i se)"

abbreviation lease_table_ok :: "db \<Rightarrow> bool" where
  "lease_table_ok \<equiv> control_only (\<lambda>_ _ _ ls. lease_rows ls)"

lemma well_formed_parts:
  "well_formed = (\<lambda>d. desk_only desk_rows d \<and> agenda_ok d \<and> claims_only claim_rows d \<and> claims_ok d \<and> work_ok d \<and> lease_table_ok d)"
  by (rule ext) (simp add: well_formed_def desk_only_def claims_only_def control_only_def)

lemma lease_table_ok_iff: "lease_table_ok = leases_ok"
  by (rule ext) (simp add: control_only_def lease_rows_def leases_ok_def leases_unique_def)

lemma control_only_simps [simp]:
  "control_only Q (d\<lparr>t_cases := a\<rparr>) = control_only Q d" "control_only Q (d\<lparr>t_claims := c\<rparr>) = control_only Q d"
  "control_only Q (d\<lparr>t_deadlines := dl\<rparr>) = control_only Q d" "control_only Q (d\<lparr>t_obligations := ob\<rparr>) = control_only Q d"
  "control_only Q (d\<lparr>tick := n\<rparr>) = control_only Q d"
  by (simp_all add: control_only_def)

lemma keeps_control_basic [keeps_rules]:
  "keeps (control_only Q) (record_event a cid ty st ac p)" "keeps (control_only Q) (utc_now a)" "keeps (control_only Q) (new_uuid a)"
  "keeps (control_only Q) (time_or_now a t)" "keeps (control_only Q) (update_claims R g)"
  "keeps (control_only Q) (require_case_row cid)" "keeps (control_only Q) (read_lease cid)"
  by (cases t; auto simp: keeps_def control_only_def record_event_run utc_now_def new_uuid_def time_or_now_def
      update_claims_def require_case_row_def read_lease_def unless_raise_def split: option.splits)+

lemma keeps_control_claims [keeps_rules]:
  "keeps (control_only Q) (claim_effect a i ow now ttl)" "keeps (control_only Q) (transition_effect_claim a key ow tok froms to now)"
proof -
  have "keeps (control_only Q) (\<lambda>d. case insert_claim r d of (b, d') \<Rightarrow> (Ret b, d'))" for r
    by (simp add: keeps_def insert_claim_def)
  then show "keeps (control_only Q) (claim_effect a i ow now ttl)"
    unfolding claim_effect_def reclaim_def Let_def by (intro keeps_rules)
  show "keeps (control_only Q) (transition_effect_claim a key ow tok froms to now)"
    unfolding transition_effect_claim_def by (intro keeps_rules)
qed

lemma keeps_control_cases [keeps_rules]:
  "keeps (control_only Q) (create_or_get_case a cid mid amt cur proc)" "keeps (control_only Q) (update_case_status a cid st mm)"
  unfolding create_or_get_case_def update_case_status_def Let_def set_case_def
  by (intro keeps_rules keeps_change; simp)+

lemma keeps_control_agenda [keeps_rules]:
  "keeps (control_only Q) (create_deadline a c ty due)" "keeps (control_only Q) (resolve_deadline a c ty)"
  "keeps (control_only Q) (mark_overdue_deadlines a c t)" "keeps (control_only Q) (create_obligation a c ty due)"
  "keeps (control_only Q) (activate_obligation a c ty)" "keeps (control_only Q) (satisfy_obligation a c ty)"
  unfolding create_deadline_def resolve_deadline_def mark_overdue_deadlines_def reference_time_def create_obligation_def
    activate_obligation_def satisfy_obligation_def get_obligation_def set_deadline_def set_obligation_def Let_def
  by (intro keeps_rules keeps_change; simp)+

text \<open>The operations on executions and intents do not touch the leases, nor do those on leases the rest.\<close>

lemma keeps_lease_table_work [keeps_rules]:
  "keeps (control_only (\<lambda>_ _ _ ls. Q ls)) (start_execution a c ko v ec key ee ea ac bs)"
  "keeps (control_only (\<lambda>_ _ _ ls. Q ls)) (complete_execution a n s oe oa fc ar mm)"
  "keeps (control_only (\<lambda>_ _ _ ls. Q ls)) (stage_intent a c k2 k)"
  "keeps (control_only (\<lambda>_ _ _ ls. Q ls)) (mark_intent_committed a k2)"
  unfolding start_execution_def complete_execution_def stage_intent_def mark_intent_committed_def Let_def set_execution_def
  by (intro keeps_rules keeps_change; simp add: control_only_def)+

lemma keeps_work_leases [keeps_rules]:
  "keeps (control_only (\<lambda>ex i se _. Q ex i se)) (heartbeat_lease a c ow tok now ttl)"
  "keeps (control_only (\<lambda>ex i se _. Q ex i se)) (acquire_lease a c ow ty now ttl res)"
  "keeps (control_only (\<lambda>ex i se _. Q ex i se)) (release_lease a c owo toko now)"
proof -
  have [keeps_rules]: "keeps (control_only (\<lambda>ex i se _. Q ex i se)) (update_leases P f)" for P f
    by (rule keepsI) (simp add: control_only_def update_leases_def)
  have heartbeat [keeps_rules]: "keeps (control_only (\<lambda>ex i se _. Q ex i se)) (heartbeat_lease a c ow tok t ttl)" for ow tok t
    unfolding heartbeat_lease_def by (intro keeps_rules)
  show "keeps (control_only (\<lambda>ex i se _. Q ex i se)) (heartbeat_lease a c ow tok now ttl)" by (rule heartbeat)
  show "keeps (control_only (\<lambda>ex i se _. Q ex i se)) (acquire_lease a c ow ty now ttl res)"
    "keeps (control_only (\<lambda>ex i se _. Q ex i se)) (release_lease a c owo toko now)"
    unfolding acquire_lease_def release_lease_def take_over_lease_def lease_acquired_event_def Let_def
    by (intro keeps_rules keeps_change; simp add: control_only_def)+
qed

lemma keeps_leases_ok:
  "keeps lease_table_ok (heartbeat_lease a c ow tok now ttl)"
  "keeps lease_table_ok (acquire_lease a c ow ty now ttl res)" "keeps lease_table_ok (release_lease a c owo toko now)"
  unfolding lease_table_ok_iff
  by (rule keepsI; metis lease_step_row lease_step.intros(1,2,3) order_refl prod.collapse)+

lemma keeps_work_executions:
  "keeps work_ok (start_execution a c ko v ec key ee ea ac bs)"
  "known_execution s \<Longrightarrow> keeps work_ok (complete_execution a n s oe oa fc ar mm)"
proof -
  have fresh: "ex_id r \<noteq> next_id (map ex_id rows)" if "r \<in> set rows" for r rows
    using next_id_fresh [of "ex_id r" "map ex_id rows"] that by auto
  show "keeps work_ok (start_execution a c ko v ec key ee ea ac bs)"
    by (intro keepsI)
      (auto simp: start_execution_def bnd_def andthen_def utc_now_def of_res_def require_case_row_def unless_raise_def control_only_def
        work_rows_def record_event_run Let_def intro!: unique_on_snoc dest: fresh split: sum.splits)
  assume s: "known_execution s"
  have set: "work_ok (set_execution n f d)" if "work_ok d" "\<And>r. r \<in> set (t_executions d) \<Longrightarrow> ex_id r = n \<Longrightarrow> ex_id (f r) = n"
    "\<And>r. known_execution (ex_status (f r))" for f d
    using that by (auto simp: control_only_def work_rows_def set_execution_def set_update_where intro!: unique_on_update_where)
  show "keeps work_ok (complete_execution a n s oe oa fc ar mm)"
  proof (rule keepsI)
    fix d assume ok: "work_ok d"
    show "work_ok (snd (complete_execution a n s oe oa fc ar mm d))"
    proof (cases "get_execution n d")
      case (Some r)
      then have "ex_id r = n" by (auto simp: get_execution_def dest: select_first_Some)
      then show ?thesis
        unfolding complete_execution_def Let_def bnd_gets Some option.case
        by (intro keepsD [where I = work_ok, OF _ ok] keeps_rules keeps_change set) (simp_all add: s)
    qed (simp add: complete_execution_def ok)
  qed
qed

lemma keeps_work_intents:
  "keeps work_ok (stage_intent a c key k)" "keeps work_ok (mark_intent_committed a key)"
  by (rule keepsI; auto simp: stage_intent_def mark_intent_committed_def bnd_def andthen_def utc_now_def find_intent_def control_only_def
      work_rows_def record_event_run Let_def set_update_where select_first_None intro!: unique_on_snoc unique_on_update_where
      split: option.splits)+

lemma desk_rows_event [simp]: "desk_only Q (with_event a cid ty st ac p d) = desk_only Q d" "desk_only Q (ensure_head cid d) = desk_only Q d"
  by (simp_all add: desk_only_def)

lemma keeps_desk_rows_case:
  "keeps (desk_only desk_rows) (create_or_get_case a cid mid v cur proc)"
  "known_status st \<Longrightarrow> keeps (desk_only desk_rows) (update_case_status a cid st moved)"
proof -
  have "known_status ''RECEIVED''" using known_statuses(1) [of RECEIVED] by simp
  then show "keeps (desk_only desk_rows) (create_or_get_case a cid mid v cur proc)"
    by (intro keepsI)
      (auto simp: create_or_get_case_def bnd_def andthen_def utc_now_def of_res_def desk_only_def desk_rows_def get_case_def
        select_first_None record_event_run intro!: unique_on_snoc split: option.splits sum.splits)
  assume "known_status st"
  then show "keeps (desk_only desk_rows) (update_case_status a cid st moved)"
    by (intro keepsI)
      (auto simp: update_case_status_def bnd_def andthen_def utc_now_def desk_only_def desk_rows_def set_case_def get_case_def Let_def
        update_where_def record_event_run dest!: select_first_Some intro!: unique_on_update_where [unfolded update_where_def]
        split: option.splits)
qed

lemma keeps_desk_rows_agenda:
  "keeps (desk_only desk_rows) (create_deadline a cid ty due)" "keeps (desk_only desk_rows) (resolve_deadline a cid ty)"
  "keeps (desk_only desk_rows) (mark_overdue_deadlines a cid now)" "keeps (desk_only desk_rows) (create_obligation a cid ty due)"
  "keeps (desk_only desk_rows) (activate_obligation a cid ty)" "keeps (desk_only desk_rows) (satisfy_obligation a cid ty)"
  unfolding create_deadline_def resolve_deadline_def mark_overdue_deadlines_def reference_time_def create_obligation_def
    activate_obligation_def satisfy_obligation_def get_obligation_def set_deadline_def set_obligation_def Let_def
  by (intro keeps_rules keeps_change; auto simp: desk_only_def desk_rows_def update_where_def)+

lemma keeps_claim_rows:
  "keeps (claims_only claim_rows) (claim_effect a i ow now ttl)"
  "keeps (claims_only claim_rows) (transition_effect_claim a key ow tok froms to now)"
proof -
  have insert: "keeps (claims_only claim_rows) (\<lambda>d. case insert_claim (new_claim key i ow t ttl rid) d of (b, d') \<Rightarrow> (Ret b, d'))"
    for key t rid
    using range_eqI [of "''CLAIMED''" claim_status_value CLAIMED]
    by (intro keepsI) (auto simp: insert_claim_def claims_only_def claim_rows_def new_claim_def)
  have update: "keeps (claims_only claim_rows) (update_claims P f)" if "\<And>r. cl_status (f r) \<in> range claim_status_value" for P f
    using that by (intro keepsI) (auto simp: update_claims_def claims_only_def claim_rows_def update_where_def)
  show "keeps (claims_only claim_rows) (claim_effect a i ow now ttl)"
    unfolding claim_effect_def reclaim_def Let_def using range_eqI [of "''CLAIMED''" claim_status_value CLAIMED]
    by (intro keeps_rules insert update) simp_all
  show "keeps (claims_only claim_rows) (transition_effect_claim a key ow tok froms to now)"
    unfolding transition_effect_claim_def by (intro keeps_rules update) simp_all
qed

lemma keeps_claims_agenda [keeps_rules]:
  "keeps (claims_only Q) (create_deadline a c ty due)" "keeps (claims_only Q) (resolve_deadline a c ty)"
  "keeps (claims_only Q) (mark_overdue_deadlines a c t)" "keeps (claims_only Q) (create_obligation a c ty due)"
  "keeps (claims_only Q) (activate_obligation a c ty)" "keeps (claims_only Q) (satisfy_obligation a c ty)"
  unfolding create_deadline_def resolve_deadline_def mark_overdue_deadlines_def reference_time_def create_obligation_def
    activate_obligation_def satisfy_obligation_def get_obligation_def set_deadline_def set_obligation_def Let_def
  by (intro keeps_rules keeps_change; simp add: claims_only_def)+

lemma keeps_claims_uuid [keeps_rules]: "keeps (claims_only Q) (new_uuid a)"
  by (simp add: keeps_def new_uuid_def)

lemma keeps_well_formed:
  "keeps (desk_only desk_rows) p \<Longrightarrow> keeps agenda_ok p \<Longrightarrow> keeps (claims_only claim_rows) p \<Longrightarrow> keeps claims_ok p \<Longrightarrow>
   keeps work_ok p \<Longrightarrow> keeps lease_table_ok p \<Longrightarrow> keeps well_formed p"
  unfolding well_formed_parts by (intro keeps_both)

lemmas claims_frame_agenda = keeps_claims_agenda keeps_claims_uuid

lemmas keeps_claims_ok_agenda [keeps_rules] = claims_frame_agenda
  [where Q = "\<lambda>rows. unique_on cl_idempotency_key rows \<and> (\<forall>r \<in> set rows. 0 < cl_fencing_token r)", folded claims_ok_only]

interpretation ledger_types: workflow_property well_formed a
  by unfold_locales
    (rule keeps_well_formed; (rule agenda.operations agenda.further_operations | assumption
      | intro keeps_rules keeps_desk_rows_case keeps_desk_rows_agenda keeps_claim_rows keeps_work_executions keeps_work_intents
          keeps_leases_ok)+)+

text \<open>
  C10: The ledger stays well formed.  However a run of the workflow ends, in the session and
  in what is durable: every case has a state of the state machine; every claim, deadline,
  obligation, execution, intent and browser session a status of its life cycle (an
  execution runs, or ended with \<open>SUCCESS\<close> or an outcome code); no two cases, leases, claims,
  intents, sessions or executions share their key and no two deadlines or obligations the case
  and the type; and the fencing tokens of all leases and claims are positive.
\<close>

theorem dispute_keeps_well_formed:
  assumes "ledger_inv well_formed x" and "run_case wk case_id member_id amount c4 clock x = (r, y)"
  shows "ledger_inv well_formed y"
  by (rule keepsD_run [OF ledger_types.keeps_run_case [OF refl] assms])

end
