(* ===== verification/DisputeSamples.thy ===== *)
theory DisputeSamples
  imports Disputes EffectSamples
begin

text \<open>
  A concrete dispute at which the theorems of \<open>Disputes\<close> apply: a worker that died after
  the notice was sent, before its projections were settled, resumes the case and closes it.
\<close>

section \<open>A case whose effects are all done\<close>

definition closing_target :: "bool target" where
  "closing_target = \<lparr>http_get = (\<lambda>url w. (Inr \<lparr>status_code = 200, body_json = Inr (VDict [(''account_id'', VStr ''A-1'')])\<rparr>, w)),
     http_post = (\<lambda>url d token w. (Inl (Transport ''closed''), w)), sleep = id\<rparr>"

definition closing_workflow :: "bool workflow" where
  "closing_workflow = \<lparr>wf_env = \<lparr>en_target = closing_target, en_browser = sample_browser [], en_settings = default_settings,
       en_crash = \<lparr>crash_point = None, crash_capability = None\<rparr>, en_overlay = None, en_ui_checks = False\<rparr>,
     wf_ambient = steady_ambient, wf_rules = sample_rules,
     wf_processes = \<lparr>ps_own_pid = 1, ps_windows = False, ps_query = (\<lambda>_. No_Handle), ps_signalled = (\<lambda>_. False)\<rparr>,
     wf_artifacts = \<lparr>af_read = (\<lambda>_. Inr VNone), af_fields = (\<lambda>_. Inl (ValueError ''no artifact''))\<rparr>,
     wf_page = True, wf_kill_after_credit = False, wf_session = None\<rparr>"

definition done_row :: "nat \<Rightarrow> string \<Rightarrow> execution_row" where
  "done_row n c = \<lparr>ex_id = n, ex_case_id = ''C-1'', ex_capability_id = c, ex_capability_version = ''1.0.0'', ex_effect_class = ''COMMIT'',
     ex_idempotency_key = None, ex_status = ''COMPLETED'', ex_expected_entity = None, ex_observed_entity = None,
     ex_expected_amount = None, ex_observed_amount = None, ex_failure_category = None, ex_audit_ref = None, ex_money_moved = False,
     ex_actor = ''AUTOMATION'', ex_browser_session_id = None, ex_started_at = int n, ex_completed_at = None\<rparr>"

definition closing_obligation :: obligation_row where
  "closing_obligation = \<lparr>ob_id = 1, ob_case_id = ''C-1'', ob_obligation_type = ''NOTICE_2_DAY'', ob_due_at = utc 5, ob_status = ''ACTIVE'',
     ob_created_at = 0, ob_activated_at = Some 1, ob_satisfied_at = None\<rparr>"

definition closing_deadline :: "nat \<Rightarrow> string \<Rightarrow> string \<Rightarrow> deadline_row" where
  "closing_deadline n ty st = \<lparr>dl_id = n, dl_case_id = ''C-1'', dl_deadline_type = ty, dl_due_at = utc 5, dl_status = st, dl_resolved_at = None\<rparr>"

definition closing_db :: db where
  "closing_db = empty_db\<lparr>t_cases := [sample_case_row\<lparr>c_status := ''NOTICE_PENDING''\<rparr>],
     t_executions := map (\<lambda>(n, c). done_row n c) (zip [1..<7] [''core.verify_member'', ''core.locate_transaction'',
        ''core.check_duplicate_dispute'', ''processor.file_chargeback'', ''core.post_provisional_credit'', ''docs.send_notice'']),
     t_obligations := [closing_obligation],
     t_deadlines := [closing_deadline 1 ''INVESTIGATION_10_DAY'' ''MET'', closing_deadline 2 ''FINAL_RESOLUTION_45_DAY'' ''MET'',
        closing_deadline 3 ''NOTICE_2_DAY'' ''OVERDUE'']\<rparr>"

definition closing_system :: "bool system" where
  "closing_system = (sample_system False)\<lparr>sy_db := closing_db, sy_saved := closing_db\<rparr>"

lemma closing_well_formed: "well_formed closing_db"
  using known_statuses(1) [of NOTICE_PENDING] known_executions(3)
  by (simp add: well_formed_def work_rows_def lease_rows_def done_row_def upt_rec desk_rows_def agenda_ok_def claim_rows_def claims_ok_def claims_unique_def unique_on_def closing_db_def
      empty_db_def closing_deadline_def closing_obligation_def)

lemma closing_chain: "chain_inv sha closing_db"
  using chain_inv_empty by (simp add: closing_db_def)

lemma closing_statutory: "\<exists>due notice. statutory closing_workflow sample_start = Inr (due, notice)"
proof -
  have add: "\<exists>due. add_business_days sample_rules s n = Inr due" if "localize sample_rules s = Inr sample_local" "n \<in> {2, 10}" for s n
    using business_loop_returns [of 0 n 739974] that by (auto simp: add_business_days_def max_ord_def)
  have "\<exists>t. add_days sample_rules sample_local 45 = Inr t"
    by (simp add: add_days_def max_ord_def)
  then show ?thesis
    using add [OF sample_local_again, of 2] add [OF sample_local_again, of 10] add [OF sample_localized, of 2]
    by (auto simp: statutory_def closing_workflow_def calculate_def)
qed

lemma closing_sel [simp]:
  "wf_ambient closing_workflow = steady_ambient" "en_target (wf_env closing_workflow) = closing_target"
  "en_settings (wf_env closing_workflow) = default_settings" "wf_kill_after_credit closing_workflow = False"
  "sy_db closing_system = closing_db" "sy_saved closing_system = closing_db" "sy_world closing_system = False"
  by (simp_all add: closing_workflow_def closing_system_def sample_system_def)

lemma closing_tables:
  "get_case ''C-1'' closing_db = Some (sample_case_row\<lparr>c_status := ''NOTICE_PENDING''\<rparr>)" "t_leases closing_db = []" "t_claims closing_db = []"
  "t_deadlines closing_db = [closing_deadline 1 ''INVESTIGATION_10_DAY'' ''MET'', closing_deadline 2 ''FINAL_RESOLUTION_45_DAY'' ''MET'',
     closing_deadline 3 ''NOTICE_2_DAY'' ''OVERDUE'']" "t_obligations closing_db = [closing_obligation]"
  by (simp_all add: closing_db_def empty_db_def get_case_def sample_case_row_def)

lemma closing_begin: "begin_case closing_workflow ''C-1'' mid amt sample_start closing_system = (Ret None, closing_system)"
proof -
  obtain due notice where s: "statutory closing_workflow sample_start = Inr (due, notice)" using closing_statutory by blast
  show ?thesis
    by (simp add: begin_case_def resume_case_def recover_dead_effect_claims_def release_dead_lease_def get_lease_def closing_tables
        get_effect_claims_for_case_def bnd_def andthen_def reconcile_applied_effects_def commit_def s create_statutory_deadlines_def
        create_obligation_def create_deadline_def on_db_def on_part_def find_obligation_def find_deadline_def closing_obligation_def
        closing_deadline_def)
qed

lemma closing_overdue:
  "(\<forall>r \<in> set (t_deadlines d). dl_status r \<noteq> ''PENDING'') \<Longrightarrow>
   mark_overdue_deadlines steady_ambient cid None d = (Ret [], d\<lparr>tick := Suc (tick d)\<rparr>)"
  by (auto simp: mark_overdue_deadlines_def reference_time_def utc_now_def bnd_def filter_empty_conv)

lemma closing_reconstruct:
  assumes "get_case ''C-1'' d = Some c" "\<forall>r \<in> set (t_deadlines d). dl_status r \<noteq> ''PENDING''"
  shows "\<exists>s. reconstruct_case_state steady_ambient ''C-1'' d = (Ret s, d\<lparr>tick := Suc (tick d)\<rparr>) \<and>
     completed_capabilities s = completed_capabilities (summarize_executions (c_money_moved c) (get_executions_for_case ''C-1'' d))"
  using assms by (simp add: reconstruct_case_state_def bnd_def closing_overdue Let_def execution_summary.defs)

lemma closing_summary: "set (completed_capabilities (summarize_executions m (get_executions_for_case ''C-1'' closing_db)))
   = {''core.verify_member'', ''core.locate_transaction'', ''core.check_duplicate_dispute'', ''processor.file_chargeback'',
      ''core.post_provisional_credit'', ''docs.send_notice''}"
proof -
  have "set (filter (\<lambda>r. ex_status r \<in> set successful_statuses) (get_executions_for_case ''C-1'' closing_db)) = set (t_executions closing_db)"
    by (auto simp: get_executions_for_case_def closing_db_def done_row_def successful_statuses_def)
  moreover have "ex_capability_id ` set (t_executions closing_db) = {''core.verify_member'', ''core.locate_transaction'',
      ''core.check_duplicate_dispute'', ''processor.file_chargeback'', ''core.post_provisional_credit'', ''docs.send_notice''}"
    by (simp add: closing_db_def done_row_def upt_rec)
  ultimately show ?thesis by (simp only: summary_facts set_map)
qed

definition reopened_system :: "bool system" where
  "reopened_system = closing_system\<lparr>sy_db := closing_db\<lparr>tick := 1\<rparr>\<rparr>"

lemma closing_account: "bind_account closing_workflow ''C-1'' mid x = (Ret (Inr ''A-1''), x)"
  by (simp add: bind_account_def fetch_member_def fetch_def get_url_def bnd_def on_world_def on_part_def closing_target_def account_of_def
      dict_get_def)

text \<open>The notice is settled and the case waits for its resolution.\<close>

definition closed :: "db \<Rightarrow> bool" where
  "closed = desk_only (\<lambda>_ dl ob. \<forall>r \<in> set dl. dl_status r \<noteq> ''PENDING'')"

lemma closed_iff: "closed d \<longleftrightarrow> (\<forall>r \<in> set (t_deadlines d). dl_status r \<noteq> ''PENDING'')"
  by (simp add: closed_def desk_only_def)

lemma closing_resolved: "\<exists>v d. resolve_deadline steady_ambient ''C-1'' ''NOTICE_2_DAY'' (closing_db\<lparr>tick := 1\<rparr>) = (Ret v, d) \<and> closed d \<and>
   get_case ''C-1'' d = get_case ''C-1'' closing_db \<and> t_obligations d = [closing_obligation]"
proof -
  let ?r = "closing_deadline 3 ''NOTICE_2_DAY'' ''OVERDUE''"
  have found: "find_deadline (\<lambda>r. dl_status r \<in> {''PENDING'', ''OVERDUE''}) ''C-1'' ''NOTICE_2_DAY'' (closing_db\<lparr>tick := 1\<rparr>) = Some ?r"
    by (simp add: find_deadline_def closing_tables closing_deadline_def)
  have case_row: "get_case ''C-1'' (closing_db\<lparr>tick := n, t_deadlines := dl\<rparr>) = get_case ''C-1'' closing_db" for n dl
    by (simp add: get_case_def)
  have rows: "\<forall>r \<in> set (update_where (\<lambda>r. dl_id r = dl_id ?r) (\<lambda>_. ?r\<lparr>dl_status := ''MET'', dl_resolved_at := t\<rparr>) (t_deadlines closing_db)).
      dl_status r \<noteq> ''PENDING''" for t
    by (simp add: closing_tables update_where_def closing_deadline_def)
  show ?thesis
    using rows
    by (simp add: resolve_deadline_def found [simplified] bnd_def andthen_def utc_now_def record_event_run Let_def set_deadline_def case_row closing_tables(1)
        closed_iff) (simp add: closing_tables)
qed

lemma closing_satisfied:
  assumes "closed d" "get_case ''C-1'' d = get_case ''C-1'' closing_db" "t_obligations d = [closing_obligation]"
  shows "\<exists>v e. satisfy_obligation steady_ambient ''C-1'' ''NOTICE_2_DAY'' d = (Ret v, e) \<and> closed e \<and>
   get_case ''C-1'' e = get_case ''C-1'' closing_db"
  using assms by (simp add: satisfy_obligation_def get_obligation_def find_obligation_def closing_tables bnd_def andthen_def utc_now_def
      record_event_run Let_def closed_iff set_obligation_def closing_obligation_def)

lemma closing_moved:
  assumes "closed (sy_db x)" "get_case ''C-1'' (sy_db x) = Some c" "c_status c = state_value s" "s \<in> set happy_path"
    "milestone_index s < milestone_index m" "can_transition s m"
  shows "\<exists>y c'. ensure_reached closing_workflow ''C-1'' m None x = (Ret (), y) \<and> closed (sy_db y) \<and>
     get_case ''C-1'' (sy_db y) = Some c' \<and> c_status c' = state_value m"
proof -
  have "s \<noteq> m" using assms(5) by auto
  obtain y where y: "transition closing_workflow ''C-1'' m None x = (Ret (), y)" "moved_to ''C-1'' c m None x y"
    using transition_run [OF assms(2,3) \<open>s \<noteq> m\<close> assms(6)] by blast
  have "in_session closed x" using assms(1) by (simp add: split_inv_def)
  then have "in_session closed y" unfolding closed_def by (rule keepsD_run [OF keeps_session_case(1) _ y(1)])
  then show ?thesis
    using y assms by (auto simp: ensure_reached_def current_state_def split_inv_def moved_to_def bnd_def)
qed
lemma closing_finished: "\<exists>res y. finish_case closing_workflow ''C-1'' (reopened_system\<lparr>sy_saved := sy_db reopened_system\<rparr>) = (Ret res, y) \<and> succeeded res"
proof -
  let ?x = "reopened_system\<lparr>sy_saved := sy_db reopened_system\<rparr>" and ?c = "sample_case_row\<lparr>c_status := ''NOTICE_PENDING''\<rparr>"
  obtain v d where d: "resolve_deadline steady_ambient ''C-1'' ''NOTICE_2_DAY'' (sy_db ?x) = (Ret v, d)" "closed d"
    "get_case ''C-1'' d = get_case ''C-1'' closing_db" "t_obligations d = [closing_obligation]"
    using closing_resolved by (auto simp: reopened_system_def)
  obtain w e where e: "satisfy_obligation steady_ambient ''C-1'' ''NOTICE_2_DAY'' d = (Ret w, e)" "closed e"
    "get_case ''C-1'' e = Some ?c" using closing_satisfied [OF d(2-4)] by (auto simp: closing_tables)
  let ?x2 = "?x\<lparr>sy_db := e\<rparr>"
  obtain x3 c3 where x3: "ensure_reached closing_workflow ''C-1'' NOTICE_SENT None ?x2 = (Ret (), x3)" "closed (sy_db x3)"
    "get_case ''C-1'' (sy_db x3) = Some c3" "c_status c3 = state_value NOTICE_SENT"
    using closing_moved [of ?x2 ?c NOTICE_PENDING NOTICE_SENT] e by (auto simp: happy_path_def milestone_index_def can_transition_def)
  obtain x4 c4 where x4: "ensure_reached closing_workflow ''C-1'' WAITING_RESOLUTION None x3 = (Ret (), x4)" "closed (sy_db x4)"
    "get_case ''C-1'' (sy_db x4) = Some c4"
    using closing_moved [of x3 c3 NOTICE_SENT WAITING_RESOLUTION] x3 by (auto simp: happy_path_def milestone_index_def can_transition_def)
  have settled: "settle_notice closing_workflow ''C-1'' ?x = (Ret (), x4\<lparr>sy_saved := sy_db x4\<rparr>)"
    using d(1) e(1) x3(1) x4(1) by (simp add: settle_notice_def andthen_def bnd_def on_db_def on_part_def commit_def)
  obtain s where "reconstruct_case_state steady_ambient ''C-1'' (sy_db x4) = (Ret s, (sy_db x4)\<lparr>tick := Suc (tick (sy_db x4))\<rparr>)"
    using closing_reconstruct [OF x4(3)] x4(2) by (auto simp: closed_iff)
  then show ?thesis
    using settled by (simp add: finish_case_def andthen_def bnd_def on_db_def on_part_def succeeded_def dict_get_def)
qed

lemma closing_run: "\<exists>res y. run_case closing_workflow ''C-1'' ''M-1'' (money_val (Money False 5000)) ''4112'' (Some sample_start) closing_system = (Ret res, y) \<and> succeeded res"
proof -
  obtain res y where fin: "finish_case closing_workflow ''C-1'' (reopened_system\<lparr>sy_saved := sy_db reopened_system\<rparr>) = (Ret res, y)" "succeeded res"
    using closing_finished by blast
  let ?amt = "Money False 5000"
  have amt: "parse_money (money_val ?amt) = Inr ?amt" by (rule parse_money_val) (simp add: max_money_cents_def)
  obtain s where s: "reconstruct_case_state steady_ambient ''C-1'' closing_db = (Ret s, closing_db\<lparr>tick := 1\<rparr>)"
    "set (completed_capabilities s) = {''core.verify_member'', ''core.locate_transaction'', ''core.check_duplicate_dispute'',
       ''processor.file_chargeback'', ''core.post_provisional_credit'', ''docs.send_notice''}"
  proof -
    have "\<forall>r \<in> set (t_deadlines closing_db). dl_status r \<noteq> ''PENDING''" by (simp add: closing_tables closing_deadline_def)
    moreover have "tick closing_db = 0" by (simp add: closing_db_def empty_db_def)
    ultimately show thesis using closing_reconstruct [OF closing_tables(1)] closing_summary that by fastforce
  qed
  have reached: "ensure_reached closing_workflow ''C-1'' m moved reopened_system = (Ret (), reopened_system)"
    if "m \<in> {CHARGEBACK_FILED, PROVISIONAL_CREDIT_POSTED}" for m moved
  proof -
    have "get_case ''C-1'' (sy_db reopened_system) = get_case ''C-1'' closing_db" by (simp add: reopened_system_def get_case_def)
    then have "current_state ''C-1'' (sy_db reopened_system) = Inr NOTICE_PENDING"
      using state_of_value_value [of NOTICE_PENDING] by (simp add: current_state_def closing_tables)
    then show ?thesis using that by (auto simp: ensure_reached_def happy_path_def milestone_index_def)
  qed
  have credit: "settle_credit closing_workflow ''C-1'' reopened_system = (Ret (), reopened_system\<lparr>sy_saved := sy_db reopened_system\<rparr>)"
    using reached [of PROVISIONAL_CREDIT_POSTED "Some True"]
    by (simp add: settle_credit_def activate_obligation_def get_obligation_def find_obligation_def create_deadline_def find_deadline_def
        bnd_def andthen_def on_db_def on_part_def commit_def reopened_system_def closing_tables closing_obligation_def closing_deadline_def)
  have "run_commits closing_workflow ''C-1'' inputs ''4112'' t (completed_capabilities s) reopened_system = (Ret res, y)" for inputs t
    by (simp add: run_commits_def step_unless_def s andthen_def bnd_def reached credit fin)
  then have "run_steps closing_workflow ''C-1'' ''M-1'' ?amt ''4112'' t (completed_capabilities s) reopened_system = (Ret res, y)" for t
    by (simp add: run_steps_def step_unless_def s andthen_def bnd_def closing_account)
  then show ?thesis
    using fin(2)
    by (simp add: run_case_def reference_time_def on_db_def on_part_def bnd_def amt step_unless_def closing_begin s reopened_system_def)
qed

section \<open>Instances of the theorems\<close>

lemma closing_invariants: "ledger_inv well_formed closing_system" "ledger_inv agenda_ok closing_system"
  "ledger_inv (chain_inv sha) closing_system"
  using closing_well_formed closing_chain by (simp_all add: ledger_inv_def well_formed_def)

theorem dispute_honours_commitments_witness:
  "\<exists>ob \<in> set (t_obligations (sy_saved (snd (run_case closing_workflow ''C-1'' ''M-1'' (money_val (Money False 5000)) ''4112''
     (Some sample_start) closing_system)))). obligation_evolves closing_obligation ob"
proof -
  obtain r y where run: "run_case closing_workflow ''C-1'' ''M-1'' (money_val (Money False 5000)) ''4112'' (Some sample_start) closing_system = (r, y)"
    by force
  have "agenda_ok (sy_saved closing_system)" using closing_well_formed by (simp add: well_formed_def)
  from dispute_honours_commitments [OF this _ run] run show ?thesis by (auto simp: closing_tables)
qed

theorem dispute_keeps_chain_witness:
  "cv_valid (verify_event_chain (amb_sha steady_ambient) ''C-1'' (sy_saved (snd (run_case closing_workflow ''C-1'' ''M-1''
     (money_val (Money False 5000)) ''4112'' (Some sample_start) closing_system))))"
  using dispute_keeps_chain [where wk = closing_workflow and any_case = "''C-1''", OF closing_invariants(3) prod.collapse [symmetric]] by simp

theorem dispute_keeps_well_formed_witness:
  "ledger_inv well_formed (snd (run_case closing_workflow ''C-1'' ''M-1'' (money_val (Money False 5000)) ''4112'' (Some sample_start) closing_system))"
  by (rule dispute_keeps_well_formed [OF closing_invariants(1) prod.collapse [symmetric]])

theorem success_means_settled_witness:
  "\<exists>res y. run_case closing_workflow ''C-1'' ''M-1'' (money_val (Money False 5000)) ''4112'' (Some sample_start) closing_system = (Ret res, y) \<and>
     notice_settled ''C-1'' (sy_saved y)"
proof -
  obtain res y where run: "run_case closing_workflow ''C-1'' ''M-1'' (money_val (Money False 5000)) ''4112'' (Some sample_start) closing_system
      = (Ret res, y)" and "succeeded res" using closing_run by blast
  then show ?thesis using success_means_settled [OF closing_invariants(2) run] by (auto simp: succeeded_def)
qed

theorem ensure_reached_exact_witness:
  "\<exists>y. ensure_reached closing_workflow ''C-1'' NOTICE_SENT None closing_system = (Ret (), y) \<and>
     moved_to ''C-1'' (sample_case_row\<lparr>c_status := ''NOTICE_PENDING''\<rparr>) NOTICE_SENT None closing_system y"
  using ensure_reached_exact [of "''C-1''" closing_system "sample_case_row\<lparr>c_status := ''NOTICE_PENDING''\<rparr>" NOTICE_PENDING NOTICE_SENT
      closing_workflow None]
  by (auto simp: closing_tables happy_path_def milestone_index_def can_transition_def)

text \<open>A new case on which nothing can be filed: the target refuses, and the obligation is durable.\<close>

theorem obligation_before_action_witness:
  "\<exists>r y. run_case (watched_workflow closing_workflow) ''C-1'' ''M-1'' (money_val (Money False 5000)) ''4112'' (Some sample_start)
       (sample_system (False, 0)) = (r, y) \<and>
     (acts y = 0 \<or> (\<exists>ob. find_obligation ''C-1'' ''NOTICE_2_DAY'' (sy_saved y) = Some ob))"
proof -
  obtain r y where run: "run_case (watched_workflow closing_workflow) ''C-1'' ''M-1'' (money_val (Money False 5000)) ''4112'' (Some sample_start)
       (sample_system (False, 0)) = (r, y)" by force
  have "ledger_inv agenda_ok (sample_system (False, 0) :: (bool \<times> nat) system)"
    by (simp add: ledger_inv_def sample_system_def sample_db_def agenda_ok_def unique_on_def empty_db_def)
  from obligation_before_action [OF this run] run show ?thesis by (simp add: sample_system_def)
qed

end
