(* ===== verification/Web.thy ===== *)
theory Web
  imports Inquiry
begin

text \<open>
  What the simulated targets share: the authentication of a mutation route
  (\<open>tandem/security/auth.py\<close>), the random numbers and times they put in their records,
  and their connection to SQLite, which takes a failed transaction back.  The web
  framework, FastAPI, is a parameter \<open>web\<close>: how it writes a value as JSON and its client
  reads it back, how it reads a \<open>Decimal\<close> form field and a path segment, and what it
  answers to an exception that no handler caught.
\<close>

section \<open>Requests\<close>

record form_request =
  rq_headers :: "(string \<times> string) list"
  rq_form :: "(string \<times> string) list"

record web =
  wb_json :: "val \<Rightarrow> val"
  wb_decimal :: "string \<Rightarrow> decimal option"
  wb_segment :: "string \<Rightarrow> string option"
  wb_unhandled :: "exn \<Rightarrow> response"

definition header :: "form_request \<Rightarrow> string \<Rightarrow> string" where
  "header rq name = (case map_of (rq_headers rq) name of None \<Rightarrow> [] | Some v \<Rightarrow> v)"

section \<open>The admin token\<close>

definition token_from_header :: "form_request \<Rightarrow> string option" where
  "token_from_header rq = (let h = header rq ''authorization'' in if take 7 h = ''Bearer '' then Some (drop 7 h) else None)"

definition token_from_form :: "form_request \<Rightarrow> string option" where
  "token_from_form rq =
     (let content_type = header rq ''content-type'' in
      if take 33 content_type = ''application/x-www-form-urlencoded'' \<or> take 19 content_type = ''multipart/form-data''
      then map_of (rq_form rq) ''admin_token'' else None)"

text \<open>\<open>hmac.compare_digest\<close> takes text only if it is ASCII.\<close>

definition compare_digest :: "string \<Rightarrow> string \<Rightarrow> bool res" where
  "compare_digest a b =
     (if list_all (\<lambda>c. of_char c < (128 :: nat)) (a @ b) then Inr (a = b)
      else Inl (TypeError ''comparing strings with non-ASCII characters is not supported''))"

text \<open>A refusal of the framework's \<open>HTTPException\<close>, or another exception.\<close>

datatype refusal = HTTP_Exception nat string | Unhandled exn

definition require_admin_token :: "settings \<Rightarrow> form_request \<Rightarrow> refusal + unit" where
  "require_admin_token cfg rq =
     (let provided = (case token_from_header rq of None \<Rightarrow> token_from_form rq | Some t \<Rightarrow> Some t);
          denied = Inl (HTTP_Exception 401 ''Missing or invalid admin token'') in
      case provided of None \<Rightarrow> denied
      | Some t \<Rightarrow> (case compare_digest t (tandem_admin_token cfg) of
            Inl e \<Rightarrow> Inl (Unhandled e) | Inr same \<Rightarrow> if same then Inr () else denied))"

section \<open>Answers\<close>

text \<open>A page is not JSON; an \<open>HTTPException\<close> is answered with its status and a JSON detail.\<close>

definition html_page :: "nat \<Rightarrow> response" where
  "html_page status = \<lparr>status_code = status, body_json = Inl ''the page is not JSON''\<rparr>"

definition json_answer :: "web \<Rightarrow> nat \<Rightarrow> dict \<Rightarrow> response" where
  "json_answer wb status d = \<lparr>status_code = status, body_json = Inr (VDict (map (\<lambda>(k, v). (k, wb_json wb v)) d))\<rparr>"

definition refused :: "web \<Rightarrow> refusal \<Rightarrow> response" where
  "refused wb r = (case r of
      HTTP_Exception status detail \<Rightarrow> json_answer wb status [(''detail'', VStr detail)]
    | Unhandled e \<Rightarrow> wb_unhandled wb e)"

text \<open>Run a handler as the server does; nothing in it ends the process.\<close>

definition serve :: "web \<Rightarrow> ('s, response) prog \<Rightarrow> 's \<Rightarrow> (http_error + response) \<times> 's" where
  "serve wb p s = (case p s of
      (Ret r, t) \<Rightarrow> (Inr r, t) | (Raise e, t) \<Rightarrow> (Inr (wb_unhandled wb e), t) | (Died, t) \<Rightarrow> (Inl (Transport ''server disconnected''), t))"

definition guarded_route :: "settings \<Rightarrow> web \<Rightarrow> form_request \<Rightarrow> ('s, response) prog \<Rightarrow> ('s, response) prog" where
  "guarded_route cfg wb rq p = (case require_admin_token cfg rq of Inl r \<Rightarrow> ret (refused wb r) | Inr _ \<Rightarrow> p)"

text \<open>The framework takes an empty form field for an absent one.  A field has a default or
  must be there.\<close>

definition form_value :: "form_request \<Rightarrow> string \<Rightarrow> string option" where
  "form_value rq name = (case map_of (rq_form rq) name of None \<Rightarrow> None | Some t \<Rightarrow> if t = [] then None else Some t)"

definition form_default :: "form_request \<Rightarrow> string \<Rightarrow> string \<Rightarrow> string" where
  "form_default rq name v = (case form_value rq name of None \<Rightarrow> v | Some t \<Rightarrow> t)"

definition unprocessable :: "web \<Rightarrow> response" where
  "unprocessable wb = json_answer wb 422 [(''detail'', VStr ''request validation failed'')]"

definition with_field :: "web \<Rightarrow> form_request \<Rightarrow> string \<Rightarrow> (string \<Rightarrow> ('s, response) prog) \<Rightarrow> ('s, response) prog" where
  "with_field wb rq name f = (case form_value rq name of None \<Rightarrow> ret (unprocessable wb) | Some t \<Rightarrow> f t)"

definition with_decimal :: "web \<Rightarrow> form_request \<Rightarrow> string \<Rightarrow> (val \<Rightarrow> ('s, response) prog) \<Rightarrow> ('s, response) prog" where
  "with_decimal wb rq name f = with_field wb rq name (\<lambda>t. case wb_decimal wb t of
      None \<Rightarrow> ret (unprocessable wb) | Some d \<Rightarrow> f (VDec d))"

text \<open>The segment of the path after a prefix.\<close>

definition path_segment :: "web \<Rightarrow> string \<Rightarrow> string \<Rightarrow> string option" where
  "path_segment wb route url = (if take (length route) url = route then wb_segment wb (drop (length route) url) else None)"

text \<open>The request the HTTP client sends for a post.\<close>

definition posted_request :: "(string \<times> string) list \<Rightarrow> string \<Rightarrow> form_request" where
  "posted_request payload token = \<lparr>rq_headers = [(''content-type'', ''application/x-www-form-urlencoded''),
     (''authorization'', ''Bearer '' @ token)], rq_form = payload\<rparr>"

definition no_route :: "web \<Rightarrow> response" where
  "no_route wb = json_answer wb 404 [(''detail'', VStr ''Not Found'')]"

section \<open>The state of a simulator\<close>

text \<open>Random integers, permutations and times, in the order they are drawn.\<close>

record chance =
  ch_int :: "nat \<Rightarrow> nat \<Rightarrow> nat \<Rightarrow> nat"
  ch_order :: "nat \<Rightarrow> nat \<Rightarrow> nat list"
  ch_now :: "nat \<Rightarrow> int"

record simulator = sim_draws :: nat

definition draw :: "(nat \<Rightarrow> 'a) \<Rightarrow> ('z simulator_scheme, 'a) prog" where
  "draw f = (\<lambda>s. (Ret (f (sim_draws s)), s\<lparr>sim_draws := Suc (sim_draws s)\<rparr>))"

definition randint :: "chance \<Rightarrow> nat \<Rightarrow> nat \<Rightarrow> ('z simulator_scheme, nat) prog" where
  "randint ch low high = draw (\<lambda>n. ch_int ch n low high)"

definition stamp :: "chance \<Rightarrow> ('z simulator_scheme, string) prog" where
  "stamp ch = draw (\<lambda>n. utc_label (utc (ch_now ch n)))"

text \<open>\<open>with connection\<close>: an exception takes back what the transaction wrote.\<close>

definition transaction :: "('z simulator_scheme, 'a) prog \<Rightarrow> ('z simulator_scheme, 'a) prog" where
  "transaction p = (\<lambda>s. case p s of (Raise e, t) \<Rightarrow> (Raise e, s\<lparr>sim_draws := sim_draws t\<rparr>) | result \<Rightarrow> result)"

text \<open>\<open>business_reference or case_id\<close>.\<close>

definition or_case :: "string option \<Rightarrow> string \<Rightarrow> string" where
  "or_case reference cid = (case reference of None \<Rightarrow> cid | Some r \<Rightarrow> if r = [] then cid else r)"

lemma or_case_empty: "or_case r c = [] \<Longrightarrow> c = []"
  by (auto simp: or_case_def split: option.splits if_splits)

text \<open>A comprehension whose elements may raise.\<close>

fun those_res :: "'a res list \<Rightarrow> 'a list res" where
  "those_res [] = Inr []"
| "those_res (r # rs) = rbind r (\<lambda>x. rbind (those_res rs) (\<lambda>xs. Inr (x # xs)))"

lemma draw_run [simp]: "draw f s = (Ret (f (sim_draws s)), s\<lparr>sim_draws := Suc (sim_draws s)\<rparr>)"
  by (simp add: draw_def)

lemma keeps_web [keeps_rules]:
  "keeps I p \<Longrightarrow> keeps I (guarded_route cfg wb rq p)"
  "(\<And>t. keeps I (f t)) \<Longrightarrow> keeps I (with_field wb rq name f)"
  "(\<And>v. keeps I (g v)) \<Longrightarrow> keeps I (with_decimal wb rq name g)"
  by (auto simp: guarded_route_def with_field_def with_decimal_def keeps_def split: sum.splits option.splits)

lemma sent_token [simp]: "token_from_header (posted_request payload token) = Some token"
  by (simp add: token_from_header_def header_def posted_request_def)

lemma sent_form [simp]: "rq_form (posted_request payload token) = payload"
  by (simp add: posted_request_def)

section \<open>Whoever is admitted presented the token\<close>

definition presented :: "settings \<Rightarrow> form_request \<Rightarrow> bool" where
  "presented cfg rq \<longleftrightarrow> token_from_header rq = Some (tandem_admin_token cfg) \<or>
     (token_from_header rq = None \<and> token_from_form rq = Some (tandem_admin_token cfg))"

lemma admitted_presented: "require_admin_token cfg rq = Inr u \<Longrightarrow> presented cfg rq"
  by (auto simp: require_admin_token_def compare_digest_def presented_def Let_def split: option.splits sum.splits if_splits)

lemma guarded_unpresented: "\<not> presented cfg rq \<Longrightarrow> snd (guarded_route cfg wb rq p s) = s"
  using admitted_presented [of cfg rq] by (auto simp: guarded_route_def split: sum.splits)

end
