(* ===== verification/EffectStore.thy ===== *)
theory EffectStore
  imports Web
begin

text \<open>
  The contract of the three simulated targets, as a locale.  Each keeps the effects of an
  operation in a table and a history beside it, and its operation promises one thing: an
  effect is recorded once under its key, a repetition with the same content is answered
  from the record, and anything else changes nothing.  The counts that Tandem's
  postchecks read, and the refinement of a write-once map, follow from that promise.
\<close>

section \<open>The specification: a map that is written once\<close>

text \<open>
  What may become of the map when an operation for key \<open>k\<close> gives an answer or none: an
  answer has the content that was asked for and either enters the map at a key that was
  free or is what the map already held; without an answer the map stays, and what it holds
  under the key has another content.
\<close>

definition write_once :: "('v \<Rightarrow> bool) \<Rightarrow> 'k \<Rightarrow> 'v option \<Rightarrow> ('k \<rightharpoonup> 'v) \<Rightarrow> ('k \<rightharpoonup> 'v) \<Rightarrow> bool" where
  "write_once fits k answer m m' = (case answer of
      Some v \<Rightarrow> fits v \<and> (m k = None \<and> m' = m(k \<mapsto> v) \<or> m k = Some v \<and> m' = m)
    | None \<Rightarrow> m' = m \<and> (case m k of None \<Rightarrow> True | Some v \<Rightarrow> \<not> fits v))"

definition answer_of :: "'v run \<Rightarrow> 'v option" where
  "answer_of r = (case r of Ret v \<Rightarrow> Some v | _ \<Rightarrow> None)"

lemma answer_of_simps [simp]: "answer_of (Ret v) = Some v" "answer_of (Raise e) = None" "answer_of Died = None"
  by (simp_all add: answer_of_def)

text \<open>No step of such a map changes or removes what it holds.\<close>

lemma write_once_keeps: "write_once fits k answer m m' \<Longrightarrow> m l = Some v \<Longrightarrow> m' l = Some v"
  by (auto simp: write_once_def split: option.splits)

section \<open>The contract\<close>

locale effect_store =
  fixes rows :: "'s \<Rightarrow> 'r list" and history :: "'s \<Rightarrow> 'h list"
    and row_key :: "'r \<Rightarrow> 'k" and event_key :: "'h \<Rightarrow> 'k"
    and view :: "'r \<Rightarrow> 'v res" and key :: "'q \<Rightarrow> 'k" and same :: "'q \<Rightarrow> 'v \<Rightarrow> bool"
    and act :: "'q \<Rightarrow> ('s, 'v) prog"
  assumes act_known: "select_first (\<lambda>r. row_key r = key q) (rows s) = Some r \<Longrightarrow> act q s = (x, t) \<Longrightarrow>
      rows t = rows s \<and> history t = history s \<and> (\<forall>v. x = Ret v \<longrightarrow> view r = Inr v \<and> same q v)"
    and act_repeats: "select_first (\<lambda>r. row_key r = key q) (rows s) = Some r \<Longrightarrow> view r = Inr v \<Longrightarrow> same q v \<Longrightarrow>
      \<exists>t. act q s = (Ret v, t)"
    and act_new: "select_first (\<lambda>r. row_key r = key q) (rows s) = None \<Longrightarrow> act q s = (x, t) \<Longrightarrow>
      (\<exists>r e v. x = Ret v \<and> rows t = rows s @ [r] \<and> history t = history s @ [e] \<and> row_key r = key q \<and>
        event_key e = key q \<and> view r = Inr v \<and> same q v) \<or>
      (rows t = rows s \<and> history t = history s \<and> (\<forall>v. x \<noteq> Ret v))"
begin

definition recorded :: "'s \<Rightarrow> 'k \<Rightarrow> 'r option" where
  "recorded s k = select_first (\<lambda>r. row_key r = k) (rows s)"

definition count :: "'s \<Rightarrow> 'k \<Rightarrow> nat" where
  "count s k = length (filter (\<lambda>e. event_key e = k) (history s))"

text \<open>One row and one entry of the history for each effect.\<close>

definition store_ok :: "'s \<Rightarrow> bool" where
  "store_ok s \<longleftrightarrow> unique_on row_key (rows s) \<and> (\<forall>k. count s k = (if recorded s k = None then 0 else 1))"

definition seen :: "'s \<Rightarrow> 'k \<rightharpoonup> 'v" where
  "seen s k = (case recorded s k of None \<Rightarrow> None | Some r \<Rightarrow> (case view r of Inl e \<Rightarrow> None | Inr v \<Rightarrow> Some v))"

lemma recorded_append:
  assumes "recorded s (row_key r) = None" and "rows t = rows s @ [r]"
  shows "recorded t = (recorded s)(row_key r \<mapsto> r)"
  using assms by (auto simp: recorded_def select_first_append fun_eq_iff split: option.splits)

lemma recorded_same: "rows t = rows s \<Longrightarrow> recorded t = recorded s"
  by (simp add: recorded_def fun_eq_iff)

lemma recorded_None: "recorded s k = None \<longleftrightarrow> k \<notin> row_key ` set (rows s)"
  by (auto simp: recorded_def select_first_None)

lemma act_cases:
  assumes run: "act q s = (x, t)"
  obtains (known) r where "recorded s (key q) = Some r" "rows t = rows s" "history t = history s" "recorded t = recorded s"
      "\<And>v. x = Ret v \<Longrightarrow> view r = Inr v \<and> same q v"
    | (fresh) r e v where "recorded s (key q) = None" "x = Ret v" "rows t = rows s @ [r]" "history t = history s @ [e]"
      "recorded t = (recorded s)(key q \<mapsto> r)" "row_key r = key q" "event_key e = key q" "view r = Inr v" "same q v"
    | (refused) "recorded s (key q) = None" "rows t = rows s" "history t = history s" "recorded t = recorded s" "\<And>v. x \<noteq> Ret v"
proof (cases "recorded s (key q)")
  case None
  from act_new [OF None [unfolded recorded_def] run] show thesis
  proof (elim disjE exE conjE)
    fix r e v
    assume new: "x = Ret v" "rows t = rows s @ [r]" "history t = history s @ [e]" "row_key r = key q" "event_key e = key q"
      "view r = Inr v" "same q v"
    show thesis using None new recorded_append [of s r t] that(2) by simp
  next
    assume "rows t = rows s" "history t = history s" "\<forall>v. x \<noteq> Ret v"
    then show thesis using None recorded_same that(3) by blast
  qed
next
  case (Some r)
  show thesis using act_known [OF Some [unfolded recorded_def] run] Some recorded_same that(1) by blast
qed

lemma store_ok_act:
  assumes ok: "store_ok s" and run: "act q s = (x, t)"
  shows "store_ok t"
  using run
proof (cases rule: act_cases)
  case (fresh r e v)
  have "unique_on row_key (rows t)"
    unfolding fresh(3)
    by (rule unique_on_snoc) (use ok fresh(1,6) in \<open>auto simp: store_ok_def recorded_def select_first_None\<close>)
  moreover have "count t k = (if recorded t k = None then 0 else 1)" for k
    using ok fresh(1,4,5,7) by (simp add: store_ok_def count_def)
  ultimately show ?thesis by (simp add: store_ok_def)
qed (use ok in \<open>simp_all add: store_ok_def count_def\<close>)

lemma keeps_store_ok: "keeps store_ok (act q)"
  by (rule keepsI) (rule store_ok_act, assumption, rule prod.collapse [symmetric])

lemma count_le_1: "store_ok s \<Longrightarrow> count s k \<le> 1"
  by (simp add: store_ok_def)

lemma count_recorded: "store_ok s \<Longrightarrow> count s k = (if recorded s k = None then 0 else 1)"
  by (simp add: store_ok_def)

lemma act_keeps_record: "recorded s k = Some r \<Longrightarrow> act q s = (x, t) \<Longrightarrow> recorded t k = Some r"
  by (erule act_cases) auto

lemma act_other: "act q s = (x, t) \<Longrightarrow> k \<noteq> key q \<Longrightarrow> recorded t k = recorded s k"
  by (erule act_cases) simp_all

lemma act_answers:
  assumes "act q s = (Ret v, t)"
  shows "\<exists>r. recorded t (key q) = Some r \<and> view r = Inr v \<and> same q v"
  using assms by (cases rule: act_cases) auto

lemma act_unanswered:
  assumes "act q s = (x, t)" and "\<And>v. x \<noteq> Ret v" shows "rows t = rows s \<and> history t = history s"
  using assms(1) by (cases rule: act_cases) (use assms(2) in auto)

text \<open>A repetition is answered alike and changes nothing.\<close>

lemma act_again:
  assumes "act q s = (Ret v, t)" and "recorded u (key q) = recorded t (key q)"
  shows "\<exists>w. act q u = (Ret v, w) \<and> rows w = rows u \<and> history w = history u"
proof -
  obtain r where r: "recorded u (key q) = Some r" "view r = Inr v" "same q v" using act_answers [OF assms(1)] assms(2) by auto
  obtain w where w: "act q u = (Ret v, w)" using act_repeats [OF r(1) [unfolded recorded_def] r(2,3)] by blast
  then show ?thesis using act_known [OF r(1) [unfolded recorded_def] w] by blast
qed

text \<open>The table refines the map that is written once.\<close>

lemma act_refines:
  assumes run: "act q s = (x, t)"
  shows "write_once (same q) (key q) (answer_of x) (seen s) (seen t)"
  using run
proof (cases rule: act_cases)
  case (known r)
  have same: "seen t = seen s" by (simp add: seen_def known(4) fun_eq_iff)
  have "\<exists>v. x = Ret v" if v: "view r = Inr v" "same q v" for v
  proof -
    obtain u where "act q s = (Ret v, u)" using act_repeats [OF known(1) [unfolded recorded_def] v] by blast
    then show ?thesis using run by simp
  qed
  then show ?thesis using known(1,5) same by (cases x) (auto simp: write_once_def seen_def split: sum.splits)
next
  case (fresh r e v)
  then have "seen s (key q) = None" "seen t = (seen s)(key q \<mapsto> v)" by (simp_all add: seen_def fun_eq_iff)
  then show ?thesis using fresh(2,9) by (simp add: write_once_def)
next
  case refused
  have "seen t = seen s" "seen s (key q) = None" by (simp_all add: seen_def refused(1,4) fun_eq_iff)
  then show ?thesis using refused(5) by (cases x) (auto simp: write_once_def)
qed

end

end
