(* ===== verification/Processor.thy ===== *)
theory Processor
  imports EffectStore HttpCommit
begin

text \<open>
  The card processor, \<open>simulators/processor/\<close>: its two tables, the filing of a chargeback,
  the inquiry and the switches of \<open>state.py\<close>, the mutation and inquiry routes of \<open>app.py\<close>,
  and the two routes that Tandem calls as a target of the HTTP client.  The pages are
  kept as their status only; the sequence numbers of the history, which nothing reads,
  are the positions in it.
\<close>

section \<open>Tables and records\<close>

record chargeback_row =
  pr_case_id :: string
  pr_chargeback_id :: string
  pr_card_last4 :: string
  pr_amount :: string
  pr_dispute_reason :: string
  pr_network_ref :: string
  pr_created_at :: string
  pr_status :: string
  pr_institution_id :: string
  pr_procedure_id :: string
  pr_capability_id :: string
  pr_member_id :: string
  pr_account_id :: string
  pr_currency :: string
  pr_business_reference :: string

record filing_event =
  fe_case_id :: string
  fe_effect_type :: string
  fe_processor_reference :: string
  fe_recorded_at :: string

record chargeback =
  cb_chargeback_id :: string
  cb_case_id :: string
  cb_card_last4 :: string
  cb_amount :: money
  cb_dispute_reason :: string
  cb_network_ref :: string
  cb_created_at :: string
  cb_status :: string
  cb_institution_id :: string
  cb_procedure_id :: string
  cb_capability_id :: string
  cb_member_id :: string
  cb_account_id :: string
  cb_currency :: string
  cb_business_reference :: string

record processor = simulator +
  ps_session_expired :: bool
  ps_timeout_after_submit :: bool
  ps_system_failure :: bool
  ps_fail_lookup_when_present :: bool
  ps_chargebacks :: "chargeback_row list"
  ps_history :: "filing_event list"

text \<open>The arguments of \<open>file_chargeback\<close>.\<close>

record filing =
  fl_case_id :: string
  fl_card_last4 :: string
  fl_amount :: val
  fl_dispute_reason :: string
  fl_institution_id :: string
  fl_procedure_id :: string
  fl_capability_id :: string
  fl_member_id :: string
  fl_account_id :: string
  fl_currency :: string
  fl_business_reference :: "string option"

section \<open>Operations\<close>

definition chargeback_from_row :: "chargeback_row \<Rightarrow> chargeback res" where
  "chargeback_from_row r = rbind (parse_money (VStr (pr_amount r))) (\<lambda>amount. Inr
     \<lparr>cb_chargeback_id = pr_chargeback_id r, cb_case_id = pr_case_id r, cb_card_last4 = pr_card_last4 r, cb_amount = amount,
      cb_dispute_reason = pr_dispute_reason r, cb_network_ref = pr_network_ref r, cb_created_at = pr_created_at r,
      cb_status = pr_status r, cb_institution_id = pr_institution_id r, cb_procedure_id = pr_procedure_id r,
      cb_capability_id = pr_capability_id r, cb_member_id = pr_member_id r, cb_account_id = pr_account_id r,
      cb_currency = pr_currency r,
      cb_business_reference = (if pr_business_reference r = [] then pr_case_id r else pr_business_reference r)\<rparr>)"

definition row_of_chargeback :: "chargeback \<Rightarrow> chargeback_row" where
  "row_of_chargeback cb =
     \<lparr>pr_case_id = cb_case_id cb, pr_chargeback_id = cb_chargeback_id cb, pr_card_last4 = cb_card_last4 cb,
      pr_amount = py_str (money_val (cb_amount cb)), pr_dispute_reason = cb_dispute_reason cb, pr_network_ref = cb_network_ref cb,
      pr_created_at = cb_created_at cb, pr_status = cb_status cb, pr_institution_id = cb_institution_id cb,
      pr_procedure_id = cb_procedure_id cb, pr_capability_id = cb_capability_id cb, pr_member_id = cb_member_id cb,
      pr_account_id = cb_account_id cb, pr_currency = cb_currency cb, pr_business_reference = cb_business_reference cb\<rparr>"

definition same_chargeback :: "filing \<Rightarrow> money \<Rightarrow> chargeback \<Rightarrow> bool" where
  "same_chargeback q amount cb \<longleftrightarrow>
     cb_card_last4 cb = fl_card_last4 q \<and> money_eq (cb_amount cb) amount \<and> cb_dispute_reason cb = fl_dispute_reason q \<and>
     cb_institution_id cb = fl_institution_id q \<and> cb_member_id cb = fl_member_id q \<and> cb_account_id cb = fl_account_id q \<and>
     cb_currency cb = fl_currency q \<and> cb_business_reference cb = or_case (fl_business_reference q) (fl_case_id q)"

definition insert_chargeback :: "chance \<Rightarrow> filing \<Rightarrow> money \<Rightarrow> (processor, chargeback) prog" where
  "insert_chargeback ch q amount =
     bnd (randint ch 50000 59999) (\<lambda>number.
     bnd (randint ch 10000 99999) (\<lambda>network.
     bnd (stamp ch) (\<lambda>now.
       let cb = \<lparr>cb_chargeback_id = ''CB-'' @ str_nat number, cb_case_id = fl_case_id q, cb_card_last4 = fl_card_last4 q,
            cb_amount = amount, cb_dispute_reason = fl_dispute_reason q, cb_network_ref = ''VISA-DISP-'' @ str_nat network,
            cb_created_at = now, cb_status = ''FILED'', cb_institution_id = fl_institution_id q,
            cb_procedure_id = fl_procedure_id q, cb_capability_id = fl_capability_id q, cb_member_id = fl_member_id q,
            cb_account_id = fl_account_id q, cb_currency = fl_currency q,
            cb_business_reference = or_case (fl_business_reference q) (fl_case_id q)\<rparr>
       in andthen (change (\<lambda>s. s\<lparr>ps_chargebacks := ps_chargebacks s @ [row_of_chargeback cb]\<rparr>)) (
          andthen (change (\<lambda>s. s\<lparr>ps_history := ps_history s @ [\<lparr>fe_case_id = fl_case_id q,
            fe_effect_type = ''CHARGEBACK_FILED'', fe_processor_reference = cb_network_ref cb, fe_recorded_at = cb_created_at cb\<rparr>]\<rparr>))
            (ret cb)))))"

definition file_chargeback :: "chance \<Rightarrow> filing \<Rightarrow> (processor, chargeback) prog" where
  "file_chargeback ch q =
     bnd (of_res (parse_money (fl_amount q))) (\<lambda>amount.
     transaction (
       bnd (gets (\<lambda>s. select_first (\<lambda>r. pr_case_id r = fl_case_id q) (ps_chargebacks s))) (\<lambda>existing. case existing of
         Some row \<Rightarrow> bnd (of_res (chargeback_from_row row)) (\<lambda>cb.
           andthen (unless_raise (same_chargeback q amount cb)
               (ValueError (fstr [''Case '', fl_case_id q, '' already has a different chargeback identity''])))
             (ret cb))
       | None \<Rightarrow> insert_chargeback ch q amount)))"

definition find_chargeback :: "string \<Rightarrow> (processor, chargeback option) prog" where
  "find_chargeback cid = bnd (gets (\<lambda>s. select_first (\<lambda>r. pr_case_id r = cid) (ps_chargebacks s))) (\<lambda>found. case found of
     None \<Rightarrow> ret None | Some row \<Rightarrow> bnd (of_res (chargeback_from_row row)) (\<lambda>cb. ret (Some cb)))"

definition filing_count :: "string \<Rightarrow> processor \<Rightarrow> nat" where
  "filing_count cid s = rowcount (\<lambda>e. fe_case_id e = cid) (ps_history s)"

definition reset_processor :: "(processor, unit) prog" where
  "reset_processor =
     andthen (change (\<lambda>s. s\<lparr>ps_history := []\<rparr>)) (
     andthen (change (\<lambda>s. s\<lparr>ps_chargebacks := []\<rparr>))
       (change (\<lambda>s. s\<lparr>ps_session_expired := False, ps_timeout_after_submit := False, ps_system_failure := False,
          ps_fail_lookup_when_present := False\<rparr>)))"

definition list_chargebacks :: "processor \<Rightarrow> (string \<times> chargeback) list res" where
  "list_chargebacks s = those_res (map (\<lambda>r. rbind (chargeback_from_row r) (\<lambda>cb. Inr (pr_case_id r, cb))) (ps_chargebacks s))"

section \<open>Routes\<close>

definition chargeback_answer :: "chargeback \<Rightarrow> nat \<Rightarrow> dict" where
  "chargeback_answer cb n =
     [(''chargeback_id'', VStr (cb_chargeback_id cb)), (''case_id'', VStr (cb_case_id cb)), (''card_last4'', VStr (cb_card_last4 cb)),
      (''amount'', money_val (cb_amount cb)), (''network_ref'', VStr (cb_network_ref cb)), (''status'', VStr (cb_status cb)),
      (''created_at'', VStr (cb_created_at cb)), (''institution_id'', VStr (cb_institution_id cb)),
      (''procedure_id'', VStr (cb_procedure_id cb)), (''capability_id'', VStr (cb_capability_id cb)),
      (''member_id'', VStr (cb_member_id cb)), (''account_id'', VStr (cb_account_id cb)), (''currency'', VStr (cb_currency cb)),
      (''business_reference'', VStr (cb_business_reference cb)), (''effect_count'', VInt (int n))]"

definition api_get_chargeback :: "web \<Rightarrow> string \<Rightarrow> (processor, response) prog" where
  "api_get_chargeback wb cid =
     bnd (find_chargeback cid) (\<lambda>found. case found of
       None \<Rightarrow> ret (json_answer wb 404 [(''error'', VStr ''Chargeback not found'')])
     | Some cb \<Rightarrow> bnd (gets ps_fail_lookup_when_present) (\<lambda>failing.
         if failing then ret (json_answer wb 503 [(''error'', VStr ''Filing inquiry unavailable'')])
         else bnd (gets (filing_count cid)) (\<lambda>n. ret (json_answer wb 200 (chargeback_answer cb n)))))"

definition api_reset_processor :: "settings \<Rightarrow> web \<Rightarrow> form_request \<Rightarrow> (processor, response) prog" where
  "api_reset_processor cfg wb rq = guarded_route cfg wb rq (
     andthen reset_processor (ret (json_answer wb 200 [(''status'', VStr ''ok''), (''message'', VStr ''Processor state reset'')])))"

text \<open>The query parameters, already parsed.\<close>

definition api_set_mode :: "settings \<Rightarrow> web \<Rightarrow> form_request \<Rightarrow> bool \<Rightarrow> bool \<Rightarrow> bool \<Rightarrow> bool \<Rightarrow> (processor, response) prog" where
  "api_set_mode cfg wb rq expired timeout failure fail_lookup = guarded_route cfg wb rq (
     andthen (change (\<lambda>s. s\<lparr>ps_session_expired := expired, ps_timeout_after_submit := timeout, ps_system_failure := failure,
        ps_fail_lookup_when_present := fail_lookup\<rparr>))
       (ret (json_answer wb 200 [(''status'', VStr ''ok''), (''session_expired'', VBool expired),
          (''timeout_after_submit'', VBool timeout), (''system_failure'', VBool failure), (''fail_lookup_when_present'', VBool fail_lookup)])))"

definition filing_of :: "form_request \<Rightarrow> string \<Rightarrow> string \<Rightarrow> val \<Rightarrow> filing" where
  "filing_of rq cid last4 amount =
     \<lparr>fl_case_id = cid, fl_card_last4 = last4, fl_amount = amount,
      fl_dispute_reason = form_default rq ''dispute_reason'' ''Unauthorized Transaction'',
      fl_institution_id = form_default rq ''institution_id'' ''alpha'',
      fl_procedure_id = form_default rq ''procedure_id'' ''reg_e_dispute'',
      fl_capability_id = form_default rq ''capability_id'' ''processor.file_chargeback'',
      fl_member_id = form_default rq ''member_id'' [], fl_account_id = form_default rq ''account_id'' [],
      fl_currency = form_default rq ''currency'' ''USD'',
      fl_business_reference = Some (or_case (Some (form_default rq ''business_reference'' [])) cid)\<rparr>"

text \<open>With the switch \<open>timeout_after_submit\<close> the filing is committed and the answer lost.\<close>

definition process_filing :: "web \<Rightarrow> chance \<Rightarrow> filing \<Rightarrow> (processor, response) prog" where
  "process_filing wb ch q =
     bnd (gets ps_session_expired) (\<lambda>expired. if expired then ret (html_page 401) else
     bnd (gets ps_system_failure) (\<lambda>failure.
       if failure
       then ret (refused wb (HTTP_Exception 500 ''Card Processor Internal Server Error (Downstream Network Fail)''))
       else
     bnd (gets ps_timeout_after_submit) (\<lambda>timeout.
       if timeout
       then andthen (file_chargeback ch q) (ret (refused wb (HTTP_Exception 504
          ''Gateway Timeout: Upstream card network connection dropped before confirmation was delivered'')))
       else andthen (file_chargeback ch q) (ret (html_page 200)))))"

definition file_chargeback_route :: "settings \<Rightarrow> web \<Rightarrow> chance \<Rightarrow> form_request \<Rightarrow> (processor, response) prog" where
  "file_chargeback_route cfg wb ch rq = guarded_route cfg wb rq (
     with_field wb rq ''case_id'' (\<lambda>cid.
     with_field wb rq ''card_last4'' (\<lambda>last4.
     with_decimal wb rq ''amount'' (\<lambda>amount. process_filing wb ch (filing_of rq cid last4 amount)))))"

text \<open>The processor as a target of Tandem's HTTP client.\<close>

definition processor_target :: "settings \<Rightarrow> web \<Rightarrow> chance \<Rightarrow> processor target" where
  "processor_target cfg wb ch =
     \<lparr>http_get = (\<lambda>url. case path_segment wb (processor_url cfg @ ''/api/chargebacks/'') url of
         None \<Rightarrow> (\<lambda>s. (Inr (no_route wb), s)) | Some cid \<Rightarrow> serve wb (api_get_chargeback wb cid)),
      http_post = (\<lambda>url payload token. if url = processor_url cfg @ ''/chargeback/file''
         then serve wb (file_chargeback_route cfg wb ch (posted_request payload token)) else (\<lambda>s. (Inr (no_route wb), s))),
      sleep = id\<rparr>"

section \<open>Filing keeps the contract\<close>

text \<open>The record says what was asked to be filed.\<close>

definition files :: "filing \<Rightarrow> chargeback \<Rightarrow> bool" where
  "files q cb \<longleftrightarrow> (case parse_money (fl_amount q) of Inl e \<Rightarrow> False | Inr amount \<Rightarrow> same_chargeback q amount cb)"

lemma chargeback_stored [simp]:
  assumes "m_cents (cb_amount cb) \<le> max_money_cents"
  shows "chargeback_from_row (row_of_chargeback cb) =
    Inr (cb\<lparr>cb_business_reference := if cb_business_reference cb = [] then cb_case_id cb else cb_business_reference cb\<rparr>)"
  using assms by (simp add: chargeback_from_row_def row_of_chargeback_def parse_money_money_text)

lemma row_of_chargeback_key [simp]: "pr_case_id (row_of_chargeback cb) = cb_case_id cb"
  by (simp add: row_of_chargeback_def)

lemma insert_chargeback_run:
  assumes "m_cents amount \<le> max_money_cents"
  shows "\<exists>r e v t. insert_chargeback ch q amount s = (Ret v, t) \<and> ps_chargebacks t = ps_chargebacks s @ [r] \<and>
    ps_history t = ps_history s @ [e] \<and> pr_case_id r = fl_case_id q \<and> fe_case_id e = fl_case_id q \<and>
    chargeback_from_row r = Inr v \<and> same_chargeback q amount v"
  using assms
  by (simp add: insert_chargeback_def randint_def stamp_def bnd_def andthen_def Let_def same_chargeback_def money_eq_def or_case_empty)

lemma file_chargeback_known:
  assumes "select_first (\<lambda>r. pr_case_id r = fl_case_id q) (ps_chargebacks s) = Some row"
    and "parse_money (fl_amount q) = Inr amount" and "chargeback_from_row row = Inr cb"
  shows "file_chargeback ch q s = (if same_chargeback q amount cb then (Ret cb, s)
     else (Raise (ValueError (fstr [''Case '', fl_case_id q, '' already has a different chargeback identity''])), s))"
  using assms by (simp add: file_chargeback_def transaction_def bnd_def andthen_def unless_raise_def)

interpretation filings: effect_store ps_chargebacks ps_history pr_case_id fe_case_id chargeback_from_row fl_case_id files
  "file_chargeback ch"
proof unfold_locales
  fix q :: filing and s t :: processor and row x
  assume known: "select_first (\<lambda>r. pr_case_id r = fl_case_id q) (ps_chargebacks s) = Some row"
    and run: "file_chargeback ch q s = (x, t)"
  show "ps_chargebacks t = ps_chargebacks s \<and> ps_history t = ps_history s \<and>
      (\<forall>v. x = Ret v \<longrightarrow> chargeback_from_row row = Inr v \<and> files q v)"
  proof (cases "parse_money (fl_amount q)")
    case (Inr amount)
    show ?thesis
    proof (cases "chargeback_from_row row")
      case (Inr cb)
      then show ?thesis
        using run file_chargeback_known [OF known \<open>parse_money (fl_amount q) = Inr amount\<close> Inr, of ch] \<open>parse_money (fl_amount q) = Inr amount\<close>
        by (auto simp: files_def split: if_splits)
    qed (use run known Inr in \<open>auto simp: file_chargeback_def transaction_def bnd_def\<close>)
  qed (use run in \<open>auto simp: file_chargeback_def\<close>)
next
  fix q :: filing and s :: processor and row v
  assume "select_first (\<lambda>r. pr_case_id r = fl_case_id q) (ps_chargebacks s) = Some row"
    and "chargeback_from_row row = Inr v" and "files q v"
  then show "\<exists>t. file_chargeback ch q s = (Ret v, t)"
    by (auto simp: files_def file_chargeback_known split: sum.splits)
next
  fix q :: filing and s t :: processor and x
  assume new: "select_first (\<lambda>r. pr_case_id r = fl_case_id q) (ps_chargebacks s) = None"
    and run: "file_chargeback ch q s = (x, t)"
  show "(\<exists>r e v. x = Ret v \<and> ps_chargebacks t = ps_chargebacks s @ [r] \<and> ps_history t = ps_history s @ [e] \<and>
        pr_case_id r = fl_case_id q \<and> fe_case_id e = fl_case_id q \<and> chargeback_from_row r = Inr v \<and> files q v) \<or>
      (ps_chargebacks t = ps_chargebacks s \<and> ps_history t = ps_history s \<and> (\<forall>v. x \<noteq> Ret v))"
  proof (cases "parse_money (fl_amount q)")
    case (Inr amount)
    from insert_chargeback_run [OF parse_money_le [OF Inr], of ch q s]
    show ?thesis using run new Inr by (auto simp: file_chargeback_def transaction_def bnd_def files_def)
  qed (use run in \<open>auto simp: file_chargeback_def\<close>)
qed

section \<open>Every request\<close>

datatype processor_call =
    Filing_inquiry string
  | File_form form_request
  | Reset_filings form_request
  | Set_mode form_request bool bool bool bool

fun processor_api :: "settings \<Rightarrow> web \<Rightarrow> chance \<Rightarrow> processor_call \<Rightarrow> (processor, response) prog" where
  "processor_api cfg wb ch (Filing_inquiry cid) = api_get_chargeback wb cid"
| "processor_api cfg wb ch (File_form rq) = file_chargeback_route cfg wb ch rq"
| "processor_api cfg wb ch (Reset_filings rq) = api_reset_processor cfg wb rq"
| "processor_api cfg wb ch (Set_mode rq expired timeout failure fail_lookup) = api_set_mode cfg wb rq expired timeout failure fail_lookup"

lemma keeps_filings [keeps_rules]: "keeps filings.store_ok (file_chargeback ch q)"
  by (rule filings.keeps_store_ok)

lemma filings_frame:
  assumes "ps_chargebacks t = ps_chargebacks s" and "ps_history t = ps_history s"
  shows "filings.store_ok t = filings.store_ok s"
  using assms by (simp add: filings.store_ok_def filings.count_def filings.recorded_def)

lemma keeps_reset_processor [keeps_rules]: "keeps filings.store_ok reset_processor"
  by (simp add: keeps_def reset_processor_def andthen_def bnd_def filings.store_ok_def filings.count_def filings.recorded_def unique_on_def)

lemma keeps_find_chargeback [keeps_rules]: "keeps I (find_chargeback cid)"
  unfolding find_chargeback_def by (intro keeps_rules)

lemma processor_api_keeps: "keeps filings.store_ok (processor_api cfg wb ch call)"
proof (cases call)
  case (Set_mode rq expired timeout failure fail_lookup)
  have "keeps filings.store_ok (change (\<lambda>s. s\<lparr>ps_session_expired := expired, ps_timeout_after_submit := timeout,
      ps_system_failure := failure, ps_fail_lookup_when_present := fail_lookup\<rparr>))"
    by (rule keeps_change) (subst filings_frame, simp_all)
  then show ?thesis unfolding Set_mode processor_api.simps api_set_mode_def by (intro keeps_rules)
next
  case (Filing_inquiry cid)
  show ?thesis unfolding Filing_inquiry processor_api.simps api_get_chargeback_def by (intro keeps_rules)
next
  case (File_form rq)
  show ?thesis unfolding File_form processor_api.simps file_chargeback_route_def process_filing_def by (intro keeps_rules)
next
  case (Reset_filings rq)
  show ?thesis unfolding Reset_filings processor_api.simps api_reset_processor_def by (intro keeps_rules)
qed

lemma filing_count_recorded: "filings.store_ok s \<Longrightarrow> filing_count cid s = (if filings.recorded s cid = None then 0 else 1)"
  by (drule filings.count_recorded [of s cid]) (simp add: filing_count_def filings.count_def rowcount_def)

end
