(* ===== verification/Documents.thy ===== *)
theory Documents
  imports EffectStore HttpCommit
begin

text \<open>
  The member notices, \<open>simulators/documents/\<close>: the tables, the dispatch of a notice and the
  inquiry of \<open>state.py\<close>, the mutation and inquiry routes of \<open>app.py\<close>, and the two routes
  that Tandem calls as a target of the HTTP client.  Pages are kept as their status only.
\<close>

section \<open>Tables and records\<close>

record notice_row =
  nr_case_id :: string
  nr_notice_id :: string
  nr_member_id :: string
  nr_notice_type :: string
  nr_amount :: string
  nr_deadline_due_at :: string
  nr_sent_at :: string
  nr_status :: string
  nr_institution_id :: string
  nr_procedure_id :: string
  nr_capability_id :: string
  nr_account_id :: string
  nr_currency :: string
  nr_business_reference :: string

record notice_event =
  ne_case_id :: string
  ne_effect_type :: string
  ne_notice_reference :: string
  ne_recorded_at :: string

record member_notice =
  mn_notice_id :: string
  mn_case_id :: string
  mn_member_id :: string
  mn_notice_type :: string
  mn_amount :: money
  mn_deadline_due_at :: string
  mn_sent_at :: string
  mn_status :: string
  mn_institution_id :: string
  mn_procedure_id :: string
  mn_capability_id :: string
  mn_account_id :: string
  mn_currency :: string
  mn_business_reference :: string

record document_system = simulator +
  dc_simulate_failure :: bool
  dc_notices :: "notice_row list"
  dc_history :: "notice_event list"

text \<open>The arguments of \<open>send_notice\<close>.\<close>

record dispatch =
  dp_case_id :: string
  dp_member_id :: string
  dp_notice_type :: string
  dp_amount :: val
  dp_deadline_due_at :: string
  dp_institution_id :: string
  dp_procedure_id :: string
  dp_capability_id :: string
  dp_account_id :: string
  dp_currency :: string
  dp_business_reference :: "string option"

section \<open>Operations\<close>

definition notice_from_row :: "notice_row \<Rightarrow> member_notice res" where
  "notice_from_row r = rbind (parse_money (VStr (nr_amount r))) (\<lambda>amount. Inr
     \<lparr>mn_notice_id = nr_notice_id r, mn_case_id = nr_case_id r, mn_member_id = nr_member_id r, mn_notice_type = nr_notice_type r,
      mn_amount = amount, mn_deadline_due_at = nr_deadline_due_at r, mn_sent_at = nr_sent_at r, mn_status = nr_status r,
      mn_institution_id = nr_institution_id r, mn_procedure_id = nr_procedure_id r, mn_capability_id = nr_capability_id r,
      mn_account_id = nr_account_id r, mn_currency = nr_currency r,
      mn_business_reference = (if nr_business_reference r = [] then nr_case_id r else nr_business_reference r)\<rparr>)"

definition row_of_notice :: "member_notice \<Rightarrow> notice_row" where
  "row_of_notice n =
     \<lparr>nr_case_id = mn_case_id n, nr_notice_id = mn_notice_id n, nr_member_id = mn_member_id n, nr_notice_type = mn_notice_type n,
      nr_amount = py_str (money_val (mn_amount n)), nr_deadline_due_at = mn_deadline_due_at n, nr_sent_at = mn_sent_at n,
      nr_status = mn_status n, nr_institution_id = mn_institution_id n, nr_procedure_id = mn_procedure_id n,
      nr_capability_id = mn_capability_id n, nr_account_id = mn_account_id n, nr_currency = mn_currency n,
      nr_business_reference = mn_business_reference n\<rparr>"

definition same_notice :: "dispatch \<Rightarrow> money \<Rightarrow> member_notice \<Rightarrow> bool" where
  "same_notice q amount n \<longleftrightarrow>
     mn_member_id n = dp_member_id q \<and> mn_notice_type n = dp_notice_type q \<and> money_eq (mn_amount n) amount \<and>
     mn_deadline_due_at n = dp_deadline_due_at q \<and> mn_institution_id n = dp_institution_id q \<and> mn_account_id n = dp_account_id q \<and>
     mn_currency n = dp_currency q \<and> mn_business_reference n = or_case (dp_business_reference q) (dp_case_id q)"

definition insert_notice :: "chance \<Rightarrow> dispatch \<Rightarrow> money \<Rightarrow> (document_system, member_notice) prog" where
  "insert_notice ch q amount =
     bnd (randint ch 1000 9999) (\<lambda>number.
     bnd (stamp ch) (\<lambda>now.
       let n = \<lparr>mn_notice_id = ''NOT-'' @ str_nat number, mn_case_id = dp_case_id q, mn_member_id = dp_member_id q,
            mn_notice_type = dp_notice_type q, mn_amount = amount, mn_deadline_due_at = dp_deadline_due_at q, mn_sent_at = now,
            mn_status = ''SENT'', mn_institution_id = dp_institution_id q, mn_procedure_id = dp_procedure_id q,
            mn_capability_id = dp_capability_id q, mn_account_id = dp_account_id q, mn_currency = dp_currency q,
            mn_business_reference = or_case (dp_business_reference q) (dp_case_id q)\<rparr>
       in andthen (change (\<lambda>s. s\<lparr>dc_notices := dc_notices s @ [row_of_notice n]\<rparr>)) (
          andthen (change (\<lambda>s. s\<lparr>dc_history := dc_history s @ [\<lparr>ne_case_id = dp_case_id q, ne_effect_type = ''NOTICE_SENT'',
            ne_notice_reference = mn_notice_id n, ne_recorded_at = mn_sent_at n\<rparr>]\<rparr>))
            (ret n))))"

definition send_notice :: "chance \<Rightarrow> dispatch \<Rightarrow> (document_system, member_notice) prog" where
  "send_notice ch q =
     bnd (of_res (parse_money (dp_amount q))) (\<lambda>amount.
     transaction (
       bnd (gets (\<lambda>s. select_first (\<lambda>r. nr_case_id r = dp_case_id q) (dc_notices s))) (\<lambda>existing. case existing of
         Some row \<Rightarrow> bnd (of_res (notice_from_row row)) (\<lambda>n.
           andthen (unless_raise (same_notice q amount n)
               (ValueError (fstr [''Case '', dp_case_id q, '' already has a different notice identity''])))
             (ret n))
       | None \<Rightarrow> insert_notice ch q amount)))"

definition find_notice :: "string \<Rightarrow> (document_system, member_notice option) prog" where
  "find_notice cid = bnd (gets (\<lambda>s. select_first (\<lambda>r. nr_case_id r = cid) (dc_notices s))) (\<lambda>found. case found of
     None \<Rightarrow> ret None | Some row \<Rightarrow> bnd (of_res (notice_from_row row)) (\<lambda>n. ret (Some n)))"

definition notice_count :: "string \<Rightarrow> document_system \<Rightarrow> nat" where
  "notice_count cid s = rowcount (\<lambda>e. ne_case_id e = cid) (dc_history s)"

definition list_notices :: "document_system \<Rightarrow> (string \<times> member_notice) list res" where
  "list_notices s = those_res (map (\<lambda>r. rbind (notice_from_row r) (\<lambda>n. Inr (nr_case_id r, n))) (dc_notices s))"

definition reset_documents :: "(document_system, unit) prog" where
  "reset_documents =
     andthen (change (\<lambda>s. s\<lparr>dc_history := []\<rparr>)) (
     andthen (change (\<lambda>s. s\<lparr>dc_notices := []\<rparr>))
       (change (\<lambda>s. s\<lparr>dc_simulate_failure := False\<rparr>)))"

section \<open>Routes\<close>

definition notice_answer :: "member_notice \<Rightarrow> nat \<Rightarrow> dict" where
  "notice_answer n count =
     [(''notice_id'', VStr (mn_notice_id n)), (''case_id'', VStr (mn_case_id n)), (''member_id'', VStr (mn_member_id n)),
      (''notice_type'', VStr (mn_notice_type n)), (''amount'', money_val (mn_amount n)),
      (''deadline_due_at'', VStr (mn_deadline_due_at n)), (''sent_at'', VStr (mn_sent_at n)), (''status'', VStr (mn_status n)),
      (''institution_id'', VStr (mn_institution_id n)), (''procedure_id'', VStr (mn_procedure_id n)),
      (''capability_id'', VStr (mn_capability_id n)), (''account_id'', VStr (mn_account_id n)),
      (''currency'', VStr (mn_currency n)), (''business_reference'', VStr (mn_business_reference n)),
      (''effect_count'', VInt (int count))]"

definition api_get_notice :: "web \<Rightarrow> string \<Rightarrow> (document_system, response) prog" where
  "api_get_notice wb cid =
     bnd (find_notice cid) (\<lambda>found. case found of
       None \<Rightarrow> ret (json_answer wb 404 [(''error'', VStr ''Notice not found'')])
     | Some n \<Rightarrow> bnd (gets (notice_count cid)) (\<lambda>count. ret (json_answer wb 200 (notice_answer n count))))"

definition api_reset_documents :: "settings \<Rightarrow> web \<Rightarrow> form_request \<Rightarrow> (document_system, response) prog" where
  "api_reset_documents cfg wb rq = guarded_route cfg wb rq (
     andthen reset_documents (ret (json_answer wb 200 [(''status'', VStr ''ok''), (''message'', VStr ''Document system state reset'')])))"

definition api_set_failure :: "settings \<Rightarrow> web \<Rightarrow> form_request \<Rightarrow> bool \<Rightarrow> (document_system, response) prog" where
  "api_set_failure cfg wb rq failing = guarded_route cfg wb rq (
     andthen (change (\<lambda>s. s\<lparr>dc_simulate_failure := failing\<rparr>))
       (ret (json_answer wb 200 [(''status'', VStr ''ok''), (''simulate_failure'', VBool failing)])))"

definition dispatch_of :: "form_request \<Rightarrow> string \<Rightarrow> string \<Rightarrow> string \<Rightarrow> val \<Rightarrow> string \<Rightarrow> dispatch" where
  "dispatch_of rq cid member kind amount due =
     \<lparr>dp_case_id = cid, dp_member_id = member, dp_notice_type = kind, dp_amount = amount, dp_deadline_due_at = due,
      dp_institution_id = form_default rq ''institution_id'' ''alpha'',
      dp_procedure_id = form_default rq ''procedure_id'' ''reg_e_dispute'',
      dp_capability_id = form_default rq ''capability_id'' ''docs.send_notice'',
      dp_account_id = form_default rq ''account_id'' [], dp_currency = form_default rq ''currency'' ''USD'',
      dp_business_reference = Some (or_case (Some (form_default rq ''business_reference'' [])) cid)\<rparr>"

definition process_dispatch :: "web \<Rightarrow> chance \<Rightarrow> dispatch \<Rightarrow> (document_system, response) prog" where
  "process_dispatch wb ch q =
     bnd (gets dc_simulate_failure) (\<lambda>failing.
       if failing
       then ret (refused wb (HTTP_Exception 500
          ''Document Dispatch Gateway Error: Connection to Mail / Electronic Delivery Provider Failed''))
       else andthen (send_notice ch q) (ret (html_page 200)))"

definition send_notice_route :: "settings \<Rightarrow> web \<Rightarrow> chance \<Rightarrow> form_request \<Rightarrow> (document_system, response) prog" where
  "send_notice_route cfg wb ch rq = guarded_route cfg wb rq (
     with_field wb rq ''case_id'' (\<lambda>cid.
     with_field wb rq ''member_id'' (\<lambda>member.
     with_field wb rq ''notice_type'' (\<lambda>kind.
     with_decimal wb rq ''amount'' (\<lambda>amount.
     with_field wb rq ''deadline_due_at'' (\<lambda>due. process_dispatch wb ch (dispatch_of rq cid member kind amount due)))))))"

text \<open>The document system as a target of Tandem's HTTP client.\<close>

definition documents_target :: "settings \<Rightarrow> web \<Rightarrow> chance \<Rightarrow> document_system target" where
  "documents_target cfg wb ch =
     \<lparr>http_get = (\<lambda>url. case path_segment wb (documents_url cfg @ ''/api/notices/'') url of
         None \<Rightarrow> (\<lambda>s. (Inr (no_route wb), s)) | Some cid \<Rightarrow> serve wb (api_get_notice wb cid)),
      http_post = (\<lambda>url payload token. if url = documents_url cfg @ ''/notices/send''
         then serve wb (send_notice_route cfg wb ch (posted_request payload token)) else (\<lambda>s. (Inr (no_route wb), s))),
      sleep = id\<rparr>"

section \<open>A dispatch keeps the contract\<close>

definition dispatches :: "dispatch \<Rightarrow> member_notice \<Rightarrow> bool" where
  "dispatches q n \<longleftrightarrow> (case parse_money (dp_amount q) of Inl e \<Rightarrow> False | Inr amount \<Rightarrow> same_notice q amount n)"

lemma notice_stored [simp]:
  assumes "m_cents (mn_amount n) \<le> max_money_cents"
  shows "notice_from_row (row_of_notice n) =
    Inr (n\<lparr>mn_business_reference := if mn_business_reference n = [] then mn_case_id n else mn_business_reference n\<rparr>)"
  using assms by (simp add: notice_from_row_def row_of_notice_def parse_money_money_text)

lemma row_of_notice_key [simp]: "nr_case_id (row_of_notice n) = mn_case_id n"
  by (simp add: row_of_notice_def)

lemma insert_notice_run:
  assumes "m_cents amount \<le> max_money_cents"
  shows "\<exists>r e v t. insert_notice ch q amount s = (Ret v, t) \<and> dc_notices t = dc_notices s @ [r] \<and>
    dc_history t = dc_history s @ [e] \<and> nr_case_id r = dp_case_id q \<and> ne_case_id e = dp_case_id q \<and>
    notice_from_row r = Inr v \<and> same_notice q amount v"
  using assms
  by (simp add: insert_notice_def randint_def stamp_def bnd_def andthen_def Let_def same_notice_def money_eq_def or_case_empty)

lemma send_notice_known:
  assumes "select_first (\<lambda>r. nr_case_id r = dp_case_id q) (dc_notices s) = Some row"
    and "parse_money (dp_amount q) = Inr amount" and "notice_from_row row = Inr n"
  shows "send_notice ch q s = (if same_notice q amount n then (Ret n, s)
     else (Raise (ValueError (fstr [''Case '', dp_case_id q, '' already has a different notice identity''])), s))"
  using assms by (simp add: send_notice_def transaction_def bnd_def andthen_def unless_raise_def)

interpretation notices: effect_store dc_notices dc_history nr_case_id ne_case_id notice_from_row dp_case_id dispatches
  "send_notice ch"
proof unfold_locales
  fix q :: dispatch and s t :: document_system and row x
  assume known: "select_first (\<lambda>r. nr_case_id r = dp_case_id q) (dc_notices s) = Some row"
    and run: "send_notice ch q s = (x, t)"
  show "dc_notices t = dc_notices s \<and> dc_history t = dc_history s \<and>
      (\<forall>v. x = Ret v \<longrightarrow> notice_from_row row = Inr v \<and> dispatches q v)"
  proof (cases "parse_money (dp_amount q)")
    case (Inr amount)
    show ?thesis
    proof (cases "notice_from_row row")
      case (Inr n)
      then show ?thesis
        using run send_notice_known [OF known \<open>parse_money (dp_amount q) = Inr amount\<close> Inr, of ch] \<open>parse_money (dp_amount q) = Inr amount\<close>
        by (auto simp: dispatches_def split: if_splits)
    qed (use run known Inr in \<open>auto simp: send_notice_def transaction_def bnd_def\<close>)
  qed (use run in \<open>auto simp: send_notice_def\<close>)
next
  fix q :: dispatch and s :: document_system and row v
  assume "select_first (\<lambda>r. nr_case_id r = dp_case_id q) (dc_notices s) = Some row"
    and "notice_from_row row = Inr v" and "dispatches q v"
  then show "\<exists>t. send_notice ch q s = (Ret v, t)"
    by (auto simp: dispatches_def send_notice_known split: sum.splits)
next
  fix q :: dispatch and s t :: document_system and x
  assume new: "select_first (\<lambda>r. nr_case_id r = dp_case_id q) (dc_notices s) = None"
    and run: "send_notice ch q s = (x, t)"
  show "(\<exists>r e v. x = Ret v \<and> dc_notices t = dc_notices s @ [r] \<and> dc_history t = dc_history s @ [e] \<and>
        nr_case_id r = dp_case_id q \<and> ne_case_id e = dp_case_id q \<and> notice_from_row r = Inr v \<and> dispatches q v) \<or>
      (dc_notices t = dc_notices s \<and> dc_history t = dc_history s \<and> (\<forall>v. x \<noteq> Ret v))"
  proof (cases "parse_money (dp_amount q)")
    case (Inr amount)
    from insert_notice_run [OF parse_money_le [OF Inr], of ch q s]
    show ?thesis using run new Inr by (auto simp: send_notice_def transaction_def bnd_def dispatches_def)
  qed (use run in \<open>auto simp: send_notice_def\<close>)
qed

section \<open>Every request\<close>

datatype document_call =
    Notice_inquiry string
  | Send_form form_request
  | Reset_notices form_request
  | Set_failure form_request bool

fun documents_api :: "settings \<Rightarrow> web \<Rightarrow> chance \<Rightarrow> document_call \<Rightarrow> (document_system, response) prog" where
  "documents_api cfg wb ch (Notice_inquiry cid) = api_get_notice wb cid"
| "documents_api cfg wb ch (Send_form rq) = send_notice_route cfg wb ch rq"
| "documents_api cfg wb ch (Reset_notices rq) = api_reset_documents cfg wb rq"
| "documents_api cfg wb ch (Set_failure rq failing) = api_set_failure cfg wb rq failing"

lemma keeps_notices [keeps_rules]: "keeps notices.store_ok (send_notice ch q)"
  by (rule notices.keeps_store_ok)

lemma notices_frame:
  assumes "dc_notices t = dc_notices s" and "dc_history t = dc_history s"
  shows "notices.store_ok t = notices.store_ok s"
  using assms by (simp add: notices.store_ok_def notices.count_def notices.recorded_def)

lemma keeps_reset_documents [keeps_rules]: "keeps notices.store_ok reset_documents"
  by (simp add: keeps_def reset_documents_def andthen_def bnd_def notices.store_ok_def notices.count_def notices.recorded_def unique_on_def)

lemma keeps_find_notice [keeps_rules]: "keeps I (find_notice cid)"
  unfolding find_notice_def by (intro keeps_rules)

lemma documents_api_keeps: "keeps notices.store_ok (documents_api cfg wb ch call)"
proof (cases call)
  case (Set_failure rq failing)
  have "keeps notices.store_ok (change (\<lambda>s. s\<lparr>dc_simulate_failure := failing\<rparr>))"
    by (rule keeps_change) (subst notices_frame, simp_all)
  then show ?thesis unfolding Set_failure documents_api.simps api_set_failure_def by (intro keeps_rules)
next
  case (Notice_inquiry cid)
  show ?thesis unfolding Notice_inquiry documents_api.simps api_get_notice_def by (intro keeps_rules)
next
  case (Send_form rq)
  show ?thesis unfolding Send_form documents_api.simps send_notice_route_def process_dispatch_def by (intro keeps_rules)
next
  case (Reset_notices rq)
  show ?thesis unfolding Reset_notices documents_api.simps api_reset_documents_def by (intro keeps_rules)
qed

lemma notice_count_recorded: "notices.store_ok s \<Longrightarrow> notice_count cid s = (if notices.recorded s cid = None then 0 else 1)"
  by (drule notices.count_recorded [of s cid]) (simp add: notice_count_def notices.count_def rowcount_def)

end
