(* ===== verification/CoreBank.thy ===== *)
theory CoreBank
  imports EffectStore HttpCommit
begin

text \<open>
  The core bank, \<open>simulators/core_bank/\<close>: members, their transactions and balances, the
  provisional credits and the history of effects of \<open>state.py\<close>; the inquiry, management,
  confirmation and commit routes of the consoles of Institution Alpha (\<open>app.py\<close>) and Beta
  (\<open>beta_app.py\<close>, \<open>beta_state.py\<close>).  A page is kept as its status, the confirmation page
  also with the form that its button sends.  The waits that simulate latency change
  nothing and are left out.
\<close>

section \<open>Tables and records\<close>

record member_row =
  mr_institution_id :: string
  mr_member_id :: string
  mr_first_name :: string
  mr_last_name :: string
  mr_account_id :: string
  mr_balance :: string

record transaction_row =
  tr_institution_id :: string
  tr_member_id :: string
  tr_txn_id :: string
  tr_posted_at :: string
  tr_description :: string
  tr_amount :: string
  tr_card_last4 :: string
  tr_status :: string

record credit_row =
  rw_institution_id :: string
  rw_case_id :: string
  rw_credit_id :: string
  rw_member_id :: string
  rw_account_id :: string
  rw_amount :: string
  rw_currency :: string
  rw_business_reference :: string
  rw_memo_code :: string
  rw_posted_at :: string
  rw_status :: string

record credit_event =
  ce_institution_id :: string
  ce_case_id :: string
  ce_business_reference :: string
  ce_effect_type :: string
  ce_payload :: string
  ce_recorded_at :: string

record bank_transaction =
  bt_txn_id :: string
  bt_posted_at :: string
  bt_description :: string
  bt_amount :: money
  bt_card_last4 :: string
  bt_status :: string

record provisional_credit =
  pv_credit_id :: string
  pv_case_id :: string
  pv_member_id :: string
  pv_account_id :: string
  pv_amount :: money
  pv_memo_code :: string
  pv_posted_at :: string
  pv_status :: string
  pv_currency :: string
  pv_business_reference :: string
  pv_institution_id :: string

record bank_member =
  bm_member_id :: string
  bm_first_name :: string
  bm_last_name :: string
  bm_account_id :: string
  bm_balance :: money
  bm_transactions :: "bank_transaction list"

record core_bank = simulator +
  bk_institution_id :: string
  bk_session_valid :: bool
  bk_require_compliance :: bool
  bk_compliance_cleared :: bool
  bk_latency_ms :: int
  bk_post_commit_delay_ms :: int
  bk_fail_credit_lookup :: bool
  bk_members :: "member_row list"
  bk_transactions :: "transaction_row list"
  bk_credits :: "credit_row list"
  bk_history :: "credit_event list"

text \<open>The arguments of \<open>post_credit\<close>.\<close>

record posting =
  cq_case_id :: string
  cq_member_id :: string
  cq_amount :: val
  cq_currency :: string
  cq_business_reference :: "string option"
  cq_institution_id :: "string option"

section \<open>Reading\<close>

definition credit_from_row :: "credit_row \<Rightarrow> provisional_credit res" where
  "credit_from_row r = rbind (parse_money (VStr (rw_amount r))) (\<lambda>amount. Inr
     \<lparr>pv_credit_id = rw_credit_id r, pv_case_id = rw_case_id r, pv_member_id = rw_member_id r, pv_account_id = rw_account_id r,
      pv_amount = amount, pv_memo_code = rw_memo_code r, pv_posted_at = rw_posted_at r, pv_status = rw_status r,
      pv_currency = rw_currency r, pv_business_reference = rw_business_reference r, pv_institution_id = rw_institution_id r\<rparr>)"

definition transaction_from_row :: "transaction_row \<Rightarrow> (string \<times> bank_transaction) res" where
  "transaction_from_row r = rbind (parse_money (VStr (tr_amount r))) (\<lambda>amount. Inr (tr_member_id r,
     \<lparr>bt_txn_id = tr_txn_id r, bt_posted_at = tr_posted_at r, bt_description = tr_description r, bt_amount = amount,
      bt_card_last4 = tr_card_last4 r, bt_status = tr_status r\<rparr>))"

definition member_from_row :: "(string \<times> bank_transaction) list \<Rightarrow> member_row \<Rightarrow> (string \<times> bank_member) res" where
  "member_from_row ts r = rbind (parse_money (VStr (mr_balance r))) (\<lambda>balance. Inr (mr_member_id r,
     \<lparr>bm_member_id = mr_member_id r, bm_first_name = mr_first_name r, bm_last_name = mr_last_name r,
      bm_account_id = mr_account_id r, bm_balance = balance, bm_transactions = map snd (filter (\<lambda>t. fst t = mr_member_id r) ts)\<rparr>))"

text \<open>\<open>ORDER BY posted_at DESC\<close>.\<close>

definition latest_first :: "transaction_row list \<Rightarrow> transaction_row list" where
  "latest_first rows = rev (sort_key tr_posted_at (rev rows))"

text \<open>The property \<open>members\<close> reads every member and every transaction of the institution.\<close>

definition members :: "core_bank \<Rightarrow> (string \<times> bank_member) list res" where
  "members s =
     rbind (those_res (map transaction_from_row
       (latest_first (filter (\<lambda>r. tr_institution_id r = bk_institution_id s) (bk_transactions s))))) (\<lambda>ts.
     those_res (map (member_from_row ts) (filter (\<lambda>r. mr_institution_id r = bk_institution_id s) (bk_members s))))"

definition read_members :: "(core_bank, (string \<times> bank_member) list) prog" where
  "read_members = (\<lambda>s. of_res (members s) s)"

definition credits :: "core_bank \<Rightarrow> (string \<times> provisional_credit) list res" where
  "credits s = those_res (map (\<lambda>r. rbind (credit_from_row r) (\<lambda>c. Inr (rw_case_id r, c)))
     (filter (\<lambda>r. rw_institution_id r = bk_institution_id s) (bk_credits s)))"

definition get_member :: "string \<Rightarrow> (core_bank, bank_member) prog" where
  "get_member mid = bnd read_members (\<lambda>ms. case map_of ms mid of None \<Rightarrow> fail (KeyError (repr_str mid)) | Some m \<Rightarrow> ret m)"

definition matches_query :: "string \<Rightarrow> bank_member \<Rightarrow> bool" where
  "matches_query query m \<longleftrightarrow> contains query (lower (bm_member_id m)) \<or> contains query (lower (bm_last_name m)) \<or>
     contains query (lower (bm_account_id m))"

text \<open>\<open>random.shuffle\<close>: the order is drawn, a permutation of the positions.\<close>

definition search_members :: "chance \<Rightarrow> string \<Rightarrow> bool \<Rightarrow> (core_bank, bank_member list) prog" where
  "search_members ch query randomize_order =
     bnd read_members (\<lambda>ms.
       let results = filter (matches_query (lower (strip query))) (map snd ms) in
       if randomize_order \<and> 1 < length results
       then draw (\<lambda>n. map ((!) results) (ch_order ch n (length results)))
       else ret results)"

definition find_credit_by_case :: "string \<Rightarrow> (core_bank, provisional_credit option) prog" where
  "find_credit_by_case cid =
     bnd (gets (\<lambda>s. select_first (\<lambda>r. rw_institution_id r = bk_institution_id s \<and> rw_case_id r = cid) (bk_credits s))) (\<lambda>found.
     case found of None \<Rightarrow> ret None | Some row \<Rightarrow> bnd (of_res (credit_from_row row)) (\<lambda>c. ret (Some c)))"

definition credit_count :: "string \<Rightarrow> core_bank \<Rightarrow> nat" where
  "credit_count cid s = rowcount (\<lambda>e. ce_institution_id e = bk_institution_id s \<and> ce_case_id e = cid) (bk_history s)"

section \<open>Posting a credit\<close>

text \<open>The sum of two amounts; of two zeros only two negative ones give a negative zero.\<close>

definition add_money :: "money \<Rightarrow> money \<Rightarrow> money" where
  "add_money a b = (let n = cents a + cents b in
     Money (if n = 0 then m_neg a \<and> m_neg b else n < 0) (nat \<bar>n\<bar>))"

definition row_of_credit :: "provisional_credit \<Rightarrow> credit_row" where
  "row_of_credit c =
     \<lparr>rw_institution_id = pv_institution_id c, rw_case_id = pv_case_id c, rw_credit_id = pv_credit_id c,
      rw_member_id = pv_member_id c, rw_account_id = pv_account_id c, rw_amount = py_str (money_val (pv_amount c)),
      rw_currency = pv_currency c, rw_business_reference = pv_business_reference c, rw_memo_code = pv_memo_code c,
      rw_posted_at = pv_posted_at c, rw_status = pv_status c\<rparr>"

definition same_credit :: "posting \<Rightarrow> money \<Rightarrow> provisional_credit \<Rightarrow> bool" where
  "same_credit q amount c \<longleftrightarrow>
     pv_member_id c = cq_member_id q \<and> money_eq (pv_amount c) amount \<and> pv_currency c = cq_currency q \<and>
     pv_business_reference c = or_case (cq_business_reference q) (cq_case_id q)"

definition of_member :: "string \<Rightarrow> string \<Rightarrow> member_row \<Rightarrow> bool" where
  "of_member inst mid r \<longleftrightarrow> mr_institution_id r = inst \<and> mr_member_id r = mid"

definition insert_credit :: "chance \<Rightarrow> string \<Rightarrow> posting \<Rightarrow> money \<Rightarrow> member_row \<Rightarrow> (core_bank, provisional_credit) prog" where
  "insert_credit ch inst q amount member =
     bnd (randint ch 10000 99999) (\<lambda>number.
     bnd (randint ch 7000 7999) (\<lambda>memo.
     bnd (stamp ch) (\<lambda>now.
       let c = \<lparr>pv_credit_id = ''CRD-'' @ str_nat number, pv_case_id = cq_case_id q, pv_member_id = cq_member_id q,
            pv_account_id = mr_account_id member, pv_amount = amount, pv_memo_code = ''MC-'' @ str_nat memo, pv_posted_at = now,
            pv_status = ''POSTED'', pv_currency = cq_currency q,
            pv_business_reference = or_case (cq_business_reference q) (cq_case_id q), pv_institution_id = inst\<rparr>
       in andthen (change (\<lambda>s. s\<lparr>bk_credits := bk_credits s @ [row_of_credit c]\<rparr>)) (
          bnd (of_res (parse_money (VStr (mr_balance member)))) (\<lambda>balance.
          andthen (change (\<lambda>s. s\<lparr>bk_members := update_where (of_member inst (cq_member_id q))
            (\<lambda>r. r\<lparr>mr_balance := py_str (money_val (add_money balance amount))\<rparr>) (bk_members s)\<rparr>)) (
          andthen (change (\<lambda>s. s\<lparr>bk_history := bk_history s @ [\<lparr>ce_institution_id = inst, ce_case_id = cq_case_id q,
              ce_business_reference = pv_business_reference c, ce_effect_type = ''PROVISIONAL_CREDIT_POSTED'',
              ce_payload = fstr [cq_member_id q, ''|'', pv_account_id c, ''|'', py_str (money_val amount), ''|'', cq_currency q, ''|'', pv_memo_code c],
              ce_recorded_at = pv_posted_at c\<rparr>]\<rparr>))
            (ret c)))))))"

definition post_credit_at :: "chance \<Rightarrow> string \<Rightarrow> posting \<Rightarrow> (core_bank, provisional_credit) prog" where
  "post_credit_at ch inst q =
     bnd (of_res (parse_money (cq_amount q))) (\<lambda>amount.
     transaction (
       bnd (gets (\<lambda>s. select_first (\<lambda>r. (rw_institution_id r, rw_case_id r) = (inst, cq_case_id q)) (bk_credits s))) (\<lambda>existing.
       case existing of
         Some row \<Rightarrow> bnd (of_res (credit_from_row row)) (\<lambda>c.
           andthen (unless_raise (same_credit q amount c)
               (ValueError (fstr [''Case '', cq_case_id q, '' already has a different credit identity''])))
             (ret c))
       | None \<Rightarrow> bnd (gets (\<lambda>s. select_first (of_member inst (cq_member_id q)) (bk_members s))) (\<lambda>found. case found of
           None \<Rightarrow> fail (ValueError (fstr [''Member '', cq_member_id q, '' not found'']))
         | Some member \<Rightarrow> insert_credit ch inst q amount member))))"

definition post_credit :: "chance \<Rightarrow> posting \<Rightarrow> (core_bank, provisional_credit) prog" where
  "post_credit ch q = bnd (gets bk_institution_id) (\<lambda>own. post_credit_at ch (or_case (cq_institution_id q) own) q)"

section \<open>The seed\<close>

definition seed_members :: "string \<Rightarrow> member_row list" where
  "seed_members inst =
     [\<lparr>mr_institution_id = inst, mr_member_id = ''8830142'', mr_first_name = ''Jane'', mr_last_name = ''DisputeMember'',
       mr_account_id = ''CHK-8830142-01'', mr_balance = ''1240.50''\<rparr>,
      \<lparr>mr_institution_id = inst, mr_member_id = ''8830124'', mr_first_name = ''John'', mr_last_name = ''ConfusableMember'',
       mr_account_id = ''CHK-8830124-01'', mr_balance = ''410.25''\<rparr>]"

definition seed_transactions :: "string \<Rightarrow> transaction_row list" where
  "seed_transactions inst =
     [\<lparr>tr_institution_id = inst, tr_member_id = ''8830142'', tr_txn_id = ''TXN-99101'', tr_posted_at = ''2026-09-01 14:22:10'',
       tr_description = ''POS DEBIT - ELECTRONICS STORE'', tr_amount = ''340.00'', tr_card_last4 = ''4112'', tr_status = ''SETTLED''\<rparr>,
      \<lparr>tr_institution_id = inst, tr_member_id = ''8830142'', tr_txn_id = ''TXN-99088'', tr_posted_at = ''2026-08-28 09:15:00'',
       tr_description = ''GROCERY MARKET'', tr_amount = ''85.20'', tr_card_last4 = ''4112'', tr_status = ''SETTLED''\<rparr>,
      \<lparr>tr_institution_id = inst, tr_member_id = ''8830124'', tr_txn_id = ''TXN-99042'', tr_posted_at = ''2026-08-25 11:05:12'',
       tr_description = ''COFFEE SHOP'', tr_amount = ''4.50'', tr_card_last4 = ''8890'', tr_status = ''SETTLED''\<rparr>]"

definition seed :: "(core_bank, unit) prog" where
  "seed = change (\<lambda>s. let inst = bk_institution_id s in
     s\<lparr>bk_history := filter (\<lambda>e. ce_institution_id e \<noteq> inst) (bk_history s),
       bk_credits := filter (\<lambda>r. rw_institution_id r \<noteq> inst) (bk_credits s),
       bk_transactions := filter (\<lambda>r. tr_institution_id r \<noteq> inst) (bk_transactions s) @ seed_transactions inst,
       bk_members := filter (\<lambda>r. mr_institution_id r \<noteq> inst) (bk_members s) @ seed_members inst,
       bk_session_valid := True, bk_require_compliance := False, bk_compliance_cleared := False, bk_latency_ms := 0,
       bk_post_commit_delay_ms := 0, bk_fail_credit_lookup := False\<rparr>)"

text \<open>A new object on a database without members of its institution is seeded.\<close>

definition open_bank :: "string \<Rightarrow> core_bank \<Rightarrow> (core_bank, unit) prog" where
  "open_bank inst stored =
     andthen (change (\<lambda>_. stored\<lparr>bk_institution_id := inst, bk_session_valid := True, bk_require_compliance := False,
        bk_compliance_cleared := False, bk_latency_ms := 0, bk_post_commit_delay_ms := 0, bk_fail_credit_lookup := False\<rparr>)) (
     bnd read_members (\<lambda>ms. if ms = [] then seed else ret ()))"

section \<open>Posting keeps the contract\<close>

definition posts :: "posting \<Rightarrow> provisional_credit \<Rightarrow> bool" where
  "posts q c \<longleftrightarrow> (case parse_money (cq_amount q) of Inl e \<Rightarrow> False | Inr amount \<Rightarrow> same_credit q amount c)"

definition credit_key :: "credit_row \<Rightarrow> string \<times> string" where
  "credit_key r = (rw_institution_id r, rw_case_id r)"

definition credit_event_key :: "credit_event \<Rightarrow> string \<times> string" where
  "credit_event_key e = (ce_institution_id e, ce_case_id e)"

lemma credit_stored [simp]:
  "m_cents (pv_amount c) \<le> max_money_cents \<Longrightarrow> credit_from_row (row_of_credit c) = Inr c"
  by (simp add: credit_from_row_def row_of_credit_def parse_money_money_text)

text \<open>What an insertion does to the tables, if the balance of the member can be read.\<close>

lemma insert_credit_run:
  assumes "m_cents amount \<le> max_money_cents"
  shows "(\<exists>balance r e v t. insert_credit ch inst q amount member s = (Ret v, t) \<and> parse_money (VStr (mr_balance member)) = Inr balance \<and>
      bk_credits t = bk_credits s @ [r] \<and> bk_history t = bk_history s @ [e] \<and>
      bk_members t = update_where (of_member inst (cq_member_id q)) (\<lambda>r. r\<lparr>mr_balance := money_text (add_money balance amount)\<rparr>) (bk_members s) \<and>
      bk_transactions t = bk_transactions s \<and> bk_institution_id t = bk_institution_id s \<and>
      credit_key r = (inst, cq_case_id q) \<and> rw_member_id r = cq_member_id q \<and> credit_event_key e = (inst, cq_case_id q) \<and>
      credit_from_row r = Inr v \<and> same_credit q amount v \<and> pv_amount v = amount) \<or>
    (\<exists>e t. insert_credit ch inst q amount member s = (Raise e, t) \<and> parse_money (VStr (mr_balance member)) = Inl e)"
proof (cases "parse_money (VStr (mr_balance member))")
  case (Inl e)
  then show ?thesis by (simp add: insert_credit_def randint_def stamp_def bnd_def andthen_def Let_def)
next
  case (Inr balance)
  let ?c = "\<lparr>pv_credit_id = ''CRD-'' @ str_nat (ch_int ch (sim_draws s) 10000 99999), pv_case_id = cq_case_id q,
     pv_member_id = cq_member_id q, pv_account_id = mr_account_id member, pv_amount = amount,
     pv_memo_code = ''MC-'' @ str_nat (ch_int ch (Suc (sim_draws s)) 7000 7999),
     pv_posted_at = utc_label (utc (ch_now ch (Suc (Suc (sim_draws s))))), pv_status = ''POSTED'', pv_currency = cq_currency q,
     pv_business_reference = or_case (cq_business_reference q) (cq_case_id q), pv_institution_id = inst\<rparr>"
  have c: "credit_from_row (row_of_credit ?c) = Inr ?c" "credit_key (row_of_credit ?c) = (inst, cq_case_id q)"
    "rw_member_id (row_of_credit ?c) = cq_member_id q" "same_credit q amount ?c"
    using assms by (simp_all add: credit_key_def same_credit_def money_eq_def) (simp_all add: row_of_credit_def)
  show ?thesis using Inr c
    by (simp add: insert_credit_def randint_def stamp_def bnd_def andthen_def Let_def credit_event_key_def)
qed

lemma post_credit_known:
  assumes "select_first (\<lambda>r. credit_key r = (inst, cq_case_id q)) (bk_credits s) = Some row"
    and "parse_money (cq_amount q) = Inr amount" and "credit_from_row row = Inr c"
  shows "post_credit_at ch inst q s = (if same_credit q amount c then (Ret c, s)
     else (Raise (ValueError (fstr [''Case '', cq_case_id q, '' already has a different credit identity''])), s))"
  using assms by (simp add: post_credit_at_def transaction_def bnd_def andthen_def unless_raise_def credit_key_def)

text \<open>What a posting without a record does: it takes the member's row, and writes all or nothing.\<close>

lemma post_credit_new:
  assumes new: "select_first (\<lambda>r. credit_key r = (inst, cq_case_id q)) (bk_credits s) = None"
    and run: "post_credit_at ch inst q s = (x, t)"
  obtains (posted) amount member balance r e v where "parse_money (cq_amount q) = Inr amount"
      "select_first (of_member inst (cq_member_id q)) (bk_members s) = Some member"
      "parse_money (VStr (mr_balance member)) = Inr balance" "x = Ret v" "credit_from_row r = Inr v" "same_credit q amount v"
      "pv_amount v = amount" "credit_key r = (inst, cq_case_id q)" "rw_member_id r = cq_member_id q"
      "credit_event_key e = (inst, cq_case_id q)" "bk_credits t = bk_credits s @ [r]" "bk_history t = bk_history s @ [e]"
      "bk_members t = update_where (of_member inst (cq_member_id q)) (\<lambda>r. r\<lparr>mr_balance := money_text (add_money balance amount)\<rparr>) (bk_members s)"
      "bk_transactions t = bk_transactions s" "bk_institution_id t = bk_institution_id s"
    | (refused) e where "x = Raise e" "t = s\<lparr>sim_draws := sim_draws t\<rparr>"
      "\<And>amount member balance. parse_money (cq_amount q) = Inr amount \<Longrightarrow>
         select_first (of_member inst (cq_member_id q)) (bk_members s) = Some member \<Longrightarrow> parse_money (VStr (mr_balance member)) \<noteq> Inr balance"
proof (cases "parse_money (cq_amount q)")
  case (Inl e)
  then have "x = Raise e" "t = s" using run by (simp_all add: post_credit_at_def)
  then show thesis using that(2) Inl by simp
next
  case (Inr amount)
  note new' = new [unfolded credit_key_def]
  show thesis
  proof (cases "select_first (of_member inst (cq_member_id q)) (bk_members s)")
    case None
    then have "x = Raise (ValueError (fstr [''Member '', cq_member_id q, '' not found'']))" "t = s"
      using run Inr new' by (simp_all add: post_credit_at_def transaction_def bnd_def)
    then show thesis using that(2) None by simp
  next
    case (Some member)
    have eq: "post_credit_at ch inst q s = transaction (insert_credit ch inst q amount member) s"
      using Inr new' Some by (simp add: post_credit_at_def transaction_def bnd_def)
    from insert_credit_run [OF parse_money_le [OF Inr], of ch inst q member s] show thesis
    proof (elim disjE exE conjE)
      fix balance r e v t'
      assume "insert_credit ch inst q amount member s = (Ret v, t')"
      then have "x = Ret v" "t' = t" using run eq by (simp_all add: transaction_def)
      moreover assume "parse_money (VStr (mr_balance member)) = Inr balance" "bk_credits t' = bk_credits s @ [r]"
        "bk_history t' = bk_history s @ [e]"
        "bk_members t' = update_where (of_member inst (cq_member_id q)) (\<lambda>r. r\<lparr>mr_balance := money_text (add_money balance amount)\<rparr>) (bk_members s)"
        "bk_transactions t' = bk_transactions s" "bk_institution_id t' = bk_institution_id s"
        "credit_key r = (inst, cq_case_id q)" "rw_member_id r = cq_member_id q" "credit_event_key e = (inst, cq_case_id q)"
        "credit_from_row r = Inr v" "same_credit q amount v" "pv_amount v = amount"
      ultimately show thesis using that(1) Inr Some by blast
    next
      fix e t' assume unread: "parse_money (VStr (mr_balance member)) = Inl e" and "insert_credit ch inst q amount member s = (Raise e, t')"
      then have "x = Raise e" "t = s\<lparr>sim_draws := sim_draws t\<rparr>" using run eq by (auto simp: transaction_def)
      then show thesis
        by (rule that(2)) (use unread Some in auto)
    qed
  qed
qed

interpretation bank_credits: effect_store bk_credits bk_history credit_key credit_event_key credit_from_row
  "\<lambda>q. (inst, cq_case_id q)" posts "post_credit_at ch inst"
proof unfold_locales
  fix q :: posting and s t :: core_bank and row x
  assume known: "select_first (\<lambda>r. credit_key r = (inst, cq_case_id q)) (bk_credits s) = Some row"
    and run: "post_credit_at ch inst q s = (x, t)"
  note known' = known [unfolded credit_key_def]
  show "bk_credits t = bk_credits s \<and> bk_history t = bk_history s \<and> (\<forall>v. x = Ret v \<longrightarrow> credit_from_row row = Inr v \<and> posts q v)"
  proof (cases "parse_money (cq_amount q)")
    case (Inr amount)
    show ?thesis
    proof (cases "credit_from_row row")
      case (Inr c)
      then show ?thesis
        using run post_credit_known [OF known \<open>parse_money (cq_amount q) = Inr amount\<close> Inr, of ch] \<open>parse_money (cq_amount q) = Inr amount\<close>
        by (auto simp: posts_def split: if_splits)
    qed (use run known' Inr in \<open>auto simp: post_credit_at_def transaction_def bnd_def\<close>)
  qed (use run in \<open>auto simp: post_credit_at_def\<close>)
next
  fix q :: posting and s :: core_bank and row v
  assume "select_first (\<lambda>r. credit_key r = (inst, cq_case_id q)) (bk_credits s) = Some row"
    and "credit_from_row row = Inr v" and "posts q v"
  then show "\<exists>t. post_credit_at ch inst q s = (Ret v, t)"
    by (auto simp: posts_def post_credit_known split: sum.splits)
next
  fix q :: posting and s t :: core_bank and x
  assume "select_first (\<lambda>r. credit_key r = (inst, cq_case_id q)) (bk_credits s) = None"
    and run: "post_credit_at ch inst q s = (x, t)"
  then show "(\<exists>r e v. x = Ret v \<and> bk_credits t = bk_credits s @ [r] \<and> bk_history t = bk_history s @ [e] \<and>
        credit_key r = (inst, cq_case_id q) \<and> credit_event_key e = (inst, cq_case_id q) \<and> credit_from_row r = Inr v \<and> posts q v) \<or>
      (bk_credits t = bk_credits s \<and> bk_history t = bk_history s \<and> (\<forall>v. x \<noteq> Ret v))"
  proof (cases rule: post_credit_new)
    case (posted amount member balance r e v)
    then show ?thesis by (auto simp: posts_def)
  next
    case (refused e)
    have "bk_credits t = bk_credits s" "bk_history t = bk_history s" by (subst refused(2), simp)+
    then show ?thesis using refused(1) by simp
  qed
qed

end
