(* ===== verification/BankRoutes.thy ===== *)
theory BankRoutes
  imports CoreBank
begin

text \<open>
  The consoles of the two institutions, \<open>simulators/core_bank/app.py\<close> and \<open>beta_app.py\<close>:
  inquiry, management, confirmation and commit.  \<open>bank_calls\<close> gathers them, and every
  call keeps the books: a member's balance is its opening balance plus the credits
  recorded for the member, and each recorded credit has one entry in the history.
\<close>

section \<open>Inquiries\<close>

definition alpha_member_answer :: "bank_member \<Rightarrow> dict" where
  "alpha_member_answer m =
     [(''member_id'', VStr (bm_member_id m)), (''name'', VStr (fstr [bm_first_name m, '' '', bm_last_name m])),
      (''account_id'', VStr (bm_account_id m)), (''balance'', money_val (bm_balance m)),
      (''transactions_count'', VInt (int (length (bm_transactions m))))]"

definition api_get_member :: "web \<Rightarrow> string \<Rightarrow> (core_bank, response) prog" where
  "api_get_member wb mid = bnd read_members (\<lambda>ms. case map_of ms mid of
       None \<Rightarrow> ret (json_answer wb 404 [(''error'', VStr ''Member not found'')])
     | Some m \<Rightarrow> ret (json_answer wb 200 (alpha_member_answer m)))"

definition alpha_credit_answer :: "provisional_credit \<Rightarrow> nat \<Rightarrow> dict" where
  "alpha_credit_answer c n =
     [(''case_id'', VStr (pv_case_id c)), (''member_id'', VStr (pv_member_id c)), (''account_id'', VStr (pv_account_id c)),
      (''amount'', money_val (pv_amount c)), (''currency'', VStr (pv_currency c)),
      (''business_reference'', VStr (pv_business_reference c)), (''institution_id'', VStr (pv_institution_id c)),
      (''procedure_id'', VStr ''reg_e_dispute''), (''capability_id'', VStr ''core.post_provisional_credit''),
      (''memo_code'', VStr (pv_memo_code c)), (''posted_at'', VStr (pv_posted_at c)), (''status'', VStr (pv_status c)),
      (''effect_count'', VInt (int n))]"

definition api_get_credits :: "web \<Rightarrow> string \<Rightarrow> (core_bank, response) prog" where
  "api_get_credits wb cid =
     bnd (find_credit_by_case cid) (\<lambda>found. case found of
       None \<Rightarrow> ret (json_answer wb 404 [(''error'', VStr ''No credit found for case'')])
     | Some c \<Rightarrow> bnd (gets bk_fail_credit_lookup) (\<lambda>failing.
         if failing then ret (json_answer wb 503 [(''error'', VStr ''Credit inquiry unavailable'')])
         else bnd (gets (credit_count cid)) (\<lambda>n. ret (json_answer wb 200 (alpha_credit_answer c n)))))"

definition beta_member_answer :: "bank_member \<Rightarrow> dict" where
  "beta_member_answer m =
     [(''member_id'', VStr (bm_member_id m)), (''account_id'', VStr (bm_account_id m)), (''balance'', money_val (bm_balance m)),
      (''institution_id'', VStr ''beta'')]"

definition beta_get_member :: "web \<Rightarrow> string \<Rightarrow> (core_bank, response) prog" where
  "beta_get_member wb mid = bnd read_members (\<lambda>ms. case map_of ms mid of
       None \<Rightarrow> ret (json_answer wb 404 [(''error'', VStr ''Member not found'')])
     | Some m \<Rightarrow> ret (json_answer wb 200 (beta_member_answer m)))"

definition beta_credit_answer :: "provisional_credit \<Rightarrow> nat \<Rightarrow> dict" where
  "beta_credit_answer c n =
     [(''case_id'', VStr (pv_case_id c)), (''member_id'', VStr (pv_member_id c)), (''account_id'', VStr (pv_account_id c)),
      (''amount'', money_val (pv_amount c)), (''currency'', VStr (pv_currency c)),
      (''business_reference'', VStr (pv_business_reference c)), (''institution_id'', VStr ''beta''),
      (''procedure_id'', VStr ''reg_e_dispute''), (''capability_id'', VStr ''core.post_provisional_credit''),
      (''memo_code'', VStr (pv_memo_code c)), (''status'', VStr (pv_status c)), (''effect_count'', VInt (int n))]"

definition beta_get_credit :: "web \<Rightarrow> string \<Rightarrow> (core_bank, response) prog" where
  "beta_get_credit wb cid =
     bnd (find_credit_by_case cid) (\<lambda>found. case found of
       None \<Rightarrow> ret (json_answer wb 404 [(''error'', VStr ''No credit found for case'')])
     | Some c \<Rightarrow> bnd (gets (credit_count cid)) (\<lambda>n. ret (json_answer wb 200 (beta_credit_answer c n))))"

section \<open>Management\<close>

definition ok_answer :: "web \<Rightarrow> dict \<Rightarrow> response" where
  "ok_answer wb d = json_answer wb 200 ((''status'', VStr ''ok'') # d)"

definition api_reset :: "settings \<Rightarrow> web \<Rightarrow> form_request \<Rightarrow> (core_bank, response) prog" where
  "api_reset cfg wb rq = guarded_route cfg wb rq (
     andthen seed (ret (ok_answer wb [(''message'', VStr ''Core bank simulator state reset to initial seed'')])))"

definition beta_reset :: "settings \<Rightarrow> web \<Rightarrow> form_request \<Rightarrow> (core_bank, response) prog" where
  "beta_reset cfg wb rq = guarded_route cfg wb rq (andthen seed (ret (ok_answer wb [(''institution_id'', VStr ''beta'')])))"

definition api_set_compliance :: "settings \<Rightarrow> web \<Rightarrow> form_request \<Rightarrow> bool \<Rightarrow> (core_bank, response) prog" where
  "api_set_compliance cfg wb rq required = guarded_route cfg wb rq (
     andthen (change (\<lambda>s. s\<lparr>bk_require_compliance := required, bk_compliance_cleared := False\<rparr>))
       (ret (ok_answer wb [(''require_compliance_interstitial'', VBool required)])))"

definition api_set_session :: "settings \<Rightarrow> web \<Rightarrow> form_request \<Rightarrow> bool \<Rightarrow> (core_bank, response) prog" where
  "api_set_session cfg wb rq valid = guarded_route cfg wb rq (
     andthen (change (\<lambda>s. s\<lparr>bk_session_valid := valid\<rparr>)) (ret (ok_answer wb [(''session_valid'', VBool valid)])))"

definition api_set_credit_lookup_failure :: "settings \<Rightarrow> web \<Rightarrow> form_request \<Rightarrow> bool \<Rightarrow> (core_bank, response) prog" where
  "api_set_credit_lookup_failure cfg wb rq failing = guarded_route cfg wb rq (
     andthen (change (\<lambda>s. s\<lparr>bk_fail_credit_lookup := failing\<rparr>)) (ret (ok_answer wb [(''fail_credit_lookup_when_present'', VBool failing)])))"

definition api_set_post_commit_delay :: "settings \<Rightarrow> web \<Rightarrow> form_request \<Rightarrow> int \<Rightarrow> (core_bank, response) prog" where
  "api_set_post_commit_delay cfg wb rq ms = guarded_route cfg wb rq (
     andthen (change (\<lambda>s. s\<lparr>bk_post_commit_delay_ms := ms\<rparr>)) (ret (ok_answer wb [(''simulate_post_commit_delay_ms'', VInt ms)])))"

definition clear_compliance :: "settings \<Rightarrow> web \<Rightarrow> form_request \<Rightarrow> (core_bank, response) prog" where
  "clear_compliance cfg wb rq = guarded_route cfg wb rq (
     with_field wb rq ''member_id'' (\<lambda>mid. andthen (change (\<lambda>s. s\<lparr>bk_compliance_cleared := True\<rparr>)) (ret (html_page 200))))"

section \<open>Entry, confirmation and commit\<close>

definition dynamic_id :: "chance \<Rightarrow> string \<Rightarrow> (core_bank, string) prog" where
  "dynamic_id ch stem = bnd (randint ch 100000 999999) (\<lambda>n. ret (fstr [stem, ''_'', str_nat n]))"

definition behind_session :: "(core_bank, response) prog \<Rightarrow> (core_bank, response) prog" where
  "behind_session p = bnd (gets bk_session_valid) (\<lambda>valid. if valid then p else ret (html_page 401))"

text \<open>The entry page is the compliance panel instead of the form while a sign-off is due; the
  flag of the result says which.\<close>

definition workspace_credit_entry :: "chance \<Rightarrow> string \<Rightarrow> (core_bank, response \<times> bool) prog" where
  "workspace_credit_entry ch mid =
     bnd (gets bk_session_valid) (\<lambda>valid. if \<not> valid then ret (html_page 401, False) else
     bnd read_members (\<lambda>ms. case map_of ms mid of
         None \<Rightarrow> ret (html_page 404, False)
       | Some m \<Rightarrow> bnd (gets (\<lambda>s. bk_require_compliance s \<and> \<not> bk_compliance_cleared s)) (\<lambda>due.
           if due then andthen (dynamic_id ch ''btn_clear_compliance'') (ret (html_page 200, False))
           else andthen (dynamic_id ch ''credit_form'') (andthen (dynamic_id ch ''case_ref'') (
             andthen (dynamic_id ch ''credit_amount'') (andthen (dynamic_id ch ''credit_memo'') (
             andthen (dynamic_id ch ''btn_proceed_confirm'') (ret (html_page 200, True)))))))))"

text \<open>The form that the button of the confirmation page sends.\<close>

definition confirm_form :: "settings \<Rightarrow> string \<Rightarrow> string \<Rightarrow> string \<Rightarrow> val \<Rightarrow> (string \<times> string) list" where
  "confirm_form cfg mid account cid amount =
     [(''institution_id'', ''alpha''), (''member_id'', mid), (''account_id'', account), (''case_id'', cid),
      (''amount'', py_str amount), (''currency'', ''USD''), (''admin_token'', tandem_admin_token cfg)]"

definition workspace_credit_confirm :: "settings \<Rightarrow> web \<Rightarrow> chance \<Rightarrow> form_request \<Rightarrow> (core_bank, response) prog" where
  "workspace_credit_confirm cfg wb ch rq = guarded_route cfg wb rq (
     with_field wb rq ''member_id'' (\<lambda>mid. with_field wb rq ''account_id'' (\<lambda>account.
     with_field wb rq ''case_id'' (\<lambda>cid. with_decimal wb rq ''amount'' (\<lambda>amount.
       behind_session (bnd read_members (\<lambda>ms. case map_of ms mid of
         None \<Rightarrow> ret (html_page 404)
       | Some m \<Rightarrow> andthen (dynamic_id ch ''btn_commit_credit'') (andthen (dynamic_id ch ''commit_scope_container'')
           (ret (html_page 200))))))))))"

text \<open>What the commit route does inside its \<open>try\<close>.\<close>

definition post_bound_credit ::
  "chance \<Rightarrow> string \<Rightarrow> string \<Rightarrow> string \<Rightarrow> string \<Rightarrow> val \<Rightarrow> string \<Rightarrow> (core_bank, provisional_credit) prog" where
  "post_bound_credit ch inst mid account cid amount currency =
     bnd read_members (\<lambda>ms.
     andthen (unless_raise (inst = ''alpha'') (ValueError ''Institution binding mismatch'')) (
     andthen (unless_raise (case map_of ms mid of None \<Rightarrow> False | Some m \<Rightarrow> account = bm_account_id m)
       (ValueError ''Account binding mismatch'')) (
     andthen (unless_raise (currency = ''USD'') (ValueError ''Currency binding mismatch'')) (
     bnd (post_credit ch \<lparr>cq_case_id = cid, cq_member_id = mid, cq_amount = amount, cq_currency = currency,
        cq_business_reference = Some cid, cq_institution_id = None\<rparr>) (\<lambda>credit.
     bnd read_members (\<lambda>ms'. case map_of ms' mid of None \<Rightarrow> fail (KeyError (repr_str mid)) | Some m \<Rightarrow> ret credit))))))"

definition workspace_credit_commit :: "settings \<Rightarrow> web \<Rightarrow> chance \<Rightarrow> form_request \<Rightarrow> (core_bank, response) prog" where
  "workspace_credit_commit cfg wb ch rq = guarded_route cfg wb rq (
     with_field wb rq ''institution_id'' (\<lambda>inst. with_field wb rq ''member_id'' (\<lambda>mid.
     with_field wb rq ''account_id'' (\<lambda>account. with_field wb rq ''case_id'' (\<lambda>cid.
     with_decimal wb rq ''amount'' (\<lambda>amount. with_field wb rq ''currency'' (\<lambda>currency.
       behind_session (catch (\<lambda>_. True)
         (andthen (post_bound_credit ch inst mid account cid amount currency) (ret (html_page 200)))
         (\<lambda>e. ret (html_page 400))))))))))"

definition beta_confirm :: "settings \<Rightarrow> web \<Rightarrow> chance \<Rightarrow> form_request \<Rightarrow> (core_bank, response) prog" where
  "beta_confirm cfg wb ch rq = guarded_route cfg wb rq (
     with_field wb rq ''institution_id'' (\<lambda>inst. with_field wb rq ''member_id'' (\<lambda>mid.
     with_field wb rq ''account_id'' (\<lambda>account. with_field wb rq ''case_id'' (\<lambda>cid.
     with_decimal wb rq ''amount'' (\<lambda>amount. with_field wb rq ''currency'' (\<lambda>currency.
       if inst \<noteq> ''beta'' then ret (html_page 400)
       else andthen (randint ch 10000 99999) (ret (html_page 200)))))))))"

definition beta_commit :: "settings \<Rightarrow> web \<Rightarrow> chance \<Rightarrow> form_request \<Rightarrow> (core_bank, response) prog" where
  "beta_commit cfg wb ch rq = guarded_route cfg wb rq (
     with_field wb rq ''institution_id'' (\<lambda>inst. with_field wb rq ''member_id'' (\<lambda>mid.
     with_field wb rq ''account_id'' (\<lambda>account. with_field wb rq ''case_id'' (\<lambda>cid.
     with_decimal wb rq ''amount'' (\<lambda>amount. with_field wb rq ''currency'' (\<lambda>currency.
       if inst \<noteq> ''beta'' then ret (html_page 400)
       else bnd read_members (\<lambda>ms.
         if (case map_of ms mid of None \<Rightarrow> True | Some m \<Rightarrow> bm_account_id m \<noteq> account) then ret (html_page 400)
         else andthen (post_credit ch \<lparr>cq_case_id = cid, cq_member_id = mid, cq_amount = amount, cq_currency = currency,
            cq_business_reference = Some cid, cq_institution_id = None\<rparr>) (ret (html_page 200))))))))))"

section \<open>The books\<close>

text \<open>What was recorded for a member, in cents.\<close>

definition row_cents :: "credit_row \<Rightarrow> int" where
  "row_cents r = (case parse_money (VStr (rw_amount r)) of Inl e \<Rightarrow> 0 | Inr amount \<Rightarrow> cents amount)"

definition credited :: "credit_row list \<Rightarrow> string \<times> string \<Rightarrow> int" where
  "credited rows k = (\<Sum>r \<leftarrow> filter (\<lambda>r. (rw_institution_id r, rw_member_id r) = k) rows. row_cents r)"

definition member_key :: "member_row \<Rightarrow> string \<times> string" where
  "member_key r = (mr_institution_id r, mr_member_id r)"

definition balanced :: "(string \<times> string \<Rightarrow> int) \<Rightarrow> credit_row list \<Rightarrow> member_row \<Rightarrow> bool" where
  "balanced opening rows r \<longleftrightarrow>
     (\<exists>b. mr_balance r = money_text b \<and> m_cents b \<le> 2 * max_money_cents \<and> cents b = opening (member_key r) + credited rows (member_key r))"

definition books_ok :: "(string \<times> string \<Rightarrow> int) \<Rightarrow> core_bank \<Rightarrow> bool" where
  "books_ok opening s \<longleftrightarrow> unique_on member_key (bk_members s) \<and> (\<forall>r \<in> set (bk_members s). balanced opening (bk_credits s) r) \<and>
     bank_credits.store_ok s"

lemma cents_add_money [simp]: "cents (add_money a b) = cents a + cents b"
  by (auto simp: add_money_def cents_def Let_def)

lemma add_money_bound:
  "m_cents a \<le> max_money_cents \<Longrightarrow> m_cents b \<le> max_money_cents \<Longrightarrow> m_cents (add_money a b) \<le> 2 * max_money_cents"
  by (auto simp: add_money_def cents_def Let_def)

lemma of_member_key: "of_member inst mid r \<longleftrightarrow> member_key r = (inst, mid)"
  by (simp add: of_member_def member_key_def)

lemma credited_snoc [simp]: "credited (rows @ [r]) k = credited rows k + (if (rw_institution_id r, rw_member_id r) = k then row_cents r else 0)"
  by (simp add: credited_def)

lemma post_credit_books:
  assumes books: "books_ok opening s" and run: "post_credit_at ch inst q s = (x, t)"
  shows "books_ok opening t"
proof -
  have store: "bank_credits.store_ok t"
    using bank_credits.store_ok_act [OF _ run] books by (simp add: books_ok_def)
  show ?thesis
  proof (cases "select_first (\<lambda>r. credit_key r = (inst, cq_case_id q)) (bk_credits s)")
    case (Some row)
    have "bk_credits t = bk_credits s \<and> bk_members t = bk_members s"
    proof (cases "parse_money (cq_amount q)")
      case (Inr amount)
      then show ?thesis using run Some post_credit_known [OF Some Inr]
        by (cases "credit_from_row row") (auto simp: post_credit_at_def transaction_def bnd_def credit_key_def split: if_splits)
    qed (use run in \<open>auto simp: post_credit_at_def\<close>)
    then show ?thesis using books store by (simp add: books_ok_def)
  next
    case None
    from None run show ?thesis
    proof (cases rule: post_credit_new)
      case (posted amount member balance r e v)
      have r: "row_cents r = cents amount" "(rw_institution_id r, rw_member_id r) = (inst, cq_member_id q)"
        using posted(5,7-9) by (auto simp: row_cents_def credit_from_row_def rbind_eq_Inr credit_key_def)
      have unique: "unique_on member_key (bk_members t)"
        unfolding posted(13) by (rule unique_on_update_where) (use books in \<open>auto simp: books_ok_def member_key_def\<close>)
      have member: "member \<in> set (bk_members s)" "member_key member = (inst, cq_member_id q)"
        using select_first_Some [OF posted(2)] by (auto simp: of_member_key)
      have "balanced opening (bk_credits t) m" if "m \<in> set (bk_members t)" for m
      proof -
        from that consider (same) "m \<in> set (bk_members s)" "member_key m \<noteq> (inst, cq_member_id q)"
          | (paid) m0 where "m0 \<in> set (bk_members s)" "member_key m0 = (inst, cq_member_id q)"
              "m = m0\<lparr>mr_balance := money_text (add_money balance amount)\<rparr>"
          unfolding posted(13) set_update_where of_member_key by blast
        then show ?thesis
        proof cases
          case same
          then show ?thesis using books r(2) by (auto simp: books_ok_def balanced_def posted(11))
        next
          case paid
          have "m0 = member" using books member paid(1,2) by (auto simp: books_ok_def intro: unique_on_eq)
          moreover obtain b where b: "mr_balance member = money_text b" "m_cents b \<le> 2 * max_money_cents" "cents b = opening (inst, cq_member_id q) + credited (bk_credits s) (inst, cq_member_id q)"
            using books member by (auto simp: books_ok_def balanced_def)
          moreover have "balance = b"
            using posted(3) b(2) unfolding b(1) by (intro read_money_text) (simp_all add: max_money_cents_def)
          moreover have "m_cents (add_money balance amount) \<le> 2 * max_money_cents"
            using parse_money_le posted(1,3) by (intro add_money_bound) blast+
          moreover have "member_key m = (inst, cq_member_id q)" using paid(2,3) by (simp add: member_key_def)
          ultimately show ?thesis using paid(3) r by (auto simp: balanced_def posted(11) intro!: exI [of _ "add_money balance amount"])
        qed
      qed
      then show ?thesis using unique store by (simp add: books_ok_def)
    next
      case (refused e)
      have "bk_credits t = bk_credits s" "bk_members t = bk_members s" by (subst refused(2), simp)+
      then show ?thesis using books store by (simp add: books_ok_def)
    qed
  qed
qed

text \<open>The opening balances of the seed.\<close>

definition opening_balance :: "string \<times> string \<Rightarrow> int" where
  "opening_balance k = (if snd k = ''8830142'' then 124050 else if snd k = ''8830124'' then 41025 else 0)"

lemma books_ok_same:
  assumes "bk_members t = bk_members s" and "bk_credits t = bk_credits s" and "bk_history t = bk_history s"
  shows "books_ok opening t = books_ok opening s"
  using assms by (simp add: books_ok_def bank_credits.store_ok_def bank_credits.count_def bank_credits.recorded_def)

lemma select_first_filter:
  "select_first P (filter Q xs) = select_first (\<lambda>x. Q x \<and> P x) xs"
  by (induction xs) auto

lemma seed_store:
  assumes "bank_credits.store_ok s" and "seed s = (x, t)"
  shows "bank_credits.store_ok t"
proof -
  let ?inst = "bk_institution_id s"
  have t: "bk_credits t = filter (\<lambda>r. rw_institution_id r \<noteq> ?inst) (bk_credits s)"
    "bk_history t = filter (\<lambda>e. ce_institution_id e \<noteq> ?inst) (bk_history s)"
    using assms(2) by (auto simp: seed_def Let_def)
  have "unique_on credit_key (bk_credits t)"
    unfolding t unique_on_def using assms(1)
    by (auto simp: bank_credits.store_ok_def unique_on_def distinct_map_filter)
  moreover have "bank_credits.count t k = (if bank_credits.recorded t k = None then 0 else 1)" for k
  proof (cases "fst k = ?inst")
    case True
    then have "bank_credits.recorded t k = None" "bank_credits.count t k = 0"
      by (auto simp: bank_credits.recorded_def bank_credits.count_def t select_first_None filter_empty_conv credit_key_def credit_event_key_def)
    then show ?thesis by simp
  next
    case False
    then have "(\<lambda>r. rw_institution_id r \<noteq> ?inst \<and> credit_key r = k) = (\<lambda>r. credit_key r = k)"
      "(\<lambda>e. ce_institution_id e \<noteq> ?inst \<and> credit_event_key e = k) = (\<lambda>e. credit_event_key e = k)"
      by (auto simp: credit_key_def credit_event_key_def fun_eq_iff)
    then have "bank_credits.recorded t k = bank_credits.recorded s k" "bank_credits.count t k = bank_credits.count s k"
      by (simp_all add: bank_credits.recorded_def bank_credits.count_def t select_first_filter conj_commute)
    then show ?thesis using assms(1) by (cases k) (simp add: bank_credits.store_ok_def)
  qed
  ultimately show ?thesis by (simp add: bank_credits.store_ok_def)
qed

lemma credited_other_institution:
  "fst k \<noteq> inst \<Longrightarrow> credited (filter (\<lambda>r. rw_institution_id r \<noteq> inst) rows) k = credited rows k"
  "fst k = inst \<Longrightarrow> credited (filter (\<lambda>r. rw_institution_id r \<noteq> inst) rows) k = 0"
  by (induction rows) (auto simp: credited_def)

lemma keeps_seed: "keeps (books_ok opening_balance) seed"
proof (rule keepsI)
  fix s :: core_bank assume books: "books_ok opening_balance s"
  define t where "t = snd (seed s)"
  let ?inst = "bk_institution_id s" and ?rest = "filter (\<lambda>r. rw_institution_id r \<noteq> bk_institution_id s) (bk_credits s)"
  have t: "bk_members t = filter (\<lambda>r. mr_institution_id r \<noteq> ?inst) (bk_members s) @ seed_members ?inst" "bk_credits t = ?rest"
    by (simp_all add: t_def seed_def Let_def)
  have store: "bank_credits.store_ok t"
    using seed_store [of s] books by (simp add: books_ok_def t_def prod_eq_iff)
  have stored: "''1240.50'' = money_text (Money False 124050)" "''410.25'' = money_text (Money False 41025)"
    by (simp_all add: money_text_def two_digits_def str_nat.simps)
  have "unique_on member_key (bk_members t)"
    unfolding t using books by (auto simp: books_ok_def unique_on_def distinct_map_filter seed_members_def member_key_def)
  moreover have "balanced opening_balance (bk_credits t) r" if "r \<in> set (bk_members t)" for r
  proof (cases "mr_institution_id r = ?inst")
    case True
    then have "r \<in> set (seed_members ?inst)" using that by (auto simp: t)
    then show ?thesis
      by (auto simp: balanced_def t seed_members_def credited_other_institution member_key_def opening_balance_def cents_def max_money_cents_def stored)
  next
    case False
    then have "r \<in> set (bk_members s)" using that by (auto simp: t seed_members_def)
    then have "balanced opening_balance (bk_credits s) r" using books by (simp add: books_ok_def)
    then show ?thesis using False by (simp add: balanced_def t credited_other_institution member_key_def)
  qed
  ultimately show "books_ok opening_balance (snd (seed s))" using store by (simp add: books_ok_def t_def)
qed

section \<open>The consoles\<close>

definition workspace_search :: "chance \<Rightarrow> string \<Rightarrow> (core_bank, response) prog" where
  "workspace_search ch q = behind_session (
     andthen (if q = [] then ret () else bnd (search_members ch q True) (\<lambda>found.
        for_each (\<lambda>m. andthen (dynamic_id ch ''btn_post_cred'') (andthen (dynamic_id ch ''row'') (ret ()))) found)) (
     andthen (dynamic_id ch ''search_input'') (andthen (dynamic_id ch ''search_btn'') (ret (html_page 200)))))"

definition workspace_memos :: "string \<Rightarrow> (core_bank, response \<times> provisional_credit option) prog" where
  "workspace_memos cid = bnd (gets bk_session_valid) (\<lambda>valid. if \<not> valid then ret (html_page 401, None) else
     if cid = [] then ret (html_page 200, None) else bnd (find_credit_by_case cid) (\<lambda>found. ret (html_page 200, found)))"

datatype bank_call =
    Member_inquiry string
  | Credit_inquiry string
  | Memo_page string
  | Search_page string
  | Entry_page string
  | Confirm_page form_request
  | Commit_credit form_request
  | Sign_off form_request
  | Reset_bank form_request
  | Set_compliance form_request bool
  | Set_session form_request bool
  | Set_lookup_failure form_request bool
  | Set_commit_delay form_request int

fun alpha_console :: "settings \<Rightarrow> web \<Rightarrow> chance \<Rightarrow> bank_call \<Rightarrow> (core_bank, response) prog" where
  "alpha_console cfg wb ch (Member_inquiry mid) = api_get_member wb mid"
| "alpha_console cfg wb ch (Credit_inquiry cid) = api_get_credits wb cid"
| "alpha_console cfg wb ch (Memo_page cid) = bnd (workspace_memos cid) (\<lambda>(r, _). ret r)"
| "alpha_console cfg wb ch (Search_page q) = workspace_search ch q"
| "alpha_console cfg wb ch (Entry_page mid) = bnd (workspace_credit_entry ch mid) (\<lambda>(r, _). ret r)"
| "alpha_console cfg wb ch (Confirm_page rq) = workspace_credit_confirm cfg wb ch rq"
| "alpha_console cfg wb ch (Commit_credit rq) = workspace_credit_commit cfg wb ch rq"
| "alpha_console cfg wb ch (Sign_off rq) = clear_compliance cfg wb rq"
| "alpha_console cfg wb ch (Reset_bank rq) = api_reset cfg wb rq"
| "alpha_console cfg wb ch (Set_compliance rq b) = api_set_compliance cfg wb rq b"
| "alpha_console cfg wb ch (Set_session rq b) = api_set_session cfg wb rq b"
| "alpha_console cfg wb ch (Set_lookup_failure rq b) = api_set_credit_lookup_failure cfg wb rq b"
| "alpha_console cfg wb ch (Set_commit_delay rq n) = api_set_post_commit_delay cfg wb rq n"

fun beta_console :: "settings \<Rightarrow> web \<Rightarrow> chance \<Rightarrow> bank_call \<Rightarrow> (core_bank, response) prog" where
  "beta_console cfg wb ch (Member_inquiry mid) = beta_get_member wb mid"
| "beta_console cfg wb ch (Credit_inquiry cid) = beta_get_credit wb cid"
| "beta_console cfg wb ch (Confirm_page rq) = beta_confirm cfg wb ch rq"
| "beta_console cfg wb ch (Commit_credit rq) = beta_commit cfg wb ch rq"
| "beta_console cfg wb ch (Reset_bank rq) = beta_reset cfg wb rq"
| "beta_console cfg wb ch call = ret (no_route wb)"

lemma keeps_books_frame: "(\<And>s. bk_members (f s) = bk_members s \<and> bk_credits (f s) = bk_credits s \<and> bk_history (f s) = bk_history s) \<Longrightarrow>
  keeps (books_ok opening) (change f)"
  by (rule keeps_change) (use books_ok_same in blast)

lemma keeps_books_read [keeps_rules]:
  "keeps I read_members" "keeps (books_ok opening) (draw f)"
proof -
  show "keeps I read_members" by (simp add: keeps_def read_members_def of_res_def split: sum.splits)
  have "books_ok opening (s\<lparr>sim_draws := n\<rparr>) = books_ok opening s" for s n by (rule books_ok_same) simp_all
  then show "keeps (books_ok opening) (draw f)" by (simp add: keeps_def)
qed

lemma keeps_books_post [keeps_rules]: "keeps (books_ok opening) (post_credit ch q)"
  unfolding post_credit_def
  by (intro keeps_rules) (rule keepsI, rule post_credit_books, assumption, rule prod.collapse [symmetric])

lemma keeps_books_ids [keeps_rules]: "keeps (books_ok opening) (randint ch a b)" "keeps (books_ok opening) (dynamic_id ch stem)"
  unfolding dynamic_id_def randint_def by (rule keeps_books_read keeps_bnd keeps_pure)+

lemma keeps_books_search [keeps_rules]: "keeps (books_ok opening) (search_members ch q sh)"
  unfolding search_members_def Let_def by (rule keeps_books_read keeps_bnd keeps_pure keeps_if)+

lemma keeps_find_credit [keeps_rules]: "keeps I (find_credit_by_case cid)"
  unfolding find_credit_by_case_def by (intro keeps_rules)

lemma keeps_behind_session [keeps_rules]: "keeps I p \<Longrightarrow> keeps I (behind_session p)"
  unfolding behind_session_def by (intro keeps_rules)

lemma console_books:
  "keeps (books_ok opening_balance) (alpha_console cfg wb ch call)" "keeps (books_ok opening_balance) (beta_console cfg wb ch call)"
proof -
  note defs = api_get_member_def api_get_credits_def workspace_memos_def workspace_search_def workspace_credit_entry_def
    workspace_credit_confirm_def workspace_credit_commit_def post_bound_credit_def clear_compliance_def api_reset_def
    api_set_compliance_def api_set_session_def api_set_credit_lookup_failure_def api_set_post_commit_delay_def
    beta_get_member_def beta_get_credit_def beta_confirm_def beta_commit_def beta_reset_def
  show "keeps (books_ok opening_balance) (alpha_console cfg wb ch call)"
    by (cases call; simp only: alpha_console.simps defs)
      (intro keeps_rules keeps_seed keeps_books_frame; simp split: prod.split add: keeps_rules)+
  show "keeps (books_ok opening_balance) (beta_console cfg wb ch call)"
    by (cases call; simp only: beta_console.simps defs)
      (intro keeps_rules keeps_seed keeps_books_frame; simp)+
qed

text \<open>
  C13: Whatever is asked of the consoles of the two institutions, the books balance: the
  balance of each member is its opening balance plus the sum of the credits recorded for
  the member, and each recorded credit has exactly one entry in the history of effects.
\<close>

theorem bank_books_balance:
  assumes "books_ok opening_balance s"
    and "alpha_console cfg wb ch call s = (x, t) \<or> beta_console cfg wb ch call s = (x, t)"
  shows "books_ok opening_balance t"
  using assms(2) keepsD_run [OF console_books(1) assms(1)] keepsD_run [OF console_books(2) assms(1)] by blast

section \<open>A balance out of range\<close>

lemma those_res_raises: "Inl e \<in> set xs \<Longrightarrow> \<exists>e'. those_res xs = Inl e'"
proof (induction xs)
  case (Cons x xs)
  then show ?case by (cases x; cases "those_res xs") auto
qed simp

lemma members_row:
  assumes "those_res (map (member_from_row ts) rows) = Inr ms" and "map_of ms mid = Some m"
  shows "\<exists>r. select_first (\<lambda>r. mr_member_id r = mid) rows = Some r \<and> parse_money (VStr (mr_balance r)) = Inr (bm_balance m)"
  using assms
proof (induction rows arbitrary: ms)
  case (Cons r rows)
  then obtain k v ms' where "member_from_row ts r = Inr (k, v)" "those_res (map (member_from_row ts) rows) = Inr ms'" "ms = (k, v) # ms'"
    by (auto simp: rbind_eq_Inr)
  then show ?case using Cons by (cases "k = mid") (auto simp: member_from_row_def rbind_eq_Inr)
qed simp

lemma unreadable_balance:
  "max_money_cents < m_cents b \<Longrightarrow> m_cents b < 10 ^ 20 \<Longrightarrow> \<exists>e. parse_money (VStr (money_text b)) = Inl e"
  using read_money_text [of b] parse_money_le by (cases "parse_money (VStr (money_text b))") fastforce+

text \<open>
  A credit that takes the balance beyond the supported range is committed, after which
  the members of the institution cannot be read any more: the commit route answers that
  the transaction failed although the credit is recorded.
\<close>

theorem credit_beyond_range:
  assumes "members s = Inr ms" and "map_of ms mid = Some m" and "bk_institution_id s = ''alpha''"
    and "select_first (\<lambda>r. credit_key r = (''alpha'', cid)) (bk_credits s) = None"
    and "parse_money amount = Inr a" and "int max_money_cents < \<bar>cents (bm_balance m) + cents a\<bar>"
  shows "\<exists>e t row. post_bound_credit ch ''alpha'' mid (bm_account_id m) cid amount ''USD'' s = (Raise e, t) \<and>
    bk_credits t = bk_credits s @ [row] \<and> rw_case_id row = cid \<and> members t = Inl e"
proof -
  let ?q = "\<lparr>cq_case_id = cid, cq_member_id = mid, cq_amount = amount, cq_currency = ''USD'', cq_business_reference = Some cid,
      cq_institution_id = None\<rparr>"
  let ?rows = "\<lambda>s. filter (\<lambda>r. mr_institution_id r = bk_institution_id s) (bk_members s)"
  obtain ts where ts: "those_res (map transaction_from_row
       (latest_first (filter (\<lambda>r. tr_institution_id r = bk_institution_id s) (bk_transactions s)))) = Inr ts"
    and ms: "those_res (map (member_from_row ts) (?rows s)) = Inr ms"
    using assms(1) by (auto simp: members_def rbind_eq_Inr)
  obtain r where r: "select_first (of_member ''alpha'' mid) (bk_members s) = Some r" "parse_money (VStr (mr_balance r)) = Inr (bm_balance m)"
    using members_row [OF ms assms(2)] by (auto simp: select_first_filter assms(3) of_member_def [abs_def])
  obtain x t where run: "post_credit_at ch ''alpha'' ?q s = (x, t)" by force
  have new: "select_first (\<lambda>r. credit_key r = (''alpha'', cq_case_id ?q)) (bk_credits s) = None" using assms(4) by simp
  from new run show ?thesis
  proof (cases rule: post_credit_new)
    case (posted amount' member balance row ev v)
    have same: "amount' = a" "member = r" "balance = bm_balance m" using posted(1-3) assms(5) r by simp_all
    let ?b = "add_money (bm_balance m) a"
    have b: "max_money_cents < m_cents ?b" "m_cents ?b < 10 ^ 20"
      using assms(6) add_money_bound [OF parse_money_le [OF r(2)] parse_money_le [OF assms(5)]]
      by (auto simp: add_money_def Let_def max_money_cents_def)
    then obtain e where e: "parse_money (VStr (money_text ?b)) = Inl e" using unreadable_balance by blast
    have "r\<lparr>mr_balance := money_text ?b\<rparr> \<in> set (?rows t)"
      using select_first_Some [OF r(1)] by (auto simp: posted(13,15) same assms(3) set_update_where of_member_def)
    then have "Inl e \<in> set (map (member_from_row ts) (?rows t))"
      using e by (force simp: member_from_row_def)
    then obtain e' where "members t = Inl e'"
      using those_res_raises ts by (fastforce simp: members_def posted(14,15))
    moreover have "post_credit ch ?q s = (Ret v, t)" using run posted(4) by (simp add: post_credit_def or_case_def assms(3))
    ultimately show ?thesis using posted(8,11) assms(1,2)
      by (auto simp: post_bound_credit_def read_members_def bnd_def andthen_def unless_raise_def credit_key_def)
  next
    case (refused e)
    then show ?thesis using assms(5) r by auto
  qed
qed

end
