(* ===== verification/Targets.thy ===== *)
theory Targets
  imports Processor Documents BankRoutes
begin

text \<open>
  What Tandem concludes from its targets, for the targets that the repository simulates.
  The locale \<open>inquired_system\<close> is the contract between the checks of \<open>Inquiry\<close> and a system
  that is asked for the record of a case; \<open>actuated_system\<close> adds the post.  Both hold for
  the processor and the document system, the first also for the core banks, when the
  transport is faithful: texts arrive unchanged, amounts below ten trillion dollars too
  (a JSON number is a double), and an exception in a handler is answered with status 500.
\<close>

section \<open>A faithful transport\<close>

definition exact_cents :: nat where "exact_cents = 10 ^ 15"

definition faithful_web :: "web \<Rightarrow> bool" where
  "faithful_web wb \<longleftrightarrow> (\<forall>t. wb_json wb (VStr t) = VStr t) \<and>
     (\<forall>m. m_cents m < exact_cents \<longrightarrow> parse_money (wb_json wb (money_val m)) = Inr m) \<and>
     (\<forall>m a. exact_cents \<le> m_cents m \<and> m_cents m \<le> max_money_cents \<and> parse_money (wb_json wb (money_val m)) = Inr a \<longrightarrow>
        exact_cents \<le> m_cents a) \<and>
     (\<forall>e. status_code (wb_unhandled wb e) = 500)"

lemma faithful_text: "faithful_web wb \<Longrightarrow> wb_json wb (VStr t) = VStr t"
  by (simp add: faithful_web_def)

lemma faithful_amount:
  assumes "faithful_web wb" and "m_cents m \<le> max_money_cents" and "parse_money (wb_json wb (money_val m)) = Inr a"
    and "m_cents a < exact_cents"
  shows "a = m"
proof (cases "m_cents m < exact_cents")
  case True
  then show ?thesis using assms by (simp add: faithful_web_def)
next
  case False
  then have "exact_cents \<le> m_cents a" using assms(1-3) unfolding faithful_web_def by (meson not_le)
  then show ?thesis using assms(4) by simp
qed

lemma faithful_unhandled: "faithful_web wb \<Longrightarrow> status_code (wb_unhandled wb e) = 500"
  by (simp add: faithful_web_def)

section \<open>The contract of an inquiry\<close>

text \<open>A record of the target, as the identity it names and its amount, is the effect of the
  inputs.\<close>

definition is_effect :: "capability \<Rightarrow> dict \<Rightarrow> (string \<times> string) list \<Rightarrow> money \<Rightarrow> bool" where
  "is_effect c inputs identity amount \<longleftrightarrow> identity = expected_identity c inputs \<and>
     (\<forall>v due. dict_get inputs ''amount'' = Some v \<and> parse_money v = Inr due \<and> m_cents due < exact_cents \<longrightarrow> cents amount = cents due)"

definition identity_keys :: "string list" where
  "identity_keys = [''institution_id'', ''procedure_id'', ''capability_id'', ''case_id'', ''member_id'', ''account_id'', ''currency'', ''business_reference'']"

lemma expected_keys: "map fst (expected_identity c inputs) = identity_keys"
  by (simp add: expected_identity_def identity_keys_def)

locale inquired_system =
  fixes ok :: bool and tg :: "'w target" and base :: string and segment :: "string \<Rightarrow> string option"
    and found :: "'w \<Rightarrow> string \<Rightarrow> 'r option" and identity :: "'r \<Rightarrow> (string \<times> string) list" and amount :: "'r \<Rightarrow> money"
  assumes get_keeps: "http_get tg (base @ seg) w = (answer, v) \<Longrightarrow> v = w"
    and sleep_keeps: "sleep tg w = w"
    and get_absent: "ok \<Longrightarrow> http_get tg (base @ seg) w = (Inr resp, v) \<Longrightarrow> status_code resp = 404 \<Longrightarrow> segment seg = Some cid \<Longrightarrow>
      found w cid = None"
    and get_present: "ok \<Longrightarrow> http_get tg (base @ seg) w = (Inr resp, v) \<Longrightarrow> status_code resp = 200 \<Longrightarrow> body_json resp = Inr (VDict data) \<Longrightarrow>
      segment seg = Some cid \<Longrightarrow>
      \<exists>x. found w cid = Some x \<and> identity x = map (\<lambda>k. (k, input_text data k)) identity_keys \<and>
        (\<forall>a. parse_money (dict_val data ''amount'') = Inr a \<and> m_cents a < exact_cents \<longrightarrow> amount x = a)"
begin

lemma denial_true:
  "ok \<Longrightarrow> http_get tg (base @ seg) w = (answer, v) \<Longrightarrow> denies answer \<Longrightarrow> segment seg = Some cid \<Longrightarrow> found v cid = None"
  using get_absent get_keeps unfolding denies_def by blast

lemma confirmation_true:
  assumes ok and get: "http_get tg (base @ seg) w = (answer, v)" and confirms: "confirms c inputs answer" and seg: "segment seg = Some cid"
  shows "\<exists>x. found v cid = Some x \<and> is_effect c inputs (identity x) (amount x)"
proof -
  obtain r data where r: "answer = Inr r" "status_code r = 200" "body_json r = Inr (VDict data)"
    and fields: "\<forall>(k, t) \<in> set (expected_identity c inputs). t \<noteq> [] \<and> input_text data k = t" and money: "amount_agrees inputs data"
    using confirms unfolding confirms_def by blast
  obtain x where x: "found w cid = Some x" "identity x = map (\<lambda>k. (k, input_text data k)) identity_keys"
    "\<And>a. parse_money (dict_val data ''amount'') = Inr a \<Longrightarrow> m_cents a < exact_cents \<Longrightarrow> amount x = a"
    using get_present [OF \<open>ok\<close> get [unfolded r(1)] r(2,3) seg] by blast
  have "map (\<lambda>k. (k, input_text data k)) (map fst (expected_identity c inputs)) = map (\<lambda>x. x) (expected_identity c inputs)"
    unfolding map_map by (rule map_cong [OF refl]) (use fields in auto)
  then have "identity x = expected_identity c inputs" by (simp add: x(2) expected_keys)
  moreover have "cents (amount x) = cents due"
    if t: "dict_get inputs ''amount'' = Some t" "parse_money t = Inr due" "m_cents due < exact_cents" for t due
  proof -
    obtain a where a: "parse_money (dict_val data ''amount'') = Inr a" "cents a = cents due"
      using money t(1,2) by (auto simp: amount_agrees_def)
    then have "m_cents a = m_cents due" by (auto simp: cents_def split: if_splits)
    then show ?thesis using x(3) [OF a(1)] t(3) a(2) by simp
  qed
  ultimately show ?thesis using x(1) get_keeps [OF get] by (auto simp: is_effect_def)
qed

lemma precheck_true:
  assumes ok and run: "execute_precheck tg cfg c inputs w = (Ret oc, v)" and commit: "ef_class (cap_effect c) = COMMIT"
    and route: "target_route cfg c inputs = Inr (Some (base @ seg, mm, ref))" and seg: "segment seg = Some cid"
  shows "v = w \<and> (o_code oc = NOT_APPLIED \<longrightarrow> found v cid = None) \<and>
    (o_code oc = ALREADY_APPLIED \<longrightarrow> (\<exists>x. found v cid = Some x \<and> is_effect c inputs (identity x) (amount x)))"
  using run commit
proof (cases rule: execute_precheck_run)
  case (asked url mm' ref' answer)
  then have get: "http_get tg (base @ seg) w = (answer, v)" using route by simp
  show ?thesis
    using read_precheck_evidence(1,2) [OF asked(3)] denial_true [OF \<open>ok\<close> get _ seg] confirmation_true [OF \<open>ok\<close> get _ seg] get_keeps [OF get]
    by blast
qed simp

lemma postcheck_true:
  assumes ok and run: "execute_postcheck tg cfg c inputs w = (Ret oc, v)"
    and route: "target_route cfg c inputs = Inr (Some (base @ seg, mm, ref))" and seg: "segment seg = Some cid"
  shows "v = w \<and> (o_code oc = CONFIRMED_NOT_APPLIED \<longrightarrow> found v cid = None) \<and>
    (is_success oc \<longrightarrow> (\<exists>x. found v cid = Some x \<and> is_effect c inputs (identity x) (amount x)))"
  using run
proof (cases rule: execute_postcheck_run)
  case (asked url mm' ref' answer)
  then have get: "http_get tg (base @ seg) w = (answer, v)" using route by simp
  show ?thesis
    using read_postcheck_evidence(1,2) [OF asked(3)] denial_true [OF \<open>ok\<close> get _ seg] confirmation_true [OF \<open>ok\<close> get _ seg] get_keeps [OF get]
    by blast
qed (simp add: is_success_def)

lemma inquire_again_true:
  assumes ok and "inquire_again tg cfg c inputs n k r w = (Ret (oc, m), v)"
    and route: "target_route cfg c inputs = Inr (Some (base @ seg, mm, ref))" and seg: "segment seg = Some cid"
  shows "v = w"
  using assms(2)
proof (induction n arbitrary: k r w)
  case (Suc n)
  then show ?case
    using postcheck_true [OF \<open>ok\<close> _ route seg] by (fastforce simp: bnd_eq_Ret sleep_keeps split: if_splits)
qed simp

lemma reconcile_true:
  assumes ok and run: "reconcile_commit_execution tg cfg c inputs msg w = (Ret oc, v)"
    and route: "target_route cfg c inputs = Inr (Some (base @ seg, mm, ref))" and seg: "segment seg = Some cid"
  shows "v = w \<and> (o_code oc = CONFIRMED_NOT_APPLIED \<longrightarrow> found v cid = None) \<and>
    (is_success oc \<longrightarrow> (\<exists>x. found v cid = Some x \<and> is_effect c inputs (identity x) (amount x)))"
proof -
  obtain p u m q where p: "execute_postcheck tg cfg c inputs w = (Ret p, u)"
    "inquire_again tg cfg c inputs (max_attempts c - 1) 1 p u = (Ret (q, m), v)" and oc: "oc = settle_inquiry c inputs msg (q, m)"
    using run by (auto simp: reconcile_commit_execution_def bnd_eq_Ret)
  obtain u' where q: "execute_postcheck tg cfg c inputs u' = (Ret q, v)" using inquire_again_last [OF p(2)] p(1) by blast
  have "v = w" using inquire_again_true [OF \<open>ok\<close> p(2) route seg] postcheck_true [OF \<open>ok\<close> p(1) route seg] by simp
  moreover have "is_success oc \<longrightarrow> is_success q" "o_code oc = CONFIRMED_NOT_APPLIED \<longrightarrow> o_code q = CONFIRMED_NOT_APPLIED"
    by (auto simp: oc settle_inquiry_def is_success_def split: if_splits)
  moreover note postcheck_true [OF \<open>ok\<close> q route seg]
  ultimately show ?thesis by auto
qed

end

section \<open>The contract of a post\<close>

locale actuated_system = inquired_system +
  fixes url :: string and tables :: "'a \<Rightarrow> 't"
  assumes post_refused: "ok \<Longrightarrow> http_post tg url payload token w = (Inr resp, v) \<Longrightarrow> status_code resp = 401 \<Longrightarrow> tables v = tables w"
begin

lemma commit_true:
  assumes ok and run: "execute_http_commit tg cfg plan c inputs w = (Ret oc, v)"
    and route: "target_route cfg c inputs = Inr (Some (base @ seg, mm, ref))" and seg: "segment seg = Some cid"
    and post: "url = (if cap_system c = ''processor'' then processor_url cfg @ ''/chargeback/file'' else documents_url cfg @ ''/notices/send'')"
  shows "(o_phase oc = BEFORE_SUBMIT \<longrightarrow> tables v = tables w) \<and> (o_code oc = CONFIRMED_NOT_APPLIED \<longrightarrow> found v cid = None) \<and>
    (is_success oc \<longrightarrow> (\<exists>x. found v cid = Some x \<and> is_effect c inputs (identity x) (amount x)))"
  using commit_cases [of c inputs cfg tg plan]
proof (elim disjE exE conjE)
  fix i url' payload
  assume built: "build_request cfg c inputs i = Inr (url', payload)"
    and "execute_http_commit tg cfg plan c inputs = dispatch_commit tg cfg plan c inputs url' payload"
  then obtain answer u where sent: "http_post tg url payload (tandem_admin_token cfg) w = (answer, u)"
    and read: "read_commit_answer tg cfg plan c inputs answer u = (Ret oc, v)"
    using run build_request_ok [OF built] post
    by (auto simp: dispatch_commit_def bnd_eq_Ret andthen_eq_Ret maybe_crash_def split: option.splits if_splits)
  show ?thesis
  proof (cases "\<exists>resp. answer = Inr resp \<and> status_code resp < 400")
    case True
    then obtain p where p: "execute_postcheck tg cfg c inputs u = (Ret p, v)"
      and oc: "oc = p\<lparr>o_phase := if is_success p then SUBMIT_CONFIRMED else AFTER_SUBMIT_UNKNOWN\<rparr>"
      using read by (auto simp: read_commit_answer_def bnd_eq_Ret andthen_eq_Ret maybe_crash_def split: if_splits option.splits)
    have "is_success oc = is_success p" "o_code oc = o_code p" "o_phase oc \<noteq> BEFORE_SUBMIT"
      by (simp_all add: oc is_success_def)
    then show ?thesis using postcheck_true [OF \<open>ok\<close> p route seg] by auto
  next
    case False
    show ?thesis
    proof (cases answer)
      case (Inl e)
      then show ?thesis using read by (auto simp: read_commit_answer_def possibly_applied_def is_success_def)
    next
      case (Inr resp)
      then have "400 \<le> status_code resp" using False by simp
      then show ?thesis using read sent post_refused [OF \<open>ok\<close>, of payload "tandem_admin_token cfg" w resp u]
        by (auto simp: read_commit_answer_def possibly_applied_def is_success_def Inr split: if_splits)
    qed
  qed
qed (use run in \<open>auto simp: hard_failure_def is_success_def\<close>)

end

end
