(* ===== verification/TargetTruth.thy ===== *)
theory TargetTruth
  imports Targets
begin

text \<open>
  The processor, the document system and the core bank as providers of the contracts of
  \<open>Targets\<close>, and what follows: the outcomes of Tandem's HTTP actuation, prechecks and
  reconciliations are true of the tables of the target.
\<close>

lemma json_answer_sel [simp]:
  "status_code (json_answer wb n d) = n" "body_json (json_answer wb n d) = Inr (VDict (map (\<lambda>(k, v). (k, wb_json wb v)) d))"
  "status_code (html_page n) = n"
  by (simp_all add: json_answer_def html_page_def)

lemma refused_status: "faithful_web wb \<Longrightarrow> status_code (refused wb r) = (case r of HTTP_Exception n m \<Rightarrow> n | Unhandled e \<Rightarrow> 500)"
  by (simp add: refused_def faithful_unhandled split: refusal.splits)

lemma serve_reads:
  assumes "serve wb p s = (answer, t)"
  shows "t = snd (p s) \<and> answer = (case fst (p s) of Ret r \<Rightarrow> Inr r | Raise e \<Rightarrow> Inr (wb_unhandled wb e) | Died \<Rightarrow> Inl (Transport ''server disconnected''))"
  using assms by (auto simp: serve_def split: prod.splits run.splits)

section \<open>The processor\<close>

definition stored_cents :: "string \<Rightarrow> money" where
  "stored_cents t = (case parse_money (VStr t) of Inl e \<Rightarrow> Money False 0 | Inr m \<Rightarrow> m)"

definition chargeback_identity :: "chargeback_row \<Rightarrow> (string \<times> string) list" where
  "chargeback_identity r =
     [(''institution_id'', pr_institution_id r), (''procedure_id'', pr_procedure_id r), (''capability_id'', pr_capability_id r),
      (''case_id'', pr_case_id r), (''member_id'', pr_member_id r), (''account_id'', pr_account_id r), (''currency'', pr_currency r),
      (''business_reference'', if pr_business_reference r = [] then pr_case_id r else pr_business_reference r)]"

text \<open>The inquiry answers from the record and changes nothing.\<close>

lemma get_chargeback_run:
  "api_get_chargeback wb cid s = (case filings.recorded s cid of
      None \<Rightarrow> (Ret (json_answer wb 404 [(''error'', VStr ''Chargeback not found'')]), s)
    | Some row \<Rightarrow> (case chargeback_from_row row of Inl e \<Rightarrow> (Raise e, s)
       | Inr cb \<Rightarrow> if ps_fail_lookup_when_present s
           then (Ret (json_answer wb 503 [(''error'', VStr ''Filing inquiry unavailable'')]), s)
           else (Ret (json_answer wb 200 (chargeback_answer cb (filing_count cid s))), s)))"
  by (simp add: api_get_chargeback_def find_chargeback_def filings.recorded_def bnd_def split: option.splits sum.splits)

lemma chargeback_answer_says:
  assumes "faithful_web wb" and "chargeback_from_row row = Inr cb"
    and "data = map (\<lambda>(k, v). (k, wb_json wb v)) (chargeback_answer cb n)"
  shows "chargeback_identity row = map (\<lambda>k. (k, input_text data k)) identity_keys"
    and "parse_money (dict_val data ''amount'') = Inr a \<Longrightarrow> m_cents a < exact_cents \<Longrightarrow> stored_cents (pr_amount row) = a"
proof -
  obtain amount where amount: "parse_money (VStr (pr_amount row)) = Inr amount"
    and cb: "cb = \<lparr>cb_chargeback_id = pr_chargeback_id row, cb_case_id = pr_case_id row, cb_card_last4 = pr_card_last4 row, cb_amount = amount,
      cb_dispute_reason = pr_dispute_reason row, cb_network_ref = pr_network_ref row, cb_created_at = pr_created_at row,
      cb_status = pr_status row, cb_institution_id = pr_institution_id row, cb_procedure_id = pr_procedure_id row,
      cb_capability_id = pr_capability_id row, cb_member_id = pr_member_id row, cb_account_id = pr_account_id row,
      cb_currency = pr_currency row,
      cb_business_reference = (if pr_business_reference row = [] then pr_case_id row else pr_business_reference row)\<rparr>"
    using assms(2) by (auto simp: chargeback_from_row_def rbind_eq_Inr)
  show "chargeback_identity row = map (\<lambda>k. (k, input_text data k)) identity_keys"
    unfolding assms(3) by (simp add: chargeback_identity_def identity_keys_def chargeback_answer_def input_text_def dict_default_def
        faithful_text [OF assms(1)] cb)
  assume a: "parse_money (dict_val data ''amount'') = Inr a" "m_cents a < exact_cents"
  have "dict_val data ''amount'' = wb_json wb (money_val amount)"
    unfolding assms(3) by (simp add: chargeback_answer_def dict_val_def cb)
  then have "a = amount" using a faithful_amount [OF assms(1) parse_money_le [OF amount]] by simp
  then show "stored_cents (pr_amount row) = a" by (simp add: stored_cents_def amount)
qed

lemma processor_get:
  "http_get (processor_target cfg wb ch) ((processor_url cfg @ ''/api/chargebacks/'') @ seg) =
    (case wb_segment wb seg of None \<Rightarrow> (\<lambda>s. (Inr (no_route wb), s)) | Some cid \<Rightarrow> serve wb (api_get_chargeback wb cid))"
  by (simp add: processor_target_def path_segment_def)

lemma process_filing_refused:
  "faithful_web wb \<Longrightarrow> process_filing wb ch q s = (Ret r, t) \<Longrightarrow> status_code r = 401 \<Longrightarrow> t = s"
  by (auto simp: process_filing_def andthen_eq_Ret refused_status split: if_splits)

lemma guarded_refused:
  "(p s = (Ret r, t) \<Longrightarrow> t = s) \<Longrightarrow> guarded_route cfg wb rq p s = (Ret r, t) \<Longrightarrow> t = s"
  by (auto simp: guarded_route_def split: sum.splits)

lemma field_refused:
  "(\<And>x. f x s = (Ret r, t) \<Longrightarrow> t = s) \<Longrightarrow> with_field wb rq name f s = (Ret r, t) \<Longrightarrow> t = s"
  "(\<And>x. g x s = (Ret r, t) \<Longrightarrow> t = s) \<Longrightarrow> with_decimal wb rq name g s = (Ret r, t) \<Longrightarrow> t = s"
  by (auto simp: with_field_def with_decimal_def split: option.splits)

lemma processor_post_refused:
  assumes "faithful_web wb" and "http_post (processor_target cfg wb ch) (processor_url cfg @ ''/chargeback/file'') payload token s = (Inr resp, t)"
    and "status_code resp = 401"
  shows "t = s"
proof -
  let ?p = "file_chargeback_route cfg wb ch (posted_request payload token)"
  have serve: "serve wb ?p s = (Inr resp, t)" using assms(2) by (simp add: processor_target_def)
  show ?thesis
  proof (cases "fst (?p s)")
    case (Ret r)
    then have "?p s = (Ret resp, t)" using serve by (auto simp: serve_def split: prod.splits)
    then show ?thesis unfolding file_chargeback_route_def
      by (rule guarded_refused [rotated]) (elim field_refused [rotated], rule process_filing_refused [OF assms(1) _ assms(3)])
  qed (use serve_reads [OF serve] faithful_unhandled [OF assms(1)] assms(3) in auto)
qed

interpretation processor_truth: actuated_system "faithful_web wb" "processor_target cfg wb ch"
  "processor_url cfg @ ''/api/chargebacks/''" "wb_segment wb" "filings.recorded" chargeback_identity "\<lambda>r. stored_cents (pr_amount r)"
  "processor_url cfg @ ''/chargeback/file''" "\<lambda>s. (ps_chargebacks s, ps_history s)"
proof unfold_locales
  fix seg :: string and s t :: processor and answer :: "http_error + response"
  assume "http_get (processor_target cfg wb ch) ((processor_url cfg @ ''/api/chargebacks/'') @ seg) s = (answer, t)"
  then show "t = s"
    unfolding processor_get by (auto simp: get_chargeback_run serve_def split: option.splits sum.splits if_splits)
next
  fix s :: processor show "sleep (processor_target cfg wb ch) s = s" by (simp add: processor_target_def)
next
  fix seg cid :: string and s t :: processor and resp
  assume "faithful_web wb" "http_get (processor_target cfg wb ch) ((processor_url cfg @ ''/api/chargebacks/'') @ seg) s = (Inr resp, t)"
    "status_code resp = 404" "wb_segment wb seg = Some cid"
  then show "filings.recorded s cid = None"
    unfolding processor_get by (auto simp: get_chargeback_run serve_def faithful_unhandled split: option.splits sum.splits if_splits)
next
  fix seg cid :: string and s t :: processor and resp data
  assume wb: "faithful_web wb" and get: "http_get (processor_target cfg wb ch) ((processor_url cfg @ ''/api/chargebacks/'') @ seg) s = (Inr resp, t)"
    and resp: "status_code resp = 200" "body_json resp = Inr (VDict data)" and seg: "wb_segment wb seg = Some cid"
  obtain row cb where row: "filings.recorded s cid = Some row" "chargeback_from_row row = Inr cb"
    and data: "data = map (\<lambda>(k, v). (k, wb_json wb v)) (chargeback_answer cb (filing_count cid s))"
    using get resp seg wb unfolding processor_get
    by (auto simp: get_chargeback_run serve_def faithful_unhandled split: option.splits sum.splits if_splits)
  show "\<exists>x. filings.recorded s cid = Some x \<and> chargeback_identity x = map (\<lambda>k. (k, input_text data k)) identity_keys \<and>
      (\<forall>a. parse_money (dict_val data ''amount'') = Inr a \<and> m_cents a < exact_cents \<longrightarrow> stored_cents (pr_amount x) = a)"
    using row(1) chargeback_answer_says [OF wb row(2) data] by blast
next
  fix payload token and s t :: processor and resp
  assume "faithful_web wb" "http_post (processor_target cfg wb ch) (processor_url cfg @ ''/chargeback/file'') payload token s = (Inr resp, t)"
    "status_code resp = 401"
  then show "(ps_chargebacks t, ps_history t) = (ps_chargebacks s, ps_history s)"
    using processor_post_refused by blast
qed

section \<open>The document system\<close>

definition notice_identity :: "notice_row \<Rightarrow> (string \<times> string) list" where
  "notice_identity r =
     [(''institution_id'', nr_institution_id r), (''procedure_id'', nr_procedure_id r), (''capability_id'', nr_capability_id r),
      (''case_id'', nr_case_id r), (''member_id'', nr_member_id r), (''account_id'', nr_account_id r), (''currency'', nr_currency r),
      (''business_reference'', if nr_business_reference r = [] then nr_case_id r else nr_business_reference r)]"

lemma get_notice_run:
  "api_get_notice wb cid s = (case notices.recorded s cid of
      None \<Rightarrow> (Ret (json_answer wb 404 [(''error'', VStr ''Notice not found'')]), s)
    | Some row \<Rightarrow> (case notice_from_row row of Inl e \<Rightarrow> (Raise e, s)
       | Inr n \<Rightarrow> (Ret (json_answer wb 200 (notice_answer n (notice_count cid s))), s)))"
  by (simp add: api_get_notice_def find_notice_def notices.recorded_def bnd_def split: option.splits sum.splits)

lemma notice_answer_says:
  assumes "faithful_web wb" and "notice_from_row row = Inr n"
    and "data = map (\<lambda>(k, v). (k, wb_json wb v)) (notice_answer n count)"
  shows "notice_identity row = map (\<lambda>k. (k, input_text data k)) identity_keys"
    and "parse_money (dict_val data ''amount'') = Inr a \<Longrightarrow> m_cents a < exact_cents \<Longrightarrow> stored_cents (nr_amount row) = a"
proof -
  obtain amount where amount: "parse_money (VStr (nr_amount row)) = Inr amount"
    and n: "n = \<lparr>mn_notice_id = nr_notice_id row, mn_case_id = nr_case_id row, mn_member_id = nr_member_id row,
      mn_notice_type = nr_notice_type row, mn_amount = amount, mn_deadline_due_at = nr_deadline_due_at row,
      mn_sent_at = nr_sent_at row, mn_status = nr_status row, mn_institution_id = nr_institution_id row,
      mn_procedure_id = nr_procedure_id row, mn_capability_id = nr_capability_id row, mn_account_id = nr_account_id row,
      mn_currency = nr_currency row,
      mn_business_reference = (if nr_business_reference row = [] then nr_case_id row else nr_business_reference row)\<rparr>"
    using assms(2) by (auto simp: notice_from_row_def rbind_eq_Inr)
  show "notice_identity row = map (\<lambda>k. (k, input_text data k)) identity_keys"
    unfolding assms(3) by (simp add: notice_identity_def identity_keys_def notice_answer_def input_text_def dict_default_def
        faithful_text [OF assms(1)] n)
  assume a: "parse_money (dict_val data ''amount'') = Inr a" "m_cents a < exact_cents"
  have "dict_val data ''amount'' = wb_json wb (money_val amount)"
    unfolding assms(3) by (simp add: notice_answer_def dict_val_def n)
  then have "a = amount" using a faithful_amount [OF assms(1) parse_money_le [OF amount]] by simp
  then show "stored_cents (nr_amount row) = a" by (simp add: stored_cents_def amount)
qed

lemma documents_get:
  "http_get (documents_target cfg wb ch) ((documents_url cfg @ ''/api/notices/'') @ seg) =
    (case wb_segment wb seg of None \<Rightarrow> (\<lambda>s. (Inr (no_route wb), s)) | Some cid \<Rightarrow> serve wb (api_get_notice wb cid))"
  by (simp add: documents_target_def path_segment_def)

lemma process_dispatch_refused:
  "faithful_web wb \<Longrightarrow> process_dispatch wb ch q s = (Ret r, t) \<Longrightarrow> status_code r = 401 \<Longrightarrow> t = s"
  by (auto simp: process_dispatch_def andthen_eq_Ret refused_status split: if_splits)

lemma documents_post_refused:
  assumes "faithful_web wb" and "http_post (documents_target cfg wb ch) (documents_url cfg @ ''/notices/send'') payload token s = (Inr resp, t)"
    and "status_code resp = 401"
  shows "t = s"
proof -
  let ?p = "send_notice_route cfg wb ch (posted_request payload token)"
  have serve: "serve wb ?p s = (Inr resp, t)" using assms(2) by (simp add: documents_target_def)
  show ?thesis
  proof (cases "fst (?p s)")
    case (Ret r)
    then have "?p s = (Ret resp, t)" using serve by (auto simp: serve_def split: prod.splits)
    then show ?thesis unfolding send_notice_route_def
      by (rule guarded_refused [rotated]) (elim field_refused [rotated], rule process_dispatch_refused [OF assms(1) _ assms(3)])
  qed (use serve_reads [OF serve] faithful_unhandled [OF assms(1)] assms(3) in auto)
qed

interpretation documents_truth: actuated_system "faithful_web wb" "documents_target cfg wb ch"
  "documents_url cfg @ ''/api/notices/''" "wb_segment wb" "notices.recorded" notice_identity "\<lambda>r. stored_cents (nr_amount r)"
  "documents_url cfg @ ''/notices/send''" "\<lambda>s. (dc_notices s, dc_history s)"
proof unfold_locales
  fix seg :: string and s t :: document_system and answer :: "http_error + response"
  assume "http_get (documents_target cfg wb ch) ((documents_url cfg @ ''/api/notices/'') @ seg) s = (answer, t)"
  then show "t = s"
    unfolding documents_get by (auto simp: get_notice_run serve_def split: option.splits sum.splits if_splits)
next
  fix s :: document_system show "sleep (documents_target cfg wb ch) s = s" by (simp add: documents_target_def)
next
  fix seg cid :: string and s t :: document_system and resp
  assume "faithful_web wb" "http_get (documents_target cfg wb ch) ((documents_url cfg @ ''/api/notices/'') @ seg) s = (Inr resp, t)"
    "status_code resp = 404" "wb_segment wb seg = Some cid"
  then show "notices.recorded s cid = None"
    unfolding documents_get by (auto simp: get_notice_run serve_def faithful_unhandled split: option.splits sum.splits if_splits)
next
  fix seg cid :: string and s t :: document_system and resp data
  assume wb: "faithful_web wb" and get: "http_get (documents_target cfg wb ch) ((documents_url cfg @ ''/api/notices/'') @ seg) s = (Inr resp, t)"
    and resp: "status_code resp = 200" "body_json resp = Inr (VDict data)" and seg: "wb_segment wb seg = Some cid"
  obtain row n where row: "notices.recorded s cid = Some row" "notice_from_row row = Inr n"
    and data: "data = map (\<lambda>(k, v). (k, wb_json wb v)) (notice_answer n (notice_count cid s))"
    using get resp seg wb unfolding documents_get
    by (auto simp: get_notice_run serve_def faithful_unhandled split: option.splits sum.splits if_splits)
  show "\<exists>x. notices.recorded s cid = Some x \<and> notice_identity x = map (\<lambda>k. (k, input_text data k)) identity_keys \<and>
      (\<forall>a. parse_money (dict_val data ''amount'') = Inr a \<and> m_cents a < exact_cents \<longrightarrow> stored_cents (nr_amount x) = a)"
    using row(1) notice_answer_says [OF wb row(2) data] by blast
next
  fix payload token and s t :: document_system and resp
  assume "faithful_web wb" "http_post (documents_target cfg wb ch) (documents_url cfg @ ''/notices/send'') payload token s = (Inr resp, t)"
    "status_code resp = 401"
  then show "(dc_notices t, dc_history t) = (dc_notices s, dc_history s)"
    using documents_post_refused by blast
qed

section \<open>The core bank\<close>

text \<open>The inquiry of Institution Alpha; the commit goes through the browser, not through here.\<close>

definition bank_target :: "settings \<Rightarrow> web \<Rightarrow> core_bank target" where
  "bank_target cfg wb =
     \<lparr>http_get = (\<lambda>url. case path_segment wb (core_bank_url cfg @ ''/api/credits/'') url of
         None \<Rightarrow> (\<lambda>s. (Inr (no_route wb), s)) | Some cid \<Rightarrow> serve wb (api_get_credits wb cid)),
      http_post = (\<lambda>url payload token s. (Inr (no_route wb), s)),
      sleep = id\<rparr>"

definition own_credit :: "core_bank \<Rightarrow> string \<Rightarrow> credit_row option" where
  "own_credit s cid = bank_credits.recorded s (bk_institution_id s, cid)"

definition credit_identity :: "credit_row \<Rightarrow> (string \<times> string) list" where
  "credit_identity r =
     [(''institution_id'', rw_institution_id r), (''procedure_id'', ''reg_e_dispute''),
      (''capability_id'', ''core.post_provisional_credit''), (''case_id'', rw_case_id r), (''member_id'', rw_member_id r),
      (''account_id'', rw_account_id r), (''currency'', rw_currency r), (''business_reference'', rw_business_reference r)]"

lemma get_credits_run:
  "api_get_credits wb cid s = (case own_credit s cid of
      None \<Rightarrow> (Ret (json_answer wb 404 [(''error'', VStr ''No credit found for case'')]), s)
    | Some row \<Rightarrow> (case credit_from_row row of Inl e \<Rightarrow> (Raise e, s)
       | Inr c \<Rightarrow> if bk_fail_credit_lookup s
           then (Ret (json_answer wb 503 [(''error'', VStr ''Credit inquiry unavailable'')]), s)
           else (Ret (json_answer wb 200 (alpha_credit_answer c (credit_count cid s))), s)))"
  by (simp add: api_get_credits_def find_credit_by_case_def own_credit_def bank_credits.recorded_def credit_key_def bnd_def
      split: option.splits sum.splits)

lemma credit_answer_says:
  assumes "faithful_web wb" and "credit_from_row row = Inr c"
    and "data = map (\<lambda>(k, v). (k, wb_json wb v)) (alpha_credit_answer c count)"
  shows "credit_identity row = map (\<lambda>k. (k, input_text data k)) identity_keys"
    and "parse_money (dict_val data ''amount'') = Inr a \<Longrightarrow> m_cents a < exact_cents \<Longrightarrow> stored_cents (rw_amount row) = a"
proof -
  obtain amount where amount: "parse_money (VStr (rw_amount row)) = Inr amount"
    and c: "c = \<lparr>pv_credit_id = rw_credit_id row, pv_case_id = rw_case_id row, pv_member_id = rw_member_id row,
      pv_account_id = rw_account_id row, pv_amount = amount, pv_memo_code = rw_memo_code row, pv_posted_at = rw_posted_at row,
      pv_status = rw_status row, pv_currency = rw_currency row, pv_business_reference = rw_business_reference row,
      pv_institution_id = rw_institution_id row\<rparr>"
    using assms(2) by (auto simp: credit_from_row_def rbind_eq_Inr)
  show "credit_identity row = map (\<lambda>k. (k, input_text data k)) identity_keys"
    unfolding assms(3) by (simp add: credit_identity_def identity_keys_def alpha_credit_answer_def input_text_def dict_default_def
        faithful_text [OF assms(1)] c)
  assume a: "parse_money (dict_val data ''amount'') = Inr a" "m_cents a < exact_cents"
  have "dict_val data ''amount'' = wb_json wb (money_val amount)"
    unfolding assms(3) by (simp add: alpha_credit_answer_def dict_val_def c)
  then have "a = amount" using a faithful_amount [OF assms(1) parse_money_le [OF amount]] by simp
  then show "stored_cents (rw_amount row) = a" by (simp add: stored_cents_def amount)
qed

lemma bank_get:
  "http_get (bank_target cfg wb) ((core_bank_url cfg @ ''/api/credits/'') @ seg) =
    (case wb_segment wb seg of None \<Rightarrow> (\<lambda>s. (Inr (no_route wb), s)) | Some cid \<Rightarrow> serve wb (api_get_credits wb cid))"
  by (simp add: bank_target_def path_segment_def)

interpretation bank_truth: inquired_system "faithful_web wb" "bank_target cfg wb"
  "core_bank_url cfg @ ''/api/credits/''" "wb_segment wb" own_credit credit_identity "\<lambda>r. stored_cents (rw_amount r)"
proof unfold_locales
  fix seg :: string and s t :: core_bank and answer :: "http_error + response"
  assume "http_get (bank_target cfg wb) ((core_bank_url cfg @ ''/api/credits/'') @ seg) s = (answer, t)"
  then show "t = s"
    unfolding bank_get by (auto simp: get_credits_run serve_def split: option.splits sum.splits if_splits)
next
  fix s :: core_bank show "sleep (bank_target cfg wb) s = s" by (simp add: bank_target_def)
next
  fix seg cid :: string and s t :: core_bank and resp
  assume "faithful_web wb" "http_get (bank_target cfg wb) ((core_bank_url cfg @ ''/api/credits/'') @ seg) s = (Inr resp, t)"
    "status_code resp = 404" "wb_segment wb seg = Some cid"
  then show "own_credit s cid = None"
    unfolding bank_get by (auto simp: get_credits_run serve_def faithful_unhandled split: option.splits sum.splits if_splits)
next
  fix seg cid :: string and s t :: core_bank and resp data
  assume wb: "faithful_web wb" and get: "http_get (bank_target cfg wb) ((core_bank_url cfg @ ''/api/credits/'') @ seg) s = (Inr resp, t)"
    and resp: "status_code resp = 200" "body_json resp = Inr (VDict data)" and seg: "wb_segment wb seg = Some cid"
  obtain row c where row: "own_credit s cid = Some row" "credit_from_row row = Inr c"
    and data: "data = map (\<lambda>(k, v). (k, wb_json wb v)) (alpha_credit_answer c (credit_count cid s))"
    using get resp seg wb unfolding bank_get
    by (auto simp: get_credits_run serve_def faithful_unhandled split: option.splits sum.splits if_splits)
  show "\<exists>x. own_credit s cid = Some x \<and> credit_identity x = map (\<lambda>k. (k, input_text data k)) identity_keys \<and>
      (\<forall>a. parse_money (dict_val data ''amount'') = Inr a \<and> m_cents a < exact_cents \<longrightarrow> stored_cents (rw_amount x) = a)"
    using row(1) credit_answer_says [OF wb row(2) data] by blast
qed

section \<open>What the targets promise\<close>

text \<open>Requests are served one after the other.\<close>

fun serve_all :: "web \<Rightarrow> ('c \<Rightarrow> ('s, response) prog) \<Rightarrow> 'c list \<Rightarrow> 's \<Rightarrow> 's" where
  "serve_all wb api [] s = s"
| "serve_all wb api (call # calls) s = serve_all wb api calls (snd (serve wb (api call) s))"

lemma serve_all_keeps:
  assumes "\<And>call. keeps I (api call)"
  shows "I s \<Longrightarrow> I (serve_all wb api calls s)"
proof (induction calls arbitrary: s)
  case (Cons call calls)
  have "snd (serve wb (api call) s) = snd (api call s)" by (simp add: serve_def split: prod.splits run.splits)
  then show ?case using Cons keepsD [OF assms [of call]] by simp
qed simp

text \<open>
  Whatever requests the processor and the document system serve, and in whatever
  order, the effect count of a case, which Tandem reads from their answers, is one if an
  effect is recorded for the case and zero otherwise; a repeated request never counts twice.
\<close>

theorem effects_counted_once:
  assumes "filings.store_ok p" and "notices.store_ok d"
  shows "filing_count cid (serve_all wb (processor_api cfg wb ch) calls p) =
      (if filings.recorded (serve_all wb (processor_api cfg wb ch) calls p) cid = None then 0 else 1) \<and>
    notice_count cid (serve_all wb (documents_api cfg wb ch) calls' d) =
      (if notices.recorded (serve_all wb (documents_api cfg wb ch) calls' d) cid = None then 0 else 1)"
proof (intro conjI)
  show "filing_count cid (serve_all wb (processor_api cfg wb ch) calls p) =
      (if filings.recorded (serve_all wb (processor_api cfg wb ch) calls p) cid = None then 0 else 1)"
    by (rule filing_count_recorded, rule serve_all_keeps, rule processor_api_keeps, rule assms(1))
  show "notice_count cid (serve_all wb (documents_api cfg wb ch) calls' d) =
      (if notices.recorded (serve_all wb (documents_api cfg wb ch) calls' d) cid = None then 0 else 1)"
    by (rule notice_count_recorded, rule serve_all_keeps, rule documents_api_keeps, rule assms(2))
qed

text \<open>
  C11: The three targets refine a map that is written once.  An operation that answers gives
  a record with the content it was asked for, which either enters the map under a key that
  was free or was there already, and then the map stays; one that gives no answer changes
  nothing, and any record under the key has another content.  So no recorded effect is
  overwritten, removed or written twice.
\<close>

theorem targets_write_once:
  "write_once (files q) (fl_case_id q) (answer_of (fst (file_chargeback ch q p)))
     (filings.seen p) (filings.seen (snd (file_chargeback ch q p))) \<and>
   write_once (dispatches n) (dp_case_id n) (answer_of (fst (send_notice ch n d)))
     (notices.seen d) (notices.seen (snd (send_notice ch n d))) \<and>
   write_once (posts c) (or_case (cq_institution_id c) (bk_institution_id b), cq_case_id c) (answer_of (fst (post_credit ch c b)))
     (bank_credits.seen b) (bank_credits.seen (snd (post_credit ch c b)))"
  unfolding post_credit_def bnd_gets
  by (rule conjI filings.act_refines [where q = q] notices.act_refines [where q = n] bank_credits.act_refines [where q = c]
      prod.collapse [symmetric])+

text \<open>
  C14: What Tandem reads from the core bank of Institution Alpha is true of its table of
  credits: a reconciliation that reports the credit as applied finds it recorded with
  the complete identity and amount, one that reports it as not applied finds none, and
  asking changes nothing.
\<close>

theorem credit_reconciliation_true:
  assumes "faithful_web wb" and "target_route cfg c inputs = Inr (Some ((core_bank_url cfg @ ''/api/credits/'') @ seg, mm, ref))"
    and "wb_segment wb seg = Some cid"
    and "reconcile_commit_execution (bank_target cfg wb) cfg c inputs msg s = (Ret oc, t)"
  shows "t = s \<and> (o_code oc = CONFIRMED_NOT_APPLIED \<longrightarrow> own_credit s cid = None) \<and>
    (is_success oc \<longrightarrow> (\<exists>row. own_credit s cid = Some row \<and> is_effect c inputs (credit_identity row) (stored_cents (rw_amount row))))"
  using bank_truth.reconcile_true [OF assms(1,4,2,3)] by auto

text \<open>
  The same holds for the notices: the outcome of a dispatch is true of the document
  system's table.
\<close>

theorem notice_outcome_true:
  assumes "faithful_web wb" and "cap_system c \<noteq> ''processor''" and "documents_url server = documents_url cfg"
    and "target_route cfg c inputs = Inr (Some ((documents_url cfg @ ''/api/notices/'') @ seg, mm, ref))"
    and "wb_segment wb seg = Some cid"
    and "execute_http_commit (documents_target server wb ch) cfg plan c inputs s = (Ret oc, t)"
  shows "(o_phase oc = BEFORE_SUBMIT \<longrightarrow> dc_notices t = dc_notices s \<and> dc_history t = dc_history s) \<and>
    (o_code oc = CONFIRMED_NOT_APPLIED \<longrightarrow> notices.recorded t cid = None) \<and>
    (is_success oc \<longrightarrow> (\<exists>row. notices.recorded t cid = Some row \<and>
       is_effect c inputs (notice_identity row) (stored_cents (nr_amount row))))"
  using documents_truth.commit_true [OF assms(1,6) assms(4) [folded assms(3)] assms(5)] assms(2,3) by simp

section \<open>Mutations need the token\<close>

fun processor_forms :: "processor_call \<Rightarrow> form_request list" where
  "processor_forms (File_form rq) = [rq]"
| "processor_forms (Reset_filings rq) = [rq]"
| "processor_forms (Set_mode rq expired timeout failure fail_lookup) = [rq]"
| "processor_forms (Filing_inquiry cid) = []"

fun document_forms :: "document_call \<Rightarrow> form_request list" where
  "document_forms (Send_form rq) = [rq]"
| "document_forms (Reset_notices rq) = [rq]"
| "document_forms (Set_failure rq failing) = [rq]"
| "document_forms (Notice_inquiry cid) = []"

fun bank_forms :: "bank_call \<Rightarrow> form_request list" where
  "bank_forms (Confirm_page rq) = [rq]"
| "bank_forms (Commit_credit rq) = [rq]"
| "bank_forms (Sign_off rq) = [rq]"
| "bank_forms (Reset_bank rq) = [rq]"
| "bank_forms (Set_compliance rq b) = [rq]"
| "bank_forms (Set_session rq b) = [rq]"
| "bank_forms (Set_lookup_failure rq b) = [rq]"
| "bank_forms (Set_commit_delay rq n) = [rq]"
| "bank_forms call = []"

text \<open>The same bank, except for the random numbers that pages draw for their element ids.\<close>

definition same_bank :: "core_bank \<Rightarrow> core_bank \<Rightarrow> bool" where
  "same_bank s t \<longleftrightarrow> t\<lparr>sim_draws := 0\<rparr> = s\<lparr>sim_draws := 0\<rparr>"

lemma keeps_same_draw [keeps_rules]: "keeps (same_bank s) (draw f)"
  by (simp add: keeps_def same_bank_def)

lemma keeps_same_ids [keeps_rules]: "keeps (same_bank s) (randint ch a b)" "keeps (same_bank s) (dynamic_id ch stem)"
  unfolding dynamic_id_def randint_def by (rule keeps_same_draw keeps_bnd keeps_pure)+

lemma keeps_same_search [keeps_rules]: "keeps (same_bank s) (search_members ch q sh)"
  unfolding search_members_def Let_def by (intro keeps_bnd keeps_books_read(1) keeps_if keeps_same_draw keeps_pure)

lemma bank_unpresented:
  assumes "\<forall>rq \<in> set (bank_forms call). \<not> presented cfg rq"
  shows "keeps (same_bank s) (alpha_console cfg wb ch call)" and "keeps (same_bank s) (beta_console cfg wb ch call)"
proof -
  have guarded: "keeps (same_bank s) (guarded_route cfg wb rq p)" if "rq \<in> set (bank_forms call)" for rq p
  proof -
    have "\<not> presented cfg rq" using assms that by blast
    then show ?thesis by (simp add: keeps_def guarded_unpresented)
  qed
  show "keeps (same_bank s) (alpha_console cfg wb ch call)"
    using guarded
    by (cases call; simp add: workspace_credit_confirm_def workspace_credit_commit_def clear_compliance_def api_reset_def
        api_set_compliance_def api_set_session_def api_set_credit_lookup_failure_def api_set_post_commit_delay_def)
      (unfold api_get_member_def api_get_credits_def workspace_memos_def workspace_search_def workspace_credit_entry_def,
        (intro keeps_rules; simp split: prod.split add: keeps_rules)+)
  show "keeps (same_bank s) (beta_console cfg wb ch call)"
    using guarded
    by (cases call; simp add: beta_confirm_def beta_commit_def beta_reset_def keeps_pure)
      (unfold beta_get_member_def beta_get_credit_def, (intro keeps_rules)+)
qed

text \<open>
  No request without the admin token changes a target: unless it presents the token,
  in its header or, when the header has none, in its form, a request leaves the
  processor, the document system and the books and switches of both banks as they were.
\<close>

theorem mutations_need_token:
  assumes "\<forall>rq \<in> set (processor_forms f). \<not> presented cfg rq" and "\<forall>rq \<in> set (document_forms n). \<not> presented cfg rq"
    and "\<forall>rq \<in> set (bank_forms c). \<not> presented cfg rq"
  shows "snd (processor_api cfg wb ch f p) = p \<and> snd (documents_api cfg wb ch n d) = d \<and>
    same_bank b (snd (alpha_console cfg wb ch c b)) \<and> same_bank b (snd (beta_console cfg wb ch c b))"
proof (intro conjI)
  show "snd (processor_api cfg wb ch f p) = p"
    using assms(1)
    by (cases f) (simp_all add: guarded_unpresented file_chargeback_route_def api_reset_processor_def api_set_mode_def get_chargeback_run
        split: option.splits sum.splits)
  show "snd (documents_api cfg wb ch n d) = d"
    using assms(2)
    by (cases n) (simp_all add: guarded_unpresented send_notice_route_def api_reset_documents_def api_set_failure_def get_notice_run
        split: option.splits sum.splits)
  show "same_bank b (snd (alpha_console cfg wb ch c b))" "same_bank b (snd (beta_console cfg wb ch c b))"
    using keepsD [OF bank_unpresented(1) [OF assms(3)]] keepsD [OF bank_unpresented(2) [OF assms(3)]] by (simp_all add: same_bank_def)
qed

end
