(* ===== verification/FilingRuns.thy ===== *)
theory FilingRuns
  imports TargetTruth
begin

text \<open>
  Whole runs of Tandem's HTTP actuation against the processor: what it reports is true of
  the processor's tables, a healthy processor gets the chargeback filed and confirmed,
  and a case reference that is no single path segment is filed but reported as absent.
\<close>

section \<open>The post\<close>

definition ascii :: "string \<Rightarrow> bool" where
  "ascii s = list_all (\<lambda>c. of_char c < (128 :: nat)) s"

definition accepts_filings :: "processor \<Rightarrow> bool" where
  "accepts_filings s \<longleftrightarrow> \<not> ps_session_expired s \<and> \<not> ps_timeout_after_submit s \<and> \<not> ps_system_failure s \<and> \<not> ps_fail_lookup_when_present s"

definition filed_as :: "effect_identity \<Rightarrow> chargeback_row \<Rightarrow> bool" where
  "filed_as i row \<longleftrightarrow> pr_case_id row = id_case_id i \<and> pr_amount row = money_text (id_amount i) \<and> pr_institution_id row = id_institution_id i \<and>
     pr_procedure_id row = id_procedure_id i \<and> pr_capability_id row = id_capability_id i \<and> pr_member_id row = id_member_id i \<and>
     pr_account_id row = id_account_id i \<and> pr_currency row = id_currency i \<and> pr_business_reference row = id_business_reference i \<and>
     pr_status row = ''FILED'' \<and> pr_network_ref row \<noteq> []"

lemma admitted_post:
  "ascii (tandem_admin_token cfg) \<Longrightarrow> guarded_route cfg wb (posted_request payload (tandem_admin_token cfg)) p = p"
  by (simp add: guarded_route_def require_admin_token_def compare_digest_def ascii_def Let_def)

text \<open>The fields of the payload, as the route reads them.\<close>

lemma payload_fields:
  fixes token :: string
  assumes "identity_from_capability c inputs = Inr i" and "map_of extra ''dispute_reason'' \<noteq> None"
  defines "rq \<equiv> posted_request (canonical_fields i @ extra) token"
  shows "form_value rq ''case_id'' = Some (id_case_id i)" "form_value rq ''amount'' = Some (money_text (id_amount i))"
    and "form_value rq ''card_last4'' = (case map_of extra ''card_last4'' of None \<Rightarrow> None | Some t \<Rightarrow> if t = [] then None else Some t)"
    and "filing_of rq cid last4 amount =
      \<lparr>fl_case_id = cid, fl_card_last4 = last4, fl_amount = amount,
       fl_dispute_reason = form_default rq ''dispute_reason'' ''Unauthorized Transaction'', fl_institution_id = id_institution_id i,
       fl_procedure_id = id_procedure_id i, fl_capability_id = id_capability_id i, fl_member_id = id_member_id i,
       fl_account_id = id_account_id i, fl_currency = id_currency i, fl_business_reference = Some (id_business_reference i)\<rparr>"
proof -
  have nonempty: "id_case_id i \<noteq> []" "id_institution_id i \<noteq> []" "id_procedure_id i \<noteq> []" "id_capability_id i \<noteq> []" "id_member_id i \<noteq> []"
    "id_account_id i \<noteq> []" "id_currency i \<noteq> []" "id_business_reference i \<noteq> []" "money_text (id_amount i) \<noteq> []"
    using identity_complete [OF assms(1)] by (simp_all add: money_text_def)
  then show "form_value rq ''case_id'' = Some (id_case_id i)" "form_value rq ''amount'' = Some (money_text (id_amount i))"
    "form_value rq ''card_last4'' = (case map_of extra ''card_last4'' of None \<Rightarrow> None | Some t \<Rightarrow> if t = [] then None else Some t)"
    "filing_of rq cid last4 amount =
      \<lparr>fl_case_id = cid, fl_card_last4 = last4, fl_amount = amount,
       fl_dispute_reason = form_default rq ''dispute_reason'' ''Unauthorized Transaction'', fl_institution_id = id_institution_id i,
       fl_procedure_id = id_procedure_id i, fl_capability_id = id_capability_id i, fl_member_id = id_member_id i,
       fl_account_id = id_account_id i, fl_currency = id_currency i, fl_business_reference = Some (id_business_reference i)\<rparr>"
    by (simp_all add: rq_def form_value_def filing_of_def form_default_def or_case_def canonical_fields_def split: option.splits)
qed

lemma insert_filed:
  assumes "fl_case_id q = id_case_id i" "fl_institution_id q = id_institution_id i" "fl_procedure_id q = id_procedure_id i"
    "fl_capability_id q = id_capability_id i" "fl_member_id q = id_member_id i" "fl_account_id q = id_account_id i"
    "fl_currency q = id_currency i" "fl_business_reference q = Some (id_business_reference i)" "id_business_reference i \<noteq> []"
    and "filings.recorded s (id_case_id i) = None" and amount: "parse_money (fl_amount q) = Inr (id_amount i)" and on: "accepts_filings s"
  shows "\<exists>t row. process_filing wb ch q s = (Ret (html_page 200), t) \<and> filings.recorded t (id_case_id i) = Some row \<and>
    filed_as i row \<and> \<not> ps_fail_lookup_when_present t \<and> filing_count (id_case_id i) t = Suc (filing_count (id_case_id i) s)"
proof -
  note new = assms(10) [unfolded filings.recorded_def]
  let ?number = "ch_int ch (sim_draws s) 50000 59999" and ?network = "ch_int ch (Suc (sim_draws s)) 10000 99999"
    and ?now = "utc_label (utc (ch_now ch (Suc (Suc (sim_draws s)))))"
  let ?cb = "\<lparr>cb_chargeback_id = ''CB-'' @ str_nat ?number, cb_case_id = id_case_id i, cb_card_last4 = fl_card_last4 q,
      cb_amount = id_amount i, cb_dispute_reason = fl_dispute_reason q, cb_network_ref = ''VISA-DISP-'' @ str_nat ?network,
      cb_created_at = ?now, cb_status = ''FILED'', cb_institution_id = id_institution_id i, cb_procedure_id = id_procedure_id i,
      cb_capability_id = id_capability_id i, cb_member_id = id_member_id i, cb_account_id = id_account_id i,
      cb_currency = id_currency i, cb_business_reference = id_business_reference i\<rparr>"
  let ?t = "s\<lparr>sim_draws := Suc (Suc (Suc (sim_draws s))), ps_chargebacks := ps_chargebacks s @ [row_of_chargeback ?cb],
      ps_history := ps_history s @ [\<lparr>fe_case_id = id_case_id i, fe_effect_type = ''CHARGEBACK_FILED'',
        fe_processor_reference = cb_network_ref ?cb, fe_recorded_at = cb_created_at ?cb\<rparr>]\<rparr>"
  have "file_chargeback ch q s = (Ret ?cb, ?t)"
    using new amount assms(1-9)
    by (simp add: file_chargeback_def transaction_def insert_chargeback_def randint_def stamp_def bnd_def andthen_def or_case_def Let_def)
  then have "process_filing wb ch q s = (Ret (html_page 200), ?t)"
    using on by (simp add: process_filing_def accepts_filings_def andthen_def bnd_def)
  moreover have "filings.recorded ?t (id_case_id i) = Some (row_of_chargeback ?cb)"
    using new by (simp add: filings.recorded_def select_first_append)
  moreover have "filed_as i (row_of_chargeback ?cb)" by (simp add: filed_as_def row_of_chargeback_def)
  moreover have "\<not> ps_fail_lookup_when_present ?t" "filing_count (id_case_id i) ?t = Suc (filing_count (id_case_id i) s)"
    using on by (simp_all add: accepts_filings_def filing_count_def rowcount_def)
  ultimately show ?thesis by blast
qed

text \<open>Without a crash the actuation is the post and one postcheck.\<close>

lemma commit_is_post_and_check:
  assumes i: "identity_from_capability c inputs = Inr i" and guarded: "guarded_actuation c" and system: "cap_system c = ''processor''"
    and last4: "needed_input inputs ''card_last4'' = Inr last4" "last4 \<noteq> []" and token: "ascii (tandem_admin_token cfg)"
    and decimal: "wb_decimal wb (money_text (id_amount i)) = Some (Fin (m_neg (id_amount i)) (m_cents (id_amount i)) (- 2))"
    and calm: "crash_point plan = None" and on: "accepts_filings s" and new: "filings.recorded s (id_case_id i) = None"
  shows "\<exists>t row. execute_http_commit (processor_target cfg wb ch) cfg plan c inputs s =
      bnd (execute_postcheck (processor_target cfg wb ch) cfg c inputs) (\<lambda>postcheck.
        ret (postcheck\<lparr>o_phase := if is_success postcheck then SUBMIT_CONFIRMED else AFTER_SUBMIT_UNKNOWN\<rparr>)) t \<and>
    filings.recorded t (id_case_id i) = Some row \<and> filed_as i row \<and> \<not> ps_fail_lookup_when_present t \<and>
    filing_count (id_case_id i) t = Suc (filing_count (id_case_id i) s)"
proof -
  let ?extra = "[(''card_last4'', last4), (''dispute_reason'', py_str (dict_default inputs ''dispute_reason'' (VStr ''Unauthorized Transaction'')))]"
  let ?rq = "posted_request (canonical_fields i @ ?extra) (tandem_admin_token cfg)"
  have build: "build_request cfg c inputs i = Inr (processor_url cfg @ ''/chargeback/file'', canonical_fields i @ ?extra)"
    using system last4 by (simp add: build_request_def)
  note fields = payload_fields [OF i, of ?extra, simplified]
  have amount: "parse_money (VDec (Fin (m_neg (id_amount i)) (m_cents (id_amount i)) (- 2))) = Inr (id_amount i)"
    using identity_complete [OF i] parse_money_val by (simp add: money_val_def)
  obtain t row where t: "process_filing wb ch (filing_of ?rq (id_case_id i) last4
        (VDec (Fin (m_neg (id_amount i)) (m_cents (id_amount i)) (- 2)))) s = (Ret (html_page 200), t)"
      "filings.recorded t (id_case_id i) = Some row" "filed_as i row" "\<not> ps_fail_lookup_when_present t"
      "filing_count (id_case_id i) t = Suc (filing_count (id_case_id i) s)"
    using insert_filed [of "filing_of ?rq (id_case_id i) last4 (VDec (Fin (m_neg (id_amount i)) (m_cents (id_amount i)) (- 2)))" i s wb ch]
      identity_complete [OF i] new on amount by (auto simp: fields)
  have "file_chargeback_route cfg wb ch ?rq s = (Ret (html_page 200), t)"
    using t(1) last4(2) decimal by (simp add: file_chargeback_route_def admitted_post [OF token] with_field_def with_decimal_def fields)
  then have sent: "http_post (processor_target cfg wb ch) (processor_url cfg @ ''/chargeback/file'') (canonical_fields i @ ?extra)
      (tandem_admin_token cfg) s = (Inr (html_page 200), t)"
    by (simp add: processor_target_def serve_def)
  have "execute_http_commit (processor_target cfg wb ch) cfg plan c inputs s =
      bnd (execute_postcheck (processor_target cfg wb ch) cfg c inputs) (\<lambda>postcheck.
        ret (postcheck\<lparr>o_phase := if is_success postcheck then SUBMIT_CONFIRMED else AFTER_SUBMIT_UNKNOWN\<rparr>)) t"
    using guarded i build built_request_passes [OF i build] calm
    by (simp add: execute_http_commit_def dispatch_commit_def maybe_crash_def post_form_def bnd_run sent read_commit_answer_def)
  then show ?thesis using t(2-5) by blast
qed

section \<open>The postcheck after it\<close>

lemma processor_route:
  assumes "cap_system c = ''processor''" and "\<not> contains ''provisional_credit'' (cap_id c)"
  shows "target_route cfg c inputs =
    Inr (Some ((processor_url cfg @ ''/api/chargebacks/'') @ py_str (dict_val inputs ''case_id''), False, ''network_ref''))"
  using assms by (simp add: target_route_def fstr_def Let_def)

lemma no_field_mismatch: "\<forall>(k, v) \<in> set kvs. v \<noteq> [] \<and> input_text data k = v \<Longrightarrow> field_mismatch who data kvs = []"
  by (induction who data kvs rule: field_mismatch.induct) auto

text \<open>What the identity of the effect must say for the checks to recognise it.\<close>

definition recognised :: "capability \<Rightarrow> dict \<Rightarrow> effect_identity \<Rightarrow> bool" where
  "recognised c inputs i \<longleftrightarrow> (\<forall>(k, v) \<in> set (expected_identity c inputs). map_of (canonical_fields i) k = Some v) \<and>
     (\<forall>v. dict_get inputs ''amount'' = Some v \<longrightarrow> (\<exists>due. parse_money v = Inr due \<and> cents due = cents (id_amount i))) \<and>
     truthy (dict_val inputs ''case_id'') \<and> m_cents (id_amount i) < exact_cents"

lemma filed_record_confirms:
  assumes wb: "faithful_web wb" and i: "identity_from_capability c inputs = Inr i" and rec: "recognised c inputs i"
    and row: "filed_as i row" and cb: "chargeback_from_row row = Inr cb"
    and data: "data = map (\<lambda>(k, v). (k, wb_json wb v)) (chargeback_answer cb n)"
  shows "identity_mismatch who c inputs data = Inr []" and "truthy (dict_val data ''network_ref'')" and "truthy (dict_val data ''status'')"
proof -
  note whole = identity_complete [OF i]
  have amount: "parse_money (VStr (pr_amount row)) = Inr (id_amount i)"
    using row whole by (simp add: filed_as_def parse_money_money_text)
  have keys: "chargeback_identity row = map (\<lambda>k. (k, input_text data k)) identity_keys"
    by (rule chargeback_answer_says(1) [OF wb cb data])
  have reference: "id_business_reference i \<noteq> []" using whole by simp
  have same: "map_of (canonical_fields i) k = Some (input_text data k) \<and> input_text data k \<noteq> []" if "k \<in> set identity_keys" for k
    using that keys row whole reference
    by (auto simp: identity_keys_def chargeback_identity_def filed_as_def canonical_fields_def)
  have "v \<noteq> [] \<and> input_text data k = v" if "(k, v) \<in> set (expected_identity c inputs)" for k v
  proof -
    have "k \<in> set identity_keys" using imageI [OF that, of fst] unfolding expected_keys [of c inputs, symmetric] by simp
    then show ?thesis using same [of k] rec that by (auto simp: recognised_def)
  qed
  then have fields: "field_mismatch who data (expected_identity c inputs) = []" by (intro no_field_mismatch) auto
  have "dict_val data ''amount'' = wb_json wb (money_val (cb_amount cb))"
    unfolding data by (simp add: chargeback_answer_def dict_val_def)
  moreover have "cb_amount cb = id_amount i" using cb amount by (auto simp: chargeback_from_row_def)
  ultimately have seen: "parse_money (dict_val data ''amount'') = Inr (id_amount i)"
    using wb rec by (simp add: faithful_web_def recognised_def)
  have "amount_mismatch who inputs data = Inr []"
  proof (cases "dict_get inputs ''amount''")
    case (Some v)
    then obtain due where "parse_money v = Inr due" "cents due = cents (id_amount i)" using rec unfolding recognised_def by blast
    then show ?thesis by (simp add: amount_mismatch_def Some seen)
  qed (simp add: amount_mismatch_def)
  then show "identity_mismatch who c inputs data = Inr []" by (simp add: identity_mismatch_def fields)
  show "truthy (dict_val data ''network_ref'')" "truthy (dict_val data ''status'')"
    unfolding data using row cb faithful_text [OF wb]
    by (auto simp: chargeback_answer_def dict_val_def filed_as_def chargeback_from_row_def rbind_eq_Inr)
qed

text \<open>
  C12: Against the simulated processor the outcome of the HTTP actuation is true, whatever
  the switches of the processor and wherever the run may have been interrupted before: a
  success means that the processor holds a chargeback with the complete identity and
  amount of the inputs, \<open>CONFIRMED_NOT_APPLIED\<close> means that it holds none for the case, and
  \<open>BEFORE_SUBMIT\<close> means that its tables did not change.
\<close>

theorem filing_outcome_true:
  assumes "faithful_web wb" and "cap_system c = ''processor''" and "\<not> contains ''provisional_credit'' (cap_id c)"
    and "wb_segment wb (py_str (dict_val inputs ''case_id'')) = Some cid"
    and "execute_http_commit (processor_target cfg wb ch) cfg plan c inputs s = (Ret oc, t)"
  shows "(o_phase oc = BEFORE_SUBMIT \<longrightarrow> ps_chargebacks t = ps_chargebacks s \<and> ps_history t = ps_history s) \<and>
    (o_code oc = CONFIRMED_NOT_APPLIED \<longrightarrow> filings.recorded t cid = None) \<and>
    (is_success oc \<longrightarrow> (\<exists>row. filings.recorded t cid = Some row \<and>
       is_effect c inputs (chargeback_identity row) (stored_cents (pr_amount row))))"
  using processor_truth.commit_true [OF assms(1,5) processor_route [OF assms(2,3)] assms(4)] assms(2) by simp

text \<open>
  A processor in service gets the chargeback filed: the run posts it once, the
  processor records it, and the postcheck confirms it.
\<close>

theorem healthy_processor_confirms:
  assumes "faithful_web wb" and "identity_from_capability c inputs = Inr i" and "recognised c inputs i"
    and "guarded_actuation c" and "cap_system c = ''processor''" and "\<not> contains ''provisional_credit'' (cap_id c)"
    and "needed_input inputs ''card_last4'' = Inr last4" and "last4 \<noteq> []" and "ascii (tandem_admin_token cfg)"
    and "wb_decimal wb (money_text (id_amount i)) = Some (Fin (m_neg (id_amount i)) (m_cents (id_amount i)) (- 2))"
    and "wb_segment wb (py_str (dict_val inputs ''case_id'')) = Some (id_case_id i)"
    and "crash_point plan = None" and "accepts_filings s" and "filings.recorded s (id_case_id i) = None"
  shows "\<exists>oc t row. execute_http_commit (processor_target cfg wb ch) cfg plan c inputs s = (Ret oc, t) \<and> is_success oc \<and>
    o_phase oc = SUBMIT_CONFIRMED \<and> filings.recorded t (id_case_id i) = Some row \<and> filed_as i row \<and>
    filing_count (id_case_id i) t = Suc (filing_count (id_case_id i) s)"
proof -
  obtain t row where run: "execute_http_commit (processor_target cfg wb ch) cfg plan c inputs s =
      bnd (execute_postcheck (processor_target cfg wb ch) cfg c inputs) (\<lambda>postcheck.
        ret (postcheck\<lparr>o_phase := if is_success postcheck then SUBMIT_CONFIRMED else AFTER_SUBMIT_UNKNOWN\<rparr>)) t"
    and row: "filings.recorded t (id_case_id i) = Some row" "filed_as i row" "\<not> ps_fail_lookup_when_present t"
      "filing_count (id_case_id i) t = Suc (filing_count (id_case_id i) s)"
    using commit_is_post_and_check [OF assms(2,4,5,7,8,9,10,12,13,14), of ch] by blast
  obtain cb where cb: "chargeback_from_row row = Inr cb"
    using row(2) identity_complete [OF assms(2)] by (simp add: filed_as_def chargeback_from_row_def parse_money_money_text)
  let ?data = "map (\<lambda>(k, v). (k, wb_json wb v)) (chargeback_answer cb (filing_count (id_case_id i) t))"
  have get: "http_get (processor_target cfg wb ch) ((processor_url cfg @ ''/api/chargebacks/'') @ py_str (dict_val inputs ''case_id'')) t =
      (Inr (json_answer wb 200 (chargeback_answer cb (filing_count (id_case_id i) t))), t)"
    unfolding processor_get using assms(11) row(1,3) cb by (simp add: serve_def get_chargeback_run)
  note confirms = filed_record_confirms [OF assms(1,2,3) row(2) cb refl]
  obtain oc where "execute_postcheck (processor_target cfg wb ch) cfg c inputs t = (Ret oc, t)" "is_success oc"
    using get confirms assms(3)
    by (auto simp: execute_postcheck_def processor_route [OF assms(5,6)] recognised_def get_url_def bnd_run read_postcheck_def
        is_success_def Let_def simp del: append_assoc)
  then show ?thesis using row unfolding run by (auto simp: bnd_def is_success_def)
qed

text \<open>
  C15: A case reference that does not travel as one segment of the path, such as one with
  a slash, defeats the postcheck: the processor files the chargeback, yet the run reports
  that the target positively confirmed its absence.
\<close>

theorem unroutable_case_denied:
  assumes "faithful_web wb" and "identity_from_capability c inputs = Inr i" and "truthy (dict_val inputs ''case_id'')"
    and "guarded_actuation c" and "cap_system c = ''processor''" and "\<not> contains ''provisional_credit'' (cap_id c)"
    and "needed_input inputs ''card_last4'' = Inr last4" and "last4 \<noteq> []" and "ascii (tandem_admin_token cfg)"
    and "wb_decimal wb (money_text (id_amount i)) = Some (Fin (m_neg (id_amount i)) (m_cents (id_amount i)) (- 2))"
    and "wb_segment wb (py_str (dict_val inputs ''case_id'')) = None"
    and "crash_point plan = None" and "accepts_filings s" and "filings.recorded s (id_case_id i) = None"
  shows "\<exists>oc t row. execute_http_commit (processor_target cfg wb ch) cfg plan c inputs s = (Ret oc, t) \<and>
    o_code oc = CONFIRMED_NOT_APPLIED \<and> filings.recorded t (id_case_id i) = Some row \<and> filed_as i row"
proof -
  obtain t row where run: "execute_http_commit (processor_target cfg wb ch) cfg plan c inputs s =
      bnd (execute_postcheck (processor_target cfg wb ch) cfg c inputs) (\<lambda>postcheck.
        ret (postcheck\<lparr>o_phase := if is_success postcheck then SUBMIT_CONFIRMED else AFTER_SUBMIT_UNKNOWN\<rparr>)) t"
    and row: "filings.recorded t (id_case_id i) = Some row" "filed_as i row"
    using commit_is_post_and_check [OF assms(2,4,5,7,8,9,10,12,13,14), of ch] by blast
  have get: "http_get (processor_target cfg wb ch) ((processor_url cfg @ ''/api/chargebacks/'') @ py_str (dict_val inputs ''case_id'')) t =
      (Inr (no_route wb), t)"
    unfolding processor_get using assms(11) by simp
  obtain oc where "execute_postcheck (processor_target cfg wb ch) cfg c inputs t = (Ret oc, t)" "o_code oc = CONFIRMED_NOT_APPLIED"
    using get assms(3)
    by (auto simp: execute_postcheck_def processor_route [OF assms(5,6)] get_url_def bnd_run read_postcheck_def no_route_def
        simp del: append_assoc)
  then show ?thesis using row unfolding run by (auto simp: bnd_def)
qed

end
