(* ===== verification/TargetSamples.thy ===== *)
theory TargetSamples
  imports FilingRuns
begin

text \<open>
  Concrete targets: a transport that delivers what it is given, an idle processor, and the
  runs at which the properties of the simulated targets are applied.
\<close>

definition plain_web :: web where
  "plain_web = \<lparr>wb_json = (\<lambda>v. case v of VDec d \<Rightarrow> VFloat (str_decimal d) | _ \<Rightarrow> v), wb_decimal = parse_decimal,
     wb_segment = (\<lambda>s. if CHR ''/'' \<in> set s then None else Some s), wb_unhandled = (\<lambda>e. html_page 500)\<rparr>"

definition sample_chance :: chance where
  "sample_chance = \<lparr>ch_int = (\<lambda>n low high. low + n), ch_order = (\<lambda>n k. [0..<k]), ch_now = (\<lambda>n. 63924508800000000 + int n)\<rparr>"

definition idle_processor :: processor where
  "idle_processor = \<lparr>sim_draws = 0, ps_session_expired = False, ps_timeout_after_submit = False, ps_system_failure = False,
     ps_fail_lookup_when_present = False, ps_chargebacks = [], ps_history = []\<rparr>"

definition empty_documents :: document_system where
  "empty_documents = \<lparr>sim_draws = 0, dc_simulate_failure = False, dc_notices = [], dc_history = []\<rparr>"

definition empty_bank :: core_bank where
  "empty_bank = \<lparr>sim_draws = 0, bk_institution_id = ''alpha'', bk_session_valid = True, bk_require_compliance = False,
     bk_compliance_cleared = False, bk_latency_ms = 0, bk_post_commit_delay_ms = 0, bk_fail_credit_lookup = False,
     bk_members = [], bk_transactions = [], bk_credits = [], bk_history = []\<rparr>"

definition calm_plan :: crash_plan where
  "calm_plan = \<lparr>crash_point = None, crash_capability = None\<rparr>"

lemma money_json: "wb_json plain_web (money_val m) = VFloat (money_text m)"
  using py_str_money [of m] by (simp add: plain_web_def money_val_def)

lemma read_float_money: "parse_money (VFloat (money_text m)) = parse_money (VStr (money_text m))"
proof -
  have "CHR ''.'' \<in> set (money_text m)" by (simp add: money_text_def)
  then have "money_text m \<noteq> ''nan''" "money_text m \<noteq> ''inf''" "money_text m \<noteq> ''-inf''" by auto
  then show ?thesis by (simp add: parse_money_def)
qed

lemma plain_faithful: "faithful_web plain_web"
proof -
  have "exact_cents \<le> m_cents a"
    if m: "exact_cents \<le> m_cents m" "m_cents m \<le> max_money_cents" "parse_money (wb_json plain_web (money_val m)) = Inr a" for m a
    using read_money_text [of m a] m by (simp add: money_json read_float_money max_money_cents_def)
  then show ?thesis
    by (auto simp: faithful_web_def money_json read_float_money parse_money_money_text exact_cents_def max_money_cents_def)
      (simp_all add: plain_web_def)
qed

lemma sample_token: "ascii (tandem_admin_token default_settings)"
  by (simp add: ascii_def default_settings_def)

lemma sample_amount_field: "wb_decimal plain_web (money_text (id_amount sample_identity)) =
  Some (Fin (m_neg (id_amount sample_identity)) (m_cents (id_amount sample_identity)) (- 2))"
  by (simp add: plain_web_def sample_identity_def parse_decimal_text)

lemma idle_accepts: "accepts_filings idle_processor" "filings.recorded idle_processor cid = None" "filings.store_ok idle_processor"
  by (simp_all add: accepts_filings_def idle_processor_def filings.recorded_def filings.store_ok_def filings.count_def unique_on_def)

lemma empty_stores: "notices.store_ok empty_documents" "books_ok opening empty_bank"
  by (simp_all add: empty_documents_def empty_bank_def notices.store_ok_def notices.count_def notices.recorded_def books_ok_def
      bank_credits.store_ok_def bank_credits.count_def bank_credits.recorded_def unique_on_def)

lemma filing_inputs_vals:
  "dict_val filing_inputs ''case_id'' = VStr ''D-8842''" "dict_get filing_inputs ''amount'' = Some (money_val (Money False 34000))"
  "needed_input filing_inputs ''card_last4'' = Inr ''4242''"
  by (simp_all add: filing_inputs_def sample_inputs_def dict_val_def dict_get_def needed_input_def)

lemma sample_recognised: "recognised chargeback_capability filing_inputs sample_identity"
  using parse_money_val [of "Money False 34000"]
  by (auto simp: recognised_def filing_inputs_vals expected_identity_def input_text_def dict_default_def filing_inputs_def sample_inputs_def
      canonical_fields_def sample_identity_def chargeback_capability_def exact_cents_def max_money_cents_def
      dict_get_def dict_val_def)

lemma chargeback_system: "cap_system chargeback_capability = ''processor''" "\<not> contains ''provisional_credit'' (cap_id chargeback_capability)"
  by (simp_all add: chargeback_capability_def)

theorem healthy_processor_confirms_witness:
  "\<exists>oc t. execute_http_commit (processor_target default_settings plain_web sample_chance) default_settings calm_plan
     chargeback_capability filing_inputs idle_processor = (Ret oc, t) \<and> is_success oc \<and> filing_count ''D-8842'' t = 1"
proof -
  have case_id: "id_case_id sample_identity = ''D-8842''" by (simp add: sample_identity_def)
  have segment: "wb_segment plain_web (py_str (dict_val filing_inputs ''case_id'')) = Some (id_case_id sample_identity)"
    by (simp add: plain_web_def filing_inputs_vals case_id)
  have "filing_count ''D-8842'' idle_processor = 0" by (simp add: filing_count_def idle_processor_def rowcount_def)
  then show ?thesis
    using healthy_processor_confirms [OF plain_faithful filing_identity sample_recognised filing_guarded chargeback_system
      filing_inputs_vals(3) _ sample_token sample_amount_field segment, of calm_plan idle_processor sample_chance]
    by (auto simp: calm_plan_def idle_accepts case_id)
qed

text \<open>The same run with the session of the processor expired.\<close>

lemma expired_session_run:
  "\<exists>oc. execute_http_commit (processor_target default_settings plain_web sample_chance) default_settings calm_plan
     chargeback_capability filing_inputs (idle_processor\<lparr>ps_session_expired := True\<rparr>) =
     (Ret oc, idle_processor\<lparr>ps_session_expired := True\<rparr>) \<and> o_phase oc = BEFORE_SUBMIT"
proof -
  let ?extra = "[(''card_last4'', ''4242''), (''dispute_reason'', ''Unauthorized Transaction'')]"
  note fields = payload_fields [OF filing_identity, of ?extra, simplified]
  show ?thesis
    by (simp add: filing_run dispatch_commit_def maybe_crash_def calm_plan_def post_form_def bnd_run processor_target_def
        file_chargeback_route_def sample_url serve_def admitted_post [OF sample_token] with_field_def with_decimal_def fields
        sample_amount_field process_filing_def read_commit_answer_def)
qed

theorem filing_outcome_true_witness:
  "\<exists>oc t. execute_http_commit (processor_target default_settings plain_web sample_chance) default_settings calm_plan
     chargeback_capability filing_inputs (idle_processor\<lparr>ps_session_expired := True\<rparr>) = (Ret oc, t) \<and> ps_history t = []"
proof -
  obtain oc where run: "execute_http_commit (processor_target default_settings plain_web sample_chance) default_settings calm_plan
     chargeback_capability filing_inputs (idle_processor\<lparr>ps_session_expired := True\<rparr>) =
     (Ret oc, idle_processor\<lparr>ps_session_expired := True\<rparr>)" "o_phase oc = BEFORE_SUBMIT"
    using expired_session_run by blast
  have segment: "wb_segment plain_web (py_str (dict_val filing_inputs ''case_id'')) = Some ''D-8842''"
    by (simp add: plain_web_def filing_inputs_vals)
  show ?thesis
    using filing_outcome_true [OF plain_faithful chargeback_system segment run(1)] run by (auto simp: idle_processor_def)
qed

text \<open>A case reference with a slash.\<close>

definition slash_inputs :: dict where
  "slash_inputs =
     [(''institution_id'', VStr ''alpha''), (''member_id'', VStr ''8830142''), (''account_id'', VStr ''CHK-8830142-01''),
      (''case_id'', VStr ''D/8842''), (''amount'', money_val (Money False 34000)), (''currency'', VStr ''USD''),
      (''card_last4'', VStr ''4242'')]"

definition slash_identity :: effect_identity where
  "slash_identity = sample_identity\<lparr>id_case_id := ''D/8842'', id_business_reference := ''D/8842''\<rparr>"

lemma slash_renders:
  "render_identity ''{{input.institution_id}}'' slash_inputs = Inr ''alpha''"
  "render_identity ''reg_e_dispute'' slash_inputs = Inr ''reg_e_dispute''"
  "render_identity ''processor.file_chargeback'' slash_inputs = Inr ''processor.file_chargeback''"
  "render_identity ''{{input.case_id}}'' slash_inputs = Inr ''D/8842''"
  "render_identity ''{{input.member_id}}'' slash_inputs = Inr ''8830142''"
  "render_identity ''{{input.account_id}}'' slash_inputs = Inr ''CHK-8830142-01''"
  "render_identity ''{{input.amount}}'' slash_inputs = Inr ''340.00''"
  "render_identity ''{{input.currency}}'' slash_inputs = Inr ''USD''"
  by (simp_all add: render_eval slash_inputs_def)

lemma slash_identity_built: "identity_from_capability chargeback_capability slash_inputs = Inr slash_identity"
proof -
  have "parse_decimal ''340.00'' = Some (Fin False 34000 (- 2))" by (simp add: parse_eval)
  moreover have "parse_money (VDec (Fin False 34000 (- 2))) = Inr (Money False 34000)"
    using parse_money_val [of "Money False 34000"] by (simp add: money_val_def max_money_cents_def)
  ultimately show ?thesis
    by (simp add: identity_from_capability_def chargeback_capability_def chargeback_effect_def
        identity_template_def slash_renders decimal_of_text_def make_identity_def require_identity_value_def
        strip_def is_space_def normalize_currency_def upper_def ascii_upper_def is_alpha_def is_alpha_char_def
        sample_identity_def slash_identity_def)
qed

theorem unroutable_case_denied_witness:
  "\<exists>oc t. execute_http_commit (processor_target default_settings plain_web sample_chance) default_settings calm_plan
     chargeback_capability slash_inputs idle_processor = (Ret oc, t) \<and> o_code oc = CONFIRMED_NOT_APPLIED \<and>
     filings.recorded t ''D/8842'' \<noteq> None"
proof -
  have case_id: "id_case_id slash_identity = ''D/8842''" "id_amount slash_identity = id_amount sample_identity"
    by (simp_all add: slash_identity_def)
  have vals: "dict_val slash_inputs ''case_id'' = VStr ''D/8842''" "needed_input slash_inputs ''card_last4'' = Inr ''4242''"
    by (simp_all add: slash_inputs_def dict_val_def needed_input_def dict_get_def)
  have segment: "wb_segment plain_web (py_str (dict_val slash_inputs ''case_id'')) = None"
    by (simp add: plain_web_def vals)
  show ?thesis
    using unroutable_case_denied [OF plain_faithful slash_identity_built _ filing_guarded chargeback_system
      vals(2) _ sample_token _ segment, of calm_plan idle_processor sample_chance] sample_amount_field
    by (auto simp: calm_plan_def idle_accepts case_id vals)
qed

section \<open>The other targets\<close>

definition sample_filing :: filing where
  "sample_filing = \<lparr>fl_case_id = ''D-8842'', fl_card_last4 = ''4242'', fl_amount = money_val (Money False 34000),
     fl_dispute_reason = ''UNAUTHORIZED'', fl_institution_id = ''alpha'', fl_procedure_id = ''reg_e_dispute'',
     fl_capability_id = ''processor.file_chargeback'', fl_member_id = ''8830142'', fl_account_id = ''CHK-8830142-01'',
     fl_currency = ''USD'', fl_business_reference = None\<rparr>"

text \<open>A filing is recorded; one for the same case in another currency leaves the record as it is.\<close>

theorem targets_write_once_witness:
  "\<exists>cb p. file_chargeback sample_chance sample_filing idle_processor = (Ret cb, p) \<and> filings.seen p = [''D-8842'' \<mapsto> cb] \<and>
     filings.seen (snd (file_chargeback sample_chance (sample_filing\<lparr>fl_currency := ''EUR''\<rparr>) p)) = [''D-8842'' \<mapsto> cb]"
proof -
  have key: "fl_case_id sample_filing = ''D-8842''" "fl_amount sample_filing = money_val (Money False 34000)"
    by (simp_all add: sample_filing_def)
  obtain cb u where "insert_chargeback sample_chance sample_filing (Money False 34000) idle_processor = (Ret cb, u)"
    using insert_chargeback_run [of "Money False 34000" sample_chance sample_filing idle_processor] by (auto simp: max_money_cents_def)
  then have run: "file_chargeback sample_chance sample_filing idle_processor = (Ret cb, u)"
    by (simp add: file_chargeback_def key parse_money_val max_money_cents_def transaction_def bnd_def idle_processor_def)
  have none: "filings.seen idle_processor = Map.empty"
    by (simp add: filings.seen_def idle_accepts fun_eq_iff)
  have recorded: "filings.seen u = [''D-8842'' \<mapsto> cb]"
    using targets_write_once [THEN conjunct1, of sample_filing sample_chance idle_processor] by (simp add: run none key write_once_def)
  have "filings.seen (snd (file_chargeback sample_chance (sample_filing\<lparr>fl_currency := ''EUR''\<rparr>) u)) = filings.seen u"
    using targets_write_once [THEN conjunct1, of "sample_filing\<lparr>fl_currency := ''EUR''\<rparr>" sample_chance u]
    by (auto simp: write_once_def key recorded split: option.splits)
  then show ?thesis using run recorded by simp
qed

theorem effects_counted_once_witness:
  "filing_count ''D-8842'' (serve_all plain_web (processor_api default_settings plain_web sample_chance)
     [Filing_inquiry ''D-8842''] idle_processor) = 0"
  using effects_counted_once [OF idle_accepts(3) empty_stores(1), of "''D-8842''" plain_web default_settings sample_chance "[Filing_inquiry ''D-8842'']"]
  by (simp add: serve_def get_chargeback_run idle_accepts)

definition credit_capability :: capability where
  "credit_capability = chargeback_capability\<lparr>cap_id := ''core.post_provisional_credit'', cap_system := ''core_bank''\<rparr>"

lemma credit_route:
  "target_route default_settings credit_capability sample_inputs =
     Inr (Some ((core_bank_url default_settings @ ''/api/credits/'') @ ''D-8842'', True, ''memo_code''))"
  by (simp add: target_route_def credit_capability_def chargeback_capability_def sample_inputs_def dict_val_def core_bank_url_for_def
      normalize_institution_id_def strip_def is_space_def lower_def ascii_lower_def fstr_def Let_def)

lemma credit_segment: "wb_segment plain_web ''D-8842'' = Some ''D-8842''"
  by (simp add: plain_web_def)

lemma credit_run:
  "\<exists>oc. reconcile_commit_execution (bank_target default_settings plain_web) default_settings credit_capability sample_inputs ''timeout'' empty_bank =
     (Ret oc, empty_bank) \<and> o_code oc = CONFIRMED_NOT_APPLIED"
proof -
  have own: "own_credit empty_bank ''D-8842'' = None"
    by (simp add: own_credit_def bank_credits.recorded_def empty_bank_def)
  have get: "http_get (bank_target default_settings plain_web) ((core_bank_url default_settings @ ''/api/credits/'') @ ''D-8842'') empty_bank =
     (Inr (json_answer plain_web 404 [(''error'', VStr ''No credit found for case'')]), empty_bank)"
    unfolding bank_get credit_segment by (simp add: serve_def get_credits_run own)
  have case_id: "truthy (dict_val sample_inputs ''case_id'')" by (simp add: sample_inputs_def dict_val_def)
  obtain p where p: "execute_postcheck (bank_target default_settings plain_web) default_settings credit_capability sample_inputs empty_bank =
     (Ret p, empty_bank)" "o_code p = CONFIRMED_NOT_APPLIED" "\<not> is_success p"
    using get case_id
    by (auto simp: execute_postcheck_def credit_route get_url_def bnd_run read_postcheck_def is_success_def simp del: append_assoc)
  have again: "inquire_again tg cfg c inputs n k p w = (Ret (p, k), w)" for tg :: "core_bank target" and cfg c inputs n k w
    by (cases n) (simp_all add: p(2))
  show ?thesis
    by (simp add: reconcile_commit_execution_def bnd_run p again settle_inquiry_def)
qed

theorem credit_reconciliation_true_witness: "own_credit empty_bank ''D-8842'' = None"
proof -
  obtain oc where run: "reconcile_commit_execution (bank_target default_settings plain_web) default_settings credit_capability
      sample_inputs ''timeout'' empty_bank = (Ret oc, empty_bank)" "o_code oc = CONFIRMED_NOT_APPLIED"
    using credit_run by blast
  show ?thesis
    using credit_reconciliation_true [OF plain_faithful credit_route credit_segment run(1)] run(2) by blast
qed

definition notice_capability :: capability where
  "notice_capability = chargeback_capability\<lparr>cap_id := ''docs.send_notice'', cap_system := ''documents''\<rparr>"

definition notice_inputs :: dict where
  "notice_inputs = sample_inputs @ [(''notice_type'', VStr ''REG_E''), (''deadline_due_at'', VStr ''2026-09-04 17:00:00'')]"

lemma notice_route:
  "target_route default_settings notice_capability notice_inputs =
     Inr (Some ((documents_url default_settings @ ''/api/notices/'') @ ''D-8842'', False, ''notice_id''))"
  by (simp add: target_route_def notice_capability_def chargeback_capability_def notice_inputs_def sample_inputs_def dict_val_def
      fstr_def Let_def)

text \<open>A dispatch that is refused because the server expects another admin token.\<close>

definition rotated_settings :: settings where
  "rotated_settings = default_settings\<lparr>tandem_admin_token := ''rotated''\<rparr>"

lemma notice_run:
  "\<exists>oc. execute_http_commit (documents_target rotated_settings plain_web sample_chance) default_settings calm_plan
     notice_capability notice_inputs empty_documents = (Ret oc, empty_documents) \<and> o_phase oc = BEFORE_SUBMIT"
proof -
  have guarded: "guarded_actuation notice_capability" and same: "cap_effect notice_capability = cap_effect chargeback_capability"
    using filing_guarded by (simp_all add: guarded_actuation_def notice_capability_def)
  have "identity_from_capability notice_capability d = identity_from_capability chargeback_capability d" for d
    unfolding identity_from_capability_def same by (simp add: chargeback_capability_def chargeback_effect_def)
  then have i: "identity_from_capability notice_capability notice_inputs = Inr sample_identity"
    using identity_extends [OF sample_identity_built] by (simp only: notice_inputs_def)
  have build: "build_request default_settings notice_capability notice_inputs sample_identity =
      Inr (documents_url default_settings @ ''/notices/send'', canonical_fields sample_identity @
        [(''notice_type'', ''REG_E''), (''deadline_due_at'', ''2026-09-04 17:00:00'')])"
    by (simp add: build_request_def notice_capability_def needed_input_def notice_inputs_def sample_inputs_def dict_get_def)
  have refused: "require_admin_token rotated_settings (posted_request payload (tandem_admin_token default_settings)) =
      Inl (HTTP_Exception 401 ''Missing or invalid admin token'')" for payload
    by (simp add: require_admin_token_def compare_digest_def rotated_settings_def default_settings_def)
  have "documents_url rotated_settings = documents_url default_settings"
    by (simp add: rotated_settings_def documents_url_def service_url_def)
  then show ?thesis
    by (simp add: execute_http_commit_def guarded i build built_request_passes [OF i build] dispatch_commit_def maybe_crash_def calm_plan_def
        post_form_def bnd_run documents_target_def send_notice_route_def guarded_route_def refused serve_def refused_def read_commit_answer_def)
qed

theorem notice_outcome_true_witness:
  "\<exists>oc t. execute_http_commit (documents_target rotated_settings plain_web sample_chance) default_settings calm_plan
     notice_capability notice_inputs empty_documents = (Ret oc, t) \<and> dc_notices t = []"
proof -
  obtain oc where run: "execute_http_commit (documents_target rotated_settings plain_web sample_chance) default_settings calm_plan
     notice_capability notice_inputs empty_documents = (Ret oc, empty_documents)" "o_phase oc = BEFORE_SUBMIT"
    using notice_run by blast
  have "documents_url rotated_settings = documents_url default_settings" "cap_system notice_capability \<noteq> ''processor''"
    by (simp_all add: rotated_settings_def notice_capability_def documents_url_def service_url_def)
  then show ?thesis
    using notice_outcome_true [OF plain_faithful _ _ notice_route credit_segment run(1)] run by (auto simp: empty_documents_def)
qed

section \<open>The books of the bank\<close>

theorem bank_books_balance_witness:
  "books_ok opening_balance (snd (alpha_console default_settings plain_web sample_chance
     (Reset_bank (posted_request [] (tandem_admin_token default_settings))) empty_bank))"
  using bank_books_balance [OF empty_stores(2), of default_settings plain_web sample_chance
      "Reset_bank (posted_request [] (tandem_admin_token default_settings))"
      "fst (alpha_console default_settings plain_web sample_chance
     (Reset_bank (posted_request [] (tandem_admin_token default_settings))) empty_bank)"]
  by simp

definition rich_bank :: core_bank where
  "rich_bank = empty_bank\<lparr>bk_members := [\<lparr>mr_institution_id = ''alpha'', mr_member_id = ''1'', mr_first_name = ''Ada'',
     mr_last_name = ''Rich'', mr_account_id = ''CHK-1'', mr_balance = money_text (Money False max_money_cents)\<rparr>]\<rparr>"

definition rich_member :: bank_member where
  "rich_member = \<lparr>bm_member_id = ''1'', bm_first_name = ''Ada'', bm_last_name = ''Rich'', bm_account_id = ''CHK-1'',
     bm_balance = Money False max_money_cents, bm_transactions = []\<rparr>"

theorem credit_beyond_range_witness:
  "\<exists>e t row. post_bound_credit sample_chance ''alpha'' ''1'' ''CHK-1'' ''D-8842'' (money_val (Money False 100)) ''USD'' rich_bank = (Raise e, t) \<and>
     bk_credits t = [row] \<and> members t = Inl e"
proof -
  have "members rich_bank = Inr [(''1'', rich_member)]"
    by (simp add: members_def rich_bank_def empty_bank_def latest_first_def member_from_row_def parse_money_money_text rich_member_def)
  moreover have "bk_institution_id rich_bank = ''alpha''" "bk_credits rich_bank = []" by (simp_all add: rich_bank_def empty_bank_def)
  moreover have "parse_money (money_val (Money False 100)) = Inr (Money False 100)"
    by (rule parse_money_val) (simp add: max_money_cents_def)
  ultimately show ?thesis
    using credit_beyond_range [of rich_bank "[(''1'', rich_member)]" "''1''" rich_member "''D-8842''" "money_val (Money False 100)" "Money False 100" sample_chance]
    by (auto simp: rich_member_def cents_def)
qed

section \<open>A request with the wrong token\<close>

theorem mutations_need_token_witness:
  "snd (processor_api default_settings plain_web sample_chance (File_form (posted_request [(''case_id'', ''D-1'')] ''guess'')) idle_processor) = idle_processor"
proof -
  have "\<not> presented default_settings (posted_request [(''case_id'', ''D-1'')] ''guess'')"
    by (simp add: presented_def default_settings_def)
  then show ?thesis
    using mutations_need_token [of "File_form (posted_request [(''case_id'', ''D-1'')] ''guess'')" default_settings
        "Notice_inquiry ''D-1''" "Member_inquiry ''1''"] by simp
qed

end
