(* ===== verification/Evidence.thy ===== *)
theory Evidence
  imports Policy
begin

text \<open>
  Redaction before anything is written as evidence or sent to a provider
  (\<open>tandem/security/evidence.py\<close>).  The four regular expressions are terms of a small
  syntax with the backtracking, greedy semantics of \<open>re\<close>: a matcher yields what is left
  after each way of matching, in the order the engine tries them.  Masking the regions of
  a screenshot is Playwright's.  The theory ends with what a sanitised value can still
  show of a known identifier.
\<close>

section \<open>Regular expressions\<close>

datatype regex =
    One "char \<Rightarrow> bool"
  | Boundary
  | Then regex regex
  | Rep nat "nat option" regex

text \<open>\<open>\w\<close> on the characters a byte can hold.\<close>

definition is_word :: "char \<Rightarrow> bool" where
  "is_word c = (let n = (of_char c :: nat) in is_digit c \<or> is_alpha_char c \<or> n = 95 \<or>
     n \<in> {170, 178, 179, 181, 185, 186, 188, 189, 190} \<or> (192 \<le> n \<and> n \<noteq> 215 \<and> n \<noteq> 247))"

text \<open>A position in a text: what is before it, last character first, and what is after it.\<close>

type_synonym position = "string \<times> string"

definition word_at :: "string \<Rightarrow> bool" where
  "word_at s = (case s of [] \<Rightarrow> False | c # _ \<Rightarrow> is_word c)"

fun repeated :: "(position \<Rightarrow> position list) \<Rightarrow> nat \<Rightarrow> nat \<Rightarrow> position \<Rightarrow> position list" where
  "repeated step least 0 p = (if least = 0 then [p] else [])"
| "repeated step least (Suc n) p =
     concat (map (repeated step (least - 1) n) (step p)) @ (if least = 0 then [p] else [])"

fun matches :: "regex \<Rightarrow> position \<Rightarrow> position list" where
  "matches (One P) (past, []) = []"
| "matches (One P) (past, c # rest) = (if P c then [(c # past, rest)] else [])"
| "matches Boundary (past, rest) = (if word_at past \<noteq> word_at rest then [(past, rest)] else [])"
| "matches (Then r s) p = concat (map (matches s) (matches r p))"
| "matches (Rep least most r) (past, rest) =
     repeated (matches r) least (case most of None \<Rightarrow> length rest | Some n \<Rightarrow> n) (past, rest)"

text \<open>\<open>pattern.sub\<close>: leftmost matches, none of them empty.\<close>

function re_sub :: "regex \<Rightarrow> string \<Rightarrow> position \<Rightarrow> string" where
  "re_sub r new (past, []) = []"
| "re_sub r new (past, c # rest) = (case matches r (past, c # rest) of
      (past', rest') # _ \<Rightarrow>
        if length rest' \<le> length rest then new @ re_sub r new (past', rest') else c # re_sub r new (c # past, rest)
    | [] \<Rightarrow> c # re_sub r new (c # past, rest))"
  by pat_completeness auto
termination
  by (relation "measure (\<lambda>(r, new, past, rest). length rest)") auto

declare re_sub.simps [simp del]

section \<open>The patterns\<close>

definition is_char :: "char \<Rightarrow> regex" where
  "is_char c = One (\<lambda>d. d = c)"

definition exactly :: "nat \<Rightarrow> regex \<Rightarrow> regex" where
  "exactly n r = Rep n (Some n) r"

definition at_least :: "nat \<Rightarrow> regex \<Rightarrow> regex" where
  "at_least n r = Rep n None r"

fun sequence :: "regex list \<Rightarrow> regex" where
  "sequence [] = Rep 0 (Some 0) Boundary"
| "sequence [r] = r"
| "sequence (r # rs) = Then r (sequence rs)"

definition alnum :: "char \<Rightarrow> bool" where
  "alnum c \<longleftrightarrow> is_alpha_char c \<or> is_digit c"

definition ssn_pattern :: regex where
  "ssn_pattern = sequence [Boundary, exactly 3 (One is_digit), is_char (CHR ''-''), exactly 2 (One is_digit),
     is_char (CHR ''-''), exactly 4 (One is_digit), Boundary]"

definition email_pattern :: regex where
  "email_pattern = sequence [Boundary, at_least 1 (One (\<lambda>c. alnum c \<or> c \<in> set ''._%+-'')), is_char (CHR ''@''),
     at_least 1 (One (\<lambda>c. alnum c \<or> c \<in> set ''.-'')), is_char (CHR ''.''), at_least 2 (One is_alpha_char), Boundary]"

definition card_pattern :: regex where
  "card_pattern = sequence [Boundary,
     Rep 13 (Some 19) (Then (One is_digit) (Rep 0 (Some 1) (One (\<lambda>c. c \<in> set '' -'')))), Boundary]"

definition bearer_pattern :: regex where
  "bearer_pattern = sequence ([Boundary] @ map (\<lambda>c. One (\<lambda>d. ascii_lower d = c)) ''bearer'' @
     [at_least 1 (One is_space), at_least 1 (One (\<lambda>c. alnum c \<or> c \<in> set ''._-''))])"

definition evidence_patterns :: "regex list" where
  "evidence_patterns = [ssn_pattern, email_pattern, card_pattern, bearer_pattern]"

section \<open>Redaction\<close>

definition redacted :: string where
  "redacted = ''[REDACTED]''"

text \<open>The configured secrets: the three provider keys and the admin token.\<close>

record provider_keys =
  gemini_api_key :: string
  openai_api_key :: string
  anthropic_api_key :: string

definition secrets :: "provider_keys \<Rightarrow> settings \<Rightarrow> string list" where
  "secrets keys cfg = [gemini_api_key keys, openai_api_key keys, anthropic_api_key keys, tandem_admin_token cfg]"

definition mask_identifier :: "string \<Rightarrow> string" where
  "mask_identifier text =
     (if length text \<le> 4 then replicate (length text) (CHR ''*'')
      else let visible = min 4 (length text)
        in replicate (max 4 (length text - visible)) (CHR ''*'') @ drop (length text - visible) text)"

definition redact_text :: "string list \<Rightarrow> string \<Rightarrow> string" where
  "redact_text known_secrets value =
     fold (\<lambda>pattern text. re_sub pattern redacted ([], text)) evidence_patterns
       (fold (\<lambda>secret text. if secret = [] then text else replace_all secret redacted text) known_secrets value)"

definition secret_key :: "string \<Rightarrow> bool" where
  "secret_key key = list_ex (\<lambda>part. contains part (lower key)) [''password'', ''secret'', ''token'', ''api_key'', ''authorization'']"

fun sanitize :: "string list \<Rightarrow> val \<Rightarrow> val"
  and sanitize_items :: "string list \<Rightarrow> val list \<Rightarrow> val list"
  and sanitize_pairs :: "string list \<Rightarrow> dict \<Rightarrow> dict" where
  "sanitize ss (VStr s) = VStr (redact_text ss s)"
| "sanitize ss (VDict d) = VDict (sanitize_pairs ss d)"
| "sanitize ss (VList xs) = VList (sanitize_items ss xs)"
| "sanitize ss v = v"
| "sanitize_items ss [] = []"
| "sanitize_items ss (x # xs) = sanitize ss x # sanitize_items ss xs"
| "sanitize_pairs ss [] = []"
| "sanitize_pairs ss ((k, v) # d) = (k, if secret_key k then VStr redacted else sanitize ss v) # sanitize_pairs ss d"

definition identifier_keys :: "string list" where
  "identifier_keys = [''member_id'', ''account_id'', ''source_member_id'', ''target_member_id'', ''source_account_id'',
     ''target_account_id'', ''expected_entity'', ''observed_entity'']"

definition mask_known :: "string list \<Rightarrow> string \<Rightarrow> string" where
  "mask_known known text = fold (\<lambda>identifier t. replace_all identifier (mask_identifier identifier) t) known text"

fun visit :: "string list \<Rightarrow> string list \<Rightarrow> val \<Rightarrow> val"
  and visit_items :: "string list \<Rightarrow> string list \<Rightarrow> val list \<Rightarrow> val list"
  and visit_pairs :: "string list \<Rightarrow> string list \<Rightarrow> dict \<Rightarrow> dict" where
  "visit ss known (VStr s) = VStr (mask_known known (redact_text ss s))"
| "visit ss known (VDict d) = VDict (visit_pairs ss known d)"
| "visit ss known (VList xs) = VList (visit_items ss known xs)"
| "visit ss known v = v"
| "visit_items ss known [] = []"
| "visit_items ss known (x # xs) = visit ss known x # visit_items ss known xs"
| "visit_pairs ss known [] = []"
| "visit_pairs ss known ((k, v) # d) =
     (k, if secret_key k then VStr redacted
         else case v of VStr s \<Rightarrow> if lower k \<in> set identifier_keys then VStr (mask_identifier s) else visit ss known v
           | _ \<Rightarrow> visit ss known v) # visit_pairs ss known d"

text \<open>
  The identifiers are put in a set first; \<open>enum\<close> is the order in which Python iterates over
  it, which the sorting by length leaves among identifiers of one length.
\<close>

definition known_identifiers :: "(string list \<Rightarrow> string list) \<Rightarrow> string list \<Rightarrow> string list" where
  "known_identifiers enum identifiers = sort_key (\<lambda>s. - int (length s)) (enum (filter (\<lambda>s. s \<noteq> []) identifiers))"

definition sanitize_evidence :: "string list \<Rightarrow> (string list \<Rightarrow> string list) \<Rightarrow> string list \<Rightarrow> val \<Rightarrow> val" where
  "sanitize_evidence ss enum identifiers value = visit ss (known_identifiers enum identifiers) value"

section \<open>What masking leaves\<close>

text \<open>No proper end of the text is also its beginning: occurrences cannot overlap.\<close>

definition borderless :: "string \<Rightarrow> bool" where
  "borderless w \<longleftrightarrow> (\<forall>n \<in> {1..<length w}. take n w \<noteq> drop (length w - n) w)"

definition plain :: "string \<Rightarrow> bool" where
  "plain w \<longleftrightarrow> CHR ''*'' \<notin> set w"

text \<open>A mask is at least one star, then the end of the text, of at most four characters.\<close>

lemma mask_shape:
  assumes "t \<noteq> []"
  obtains n a b where "mask_identifier t = replicate (Suc n) (CHR ''*'') @ b" "t = a @ b" "length b \<le> 4" "length b < length t"
proof (cases "length t \<le> 4")
  case True
  obtain n where "length t = Suc n" using assms by (cases t) auto
  then have "mask_identifier t = replicate (Suc n) (CHR ''*'') @ []" using True by (simp add: mask_identifier_def)
  then show thesis using that [of _ "[]" t] assms by simp
next
  case False
  obtain n where "max 4 (length t - 4) = Suc n" by (cases "max 4 (length t - 4)") auto
  then have "mask_identifier t = replicate (Suc n) (CHR ''*'') @ drop (length t - 4) t"
    using False by (simp add: mask_identifier_def Let_def)
  then show thesis using that [of _ "drop (length t - 4) t" "take (length t - 4) t"] False by simp
qed

lemma starts_with_star: "plain w \<Longrightarrow> starts_with w (s @ CHR ''*'' # t) \<Longrightarrow> starts_with w s"
proof (induction s arbitrary: w)
  case Nil
  then show ?case by (cases w) (auto simp: plain_def)
next
  case (Cons c s)
  then show ?case by (cases w) (auto simp: plain_def)
qed

lemma starts_with_longer: "starts_with w s \<Longrightarrow> starts_with w (s @ t)"
  by (auto simp: starts_with_iff)

lemma starts_with_masked:
  "plain w \<Longrightarrow> starts_with w (u @ replace_all old (mask_identifier old) s) \<Longrightarrow> starts_with w (u @ s)"
proof (induction "length s" arbitrary: s u rule: less_induct)
  case less
  show ?case
  proof (cases "old = [] \<or> s = []")
    case True
    then show ?thesis using less.prems by (subst (asm) replace_all.simps) simp
  next
    case False
    then obtain n b where m: "mask_identifier old = replicate (Suc n) (CHR ''*'') @ b" by (metis mask_shape)
    show ?thesis
    proof (cases "starts_with old s")
      case True
      then have "starts_with w (u @ CHR ''*'' # (replicate n (CHR ''*'') @ b @ replace_all old (mask_identifier old) (drop (length old) s)))"
        using less.prems(2) False m by (subst (asm) replace_all.simps) simp
      then show ?thesis using starts_with_star [OF less.prems(1)] starts_with_longer by blast
    next
      case no: False
      obtain c s' where s: "s = c # s'" using False by (cases s) auto
      have "starts_with w ((u @ [c]) @ replace_all old (mask_identifier old) s')"
        using less.prems(2) False no s by (subst (asm) replace_all.simps) simp
      then show ?thesis using less.hyps [of s' "u @ [c]"] less.prems(1) s by simp
    qed
  qed
qed

lemma contains_Nil [simp]: "contains [] s"
  by (cases s) simp_all

lemma contains_append: "contains w t \<Longrightarrow> contains w (s @ t)"
  unfolding contains_iff by (metis append_assoc)

lemma contains_stars: "plain w \<Longrightarrow> contains w (replicate n (CHR ''*'') @ t) \<Longrightarrow> contains w t"
proof (induction n)
  case (Suc n)
  then show ?case by (cases w) (auto simp: plain_def)
qed simp

lemma contains_split: "contains w (s @ t) \<Longrightarrow> (\<exists>a b. s = a @ b \<and> b \<noteq> [] \<and> starts_with w (b @ t)) \<or> contains w t"
proof (induction s)
  case (Cons c s)
  from Cons.prems consider "starts_with w ((c # s) @ t)" | "contains w (s @ t)" by auto
  then show ?case
  proof cases
    case 1
    have "c # s = [] @ (c # s)" by simp
    then show ?thesis using 1 by blast
  next
    case 2
    then show ?thesis using Cons.IH by (metis append_Cons)
  qed
qed simp

lemma starts_contains: "starts_with w t \<Longrightarrow> contains w (s @ t)"
  by (auto simp: starts_with_iff contains_iff)

text \<open>Masking one identifier never makes another text appear, and removes the identifier.\<close>

lemma contains_masked:
  "plain w \<Longrightarrow> contains w (replace_all old (mask_identifier old) s) \<Longrightarrow> contains w s"
proof (induction "length s" arbitrary: s rule: less_induct)
  case less
  show ?case
  proof (cases "old = [] \<or> s = []")
    case True
    then show ?thesis using less.prems by (subst (asm) replace_all.simps) simp
  next
    case False
    then obtain n a b where m: "mask_identifier old = replicate (Suc n) (CHR ''*'') @ b" and o': "old = a @ b" by (metis mask_shape)
    show ?thesis
    proof (cases "starts_with old s")
      case True
      then obtain r where r: "s = old @ r" by (auto simp: starts_with_iff)
      have "contains w (replicate (Suc n) (CHR ''*'') @ (b @ replace_all old (mask_identifier old) r))"
        using less.prems(2) False True m r by (subst (asm) replace_all.simps) simp
      then have "contains w (b @ replace_all old (mask_identifier old) r)" by (rule contains_stars [OF less.prems(1)])
      then consider b1 b2 where "b = b1 @ b2" "starts_with w (b2 @ replace_all old (mask_identifier old) r)"
        | "contains w (replace_all old (mask_identifier old) r)" using contains_split by blast
      then show ?thesis
      proof cases
        case 1
        then have "contains w ((a @ b1) @ (b2 @ r))" using starts_with_masked [OF less.prems(1)] starts_contains by blast
        then show ?thesis using r o' 1 by simp
      next
        case 2
        then have "contains w r" using less.hyps [of r] less.prems(1) r False by simp
        then show ?thesis using r contains_append by blast
      qed
    next
      case no: False
      obtain c s' where s: "s = c # s'" using False by (cases s) auto
      have "contains w (c # replace_all old (mask_identifier old) s')"
        using less.prems(2) False no s by (subst (asm) replace_all.simps) simp
      then consider "starts_with w ([c] @ replace_all old (mask_identifier old) s')" | "contains w (replace_all old (mask_identifier old) s')"
        by auto
      then show ?thesis
      proof cases
        case 1
        then show ?thesis using starts_with_masked [OF less.prems(1)] s by fastforce
      next
        case 2
        then show ?thesis using less.hyps [of s'] less.prems(1) s by simp
      qed
    qed
  qed
qed

lemma border_of_overlap:
  assumes "starts_with w (b @ r)" "w = a @ b" "a \<noteq> []" "b \<noteq> []"
  shows "\<not> borderless w"
proof -
  have "take (length b) w = b"
  proof -
    obtain t where "b @ r = w @ t" using assms(1) by (auto simp: starts_with_iff)
    then have "take (length b) (w @ t) = b" by (metis append_eq_conv_conj)
    then show ?thesis using assms(2) by simp
  qed
  moreover have "drop (length w - length b) w = b" using assms(2) by simp
  moreover have "length b \<in> {1..<length w}" using assms(2,3,4) by (cases a; cases b) auto
  ultimately show ?thesis unfolding borderless_def by metis
qed

lemma masked_away:
  assumes "plain w" "w \<noteq> []" "borderless w"
  shows "\<not> contains w (replace_all w (mask_identifier w) s)"
proof (induction "length s" arbitrary: s rule: less_induct)
  case less
  obtain n a b where m: "mask_identifier w = replicate (Suc n) (CHR ''*'') @ b" and w: "w = a @ b" and a: "a \<noteq> []"
    using mask_shape [OF assms(2)] by (metis append_Nil less_irrefl)
  show ?case
  proof (cases "starts_with w s \<and> s \<noteq> []")
    case True
    then obtain r where r: "s = w @ r" by (auto simp: starts_with_iff)
    show ?thesis
    proof
      assume "contains w (replace_all w (mask_identifier w) s)"
      then have "contains w (replicate (Suc n) (CHR ''*'') @ (b @ replace_all w (mask_identifier w) r))"
        using assms(2) True m r by (subst (asm) replace_all.simps) simp
      then have "contains w (b @ replace_all w (mask_identifier w) r)" by (rule contains_stars [OF assms(1)])
      then consider b1 b2 where "b = b1 @ b2" "b2 \<noteq> []" "starts_with w (b2 @ replace_all w (mask_identifier w) r)"
        | "contains w (replace_all w (mask_identifier w) r)" using contains_split by blast
      then show False
      proof cases
        case 1
        then have "starts_with w (b2 @ r)" using starts_with_masked [OF assms(1)] by blast
        then show False using border_of_overlap [of w b2 r "a @ b1"] 1 w a assms(3) by simp
      next
        case 2
        then show False using less.hyps [of r] r assms(2) by simp
      qed
    qed
  next
    case no: False
    show ?thesis
    proof (cases s)
      case Nil
      then show ?thesis using assms(2) by (simp add: replace_all.simps)
    next
      case (Cons c s')
      show ?thesis
      proof
        assume "contains w (replace_all w (mask_identifier w) s)"
        then have "contains w (c # replace_all w (mask_identifier w) s')"
          using assms(2) no Cons by (subst (asm) replace_all.simps) simp
        then consider "starts_with w ([c] @ replace_all w (mask_identifier w) s')" | "contains w (replace_all w (mask_identifier w) s')"
          by auto
        then show False
        proof cases
          case 1
          then show False using starts_with_masked [OF assms(1)] no Cons by fastforce
        next
          case 2
          then show False using less.hyps [of s'] Cons by simp
        qed
      qed
    qed
  qed
qed

lemma contains_mask_known: "plain w \<Longrightarrow> contains w (mask_known known s) \<Longrightarrow> contains w s"
proof (induction known arbitrary: s)
  case (Cons k known)
  then have "contains w (replace_all k (mask_identifier k) s)" by (simp add: mask_known_def)
  then show ?case by (rule contains_masked [OF Cons.prems(1)])
qed (simp add: mask_known_def)

lemma mask_known_hides:
  assumes "plain w" "w \<noteq> []" "borderless w" "w \<in> set known"
  shows "\<not> contains w (mask_known known s)"
  using assms(4)
proof (induction known arbitrary: s)
  case (Cons k known)
  show ?case
  proof (cases "w \<in> set known")
    case True
    then show ?thesis using Cons.IH by (simp add: mask_known_def)
  next
    case False
    then have "k = w" using Cons.prems by simp
    then show ?thesis
      using masked_away [OF assms(1-3), of s] contains_mask_known [OF assms(1), of known] by (auto simp: mask_known_def)
  qed
qed simp

section \<open>What the marker leaves\<close>

text \<open>A copy of a text in which the marker stands for some of its parts.\<close>

inductive stamped :: "string \<Rightarrow> string \<Rightarrow> bool" where
  stamped_Nil: "stamped [] []"
| stamped_char: "stamped s t \<Longrightarrow> stamped (c # s) (c # t)"
| stamped_part: "stamped s t \<Longrightarrow> stamped (u @ s) (redacted @ t)"

lemma stamped_refl: "stamped s s"
  by (induction s) (auto intro: stamped.intros)

text \<open>A text without brackets that is no part of the marker: no occurrence of it can touch the marker.\<close>

definition unmarked :: "string \<Rightarrow> bool" where
  "unmarked w \<longleftrightarrow> CHR ''['' \<notin> set w \<and> CHR '']'' \<notin> set w \<and> \<not> contains w redacted"

lemma starts_with_other: "c \<notin> set w \<Longrightarrow> starts_with w (s @ c # t) \<Longrightarrow> starts_with w s"
  by (induction w s rule: starts_with.induct) auto

lemma starts_with_marker:
  assumes "unmarked w" "redacted = a @ b" "b \<noteq> []"
  shows "\<not> starts_with w (b @ t)"
proof
  assume h: "starts_with w (b @ t)"
  obtain b' where b: "b = b' @ [CHR '']'']"
    using assms(2,3) by (cases b rule: rev_cases) (auto simp: redacted_def)
  then have "starts_with w b'" using h assms(1) starts_with_other [of "CHR '']''" w b' t] by (simp add: unmarked_def)
  then have "starts_with w b" unfolding b by (rule starts_with_longer)
  then have "contains w redacted" unfolding assms(2) by (rule starts_contains)
  then show False using assms(1) by (simp add: unmarked_def)
qed

lemma contains_after_marker: "unmarked w \<Longrightarrow> contains w (redacted @ t) \<Longrightarrow> contains w t"
  using contains_split [of w redacted t] starts_with_marker by blast

lemma starts_with_stamped: "stamped s t \<Longrightarrow> unmarked w \<Longrightarrow> starts_with w (p @ t) \<Longrightarrow> starts_with w (p @ s)"
proof (induction arbitrary: p rule: stamped.induct)
  case (stamped_char s t c)
  then show ?case using stamped_char.IH [of "p @ [c]"] by simp
next
  case (stamped_part s t u)
  have "starts_with w (p @ CHR ''['' # (''REDACTED]'' @ t))" using stamped_part.prems(2) by (simp add: redacted_def)
  then have "starts_with w p" using starts_with_other [of "CHR ''[''" w p] stamped_part.prems(1) unfolding unmarked_def by blast
  then show ?case by (rule starts_with_longer)
qed simp

lemma contains_stamped: "stamped s t \<Longrightarrow> unmarked w \<Longrightarrow> contains w t \<Longrightarrow> contains w s"
proof (induction rule: stamped.induct)
  case (stamped_char s t c)
  from stamped_char.prems(2) consider "starts_with w ([c] @ t)" | "contains w t" by auto
  then show ?case
  proof cases
    case 1
    then have "starts_with w ([c] @ s)" using starts_with_stamped [OF stamped_char.hyps(1) stamped_char.prems(1)] by blast
    then show ?thesis by simp
  qed (use stamped_char in simp)
next
  case (stamped_part s t u)
  then show ?case using contains_after_marker contains_append by blast
qed simp

lemma replace_all_steps:
  "old \<noteq> [] \<Longrightarrow> replace_all old new (old @ r) = new @ replace_all old new r"
  "\<not> starts_with old (c # s) \<Longrightarrow> replace_all old new (c # s) = c # replace_all old new s"
  "replace_all old new [] = []" "replace_all [] new s = s"
  by (simp_all add: replace_all.simps [of old new "old @ r"] replace_all.simps [of old new "c # s"]
      replace_all.simps [of old new "[]"] replace_all.simps [of "[]" new s])

lemma replace_all_stamped: "stamped s (replace_all old redacted s)"
proof (induction "length s" arbitrary: s rule: less_induct)
  case less
  consider "old = []" | "s = []" | r where "old \<noteq> []" "s = old @ r" | c s' where "s = c # s'" "\<not> starts_with old (c # s')"
    by (cases s) (auto simp: starts_with_iff)
  then show ?case
  proof cases
    case 3
    then show ?thesis using less.hyps [of r] by (simp add: replace_all_steps stamped_part)
  next
    case 4
    then show ?thesis using less.hyps [of s'] by (simp add: replace_all_steps stamped_char)
  qed (simp_all add: replace_all_steps stamped_refl)
qed

lemma repeated_suffix:
  assumes "\<And>p q. q \<in> set (step p) \<Longrightarrow> \<exists>u. snd p = u @ snd q"
  shows "q \<in> set (repeated step least n p) \<Longrightarrow> \<exists>u. snd p = u @ snd q"
proof (induction n arbitrary: least p)
  case (Suc n)
  then consider "q = p" | m where "m \<in> set (step p)" "q \<in> set (repeated step (least - 1) n m)"
    by (auto split: if_splits)
  then show ?case
  proof cases
    case 2
    obtain u where "snd m = u @ snd q" using Suc.IH [OF 2(2)] by blast
    moreover obtain v where "snd p = v @ snd m" using assms [OF 2(1)] by blast
    ultimately show ?thesis by (intro exI [of _ "v @ u"]) simp
  qed simp
qed (simp split: if_splits)

lemma matches_suffix: "q \<in> set (matches r p) \<Longrightarrow> \<exists>u. snd p = u @ snd q"
proof (induction r arbitrary: p q)
  case (One P)
  obtain past rest where p: "p = (past, rest)" by (cases p)
  show ?case using One by (cases rest) (auto simp: p split: if_splits)
next
  case Boundary
  obtain past rest where p: "p = (past, rest)" by (cases p)
  show ?case using Boundary by (auto simp: p split: if_splits)
next
  case (Then r s)
  then obtain m where m: "m \<in> set (matches r p)" "q \<in> set (matches s m)" by auto
  obtain u where "snd m = u @ snd q" using Then.IH(2) [OF m(2)] by blast
  moreover obtain v where "snd p = v @ snd m" using Then.IH(1) [OF m(1)] by blast
  ultimately show ?case by (intro exI [of _ "v @ u"]) simp
next
  case (Rep least most r)
  obtain past rest where p: "p = (past, rest)" by (cases p)
  show ?case by (rule repeated_suffix [where step = "matches r", OF Rep.IH]) (use Rep.prems in \<open>simp_all add: p\<close>)
qed

lemma re_sub_stamped: "stamped (snd p) (re_sub r redacted p)"
proof (induction "length (snd p)" arbitrary: p rule: less_induct)
  case less
  obtain past todo where p: "p = (past, todo)" by (cases p)
  show ?case
  proof (cases todo)
    case Nil
    then show ?thesis by (simp add: p re_sub.simps stamped_Nil)
  next
    case (Cons c rest)
    have skip: "stamped (c # rest) (c # re_sub r redacted (c # past, rest))"
      using less.hyps [of "(c # past, rest)"] by (intro stamped_char) (simp add: p Cons)
    show ?thesis
    proof (cases "matches r p")
      case Nil
      then show ?thesis using skip by (simp add: p Cons re_sub.simps)
    next
      case m: (Cons q qs)
      obtain past' rest' where q: "q = (past', rest')" by (cases q)
      obtain u where u: "c # rest = u @ rest'" using matches_suffix [of q r p] m q by (auto simp: p Cons)
      show ?thesis
      proof (cases "length rest' \<le> length rest")
        case True
        have "stamped (u @ rest') (redacted @ re_sub r redacted (past', rest'))"
          using less.hyps [of "(past', rest')"] True by (intro stamped_part) (simp add: p Cons)
        moreover have "re_sub r redacted (past, c # rest) = redacted @ re_sub r redacted (past', rest')"
          using m q True by (simp add: p Cons re_sub.simps)
        ultimately show ?thesis unfolding p Cons snd_conv by (simp add: u)
      next
        case False
        then show ?thesis using m q skip by (simp add: p Cons re_sub.simps)
      qed
    qed
  qed
qed

lemma redacted_away:
  assumes "unmarked w" "w \<noteq> []"
  shows "\<not> contains w (replace_all w redacted s)"
proof (induction "length s" arbitrary: s rule: less_induct)
  case less
  consider "s = []" | r where "s = w @ r" | c s' where "s = c # s'" "\<not> starts_with w (c # s')"
    by (cases s) (auto simp: starts_with_iff)
  then show ?case
  proof cases
    case 1
    then show ?thesis using assms(2) by (simp add: replace_all_steps)
  next
    case (2 r)
    then have "replace_all w redacted s = redacted @ replace_all w redacted r" using assms(2) by (simp add: replace_all_steps)
    moreover have "\<not> contains w (replace_all w redacted r)" using less.hyps [of r] 2 assms(2) by simp
    ultimately show ?thesis using contains_after_marker [OF assms(1)] by metis
  next
    case (3 c s')
    have "\<not> starts_with w ([c] @ replace_all w redacted s')"
      using starts_with_stamped [OF replace_all_stamped assms(1), of "[c]" w s'] 3(2) by auto
    then show ?thesis using less.hyps [of s'] 3 by (simp add: replace_all_steps)
  qed
qed

abbreviation remove_secrets :: "string list \<Rightarrow> string \<Rightarrow> string" where
  "remove_secrets \<equiv> fold (\<lambda>secret text. if secret = [] then text else replace_all secret redacted text)"

lemma contains_secrets:
  assumes "unmarked w"
  shows "contains w (remove_secrets ss s) \<Longrightarrow> contains w s"
proof (induction ss arbitrary: s)
  case (Cons k ss)
  then have "contains w (if k = [] then s else replace_all k redacted s)" by simp
  then show ?case by (cases "k = []") (simp, metis contains_stamped [OF replace_all_stamped assms])
qed simp

lemma contains_patterns:
  assumes "unmarked w"
  shows "contains w (fold (\<lambda>pattern text. re_sub pattern redacted ([], text)) ps s) \<Longrightarrow> contains w s"
proof (induction ps arbitrary: s)
  case (Cons r ps)
  then have "contains w (re_sub r redacted ([], s))" by simp
  then show ?case using contains_stamped [OF re_sub_stamped [of "([], s)" r] assms] by (simp only: snd_conv)
qed simp

lemma secrets_removed:
  assumes "unmarked w" "w \<noteq> []"
  shows "w \<in> set ss \<Longrightarrow> \<not> contains w (remove_secrets ss s)"
proof (induction ss arbitrary: s)
  case (Cons k ss)
  show ?case
  proof (cases "w \<in> set ss")
    case True
    then show ?thesis using Cons.IH by simp
  next
    case False
    then have "k = w" using Cons.prems by simp
    then have "remove_secrets (k # ss) s = remove_secrets ss (replace_all w redacted s)" using assms(2) by simp
    then show ?thesis
      using redacted_away [OF assms, of s] contains_secrets [OF assms(1), of ss "replace_all w redacted s"] by (simp only:) blast
  qed
qed simp

lemma redact_text_hides:
  assumes "unmarked w" "w \<noteq> []" "w \<in> set ss"
  shows "\<not> contains w (redact_text ss s)"
  using secrets_removed [OF assms] contains_patterns [OF assms(1)] unfolding redact_text_def by blast

section \<open>What a sanitised value shows\<close>

text \<open>The texts in a value, and the values under a key that names a secret.\<close>

fun texts :: "val \<Rightarrow> string list" and texts_items :: "val list \<Rightarrow> string list" and texts_pairs :: "dict \<Rightarrow> string list" where
  "texts (VStr s) = [s]"
| "texts (VDict d) = texts_pairs d"
| "texts (VList xs) = texts_items xs"
| "texts v = []"
| "texts_items [] = []"
| "texts_items (x # xs) = texts x @ texts_items xs"
| "texts_pairs [] = []"
| "texts_pairs ((k, v) # d) = texts v @ texts_pairs d"

fun under_secrets :: "val \<Rightarrow> val list" and under_secrets_items :: "val list \<Rightarrow> val list"
  and under_secrets_pairs :: "dict \<Rightarrow> val list" where
  "under_secrets (VDict d) = under_secrets_pairs d"
| "under_secrets (VList xs) = under_secrets_items xs"
| "under_secrets v = []"
| "under_secrets_items [] = []"
| "under_secrets_items (x # xs) = under_secrets x @ under_secrets_items xs"
| "under_secrets_pairs [] = []"
| "under_secrets_pairs ((k, v) # d) = (if secret_key k then [v] else under_secrets v) @ under_secrets_pairs d"

lemma visited_texts:
  assumes "P redacted" "\<And>s. P (mask_identifier s)" "\<And>s. P (mask_known known (redact_text ss s))"
  shows "\<forall>t \<in> set (texts (visit ss known v)). P t"
    "\<forall>t \<in> set (texts_items (visit_items ss known xs)). P t"
    "\<forall>t \<in> set (texts_pairs (visit_pairs ss known d)). P t"
  using assms
  by (induction ss known v and ss known xs and ss known d rule: visit_visit_items_visit_pairs.induct)
    (auto split: val.splits)

lemma visited_secrets:
  "\<forall>v \<in> set (under_secrets (visit ss known u)). v = VStr redacted"
  "\<forall>v \<in> set (under_secrets_items (visit_items ss known xs)). v = VStr redacted"
  "\<forall>v \<in> set (under_secrets_pairs (visit_pairs ss known d)). v = VStr redacted"
  by (induction ss known u and ss known xs and ss known d rule: visit_visit_items_visit_pairs.induct) (auto split: val.splits)

lemma short_in_mask:
  assumes "plain w" "4 < length w"
  shows "\<not> contains w (mask_identifier s)"
proof
  assume c: "contains w (mask_identifier s)"
  show False
  proof (cases "s = []")
    case True
    then show False using c assms(2) by (simp add: mask_identifier_def)
  next
    case False
    then obtain n a b where "mask_identifier s = replicate (Suc n) (CHR ''*'') @ b" "length b \<le> 4" by (metis mask_shape)
    then have "contains w b" using c contains_stars [OF assms(1), of "Suc n" b] by metis
    then show False using assms(2) \<open>length b \<le> 4\<close> by (auto simp: contains_iff)
  qed
qed

text \<open>
  C27: Sanitised evidence shows neither who it is about nor a secret.  No text in it, at any
  depth, contains a known identifier or a configured secret, and every value under a key that
  names a secret is the marker; what is left of an identifier is a mask with its last four
  characters.  This holds of identifiers and secrets of more than four characters without a
  star that are no part of the marker; an identifier must not overlap with itself, and a
  secret has no bracket.
\<close>

theorem sanitized_evidence_hides:
  assumes "set (enum (filter (\<lambda>s. s \<noteq> []) identifiers)) = set (filter (\<lambda>s. s \<noteq> []) identifiers)"
    and "4 < length w" "plain w" "\<not> contains w redacted"
    and "w \<in> set identifiers \<and> borderless w \<or> w \<in> set ss \<and> CHR ''['' \<notin> set w \<and> CHR '']'' \<notin> set w"
  shows "(\<forall>t \<in> set (texts (sanitize_evidence ss enum identifiers v)). \<not> contains w t)
    \<and> (\<forall>u \<in> set (under_secrets (sanitize_evidence ss enum identifiers v)). u = VStr redacted)"
proof -
  have w: "w \<noteq> []" using assms(2) by auto
  have "set (known_identifiers enum identifiers) = set (enum (filter (\<lambda>s. s \<noteq> []) identifiers))" by (simp add: known_identifiers_def)
  also note assms(1)
  finally have known: "w \<in> set identifiers \<Longrightarrow> w \<in> set (known_identifiers enum identifiers)" using w by simp
  have "\<not> contains w (mask_known (known_identifiers enum identifiers) (redact_text ss s))" for s
    using assms(5)
  proof
    assume "w \<in> set identifiers \<and> borderless w"
    then show ?thesis using mask_known_hides [OF assms(3) w _ known] by blast
  next
    assume "w \<in> set ss \<and> CHR ''['' \<notin> set w \<and> CHR '']'' \<notin> set w"
    then show ?thesis using redact_text_hides [of w ss s] contains_mask_known [OF assms(3)] assms(4) w by (auto simp: unmarked_def)
  qed
  then have "\<forall>t \<in> set (texts (visit ss (known_identifiers enum identifiers) v)). \<not> contains w t"
    using visited_texts(1) [where P = "\<lambda>t. \<not> contains w t", OF assms(4) short_in_mask [OF assms(3,2)]] by blast
  then show ?thesis unfolding sanitize_evidence_def using visited_secrets(1) by blast
qed

lemma sanitized_evidence_hides_witness:
  "\<not> list_ex (contains ''M-1001'') (texts (sanitize_evidence [''k-secret''] id [''M-1001'']
     (VDict [(''note'', VStr ''for M-1001 with k-secret''), (''token'', VInt 7)]))) \<and>
   \<not> list_ex (contains ''k-secret'') (texts (sanitize_evidence [''k-secret''] id [''M-1001'']
     (VDict [(''note'', VStr ''for M-1001 with k-secret''), (''token'', VInt 7)])))"
  using sanitized_evidence_hides [of id "[''M-1001'']" "''M-1001''" "[''k-secret'']" "VDict [(''note'', VStr ''for M-1001 with k-secret''), (''token'', VInt 7)]"]
    sanitized_evidence_hides [of id "[''M-1001'']" "''k-secret''" "[''k-secret'']" "VDict [(''note'', VStr ''for M-1001 with k-secret''), (''token'', VInt 7)]"]
  by (simp add: plain_def borderless_def redacted_def atLeastLessThan_upt upt_rec list_ex_iff)

text \<open>An identifier that overlaps with itself can survive its own masking.\<close>

lemma overlapping_identifier_survives:
  "contains ''12312'' (mask_known [''12312''] ''12312312'')"
  by code_simp

end
