(* ===== verification/Handoff.thy ===== *)
theory Handoff
  imports Disputes Evidence
begin

text \<open>
  The hand-over of a case between automation and an operator
  (\<open>tandem/handoff/coordinator.py\<close>, \<open>tandem/handoff/console.py\<close>).  The coordinator works
  in the session of its caller: a method is a program on the whole \<open>system\<close>, whose world
  is the browser page the operator acts on.  \<open>operator_property\<close> extends the contract of
  \<open>Disputes\<close> by the operations of the repository that only operators use; whatever all of
  them keep, a hand-over keeps.
\<close>

section \<open>The coordinator\<close>

fun is_LeaseConflict :: "exn \<Rightarrow> bool" where
  "is_LeaseConflict (LeaseConflictError m) = True"
| "is_LeaseConflict _ = False"

text \<open>\<open>details or {}\<close>.\<close>

definition or_empty :: "dict option \<Rightarrow> dict" where
  "or_empty d = (case d of None \<Rightarrow> [] | Some kvs \<Rightarrow> kvs)"

definition initiate_handoff :: "ambient \<Rightarrow> string \<Rightarrow> val \<Rightarrow> dict option \<Rightarrow> ('w system, dict) prog" where
  "initiate_handoff a case_id reason details =
     andthen (on_db (release_lease a case_id None None None)) (
     andthen (on_db (update_case_status a case_id (state_value NEEDS_HUMAN) None)) (
     andthen (on_db (record_event a case_id ''HUMAN_HANDOFF_INITIATED'' ''handoff_coordinator'' ''AUTOMATION''
       (Some [(''reason'', reason), (''details'', VDict (or_empty details))]))) (
     andthen commit
       (ret [(''case_id'', VStr case_id), (''status'', VStr (state_value NEEDS_HUMAN)), (''reason'', reason),
             (''ticket_id'', VStr (fstr [''TICKET-'', case_id]))]))))"

definition held_by :: "lease_row option \<Rightarrow> string" where
  "held_by current = (case current of
      None \<Rightarrow> ''automation''
    | Some r \<Rightarrow> if ls_owner_type r = ''HUMAN'' then fstr [''operator '', sq, ls_owner_id r, sq] else ''automation'')"

definition claim_operator_lease :: "ambient \<Rightarrow> string \<Rightarrow> string \<Rightarrow> ('w system, lease_row) prog" where
  "claim_operator_lease a case_id operator_id =
     bnd (catch is_LeaseConflict
        (on_db (acquire_lease a case_id operator_id (Some ''HUMAN'') None five_minutes None))
        (\<lambda>exc. bnd (gets (\<lambda>x. get_lease case_id (sy_db x))) (\<lambda>current.
           fail (LeaseConflictError (fstr [''Case '', case_id, '' lease already held by '', held_by current, '': '', exn_text exc])))))
     (\<lambda>lease.
     andthen (on_db (record_event a case_id ''OPERATOR_LEASE_ACQUIRED'' ''handoff_coordinator'' ''AUTOMATION''
       (Some [(''operator_id'', VStr operator_id)]))) (
     andthen commit (ret lease)))"

definition signoff_button :: "string \<Rightarrow> locator" where
  "signoff_button frame_selector = (Frame frame_selector, [''button.operator-signoff-btn, .operator-signoff-btn''])"

definition sign_off :: "'w browser \<Rightarrow> string \<Rightarrow> ('w system, unit) prog" where
  "sign_off br frame_selector =
     andthen (ask (br_wait_visible br (signoff_button frame_selector) 5000)) (
     andthen (ask (br_click br (signoff_button frame_selector)))
       (attempt (ask (br_wait_visible br (Frame frame_selector, [''#credit_action_container'']) 5000)) ()))"

definition operator_clear_compliance ::
  "ambient \<Rightarrow> 'w browser \<Rightarrow> string \<Rightarrow> string \<Rightarrow> nat \<Rightarrow> string \<Rightarrow> ('w system, dict) prog" where
  "operator_clear_compliance a br case_id operator_id token frame_selector =
     bnd (on_db (validate_lease_token a case_id operator_id token None)) (\<lambda>valid.
     andthen (unless_raise valid (LeaseConflictError (fstr [''Operator '', sq, operator_id, sq,
        '' holds a stale or inactive lease for case '', case_id, ''.'']))) (
     andthen (on_db (heartbeat_lease a case_id operator_id token None five_minutes)) (
     andthen commit (
     andthen (sign_off br frame_selector) (
     andthen (on_db (record_handoff a case_id ''COMPLIANCE_INTERSTITIAL'' operator_id ''ACKNOWLEDGED_COMPLIANCE_AND_SIGNOFF'')) (
     andthen (on_db (record_event a case_id ''OPERATOR_COMPLIANCE_CLEARED'' ''handoff_coordinator'' ''AUTOMATION''
       (Some [(''operator_id'', VStr operator_id)]))) (
     andthen (on_db (release_lease a case_id (Some operator_id) (Some token) None)) (
     andthen commit
       (ret [(''case_id'', VStr case_id), (''status'', VStr ''COMPLIANCE_CLEARED''), (''operator_id'', VStr operator_id),
             (''next_owner'', VStr ''AUTOMATION'')])))))))))"

section \<open>The console\<close>

text \<open>
  The synchronous hand-over of a discovery session: automation waits in \<open>input\<close> while
  the operator works on the same page.  What is typed at the two prompts, and what the
  operator does to the page meanwhile, is the argument \<open>operate\<close>.  The result is the
  decision, the request as it is updated, and the two evidence files that are written,
  both sanitised; taking the screenshot is Playwright's.
\<close>

definition dict_update :: "dict \<Rightarrow> dict \<Rightarrow> dict" where
  "dict_update d kvs = fold (\<lambda>(k, v) e. dict_set e k v) kvs d"

definition item_at :: "dict \<Rightarrow> string \<Rightarrow> val res" where
  "item_at d k = (case dict_get d k of Some v \<Rightarrow> Inr v | None \<Rightarrow> Inl (KeyError (sq @ k @ sq)))"

definition console_case :: "string \<Rightarrow> string" where
  "console_case uuid = ''DISCOVERY-HANDOFF-'' @ take 12 (filter (\<lambda>c. c \<noteq> CHR ''-'') uuid)"

text \<open>\<open>str(request[key])\<close> of the identifiers the request has.\<close>

definition request_identifiers :: "dict \<Rightarrow> string list" where
  "request_identifiers request =
     [py_str (dict_val request k). k \<leftarrow> [''member_id'', ''account_id''], truthy (dict_val request k)]"

definition console_handoff ::
  "ambient \<Rightarrow> string list \<Rightarrow> (string list \<Rightarrow> string list) \<Rightarrow> ('w \<Rightarrow> (string \<times> string) \<times> 'w) \<Rightarrow> dict \<Rightarrow> ('w system, bool \<times> dict \<times> val list) prog" where
  "console_handoff a ss enum operate request =
     bnd (on_db (new_uuid a)) (\<lambda>uuid. let case_id = console_case uuid in
     andthen (on_db (create_or_get_case a case_id ''SYNTHETIC'' (VDec (Fin False 0 (-2))) ''USD'' ''reg_e_dispute'')) (
     bnd (on_db (acquire_lease a case_id ''discovery'' (Some ''AUTOMATION'') None five_minutes None)) (\<lambda>auto_lease.
     andthen commit (
     bnd (of_res (item_at request ''reason'')) (\<lambda>reason.
     andthen (initiate_handoff a case_id reason (Some request)) (
     bnd (claim_operator_lease a case_id ''console-operator'') (\<lambda>human.
     bnd (on_db (validate_lease_token a case_id ''discovery'' (ls_fencing_token auto_lease) None)) (\<lambda>still.
     andthen (unless_raise (\<not> still) assertion_error) (
     bnd (on_world (\<lambda>w. case operate w of (typed, v) \<Rightarrow> (Ret typed, v))) (\<lambda>(decision, notes).
     andthen (on_db (record_event a case_id ''OPERATOR_ACTIONS_RECORDED'' ''discovery'' ''HUMAN''
       (Some [(''notes'', VStr (strip notes)), (''decision'', VStr (strip decision))]))) (
     andthen (on_db (release_lease a case_id (Some ''console-operator'') (Some (ls_fencing_token human)) None)) (
     bnd (on_db (acquire_lease a case_id ''discovery-resumed'' (Some ''AUTOMATION'') None five_minutes None)) (\<lambda>resumed.
     andthen commit (
     let updated = dict_update request [(''operator_notes'', VStr (strip notes)), (''resumed'', VBool (strip decision = ''resume'')),
           (''fencing_tokens'', VList (map (\<lambda>l. VInt (int (ls_fencing_token l))) [auto_lease, human, resumed]))]
     in ret (strip decision = ''resume'', updated, map (\<lambda>d. sanitize_evidence ss enum (request_identifiers request) (VDict d)) [request, updated])))))))))))))))"

section \<open>What a hand-over keeps\<close>

text \<open>The contract of \<open>workflow_property\<close> with the operations that only operators use.\<close>

locale operator_property = workflow_property J a for J :: "db \<Rightarrow> bool" and a :: ambient +
  assumes validations: "keeps J (validate_lease_token a cid ow tok now)"
    and handoffs: "keeps J (record_handoff a cid reason op act)"
    and sessions: "keeps J (register_browser_session a cid sid url)"
      "known_session shown \<Longrightarrow> keeps J (update_browser_session a sid url shown)"
begin

lemmas operator_operations [keeps_rules] = validations handoffs sessions

lemma keeps_handoff [keeps_rules]: "keeps (ledger_inv J) (initiate_handoff a cid reason details)"
  unfolding initiate_handoff_def by (intro keeps_rules)

lemma keeps_claim [keeps_rules]: "keeps (ledger_inv J) (claim_operator_lease a cid op)"
  unfolding claim_operator_lease_def by (intro keeps_rules)

lemma keeps_sign_off [keeps_rules]: "keeps (ledger_inv J) (sign_off br fs)"
  unfolding sign_off_def attempt_def by (intro keeps_rules)

lemma keeps_clear [keeps_rules]: "keeps (ledger_inv J) (operator_clear_compliance a br cid op tok fs)"
  unfolding operator_clear_compliance_def by (intro keeps_rules)

lemma keeps_console: "keeps (ledger_inv J) (console_handoff a ss enum operate request)"
  unfolding console_handoff_def Let_def by (intro keeps_rules)

end

lemma keeps_desk_sessions [keeps_rules]:
  "keeps (desk_only Q) (validate_lease_token a c ow tok now)" "keeps (desk_only Q) (record_handoff a c reason op act)"
  "keeps (desk_only Q) (register_browser_session a c sid url)" "keeps (desk_only Q) (update_browser_session a sid url st)"
  unfolding validate_lease_token_def record_handoff_def register_browser_session_def update_browser_session_def Let_def
  by (intro keeps_rules keeps_change; simp add: desk_only_def)+

lemma keeps_claims_sessions [keeps_rules]:
  "keeps (claims_only Q) (validate_lease_token a c ow tok now)" "keeps (claims_only Q) (record_handoff a c reason op act)"
  "keeps (claims_only Q) (register_browser_session a c sid url)" "keeps (claims_only Q) (update_browser_session a sid url st)"
  unfolding validate_lease_token_def record_handoff_def register_browser_session_def update_browser_session_def Let_def
  by (intro keeps_rules keeps_change; simp add: claims_only_def)+

interpretation operator_chain: operator_property "chain_inv (amb_sha a)" a
  by unfold_locales (intro keeps_rules)+

interpretation operator_commitments: operator_property "honours d" a
  by unfold_locales (rule honours_frame; intro keeps_rules)+

lemmas keeps_claims_ok_sessions [keeps_rules] = keeps_claims_sessions
  [where Q = "\<lambda>rows. unique_on cl_idempotency_key rows \<and> (\<forall>r \<in> set rows. 0 < cl_fencing_token r)", folded claims_ok_only]

lemma keeps_agenda_sessions [keeps_rules]:
  "keeps agenda_ok (validate_lease_token a c ow tok now)" "keeps agenda_ok (record_handoff a c reason op act)"
  "keeps agenda_ok (register_browser_session a c sid url)" "keeps agenda_ok (update_browser_session a sid url st)"
  using keeps_desk_sessions [where Q = "\<lambda>_. agenda_rows"] by (simp_all add: keeps_def desk_only_def agenda_ok_rows)

lemma keeps_control_handoffs [keeps_rules]:
  "keeps (control_only Q) (validate_lease_token a c ow tok now)" "keeps (control_only Q) (record_handoff a c reason op act)"
  unfolding validate_lease_token_def record_handoff_def Let_def
  by (intro keeps_rules keeps_change; simp add: control_only_def)+

lemma keeps_work_sessions:
  "keeps (control_only (\<lambda>ex i se _. work_rows ex i se)) (register_browser_session a c sid url)"
  "known_session st \<Longrightarrow> keeps (control_only (\<lambda>ex i se _. work_rows ex i se)) (update_browser_session a sid url st)"
  by (rule keepsI; auto simp: register_browser_session_def update_browser_session_def bnd_def andthen_def utc_now_def
      unless_raise_def control_only_def work_rows_def get_browser_session_def record_event_run Let_def known_session_def set_update_where
      select_first_None dest!: select_first_Some intro!: unique_on_snoc unique_on_update_where split: option.splits)+

lemma keeps_lease_sessions:
  "keeps (control_only (\<lambda>_ _ _ ls. Q ls)) (register_browser_session a c sid url)"
  "keeps (control_only (\<lambda>_ _ _ ls. Q ls)) (update_browser_session a sid url st)"
  unfolding register_browser_session_def update_browser_session_def Let_def
  by (intro keeps_rules keeps_change; simp add: control_only_def)+

interpretation operator_types: operator_property well_formed a
  by unfold_locales (rule keeps_well_formed; (assumption | intro keeps_rules keeps_work_sessions keeps_lease_sessions)+)+

section \<open>Handing a case over\<close>

lemma release_case_run:
  assumes "leases_ok d" "get_case c d = Some row"
  shows "\<exists>l e. release_lease a c None None None d = (Ret l, e) \<and> get_case c e = Some row \<and> leases_ok e \<and>
    (\<forall>r. get_lease c e = Some r \<longrightarrow> ls_released_at r \<noteq> None) \<and> (\<forall>k. k \<noteq> c \<longrightarrow> get_lease k e = get_lease k d)"
proof -
  obtain res e where run: "release_lease a c None None None d = (res, e)" by (cases "release_lease a c None None None d")
  let ?t = "effective_time a None d" and ?d = "clocked None d"
  have run': "release_lease a c None None (Some ?t) ?d = (res, e)" using run by (simp add: at_effective_time(3) [of a c None None None])
  have u: "leases_unique ?d" using assms(1) by (simp add: leases_ok_def leases_unique_def)
  have ok: "leases_ok e" using lease_step_row [OF assms(1) lease_step.release [OF run order_refl]] by blast
  have "desk_only (\<lambda>cs _ _. cs = t_cases d) e"
    by (rule keepsD_run [OF keeps_desk_leases(3) _ run]) (simp add: desk_only_def)
  then have same: "get_case c e = Some row" using assms(2) by (simp add: desk_only_def get_case_def)
  have "\<exists>l. res = Ret l \<and> (\<forall>r. get_lease c e = Some r \<longrightarrow> ls_released_at r \<noteq> None) \<and> (\<forall>k. k \<noteq> c \<longrightarrow> get_lease k e = get_lease k d)"
  proof (rule release_cases [OF u run'])
    assume *: "t_leases e = t_leases ?d" "get_lease c ?d = None \<or> (\<exists>r. get_lease c ?d = Some r \<and> \<not> release_matches None None r)"
      "res = (if get_lease c ?d \<noteq> None \<and> ((None :: string option) \<noteq> None \<or> (None :: nat option) \<noteq> None)
        then Raise (LeaseConflictError (fstr [''Lease for '', c, '' changed before release''])) else Ret (get_lease c ?d))"
    then show ?thesis using get_lease_cong [OF *(1)] by (auto simp: release_matches_def)
  next
    fix r assume *: "get_lease c ?d = Some r" "t_leases e = t_leases (put_lease (released_row r ?t) ?d)"
      "res = (if get_case c ?d = None then Raise integrity_error else Ret (Some (released_row r ?t)))"
    then have "get_lease k e = (if k = c then Some (released_row r ?t) else get_lease k d)" for k
      using get_put_lease [OF *(1), of "released_row r ?t"] get_lease_cong [OF *(2)] get_lease_SomeD [OF *(1)] by simp
    then show ?thesis using * assms(2) by simp
  qed
  then show ?thesis using run ok same by blast
qed

lemma keeps_lease_table [keeps_rules]:
  "keeps (\<lambda>e. t_leases e = ls) (record_event a cid ty st ac p)" "keeps (\<lambda>e. t_leases e = ls) (utc_now a)"
  "keeps (\<lambda>e. t_leases e = ls) (new_uuid a)" "keeps (\<lambda>e. t_leases e = ls) (require_case_row cid)"
  by (auto simp: keeps_def record_event_run utc_now_def new_uuid_def require_case_row_def unless_raise_def)

lemma keeps_lease_table_cases [keeps_rules]:
  "keeps (\<lambda>e. t_leases e = ls) (update_case_status a c st m)" "keeps (\<lambda>e. t_leases e = ls) (create_or_get_case a c mid v cur proc)"
  "keeps (\<lambda>e. t_leases e = ls) (record_handoff a c reason op act)"
  unfolding update_case_status_def create_or_get_case_def record_handoff_def Let_def set_case_def
  by (intro keeps_rules keeps_change; simp)+

text \<open>
  C25: Handing a case to an operator takes automation off it.  For every existing case the
  hand-over returns; the case is then durably in \<open>NEEDS_HUMAN\<close> with the request in its
  events, no owner holds an accepted token for it at any time, and the leases of other
  cases are as they were.
\<close>

theorem handoff_parks_and_fences:
  assumes "leases_ok (sy_db x)" and "get_case case_id (sy_db x) = Some row"
  shows "\<exists>ticket y. initiate_handoff a case_id reason details x = (Ret ticket, y) \<and> sy_saved y = sy_db y \<and> sy_world y = sy_world x \<and>
    (\<exists>c. get_case case_id (sy_saved y) = Some c \<and> c_status c = state_value NEEDS_HUMAN) \<and>
    (\<exists>ev \<in> set (t_events (sy_saved y)). ev_case_id ev = case_id \<and> ev_event_type ev = ''HUMAN_HANDOFF_INITIATED'' \<and>
       ev_payload ev = Some [(''reason'', reason), (''details'', VDict (or_empty details))]) \<and>
    (\<forall>ow n t. \<not> lease_token_valid case_id ow n t (sy_saved y)) \<and>
    (\<forall>k. k \<noteq> case_id \<longrightarrow> get_lease k (sy_saved y) = get_lease k (sy_db x))"
proof -
  obtain l d1 where r: "release_lease a case_id None None None (sy_db x) = (Ret l, d1)" "get_case case_id d1 = Some row"
    "\<And>r. get_lease case_id d1 = Some r \<Longrightarrow> ls_released_at r \<noteq> None" "\<And>k. k \<noteq> case_id \<Longrightarrow> get_lease k d1 = get_lease k (sy_db x)"
    using release_case_run [OF assms] by blast
  obtain c d2 where s: "update_case_status a case_id (state_value NEEDS_HUMAN) None d1 = (Ret c, d2)" "get_case case_id d2 = Some c"
    "c_status c = state_value NEEDS_HUMAN" "t_leases d2 = t_leases d1"
    using update_case_status_run [OF r(2)] keepsD_run [OF keeps_lease_table_cases(1) refl] by metis
  let ?p = "Some [(''reason'', reason), (''details'', VDict (or_empty details))]"
  let ?d3 = "with_event a case_id ''HUMAN_HANDOFF_INITIATED'' ''handoff_coordinator'' ''AUTOMATION'' ?p d2"
  have run: "initiate_handoff a case_id reason details x
      = (Ret [(''case_id'', VStr case_id), (''status'', VStr (state_value NEEDS_HUMAN)), (''reason'', reason),
          (''ticket_id'', VStr (fstr [''TICKET-'', case_id]))], x\<lparr>sy_db := ?d3, sy_saved := ?d3\<rparr>)"
    using r(1) s(1,2)
    by (simp add: initiate_handoff_def andthen_def bnd_def on_db_def on_part_def record_event_run commit_def)
  have leases: "get_lease k ?d3 = get_lease k d1" for k using get_lease_cong [OF s(4)] by simp
  have "\<not> lease_token_valid case_id ow n t ?d3" for ow n t
    using leases r(3) by (auto simp: lease_token_valid_def lease_is_active_def split: option.splits)
  moreover have "\<exists>ev \<in> set (t_events ?d3). ev_case_id ev = case_id \<and> ev_event_type ev = ''HUMAN_HANDOFF_INITIATED'' \<and> ev_payload ev = ?p"
    by (simp add: with_event_def append_event_def next_event_def Let_def)
  moreover have "get_case case_id ?d3 = Some c" using s(2) by simp
  ultimately show ?thesis using run leases r(4) s(3) by auto
qed

section \<open>An operator acts under a lease\<close>

lemma validate_run:
  "validate_lease_token a c ow n None d = (Ret (lease_token_valid c ow n (amb_now a (tick d)) d), d\<lparr>tick := Suc (tick d)\<rparr>)"
  by (simp add: validate_lease_token_def time_or_now_def utc_now_def bnd_def lease_token_valid_def)

lemma tick_only [simp]:
  "leases_ok (d\<lparr>tick := n\<rparr>) = leases_ok d" "get_case c (d\<lparr>tick := n\<rparr>) = get_case c d"
  "lease_token_valid c ow m t (d\<lparr>tick := n\<rparr>) = lease_token_valid c ow m t d"
  by (simp_all add: leases_ok_def leases_unique_def get_case_def lease_token_valid_def)

text \<open>A release under the holder's own token ends its acceptance.\<close>

lemma released_token_refused:
  assumes "leases_ok d" "release_lease a c (Some ow) (Some n) None d = (Ret l, e)"
  shows "\<not> lease_token_valid c ow' n' t e"
proof -
  let ?t = "effective_time a None d" and ?d = "clocked None d"
  have u: "leases_unique ?d" using assms(1) by (simp add: leases_ok_def leases_unique_def)
  have run: "release_lease a c (Some ow) (Some n) (Some ?t) ?d = (Ret l, e)"
    using assms(2) by (simp add: at_effective_time(3) [of a c "Some ow" "Some n" None])
  show ?thesis
  proof (rule release_cases [OF u run])
    assume "t_leases e = t_leases ?d" "Ret l = (if get_lease c ?d \<noteq> None \<and> (Some ow \<noteq> None \<or> Some n \<noteq> None)
        then Raise (LeaseConflictError (fstr [''Lease for '', c, '' changed before release''])) else Ret (get_lease c ?d))"
    then show ?thesis using get_lease_cong [of e ?d c] by (auto simp: lease_token_valid_def split: if_splits option.splits)
  next
    fix r assume *: "get_lease c ?d = Some r" "t_leases e = t_leases (put_lease (released_row r ?t) ?d)"
    then have "get_lease c e = Some (released_row r ?t)"
      using get_put_lease [OF *(1), of "released_row r ?t"] get_lease_cong [OF *(2)] get_lease_SomeD [OF *(1)] by simp
    then show ?thesis by (simp add: lease_token_valid_def lease_is_active_def)
  qed
qed

lemma keeps_ask_ledger: "keeps (\<lambda>z. sy_db z = d \<and> sy_saved z = s) (ask f)"
  by (rule keepsI) (auto simp: ask_def on_world_def on_part_def split: prod.splits sum.splits)

lemma sign_off_world:
  assumes "sign_off br fs x = (r, y)"
  shows "sy_db y = sy_db x \<and> sy_saved y = sy_saved x"
proof -
  have "keeps (\<lambda>z. sy_db z = sy_db x \<and> sy_saved z = sy_saved x) (sign_off br fs)"
    unfolding sign_off_def attempt_def by (intro keeps_rules keeps_ask_ledger)
  from keepsD_run [OF this _ assms] show ?thesis by simp
qed

lemma leases_ok_step: "leases_ok d \<Longrightarrow> lease_step a T d e \<Longrightarrow> leases_ok e"
  using lease_step_row by blast

lemma keeps_handoff_table [keeps_rules]:
  "keeps (\<lambda>e. t_handoffs e = hs) (record_event a cid ty st ac p)" "keeps (\<lambda>e. t_handoffs e = hs) (time_or_now a t)"
  "keeps (\<lambda>e. t_handoffs e = hs) (update_leases P f)"
  by (cases t; auto simp: keeps_def record_event_run time_or_now_def utc_now_def update_leases_def)+

lemma keeps_handoffs:
  "keeps (\<lambda>e. t_handoffs e = hs) (record_event a cid ty st ac p)" "keeps (\<lambda>e. t_handoffs e = hs) (release_lease a c owo toko now)"
  unfolding release_lease_def by (intro keeps_rules)+

text \<open>
  C26: Nobody signs off a compliance review without the lease.  The sign-off button is only
  clicked when the operator's token is accepted at that moment, so a click of an operator
  whose lease was taken over, released or has expired never happens; and when the
  sign-off returns, the hand-over is durably on record and the operator's lease is over,
  so that automation can take the case back.
\<close>

theorem sign_off_is_fenced:
  fixes x :: "('w \<times> nat) system"
  assumes "leases_ok (sy_db x)"
    and run: "operator_clear_compliance a (watched_browser br) case_id operator_id token frame_selector x = (r, y)"
  shows "(acts y \<noteq> acts x \<longrightarrow> lease_token_valid case_id operator_id token (amb_now a (tick (sy_db x))) (sy_db x))
    \<and> (\<forall>res. r = Ret res \<longrightarrow>
        (\<exists>h \<in> set (t_handoffs (sy_saved y)). ho_case_id h = case_id \<and> ho_operator_id h = operator_id \<and>
           ho_reason h = ''COMPLIANCE_INTERSTITIAL'') \<and>
        (\<forall>ow n t. \<not> lease_token_valid case_id ow n t (sy_saved y)))"
proof (intro conjI impI allI)
  let ?v = "lease_token_valid case_id operator_id token (amb_now a (tick (sy_db x))) (sy_db x)"
  assume moved: "acts y \<noteq> acts x"
  show ?v
  proof (rule ccontr)
    assume "\<not> ?v"
    then have "acts y = acts x"
      using run by (auto simp: operator_clear_compliance_def bnd_def on_db_def on_part_def validate_run unless_raise_def)
    then show False using moved by simp
  qed
next
  fix res assume r: "r = Ret res"
  obtain b z0 z1 z2 z3 u z4 h z5 ev z6 l z7 where
    valid: "on_db (validate_lease_token a case_id operator_id token None) x = (Ret b, z0)"
    and beat: "on_db (heartbeat_lease a case_id operator_id token None five_minutes) z0 = (Ret z1, z2)"
    and save: "commit z2 = (Ret (), z3)" and click: "sign_off (watched_browser br) frame_selector z3 = (Ret u, z4)"
    and hand: "on_db (record_handoff a case_id ''COMPLIANCE_INTERSTITIAL'' operator_id ''ACKNOWLEDGED_COMPLIANCE_AND_SIGNOFF'') z4 = (Ret h, z5)"
    and event: "on_db (record_event a case_id ''OPERATOR_COMPLIANCE_CLEARED'' ''handoff_coordinator'' ''AUTOMATION''
       (Some [(''operator_id'', VStr operator_id)])) z5 = (Ret ev, z6)"
    and release: "on_db (release_lease a case_id (Some operator_id) (Some token) None) z6 = (Ret l, z7)"
    and last: "y = z7\<lparr>sy_saved := sy_db z7\<rparr>"
    using run r by (auto simp: operator_clear_compliance_def bnd_eq_Ret andthen_eq_Ret commit_def)
  have z0: "leases_ok (sy_db z0)" using valid assms(1) by (auto simp: on_db_Ret validate_run)
  obtain d2 where d2: "heartbeat_lease a case_id operator_id token None five_minutes (sy_db z0) = (Ret z1, d2)" "z2 = z0\<lparr>sy_db := d2\<rparr>"
    using beat by (auto simp: on_db_Ret)
  have "leases_ok d2" by (rule leases_ok_step [OF z0 lease_step.heartbeat [OF d2(1) order_refl]])
  then have z4: "leases_ok (sy_db z4)" using sign_off_world [OF click] save d2(2) by (auto simp: commit_def)
  have "t_leases (sy_db z5) = t_leases (sy_db z4)" using kept_db [OF keeps_lease_table_cases(3) refl hand] .
  moreover have "t_leases (sy_db z6) = t_leases (sy_db z5)" using kept_db [OF keeps_lease_table(1) refl event] .
  ultimately have z6: "leases_ok (sy_db z6)" using z4 leases_ok_cong by metis
  obtain d7 where d7: "release_lease a case_id (Some operator_id) (Some token) None (sy_db z6) = (Ret l, d7)" "z7 = z6\<lparr>sy_db := d7\<rparr>"
    using release by (auto simp: on_db_Ret)
  show "\<not> lease_token_valid case_id ow n t (sy_saved y)" for ow n t
    using released_token_refused [OF z6 d7(1)] d7(2) last by simp
  have h: "h \<in> set (t_handoffs (sy_db z5))" "ho_case_id h = case_id" "ho_operator_id h = operator_id" "ho_reason h = ''COMPLIANCE_INTERSTITIAL''"
    using hand by (auto simp: on_db_Ret record_handoff_def utc_now_def bnd_def andthen_def Let_def)
  have "t_handoffs (sy_db z6) = t_handoffs (sy_db z5)" by (rule kept_db [OF keeps_handoffs(1) refl event])
  moreover have "t_handoffs d7 = t_handoffs (sy_db z6)" by (rule keepsD_run [OF keeps_handoffs(2) refl d7(1)])
  ultimately show "\<exists>h \<in> set (t_handoffs (sy_saved y)). ho_case_id h = case_id \<and> ho_operator_id h = operator_id \<and>
      ho_reason h = ''COMPLIANCE_INTERSTITIAL''" using h last d7(2) by auto
qed

section \<open>Concrete hand-overs\<close>

definition leased_system :: "(bool \<times> nat) system" where
  "leased_system = (sample_system (False, 0))\<lparr>sy_db := leased_db, sy_saved := leased_db\<rparr>"

lemma leased_system_sel [simp]:
  "sy_db leased_system = leased_db" "sy_saved leased_system = leased_db" "sy_world leased_system = (False, 0)"
  by (simp_all add: leased_system_def sample_system_def)

lemma handoff_parks_and_fences_witness:
  "\<exists>ticket y. initiate_handoff sample_ambient ''C-1'' (VStr ''drift'') None leased_system = (Ret ticket, y) \<and>
    \<not> lease_token_valid ''C-1'' ''W1'' 1 0 (sy_saved y)"
proof -
  obtain row where "get_case ''C-1'' (sy_db leased_system) = Some row" using leased_ok(2) by auto
  then show ?thesis
    using handoff_parks_and_fences [of leased_system "''C-1''" row sample_ambient "VStr ''drift''" None] leased_ok(1) by fastforce
qed

lemma sign_off_is_fenced_witness:
  "acts (snd (operator_clear_compliance sample_ambient (watched_browser (sample_browser [])) ''C-1'' ''OP'' 1 ''#f'' leased_system)) = 0"
  using sign_off_is_fenced [of leased_system sample_ambient "sample_browser []" "''C-1''" "''OP''" 1 "''#f''", OF _ prod.collapse [symmetric]]
    leased_ok(1,3) by (auto simp: lease_token_valid_def)

end
