(* ===== verification/Automation.thy ===== *)
theory Automation
  imports Handoff "HOL-Library.AList"
begin

text \<open>
  The background execution of cases (\<open>tandem/automation/worker.py\<close>).  A task runs a case in
  a session and a browser of its own; whatever it raises is caught and the case is handed
  to a human in a second session.  The pool, its futures and the start of a browser are
  the libraries': a task is what was submitted, \<open>futures\<close> names the latest task of a case.
  SQLite admits one writer: rows a session has flushed and not committed keep every other
  session from writing; whatever else may hold the lock is the argument \<open>locked\<close>.
\<close>

section \<open>Sessions\<close>

text \<open>A new session sees what is durable; closing one forgets what it did not commit.\<close>

definition durable :: "'w system \<Rightarrow> 'w system" where
  "durable x = x\<lparr>sy_db := (sy_saved x)\<lparr>tick := tick (sy_db x)\<rparr>\<rparr>"

definition in_session :: "('w system, 'a) prog \<Rightarrow> ('w system, 'a) prog" where
  "in_session p = (\<lambda>x. case p (durable x) of (r, y) \<Rightarrow> (r, durable y))"

text \<open>Rows that are flushed and not committed.\<close>

definition unsaved :: "'w system \<Rightarrow> bool" where
  "unsaved x \<longleftrightarrow> (sy_db x)\<lparr>tick := 0\<rparr> \<noteq> (sy_saved x)\<lparr>tick := 0\<rparr>"

definition database_locked :: exn where
  "database_locked = OtherException ''database is locked''"

section \<open>Submitting cases\<close>

record task =
  tk_case :: string
  tk_member :: string
  tk_amount :: val
  tk_card :: string

record runner =
  rn_tasks :: "task list"
  rn_futures :: "(string \<times> nat) list"

definition do_not_auto_resume :: "string list" where
  "do_not_auto_resume = map state_value [NEEDS_HUMAN, ST_UNCERTAIN_EFFECT, FAILED, RESOLVED, WAITING_RESOLUTION]"

definition generate_case_id :: "string \<Rightarrow> string" where
  "generate_case_id uuid = ''D-API-'' @ upper (take 10 (filter (\<lambda>c. c \<noteq> CHR ''-'') uuid))"

definition default_card :: string where
  "default_card = ''4112''"

definition submit_case :: "string \<Rightarrow> string \<Rightarrow> val \<Rightarrow> string \<Rightarrow> runner \<Rightarrow> runner" where
  "submit_case case_id member_id amount card_last4 rn =
     \<lparr>rn_tasks = rn_tasks rn @ [\<lparr>tk_case = case_id, tk_member = member_id, tk_amount = amount, tk_card = card_last4\<rparr>],
      rn_futures = AList.update case_id (length (rn_tasks rn)) (rn_futures rn)\<rparr>"

text \<open>\<open>results\<close> holds how the tasks ended that have; a task that has not is waited for in vain.\<close>

definition wait_for :: "(nat \<Rightarrow> unit res option) \<Rightarrow> string \<Rightarrow> runner \<Rightarrow> unit res" where
  "wait_for results case_id rn = (case map_of (rn_futures rn) case_id of
      None \<Rightarrow> Inr ()
    | Some n \<Rightarrow> (case results n of None \<Rightarrow> Inl (OtherException []) | Some r \<Rightarrow> r))"

fun resubmit :: "case_row list \<Rightarrow> runner \<Rightarrow> string list \<times> runner" where
  "resubmit [] rn = ([], rn)"
| "resubmit (c # cs) rn =
     (if c_status c \<in> set do_not_auto_resume then resubmit cs rn
      else case resubmit cs (submit_case (c_case_id c) (c_member_id c) (money_val (c_amount c)) default_card rn) of
        (resumed, rn') \<Rightarrow> (c_case_id c # resumed, rn'))"

definition recover_incomplete_cases :: "db \<Rightarrow> runner \<Rightarrow> string list \<times> runner" where
  "recover_incomplete_cases d rn = resubmit (list_cases d) rn"

section \<open>Running a case\<close>

text \<open>\<open>type(exc).__name__\<close>; the names of the libraries' exceptions are an argument.\<close>

fun exn_class :: "(string \<Rightarrow> string) \<Rightarrow> exn \<Rightarrow> string" where
  "exn_class lib (TandemError m) = ''TandemError''"
| "exn_class lib (SchemaValidationError m) = ''SchemaValidationError''"
| "exn_class lib (PolicyViolationError m) = ''PolicyViolationError''"
| "exn_class lib (EntityBindingMismatchError m) = ''EntityBindingMismatchError''"
| "exn_class lib (AmountMismatchError m) = ''AmountMismatchError''"
| "exn_class lib (UncertainEffectError m) = ''UncertainEffectError''"
| "exn_class lib (PrecheckError m) = ''PrecheckError''"
| "exn_class lib (PostcheckError m) = ''PostcheckError''"
| "exn_class lib (PageDriftError m) = ''PageDriftError''"
| "exn_class lib (SessionExpiredError m) = ''SessionExpiredError''"
| "exn_class lib (ComplianceInterstitialError m) = ''ComplianceInterstitialError''"
| "exn_class lib (LeaseConflictError m) = ''LeaseConflictError''"
| "exn_class lib (LedgerIntegrityError m) = ''LedgerIntegrityError''"
| "exn_class lib (ValueError m) = ''ValueError''"
| "exn_class lib (TypeError m) = ''TypeError''"
| "exn_class lib (KeyError m) = ''KeyError''"
| "exn_class lib (RuntimeError m) = ''RuntimeError''"
| "exn_class lib (OverflowError m) = ''OverflowError''"
| "exn_class lib (DecimalOverflow m) = ''Overflow''"
| "exn_class lib (OtherException m) = lib m"

text \<open>Starting a browser yields the workflow on its page.\<close>

record 'w launcher =
  la_ambient :: ambient
  la_names :: "string \<Rightarrow> string"
  la_locked :: "'w system \<Rightarrow> bool"
  la_launch :: "('w, 'w workflow) call"
  la_close :: "('w, unit) call"

definition park_failed :: "'w launcher \<Rightarrow> string \<Rightarrow> exn \<Rightarrow> ('w system, unit) prog" where
  "park_failed la case_id exc =
     andthen (on_db (update_case_status (la_ambient la) case_id (state_value NEEDS_HUMAN) None)) (
     andthen (on_db (record_event (la_ambient la) case_id ''AUTOMATION_WORKER_TASK_FAILED'' ''automation.case_runner'' ''AUTOMATION''
       (Some [(''error_type'', VStr (exn_class (la_names la) exc)), (''message'', VStr (exn_text exc))])))
       commit)"

text \<open>
  A session opened beside one that is still open, as SQLite serves it: reading is free, but
  what it writes first needs the write lock, which the rows the other session has flushed
  hold.  The body gets that step of its first write as an argument; the code of the program
  has no line for it.
\<close>

definition second_session :: "'w launcher \<Rightarrow> (('w system, unit) prog \<Rightarrow> ('w system, unit) prog) \<Rightarrow> ('w system, unit) prog" where
  "second_session la body =
     bnd (gets (\<lambda>x. unsaved x \<or> la_locked la x)) (\<lambda>busy. in_session (body (unless_raise (\<not> busy) database_locked)))"

definition fail_closed :: "'w launcher \<Rightarrow> string \<Rightarrow> exn \<Rightarrow> ('w system, unit) prog" where
  "fail_closed la case_id exc =
     second_session la (\<lambda>write_lock.
     bnd (gets (\<lambda>x. get_case case_id (sy_db x))) (\<lambda>found. case found of
         None \<Rightarrow> ret ()
       | Some c \<Rightarrow> andthen write_lock (park_failed la case_id exc)))"

definition drive_case :: "'w launcher \<Rightarrow> task \<Rightarrow> ('w system, unit) prog" where
  "drive_case la tk =
     bnd (ask (la_launch la)) (\<lambda>wk.
     andthen (run_case wk (tk_case tk) (tk_member tk) (tk_amount tk) (tk_card tk) None)
       (ask (la_close la)))"

definition run_case_task :: "'w launcher \<Rightarrow> task \<Rightarrow> ('w system, unit) prog" where
  "run_case_task la tk = in_session (catch (\<lambda>_. True) (drive_case la tk) (fail_closed la (tk_case tk)))"

section \<open>What is resubmitted\<close>

definition resumable :: "case_row \<Rightarrow> bool" where
  "resumable c \<longleftrightarrow> c_status c \<notin> set do_not_auto_resume"

definition resumed_task :: "case_row \<Rightarrow> task" where
  "resumed_task c = \<lparr>tk_case = c_case_id c, tk_member = c_member_id c, tk_amount = money_val (c_amount c), tk_card = default_card\<rparr>"

lemma resubmit_Cons:
  "resubmit (c # cs) rn = (if resumable c
     then (c_case_id c # fst (resubmit cs (submit_case (c_case_id c) (c_member_id c) (money_val (c_amount c)) default_card rn)),
           snd (resubmit cs (submit_case (c_case_id c) (c_member_id c) (money_val (c_amount c)) default_card rn)))
     else resubmit cs rn)"
  by (simp add: resumable_def split: prod.splits)

lemma submit_case_sel [simp]:
  "rn_tasks (submit_case c mid v c4 rn) = rn_tasks rn @ [\<lparr>tk_case = c, tk_member = mid, tk_amount = v, tk_card = c4\<rparr>]"
  "rn_futures (submit_case c mid v c4 rn) = AList.update c (length (rn_tasks rn)) (rn_futures rn)"
  by (simp_all add: submit_case_def)

lemma resubmit_exact:
  "fst (resubmit cs rn) = map c_case_id (filter resumable cs)"
  "rn_tasks (snd (resubmit cs rn)) = rn_tasks rn @ map resumed_task (filter resumable cs)"
  by (induction cs arbitrary: rn) (simp_all add: resubmit_Cons resumed_task_def del: resubmit.simps(2))

text \<open>Every future is that of the latest task of its case.\<close>

definition runner_ok :: "runner \<Rightarrow> bool" where
  "runner_ok rn \<longleftrightarrow> distinct (map fst (rn_futures rn)) \<and> (\<forall>c. case map_of (rn_futures rn) c of
      None \<Rightarrow> \<forall>tk \<in> set (rn_tasks rn). tk_case tk \<noteq> c
    | Some n \<Rightarrow> n < length (rn_tasks rn) \<and> tk_case (rn_tasks rn ! n) = c \<and>
        (\<forall>m < length (rn_tasks rn). tk_case (rn_tasks rn ! m) = c \<longrightarrow> m \<le> n))"

lemma submit_case_ok:
  assumes "runner_ok rn"
  shows "runner_ok (submit_case c mid v c4 rn)"
proof -
  have "distinct (map fst (AList.update c n (rn_futures rn)))" for n
    using assms by (simp add: runner_ok_def distinct_update)
  moreover have "case map_of (AList.update c (length (rn_tasks rn)) (rn_futures rn)) k of
      None \<Rightarrow> \<forall>tk \<in> set (rn_tasks (submit_case c mid v c4 rn)). tk_case tk \<noteq> k
    | Some n \<Rightarrow> n < length (rn_tasks (submit_case c mid v c4 rn)) \<and> tk_case (rn_tasks (submit_case c mid v c4 rn) ! n) = k \<and>
        (\<forall>m < length (rn_tasks (submit_case c mid v c4 rn)). tk_case (rn_tasks (submit_case c mid v c4 rn) ! m) = k \<longrightarrow> m \<le> n)" for k
  proof (cases "k = c")
    case True
    then show ?thesis by (simp add: update_conv)
  next
    case False
    have "case map_of (rn_futures rn) k of None \<Rightarrow> \<forall>tk \<in> set (rn_tasks rn). tk_case tk \<noteq> k
      | Some n \<Rightarrow> n < length (rn_tasks rn) \<and> tk_case (rn_tasks rn ! n) = k \<and>
        (\<forall>m < length (rn_tasks rn). tk_case (rn_tasks rn ! m) = k \<longrightarrow> m \<le> n)" using assms by (simp add: runner_ok_def)
    then show ?thesis using False
      by (auto simp: update_conv nth_append less_Suc_eq split: option.splits)
  qed
  ultimately show ?thesis unfolding runner_ok_def submit_case_sel(2) by blast
qed

lemma resubmit_ok: "runner_ok rn \<Longrightarrow> runner_ok (snd (resubmit cs rn))"
proof (induction cs arbitrary: rn)
  case (Cons c cs)
  then show ?case using submit_case_ok by (simp add: resubmit_Cons del: resubmit.simps(2))
qed simp

section \<open>Failing closed\<close>

lemma durable_sel [simp]:
  "sy_saved (durable x) = sy_saved x" "sy_world (durable x) = sy_world x" "sy_db (durable x) = (sy_saved x)\<lparr>tick := tick (sy_db x)\<rparr>"
  by (simp_all add: durable_def)

lemma durable_twice [simp]: "durable (durable x) = durable x"
  by (simp add: durable_def)

text \<open>Every row of the case is set, should there be several.\<close>

lemma update_status_rows:
  assumes "get_case c d = Some row"
  shows "\<exists>row' e. update_case_status a c st m d = (Ret row', e) \<and> get_case c e = Some row' \<and>
    (\<forall>r \<in> set (t_cases e). c_case_id r = c \<longrightarrow> c_status r = st)"
proof -
  have "c_case_id row = c" using assms by (auto simp: get_case_def dest: select_first_Some)
  then show ?thesis using assms get_case_updated
    by (simp add: update_case_status_def bnd_def andthen_def utc_now_def Let_def record_event_run get_case_updated)
      (auto simp: set_case_def set_update_where)
qed

lemma park_failed_run:
  assumes "get_case c (sy_db x) = Some row"
  shows "\<exists>y. park_failed la c e x = (Ret (), y) \<and>
    (\<forall>r \<in> set (t_cases (sy_saved y)). c_case_id r = c \<longrightarrow> c_status r = state_value NEEDS_HUMAN) \<and>
    (\<exists>r. get_case c (sy_saved y) = Some r) \<and>
    (\<exists>ev \<in> set (t_events (sy_saved y)). ev_case_id ev = c \<and> ev_event_type ev = ''AUTOMATION_WORKER_TASK_FAILED'' \<and>
       ev_payload ev = Some [(''error_type'', VStr (exn_class (la_names la) e)), (''message'', VStr (exn_text e))])"
proof -
  obtain row' d where d: "update_case_status (la_ambient la) c (state_value NEEDS_HUMAN) None (sy_db x) = (Ret row', d)"
    "get_case c d = Some row'" "\<forall>r \<in> set (t_cases d). c_case_id r = c \<longrightarrow> c_status r = state_value NEEDS_HUMAN"
    using update_status_rows [OF assms] by blast
  let ?p = "Some [(''error_type'', VStr (exn_class (la_names la) e)), (''message'', VStr (exn_text e))]"
  let ?d = "with_event (la_ambient la) c ''AUTOMATION_WORKER_TASK_FAILED'' ''automation.case_runner'' ''AUTOMATION'' ?p d"
  have "park_failed la c e x = (Ret (), x\<lparr>sy_db := ?d, sy_saved := ?d\<rparr>)"
    using d(1,2) by (simp add: park_failed_def andthen_def bnd_def on_db_def on_part_def record_event_run commit_def)
  moreover have "\<exists>ev \<in> set (t_events ?d). ev_case_id ev = c \<and> ev_event_type ev = ''AUTOMATION_WORKER_TASK_FAILED'' \<and> ev_payload ev = ?p"
    by (simp add: with_event_def append_event_def next_event_def Let_def)
  ultimately show ?thesis using d(2,3) by auto
qed

text \<open>
  C22: An unexpected exception never loses a case.  Whatever a task raises, when it has no
  uncommitted rows and the database is not locked, the task ends normally and the case is
  durably in \<open>NEEDS_HUMAN\<close> with the exception in its events; the next start of the service
  does not run it again.
\<close>

theorem failed_task_is_parked:
  assumes "drive_case la tk (durable x) = (Raise e, z)" and "\<not> unsaved z" "\<not> la_locked la z"
    and "get_case (tk_case tk) (sy_saved z) = Some row"
  shows "\<exists>y. run_case_task la tk x = (Ret (), y) \<and>
    (\<exists>c. get_case (tk_case tk) (sy_saved y) = Some c \<and> c_status c = state_value NEEDS_HUMAN) \<and>
    (\<exists>ev \<in> set (t_events (sy_saved y)). ev_case_id ev = tk_case tk \<and> ev_event_type ev = ''AUTOMATION_WORKER_TASK_FAILED'' \<and>
       ev_payload ev = Some [(''error_type'', VStr (exn_class (la_names la) e)), (''message'', VStr (exn_text e))]) \<and>
    tk_case tk \<notin> set (fst (recover_incomplete_cases (sy_saved y) rn))"
proof -
  let ?c = "tk_case tk"
  have found: "get_case ?c (sy_db (durable z)) = Some row" using assms(4) by simp
  obtain y where y: "park_failed la ?c e (durable z) = (Ret (), y)"
    "\<forall>r \<in> set (t_cases (sy_saved y)). c_case_id r = ?c \<longrightarrow> c_status r = state_value NEEDS_HUMAN"
    "\<exists>r. get_case ?c (sy_saved y) = Some r"
    "\<exists>ev \<in> set (t_events (sy_saved y)). ev_case_id ev = ?c \<and> ev_event_type ev = ''AUTOMATION_WORKER_TASK_FAILED'' \<and>
       ev_payload ev = Some [(''error_type'', VStr (exn_class (la_names la) e)), (''message'', VStr (exn_text e))]"
    using park_failed_run [OF found, of la e] by blast
  have "run_case_task la tk x = (Ret (), durable y)"
    using assms(1-4) y(1) by (simp add: run_case_task_def in_session_def catch_def fail_closed_def second_session_def andthen_def bnd_def unless_raise_def)
  moreover obtain r where r: "get_case ?c (sy_saved y) = Some r" using y(3) by blast
  then have "c_status r = state_value NEEDS_HUMAN"
    using y(2) by (auto simp: get_case_def dest: select_first_Some)
  moreover have "?c \<notin> set (fst (recover_incomplete_cases (sy_saved y) rn))"
    using y(2) by (auto simp: recover_incomplete_cases_def resubmit_exact list_cases_def resumable_def do_not_auto_resume_def)
  ultimately show ?thesis using r y(4) by auto
qed

text \<open>
  C28: Rows the failed run has flushed and not committed lock the handler out: it is refused
  the write, the task raises, and the case stays as it was.
\<close>

theorem unsaved_task_is_not_parked:
  assumes "drive_case la tk (durable x) = (Raise e, z)" and "unsaved z" and "get_case (tk_case tk) (sy_saved z) = Some row"
  shows "\<exists>y. run_case_task la tk x = (Raise database_locked, y) \<and> sy_saved y = sy_saved z"
  using assms by (simp add: run_case_task_def in_session_def catch_def fail_closed_def second_session_def andthen_def bnd_def unless_raise_def)

text \<open>
  A restart resumes exactly the cases that automation may still finish: those not waiting
  for a human and not finished, each once, with its own member and amount; every future
  is again that of the latest task of its case.
\<close>

theorem restart_resumes_exactly:
  assumes "runner_ok rn" and "recover_incomplete_cases d rn = (resumed, rn')"
  shows "resumed = map c_case_id (filter resumable (list_cases d)) \<and>
    rn_tasks rn' = rn_tasks rn @ map resumed_task (filter resumable (list_cases d)) \<and> runner_ok rn'"
  using resubmit_exact [of "list_cases d" rn] resubmit_ok [OF assms(1), of "list_cases d"] assms(2)
  by (simp add: recover_incomplete_cases_def)

section \<open>What a task keeps\<close>

text \<open>A session forgets what it did not commit, so the property must not depend on the clock.\<close>

locale session_property = operator_property J a for J :: "db \<Rightarrow> bool" and a :: ambient +
  assumes clock_free: "J (d\<lparr>tick := n\<rparr>) = J d"
begin

lemma keeps_in_session [keeps_rules]: "keeps (ledger_inv J) p \<Longrightarrow> keeps (ledger_inv J) (in_session p)"
  by (auto simp: keeps_def in_session_def ledger_inv_def clock_free split: prod.splits)
    (metis clock_free durable_sel(1,3) snd_conv)+

lemma keeps_task:
  fixes la :: "'w launcher"
  assumes "la_ambient la = a" and "\<And>w wk v. la_launch la w = (Inr wk, v) \<Longrightarrow> wf_ambient wk = a"
  shows "keeps (ledger_inv J) (run_case_task la tk)"
proof -
  have "keeps (ledger_inv J) (drive_case la tk)"
    unfolding drive_case_def
  proof (rule keepsI)
    fix s :: "'w system" assume s: "ledger_inv J s"
    show "ledger_inv J (snd (bnd (ask (la_launch la)) (\<lambda>wk. andthen (run_case wk (tk_case tk) (tk_member tk) (tk_amount tk) (tk_card tk) None)
       (ask (la_close la))) s))"
    proof (cases "la_launch la (sy_world s)")
      case (Pair r v)
      show ?thesis
      proof (cases r)
        case (Inl e)
        then show ?thesis using Pair s by (simp add: ask_def on_world_def on_part_def bnd_def ledger_inv_def)
      next
        case (Inr wk)
        have "keeps (ledger_inv J) (andthen (run_case wk (tk_case tk) (tk_member tk) (tk_amount tk) (tk_card tk) None) (ask (la_close la)))"
          by (intro keeps_rules keeps_run_case assms(2) [of "sy_world s" wk v]) (simp add: Pair Inr)
        moreover have "ledger_inv J (s\<lparr>sy_world := v\<rparr>)" using s by (simp add: ledger_inv_def)
        ultimately show ?thesis using Pair Inr by (simp add: ask_def on_world_def on_part_def bnd_def keeps_def)
      qed
    qed
  qed
  then show ?thesis
    unfolding run_case_task_def fail_closed_def second_session_def park_failed_def assms(1) by (intro keeps_rules)
qed

end

interpretation session_chain: session_property "chain_inv (amb_sha a)" a
  by unfold_locales (simp add: chain_inv_def case_events_def head_matches_def get_head_def cong: option.case_cong)

interpretation session_commitments: session_property "honours d" a
  by unfold_locales (simp add: honours_def)

interpretation session_types: session_property well_formed a
  by unfold_locales (simp add: well_formed_def work_rows_def lease_rows_def agenda_ok_def claims_ok_def claims_unique_def)

end
