(* ===== verification/BrowserSession.thy ===== *)
theory BrowserSession
  imports Automation
begin

text \<open>
  Browser sessions that outlive a request (\<open>tandem/handoff/browser_session.py\<close>): a worker
  owns a page and serves a queue of commands one at a time, the broker finds the worker of
  a session.  The page is the library's, a record of the calls the worker makes on it.  A
  caller waits twenty seconds for its answer: whether one comes in time is an argument; a
  command that was given up is still served before the next.
\<close>

section \<open>The page of a session\<close>

record 'p driver =
  dr_goto :: "string \<Rightarrow> ('p, unit) call"
  dr_wait_first :: "string option \<Rightarrow> string \<Rightarrow> ('p, unit) call"
  dr_fill_first :: "string option \<Rightarrow> string \<Rightarrow> string \<Rightarrow> ('p, unit) call"
  dr_owner_frame :: "string option \<Rightarrow> string \<Rightarrow> ('p, nat option) call"
  dr_click_first :: "string option \<Rightarrow> string \<Rightarrow> ('p, unit) call"
  dr_wait_idle :: "nat option \<Rightarrow> ('p, unit) call"
  dr_add_cookie :: "string \<Rightarrow> string \<Rightarrow> string \<Rightarrow> ('p, unit) call"
  dr_screenshot :: "('p, unit) call"
  dr_frames :: "('p, nat list) call"
  dr_count_controls :: "nat \<Rightarrow> ('p, nat) call"
  dr_control :: "nat \<Rightarrow> nat \<Rightarrow> ('p, val) call"
  dr_cookies :: "('p, (string \<times> string) list) call"
  dr_url :: "('p, string) call"
  dr_title :: "('p, string) call"
  dr_pause :: "('p, unit) call"
  dr_close :: "('p, unit) call"
  dr_is_error :: "exn \<Rightarrow> bool"
  dr_secrets :: "string list"

definition perform :: "('p, 'a) call \<Rightarrow> ('p, 'a) prog" where
  "perform f = (\<lambda>p. case f p of (Inl e, q) \<Rightarrow> (Raise e, q) | (Inr x, q) \<Rightarrow> (Ret x, q))"

text \<open>What a worker knows of itself: its session, the path of its picture, its thread.\<close>

record identity_card =
  id_session :: string
  id_picture :: string
  id_thread :: int

section \<open>Snapshots\<close>

text \<open>The controls of a frame, up to the first that cannot be read.\<close>

fun read_controls :: "'p driver \<Rightarrow> nat \<Rightarrow> nat list \<Rightarrow> ('p, val list) prog" where
  "read_controls dr fr [] = ret []"
| "read_controls dr fr (i # is) =
     bnd (catch (\<lambda>_. True) (bnd (perform (dr_control dr fr i)) (\<lambda>c. ret (Some c))) (\<lambda>_. ret None)) (\<lambda>found. case found of
       None \<Rightarrow> ret []
     | Some c \<Rightarrow> bnd (read_controls dr fr is) (\<lambda>cs. ret (c # cs)))"

definition frame_controls :: "'p driver \<Rightarrow> nat \<Rightarrow> ('p, val list) prog" where
  "frame_controls dr fr =
     bnd (catch (\<lambda>_. True) (perform (dr_count_controls dr fr)) (\<lambda>_. ret 0)) (\<lambda>n. read_controls dr fr [0..<min n 100])"

fun all_controls :: "'p driver \<Rightarrow> nat list \<Rightarrow> ('p, val list) prog" where
  "all_controls dr [] = ret []"
| "all_controls dr (fr # frs) = bnd (frame_controls dr fr) (\<lambda>cs. bnd (all_controls dr frs) (\<lambda>ds. ret (cs @ ds)))"

text \<open>A dictionary comprehension: a later pair replaces an earlier one of its key.\<close>

definition cookie_dict :: "(string \<times> string) list \<Rightarrow> dict" where
  "cookie_dict cookies = fold (\<lambda>(k, v) d. dict_set d k (VStr v)) cookies []"

definition snapshot_once :: "'p driver \<Rightarrow> identity_card \<Rightarrow> ('p, dict) prog" where
  "snapshot_once dr me =
     andthen (perform (dr_screenshot dr)) (
     bnd (perform (dr_frames dr)) (\<lambda>frames.
     bnd (all_controls dr frames) (\<lambda>controls.
     bnd (perform (dr_cookies dr)) (\<lambda>cookies.
     bnd (perform (dr_url dr)) (\<lambda>url.
     bnd (perform (dr_title dr)) (\<lambda>title.
     ret [(''session_id'', VStr (id_session me)), (''status'', VStr ''ACTIVE''), (''url'', VStr url), (''title'', VStr title),
          (''controls'', sanitize (dr_secrets dr) (VList controls)), (''cookie_names'', VList (map (VStr \<circ> fst) cookies)),
          (''cookies'', VDict (cookie_dict cookies)), (''screenshot_path'', VStr (id_picture me)),
          (''worker_thread_id'', VInt (id_thread me))]))))))"

fun snapshot_tries :: "'p driver \<Rightarrow> identity_card \<Rightarrow> nat list \<Rightarrow> ('p, dict) prog" where
  "snapshot_tries dr me [] = fail (RuntimeError ''Browser snapshot retry loop exhausted'')"
| "snapshot_tries dr me (n # later) =
     catch (dr_is_error dr) (snapshot_once dr me) (\<lambda>exc.
       if \<not> contains ''Execution context was destroyed'' (exn_text exc) \<or> n = 2 then fail exc
       else andthen (perform (dr_pause dr)) (snapshot_tries dr me later))"

definition snapshot :: "'p driver \<Rightarrow> identity_card \<Rightarrow> ('p, dict) prog" where
  "snapshot dr me = snapshot_tries dr me [0..<3]"

section \<open>Commands\<close>

record command =
  cm_action :: string
  cm_params :: dict

definition param :: "dict \<Rightarrow> string \<Rightarrow> string res" where
  "param params k = rbind (item_at params k) (\<lambda>v. Inr (py_str v))"

definition frame_of :: "dict \<Rightarrow> string option" where
  "frame_of params = (let v = dict_val params ''frame_selector'' in if truthy v then Some (py_str v) else None)"

definition fill_control :: "'p driver \<Rightarrow> dict \<Rightarrow> ('p, unit) prog" where
  "fill_control dr params =
     bnd (of_res (param params ''selector'')) (\<lambda>selector.
     andthen (perform (dr_wait_first dr (frame_of params) selector)) (
     bnd (of_res (param params ''value'')) (\<lambda>value.
     perform (dr_fill_first dr (frame_of params) selector value))))"

definition click_control :: "'p driver \<Rightarrow> dict \<Rightarrow> ('p, unit) prog" where
  "click_control dr params =
     bnd (of_res (param params ''selector'')) (\<lambda>selector.
     andthen (perform (dr_wait_first dr (frame_of params) selector)) (
     bnd (perform (dr_owner_frame dr (frame_of params) selector)) (\<lambda>action_frame.
     andthen (perform (dr_click_first dr (frame_of params) selector))
       (perform (dr_wait_idle dr action_frame)))))"

definition set_cookie :: "'p driver \<Rightarrow> dict \<Rightarrow> ('p, unit) prog" where
  "set_cookie dr params =
     bnd (of_res (param params ''name'')) (\<lambda>name.
     bnd (of_res (param params ''value'')) (\<lambda>value.
     bnd (of_res (param params ''url'')) (\<lambda>url.
     perform (dr_add_cookie dr name value url))))"

definition execute_command :: "'p driver \<Rightarrow> identity_card \<Rightarrow> command \<Rightarrow> ('p, dict) prog" where
  "execute_command dr me cm =
     andthen (if cm_action cm = ''NAVIGATE'' then bnd (of_res (param (cm_params cm) ''url'')) (\<lambda>url. perform (dr_goto dr url))
       else if cm_action cm = ''FILL'' then fill_control dr (cm_params cm)
       else if cm_action cm = ''CLICK'' then click_control dr (cm_params cm)
       else if cm_action cm = ''SET_COOKIE'' then set_cookie dr (cm_params cm)
       else unless_raise (cm_action cm = ''SNAPSHOT'')
         (ValueError (fstr [''Unsupported browser-session action '', sq, cm_action cm, sq])))
     (snapshot dr me)"

section \<open>The worker\<close>

datatype answer = Good dict | Bad string

text \<open>One turn of the loop: the answer, whether the loop ends, and the page.\<close>

definition serve_command ::
  "'p driver \<Rightarrow> (string \<Rightarrow> string) \<Rightarrow> identity_card \<Rightarrow> command \<Rightarrow> 'p \<Rightarrow> answer \<times> bool \<times> 'p" where
  "serve_command dr names me cm p =
     (let closing = (cm_action cm = ''CLOSE'') in
      case (if closing then andthen (perform (dr_close dr)) (ret [(''status'', VStr ''CLOSED'')]) else execute_command dr me cm) p of
        (Ret d, q) \<Rightarrow> (Good d, closing, q)
      | (Raise e, q) \<Rightarrow> (Bad (fstr [exn_class names e, '': '', exn_text e]), False, q)
      | (Died, q) \<Rightarrow> (Bad [], True, q))"

text \<open>The loop on the commands that are waiting: the answers, what is left unserved, and the page.\<close>

fun command_loop ::
  "'p driver \<Rightarrow> (string \<Rightarrow> string) \<Rightarrow> identity_card \<Rightarrow> command list \<Rightarrow> 'p \<Rightarrow> answer list \<times> command list \<times> bool \<times> 'p" where
  "command_loop dr names me [] p = ([], [], True, p)"
| "command_loop dr names me (cm # cms) p = (case serve_command dr names me cm p of
      (a, True, q) \<Rightarrow> ([a], cms, False, q)
    | (a, False, q) \<Rightarrow> (case command_loop dr names me cms q of (as, left, alive, q') \<Rightarrow> (a # as, left, alive, q')))"

record 'p session_worker =
  sw_card :: identity_card
  sw_waiting :: "command list"
  sw_alive :: bool
  sw_page :: 'p

text \<open>Put a command in the queue and wait for its answer.\<close>

definition worker_execute ::
  "'p driver \<Rightarrow> (string \<Rightarrow> string) \<Rightarrow> bool \<Rightarrow> string \<Rightarrow> dict \<Rightarrow> ('p session_worker, dict) prog" where
  "worker_execute dr names late action params = (\<lambda>w.
     let cm = \<lparr>cm_action = action, cm_params = params\<rparr>; queue = sw_waiting w @ [cm] in
     if late \<or> \<not> sw_alive w
     then (Raise (OtherException (fstr [''Browser session command '', action, '' timed out''])), w\<lparr>sw_waiting := queue\<rparr>)
     else (case command_loop dr names (sw_card w) queue (sw_page w) of (answers, left, alive, q) \<Rightarrow>
       (if length answers < length queue
        then Raise (OtherException (fstr [''Browser session command '', action, '' timed out'']))
        else case last answers of
          Good d \<Rightarrow> Ret d
        | Bad t \<Rightarrow> Raise (RuntimeError (fstr [''Browser session command '', action, '' failed: '', t])),
        w\<lparr>sw_waiting := left, sw_alive := alive, sw_page := q\<rparr>)))"

definition worker_close :: "'p driver \<Rightarrow> (string \<Rightarrow> string) \<Rightarrow> bool \<Rightarrow> ('p session_worker, unit) prog" where
  "worker_close dr names late = (\<lambda>w. if sw_alive w
     then andthen (worker_execute dr names late ''CLOSE'' []) (ret ()) w else (Ret (), w))"

section \<open>The broker\<close>

datatype 'p opened = Not_Ready | Broken string | Opened 'p

record 'p sessions =
  bk_driver :: "'p driver"
  bk_names :: "string \<Rightarrow> string"
  bk_open :: "string \<Rightarrow> 'p opened"
  bk_picture :: "string \<Rightarrow> string"
  bk_thread :: "string \<Rightarrow> int"

type_synonym 'p broker = "(string \<times> 'p session_worker) list"

definition session_id_of :: "string \<Rightarrow> string" where
  "session_id_of uuid = ''browser-'' @ filter (\<lambda>c. c \<noteq> CHR ''-'') uuid"

definition not_active :: "string \<Rightarrow> exn" where
  "not_active sid = KeyError (repr_str (fstr [''Browser session '', sq, sid, sq, '' is not active in this worker'']))"

text \<open>Run a command of one worker, in place.\<close>

definition on_worker :: "string \<Rightarrow> 'p session_worker \<Rightarrow> ('p session_worker, 'a) prog \<Rightarrow> ('p broker, 'a) prog" where
  "on_worker sid w p = (\<lambda>bk. case p w of (r, w') \<Rightarrow> (r, AList.update sid w' bk))"

definition broker_create :: "'p sessions \<Rightarrow> bool \<Rightarrow> string \<Rightarrow> string \<Rightarrow> ('p broker, string \<times> dict) prog" where
  "broker_create sv late uuid initial_url =
     (let sid = session_id_of uuid in case bk_open sv initial_url of
        Not_Ready \<Rightarrow> fail (OtherException (fstr [''Browser session '', sid, '' did not start'']))
      | Broken t \<Rightarrow> fail (RuntimeError (''Browser session failed to start: '' @ t))
      | Opened p \<Rightarrow>
          let w = \<lparr>sw_card = \<lparr>id_session = sid, id_picture = bk_picture sv sid, id_thread = bk_thread sv sid\<rparr>,
                sw_waiting = [], sw_alive = True, sw_page = p\<rparr>
          in andthen (change (AList.update sid w)) (
             bnd (on_worker sid w (worker_execute (bk_driver sv) (bk_names sv) late ''SNAPSHOT'' [])) (\<lambda>d. ret (sid, d))))"

definition broker_execute :: "'p sessions \<Rightarrow> bool \<Rightarrow> string \<Rightarrow> string \<Rightarrow> dict \<Rightarrow> ('p broker, dict) prog" where
  "broker_execute sv late sid action params =
     bnd (gets (\<lambda>bk. map_of bk sid)) (\<lambda>found. case found of
       None \<Rightarrow> fail (not_active sid)
     | Some w \<Rightarrow> on_worker sid w (worker_execute (bk_driver sv) (bk_names sv) late action params))"

definition broker_close :: "'p sessions \<Rightarrow> bool \<Rightarrow> string \<Rightarrow> ('p broker, unit) prog" where
  "broker_close sv late sid =
     bnd (gets (\<lambda>bk. map_of bk sid)) (\<lambda>found.
     andthen (change (AList.delete sid)) (case found of
       None \<Rightarrow> ret ()
     | Some w \<Rightarrow> (\<lambda>bk. (fst (worker_close (bk_driver sv) (bk_names sv) late w), bk))))"

section \<open>What a session answers\<close>

text \<open>A program on a page ends with a value or an exception.\<close>

definition answers :: "('p, 'a) prog \<Rightarrow> bool" where
  "answers f \<longleftrightarrow> (\<forall>p. fst (f p) \<noteq> Died)"

named_theorems answers_rules \<open>programs that answer\<close>

lemma answers_basic [answers_rules]:
  "answers (ret x)" "answers (fail e)" "answers (perform f)" "answers (of_res r)" "answers (unless_raise b e)"
  by (auto simp: answers_def perform_def of_res_def unless_raise_def split: prod.splits sum.splits)

lemma answers_bnd [answers_rules]: "answers f \<Longrightarrow> (\<And>x. answers (g x)) \<Longrightarrow> answers (bnd f g)"
  by (auto simp: answers_def bnd_def split: prod.splits run.splits) (metis fst_conv)

lemma answers_andthen [answers_rules]: "answers f \<Longrightarrow> answers g \<Longrightarrow> answers (andthen f g)"
  by (simp add: andthen_def answers_bnd)

lemma answers_catch [answers_rules]: "answers f \<Longrightarrow> (\<And>e. answers (h e)) \<Longrightarrow> answers (catch ok f h)"
  by (auto simp: answers_def catch_def split: prod.splits run.splits) (metis fst_conv)

lemma answers_if [answers_rules]: "answers f \<Longrightarrow> answers g \<Longrightarrow> answers (if b then f else g)"
  by simp

lemma answers_option [answers_rules]:
  "answers f \<Longrightarrow> (\<And>y. answers (g y)) \<Longrightarrow> answers (case x of None \<Rightarrow> f | Some y \<Rightarrow> g y)"
  by (cases x) simp_all

lemma answers_controls [answers_rules]: "answers (read_controls dr fr js)" "answers (all_controls dr frs)"
proof -
  show r: "answers (read_controls dr fr js)" for fr js
    by (induction js) (simp_all only: read_controls.simps; intro answers_rules; assumption?)+
  show "answers (all_controls dr frs)"
    by (induction frs) (simp_all only: all_controls.simps frame_controls_def; intro answers_rules r; assumption?)+
qed

lemma answers_snapshot [answers_rules]: "answers (snapshot_tries dr me ns)"
  by (induction ns) (simp_all only: snapshot_tries.simps snapshot_once_def; intro answers_rules; assumption?)+

lemma answers_command [answers_rules]: "answers (execute_command dr me cm)"
  unfolding execute_command_def fill_control_def click_control_def set_cookie_def snapshot_def by (intro answers_rules)

text \<open>A turn ends the loop only for a \<open>CLOSE\<close> that succeeded; an exception is answered.\<close>

lemma serve_command_cases:
  obtains (good) d q where "serve_command dr names me cm p = (Good d, cm_action cm = ''CLOSE'', q)"
  | (bad) e q where "serve_command dr names me cm p = (Bad (fstr [exn_class names e, '': '', exn_text e]), False, q)"
proof -
  let ?f = "if cm_action cm = ''CLOSE'' then andthen (perform (dr_close dr)) (ret [(''status'', VStr ''CLOSED'')]) else execute_command dr me cm"
  have "answers ?f" by (intro answers_rules)
  then have live: "fst (?f p) \<noteq> Died" by (simp only: answers_def) blast
  obtain r q where f: "?f p = (r, q)" by (cases "?f p")
  show thesis
  proof (cases r)
    case (Ret d)
    then show thesis using good f unfolding serve_command_def Let_def by simp
  next
    case (Raise e)
    then show thesis using bad f unfolding serve_command_def Let_def by simp
  next
    case Died
    then show thesis using live f by simp
  qed
qed

definition answered_in_order ::
  "'p driver \<Rightarrow> (string \<Rightarrow> string) \<Rightarrow> identity_card \<Rightarrow> command list \<Rightarrow> answer list \<Rightarrow> command list \<Rightarrow> bool \<Rightarrow> bool" where
  "answered_in_order dr names me cms as left alive \<longleftrightarrow> length as + length left = length cms \<and>
    (\<forall>i < length as. \<exists>p. as ! i = fst (serve_command dr names me (cms ! i) p)) \<and>
    (alive \<longrightarrow> left = []) \<and> (\<not> alive \<longrightarrow> as \<noteq> [] \<and> cm_action (cms ! (length as - 1)) = ''CLOSE'')"

lemma answered_first:
  assumes "serve_command dr names me cm p = (a, False, q)" and "answered_in_order dr names me cms as left alive"
  shows "answered_in_order dr names me (cm # cms) (a # as) left alive"
proof -
  have "\<exists>p'. (a # as) ! i = fst (serve_command dr names me ((cm # cms) ! i) p')" if "i < length (a # as)" for i
  proof (cases i)
    case 0
    then show ?thesis using assms(1) by (metis fst_conv nth_Cons_0)
  next
    case (Suc j)
    then show ?thesis using assms(2) that by (simp add: answered_in_order_def)
  qed
  then show ?thesis using assms(2) unfolding answered_in_order_def by (cases as) auto
qed

text \<open>
  A session answers its commands in the order they were put, each exactly once, and no
  failure ends it: what a command raises is its answer.  The loop ends only at a \<open>CLOSE\<close>
  that succeeded, and what was put behind that is never served.
\<close>

theorem session_answers_in_order:
  assumes "command_loop dr names me cms p = (as, left, alive, q)"
  shows "answered_in_order dr names me cms as left alive"
  using assms
proof (induction cms arbitrary: p as left alive q)
  case (Cons cm cms)
  obtain a stop q1 where serve: "serve_command dr names me cm p = (a, stop, q1)" by (cases "serve_command dr names me cm p")
  show ?case
  proof (cases stop)
    case True
    have "cm_action cm = ''CLOSE''" by (cases rule: serve_command_cases [of dr names me cm p]) (use serve True in auto)
    then show ?thesis using Cons.prems serve True
      by (auto simp: answered_in_order_def intro: exI [where x = p])
  next
    case False
    obtain as1 left1 alive1 q2 where rest: "command_loop dr names me cms q1 = (as1, left1, alive1, q2)"
      by (cases "command_loop dr names me cms q1")
    then have "as = a # as1" "left = left1" "alive = alive1" using Cons.prems serve False by auto
    then show ?thesis using answered_first [of dr names me cm p a q1] serve False Cons.IH [OF rest] by simp
  qed
qed (simp add: answered_in_order_def)

section \<open>Snapshots are tried three times\<close>

definition counting :: "'p driver \<Rightarrow> ('p \<times> nat) driver" where
  "counting dr = \<lparr>dr_goto = (\<lambda>u. lifted (dr_goto dr u)), dr_wait_first = (\<lambda>f s. lifted (dr_wait_first dr f s)),
     dr_fill_first = (\<lambda>f s v. lifted (dr_fill_first dr f s v)), dr_owner_frame = (\<lambda>f s. lifted (dr_owner_frame dr f s)),
     dr_click_first = (\<lambda>f s. lifted (dr_click_first dr f s)), dr_wait_idle = (\<lambda>f. lifted (dr_wait_idle dr f)),
     dr_add_cookie = (\<lambda>n v u. lifted (dr_add_cookie dr n v u)),
     dr_screenshot = (\<lambda>(p, n). case dr_screenshot dr p of (r, q) \<Rightarrow> (r, (q, Suc n))),
     dr_frames = lifted (dr_frames dr), dr_count_controls = (\<lambda>f. lifted (dr_count_controls dr f)),
     dr_control = (\<lambda>f i. lifted (dr_control dr f i)), dr_cookies = lifted (dr_cookies dr), dr_url = lifted (dr_url dr),
     dr_title = lifted (dr_title dr), dr_pause = lifted (dr_pause dr), dr_close = lifted (dr_close dr),
     dr_is_error = dr_is_error dr, dr_secrets = dr_secrets dr\<rparr>"

lemma keeps_count [keeps_rules]: "keeps (\<lambda>s. snd s = n) (perform (lifted f))"
  by (rule keepsI) (auto simp: perform_def lifted_def split: prod.splits sum.splits)

lemma keeps_controls:
  "keeps (\<lambda>s. snd s = n) (read_controls (counting dr) fr js)" "keeps (\<lambda>s. snd s = n) (all_controls (counting dr) frs)"
proof -
  show r: "keeps (\<lambda>s. snd s = n) (read_controls (counting dr) fr js)" for fr js
    by (induction js) (simp_all only: read_controls.simps counting_def driver.simps; intro keeps_rules; assumption?)+
  show "keeps (\<lambda>s. snd s = n) (all_controls (counting dr) frs)"
    by (induction frs)
      (simp_all only: all_controls.simps frame_controls_def; (intro keeps_rules r)?; (simp only: counting_def driver.simps)?; intro keeps_rules; assumption?)+
qed

lemma snapshot_once_counts:
  "snd (snd (snapshot_once (counting dr) me (p, n))) = Suc n"
proof -
  obtain r q where shot: "perform (dr_screenshot (counting dr)) (p, n) = (r, (q, Suc n))"
    by (cases "dr_screenshot dr p"; cases "fst (dr_screenshot dr p)") (auto simp: perform_def counting_def)
  have rest: "keeps (\<lambda>s. snd s = Suc n) (bnd (perform (dr_frames (counting dr))) (\<lambda>frames.
     bnd (all_controls (counting dr) frames) (\<lambda>controls. bnd (perform (dr_cookies (counting dr))) (\<lambda>cookies.
     bnd (perform (dr_url (counting dr))) (\<lambda>url. bnd (perform (dr_title (counting dr))) (\<lambda>title. ret (g controls cookies url title)))))))" for g
    by (intro keeps_rules keeps_controls(2)) (simp_all only: counting_def driver.simps keeps_count)
  show ?thesis
    using shot keepsD [OF rest, of "(q, Suc n)"] by (cases r) (simp_all add: snapshot_once_def andthen_def bnd_def)
qed

lemma snapshot_tries_count:
  "let m = snd (snd (snapshot_tries (counting dr) me ns (p, n))) in m \<le> n + length ns \<and> (ns \<noteq> [] \<longrightarrow> n < m)"
proof (induction ns arbitrary: p n)
  case (Cons k ns)
  obtain r q where once: "snapshot_once (counting dr) me (p, n) = (r, (q, Suc n))"
    using snapshot_once_counts [of dr me p n] by (metis prod.collapse)
  obtain r' q' where pause: "perform (dr_pause (counting dr)) (q, Suc n) = (r', (q', Suc n))"
    by (cases "dr_pause dr q"; cases "fst (dr_pause dr q)") (auto simp: perform_def counting_def lifted_def)
  have later: "Suc n \<le> snd (snd (snapshot_tries (counting dr) me ns (q', Suc n)))"
    "snd (snd (snapshot_tries (counting dr) me ns (q', Suc n))) \<le> Suc n + length ns"
    using Cons.IH [of q' "Suc n"] by (cases ns; simp add: Let_def)+
  show ?case
    using once pause later by (cases r; cases r') (auto simp: catch_def andthen_def bnd_def Let_def)
qed simp

lemma snapshot_tries_raise:
  assumes "snapshot_tries dr me ns p = (Raise e, q)" and "2 \<in> set ns"
  shows "(\<exists>s. fst (snapshot_once dr me s) = Raise e) \<or> (\<exists>s. fst (perform (dr_pause dr) s) = Raise e)"
  using assms
proof (induction ns arbitrary: p)
  case (Cons k ns)
  obtain r s where once: "snapshot_once dr me p = (r, s)" by (cases "snapshot_once dr me p")
  then have first: "fst (snapshot_once dr me p) = r" by simp
  show ?case
  proof (cases r)
    case (Raise e1)
    show ?thesis
    proof (cases "dr_is_error dr e1 \<and> contains ''Execution context was destroyed'' (exn_text e1) \<and> k \<noteq> 2")
      case True
      obtain r2 s2 where pause: "perform (dr_pause dr) s = (r2, s2)" by (cases "perform (dr_pause dr) s")
      then have second: "fst (perform (dr_pause dr) s) = r2" by simp
      show ?thesis
      proof (cases r2)
        case (Ret u)
        then show ?thesis using Cons.IH [of s2] Cons.prems once pause Raise True by (simp add: catch_def andthen_def bnd_def)
      next
        case (Raise e2)
        then have "e2 = e" using Cons.prems(1) once pause \<open>r = Raise e1\<close> True by (simp add: catch_def andthen_def bnd_def)
        then show ?thesis using second Raise by blast
      next
        case Died
        then show ?thesis using Cons.prems(1) once pause \<open>r = Raise e1\<close> True by (simp add: catch_def andthen_def bnd_def)
      qed
    next
      case False
      then have "e1 = e" using Cons.prems(1) once Raise by (auto simp: catch_def split: if_splits)
      then show ?thesis using first Raise by blast
    qed
  qed (use Cons.prems(1) once in \<open>simp_all add: catch_def\<close>)
qed simp

text \<open>
  A snapshot is bounded: whatever the page does, one to three pictures are taken, and an
  error it ends with is one that an attempt or the pause between two attempts raised.
\<close>

theorem snapshot_bounded:
  assumes "snapshot (counting dr) me (p, n) = (r, (q, m))"
  shows "n < m \<and> m \<le> n + 3 \<and> (\<forall>e. r = Raise e \<longrightarrow>
    (\<exists>s. fst (snapshot_once (counting dr) me s) = Raise e) \<or> (\<exists>s. fst (perform (dr_pause (counting dr)) s) = Raise e))"
proof -
  have "m \<le> n + 3 \<and> n < m"
    using snapshot_tries_count [of dr me "[0..<3]" p n] assms by (simp add: snapshot_def Let_def upt_rec)
  then show ?thesis using snapshot_tries_raise [of "counting dr" me "[0..<3]" "(p, n)"] assms by (auto simp: snapshot_def)
qed

text \<open>A session that was closed is not found any more.\<close>

lemma closed_session_unknown:
  assumes "distinct (map fst bk)"
  shows "fst (broker_execute sv late sid action params (snd (broker_close sv late' sid bk))) = Raise (not_active sid)"
proof -
  have "snd (broker_close sv late' sid bk) = AList.delete sid bk"
    by (cases "map_of bk sid") (simp_all add: broker_close_def andthen_def bnd_def split: run.splits)
  moreover have "map_of (AList.delete sid bk) sid = None" by (simp add: delete_conv)
  ultimately show ?thesis by (simp add: broker_execute_def)
qed

section \<open>A concrete session\<close>

definition busy_driver :: "nat driver" where
  "busy_driver = \<lparr>dr_goto = (\<lambda>u p. (Inr (), p)), dr_wait_first = (\<lambda>f s p. (Inr (), p)), dr_fill_first = (\<lambda>f s v p. (Inr (), p)),
     dr_owner_frame = (\<lambda>f s p. (Inr None, p)), dr_click_first = (\<lambda>f s p. (Inr (), Suc p)), dr_wait_idle = (\<lambda>f p. (Inr (), p)),
     dr_add_cookie = (\<lambda>n v u p. (Inr (), p)), dr_screenshot = (\<lambda>p. (Inr (), p)), dr_frames = (\<lambda>p. (Inr [0], p)),
     dr_count_controls = (\<lambda>f p. (Inr 1, p)), dr_control = (\<lambda>f i p. (Inr (VStr ''ok''), p)),
     dr_cookies = (\<lambda>p. (Inr [(''sid'', ''v'')], p)), dr_url = (\<lambda>p. (Inl (OtherException ''Execution context was destroyed''), p)),
     dr_title = (\<lambda>p. (Inr ''t'', p)), dr_pause = (\<lambda>p. (Inr (), p)), dr_close = (\<lambda>p. (Inr (), p)),
     dr_is_error = (\<lambda>_. True), dr_secrets = []\<rparr>"

definition sample_card :: identity_card where
  "sample_card = \<lparr>id_session = ''browser-1'', id_picture = ''latest.png'', id_thread = 7\<rparr>"

lemma snapshot_bounded_witness:
  "\<exists>r q m. snapshot (counting busy_driver) sample_card (0, 0) = (r, (q, m)) \<and> m \<le> 3"
proof -
  obtain r q m where "snapshot (counting busy_driver) sample_card (0, 0) = (r, (q, m))"
    by (metis prod.collapse)
  then show ?thesis using snapshot_bounded [of busy_driver sample_card 0 0 r q m] by auto
qed

lemma session_answers_in_order_witness:
  "\<exists>as left alive q. command_loop busy_driver id sample_card [\<lparr>cm_action = ''CLICK'', cm_params = []\<rparr>, \<lparr>cm_action = ''CLOSE'', cm_params = []\<rparr>,
      \<lparr>cm_action = ''SNAPSHOT'', cm_params = []\<rparr>] 0 = (as, left, alive, q) \<and> length as + length left = 3"
proof -
  let ?cms = "[\<lparr>cm_action = ''CLICK'', cm_params = []\<rparr>, \<lparr>cm_action = ''CLOSE'', cm_params = []\<rparr>, \<lparr>cm_action = ''SNAPSHOT'', cm_params = []\<rparr>] :: command list"
  obtain as left alive q where run: "command_loop busy_driver id sample_card ?cms 0 = (as, left, alive, q)"
    by (cases "command_loop busy_driver id sample_card ?cms 0")
  show ?thesis using session_answers_in_order [OF run] run by (auto simp: answered_in_order_def)
qed

end
