(* ===== verification/OperatorApi.thy ===== *)
theory OperatorApi
  imports BrowserSession Web
begin

text \<open>
  The operator and audit console (\<open>tandem/api/app.py\<close>).  A request is served in a session
  of its own; the world behind it is the process's broker of browser sessions and its
  runner of cases.  The framework parses and checks the body of a request and turns an
  \<open>HTTPException\<close> into an answer (\<open>Web\<close>).  A page is modelled by the facts it shows; its
  markup is not.
\<close>

section \<open>The process\<close>

record 'p desk =
  dk_broker :: "'p broker"
  dk_runner :: runner

record 'p console =
  cs_ambient :: ambient
  cs_settings :: settings
  cs_web :: web
  cs_sessions :: "'p sessions"

definition on_broker :: "('p broker, 'a) prog \<Rightarrow> ('p desk system, 'a) prog" where
  "on_broker p = on_world (on_part dk_broker (\<lambda>b w. w\<lparr>dk_broker := b\<rparr>) p)"

definition on_runner :: "(runner \<Rightarrow> 'a \<times> runner) \<Rightarrow> ('p desk system, 'a) prog" where
  "on_runner f = on_world (\<lambda>w. case f (dk_runner w) of (x, rn) \<Rightarrow> (Ret x, w\<lparr>dk_runner := rn\<rparr>))"

text \<open>A value or the refusal that is answered instead.\<close>

type_synonym ('p, 'a) handler = "('p desk system, refusal + 'a) prog"

definition http_error :: "nat \<Rightarrow> string \<Rightarrow> ('p, 'a) handler" where
  "http_error status detail = ret (Inl (HTTP_Exception status detail))"

definition served :: "web \<Rightarrow> ('a \<Rightarrow> response) \<Rightarrow> ('p, 'a) handler \<Rightarrow> ('p desk system, response) prog" where
  "served wb f h = in_session (bnd h (\<lambda>r. ret (case r of Inl refusal \<Rightarrow> refused wb refusal | Inr x \<Rightarrow> f x)))"

section \<open>Starting up and opening cases\<close>

definition resume_on_startup :: "('p desk system, string list) prog" where
  "resume_on_startup = in_session (bnd (gets sy_db) (\<lambda>d. on_runner (recover_incomplete_cases d)))"

record create_request =
  cr_member_id :: string
  cr_amount :: val
  cr_case_id :: "string option"
  cr_card_last4 :: string

text \<open>\<open>request.case_id or generate_case_id()\<close>.\<close>

definition chosen_case_id :: "ambient \<Rightarrow> create_request \<Rightarrow> ('p desk system, string) prog" where
  "chosen_case_id a rq = (case cr_case_id rq of
      Some (c # cs) \<Rightarrow> ret (c # cs)
    | _ \<Rightarrow> bnd (on_db (new_uuid a)) (\<lambda>u. ret (generate_case_id u)))"

definition api_create_case :: "'p console \<Rightarrow> create_request \<Rightarrow> ('p, dict) handler" where
  "api_create_case cs rq =
     (let a = cs_ambient cs in
     bnd (chosen_case_id a rq) (\<lambda>case_id.
     bnd (gets (\<lambda>x. get_case case_id (sy_db x))) (\<lambda>existing.
     if cr_case_id rq \<noteq> None \<and> existing \<noteq> None
     then http_error 409 (fstr [''Case '', sq, case_id, sq, '' already exists''])
     else
       andthen (on_db (create_or_get_case a case_id (cr_member_id rq) (cr_amount rq) ''USD'' ''reg_e_dispute'')) (
       andthen commit (
       andthen (on_runner (\<lambda>rn. ((), submit_case case_id (cr_member_id rq) (cr_amount rq) (cr_card_last4 rq) rn)))
         (ret (Inr [(''case_id'', VStr case_id), (''status'', VStr ''ACCEPTED'')])))))))"

section \<open>Pages\<close>

record dashboard_row =
  db_case_id :: string
  db_member_id :: string
  db_amount :: money
  db_status :: string
  db_color :: string
  db_money_moved :: bool
  db_lease_owner :: "string option"
  db_pending :: nat

definition status_color :: "string \<Rightarrow> string" where
  "status_color status =
     (if status = ''WAITING_RESOLUTION'' then ''#27ae60''
      else if status = ''NEEDS_HUMAN'' then ''#d35400''
      else if status = ''UNCERTAIN_EFFECT'' then ''#8e44ad'' else ''#2980b9'')"

text \<open>An empty owner is shown as none.\<close>

definition shown_owner :: "case_snapshot \<Rightarrow> string option" where
  "shown_owner s = (case lease_holder s of Some (c # cs) \<Rightarrow> Some (c # cs) | _ \<Rightarrow> None)"

definition dashboard_row_of :: "case_row \<Rightarrow> case_snapshot \<Rightarrow> dashboard_row" where
  "dashboard_row_of c s =
     \<lparr>db_case_id = c_case_id c, db_member_id = c_member_id c, db_amount = c_amount c, db_status = c_status c,
      db_color = status_color (c_status c), db_money_moved = summary_money_moved s, db_lease_owner = shown_owner s,
      db_pending = length (pending_deadlines s)\<rparr>"

fun dashboard_rows :: "ambient \<Rightarrow> case_row list \<Rightarrow> ('p desk system, dashboard_row list) prog" where
  "dashboard_rows a [] = ret []"
| "dashboard_rows a (c # cs) =
     bnd (on_db (reconstruct_case_state a (c_case_id c))) (\<lambda>s.
     bnd (dashboard_rows a cs) (\<lambda>rows. ret (dashboard_row_of c s # rows)))"

definition operator_dashboard :: "'p console \<Rightarrow> ('p, dashboard_row list) handler" where
  "operator_dashboard cs =
     bnd (gets (\<lambda>x. list_cases (sy_db x))) (\<lambda>cases.
     bnd (dashboard_rows (cs_ambient cs) cases) (\<lambda>rows. ret (Inr rows)))"

text \<open>The facts of the page of a case, and the hidden field of its two forms.\<close>

record case_page =
  pg_snapshot :: case_snapshot
  pg_deadlines :: "deadline_row list"
  pg_executions :: "execution_row list"
  pg_events :: "event_row list"
  pg_lease_owner :: "string option"
  pg_form_token :: string

definition case_page_of :: "'p console \<Rightarrow> string \<Rightarrow> case_snapshot \<Rightarrow> ('p, case_page) handler" where
  "case_page_of cs case_id s =
     bnd (gets sy_db) (\<lambda>d.
     andthen (unless_raise (list_all (\<lambda>e. ex_money_moved e \<longrightarrow> ex_observed_amount e \<noteq> None) (get_executions_for_case case_id d))
        (TypeError ''unsupported format string passed to NoneType.__format__''))
     (ret (Inr \<lparr>pg_snapshot = s, pg_deadlines = get_deadlines_for_case case_id d, pg_executions = get_executions_for_case case_id d,
        pg_events = get_events_for_case case_id d, pg_lease_owner = shown_owner s,
        pg_form_token = tandem_admin_token (cs_settings cs)\<rparr>)))"

definition case_detail_view :: "'p console \<Rightarrow> string \<Rightarrow> ('p, case_page) handler" where
  "case_detail_view cs case_id =
     bnd (catch is_ValueError
        (bnd (on_db (reconstruct_case_state (cs_ambient cs) case_id)) (\<lambda>s. ret (Inr s)))
        (\<lambda>_. http_error 404 ''Case not found in ledger''))
     (\<lambda>found. case found of Inl r \<Rightarrow> ret (Inl r) | Inr s \<Rightarrow> case_page_of cs case_id s)"

definition deadline_view :: "deadline_row \<Rightarrow> val" where
  "deadline_view r = VDict [(''type'', VStr (dl_deadline_type r)), (''due_at'', VStr (isoformat (dl_due_at r))), (''status'', VStr (dl_status r))]"

definition api_get_case_state :: "'p console \<Rightarrow> string \<Rightarrow> ('p, dict) handler" where
  "api_get_case_state cs case_id =
     catch is_ValueError
       (bnd (on_db (reconstruct_case_state (cs_ambient cs) case_id)) (\<lambda>s.
        ret (Inr [(''case_id'', VStr (snapshot_case_id s)), (''member_id'', VStr (snapshot_member_id s)),
          (''amount'', money_val (snapshot_amount s)), (''status'', VStr (snapshot_status s)),
          (''money_moved'', VBool (summary_money_moved s)),
          (''completed_capabilities'', VList (map VStr (completed_capabilities s))),
          (''latest_memo_ref'', opt_val VStr (latest_memo_ref s)), (''lease_owner'', opt_val VStr (lease_holder s)),
          (''requires_human'', VBool (case_requires_human s)),
          (''pending_deadlines'', VList (map deadline_view (pending_deadlines s))),
          (''events_count'', VInt (int (events_count s)))])))
       (\<lambda>err. http_error 404 (exn_text err))"

section \<open>Leases\<close>

text \<open>A redirection to the page of the case.\<close>

definition handle_claim_lease :: "'p console \<Rightarrow> string \<Rightarrow> string \<Rightarrow> ('p, string) handler" where
  "handle_claim_lease cs case_id operator_id =
     catch is_LeaseConflict
       (andthen (claim_operator_lease (cs_ambient cs) case_id operator_id) (ret (Inr (''/cases/'' @ case_id))))
       (\<lambda>err. http_error 409 (exn_text err))"

definition handle_release_lease :: "'p console \<Rightarrow> string \<Rightarrow> ('p, string) handler" where
  "handle_release_lease cs case_id =
     andthen (on_db (release_lease (cs_ambient cs) case_id None None None)) (
     andthen (on_db (acquire_lease (cs_ambient cs) case_id ''AUTOMATION'' None None five_minutes None)) (
     andthen commit (ret (Inr (''/cases/'' @ case_id)))))"

section \<open>Browser sessions\<close>

definition operator_snapshot :: "dict \<Rightarrow> dict" where
  "operator_snapshot result = filter (\<lambda>(k, _). k \<noteq> ''cookies'') result"

definition url_of :: "dict \<Rightarrow> string res" where
  "url_of result = rbind (item_at result ''url'') (\<lambda>v. Inr (py_str v))"

fun is_KeyError :: "exn \<Rightarrow> bool" where
  "is_KeyError (KeyError m) = True"
| "is_KeyError _ = False"

fun is_RuntimeError :: "exn \<Rightarrow> bool" where
  "is_RuntimeError (RuntimeError m) = True"
| "is_RuntimeError _ = False"

definition api_get_browser_session :: "'p console \<Rightarrow> bool \<Rightarrow> string \<Rightarrow> ('p, dict) handler" where
  "api_get_browser_session cs late session_id =
     bnd (gets (\<lambda>x. get_browser_session session_id (sy_db x))) (\<lambda>record. case record of
       None \<Rightarrow> http_error 404 ''Browser session not found''
     | Some _ \<Rightarrow>
         bnd (catch is_KeyError
            (bnd (on_broker (broker_execute (cs_sessions cs) late session_id ''SNAPSHOT'' [])) (\<lambda>d. ret (Inr d)))
            (\<lambda>exc. http_error 409 (exn_text exc))) (\<lambda>result. case result of
           Inl r \<Rightarrow> ret (Inl r)
         | Inr d \<Rightarrow>
             bnd (of_res (url_of d)) (\<lambda>url.
             andthen (on_db (update_browser_session (cs_ambient cs) session_id url ''ACTIVE'')) (
             andthen commit (ret (Inr (operator_snapshot d)))))))"

record action_request =
  ar_owner_id :: string
  ar_fencing_token :: nat
  ar_action :: string
  ar_selector :: string
  ar_frame_selector :: "string option"
  ar_value :: "string option"

definition action_params :: "action_request \<Rightarrow> dict" where
  "action_params rq = [(''selector'', VStr (ar_selector rq)), (''frame_selector'', opt_val VStr (ar_frame_selector rq)),
     (''value'', opt_val VStr (ar_value rq))]"

text \<open>The action on the page and what is recorded of it.\<close>

definition act_in_session :: "'p console \<Rightarrow> bool \<Rightarrow> string \<Rightarrow> session_row \<Rightarrow> lease_row \<Rightarrow> action_request \<Rightarrow> ('p, dict) handler" where
  "act_in_session cs late session_id r lease rq =
     (let a = cs_ambient cs in
     andthen (on_db (heartbeat_lease a (se_case_id r) (ar_owner_id rq) (ar_fencing_token rq) None five_minutes)) (
     andthen commit (
     bnd (catch (\<lambda>e. is_KeyError e \<or> is_RuntimeError e)
        (bnd (on_broker (broker_execute (cs_sessions cs) late session_id (ar_action rq) (action_params rq))) (\<lambda>d. ret (Inr d)))
        (\<lambda>exc. http_error 409 (exn_text exc))) (\<lambda>result. case result of
       Inl refusal \<Rightarrow> ret (Inl refusal)
     | Inr d \<Rightarrow>
         bnd (of_res (url_of d)) (\<lambda>url.
         andthen (on_db (update_browser_session a session_id url ''ACTIVE'')) (
         bnd (of_res (item_at d ''url'')) (\<lambda>shown.
         andthen (on_db (record_event a (se_case_id r) ''BROWSER_ACTION_EXECUTED'' ''browser_session'' (ls_owner_type lease)
           (Some [(''session_id'', VStr session_id), (''owner_id'', VStr (ar_owner_id rq)),
             (''fencing_token'', VInt (int (ar_fencing_token rq))), (''action'', VStr (ar_action rq)),
             (''selector'', VStr (ar_selector rq)), (''url'', shown)]))) (
         andthen commit (ret (Inr (operator_snapshot d)))))))))))"

definition api_execute_browser_action :: "'p console \<Rightarrow> bool \<Rightarrow> string \<Rightarrow> action_request \<Rightarrow> ('p, dict) handler" where
  "api_execute_browser_action cs late session_id rq =
     (let a = cs_ambient cs in
     bnd (gets (\<lambda>x. get_browser_session session_id (sy_db x))) (\<lambda>found. case found of
       None \<Rightarrow> http_error 404 ''Active browser session not found''
     | Some r \<Rightarrow>
         if se_status r \<noteq> ''ACTIVE'' then http_error 404 ''Active browser session not found''
         else bnd (on_db (validate_lease_token a (se_case_id r) (ar_owner_id rq) (ar_fencing_token rq) None)) (\<lambda>valid.
           if \<not> valid then http_error 409 ''Ownership fencing token is stale''
           else bnd (gets (\<lambda>x. get_lease (se_case_id r) (sy_db x))) (\<lambda>held. case held of
             None \<Rightarrow> fail assertion_error
           | Some lease \<Rightarrow>
               if ar_action rq = ''FILL'' \<and> ar_value rq = None then http_error 422 ''FILL requires value''
               else act_in_session cs late session_id r lease rq))))"

section \<open>Routes\<close>

definition health :: "datetime \<Rightarrow> dict" where
  "health now = [(''status'', VStr ''ok''), (''app'', VStr ''tandem-operator-console''), (''timestamp'', VStr (isoformat now))]"

definition create_case_route :: "'p console \<Rightarrow> form_request \<Rightarrow> create_request option \<Rightarrow> ('p desk system, response) prog" where
  "create_case_route cs rq body = guarded_route (cs_settings cs) (cs_web cs) rq (case body of
      None \<Rightarrow> ret (unprocessable (cs_web cs))
    | Some b \<Rightarrow> served (cs_web cs) (json_answer (cs_web cs) 202) (api_create_case cs b))"

definition claim_lease_route :: "'p console \<Rightarrow> form_request \<Rightarrow> string \<Rightarrow> ('p desk system, response) prog" where
  "claim_lease_route cs rq case_id = guarded_route (cs_settings cs) (cs_web cs) rq
     (served (cs_web cs) (\<lambda>_. html_page 303) (handle_claim_lease cs case_id (form_default rq ''operator_id'' ''operator_ui'')))"

definition release_lease_route :: "'p console \<Rightarrow> form_request \<Rightarrow> string \<Rightarrow> ('p desk system, response) prog" where
  "release_lease_route cs rq case_id = guarded_route (cs_settings cs) (cs_web cs) rq
     (served (cs_web cs) (\<lambda>_. html_page 303) (handle_release_lease cs case_id))"

definition browser_action_route ::
  "'p console \<Rightarrow> form_request \<Rightarrow> bool \<Rightarrow> string \<Rightarrow> action_request option \<Rightarrow> ('p desk system, response) prog" where
  "browser_action_route cs rq late session_id body = guarded_route (cs_settings cs) (cs_web cs) rq (case body of
      None \<Rightarrow> ret (unprocessable (cs_web cs))
    | Some b \<Rightarrow> served (cs_web cs) (json_answer (cs_web cs) 200) (api_execute_browser_action cs late session_id b))"

definition case_state_route :: "'p console \<Rightarrow> string \<Rightarrow> ('p desk system, response) prog" where
  "case_state_route cs case_id = served (cs_web cs) (json_answer (cs_web cs) 200) (api_get_case_state cs case_id)"

definition browser_session_route :: "'p console \<Rightarrow> bool \<Rightarrow> string \<Rightarrow> ('p desk system, response) prog" where
  "browser_session_route cs late session_id = served (cs_web cs) (json_answer (cs_web cs) 200) (api_get_browser_session cs late session_id)"

section \<open>Who may act on a page\<close>

lemma keeps_world_db [keeps_rules]: "keeps (\<lambda>x. W (sy_world x)) (on_db p)" "keeps (\<lambda>x. W (sy_world x)) commit"
  by (auto simp: keeps_def on_db_def on_part_def commit_def split: prod.splits)

lemma http_error_run [simp]: "http_error n t x = (Ret (Inl (HTTP_Exception n t)), x)"
  by (simp add: http_error_def)

lemma refused_action_touches_nothing:
  assumes "\<And>s. get_browser_session sid (sy_db z) = Some s \<Longrightarrow> se_status s = ''ACTIVE'' \<Longrightarrow>
    \<not> lease_token_valid (se_case_id s) (ar_owner_id b) (ar_fencing_token b) (amb_now (cs_ambient cs) (tick (sy_db z))) (sy_db z)"
  shows "sy_world (snd (api_execute_browser_action cs late sid b z)) = sy_world z"
proof (cases "get_browser_session sid (sy_db z)")
  case None
  then show ?thesis by (simp add: api_execute_browser_action_def)
next
  case (Some s)
  show ?thesis
  proof (cases "se_status s = ''ACTIVE''")
    case True
    obtain d where v: "on_db (validate_lease_token (cs_ambient cs) (se_case_id s) (ar_owner_id b) (ar_fencing_token b) None) z
        = (Ret False, z\<lparr>sy_db := d\<rparr>)"
      using assms [OF Some True] by (simp add: on_db_def on_part_def validate_run)
    then show ?thesis using Some True by (simp add: api_execute_browser_action_def Let_def) (simp add: bnd_def v)
  next
    case False
    then show ?thesis using Some by (simp add: api_execute_browser_action_def)
  qed
qed

lemma served_world: "sy_world (snd (served wb f h x)) = sy_world (snd (h (durable x)))"
proof -
  obtain r z where "h (durable x) = (r, z)" by (cases "h (durable x)")
  then show ?thesis by (cases r) (simp_all add: served_def in_session_def bnd_def)
qed

text \<open>
  C23: An operator acts on a live page only under the lease of its case.  When a request to act
  touched any worker's page, the session was on record as active and the token the
  request carries was accepted for its case at that moment; without the admin token, and
  for every other request, all pages are as they were.
\<close>

theorem page_action_is_fenced:
  assumes "browser_action_route cs rq late session_id (Some b) x = (r, y)"
    and "dk_broker (sy_world y) \<noteq> dk_broker (sy_world x)"
  shows "presented (cs_settings cs) rq \<and> (\<exists>s. get_browser_session session_id (sy_saved x) = Some s \<and> se_status s = ''ACTIVE'' \<and>
    lease_token_valid (se_case_id s) (ar_owner_id b) (ar_fencing_token b) (amb_now (cs_ambient cs) (tick (sy_db x))) (sy_saved x))"
proof -
  have p: "presented (cs_settings cs) rq"
  proof (rule ccontr)
    assume "\<not> ?thesis"
    then have "snd (browser_action_route cs rq late session_id (Some b) x) = x"
      unfolding browser_action_route_def by (rule guarded_unpresented)
    then show False using assms by simp
  qed
  obtain u where u: "require_admin_token (cs_settings cs) rq = Inr u"
  proof (cases "require_admin_token (cs_settings cs) rq")
    case (Inl e)
    then have "y = x" using assms(1) by (simp add: browser_action_route_def guarded_route_def)
    then show thesis using assms(2) by simp
  qed (rule that)
  let ?x = "durable x" and ?h = "api_execute_browser_action cs late session_id b"
  have "served (cs_web cs) (json_answer (cs_web cs) 200) ?h x = (r, y)"
    using assms(1) u by (simp add: browser_action_route_def guarded_route_def)
  then have "sy_world y = sy_world (snd (?h ?x))" using served_world [of "cs_web cs" "json_answer (cs_web cs) 200" ?h x] by simp
  then have world: "sy_world (snd (?h ?x)) \<noteq> sy_world ?x" using assms(2) durable_sel(2) by metis
  have "\<exists>s. get_browser_session session_id (sy_db ?x) = Some s \<and> se_status s = ''ACTIVE'' \<and>
    lease_token_valid (se_case_id s) (ar_owner_id b) (ar_fencing_token b) (amb_now (cs_ambient cs) (tick (sy_db ?x))) (sy_db ?x)"
    using refused_action_touches_nothing [of session_id ?x b cs late] world by force
  then show ?thesis using p by (auto simp: get_browser_session_def)
qed

section \<open>Opening a case\<close>

lemma created_case:
  assumes "create_or_get_case a c mid v cur proc d = (Ret row, e)"
  shows "\<exists>r. get_case c e = Some r"
  using assms
  by (auto simp: create_or_get_case_def bnd_eq_Ret andthen_eq_Ret record_event_run split: option.splits if_splits)

text \<open>
  A case is never opened twice under a name the caller chose, and never lost: when the
  name is taken the request is refused and nothing is written or submitted; when it is
  accepted, the case is durable and its task is the last one submitted.
\<close>

theorem create_case_exact:
  assumes "api_create_case cs rq x = (Ret answer, y)"
  shows "(\<forall>n t. answer = Inl (HTTP_Exception n t) \<longrightarrow> n = 409 \<and> sy_saved y = sy_saved x \<and> sy_world y = sy_world x \<and>
       (\<exists>c row. get_case c (sy_db x) = Some row))
    \<and> (\<forall>d. answer = Inr d \<longrightarrow> (\<exists>c. dict_val d ''case_id'' = VStr c \<and> (\<exists>row. get_case c (sy_saved y) = Some row) \<and>
       (cr_case_id rq \<noteq> None \<longrightarrow> get_case c (sy_db x) = None) \<and>
       rn_tasks (dk_runner (sy_world y)) = rn_tasks (dk_runner (sy_world x)) @
         [\<lparr>tk_case = c, tk_member = cr_member_id rq, tk_amount = cr_amount rq, tk_card = cr_card_last4 rq\<rparr>]))"
proof -
  let ?a = "cs_ambient cs"
  obtain c z where c: "chosen_case_id ?a rq x = (Ret c, z)"
    and rest: "(if cr_case_id rq \<noteq> None \<and> get_case c (sy_db z) \<noteq> None
       then http_error 409 (fstr [''Case '', sq, c, sq, '' already exists''])
       else andthen (on_db (create_or_get_case ?a c (cr_member_id rq) (cr_amount rq) ''USD'' ''reg_e_dispute'')) (
         andthen commit (
         andthen (on_runner (\<lambda>rn. ((), submit_case c (cr_member_id rq) (cr_amount rq) (cr_card_last4 rq) rn)))
           (ret (Inr [(''case_id'', VStr c), (''status'', VStr ''ACCEPTED'')]))))) z = (Ret answer, y)"
    using assms by (auto simp: api_create_case_def Let_def bnd_eq_Ret)
  have same: "sy_world z = sy_world x" "sy_saved z = sy_saved x" "get_case k (sy_db z) = get_case k (sy_db x)" for k
    using c by (auto simp: chosen_case_id_def bnd_eq_Ret on_db_Ret new_uuid_def split: option.splits list.splits)
  show ?thesis
  proof (cases "cr_case_id rq \<noteq> None \<and> get_case c (sy_db z) \<noteq> None")
    case True
    then show ?thesis using rest same by auto
  next
    case False
    then obtain row u z1 z2 z3 where create: "on_db (create_or_get_case ?a c (cr_member_id rq) (cr_amount rq) ''USD'' ''reg_e_dispute'') z = (Ret row, z1)"
      and y: "y = (let s = z1\<lparr>sy_saved := sy_db z1\<rparr> in s\<lparr>sy_world := (sy_world s)\<lparr>dk_runner :=
          submit_case c (cr_member_id rq) (cr_amount rq) (cr_card_last4 rq) (dk_runner (sy_world s))\<rparr>\<rparr>)"
      and a: "answer = Inr [(''case_id'', VStr c), (''status'', VStr ''ACCEPTED'')]"
      using rest unfolding if_not_P [OF False]
      by (auto simp: andthen_eq_Ret commit_def on_runner_def on_world_def on_part_def Let_def)
    have "\<exists>r. get_case c (sy_db z1) = Some r" using create created_case by (auto simp: on_db_Ret)
    then show ?thesis using a y create same False by (auto simp: Let_def on_db_Ret dict_val_def)
  qed
qed

section \<open>Releasing a case to automation\<close>

lemma acquire_free_case:
  assumes "leases_ok d" "get_case c d \<noteq> None" "\<And>r. get_lease c d = Some r \<Longrightarrow> ls_released_at r \<noteq> None"
    and "valid_request ow ty ttl"
  shows "\<exists>l e. acquire_lease a c ow ty None ttl None d = (Ret l, e) \<and> leases_ok e \<and> get_lease c e = Some l \<and> ls_owner_id l = ow \<and>
    ls_owner_type l = normalized_owner_type ow ty \<and> ls_released_at l = None \<and> ls_expires_at l = amb_now a (tick d) + ttl \<and>
    get_case c e = get_case c d"
proof -
  let ?t = "effective_time a None d" and ?d = "clocked None d"
  obtain res e where run: "acquire_lease a c ow ty None ttl None d = (res, e)" by (cases "acquire_lease a c ow ty None ttl None d")
  have ok: "leases_ok e" using leases_ok_step [OF assms(1) lease_step.acquire [OF run order_refl]] .
  have run': "acquire_lease a c ow ty (Some ?t) ttl None ?d = (res, e)" using run by (simp add: at_effective_time(1) [of a c ow ty None])
  have u: "leases_unique ?d" using assms(1) by (simp add: leases_ok_def leases_unique_def)
  have "\<exists>l. res = Ret l \<and> get_lease c e = Some l \<and> ls_owner_id l = ow \<and> ls_owner_type l = normalized_owner_type ow ty \<and>
    ls_released_at l = None \<and> ls_expires_at l = amb_now a (tick d) + ttl"
  proof (rule acquire_cases [OF u run'])
    let ?n = "new_lease c (lease_resource c None) (normalized_owner_type ow ty) ow 1 1 ?t (?t + ttl)"
    assume *: "get_lease c ?d = None" "t_leases e = t_leases ?d @ [?n]" "res = (if get_case c ?d = None then Raise integrity_error else Ret ?n)"
    then have "get_lease c e = Some ?n" by (simp add: get_lease_def select_first_append)
    then show ?thesis using * assms(2) by (simp add: effective_time_def)
  next
    fix r :: lease_row
    let ?n = "new_lease c (lease_resource c None) (normalized_owner_type ow ty) ow (ls_fencing_token r + 1) (ls_version r + 1) ?t (?t + ttl)"
    assume *: "get_lease c ?d = Some r" "t_leases e = t_leases (put_lease ?n ?d)" "res = (if get_case c ?d = None then Raise integrity_error else Ret ?n)"
    then have "get_lease c e = Some ?n" using get_put_lease [OF *(1), of ?n c] get_lease_cong [OF *(2), of c] by simp
    then show ?thesis using * assms(2) by (simp add: effective_time_def)
  qed (use assms(3,4) in \<open>auto simp: lease_is_active_def\<close>)
  moreover have "desk_only (\<lambda>cs _ _. cs = t_cases d) e"
    by (rule keepsD_run [OF keeps_desk_leases(2) _ run]) (simp add: desk_only_def)
  then have "get_case c e = get_case c d" by (simp add: desk_only_def get_case_def)
  ultimately show ?thesis using run ok by blast
qed

lemma engine_owner_kind: "engine_owner ps uuid \<noteq> ''AUTOMATION''"
  by (simp add: engine_owner_def fstr_def)

text \<open>
  C29: Releasing a case to automation locks automation out of it.  The button hands the lease to
  an owner called \<open>AUTOMATION\<close>, which no worker is: for five minutes every effect engine
  that asks for the lease is refused, and the recovery of a resumed case, which releases
  leases of dead workers, never takes this owner for dead.
\<close>

theorem release_to_automation_locks_workers_out:
  assumes "leases_ok (sy_db x)" and "get_case case_id (sy_db x) = Some row"
  shows "\<exists>answer y l now. handle_release_lease cs case_id x = (Ret answer, y) \<and> get_lease case_id (sy_saved y) = Some l \<and>
    ls_owner_id l = ''AUTOMATION'' \<and> now \<in> range (amb_now (cs_ambient cs)) \<and> ls_expires_at l = now + five_minutes \<and>
    (\<forall>a ps uuid t ttl. t < ls_expires_at l \<longrightarrow> 0 < ttl \<longrightarrow> (\<exists>m. fst (acquire_lease a case_id (engine_owner ps uuid) (Some ''AUTOMATION'')
       (Some t) ttl None (sy_saved y)) = Raise (LeaseConflictError m))) \<and>
    (\<forall>ps. local_owner_is_dead ps (ls_owner_id l) = Inr False)"
proof -
  let ?a = "cs_ambient cs"
  obtain l0 d where d: "release_lease ?a case_id None None None (sy_db x) = (Ret l0, d)" "get_case case_id d = Some row" "leases_ok d"
    "\<And>r. get_lease case_id d = Some r \<Longrightarrow> ls_released_at r \<noteq> None"
    using release_case_run [OF assms] by blast
  have kind: "normalized_owner_type ''AUTOMATION'' None = ''AUTOMATION''" by (simp add: normalized_owner_type_def)
  have v: "valid_request ''AUTOMATION'' None five_minutes" by (simp add: valid_request_def kind five_minutes_def second_us_def)
  have known: "get_case case_id d \<noteq> None" using d(2) by simp
  obtain l e where e: "acquire_lease ?a case_id ''AUTOMATION'' None None five_minutes None d = (Ret l, e)" "leases_ok e"
    "get_lease case_id e = Some l" "ls_owner_id l = ''AUTOMATION''" "ls_owner_type l = ''AUTOMATION''" "ls_released_at l = None"
    "ls_expires_at l = amb_now ?a (tick d) + five_minutes" "get_case case_id e \<noteq> None"
    using acquire_free_case [OF d(3) known d(4) v, of ?a] known unfolding kind by auto
  let ?y = "x\<lparr>sy_db := e, sy_saved := e\<rparr>"
  have run: "handle_release_lease cs case_id x = (Ret (Inr (''/cases/'' @ case_id)), ?y)"
    using d(1) e(1) by (simp add: handle_release_lease_def andthen_def bnd_def on_db_def on_part_def commit_def)
  have refused: "\<exists>m. fst (acquire_lease a case_id (engine_owner ps uuid) (Some ''AUTOMATION'') (Some t) ttl None e) = Raise (LeaseConflictError m)"
    if "t < ls_expires_at l" "0 < ttl" for a ps uuid t ttl
  proof -
    have v: "valid_request (engine_owner ps uuid) (Some ''AUTOMATION'') ttl"
      using that(2) by (simp add: valid_request_def normalized_owner_type_def)
    have act: "lease_is_active l t" using that(1) e(6) by (simp add: lease_is_active_def)
    have "ls_owner_id l \<noteq> engine_owner ps uuid" using engine_owner_kind [of ps uuid] e(4) by metis
    then show ?thesis
      using acquire_lease_outcome [OF e(2) e(8) v prod.collapse [symmetric], of a t None] e(3) act by simp
  qed
  have "local_owner_is_dead ps ''AUTOMATION'' = Inr False" for ps
    by (simp add: local_owner_is_dead_def split_colon_def)
  then show ?thesis using run refused e(3,4,7) by (intro exI [of _ "Inr (''/cases/'' @ case_id)"] exI [of _ ?y] exI [of _ l]) auto
qed

section \<open>The page of a case\<close>

text \<open>
  Anyone who can read the page of a case can act as an administrator.  The page is served
  without a token and carries the token in its forms: a request that copies it from there
  is admitted to every guarded route.
\<close>

theorem case_page_discloses_token:
  assumes "case_detail_view cs case_id x = (Ret (Inr page), y)" and "list_all (\<lambda>c. of_char c < (128 :: nat)) (tandem_admin_token (cs_settings cs))"
  shows "require_admin_token (cs_settings cs) \<lparr>rq_headers = [(''authorization'', ''Bearer '' @ pg_form_token page)], rq_form = []\<rparr> = Inr ()"
proof -
  obtain found z where "(case found of Inl r \<Rightarrow> ret (Inl r) | Inr s \<Rightarrow> case_page_of cs case_id s) z = (Ret (Inr page), y)"
    using assms(1) unfolding case_detail_view_def bnd_eq_Ret by blast
  then have "pg_form_token page = tandem_admin_token (cs_settings cs)"
    by (cases found) (auto simp: case_page_of_def andthen_eq_Ret)
  then show ?thesis using assms(2)
    by (simp add: require_admin_token_def token_from_header_def header_def compare_digest_def)
qed

section \<open>What the console keeps\<close>

lemma keeps_process [keeps_rules]: "keeps (ledger_inv J) (on_broker q)" "keeps (ledger_inv J) (on_runner f)"
  by (auto simp: keeps_def on_broker_def on_runner_def on_world_def on_part_def ledger_inv_def split: prod.splits)

lemma keeps_http_error [keeps_rules]: "keeps I (http_error n t)"
  by (simp add: http_error_def keeps_rules)

lemma keeps_sum [keeps_rules]:
  "(\<And>r. keeps I (f r)) \<Longrightarrow> (\<And>x. keeps I (g x)) \<Longrightarrow> keeps I (case s of Inl r \<Rightarrow> f r | Inr x \<Rightarrow> g x)"
  by (cases s) simp_all

context session_property
begin

lemma keeps_dashboard: "keeps (ledger_inv J) (dashboard_rows a cs)"
  by (induction cs) (simp_all only: dashboard_rows.simps; intro keeps_rules; assumption?)+

lemma keeps_chosen [keeps_rules]: "keeps (ledger_inv J) (chosen_case_id a b)"
  by (cases "cr_case_id b"; cases "the (cr_case_id b)"; simp only: chosen_case_id_def option.case list.case option.sel; intro keeps_rules)

lemma keeps_case_handlers [keeps_rules]:
  assumes "cs_ambient cs = a"
  shows "keeps (ledger_inv J) (api_create_case cs b)" "keeps (ledger_inv J) (operator_dashboard cs)"
    "keeps (ledger_inv J) (case_detail_view cs cid)" "keeps (ledger_inv J) (api_get_case_state cs cid)"
  unfolding api_create_case_def operator_dashboard_def case_detail_view_def case_page_of_def api_get_case_state_def Let_def assms
  by (intro keeps_rules keeps_dashboard)+

lemma keeps_desk_handlers [keeps_rules]:
  assumes "cs_ambient cs = a"
  shows "keeps (ledger_inv J) (handle_claim_lease cs cid op)" "keeps (ledger_inv J) (handle_release_lease cs cid)"
    "keeps (ledger_inv J) (api_get_browser_session cs late sid)" "keeps (ledger_inv J) (api_execute_browser_action cs late sid ar)"
  unfolding handle_claim_lease_def handle_release_lease_def api_get_browser_session_def api_execute_browser_action_def act_in_session_def Let_def assms
  by (intro keeps_rules)+

end

section \<open>The service\<close>

text \<open>
  One step of the running service: a request it answers, the start that resubmits cases, or
  a task of the runner.  However a step ends, the next one begins with what is durable.
\<close>

inductive service_step :: "'p console \<Rightarrow> 'p desk launcher \<Rightarrow> 'p desk system \<Rightarrow> 'p desk system \<Rightarrow> bool" for cs la where
  start: "service_step cs la x (snd (resume_on_startup x))"
| create: "service_step cs la x (snd (create_case_route cs rq body x))"
| dashboard: "service_step cs la x (snd (served (cs_web cs) (\<lambda>_. html_page 200) (operator_dashboard cs) x))"
| detail: "service_step cs la x (snd (served (cs_web cs) (\<lambda>_. html_page 200) (case_detail_view cs cid) x))"
| state: "service_step cs la x (snd (case_state_route cs cid x))"
| claim: "service_step cs la x (snd (claim_lease_route cs rq cid x))"
| release: "service_step cs la x (snd (release_lease_route cs rq cid x))"
| look: "service_step cs la x (snd (browser_session_route cs late sid x))"
| act: "service_step cs la x (snd (browser_action_route cs rq late sid action x))"
| work: "service_step cs la x (snd (run_case_task la tk x))"

context session_property
begin

lemma keeps_route [keeps_rules]: "keeps (ledger_inv J) h \<Longrightarrow> keeps (ledger_inv J) (served wb f h)"
  unfolding served_def by (intro keeps_rules)

lemma service_step_keeps:
  assumes "service_step cs la x y" "ledger_inv J x" "cs_ambient cs = a" "la_ambient la = a"
    "\<And>w wk v. la_launch la w = (Inr wk, v) \<Longrightarrow> wf_ambient wk = a"
  shows "ledger_inv J y"
proof -
  note parts = keeps_case_handlers [OF assms(3)] keeps_desk_handlers [OF assms(3)]
  have start: "keeps (ledger_inv J) resume_on_startup" unfolding resume_on_startup_def by (intro keeps_rules)
  have routes: "keeps (ledger_inv J) (create_case_route cs rq body)" "keeps (ledger_inv J) (claim_lease_route cs rq cid)"
      "keeps (ledger_inv J) (release_lease_route cs rq cid)" "keeps (ledger_inv J) (browser_action_route cs rq late sid action)"
      "keeps (ledger_inv J) (case_state_route cs cid)" "keeps (ledger_inv J) (browser_session_route cs late sid)"
    for rq body cid late sid action
    unfolding create_case_route_def claim_lease_route_def release_lease_route_def browser_action_route_def case_state_route_def
      browser_session_route_def by (intro keeps_rules parts)+
  have task: "keeps (ledger_inv J) (run_case_task la tk)" for tk using keeps_task [OF assms(4,5)] .
  show ?thesis
    using assms(1) by cases (simp_all only: keepsD [OF start assms(2)] keepsD [OF task assms(2)] keepsD [OF routes(1) assms(2)]
      keepsD [OF routes(2) assms(2)] keepsD [OF routes(3) assms(2)] keepsD [OF routes(4) assms(2)] keepsD [OF routes(5) assms(2)]
      keepsD [OF routes(6) assms(2)] keepsD [OF keeps_route [OF parts(2)] assms(2)] keepsD [OF keeps_route [OF parts(3)] assms(2)])
qed

lemma service_run_keeps:
  assumes "(service_step cs la)\<^sup>*\<^sup>* x y" "ledger_inv J x" "cs_ambient cs = a" "la_ambient la = a"
    "\<And>w wk v. la_launch la w = (Inr wk, v) \<Longrightarrow> wf_ambient wk = a"
  shows "ledger_inv J y"
  using assms(1,2) by (induction rule: rtranclp_induct) (use service_step_keeps assms(3-5) in blast)+

end

text \<open>
  C24: The ledger survives the whole service.  However requests of operators, restarts and
  tasks of the runner follow on each other, and however each of them ends, at every
  moment the durable ledger is well formed and the event chain of every case verifies.
\<close>

theorem service_keeps_ledger:
  assumes "(service_step cs la)\<^sup>*\<^sup>* x y" and "la_ambient la = cs_ambient cs"
    and "\<forall>w wk v. la_launch la w = (Inr wk, v) \<longrightarrow> wf_ambient wk = cs_ambient cs"
    and "ledger_inv well_formed x" and "ledger_inv (chain_inv (amb_sha (cs_ambient cs))) x"
  shows "well_formed (sy_saved y) \<and> cv_valid (verify_event_chain (amb_sha (cs_ambient cs)) case_id (sy_saved y))"
  using session_types.service_run_keeps [OF assms(1,4) refl assms(2)] session_chain.service_run_keeps [OF assms(1,5) refl assms(2)] assms(3)
  by (simp add: ledger_inv_def chain_inv_verified)

end
