(* ===== verification/AutomationSamples.thy ===== *)
theory AutomationSamples
  imports Automation DisputeSamples RecoverySamples
begin

text \<open>
  Tasks of the background runner at concrete inputs: a browser that does not start, and a
  resumed case whose recovery raises after it has released the lease of a dead worker,
  which is the situation in which the handler is locked out by the task's own session.
\<close>

section \<open>A browser that does not start\<close>

definition broken_launcher :: "bool launcher" where
  "broken_launcher = \<lparr>la_ambient = sample_ambient, la_names = (\<lambda>_. ''Error''), la_locked = (\<lambda>_. False),
     la_launch = (\<lambda>w. (Inl (OtherException ''browser crash''), w)), la_close = (\<lambda>w. (Inr (), w))\<rparr>"

definition sample_task :: "string \<Rightarrow> task" where
  "sample_task c = \<lparr>tk_case = c, tk_member = ''M-1'', tk_amount = money_val (Money False 5000), tk_card = ''9999''\<rparr>"

lemma sample_task_sel [simp]: "tk_case (sample_task c) = c" "tk_amount (sample_task c) = money_val (Money False 5000)"
  by (simp_all add: sample_task_def)

lemma durable_sample: "durable (sample_system w) = sample_system w"
  by (simp add: durable_def sample_system_def)

lemma sample_case: "get_case ''C-1'' sample_db = Some sample_case_row"
  by (simp add: sample_db_def get_case_def empty_db_def sample_case_row_def)

lemma failed_task_is_parked_witness:
  "\<exists>y. run_case_task broken_launcher (sample_task ''C-1'') (sample_system False) = (Ret (), y) \<and>
     (\<exists>c. get_case ''C-1'' (sy_saved y) = Some c \<and> c_status c = ''NEEDS_HUMAN'')"
proof -
  have "drive_case broken_launcher (sample_task ''C-1'') (durable (sample_system False)) = (Raise (OtherException ''browser crash''), sample_system False)"
    unfolding durable_sample
    by (simp add: drive_case_def broken_launcher_def ask_def on_world_def on_part_def bnd_def sample_system_def)
  moreover have "\<not> unsaved (sample_system False)" by (simp add: unsaved_def sample_system_def)
  moreover have "\<not> la_locked broken_launcher (sample_system False)" by (simp add: broken_launcher_def)
  moreover have "get_case (tk_case (sample_task ''C-1'')) (sy_saved (sample_system False)) = Some sample_case_row"
    by (simp add: sample_case) (simp add: sample_system_def sample_case)
  ultimately show ?thesis using failed_task_is_parked by fastforce
qed

lemma restart_resumes_exactly_witness:
  "fst (recover_incomplete_cases (sample_db\<lparr>t_cases := [sample_case_row, sample_case_row\<lparr>c_case_id := ''C-2'', c_status := ''NEEDS_HUMAN''\<rparr>]\<rparr>)
     \<lparr>rn_tasks = [], rn_futures = []\<rparr>) = [''C-1'']"
  using restart_resumes_exactly [of "\<lparr>rn_tasks = [], rn_futures = []\<rparr>", OF _ prod.collapse [symmetric],
      of "sample_db\<lparr>t_cases := [sample_case_row, sample_case_row\<lparr>c_case_id := ''C-2'', c_status := ''NEEDS_HUMAN''\<rparr>]\<rparr>"]
  by (simp add: runner_ok_def list_cases_def sample_case_row_def resumable_def do_not_auto_resume_def)

section \<open>A task locked out by its own session\<close>

definition stranded_db :: db where
  "stranded_db = empty_db\<lparr>t_cases := [filing_row], t_claims := [dead_claim],
     t_leases := [new_lease ''D-8842'' ''D-8842'' ''AUTOMATION'' ''AUTOMATION:7:v'' 1 1 0 5]\<rparr>"

definition stranded_system :: "bool system" where
  "stranded_system = (sample_system False)\<lparr>sy_db := stranded_db, sy_saved := stranded_db\<rparr>"

definition closing_launcher :: "bool launcher" where
  "closing_launcher = \<lparr>la_ambient = steady_ambient, la_names = (\<lambda>_. ''Error''), la_locked = (\<lambda>_. False),
     la_launch = (\<lambda>w. (Inr closing_workflow, w)), la_close = (\<lambda>w. (Inr (), w))\<rparr>"

lemma stranded_tables [simp]:
  "t_cases stranded_db = [filing_row]" "t_claims stranded_db = [dead_claim]" "tick stranded_db = 0"
  "t_leases stranded_db = [new_lease ''D-8842'' ''D-8842'' ''AUTOMATION'' ''AUTOMATION:7:v'' 1 1 0 5]"
  by (simp_all add: stranded_db_def empty_db_def)

lemma stranded_sel [simp]: "sy_db stranded_system = stranded_db" "sy_saved stranded_system = stranded_db"
  by (simp_all add: stranded_system_def)

lemma stranded_case: "get_case ''D-8842'' (stranded_db\<lparr>tick := n\<rparr>) = Some filing_row" "get_case ''D-8842'' stranded_db = Some filing_row"
  by (simp_all add: get_case_def select_first_Cons filing_row_def)

lemma closing_processes [simp]: "wf_processes closing_workflow = sample_processes"
  "wf_artifacts closing_workflow = \<lparr>af_read = (\<lambda>_. Inr VNone), af_fields = (\<lambda>_. Inl (ValueError ''no artifact''))\<rparr>"
  by (simp_all add: closing_workflow_def sample_processes_def)

lemma stranded_release:
  "\<exists>l d. release_lease steady_ambient ''D-8842'' (Some ''AUTOMATION:7:v'') (Some 1) None (stranded_db\<lparr>tick := n\<rparr>) = (Ret l, d) \<and>
     t_claims d = [dead_claim] \<and> (\<exists>r. t_leases d = [r] \<and> ls_released_at r \<noteq> None)"
  by (simp add: release_lease_def time_or_now_def utc_now_def bnd_def andthen_def get_lease_def select_first_Cons update_leases_def
      rowcount_def update_where_def record_event_run stranded_case get_case_def filing_row_def)

lemma closing_recovery_sel [simp]: "rc_ambient (wf_recovery closing_workflow) = steady_ambient"
  "rc_processes (wf_recovery closing_workflow) = sample_processes"
  "rc_artifacts (wf_recovery closing_workflow) = wf_artifacts closing_workflow"
  by (simp_all add: wf_recovery_def)

lemma stranded_recovery:
  assumes "sy_db x = stranded_db\<lparr>tick := n\<rparr>"
  shows "\<exists>m d r. recover_dead_effect_claims (wf_recovery closing_workflow) ''D-8842'' x = (Raise (ValueError m), x\<lparr>sy_db := d\<rparr>) \<and>
     t_leases d = [r] \<and> ls_released_at r \<noteq> None"
proof -
  obtain l d r where d: "release_lease steady_ambient ''D-8842'' (Some ''AUTOMATION:7:v'') (Some 1) None (stranded_db\<lparr>tick := n\<rparr>) = (Ret l, d)"
    "t_claims d = [dead_claim]" "t_leases d = [r]" "ls_released_at r \<noteq> None" using stranded_release by blast
  have held: "get_lease ''D-8842'' stranded_db = Some (new_lease ''D-8842'' ''D-8842'' ''AUTOMATION'' ''AUTOMATION:7:v'' 1 1 0 5)"
    by (simp add: get_lease_def select_first_Cons)
  have released: "release_dead_lease (wf_recovery closing_workflow) ''D-8842'' x = (Ret (), x\<lparr>sy_db := d\<rparr>)"
    using d(1) by (simp add: release_dead_lease_def held assms dead_owner on_db_def on_part_def andthen_def bnd_def)
  have claims: "get_effect_claims_for_case ''D-8842'' d = [dead_claim]"
    by (simp add: get_effect_claims_for_case_def d(2))
  have load: "\<exists>m. load_capability_from_yaml (amb_sha steady_ambient) (wf_artifacts closing_workflow) path = Inl (ValueError m)" for path
    by (simp add: load_capability_from_yaml_def load_capability_def)
  have "\<exists>m. recover_claim (wf_recovery closing_workflow) ''D-8842'' dead_claim z = (Raise (ValueError m), z)" for z
    using load [of "''capabilities/processor/file_chargeback.yaml''"]
    by (auto simp: recover_claim_def in_flight_def dead_owner capability_files_def)
  then obtain m where "recover_claim (wf_recovery closing_workflow) ''D-8842'' dead_claim (x\<lparr>sy_db := d\<rparr>) = (Raise (ValueError m), x\<lparr>sy_db := d\<rparr>)"
    by blast
  then show ?thesis using released claims d(3,4) by (auto simp: recover_dead_effect_claims_def andthen_def bnd_def)
qed

lemma stranded_drive:
  "\<exists>m z. drive_case closing_launcher (sample_task ''D-8842'') (durable stranded_system) = (Raise (ValueError m), z) \<and>
     unsaved z \<and> sy_saved z = stranded_db"
proof -
  let ?x = "stranded_system\<lparr>sy_db := stranded_db\<lparr>tick := Suc 0\<rparr>\<rparr>"
  obtain m d r where rec: "recover_dead_effect_claims (wf_recovery closing_workflow) ''D-8842'' ?x = (Raise (ValueError m), ?x\<lparr>sy_db := d\<rparr>)"
    "t_leases d = [r]" "ls_released_at r \<noteq> None" using stranded_recovery [of ?x "Suc 0"] by auto
  have money: "parse_money (money_val (Money False 5000)) = Inr (Money False 5000)" by (rule parse_money_val) (simp add: max_money_cents_def)
  have "begin_case closing_workflow ''D-8842'' mid amt t ?x = (Raise (ValueError m), ?x\<lparr>sy_db := d\<rparr>)" for mid amt t
    using rec(1) by (simp add: begin_case_def stranded_case resume_case_def bnd_def)
  then have "drive_case closing_launcher (sample_task ''D-8842'') (durable stranded_system) = (Raise (ValueError m), ?x\<lparr>sy_db := d\<rparr>)"
    by (simp add: drive_case_def closing_launcher_def ask_def on_world_def on_part_def bnd_def andthen_def run_case_def reference_time_def
        on_db_def utc_now_def durable_def money step_unless_def)
  moreover have "unsaved (?x\<lparr>sy_db := d\<rparr>)"
  proof -
    have "t_leases (d\<lparr>tick := 0\<rparr>) \<noteq> t_leases (stranded_db\<lparr>tick := 0\<rparr>)" using rec(2,3) by auto
    then have "d\<lparr>tick := 0\<rparr> \<noteq> stranded_db\<lparr>tick := 0\<rparr>" by metis
    then show ?thesis by (simp add: unsaved_def)
  qed
  ultimately show ?thesis by auto
qed

lemma unsaved_task_is_not_parked_witness:
  "\<exists>y. run_case_task closing_launcher (sample_task ''D-8842'') stranded_system = (Raise database_locked, y) \<and> sy_saved y = stranded_db"
proof -
  obtain m z where z: "drive_case closing_launcher (sample_task ''D-8842'') (durable stranded_system) = (Raise (ValueError m), z)"
    "unsaved z" "sy_saved z = stranded_db" using stranded_drive by blast
  have "get_case (tk_case (sample_task ''D-8842'')) (sy_saved z) = Some filing_row" by (simp add: z(3) stranded_case)
  then show ?thesis using unsaved_task_is_not_parked [OF z(1,2)] z(3) by metis
qed

end
