(* ===== verification/OperatorSamples.thy ===== *)
theory OperatorSamples
  imports OperatorApi AutomationSamples
begin

text \<open>
  The console on a ledger with one leased case and one active browser session: the
  theorems of \<open>OperatorApi\<close> at concrete requests.
\<close>

definition console_web :: web where
  "console_web = \<lparr>wb_json = id, wb_decimal = (\<lambda>_. None), wb_segment = (\<lambda>_. None), wb_unhandled = (\<lambda>_. html_page 500)\<rparr>"

definition sample_sessions :: "nat sessions" where
  "sample_sessions = \<lparr>bk_driver = busy_driver, bk_names = id, bk_open = (\<lambda>_. Opened 0), bk_picture = id, bk_thread = (\<lambda>_. 7)\<rparr>"

definition sample_console :: "nat console" where
  "sample_console = \<lparr>cs_ambient = steady_ambient, cs_settings = default_settings, cs_web = console_web, cs_sessions = sample_sessions\<rparr>"

definition admin_request :: form_request where
  "admin_request = \<lparr>rq_headers = [(''authorization'', ''Bearer '' @ tandem_admin_token default_settings)], rq_form = []\<rparr>"

definition idle_worker :: "nat session_worker" where
  "idle_worker = \<lparr>sw_card = sample_card, sw_waiting = [], sw_alive = True, sw_page = 0\<rparr>"

definition desk_db :: db where
  "desk_db = leased_db\<lparr>t_leases := [new_lease ''C-1'' ''C-1'' ''HUMAN'' ''OP'' 1 1 0 300],
     t_sessions := [\<lparr>se_session_id = ''browser-1'', se_case_id = ''C-1'', se_status = ''ACTIVE'', se_current_url = ''u'',
       se_created_at = 0, se_updated_at = 0, se_closed_at = None\<rparr>]\<rparr>"

definition desk_system :: "nat desk system" where
  "desk_system = (sample_system \<lparr>dk_broker = [(''browser-1'', idle_worker)], dk_runner = \<lparr>rn_tasks = [], rn_futures = []\<rparr>\<rparr>)
     \<lparr>sy_db := desk_db, sy_saved := desk_db\<rparr>"

lemma desk_sel [simp]: "sy_db desk_system = desk_db" "sy_saved desk_system = desk_db"
  "sy_world desk_system = \<lparr>dk_broker = [(''browser-1'', idle_worker)], dk_runner = \<lparr>rn_tasks = [], rn_futures = []\<rparr>\<rparr>"
  by (simp_all add: desk_system_def sample_system_def)

lemma console_sel [simp]: "cs_ambient sample_console = steady_ambient" "cs_settings sample_console = default_settings"
  "cs_web sample_console = console_web" "cs_sessions sample_console = sample_sessions"
  by (simp_all add: sample_console_def)

lemma desk_tables: "leases_ok (desk_db\<lparr>tick := n\<rparr>)" "get_case ''C-1'' desk_db = Some sample_case_row"
  "get_lease ''C-1'' (desk_db\<lparr>tick := n\<rparr>) = Some (new_lease ''C-1'' ''C-1'' ''HUMAN'' ''OP'' 1 1 0 300)"
  by (simp_all add: leases_ok_def leases_unique_def unique_on_def desk_db_def leased_db_def get_lease_def select_first_Cons)
    (use sample_case in \<open>simp add: get_case_def\<close>)

lemma desk_db_same: "desk_db\<lparr>tick := tick desk_db\<rparr> = desk_db"
  by simp

lemma durable_desk: "durable desk_system = desk_system"
  by (simp add: durable_def desk_system_def)

lemma admitted: "require_admin_token default_settings admin_request = Inr ()"
  by (simp add: require_admin_token_def token_from_header_def header_def admin_request_def compare_digest_def default_settings_def)

lemma release_to_automation_locks_workers_out_witness:
  "\<exists>answer y l. handle_release_lease sample_console ''C-1'' desk_system = (Ret answer, y) \<and> get_lease ''C-1'' (sy_saved y) = Some l \<and>
    ls_owner_id l = ''AUTOMATION''"
proof -
  have "leases_ok (sy_db desk_system)" using desk_tables(1) [of "tick desk_db"] by simp
  then show ?thesis
    using release_to_automation_locks_workers_out [of desk_system "''C-1''" sample_case_row sample_console] desk_tables(2) by auto
qed

lemma create_case_exact_witness:
  "\<exists>n t y. api_create_case sample_console \<lparr>cr_member_id = ''M-1'', cr_amount = VStr ''50.00'', cr_case_id = Some ''C-1'', cr_card_last4 = ''4112''\<rparr>
     desk_system = (Ret (Inl (HTTP_Exception n t)), y) \<and> n = 409 \<and> sy_saved y = desk_db"
proof -
  let ?rq = "\<lparr>cr_member_id = ''M-1'', cr_amount = VStr ''50.00'', cr_case_id = Some ''C-1'', cr_card_last4 = ''4112''\<rparr>"
  have run: "api_create_case sample_console ?rq desk_system = (Ret (Inl (HTTP_Exception 409 (fstr [''Case '', sq, ''C-1'', sq, '' already exists'']))), desk_system)"
    by (simp add: api_create_case_def chosen_case_id_def desk_tables(2))
  show ?thesis using create_case_exact [OF run] run by auto
qed

lemma case_page_discloses_token_witness:
  "\<exists>page y. case_detail_view sample_console ''C-1'' desk_system = (Ret (Inr page), y) \<and>
    require_admin_token default_settings \<lparr>rq_headers = [(''authorization'', ''Bearer '' @ pg_form_token page)], rq_form = []\<rparr> = Inr ()"
proof -
  have "\<forall>r \<in> set (t_deadlines desk_db). dl_status r \<noteq> ''PENDING''" "t_executions desk_db = []"
    by (simp_all add: desk_db_def leased_db_def sample_db_def empty_db_def)
  then obtain s where s: "reconstruct_case_state steady_ambient ''C-1'' desk_db = (Ret s, desk_db\<lparr>tick := Suc (tick desk_db)\<rparr>)"
    and none: "get_executions_for_case ''C-1'' (desk_db\<lparr>tick := Suc (tick desk_db)\<rparr>) = []"
    using closing_reconstruct [OF desk_tables(2)] by (auto simp: get_executions_for_case_def)
  have "\<exists>page y. case_detail_view sample_console ''C-1'' desk_system = (Ret (Inr page), y)"
    using none by (simp add: case_detail_view_def bnd_def catch_def on_db_def on_part_def s case_page_of_def andthen_def unless_raise_def)
  moreover have "list_all (\<lambda>c. of_char c < (128 :: nat)) (tandem_admin_token (cs_settings sample_console))"
    by (simp add: default_settings_def)
  ultimately show ?thesis using case_page_discloses_token by fastforce
qed

definition click_request :: action_request where
  "click_request = \<lparr>ar_owner_id = ''OP'', ar_fencing_token = 1, ar_action = ''CLICK'', ar_selector = ''#ok'', ar_frame_selector = None, ar_value = None\<rparr>"

lemma desk_valid: "lease_token_valid ''C-1'' ''OP'' 1 t (desk_db\<lparr>tick := n\<rparr>) \<longleftrightarrow> t < 300"
  by (simp add: lease_token_valid_def desk_tables(3) [of n, simplified] lease_is_active_def)

lemma desk_heartbeat:
  "\<exists>l d. heartbeat_lease steady_ambient ''C-1'' ''OP'' 1 None five_minutes (desk_db\<lparr>tick := n\<rparr>) = (Ret l, d)"
proof -
  let ?d = "clocked None (desk_db\<lparr>tick := n\<rparr>)"
  have "leases_unique ?d" using desk_tables(1) [of n] by (simp add: leases_ok_def leases_unique_def)
  moreover have "get_lease ''C-1'' ?d = Some (new_lease ''C-1'' ''C-1'' ''HUMAN'' ''OP'' 1 1 0 300)" using desk_tables(3) by simp
  ultimately show ?thesis
    by (subst at_effective_time(2)) (simp add: heartbeat_run heartbeat_ok_def lease_is_active_def effective_time_def steady_ambient_def)
qed

lemma late_click:
  "broker_execute sample_sessions True ''browser-1'' ''CLICK'' ps [(''browser-1'', idle_worker)] =
     (Raise (OtherException (fstr [''Browser session command '', ''CLICK'', '' timed out''])),
      [(''browser-1'', idle_worker\<lparr>sw_waiting := [\<lparr>cm_action = ''CLICK'', cm_params = ps\<rparr>]\<rparr>)])"
  by (simp add: broker_execute_def bnd_def on_worker_def worker_execute_def Let_def idle_worker_def)

lemma click_sel [simp]: "ar_owner_id click_request = ''OP''" "ar_fencing_token click_request = Suc 0" "ar_action click_request = ''CLICK''"
  by (simp_all add: click_request_def)

lemma desk_click:
  "dk_broker (sy_world (snd (api_execute_browser_action sample_console True ''browser-1'' click_request desk_system)))
     = [(''browser-1'', idle_worker\<lparr>sw_waiting := [\<lparr>cm_action = ''CLICK'', cm_params = action_params click_request\<rparr>]\<rparr>)]"
proof -
  let ?n = "Suc (tick desk_db)"
  obtain s where s: "get_browser_session ''browser-1'' desk_db = Some s" "se_status s = ''ACTIVE''" "se_case_id s = ''C-1''"
    by (simp add: get_browser_session_def desk_db_def select_first_Cons)
  obtain l d where beat: "heartbeat_lease steady_ambient ''C-1'' ''OP'' (Suc 0) None five_minutes (desk_db\<lparr>tick := ?n\<rparr>) = (Ret l, d)"
    using desk_heartbeat [of ?n] by auto
  have valid: "lease_token_valid ''C-1'' ''OP'' (Suc 0) 0 desk_db" using desk_valid [of 0 "tick desk_db"] by simp
  have held: "get_lease ''C-1'' desk_db = Some (new_lease ''C-1'' ''C-1'' ''HUMAN'' ''OP'' 1 1 0 300)"
    using desk_tables(3) [of "tick desk_db"] by simp
  have now: "amb_now steady_ambient k = 0" for k by (simp add: steady_ambient_def)
  show ?thesis
    by (simp add: api_execute_browser_action_def s Let_def bnd_def on_db_def on_part_def validate_run now valid held
        act_in_session_def andthen_def beat commit_def catch_def on_broker_def on_world_def late_click)
qed

lemma page_action_is_fenced_witness:
  "\<exists>s. get_browser_session ''browser-1'' desk_db = Some s \<and> lease_token_valid (se_case_id s) ''OP'' 1 0 desk_db"
proof -
  let ?r = "browser_action_route sample_console admin_request True ''browser-1'' (Some click_request)"
  have "sy_world (snd (?r desk_system)) = sy_world (snd (api_execute_browser_action sample_console True ''browser-1'' click_request desk_system))"
    by (simp add: browser_action_route_def guarded_route_def admitted served_world durable_desk)
  then have "dk_broker (sy_world (snd (?r desk_system))) \<noteq> dk_broker (sy_world desk_system)"
    by (simp add: desk_click idle_worker_def)
  from page_action_is_fenced [OF prod.collapse [symmetric] this] show ?thesis
    by (auto simp: click_request_def steady_ambient_def)
qed

definition closing_desk_launcher :: "nat desk launcher" where
  "closing_desk_launcher = \<lparr>la_ambient = steady_ambient, la_names = id, la_locked = (\<lambda>_. False),
     la_launch = (\<lambda>w. (Inl (OtherException ''no browser''), w)), la_close = (\<lambda>w. (Inr (), w))\<rparr>"

lemma service_keeps_ledger_witness:
  "well_formed (sy_saved (snd (claim_lease_route sample_console admin_request ''C-1'' (desk_system\<lparr>sy_db := empty_db, sy_saved := empty_db\<rparr>))))"
proof -
  let ?x = "desk_system\<lparr>sy_db := empty_db, sy_saved := empty_db\<rparr>"
  have "ledger_inv well_formed ?x" "ledger_inv (chain_inv (amb_sha (cs_ambient sample_console))) ?x"
    using chain_inv_empty
    by (simp_all add: ledger_inv_def well_formed_def work_rows_def lease_rows_def desk_rows_def agenda_ok_def claim_rows_def claims_ok_def claims_unique_def unique_on_def empty_db_def)
  then show ?thesis
    using service_keeps_ledger [OF r_into_rtranclp [where r = "service_step sample_console closing_desk_launcher", OF service_step.claim],
        of ?x admin_request "''C-1''"]
    by (simp add: closing_desk_launcher_def)
qed

end
