(* ===== verification/TraceRecorder.thy ===== *)
theory TraceRecorder
  imports Provider
begin

text \<open>
  The record of a discovery session (\<open>tandem/discovery/recorder.py\<close>): the actions that
  were executed, one event per cycle, and the evidence files.  A recorder is a value;
  every method returns the recorder it leaves.  A file is its path under the evidence
  directory and the sanitised value whose JSON text it holds; the clock, the configured
  secrets and the order of a Python set are an argument, the \<open>scribe\<close>.
\<close>

section \<open>Traces\<close>

record action_trace =
  at_step_id :: string
  at_action :: string
  at_semantic_target :: string
  at_selector :: string
  at_locator_candidates :: "string list"
  at_frame_selector :: "string option"
  at_input_name :: "string option"
  at_concrete_value :: "string option"
  at_container_selector :: "string option"
  at_observed_text :: "string option"
  at_is_mutating :: bool
  at_guard_ref :: "string option"
  at_timestamp :: string

record discovery_event =
  de_cycle :: nat
  de_timestamp :: string
  de_observation :: observation
  de_decision :: decision
  de_executed :: "action_trace option"
  de_result :: dict
  de_evidence_reference :: "string option"
  de_observation_reference :: "string option"

record discovery_trace =
  dt_run_id :: string
  dt_provider :: string
  dt_model :: string
  dt_started_at :: string
  dt_completed_at :: "string option"
  dt_evidence_directory :: "string option"
  dt_capability_id :: string
  dt_version :: string
  dt_system :: string
  dt_goal :: string
  dt_actions :: "action_trace list"
  dt_events :: "discovery_event list"
  dt_discovered_memo :: "string option"
  dt_money_moved :: bool
  dt_metadata :: dict

definition dump_action :: "action_trace \<Rightarrow> dict" where
  "dump_action a =
     [(''step_id'', VStr (at_step_id a)), (''action'', VStr (at_action a)), (''semantic_target'', VStr (at_semantic_target a)),
      (''selector'', VStr (at_selector a)), (''locator_candidates'', strs_val (at_locator_candidates a)),
      (''frame_selector'', opt_val VStr (at_frame_selector a)), (''input_name'', opt_val VStr (at_input_name a)),
      (''concrete_value'', opt_val VStr (at_concrete_value a)), (''container_selector'', opt_val VStr (at_container_selector a)),
      (''observed_text'', opt_val VStr (at_observed_text a)), (''is_mutating'', VBool (at_is_mutating a)),
      (''guard_ref'', opt_val VStr (at_guard_ref a)), (''timestamp'', VStr (at_timestamp a))]"

definition dump_event :: "discovery_event \<Rightarrow> dict" where
  "dump_event e =
     [(''cycle'', VInt (int (de_cycle e))), (''timestamp'', VStr (de_timestamp e)),
      (''browser_observation'', VDict (dump_observation (de_observation e))), (''model_decision'', VDict (dump_decision (de_decision e))),
      (''executed_action'', opt_val (VDict \<circ> dump_action) (de_executed e)), (''result'', VDict (de_result e)),
      (''evidence_reference'', opt_val VStr (de_evidence_reference e)), (''observation_reference'', opt_val VStr (de_observation_reference e))]"

definition dump_trace :: "discovery_trace \<Rightarrow> dict" where
  "dump_trace t =
     [(''run_id'', VStr (dt_run_id t)), (''provider'', VStr (dt_provider t)), (''model'', VStr (dt_model t)),
      (''started_at'', VStr (dt_started_at t)), (''completed_at'', opt_val VStr (dt_completed_at t)),
      (''evidence_directory'', opt_val VStr (dt_evidence_directory t)), (''capability_id'', VStr (dt_capability_id t)),
      (''version'', VStr (dt_version t)), (''system'', VStr (dt_system t)), (''goal'', VStr (dt_goal t)),
      (''actions'', VList (map (VDict \<circ> dump_action) (dt_actions t))), (''events'', VList (map (VDict \<circ> dump_event) (dt_events t))),
      (''discovered_memo'', opt_val VStr (dt_discovered_memo t)), (''money_moved'', VBool (dt_money_moved t)),
      (''metadata'', VDict (dt_metadata t))]"

section \<open>Redaction by key\<close>

definition sensitive_parts :: "string list" where
  "sensitive_parts = [''api_key'', ''apikey'', ''password'', ''secret'', ''token'', ''authorization'']"

definition sensitive_key :: "string \<Rightarrow> bool" where
  "sensitive_key key = list_ex (\<lambda>part. contains part (lower key)) sensitive_parts"

fun redact_secrets :: "string list \<Rightarrow> val \<Rightarrow> val"
  and redact_items :: "string list \<Rightarrow> val list \<Rightarrow> val list"
  and redact_pairs :: "string list \<Rightarrow> dict \<Rightarrow> dict" where
  "redact_secrets ss (VDict d) = VDict (redact_pairs ss d)"
| "redact_secrets ss (VList xs) = VList (redact_items ss xs)"
| "redact_secrets ss (VStr s) = VStr (redact_text ss s)"
| "redact_secrets ss v = v"
| "redact_items ss [] = []"
| "redact_items ss (x # xs) = redact_secrets ss x # redact_items ss xs"
| "redact_pairs ss [] = []"
| "redact_pairs ss ((k, v) # d) = (k, if sensitive_key k then VStr redacted else redact_secrets ss v) # redact_pairs ss d"

section \<open>The recorder\<close>

record scribe =
  sb_now :: "nat \<Rightarrow> string"
  sb_secrets :: "string list"
  sb_enum :: "string list \<Rightarrow> string list"

record recorder =
  rc_capability_id :: string
  rc_goal :: string
  rc_system :: string
  rc_provider :: string
  rc_model :: string
  rc_run_id :: string
  rc_identifiers :: "string list"
  rc_started_at :: string
  rc_actions :: "action_trace list"
  rc_events :: "discovery_event list"
  rc_step_counter :: nat
  rc_directory :: "string option"
  rc_tick :: nat
  rc_files :: "(string \<times> val) list"

definition new_recorder ::
  "scribe \<Rightarrow> string \<Rightarrow> string \<Rightarrow> string \<Rightarrow> string \<Rightarrow> string \<Rightarrow> string \<Rightarrow> string option \<Rightarrow> string list \<Rightarrow> recorder" where
  "new_recorder sb capability_id goal system provider model run_id directory identifiers =
     \<lparr>rc_capability_id = capability_id, rc_goal = goal, rc_system = system, rc_provider = provider, rc_model = model,
      rc_run_id = run_id, rc_identifiers = identifiers, rc_started_at = sb_now sb 0, rc_actions = [], rc_events = [],
      rc_step_counter = 0, rc_directory = directory, rc_tick = 1, rc_files = []\<rparr>"

definition step_name :: "nat \<Rightarrow> string \<Rightarrow> string" where
  "step_name n kind = fstr [''step_'', str_nat n, ''_'', kind]"

text \<open>The counter is advanced, the action gets its name and time and is kept.\<close>

definition keep_action :: "scribe \<Rightarrow> (nat \<Rightarrow> string \<Rightarrow> action_trace) \<Rightarrow> recorder \<Rightarrow> action_trace \<times> recorder" where
  "keep_action sb trace_at rc =
     (let a = trace_at (Suc (rc_step_counter rc)) (sb_now sb (rc_tick rc)) in
      (a, rc\<lparr>rc_step_counter := Suc (rc_step_counter rc), rc_tick := Suc (rc_tick rc), rc_actions := rc_actions rc @ [a]\<rparr>))"

definition or_else :: "string option \<Rightarrow> string \<Rightarrow> string" where
  "or_else x y = (case x of Some (c # cs) \<Rightarrow> c # cs | _ \<Rightarrow> y)"

definition record_navigate :: "scribe \<Rightarrow> string \<Rightarrow> string option \<Rightarrow> recorder \<Rightarrow> action_trace \<times> recorder" where
  "record_navigate sb url semantic_target rc = keep_action sb (\<lambda>n now.
     \<lparr>at_step_id = step_name n ''nav'', at_action = ''NAVIGATE'',
      at_semantic_target = or_else semantic_target (surface_home (rc_system rc)), at_selector = url, at_locator_candidates = [],
      at_frame_selector = None, at_input_name = None, at_concrete_value = Some url, at_container_selector = None,
      at_observed_text = None, at_is_mutating = False, at_guard_ref = None, at_timestamp = now\<rparr>) rc"

definition candidates_with :: "string \<Rightarrow> string list \<Rightarrow> string list" where
  "candidates_with selector candidates =
     (let cs = (if candidates = [] then [selector] else candidates) in if selector \<in> set cs then cs else selector # cs)"

definition record_fill ::
  "scribe \<Rightarrow> string \<Rightarrow> string \<Rightarrow> string option \<Rightarrow> string option \<Rightarrow> string option \<Rightarrow> string list \<Rightarrow> recorder \<Rightarrow> action_trace \<times> recorder" where
  "record_fill sb selector value input_name semantic_target frame_selector locator_candidates = keep_action sb (\<lambda>n now.
     \<lparr>at_step_id = step_name n (''fill_'' @ or_else input_name ''input''), at_action = ''FILL'',
      at_semantic_target = or_else semantic_target (''Input field for '' @ or_else input_name selector), at_selector = selector,
      at_locator_candidates = candidates_with selector locator_candidates, at_frame_selector = frame_selector,
      at_input_name = input_name, at_concrete_value = Some value, at_container_selector = None, at_observed_text = None,
      at_is_mutating = False, at_guard_ref = None, at_timestamp = now\<rparr>)"

definition record_click ::
  "scribe \<Rightarrow> string \<Rightarrow> string option \<Rightarrow> string option \<Rightarrow> string list \<Rightarrow> string option \<Rightarrow> string option \<Rightarrow> bool \<Rightarrow> string option \<Rightarrow>
    recorder \<Rightarrow> action_trace \<times> recorder" where
  "record_click sb selector semantic_target frame_selector locator_candidates container observed_text is_mutating guard_ref =
     keep_action sb (\<lambda>n now.
     \<lparr>at_step_id = step_name n ''click'', at_action = (if is_mutating then ''SUBMIT'' else ''CLICK''),
      at_semantic_target = or_else semantic_target (''Click target '' @ selector), at_selector = selector,
      at_locator_candidates = candidates_with selector locator_candidates, at_frame_selector = frame_selector,
      at_input_name = None, at_concrete_value = None, at_container_selector = container,
      at_observed_text = observed_text, at_is_mutating = is_mutating, at_guard_ref = guard_ref, at_timestamp = now\<rparr>)"

definition build_trace :: "string option \<Rightarrow> string option \<Rightarrow> bool \<Rightarrow> dict \<Rightarrow> recorder \<Rightarrow> discovery_trace" where
  "build_trace completed_at discovered_memo money_moved metadata rc =
     \<lparr>dt_run_id = rc_run_id rc, dt_provider = rc_provider rc, dt_model = rc_model rc, dt_started_at = rc_started_at rc,
      dt_completed_at = completed_at, dt_evidence_directory = rc_directory rc, dt_capability_id = rc_capability_id rc,
      dt_version = ''1.0.0'', dt_system = rc_system rc, dt_goal = rc_goal rc, dt_actions = rc_actions rc, dt_events = rc_events rc,
      dt_discovered_memo = discovered_memo, dt_money_moved = money_moved, dt_metadata = metadata\<rparr>"

definition write_file :: "string \<Rightarrow> val \<Rightarrow> recorder \<Rightarrow> recorder" where
  "write_file path content rc =
     (if rc_directory rc = None then rc else rc\<lparr>rc_files := AList.update path content (rc_files rc)\<rparr>)"

definition write_trace :: "scribe \<Rightarrow> discovery_trace \<Rightarrow> recorder \<Rightarrow> recorder" where
  "write_trace sb t rc =
     write_file ''trace.json'' (sanitize_evidence (sb_secrets sb) (sb_enum sb) (rc_identifiers rc) (VDict (dump_trace t))) rc"

text \<open>\<open>{cycle:03d}\<close>.\<close>

definition three_digits :: "nat \<Rightarrow> string" where
  "three_digits n = (let ds = str_nat n in replicate (3 - length ds) (CHR ''0'') @ ds)"

definition record_cycle ::
  "scribe \<Rightarrow> observation \<Rightarrow> decision \<Rightarrow> action_trace option \<Rightarrow> dict \<Rightarrow> string option \<Rightarrow> recorder \<Rightarrow> discovery_event \<times> recorder" where
  "record_cycle sb ob dn executed result picture rc =
     (let cycle = length (rc_events rc) + 1;
          observation_ref = fstr [''observations/cycle_'', three_digits cycle, ''.json''];
          screenshot_ref = fstr [''screenshots/cycle_'', three_digits cycle, ''.png''];
          kept = (rc_directory rc \<noteq> None);
          rc1 = write_file observation_ref
            (sanitize_evidence (sb_secrets sb) (sb_enum sb) (rc_identifiers rc) (VDict (dump_observation ob))) rc;
          rc2 = (case picture of None \<Rightarrow> rc1 | Some p \<Rightarrow> write_file screenshot_ref (VStr p) rc1);
          e = \<lparr>de_cycle = cycle, de_timestamp = sb_now sb (rc_tick rc), de_observation = ob, de_decision = dn, de_executed = executed,
             de_result = redact_pairs (sb_secrets sb) result,
             de_evidence_reference = (if kept \<and> picture \<noteq> None then Some screenshot_ref else None),
             de_observation_reference = (if kept then Some observation_ref else None)\<rparr>;
          rc3 = rc2\<lparr>rc_tick := Suc (rc_tick rc), rc_events := rc_events rc @ [e]\<rparr>
      in (e, write_trace sb (build_trace None None False [] rc3) rc3))"

definition finalize :: "scribe \<Rightarrow> string option \<Rightarrow> bool \<Rightarrow> dict \<Rightarrow> recorder \<Rightarrow> discovery_trace \<times> recorder" where
  "finalize sb discovered_memo money_moved metadata rc =
     (let rc1 = rc\<lparr>rc_tick := Suc (rc_tick rc)\<rparr>;
          t = build_trace (Some (sb_now sb (rc_tick rc))) discovered_memo money_moved (redact_pairs (sb_secrets sb) metadata) rc1
      in (t, write_trace sb t rc1))"

end
