(* ===== verification/ArtifactCompiler.thy ===== *)
theory ArtifactCompiler
  imports TraceRecorder
begin

text \<open>
  The compiler from discovery traces to capability artifacts
  (\<open>tandem/discovery/compiler.py\<close>).  The approved policy profile is loaded from a file:
  the argument \<open>profile\<close> is what loading it yields.  The artifact that is written is the
  dictionary whose YAML text the file holds, under the name it gets.
\<close>

section \<open>The parts of an artifact\<close>

definition policy_profile_path :: string where
  "policy_profile_path = ''capabilities/core/post_provisional_credit.yaml''"

definition default_guard_container :: string where
  "default_guard_container = ''#credit_action_container, .confirm-panel''"

text \<open>\<open>StepAction(action.action)\<close>.\<close>

definition step_action_of :: "string \<Rightarrow> step_action res" where
  "step_action_of name = (case filter (\<lambda>a. step_action_value a = name) [NAVIGATE, CLICK, FILL, ASSERT_CONTAINER, SUBMIT, HTTP_POST] of
      a # _ \<Rightarrow> Inr a
    | [] \<Rightarrow> Inl (ValueError (fstr [sq, name, sq, '' is not a valid StepAction''])))"

definition input_template_of :: "action_trace \<Rightarrow> string option" where
  "input_template_of a =
     (if at_action a = ''FILL'' \<and> opt_truthy (at_input_name a) then Some (input_placeholder (the (at_input_name a))) else None)"

definition compile_step :: "action_trace \<Rightarrow> step_definition res" where
  "compile_step a = rbind (step_action_of (at_action a)) (\<lambda>action.
     Inr \<lparr>st_id = at_step_id a, st_action = action, st_target = at_semantic_target a, st_candidates = at_locator_candidates a,
       st_input_template = input_template_of a, st_expected_text = None, st_frame_selector = at_frame_selector a,
       st_guard_ref = at_guard_ref a\<rparr>)"

fun compile_steps :: "action_trace list \<Rightarrow> step_definition list res" where
  "compile_steps [] = Inr []"
| "compile_steps (a # as) = rbind (compile_step a) (\<lambda>s. rbind (compile_steps as) (\<lambda>ss. Inr (s # ss)))"

text \<open>The container of the last mutating action, when it names one.\<close>

definition guard_container :: "action_trace list \<Rightarrow> string" where
  "guard_container actions = (case rev (filter at_is_mutating actions) of
      a # _ \<Rightarrow> or_else (at_container_selector a) default_guard_container
    | [] \<Rightarrow> default_guard_container)"

definition update_property :: "string \<Rightarrow> dict \<Rightarrow> dict \<Rightarrow> dict res" where
  "update_property name entries schema = (case dict_get schema ''properties'' of
      Some (VDict props) \<Rightarrow> (case dict_get props name of
          Some (VDict p) \<Rightarrow> Inr (dict_set schema ''properties'' (VDict (dict_set props name (VDict (dict_update p entries)))))
        | Some v \<Rightarrow> Inl (TypeError ''object does not support item assignment'')
        | None \<Rightarrow> Inl (KeyError (sq @ name @ sq)))
    | Some v \<Rightarrow> Inl (TypeError ''object is not subscriptable'')
    | None \<Rightarrow> Inl (KeyError (sq @ ''properties'' @ sq)))"

definition compiled_output_schema :: "dict \<Rightarrow> dict res" where
  "compiled_output_schema schema =
     rbind (update_property ''receipt_reference'' [(''x-selector'', VStr ''#receipt_memo_code, .result-memo-code'')] schema) (\<lambda>s1.
     rbind (update_property ''money_moved''
        [(''x-selector'', VStr ''#receipt_money_moved''), (''x-equals'', VStr ''MONEY_MOVED=TRUE'')] s1) (\<lambda>s2.
     Inr (dict_set (dict_set s2 ''x-business-outcomes'' (strs_val [''MEMBER_NOT_FOUND'', ''ALREADY_APPLIED'', ''POLICY_DENIED'']))
        ''x-interventions'' (strs_val [''COMPLIANCE_INTERSTITIAL'', ''POSTCHECK_UNCERTAIN'']))))"

definition compiled_derivation :: artifact_derivation where
  "compiled_derivation =
     \<lparr>dv_discovery_derived = [''id'', ''description'', ''created_at'', ''steps'', ''effect.class'', ''scoped_guard.container_selector'',
        ''source_discovery_run_id''],
      dv_policy_profile = policy_profile_path,
      dv_policy_derived = [''effect.identity'', ''effect.precheck'', ''effect.postcheck'', ''effect.reconciliation'', ''effect.bounds'',
        ''input_schema'', ''output_schema'', ''scoped_guard.expected_*''],
      dv_compiler_derived = [''artifact_hash'', ''version'', ''schema_version'']\<rparr>"

section \<open>Compiling\<close>

definition executed_actions :: "discovery_event list \<Rightarrow> action_trace list" where
  "executed_actions events = [a. Some a \<leftarrow> map de_executed events]"

definition admit_trace :: "discovery_trace \<Rightarrow> unit res" where
  "admit_trace t =
     (if dt_events t \<noteq> [] \<and> executed_actions (dt_events t) \<noteq> dt_actions t
      then Inl (ValueError ''Discovery trace actions do not match its durable provider decision events'')
      else if dt_provider t = ''manual'' \<and> dt_events t \<noteq> []
      then Inl (ValueError ''Provider event trace cannot identify its provider as manual'')
      else if \<not> dt_money_moved t \<or> \<not> opt_truthy (dt_discovered_memo t)
      then Inl (ValueError ''Only a successful, receipt-confirmed discovery run can be compiled'')
      else Inr ())"

text \<open>The approved guard on the container that was discovered.\<close>

definition compiled_guard :: "scoped_guard_spec \<Rightarrow> string \<Rightarrow> scoped_guard_spec" where
  "compiled_guard approved container = approved\<lparr>g_container_selector := container\<rparr>"

definition build_capability ::
  "discovery_trace \<Rightarrow> capability \<Rightarrow> scoped_guard_spec \<Rightarrow> step_definition list \<Rightarrow> dict \<Rightarrow> capability" where
  "build_capability t profile approved steps output_schema =
     \<lparr>cap_id = dt_capability_id t, cap_version = dt_version t, cap_schema_version = 1,
      cap_created_at = or_else (dt_completed_at t) (dt_started_at t), cap_name = cap_name profile, cap_description = dt_goal t,
      cap_system = dt_system t, cap_effect = cap_effect profile, cap_input_schema = cap_input_schema profile,
      cap_output_schema = output_schema, cap_guard = Some (compiled_guard approved (guard_container (dt_actions t))),
      cap_steps = steps, cap_source_run = Some (dt_run_id t), cap_derivation = Some compiled_derivation,
      cap_surfaces = [dt_system t], cap_hash = None\<rparr>"

definition artifact_filename :: "string option \<Rightarrow> string \<Rightarrow> string" where
  "artifact_filename target capability_id =
     or_else target (map (\<lambda>c. if c = CHR ''.'' then CHR ''_'' else c) capability_id @ ''.yaml'')"

definition artifact_dict :: "capability \<Rightarrow> dict" where
  "artifact_dict c = capability_payload c @ [(''artifact_hash'', opt_val VStr (cap_hash c))]"

definition compile_trace ::
  "(string \<Rightarrow> string) \<Rightarrow> capability res \<Rightarrow> string option \<Rightarrow> discovery_trace \<Rightarrow> (capability \<times> string \<times> dict) res" where
  "compile_trace sha profile target t =
     rbind (admit_trace t) (\<lambda>_.
     rbind profile (\<lambda>pf.
     if dt_capability_id t \<noteq> cap_id pf \<or> dt_system t \<noteq> cap_system pf
     then Inl (ValueError ''Discovery trace does not match the approved capability policy profile'')
     else rbind (compile_steps (dt_actions t)) (\<lambda>steps. case cap_guard pf of
         None \<Rightarrow> Inl assertion_error
       | Some approved \<Rightarrow>
           rbind (validate_guard_spec (compiled_guard approved (guard_container (dt_actions t)))) (\<lambda>_.
           rbind (compiled_output_schema (cap_output_schema pf)) (\<lambda>output_schema.
           rbind (validate_capability (build_capability t pf approved steps output_schema)) (\<lambda>fresh.
           let c = fresh\<lparr>cap_hash := Some (compute_hash sha fresh)\<rparr>
           in Inr (c, artifact_filename target (dt_capability_id t), artifact_dict c)))))))"

section \<open>What an artifact is bound to\<close>

lemma update_property_Inr:
  "update_property n es s = Inr s' \<Longrightarrow> \<exists>props. s' = dict_set s ''properties'' (VDict props)"
  by (auto simp: update_property_def split: option.splits val.splits)

lemma compile_trace_run:
  assumes "compile_trace sha profile target t = Inr (c, name, raw)"
  obtains pf approved steps out where "admit_trace t = Inr ()" "profile = Inr pf" "dt_capability_id t = cap_id pf" "dt_system t = cap_system pf"
    "compile_steps (dt_actions t) = Inr steps" "cap_guard pf = Some approved" "compiled_output_schema (cap_output_schema pf) = Inr out"
    "validate_capability (build_capability t pf approved steps out) = Inr (build_capability t pf approved steps out)"
    "c = (build_capability t pf approved steps out)\<lparr>cap_hash := Some (compute_hash sha (build_capability t pf approved steps out))\<rparr>"
    "name = artifact_filename target (dt_capability_id t)" "raw = artifact_dict c"
proof -
  obtain pf where pf: "admit_trace t = Inr ()" "profile = Inr pf"
    using assms by (auto simp: compile_trace_def rbind_eq_Inr)
  then have ids: "dt_capability_id t = cap_id pf" "dt_system t = cap_system pf"
    using assms by (auto simp: compile_trace_def rbind_eq_Inr split: if_splits)
  then obtain steps approved where steps: "compile_steps (dt_actions t) = Inr steps" "cap_guard pf = Some approved"
    using assms pf by (auto simp: compile_trace_def rbind_eq_Inr split: option.splits)
  then obtain out fresh where out: "compiled_output_schema (cap_output_schema pf) = Inr out"
    "validate_capability (build_capability t pf approved steps out) = Inr fresh"
    "c = fresh\<lparr>cap_hash := Some (compute_hash sha fresh)\<rparr>" "name = artifact_filename target (dt_capability_id t)" "raw = artifact_dict c"
    using assms pf ids by (auto simp: compile_trace_def rbind_eq_Inr Let_def)
  have "fresh = build_capability t pf approved steps out" using validate_capability_safe [OF out(2)] by simp
  then show thesis using that pf ids steps out by blast
qed

lemma compile_steps_Inr:
  "compile_steps as = Inr ss \<Longrightarrow> list_all2 (\<lambda>a s. compile_step a = Inr s) as ss"
  by (induction as arbitrary: ss) (auto simp: rbind_eq_Inr)

lemma step_action_of_Inr: "step_action_of n = Inr a \<Longrightarrow> step_action_value a = n"
  by (auto simp: step_action_of_def split: if_splits)

lemma hash_ignored [simp]: "compute_hash sha (c\<lparr>cap_hash := h\<rparr>) = compute_hash sha c"
  by (simp add: compute_hash_def capability_payload_def)

lemma safe_hash [simp]: "safe_capability (c\<lparr>cap_hash := h\<rparr>) = safe_capability c"
  by (simp add: safe_capability_def)

text \<open>
  A trace without anything that was typed, read, observed or decided: of an action its step,
  kind, target, locators, frame, guard and container remain; the events, the receipt, the
  metadata and who decided are gone.
\<close>

definition forget_action :: "action_trace \<Rightarrow> action_trace" where
  "forget_action a = a\<lparr>at_selector := [], at_concrete_value := None, at_observed_text := None, at_timestamp := []\<rparr>"

definition forget_values :: "discovery_trace \<Rightarrow> discovery_trace" where
  "forget_values t = t\<lparr>dt_provider := [], dt_model := [], dt_evidence_directory := None, dt_actions := map forget_action (dt_actions t),
     dt_events := [], dt_discovered_memo := Some ''confirmed'', dt_metadata := []\<rparr>"

lemma compile_forget [simp]: "compile_steps (map forget_action as) = compile_steps as"
  by (induction as) (simp_all add: compile_step_def forget_action_def input_template_of_def)

lemma guard_container_forget [simp]: "guard_container (map forget_action as) = guard_container as"
proof -
  have "filter at_is_mutating (map forget_action as) = map forget_action (filter at_is_mutating as)"
    by (simp add: filter_map comp_def forget_action_def)
  then show ?thesis by (simp add: guard_container_def rev_map forget_action_def split: list.splits)
qed

lemma executed_actions_Cons [simp]:
  "executed_actions [] = []"
  "executed_actions (e # es) = (case de_executed e of None \<Rightarrow> [] | Some a \<Rightarrow> [a]) @ executed_actions es"
  by (simp_all add: executed_actions_def split: option.splits)

lemma admit_forget: "admit_trace t = Inr () \<Longrightarrow> admit_trace (forget_values t) = Inr ()"
  by (auto simp: admit_trace_def forget_values_def opt_truthy_def split: if_splits)

text \<open>
  C32: A compiled capability is bound by the approved policy.  Only a trace whose receipt was
  confirmed compiles; the effect with its bounds, the input schema and every template of
  the guard are those of the profile, every actuation refers to that guard, and the hash
  is that of the content.  A field that was filled becomes a reference to its input.  The artifact
  depends on no value that was typed, no text, receipt or observation that was read and no
  decision: the trace with all of them removed compiles to the same artifact, file and name.
\<close>

theorem compiled_capability_is_bound:
  assumes "compile_trace sha profile target t = Inr (c, name, raw)"
  shows "dt_money_moved t \<and> opt_truthy (dt_discovered_memo t) \<and> safe_capability c \<and> cap_hash c = Some (compute_hash sha c) \<and>
    (\<exists>pf approved. profile = Inr pf \<and> cap_guard pf = Some approved \<and> cap_id c = cap_id pf \<and> cap_system c = cap_system pf \<and>
       cap_effect c = cap_effect pf \<and> cap_input_schema c = cap_input_schema pf \<and>
       cap_guard c = Some (approved\<lparr>g_container_selector := guard_container (dt_actions t)\<rparr>)) \<and>
    list_all2 (\<lambda>a s. st_id s = at_step_id a \<and> step_action_value (st_action s) = at_action a \<and> st_guard_ref s = at_guard_ref a \<and>
       st_input_template s = input_template_of a) (dt_actions t) (cap_steps c) \<and>
    compile_trace sha profile target (forget_values t) = Inr (c, name, raw)"
proof -
  obtain pf approved steps out where run: "admit_trace t = Inr ()" "profile = Inr pf" "dt_capability_id t = cap_id pf"
    "dt_system t = cap_system pf" "compile_steps (dt_actions t) = Inr steps" "cap_guard pf = Some approved"
    "compiled_output_schema (cap_output_schema pf) = Inr out"
    "validate_capability (build_capability t pf approved steps out) = Inr (build_capability t pf approved steps out)"
    "c = (build_capability t pf approved steps out)\<lparr>cap_hash := Some (compute_hash sha (build_capability t pf approved steps out))\<rparr>"
    "name = artifact_filename target (dt_capability_id t)" "raw = artifact_dict c"
    by (rule compile_trace_run [OF assms])
  have receipt: "dt_money_moved t" "opt_truthy (dt_discovered_memo t)" using run(1) by (auto simp: admit_trace_def split: if_splits)
  have safe: "safe_capability c" using validate_capability_safe [OF run(8)] run(9) by simp
  have steps: "list_all2 (\<lambda>a s. st_id s = at_step_id a \<and> step_action_value (st_action s) = at_action a \<and> st_guard_ref s = at_guard_ref a \<and>
      st_input_template s = input_template_of a) (dt_actions t) steps"
    using compile_steps_Inr [OF run(5)] by (rule list_all2_mono) (auto simp: compile_step_def rbind_eq_Inr step_action_of_Inr)
  have same: "build_capability (forget_values t) pf approved steps out = build_capability t pf approved steps out"
    by (simp add: build_capability_def forget_values_def)
  have "rbind (validate_guard_spec (compiled_guard approved (guard_container (dt_actions t)))) f = f ()" for f :: "unit \<Rightarrow> 'b res"
    using assms run(1-6) by (auto simp: compile_trace_def rbind_eq_Inr)
  then have "compile_trace sha profile target (forget_values t) = Inr (c, name, raw)"
    using run(2-7,10,11) admit_forget [OF run(1)] run(8) same
    by (simp add: compile_trace_def Let_def) (simp add: forget_values_def run(9))
  moreover have "cap_hash c = Some (compute_hash sha c)" using run(9) by simp
  moreover have "cap_steps c = steps" "cap_id c = cap_id pf" "cap_system c = cap_system pf" "cap_effect c = cap_effect pf"
    "cap_input_schema c = cap_input_schema pf" "cap_guard c = Some (approved\<lparr>g_container_selector := guard_container (dt_actions t)\<rparr>)"
    using run(3,4,9) by (simp_all add: build_capability_def compiled_guard_def)
  ultimately show ?thesis using receipt safe run(2,6) steps by simp
qed

end
