(* ===== verification/Discovery.thy ===== *)
theory Discovery
  imports ArtifactCompiler BrowserSession
begin

text \<open>
  Exploratory discovery (\<open>tandem/discovery/agent.py\<close>): observe the page, ask the provider
  for one action, execute it under the same admission and guard as a replay, record the
  cycle.  The state is the page with the count of model calls, a \<open>system\<close>, and the
  recorder.  Playwright, the provider, the intervention handler and the policy profile are
  the fields of an \<open>agent\<close>; a hand-over in the console is one handler (\<open>Handoff\<close>).
\<close>

section \<open>The agent\<close>

record 'w explorer =
  xp_system :: "'w system"
  xp_recorder :: recorder

text \<open>What is read of a page besides its controls; a frame is a number.\<close>

record 'w sight =
  sg_url :: "('w, string) call"
  sg_title :: "('w, string) call"
  sg_frames :: "('w, nat list) call"
  sg_main :: nat
  sg_host :: "nat \<Rightarrow> ('w, string option \<times> string option) call"
  sg_aria :: "nat \<Rightarrow> ('w, string) call"
  sg_body :: "nat \<Rightarrow> ('w, string) call"
  sg_count :: "nat \<Rightarrow> ('w, nat) call"
  sg_summary :: "nat \<Rightarrow> nat \<Rightarrow> ('w, dict) call"
  sg_frame_url :: "nat \<Rightarrow> ('w, string) call"
  sg_screenshot :: "string list \<Rightarrow> ('w, string) call"

record 'w agent =
  ag_browser :: "'w browser"
  ag_sight :: "'w sight"
  ag_settings :: settings
  ag_scribe :: scribe
  ag_names :: "string \<Rightarrow> string"
  ag_profile :: "capability res"
  ag_provider_name :: string
  ag_provider_model :: string
  ag_decide :: "discovery_context \<Rightarrow> ('w system, decision) prog"
  ag_intervene :: "(dict \<Rightarrow> ('w system, bool) prog) option"
  ag_max_cycles :: nat
  ag_run_id :: string
  ag_directory :: "string option"

definition on_page :: "('w system, 'a) prog \<Rightarrow> ('w explorer, 'a) prog" where
  "on_page = on_part xp_system (\<lambda>s x. x\<lparr>xp_system := s\<rparr>)"

definition recording :: "(recorder \<Rightarrow> 'a \<times> recorder) \<Rightarrow> ('w explorer, 'a) prog" where
  "recording f = (\<lambda>x. case f (xp_recorder x) of (a, rc) \<Rightarrow> (Ret a, x\<lparr>xp_recorder := rc\<rparr>))"

section \<open>Observation\<close>

record glimpse =
  gl_body :: "string list"
  gl_interactive :: "string list"
  gl_summaries :: "string list"
  gl_trees :: "dict list"

definition frame_selector_of :: "'w sight \<Rightarrow> nat \<Rightarrow> ('w system, string option) prog" where
  "frame_selector_of sg fr =
     (if fr = sg_main sg then ret None
      else bnd (ask (sg_host sg fr)) (\<lambda>(frame_id, frame_name).
        ret (if opt_truthy frame_id then Some (fstr [''iframe[id='', json_str True (the frame_id), '']''])
             else if opt_truthy frame_name then Some (fstr [''iframe[name='', json_str True (the frame_name), '']''])
             else None)))"

text \<open>An exception ends the reading of a frame; what was read of it before is kept.\<close>

definition read_or :: "glimpse \<Rightarrow> ('w system, 'a) prog \<Rightarrow> ('a \<Rightarrow> ('w system, glimpse) prog) \<Rightarrow> ('w system, glimpse) prog" where
  "read_or so_far p k = bnd (attempt (bnd p (\<lambda>v. ret (Some v))) None) (\<lambda>r. case r of None \<Rightarrow> ret so_far | Some v \<Rightarrow> k v)"

definition shown_option :: "string option \<Rightarrow> string" where
  "shown_option v = (case v of None \<Rightarrow> ''None'' | Some s \<Rightarrow> s)"

fun read_elements :: "'w sight \<Rightarrow> nat \<Rightarrow> string option \<Rightarrow> (glimpse \<Rightarrow> ('w system, glimpse) prog) \<Rightarrow> nat list \<Rightarrow> glimpse \<Rightarrow> ('w system, glimpse) prog" where
  "read_elements sg fr sel after_all [] so_far = after_all so_far"
| "read_elements sg fr sel after_all (i # is) so_far =
     read_or so_far (ask (sg_summary sg fr i)) (\<lambda>summary.
       read_elements sg fr sel after_all is (so_far\<lparr>gl_interactive := gl_interactive so_far @
         [take 1000 (py_str (VDict (dict_set summary ''frame_selector'' (opt_val VStr sel))))]\<rparr>))"

definition observe_frame :: "'w sight \<Rightarrow> glimpse \<Rightarrow> nat \<Rightarrow> ('w system, glimpse) prog" where
  "observe_frame sg g0 fr =
     read_or g0 (frame_selector_of sg fr) (\<lambda>sel.
     read_or g0 (ask (sg_aria sg fr)) (\<lambda>tree.
     let g1 = g0\<lparr>gl_trees := gl_trees g0 @ [[(''frame_selector'', opt_val VStr sel), (''tree'', VStr tree)]]\<rparr> in
     read_or g1 (ask (sg_body sg fr)) (\<lambda>body.
     let text = take 6000 body;
         g2 = (if text = [] then g1
               else g1\<lparr>gl_body := gl_body g1 @ [fstr [''frame_selector='', shown_option sel, '':'', [CHR 10], text]]\<rparr>) in
     read_or g2 (ask (sg_count sg fr)) (\<lambda>n.
     read_elements sg fr sel
       (\<lambda>g3. if fr = sg_main sg then ret g3
          else read_or g3 (ask (sg_frame_url sg fr)) (\<lambda>url. ret (g3\<lparr>gl_summaries := gl_summaries g3 @
            [fstr [''frame_selector='', shown_option sel, '' url='', url, '' elements='', str_nat (min n 100)]]\<rparr>)))
       [0..<min n 100] g2))))"

fun observe_frames :: "'w sight \<Rightarrow> glimpse \<Rightarrow> nat list \<Rightarrow> ('w system, glimpse) prog" where
  "observe_frames sg g [] = ret g"
| "observe_frames sg g (fr # frs) = bnd (observe_frame sg g fr) (\<lambda>h. observe_frames sg h frs)"

definition observe :: "'w sight \<Rightarrow> ('w system, observation) prog" where
  "observe sg =
     bnd (attempt (ask (sg_title sg)) []) (\<lambda>title.
     bnd (ask (sg_frames sg)) (\<lambda>frames.
     bnd (observe_frames sg \<lparr>gl_body = [], gl_interactive = [], gl_summaries = [], gl_trees = []\<rparr> frames) (\<lambda>g.
     bnd (ask (sg_url sg)) (\<lambda>url.
     ret \<lparr>ob_url = url, ob_title = title, ob_body_text = take 12000 (intercalate [CHR 10] (gl_body g)),
       ob_interactive_elements = gl_interactive g, ob_frame_summaries = gl_summaries g, ob_accessibility_trees = gl_trees g\<rparr>))))"

text \<open>\<open>BrowserObservation.model_validate(sanitize(observation.model_dump()))\<close>.\<close>

definition sanitize_observation :: "string list \<Rightarrow> observation \<Rightarrow> observation" where
  "sanitize_observation ss ob =
     \<lparr>ob_url = redact_text ss (ob_url ob), ob_title = redact_text ss (ob_title ob), ob_body_text = redact_text ss (ob_body_text ob),
      ob_interactive_elements = map (redact_text ss) (ob_interactive_elements ob),
      ob_frame_summaries = map (redact_text ss) (ob_frame_summaries ob),
      ob_accessibility_trees = map (sanitize_pairs ss) (ob_accessibility_trees ob)\<rparr>"

definition safe_screenshot :: "'w agent \<Rightarrow> string list \<Rightarrow> ('w system, string option) prog" where
  "safe_screenshot ag identifiers =
     attempt (bnd (ask (sg_screenshot (ag_sight ag) identifiers)) (\<lambda>p. ret (Some p))) None"

section \<open>Inputs and origins\<close>

text \<open>\<open>parsed.scheme, parsed.hostname or "", parsed.port\<close> of the split URL.\<close>

definition after_last :: "char \<Rightarrow> string \<Rightarrow> string" where
  "after_last c s = rev (takeWhile (\<lambda>d. d \<noteq> c) (rev s))"

definition partition_at :: "char \<Rightarrow> string \<Rightarrow> string \<times> string" where
  "partition_at c s = (takeWhile (\<lambda>d. d \<noteq> c) s, drop 1 (dropWhile (\<lambda>d. d \<noteq> c) s))"

definition host_and_port :: "string \<Rightarrow> string \<times> string" where
  "host_and_port netloc =
     (let hostinfo = after_last (CHR ''@'') netloc in
      if CHR ''['' \<in> set hostinfo
      then let (host, rest) = partition_at (CHR '']'') (snd (partition_at (CHR ''['') hostinfo))
           in (host, snd (partition_at (CHR '':'') rest))
      else partition_at (CHR '':'') hostinfo)"

definition lower_host :: "string \<Rightarrow> string" where
  "lower_host host = lower (takeWhile (\<lambda>c. c \<noteq> CHR ''%'') host) @ dropWhile (\<lambda>c. c \<noteq> CHR ''%'') host"

definition port_of :: "string \<Rightarrow> nat option res" where
  "port_of port =
     (if port = [] then Inr None
      else if \<not> list_all is_digit port then Inl (ValueError (''Port could not be cast to integer value as '' @ repr_str port))
      else if 65535 < digits_value port then Inl (ValueError ''Port out of range 0-65535'')
      else Inr (Some (digits_value port)))"

definition origin :: "string \<Rightarrow> (string \<times> string \<times> nat option) res" where
  "origin url =
     (let u = urlsplit url; (host, port) = host_and_port (su_netloc u)
      in rbind (port_of port) (\<lambda>p. Inr (su_scheme u, lower_host host, p)))"

definition required_inputs :: "string list" where
  "required_inputs = [''amount'', ''case_id'', ''member_id'']"

definition typed_inputs :: "dict \<Rightarrow> dict res" where
  "typed_inputs inputs =
     (let missing = filter (\<lambda>k. dict_get inputs k = None) required_inputs;
          str_at = (\<lambda>k. py_str (dict_val inputs k)); str_or = (\<lambda>k d. py_str (dict_default inputs k (VStr d))) in
      if missing \<noteq> [] then Inl (ValueError (''Missing discovery inputs: '' @ intercalate '', '' missing))
      else rbind (parse_money (dict_val inputs ''amount'')) (\<lambda>amount.
        Inr [(''institution_id'', VStr (str_or ''institution_id'' ''alpha'')), (''member_id'', VStr (str_at ''member_id'')),
             (''account_id'', VStr (str_or ''account_id'' (fstr [''CHK-'', str_at ''member_id'', ''-01'']))),
             (''case_id'', VStr (str_at ''case_id'')), (''amount'', VStr (money_text amount)),
             (''currency'', VStr (str_or ''currency'' ''USD''))]))"

section \<open>The receipt\<close>

definition receipt_in :: "'w browser \<Rightarrow> view \<Rightarrow> ('w system, (string option \<times> bool) option) prog" where
  "receipt_in br v =
     (let memo_at = (v, [''#receipt_memo_code, .result-memo-code'']); money_at = (v, [''#receipt_money_moved'']) in
      attempt
        (bnd (ask (br_count br memo_at)) (\<lambda>n.
         bnd (if n = 0 then ret False else ask (br_is_visible br memo_at 500)) (\<lambda>visible.
         if \<not> visible then ret None
         else bnd (ask (br_text_content br memo_at)) (\<lambda>shown.
              bnd (ask (br_text_content br money_at)) (\<lambda>moved.
              let memo = strip (case shown of None \<Rightarrow> [] | Some t \<Rightarrow> t)
              in ret (Some (if memo = [] then None else Some memo,
                   contains ''MONEY_MOVED=TRUE'' (case moved of None \<Rightarrow> [] | Some t \<Rightarrow> t))))))))
        None)"

fun receipt_among :: "'w browser \<Rightarrow> view list \<Rightarrow> ('w system, string option \<times> bool) prog" where
  "receipt_among br [] = ret (None, False)"
| "receipt_among br (v # vs) = bnd (receipt_in br v) (\<lambda>found. case found of Some r \<Rightarrow> ret r | None \<Rightarrow> receipt_among br vs)"

definition read_receipt :: "'w browser \<Rightarrow> ('w system, string option \<times> bool) prog" where
  "read_receipt br = bnd (ask (br_frames br)) (receipt_among br)"

section \<open>Executing a decision\<close>

type_synonym executed = "action_trace option \<times> dict"

definition view_of :: "string option \<Rightarrow> view" where
  "view_of frame_selector = (case frame_selector of Some (c # cs) \<Rightarrow> Frame (c # cs) | _ \<Rightarrow> Page)"

definition receipt_result :: "string \<Rightarrow> string option \<times> bool \<Rightarrow> dict" where
  "receipt_result status r = [(''status'', VStr status), (''receipt_reference'', opt_val VStr (fst r)), (''money_moved'', VBool (snd r))]"

definition finish_decision :: "'w agent \<Rightarrow> ('w explorer, executed) prog" where
  "finish_decision ag = bnd (on_page (read_receipt (ag_browser ag))) (\<lambda>r. ret (None, receipt_result ''finished'' r))"

definition navigate_decision :: "'w agent \<Rightarrow> string \<Rightarrow> decision \<Rightarrow> ('w explorer, executed) prog" where
  "navigate_decision ag portal_url dn =
     (let target_url = or_else (dd_target_url dn) [] in
     bnd (of_res (origin target_url)) (\<lambda>o1.
     bnd (of_res (origin portal_url)) (\<lambda>o2.
     andthen (unless_raise (o1 = o2) (ValueError ''Discovery provider requested navigation outside allowed origin'')) (
     andthen (of_res (authorize_url (ag_settings ag) target_url ''GET'' False)) (
     andthen (on_page (ask (br_goto (ag_browser ag) Page target_url))) (
     bnd (gets (\<lambda>x. rc_system (xp_recorder x))) (\<lambda>sys.
     bnd (recording (record_navigate (ag_scribe ag) target_url (Some (surface_home sys)))) (\<lambda>a.
     bnd (on_page (ask (sg_url (ag_sight ag)))) (\<lambda>url.
     ret (Some a, [(''status'', VStr ''executed''), (''url'', VStr url)]))))))))))"

text \<open>One control must match, and the policy must admit it for the action.\<close>

definition admit_discovery_control :: "'w agent \<Rightarrow> decision \<Rightarrow> locator \<Rightarrow> ('w system, unit) prog" where
  "admit_discovery_control ag dn loc =
     bnd (ask (br_count (ag_browser ag) loc)) (\<lambda>n.
     andthen (unless_raise (n = 1) (PolicyViolationError ''Discovery control is missing or ambiguous'')) (
     bnd (ask (br_control_info (ag_browser ag) loc)) (\<lambda>info.
     of_res (authorize_control (ag_settings ag) info (discovery_action_value (dd_action dn)) False))))"

text \<open>The approved profile with the container the decision names.\<close>

definition scoped_profile :: "capability \<Rightarrow> scoped_guard_spec \<Rightarrow> decision \<Rightarrow> capability" where
  "scoped_profile pf g dn = pf\<lparr>cap_guard := Some (g\<lparr>g_container_selector := or_else (dd_container_selector dn) []\<rparr>)\<rparr>"

definition guard_submission :: "'w agent \<Rightarrow> dict \<Rightarrow> decision \<Rightarrow> string \<Rightarrow> ('w system, unit) prog" where
  "guard_submission ag inputs dn selector =
     bnd (of_res (ag_profile ag)) (\<lambda>pf.
     andthen (of_res (validate_policy pf inputs)) (case cap_guard pf of
       None \<Rightarrow> fail assertion_error
     | Some g \<Rightarrow> verify_control_scoped_guard (ag_browser ag) None (scoped_profile pf g dn) inputs (dd_frame_selector dn)
          (Some [selector]) ''Mutating submit control''))"

definition fill_decision :: "'w agent \<Rightarrow> dict \<Rightarrow> decision \<Rightarrow> string \<Rightarrow> locator \<Rightarrow> ('w explorer, executed) prog" where
  "fill_decision ag inputs dn selector loc =
     (let input_name = or_else (dd_input_name dn) [] in case dict_get inputs input_name of
        None \<Rightarrow> fail (ValueError (fstr [''Provider requested undeclared input '', sq, input_name, sq]))
      | Some v \<Rightarrow>
          andthen (on_page (ask (br_fill (ag_browser ag) loc (py_str v)))) (
          bnd (recording (record_fill (ag_scribe ag) selector (py_str v) (Some input_name) (Some (dd_semantic_target dn))
             (dd_frame_selector dn) (dd_locator_candidates dn))) (\<lambda>a.
          ret (Some a, [(''status'', VStr ''executed''), (''input_name'', VStr input_name)]))))"

definition click_decision :: "'w agent \<Rightarrow> decision \<Rightarrow> string \<Rightarrow> locator \<Rightarrow> ('w explorer, executed) prog" where
  "click_decision ag dn selector loc =
     bnd (case dd_container_selector dn of
         Some (c # cs) \<Rightarrow> bnd (on_page (ask (br_inner_text (ag_browser ag) (fst loc, [c # cs])))) (\<lambda>t. ret (Some t))
       | _ \<Rightarrow> ret None) (\<lambda>observed_text.
     andthen (on_page (ask (br_click (ag_browser ag) loc))) (
     andthen (on_page (attempt (ask (br_wait_idle (ag_browser ag))) ())) (
     bnd (recording (record_click (ag_scribe ag) selector (Some (dd_semantic_target dn)) (dd_frame_selector dn)
        (dd_locator_candidates dn) (dd_container_selector dn) observed_text (dd_action dn = Do_Submit) (dd_guard_ref dn))) (\<lambda>a.
     bnd (on_page (read_receipt (ag_browser ag))) (\<lambda>r.
     ret (Some a, receipt_result ''executed'' r))))))"

definition control_decision :: "'w agent \<Rightarrow> dict \<Rightarrow> decision \<Rightarrow> ('w explorer, executed) prog" where
  "control_decision ag inputs dn = (case dd_selector dn of
      None \<Rightarrow> fail (ValueError (discovery_action_value (dd_action dn) @ '' decision omitted selector''))
    | Some selector \<Rightarrow>
        let loc = (view_of (dd_frame_selector dn), [selector]) in
        andthen (on_page (admit_discovery_control ag dn loc)) (
        andthen (if dd_action dn = Do_Submit then on_page (guard_submission ag inputs dn selector) else ret ())
          (if dd_action dn = Do_Fill then fill_decision ag inputs dn selector loc else click_decision ag dn selector loc)))"

definition execute_decision :: "'w agent \<Rightarrow> dict \<Rightarrow> string \<Rightarrow> decision \<Rightarrow> ('w explorer, executed) prog" where
  "execute_decision ag inputs portal_url dn = (case dd_action dn of
      Do_Finish \<Rightarrow> finish_decision ag
    | Do_Navigate \<Rightarrow> navigate_decision ag portal_url dn
    | _ \<Rightarrow> control_decision ag inputs dn)"

section \<open>Interventions\<close>

definition intervention_request :: "recorder \<Rightarrow> string \<Rightarrow> observation \<Rightarrow> bool \<Rightarrow> dict" where
  "intervention_request rc reason ob can_resume =
     [(''run_id'', VStr (rc_run_id rc)), (''goal'', VStr (rc_goal rc)), (''reason'', VStr reason),
      (''cycle'', VInt (int (length (rc_events rc)))), (''state'', VDict (dump_observation ob)),
      (''status'', VStr ''NEEDS_HUMAN''), (''can_resume'', VBool can_resume)]"

definition request_intervention :: "'w agent \<Rightarrow> string \<Rightarrow> observation \<Rightarrow> bool \<Rightarrow> ('w explorer, bool) prog" where
  "request_intervention ag reason ob can_resume =
     bnd (gets xp_recorder) (\<lambda>rc. let request = intervention_request rc reason ob can_resume in
     andthen (recording (\<lambda>rc. ((), write_file ''intervention.json'' (redact_secrets (sb_secrets (ag_scribe ag)) (VDict request)) rc)))
       (case ag_intervene ag of
          Some handler \<Rightarrow> if can_resume then on_page (handler request) else ret False
        | None \<Rightarrow> ret False))"

section \<open>The loop\<close>

definition prior_events :: "discovery_event list \<Rightarrow> dict list" where
  "prior_events events = map (\<lambda>e. [(''cycle'', VInt (int (de_cycle e))), (''decision'', VDict (dump_decision (de_decision e))),
     (''result'', VDict (de_result e))]) (drop (length events - 8) events)"

definition discovery_context_of :: "'w agent \<Rightarrow> string \<Rightarrow> string \<Rightarrow> dict \<Rightarrow> observation \<Rightarrow> recorder \<Rightarrow> discovery_context" where
  "discovery_context_of ag objective url inputs ob rc =
     \<lparr>dc_objective = objective, dc_inputs = redact_pairs (sb_secrets (ag_scribe ag)) inputs, dc_observation = ob,
      dc_prior_events = prior_events (rc_events rc), dc_allowed_surfaces = [url]\<rparr>"

definition identifiers_of :: "dict \<Rightarrow> string list" where
  "identifiers_of inputs = [py_str (dict_val inputs ''member_id''), py_str (dict_val inputs ''account_id'')]"

text \<open>One cycle: \<open>True\<close> when discovery is finished.  A cycle that a human resolved goes on.\<close>

definition decide_or_ask :: "'w agent \<Rightarrow> discovery_context \<Rightarrow> observation \<Rightarrow> ('w explorer, decision option) prog" where
  "decide_or_ask ag context ob =
     catch (\<lambda>_. True) (bnd (on_page (ag_decide ag context)) (\<lambda>d. ret (Some d)))
       (\<lambda>exc. bnd (request_intervention ag (exn_class (ag_names ag) exc) ob True) (\<lambda>resume. if resume then ret None else fail exc))"

definition record_cycle_of ::
  "'w agent \<Rightarrow> dict \<Rightarrow> observation \<Rightarrow> decision \<Rightarrow> action_trace option \<Rightarrow> dict \<Rightarrow> ('w explorer, discovery_event) prog" where
  "record_cycle_of ag inputs ob dn action result =
     bnd (on_page (safe_screenshot ag (identifiers_of inputs))) (\<lambda>picture.
     recording (record_cycle (ag_scribe ag) ob dn action result picture))"

definition execute_or_ask ::
  "'w agent \<Rightarrow> dict \<Rightarrow> string \<Rightarrow> observation \<Rightarrow> decision \<Rightarrow> ('w explorer, executed option) prog" where
  "execute_or_ask ag inputs url ob dn =
     catch (\<lambda>_. True) (bnd (execute_decision ag inputs url dn) (\<lambda>r. ret (Some r)))
       (\<lambda>exc. let name = exn_class (ag_names ag) exc in
        andthen (record_cycle_of ag inputs ob dn None [(''status'', VStr ''failed''), (''error_type'', VStr name)]) (
        bnd (request_intervention ag name ob (dd_action dn \<noteq> Do_Submit)) (\<lambda>resume. if resume then ret None else fail exc)))"

definition confirmed :: "dict \<Rightarrow> bool" where
  "confirmed result \<longleftrightarrow> truthy (dict_val result ''receipt_reference'') \<and> truthy (dict_val result ''money_moved'')"

definition discovery_cycle :: "'w agent \<Rightarrow> string \<Rightarrow> string \<Rightarrow> dict \<Rightarrow> ('w explorer, bool) prog" where
  "discovery_cycle ag objective url inputs =
     bnd (on_page (observe (ag_sight ag))) (\<lambda>seen. let ob = sanitize_observation (sb_secrets (ag_scribe ag)) seen in
     bnd (gets xp_recorder) (\<lambda>rc.
     bnd (decide_or_ask ag (discovery_context_of ag objective url inputs ob rc) ob) (\<lambda>decided. case decided of
       None \<Rightarrow> ret False
     | Some dn \<Rightarrow>
         bnd (execute_or_ask ag inputs url ob dn) (\<lambda>outcome. case outcome of
           None \<Rightarrow> ret False
         | Some (action, result) \<Rightarrow>
             andthen (record_cycle_of ag inputs ob dn action result) (
             if dd_action dn = Do_Finish
             then andthen (unless_raise (confirmed result) (ValueError ''Discovery cannot finish without a confirmed credit receipt'')) (ret True)
             else ret False)))))"

fun discovery_loop :: "'w agent \<Rightarrow> string \<Rightarrow> string \<Rightarrow> dict \<Rightarrow> nat \<Rightarrow> ('w explorer, bool) prog" where
  "discovery_loop ag objective url inputs 0 = ret False"
| "discovery_loop ag objective url inputs (Suc n) =
     bnd (discovery_cycle ag objective url inputs) (\<lambda>finished.
     if finished then ret True else discovery_loop ag objective url inputs n)"

text \<open>The checks before anything is asked.\<close>

definition admit_discovery :: "'w agent \<Rightarrow> string \<Rightarrow> string \<Rightarrow> dict \<Rightarrow> ('w explorer, dict) prog" where
  "admit_discovery ag goal target inputs =
     andthen (unless_raise (strip goal \<noteq> [] \<and> strip target \<noteq> []) (ValueError ''Discovery requires a non-empty goal and target'')) (
     bnd (of_res (origin target)) (\<lambda>o1.
     bnd (of_res (origin (core_bank_url (ag_settings ag)))) (\<lambda>o2.
     andthen (unless_raise (o1 = o2) (ValueError ''Discovery target must be the configured core bank simulator'')) (
     andthen (on_page (ask (br_route_navigation (ag_browser ag)))) (
     bnd (of_res (typed_inputs inputs)) (\<lambda>typed.
     bnd (of_res (ag_profile ag)) (\<lambda>pf.
     andthen (of_res (validate_policy pf typed)) (ret typed))))))))"

definition discover :: "'w agent \<Rightarrow> string \<Rightarrow> string \<Rightarrow> dict \<Rightarrow> ('w explorer, discovery_trace) prog" where
  "discover ag goal target inputs =
     bnd (admit_discovery ag goal target inputs) (\<lambda>typed.
     andthen (change (\<lambda>x. x\<lparr>xp_recorder := new_recorder (ag_scribe ag) ''core.post_provisional_credit'' goal ''core_bank''
        (ag_provider_name ag) (ag_provider_model ag) (ag_run_id ag) (ag_directory ag) (identifiers_of typed)\<rparr>)) (
     bnd (discovery_loop ag goal target typed (ag_max_cycles ag)) (\<lambda>finished.
     andthen (if finished then ret ()
        else bnd (on_page (observe (ag_sight ag))) (\<lambda>ob.
          andthen (request_intervention ag ''MAX_CYCLES'' ob False)
            (fail (RuntimeError (fstr [''Discovery provider did not finish within '', str_nat (ag_max_cycles ag), '' cycles'']))))) (
     bnd (on_page (read_receipt (ag_browser ag))) (\<lambda>(memo, money_moved).
     recording (finalize (ag_scribe ag) memo money_moved
       [(''source_member_id'', dict_val typed ''member_id''), (''target_account_id'', dict_val typed ''account_id''),
        (''amount'', dict_val typed ''amount''), (''currency'', dict_val typed ''currency''),
        (''final_receipt_reference'', opt_val VStr memo)]))))))"

definition provisional_credit_goal :: string where
  "provisional_credit_goal =
     ''Navigate the core banking portal, locate the member, open the provisional-credit '' @
     ''flow, bind the case and amount, review the exact submitted values, commit once, '' @
     ''and finish only after observing the receipt.''"

definition discover_provisional_credit :: "'w agent \<Rightarrow> dict \<Rightarrow> string option \<Rightarrow> ('w explorer, discovery_trace) prog" where
  "discover_provisional_credit ag inputs portal_url =
     discover ag provisional_credit_goal (or_else portal_url (core_bank_url (ag_settings ag))) inputs"

section \<open>What a cycle does to the record\<close>

text \<open>Programs on the page leave the record alone.\<close>

lemma keeps_page [keeps_rules]: "keeps (\<lambda>x. P (xp_recorder x)) (on_page p)"
  by (auto simp: keeps_def on_page_def on_part_def split: prod.splits)

text \<open>How one executed action extends the record.\<close>

definition well_made :: "recorder \<Rightarrow> action_trace \<Rightarrow> bool" where
  "well_made rc a \<longleftrightarrow> (\<exists>kind. at_step_id a = step_name (Suc (rc_step_counter rc)) kind) \<and>
     (at_action a = ''NAVIGATE'' \<longrightarrow> at_semantic_target a = surface_home (rc_system rc))"

definition extended :: "recorder \<Rightarrow> action_trace \<Rightarrow> recorder" where
  "extended rc a = rc\<lparr>rc_step_counter := Suc (rc_step_counter rc), rc_tick := Suc (rc_tick rc), rc_actions := rc_actions rc @ [a]\<rparr>"

definition executes :: "recorder \<Rightarrow> executed run \<Rightarrow> 'w explorer \<Rightarrow> bool" where
  "executes rc r x \<longleftrightarrow> (case r of
      Ret (Some a, res) \<Rightarrow> well_made rc a \<and> xp_recorder x = extended rc a
    | _ \<Rightarrow> xp_recorder x = rc)"

lemma recording_run: "recording f x = (r, y) \<longleftrightarrow> (case f (xp_recorder x) of (a, rc) \<Rightarrow> r = Ret a \<and> y = x\<lparr>xp_recorder := rc\<rparr>)"
  by (auto simp: recording_def split: prod.splits)

lemma surface_home_Cons: "surface_home s = CHR ''s'' # tl (surface_home s)"
  by (simp add: surface_home_def)

lemma navigate_kept:
  assumes "record_navigate sb url (Some (surface_home (rc_system rc))) rc = (a, rc')"
  shows "well_made rc a \<and> rc' = extended rc a"
  using assms by (auto simp: record_navigate_def keep_action_def Let_def well_made_def extended_def or_else_def surface_home_def)

lemma fill_kept: "record_fill sb sel v n t f cs rc = (a, rc') \<Longrightarrow> well_made rc a \<and> rc' = extended rc a"
  by (auto simp: record_fill_def keep_action_def Let_def well_made_def extended_def)

lemma click_kept: "record_click sb sel t f cs c o' m g rc = (a, rc') \<Longrightarrow> well_made rc a \<and> rc' = extended rc a"
  by (auto simp: record_click_def keep_action_def Let_def well_made_def extended_def split: if_splits)

lemma triple_quiet:
  assumes "\<And>R. keeps (\<lambda>x. xp_recorder x = R) p" and "\<And>v. triple (\<lambda>x. xp_recorder x = rc) (k v) (executes rc)"
  shows "triple (\<lambda>x. xp_recorder x = rc) (bnd p k) (executes rc)"
  by (rule triple_bnd [OF assms(1) [unfolded keeps_triple] assms(2)]) (simp_all add: executes_def)

lemma triple_quiet_then:
  assumes "\<And>R. keeps (\<lambda>x. xp_recorder x = R) p" and "triple (\<lambda>x. xp_recorder x = rc) q (executes rc)"
  shows "triple (\<lambda>x. xp_recorder x = rc) (andthen p q) (executes rc)"
  unfolding andthen_def using assms by (rule triple_quiet)

lemma triple_raise: "triple (\<lambda>x. xp_recorder x = rc) (fail e) (executes rc)"
  by (simp add: triple_def executes_def)

text \<open>An action is recorded, and what follows on the page returns.\<close>

lemma triple_recorded:
  assumes "\<And>a rc'. f rc = (a, rc') \<Longrightarrow> well_made rc a \<and> rc' = extended rc a"
    and "\<And>s. \<exists>v s'. p s = (Ret v, s')"
  shows "triple (\<lambda>x. xp_recorder x = rc) (bnd (recording f) (\<lambda>a. bnd (on_page p) (\<lambda>v. ret (Some a, g v)))) (executes rc)"
proof (rule tripleI)
  fix x r y assume x: "xp_recorder x = rc"
    and run: "bnd (recording f) (\<lambda>a. bnd (on_page p) (\<lambda>v. ret (Some a, g v))) x = (r, y)"
  obtain a rc' where f: "f rc = (a, rc')" by (cases "f rc")
  obtain v s' where p: "p (xp_system x) = (Ret v, s')" using assms(2) by blast
  have "r = Ret (Some a, g v) \<and> xp_recorder y = rc'"
    using run f p x by (auto simp: bnd_def recording_def on_page_def on_part_def)
  then show "executes rc r y" using assms(1) [OF f] by (simp add: executes_def)
qed

lemma answers_ask [answers_rules]: "answers (ask f)"
  by (auto simp: answers_def ask_def on_world_def on_part_def split: prod.splits sum.splits)

lemma attempt_returns: "answers p \<Longrightarrow> \<exists>v y. attempt p d x = (Ret v, y)"
  by (cases "p x"; cases "fst (p x)") (auto simp: answers_def attempt_def catch_def, metis fst_conv)

lemma receipt_in_returns: "\<exists>v y. receipt_in br w x = (Ret v, y)"
  unfolding receipt_in_def Let_def by (intro attempt_returns answers_rules)

lemma receipt_among_returns: "\<exists>v y. receipt_among br vs x = (Ret v, y)"
proof (induction vs arbitrary: x)
  case (Cons w vs)
  obtain found y where "receipt_in br w x = (Ret found, y)" using receipt_in_returns by blast
  then show ?case using Cons.IH by (cases found) (auto simp: bnd_def)
qed auto

text \<open>The list of frames and the address of a page are properties that can always be read.\<close>

definition readable :: "'w agent \<Rightarrow> bool" where
  "readable ag \<longleftrightarrow> (\<forall>w. \<exists>fs v. br_frames (ag_browser ag) w = (Inr fs, v)) \<and> (\<forall>w. \<exists>u v. sg_url (ag_sight ag) w = (Inr u, v))"

lemma ask_returns: "\<forall>w. \<exists>v w'. f w = (Inr v, w') \<Longrightarrow> \<exists>v y. ask f x = (Ret v, y)"
proof -
  assume "\<forall>w. \<exists>v w'. f w = (Inr v, w')"
  then obtain v w' where "f (sy_world x) = (Inr v, w')" by blast
  then show ?thesis by (simp add: ask_def on_world_def on_part_def)
qed

lemma read_receipt_returns: "readable ag \<Longrightarrow> \<exists>v y. read_receipt (ag_browser ag) x = (Ret v, y)"
proof -
  assume "readable ag"
  then obtain fs y where "ask (br_frames (ag_browser ag)) x = (Ret fs, y)"
    using ask_returns [of "br_frames (ag_browser ag)" x] by (auto simp: readable_def)
  then show ?thesis using receipt_among_returns [of "ag_browser ag" fs y] by (auto simp: read_receipt_def bnd_def)
qed

lemma navigate_executes:
  assumes "readable ag"
  shows "triple (\<lambda>x. xp_recorder x = rc) (navigate_decision ag url dn) (executes rc)"
proof -
  let ?t = "or_else (dd_target_url dn) []"
  have last: "triple (\<lambda>x. xp_recorder x = rc) (bnd (gets (\<lambda>x. rc_system (xp_recorder x))) (\<lambda>sys.
      bnd (recording (record_navigate (ag_scribe ag) ?t (Some (surface_home sys)))) (\<lambda>a. bnd (on_page (ask (sg_url (ag_sight ag)))) (\<lambda>u.
      ret (Some a, [(''status'', VStr ''executed''), (''url'', VStr u)]))))) (executes rc)" (is "triple ?P ?p ?Q")
  proof (rule tripleI)
    fix x r y assume x: "?P x" and run: "?p x = (r, y)"
    have url: "\<exists>v s'. ask (sg_url (ag_sight ag)) s = (Ret v, s')" for s
      using assms ask_returns [of "sg_url (ag_sight ag)" s] by (simp add: readable_def)
    have k: "triple ?P (bnd (recording (record_navigate (ag_scribe ag) ?t (Some (surface_home (rc_system rc)))))
       (\<lambda>a. bnd (on_page (ask (sg_url (ag_sight ag)))) (\<lambda>u. ret (Some a, [(''status'', VStr ''executed''), (''url'', VStr u)])))) ?Q"
      by (rule triple_recorded) (use navigate_kept url in blast)+
    have "bnd (recording (record_navigate (ag_scribe ag) ?t (Some (surface_home (rc_system rc)))))
       (\<lambda>a. bnd (on_page (ask (sg_url (ag_sight ag)))) (\<lambda>u. ret (Some a, [(''status'', VStr ''executed''), (''url'', VStr u)]))) x = (r, y)"
      using run x by simp
    then show "?Q r y" using tripleD [OF k x] by blast
  qed
  show ?thesis unfolding navigate_decision_def Let_def
    by (rule triple_quiet, rule keeps_pure, rule triple_quiet, rule keeps_pure, rule triple_quiet_then, rule keeps_pure,
      rule triple_quiet_then, rule keeps_pure, rule triple_quiet_then, rule keeps_page, rule last)
qed

lemma fill_executes: "triple (\<lambda>x. xp_recorder x = rc) (fill_decision ag inputs dn sel loc) (executes rc)"
proof -
  have "triple (\<lambda>x. xp_recorder x = rc) (bnd (recording (record_fill sb sel v n t f cs)) (\<lambda>a. ret (Some a, res))) (executes rc)"
    for sb v n t f cs res
  proof -
    obtain a rc' where a: "record_fill sb sel v n t f cs rc = (a, rc')" by (cases "record_fill sb sel v n t f cs rc")
    show ?thesis using fill_kept [OF a] a by (auto simp: triple_def bnd_def recording_def executes_def)
  qed
  then show ?thesis unfolding fill_decision_def Let_def
    by (cases "dict_get inputs (or_else (dd_input_name dn) [])") (simp_all add: triple_raise, intro triple_quiet_then keeps_rules)
qed

lemma click_executes:
  assumes "readable ag"
  shows "triple (\<lambda>x. xp_recorder x = rc) (click_decision ag dn sel loc) (executes rc)"
proof -
  have seen: "keeps (\<lambda>x. xp_recorder x = R) (case dd_container_selector dn of
      Some (c # cs) \<Rightarrow> bnd (on_page (ask (br_inner_text (ag_browser ag) (fst loc, [c # cs])))) (\<lambda>t. ret (Some t)) | _ \<Rightarrow> ret None)" for R
    by (auto split: option.splits list.splits intro!: keeps_rules)
  have last: "triple (\<lambda>x. xp_recorder x = rc) (bnd (recording (record_click sb sel t f cs c o' m g)) (\<lambda>a. bnd (on_page (read_receipt (ag_browser ag)))
      (\<lambda>r. ret (Some a, receipt_result ''executed'' r)))) (executes rc)" for sb t f cs c o' m g
    by (rule triple_recorded) (use click_kept read_receipt_returns [OF assms] in blast)+
  show ?thesis unfolding click_decision_def
    by (rule triple_quiet [OF seen], rule triple_quiet_then, rule keeps_page, rule triple_quiet_then, rule keeps_page, rule last)
qed

lemma decision_executes:
  assumes "readable ag"
  shows "triple (\<lambda>x. xp_recorder x = rc) (execute_decision ag inputs url dn) (executes rc)"
proof -
  have "triple (\<lambda>x. xp_recorder x = rc) (control_decision ag inputs dn) (executes rc)"
  proof (cases "dd_selector dn")
    case None
    then show ?thesis by (simp add: control_decision_def triple_raise)
  next
    case (Some selector)
    have "triple (\<lambda>x. xp_recorder x = rc) (if dd_action dn = Do_Fill then fill_decision ag inputs dn selector loc
        else click_decision ag dn selector loc) (executes rc)" for loc
      by (simp add: fill_executes click_executes [OF assms])
    then show ?thesis unfolding control_decision_def Some option.case Let_def by (intro triple_quiet_then keeps_rules)
  qed
  moreover have "triple (\<lambda>x. xp_recorder x = rc) (finish_decision ag) (executes rc)"
    unfolding finish_decision_def by (rule triple_quiet) (auto intro: keeps_rules simp: triple_def executes_def)
  ultimately show ?thesis using navigate_executes [OF assms] by (simp add: execute_decision_def split: discovery_action.split)
qed

section \<open>The record is faithful\<close>

text \<open>
  The events account for every action, except for one that is still to be put into an
  event; actions are numbered and cycles are.
\<close>

definition accounted :: "action_trace option \<Rightarrow> recorder \<Rightarrow> bool" where
  "accounted e rc \<longleftrightarrow> executed_actions (rc_events rc) @ (case e of None \<Rightarrow> [] | Some a \<Rightarrow> [a]) = rc_actions rc \<and>
     rc_step_counter rc = length (rc_actions rc) \<and>
     (\<forall>i < length (rc_actions rc). \<exists>kind. at_step_id (rc_actions rc ! i) = step_name (Suc i) kind) \<and>
     (\<forall>a \<in> set (rc_actions rc). at_action a = ''NAVIGATE'' \<longrightarrow> at_semantic_target a = surface_home (rc_system rc)) \<and>
     (\<forall>i < length (rc_events rc). de_cycle (rc_events rc ! i) = Suc i)"

text \<open>What a recorder is about does not change.\<close>

definition heading :: "recorder \<Rightarrow> string \<times> string \<times> string \<times> string" where
  "heading rc = (rc_capability_id rc, rc_system rc, rc_goal rc, rc_provider rc)"

lemma write_file_fields [simp]:
  "rc_actions (write_file p v rc) = rc_actions rc" "rc_events (write_file p v rc) = rc_events rc"
  "rc_step_counter (write_file p v rc) = rc_step_counter rc" "rc_system (write_file p v rc) = rc_system rc"
  "rc_capability_id (write_file p v rc) = rc_capability_id rc" "rc_goal (write_file p v rc) = rc_goal rc"
  "rc_provider (write_file p v rc) = rc_provider rc"
  by (simp_all add: write_file_def)

lemma write_file_accounted [simp]: "accounted e (write_file p v rc) = accounted e rc" "heading (write_file p v rc) = heading rc"
  by (simp_all add: accounted_def heading_def)

lemma executed_actions_append: "executed_actions (es @ fs) = executed_actions es @ executed_actions fs"
  by (simp add: executed_actions_def)

lemma extended_accounted:
  assumes "accounted None rc" "well_made rc a"
  shows "accounted (Some a) (extended rc a)"
  using assms by (auto simp: accounted_def well_made_def extended_def nth_append less_Suc_eq)

lemma recorded_cycle:
  assumes "accounted e rc" "record_cycle sb ob dn e res pic rc = (ev, rc')"
  shows "accounted None rc' \<and> heading rc' = heading rc \<and> rc_events rc' = rc_events rc @ [ev] \<and> de_decision ev = dn \<and>
    de_executed ev = e \<and> de_result ev = redact_pairs (sb_secrets sb) res"
proof -
  have ev: "rc_events rc' = rc_events rc @ [ev]" "rc_actions rc' = rc_actions rc" "rc_step_counter rc' = rc_step_counter rc"
    "rc_system rc' = rc_system rc" "heading rc' = heading rc" "de_decision ev = dn" "de_executed ev = e"
    "de_result ev = redact_pairs (sb_secrets sb) res" "de_cycle ev = Suc (length (rc_events rc))"
    using assms(2) by (auto simp: record_cycle_def Let_def write_trace_def heading_def split: option.splits)
  have "executed_actions [ev] = (case e of None \<Rightarrow> [] | Some a \<Rightarrow> [a])" using ev(7) by simp
  then have "accounted None rc'"
    using assms(1) ev(1-4,9) by (auto simp: accounted_def executed_actions_append nth_append less_Suc_eq simp del: executed_actions_Cons(2))
  then show ?thesis using ev by simp
qed

definition kept_record :: "string \<times> string \<times> string \<times> string \<Rightarrow> nat \<Rightarrow> 'w explorer \<Rightarrow> bool" where
  "kept_record h n x \<longleftrightarrow> accounted None (xp_recorder x) \<and> heading (xp_recorder x) = h \<and> length (rc_events (xp_recorder x)) \<le> n"

lemma kept_record_mono: "kept_record h n x \<Longrightarrow> n \<le> m \<Longrightarrow> kept_record h m x"
  by (simp add: kept_record_def)

lemma keeps_intervention [keeps_rules]: "keeps (kept_record h n) (request_intervention ag reason ob can)"
proof -
  have "keeps (kept_record h n) (recording (\<lambda>rc. ((), write_file p v rc)))" for p v
    by (simp add: keeps_def recording_def kept_record_def)
  moreover have page: "keeps (kept_record h n) (on_page p)" for p :: "('a system, bool) prog"
    unfolding kept_record_def by (rule keeps_page)
  ultimately show ?thesis unfolding request_intervention_def Let_def
    by (intro keeps_rules) (auto split: option.split intro!: keeps_rules)
qed

lemma cycle_recorded:
  assumes "accounted act (xp_recorder x)" "heading (xp_recorder x) = h" "length (rc_events (xp_recorder x)) \<le> n"
    and "record_cycle_of ag inputs ob dn act res x = (r, y)"
  shows "kept_record h (Suc n) y \<and> (\<exists>ev. r = Ret ev \<and> rc_events (xp_recorder y) = rc_events (xp_recorder x) @ [ev] \<and>
    de_decision ev = dn \<and> de_result ev = redact_pairs (sb_secrets (ag_scribe ag)) res)"
proof -
  obtain p s where "safe_screenshot ag (identifiers_of inputs) (xp_system x) = (Ret p, s)"
    using attempt_returns [of "bnd (ask (sg_screenshot (ag_sight ag) (identifiers_of inputs))) (\<lambda>p. ret (Some p))" None "xp_system x"]
    by (auto simp: safe_screenshot_def intro: answers_rules)
  moreover obtain ev rc' where c: "record_cycle (ag_scribe ag) ob dn act res p (xp_recorder x) = (ev, rc')"
    by (cases "record_cycle (ag_scribe ag) ob dn act res p (xp_recorder x)")
  ultimately have "r = Ret ev" "xp_recorder y = rc'"
    using assms(4) by (auto simp: record_cycle_of_def bnd_def on_page_def on_part_def recording_def)
  then show ?thesis using recorded_cycle [OF assms(1) c] assms(2,3) by (simp add: kept_record_def)
qed

definition ready :: "string \<times> string \<times> string \<times> string \<Rightarrow> nat \<Rightarrow> decision \<Rightarrow> executed option run \<Rightarrow> 'w explorer \<Rightarrow> bool" where
  "ready h n dn r x \<longleftrightarrow> (case r of
      Ret (Some (act, res)) \<Rightarrow> accounted act (xp_recorder x) \<and> heading (xp_recorder x) = h \<and> length (rc_events (xp_recorder x)) \<le> n \<and>
        (dd_action dn = Do_Finish \<longrightarrow> (\<exists>rr. res = receipt_result ''finished'' rr))
    | _ \<Rightarrow> kept_record h (Suc n) x)"

lemma finish_result:
  "dd_action dn = Do_Finish \<Longrightarrow> execute_decision ag inputs url dn x = (Ret (act, res), y) \<Longrightarrow> \<exists>rr. res = receipt_result ''finished'' rr"
  by (auto simp: execute_decision_def finish_decision_def bnd_eq_Ret)

lemma execute_or_ask_ready:
  assumes "readable ag"
  shows "triple (kept_record h n) (execute_or_ask ag inputs url ob dn) (ready h n dn)"
proof (rule tripleI)
  fix x r y assume k: "kept_record h n x" and run: "execute_or_ask ag inputs url ob dn x = (r, y)"
  obtain q z where q: "execute_decision ag inputs url dn x = (q, z)" by (cases "execute_decision ag inputs url dn x")
  have e: "executes (xp_recorder x) q z" using tripleD [OF decision_executes [OF assms] refl q] .
  show "ready h n dn r y"
  proof (cases q)
    case (Ret v)
    obtain act res where v: "v = (act, res)" by (cases v)
    have "r = Ret (Some (act, res))" "y = z" using run q Ret v by (auto simp: execute_or_ask_def catch_def bnd_def)
    moreover have "accounted act (xp_recorder z) \<and> heading (xp_recorder z) = h \<and> length (rc_events (xp_recorder z)) \<le> n"
    proof (cases act)
      case None
      then show ?thesis using e k Ret v by (simp add: executes_def kept_record_def)
    next
      case (Some a)
      then have a: "well_made (xp_recorder x) a" "xp_recorder z = extended (xp_recorder x) a" using e Ret v by (simp_all add: executes_def)
      have "accounted (Some a) (extended (xp_recorder x) a)" using extended_accounted [OF _ a(1)] k by (simp add: kept_record_def)
      then show ?thesis using k a(2) Some by (simp add: kept_record_def heading_def extended_def)
    qed
    moreover have "dd_action dn = Do_Finish \<longrightarrow> (\<exists>rr. res = receipt_result ''finished'' rr)"
      using finish_result q Ret v by blast
    ultimately show ?thesis by (simp add: ready_def)
  next
    case (Raise exc)
    let ?name = "exn_class (ag_names ag) exc"
    have z: "kept_record h n z" using e k Raise by (simp add: executes_def kept_record_def)
    then have rec: "accounted None (xp_recorder z)" "heading (xp_recorder z) = h" "length (rc_events (xp_recorder z)) \<le> n"
      by (simp_all add: kept_record_def)
    obtain c u where c: "record_cycle_of ag inputs ob dn None [(''status'', VStr ''failed''), (''error_type'', VStr ?name)] z = (c, u)"
      by (cases "record_cycle_of ag inputs ob dn None [(''status'', VStr ''failed''), (''error_type'', VStr ?name)] z")
    have u: "kept_record h (Suc n) u" "\<exists>ev. c = Ret ev" using cycle_recorded [OF rec c] by auto
    obtain b w where b: "request_intervention ag ?name ob (dd_action dn \<noteq> Do_Submit) u = (b, w)"
      by (cases "request_intervention ag ?name ob (dd_action dn \<noteq> Do_Submit) u")
    have w: "kept_record h (Suc n) w" using keepsD_run [OF keeps_intervention u(1) b] .
    have "y = w" "\<And>v. r \<noteq> Ret (Some v)"
      using run q Raise c u(2) b by (cases b; force simp: execute_or_ask_def catch_def bnd_def andthen_def Let_def split: if_splits)+
    then show ?thesis using w by (cases r) (auto simp: ready_def split: option.split)
  next
    case Died
    then have "r = Died" "y = z" using run q by (auto simp: execute_or_ask_def catch_def bnd_def)
    then show ?thesis using e k Died by (simp add: ready_def executes_def kept_record_def)
  qed
qed

text \<open>The last event is the confirmed end.\<close>

definition ended :: "recorder \<Rightarrow> bool" where
  "ended rc \<longleftrightarrow> (\<exists>es ev. rc_events rc = es @ [ev] \<and> dd_action (de_decision ev) = Do_Finish \<and> dict_val (de_result ev) ''money_moved'' = VBool True)"

lemma redacted_receipt: "dict_val (redact_pairs ss (receipt_result st rr)) ''money_moved'' = VBool (snd rr)"
proof -
  have k: "\<not> sensitive_key ''money_moved''" by code_simp
  show ?thesis unfolding receipt_result_def by (simp add: dict_val_def k)
qed

lemma keeps_decide:
  "triple (kept_record h n) (decide_or_ask ag ctx ob) (\<lambda>_. kept_record h n)"
proof -
  have "keeps (kept_record h n) (on_page p)" for p :: "('a system, 'b) prog" unfolding kept_record_def by (rule keeps_page)
  then show ?thesis unfolding keeps_triple [symmetric] decide_or_ask_def by (intro keeps_rules) 
qed

lemma cycle_kept:
  assumes "readable ag"
  shows "triple (kept_record h n) (discovery_cycle ag objective url inputs)
    (\<lambda>r y. kept_record h (Suc n) y \<and> (r = Ret True \<longrightarrow> ended (xp_recorder y)))" (is "triple ?P _ ?Q")
proof -
  have quiet: "triple ?P p (\<lambda>_. ?P)" if "\<And>R. keeps (\<lambda>x. xp_recorder x = R) p" for p :: "('a explorer, 'b) prog"
    using that by (auto simp: triple_def keeps_def kept_record_def split: prod.splits) (metis snd_conv)+
  have weak: "?P y \<Longrightarrow> ?Q (Raise e) y" "?P y \<Longrightarrow> ?Q Died y" "?P y \<Longrightarrow> ?Q (Ret False) y" for y e
    using kept_record_mono [of h n y "Suc n"] by simp_all
  have recorded: "triple (ready h n dn (Ret (Some (act, res)))) (andthen (record_cycle_of ag inputs ob dn act res)
      (if dd_action dn = Do_Finish
       then andthen (unless_raise (confirmed res) (ValueError ''Discovery cannot finish without a confirmed credit receipt'')) (ret True)
       else ret False)) ?Q" for ob dn act res
  proof (rule tripleI)
    fix x r y assume x: "ready h n dn (Ret (Some (act, res))) x" and run: "andthen (record_cycle_of ag inputs ob dn act res)
      (if dd_action dn = Do_Finish
       then andthen (unless_raise (confirmed res) (ValueError ''Discovery cannot finish without a confirmed credit receipt'')) (ret True)
       else ret False) x = (r, y)"
    obtain c z where c: "record_cycle_of ag inputs ob dn act res x = (c, z)" by (cases "record_cycle_of ag inputs ob dn act res x")
    have rec: "accounted act (xp_recorder x)" "heading (xp_recorder x) = h" "length (rc_events (xp_recorder x)) \<le> n"
      and fin: "dd_action dn = Do_Finish \<longrightarrow> (\<exists>rr. res = receipt_result ''finished'' rr)" using x by (simp_all add: ready_def)
    obtain ev where z: "kept_record h (Suc n) z" "c = Ret ev" "rc_events (xp_recorder z) = rc_events (xp_recorder x) @ [ev]"
      "de_decision ev = dn" "de_result ev = redact_pairs (sb_secrets (ag_scribe ag)) res"
      using cycle_recorded [OF rec c] by blast
    have y: "y = z" "r = Ret True \<longrightarrow> dd_action dn = Do_Finish \<and> confirmed res"
      using run c z(2) by (auto simp: andthen_def bnd_def unless_raise_def split: if_splits)
    have "ended (xp_recorder y)" if "r = Ret True"
    proof -
      obtain rr where rr: "res = receipt_result ''finished'' rr" "confirmed res" using y(2) fin \<open>r = Ret True\<close> by blast
      then have "snd rr" by (simp add: confirmed_def receipt_result_def dict_val_def)
      then show ?thesis using z(3,4,5) y \<open>r = Ret True\<close> rr(1) redacted_receipt by (auto simp: ended_def)
    qed
    then show "?Q r y" using z(1) y(1) by simp
  qed
  have execd: "triple ?P (bnd (execute_or_ask ag inputs url ob dn) (\<lambda>outcome. case outcome of
           None \<Rightarrow> ret False
         | Some (action, result) \<Rightarrow>
             andthen (record_cycle_of ag inputs ob dn action result) (
             if dd_action dn = Do_Finish
             then andthen (unless_raise (confirmed result) (ValueError ''Discovery cannot finish without a confirmed credit receipt'')) (ret True)
             else ret False))) ?Q" for ob dn
  proof (rule triple_bnd [OF execute_or_ask_ready [OF assms]])
    fix v :: "executed option"
    show "triple (ready h n dn (Ret v)) (case v of None \<Rightarrow> ret False | Some (action, result) \<Rightarrow>
             andthen (record_cycle_of ag inputs ob dn action result) (
             if dd_action dn = Do_Finish
             then andthen (unless_raise (confirmed result) (ValueError ''Discovery cannot finish without a confirmed credit receipt'')) (ret True)
             else ret False)) ?Q"
    proof (cases v)
      case None
      then show ?thesis by (simp add: triple_def ready_def)
    next
      case (Some p)
      then show ?thesis using recorded by (cases p) simp
    qed
  qed (simp_all add: ready_def)
  have decided: "triple ?P (bnd (decide_or_ask ag ctx ob) (\<lambda>decided. case decided of None \<Rightarrow> ret False | Some dn \<Rightarrow> k dn)) ?Q"
    if "\<And>dn. triple ?P (k dn) ?Q" for ctx ob k
    by (rule triple_bnd [OF keeps_decide]) (use weak that in \<open>auto simp: triple_def split: option.splits\<close>)
  show ?thesis unfolding discovery_cycle_def Let_def
  proof (rule triple_bnd [OF quiet])
    show "keeps (\<lambda>x. xp_recorder x = R) (on_page (observe (ag_sight ag)))" for R by (rule keeps_page)
  qed (use weak in \<open>auto intro!: triple_bnd [OF quiet] keeps_pure decided execd\<close>)
qed

lemma loop_kept:
  assumes "readable ag"
  shows "triple (kept_record h m) (discovery_loop ag objective url inputs n)
    (\<lambda>r y. kept_record h (m + n) y \<and> (r = Ret True \<longrightarrow> ended (xp_recorder y)))"
proof (induction n arbitrary: m)
  case 0
  then show ?case by (simp add: triple_def)
next
  case (Suc n)
  show ?case unfolding discovery_loop.simps
  proof (rule triple_bnd [OF cycle_kept [OF assms]])
    show "triple (\<lambda>y. kept_record h (Suc m) y \<and> (Ret finished = Ret True \<longrightarrow> ended (xp_recorder y)))
        (if finished then ret True else discovery_loop ag objective url inputs n)
        (\<lambda>r y. kept_record h (m + Suc n) y \<and> (r = Ret True \<longrightarrow> ended (xp_recorder y)))" for finished
    proof (cases finished)
      case True
      then show ?thesis using kept_record_mono [of h "Suc m" _ "m + Suc n"] by (auto simp: triple_def)
    next
      case False
      then show ?thesis using Suc.IH [of "Suc m"] by simp
    qed
  qed (use kept_record_mono [of h "Suc m" _ "m + Suc n"] in auto)
qed

lemma step_name_inj: "step_name m k = step_name n l \<Longrightarrow> m = n"
proof -
  have digits: "takeWhile is_digit (drop 5 (step_name i j)) = str_nat i" for i j
  proof -
    have "\<not> is_digit (CHR ''_'')" by code_simp
    then show ?thesis using str_nat_digits [of i] by (simp add: step_name_def fstr_def takeWhile_append2 list_all_iff)
  qed
  show "step_name m k = step_name n l \<Longrightarrow> m = n" using digits [of m k] digits [of n l] by (simp add: str_nat_inj)
qed

lemma accounted_distinct: "accounted e rc \<Longrightarrow> distinct (map at_step_id (rc_actions rc))"
proof -
  assume "accounted e rc"
  then have "\<exists>kind. at_step_id (rc_actions rc ! i) = step_name (Suc i) kind" if "i < length (rc_actions rc)" for i
    using that by (simp add: accounted_def)
  then show ?thesis by (auto simp: distinct_conv_nth) (metis step_name_inj nat.inject)
qed

lemma finalized:
  "finalize sb memo moved meta rc = (t, rc') \<Longrightarrow> dt_events t = rc_events rc \<and> dt_actions t = rc_actions rc \<and>
    dt_capability_id t = rc_capability_id rc \<and> dt_system t = rc_system rc \<and> dt_goal t = rc_goal rc \<and> dt_provider t = rc_provider rc"
  by (auto simp: finalize_def Let_def build_trace_def)

text \<open>
  C31: A trace that discovery returns is what happened, and the compiler can rely on it.  Its
  events number the cycles, at most as many as allowed, the last is the one that saw the
  confirmed receipt; its actions are exactly the executed actions of the events, in order
  and under distinct names; every navigation aims at the home of the surface.  So the
  compiler turns it away only if the receipt was gone when it was read for the trace.
\<close>

theorem returned_trace_is_faithful:
  assumes "readable ag" and "discover ag goal target inputs x = (Ret t, y)"
  shows "executed_actions (dt_events t) = dt_actions t \<and> distinct (map at_step_id (dt_actions t)) \<and>
    map de_cycle (dt_events t) = [1..<Suc (length (dt_events t))] \<and> length (dt_events t) \<le> ag_max_cycles ag \<and>
    (\<exists>es ev. dt_events t = es @ [ev] \<and> dd_action (de_decision ev) = Do_Finish \<and> dict_val (de_result ev) ''money_moved'' = VBool True) \<and>
    (\<forall>a \<in> set (dt_actions t). at_action a = ''NAVIGATE'' \<longrightarrow> at_semantic_target a = surface_home (dt_system t)) \<and>
    (dt_money_moved t \<and> opt_truthy (dt_discovered_memo t) \<and> ag_provider_name ag \<noteq> ''manual'' \<longrightarrow> admit_trace t = Inr ())"
proof -
  let ?rc = "\<lambda>typed. new_recorder (ag_scribe ag) ''core.post_provisional_credit'' goal ''core_bank''
        (ag_provider_name ag) (ag_provider_model ag) (ag_run_id ag) (ag_directory ag) (identifiers_of typed)"
  let ?h = "(''core.post_provisional_credit'', ''core_bank'', goal, ag_provider_name ag)"
  obtain typed z finished u memo moved v meta where z: "discovery_loop ag goal target typed (ag_max_cycles ag) (z\<lparr>xp_recorder := ?rc typed\<rparr>) = (Ret finished, u)"
    and fin: "finished" and v: "on_page (read_receipt (ag_browser ag)) u = (Ret (memo, moved), v)"
    and t: "recording (finalize (ag_scribe ag) memo moved meta) v = (Ret t, y)"
    using assms(2) unfolding discover_def by (auto simp: bnd_eq_Ret andthen_eq_Ret split: if_splits)
  have start: "kept_record ?h 0 (z\<lparr>xp_recorder := ?rc typed\<rparr>)"
    by (simp add: kept_record_def accounted_def new_recorder_def heading_def)
  have u: "kept_record ?h (ag_max_cycles ag) u" "ended (xp_recorder u)" using tripleD [OF loop_kept [OF assms(1)] start z] fin by simp_all
  have v: "xp_recorder v = xp_recorder u" using keepsD_run [OF keeps_page [of "\<lambda>R. R = xp_recorder u"] refl v] .
  have t: "dt_events t = rc_events (xp_recorder u)" "dt_actions t = rc_actions (xp_recorder u)" "dt_system t = rc_system (xp_recorder u)"
    "dt_provider t = rc_provider (xp_recorder u)"
    using t finalized v by (auto simp: recording_run split: prod.splits)
  have acc: "accounted None (xp_recorder u)" "heading (xp_recorder u) = ?h" "length (dt_events t) \<le> ag_max_cycles ag"
    using u(1) t(1) by (simp_all add: kept_record_def)
  have "map de_cycle (dt_events t) = [1..<Suc (length (dt_events t))]"
    using acc(1) t(1) by (intro nth_equalityI) (simp_all add: accounted_def del: upt_Suc)
  moreover have "executed_actions (dt_events t) = dt_actions t" using acc(1) t by (simp add: accounted_def)
  moreover have "distinct (map at_step_id (dt_actions t))" using accounted_distinct [OF acc(1)] t by simp
  moreover have "\<forall>a \<in> set (dt_actions t). at_action a = ''NAVIGATE'' \<longrightarrow> at_semantic_target a = surface_home (dt_system t)"
    using acc(1) t by (simp add: accounted_def)
  moreover have "dt_provider t = ag_provider_name ag" using acc(2) t(4) by (simp add: heading_def)
  ultimately show ?thesis using acc(3) u(2) t(1) by (auto simp: ended_def admit_trace_def)
qed

section \<open>What a decision may click\<close>

lemma keeps_on_page:
  assumes "keeps I p"
  shows "keeps (\<lambda>x. I (xp_system x)) (on_page p)"
  unfolding on_page_def by (rule keeps_on_part [OF _ _ assms]) simp_all

lemma keeps_recording: "keeps (\<lambda>x. I (xp_system x)) (recording f)"
  by (auto simp: keeps_def recording_def split: prod.splits)

lemma on_page_run: "on_page p x = (r, y) \<longleftrightarrow> (\<exists>s. p (xp_system x) = (r, s) \<and> y = x\<lparr>xp_system := s\<rparr>)"
  by (auto simp: on_page_def on_part_def split: prod.splits)

abbreviation clicked :: "nat \<Rightarrow> ('w \<times> nat) system \<Rightarrow> bool" where
  "clicked n \<equiv> seen_by (\<lambda>_ k. k = n)"

lemma click_at_most_once:
  assumes "ag_browser ag = watched_browser br"
  shows "triple (\<lambda>x. clicked n (xp_system x)) (click_decision ag dn sel loc) (\<lambda>_ x. acts (xp_system x) \<in> {n, Suc n})"
proof -
  let ?few = "\<lambda>x :: ('w \<times> nat) explorer. seen_by (\<lambda>_ k. k \<in> {n, Suc n}) (xp_system x)"
  have few: "?few x \<longleftrightarrow> acts (xp_system x) \<in> {n, Suc n}" for x by (simp add: seen_by_def)
  have frame: "keeps (\<lambda>x. clicked n (xp_system x)) (case dd_container_selector dn of
      Some (c # cs) \<Rightarrow> bnd (on_page (ask (br_inner_text (ag_browser ag) (fst loc, [c # cs])))) (\<lambda>t. ret (Some t)) | _ \<Rightarrow> ret None)"
    unfolding assms watched_calls by (auto split: option.splits list.splits intro!: keeps_rules keeps_on_page)
  have receipts: "keeps (seen_by I) (receipt_among (watched_browser br) vs)" for vs and I :: "execution_phase \<Rightarrow> nat \<Rightarrow> bool"
    by (induction vs) (auto simp: receipt_in_def Let_def intro!: keeps_rules)
  have tail: "keeps ?few (andthen (on_page (attempt (ask (br_wait_idle (ag_browser ag))) ())) (
     bnd (recording f) (\<lambda>a. bnd (on_page (read_receipt (ag_browser ag))) (\<lambda>r. ret (Some a, receipt_result ''executed'' r)))))" for f
    unfolding assms watched_calls read_receipt_def
    by (intro keeps_andthen keeps_bnd keeps_on_page keeps_recording keeps_rules receipts)
  have click: "triple (\<lambda>x. clicked n (xp_system x)) (on_page (ask (br_click (ag_browser ag) loc))) (\<lambda>_. ?few)"
    unfolding assms watched_calls
    by (rule tripleI) (auto simp: on_page_run ask_def on_world_def on_part_def watched_click_def seen_by_def split: prod.splits sum.splits if_splits)
  show ?thesis unfolding click_decision_def few [symmetric]
    by (rule triple_after [OF frame triple_andthen [OF click triple_keeps [OF tail]]]) (auto simp: seen_by_def)
qed

lemma guard_submission_run:
  assumes "guard_submission ag inputs dn sel s = (Ret (), s')"
  shows "\<exists>pf g raw form seen. ag_profile ag = Inr pf \<and> validate_policy pf inputs = Inr () \<and> cap_guard pf = Some g \<and>
    (form \<noteq> None \<longrightarrow> (\<exists>loc. answered_by (br_submission (ag_browser ag) loc) form)) \<and>
    record_of_submission (or_else (dd_container_selector dn) []) raw form = Inr seen \<and> check_submission g inputs seen = Inr ()"
proof -
  obtain pf g where pf: "ag_profile ag = Inr pf" "validate_policy pf inputs = Inr ()" "cap_guard pf = Some g"
    and v: "verify_control_scoped_guard (ag_browser ag) None (scoped_profile pf g dn) inputs (dd_frame_selector dn)
          (Some [sel]) ''Mutating submit control'' s = (Ret (), s')"
    using assms by (auto simp: guard_submission_def bnd_eq_Ret andthen_eq_Ret split: option.splits)
  then obtain seen t where "observe_container (ag_browser ag) None (or_else (dd_container_selector dn) []) (dd_frame_selector dn) (Some [sel])
       ''Mutating submit control'' s = (Ret seen, t)"
    and c: "check_submission (g\<lparr>g_container_selector := or_else (dd_container_selector dn) []\<rparr>) inputs seen = Inr ()"
    by (auto simp: verify_control_scoped_guard_def scoped_profile_def bnd_eq_Ret)
  then obtain raw form where "record_of_submission (or_else (dd_container_selector dn) []) raw form = Inr seen"
    and "form \<noteq> None \<longrightarrow> (\<exists>loc. answered_by (br_submission (ag_browser ag) loc) form)"
    by (elim observed_form) (auto simp: container_selector_def)
  moreover have "check_submission g inputs seen = Inr ()" using c by (simp add: check_submission_def)
  ultimately show ?thesis using pf by blast
qed

text \<open>
  C30: Discovery clicks no more than a replay would.  A decision on a control clicks at most
  once, a filling never; a click needs a control that the policy admits for the action;
  and a submission clicks only after the inputs passed the policy and the guard has read
  a form that submits exactly the inputs: case, member, account, currency, institution
  and the amount to the cent.
\<close>

theorem discovery_clicks_are_admitted:
  assumes "ag_browser ag = watched_browser br" and "dd_action dn \<in> {Do_Fill, Do_Click, Do_Submit}"
    and "execute_decision ag inputs url dn x = (r, y)"
  shows "acts (xp_system y) \<le> Suc (acts (xp_system x)) \<and>
    (acts (xp_system y) \<noteq> acts (xp_system x) \<longrightarrow>
      dd_action dn \<noteq> Do_Fill \<and>
      (\<exists>sel info. dd_selector dn = Some sel \<and> answered_by (br_control_info (ag_browser ag) (view_of (dd_frame_selector dn), [sel])) info \<and>
         authorize_control (ag_settings ag) info (discovery_action_value (dd_action dn)) False = Inr ()) \<and>
      (dd_action dn = Do_Submit \<longrightarrow> (\<exists>pf g (form :: submission) due v seen. ag_profile ag = Inr pf \<and> validate_policy pf inputs = Inr () \<and> cap_guard pf = Some g \<and>
         (\<exists>loc. answered_by (br_submission (ag_browser ag) loc) (Some form)) \<and> submits inputs (sub_values form) ''case_id'' (g_case_template g) \<and> submits inputs (sub_values form) ''member_id'' (g_member_template g) \<and>
         submits inputs (sub_values form) ''account_id'' (g_account_template g) \<and> submits inputs (sub_values form) ''currency'' (g_currency_template g) \<and>
         submits inputs (sub_values form) ''institution_id'' (g_institution_template g) \<and> submitted (sub_values form) ''amount'' = [v] \<and>
         parse_money (VStr (strip v)) = Inr seen \<and>
         parse_money (VStr (strip (render_template (g_amount_template g) inputs))) = Inr due \<and> cents seen = cents due)))"
proof -
  let ?n = "acts (xp_system x)" and ?same = "\<lambda>z :: ('a \<times> nat) explorer. clicked (acts (xp_system x)) (xp_system z)"
  have same: "?same z \<longleftrightarrow> acts (xp_system z) = ?n" for z by (simp add: seen_by_def)
  have run: "control_decision ag inputs dn x = (r, y)" using assms(2,3) by (auto simp: execute_decision_def split: discovery_action.splits)
  show ?thesis
  proof (cases "dd_selector dn")
    case None
    then show ?thesis using run by (simp add: control_decision_def)
  next
    case (Some sel)
    let ?loc = "(view_of (dd_frame_selector dn), [sel])"
    let ?guard = "if dd_action dn = Do_Submit then on_page (guard_submission ag inputs dn sel) else ret ()"
    let ?act = "if dd_action dn = Do_Fill then fill_decision ag inputs dn sel ?loc else click_decision ag dn sel ?loc"
    have run: "andthen (on_page (admit_discovery_control ag dn ?loc)) (andthen ?guard ?act) x = (r, y)"
      using run unfolding control_decision_def Some option.case Let_def .
    have k1: "keeps ?same (on_page (admit_discovery_control ag dn ?loc))"
      unfolding admit_discovery_control_def assms(1) watched_calls by (intro keeps_on_page keeps_rules)
    have k2: "keeps ?same ?guard"
      unfolding guard_submission_def assms(1) by (intro keeps_if keeps_on_page keeps_rules watched_page.keeps_guard)
    obtain r1 z1 where r1: "on_page (admit_discovery_control ag dn ?loc) x = (r1, z1)" by (cases "on_page (admit_discovery_control ag dn ?loc) x")
    have z1: "acts (xp_system z1) = ?n" using keepsD_run [OF k1 _ r1] by (simp add: same)
    show ?thesis
    proof (cases r1)
      case (Ret u1)
      obtain r2 z2 where r2: "?guard z1 = (r2, z2)" by (cases "?guard z1")
      have z2: "acts (xp_system z2) = ?n" using keepsD_run [OF k2 _ r2] z1 by (simp add: same)
      have admitted: "\<exists>info. answered_by (br_control_info (ag_browser ag) ?loc) info \<and>
          authorize_control (ag_settings ag) info (discovery_action_value (dd_action dn)) False = Inr ()"
        using r1 Ret by (fastforce simp: on_page_run admit_discovery_control_def bnd_eq_Ret andthen_eq_Ret dest: ask_answered)
      show ?thesis
      proof (cases r2)
        case (Ret u2)
        then have act: "?act z2 = (r, y)" using run r1 r2 \<open>r1 = Ret u1\<close> by (simp add: andthen_run(1))
        show ?thesis
        proof (cases "dd_action dn = Do_Fill")
          case True
          have kf: "keeps ?same (fill_decision ag inputs dn sel ?loc)"
            unfolding fill_decision_def Let_def assms(1) watched_calls
            by (intro keeps_option keeps_andthen keeps_bnd keeps_on_page keeps_recording keeps_rules)
          have "acts (xp_system y) = ?n" using keepsD_run [OF kf _ act [unfolded if_P [OF True]]] z2 by (simp add: same)
          then show ?thesis by simp
        next
          case False
          have "acts (xp_system y) \<in> {?n, Suc ?n}"
            using tripleD [OF click_at_most_once [OF assms(1)] _ act [unfolded if_not_P [OF False]]] z2 by (simp add: same)
          moreover have "\<exists>pf g (form :: submission) due v seen. ag_profile ag = Inr pf \<and> validate_policy pf inputs = Inr () \<and> cap_guard pf = Some g \<and>
             (\<exists>loc. answered_by (br_submission (ag_browser ag) loc) (Some form)) \<and> submits inputs (sub_values form) ''case_id'' (g_case_template g) \<and> submits inputs (sub_values form) ''member_id'' (g_member_template g) \<and>
             submits inputs (sub_values form) ''account_id'' (g_account_template g) \<and> submits inputs (sub_values form) ''currency'' (g_currency_template g) \<and>
             submits inputs (sub_values form) ''institution_id'' (g_institution_template g) \<and> submitted (sub_values form) ''amount'' = [v] \<and>
             parse_money (VStr (strip v)) = Inr seen \<and>
             parse_money (VStr (strip (render_template (g_amount_template g) inputs))) = Inr due \<and> cents seen = cents due"
            if "dd_action dn = Do_Submit"
          proof -
            have "guard_submission ag inputs dn sel (xp_system z1) = (Ret (), xp_system z2)"
              using r2 Ret that by (auto simp: on_page_run)
            then obtain pf g raw form seen where g: "ag_profile ag = Inr pf" "validate_policy pf inputs = Inr ()" "cap_guard pf = Some g"
              "form \<noteq> None \<longrightarrow> (\<exists>loc. answered_by (br_submission (ag_browser ag) loc) form)"
              "record_of_submission (or_else (dd_container_selector dn) []) raw form = Inr seen" "check_submission g inputs seen = Inr ()"
              using guard_submission_run by blast
            obtain f where f: "form = Some f" using passed_guard_has_form [OF g(5,6)] by blast
            note b = passed_guard_reads_form [OF g(5) [unfolded f] g(6)]
            then obtain v sent due where "submitted (sub_values f) ''amount'' = [v]" "parse_money (VStr (strip v)) = Inr sent"
              "parse_money (VStr (strip (render_template (g_amount_template g) inputs))) = Inr due" "cents sent = cents due" by blast
            then show ?thesis using g(1-4) b f by blast
          qed
          ultimately show ?thesis using False admitted Some by auto
        qed
      qed (use run r1 r2 \<open>r1 = Ret u1\<close> z2 in \<open>simp_all add: andthen_def bnd_def\<close>)
    qed (use run r1 z1 in \<open>simp_all add: andthen_def bnd_def\<close>)
  qed
qed

section \<open>The evidence of an intervention\<close>

lemma texts_member: "(k, VStr s) \<in> set d \<Longrightarrow> s \<in> set (texts_pairs d)"
  by (induction d) auto

lemma nested_text: "(k, VDict e) \<in> set d \<Longrightarrow> s \<in> set (texts_pairs e) \<Longrightarrow> s \<in> set (texts_pairs d)"
  by (induction d) auto

text \<open>
  A request for a human shows who the case is about.  The other evidence of a session is
  written with the member and the account masked; \<open>intervention.json\<close> is only redacted by
  key and pattern, so whatever the page said, identifiers included, stands in it unmasked.
\<close>

theorem intervention_evidence_unmasked:
  assumes "request_intervention ag reason ob can_resume x = (r, y)" and "rc_directory (xp_recorder x) \<noteq> None"
  shows "\<exists>v. map_of (rc_files (xp_recorder y)) ''intervention.json'' = Some v \<and>
    redact_text (sb_secrets (ag_scribe ag)) (ob_body_text ob) \<in> set (texts v)"
proof -
  let ?ss = "sb_secrets (ag_scribe ag)"
  let ?request = "intervention_request (xp_recorder x) reason ob can_resume"
  let ?v = "redact_secrets ?ss (VDict ?request)"
  let ?f = "\<lambda>rc. ((), write_file ''intervention.json'' ?v rc)"
  let ?k = "case ag_intervene ag of Some handler \<Rightarrow> if can_resume then on_page (handler ?request) else ret False | None \<Rightarrow> ret False"
  obtain z where z: "recording ?f x = (Ret (), z)" "xp_recorder z = write_file ''intervention.json'' ?v (xp_recorder x)"
    by (simp add: recording_def)
  have run: "?k z = (r, y)" using assms(1) z(1) by (simp add: request_intervention_def Let_def andthen_def bnd_def)
  have "keeps (\<lambda>x. xp_recorder x = xp_recorder z) ?k" by (intro keeps_option keeps_if keeps_rules keeps_page)
  then have "xp_recorder y = xp_recorder z" using run by (auto simp: keeps_def)
  then have written: "map_of (rc_files (xp_recorder y)) ''intervention.json'' = Some ?v"
    using z(2) assms(2) by (simp add: write_file_def update_conv)
  have keys: "\<not> sensitive_key ''state''" "\<not> sensitive_key ''body_text''" by code_simp+
  have pairs: "(k, v) \<in> set d \<Longrightarrow> \<not> sensitive_key k \<Longrightarrow> (k, redact_secrets ?ss v) \<in> set (redact_pairs ?ss d)" for k v d
    by (induction d) auto
  let ?body = "redact_text ?ss (ob_body_text ob)"
  have "(''body_text'', redact_secrets ?ss (VStr (ob_body_text ob))) \<in> set (redact_pairs ?ss (dump_observation ob))"
    by (rule pairs [OF _ keys(2)]) (simp add: dump_observation_def)
  then have inner: "?body \<in> set (texts_pairs (redact_pairs ?ss (dump_observation ob)))" using texts_member by simp
  have "(''state'', redact_secrets ?ss (VDict (dump_observation ob))) \<in> set (redact_pairs ?ss ?request)"
    by (rule pairs [OF _ keys(1)]) (simp add: intervention_request_def)
  then have "?body \<in> set (texts_pairs (redact_pairs ?ss ?request))" using nested_text [OF _ inner] by simp
  then show ?thesis using written by simp
qed

end
