(* ===== verification/DiscoverySamples.thy ===== *)
theory DiscoverySamples
  imports Discovery
begin

text \<open>
  The properties of discovery on concrete runs: a provider that finishes at once on a
  page that shows the receipt, a click on a link of the bank, a model that is overloaded
  twice, and a trace that is compiled and loaded again.
\<close>

section \<open>A session\<close>

definition receipt_browser :: "bool browser" where
  "receipt_browser = (sample_browser ''MONEY_MOVED=TRUE'')\<lparr>br_count := (\<lambda>l w. (Inr 1, w)),
     br_control_info := (\<lambda>l w. (Inr \<lparr>ci_href = Some ''http://127.0.0.1:8001/'', ci_action = None, ci_method = None, ci_submit = False\<rparr>, w))\<rparr>"

definition empty_sight :: "'w sight" where
  "empty_sight = \<lparr>sg_url = (\<lambda>w. (Inr ''http://127.0.0.1:8001/'', w)), sg_title = (\<lambda>w. (Inr ''Bank'', w)), sg_frames = (\<lambda>w. (Inr [], w)),
     sg_main = 0, sg_host = (\<lambda>f w. (Inr (None, None), w)), sg_aria = (\<lambda>f w. (Inr [], w)), sg_body = (\<lambda>f w. (Inr [], w)),
     sg_count = (\<lambda>f w. (Inr 0, w)), sg_summary = (\<lambda>f i w. (Inr [], w)), sg_frame_url = (\<lambda>f w. (Inr [], w)),
     sg_screenshot = (\<lambda>ids w. (Inr ''png'', w))\<rparr>"

definition decision_to :: "discovery_action \<Rightarrow> decision" where
  "decision_to a = \<lparr>dd_action = a, dd_semantic_target = ''Home link'', dd_selector = Some ''a'', dd_locator_candidates = [],
     dd_frame_selector = None, dd_input_name = None, dd_target_url = None, dd_container_selector = None, dd_is_mutating = False,
     dd_guard_ref = None, dd_rationale = ''look''\<rparr>"

definition read_profile :: capability where
  "read_profile = chargeback_capability\<lparr>cap_effect := chargeback_effect\<lparr>ef_class := READ\<rparr>\<rparr>"

definition finishing_agent :: "(bool \<times> nat) agent" where
  "finishing_agent = \<lparr>ag_browser = watched_browser receipt_browser, ag_sight = empty_sight, ag_settings = default_settings,
     ag_scribe = \<lparr>sb_now = str_nat, sb_secrets = [], sb_enum = id\<rparr>, ag_names = id, ag_profile = Inr read_profile,
     ag_provider_name = ''gemini'', ag_provider_model = ''gemini-3.6-flash'', ag_decide = (\<lambda>ctx. ret (decision_to Do_Finish)),
     ag_intervene = None, ag_max_cycles = 3, ag_run_id = ''run-1'', ag_directory = Some ''evidence/run-1''\<rparr>"

definition some_recorder :: recorder where
  "some_recorder = new_recorder \<lparr>sb_now = str_nat, sb_secrets = [], sb_enum = id\<rparr> ''c'' ''g'' ''core_bank'' ''p'' ''m'' ''run-1'' (Some ''evidence'') []"

definition explorer :: "(bool \<times> nat) explorer" where
  "explorer = \<lparr>xp_system = sample_system (False, 0), xp_recorder = some_recorder\<rparr>"

lemma agent_fields [simp]:
  "ag_browser finishing_agent = watched_browser receipt_browser" "ag_sight finishing_agent = empty_sight"
  "ag_settings finishing_agent = default_settings" "ag_profile finishing_agent = Inr read_profile"
  "ag_decide finishing_agent ctx = ret (decision_to Do_Finish)" "ag_max_cycles finishing_agent = 3"
  "ag_intervene finishing_agent = None"
  by (simp_all add: finishing_agent_def)

lemma receipt_calls [simp]:
  "br_count receipt_browser l w = (Inr 1, w)" "br_is_visible receipt_browser l t w = (Inr True, w)"
  "br_text_content receipt_browser l w = (Inr (Some ''MONEY_MOVED=TRUE''), w)" "br_frames receipt_browser w = (Inr [Page], w)"
  "br_wait_idle receipt_browser w = (Inr (), w)" "br_click receipt_browser l w = (Inr (), w)" "br_route_navigation receipt_browser w = (Inr (), w)"
  "br_control_info receipt_browser l w = (Inr \<lparr>ci_href = Some ''http://127.0.0.1:8001/'', ci_action = None, ci_method = None, ci_submit = False\<rparr>, w)"
  by (simp_all add: receipt_browser_def sample_browser_def)

text \<open>A call that only looks.\<close>

lemma looking: "(\<And>w. f w = (Inr v, w)) \<Longrightarrow> ask (lifted f) x = (Ret v, x)"
  by (cases x) (auto simp: ask_def on_world_def on_part_def lifted_def split: prod.splits)

lemma bnd_look: "(\<And>w. f w = (Inr v, w)) \<Longrightarrow> bnd (ask (lifted f)) k x = k v x"
  by (simp add: bnd_def looking)

lemma attempt_Ret: "p x = (Ret v, y) \<Longrightarrow> attempt p d x = (Ret v, y)"
  by (simp add: attempt_def catch_def)

lemma moved_texts: "strip ''MONEY_MOVED=TRUE'' = ''MONEY_MOVED=TRUE''" "contains ''MONEY_MOVED=TRUE'' ''MONEY_MOVED=TRUE''"
  by code_simp+

lemma sample_receipt: "read_receipt (watched_browser receipt_browser) x = (Ret (Some ''MONEY_MOVED=TRUE'', True), x)"
proof -
  note looks = bnd_look [OF receipt_calls(1)] bnd_look [OF receipt_calls(2)] bnd_look [OF receipt_calls(3)] bnd_look [OF receipt_calls(4)]
  have "receipt_in (watched_browser receipt_browser) Page x = (Ret (Some (Some ''MONEY_MOVED=TRUE'', True)), x)"
    unfolding receipt_in_def Let_def by (rule attempt_Ret) (simp add: looks moved_texts)
  then show ?thesis unfolding read_receipt_def by (simp add: looks bnd_run(1))
qed

lemma readable_sample: "readable finishing_agent"
  by (auto simp: readable_def lifted_def empty_sight_def split: prod.splits)

lemma click_on_link:
  "\<exists>a res y. execute_decision finishing_agent [] url (decision_to Do_Click) explorer = (Ret (Some a, res), y) \<and> acts (xp_system y) = 1"
proof -
  have info: "authorize_control default_settings \<lparr>ci_href = Some ''http://127.0.0.1:8001/'', ci_action = None, ci_method = None, ci_submit = False\<rparr>
      ''CLICK'' False = Inr ()"
    by (simp add: authorize_control_def opt_truthy_def authorize_url_def urlsplit_def is_alpha_char_def scheme_char_def
        lower_def ascii_lower_def method_of_def allowed_routes_def read_routes_def core_bank_url_def core_bank_2_url_def
        service_url_def default_settings_def fstr_def str_nat.simps Let_def)
  let ?dn = "decision_to Do_Click" and ?loc = "(Page, [''a''])"
  have dn: "dd_action ?dn = Do_Click" "dd_selector ?dn = Some ''a''" "dd_frame_selector ?dn = None" "dd_container_selector ?dn = None"
    by (simp_all add: decision_to_def)
  have admit: "admit_discovery_control finishing_agent ?dn ?loc s = (Ret (), s)" for s
    unfolding admit_discovery_control_def agent_fields watched_calls dn
    by (simp add: bnd_look [OF receipt_calls(1)] bnd_look [OF receipt_calls(8)] unless_raise_def info)
  have click: "ask (watched_click receipt_browser ?loc) s = (Ret (), s\<lparr>sy_world := (fst (sy_world s), Suc (snd (sy_world s)))\<rparr>)"
    for s :: "(bool \<times> nat) system"
    by (cases "sy_world s") (simp add: ask_def on_world_def on_part_def watched_click_def)
  have idle: "attempt (ask (lifted (br_wait_idle receipt_browser))) () s = (Ret (), s)" for s
    by (rule attempt_Ret [OF looking]) simp
  obtain a rc where kept: "record_click (ag_scribe finishing_agent) ''a'' (Some (dd_semantic_target ?dn)) None (dd_locator_candidates ?dn)
      None None False (dd_guard_ref ?dn) some_recorder = (a, rc)"
    by (cases "record_click (ag_scribe finishing_agent) ''a'' (Some (dd_semantic_target ?dn)) None (dd_locator_candidates ?dn)
      None None False (dd_guard_ref ?dn) some_recorder")
  let ?s = "(sample_system (False, 0))\<lparr>sy_world := (False, Suc 0)\<rparr> :: (bool \<times> nat) system"
  let ?x = "\<lparr>xp_system = ?s, xp_recorder = some_recorder\<rparr>"
  let ?y = "\<lparr>xp_system = ?s, xp_recorder = rc\<rparr>"
  have clicked: "on_page (ask (watched_click receipt_browser ?loc)) explorer = (Ret (), ?x)"
    by (simp add: on_page_run click explorer_def sample_system_def)
  have idled: "on_page (attempt (ask (lifted (br_wait_idle receipt_browser))) ()) ?x = (Ret (), ?x)"
    by (simp add: on_page_run idle)
  have recorded: "recording (record_click (ag_scribe finishing_agent) ''a'' (Some (dd_semantic_target ?dn)) None (dd_locator_candidates ?dn)
      None None False (dd_guard_ref ?dn)) ?x = (Ret a, ?y)"
    by (simp add: recording_def kept)
  have receipt: "on_page (read_receipt (watched_browser receipt_browser)) ?y
      = (Ret (Some ''MONEY_MOVED=TRUE'', True), ?y)"
    by (simp add: on_page_run sample_receipt)
  have "click_decision finishing_agent ?dn ''a'' ?loc explorer
      = (Ret (Some a, receipt_result ''executed'' (Some ''MONEY_MOVED=TRUE'', True)), ?y)"
    unfolding click_decision_def agent_fields watched_calls dn
    by (simp add: andthen_def bnd_def clicked idled recorded receipt)
  moreover have "on_page (admit_discovery_control finishing_agent ?dn ?loc) explorer = (Ret (), explorer)"
    by (simp add: on_page_run admit)
  ultimately have "execute_decision finishing_agent [] url ?dn explorer
      = (Ret (Some a, receipt_result ''executed'' (Some ''MONEY_MOVED=TRUE'', True)), ?y)"
    by (simp add: execute_decision_def control_decision_def dn view_of_def Let_def andthen_def bnd_def)
  moreover have "acts (xp_system ?y) = 1" by simp
  ultimately show ?thesis by blast
qed

lemma discovery_clicks_are_admitted_witness:
  "\<exists>y. (\<exists>r. execute_decision finishing_agent [] (core_bank_url default_settings) (decision_to Do_Click) explorer = (r, y)) \<and> acts (xp_system y) = 1 \<and>
     (\<exists>sel info. dd_selector (decision_to Do_Click) = Some sel \<and> answered_by (br_control_info (ag_browser finishing_agent) (Page, [sel])) info \<and>
        authorize_control default_settings info ''CLICK'' False = Inr ())"
proof -
  obtain a res y where run: "execute_decision finishing_agent [] (core_bank_url default_settings) (decision_to Do_Click) explorer = (Ret (Some a, res), y)"
    and acts: "acts (xp_system y) = 1"
    using click_on_link by blast
  have "acts (xp_system explorer) = 0" by (simp add: explorer_def sample_system_def)
  then show ?thesis
    using discovery_clicks_are_admitted [OF agent_fields(1) _ run] run acts by (auto simp: decision_to_def view_of_def)
qed

lemma intervention_evidence_unmasked_witness:
  "\<exists>r y v. request_intervention finishing_agent ''MAX_CYCLES'' \<lparr>ob_url = [], ob_title = [], ob_body_text = ''member 8830142'',
       ob_interactive_elements = [], ob_frame_summaries = [], ob_accessibility_trees = []\<rparr> False explorer = (r, y) \<and>
     map_of (rc_files (xp_recorder y)) ''intervention.json'' = Some v \<and> ''member 8830142'' \<in> set (texts v)"
proof -
  let ?ob = "\<lparr>ob_url = [], ob_title = [], ob_body_text = ''member 8830142'', ob_interactive_elements = [], ob_frame_summaries = [],
    ob_accessibility_trees = []\<rparr> :: observation"
  obtain r y where run: "request_intervention finishing_agent ''MAX_CYCLES'' ?ob False explorer = (r, y)"
    by (cases "request_intervention finishing_agent ''MAX_CYCLES'' ?ob False explorer")
  have kept: "redact_text [] ''member 8830142'' = ''member 8830142''" by code_simp
  have "rc_directory (xp_recorder explorer) \<noteq> None" by (simp add: explorer_def some_recorder_def new_recorder_def)
  then show ?thesis using intervention_evidence_unmasked [OF run] run kept by (auto simp: finishing_agent_def)
qed

section \<open>A whole session\<close>

lemma asking: "(\<And>w. f w = (Inr v, w)) \<Longrightarrow> ask f x = (Ret v, x)"
  by (cases x) (auto simp: ask_def on_world_def on_part_def)

lemma sight_calls [simp]:
  "sg_title empty_sight w = (Inr ''Bank'', w)" "sg_frames empty_sight w = (Inr [], w)" "sg_url empty_sight w = (Inr ''http://127.0.0.1:8001/'', w)"
  "sg_screenshot empty_sight ids w = (Inr ''png'', w)"
  by (simp_all add: empty_sight_def)

lemma sample_observation: "\<exists>ob. observe empty_sight s = (Ret ob, s)"
proof -
  have "attempt (ask (sg_title empty_sight)) [] s = (Ret ''Bank'', s)" by (rule attempt_Ret [OF asking]) simp
  then show ?thesis by (simp add: observe_def bnd_def asking [of "sg_frames empty_sight" "[]"] asking [of "sg_url empty_sight" "''http://127.0.0.1:8001/''"])
qed

lemma sample_picture: "safe_screenshot finishing_agent ids s = (Ret (Some ''png''), s)"
  unfolding safe_screenshot_def by (rule attempt_Ret) (simp add: bnd_def asking [of "sg_screenshot empty_sight ids" "''png''"])

lemma sample_cycle: "\<exists>rc. discovery_cycle finishing_agent goal url inputs x = (Ret True, x\<lparr>xp_recorder := rc\<rparr>)"
proof -
  let ?res = "receipt_result ''finished'' (Some ''MONEY_MOVED=TRUE'', True)"
  have same: "x\<lparr>xp_system := xp_system x\<rparr> = x" by (cases x) simp
  obtain ob where "observe empty_sight (xp_system x) = (Ret ob, xp_system x)" using sample_observation by blast
  then have o: "on_page (observe empty_sight) x = (Ret ob, x)" by (simp add: on_page_run same)
  have d: "decide_or_ask finishing_agent ctx b x = (Ret (Some (decision_to Do_Finish)), x)" for ctx b
    by (simp add: decide_or_ask_def catch_def bnd_def on_page_def on_part_def same)
  have "on_page (read_receipt (watched_browser receipt_browser)) x = (Ret (Some ''MONEY_MOVED=TRUE'', True), x)"
    by (simp add: on_page_run sample_receipt same)
  then have "execute_decision finishing_agent inputs url (decision_to Do_Finish) x = (Ret (None, ?res), x)"
    by (simp add: execute_decision_def finish_decision_def bnd_def decision_to_def)
  then have e: "execute_or_ask finishing_agent inputs url b (decision_to Do_Finish) x = (Ret (Some (None, ?res)), x)" for b
    by (simp add: execute_or_ask_def catch_def bnd_def)
  have r: "\<exists>ev rc. record_cycle_of finishing_agent inputs b dn None ?res x = (Ret ev, x\<lparr>xp_recorder := rc\<rparr>)" for b dn
    by (auto simp: record_cycle_of_def bnd_def on_page_def on_part_def sample_picture same recording_def split: prod.splits)
  have c: "confirmed ?res" by (simp add: confirmed_def receipt_result_def dict_val_def opt_val_def)
  let ?b = "sanitize_observation (sb_secrets (ag_scribe finishing_agent)) ob"
  obtain ev rc where "record_cycle_of finishing_agent inputs ?b (decision_to Do_Finish) None ?res x = (Ret ev, x\<lparr>xp_recorder := rc\<rparr>)"
    using r by blast
  then have "discovery_cycle finishing_agent goal url inputs x = (Ret True, x\<lparr>xp_recorder := rc\<rparr>)"
    using c by (simp add: discovery_cycle_def Let_def bnd_def andthen_def o d e unless_raise_def) (simp add: decision_to_def)
  then show ?thesis by blast
qed

definition session_inputs :: dict where
  "session_inputs = [(''member_id'', VStr ''8830142''), (''case_id'', VStr ''D-1''), (''amount'', money_val (Money False 34000))]"

lemma sample_session: "\<exists>t y. discover finishing_agent ''post the credit'' (core_bank_url default_settings) session_inputs explorer = (Ret t, y)"
proof -
  let ?url = "core_bank_url default_settings"
  have "digit_char 8 = CHR ''8''" "digit_char 0 = CHR ''0''" "digit_char (Suc 0) = CHR ''1''"
    by (simp_all add: digit_char_def char_of_def bit_0)
  then have n: "str_nat 8001 = ''8001''" by (simp add: str_nat.simps)
  have url: "?url = ''http://127.0.0.1:8001''"
    by (simp add: core_bank_url_def service_url_def default_settings_def fstr_def n)
  have "su_netloc (urlsplit ?url) = ''127.0.0.1:8001''"
    unfolding url by (simp add: urlsplit_def is_alpha_char_def scheme_char_def lower_def ascii_lower_def Let_def)
  moreover have "host_and_port ''127.0.0.1:8001'' = (''127.0.0.1'', ''8001'')"
    by (simp add: host_and_port_def after_last_def partition_at_def Let_def)
  moreover have "port_of ''8001'' = Inr (Some 8001)"
    using str_nat_digits [of 8001] digits_value_str_nat [of 8001] unfolding n by (simp add: port_of_def)
  ultimately have origin: "\<exists>o'. origin ?url = Inr o'" by (simp add: origin_def)
  have "parse_money (money_val (Money False 34000)) = Inr (Money False 34000)" by (rule parse_money_val) (simp add: max_money_cents_def)
  then obtain typed where typed: "typed_inputs session_inputs = Inr typed"
    by (simp add: typed_inputs_def session_inputs_def required_inputs_def dict_get_def dict_val_def)
  have policy: "validate_policy read_profile typed = Inr ()" by (simp add: validate_policy_def read_profile_def)
  have routed: "on_page (ask (lifted (br_route_navigation receipt_browser))) explorer = (Ret (), explorer)"
    by (simp add: on_page_run looking [of "br_route_navigation receipt_browser" "()"] explorer_def)
  have "strip ''post the credit'' \<noteq> []" "strip ?url \<noteq> []"
    by (simp_all add: strip_def lstrip_def is_space_def core_bank_url_def service_url_def fstr_def)
  then have admit: "admit_discovery finishing_agent ''post the credit'' ?url session_inputs explorer = (Ret typed, explorer)"
    using origin by (auto simp: admit_discovery_def andthen_def bnd_def unless_raise_def routed typed policy)
  let ?x = "\<lambda>rc. explorer\<lparr>xp_recorder := rc\<rparr>"
  have loop: "\<exists>rc'. discovery_loop finishing_agent ''post the credit'' ?url typed 3 (?x rc) = (Ret True, ?x rc')" for rc
    unfolding numeral_3_eq_3 discovery_loop.simps(2) [of _ _ _ _ "Suc (Suc 0)"]
    using sample_cycle [of "''post the credit''" ?url typed "?x rc"] by (auto simp: bnd_def)
  have receipt: "on_page (read_receipt (watched_browser receipt_browser)) (?x rc) = (Ret (Some ''MONEY_MOVED=TRUE'', True), ?x rc)" for rc
    by (simp add: on_page_run sample_receipt explorer_def)
  have "\<exists>t y. recording (finalize sb m mv md) x = (Ret t, y)" for sb m mv md and x :: "(bool \<times> nat) explorer"
    by (simp add: recording_def split: prod.split)
  then show ?thesis
    using loop [of "new_recorder (ag_scribe finishing_agent) ''core.post_provisional_credit'' ''post the credit'' ''core_bank''
        (ag_provider_name finishing_agent) (ag_provider_model finishing_agent) (ag_run_id finishing_agent) (ag_directory finishing_agent) (identifiers_of typed)"]
    by (auto simp: discover_def andthen_def bnd_def admit receipt)
qed

lemma returned_trace_is_faithful_witness:
  "\<exists>t. fst (discover finishing_agent ''post the credit'' (core_bank_url default_settings) session_inputs explorer) = Ret t \<and>
     executed_actions (dt_events t) = dt_actions t \<and> length (dt_events t) \<le> 3"
proof -
  obtain t y where t: "discover finishing_agent ''post the credit'' (core_bank_url default_settings) session_inputs explorer = (Ret t, y)"
    using sample_session by blast
  then show ?thesis using returned_trace_is_faithful [OF readable_sample t] by simp
qed

section \<open>A model\<close>

definition prompt_client :: "nat llm_client" where
  "prompt_client = \<lparr>lc_post = (\<lambda>url h payload w. (Inr \<lparr>la_status = 200, la_json = Inr (VDict [(''output_text'', VStr ''finish'')])\<rparr>, Suc w)),
     lc_is_request_error = (\<lambda>_. True), lc_schema = [(''properties'', VDict [])], lc_parse_decision = (\<lambda>t. Inr (decision_to Do_Finish)),
     lc_dump_json = py_str\<rparr>"

definition sample_context :: discovery_context where
  "sample_context = \<lparr>dc_objective = ''post the credit'', dc_inputs = [], dc_observation = \<lparr>ob_url = [], ob_title = [], ob_body_text = [],
     ob_interactive_elements = [], ob_frame_summaries = [], ob_accessibility_trees = []\<rparr>, dc_prior_events = [], dc_allowed_surfaces = []\<rparr>"

lemma prompt_run:
  "\<exists>y. provider_decide (recorded_client prompt_client) (OpenAI \<lparr>oa_api_key = ''k'', oa_model = ''gpt-5''\<rparr>) sample_context (sample_system (0, []))
     = (Ret (decision_to Do_Finish), y)"
  by (simp add: openai_decide_def andthen_def bnd_def prompt_client_def recorded_client_def ask_def on_world_def on_part_def raise_for_status_def
      sample_system_def dict_val_def non_blank_def catch_def validate_json_def validate_action_shape_def decision_to_def)

lemma provider_asks_boundedly_witness:
  "\<exists>y. provider_decide (recorded_client prompt_client) (OpenAI \<lparr>oa_api_key = ''k'', oa_model = ''gpt-5''\<rparr>) sample_context (sample_system (0, []))
      = (Ret (decision_to Do_Finish), y) \<and>
     sy_llm_calls y = length (snd (sy_world y)) \<and> sy_llm_calls y \<le> 1 \<and> validate_action_shape (decision_to Do_Finish) = Inr (decision_to Do_Finish)"
proof -
  obtain y where y: "provider_decide (recorded_client prompt_client) (OpenAI \<lparr>oa_api_key = ''k'', oa_model = ''gpt-5''\<rparr>) sample_context
      (sample_system (0, [])) = (Ret (decision_to Do_Finish), y)" using prompt_run by blast
  then show ?thesis using provider_asks_boundedly [OF y] by (auto simp: asked_def sample_system_def)
qed

section \<open>An artifact\<close>

definition credit_profile :: capability where
  "credit_profile = chargeback_capability\<lparr>cap_output_schema := [(''properties'',
     VDict [(''receipt_reference'', VDict [(''type'', VStr ''string'')]), (''money_moved'', VDict [(''type'', VStr ''boolean'')])])]\<rparr>"

definition submitted_once :: discovery_trace where
  "submitted_once = \<lparr>dt_run_id = ''run-1'', dt_provider = ''manual'', dt_model = ''manual'', dt_started_at = ''0'', dt_completed_at = Some ''1'',
     dt_evidence_directory = None, dt_capability_id = ''processor.file_chargeback'', dt_version = ''1.0.0'', dt_system = ''processor'',
     dt_goal = ''file it'', dt_actions = [\<lparr>at_step_id = ''step_1_click'', at_action = ''SUBMIT'', at_semantic_target = ''Commit'',
       at_selector = ''#go'', at_locator_candidates = [''#go''], at_frame_selector = None, at_input_name = None, at_concrete_value = None,
       at_container_selector = Some ''form'', at_observed_text = Some ''member 8830142'', at_is_mutating = True,
       at_guard_ref = Some ''processor_request_identity'', at_timestamp = ''1''\<rparr>],
     dt_events = [], dt_discovered_memo = Some ''MC-1'', dt_money_moved = True, dt_metadata = []\<rparr>"

definition constant_digest :: "string \<Rightarrow> string" where
  "constant_digest s = replicate 64 (CHR ''0'')"

lemma sample_compiles: "\<exists>c name raw. compile_trace constant_digest (Inr credit_profile) None submitted_once = Inr (c, name, raw)"
proof -
  have admit: "admit_trace submitted_once = Inr ()" by (simp add: admit_trace_def submitted_once_def opt_truthy_def)
  obtain out where out: "compiled_output_schema (cap_output_schema credit_profile) = Inr out"
    by (simp add: compiled_output_schema_def update_property_def credit_profile_def dict_get_def)
  obtain s where s: "compile_steps (dt_actions submitted_once) = Inr [s]" "st_action s = SUBMIT" "st_guard_ref s = Some ''processor_request_identity''"
    by (simp add: submitted_once_def compile_step_def step_action_of_def)
  have "validate_capability (build_capability submitted_once credit_profile chargeback_guard [s] out)
      = Inr (build_capability submitted_once credit_profile chargeback_guard [s] out)"
    using s(2,3) by (simp add: validate_capability_def build_capability_def credit_profile_def chargeback_capability_def chargeback_effect_def
      validate_bounds_def cents_def validate_commit_safety_contract_def missing_metadata_def opt_truthy_def validate_guard_spec_def
      compiled_guard_def chargeback_guard_def validate_capability_safety_def is_actuation_def Let_def)
  then show ?thesis
    using admit out s(1) by (simp add: compile_trace_def credit_profile_def submitted_once_def chargeback_capability_def Let_def
      validate_guard_spec_def compiled_guard_def chargeback_guard_def)
qed

lemma compiled_capability_is_bound_witness:
  "\<exists>c name raw. compile_trace constant_digest (Inr credit_profile) None submitted_once = Inr (c, name, raw) \<and>
     safe_capability c \<and> cap_effect c = cap_effect credit_profile"
proof -
  obtain c name raw where c: "compile_trace constant_digest (Inr credit_profile) None submitted_once = Inr (c, name, raw)"
    using sample_compiles by blast
  then show ?thesis using compiled_capability_is_bound [OF c] by auto
qed

end
