(* ===== verification/Migration.thy ===== *)
theory Migration
  imports Ledger "HOL-Library.AList"
begin

text \<open>
  Starting a ledger (\<open>init_db\<close> in \<open>tandem/ledger/database.py\<close>): the upgrade of leases
  without fencing and of event streams without a hash chain.  A table is a list in the
  order of its primary key, a column that an older schema does not have, or that was
  never filled, is \<open>None\<close>.  Each migration is one transaction, so an exception leaves the
  tables as they were.  As in \<open>Ledger\<close> a payload column is the object whose canonical
  text it holds.  SQLite's \<open>datetime(t, '+5 minutes')\<close> is an argument.
\<close>

section \<open>The tables before the upgrade\<close>

record stored_event =
  so_id :: nat
  so_case_id :: string
  so_event_type :: string
  so_step_name :: string
  so_actor :: string
  so_payload :: "dict option"
  so_timestamp :: int
  so_event_id :: "string option"
  so_sequence :: "nat option"
  so_created_at :: "string option"
  so_previous_event_hash :: "string option"
  so_event_hash :: "string option"

record stored_lease =
  sl_case_id :: string
  sl_resource_id :: "string option"
  sl_owner_type :: "string option"
  sl_owner_id :: string
  sl_fencing_token :: "nat option"
  sl_version :: "nat option"
  sl_acquired_at :: int
  sl_heartbeat_at :: "int option"
  sl_expires_at :: "int option"
  sl_released_at :: "int option"

text \<open>\<open>protected\<close>: the append-only triggers and the unique indexes exist.\<close>

record store =
  sr_tick :: nat
  sr_events :: "stored_event list"
  sr_heads :: "head_row list"
  sr_leases :: "stored_lease list"
  sr_protected :: bool

section \<open>Leases\<close>

definition coalesce :: "'x option \<Rightarrow> 'x \<Rightarrow> 'x option" where
  "coalesce x y = (case x of None \<Rightarrow> Some y | Some v \<Rightarrow> Some v)"

text \<open>\<open>LIKE\<close> does not distinguish upper and lower case.\<close>

definition default_owner_type :: "string \<Rightarrow> string" where
  "default_owner_type owner = (if starts_with ''automation'' (lower owner) then ''AUTOMATION'' else ''HUMAN'')"

definition upgrade_lease :: "(int \<Rightarrow> int) \<Rightarrow> stored_lease \<Rightarrow> stored_lease" where
  "upgrade_lease five_minutes_after l = l\<lparr>
     sl_resource_id := coalesce (sl_resource_id l) (sl_case_id l),
     sl_owner_type := coalesce (sl_owner_type l) (default_owner_type (sl_owner_id l)),
     sl_fencing_token := coalesce (sl_fencing_token l) 1,
     sl_version := coalesce (sl_version l) 1,
     sl_heartbeat_at := coalesce (sl_heartbeat_at l) (sl_acquired_at l),
     sl_expires_at := coalesce (sl_expires_at l) (five_minutes_after (sl_acquired_at l))\<rparr>"

definition migrate_case_leases :: "(int \<Rightarrow> int) \<Rightarrow> store \<Rightarrow> store res" where
  "migrate_case_leases five_minutes_after s = Inr (s\<lparr>sr_leases := map (upgrade_lease five_minutes_after) (sr_leases s)\<rparr>)"

section \<open>Event streams\<close>

text \<open>A wall clock without an offset is taken for UTC.\<close>

definition as_utc_iso :: "int \<Rightarrow> string" where
  "as_utc_iso timestamp = isoformat (utc timestamp)"

definition text_or :: "string option \<Rightarrow> string \<Rightarrow> string" where
  "text_or x y = (case x of Some (c # cs) \<Rightarrow> c # cs | _ \<Rightarrow> y)"

definition number_or :: "nat option \<Rightarrow> nat \<Rightarrow> nat" where
  "number_or x y = (case x of Some (Suc n) \<Rightarrow> Suc n | _ \<Rightarrow> y)"

definition is_complete :: "stored_event \<Rightarrow> bool" where
  "is_complete r \<longleftrightarrow> opt_truthy (so_event_id r) \<and> so_sequence r \<notin> {None, Some 0} \<and> opt_truthy (so_created_at r) \<and>
     opt_truthy (so_previous_event_hash r) \<and> opt_truthy (so_event_hash r)"

text \<open>The row with its place in the chain after the event with number \<open>n\<close> and hash \<open>h\<close>.\<close>

definition chain_row :: "(string \<Rightarrow> string) \<Rightarrow> string \<Rightarrow> nat \<times> string \<Rightarrow> stored_event \<Rightarrow> stored_event" where
  "chain_row sha fresh_id previous r = (case previous of (n, h) \<Rightarrow>
     let sequence = number_or (so_sequence r) (n + 1);
         created_at = text_or (so_created_at r) (as_utc_iso (so_timestamp r));
         event_id = text_or (so_event_id r) fresh_id;
         prior = text_or (so_previous_event_hash r) h;
         event_hash = text_or (so_event_hash r) (compute_event_hash sha event_id (so_case_id r) sequence
           (so_event_type r) (so_step_name r) (so_actor r) (canonical_payload (so_payload r)) created_at prior)
     in r\<lparr>so_event_id := Some event_id, so_sequence := Some sequence, so_created_at := Some created_at,
          so_previous_event_hash := Some prior, so_event_hash := Some event_hash\<rparr>)"

type_synonym stream_ends = "(string \<times> nat \<times> string) list"

definition end_of :: "stream_ends \<Rightarrow> string \<Rightarrow> nat \<times> string" where
  "end_of ends cid = (case map_of ends cid of None \<Rightarrow> (0, genesis_hash) | Some l \<Rightarrow> l)"

text \<open>
  The loop over the rows of all cases.  A row that lacks something is written back, which
  the trigger refuses once it exists; a uuid is drawn only for a row without an event id.
\<close>

fun chain_rows ::
  "ambient \<Rightarrow> bool \<Rightarrow> nat \<Rightarrow> stream_ends \<Rightarrow> stored_event list \<Rightarrow> (nat \<times> stream_ends \<times> stored_event list) res" where
  "chain_rows a protected t ends [] = Inr (t, ends, [])"
| "chain_rows a protected t ends (r # rs) =
     (if \<not> is_complete r \<and> protected then Inl (OtherException ''procedure_events are append-only'')
      else let written = chain_row (amb_sha a) (amb_uuid a t) (end_of ends (so_case_id r)) r;
               t' = (if opt_truthy (so_event_id r) then t else Suc t);
               ends' = AList.update (so_case_id r) (the (so_sequence written), the (so_event_hash written)) ends
        in rbind (chain_rows a protected t' ends' rs) (\<lambda>(u, es, ws). Inr (u, es, written # ws)))"

text \<open>\<open>ORDER BY case_id, id\<close>.\<close>

definition rows_by_case :: "stored_event list \<Rightarrow> stored_event list" where
  "rows_by_case rows = sort_key so_case_id (sort_key so_id rows)"

definition upsert_head :: "string \<times> nat \<times> string \<Rightarrow> head_row list \<Rightarrow> head_row list" where
  "upsert_head e heads = (case e of (cid, n, h) \<Rightarrow>
     if \<exists>x \<in> set heads. hd_case_id x = cid
     then update_where (\<lambda>x. hd_case_id x = cid) (\<lambda>x. x\<lparr>hd_last_sequence := n, hd_last_event_hash := h\<rparr>) heads
     else heads @ [\<lparr>hd_case_id = cid, hd_last_sequence = n, hd_last_event_hash = h\<rparr>])"

definition require_unique :: "stored_event list \<Rightarrow> unit res" where
  "require_unique rows =
     (if \<not> unique_on (\<lambda>r. (so_case_id r, so_sequence r)) rows \<or> \<not> unique_on so_event_id rows
      then Inl (OtherException ''UNIQUE constraint failed'') else Inr ())"

definition migrate_event_stream :: "ambient \<Rightarrow> store \<Rightarrow> store res" where
  "migrate_event_stream a s =
     rbind (chain_rows a (sr_protected s) (sr_tick s) [] (rows_by_case (sr_events s))) (\<lambda>(t, ends, written).
     let rows = sort_key so_id written
     in rbind (if sr_protected s then Inr () else require_unique rows) (\<lambda>_.
        Inr (s\<lparr>sr_tick := t, sr_events := rows, sr_heads := fold upsert_head ends (sr_heads s), sr_protected := True\<rparr>)))"

definition init_db :: "ambient \<Rightarrow> (int \<Rightarrow> int) \<Rightarrow> store \<Rightarrow> store res" where
  "init_db a five_minutes_after s = rbind (migrate_case_leases five_minutes_after s) (migrate_event_stream a)"


section \<open>A store as a ledger\<close>

definition as_event :: "stored_event \<Rightarrow> event_row" where
  "as_event r = \<lparr>ev_id = so_id r, ev_event_id = the (so_event_id r), ev_case_id = so_case_id r, ev_sequence = the (so_sequence r),
     ev_event_type = so_event_type r, ev_step_name = so_step_name r, ev_actor = so_actor r, ev_payload = so_payload r,
     ev_timestamp = so_timestamp r, ev_created_at = the (so_created_at r),
     ev_previous_event_hash = the (so_previous_event_hash r), ev_event_hash = the (so_event_hash r)\<rparr>"

definition as_lease :: "stored_lease \<Rightarrow> lease_row" where
  "as_lease l = \<lparr>ls_case_id = sl_case_id l, ls_resource_id = the (sl_resource_id l), ls_owner_type = the (sl_owner_type l),
     ls_owner_id = sl_owner_id l, ls_fencing_token = the (sl_fencing_token l), ls_version = the (sl_version l),
     ls_acquired_at = sl_acquired_at l, ls_heartbeat_at = the (sl_heartbeat_at l), ls_expires_at = the (sl_expires_at l),
     ls_released_at = sl_released_at l\<rparr>"

text \<open>The ledger a migrated store is, the other tables being those of \<open>d\<close>.\<close>

definition ledger_of :: "db \<Rightarrow> store \<Rightarrow> db" where
  "ledger_of d s = d\<lparr>tick := sr_tick s, t_events := map as_event (sr_events s), t_heads := sr_heads s,
     t_leases := map as_lease (sr_leases s)\<rparr>"

definition stored_event_of :: "event_row \<Rightarrow> stored_event" where
  "stored_event_of e = \<lparr>so_id = ev_id e, so_case_id = ev_case_id e, so_event_type = ev_event_type e, so_step_name = ev_step_name e,
     so_actor = ev_actor e, so_payload = ev_payload e, so_timestamp = ev_timestamp e, so_event_id = Some (ev_event_id e),
     so_sequence = Some (ev_sequence e), so_created_at = Some (ev_created_at e),
     so_previous_event_hash = Some (ev_previous_event_hash e), so_event_hash = Some (ev_event_hash e)\<rparr>"

definition stored_lease_of :: "lease_row \<Rightarrow> stored_lease" where
  "stored_lease_of l = \<lparr>sl_case_id = ls_case_id l, sl_resource_id = Some (ls_resource_id l), sl_owner_type = Some (ls_owner_type l),
     sl_owner_id = ls_owner_id l, sl_fencing_token = Some (ls_fencing_token l), sl_version = Some (ls_version l),
     sl_acquired_at = ls_acquired_at l, sl_heartbeat_at = Some (ls_heartbeat_at l), sl_expires_at = Some (ls_expires_at l),
     sl_released_at = ls_released_at l\<rparr>"

definition store_of :: "db \<Rightarrow> store" where
  "store_of d = \<lparr>sr_tick = tick d, sr_events = map stored_event_of (t_events d), sr_heads = t_heads d,
     sr_leases = map stored_lease_of (t_leases d), sr_protected = True\<rparr>"

definition stream :: "string \<Rightarrow> stored_event list \<Rightarrow> stored_event list" where
  "stream cid rows = filter (\<lambda>r. so_case_id r = cid) rows"

text \<open>What an older schema already had of an event.\<close>

definition original :: "stored_event \<Rightarrow> stored_event" where
  "original r = r\<lparr>so_event_id := None, so_sequence := None, so_created_at := None, so_previous_event_hash := None, so_event_hash := None\<rparr>"

definition blank :: "stored_event \<Rightarrow> bool" where
  "blank r \<longleftrightarrow> so_event_id r = None \<and> so_sequence r = None \<and> so_created_at r = None \<and> so_previous_event_hash r = None \<and> so_event_hash r = None"

text \<open>A stream that can be upgraded: chained rows from number \<open>n\<close> on, then rows without a chain.\<close>

fun follows :: "(string \<Rightarrow> string) \<Rightarrow> string \<Rightarrow> nat \<Rightarrow> stored_event list \<Rightarrow> bool" where
  "follows sha h n [] = True"
| "follows sha h n (r # rs) =
     (if blank r then list_all blank rs
      else is_complete r \<and> so_sequence r = Some n \<and> so_previous_event_hash r = Some h \<and>
        row_hash sha (as_event r) = the (so_event_hash r) \<and> follows sha (the (so_event_hash r)) (Suc n) rs)"

section \<open>One row\<close>

lemma text_or_simps [simp]: "text_or None y = y" "opt_truthy x \<Longrightarrow> text_or x y = the x"
  by (auto simp: text_or_def opt_truthy_def split: option.splits list.splits)

lemma truthy_Some: "opt_truthy x \<Longrightarrow> Some (the x) = x"
  by (cases x) (auto simp: opt_truthy_def)

lemma truthy_text [simp]: "opt_truthy (Some t) = (t \<noteq> [])" "\<not> opt_truthy None"
  by (simp_all add: opt_truthy_def)

lemma number_or_simps [simp]: "number_or None y = y" "number_or (Some (Suc n)) y = Suc n"
  by (simp_all add: number_or_def)

lemma chain_row_complete [simp]: "is_complete r \<Longrightarrow> chain_row sha i l r = r"
  by (cases "so_sequence r"; cases l) (auto simp: chain_row_def is_complete_def Let_def truthy_Some number_or_def split: nat.splits)

lemma chain_row_original [simp]:
  "original (chain_row sha i l r) = original r" "so_case_id (chain_row sha i l r) = so_case_id r" "so_id (chain_row sha i l r) = so_id r"
  by (simp_all add: chain_row_def original_def Let_def split: prod.splits)

text \<open>Whether it was chained or not, the written row continues the stream.\<close>

lemma chain_row_follows:
  fixes i :: string
  assumes "follows sha h (Suc n) (r # rs)"
  defines "w \<equiv> chain_row sha i (n, h) r"
  shows "so_sequence w = Some (Suc n)" "the (so_previous_event_hash w) = h" "row_hash sha (as_event w) = the (so_event_hash w)"
    "follows sha (the (so_event_hash w)) (Suc (Suc n)) rs"
proof -
  have rest: "list_all blank rs \<Longrightarrow> follows sha g m rs" for g m by (cases rs) simp_all
  have "so_sequence w = Some (Suc n) \<and> the (so_previous_event_hash w) = h \<and> row_hash sha (as_event w) = the (so_event_hash w) \<and>
    follows sha (the (so_event_hash w)) (Suc (Suc n)) rs"
  proof (cases "blank r")
    case True
    then show ?thesis using assms(1) rest by (simp add: w_def chain_row_def Let_def blank_def row_hash_def as_event_def)
  next
    case False
    then show ?thesis using assms(1) by (simp add: w_def)
  qed
  then show "so_sequence w = Some (Suc n)" "the (so_previous_event_hash w) = h" "row_hash sha (as_event w) = the (so_event_hash w)"
    "follows sha (the (so_event_hash w)) (Suc (Suc n)) rs" by blast+
qed

lemma chain_row_is_complete:
  assumes "follows sha h (Suc n) (r # rs)" "h \<noteq> []" "i \<noteq> []" "\<And>x. sha x \<noteq> []" "as_utc_iso (so_timestamp r) \<noteq> []"
  shows "is_complete (chain_row sha i (n, h) r)"
proof (cases "blank r")
  case True
  then show ?thesis using assms(2-5) by (simp add: chain_row_def blank_def is_complete_def Let_def compute_event_hash_def)
next
  case False
  then show ?thesis using assms(1) by simp
qed


section \<open>The loop\<close>

lemma stream_simps [simp]:
  "stream cid [] = []" "stream cid (r # rs) = (if so_case_id r = cid then r # stream cid rs else stream cid rs)"
  by (simp_all add: stream_def)

lemma end_of_update [simp]:
  "end_of (AList.update c v ends) cid = (if cid = c then v else end_of ends cid)"
  by (simp add: end_of_def update_conv')

lemma chain_rows_returns:
  "\<not> protected \<or> list_all is_complete rs \<Longrightarrow> \<exists>x. chain_rows a protected t ends rs = Inr x"
proof (induction rs arbitrary: t ends)
  case (Cons r rs)
  then have "\<not> protected \<or> list_all is_complete rs" "is_complete r \<or> \<not> protected" by auto
  note IH = Cons.IH [OF this(1)] and ok = this(2)
  let ?w = "chain_row (amb_sha a) (amb_uuid a t) (end_of ends (so_case_id r)) r"
  obtain x where "chain_rows a protected (if opt_truthy (so_event_id r) then t else Suc t)
    (AList.update (so_case_id r) (the (so_sequence ?w), the (so_event_hash ?w)) ends) rs = Inr x" using IH by blast
  then show ?case using ok by (cases x) (auto simp: Let_def)
qed simp

lemma chain_rows_Cons:
  assumes "chain_rows a protected t ends (r # rs) = Inr (t', es, ws)"
  obtains w ws' u where "w = chain_row (amb_sha a) (amb_uuid a t) (end_of ends (so_case_id r)) r" "ws = w # ws'"
    "u = (if opt_truthy (so_event_id r) then t else Suc t)"
    "chain_rows a protected u (AList.update (so_case_id r) (the (so_sequence w), the (so_event_hash w)) ends) rs = Inr (t', es, ws')"
  using assms by (auto simp: Let_def rbind_eq_Inr split: if_splits)

lemma chain_rows_original:
  "chain_rows a protected t ends rs = Inr (t', es, ws) \<Longrightarrow> map original ws = map original rs \<and> map so_id ws = map so_id rs \<and>
     map so_case_id ws = map so_case_id rs"
proof (induction rs arbitrary: t ends ws)
  case (Cons r rs)
  from Cons.prems show ?case by (rule chain_rows_Cons) (use Cons.IH in fastforce)
qed simp

lemma stream_original:
  "map original ws = map original rs \<Longrightarrow> map original (stream cid ws) = map original (stream cid rs)"
proof (induction ws arbitrary: rs)
  case (Cons w ws)
  then obtain r rs' where rs: "rs = r # rs'" "original w = original r" "map original ws = map original rs'" by auto
  then have "so_case_id w = so_case_id r" by (metis original_def stored_event.select_convs(2) stored_event.surjective stored_event.update_convs(8-12))
  then show ?case using Cons.IH rs by simp
qed simp

definition continued :: "(string \<Rightarrow> string) \<Rightarrow> nat \<times> string \<Rightarrow> stored_event list \<Rightarrow> bool" where
  "continued sha e ws \<longleftrightarrow> cv_valid (verify_events sha (snd e) (Suc (fst e)) (map as_event ws))"

definition end_after :: "nat \<times> string \<Rightarrow> stored_event list \<Rightarrow> nat \<times> string" where
  "end_after e ws = (fst e + length ws, if ws = [] then snd e else the (so_event_hash (last ws)))"

lemma continued_Cons:
  "the (so_sequence w) = Suc n \<Longrightarrow> the (so_previous_event_hash w) = h \<Longrightarrow> row_hash sha (as_event w) = the (so_event_hash w) \<Longrightarrow>
   continued sha (Suc n, the (so_event_hash w)) ws \<Longrightarrow> continued sha (n, h) (w # ws)"
  by (simp add: continued_def as_event_def)

lemma end_after_Cons: "end_after (n, h) (w # ws) = end_after (Suc n, the (so_event_hash w)) ws"
  by (simp add: end_after_def)

lemma chain_rows_streams:
  "chain_rows a protected t ends rs = Inr (t', es, ws) \<Longrightarrow>
   \<forall>cid. follows (amb_sha a) (snd (end_of ends cid)) (Suc (fst (end_of ends cid))) (stream cid rs) \<Longrightarrow>
   (\<forall>cid. continued (amb_sha a) (end_of ends cid) (stream cid ws) \<and> end_of es cid = end_after (end_of ends cid) (stream cid ws)) \<and>
   (\<forall>w \<in> set ws. so_sequence w \<noteq> None)"
proof (induction rs arbitrary: t ends ws)
  case Nil
  then show ?case by (simp add: continued_def end_after_def)
next
  case (Cons r rs)
  obtain w ws' u where w: "w = chain_row (amb_sha a) (amb_uuid a t) (end_of ends (so_case_id r)) r" "ws = w # ws'"
    and run: "chain_rows a protected u (AList.update (so_case_id r) (the (so_sequence w), the (so_event_hash w)) ends) rs = Inr (t', es, ws')"
    by (rule chain_rows_Cons [OF Cons.prems(1)])
  obtain n h where e: "end_of ends (so_case_id r) = (n, h)" by (cases "end_of ends (so_case_id r)")
  have "follows (amb_sha a) h (Suc n) (r # stream (so_case_id r) rs)" using Cons.prems(2) [rule_format, of "so_case_id r"] e by simp
  note f = chain_row_follows [OF this, of "amb_uuid a t", folded e, folded w(1)]
  have "\<forall>c. follows (amb_sha a) (snd (end_of (AList.update (so_case_id r) (the (so_sequence w), the (so_event_hash w)) ends) c))
      (Suc (fst (end_of (AList.update (so_case_id r) (the (so_sequence w), the (so_event_hash w)) ends) c))) (stream c rs)"
    using f(1,4) Cons.prems(2) [rule_format, of c for c] by (auto, metis stream_simps(2))
  note IH = Cons.IH [OF run this]
  have case_w: "so_case_id w = so_case_id r" unfolding w(1) by simp
  have "continued (amb_sha a) (end_of ends cid) (stream cid ws) \<and> end_of es cid = end_after (end_of ends cid) (stream cid ws)" for cid
  proof (cases "cid = so_case_id r")
    case True
    then have "continued (amb_sha a) (Suc n, the (so_event_hash w)) (stream cid ws')"
      "end_of es cid = end_after (Suc n, the (so_event_hash w)) (stream cid ws')"
      using conjunct1 [OF IH, rule_format, of cid] f(1) True by simp_all
    then show ?thesis using continued_Cons [OF _ f(2,3)] f(1) e case_w True by (simp add: w(2) end_after_Cons)
  next
    case False
    then show ?thesis using conjunct1 [OF IH, rule_format, of cid] case_w by (simp add: w(2))
  qed
  then show ?case using IH f(1) by (simp add: w(2))
qed

lemma chain_rows_complete:
  "list_all is_complete rs \<Longrightarrow> chain_rows a protected t ends rs = Inr (t', es, ws) \<Longrightarrow> t' = t \<and> ws = rs"
proof (induction rs arbitrary: t ends ws)
  case (Cons r rs)
  obtain w ws' u where w: "w = chain_row (amb_sha a) (amb_uuid a t) (end_of ends (so_case_id r)) r" "ws = w # ws'"
    "u = (if opt_truthy (so_event_id r) then t else Suc t)"
    and run: "chain_rows a protected u (AList.update (so_case_id r) (the (so_sequence w), the (so_event_hash w)) ends) rs = Inr (t', es, ws')"
    by (rule chain_rows_Cons [OF Cons.prems(2)])
  have "is_complete r" "list_all is_complete rs" using Cons.prems(1) by simp_all
  moreover from this(1) have "w = r" "u = t" unfolding w by (simp_all add: is_complete_def)
  ultimately show ?case using Cons.IH run w(2) by simp
qed simp


section \<open>Order and heads\<close>

lemma stream_cases: "map so_case_id (stream cid rows) = replicate (length (stream cid rows)) cid"
  by (induction rows) simp_all

lemma stream_rows_by_case: "stream cid (rows_by_case rows) = stream cid (sort_key so_id rows)"
proof -
  have "sort_key so_case_id (stream cid (sort_key so_id rows)) = stream cid (sort_key so_id rows)"
    by (rule sort_key_id_if_sorted) (simp only: stream_cases sorted_replicate)
  then show ?thesis by (simp add: rows_by_case_def stream_def filter_sort)
qed

lemma stream_ids:
  "map so_id ws = map so_id rs \<Longrightarrow> map so_case_id ws = map so_case_id rs \<Longrightarrow> map so_id (stream cid ws) = map so_id (stream cid rs)"
  by (induction ws rs rule: list_induct2') auto

lemma stream_written:
  assumes "map so_id ws = map so_id (rows_by_case rows)" "map so_case_id ws = map so_case_id (rows_by_case rows)"
  shows "stream cid (sort_key so_id ws) = stream cid ws"
proof -
  have "map so_id (stream cid ws) = map so_id (stream cid (rows_by_case rows))"
    using stream_ids [OF assms] .
  also have "\<dots> = map so_id (sort_key so_id (stream cid rows))" using stream_rows_by_case [of cid rows] by (simp add: stream_def filter_sort)
  finally have "sorted (map so_id (stream cid ws))" by simp
  then show ?thesis by (simp add: stream_def filter_sort sort_key_id_if_sorted)
qed

lemma select_first_set_head:
  "select_first (\<lambda>x. hd_case_id x = cid) (update_where (\<lambda>x. hd_case_id x = c) (\<lambda>x. x\<lparr>hd_last_sequence := n, hd_last_event_hash := h\<rparr>) heads) =
     (if cid = c then map_option (\<lambda>x. x\<lparr>hd_last_sequence := n, hd_last_event_hash := h\<rparr>) (select_first (\<lambda>x. hd_case_id x = cid) heads)
      else select_first (\<lambda>x. hd_case_id x = cid) heads)"
  by (induction heads) (auto simp: update_where_def)

lemma get_head_upsert:
  "select_first (\<lambda>x. hd_case_id x = cid) (upsert_head (c, n, h) heads) =
     (if cid = c then (case select_first (\<lambda>x. hd_case_id x = cid) heads of
        None \<Rightarrow> Some \<lparr>hd_case_id = c, hd_last_sequence = n, hd_last_event_hash = h\<rparr>
      | Some x \<Rightarrow> Some (x\<lparr>hd_last_sequence := n, hd_last_event_hash := h\<rparr>))
      else select_first (\<lambda>x. hd_case_id x = cid) heads)"
proof (cases "\<exists>x \<in> set heads. hd_case_id x = c")
  case True
  then have "select_first (\<lambda>x. hd_case_id x = c) heads \<noteq> None" using select_first_None [of "\<lambda>x. hd_case_id x = c" heads] by blast
  then show ?thesis using True by (auto simp: upsert_head_def select_first_set_head)
next
  case False
  then have "select_first (\<lambda>x. hd_case_id x = c) heads = None" using select_first_None [of "\<lambda>x. hd_case_id x = c" heads] by blast
  then show ?thesis using False by (auto simp: upsert_head_def select_first_append split: option.split)
qed

lemma unique_upsert: "unique_on hd_case_id heads \<Longrightarrow> unique_on hd_case_id (upsert_head e heads)"
  by (cases e) (auto simp: upsert_head_def intro!: unique_on_update_where unique_on_snoc)


lemma get_head_fold:
  "distinct (map fst es) \<Longrightarrow> (case map_of es cid of
      None \<Rightarrow> select_first (\<lambda>x. hd_case_id x = cid) (fold upsert_head es heads) = select_first (\<lambda>x. hd_case_id x = cid) heads
    | Some (n, h) \<Rightarrow> \<exists>x. select_first (\<lambda>x. hd_case_id x = cid) (fold upsert_head es heads) = Some x \<and>
        hd_last_sequence x = n \<and> hd_last_event_hash x = h)"
proof (induction es arbitrary: heads)
  case (Cons e es)
  obtain c n h where e: "e = (c, n, h)" by (cases e)
  show ?case
  proof (cases "cid = c")
    case True
    then have "map_of es cid = None" using Cons.prems e by (simp add: map_of_eq_None_iff)
    then show ?thesis using Cons.IH [of "upsert_head (c, n, h) heads"] Cons.prems e True
      by (simp add: get_head_upsert del: map_of_eq_Some_iff Some_eq_map_of_iff split: option.splits)
  next
    case False
    then show ?thesis using Cons.IH [of "upsert_head (c, n, h) heads"] Cons.prems e
      by (auto simp: get_head_upsert simp del: map_of_eq_Some_iff Some_eq_map_of_iff split: option.splits)
  qed
qed simp

lemma unique_fold: "unique_on hd_case_id heads \<Longrightarrow> unique_on hd_case_id (fold upsert_head es heads)"
  by (induction es arbitrary: heads) (simp_all add: unique_upsert)

lemma upsert_same:
  assumes "unique_on hd_case_id heads" "select_first (\<lambda>x. hd_case_id x = c) heads = Some x" "hd_last_sequence x = n" "hd_last_event_hash x = h"
  shows "upsert_head (c, n, h) heads = heads"
proof -
  have x: "x \<in> set heads" "hd_case_id x = c" using select_first_Some [OF assms(2)] by simp_all
  have "(if hd_case_id y = c then y\<lparr>hd_last_sequence := n, hd_last_event_hash := h\<rparr> else y) = y" if "y \<in> set heads" for y
    using unique_on_eq [OF assms(1) that x(1)] x(2) assms(3,4) by auto
  then show ?thesis using x by (auto simp: upsert_head_def update_where_def intro: map_idI)
qed

lemma fold_same:
  "unique_on hd_case_id heads \<Longrightarrow> (\<And>c n h. (c, n, h) \<in> set es \<Longrightarrow> \<exists>x. select_first (\<lambda>x. hd_case_id x = c) heads = Some x \<and>
     hd_last_sequence x = n \<and> hd_last_event_hash x = h) \<Longrightarrow> fold upsert_head es heads = heads"
proof (induction es)
  case (Cons e es)
  obtain c n h where e: "e = (c, n, h)" by (cases e)
  then obtain x where "select_first (\<lambda>x. hd_case_id x = c) heads = Some x" "hd_last_sequence x = n" "hd_last_event_hash x = h"
    using Cons.prems(2) [of c n h] by auto
  then have "upsert_head e heads = heads" using upsert_same [OF Cons.prems(1)] e by simp
  moreover have "fold upsert_head es heads = heads" using Cons.prems by (intro Cons.IH) simp_all
  ultimately show ?case by simp
qed simp

lemma chain_rows_ends:
  "chain_rows a protected t ends rs = Inr (t', es, ws) \<Longrightarrow> distinct (map fst ends) \<Longrightarrow>
   distinct (map fst es) \<and> (\<forall>cid. map_of es cid = None \<longleftrightarrow> map_of ends cid = None \<and> stream cid rs = [])"
proof (induction rs arbitrary: t ends ws)
  case (Cons r rs)
  obtain w ws' u where "ws = w # ws'"
    and run: "chain_rows a protected u (AList.update (so_case_id r) (the (so_sequence w), the (so_event_hash w)) ends) rs = Inr (t', es, ws')"
    by (rule chain_rows_Cons [OF Cons.prems(1)])
  show ?case using Cons.IH [OF run distinct_update [OF Cons.prems(2)]] by (auto simp: update_conv')
qed simp

section \<open>Unique columns\<close>

lemma unique_by_case:
  "(\<And>cid. distinct (map f (stream cid rows))) \<Longrightarrow> unique_on (\<lambda>r. (so_case_id r, f r)) rows"
proof (induction rows)
  case (Cons r rows)
  have "distinct (map f (stream cid rows))" for cid using Cons.prems [of cid] by (auto split: if_splits)
  moreover have "f r \<notin> f ` set (stream (so_case_id r) rows)" using Cons.prems [of "so_case_id r"] by simp
  ultimately show ?case using Cons.IH by (auto simp: unique_on_def stream_def)
qed (simp add: unique_on_def)

lemma continued_numbers:
  assumes "continued sha e ws" "\<forall>w \<in> set ws. so_sequence w \<noteq> None"
  shows "distinct (map so_sequence ws)"
proof -
  have "map (the \<circ> so_sequence) ws = [Suc (fst e)..<Suc (fst e) + length ws]"
    using verify_events_sequences assms(1) unfolding continued_def by (fastforce simp: comp_def as_event_def)
  then have "distinct (map (the \<circ> so_sequence) ws)" by simp
  then show ?thesis using assms(2) by (induction ws) (auto simp: image_iff)
qed

text \<open>The uuids that are drawn are new.\<close>

definition fresh_ids :: "ambient \<Rightarrow> nat \<Rightarrow> stored_event list \<Rightarrow> bool" where
  "fresh_ids a t rs \<longleftrightarrow> inj (amb_uuid a) \<and> distinct (map so_event_id (filter (\<lambda>r. opt_truthy (so_event_id r)) rs)) \<and>
     (\<forall>r \<in> set rs. \<forall>i \<ge> t. so_event_id r \<noteq> Some (amb_uuid a i))"

lemma chain_row_event_id: "so_event_id (chain_row sha i l r) = (if opt_truthy (so_event_id r) then so_event_id r else Some i)"
  by (auto simp: chain_row_def Let_def truthy_Some text_or_def opt_truthy_def split: prod.splits option.splits list.splits)

lemma chain_rows_ids:
  "chain_rows a protected t ends rs = Inr (t', es, ws) \<Longrightarrow> fresh_ids a t rs \<Longrightarrow>
   unique_on so_event_id ws \<and> (\<forall>w \<in> set ws. (\<exists>r \<in> set rs. opt_truthy (so_event_id r) \<and> so_event_id w = so_event_id r) \<or>
     (\<exists>i \<ge> t. so_event_id w = Some (amb_uuid a i)))"
proof (induction rs arbitrary: t ends ws)
  case (Cons r rs)
  obtain w ws' u where w: "w = chain_row (amb_sha a) (amb_uuid a t) (end_of ends (so_case_id r)) r" "ws = w # ws'"
    "u = (if opt_truthy (so_event_id r) then t else Suc t)"
    and run: "chain_rows a protected u (AList.update (so_case_id r) (the (so_sequence w), the (so_event_hash w)) ends) rs = Inr (t', es, ws')"
    by (rule chain_rows_Cons [OF Cons.prems(1)])
  have "fresh_ids a u rs" using Cons.prems(2) by (auto simp: fresh_ids_def w(3) split: if_splits)
  note IH = Cons.IH [OF run this]
  have id_w: "so_event_id w = (if opt_truthy (so_event_id r) then so_event_id r else Some (amb_uuid a t))"
    unfolding w(1) by (rule chain_row_event_id)
  have "so_event_id w \<notin> so_event_id ` set ws'"
  proof
    assume "so_event_id w \<in> so_event_id ` set ws'"
    then consider (old) q where "q \<in> set rs" "opt_truthy (so_event_id q)" "so_event_id w = so_event_id q"
      | (new) i where "i \<ge> u" "so_event_id w = Some (amb_uuid a i)"
      using IH by force
    then show False
    proof cases
      case old
      have "so_event_id q \<noteq> Some (amb_uuid a t)" using Cons.prems(2) old(1) by (simp add: fresh_ids_def)
      then have "opt_truthy (so_event_id r)" "so_event_id r = so_event_id q" using id_w old(3) by (auto split: if_splits)
      moreover have "so_event_id q \<in> so_event_id ` set (filter (\<lambda>r. opt_truthy (so_event_id r)) rs)" using old(1,2) by auto
      ultimately show False using Cons.prems(2) by (simp add: fresh_ids_def del: set_filter)
    next
      case new
      then show False using Cons.prems(2) id_w by (auto simp: fresh_ids_def w(3) inj_eq split: if_splits)
    qed
  qed
  then have "unique_on so_event_id ws" using IH by (simp add: unique_on_def w(2))
  moreover have "(\<exists>q \<in> set (r # rs). opt_truthy (so_event_id q) \<and> so_event_id v = so_event_id q) \<or> (\<exists>i \<ge> t. so_event_id v = Some (amb_uuid a i))"
    if "v \<in> set ws" for v
  proof (cases "v = w")
    case True
    then show ?thesis using id_w by auto
  next
    case False
    then have "(\<exists>q \<in> set rs. opt_truthy (so_event_id q) \<and> so_event_id v = so_event_id q) \<or> (\<exists>i \<ge> u. so_event_id v = Some (amb_uuid a i))"
      using IH that w(2) by auto
    moreover have "t \<le> u" unfolding w(3) by simp
    ultimately show ?thesis by (meson le_trans list.set_intros(2))
  qed
  ultimately show ?case by blast
qed (simp add: unique_on_def)


section \<open>What starting a ledger does\<close>

text \<open>A store that an older version left and that can be upgraded.\<close>

definition upgradable :: "ambient \<Rightarrow> store \<Rightarrow> bool" where
  "upgradable a s \<longleftrightarrow> sorted (map so_id (sr_events s)) \<and> (\<forall>cid. follows (amb_sha a) genesis_hash 1 (stream cid (sr_events s))) \<and>
     unique_on hd_case_id (sr_heads s) \<and>
     (\<forall>x \<in> set (sr_heads s). stream (hd_case_id x) (sr_events s) = [] \<longrightarrow> hd_last_sequence x = 0 \<and> hd_last_event_hash x = genesis_hash) \<and>
     fresh_ids a (sr_tick s) (sr_events s)"

lemma fresh_rows_by_case: "fresh_ids a t rows \<Longrightarrow> fresh_ids a t (rows_by_case rows)"
  by (simp add: fresh_ids_def rows_by_case_def filter_sort distinct_map)

lemma unique_sort: "unique_on f (sort_key g rows) = unique_on f rows"
  by (simp add: unique_on_def distinct_map)

lemma ledger_of_events: "case_events cid (ledger_of d s) = map as_event (stream cid (sr_events s))"
  by (simp add: case_events_def ledger_of_def stream_def filter_map comp_def as_event_def)

lemma last_hash_as_event: "last_hash (map as_event ws) = (if ws = [] then genesis_hash else the (so_event_hash (last ws)))"
  by (simp add: last_hash.simps last_map as_event_def)

text \<open>Streams that continue each other with heads that match them are a chained ledger.\<close>

lemma chained_ledger:
  assumes "unique_on hd_case_id (sr_heads s)"
    and "\<And>cid. continued sha (0, genesis_hash) (stream cid (sr_events s))"
    and "\<And>cid. case select_first (\<lambda>x. hd_case_id x = cid) (sr_heads s) of
        None \<Rightarrow> stream cid (sr_events s) = []
      | Some x \<Rightarrow> (hd_last_sequence x, hd_last_event_hash x) = end_after (0, genesis_hash) (stream cid (sr_events s))"
  shows "chain_inv sha (ledger_of d s)"
proof -
  have "head_matches cid (ledger_of d s)" for cid
    using assms(3) [of cid] unfolding head_matches_def get_head_def ledger_of_events
    by (auto simp: ledger_of_def end_after_def last_hash_as_event split: option.splits)
  moreover have "cv_valid (verify_events sha genesis_hash 1 (case_events cid (ledger_of d s)))" for cid
    using assms(2) [of cid] by (simp add: ledger_of_events continued_def)
  ultimately show ?thesis using assms(1) by (simp add: chain_inv_def ledger_of_def)
qed

lemma migrated_run:
  assumes "upgradable a s" "\<not> sr_protected s"
  obtains t es ws where "chain_rows a False (sr_tick s) [] (rows_by_case (sr_events s)) = Inr (t, es, ws)"
    "migrate_event_stream a s = Inr (s\<lparr>sr_tick := t, sr_events := sort_key so_id ws, sr_heads := fold upsert_head es (sr_heads s), sr_protected := True\<rparr>)"
    "\<And>cid. stream cid (sort_key so_id ws) = stream cid ws" "map original ws = map original (rows_by_case (sr_events s))"
    "\<And>cid. continued (amb_sha a) (0, genesis_hash) (stream cid ws)" "\<And>cid. end_of es cid = end_after (0, genesis_hash) (stream cid ws)"
    "distinct (map fst es)" "\<And>cid. map_of es cid = None \<longleftrightarrow> stream cid ws = []"
proof -
  let ?rows = "rows_by_case (sr_events s)"
  obtain x where x: "chain_rows a False (sr_tick s) [] ?rows = Inr x" using chain_rows_returns by blast
  obtain t es ws where run: "chain_rows a False (sr_tick s) [] ?rows = Inr (t, es, ws)" using x by (cases x) auto
  have sorted: "stream cid ?rows = stream cid (sr_events s)" for cid
    using assms(1) by (simp add: stream_rows_by_case upgradable_def sort_key_id_if_sorted)
  have "\<forall>cid. follows (amb_sha a) (snd (end_of [] cid)) (Suc (fst (end_of [] cid))) (stream cid ?rows)"
    using assms(1) by (simp add: sorted upgradable_def end_of_def)
  note streams = chain_rows_streams [OF run this]
  have c: "continued (amb_sha a) (0, genesis_hash) (stream cid ws)" "end_of es cid = end_after (0, genesis_hash) (stream cid ws)" for cid
    using conjunct1 [OF streams, rule_format, of cid] by (simp_all add: end_of_def)
  note orig = chain_rows_original [OF run]
  have same: "stream cid (sort_key so_id ws) = stream cid ws" for cid by (rule stream_written) (use orig in blast)+
  have "unique_on (\<lambda>r. (so_case_id r, so_sequence r)) ws"
    by (rule unique_by_case, rule continued_numbers [OF c(1)]) (use streams in \<open>auto simp: stream_def\<close>)
  moreover have "unique_on so_event_id ws"
    using chain_rows_ids [OF run fresh_rows_by_case] assms(1) by (simp add: upgradable_def)
  ultimately have "require_unique (sort_key so_id ws) = Inr ()" by (simp add: require_unique_def unique_sort)
  then have mig: "migrate_event_stream a s = Inr (s\<lparr>sr_tick := t, sr_events := sort_key so_id ws,
      sr_heads := fold upsert_head es (sr_heads s), sr_protected := True\<rparr>)"
    using assms(2) run by (simp add: migrate_event_stream_def Let_def)
  have "stream cid ?rows = [] \<longleftrightarrow> stream cid ws = []" for cid
    using stream_ids [of ws ?rows cid] orig by (metis map_is_Nil_conv)
  then have "map_of es cid = None \<longleftrightarrow> stream cid ws = []" for cid
    using chain_rows_ends [OF run] by simp
  then show thesis using that run mig same orig c chain_rows_ends [OF run] by simp
qed


text \<open>Starting a ledger whose rows are complete.\<close>

definition lease_complete :: "stored_lease \<Rightarrow> bool" where
  "lease_complete l \<longleftrightarrow> None \<notin> {sl_resource_id l, sl_owner_type l} \<and> None \<notin> {sl_fencing_token l, sl_version l} \<and>
     None \<notin> {sl_heartbeat_at l, sl_expires_at l}"

lemma coalesce_Some [simp]: "coalesce (Some v) y = Some v" "coalesce None y = Some y"
  by (simp_all add: coalesce_def)

lemma coalesce_present: "None \<noteq> x \<Longrightarrow> coalesce x y = x"
  by (cases x) simp_all

lemma upgrade_lease_complete: "lease_complete l \<Longrightarrow> upgrade_lease f l = l"
  by (cases l) (simp add: lease_complete_def upgrade_lease_def coalesce_present)

lemma lease_upgraded: "lease_complete (upgrade_lease f l)"
  by (auto simp: lease_complete_def upgrade_lease_def coalesce_def split: option.splits)

lemma rows_in_order:
  assumes "sorted (map so_id rows)" "distinct (map so_id rows)"
  shows "sort_key so_id (rows_by_case rows) = rows"
proof -
  have "inj_on so_id (set rows)" using assms(2) by (simp add: distinct_map)
  moreover have "sorted (map so_id (sort_key so_id (rows_by_case rows)))" by simp
  ultimately show ?thesis
    by (intro map_sorted_distinct_set_unique [where f = so_id])
      (use assms in \<open>simp_all add: rows_by_case_def distinct_map\<close>)
qed

lemma complete_start:
  assumes "sr_protected s" "sorted (map so_id (sr_events s))" "distinct (map so_id (sr_events s))"
    and "list_all is_complete (sr_events s)" "list_all lease_complete (sr_leases s)" "unique_on hd_case_id (sr_heads s)"
    and "\<And>cid. follows (amb_sha a) genesis_hash 1 (stream cid (sr_events s))"
    and "\<And>cid. case select_first (\<lambda>x. hd_case_id x = cid) (sr_heads s) of
        None \<Rightarrow> stream cid (sr_events s) = []
      | Some x \<Rightarrow> (hd_last_sequence x, hd_last_event_hash x) = end_after (0, genesis_hash) (stream cid (sr_events s))"
  shows "init_db a f s = Inr s"
proof -
  let ?rows = "rows_by_case (sr_events s)"
  have all: "list_all is_complete ?rows" using assms(4) by (simp add: list_all_iff rows_by_case_def)
  obtain x where x: "chain_rows a True (sr_tick s) [] ?rows = Inr x" using chain_rows_returns all by blast
  obtain t es ws where run: "chain_rows a True (sr_tick s) [] ?rows = Inr (t, es, ws)" using x by (cases x) auto
  have ws: "t = sr_tick s" "ws = ?rows" using chain_rows_complete [OF all run] by simp_all
  have sorted: "stream cid ?rows = stream cid (sr_events s)" for cid
    using assms(2) by (simp add: stream_rows_by_case sort_key_id_if_sorted)
  have "\<forall>cid. follows (amb_sha a) (snd (end_of [] cid)) (Suc (fst (end_of [] cid))) (stream cid ?rows)"
    using assms(7) by (simp add: sorted end_of_def)
  note streams = chain_rows_streams [OF run this]
  have es: "end_of es cid = end_after (0, genesis_hash) (stream cid (sr_events s))" for cid
    using conjunct1 [OF streams, rule_format, of cid] by (simp add: end_of_def ws sorted)
  have keys: "distinct (map fst es)" "map_of es cid = None \<longleftrightarrow> stream cid (sr_events s) = []" for cid
    using chain_rows_ends [OF run] by (simp_all add: sorted)
  have "fold upsert_head es (sr_heads s) = sr_heads s"
  proof (rule fold_same [OF assms(6)])
    fix c n h assume "(c, n, h) \<in> set es"
    then have m: "map_of es c = Some (n, h)" using keys(1) by simp
    then have "stream c (sr_events s) \<noteq> []" using keys(2) [of c] by simp
    moreover have "end_after (0, genesis_hash) (stream c (sr_events s)) = (n, h)" using es [of c] m by (simp add: end_of_def)
    ultimately show "\<exists>x. select_first (\<lambda>x. hd_case_id x = c) (sr_heads s) = Some x \<and> hd_last_sequence x = n \<and> hd_last_event_hash x = h"
      using assms(8) [of c] by (auto split: option.splits)
  qed
  moreover have "map (upgrade_lease f) (sr_leases s) = sr_leases s"
    using assms(5) by (intro map_idI) (simp add: list_all_iff upgrade_lease_complete)
  ultimately show ?thesis
    using run assms(1) rows_in_order [OF assms(2,3)]
    by (simp add: init_db_def migrate_case_leases_def migrate_event_stream_def ws)
qed


text \<open>
  C34: An older ledger is upgraded to one that verifies.  Whatever part of each stream was
  already chained, starting returns; afterwards every stream verifies and is continued by
  its head, so that the next event can be appended, no column that the older schema had is
  changed, and no lease lacks its token, owner type or expiry.
\<close>

theorem upgraded_ledger_verifies:
  assumes "upgradable a s" "\<not> sr_protected s"
  shows "\<exists>s'. init_db a five_minutes_after s = Inr s' \<and> sr_protected s' \<and> chain_inv (amb_sha a) (ledger_of d s') \<and>
    (\<forall>cid. cv_valid (verify_event_chain (amb_sha a) cid (ledger_of d s')) \<and>
      map original (stream cid (sr_events s')) = map original (stream cid (sr_events s))) \<and>
    list_all lease_complete (sr_leases s')"
proof -
  let ?s = "s\<lparr>sr_leases := map (upgrade_lease five_minutes_after) (sr_leases s)\<rparr>"
  have "upgradable a ?s" "\<not> sr_protected ?s" using assms by (simp_all add: upgradable_def)
  then obtain t es ws where run: "migrate_event_stream a ?s = Inr (?s\<lparr>sr_tick := t, sr_events := sort_key so_id ws,
      sr_heads := fold upsert_head es (sr_heads ?s), sr_protected := True\<rparr>)" (is "_ = Inr ?t")
    and ws: "\<And>cid. stream cid (sort_key so_id ws) = stream cid ws" "map original ws = map original (rows_by_case (sr_events s))"
    "\<And>cid. continued (amb_sha a) (0, genesis_hash) (stream cid ws)" "\<And>cid. end_of es cid = end_after (0, genesis_hash) (stream cid ws)"
    and es: "distinct (map fst es)" "\<And>cid. map_of es cid = None \<longleftrightarrow> stream cid ws = []"
    by (rule migrated_run) auto
  have old: "map original (stream cid ws) = map original (stream cid (sr_events s))" for cid
    using stream_original [OF ws(2)] assms(1) by (simp add: stream_rows_by_case upgradable_def sort_key_id_if_sorted)
  have "chain_inv (amb_sha a) (ledger_of d ?t)"
  proof (rule chained_ledger)
    show "unique_on hd_case_id (sr_heads ?t)" using assms(1) by (simp add: upgradable_def unique_fold)
    show "continued (amb_sha a) (0, genesis_hash) (stream cid (sr_events ?t))" for cid using ws(1,3) by simp
    fix cid
    have empty: "stream cid ws = [] \<longleftrightarrow> stream cid (sr_events s) = []" using old [of cid] by (metis map_is_Nil_conv)
    show "case select_first (\<lambda>x. hd_case_id x = cid) (sr_heads ?t) of None \<Rightarrow> stream cid (sr_events ?t) = []
      | Some x \<Rightarrow> (hd_last_sequence x, hd_last_event_hash x) = end_after (0, genesis_hash) (stream cid (sr_events ?t))"
    proof (cases "map_of es cid")
      case None
      then have "stream cid ws = []" "stream cid (sr_events s) = []" using es(2) empty by simp_all
      moreover have "hd_last_sequence x = 0 \<and> hd_last_event_hash x = genesis_hash"
        if "select_first (\<lambda>x. hd_case_id x = cid) (sr_heads s) = Some x" for x
        using select_first_Some [OF that] assms(1) calculation(2) by (auto simp: upgradable_def)
      ultimately show ?thesis using get_head_fold [OF es(1), of cid "sr_heads s"] None ws(1)
        by (auto simp: end_after_def split: option.split)
    next
      case (Some e)
      then have "e = end_after (0, genesis_hash) (stream cid ws)" using ws(4) [of cid] by (simp add: end_of_def)
      then show ?thesis using get_head_fold [OF es(1), of cid "sr_heads s"] Some ws(1)
        by (auto simp: end_after_def split: option.split)
    qed
  qed
  moreover have "init_db a five_minutes_after s = Inr ?t" using run by (simp add: init_db_def migrate_case_leases_def)
  moreover have "list_all lease_complete (sr_leases ?t)" by (simp add: list_all_iff lease_upgraded)
  ultimately show ?thesis using chain_inv_verified ws(1) old by (intro exI [of _ ?t]) simp
qed

lemma stored_follows:
  "cv_valid (verify_events sha h n es) \<Longrightarrow> \<forall>e \<in> set es. is_complete (stored_event_of e) \<Longrightarrow> follows sha h n (map stored_event_of es)"
proof (induction es arbitrary: h n)
  case (Cons e es)
  then show ?case by (auto simp: stored_event_of_def as_event_def row_hash_def blank_def split: if_splits)
qed simp

lemma stream_store_of: "stream cid (sr_events (store_of d)) = map stored_event_of (case_events cid d)"
  by (simp add: stream_def store_of_def case_events_def filter_map comp_def stored_event_of_def)

text \<open>
  C35: Restarting on a ledger that the repository wrote changes nothing: no row is written,
  which the append-only trigger would refuse, no uuid is drawn, and no head or lease moves.
\<close>

theorem restart_changes_nothing:
  assumes "chain_inv (amb_sha a) d" "sorted (map ev_id (t_events d))" "distinct (map ev_id (t_events d))"
    and "\<forall>e \<in> set (t_events d). is_complete (stored_event_of e)"
  shows "init_db a five_minutes_after (store_of d) = Inr (store_of d)"
proof (rule complete_start)
  have ids: "so_id \<circ> stored_event_of = ev_id" by (auto simp: stored_event_of_def)
  then show "sorted (map so_id (sr_events (store_of d)))" "distinct (map so_id (sr_events (store_of d)))"
    using assms(2,3) by (simp_all add: store_of_def)
  show "list_all is_complete (sr_events (store_of d))" using assms(4) by (simp add: store_of_def list_all_iff)
  show "list_all lease_complete (sr_leases (store_of d))" by (simp add: store_of_def list_all_iff stored_lease_of_def lease_complete_def)
  fix cid
  have v: "cv_valid (verify_events (amb_sha a) genesis_hash 1 (case_events cid d))" "head_matches cid d"
    using assms(1) by (simp_all add: chain_inv_def)
  show "follows (amb_sha a) genesis_hash 1 (stream cid (sr_events (store_of d)))"
    unfolding stream_store_of by (rule stored_follows [OF v(1)]) (use assms(4) in \<open>auto simp: case_events_def\<close>)
  show "case select_first (\<lambda>x. hd_case_id x = cid) (sr_heads (store_of d)) of None \<Rightarrow> stream cid (sr_events (store_of d)) = []
    | Some x \<Rightarrow> (hd_last_sequence x, hd_last_event_hash x) = end_after (0, genesis_hash) (stream cid (sr_events (store_of d)))"
    using v(2) unfolding stream_store_of head_matches_def get_head_def
    by (auto simp: store_of_def end_after_def last_hash.simps last_map stored_event_of_def split: option.splits if_splits)
qed (use assms(1) in \<open>simp_all add: store_of_def chain_inv_def\<close>)


section \<open>An older ledger and a current one\<close>

definition old_event :: "nat \<Rightarrow> string \<Rightarrow> string \<Rightarrow> stored_event" where
  "old_event n cid ty = \<lparr>so_id = n, so_case_id = cid, so_event_type = ty, so_step_name = ''orchestrator'', so_actor = ''AUTOMATION'',
     so_payload = None, so_timestamp = int n * second_us, so_event_id = None, so_sequence = None, so_created_at = None,
     so_previous_event_hash = None, so_event_hash = None\<rparr>"

definition old_lease :: stored_lease where
  "old_lease = \<lparr>sl_case_id = ''C-1'', sl_resource_id = None, sl_owner_type = None, sl_owner_id = ''automation-7'',
     sl_fencing_token = None, sl_version = None, sl_acquired_at = 0, sl_heartbeat_at = None, sl_expires_at = None, sl_released_at = None\<rparr>"

definition old_store :: store where
  "old_store = \<lparr>sr_tick = 0, sr_events = [old_event 1 ''C-1'' ''CASE_CREATED'', old_event 2 ''C-2'' ''CASE_CREATED'',
     old_event 3 ''C-1'' ''CASE_STATUS_UPDATED''], sr_heads = [], sr_leases = [old_lease], sr_protected = False\<rparr>"

lemma old_store_upgradable: "upgradable sample_ambient old_store"
  by (simp add: upgradable_def old_store_def old_event_def stream_def blank_def unique_on_def fresh_ids_def sample_ambient_def
      inj_on_def str_nat_inj)

theorem upgraded_ledger_verifies_witness:
  "\<exists>s'. init_db sample_ambient (\<lambda>t. t + 300 * second_us) old_store = Inr s' \<and> sr_protected s' \<and>
     cv_valid (verify_event_chain (amb_sha sample_ambient) ''C-1'' (ledger_of empty_db s')) \<and>
     list_all lease_complete (sr_leases s')"
  using upgraded_ledger_verifies [OF old_store_upgradable, of "\<lambda>t. t + 300 * second_us" empty_db]
  by (auto simp: old_store_def)

theorem restart_changes_nothing_witness:
  "init_db sample_ambient (\<lambda>t. t + 300 * second_us) (store_of sample_db) = Inr (store_of sample_db)"
proof (rule restart_changes_nothing [OF chain_inv_sample])
  show "sorted (map ev_id (t_events sample_db))" "distinct (map ev_id (t_events sample_db))"
    by (simp_all add: sample_db_def empty_db_def)
  have "isoformat t \<noteq> []" for t by (simp add: isoformat_def Let_def)
  moreover have "json_text True (VDict e) \<noteq> []" for e by simp
  moreover have "genesis_hash \<noteq> []" by (simp add: genesis_hash_def)
  ultimately show "\<forall>e \<in> set (t_events sample_db). is_complete (stored_event_of e)"
    by (simp add: sample_db_def empty_db_def with_event_def next_event_def Let_def append_event_def ensure_head_def get_head_def
        is_complete_def stored_event_of_def compute_event_hash_def sample_ambient_def str_nat_nonempty del: json_text.simps)
qed

end
