(* ===== verification/Spec2Isabelle.thy ===== *)
theory Spec2Isabelle
  imports Money Outcomes Capability Identity Policy Deadlines StateMachine Reconstruction EffectSamples RecoverySamples DisputeSamples TargetSamples
    OperatorSamples DiscoverySamples Migration
begin

text \<open>
  A verification library of Tandem, the effect-aware automation of regulated procedures.
  Tandem runs a Regulation E dispute: it files a chargeback with a card processor, posts a
  provisional credit at a core bank and sends the member a notice, each at most once,
  under statutory deadlines, with a ledger that must survive a crash at any point.

  \<^bold>\<open>The parts of the program and their theories\<close>

  \<^item> Values and errors.  \<open>Prelude\<close> (\<open>domain/errors.py\<close>, text, tables as lists of rows),
    \<open>Calendar\<close> and \<open>Values\<close> (dates, \<open>Decimal\<close>, JSON values and their canonical text),
    \<open>Programs\<close> (a program is a function from a state to a result and a state; the result
    is a value, an exception or the death of the process).
  \<^item> Domain.  \<open>Money\<close>, \<open>Outcomes\<close>, \<open>Capability\<close>, \<open>Identity\<close> (\<open>domain/\<close>), \<open>Policy\<close>
    (\<open>policy/\<close>, \<open>config.py\<close>, \<open>surfaces/routing.py\<close>), \<open>Deadlines\<close> and \<open>StateMachine\<close>
    (\<open>workflow/deadlines.py\<close>, \<open>state_machine.py\<close>).
  \<^item> The ledger (\<open>ledger/\<close>).  \<open>Ledger\<close> has the tables as a record \<open>db\<close>, the event chain and
    the simple operations of the repository; \<open>Fencing\<close>, \<open>Claims\<close>, \<open>Leases\<close> and
    \<open>Obligations\<close> its claims, leases, deadlines and obligations; \<open>Rebuild\<close>, \<open>RebuildSteps\<close>
    and \<open>Reconstruction\<close> the replay of events and the snapshot of a case; \<open>Migration\<close> what
    starting a ledger does to the tables of an older version (\<open>database.py\<close>).
  \<^item> Execution (\<open>replay/\<close>, \<open>surfaces/\<close>).  \<open>Inquiry\<close> has the prechecks, postchecks and the
    reconciliation loop against a target, \<open>HttpCommit\<close> the HTTP actuation, \<open>Surface\<close> and
    \<open>Executor\<close> the replay in a browser with its control-scoped guard, \<open>PageInvariant\<close> and
    \<open>Submits\<close> what a replay may have submitted; \<open>Engine\<close> and \<open>Effects\<close> the effect engine,
    which claims an effect, applies it and settles the claim.
  \<^item> Orchestration.  \<open>Recovery\<close> (\<open>crash_recovery.py\<close>, \<open>target_reconciliation.py\<close>),
    \<open>Workflow\<close> and \<open>Disputes\<close> (\<open>workflow/reg_e.py\<close>, the whole of \<open>run_case\<close>),
    \<open>Automation\<close> (\<open>automation/worker.py\<close>: the tasks of the runner and its startup scan).
  \<^item> Discovery (\<open>discovery/\<close>).  \<open>Provider\<close> (\<open>provider.py\<close>, \<open>gemini.py\<close>, \<open>factory.py\<close>: the
    decisions of a language model and how it is asked), \<open>TraceRecorder\<close> (\<open>recorder.py\<close>),
    \<open>ArtifactCompiler\<close> (\<open>compiler.py\<close>: from a trace to a capability) and \<open>Discovery\<close>
    (\<open>agent.py\<close>: observe, decide, act under the admission and guard of a replay, record).
  \<^item> Operators.  \<open>Evidence\<close> (\<open>security/evidence.py\<close>: redaction and masking, with a matcher
    for the regular expressions it uses), \<open>Handoff\<close> (\<open>handoff/coordinator.py\<close>,
    \<open>handoff/console.py\<close>), \<open>BrowserSession\<close> (\<open>handoff/browser_session.py\<close>: the worker of a
    live page, its queue of commands and the broker) and \<open>OperatorApi\<close> (\<open>api/app.py\<close>: the
    routes of the console, over the runner and the broker).
  \<^item> The targets (\<open>simulators/\<close>, \<open>security/auth.py\<close>).  \<open>Web\<close> has the admin token and the
    transaction of a simulator, \<open>EffectStore\<close> the contract the three simulators share,
    \<open>Processor\<close>, \<open>Documents\<close>, \<open>CoreBank\<close> and \<open>BankRoutes\<close> their tables, operations and
    routes, \<open>Targets\<close>, \<open>TargetTruth\<close> and \<open>FilingRuns\<close> the composition with Tandem's side.
  \<^item> \<open>EffectSamples\<close>, \<open>RecoverySamples\<close>, \<open>DisputeSamples\<close>, \<open>TargetSamples\<close>,
    \<open>AutomationSamples\<close>, \<open>OperatorSamples\<close> and \<open>DiscoverySamples\<close> apply the properties to concrete runs.

  \<^bold>\<open>State\<close>

  A \<open>system\<close> holds the session's view of the ledger, what is committed of it, the phase of
  the current replay and a world \<open>'w\<close>: whatever is outside Tandem.  Targets, Playwright,
  the clock, UUIDs, SHA-256, the process table, the capability files and the crash plan
  are parameters, records of functions; the simulators of the repository are one world
  among others.  Each function of the source is one definition, with its early returns
  and exceptions as branches and with every commit and crash point in its place.

  \<^bold>\<open>Interfaces\<close>

  The locale \<open>ledger_property\<close> (in \<open>Effects\<close>) states what an invariant of the ledger must
  survive, operation by operation, and gives that an execution keeps it;
  \<open>workflow_property\<close> extends it with the operations of the workflow, \<open>operator_property\<close>
  with those only operators use and \<open>session_property\<close> with the opening and closing of
  sessions.  Five invariants interpret them: the event chain, the commitments to deadlines and obligations, the
  agenda, the obligation of a case and the types of the columns.  \<open>effect_store\<close> is the
  promise of a target to record an effect once; the three simulators interpret it.
  \<open>inquired_system\<close> and \<open>actuated_system\<close> are what Tandem's checks rely on; the simulated
  processor, document system and core bank interpret them.

  \<^bold>\<open>What is shown\<close>

  \<^item> No effect without its obligation, no effect without a durable claim, no effect under a
    foreign claim; a claim is settled as applied, or released for a retry, only on evidence
    of the target; recovery after a crash obeys the same rule (\<open>Disputes\<close>, \<open>Effects\<close>,
    \<open>Recovery\<close>).
  \<^item> Claims and leases are fenced against superseded workers (\<open>Claims\<close>, \<open>Leases\<close>).
  \<^item> The event stream is tamper evident, and replaying it restores the projections on the runs
    of \<open>Reconstruction\<close>, which leave out overdue marks; starting a ledger of an older version makes it verify, starting a
    current one changes nothing (\<open>Ledger\<close>, \<open>Reconstruction\<close>, \<open>Migration\<close>).
  \<^item> A replay that says \<open>BEFORE_SUBMIT\<close> submitted nothing, the guard binds what the form
    submits, the HTTP actuation posts once (\<open>Submits\<close>, \<open>Surface\<close>, \<open>HttpCommit\<close>).
  \<^item> Against the simulated targets Tandem's outcomes are true of the tables, effects are
    counted once, balances are the opening balance plus the credits, and requests without
    the token change nothing (\<open>FilingRuns\<close>, \<open>TargetTruth\<close>, \<open>BankRoutes\<close>).
  \<^item> A task of the runner that fails leaves its case with a human, a restart resumes exactly
    what may be resumed; operators act on a live page only under an accepted token; the
    ledger survives every interleaving of requests, restarts and tasks; sanitised evidence
    hides identifiers and configured secrets (\<open>Automation\<close>, \<open>Handoff\<close>, \<open>BrowserSession\<close>,
    \<open>OperatorApi\<close>, \<open>Evidence\<close>).
  \<^item> Discovery clicks no more than a replay would, asks a model a bounded number of times and
    returns a trace that says what was done; what is compiled from it is bound by the
    approved policy and does not depend on what was typed or read (\<open>Discovery\<close>, \<open>Provider\<close>,
    \<open>ArtifactCompiler\<close>).
  \<^item> Money, identities, capabilities, policies and business days behave as specified.
  \<^item> Some theorems state where the code falls short: an amount beyond the decimal context,
    lost overdue marks, a deadline reloaded without its offset, a balance out of range, a
    case reference that does not fit into a path, a failed task that is locked out by its
    own session, a lease handed to an owner that no worker is, a token shown on a page, the
    unmasked request for an intervention, a New Year's Day on a Saturday that no year observes.

  \<^bold>\<open>Bounds and recursion\<close>

  The reconciliation loop runs on the number of inquiries that are left, \<open>max_attempts - 1\<close>
  at the start, which is the bound of the source; the business-day loop has a termination
  proof.  References in a JSON schema are inlined to a depth of 300 (\<open>schema_depth\<close>): the
  schema of a decision has one level of them, and a schema that refers to itself exhausts
  Python's stack.  Lists, steps and candidates are consumed structurally, and the cycles of
  discovery are those the agent is given, so nothing else needs fuel.  Amounts are exact over the transport below ten to the fifteen cents, because JSON
  numbers are doubles; the hypothesis \<open>faithful_web\<close> says so.

  \<^bold>\<open>Not modelled\<close>

  The HTML of the pages, thread pools and the start of browsers, the script that discovery
  runs in a page, the creation of tables and the pragmas of a connection, the process control
  of the simulators, the command line and the demonstration scripts.
  Concurrency is modelled where the code handles it, in the interleavings of repository
  operations on claims and leases; one simulator serves one request at a time, as its
  immediate transactions make it.
\<close>

end
